(* ===== verification/Rtext.thy ===== *)
theory Rtext
  imports Prelude
begin

text \<open>
  Rust strings.  A \<open>String\<close> or \<open>&str\<close> is the list of its Unicode scalar values (what
  \<open>chars()\<close> yields), a \<open>char\<close> is such a value as a \<open>nat\<close>; \<open>as_bytes\<close> is the UTF-8
  encoding and \<open>len()\<close> counts its bytes.  ASCII literals of the source are written
  \<open>lit ''...''\<close>.  The operations are those of Rust's standard library the program uses.
\<close>

section \<open>Strings and literals\<close>

type_synonym rchar = nat
type_synonym rstr = "rchar list"

definition lit :: "string \<Rightarrow> rstr" where
  "lit s = map of_char s"

lemma lit_Nil: "lit [] = []"
  by (simp add: lit_def)

lemma lit_Cons: "lit (c # s) = of_char c # lit s"
  by (simp add: lit_def)

lemmas lit_eval = lit_Nil lit_Cons

lemma lit_inject [simp]: "lit s = lit t \<longleftrightarrow> s = t"
  by (simp add: lit_def inj_map_eq_map inj_of_char)

lemma length_lit [simp]: "length (lit s) = length s"
  by (simp add: lit_def)

section \<open>Characters\<close>

text \<open>\<open>char::is_whitespace\<close> is the Unicode property White\_Space, \<open>is_control\<close> is Cc.\<close>

definition is_whitespace :: "rchar \<Rightarrow> bool" where
  "is_whitespace c \<longleftrightarrow> (9 \<le> c \<and> c \<le> 13) \<or> c = 32 \<or> c = 133 \<or> c = 160 \<or> c = 5760 \<or>
     (8192 \<le> c \<and> c \<le> 8202) \<or> c = 8232 \<or> c = 8233 \<or> c = 8239 \<or> c = 8287 \<or> c = 12288"

definition is_control :: "rchar \<Rightarrow> bool" where
  "is_control c \<longleftrightarrow> c \<le> 31 \<or> (127 \<le> c \<and> c \<le> 159)"

definition is_ascii_digit :: "rchar \<Rightarrow> bool" where
  "is_ascii_digit c \<longleftrightarrow> 48 \<le> c \<and> c \<le> 57"

definition is_ascii_upper :: "rchar \<Rightarrow> bool" where
  "is_ascii_upper c \<longleftrightarrow> 65 \<le> c \<and> c \<le> 90"

definition is_ascii_lower :: "rchar \<Rightarrow> bool" where
  "is_ascii_lower c \<longleftrightarrow> 97 \<le> c \<and> c \<le> 122"

definition is_ascii_alphanumeric :: "rchar \<Rightarrow> bool" where
  "is_ascii_alphanumeric c \<longleftrightarrow> is_ascii_digit c \<or> is_ascii_upper c \<or> is_ascii_lower c"

definition to_ascii_uppercase :: "rchar \<Rightarrow> rchar" where
  "to_ascii_uppercase c = (if is_ascii_lower c then c - 32 else c)"

definition to_ascii_lowercase :: "rchar \<Rightarrow> rchar" where
  "to_ascii_lowercase c = (if is_ascii_upper c then c + 32 else c)"

definition str_upper :: "rstr \<Rightarrow> rstr" where
  "str_upper s = map to_ascii_uppercase s"

definition str_lower :: "rstr \<Rightarrow> rstr" where
  "str_lower s = map to_ascii_lowercase s"

section \<open>Searching and cutting\<close>

definition trim_start :: "rstr \<Rightarrow> rstr" where
  "trim_start s = dropWhile is_whitespace s"

definition trim :: "rstr \<Rightarrow> rstr" where
  "trim s = rev (dropWhile is_whitespace (rev (dropWhile is_whitespace s)))"

definition starts_with :: "rstr \<Rightarrow> rstr \<Rightarrow> bool" where
  "starts_with s p \<longleftrightarrow> take (length p) s = p"

definition ends_with_char :: "rstr \<Rightarrow> rchar \<Rightarrow> bool" where
  "ends_with_char s c \<longleftrightarrow> s \<noteq> [] \<and> last s = c"

definition strip_prefix :: "rstr \<Rightarrow> rstr \<Rightarrow> rstr option" where
  "strip_prefix p s = (if take (length p) s = p then Some (drop (length p) s) else None)"

fun contains :: "rstr \<Rightarrow> rstr \<Rightarrow> bool" where
  "contains [] n \<longleftrightarrow> n = []"
| "contains (c # s) n \<longleftrightarrow> starts_with (c # s) n \<or> contains s n"

fun split_once :: "rchar \<Rightarrow> rstr \<Rightarrow> (rstr \<times> rstr) option" where
  "split_once d [] = None"
| "split_once d (c # s) =
     (if c = d then Some ([], s)
      else map_option (\<lambda>(a, b). (c # a, b)) (split_once d s))"

lemma starts_with_append [simp]: "starts_with (p @ s) p"
  by (simp add: starts_with_def)

lemma strip_prefix_append [simp]: "strip_prefix p (p @ s) = Some s"
  by (simp add: strip_prefix_def)

lemma strip_prefix_Some: "strip_prefix p s = Some r \<longleftrightarrow> s = p @ r"
  by (auto simp: strip_prefix_def) (metis append_take_drop_id)

lemma contains_iff: "contains s n \<longleftrightarrow> (\<exists>u v. s = u @ n @ v)"
proof (induction s)
  case Nil
  then show ?case by auto
next
  case (Cons c s)
  have "starts_with (c # s) n \<longleftrightarrow> (\<exists>v. c # s = n @ v)"
    by (metis append_eq_conv_conj append_take_drop_id starts_with_def)
  then have "contains (c # s) n \<longleftrightarrow> (\<exists>v. c # s = n @ v) \<or> (\<exists>u v. s = u @ n @ v)"
    using Cons by simp
  also have "\<dots> \<longleftrightarrow> (\<exists>u v. c # s = u @ n @ v)"
    by (metis append_Cons append_Nil list.inject neq_Nil_conv)
  finally show ?case .
qed

lemma split_once_Some: "split_once d s = Some (a, b) \<Longrightarrow> s = a @ d # b \<and> d \<notin> set a"
  by (induction s arbitrary: a) (auto split: if_splits)

lemma split_once_None: "split_once d s = None \<longleftrightarrow> d \<notin> set s"
  by (induction s) auto

lemma set_dropWhile_mem: "x \<in> set (dropWhile P xs) \<Longrightarrow> x \<in> set xs"
  by (induction xs) (auto split: if_splits)

lemma set_trim: "x \<in> set (trim s) \<Longrightarrow> x \<in> set s"
  by (auto simp: trim_def dest!: set_dropWhile_mem)

section \<open>Numbers as text\<close>

fun dec :: "nat \<Rightarrow> rstr" where
  "dec n = (if n < 10 then [48 + n] else dec (n div 10) @ [48 + n mod 10])"

declare dec.simps [simp del]

definition hex_digit :: "bool \<Rightarrow> nat \<Rightarrow> rchar" where
  "hex_digit upper n = (if n < 10 then 48 + n else if upper then 55 + n else 87 + n)"

definition hex :: "bool \<Rightarrow> bytes \<Rightarrow> rstr" where
  "hex upper bs =
     concat (map (\<lambda>b. [hex_digit upper (unat b div 16), hex_digit upper (unat b mod 16)]) bs)"

lemma dec_digits: "\<forall>c \<in> set (dec n). is_ascii_digit c"
proof (induction n rule: dec.induct)
  case (1 n)
  have "n mod 10 < 10" by simp
  with 1 show ?case
    by (subst dec.simps) (auto simp: is_ascii_digit_def simp del: mod_less_divisor)
qed

lemma dec_nonempty [simp]: "dec n \<noteq> []"
  by (subst dec.simps) simp

lemma dec_inject: "dec m = dec n \<longleftrightarrow> m = n"
proof (induction m arbitrary: n rule: dec.induct)
  case (1 m)
  show ?case
  proof (cases "m < 10 \<or> n < 10")
    case True
    then show ?thesis
      by (auto simp: dec.simps [of m] dec.simps [of n] dec_nonempty [symmetric])
  next
    case False
    then have "dec m = dec n \<longleftrightarrow> dec (m div 10) = dec (n div 10) \<and> m mod 10 = n mod 10"
      by (simp add: dec.simps [of m] dec.simps [of n])
    also have "\<dots> \<longleftrightarrow> m div 10 = n div 10 \<and> m mod 10 = n mod 10"
      using "1.IH" False by simp
    also have "\<dots> \<longleftrightarrow> m = n"
      by (metis div_mult_mod_eq)
    finally show ?thesis .
  qed
qed

lemma hex_digit_inject:
  "m < 16 \<Longrightarrow> n < 16 \<Longrightarrow> hex_digit u m = hex_digit u n \<longleftrightarrow> m = n"
  by (auto simp: hex_digit_def split: if_splits)

lemma hex_Nil [simp]: "hex u [] = []"
  by (simp add: hex_def)

lemma hex_Cons [simp]:
  "hex u (b # bs) =
    hex_digit u (unat b div 16) # hex_digit u (unat b mod 16) # hex u bs"
  by (simp add: hex_def)

lemma length_hex [simp]: "length (hex u bs) = 2 * length bs"
  by (induction bs) auto

lemma unat_byte_less: "unat (b :: u8) < 256"
  using unsigned_less [of b] by simp

lemma hex_inject: "hex u as = hex u bs \<longleftrightarrow> as = bs"
proof (induction as arbitrary: bs)
  case Nil
  then show ?case by (cases bs) auto
next
  case (Cons a as)
  show ?case
  proof (cases bs)
    case Nil
    then show ?thesis by simp
  next
    case (Cons b bs')
    have "unat a div 16 < 16" "unat b div 16 < 16"
      using unat_byte_less [of a] unat_byte_less [of b] by auto
    then have "hex u (a # as) = hex u bs \<longleftrightarrow>
        (unat a div 16 = unat b div 16 \<and> unat a mod 16 = unat b mod 16) \<and> hex u as = hex u bs'"
      using Cons by (simp add: hex_digit_inject)
    also have "\<dots> \<longleftrightarrow> unat a = unat b \<and> as = bs'"
      by (metis Cons.IH div_mult_mod_eq)
    finally show ?thesis
      using Cons by (simp add: word_unat_eq_iff)
  qed
qed

section \<open>UTF-8\<close>

definition utf8_nats :: "rchar \<Rightarrow> nat list" where
  "utf8_nats c =
     (if c < 128 then [c]
      else if c < 2048 then [192 + c div 64, 128 + c mod 64]
      else if c < 65536 then [224 + c div 4096, 128 + c div 64 mod 64, 128 + c mod 64]
      else [240 + c div 262144, 128 + c div 4096 mod 64, 128 + c div 64 mod 64, 128 + c mod 64])"

definition as_bytes :: "rstr \<Rightarrow> bytes" where
  "as_bytes s = map word_of_nat (concat (map utf8_nats s))"

definition str_len :: "rstr \<Rightarrow> nat" where
  "str_len s = length (as_bytes s)"

definition is_ascii :: "rstr \<Rightarrow> bool" where
  "is_ascii s \<longleftrightarrow> list_all (\<lambda>c. c < 128) s"

text \<open>What Rust guarantees of every \<open>char\<close>: it is below \<open>0x110000\<close>.\<close>

definition valid_str :: "rstr \<Rightarrow> bool" where
  "valid_str s \<longleftrightarrow> list_all (\<lambda>c. c < 1114112) s"

lemma as_bytes_Nil [simp]: "as_bytes [] = []"
  by (simp add: as_bytes_def)

lemma as_bytes_append [simp]: "as_bytes (s @ t) = as_bytes s @ as_bytes t"
  by (simp add: as_bytes_def)

lemma is_ascii_valid: "is_ascii s \<Longrightarrow> valid_str s"
  by (auto simp: is_ascii_def valid_str_def list_all_iff)

lemma is_ascii_len: "is_ascii s \<Longrightarrow> str_len s = length s"
  by (induction s) (auto simp: is_ascii_def str_len_def as_bytes_def utf8_nats_def)

lemma valid_lit [simp]: "valid_str (lit s)"
proof (induction s)
  case Nil
  show ?case by (simp add: lit_eval valid_str_def)
next
  case (Cons c s)
  have "of_char c < (256 :: nat)" by (simp add: of_char_def)
  then have "of_char c < (1114112 :: nat)" by linarith
  with Cons show ?case by (simp add: lit_eval valid_str_def)
qed

lemma utf8_nats_byte: "c < 1114112 \<Longrightarrow> \<forall>b \<in> set (utf8_nats c). b < 256"
  by (auto simp: utf8_nats_def)

lemma div_mod_64: "c div 64 = d div 64 \<Longrightarrow> c mod 64 = d mod 64 \<Longrightarrow> c = (d :: nat)"
  by (metis div_mult_mod_eq)

lemma div_mod_4096:
  fixes c d :: nat
  assumes "c div 4096 = d div 4096" "c div 64 mod 64 = d div 64 mod 64" "c mod 64 = d mod 64"
  shows "c = d"
proof (rule div_mod_64)
  have "c div 64 div 64 = d div 64 div 64"
    using assms(1) by (simp add: div_mult2_eq [symmetric])
  then show "c div 64 = d div 64"
    using assms(2) by (rule div_mod_64)
qed (rule assms(3))

lemma div_mod_262144:
  fixes c d :: nat
  assumes "c div 262144 = d div 262144" "c div 4096 mod 64 = d div 4096 mod 64"
    "c div 64 mod 64 = d div 64 mod 64" "c mod 64 = d mod 64"
  shows "c = d"
proof (rule div_mod_4096)
  have "c div 4096 div 64 = d div 4096 div 64"
    using assms(1) by (simp add: div_mult2_eq [symmetric])
  then show "c div 4096 = d div 4096"
    using assms(2) by (rule div_mod_64)
qed (rule assms(3), rule assms(4))

lemma utf8_nats_prefix_free:
  assumes "c < 1114112" and "d < 1114112" and "utf8_nats c @ u = utf8_nats d @ v"
  shows "c = d \<and> u = v"
proof -
  have q: "c < 2048 \<Longrightarrow> c div 64 < 32" "c < 65536 \<Longrightarrow> c div 4096 < 16"
    "d < 2048 \<Longrightarrow> d div 64 < 32" "d < 65536 \<Longrightarrow> d div 4096 < 16"
    by arith+
  have "hd (utf8_nats c) = hd (utf8_nats d)"
    using assms(3) by (auto simp: utf8_nats_def split: if_splits)
  then have same: "(c < 128 \<longleftrightarrow> d < 128) \<and> (c < 2048 \<longleftrightarrow> d < 2048) \<and> (c < 65536 \<longleftrightarrow> d < 65536)"
    using q by (auto simp: utf8_nats_def split: if_splits)
  have e: "utf8_nats c @ u = utf8_nats d @ v"
    by (rule assms(3))
  consider "c < 128" | "128 \<le> c" "c < 2048" | "2048 \<le> c" "c < 65536" | "65536 \<le> c"
    by linarith
  then have "c = d"
  proof cases
    case 1
    with same have "d < 128" by simp
    with 1 e show ?thesis by (simp add: utf8_nats_def)
  next
    case 2
    with same have "128 \<le> d" "d < 2048" by linarith+
    with 2 e have "c div 64 = d div 64" "c mod 64 = d mod 64"
      by (simp_all add: utf8_nats_def)
    then show ?thesis by (rule div_mod_64)
  next
    case 3
    with same have "2048 \<le> d" "d < 65536" by linarith+
    with 3 e have "c div 4096 = d div 4096" "c div 64 mod 64 = d div 64 mod 64" "c mod 64 = d mod 64"
      by (simp_all add: utf8_nats_def)
    then show ?thesis by (rule div_mod_4096)
  next
    case 4
    with same have "65536 \<le> d" by linarith
    with 4 e have "c div 262144 = d div 262144" "c div 4096 mod 64 = d div 4096 mod 64"
      "c div 64 mod 64 = d div 64 mod 64" "c mod 64 = d mod 64"
      by (simp_all add: utf8_nats_def)
    then show ?thesis by (rule div_mod_262144)
  qed
  with assms(3) show ?thesis by simp
qed

lemma utf8_concat_inject:
  "valid_str s \<Longrightarrow> valid_str t \<Longrightarrow>
    concat (map utf8_nats s) = concat (map utf8_nats t) \<Longrightarrow> s = t"
proof (induction s arbitrary: t)
  case Nil
  then show ?case
    by (cases t) (auto simp: utf8_nats_def split: if_splits)
next
  case (Cons c s)
  then obtain d t' where t: "t = d # t'"
    by (cases t) (auto simp: utf8_nats_def split: if_splits)
  with Cons.prems have "c = d \<and> concat (map utf8_nats s) = concat (map utf8_nats t')"
    by (intro utf8_nats_prefix_free) (auto simp: valid_str_def)
  with Cons t show ?case
    by (auto simp: valid_str_def)
qed

lemma map_byte_inject:
  assumes "\<forall>x \<in> set xs. x < 256" and "\<forall>y \<in> set ys. y < 256"
  shows "map (word_of_nat :: nat \<Rightarrow> u8) xs = map word_of_nat ys \<longleftrightarrow> xs = ys"
proof -
  have "map unat (map (word_of_nat :: nat \<Rightarrow> u8) zs) = zs" if "\<forall>z \<in> set zs. z < 256" for zs
    using that by (induction zs) (auto simp: unat_of_nat)
  with assms show ?thesis
    by metis
qed

lemma as_bytes_inject:
  assumes "valid_str s" and "valid_str t"
  shows "as_bytes s = as_bytes t \<longleftrightarrow> s = t"
proof -
  have "\<forall>b \<in> set (concat (map utf8_nats r)). b < 256" if "valid_str r" for r
    using that by (auto simp: valid_str_def list_all_iff dest!: utf8_nats_byte)
  with assms show ?thesis
    by (auto simp: as_bytes_def map_byte_inject dest: utf8_concat_inject)
qed

end
