(* ===== verification/Ptypes.thy ===== *)
theory Ptypes
  imports Rtext
begin

text \<open>
  The data types of the wire protocol (\<open>crates/protocol/src/types.rs\<close>, \<open>messages.rs\<close>,
  \<open>version.rs\<close>) with the source's variants and fields.  A UUID is its 128-bit value, a
  path its text, a \<open>HashMap\<close> a partial map; \<open>u16\<close>, \<open>u32\<close>, \<open>u64\<close>, \<open>i32\<close> fields are
  \<open>nat\<close> (\<open>int\<close> for \<open>i32\<close>).
\<close>

section \<open>Contract version\<close>

definition CONTRACT_VERSION :: nat where "CONTRACT_VERSION = 5"
definition MIN_PAIRED_CONTRACT_VERSION :: nat where "MIN_PAIRED_CONTRACT_VERSION = 4"

section \<open>Identifiers\<close>

datatype session_id = SessionId (session_uuid: nat)
datatype client_id = ClientId (client_uuid: nat)

text \<open>The derived \<open>Ord\<close> of the two identifiers is the order of the UUID values.\<close>

instantiation session_id :: linorder
begin
definition less_eq_session_id :: "session_id \<Rightarrow> session_id \<Rightarrow> bool" where
  "less_eq_session_id a b \<longleftrightarrow> session_uuid a \<le> session_uuid b"
definition less_session_id :: "session_id \<Rightarrow> session_id \<Rightarrow> bool" where
  "less_session_id a b \<longleftrightarrow> session_uuid a < session_uuid b"
instance
  by standard (auto simp: less_eq_session_id_def less_session_id_def session_id.expand)
end

instantiation client_id :: linorder
begin
definition less_eq_client_id :: "client_id \<Rightarrow> client_id \<Rightarrow> bool" where
  "less_eq_client_id a b \<longleftrightarrow> client_uuid a \<le> client_uuid b"
definition less_client_id :: "client_id \<Rightarrow> client_id \<Rightarrow> bool" where
  "less_client_id a b \<longleftrightarrow> client_uuid a < client_uuid b"
instance
  by standard (auto simp: less_eq_client_id_def less_client_id_def client_id.expand)
end

section \<open>Shared enums and records\<close>

datatype client_kind = LocalCli | IosApp | AndroidApp
datatype push_platform = Apns | Fcm
datatype agent_source = SrcClaude | SrcCodex
datatype agent_state = Idle | Working | AwaitingInput | Crashed

record client_size =
  cols :: nat
  rows :: nat

record session_summary =
  ss_id :: session_id
  ss_name :: rstr
  ss_command :: "rstr list"
  ss_cwd :: rstr
  ss_created_at :: nat
  ss_last_activity :: nat
  ss_state :: agent_state
  ss_last_line :: "rstr option"
  ss_model :: "rstr option"

record pairing_ticket =
  pt_code :: rstr
  pt_node_id :: rstr
  pt_relay_url :: "rstr option"
  pt_addrs :: "rstr list"
  pt_expires_at :: nat

record pairing_rendezvous =
  pr_node_id :: rstr
  pr_relay_url :: "rstr option"
  pr_addrs :: "rstr list"
  pr_expires_at :: nat

record device_summary =
  ds_name :: rstr
  ds_device_node_id :: rstr
  ds_paired_at :: nat
  ds_last_seen :: "nat option"
  ds_push_platform :: "push_platform option"

record capabilities =
  push_notifications :: bool

definition capabilities_v1 :: "bool \<Rightarrow> capabilities" where
  "capabilities_v1 p = \<lparr>push_notifications = p\<rparr>"

definition default_client_size :: client_size where
  "default_client_size = \<lparr>cols = 80, rows = 24\<rparr>"

definition rendezvous :: "pairing_ticket \<Rightarrow> pairing_rendezvous" where
  "rendezvous t = \<lparr>pr_node_id = pt_node_id t, pr_relay_url = pt_relay_url t,
     pr_addrs = pt_addrs t, pr_expires_at = pt_expires_at t\<rparr>"

definition into_ticket :: "pairing_rendezvous \<Rightarrow> rstr \<Rightarrow> pairing_ticket" where
  "into_ticket r code = \<lparr>pt_code = code, pt_node_id = pr_node_id r,
     pt_relay_url = pr_relay_url r, pt_addrs = pr_addrs r, pt_expires_at = pr_expires_at r\<rparr>"

text \<open>\<open>now_ms\<close>: milliseconds since the epoch, capped at \<open>u64::MAX\<close>; the clock is an argument.\<close>

definition now_ms :: "nat \<Rightarrow> nat" where
  "now_ms clock_millis = (if clock_millis \<le> u64_max then clock_millis else u64_max)"

section \<open>Messages\<close>

datatype error_code =
  VersionMismatch | Unauthorized | Forbidden | NotFound | InvalidRequest | Internal

datatype client_msg =
    Hello client_kind rstr nat
  | ListSessions
  | CreateSession rstr "rstr list" rstr "rstr \<rightharpoonup> rstr" client_size
  | AttachSession session_id client_size "nat option"
  | DetachSession
  | KillSession session_id
  | Input session_id bytes
  | Resize session_id client_size
  | Ping nat
  | BeginPairing "rstr option"
  | ApprovePairing client_id bool
  | PairWithCode rstr rstr rstr
  | ListDevices
  | RemoveDevice rstr
  | RegisterPushToken push_platform rstr
  | AgentStateEvent session_id agent_source agent_state "rstr option"
  | SubscribeSessions
  | UnregisterPushToken push_platform rstr
  | UnpairSelf

datatype server_msg =
    Welcome client_id rstr capabilities rstr
  | SessionList "session_summary list"
  | SessionCreated session_id session_summary
  | SessionKilled session_id
  | Attached session_id bytes nat
  | Output session_id nat bytes
  | AgentStateChanged session_id agent_state "rstr option"
  | SessionExited session_id int
  | Lag session_id nat
  | PairingStarted pairing_ticket
  | PairingApprovalRequested client_id rstr rstr rstr
  | PairingComplete rstr
  | DeviceList "device_summary list"
  | Pong nat
  | Error error_code rstr
  | PairingPending rstr

lemma into_ticket_rendezvous [simp]: "into_ticket (rendezvous t) (pt_code t) = t"
  by (simp add: into_ticket_def rendezvous_def)

lemma now_ms_le [simp]: "now_ms t \<le> u64_max"
  by (simp add: now_ms_def)

lemma now_ms_mono: "s \<le> t \<Longrightarrow> now_ms s \<le> now_ms t"
  by (simp add: now_ms_def)

end
