(* ===== verification/Codes.thy ===== *)
theory Codes
  imports Ptypes
begin

text \<open>
  Pairing codes, their relay locator, the short authentication string both ends display,
  and the \<open>sh1\<close> ticket text (\<open>crates/protocol/src/code.rs\<close>, \<open>pairing_security.rs\<close> and
  the ticket part of \<open>types.rs\<close>).  SHA-256, base32 and postcard are crates: they are
  parameters (\<open>sha\<close>, and the fields of \<open>ticket_crates\<close>), and what the code relies on is a
  hypothesis where it is needed.
\<close>

section \<open>Pairing codes\<close>

definition CODE_LEN :: nat where "CODE_LEN = 7"

definition CODE_ALPHABET :: rstr where
  "CODE_ALPHABET = lit ''0123456789ABCDEFGHJKMNPQRSTVWXYZ''"

definition crockford :: "rchar \<Rightarrow> rchar" where
  "crockford c =
     (let u = to_ascii_uppercase c in
      if u = of_char (CHR ''I'') \<or> u = of_char (CHR ''L'') then of_char (CHR ''1'')
      else if u = of_char (CHR ''O'') then of_char (CHR ''0'')
      else u)"

definition normalize_code :: "rstr \<Rightarrow> rstr" where
  "normalize_code input =
     map crockford (filter (\<lambda>c. \<not> is_whitespace c \<and> c \<noteq> of_char (CHR ''-'')) input)"

definition is_valid_code :: "rstr \<Rightarrow> bool" where
  "is_valid_code code \<longleftrightarrow>
     length code = CODE_LEN \<and> list_all (\<lambda>c. c \<in> set CODE_ALPHABET) code"

lemma alphabet_eval:
  "CODE_ALPHABET = [48, 49, 50, 51, 52, 53, 54, 55, 56, 57, 65, 66, 67, 68, 69, 70, 71, 72,
     74, 75, 77, 78, 80, 81, 82, 83, 84, 86, 87, 88, 89, 90]"
  by (simp add: CODE_ALPHABET_def lit_eval)

lemma crockford_eval:
  "crockford c = (if c = 73 \<or> c = 76 \<or> c = 105 \<or> c = 108 then 49
     else if c = 79 \<or> c = 111 then 48 else if 97 \<le> c \<and> c \<le> 122 then c - 32 else c)"
  by (auto simp: crockford_def to_ascii_uppercase_def is_ascii_lower_def Let_def)

lemma alphabet_length: "length CODE_ALPHABET = 32" "distinct CODE_ALPHABET"
  by (simp_all add: alphabet_eval)

lemma crockford_alphabet: "c \<in> set CODE_ALPHABET \<Longrightarrow> crockford c = c"
  by (auto simp: alphabet_eval crockford_eval)

lemma alphabet_kept:
  "c \<in> set CODE_ALPHABET \<Longrightarrow> \<not> is_whitespace c \<and> c \<noteq> of_char (CHR ''-'')"
  by (auto simp: alphabet_eval is_whitespace_def)

lemma crockford_cases:
  obtains "c = 73 \<or> c = 76 \<or> c = 105 \<or> c = 108" "crockford c = 49"
  | "c = 79 \<or> c = 111" "crockford c = 48"
  | "97 \<le> c" "c \<le> 122" "c \<noteq> 105" "c \<noteq> 108" "c \<noteq> 111" "crockford c = c - 32"
  | "c \<noteq> 73" "c \<noteq> 76" "c \<noteq> 79" "\<not> (97 \<le> c \<and> c \<le> 122)" "crockford c = c"
proof (cases "c = 73 \<or> c = 76 \<or> c = 105 \<or> c = 108")
  case True
  with that(1) show ?thesis by (auto simp: crockford_eval)
next
  case n1: False
  show ?thesis
  proof (cases "c = 79 \<or> c = 111")
    case True
    with that(2) show ?thesis by (auto simp: crockford_eval)
  next
    case False
    with n1 that(3,4) show ?thesis
      by (cases "97 \<le> c \<and> c \<le> 122") (auto simp: crockford_eval)
  qed
qed

lemma crockford_lower:
  fixes c :: nat
  assumes "97 \<le> c" "c \<le> 122" "c \<noteq> 105" "c \<noteq> 108" "c \<noteq> 111"
  shows "c - 32 \<noteq> 73" "c - 32 \<noteq> 76" "c - 32 \<noteq> 79" "c - 32 \<le> 90" "65 \<le> c - 32"
  using assms by arith+

lemma crockford_idem: "crockford (crockford c) = crockford c"
proof (cases c rule: crockford_cases)
  case 1
  show ?thesis unfolding 1(2) by (simp add: crockford_eval)
next
  case 2
  show ?thesis unfolding 2(2) by (simp add: crockford_eval)
next
  case 3
  note low = crockford_lower [OF 3(1-5)]
  show ?thesis
    unfolding 3(6) using low by (simp add: crockford_eval)
qed simp

lemma crockford_separator:
  assumes "\<not> is_whitespace c" and "c \<noteq> 45"
  shows "\<not> is_whitespace (crockford c) \<and> crockford c \<noteq> 45"
proof (cases c rule: crockford_cases)
  case 1
  show ?thesis unfolding 1(2) by (simp add: is_whitespace_def)
next
  case 2
  show ?thesis unfolding 2(2) by (simp add: is_whitespace_def)
next
  case 3
  note low = crockford_lower [OF 3(1-5)]
  show ?thesis
    unfolding 3(6) using low by (simp add: is_whitespace_def)
next
  case 4
  with assms show ?thesis by simp
qed

section \<open>Locator and authentication string\<close>

definition pairing_code_locator :: "(bytes \<Rightarrow> bytes) \<Rightarrow> rstr \<Rightarrow> rstr" where
  "pairing_code_locator sha code = hex False (sha (as_bytes (normalize_code code)))"

definition SAS_DOMAIN :: bytes where
  "SAS_DOMAIN = as_bytes (lit ''shelly-pair-sas-v1'' @ [0])"

definition SAS_BYTES :: nat where "SAS_BYTES = 10"
definition SAS_GROUP_HEX_CHARS :: nat where "SAS_GROUP_HEX_CHARS = 4"

definition sas_transcript :: "rstr \<Rightarrow> bytes \<Rightarrow> bytes \<Rightarrow> bytes" where
  "sas_transcript code daemon_key phone_key =
     SAS_DOMAIN @ as_bytes (normalize_code code) @ daemon_key @ phone_key"

function chunks :: "nat \<Rightarrow> 'a list \<Rightarrow> 'a list list" where
  "chunks n xs = (if n = 0 \<or> xs = [] then [] else take n xs # chunks n (drop n xs))"
  by pat_completeness auto
termination
  by (relation "measure (\<lambda>(n, xs). length xs)") auto

declare chunks.simps [simp del]

fun join :: "rstr \<Rightarrow> rstr list \<Rightarrow> rstr" where
  "join sep [] = []"
| "join sep [x] = x"
| "join sep (x # y # xs) = x @ sep @ join sep (y # xs)"

definition pairing_sas :: "(bytes \<Rightarrow> bytes) \<Rightarrow> rstr \<Rightarrow> bytes \<Rightarrow> bytes \<Rightarrow> rstr" where
  "pairing_sas sha code daemon_key phone_key =
     (let digest = sha (sas_transcript code daemon_key phone_key);
          encoded = hex True (take SAS_BYTES digest)
      in join (lit ''-'') (chunks SAS_GROUP_HEX_CHARS encoded))"

section \<open>Ticket text\<close>

datatype ('b, 'p) ticket_error =
    MissingPrefix
  | Base32Error 'b
  | PostcardError 'p
  | TrailingBytes nat

text \<open>The crates the ticket text is built from.\<close>

record ('b, 'p) ticket_crates =
  postcard_to_stdvec :: "pairing_ticket \<Rightarrow> 'p + bytes"
  postcard_take :: "bytes \<Rightarrow> 'p + (pairing_ticket \<times> bytes)"
  base32_encode :: "bytes \<Rightarrow> rstr"
  base32_decode :: "bytes \<Rightarrow> 'b + bytes"

definition TICKET_PREFIX :: rstr where "TICKET_PREFIX = lit ''sh1''"

definition ticket_encode ::
    "('b, 'p) ticket_crates \<Rightarrow> pairing_ticket \<Rightarrow> ('b, 'p) ticket_error + rstr" where
  "ticket_encode cr t =
     (case postcard_to_stdvec cr t of
        Inl e \<Rightarrow> Inl (PostcardError e)
      | Inr bs \<Rightarrow> Inr (TICKET_PREFIX @ base32_encode cr bs))"

definition ticket_decode ::
    "('b, 'p) ticket_crates \<Rightarrow> rstr \<Rightarrow> ('b, 'p) ticket_error + pairing_ticket" where
  "ticket_decode cr s =
     (case strip_prefix TICKET_PREFIX (trim s) of
        None \<Rightarrow> Inl MissingPrefix
      | Some body \<Rightarrow>
          (case base32_decode cr (as_bytes (str_upper body)) of
             Inl e \<Rightarrow> Inl (Base32Error e)
           | Inr bs \<Rightarrow>
               (case postcard_take cr bs of
                  Inl e \<Rightarrow> Inl (PostcardError e)
                | Inr (ticket, trailing) \<Rightarrow>
                    if trailing \<noteq> [] then Inl (TrailingBytes (length trailing))
                    else Inr ticket)))"

text \<open>
  What the ticket code relies on: postcard reads back what it wrote and leaves what
  follows, base32 decodes what it encoded and its alphabet is upper-case letters and digits.
\<close>

definition base32_char :: "rchar \<Rightarrow> bool" where
  "base32_char c \<longleftrightarrow> is_ascii_upper c \<or> is_ascii_digit c"

definition ticket_crates_ok :: "('b, 'p) ticket_crates \<Rightarrow> pairing_ticket \<Rightarrow> bytes \<Rightarrow> bool" where
  "ticket_crates_ok cr t bs \<longleftrightarrow>
     postcard_to_stdvec cr t = Inr bs \<and> postcard_take cr bs = Inr (t, []) \<and>
     base32_decode cr (as_bytes (base32_encode cr bs)) = Inr bs \<and>
     list_all base32_char (base32_encode cr bs)"

section \<open>Lemmas\<close>

lemma normalize_code_append: "normalize_code (s @ t) = normalize_code s @ normalize_code t"
  by (simp add: normalize_code_def)

lemma normalize_code_alphabet:
  "list_all (\<lambda>c. c \<in> set CODE_ALPHABET) s \<Longrightarrow> normalize_code s = s"
  by (induction s) (auto simp: normalize_code_def crockford_alphabet dest: alphabet_kept)

lemma normalize_code_kept:
  "c \<in> set (normalize_code s) \<Longrightarrow> \<not> is_whitespace c \<and> c \<noteq> 45 \<and> crockford c = c"
  by (auto simp: normalize_code_def crockford_idem crockford_separator)

lemma normalize_code_fixed:
  "\<forall>c \<in> set s. \<not> is_whitespace c \<and> c \<noteq> 45 \<and> crockford c = c \<Longrightarrow> normalize_code s = s"
  by (induction s) (auto simp: normalize_code_def)

lemma crockford_valid:
  assumes "c < 1114112"
  shows "crockford c < 1114112"
proof (cases c rule: crockford_cases)
  case 3
  then have "crockford c \<le> c" by (simp only: diff_le_self)
  with assms show ?thesis by (rule le_less_trans [rotated])
next
  case 4
  then show ?thesis using assms by (simp only:)
qed (simp_all only: numeral_less_iff less_num_simps)

lemma normalize_code_valid: "valid_str s \<Longrightarrow> valid_str (normalize_code s)"
  by (auto simp: valid_str_def normalize_code_def list_all_iff crockford_valid)

lemma crockford_upper: "crockford (to_ascii_uppercase c) = crockford c"
proof (cases c rule: crockford_cases)
  case 1
  from 1(1) show ?thesis
    by (elim disjE) (simp_all add: to_ascii_uppercase_def is_ascii_lower_def crockford_eval)
next
  case 2
  from 2(1) show ?thesis
    by (elim disjE) (simp_all add: to_ascii_uppercase_def is_ascii_lower_def crockford_eval)
next
  case 3
  note low = crockford_lower [OF 3(1-5)]
  have "to_ascii_uppercase c = c - 32"
    using 3(1,2) by (simp add: to_ascii_uppercase_def is_ascii_lower_def)
  then show ?thesis
    unfolding 3(6) using low by (simp add: crockford_eval)
next
  case 4
  from 4(4) have "to_ascii_uppercase c = c"
    by (auto simp: to_ascii_uppercase_def is_ascii_lower_def)
  then show ?thesis by simp
qed

lemma hex_take: "hex u (take n bs) = take (2 * n) (hex u bs)"
proof (induction bs arbitrary: n)
  case Nil
  then show ?case by simp
next
  case (Cons b bs)
  then show ?case by (cases n) auto
qed

lemma chunks_step: "n \<noteq> 0 \<Longrightarrow> xs \<noteq> [] \<Longrightarrow> chunks n xs = take n xs # chunks n (drop n xs)"
  by (subst chunks.simps) simp

lemma chunks_done [simp]: "chunks n [] = []"
  by (subst chunks.simps) simp

lemma concat_chunks: "0 < n \<Longrightarrow> concat (chunks n xs) = xs"
  by (induction n xs rule: chunks.induct) (subst chunks.simps, simp)

lemma chunks_20:
  "length xs = 20 \<Longrightarrow> chunks 4 xs =
    [take 4 xs, take 4 (drop 4 xs), take 4 (drop 8 xs), take 4 (drop 12 xs), drop 16 xs]"
proof -
  assume l: "length xs = 20"
  have step: "chunks 4 ys = take 4 ys # chunks 4 (drop 4 ys)" if "0 < length ys" for ys :: "'a list"
    using that by (intro chunks_step) auto
  have "chunks 4 (drop 16 xs) = [drop 16 xs]"
    using l step [of "drop 16 xs"] by simp
  then show ?thesis
    using l step [of xs] step [of "drop 4 xs"] step [of "drop 8 xs"] step [of "drop 12 xs"]
    by simp
qed

lemma base32_char_upper: "list_all base32_char s \<Longrightarrow> str_upper s = s"
  by (induction s) (auto simp: str_upper_def base32_char_def to_ascii_uppercase_def
      is_ascii_lower_def is_ascii_upper_def is_ascii_digit_def)

lemma base32_char_lower_upper: "list_all base32_char s \<Longrightarrow> str_upper (str_lower s) = s"
  by (induction s) (auto simp: str_upper_def str_lower_def base32_char_def to_ascii_uppercase_def
      to_ascii_lowercase_def is_ascii_lower_def is_ascii_upper_def is_ascii_digit_def)

lemma dropWhile_none: "\<forall>c \<in> set u. \<not> P c \<Longrightarrow> dropWhile P u = u"
  by (cases u) auto

lemma trim_id: "\<forall>c \<in> set s. \<not> is_whitespace c \<Longrightarrow> trim s = s"
  by (simp add: trim_def dropWhile_none)

lemma dropWhile_all_append: "\<forall>c \<in> set u. P c \<Longrightarrow> dropWhile P (u @ s) = dropWhile P s"
  by (induction u) auto

lemma trim_surrounded:
  assumes "\<forall>c \<in> set u. is_whitespace c" and "\<forall>c \<in> set v. is_whitespace c"
    and "\<forall>c \<in> set s. \<not> is_whitespace c" and "s \<noteq> []"
  shows "trim (u @ s @ v) = s"
proof -
  have front: "dropWhile is_whitespace (u @ s @ v) = s @ v"
    using assms by (cases s) (auto simp: dropWhile_all_append)
  have "dropWhile is_whitespace (rev (s @ v)) = dropWhile is_whitespace (rev s)"
    using assms(2) by (simp add: dropWhile_all_append)
  also have "\<dots> = rev s"
    using assms(3) by (intro dropWhile_none) auto
  finally show ?thesis
    by (simp add: trim_def front)
qed

lemma sas_domain_length: "length SAS_DOMAIN = 19"
  by (simp add: SAS_DOMAIN_def as_bytes_def lit_eval utf8_nats_def)

lemma base32_char_not_space: "base32_char c \<Longrightarrow> \<not> is_whitespace c"
  by (auto simp: base32_char_def is_whitespace_def is_ascii_upper_def is_ascii_digit_def)

lemma ticket_prefix_not_space: "\<forall>c \<in> set TICKET_PREFIX. \<not> is_whitespace c"
  by (simp add: TICKET_PREFIX_def lit_eval is_whitespace_def)

section \<open>Properties\<close>

text \<open>[code_entry_canonical]. Whatever way a user types a pairing code (any case, the
  Crockford aliases, any number of dashes and whitespace characters), normalization finds
  the one canonical code: it is idempotent, it leaves canonical codes alone, and two inputs
  that agree after dropping separators and upper-casing normalize to the same text.
\<close>

theorem code_entry_canonical:
  "normalize_code (normalize_code s) = normalize_code s \<and>
   (is_valid_code c \<longrightarrow> normalize_code c = c) \<and>
   (str_upper (filter (\<lambda>x. \<not> is_whitespace x \<and> x \<noteq> of_char (CHR ''-'')) s) = c \<and> is_valid_code c
      \<longrightarrow> normalize_code s = c)"
proof (intro conjI impI)
  show "normalize_code (normalize_code s) = normalize_code s"
    by (intro normalize_code_fixed) (blast dest: normalize_code_kept)
next
  assume "is_valid_code c"
  then show "normalize_code c = c"
    by (intro normalize_code_alphabet) (simp add: is_valid_code_def)
next
  let ?kept = "filter (\<lambda>x. \<not> is_whitespace x \<and> x \<noteq> of_char (CHR ''-'')) s"
  assume h: "str_upper ?kept = c \<and> is_valid_code c"
  have "normalize_code s = map crockford ?kept"
    by (simp add: normalize_code_def)
  also have "\<dots> = map crockford (str_upper ?kept)"
    by (simp add: str_upper_def crockford_upper)
  also have "\<dots> = c"
    using h by (auto simp: is_valid_code_def list_all_iff crockford_alphabet intro: map_idI)
  finally show "normalize_code s = c" .
qed

theorem code_entry_canonical_witness:
  "normalize_code (lit '' ab2-3 4cd '') = lit ''AB234CD'' \<and> is_valid_code (lit ''AB234CD'')"
proof -
  have v: "is_valid_code (lit ''AB234CD'')"
    by (simp add: is_valid_code_def CODE_LEN_def alphabet_eval lit_eval)
  have k: "str_upper (filter (\<lambda>x. \<not> is_whitespace x \<and> x \<noteq> of_char (CHR ''-'')) (lit '' ab2-3 4cd ''))
      = lit ''AB234CD''"
    by (simp add: lit_eval str_upper_def to_ascii_uppercase_def is_ascii_lower_def is_whitespace_def)
  show ?thesis
    using code_entry_canonical [of "lit '' ab2-3 4cd ''" "lit ''AB234CD''"] v k by blast
qed

text \<open>[sas_presentation]. With a 32-byte digest the authentication string is five groups of
  four upper-case hexadecimal digits separated by dashes, and it shows exactly the first ten
  digest bytes: two pairings display the same string only if those ten bytes agree.
\<close>

theorem sas_presentation:
  assumes "length (sha (sas_transcript c dk pk)) = 32"
    and "length (sha (sas_transcript c' dk' pk')) = 32"
  shows "length (pairing_sas sha c dk pk) = 24 \<and>
    filter (\<lambda>x. x \<noteq> of_char (CHR ''-'')) (pairing_sas sha c dk pk) =
      hex True (take 10 (sha (sas_transcript c dk pk))) \<and>
    (pairing_sas sha c dk pk = pairing_sas sha c' dk' pk' \<longleftrightarrow>
      take 10 (sha (sas_transcript c dk pk)) = take 10 (sha (sas_transcript c' dk' pk')))"
proof -
  define present where "present h = join (lit ''-'') (chunks 4 (hex True (take 10 h)))" for h
  have form: "present h = take 4 x @ 45 # take 4 (drop 4 x) @ 45 # take 4 (drop 8 x) @ 45 #
      take 4 (drop 12 x) @ 45 # drop 16 x"
    if "length h = 32" "x = hex True (take 10 h)" for h x
    using that by (simp add: present_def chunks_20 lit_eval)
  have len: "length (present h) = 24" if "length h = 32" for h
    using form [OF that refl] that by simp
  have digits: "\<forall>c \<in> set (hex True bs). c \<noteq> 45" for bs
    by (induction bs) (auto simp: hex_digit_def)
  have strip: "filter (\<lambda>x. x \<noteq> 45) (present h) = hex True (take 10 h)" if "length h = 32" for h
  proof -
    define x where "x = hex True (take 10 h)"
    have "filter (\<lambda>x. x \<noteq> 45) y = y" if "set y \<subseteq> set x" for y
      using digits [of "take 10 h"] that by (auto simp: x_def filter_id_conv)
    then have "filter (\<lambda>x. x \<noteq> 45) (present h) =
        take 4 x @ take 4 (drop 4 x) @ take 4 (drop 8 x) @ take 4 (drop 12 x) @ drop 16 x"
      by (simp add: form [OF \<open>length h = 32\<close> x_def] set_take_subset set_drop_subset
          subset_trans [OF set_take_subset set_drop_subset])
    also have "\<dots> = concat (chunks 4 x)"
      using that by (simp add: chunks_20 x_def)
    finally show ?thesis
      by (simp add: concat_chunks x_def)
  qed
  have cong: "take 10 h = take 10 h' \<Longrightarrow> present h = present h'" for h h'
    by (simp add: present_def)
  have sas: "pairing_sas sha c dk pk = present (sha (sas_transcript c dk pk))" for c dk pk
    by (simp add: pairing_sas_def present_def SAS_BYTES_def SAS_GROUP_HEX_CHARS_def Let_def)
  let ?h = "sha (sas_transcript c dk pk)" and ?h' = "sha (sas_transcript c' dk' pk')"
  have "take 10 ?h = take 10 ?h'" if "present ?h = present ?h'"
  proof -
    have "hex True (take 10 ?h) = hex True (take 10 ?h')"
      using strip [OF assms(1)] strip [OF assms(2)] that by simp
    then show ?thesis by (simp only: hex_inject)
  qed
  then have iff: "present ?h = present ?h' \<longleftrightarrow> take 10 ?h = take 10 ?h'"
    using cong by blast
  show ?thesis
    using len [OF assms(1)] strip [OF assms(1)] by (simp add: sas iff)
qed

theorem sas_presentation_witness:
  "length (pairing_sas (\<lambda>_. replicate 32 (0xA5 :: u8)) (lit ''AB234CD'') [] []) = 24"
proof -
  have h: "length ((\<lambda>_. replicate 32 (0xA5 :: u8)) (sas_transcript (lit ''AB234CD'') [] [])) = 32"
    by simp
  show ?thesis
    using sas_presentation [OF h h] by simp
qed

text \<open>[sas_transcript_binding]. The hashed transcript binds everything the operator compares:
  with 32-byte keys, two pairings have the same transcript only if they used the same
  (normalized) code, the same daemon key and the same phone key, each in its own role.
\<close>

theorem sas_transcript_binding:
  assumes "valid_str c" and "valid_str c'"
    and "length dk = 32" and "length dk' = 32" and "length pk = 32" and "length pk' = 32"
  shows "sas_transcript c dk pk = sas_transcript c' dk' pk' \<longleftrightarrow>
    normalize_code c = normalize_code c' \<and> dk = dk' \<and> pk = pk'"
proof
  assume "sas_transcript c dk pk = sas_transcript c' dk' pk'"
  then have "as_bytes (normalize_code c) @ (dk @ pk) = as_bytes (normalize_code c') @ (dk' @ pk')"
    by (simp add: sas_transcript_def)
  then have "as_bytes (normalize_code c) = as_bytes (normalize_code c') \<and> dk @ pk = dk' @ pk'"
    by (subst (asm) append_eq_append_conv) (use assms in simp_all)
  then show "normalize_code c = normalize_code c' \<and> dk = dk' \<and> pk = pk'"
    using assms by (simp add: as_bytes_inject normalize_code_valid)
qed (simp add: sas_transcript_def)

theorem sas_transcript_binding_witness:
  "sas_transcript (lit ''ab234cd'') (replicate 32 1) (replicate 32 2) =
     sas_transcript (lit ''AB2-34CD'') (replicate 32 1) (replicate 32 2) \<longleftrightarrow>
   normalize_code (lit ''ab234cd'') = normalize_code (lit ''AB2-34CD'') \<and>
     replicate 32 1 = (replicate 32 1 :: bytes) \<and> replicate 32 2 = (replicate 32 2 :: bytes)"
  by (rule sas_transcript_binding) simp_all

text \<open>[ticket_roundtrip]. A ticket text decodes to the ticket it was made from, also when it
  is surrounded by whitespace and when its base32 body was lower-cased.
\<close>

theorem ticket_roundtrip:
  assumes "ticket_crates_ok cr t bs"
    and "\<forall>c \<in> set u. is_whitespace c" and "\<forall>c \<in> set v. is_whitespace c"
  shows "ticket_encode cr t = Inr (TICKET_PREFIX @ base32_encode cr bs) \<and>
    ticket_decode cr (u @ (TICKET_PREFIX @ base32_encode cr bs) @ v) = Inr t \<and>
    ticket_decode cr (u @ (TICKET_PREFIX @ str_lower (base32_encode cr bs)) @ v) = Inr t"
proof -
  let ?b = "base32_encode cr bs"
  have ok: "list_all base32_char ?b"
    using assms(1) by (simp add: ticket_crates_ok_def)
  have sp: "\<forall>c \<in> set ?b. \<not> is_whitespace c"
    using ok by (auto simp: list_all_iff base32_char_not_space)
  have low: "\<forall>c \<in> set (str_lower ?b). \<not> is_whitespace c"
    using ok by (auto simp: list_all_iff str_lower_def base32_char_def to_ascii_lowercase_def
        is_ascii_upper_def is_ascii_digit_def is_whitespace_def)
  have trim: "trim (u @ (TICKET_PREFIX @ body) @ v) = TICKET_PREFIX @ body"
    if "\<forall>c \<in> set body. \<not> is_whitespace c" for body
    using that ticket_prefix_not_space
    by (intro trim_surrounded assms(2,3)) (auto simp: TICKET_PREFIX_def lit_eval)
  show ?thesis
    using assms(1) trim [OF sp] trim [OF low] ok
    by (simp add: ticket_encode_def ticket_decode_def ticket_crates_ok_def
        base32_char_upper base32_char_lower_upper)
qed

text \<open>A concrete instance of the crates: two letters per byte, the payload fixed by its ticket.\<close>

definition letters_encode :: "bytes \<Rightarrow> rstr" where
  "letters_encode bs = concat (map (\<lambda>b. [65 + unat b div 16, 65 + unat b mod 16]) bs)"

fun letters_decode :: "bytes \<Rightarrow> unit + bytes" where
  "letters_decode [] = Inr []"
| "letters_decode [x] = Inl ()"
| "letters_decode (x # y # bs) = map_sum id ((#) ((x - 65) * 16 + (y - 65))) (letters_decode bs)"

definition sample_ticket :: pairing_ticket where
  "sample_ticket = \<lparr>pt_code = lit ''AB234CD'', pt_node_id = lit ''node'', pt_relay_url = None,
     pt_addrs = [], pt_expires_at = 42\<rparr>"

definition letters_crates :: "(unit, unit) ticket_crates" where
  "letters_crates = \<lparr>postcard_to_stdvec = (\<lambda>t. Inr [7, 42]),
     postcard_take = (\<lambda>bs. if take 2 bs = [7, 42] then Inr (sample_ticket, drop 2 bs) else Inl ()),
     base32_encode = letters_encode, base32_decode = letters_decode\<rparr>"

theorem ticket_roundtrip_witness:
  "ticket_decode letters_crates
     ([32] @ (TICKET_PREFIX @ base32_encode letters_crates [7, 42]) @ [10]) = Inr sample_ticket"
proof -
  have ok: "ticket_crates_ok letters_crates sample_ticket [7, 42]"
    by (simp add: ticket_crates_ok_def letters_crates_def letters_encode_def as_bytes_def
        utf8_nats_def base32_char_def is_ascii_upper_def is_ascii_digit_def)
  show ?thesis
    by (rule ticket_roundtrip [OF ok, THEN conjunct2, THEN conjunct1]) (simp_all add: is_whitespace_def)
qed

end
