(* ===== verification/Interfaces.thy ===== *)
theory Interfaces
  imports Prelude
begin

text \<open>
  The contracts between components, as locales: what the caller uses (\<open>fixes\<close>), what the
  provider promises (\<open>assumes\<close>) and what the caller may conclude.  Each is interpreted on
  the model's definitions in the theory of the component that provides it.
\<close>

section \<open>An append-only byte log with replay\<close>

text \<open>
  The session and the transports use the PTY ring through three calls: append, replay from
  a position and the end position.  \<open>log_of r h\<close> says that \<open>r\<close> stands for the whole
  output \<open>h\<close>.
\<close>

locale replay_log =
  fixes append_log :: "'r \<Rightarrow> bytes \<Rightarrow> 'r"
    and replay :: "'r \<Rightarrow> nat \<Rightarrow> (nat \<times> bytes) option"
    and end_of :: "'r \<Rightarrow> nat"
    and log_of :: "'r \<Rightarrow> bytes \<Rightarrow> bool"
  assumes log_append: "log_of r h \<Longrightarrow> length h + length bs \<le> u64_max \<Longrightarrow>
      log_of (append_log r bs) (h @ bs)"
    and log_end: "log_of r h \<Longrightarrow> end_of r = length h"
    and log_replay: "log_of r h \<Longrightarrow> replay r seq = Some (s, bs) \<Longrightarrow>
      s = seq \<and> seq \<le> length h \<and> bs = drop seq h"
begin

lemma log_append_all:
  "log_of r h \<Longrightarrow> length h + length (concat cs) \<le> u64_max \<Longrightarrow>
    log_of (foldl append_log r cs) (h @ concat cs)"
proof (induction cs arbitrary: r h)
  case Nil
  then show ?case by simp
next
  case (Cons c cs)
  have "log_of (append_log r c) (h @ c)"
    using Cons.prems by (intro log_append) auto
  then have "log_of (foldl append_log (append_log r c) cs) ((h @ c) @ concat cs)"
    using Cons.prems by (intro Cons.IH) auto
  then show ?case by simp
qed

text \<open>A client that has seen the first \<open>seq\<close> bytes has seen all of them after a replay.\<close>

lemma replay_completes:
  assumes "log_of r h" and "replay r seq = Some (s, bs)"
  shows "take seq h @ bs = h \<and> s + length bs = end_of r"
proof -
  have "s = seq" "seq \<le> length h" "bs = drop seq h"
    using log_replay [OF assms] by auto
  then show ?thesis
    using log_end [OF assms(1)] by simp
qed

end

section \<open>Self-delimiting encodings\<close>

text \<open>
  A length-prefixed item can be followed by anything and still be told apart.  Used for the
  fields of a signed request and for the frames of a stream.
\<close>

locale prefix_code =
  fixes item_bytes :: "'a \<Rightarrow> bytes"
    and item_ok :: "'a \<Rightarrow> bool"
  assumes item_nonempty: "item_ok x \<Longrightarrow> item_bytes x \<noteq> []"
    and item_prefix: "item_ok x \<Longrightarrow> item_ok y \<Longrightarrow>
      item_bytes x @ u = item_bytes y @ v \<Longrightarrow> x = y"
begin

lemma items_inject:
  "list_all item_ok xs \<Longrightarrow> list_all item_ok ys \<Longrightarrow>
    concat (map item_bytes xs) = concat (map item_bytes ys) \<Longrightarrow> xs = ys"
proof (induction xs arbitrary: ys)
  case Nil
  then show ?case
    by (cases ys) (auto dest: item_nonempty)
next
  case (Cons x xs)
  then obtain y ys' where ys: "ys = y # ys'"
    by (cases ys) (auto dest: item_nonempty)
  with Cons.prems have "x = y"
    by (intro item_prefix [of x y "concat (map item_bytes xs)" "concat (map item_bytes ys')"]) auto
  with Cons ys show ?case by auto
qed

end

section \<open>Keyed stores\<close>

text \<open>
  The daemon's and the relay's durable tables are used through three operations; the
  caller needs to know what a lookup returns after each.  \<open>store_ok\<close> is what the provider
  keeps of its representation.
\<close>

locale keyed_store =
  fixes lookup :: "'s \<Rightarrow> 'k \<Rightarrow> 'v option"
    and upsert :: "'k \<Rightarrow> 'v \<Rightarrow> 's \<Rightarrow> 's"
    and remove :: "'k \<Rightarrow> 's \<Rightarrow> 's"
    and store_ok :: "'s \<Rightarrow> bool"
  assumes ok_upsert: "store_ok s \<Longrightarrow> store_ok (upsert k v s)"
    and ok_remove: "store_ok s \<Longrightarrow> store_ok (remove k s)"
    and lookup_upsert: "store_ok s \<Longrightarrow>
      lookup (upsert k v s) j = (if j = k then Some v else lookup s j)"
    and lookup_remove: "store_ok s \<Longrightarrow>
      lookup (remove k s) j = (if j = k then None else lookup s j)"
begin

lemma lookup_upsert_same: "store_ok s \<Longrightarrow> lookup (upsert k v s) k = Some v"
  by (simp add: lookup_upsert)

lemma ok_remove_all: "store_ok s \<Longrightarrow> store_ok (fold remove ks s)"
  by (induction ks arbitrary: s) (auto intro: ok_remove)

lemma lookup_remove_all:
  "store_ok s \<Longrightarrow> lookup (fold remove ks s) j = (if j \<in> set ks then None else lookup s j)"
  by (induction ks arbitrary: s) (auto simp: ok_remove lookup_remove)

text \<open>Replacing a row that was stored under another key: a rename.\<close>

lemma lookup_rename:
  "store_ok s \<Longrightarrow> lookup (upsert k v (remove old s)) j =
    (if j = k then Some v else if j = old then None else lookup s j)"
  by (simp add: lookup_upsert lookup_remove ok_remove)

end

end
