(* ===== verification/Signing.thy ===== *)
theory Signing
  imports Interfaces Rtext
begin

text \<open>
  The canonical request texts the daemon signs and the relay verifies, and the signature
  header (\<open>crates/protocol/src/signing.rs\<close>).  SHA-256 is a parameter.  The lossy UTF-8
  decoding of the standard library, which the first version of the text applies to the
  body, is written out: a maximal ill-formed prefix becomes one U+FFFD.
\<close>

section \<open>Lossy UTF-8 decoding\<close>

definition cont :: "nat \<Rightarrow> bool" where
  "cont b \<longleftrightarrow> 128 \<le> b \<and> b \<le> 191"

definition second_ok :: "nat \<Rightarrow> nat \<Rightarrow> bool" where
  "second_ok a b \<longleftrightarrow> (if a = 224 then 160 \<le> b \<and> b \<le> 191
     else if a = 237 then 128 \<le> b \<and> b \<le> 159
     else if a = 240 then 144 \<le> b \<and> b \<le> 191
     else if a = 244 then 128 \<le> b \<and> b \<le> 143
     else cont b)"

text \<open>The first character, or none for an ill-formed prefix, and the bytes it takes.\<close>

definition next_code_point :: "nat list \<Rightarrow> rchar option \<times> nat" where
  "next_code_point s =
     (let a = s ! 0; b = s ! 1; c = s ! 2; d = s ! 3; n = length s in
      if a < 128 then (Some a, 1)
      else if 194 \<le> a \<and> a \<le> 223 then
        (if 2 \<le> n \<and> cont b then (Some ((a - 192) * 64 + (b - 128)), 2) else (None, 1))
      else if 224 \<le> a \<and> a \<le> 239 then
        (if 2 \<le> n \<and> second_ok a b then
           (if 3 \<le> n \<and> cont c
            then (Some ((a - 224) * 4096 + (b - 128) * 64 + (c - 128)), 3) else (None, 2))
         else (None, 1))
      else if 240 \<le> a \<and> a \<le> 244 then
        (if 2 \<le> n \<and> second_ok a b then
           (if 3 \<le> n \<and> cont c then
              (if 4 \<le> n \<and> cont d
               then (Some ((a - 240) * 262144 + (b - 128) * 4096 + (c - 128) * 64 + (d - 128)), 4)
               else (None, 3))
            else (None, 2))
         else (None, 1))
      else (None, 1))"

lemma next_code_point_pos: "0 < snd (next_code_point s)"
  by (simp add: next_code_point_def Let_def)

function lossy_nats :: "nat list \<Rightarrow> rstr" where
  "lossy_nats s =
     (if s = [] then []
      else let (c, n) = next_code_point s in
        (case c of Some x \<Rightarrow> x | None \<Rightarrow> 65533) # lossy_nats (drop n s))"
  by pat_completeness auto
termination
proof (relation "measure length")
  fix s :: "nat list" and x c n
  assume "s \<noteq> []" and "x = next_code_point s" and "(c, n) = x"
  then have "0 < n" using next_code_point_pos [of s] by (metis snd_conv)
  with \<open>s \<noteq> []\<close> show "(drop n s, s) \<in> measure length" by simp
qed simp

declare lossy_nats.simps [simp del]

definition from_utf8_lossy :: "bytes \<Rightarrow> rstr" where
  "from_utf8_lossy bs = lossy_nats (map unat bs)"

text \<open>A \<open>char\<close> is never a surrogate.\<close>

definition scalar :: "rchar \<Rightarrow> bool" where
  "scalar c \<longleftrightarrow> c < 55296 \<or> (57344 \<le> c \<and> c < 1114112)"

lemma scalar_valid: "list_all scalar s \<Longrightarrow> valid_str s"
  by (auto simp: valid_str_def scalar_def list_all_iff)

lemma digits_64: "(c :: nat) div 4096 * 4096 + c div 64 mod 64 * 64 + c mod 64 = c"
proof -
  have "c div 4096 = c div 64 div 64" by (simp add: div_mult2_eq [symmetric])
  then show ?thesis
    using div_mult_mod_eq [of c 64] div_mult_mod_eq [of "c div 64" 64] by linarith
qed

lemma digits_64_4: "(c :: nat) div 262144 * 262144 + c div 4096 mod 64 * 4096
    + c div 64 mod 64 * 64 + c mod 64 = c"
proof -
  have "c div 262144 = c div 4096 div 64" by (simp add: div_mult2_eq [symmetric])
  then show ?thesis
    using digits_64 [of c] div_mult_mod_eq [of "c div 4096" 64] by linarith
qed

lemma cont_mod [simp]: "cont (128 + x mod 64)"
proof -
  have "x mod 64 < 64" by simp
  then have "x mod 64 \<le> 63" by linarith
  then show ?thesis by (simp add: cont_def)
qed

lemma next_code_point_utf8:
  assumes "scalar c"
  shows "next_code_point (utf8_nats c @ rest) = (Some c, length (utf8_nats c))"
proof -
  consider "c < 128" | "128 \<le> c" "c < 2048" | "2048 \<le> c" "c < 65536" | "65536 \<le> c" "c < 1114112"
    using assms unfolding scalar_def by linarith
  then show ?thesis
  proof cases
    case 1
    then show ?thesis by (simp add: utf8_nats_def next_code_point_def)
  next
    case 2
    then have "2 \<le> c div 64" "c div 64 \<le> 31" by arith+
    with 2 show ?thesis
      by (simp add: utf8_nats_def next_code_point_def Let_def)
  next
    case 3
    define a b where "a = c div 4096" and "b = c div 64 mod 64"
    have eq: "a * 4096 + b * 64 + c mod 64 = c" and b: "b < 64"
      using digits_64 [of c] by (simp_all add: a_def b_def)
    have m: "c mod 64 < 64" by simp
    have a: "a \<le> 15" using 3 eq by linarith
    have "second_ok (224 + a) (128 + b)"
    proof -
      have "a = 0 \<Longrightarrow> 32 \<le> b" using 3 eq m by linarith
      moreover have "a = 13 \<Longrightarrow> b \<le> 31" using assms eq m b unfolding scalar_def by linarith
      ultimately show ?thesis using a b by (auto simp: second_ok_def cont_def)
    qed
    with 3 a eq show ?thesis
      by (simp add: utf8_nats_def next_code_point_def Let_def a_def [symmetric] b_def [symmetric])
  next
    case 4
    define a b where "a = c div 262144" and "b = c div 4096 mod 64"
    have eq: "a * 262144 + b * 4096 + c div 64 mod 64 * 64 + c mod 64 = c" and b: "b < 64"
      using digits_64_4 [of c] by (simp_all add: a_def b_def)
    have m: "c mod 64 < 64" "c div 64 mod 64 < 64" by simp_all
    have a: "a \<le> 4" using 4 eq by linarith
    have "second_ok (240 + a) (128 + b)"
    proof -
      have "a = 0 \<Longrightarrow> 16 \<le> b" using 4 eq m by linarith
      moreover have "a = 4 \<Longrightarrow> b \<le> 15" using 4 eq m b by linarith
      ultimately show ?thesis using a b by (auto simp: second_ok_def cont_def)
    qed
    with 4 a eq show ?thesis
      by (simp add: utf8_nats_def next_code_point_def Let_def a_def [symmetric] b_def [symmetric])
  qed
qed

lemma lossy_nats_utf8:
  "list_all scalar s \<Longrightarrow> lossy_nats (concat (map utf8_nats s)) = s"
proof (induction s)
  case Nil
  then show ?case by (simp add: lossy_nats.simps)
next
  case (Cons c s)
  have "utf8_nats c \<noteq> []" by (simp add: utf8_nats_def)
  with Cons show ?case
    by (simp add: lossy_nats.simps [of "utf8_nats c @ concat (map utf8_nats s)"]
        next_code_point_utf8)
qed

lemma unat_utf8_bytes:
  "valid_str s \<Longrightarrow> map (unat \<circ> (word_of_nat :: nat \<Rightarrow> u8)) (concat (map utf8_nats s)) =
    concat (map utf8_nats s)"
proof (induction s)
  case Nil
  then show ?case by simp
next
  case (Cons c s)
  then have "\<forall>b \<in> set (utf8_nats c). b < 256"
    by (intro utf8_nats_byte) (simp add: valid_str_def)
  then have "map (unat \<circ> (word_of_nat :: nat \<Rightarrow> u8)) (utf8_nats c) = utf8_nats c"
    by (intro map_idI) (auto simp: unat_of_nat)
  with Cons show ?case by (simp add: valid_str_def comp_def)
qed

lemma from_utf8_lossy_as_bytes: "list_all scalar s \<Longrightarrow> from_utf8_lossy (as_bytes s) = s"
  by (simp add: from_utf8_lossy_def as_bytes_def unat_utf8_bytes scalar_valid lossy_nats_utf8)

section \<open>The two canonical texts\<close>

datatype signature_version = V1 | V2

definition V1_SIGNATURE_PREFIX :: rstr where "V1_SIGNATURE_PREFIX = lit ''v1=''"
definition V2_SIGNATURE_PREFIX :: rstr where "V2_SIGNATURE_PREFIX = lit ''v2=''"
definition V2_DOMAIN :: bytes where "V2_DOMAIN = as_bytes (lit ''shelly-relay-request-v2'')"

definition canonical_request :: "rstr \<Rightarrow> rstr \<Rightarrow> bytes \<Rightarrow> rstr \<Rightarrow> nat \<Rightarrow> rstr" where
  "canonical_request mthd path body nonce ts_ms =
     mthd @ [10] @ path @ [10] @ from_utf8_lossy body @ [10] @ nonce @ [10] @ dec ts_ms"

definition field_bytes :: "bytes \<Rightarrow> bytes" where
  "field_bytes f = be_bytes 8 (length f) @ f"

definition request_fields ::
    "(bytes \<Rightarrow> bytes) \<Rightarrow> rstr \<Rightarrow> rstr \<Rightarrow> rstr \<Rightarrow> bytes \<Rightarrow> rstr \<Rightarrow> nat \<Rightarrow> bytes list" where
  "request_fields sha256 audience mthd path body nonce ts_ms =
     [V2_DOMAIN, as_bytes audience, as_bytes mthd, as_bytes path, sha256 body,
      as_bytes nonce, be_bytes 8 ts_ms]"

definition canonical_request_v2 ::
    "(bytes \<Rightarrow> bytes) \<Rightarrow> rstr \<Rightarrow> rstr \<Rightarrow> rstr \<Rightarrow> bytes \<Rightarrow> rstr \<Rightarrow> nat \<Rightarrow> bytes" where
  "canonical_request_v2 sha256 audience mthd path body nonce ts_ms =
     concat (map field_bytes (request_fields sha256 audience mthd path body nonce ts_ms))"

section \<open>The signature header\<close>

definition is_version_marker :: "rstr \<Rightarrow> bool" where
  "is_version_marker s = (case strip_prefix (lit ''v'') s of
      None \<Rightarrow> False
    | Some digits \<Rightarrow> digits \<noteq> [] \<and> list_all is_ascii_digit digits)"

definition signature_header :: "signature_version \<Rightarrow> rstr \<Rightarrow> rstr" where
  "signature_header version encoded =
     (case version of V1 \<Rightarrow> V1_SIGNATURE_PREFIX | V2 \<Rightarrow> V2_SIGNATURE_PREFIX) @ encoded"

definition split_signature_header :: "rstr \<Rightarrow> (signature_version \<times> rstr) option" where
  "split_signature_header s =
     (case strip_prefix V1_SIGNATURE_PREFIX s of
        Some signature \<Rightarrow> Some (V1, signature)
      | None \<Rightarrow>
          (case strip_prefix V2_SIGNATURE_PREFIX s of
             Some signature \<Rightarrow> Some (V2, signature)
           | None \<Rightarrow>
               if (case split_once 61 s of
                     None \<Rightarrow> False | Some (version, _) \<Rightarrow> is_version_marker version)
               then None else Some (V1, s)))"

section \<open>Fields are self-delimiting\<close>

definition field_ok :: "bytes \<Rightarrow> bool" where
  "field_ok f \<longleftrightarrow> length f \<le> u64_max"

lemma field_len_fits: "field_ok f \<Longrightarrow> length f < 256 ^ 8"
  by (simp add: field_ok_def u64_max_def)

interpretation fields: prefix_code field_bytes field_ok
proof unfold_locales
  fix x :: bytes
  show "field_bytes x \<noteq> []"
    using length_be_bytes [of 8 "length x"] by (auto simp: field_bytes_def simp del: length_be_bytes)
next
  fix x y u v
  assume ok: "field_ok x" "field_ok y" and eq: "field_bytes x @ u = field_bytes y @ v"
  from eq have heads: "be_bytes 8 (length x) = be_bytes 8 (length y)" and tails: "x @ u = y @ v"
    by (auto simp: field_bytes_def append_eq_append_conv)
  have "length x = length y"
    by (rule be_bytes_inj [OF field_len_fits [OF ok(1)] field_len_fits [OF ok(2)] heads])
  with tails show "x = y" by simp
qed

definition request_ok :: "rstr \<Rightarrow> rstr \<Rightarrow> rstr \<Rightarrow> rstr \<Rightarrow> nat \<Rightarrow> bool" where
  "request_ok audience mthd path nonce ts_ms \<longleftrightarrow>
     (\<forall>s \<in> {audience, mthd, path, nonce}. valid_str s \<and> str_len s \<le> u64_max) \<and> ts_ms \<le> u64_max"

lemma request_fields_ok:
  assumes "request_ok audience mthd path nonce ts_ms" and "length (sha256 body) = 32"
  shows "list_all field_ok (request_fields sha256 audience mthd path body nonce ts_ms)"
proof -
  have "field_ok V2_DOMAIN"
    by (simp add: field_ok_def V2_DOMAIN_def as_bytes_def utf8_nats_def lit_eval of_char_def u64_max_def)
  then show ?thesis
    using assms by (simp add: request_fields_def request_ok_def field_ok_def str_len_def u64_max_def)
qed

lemma strip_prefix_mismatch: "take (length p) s \<noteq> p \<Longrightarrow> strip_prefix p s = None"
  by (simp add: strip_prefix_def)

lemma sig_prefix_eval: "V1_SIGNATURE_PREFIX = [118, 49, 61]" "V2_SIGNATURE_PREFIX = [118, 50, 61]"
  by (simp_all add: V1_SIGNATURE_PREFIX_def V2_SIGNATURE_PREFIX_def lit_eval of_char_def)


text \<open>Lines: a text without a newline is delimited by one.\<close>

lemma line_split:
  "(10 :: nat) \<notin> set a \<Longrightarrow> 10 \<notin> set b \<Longrightarrow> a @ [10] @ u = b @ [10] @ v \<Longrightarrow> a = b \<and> u = v"
proof (induction a arbitrary: b)
  case Nil
  then show ?case by (cases b) auto
next
  case (Cons x a)
  then show ?case by (cases b) auto
qed

lemma line_split_last:
  assumes "(10 :: nat) \<notin> set a" "10 \<notin> set b" "u @ [10] @ a = v @ [10] @ b"
  shows "a = b \<and> u = v"
proof -
  have "rev a @ [10] @ rev u = rev b @ [10] @ rev v"
    using arg_cong [OF assms(3), of rev] by simp
  then have "rev a = rev b \<and> rev u = rev v"
    using assms(1,2) by (intro line_split) auto
  then show ?thesis by simp
qed

lemma dec_no_newline: "10 \<notin> set (dec n)"
  using dec_digits [of n] by (auto simp: is_ascii_digit_def)

lemma version_marker_iff:
  "is_version_marker s \<longleftrightarrow> (\<exists>d. s = lit ''v'' @ d \<and> d \<noteq> [] \<and> list_all is_ascii_digit d)"
  by (auto simp: is_version_marker_def strip_prefix_Some split: option.splits)

lemma split_once_append: "c \<notin> set d \<Longrightarrow> split_once c (d @ c # r) = Some (d, r)"
  by (induction d) auto

section \<open>Properties\<close>

text \<open>C23 [canonical_v2_binds].  The version 2 text binds every part of a request: equal texts
  mean equal relay audience, method, path, nonce and timestamp, and equal body digests, so a
  signature over one cannot be used for another request or at another relay.\<close>
theorem canonical_v2_binds:
  assumes "request_ok aud m p nonce ts" and "request_ok aud' m' p' nonce' ts'"
    and "length (sha256 body) = 32" and "length (sha256 body') = 32"
    and "canonical_request_v2 sha256 aud m p body nonce ts =
      canonical_request_v2 sha256 aud' m' p' body' nonce' ts'"
  shows "aud = aud' \<and> m = m' \<and> p = p' \<and> nonce = nonce' \<and> ts = ts' \<and> sha256 body = sha256 body'"
proof -
  have eq: "request_fields sha256 aud m p body nonce ts =
      request_fields sha256 aud' m' p' body' nonce' ts'"
    using request_fields_ok [of aud m p nonce ts sha256 body]
      request_fields_ok [of aud' m' p' nonce' ts' sha256 body'] assms
    by (intro fields.items_inject) (simp_all add: canonical_request_v2_def)
  have "ts < 256 ^ 8" "ts' < 256 ^ 8"
    using assms(1,2) by (simp_all add: request_ok_def u64_max_def)
  then have "ts = ts'"
    using eq be_bytes_inj unfolding request_fields_def by blast
  then show ?thesis
    using eq assms(1,2) by (simp add: request_fields_def request_ok_def as_bytes_inject)
qed

theorem canonical_v2_binds_witness:
  "lit ''https://relay'' = lit ''https://relay'' \<and> lit ''POST'' = lit ''POST'' \<and>
   lit ''/push'' = lit ''/push'' \<and> lit ''n1'' = lit ''n1'' \<and> (5::nat) = 5 \<and>
   replicate 32 (0 :: u8) = replicate 32 0"
proof -
  have "request_ok (lit ''https://relay'') (lit ''POST'') (lit ''/push'') (lit ''n1'') 5"
    by (simp add: request_ok_def str_len_def as_bytes_def utf8_nats_def lit_eval of_char_def
        u64_max_def valid_str_def)
  from canonical_v2_binds [OF this this, of "\<lambda>b. replicate 32 0" "[1]" "[2]"]
  show ?thesis
    by (simp add: canonical_request_v2_def request_fields_def)
qed

text \<open>[canonical_v1_binds].  The legacy text binds the request only as far as its fields are
  clean: when method, path and nonce hold no newline, equal texts mean equal method, path,
  nonce, timestamp and lossy body, and two bodies that are UTF-8 text are then equal.\<close>
theorem canonical_v1_binds:
  assumes "\<forall>s \<in> {m, p, nonce, m', p', nonce'}. (10 :: nat) \<notin> set s"
    and "canonical_request m p body nonce ts = canonical_request m' p' body' nonce' ts'"
  shows "m = m' \<and> p = p' \<and> nonce = nonce' \<and> ts = ts' \<and>
    from_utf8_lossy body = from_utf8_lossy body' \<and>
    (\<forall>s s'. list_all scalar s \<and> list_all scalar s' \<and> body = as_bytes s \<and> body' = as_bytes s'
       \<longrightarrow> body = body')"
proof -
  have 1: "m = m' \<and> p @ [10] @ from_utf8_lossy body @ [10] @ nonce @ [10] @ dec ts =
      p' @ [10] @ from_utf8_lossy body' @ [10] @ nonce' @ [10] @ dec ts'"
    by (rule line_split) (use assms in \<open>auto simp: canonical_request_def\<close>)
  have 2: "p = p' \<and> from_utf8_lossy body @ [10] @ nonce @ [10] @ dec ts =
      from_utf8_lossy body' @ [10] @ nonce' @ [10] @ dec ts'"
    by (rule line_split) (use assms(1) 1 in auto)
  have 3: "dec ts = dec ts' \<and> from_utf8_lossy body @ [10] @ nonce =
      from_utf8_lossy body' @ [10] @ nonce'"
    by (rule line_split_last) (use 2 in \<open>auto simp: dec_no_newline\<close>)
  have 4: "nonce = nonce' \<and> from_utf8_lossy body = from_utf8_lossy body'"
    by (rule line_split_last) (use assms(1) 3 in auto)
  show ?thesis
    using 1 2 3 4 by (auto simp: dec_inject from_utf8_lossy_as_bytes)
qed

theorem canonical_v1_binds_witness:
  "lit ''POST'' = lit ''POST'' \<and> from_utf8_lossy [97] = from_utf8_lossy [97]"
  using canonical_v1_binds [of "lit ''POST''" "lit ''/push''" "lit ''n''" "lit ''POST''"
      "lit ''/push''" "lit ''n''" "[97]" 5 "[97]" 5]
  by (simp add: lit_eval of_char_def)

text \<open>[canonical_v1_ambiguous].  Without that the legacy text does not bind the request: two
  requests that differ in body and nonce, and two binary bodies, have the same text.  Version 2
  tells both pairs apart unless SHA-256 collides on the bodies.\<close>
theorem canonical_v1_ambiguous:
  "canonical_request m p (as_bytes (lit ''x'') @ [10] @ as_bytes (lit ''y'')) (lit ''n'') ts =
     canonical_request m p (as_bytes (lit ''x'')) (lit ''y'' @ [10] @ lit ''n'') ts \<and>
   canonical_request m p [254] nonce ts = canonical_request m p [255] nonce ts \<and>
   as_bytes (lit ''x'') @ [10] @ as_bytes (lit ''y'') \<noteq> as_bytes (lit ''x'') \<and>
   [254 :: u8] \<noteq> [255]"
proof -
  have "from_utf8_lossy [254] = from_utf8_lossy [255]"
    by (simp add: from_utf8_lossy_def lossy_nats.simps next_code_point_def)
  moreover have "from_utf8_lossy (as_bytes (lit ''x'') @ [10] @ as_bytes (lit ''y'')) =
      from_utf8_lossy (as_bytes (lit ''x'')) @ [10] @ lit ''y''"
    by (simp add: from_utf8_lossy_def as_bytes_def utf8_nats_def lit_eval of_char_def
        lossy_nats.simps next_code_point_def unat_of_nat)
  ultimately show ?thesis
    by (simp add: canonical_request_def)
qed

text \<open>[signature_header_split].  A header the daemon formats is read back as the version and
  signature it holds.  A header is refused exactly when it carries a version marker other than
  the two known ones; anything else is a bare signature of the first version.\<close>
theorem signature_header_split:
  "split_signature_header (signature_header v sig) = Some (v, sig) \<and>
   (split_signature_header h = None \<longleftrightarrow>
      (\<exists>d r. h = lit ''v'' @ d @ lit ''='' @ r \<and> d \<noteq> [] \<and> list_all is_ascii_digit d \<and>
         d \<noteq> lit ''1'' \<and> d \<noteq> lit ''2'')) \<and>
   (\<forall>w t. split_signature_header h = Some (w, t) \<longrightarrow>
      h = signature_header w t \<or> (w = V1 \<and> t = h))"
proof -
  have eq: "lit ''='' = [61]" "lit ''v'' = [118]" "lit ''1'' = [49]" "lit ''2'' = [50]"
    by (simp_all add: lit_eval of_char_def)
  have "split_signature_header (signature_header v sig) = Some (v, sig)"
    by (cases v) (simp_all add: split_signature_header_def signature_header_def sig_prefix_eval
        strip_prefix_def)
  moreover have "split_signature_header h = None \<longleftrightarrow>
      (\<exists>d r. h = [118] @ d @ [61] @ r \<and> d \<noteq> [] \<and> list_all is_ascii_digit d \<and> d \<noteq> [49] \<and> d \<noteq> [50])"
    (is "_ = ?marked")
  proof
    assume "split_signature_header h = None"
    then obtain a b where no: "strip_prefix V1_SIGNATURE_PREFIX h = None"
        "strip_prefix V2_SIGNATURE_PREFIX h = None"
      and split: "split_once 61 h = Some (a, b)" and "is_version_marker a"
      by (auto simp: split_signature_header_def split: option.splits if_splits)
    then obtain d where d: "a = [118] @ d" "d \<noteq> []" "list_all is_ascii_digit d"
      by (auto simp: version_marker_iff eq)
    moreover have "h = a @ 61 # b" using split_once_Some [OF split] by simp
    ultimately show ?marked
      using no by (auto simp: sig_prefix_eval strip_prefix_def)
  next
    assume ?marked
    then obtain d r where d: "h = [118] @ d @ [61] @ r" "d \<noteq> []" "list_all is_ascii_digit d"
      "d \<noteq> [49]" "d \<noteq> [50]" by blast
    have free: "61 \<notin> set d" using d(3) by (auto simp: list_all_iff is_ascii_digit_def)
    then have "split_once 61 h = Some ([118] @ d, r)"
      using d(1) by (simp add: split_once_append)
    moreover have "is_version_marker ([118] @ d)"
      using d by (auto simp: version_marker_iff eq)
    moreover have "take 3 h \<noteq> [118, 49, 61]" "take 3 h \<noteq> [118, 50, 61]"
      using d free by (cases d; cases "tl d"; auto)+
    then have "strip_prefix V1_SIGNATURE_PREFIX h = None" "strip_prefix V2_SIGNATURE_PREFIX h = None"
      by (simp_all add: sig_prefix_eval strip_prefix_def eval_nat_numeral)
    ultimately show "split_signature_header h = None"
      by (simp add: split_signature_header_def)
  qed
  moreover have "h = signature_header w t \<or> (w = V1 \<and> t = h)"
    if "split_signature_header h = Some (w, t)" for w t
    using that by (auto simp: split_signature_header_def signature_header_def strip_prefix_Some
        split: option.splits if_splits)
  ultimately show ?thesis by (auto simp: eq)
qed

end
