(* ===== verification/Ring.thy ===== *)
theory Ring
  imports Interfaces
begin

text \<open>
  \<open>PtyRingBuffer\<close> of \<open>crates/daemon/src/ring.rs\<close>: the bounded window of the bytes a PTY
  produced, addressed by the position of a byte in the whole output of the session
  (its sequence number).  The abstract view is the whole output as one list; the window
  is its last \<open>capacity\<close> bytes.
\<close>

section \<open>State and operations\<close>

record pty_ring =
  capacity :: nat
  start_seq :: nat
  next_seq :: nat
  ring_data :: bytes

definition ring_new :: "nat \<Rightarrow> pty_ring" where
  "ring_new cap = \<lparr>capacity = cap, start_seq = 0, next_seq = 0, ring_data = []\<rparr>"

definition ring_push :: "pty_ring \<Rightarrow> bytes \<Rightarrow> pty_ring \<times> nat" where
  "ring_push r bs =
     (let original_start = next_seq r in
      if bs = [] then (r, original_start)
      else case checked_add64 (next_seq r) (length bs) of
        None \<Rightarrow>
          (r\<lparr>next_seq := u64_max, start_seq := u64_max, ring_data := []\<rparr>, original_start)
      | Some nxt \<Rightarrow>
          let bs' = (if capacity r < length bs then drop (length bs - capacity r) bs else bs);
              overflow = (length (ring_data r) + length bs') - capacity r;
              kept = (if 0 < overflow then drop overflow (ring_data r) else ring_data r);
              dat = kept @ bs'
          in (r\<lparr>next_seq := nxt, ring_data := dat, start_seq := nxt - length dat\<rparr>,
              original_start))"

definition replay_from :: "pty_ring \<Rightarrow> nat \<Rightarrow> (nat \<times> bytes) option" where
  "replay_from r seq =
     (if seq < start_seq r \<or> next_seq r < seq then None
      else Some (seq, drop (seq - start_seq r) (ring_data r)))"

definition ring_snapshot :: "pty_ring \<Rightarrow> nat \<times> bytes" where
  "ring_snapshot r = (start_seq r, ring_data r)"

definition end_seq :: "pty_ring \<Rightarrow> nat" where
  "end_seq r = next_seq r"

abbreviation push_all :: "pty_ring \<Rightarrow> bytes list \<Rightarrow> pty_ring" where
  "push_all \<equiv> foldl (\<lambda>r bs. fst (ring_push r bs))"

section \<open>Well-formedness\<close>

text \<open>
  The window ends where the stream ends and never exceeds the capacity.  It makes the two
  places where the code could panic or wrap safe: \<open>drain(..overflow)\<close> stays within the
  data and \<open>next_seq - data.len()\<close> does not underflow.
\<close>

definition ring_wf :: "pty_ring \<Rightarrow> bool" where
  "ring_wf r \<longleftrightarrow> start_seq r + length (ring_data r) = next_seq r \<and>
     length (ring_data r) \<le> capacity r \<and> next_seq r \<le> u64_max"

lemma ring_push_Nil [simp]: "ring_push r [] = (r, next_seq r)"
  by (simp add: ring_push_def)

lemma ring_push_capacity [simp]: "capacity (fst (ring_push r bs)) = capacity r"
  by (simp add: ring_push_def Let_def split: option.splits)

lemma ring_push_start [simp]: "snd (ring_push r bs) = next_seq r"
  by (simp add: ring_push_def Let_def split: option.splits)

lemma ring_push_exhausted:
  "u64_max < next_seq r + length bs \<Longrightarrow> bs \<noteq> [] \<Longrightarrow>
    fst (ring_push r bs) = r\<lparr>next_seq := u64_max, start_seq := u64_max, ring_data := []\<rparr>"
  by (simp add: ring_push_def checked_add64_def)

lemma ring_push_data:
  assumes "length (ring_data r) \<le> capacity r" and "next_seq r + length bs \<le> u64_max"
  shows "ring_data (fst (ring_push r bs)) = last_n (capacity r) (ring_data r @ bs)"
proof (cases "bs = []")
  case True
  then show ?thesis using assms by (simp add: last_n_all)
next
  case False
  then show ?thesis
    using assms by (auto simp: ring_push_def checked_add64_def last_n_def Let_def)
qed

lemma ring_push_next:
  "next_seq r + length bs \<le> u64_max \<Longrightarrow>
    next_seq (fst (ring_push r bs)) = next_seq r + length bs"
  by (simp add: ring_push_def checked_add64_def Let_def)

lemma ring_push_start_seq:
  "ring_wf r \<Longrightarrow> next_seq r + length bs \<le> u64_max \<Longrightarrow>
    start_seq (fst (ring_push r bs)) =
      next_seq r + length bs - length (ring_data (fst (ring_push r bs)))"
  by (cases "bs = []") (auto simp: ring_push_def checked_add64_def Let_def ring_wf_def)

lemma ring_push_no_panic:
  assumes "ring_wf r" and "bs' = last_n (capacity r) bs"
  shows "(length (ring_data r) + length bs') - capacity r \<le> length (ring_data r)"
    and "length (last_n (capacity r) (ring_data r @ bs)) \<le> next_seq r + length bs"
  using assms by (auto simp: ring_wf_def)

lemma ring_push_wf: "ring_wf r \<Longrightarrow> ring_wf (fst (ring_push r bs))"
proof (cases "next_seq r + length bs \<le> u64_max")
  case True
  assume wf: "ring_wf r"
  then have "ring_data (fst (ring_push r bs)) = last_n (capacity r) (ring_data r @ bs)"
    using True by (intro ring_push_data) (auto simp: ring_wf_def)
  then show ?thesis
    using wf True by (auto simp: ring_wf_def ring_push_next ring_push_start_seq)
next
  case False
  assume wf: "ring_wf r"
  with False show ?thesis
    by (cases "bs = []") (auto simp: ring_push_exhausted ring_wf_def)
qed

lemma ring_new_wf: "ring_wf (ring_new cap)"
  by (simp add: ring_wf_def ring_new_def u64_max_def)

interpretation ring_run: mono_machine "\<lambda>r bs. fst (ring_push r bs)" ring_wf next_seq
proof unfold_locales
  fix r bs
  show "ring_wf r \<Longrightarrow> ring_wf (fst (ring_push r bs))" by (rule ring_push_wf)
next
  fix r bs
  assume "ring_wf r"
  then show "next_seq r \<le> next_seq (fst (ring_push r bs))"
    by (auto simp: ring_push_def checked_add64_def Let_def ring_wf_def)
qed

section \<open>Refinement of the whole output\<close>

definition ring_models :: "pty_ring \<Rightarrow> bytes \<Rightarrow> bool" where
  "ring_models r h \<longleftrightarrow> length h \<le> u64_max \<and> next_seq r = length h \<and>
     ring_data r = last_n (capacity r) h \<and> start_seq r + length (ring_data r) = next_seq r"

lemma ring_models_wf: "ring_models r h \<Longrightarrow> ring_wf r"
  by (auto simp: ring_models_def ring_wf_def)

lemma ring_new_models: "ring_models (ring_new cap) []"
  by (simp add: ring_models_def ring_new_def u64_max_def last_n_def)

lemma ring_push_models:
  assumes "ring_models r h" and "length h + length bs \<le> u64_max"
  shows "ring_models (fst (ring_push r bs)) (h @ bs)"
proof -
  have wf: "ring_wf r"
    using assms(1) by (rule ring_models_wf)
  have nxt: "next_seq r = length h" and dat: "ring_data r = last_n (capacity r) h"
    using assms(1) by (auto simp: ring_models_def)
  have room: "next_seq r + length bs \<le> u64_max"
    using assms(2) nxt by simp
  have "ring_data (fst (ring_push r bs)) = last_n (capacity r) (last_n (capacity r) h @ bs)"
    using wf room by (simp add: ring_push_data ring_wf_def dat)
  also have "\<dots> = last_n (capacity r) (h @ bs)"
    by (simp add: last_n_append last_n_last_n)
  finally show ?thesis
    using ring_push_wf [OF wf, of bs] assms(2) nxt room
    by (simp add: ring_models_def ring_push_next ring_wf_def)
qed

lemma replay_from_models:
  assumes "ring_models r h"
  shows "replay_from r seq =
    (if length h - capacity r \<le> seq \<and> seq \<le> length h then Some (seq, drop seq h) else None)"
proof -
  have start: "start_seq r = length h - capacity r"
    and dat: "ring_data r = drop (length h - capacity r) h" and nxt: "next_seq r = length h"
    using assms by (auto simp: ring_models_def last_n_def)
  show ?thesis
    by (auto simp: replay_from_def start dat nxt)
qed

interpretation ring_log: replay_log "\<lambda>r bs. fst (ring_push r bs)" replay_from end_seq ring_models
proof unfold_locales
  fix r h bs
  show "ring_models r h \<Longrightarrow> length h + length bs \<le> u64_max \<Longrightarrow>
      ring_models (fst (ring_push r bs)) (h @ bs)"
    by (rule ring_push_models)
next
  fix r h
  show "ring_models r h \<Longrightarrow> end_seq r = length h"
    by (simp add: end_seq_def ring_models_def)
next
  fix r h seq s bs
  assume "ring_models r h" and "replay_from r seq = Some (s, bs)"
  then show "s = seq \<and> seq \<le> length h \<and> bs = drop seq h"
    by (auto simp: replay_from_models split: if_splits)
qed

lemma ring_data_models: "ring_models r h \<Longrightarrow> ring_snapshot r = (length h - capacity r, last_n (capacity r) h)"
  by (auto simp: ring_snapshot_def ring_models_def)

lemma push_all_models:
  "length (concat cs) \<le> u64_max \<Longrightarrow> ring_models (push_all (ring_new cap) cs) (concat cs)"
  using ring_log.log_append_all [OF ring_new_models, of cs cap] by simp

lemma push_all_capacity [simp]: "capacity (push_all r cs) = capacity r"
  by (induction cs arbitrary: r) auto

lemma capacity_ring_new [simp]: "capacity (ring_new cap) = cap"
  by (simp add: ring_new_def)

section \<open>Properties\<close>

text \<open>C12 [ring_refines_output]. For every sequence of PTY reads whose total length fits the
  sequence counter, the ring holds exactly the last \<open>capacity\<close> bytes of the whole output,
  its end position is the number of bytes produced, and a replay from \<open>seq\<close> returns
  exactly the output from position \<open>seq\<close> on when the window still reaches back to it, and
  is refused otherwise.
\<close>

theorem ring_refines_output:
  assumes "length (concat cs) \<le> u64_max"
  shows "ring_data (push_all (ring_new cap) cs) = last_n cap (concat cs) \<and>
    end_seq (push_all (ring_new cap) cs) = length (concat cs) \<and>
    replay_from (push_all (ring_new cap) cs) seq =
      (if length (concat cs) - cap \<le> seq \<and> seq \<le> length (concat cs)
       then Some (seq, drop seq (concat cs)) else None)"
proof -
  let ?r = "push_all (ring_new cap) cs"
  have m: "ring_models ?r (concat cs)"
    using assms by (rule push_all_models)
  have "ring_data ?r = last_n cap (concat cs)"
    using m by (simp add: ring_models_def)
  moreover have "end_seq ?r = length (concat cs)"
    using m by (rule ring_log.log_end)
  ultimately show ?thesis
    using replay_from_models [OF m, of seq] by simp
qed

theorem ring_refines_output_witness:
  "ring_data (push_all (ring_new 3) [[1, 2], [3, 4]]) = [2, 3, 4] \<and>
   replay_from (push_all (ring_new 3) [[1, 2], [3, 4]]) 2 = Some (2, [3, 4])"
proof -
  have h: "length (concat [[1, 2], [3, 4 :: u8]]) \<le> u64_max"
    by (simp add: u64_max_def)
  show ?thesis
    using ring_refines_output [OF h, of 3 2] by (simp add: last_n_def numeral_eq_Suc)
qed

text \<open>[warm_replay_completes]. Warm reconnect loses and repeats nothing: a client that has
  seen the first \<open>seq\<close> bytes of the output and is sent the replay from \<open>seq\<close> holds the
  whole output, and the sequence number it continues from is the end of the stream.
\<close>

theorem warm_replay_completes:
  assumes "length (concat cs) \<le> u64_max"
    and "replay_from (push_all (ring_new cap) cs) seq = Some (s, bs)"
  shows "take seq (concat cs) @ bs = concat cs \<and>
    s + length bs = end_seq (push_all (ring_new cap) cs)"
  by (rule ring_log.replay_completes [OF push_all_models [OF assms(1)] assms(2)])

theorem warm_replay_completes_witness:
  "take 2 [1, 2, 3, 4] @ [3, 4] = [1, 2, 3, 4 :: u8] \<and>
   2 + length [3, 4 :: u8] = end_seq (push_all (ring_new 3) [[1, 2], [3, 4]])"
proof -
  have h: "length (concat [[1, 2], [3, 4 :: u8]]) \<le> u64_max"
    by (simp add: u64_max_def)
  have r: "replay_from (push_all (ring_new 3) [[1, 2], [3, 4]]) 2 = Some (2, [3, 4])"
    by (simp add: ring_new_def ring_push_def checked_add64_def u64_max_def replay_from_def)
  show ?thesis
    using warm_replay_completes [OF h r] by simp
qed

text \<open>[exhausted_ring_replays]. Once the sequence counter is exhausted the ring stays
  poisoned whatever is pushed: every replay is refused, except the one from the maximal
  sequence number, which is granted and is empty, although bytes were pushed since.
\<close>

theorem exhausted_ring_replays:
  assumes "ring_wf r" and "bs \<noteq> []" and "u64_max < next_seq r + length bs"
  shows "replay_from (push_all (fst (ring_push r bs)) cs) seq =
    (if seq = u64_max then Some (u64_max, []) else None)"
proof -
  define p where "p = r\<lparr>next_seq := u64_max, start_seq := u64_max, ring_data := []\<rparr>"
  have stuck: "fst (ring_push p c) = p" for c
    by (cases "c = []") (auto simp: ring_push_exhausted p_def)
  have "push_all p cs = p"
    by (induction cs) (auto simp: stuck)
  moreover have "fst (ring_push r bs) = p"
    using assms by (simp add: ring_push_exhausted p_def)
  ultimately show ?thesis
    by (auto simp: replay_from_def p_def)
qed

theorem exhausted_ring_replays_witness:
  "replay_from (push_all (fst (ring_push
      \<lparr>capacity = 4, start_seq = u64_max, next_seq = u64_max, ring_data = []\<rparr> [7])) [[8], [9]])
     u64_max = Some (u64_max, [])"
proof -
  let ?r = "\<lparr>capacity = 4, start_seq = u64_max, next_seq = u64_max, ring_data = []\<rparr> :: pty_ring"
  have "ring_wf ?r" by (simp add: ring_wf_def)
  then show ?thesis
    using exhausted_ring_replays [of ?r "[7]" "[[8], [9]]" u64_max] by simp
qed

end
