(* ===== verification/Terminal.thy ===== *)
theory Terminal
  imports Ptypes
begin

text \<open>
  \<open>TerminalProjection\<close> of \<open>crates/daemon/src/terminal_model.rs\<close>: the terminal state derived
  from the PTY bytes, its cached last line, and what each call does when the parser panics.
  The parser itself (\<open>TerminalModel\<close> over the \<open>alacritty_terminal\<close> crate) is a parameter
  of type \<open>'m\<close>: a call returns nothing when it panics, and the replies to terminal queries
  it sent to the PTY on the way.
\<close>

record 'm parser =
  tm_new :: "client_size \<Rightarrow> 'm"
  tm_advance :: "'m \<Rightarrow> bytes \<Rightarrow> 'm option \<times> bytes list"
  tm_resize :: "'m \<Rightarrow> client_size \<Rightarrow> 'm option"
  tm_last_line :: "'m \<Rightarrow> nat \<Rightarrow> rstr option option"
  tm_render :: "'m \<Rightarrow> bytes option"

datatype projection_failure = ParserPanicked | InspectionPanicked | Unavailable

definition invalidated_model :: "projection_failure \<Rightarrow> bool" where
  "invalidated_model f \<longleftrightarrow> f = ParserPanicked \<or> f = Unavailable"

record 'm projection =
  tp_model :: "'m option"
  tp_size :: client_size
  tp_last_line :: "rstr option"
  tp_last_line_dirty :: bool
  tp_last_line_max_chars :: nat

definition projection_new :: "'m parser \<Rightarrow> client_size \<Rightarrow> 'm projection" where
  "projection_new tm sz = \<lparr>tp_model = Some (tm_new tm sz), tp_size = sz,
     tp_last_line = None, tp_last_line_dirty = False, tp_last_line_max_chars = 0\<rparr>"

text \<open>The failure if any, the projection after the call, and the replies to the PTY.\<close>

definition ingest ::
    "'m parser \<Rightarrow> 'm projection \<Rightarrow> bytes \<Rightarrow> projection_failure option \<times> 'm projection \<times> bytes list"
  where
  "ingest tm p bs =
     (case tp_model p of
        None \<Rightarrow> (Some Unavailable, p, [])
      | Some model \<Rightarrow>
          (case tm_advance tm model bs of
             (None, replies) \<Rightarrow> (Some ParserPanicked, p\<lparr>tp_model := None\<rparr>, replies)
           | (Some model', replies) \<Rightarrow>
               (None, p\<lparr>tp_model := Some model', tp_last_line_dirty := True\<rparr>, replies)))"

definition last_non_empty_line ::
    "'m parser \<Rightarrow> 'm projection \<Rightarrow> nat \<Rightarrow> (projection_failure + rstr option) \<times> 'm projection" where
  "last_non_empty_line tm p max_chars =
     (if \<not> tp_last_line_dirty p \<and> tp_last_line_max_chars p = max_chars
      then (Inr (tp_last_line p), p)
      else case tp_model p of
        None \<Rightarrow> (Inl Unavailable, p)
      | Some model \<Rightarrow>
          (case tm_last_line tm model max_chars of
             None \<Rightarrow> (Inl InspectionPanicked, p)
           | Some l \<Rightarrow> (Inr l, p\<lparr>tp_last_line := l, tp_last_line_dirty := False,
               tp_last_line_max_chars := max_chars\<rparr>)))"

definition cache_last_non_empty_line :: "'m projection \<Rightarrow> rstr \<Rightarrow> nat \<Rightarrow> 'm projection" where
  "cache_last_non_empty_line p l max_chars =
     p\<lparr>tp_last_line_max_chars := max_chars, tp_last_line := Some l, tp_last_line_dirty := False\<rparr>"

definition projection_resize ::
    "'m parser \<Rightarrow> 'm projection \<Rightarrow> client_size \<Rightarrow> projection_failure option \<times> 'm projection" where
  "projection_resize tm p sz =
     (let p = p\<lparr>tp_size := sz\<rparr> in
      case tp_model p of
        None \<Rightarrow> (Some Unavailable, p)
      | Some model \<Rightarrow>
          (case tm_resize tm model sz of
             Some model' \<Rightarrow> (None, p\<lparr>tp_model := Some model', tp_last_line_dirty := True\<rparr>)
           | None \<Rightarrow> (Some ParserPanicked, p\<lparr>tp_model := None\<rparr>)))"

definition projection_snapshot :: "'m parser \<Rightarrow> 'm projection \<Rightarrow> projection_failure + bytes" where
  "projection_snapshot tm p =
     (case tp_model p of
        None \<Rightarrow> Inl Unavailable
      | Some model \<Rightarrow>
          (case tm_render tm model of None \<Rightarrow> Inl InspectionPanicked | Some s \<Rightarrow> Inr s))"

definition rebuild ::
    "'m parser \<Rightarrow> 'm projection \<Rightarrow> bytes \<Rightarrow> projection_failure option \<times> 'm projection \<times> bytes list"
  where
  "rebuild tm p scrollback =
     (case tm_advance tm (tm_new tm (tp_size p)) scrollback of
        (Some model, replies) \<Rightarrow>
          (None, p\<lparr>tp_model := Some model, tp_last_line := None, tp_last_line_dirty := True,
             tp_last_line_max_chars := 0\<rparr>, replies)
      | (None, replies) \<Rightarrow> (Some ParserPanicked, p\<lparr>tp_model := None\<rparr>, replies))"

section \<open>Lemmas\<close>

text \<open>
  A failure that leaves the model in place is an inspection; every other failure leaves no
  model, and every call but a rebuild fails until the rebuild.
\<close>

lemma ingest_failure: "ingest tm p bs = (Some f, p', rs) \<Longrightarrow> invalidated_model f \<and> tp_model p' = None"
  by (auto simp: ingest_def invalidated_model_def split: option.splits prod.splits)

lemma resize_failure:
  "projection_resize tm p sz = (Some f, p') \<Longrightarrow> invalidated_model f \<and> tp_model p' = None"
  by (auto simp: projection_resize_def invalidated_model_def Let_def split: option.splits)

lemma snapshot_failure: "projection_snapshot tm p = Inl f \<Longrightarrow> invalidated_model f \<longleftrightarrow> tp_model p = None"
  by (auto simp: projection_snapshot_def invalidated_model_def split: option.splits)

lemma rebuild_model: "rebuild tm p sb = (r, p', rs) \<Longrightarrow> (r = None \<longleftrightarrow> tp_model p' \<noteq> None) \<and> tp_size p' = tp_size p"
  by (auto simp: rebuild_def split: option.splits prod.splits)

lemma cached_line: "fst (last_non_empty_line tm (cache_last_non_empty_line p l n) n) = Inr (Some l)"
  by (simp add: last_non_empty_line_def cache_last_non_empty_line_def)

end
