(* ===== verification/Tables.thy ===== *)
theory Tables
  imports Interfaces
begin

text \<open>
  An ordered table of an embedded database: what \<open>redb\<close> documents of a \<open>Table\<close> and SQLite of
  a table with a text primary key.  Rows are kept in ascending key order, an insert replaces
  the row of its key, and iteration is in key order.  A string's key order is that of its
  UTF-8 bytes, which is the lexicographic order of its characters.
\<close>

fun key_less :: "nat list \<Rightarrow> nat list \<Rightarrow> bool" where
  "key_less [] [] = False"
| "key_less [] (b # bs) = True"
| "key_less (a # as) [] = False"
| "key_less (a # as) (b # bs) = (a < b \<or> (a = b \<and> key_less as bs))"

lemma key_less_irrefl [simp]: "\<not> key_less a a"
  by (induction a) auto

lemma key_less_trans: "key_less a b \<Longrightarrow> key_less b c \<Longrightarrow> key_less a c"
proof (induction a b arbitrary: c rule: key_less.induct)
  case (2 b bs)
  then show ?case by (cases c) auto
next
  case (4 a as b bs)
  then show ?case by (cases c) auto
qed auto

lemma key_less_linear: "key_less a b \<or> a = b \<or> key_less b a"
  by (induction a b rule: key_less.induct) auto

type_synonym 'v table = "(nat list \<times> 'v) list"

fun tbl_insert :: "nat list \<Rightarrow> 'v \<Rightarrow> 'v table \<Rightarrow> 'v table" where
  "tbl_insert k v [] = [(k, v)]"
| "tbl_insert k v ((j, w) # t) =
     (if key_less k j then (k, v) # (j, w) # t
      else if k = j then (k, v) # t
      else (j, w) # tbl_insert k v t)"

definition tbl_remove :: "nat list \<Rightarrow> 'v table \<Rightarrow> 'v table" where
  "tbl_remove k t = filter (\<lambda>(j, w). j \<noteq> k) t"

definition tbl_get :: "'v table \<Rightarrow> nat list \<Rightarrow> 'v option" where
  "tbl_get t k = map_of t k"

definition tbl_ok :: "'v table \<Rightarrow> bool" where
  "tbl_ok t \<longleftrightarrow> sorted_wrt key_less (map fst t)"

lemma tbl_ok_Nil [simp]: "tbl_ok []"
  by (simp add: tbl_ok_def)

lemma tbl_ok_distinct: "tbl_ok t \<Longrightarrow> distinct (map fst t)"
proof (induction t)
  case Nil
  then show ?case by simp
next
  case (Cons r t)
  then show ?case by (cases r) (auto simp: tbl_ok_def)
qed

lemma keys_tbl_insert: "fst ` set (tbl_insert k v t) = insert k (fst ` set t)"
proof (induction t)
  case Nil
  then show ?case by simp
next
  case (Cons r t)
  then show ?case by (cases r) (simp add: insert_commute)
qed

lemma tbl_insert_ok: "tbl_ok t \<Longrightarrow> tbl_ok (tbl_insert k v t)"
proof (induction t)
  case Nil
  then show ?case by (simp add: tbl_ok_def)
next
  case (Cons r t)
  obtain j w where r: "r = (j, w)" by (cases r)
  have tail: "\<forall>y \<in> fst ` set t. key_less j y" "tbl_ok t"
    using Cons.prems r by (auto simp: tbl_ok_def)
  show ?case
  proof (cases "key_less k j")
    case True
    with tail Cons.prems r show ?thesis
      by (auto simp: tbl_ok_def intro: key_less_trans)
  next
    case False
    show ?thesis
    proof (cases "k = j")
      case True
      with tail Cons.prems r show ?thesis by (auto simp: tbl_ok_def)
    next
      case ne: False
      have "\<forall>y \<in> fst ` set (tbl_insert k v t). key_less j y"
        using tail False ne key_less_linear [of k j] unfolding keys_tbl_insert by auto
      then show ?thesis
        using Cons.IH [OF tail(2)] False ne r by (simp add: tbl_ok_def)
    qed
  qed
qed

lemma tbl_remove_ok: "tbl_ok t \<Longrightarrow> tbl_ok (tbl_remove k t)"
proof (induction t)
  case Nil
  then show ?case by (simp add: tbl_remove_def)
next
  case (Cons r t)
  then show ?case by (cases r) (auto simp: tbl_ok_def tbl_remove_def)
qed

lemma tbl_get_insert: "tbl_get (tbl_insert k v t) j = (if j = k then Some v else tbl_get t j)"
  by (induction t) (auto simp: tbl_get_def)

lemma tbl_get_remove: "tbl_get (tbl_remove k t) j = (if j = k then None else tbl_get t j)"
  by (induction t) (auto simp: tbl_get_def tbl_remove_def)

lemma tbl_get_set: "tbl_ok t \<Longrightarrow> tbl_get t k = Some v \<longleftrightarrow> (k, v) \<in> set t"
  unfolding tbl_get_def by (rule map_of_eq_Some_iff [OF tbl_ok_distinct])

interpretation tbl: keyed_store tbl_get tbl_insert tbl_remove tbl_ok
  by unfold_locales (auto simp: tbl_insert_ok tbl_remove_ok tbl_get_insert tbl_get_remove)

lemma tbl_insert_rows: "tbl_ok t \<Longrightarrow> set (tbl_insert k v t) = insert (k, v) {r \<in> set t. fst r \<noteq> k}"
proof -
  assume ok: "tbl_ok t"
  have "(j, w) \<in> set (tbl_insert k v t) \<longleftrightarrow> (j, w) \<in> insert (k, v) {r \<in> set t. fst r \<noteq> k}" for j w
    using tbl_get_insert [of k v t j]
    by (auto simp: tbl_get_set [OF ok, symmetric] tbl_get_set [OF tbl_insert_ok [OF ok], symmetric])
  then show ?thesis by auto
qed

lemma tbl_remove_rows: "set (tbl_remove k t) = {r \<in> set t. fst r \<noteq> k}"
  by (auto simp: tbl_remove_def)

lemma tbl_remove_all_rows: "set (fold tbl_remove ks t) = {r \<in> set t. fst r \<notin> set ks}"
  by (induction ks arbitrary: t) (auto simp: tbl_remove_rows)

section \<open>Deletes and updates by a condition\<close>

text \<open>\<open>DELETE \<dots> WHERE\<close> keeps the other rows; \<open>UPDATE \<dots> WHERE\<close> the key changes its row.\<close>

definition tbl_retain :: "(nat list \<Rightarrow> 'v \<Rightarrow> bool) \<Rightarrow> 'v table \<Rightarrow> 'v table" where
  "tbl_retain P t = filter (\<lambda>(k, v). P k v) t"

definition tbl_update :: "nat list \<Rightarrow> ('v \<Rightarrow> 'v) \<Rightarrow> 'v table \<Rightarrow> 'v table" where
  "tbl_update k f t = map (\<lambda>(j, w). (j, if j = k then f w else w)) t"

definition tbl_map :: "('v \<Rightarrow> 'w) \<Rightarrow> 'v table \<Rightarrow> 'w table" where
  "tbl_map f t = map (\<lambda>(k, v). (k, f v)) t"

lemma tbl_retain_ok: "tbl_ok t \<Longrightarrow> tbl_ok (tbl_retain P t)"
  by (induction t) (auto simp: tbl_ok_def tbl_retain_def)

lemma keys_tbl_map [simp]: "map fst (tbl_map f t) = map fst t"
  by (simp add: tbl_map_def comp_def case_prod_beta)

lemma keys_tbl_update [simp]: "map fst (tbl_update k f t) = map fst t"
  by (simp add: tbl_update_def comp_def case_prod_beta)

lemma tbl_map_ok [simp]: "tbl_ok (tbl_map f t) \<longleftrightarrow> tbl_ok t"
  by (simp add: tbl_ok_def)

lemma tbl_update_ok [simp]: "tbl_ok (tbl_update k f t) \<longleftrightarrow> tbl_ok t"
  by (simp add: tbl_ok_def)

lemma length_tbl_map [simp]: "length (tbl_map f t) = length t"
  by (simp add: tbl_map_def)

lemma length_tbl_update [simp]: "length (tbl_update k f t) = length t"
  by (simp add: tbl_update_def)

lemma tbl_get_retain:
  "tbl_ok t \<Longrightarrow> tbl_get (tbl_retain P t) k = Some v \<longleftrightarrow> tbl_get t k = Some v \<and> P k v"
  by (simp add: tbl_get_set tbl_retain_ok) (auto simp: tbl_retain_def)

lemma tbl_get_update:
  "tbl_get (tbl_update k f t) j = (if j = k then map_option f (tbl_get t j) else tbl_get t j)"
  by (induction t) (auto simp: tbl_get_def tbl_update_def)

lemma tbl_get_map: "tbl_get (tbl_map f t) k = map_option f (tbl_get t k)"
  by (induction t) (auto simp: tbl_get_def tbl_map_def)

lemma tbl_map_insert: "tbl_map f (tbl_insert k v t) = tbl_insert k (f v) (tbl_map f t)"
  by (induction t) (auto simp: tbl_map_def)

lemma tbl_map_remove: "tbl_map f (tbl_remove k t) = tbl_remove k (tbl_map f t)"
  by (induction t) (auto simp: tbl_map_def tbl_remove_def)

lemma tbl_map_update:
  "(\<And>v. f (g v) = h (f v)) \<Longrightarrow> tbl_map f (tbl_update k g t) = tbl_update k h (tbl_map f t)"
  by (induction t) (auto simp: tbl_map_def tbl_update_def)

lemma tbl_map_retain:
  "(\<And>k v. (k, v) \<in> set t \<Longrightarrow> P k v \<longleftrightarrow> Q k (f v)) \<Longrightarrow>
    tbl_map f (tbl_retain P t) = tbl_retain Q (tbl_map f t)"
  by (induction t) (auto simp: tbl_map_def tbl_retain_def)

lemma tbl_retain_retain: "tbl_retain P (tbl_retain Q t) = tbl_retain (\<lambda>k v. Q k v \<and> P k v) t"
  by (induction t) (auto simp: tbl_retain_def)

lemma tbl_retain_cong:
  "(\<And>k v. (k, v) \<in> set t \<Longrightarrow> P k v \<longleftrightarrow> Q k v) \<Longrightarrow> tbl_retain P t = tbl_retain Q t"
  unfolding tbl_retain_def by (rule filter_cong) auto

lemma tbl_get_dom: "tbl_get t k = None \<longleftrightarrow> k \<notin> fst ` set t"
  by (auto simp: tbl_get_def map_of_eq_None_iff)

lemma length_tbl_insert:
  "length (tbl_insert k v t) = (if tbl_get t k = None then Suc (length t) else length t)"
  if "tbl_ok t"
proof -
  have "length (tbl_insert k v t) = card (insert k (fst ` set t))"
    using distinct_card [OF tbl_ok_distinct [OF tbl_insert_ok [OF that, of k v]]]
      keys_tbl_insert [of k v t] by simp
  moreover have "card (fst ` set t) = length t"
    using distinct_card [OF tbl_ok_distinct [OF that]] by simp
  ultimately show ?thesis
    by (simp add: tbl_get_dom card_insert_if)
qed

lemma length_tbl_remove_le: "length (tbl_remove k t) \<le> length t"
  by (simp add: tbl_remove_def)

lemma length_tbl_retain_le: "length (tbl_retain P t) \<le> length t"
  by (simp add: tbl_retain_def)

end
