(* ===== verification/Framing.thy ===== *)
theory Framing
  imports Interfaces Rtext
begin

text \<open>
  Length-prefixed frames (\<open>crates/protocol/src/framing.rs\<close>): the bincode and MessagePack
  payload codecs with their trailing-byte checks, reading a frame from a stream in bounded
  chunks, and writing one through a writer that may accept any part of what it is given.
  The serializers are crates and the streams are tokio's: both are parameters.  A reader is
  a function \<open>rd r n\<close> that returns \<open>n\<close> bytes and the next reader state or an I/O error;
  a vectored writer \<open>wv w bufs\<close> returns an error or the number of bytes it accepted, and
  its next state.
\<close>

definition MAX_FRAME_LEN :: nat where "MAX_FRAME_LEN = 1024 * 1024"
definition READ_CHUNK_LEN :: nat where "READ_CHUNK_LEN = 8 * 1024"

section \<open>Payload codecs\<close>

datatype 'd bincode_error = BincodeDecode 'd | OtherString rstr
datatype 'd messagepack_error = MpDecode 'd | MpTrailingBytes nat

definition decode_bincode ::
    "(bytes \<Rightarrow> 'd + ('m \<times> nat)) \<Rightarrow> bytes \<Rightarrow> 'd bincode_error + 'm" where
  "decode_bincode from_slice payload =
     (case from_slice payload of
        Inl e \<Rightarrow> Inl (BincodeDecode e)
      | Inr (value, bytes_read) \<Rightarrow>
          if bytes_read \<noteq> length payload
          then Inl (OtherString (lit ''trailing bytes after bincode payload: ''
                 @ dec (length payload - bytes_read)))
          else Inr value)"

definition decode_messagepack ::
    "(bytes \<Rightarrow> 'd + ('m \<times> nat)) \<Rightarrow> bytes \<Rightarrow> 'd messagepack_error + 'm" where
  "decode_messagepack deserialize payload =
     (case deserialize payload of
        Inl e \<Rightarrow> Inl (MpDecode e)
      | Inr (message, consumed) \<Rightarrow>
          if consumed \<noteq> length payload
          then Inl (MpTrailingBytes (length payload - consumed))
          else Inr message)"

section \<open>Complete frames\<close>

datatype ('e, 'd) frame_error = FrameTooLarge nat | Incomplete | FrameEncode 'e | FrameDecode 'd

definition encode_frame ::
    "('m \<Rightarrow> 'e + bytes) \<Rightarrow> 'm \<Rightarrow> ('e, 'd) frame_error + bytes" where
  "encode_frame encode_bincode message =
     (case encode_bincode message of
        Inl e \<Rightarrow> Inl (FrameEncode e)
      | Inr payload \<Rightarrow>
          if MAX_FRAME_LEN < length payload then Inl (FrameTooLarge (length payload))
          else Inr (be_bytes 4 (length payload) @ payload))"

definition decode_frame ::
    "(bytes \<Rightarrow> 'd + 'm) \<Rightarrow> bytes \<Rightarrow> ('e, 'd) frame_error + 'm" where
  "decode_frame dec_payload frame =
     (if length frame < 4 then Inl Incomplete
      else let len = from_be (take 4 frame) in
        if MAX_FRAME_LEN < len then Inl (FrameTooLarge len)
        else if length frame < 4 + len then Inl Incomplete
        else case dec_payload (take len (drop 4 frame)) of
               Inl e \<Rightarrow> Inl (FrameDecode e)
             | Inr m \<Rightarrow> Inr m)"

section \<open>Reading\<close>

datatype ('io, 'd) read_error = ReadLength 'io | ReadTooLarge nat | ReadPayload 'io | ReadDecode 'd

text \<open>
  \<open>read_exact\<close> fills the slice it is given: the slice has its length whatever the reader
  returns (the contract of \<open>AsyncReadExt::read_exact\<close> is that it returns that many).
\<close>

definition fill :: "nat \<Rightarrow> bytes \<Rightarrow> bytes" where
  "fill n bs = take n (bs @ replicate n 0)"

lemma length_fill [simp]: "length (fill n bs) = n"
  by (simp add: fill_def)

lemma fill_exact: "length bs = n \<Longrightarrow> fill n bs = bs"
  by (simp add: fill_def)

function read_payload ::
    "('r \<Rightarrow> nat \<Rightarrow> 'io + (bytes \<times> 'r)) \<Rightarrow> 'r \<Rightarrow> nat \<Rightarrow> bytes \<Rightarrow> 'io + (bytes \<times> 'r)" where
  "read_payload rd r len payload =
     (if length payload < len then
        let chunk_len = min (len - length payload) READ_CHUNK_LEN in
        case rd r chunk_len of
          Inl e \<Rightarrow> Inl e
        | Inr (bs, r') \<Rightarrow> read_payload rd r' len (payload @ fill chunk_len bs)
      else Inr (payload, r))"
  by pat_completeness auto
termination
  by (relation "measure (\<lambda>(rd, r, len, payload). len - length payload)")
    (auto simp: READ_CHUNK_LEN_def)

declare read_payload.simps [simp del]

definition read_framed ::
    "('r \<Rightarrow> nat \<Rightarrow> 'io + (bytes \<times> 'r)) \<Rightarrow> (bytes \<Rightarrow> 'd + 'm) \<Rightarrow> 'r \<Rightarrow>
      ('io, 'd) read_error + ('m \<times> 'r)" where
  "read_framed rd decode r =
     (case rd r 4 of
        Inl e \<Rightarrow> Inl (ReadLength e)
      | Inr (l, r1) \<Rightarrow>
          let len = from_be (fill 4 l) in
          if MAX_FRAME_LEN < len then Inl (ReadTooLarge len)
          else (case read_payload rd r1 len [] of
                  Inl e \<Rightarrow> Inl (ReadPayload e)
                | Inr (payload, r2) \<Rightarrow>
                    (case decode payload of
                       Inl e \<Rightarrow> Inl (ReadDecode e)
                     | Inr m \<Rightarrow> Inr (m, r2))))"

text \<open>The stream a peer sent and closed: reading past its end is an error.\<close>

definition stream_read_exact :: "bytes \<Rightarrow> nat \<Rightarrow> unit + (bytes \<times> bytes)" where
  "stream_read_exact s n = (if n \<le> length s then Inr (take n s, drop n s) else Inl ())"

section \<open>Writing\<close>

datatype ('io, 'e) write_error = Encode 'e | WTooLarge nat | WriteLength 'io | WritePayload 'io

definition write_failure :: "nat \<Rightarrow> nat \<Rightarrow> 'io \<Rightarrow> ('io, 'e) write_error" where
  "write_failure written prefix_len e =
     (if written < prefix_len then WriteLength e else WritePayload e)"

function write_loop ::
    "('w \<Rightarrow> bytes list \<Rightarrow> ('io + nat) \<times> 'w) \<Rightarrow> 'io \<Rightarrow> bytes \<Rightarrow> bytes \<Rightarrow> 'w \<Rightarrow> nat \<Rightarrow>
      ('io, 'e) write_error option \<times> 'w" where
  "write_loop wv write_zero len_bytes payload w written =
     (let frame_len = length len_bytes + length payload in
      if written < frame_len then
        let bufs = (if written < length len_bytes
                    then [drop written len_bytes, payload]
                    else [drop (written - length len_bytes) payload]) in
        case wv w bufs of
          (Inl e, w') \<Rightarrow> (Some (write_failure written (length len_bytes) e), w')
        | (Inr count, w') \<Rightarrow>
            if count = 0 then (Some (write_failure written (length len_bytes) write_zero), w')
            else write_loop wv write_zero len_bytes payload w' (written + count)
      else (None, w))"
  by pat_completeness auto
termination
  by (relation "measure (\<lambda>(wv, z, l, p, w, written). length l + length p - written)") auto

declare write_loop.simps [simp del]

definition write_framed ::
    "('w \<Rightarrow> bytes list \<Rightarrow> ('io + nat) \<times> 'w) \<Rightarrow> 'io \<Rightarrow> ('m \<Rightarrow> 'e + bytes) \<Rightarrow> 'w \<Rightarrow> 'm \<Rightarrow>
      ('io, 'e) write_error option \<times> 'w" where
  "write_framed wv write_zero encode w message =
     (case encode message of
        Inl e \<Rightarrow> (Some (Encode e), w)
      | Inr payload \<Rightarrow>
          if MAX_FRAME_LEN < length payload then (Some (WTooLarge (length payload)), w)
          else write_loop wv write_zero (be_bytes 4 (length payload)) payload w 0)"

section \<open>The frame as a self-delimiting item\<close>

definition frame_bytes :: "bytes \<Rightarrow> bytes" where
  "frame_bytes payload = be_bytes 4 (length payload) @ payload"

definition frame_ok :: "bytes \<Rightarrow> bool" where
  "frame_ok payload \<longleftrightarrow> length payload \<le> MAX_FRAME_LEN"

lemma frame_len_fits: "frame_ok p \<Longrightarrow> length p < 256 ^ 4"
  by (simp add: frame_ok_def MAX_FRAME_LEN_def)

lemma from_be_frame: "frame_ok p \<Longrightarrow> from_be (be_bytes 4 (length p)) = length p"
  by (intro from_be_be_bytes frame_len_fits)

interpretation frames: prefix_code frame_bytes frame_ok
proof unfold_locales
  fix x :: bytes
  show "frame_bytes x \<noteq> []"
    using length_be_bytes [of 4 "length x"] by (auto simp: frame_bytes_def simp del: length_be_bytes)
next
  fix x y u v
  assume ok: "frame_ok x" "frame_ok y" and eq: "frame_bytes x @ u = frame_bytes y @ v"
  from eq have heads: "be_bytes 4 (length x) = be_bytes 4 (length y)" and tails: "x @ u = y @ v"
    by (auto simp: frame_bytes_def append_eq_append_conv)
  have "length x = length y"
    by (rule be_bytes_inj [OF frame_len_fits [OF ok(1)] frame_len_fits [OF ok(2)] heads])
  with tails show "x = y" by simp
qed

section \<open>Lemmas on reading\<close>

lemma read_payload_stream:
  "length payload \<le> len \<Longrightarrow> read_payload stream_read_exact s len payload =
     (if len - length payload \<le> length s
      then Inr (payload @ take (len - length payload) s, drop (len - length payload) s)
      else Inl ())"
proof (induction "stream_read_exact" s len payload rule: read_payload.induct)
  case (1 s len payload)
  show ?case
  proof (cases "length payload < len")
    case False
    then show ?thesis using "1.prems" by (subst read_payload.simps) simp
  next
    case True
    define k where "k = min (len - length payload) READ_CHUNK_LEN"
    show ?thesis
    proof (cases "k \<le> length s")
      case False
      with True show ?thesis
        by (subst read_payload.simps) (auto simp: stream_read_exact_def k_def Let_def)
    next
      case enough: True
      have kle: "k \<le> len - length payload" by (simp add: k_def)
      have rd: "stream_read_exact s k = Inr (take k s, drop k s)"
        using enough by (simp add: stream_read_exact_def)
      have "read_payload stream_read_exact s len payload =
          read_payload stream_read_exact (drop k s) len (payload @ take k s)"
        using True enough rd
        by (subst read_payload.simps) (simp add: k_def [symmetric] fill_exact)
      also have "\<dots> = (if len - length (payload @ take k s) \<le> length (drop k s)
          then Inr ((payload @ take k s) @ take (len - length (payload @ take k s)) (drop k s),
                    drop (len - length (payload @ take k s)) (drop k s)) else Inl ())"
        using "1.hyps" [OF True k_def rd refl] True kle enough by (simp add: fill_exact)
      also have "\<dots> = (if len - length payload \<le> length s
          then Inr (payload @ take (len - length payload) s, drop (len - length payload) s)
          else Inl ())"
      proof -
        have "k + (len - (k + length payload)) = len - length payload"
          using kle by simp
        then show ?thesis
          using kle enough by (auto simp: take_add [symmetric] add.commute)
      qed
      finally show ?thesis .
    qed
  qed
qed


lemma read_framed_stream:
  assumes "frame_ok p"
  shows "read_framed stream_read_exact decode (frame_bytes p @ rest) =
    (case decode p of Inl e \<Rightarrow> Inl (ReadDecode e) | Inr m \<Rightarrow> Inr (m, rest))"
proof -
  have "length p \<le> MAX_FRAME_LEN"
    using assms by (simp add: frame_ok_def)
  then show ?thesis
    using from_be_frame [OF assms]
    by (simp add: read_framed_def stream_read_exact_def frame_bytes_def fill_exact
        read_payload_stream split: sum.splits)
qed

text \<open>Reading a stream to its end: the messages in order, then why reading stopped.\<close>

function read_stream :: "(bytes \<Rightarrow> 'd + 'm) \<Rightarrow> bytes \<Rightarrow> 'm list \<times> (unit, 'd) read_error" where
  "read_stream decode s =
     (case read_framed stream_read_exact decode s of
        Inl e \<Rightarrow> ([], e)
      | Inr (m, s') \<Rightarrow> if length s' < length s
          then (let (ms, e) = read_stream decode s' in (m # ms, e)) else ([m], ReadLength ()))"
  by pat_completeness auto
termination
  by (relation "measure (\<lambda>(d, s). length s)") auto

declare read_stream.simps [simp del]

lemma read_stream_cons:
  assumes "frame_ok p" and "decode p = Inr m"
  shows "read_stream decode (frame_bytes p @ rest) =
    (m # fst (read_stream decode rest), snd (read_stream decode rest))"
proof -
  have "length rest < length (frame_bytes p @ rest)"
    by (simp add: frame_bytes_def)
  then show ?thesis
    by (subst read_stream.simps) (simp only: read_framed_stream [OF assms(1)] assms(2)
        sum.case prod.case prod.sel if_True split_beta Let_def)
qed

lemma read_framed_short: "length s < 4 \<Longrightarrow> read_framed stream_read_exact decode s = Inl (ReadLength ())"
  by (simp add: read_framed_def stream_read_exact_def)

lemma read_framed_cut:
  assumes "frame_ok p" and "k < length (frame_bytes p)"
  shows "read_framed stream_read_exact decode (take k (frame_bytes p)) =
    Inl (if k < 4 then ReadLength () else ReadPayload ())"
proof (cases "k < 4")
  case True
  then show ?thesis by (simp add: read_framed_short)
next
  case False
  have len: "length p \<le> MAX_FRAME_LEN"
    using assms(1) by (simp add: frame_ok_def)
  have no_more: "\<not> length p \<le> k - 4"
    using assms(2) False by (simp add: frame_bytes_def)
  have cut: "take k (frame_bytes p) = be_bytes 4 (length p) @ take (k - 4) p"
    using False by (simp add: frame_bytes_def)
  show ?thesis
    unfolding cut using False len no_more from_be_frame [OF assms(1)]
    by (simp add: read_framed_def stream_read_exact_def fill_exact read_payload_stream
        frame_bytes_def Let_def min_def)
qed

lemma read_stream_cut:
  "frame_ok p \<Longrightarrow> k < length (frame_bytes p) \<Longrightarrow>
    read_stream decode (take k (frame_bytes p)) =
      ([], if k < 4 then ReadLength () else ReadPayload ())"
  by (subst read_stream.simps) (simp add: read_framed_cut)

lemma read_stream_frames:
  assumes "list_all frame_ok (map fst pms)" and "\<forall>(p, m) \<in> set pms. decode p = Inr m"
  shows "read_stream decode (concat (map (frame_bytes \<circ> fst) pms) @ rest) =
    (map snd pms @ fst (read_stream decode rest), snd (read_stream decode rest))"
  using assms
proof (induction pms)
  case Nil
  then show ?case by simp
next
  case (Cons pm pms)
  obtain p m where pm: "pm = (p, m)" by (cases pm)
  with Cons show ?case by (simp add: read_stream_cons)
qed

section \<open>Lemmas on writing\<close>

definition honest_writer :: "('w \<Rightarrow> bytes) \<Rightarrow> ('w \<Rightarrow> bytes list \<Rightarrow> ('io + nat) \<times> 'w) \<Rightarrow> bool" where
  "honest_writer out wv \<longleftrightarrow> (\<forall>w bufs. case wv w bufs of
      (Inl e, w') \<Rightarrow> out w' = out w
    | (Inr n, w') \<Rightarrow> n \<le> length (concat bufs) \<and> out w' = out w @ take n (concat bufs))"

lemma honest_writer_Inl: "honest_writer out wv \<Longrightarrow> wv w bufs = (Inl e, w') \<Longrightarrow> out w' = out w"
  unfolding honest_writer_def by (drule spec [of _ w], drule spec [of _ bufs]) simp

lemma honest_writer_Inr:
  "honest_writer out wv \<Longrightarrow> wv w bufs = (Inr n, w') \<Longrightarrow>
    n \<le> length (concat bufs) \<and> out w' = out w @ take n (concat bufs)"
  unfolding honest_writer_def by (drule spec [of _ w], drule spec [of _ bufs]) simp

text \<open>What one outcome of a write says about the bytes the peer got.\<close>

definition write_outcome :: "bytes \<Rightarrow> ('io, 'e) write_error option \<Rightarrow> bytes \<Rightarrow> bool" where
  "write_outcome payload r sent = (case r of
      None \<Rightarrow> sent = frame_bytes payload
    | Some (WriteLength e) \<Rightarrow> (\<exists>k < 4. sent = take k (frame_bytes payload))
    | Some (WritePayload e) \<Rightarrow>
        (\<exists>k < length (frame_bytes payload). 4 \<le> k \<and> sent = take k (frame_bytes payload))
    | Some _ \<Rightarrow> sent = [])"


lemma write_loop_outcome:
  assumes "honest_writer out wv" and "l = be_bytes 4 (length payload)"
  shows "out w = base @ take written (l @ payload) \<Longrightarrow> written \<le> length (l @ payload) \<Longrightarrow>
    write_loop wv z l payload w written = (r, w') \<Longrightarrow>
    \<exists>sent. out w' = base @ sent \<and> write_outcome payload r sent"
  using assms
proof (induction wv z l payload w written arbitrary: r w' rule: write_loop.induct)
  case (1 wv z l payload w written)
  have len: "length l = 4" and frame: "frame_bytes payload = l @ payload"
    using "1.prems"(5) by (auto simp: frame_bytes_def)
  show ?case
  proof (cases "written < length l + length payload")
    case False
    then have "(r, w') = (None, w)"
      using "1.prems"(3) by (simp add: write_loop.simps [of wv z l payload w written])
    then have "r = None" "w' = w" by auto
    moreover have "written = length (l @ payload)"
      using False "1.prems"(2) by simp
    ultimately show ?thesis
      using "1.prems"(1) by (simp add: write_outcome_def frame)
  next
    case True
    define bufs where "bufs = (if written < length l
        then [drop written l, payload] else [drop (written - length l) payload])"
    have bufs: "concat bufs = drop written (l @ payload)"
      by (simp add: bufs_def)
    have stopped: "write_outcome payload (Some (write_failure written (length l) e)) (take written (l @ payload))" for e
      using True by (auto simp: write_outcome_def write_failure_def frame len)
    show ?thesis
    proof (cases "wv w bufs")
      case (Pair res w1)
      show ?thesis
      proof (cases res)
        case (Inl e)
        then have "r = Some (write_failure written (length l) e)" "w' = w1"
          using True Pair "1.prems"(3)
          by (auto simp: write_loop.simps [of wv z l payload w written] bufs_def [symmetric]
              Let_def)
        then show ?thesis
          using honest_writer_Inl [OF "1.prems"(4)] Pair Inl "1.prems"(1) stopped by auto
      next
        case (Inr count)
        then have w1: "count \<le> length (concat bufs)" "out w1 = out w @ take count (concat bufs)"
          using honest_writer_Inr [OF "1.prems"(4)] Pair by auto
        show ?thesis
        proof (cases "count = 0")
          case zero: True
          then have "r = Some (write_failure written (length l) z)" "w' = w1"
            using True Pair Inr "1.prems"(3)
            by (auto simp: write_loop.simps [of wv z l payload w written] bufs_def [symmetric]
                Let_def)
          then show ?thesis
            using w1 zero "1.prems"(1) stopped by auto
        next
          case False
          then have go: "write_loop wv z l payload w1 (written + count) = (r, w')"
            using True Pair Inr "1.prems"(3)
            by (simp add: write_loop.simps [of wv z l payload w written] bufs_def [symmetric]
                Let_def)
          have "out w1 = base @ take (written + count) (l @ payload)"
            using w1(2) "1.prems"(1) by (simp add: bufs take_add del: take_append drop_append)
          moreover have "written + count \<le> length (l @ payload)"
            using w1(1) True by (simp add: bufs)
          ultimately show ?thesis
            using "1.IH" [OF refl True bufs_def Pair [symmetric] Inr False] go "1.prems"(4,5)
            by blast
        qed
      qed
    qed
  qed
qed

lemma write_loop_not_too_large:
  "write_loop wv z l payload w written = (r, w') \<Longrightarrow> r \<noteq> Some (WTooLarge n)"
proof (induction "length l + length payload - written" arbitrary: w written rule: less_induct)
  case less
  show ?case
  proof (cases "written < length l + length payload")
    case False
    then show ?thesis
      using less.prems by (simp add: write_loop.simps [of wv z l payload w written])
  next
    case True
    have step: "length l + length payload - (written + count) < length l + length payload - written"
      if "count \<noteq> 0" for count
      using True that by simp
    show ?thesis
      using less.prems True less.hyps [OF step]
      by (subst (asm) write_loop.simps)
        (auto simp: Let_def write_failure_def split: if_splits prod.splits sum.splits)
  qed
qed

section \<open>Properties\<close>

text \<open>[frame_roundtrip].  Encoding then decoding a complete frame gives the message back,
  whatever follows the frame in the buffer, when the serializer does so on its own payload
  and that payload is at most 1 MiB; over 1 MiB the encoder refuses and reports the length.\<close>
theorem frame_roundtrip:
  assumes "enc m = Inr p" and "from_slice p = Inr (m, length p)"
  shows "case encode_frame enc m of
      Inl e \<Rightarrow> MAX_FRAME_LEN < length p \<and> e = FrameTooLarge (length p)
    | Inr frame \<Rightarrow> length frame = 4 + length p \<and> length frame \<le> MAX_FRAME_LEN + 4 \<and>
        decode_frame (decode_bincode from_slice) (frame @ junk)
          = (Inr m :: ('e, 'd bincode_error) frame_error + 'm)"
proof (cases "MAX_FRAME_LEN < length p")
  case True
  then show ?thesis using assms by (simp add: encode_frame_def)
next
  case False
  then have ok: "frame_ok p" by (simp add: frame_ok_def)
  show ?thesis
    using False assms from_be_frame [OF ok]
    by (simp add: encode_frame_def decode_frame_def decode_bincode_def)
qed

theorem frame_roundtrip_witness:
  "case encode_frame (\<lambda>m. (Inr m :: unit + bytes)) [7, 8] of
      Inl e \<Rightarrow> MAX_FRAME_LEN < length [7, 8 :: u8] \<and> e = FrameTooLarge (length [7, 8 :: u8])
    | Inr frame \<Rightarrow> length frame = 4 + length [7, 8 :: u8] \<and> length frame \<le> MAX_FRAME_LEN + 4 \<and>
        decode_frame (decode_bincode (\<lambda>p. Inr (p, length p))) (frame @ [9])
          = (Inr [7, 8] :: (unit, unit bincode_error) frame_error + bytes)"
  using frame_roundtrip [of "\<lambda>m. (Inr m :: unit + bytes)" "[7, 8]" "[7, 8]"
      "\<lambda>p. (Inr (p, length p) :: unit + (bytes \<times> nat))" "[9]"] by simp

text \<open>[framed_stream_read].  A peer that sends frames and then closes the stream, possibly
  in the middle of one more frame, is read exactly: the reader yields the messages of the
  complete frames in order and then the error that says where the stream was cut (before or
  after the length prefix was complete), never a message from a partial frame.\<close>
theorem framed_stream_read:
  assumes "list_all frame_ok (map fst pms)" and "\<forall>(p, m) \<in> set pms. decode p = Inr m"
    and "frame_ok q" and "k < length (frame_bytes q)"
  shows "read_stream decode (concat (map (frame_bytes \<circ> fst) pms) @ take k (frame_bytes q)) =
    (map snd pms, if k < 4 then ReadLength () else ReadPayload ())"
  by (simp only: read_stream_frames [OF assms(1,2)] read_stream_cut [OF assms(3,4)] prod.sel append_Nil2)

theorem framed_stream_read_witness:
  "read_stream (\<lambda>p. (Inr (length p) :: unit + nat))
     (concat (map (frame_bytes \<circ> fst) [([5, 6], 2 :: nat), ([], 0)]) @ take 5 (frame_bytes [9, 9])) =
    (map snd [([5, 6 :: u8], 2 :: nat), ([], 0)], if (5::nat) < 4 then ReadLength () else ReadPayload ())"
  by (rule framed_stream_read) (simp_all add: frame_ok_def MAX_FRAME_LEN_def frame_bytes_def)

text \<open>[write_framed_outcome].  Whatever parts of a frame the writer accepts at a time, a
  frame that is reported written is on the wire in full and nothing else is; a failed write
  left a strict prefix of the frame, and the error tells whether the length prefix was
  complete; a message that does not encode or is over 1 MiB puts no byte on the wire.\<close>
theorem write_framed_outcome:
  assumes "honest_writer out wv" and "write_framed wv z encode w m = (r, w')"
  shows "\<exists>sent. out w' = out w @ sent \<and> (case encode m of
      Inl e \<Rightarrow> sent = [] \<and> r = Some (Encode e)
    | Inr payload \<Rightarrow> write_outcome payload r sent \<and>
        (r = Some (WTooLarge (length payload)) \<longleftrightarrow> MAX_FRAME_LEN < length payload))"
proof (cases "encode m")
  case (Inl e)
  then show ?thesis using assms(2) by (auto simp: write_framed_def)
next
  case (Inr payload)
  show ?thesis
  proof (cases "MAX_FRAME_LEN < length payload")
    case True
    then show ?thesis using assms(2) Inr by (auto simp: write_framed_def write_outcome_def)
  next
    case False
    with Inr assms(2) have loop:
      "write_loop wv z (be_bytes 4 (length payload)) payload w 0 = (r, w')"
      by (simp add: write_framed_def)
    have "\<exists>sent. out w' = out w @ sent \<and> write_outcome payload r sent"
      by (rule write_loop_outcome [OF assms(1) refl _ _ loop]) simp_all
    moreover have "r \<noteq> Some (WTooLarge n)" for n
      by (rule write_loop_not_too_large [OF loop])
    ultimately show ?thesis using Inr False by auto
  qed
qed

text \<open>A writer that takes at most three bytes a call.\<close>

definition slow_writer :: "bytes \<Rightarrow> bytes list \<Rightarrow> (unit + nat) \<times> bytes" where
  "slow_writer w bufs = (let n = min 3 (length (concat bufs)) in
     (Inr n, w @ take n (concat bufs)))"

theorem write_framed_outcome_witness:
  "\<exists>sent. snd (write_framed slow_writer () (\<lambda>m. (Inr m :: unit + bytes)) [1] [4, 5, 6]) = [1] @ sent \<and>
    (write_outcome [4, 5, 6]
       (fst (write_framed slow_writer () (\<lambda>m. (Inr m :: unit + bytes)) [1] [4, 5, 6])) sent)"
proof -
  have "honest_writer (\<lambda>w. w) slow_writer"
    by (auto simp: honest_writer_def slow_writer_def Let_def)
  from write_framed_outcome [OF this, of "()" "\<lambda>m. (Inr m :: unit + bytes)" "[1]" "[4, 5, 6]"]
  show ?thesis
    by (cases "write_framed slow_writer () (\<lambda>m. (Inr m :: unit + bytes)) [1] [4, 5, 6]") fastforce
qed

end
