(* ===== verification/Infer.thy ===== *)
theory Infer
  imports Ptypes
begin

text \<open>
  What the daemon reads off a session's terminal: the kind of its command
  (\<open>state_infer/mod.rs\<close>), the agent state a line of Claude's or Codex's output shows
  (\<open>state_infer/claude.rs\<close>, \<open>state_infer/codex.rs\<close>), and the three authorization
  predicates on client kinds (\<open>authz.rs\<close>).  The JSON parser is a parameter: it returns the
  three optional fields of an event, or nothing.
\<close>

section \<open>Command kinds\<close>

datatype command_kind = CkClaude | CkCodex | CkUnknown

text \<open>
  \<open>Path::file_name\<close> on Unix: the last component of the path, components being separated
  by runs of \<open>/\<close>; a \<open>.\<close> component is skipped unless it starts the path, and a final
  \<open>..\<close>, a lone \<open>.\<close>, and the root have no file name.
\<close>

fun path_parts :: "rstr \<Rightarrow> rstr \<Rightarrow> rstr list" where
  "path_parts acc [] = [rev acc]"
| "path_parts acc (c # s) =
     (if c = 47 then rev acc # path_parts [] s else path_parts (c # acc) s)"

definition path_components :: "rstr \<Rightarrow> rstr list" where
  "path_components p =
     (let parts = path_parts [] p in
      (if parts \<noteq> [] \<and> hd parts = lit ''.'' then [lit ''.''] else []) @
      filter (\<lambda>c. c \<noteq> [] \<and> c \<noteq> lit ''.'') parts)"

definition file_name :: "rstr \<Rightarrow> rstr option" where
  "file_name p =
     (let cs = path_components p in
      if cs = [] \<or> last cs = lit ''..'' \<or> last cs = lit ''.'' then None else Some (last cs))"

definition classify :: "rstr list \<Rightarrow> command_kind" where
  "classify command =
     (case command of
        [] \<Rightarrow> CkUnknown
      | program # _ \<Rightarrow>
          let name = (case file_name program of Some n \<Rightarrow> n | None \<Rightarrow> program) in
          if name = lit ''claude'' \<or> name = lit ''claude-code'' then CkClaude
          else if name = lit ''codex'' \<or> name = lit ''codex-exec'' then CkCodex
          else CkUnknown)"

section \<open>Claude\<close>

definition STRONG_PROMPTS :: "rstr list" where
  "STRONG_PROMPTS = map lit [''do you want'', ''would you like'', ''proceed?'', ''continue?'',
     ''is this okay'', ''is that okay'', ''yes/no'', ''[y/n]'']"

definition LOOSE_KEYWORDS :: "rstr list" where
  "LOOSE_KEYWORDS = map lit [''approve'', ''allow'', ''permission'']"

text \<open>\<open>match_indices\<close>: the rests of the text after each non-overlapping match.\<close>

function match_rests :: "rstr \<Rightarrow> rstr \<Rightarrow> rstr list" where
  "match_rests needle s =
     (if s = [] \<or> needle = [] then []
      else if starts_with s needle
      then drop (length needle) s # match_rests needle (drop (length needle) s)
      else match_rests needle (tl s))"
  by pat_completeness auto
termination
  by (relation "measure (\<lambda>(n, s). length s)") auto

declare match_rests.simps [simp del]

definition asks_first_person_question :: "rstr \<Rightarrow> bool" where
  "asks_first_person_question lower =
     list_ex (\<lambda>phrase. list_ex (\<lambda>rest.
         \<not> (case rest of [] \<Rightarrow> False | next # _ \<Rightarrow> is_ascii_alphanumeric next))
       (match_rests phrase lower)) [lit ''should i'', lit ''shall i'']"

definition is_numbered_option :: "rstr \<Rightarrow> bool" where
  "is_numbered_option lower =
     (let rest = trim_start (dropWhile (\<lambda>c. c = 10095) lower);
          digits = length (takeWhile is_ascii_digit rest) in
      0 < digits \<and> starts_with (drop digits rest) (lit ''. ''))"

definition has_prompt_marker :: "rstr \<Rightarrow> bool" where
  "has_prompt_marker lower \<longleftrightarrow> ends_with_char lower 63 \<or> contains lower (lit ''[y/n]'') \<or>
     contains lower (lit ''yes/no'') \<or> is_numbered_option lower"

definition infer_from_line :: "rstr \<Rightarrow> agent_state option" where
  "infer_from_line line =
     (let lower = str_lower (trim line) in
      if list_ex (\<lambda>needle. contains lower needle) STRONG_PROMPTS
         \<or> asks_first_person_question lower
         \<or> (list_ex (\<lambda>needle. contains lower needle) LOOSE_KEYWORDS \<and> has_prompt_marker lower)
      then Some AwaitingInput else None)"

section \<open>Codex\<close>

record codex_event =
  event_type :: "rstr option"
  cx_event :: "rstr option"
  cx_status :: "rstr option"

definition infer_from_structured_event :: "rstr \<Rightarrow> agent_state option" where
  "infer_from_structured_event event_name =
     (let n = str_lower (trim event_name) in
      if n \<in> {lit ''awaiting_input'', lit ''approval_requested'', lit ''turn_waiting''}
      then Some AwaitingInput
      else if n \<in> {lit ''turn_started'', lit ''working''} then Some Working
      else if n \<in> {lit ''turn_finished'', lit ''idle''} then Some Idle
      else if n \<in> {lit ''crashed'', lit ''error''} then Some Crashed
      else None)"

fun find_map :: "('a \<Rightarrow> 'b option) \<Rightarrow> 'a list \<Rightarrow> 'b option" where
  "find_map f [] = None"
| "find_map f (x # xs) = (case f x of Some y \<Rightarrow> Some y | None \<Rightarrow> find_map f xs)"

definition infer_from_json_line ::
    "(rstr \<Rightarrow> codex_event option) \<Rightarrow> rstr \<Rightarrow> agent_state option" where
  "infer_from_json_line from_str line =
     (case from_str line of
        None \<Rightarrow> None
      | Some event \<Rightarrow>
          find_map infer_from_structured_event
            (List.map_filter (\<lambda>x. x) [event_type event, cx_event event, cx_status event]))"

section \<open>Authorization\<close>

definition may_create_or_kill_session :: "client_kind \<Rightarrow> bool" where
  "may_create_or_kill_session client_kind = True"

definition may_emit_agent_state_event :: "client_kind \<Rightarrow> bool" where
  "may_emit_agent_state_event client_kind \<longleftrightarrow> client_kind = LocalCli"

definition requires_shell_only_sessions :: "client_kind \<Rightarrow> bool" where
  "requires_shell_only_sessions client_kind \<longleftrightarrow> client_kind = IosApp \<or> client_kind = AndroidApp"

section \<open>Lemmas\<close>

lemma infer_from_line_only_awaiting: "infer_from_line l = Some s \<Longrightarrow> s = AwaitingInput"
  by (simp add: infer_from_line_def Let_def split: if_splits)

lemma find_map_Some: "find_map f xs = Some y \<Longrightarrow> \<exists>x \<in> set xs. f x = Some y"
  by (induction xs) (auto split: option.splits)

lemma match_rests_sound: "r \<in> set (match_rests n s) \<Longrightarrow> \<exists>u. s = u @ n @ r"
proof (induction n s rule: match_rests.induct)
  case (1 n s)
  show ?case
  proof (cases "s = [] \<or> n = []")
    case True
    with "1.prems" show ?thesis by (simp add: match_rests.simps [of n s])
  next
    case go: False
    show ?thesis
    proof (cases "starts_with s n")
      case True
      then have s: "s = n @ drop (length n) s"
        by (metis append_take_drop_id starts_with_def)
      from "1.prems" go True have "r = drop (length n) s \<or> r \<in> set (match_rests n (drop (length n) s))"
        by (simp add: match_rests.simps [of n s])
      then show ?thesis
      proof
        assume "r = drop (length n) s"
        then show ?thesis using s by (metis append_Nil)
      next
        assume "r \<in> set (match_rests n (drop (length n) s))"
        then obtain u where "drop (length n) s = u @ n @ r"
          using "1.IH"(1) [OF go True] by blast
        then show ?thesis using s by (metis append.assoc)
      qed
    next
      case False
      with "1.prems" go have "r \<in> set (match_rests n (tl s))"
        by (simp add: match_rests.simps [of n s])
      then obtain u where "tl s = u @ n @ r" using "1.IH"(2) [OF go False] by blast
      then show ?thesis using go by (metis append_Cons list.collapse)
    qed
  qed
qed

lemma match_rests_contains: "list_ex P (match_rests n s) \<Longrightarrow> contains s n"
  using match_rests_sound [of _ n s] by (metis contains_iff list_ex_iff)

lemma asks_first_person_contains:
  "asks_first_person_question s \<Longrightarrow> contains s (lit ''should i'') \<or> contains s (lit ''shall i'')"
  by (auto simp: asks_first_person_question_def dest: match_rests_contains)

text \<open>What a line must contain to be taken for a prompt.\<close>

lemma infer_from_line_evidence:
  assumes "infer_from_line line = Some s"
  shows "\<exists>n \<in> set (STRONG_PROMPTS @ [lit ''should i'', lit ''shall i''] @ LOOSE_KEYWORDS).
    contains (str_lower (trim line)) n"
proof -
  let ?l = "str_lower (trim line)"
  have "list_ex (contains ?l) STRONG_PROMPTS \<or> asks_first_person_question ?l \<or>
      list_ex (contains ?l) LOOSE_KEYWORDS"
    using assms by (auto simp: infer_from_line_def Let_def split: if_splits)
  then show ?thesis
    using asks_first_person_contains [of ?l] by (auto simp: list_ex_iff)
qed


lemma infer_from_line_marker:
  assumes "infer_from_line line = Some s"
    and "\<forall>n \<in> set (STRONG_PROMPTS @ [lit ''should i'', lit ''shall i'']).
      \<not> contains (str_lower (trim line)) n"
  shows "has_prompt_marker (str_lower (trim line))"
proof -
  define l where "l = str_lower (trim line)"
  have "\<not> list_ex (contains l) STRONG_PROMPTS"
    using assms(2) by (simp add: l_def list_ex_iff ball_Un)
  moreover have "\<not> asks_first_person_question l"
    using assms(2) asks_first_person_contains [of l] unfolding l_def by auto
  ultimately show ?thesis
    using assms(1) unfolding infer_from_line_def Let_def l_def [symmetric]
    by (metis option.distinct(1))
qed

section \<open>Properties\<close>

text \<open>[claude_line_inference].  A line of Claude's output never yields any state but
  awaiting-input, and does so only when it holds one of the prompt phrases; a loose keyword
  alone is not enough: without a prompt phrase the line must end in a question mark, offer
  yes/no, or be a numbered option.\<close>
theorem claude_line_inference:
  assumes "infer_from_line line = Some s"
  shows "s = AwaitingInput \<and>
    (\<exists>n \<in> set (STRONG_PROMPTS @ [lit ''should i'', lit ''shall i''] @ LOOSE_KEYWORDS).
       contains (str_lower (trim line)) n) \<and>
    ((\<forall>n \<in> set (STRONG_PROMPTS @ [lit ''should i'', lit ''shall i'']).
        \<not> contains (str_lower (trim line)) n) \<longrightarrow> has_prompt_marker (str_lower (trim line)))"
proof (intro conjI impI)
  show "s = AwaitingInput"
    using assms by (rule infer_from_line_only_awaiting)
  show "\<exists>n \<in> set (STRONG_PROMPTS @ [lit ''should i'', lit ''shall i''] @ LOOSE_KEYWORDS).
      contains (str_lower (trim line)) n"
    using assms by (rule infer_from_line_evidence)
  assume none: "\<forall>n \<in> set (STRONG_PROMPTS @ [lit ''should i'', lit ''shall i'']).
      \<not> contains (str_lower (trim line)) n"
  show "has_prompt_marker (str_lower (trim line))"
    by (rule infer_from_line_marker [OF assms none])
qed

theorem claude_line_inference_witness:
  "infer_from_line (lit '' OK [Y/n]'') = Some AwaitingInput \<and>
   (\<exists>n \<in> set (STRONG_PROMPTS @ [lit ''should i'', lit ''shall i''] @ LOOSE_KEYWORDS).
      contains (str_lower (trim (lit '' OK [Y/n]''))) n)"
proof -
  have lower: "str_lower (trim (lit '' OK [Y/n]'')) = lit ''ok [y/n]''"
    by (simp add: lit_eval of_char_def str_lower_def trim_def is_whitespace_def
        to_ascii_lowercase_def is_ascii_upper_def)
  have "contains (lit ''ok [y/n]'') (lit ''[y/n]'')"
    by (simp add: lit_eval of_char_def starts_with_def)
  then have "infer_from_line (lit '' OK [Y/n]'') = Some AwaitingInput"
    by (simp add: infer_from_line_def lower STRONG_PROMPTS_def)
  with claude_line_inference [OF this] show ?thesis by blast
qed

text \<open>[codex_event_inference].  The state of a Codex event is that of the first of its type,
  event and status fields that names a known event; a line that is not such an event, or names
  none, yields no state.\<close>
theorem codex_event_inference:
  "infer_from_json_line from_str line =
    (case from_str line of None \<Rightarrow> None
     | Some e \<Rightarrow>
        (let try = (\<lambda>f. case f of None \<Rightarrow> None | Some t \<Rightarrow> infer_from_structured_event t) in
         if try (event_type e) \<noteq> None then try (event_type e)
         else if try (cx_event e) \<noteq> None then try (cx_event e) else try (cx_status e)))"
  by (auto simp: infer_from_json_line_def List.map_filter_def Let_def split: option.splits)

end
