(* ===== verification/Persist.thy ===== *)
theory Persist
  imports Tables Framing Infer "HOL-Library.Multiset"
begin

text \<open>
  The daemon's durable state (\<open>crates/daemon/src/persistence.rs\<close>): the rows of the sessions
  and the devices table, their payload in the encrypted and the plaintext mode, the prune
  of old sessions, and the storage keys of devices.  The serializers, the AEAD cipher,
  SHA-256 and the text of a UUID are crates, collected in a record of functions; whether
  a database transaction fails, and in which step, is an argument of each operation.
\<close>

section \<open>Rows\<close>

record stored_session =
  st_summary :: session_summary
  st_scrollback_start_seq :: nat
  st_scrollback :: bytes
  st_exit_code :: "int option"

record stored_device =
  sd_name :: rstr
  sd_device_node_id :: rstr
  sd_paired_at :: nat
  sd_last_seen :: "nat option"
  sd_push_platform :: "push_platform option"
  sd_push_token :: "rstr option"

definition stored_device_new :: "nat \<Rightarrow> rstr \<Rightarrow> rstr \<Rightarrow> stored_device" where
  "stored_device_new now name device_node_id = \<lparr>sd_name = name, sd_device_node_id = device_node_id,
     sd_paired_at = now, sd_last_seen = None, sd_push_platform = None, sd_push_token = None\<rparr>"

definition device_summary_of :: "stored_device \<Rightarrow> device_summary" where
  "device_summary_of d = \<lparr>ds_name = sd_name d, ds_device_node_id = sd_device_node_id d,
     ds_paired_at = sd_paired_at d, ds_last_seen = sd_last_seen d,
     ds_push_platform = sd_push_platform d\<rparr>"

definition mark_seen :: "nat \<Rightarrow> stored_device \<Rightarrow> stored_device" where
  "mark_seen now d = d\<lparr>sd_last_seen := Some now\<rparr>"

definition set_push_token :: "nat \<Rightarrow> push_platform \<Rightarrow> rstr \<Rightarrow> stored_device \<Rightarrow> stored_device" where
  "set_push_token now platform token d =
     mark_seen now (d\<lparr>sd_push_platform := Some platform, sd_push_token := Some token\<rparr>)"

definition clear_push_token :: "nat \<Rightarrow> stored_device \<Rightarrow> stored_device" where
  "clear_push_token now d = mark_seen now (d\<lparr>sd_push_platform := None, sd_push_token := None\<rparr>)"

section \<open>Payloads\<close>

record persist_crates =
  enc_session :: "stored_session \<Rightarrow> bytes option"
  de_session :: "bytes \<Rightarrow> unit + (stored_session \<times> nat)"
  enc_device :: "stored_device \<Rightarrow> bytes option"
  de_device :: "bytes \<Rightarrow> unit + (stored_device \<times> nat)"
  enc_blob :: "bytes \<times> bytes \<Rightarrow> bytes option"
  de_blob :: "bytes \<Rightarrow> unit + ((bytes \<times> bytes) \<times> nat)"
  enc_plain :: "bytes \<Rightarrow> bytes option"
  de_plain :: "bytes \<Rightarrow> unit + (bytes \<times> nat)"
  aead_encrypt :: "bytes \<Rightarrow> bytes \<Rightarrow> bytes \<Rightarrow> bytes option"
  aead_decrypt :: "bytes \<Rightarrow> bytes \<Rightarrow> bytes \<Rightarrow> bytes option"
  sha256 :: "bytes \<Rightarrow> bytes"
  uuid_text :: "nat \<Rightarrow> rstr"

datatype persistence_mode = Encrypted bytes | Plaintext "bytes option"

definition PLAINTEXT_PREFIX :: bytes where
  "PLAINTEXT_PREFIX = [70, 87, 80, 49, 0]"

definition MAX_STORED_SESSIONS :: nat where "MAX_STORED_SESSIONS = 256"
definition SESSION_RETENTION_MS :: nat where "SESSION_RETENTION_MS = 7 * 24 * 60 * 60 * 1000"

definition encrypt :: "persist_crates \<Rightarrow> bytes \<Rightarrow> bytes \<Rightarrow> bytes \<Rightarrow> rstr + (bytes \<times> bytes)" where
  "encrypt cr key nonce plaintext =
     (case aead_encrypt cr key nonce plaintext of
        None \<Rightarrow> Inl (lit ''encrypt stored session'')
      | Some ciphertext \<Rightarrow> Inr (nonce, ciphertext))"

definition decrypt :: "persist_crates \<Rightarrow> bytes \<Rightarrow> bytes \<times> bytes \<Rightarrow> rstr + bytes" where
  "decrypt cr key blob =
     (case aead_decrypt cr key (fst blob) (snd blob) of
        None \<Rightarrow> Inl (lit ''decrypt stored session'')
      | Some plaintext \<Rightarrow> Inr plaintext)"

definition encode_payload ::
    "persist_crates \<Rightarrow> persistence_mode \<Rightarrow> bytes \<Rightarrow> bytes \<Rightarrow> rstr + bytes" where
  "encode_payload cr md nonce plaintext =
     (case md of
        Encrypted key \<Rightarrow>
          (case encrypt cr key nonce plaintext of
             Inl e \<Rightarrow> Inl e
           | Inr blob \<Rightarrow>
               (case enc_blob cr blob of
                  None \<Rightarrow> Inl (lit ''serialize encrypted payload'')
                | Some bs \<Rightarrow> Inr bs))
      | Plaintext _ \<Rightarrow>
          (case enc_plain cr plaintext of
             None \<Rightarrow> Inl (lit ''serialize plaintext payload'')
           | Some bs \<Rightarrow> Inr (PLAINTEXT_PREFIX @ bs)))"

definition decode_plaintext_payload :: "persist_crates \<Rightarrow> bytes \<Rightarrow> rstr + bytes option" where
  "decode_plaintext_payload cr payload =
     (if take (length PLAINTEXT_PREFIX) payload \<noteq> PLAINTEXT_PREFIX then Inr None
      else case decode_bincode (de_plain cr) (drop (length PLAINTEXT_PREFIX) payload) of
        Inl e \<Rightarrow> Inl (lit ''decode plaintext stored payload'')
      | Inr plaintext \<Rightarrow> Inr (Some plaintext))"

definition decode_payload :: "persist_crates \<Rightarrow> persistence_mode \<Rightarrow> bytes \<Rightarrow> rstr + bytes" where
  "decode_payload cr md payload =
     (case decode_plaintext_payload cr payload of
        Inl e \<Rightarrow> Inl e
      | Inr (Some plaintext) \<Rightarrow> Inr plaintext
      | Inr None \<Rightarrow>
          (case md of
             Encrypted key \<Rightarrow>
               (case decode_bincode (de_blob cr) payload of
                  Inr blob \<Rightarrow> decrypt cr key blob
                | Inl e \<Rightarrow> Inl (lit ''stored payload is neither encrypted nor Shelly plaintext''))
           | Plaintext (Some key) \<Rightarrow>
               (case decode_bincode (de_blob cr) payload of
                  Inr blob \<Rightarrow> decrypt cr key blob
                | Inl e \<Rightarrow> Inl (lit ''decode legacy encrypted payload''))
           | Plaintext None \<Rightarrow>
               Inl (lit ''stored payload is not plaintext and no legacy keychain key is available'')))"

section \<open>Sessions\<close>

text \<open>\<open>fault\<close>: the context of the database step that failed, if one did; nothing is then committed.\<close>

definition save_session ::
    "persist_crates \<Rightarrow> persistence_mode \<Rightarrow> bytes \<Rightarrow> rstr option \<Rightarrow> stored_session \<Rightarrow> bytes table \<Rightarrow>
      rstr option \<times> bytes table" where
  "save_session cr md nonce fault session t =
     (case enc_session cr session of
        None \<Rightarrow> (Some (lit ''serialize stored session''), t)
      | Some plaintext \<Rightarrow>
          (case encode_payload cr md nonce plaintext of
             Inl e \<Rightarrow> (Some e, t)
           | Inr payload \<Rightarrow>
               (case fault of
                  Some e \<Rightarrow> (Some e, t)
                | None \<Rightarrow>
                    (None, tbl_insert (uuid_text cr (session_uuid (ss_id (st_summary session))))
                       payload t))))"

definition remove_session ::
    "persist_crates \<Rightarrow> rstr option \<Rightarrow> session_id \<Rightarrow> bytes table \<Rightarrow> rstr option \<times> bytes table" where
  "remove_session cr fault session_id t =
     (case fault of
        Some e \<Rightarrow> (Some e, t)
      | None \<Rightarrow> (None, tbl_remove (uuid_text cr (session_uuid session_id)) t))"

definition decode_session :: "persist_crates \<Rightarrow> persistence_mode \<Rightarrow> bytes \<Rightarrow> stored_session option" where
  "decode_session cr md payload =
     (case decode_payload cr md payload of
        Inl e \<Rightarrow> None
      | Inr plaintext \<Rightarrow>
          (case decode_bincode (de_session cr) plaintext of Inl e \<Rightarrow> None | Inr s \<Rightarrow> Some s))"

definition load_sessions ::
    "persist_crates \<Rightarrow> persistence_mode \<Rightarrow> rstr option \<Rightarrow> bytes table \<Rightarrow> rstr + stored_session list" where
  "load_sessions cr md fault t =
     (case fault of
        Some e \<Rightarrow> Inl e
      | None \<Rightarrow>
          Inr (sort_key (\<lambda>s. ss_created_at (st_summary s))
                 (List.map_filter (\<lambda>(k, v). decode_session cr md v) t)))"

text \<open>The loop over the rows, newest first: which keys to remove and how many rows are kept.\<close>

fun prune_split :: "nat \<Rightarrow> nat \<Rightarrow> nat \<Rightarrow> (rstr \<times> nat option) list \<Rightarrow> rstr list" where
  "prune_split cutoff max_sessions retained [] = []"
| "prune_split cutoff max_sessions retained ((key, last_activity) # rs) =
     (if (case last_activity of None \<Rightarrow> False | Some v \<Rightarrow> cutoff \<le> v) \<and> retained < max_sessions
      then prune_split cutoff max_sessions (retained + 1) rs
      else key # prune_split cutoff max_sessions retained rs)"

text \<open>\<open>Reverse\<close> of \<open>Option<u64>\<close>: descending, the unreadable rows last.\<close>

definition reverse_key :: "nat option \<Rightarrow> int" where
  "reverse_key la = (case la of None \<Rightarrow> 1 | Some v \<Rightarrow> - int v)"

definition prune_rows ::
    "persist_crates \<Rightarrow> persistence_mode \<Rightarrow> bytes table \<Rightarrow> (rstr \<times> nat option) list" where
  "prune_rows cr md t =
     sort_key (\<lambda>r. reverse_key (snd r))
       (map (\<lambda>(key, v). (key, map_option (\<lambda>s. ss_last_activity (st_summary s))
          (decode_session cr md v))) t)"

definition prune_sessions_with_limit ::
    "persist_crates \<Rightarrow> persistence_mode \<Rightarrow> rstr option \<Rightarrow> nat \<Rightarrow> nat \<Rightarrow> bytes table \<Rightarrow>
      (rstr + nat) \<times> bytes table" where
  "prune_sessions_with_limit cr md fault now max_sessions t =
     (let cutoff = now - SESSION_RETENTION_MS;
          remove = prune_split cutoff max_sessions 0 (prune_rows cr md t) in
      case fault of
        Some e \<Rightarrow> (Inl e, t)
      | None \<Rightarrow> (Inr (length remove), fold tbl_remove remove t))"

definition prune_sessions ::
    "persist_crates \<Rightarrow> persistence_mode \<Rightarrow> rstr option \<Rightarrow> nat \<Rightarrow> bytes table \<Rightarrow>
      (rstr + nat) \<times> bytes table" where
  "prune_sessions cr md fault now t = prune_sessions_with_limit cr md fault now MAX_STORED_SESSIONS t"

section \<open>Devices\<close>

definition device_storage_key :: "persist_crates \<Rightarrow> rstr \<Rightarrow> rstr" where
  "device_storage_key cr device_node_id =
     lit ''sha256:'' @ hex False (sha256 cr (as_bytes device_node_id))"

definition save_device ::
    "persist_crates \<Rightarrow> persistence_mode \<Rightarrow> bytes \<Rightarrow> rstr option \<Rightarrow> stored_device \<Rightarrow> bytes table \<Rightarrow>
      rstr option \<times> bytes table" where
  "save_device cr md nonce fault device t =
     (case enc_device cr device of
        None \<Rightarrow> (Some (lit ''serialize stored device''), t)
      | Some plaintext \<Rightarrow>
          (case encode_payload cr md nonce plaintext of
             Inl e \<Rightarrow> (Some e, t)
           | Inr payload \<Rightarrow>
               (case fault of
                  Some e \<Rightarrow> (Some e, t)
                | None \<Rightarrow>
                    (None, tbl_insert (device_storage_key cr (sd_device_node_id device)) payload
                       (tbl_remove (sd_device_node_id device) t)))))"

definition remove_device ::
    "persist_crates \<Rightarrow> rstr option \<Rightarrow> rstr \<Rightarrow> bytes table \<Rightarrow> rstr option \<times> bytes table" where
  "remove_device cr fault device_node_id t =
     (case fault of
        Some e \<Rightarrow> (Some e, t)
      | None \<Rightarrow>
          (None, tbl_remove device_node_id (tbl_remove (device_storage_key cr device_node_id) t)))"

definition decode_device :: "persist_crates \<Rightarrow> persistence_mode \<Rightarrow> bytes \<Rightarrow> stored_device option" where
  "decode_device cr md payload =
     (case decode_payload cr md payload of
        Inl e \<Rightarrow> None
      | Inr plaintext \<Rightarrow>
          (case decode_bincode (de_device cr) plaintext of Inl e \<Rightarrow> None | Inr d \<Rightarrow> Some d))"

definition load_devices ::
    "persist_crates \<Rightarrow> persistence_mode \<Rightarrow> rstr option \<Rightarrow> bytes table \<Rightarrow> rstr + stored_device list" where
  "load_devices cr md fault t =
     (case fault of
        Some e \<Rightarrow> Inl e
      | None \<Rightarrow>
          Inr (sort_key sd_paired_at (List.map_filter (\<lambda>(k, v). decode_device cr md v) t)))"


section \<open>Lemmas on payloads\<close>

text \<open>What the crates document: a value decodes from what it was encoded to, using it all up.\<close>

definition persist_codecs :: "persist_crates \<Rightarrow> bool" where
  "persist_codecs cr \<longleftrightarrow>
     (\<forall>x p. enc_session cr x = Some p \<longrightarrow> de_session cr p = Inr (x, length p)) \<and>
     (\<forall>x p. enc_device cr x = Some p \<longrightarrow> de_device cr p = Inr (x, length p)) \<and>
     (\<forall>x p. enc_blob cr x = Some p \<longrightarrow> de_blob cr p = Inr (x, length p)) \<and>
     (\<forall>x p. enc_plain cr x = Some p \<longrightarrow> de_plain cr p = Inr (x, length p)) \<and>
     (\<forall>k n p c. aead_encrypt cr k n p = Some c \<longrightarrow> aead_decrypt cr k n c = Some p)"

definition unmarked :: "bytes \<Rightarrow> bool" where
  "unmarked payload \<longleftrightarrow> take (length PLAINTEXT_PREFIX) payload \<noteq> PLAINTEXT_PREFIX"

definition reads_mode :: "persistence_mode \<Rightarrow> persistence_mode \<Rightarrow> bool" where
  "reads_mode reader writer \<longleftrightarrow> (case writer of
      Plaintext _ \<Rightarrow> True
    | Encrypted key \<Rightarrow> reader = Encrypted key \<or> reader = Plaintext (Some key))"

definition is_encrypted :: "persistence_mode \<Rightarrow> bool" where
  "is_encrypted md = (case md of Encrypted _ \<Rightarrow> True | Plaintext _ \<Rightarrow> False)"

lemma payload_roundtrip:
  assumes "persist_codecs cr" and "encode_payload cr md nonce p = Inr payload"
    and "is_encrypted md \<Longrightarrow> unmarked payload" and "reads_mode md' md"
  shows "decode_payload cr md' payload = Inr p"
proof (cases md)
  case (Plaintext k)
  with assms(1,2) show ?thesis
    by (auto simp: encode_payload_def decode_payload_def decode_plaintext_payload_def
        decode_bincode_def persist_codecs_def split: option.splits)
next
  case (Encrypted key)
  with assms(2) obtain c where c: "aead_encrypt cr key nonce p = Some c"
      "enc_blob cr (nonce, c) = Some payload"
    by (auto simp: encode_payload_def encrypt_def split: option.splits sum.splits)
  with assms(1) have "de_blob cr payload = Inr ((nonce, c), length payload)"
      "aead_decrypt cr key nonce c = Some p"
    by (auto simp: persist_codecs_def)
  moreover have "unmarked payload" using assms(3) Encrypted by (simp add: is_encrypted_def)
  moreover have "md' = Encrypted key \<or> md' = Plaintext (Some key)"
    using assms(4) Encrypted by (simp add: reads_mode_def)
  ultimately show ?thesis
    by (auto simp: decode_payload_def decode_plaintext_payload_def unmarked_def decode_bincode_def
        decrypt_def)
qed

lemma set_map_filter: "set (List.map_filter f xs) = {y. \<exists>x \<in> set xs. f x = Some y}"
  by (induction xs) (auto simp: List.map_filter_def split: option.splits)

lemma save_session_row:
  assumes "persist_codecs cr" and "save_session cr md nonce fault s t = (None, t')"
  shows "\<exists>payload. t' = tbl_insert (uuid_text cr (session_uuid (ss_id (st_summary s)))) payload t \<and>
    ((is_encrypted md \<longrightarrow> unmarked payload) \<longrightarrow> reads_mode md' md \<longrightarrow>
      decode_session cr md' payload = Some s)"
proof -
  from assms(2) obtain p payload where p: "enc_session cr s = Some p"
      "encode_payload cr md nonce p = Inr payload"
      "t' = tbl_insert (uuid_text cr (session_uuid (ss_id (st_summary s)))) payload t"
    by (auto simp: save_session_def split: option.splits sum.splits)
  moreover have "decode_session cr md' payload = Some s"
    if "is_encrypted md \<longrightarrow> unmarked payload" "reads_mode md' md"
  proof -
    have "decode_payload cr md' payload = Inr p"
      by (rule payload_roundtrip [OF assms(1) p(2)]) (use that in auto)
    moreover have "de_session cr p = Inr (s, length p)"
      using assms(1) p(1) by (auto simp: persist_codecs_def)
    ultimately show ?thesis by (simp add: decode_session_def decode_bincode_def)
  qed
  ultimately show ?thesis by blast
qed

lemma save_device_row:
  assumes "persist_codecs cr" and "save_device cr md nonce fault d t = (None, t')"
  shows "\<exists>payload. t' = tbl_insert (device_storage_key cr (sd_device_node_id d)) payload
      (tbl_remove (sd_device_node_id d) t) \<and>
    ((is_encrypted md \<longrightarrow> unmarked payload) \<longrightarrow> reads_mode md' md \<longrightarrow>
      decode_device cr md' payload = Some d)"
proof -
  from assms(2) obtain p payload where p: "enc_device cr d = Some p"
      "encode_payload cr md nonce p = Inr payload"
      "t' = tbl_insert (device_storage_key cr (sd_device_node_id d)) payload
        (tbl_remove (sd_device_node_id d) t)"
    by (auto simp: save_device_def split: option.splits sum.splits)
  moreover have "decode_device cr md' payload = Some d"
    if "is_encrypted md \<longrightarrow> unmarked payload" "reads_mode md' md"
  proof -
    have "decode_payload cr md' payload = Inr p"
      by (rule payload_roundtrip [OF assms(1) p(2)]) (use that in auto)
    moreover have "de_device cr p = Inr (d, length p)"
      using assms(1) p(1) by (auto simp: persist_codecs_def)
    ultimately show ?thesis by (simp add: decode_device_def decode_bincode_def)
  qed
  ultimately show ?thesis by blast
qed

section \<open>Lemmas on the prune\<close>

definition fresh :: "nat \<Rightarrow> rstr \<times> nat option \<Rightarrow> bool" where
  "fresh cutoff r \<longleftrightarrow> (case snd r of None \<Rightarrow> False | Some v \<Rightarrow> cutoff \<le> v)"

lemma prune_split_subset: "set (prune_split c m r rs) \<subseteq> fst ` set rs"
  by (induction c m r rs rule: prune_split.induct) auto

lemma prune_split_kept:
  "distinct (map fst rs) \<Longrightarrow>
    filter (\<lambda>x. fst x \<notin> set (prune_split c m r rs)) rs = take (m - r) (filter (fresh c) rs)"
proof (induction c m r rs rule: prune_split.induct)
  case (1 c m r)
  then show ?case by simp
next
  case (2 c m r key la rs)
  have tail: "key \<notin> fst ` set rs" "distinct (map fst rs)" using "2.prems" by auto
  show ?case
  proof (cases "fresh c (key, la) \<and> r < m")
    case True
    then have "prune_split c m r ((key, la) # rs) = prune_split c m (r + 1) rs"
      by (simp add: fresh_def)
    moreover have "key \<notin> set (prune_split c m (r + 1) rs)"
      using tail(1) prune_split_subset by blast
    moreover have "m - r = Suc (m - (r + 1))" using True by (simp add: Suc_diff_Suc)
    ultimately show ?thesis
      using "2.IH"(1) [OF _ tail(2)] True by (simp add: fresh_def)
  next
    case False
    then have split: "prune_split c m r ((key, la) # rs) = key # prune_split c m r rs"
      by (auto simp: fresh_def)
    have "filter (\<lambda>x. fst x \<notin> set (key # prune_split c m r rs)) rs =
        filter (\<lambda>x. fst x \<notin> set (prune_split c m r rs)) rs"
      using tail(1) by (intro filter_cong) auto
    also have "\<dots> = take (m - r) (filter (fresh c) rs)"
      using "2.IH"(2) [OF _ tail(2)] False unfolding fresh_def by simp
    finally show ?thesis
      using False split by auto
  qed
qed

lemma prune_split_length:
  "distinct (map fst rs) \<Longrightarrow> length (prune_split c m r rs) +
     length (filter (\<lambda>x. fst x \<notin> set (prune_split c m r rs)) rs) = length rs"
proof -
  have "length (prune_split c m r rs) + min (m - r) (length (filter (fresh c) rs)) = length rs"
  proof (induction c m r rs rule: prune_split.induct)
    case (2 c m r key la rs)
    then show ?case
      by (cases "fresh c (key, la)"; cases "r < m") (auto simp: fresh_def)
  qed simp
  then show "distinct (map fst rs) \<Longrightarrow> ?thesis"
    by (simp add: prune_split_kept)
qed

text \<open>Of a list in ascending key order, what a prefix leaves out is not before what it holds.\<close>

lemma sorted_take_drop:
  assumes "sorted (map f xs)" and "x \<in> set (take n xs)" and "y \<in> set (drop n xs)"
  shows "f x \<le> f y"
  using assms by (metis (no_types, lifting) append_take_drop_id imageI list.set_map map_append
      sorted_append)


lemma prune_rows_mset:
  "mset (prune_rows cr md t) = mset (map (\<lambda>(key, v). (key, map_option (\<lambda>s. ss_last_activity (st_summary s))
     (decode_session cr md v))) t)"
  by (simp add: prune_rows_def)

lemma prune_rows_set: "(k, la) \<in> set (prune_rows cr md t) \<longleftrightarrow>
    (\<exists>v. (k, v) \<in> set t \<and> la = map_option (\<lambda>s. ss_last_activity (st_summary s)) (decode_session cr md v))"
  using arg_cong [OF prune_rows_mset, of set_mset, of cr md t] by auto

lemma prune_rows_distinct: "tbl_ok t \<Longrightarrow> distinct (map fst (prune_rows cr md t))"
proof -
  assume "tbl_ok t"
  then have "distinct (map fst t)" by (rule tbl_ok_distinct)
  moreover have "mset (map fst (prune_rows cr md t)) = mset (map fst t)"
  proof -
    have "mset (map fst (prune_rows cr md t)) = image_mset fst (mset (prune_rows cr md t))"
      by simp
    also have "\<dots> = mset (map fst t)"
      unfolding prune_rows_mset by (simp add: image_mset.compositionality comp_def split_beta)
    finally show ?thesis .
  qed
  ultimately show ?thesis by (metis mset_eq_imp_distinct_iff)
qed

lemma prune_rows_sorted: "sorted (map (\<lambda>r. reverse_key (snd r)) (prune_rows cr md t))"
  unfolding prune_rows_def by (rule sorted_sort_key)

lemma prune_rows_length: "length (prune_rows cr md t) = length t"
  using arg_cong [OF prune_rows_mset, of size] by simp

definition session_activity :: "persist_crates \<Rightarrow> persistence_mode \<Rightarrow> bytes \<Rightarrow> nat option" where
  "session_activity cr md v = map_option (\<lambda>s. ss_last_activity (st_summary s)) (decode_session cr md v)"

definition pruned :: "persist_crates \<Rightarrow> persistence_mode \<Rightarrow> nat \<Rightarrow> nat \<Rightarrow> bytes table \<Rightarrow> rstr list" where
  "pruned cr md cutoff m t = prune_split cutoff m 0 (prune_rows cr md t)"

lemma kept_rows:
  assumes "tbl_ok t"
  shows "(k, v) \<in> set t \<and> k \<notin> set (pruned cr md c m t) \<Longrightarrow>
    (k, session_activity cr md v) \<in> set (take m (filter (fresh c) (prune_rows cr md t)))"
proof -
  assume kv: "(k, v) \<in> set t \<and> k \<notin> set (pruned cr md c m t)"
  then have "(k, session_activity cr md v) \<in> set (prune_rows cr md t)"
    by (auto simp: prune_rows_set session_activity_def)
  with kv show ?thesis
    using prune_split_kept [OF prune_rows_distinct [OF assms], of c m 0 cr md]
    unfolding pruned_def by (metis (mono_tags, lifting) diff_zero fst_conv filter_set Set.filter_eq mem_Collect_eq)
qed

lemma dropped_rows:
  assumes "tbl_ok t" and "(k, v) \<in> set t" and "k \<in> set (pruned cr md c m t)"
    and "session_activity cr md v = Some a" and "c \<le> a"
  shows "(k, Some a) \<in> set (drop m (filter (fresh c) (prune_rows cr md t)))"
proof -
  let ?rs = "filter (fresh c) (prune_rows cr md t)"
  have "(k, Some a) \<in> set ?rs"
    using assms(2,4,5) by (auto simp: prune_rows_set session_activity_def fresh_def)
  moreover have "(k, Some a) \<notin> set (take m ?rs)"
    using prune_split_kept [OF prune_rows_distinct [OF assms(1)], of c m 0 cr md] assms(3)
    unfolding pruned_def by (metis (mono_tags, lifting) diff_zero fst_conv filter_set Set.filter_eq mem_Collect_eq)
  ultimately show ?thesis
    by (metis Un_iff append_take_drop_id set_append)
qed

lemma pruned_total:
  assumes "tbl_ok t"
  shows "length (pruned cr md c m t) + min m (length (filter (fresh c) (prune_rows cr md t))) = length t"
  using prune_split_length [OF prune_rows_distinct [OF assms], of c m 0 cr md]
    prune_split_kept [OF prune_rows_distinct [OF assms], of c m 0 cr md]
  by (simp add: pruned_def prune_rows_length)

lemma fold_remove_filter: "fold tbl_remove ks t = filter (\<lambda>r. fst r \<notin> set ks) t"
  by (induction ks arbitrary: t) (auto simp: tbl_remove_def split_beta intro!: filter_cong)

lemma prune_length:
  assumes "tbl_ok t"
  shows "length (fold tbl_remove (pruned cr md c m t) t) = length t - length (pruned cr md c m t) \<and>
    length (fold tbl_remove (pruned cr md c m t) t) =
      min m (length (filter (fresh c) (prune_rows cr md t)))"
proof -
  let ?P = "\<lambda>r. fst r \<notin> set (pruned cr md c m t)"
  have "length (fold tbl_remove (pruned cr md c m t) t) = size (filter_mset ?P (mset t))"
    by (simp only: fold_remove_filter mset_filter [symmetric] size_mset)
  also have "\<dots> = size (filter_mset ?P (mset (prune_rows cr md t)))"
    unfolding prune_rows_mset mset_map filter_mset_image_mset by (simp add: split_beta)
  also have "\<dots> = length (filter ?P (prune_rows cr md t))"
    by (simp only: mset_filter [symmetric] size_mset)
  also have "\<dots> = min m (length (filter (fresh c) (prune_rows cr md t)))"
    using prune_split_kept [OF prune_rows_distinct [OF assms], of c m 0 cr md]
    by (simp add: pruned_def)
  finally show ?thesis using pruned_total [OF assms, of cr md c m] by simp
qed

lemma dropped_is_older:
  assumes "tbl_ok t" and "(k, v) \<in> set t" and "k \<in> set (pruned cr md c m t)"
    and "session_activity cr md v = Some a" and "c \<le> a"
  shows "length (fold tbl_remove (pruned cr md c m t) t) = m \<and>
    (\<forall>(j, w) \<in> set (fold tbl_remove (pruned cr md c m t) t).
       \<exists>b. session_activity cr md w = Some b \<and> a \<le> b)"
proof -
  let ?rs = "filter (fresh c) (prune_rows cr md t)"
  have drop: "(k, Some a) \<in> set (drop m ?rs)"
    by (rule dropped_rows [OF assms])
  then have "m < length ?rs" by (metis drop_all empty_iff list.set(1) not_le)
  then have "length (fold tbl_remove (pruned cr md c m t) t) = m"
    using prune_length [OF assms(1), of cr md c m] by simp
  moreover have "\<exists>b. session_activity cr md w = Some b \<and> a \<le> b"
    if "(j, w) \<in> set (fold tbl_remove (pruned cr md c m t) t)" for j w
  proof -
    have row: "(j, session_activity cr md w) \<in> set (take m ?rs)"
      using that by (intro kept_rows [OF assms(1)]) (auto simp: tbl_remove_all_rows)
    have "sorted (map (\<lambda>r. reverse_key (snd r)) ?rs)"
      using prune_rows_sorted by (rule sorted_filter)
    from sorted_take_drop [OF this row drop]
    have "reverse_key (session_activity cr md w) \<le> reverse_key (Some a)" by simp
    then show ?thesis by (auto simp: reverse_key_def split: option.splits)
  qed
  ultimately show ?thesis by blast
qed

section \<open>Lemmas on devices\<close>

definition device_rows_ok :: "persist_crates \<Rightarrow> persistence_mode \<Rightarrow> bytes table \<Rightarrow> bool" where
  "device_rows_ok cr md t \<longleftrightarrow> tbl_ok t \<and> (\<forall>(k, v) \<in> set t. \<forall>d. decode_device cr md v = Some d \<longrightarrow>
     k = device_storage_key cr (sd_device_node_id d) \<or> k = sd_device_node_id d)"

lemma remove_device_rows:
  "set (tbl_remove n (tbl_remove (device_storage_key cr n) t)) =
     {r \<in> set t. fst r \<noteq> device_storage_key cr n \<and> fst r \<noteq> n}"
  by (auto simp: tbl_remove_rows)

lemma remove_device_ok:
  "device_rows_ok cr md t \<Longrightarrow> remove_device cr fault n t = (r, t') \<Longrightarrow> device_rows_ok cr md t'"
  unfolding remove_device_def device_rows_ok_def
  by (fastforce simp: tbl_remove_ok tbl_remove_rows split: option.splits)

lemma save_device_ok:
  assumes "persist_codecs cr" and "save_device cr md nonce fault d t = (r, t')"
    and "device_rows_ok cr md t"
    and "\<forall>payload. encode_payload cr md nonce (the (enc_device cr d)) = Inr payload \<longrightarrow>
      is_encrypted md \<longrightarrow> unmarked payload"
  shows "device_rows_ok cr md t'"
proof (cases r)
  case (Some e)
  then show ?thesis
    using assms(2,3) by (auto simp: save_device_def split: option.splits sum.splits)
next
  case None
  have ok: "tbl_ok (tbl_remove (sd_device_node_id d) t)"
    using assms(3) by (simp add: device_rows_ok_def tbl_remove_ok)
  obtain p payload where p: "enc_device cr d = Some p"
      "encode_payload cr md nonce p = Inr payload"
    and t': "t' = tbl_insert (device_storage_key cr (sd_device_node_id d)) payload
        (tbl_remove (sd_device_node_id d) t)"
    using assms(2) None by (auto simp: save_device_def split: option.splits sum.splits)
  have "decode_payload cr md payload = Inr p"
    by (rule payload_roundtrip [OF assms(1) p(2)])
      (use assms(4) p in \<open>auto simp: reads_mode_def split: persistence_mode.splits\<close>)
  moreover have "de_device cr p = Inr (d, length p)"
    using assms(1) p(1) by (auto simp: persist_codecs_def)
  ultimately have "decode_device cr md payload = Some d"
    by (simp add: decode_device_def decode_bincode_def)
  then show ?thesis
    using assms(3) unfolding t' device_rows_ok_def
    by (auto simp: tbl_insert_rows [OF ok] tbl_remove_rows tbl_insert_ok ok)
qed


section \<open>An instance of the crates\<close>

text \<open>Used by the witnesses only: identity cipher and serializers that know one row of each kind.\<close>

definition demo_session :: stored_session where
  "demo_session = \<lparr>st_summary = \<lparr>ss_id = SessionId 7, ss_name = lit ''cedar'', ss_command = [lit ''sh''],
     ss_cwd = lit ''/'', ss_created_at = 5, ss_last_activity = 9, ss_state = Idle, ss_last_line = None,
     ss_model = None\<rparr>, st_scrollback_start_seq = 0, st_scrollback = [1, 2], st_exit_code = None\<rparr>"

definition demo_device :: stored_device where
  "demo_device = stored_device_new 3 (lit ''phone'') (lit ''node'')"

definition demo_persist :: persist_crates where
  "demo_persist = \<lparr>enc_session = (\<lambda>s. if s = demo_session then Some [1] else None),
     de_session = (\<lambda>p. if p = [1] then Inr (demo_session, 1) else Inl ()),
     enc_device = (\<lambda>d. if d = demo_device then Some [2] else None),
     de_device = (\<lambda>p. if p = [2] then Inr (demo_device, 1) else Inl ()),
     enc_blob = (\<lambda>(n, c). if length n = 24 then Some (n @ c) else None),
     de_blob = (\<lambda>p. Inr ((take 24 p, drop 24 p), length p)),
     enc_plain = Some, de_plain = (\<lambda>p. Inr (p, length p)),
     aead_encrypt = (\<lambda>k n p. Some p), aead_decrypt = (\<lambda>k n c. Some c),
     sha256 = (\<lambda>b. replicate 32 0), uuid_text = dec\<rparr>"

lemma demo_persist_codecs: "persist_codecs demo_persist"
  by (auto simp: persist_codecs_def demo_persist_def split: if_splits)

lemma demo_payload:
  "encode_payload demo_persist (Encrypted k) (replicate 24 0) p = Inr (replicate 24 0 @ p)"
  by (simp add: encode_payload_def encrypt_def demo_persist_def)

lemma demo_unmarked: "unmarked (replicate 24 0 @ p)"
proof -
  have "replicate 24 (0 :: u8) = 0 # replicate 23 0"
    using replicate_Suc [of 23 "0 :: u8"] by simp
  then show ?thesis by (simp add: unmarked_def PLAINTEXT_PREFIX_def take_Cons')
qed

section \<open>Properties\<close>

text \<open>C28 [session_store_roundtrip].  A session saved without an error is what the daemon loads
  after a restart, also after encryption at rest has been turned on or off (as long as the
  key is at hand): the loaded list, in order of creation, holds the session and what the
  other rows held, and the previous row of the same session is gone.  An encrypted row is
  recognised only when it does not start with the plaintext marker by chance.\<close>
theorem session_store_roundtrip:
  assumes "persist_codecs cr" and "tbl_ok t" and "reads_mode md' md"
    and "is_encrypted md \<Longrightarrow> \<forall>p payload. encode_payload cr md nonce p = Inr payload \<longrightarrow> unmarked payload"
    and "save_session cr md nonce fault s t = (None, t')"
  shows "tbl_ok t' \<and> (\<exists>ss. load_sessions cr md' None t' = Inr ss \<and>
    sorted (map (\<lambda>s. ss_created_at (st_summary s)) ss) \<and>
    set ss = insert s {x. \<exists>(k, v) \<in> set t. k \<noteq> uuid_text cr (session_uuid (ss_id (st_summary s))) \<and>
      decode_session cr md' v = Some x})"
proof -
  let ?k = "uuid_text cr (session_uuid (ss_id (st_summary s)))"
  obtain p payload where p: "encode_payload cr md nonce p = Inr payload"
    and t': "t' = tbl_insert ?k payload t"
    using assms(5) by (auto simp: save_session_def split: option.splits sum.splits)
  obtain payload' where "t' = tbl_insert ?k payload' t"
      "(is_encrypted md \<longrightarrow> unmarked payload') \<longrightarrow> decode_session cr md' payload' = Some s"
    using save_session_row [OF assms(1,5)] assms(3) by blast
  moreover have "payload' = payload"
    using t' calculation(1) tbl.lookup_upsert_same [OF assms(2)] by (metis option.inject)
  ultimately have d: "decode_session cr md' payload = Some s"
    using assms(4) p by blast
  have "set (sort_key (\<lambda>s. ss_created_at (st_summary s))
        (List.map_filter (\<lambda>(k, v). decode_session cr md' v) t')) =
      insert s {x. \<exists>(k, v) \<in> set t. k \<noteq> ?k \<and> decode_session cr md' v = Some x}"
    using d by (auto simp: t' set_map_filter tbl_insert_rows [OF assms(2)])
  then show ?thesis
    unfolding t' load_sessions_def using tbl_insert_ok [OF assms(2)] sorted_sort_key by auto
qed

theorem session_store_roundtrip_witness:
  "\<exists>t'. save_session demo_persist (Encrypted []) (replicate 24 0) None demo_session [] = (None, t') \<and>
    tbl_ok t' \<and> (\<exists>ss. load_sessions demo_persist (Plaintext (Some [])) None t' = Inr ss \<and>
      set ss = {demo_session})"
proof -
  obtain t' where t': "save_session demo_persist (Encrypted []) (replicate 24 0) None demo_session [] = (None, t')"
    unfolding save_session_def demo_payload by (simp add: demo_persist_def)
  have "reads_mode (Plaintext (Some [])) (Encrypted [])" by (simp add: reads_mode_def)
  from session_store_roundtrip [OF demo_persist_codecs tbl_ok_Nil this _ t']
  show ?thesis using t' by (auto simp: demo_payload demo_unmarked)
qed

text \<open>[prune_keeps_newest].  The prune keeps at most the given number of sessions, all of them
  readable and active since the cutoff; it removes only rows that cannot be read, that are
  past the retention, or that are no newer than every one of a full set of kept rows; it
  reports how many it removed, and a failed transaction removes nothing.\<close>
theorem prune_keeps_newest:
  assumes "tbl_ok t" and "prune_sessions_with_limit cr md fault now m t = (r, t')"
  shows "(fault \<noteq> None \<longrightarrow> t' = t) \<and> (fault = None \<longrightarrow>
     tbl_ok t' \<and> set t' \<subseteq> set t \<and> length t' \<le> m \<and> r = Inr (length t - length t') \<and>
     (\<forall>(k, v) \<in> set t'. \<exists>a. session_activity cr md v = Some a \<and> now - SESSION_RETENTION_MS \<le> a) \<and>
     (\<forall>(k, v) \<in> set t - set t'. case session_activity cr md v of None \<Rightarrow> True | Some a \<Rightarrow>
        a < now - SESSION_RETENTION_MS \<or>
        (length t' = m \<and> (\<forall>(j, w) \<in> set t'. \<exists>b. session_activity cr md w = Some b \<and> a \<le> b))))"
proof (cases fault)
  case (Some e)
  then show ?thesis using assms(2) by (auto simp: prune_sessions_with_limit_def)
next
  case None
  let ?c = "now - SESSION_RETENTION_MS"
  let ?dead = "pruned cr md ?c m t"
  have r: "r = Inr (length ?dead)" and t': "t' = fold tbl_remove ?dead t"
    using assms(2) None by (auto simp: prune_sessions_with_limit_def pruned_def Let_def)
  have rows: "set t' = {x \<in> set t. fst x \<notin> set ?dead}"
    unfolding t' by (rule tbl_remove_all_rows)
  have len: "length t' = length t - length ?dead \<and>
      length t' = min m (length (filter (fresh ?c) (prune_rows cr md t)))"
    unfolding t' by (rule prune_length [OF assms(1)])
  have count: "length ?dead \<le> length t"
    using pruned_total [OF assms(1), of cr md ?c m] by simp
  have kept: "\<exists>a. session_activity cr md v = Some a \<and> ?c \<le> a" if "(k, v) \<in> set t'" for k v
    using kept_rows [OF assms(1), of k v cr md ?c m] that rows
    by (auto simp: fresh_def dest!: in_set_takeD split: option.splits)
  have dropped: "length t' = m \<and> (\<forall>(j, w) \<in> set t'. \<exists>b. session_activity cr md w = Some b \<and> a \<le> b)"
    if "(k, v) \<in> set t - set t'" "session_activity cr md v = Some a" "?c \<le> a" for k v a
    using that rows unfolding t' by (intro dropped_is_older [OF assms(1)]) auto
  have "tbl_ok t'" unfolding t' by (rule tbl.ok_remove_all [OF assms(1)])
  moreover have "set t' \<subseteq> set t" using rows by auto
  moreover have "length t' \<le> m" using len by (metis min.cobounded1)
  moreover have "r = Inr (length t - length t')" using r len count by simp
  ultimately show ?thesis
    using None kept dropped by (fastforce split: option.splits simp: not_le [symmetric])
qed


theorem prune_keeps_newest_witness:
  "tbl_ok (snd (prune_sessions_with_limit demo_persist (Plaintext None) None 10 1 [([1], [0]), ([2], [])]))"
  using prune_keeps_newest [of "[([1], [0]), ([2], [])]" demo_persist "Plaintext None" None 10 1
      "fst (prune_sessions_with_limit demo_persist (Plaintext None) None 10 1 [([1], [0]), ([2], [])])"
      "snd (prune_sessions_with_limit demo_persist (Plaintext None) None 10 1 [([1], [0]), ([2], [])])"]
  by (simp add: tbl_ok_def)

text \<open>[device_rows_follow_admin].  The devices table answers for who is paired: after a save
  without an error a load returns the device once under its node id with what was saved, also
  where the row was stored under the key of an older release; after a remove without an error
  no load returns a device with that node id; the other devices are untouched.\<close>
theorem device_rows_follow_admin:
  assumes "persist_codecs cr" and "device_rows_ok cr md t"
    and "is_encrypted md \<Longrightarrow> \<forall>p payload. encode_payload cr md nonce p = Inr payload \<longrightarrow> unmarked payload"
  shows "(save_device cr md nonce fault d t = (None, t') \<longrightarrow> device_rows_ok cr md t' \<and>
      (\<exists>ds. load_devices cr md None t' = Inr ds \<and> d \<in> set ds \<and>
        (\<forall>x \<in> set ds. sd_device_node_id x = sd_device_node_id d \<longrightarrow> x = d))) \<and>
    (remove_device cr fault n t = (None, t') \<longrightarrow> device_rows_ok cr md t' \<and>
      (\<exists>ds. load_devices cr md None t' = Inr ds \<and> (\<forall>x \<in> set ds. sd_device_node_id x \<noteq> n) \<and>
        {x. \<exists>(k, v) \<in> set t. k \<noteq> device_storage_key cr n \<and> k \<noteq> n \<and>
          decode_device cr md v = Some x} = set ds))"
proof (intro conjI impI)
  assume save: "save_device cr md nonce fault d t = (None, t')"
  show ok': "device_rows_ok cr md t'"
    by (rule save_device_ok [OF assms(1) save assms(2)]) (use assms(3) in blast)
  obtain payload where t': "t' = tbl_insert (device_storage_key cr (sd_device_node_id d)) payload
        (tbl_remove (sd_device_node_id d) t)"
    and enc: "\<exists>p. encode_payload cr md nonce p = Inr payload"
    using save by (auto simp: save_device_def split: option.splits sum.splits)
  let ?k = "device_storage_key cr (sd_device_node_id d)"
  have ok: "tbl_ok (tbl_remove (sd_device_node_id d) t)"
    using assms(2) by (simp add: device_rows_ok_def tbl_remove_ok)
  obtain payload' where "t' = tbl_insert ?k payload' (tbl_remove (sd_device_node_id d) t)"
      and dec': "(is_encrypted md \<longrightarrow> unmarked payload') \<longrightarrow> reads_mode md md \<longrightarrow>
        decode_device cr md payload' = Some d"
    using save_device_row [OF assms(1) save] by blast
  then have "payload' = payload"
    using t' tbl.lookup_upsert_same [OF ok] by (metis option.inject)
  then have dec: "decode_device cr md payload = Some d"
    using dec' enc assms(3) by (auto simp: reads_mode_def split: persistence_mode.splits)
  have only: "x = d" if "(k, v) \<in> set t'" "decode_device cr md v = Some x"
      "sd_device_node_id x = sd_device_node_id d" for k v x
    using that dec assms(2)
    by (fastforce simp: t' tbl_insert_rows [OF ok] tbl_remove_rows device_rows_ok_def)
  show "\<exists>ds. load_devices cr md None t' = Inr ds \<and> d \<in> set ds \<and>
      (\<forall>x \<in> set ds. sd_device_node_id x = sd_device_node_id d \<longrightarrow> x = d)"
    using dec only by (auto simp: load_devices_def set_map_filter t' tbl_insert_rows [OF ok])
next
  assume rm: "remove_device cr fault n t = (None, t')"
  show "device_rows_ok cr md t'"
    using assms(2) rm by (rule remove_device_ok)
  have t': "set t' = {r \<in> set t. fst r \<noteq> device_storage_key cr n \<and> fst r \<noteq> n}"
    using rm by (auto simp: remove_device_def remove_device_rows split: option.splits)
  have gone: "sd_device_node_id x \<noteq> n" if "(k, v) \<in> set t'" "decode_device cr md v = Some x" for k v x
    using that assms(2) by (fastforce simp: t' device_rows_ok_def)
  show "\<exists>ds. load_devices cr md None t' = Inr ds \<and> (\<forall>x \<in> set ds. sd_device_node_id x \<noteq> n) \<and>
      {x. \<exists>(k, v) \<in> set t. k \<noteq> device_storage_key cr n \<and> k \<noteq> n \<and>
        decode_device cr md v = Some x} = set ds"
    using gone t' by (fastforce simp: load_devices_def set_map_filter)
qed

theorem device_rows_follow_admin_witness:
  "\<exists>t'. save_device demo_persist (Encrypted []) (replicate 24 0) None demo_device [] = (None, t') \<and>
    (\<exists>ds. load_devices demo_persist (Encrypted []) None t' = Inr ds \<and> demo_device \<in> set ds)"
proof -
  obtain t' where t': "save_device demo_persist (Encrypted []) (replicate 24 0) None demo_device [] = (None, t')"
    unfolding save_device_def demo_payload by (simp add: demo_persist_def)
  have "device_rows_ok demo_persist (Encrypted []) []" by (simp add: device_rows_ok_def)
  from device_rows_follow_admin [OF demo_persist_codecs this, of "replicate 24 0" None demo_device t']
  show ?thesis using t' by (auto simp: demo_payload demo_unmarked)
qed

end
