(* ===== verification/Session.thy ===== *)
theory Session
  imports Ring Terminal Persist "HOL-Library.AList"
begin

text \<open>
  One PTY session of the daemon (\<open>crates/daemon/src/session.rs\<close>): its state, the calls the
  transports make on it, and the iterations of its background threads (PTY I/O, idle
  inference, debounced resize, persistence).  Every call and every iteration is one atomic
  step; where the code releases its locks inside a call, the parts are definitions of their
  own so that an interleaving can be stated.  What a session does to the outside is kept in
  logs: the messages it broadcast, the summary updates, the push notifications, the bytes
  written to the PTY, the rows saved.  The kernel's answers (reads, writes, poll, child
  status), the clock and the outcome of a save are arguments.
\<close>

section \<open>State\<close>

definition RING_CAPACITY :: nat where "RING_CAPACITY = 256 * 1024"
definition IDLE_AFTER_MS :: nat where "IDLE_AFTER_MS = 2000"
definition PTY_WRITE_QUEUE_CAPACITY :: nat where "PTY_WRITE_QUEUE_CAPACITY = 64"
definition BUILD_FINISHED_MIN_WORKING_MS :: nat where "BUILD_FINISHED_MIN_WORKING_MS = 5000"
definition LAST_LINE_CHARS :: nat where "LAST_LINE_CHARS = 80"

datatype pty_write_error = Backpressure | Closed

datatype push_event =
    PushAwaitingInput session_id rstr
  | PushBuildFinished session_id rstr
  | PushSessionCrashed session_id rstr

record 'm session =
  se_id :: session_id
  se_name :: rstr
  se_command :: "rstr list"
  se_kind :: command_kind
  se_cwd :: rstr
  se_env :: "rstr \<rightharpoonup> rstr"
  se_created_at :: nat
  se_last_activity :: nat
  se_state :: agent_state
  se_working_since :: "nat option"
  se_exit_code :: "int option"
  se_last_line :: "rstr option"
  se_ring :: pty_ring
  se_queue :: "bytes list"
  se_writer_open :: bool
  se_io_shutdown :: bool
  se_io_running :: bool
  se_pending_write :: "(bytes \<times> nat) option"
  se_terminal :: "'m projection"
  se_attached_sizes :: "(client_id \<times> client_size) list"
  se_resize_pending :: bool
  se_persistence :: bool
  se_push :: bool
  se_persist_dirty :: bool
  se_killed :: bool
  se_pty_size :: client_size
  se_events :: "server_msg list"
  se_summary_updates :: "bool list"
  se_pushes :: "push_event list"
  se_pty_written :: bytes
  se_accepted :: bytes
  se_saved :: "stored_session list"

text \<open>
  The environment of the child: the three variables the daemon sets, then the client's.
  \<open>sid_text\<close> is the text of the session's UUID.
\<close>

definition child_env :: "rstr \<Rightarrow> (rstr \<rightharpoonup> rstr) \<Rightarrow> (rstr \<rightharpoonup> rstr)" where
  "child_env sid_text env =
     [lit ''TERM'' \<mapsto> lit ''xterm-256color'', lit ''COLORTERM'' \<mapsto> lit ''truecolor'',
      lit ''SHELLY_SESSION_ID'' \<mapsto> sid_text] ++ env"

text \<open>\<open>fault\<close>: the context of the system call that failed (PTY, child, thread), if one did.\<close>

definition session_spawn ::
    "'m parser \<Rightarrow> rstr option \<Rightarrow> session_id \<Rightarrow> rstr \<Rightarrow> nat \<Rightarrow> rstr \<Rightarrow> rstr list \<Rightarrow> rstr \<Rightarrow>
      (rstr \<rightharpoonup> rstr) \<Rightarrow> client_size \<Rightarrow> bool \<Rightarrow> bool \<Rightarrow> rstr + 'm session" where
  "session_spawn tm fault sid sid_text now name command cwd env sz persistence push =
     (if command = [] then Inl (lit ''session command must not be empty'')
      else case fault of Some e \<Rightarrow> Inl e | None \<Rightarrow>
        Inr \<lparr>se_id = sid, se_name = name, se_command = command, se_kind = classify command,
        se_cwd = cwd, se_env = child_env sid_text env, se_created_at = now, se_last_activity = now,
        se_state = Idle,
        se_working_since = None, se_exit_code = None, se_last_line = None,
        se_ring = ring_new RING_CAPACITY, se_queue = [], se_writer_open = True,
        se_io_shutdown = False, se_io_running = True, se_pending_write = None,
        se_terminal = projection_new tm sz, se_attached_sizes = [], se_resize_pending = False,
        se_persistence = persistence, se_push = push, se_persist_dirty = True, se_killed = False,
        se_pty_size = sz, se_events = [], se_summary_updates = [], se_pushes = [],
        se_pty_written = [], se_accepted = [], se_saved = []\<rparr>)"

section \<open>The write queue\<close>

definition pty_try_send :: "bytes \<Rightarrow> 'm session \<Rightarrow> pty_write_error option \<times> 'm session" where
  "pty_try_send bs s =
     (if bs = [] then (None, s)
      else if \<not> se_writer_open s then (Some Closed, s)
      else if PTY_WRITE_QUEUE_CAPACITY \<le> length (se_queue s) then (Some Backpressure, s)
      else (None, s\<lparr>se_queue := se_queue s @ [bs], se_accepted := se_accepted s @ bs\<rparr>))"

text \<open>Replies of the terminal to queries of the program: \<open>write_all\<close>, errors ignored.\<close>

definition send_replies :: "bytes list \<Rightarrow> 'm session \<Rightarrow> 'm session" where
  "send_replies replies s = fold (\<lambda>bs s. snd (pty_try_send bs s)) replies s"

section \<open>Summaries and snapshots\<close>

definition materialize_terminal_last_line ::
    "'m parser \<Rightarrow> 'm session \<Rightarrow> rstr option \<times> 'm session" where
  "materialize_terminal_last_line tm s =
     (case last_non_empty_line tm (se_terminal s) LAST_LINE_CHARS of
        (Inr l, p) \<Rightarrow> (l, s\<lparr>se_terminal := p\<rparr>)
      | (Inl f, p) \<Rightarrow> (None, s\<lparr>se_terminal := p\<rparr>))"

definition cached_summary :: "'m session \<Rightarrow> session_summary" where
  "cached_summary s = \<lparr>ss_id = se_id s, ss_name = se_name s, ss_command = se_command s,
     ss_cwd = se_cwd s, ss_created_at = se_created_at s, ss_last_activity = se_last_activity s,
     ss_state = se_state s, ss_last_line = se_last_line s, ss_model = None\<rparr>"

definition session_summary_of :: "'m parser \<Rightarrow> 'm session \<Rightarrow> session_summary \<times> 'm session" where
  "session_summary_of tm s =
     (case materialize_terminal_last_line tm s of (l, s1) \<Rightarrow>
        let s2 = (case l of Some line \<Rightarrow> s1\<lparr>se_last_line := Some line\<rparr> | None \<Rightarrow> s1) in
        (cached_summary s2, s2))"

definition stored_snapshot :: "'m session \<Rightarrow> stored_session" where
  "stored_snapshot s = \<lparr>st_summary = cached_summary s,
     st_scrollback_start_seq = fst (ring_snapshot (se_ring s)),
     st_scrollback = snd (ring_snapshot (se_ring s)), st_exit_code = se_exit_code s\<rparr>"

section \<open>The terminal projection\<close>

definition rebuild_terminal_projection :: "'m parser \<Rightarrow> bytes \<Rightarrow> 'm session \<Rightarrow> 'm session" where
  "rebuild_terminal_projection tm scrollback s =
     (case rebuild tm (se_terminal s) scrollback of (r, p, replies) \<Rightarrow>
        send_replies replies (s\<lparr>se_terminal := p\<rparr>))"

definition rebuild_terminal_projection_from_ring :: "'m parser \<Rightarrow> 'm session \<Rightarrow> 'm session" where
  "rebuild_terminal_projection_from_ring tm s =
     rebuild_terminal_projection tm (snd (ring_snapshot (se_ring s))) s"

definition attach_bytes ::
    "'m parser \<Rightarrow> nat option \<Rightarrow> 'm session \<Rightarrow> (nat \<times> bytes) \<times> 'm session" where
  "attach_bytes tm last_seen_seq s =
     (case (case last_seen_seq of None \<Rightarrow> None | Some seq \<Rightarrow> replay_from (se_ring s) seq) of
        Some (start, replay) \<Rightarrow> ((sat_add64 start (length replay), replay), s)
      | None \<Rightarrow>
          let raw_scrollback = snd (ring_snapshot (se_ring s)); end_pos = end_seq (se_ring s) in
          (case projection_snapshot tm (se_terminal s) of
             Inr snapshot \<Rightarrow> ((end_pos, snapshot), s)
           | Inl failure \<Rightarrow>
               if invalidated_model failure then
                 let s' = rebuild_terminal_projection tm raw_scrollback s in
                 (case projection_snapshot tm (se_terminal s') of
                    Inr rebuilt \<Rightarrow> ((end_pos, rebuilt), s')
                  | Inl _ \<Rightarrow> ((end_pos, raw_scrollback), s'))
               else ((end_pos, raw_scrollback), s)))"

section \<open>State changes and notifications\<close>

definition set_state :: "nat \<Rightarrow> agent_state \<Rightarrow> rstr option \<Rightarrow> 'm session \<Rightarrow> 'm session" where
  "set_state now state last_line s =
     (let previous = se_state s in
      if previous = state then s
      else
        let build_finished = (previous = Working \<and> state = Idle \<and>
              (case se_working_since s of None \<Rightarrow> False
               | Some since \<Rightarrow> BUILD_FINISHED_MIN_WORKING_MS \<le> now - since));
            pushed = (if \<not> se_push s then []
              else if state = AwaitingInput then [PushAwaitingInput (se_id s) (se_name s)]
              else if build_finished then [PushBuildFinished (se_id s) (se_name s)] else []) in
        s\<lparr>se_state := state,
          se_working_since := (if state = Working then Some now else None),
          se_events := se_events s @ [AgentStateChanged (se_id s) state last_line],
          se_summary_updates := se_summary_updates s @ [False],
          se_pushes := se_pushes s @ pushed\<rparr>)"

definition write_input ::
    "nat \<Rightarrow> bytes \<Rightarrow> 'm session \<Rightarrow> pty_write_error option \<times> 'm session" where
  "write_input now bs s =
     (case pty_try_send bs s of
        (Some e, s') \<Rightarrow> (Some e, s')
      | (None, s') \<Rightarrow> (None, if se_exit_code s' = None then set_state now Working None s' else s'))"

datatype agent_event_error = SessionHasExited session_id | SourceMismatch agent_source command_kind

definition source_matches_command :: "agent_source \<Rightarrow> command_kind \<Rightarrow> bool" where
  "source_matches_command source kind \<longleftrightarrow>
     (source = SrcClaude \<and> kind = CkClaude) \<or> (source = SrcCodex \<and> kind = CkCodex) \<or> kind = CkUnknown"

definition apply_agent_state_event ::
    "nat \<Rightarrow> agent_source \<Rightarrow> agent_state \<Rightarrow> rstr option \<Rightarrow> 'm session \<Rightarrow>
      (agent_event_error + rstr option) \<times> 'm session" where
  "apply_agent_state_event now source state last_line s =
     (if se_exit_code s \<noteq> None then (Inl (SessionHasExited (se_id s)), s)
      else if \<not> source_matches_command source (se_kind s)
      then (Inl (SourceMismatch source (se_kind s)), s)
      else
        let line = map_option (take LAST_LINE_CHARS) last_line;
            s1 = (case line of None \<Rightarrow> s
              | Some l \<Rightarrow> s\<lparr>se_last_line := Some l,
                  se_terminal := cache_last_non_empty_line (se_terminal s) l LAST_LINE_CHARS\<rparr>);
            s2 = (set_state now state line s1)\<lparr>se_persist_dirty := True\<rparr> in
        (Inr (se_last_line s2), s2))"

section \<open>Output\<close>

text \<open>The two halves of \<open>record_output\<close>: under the ring lock, and after it.\<close>

definition record_capture :: "'m parser \<Rightarrow> bytes \<Rightarrow> 'm session \<Rightarrow> nat \<times> 'm session" where
  "record_capture tm bs s =
     (case ring_push (se_ring s) bs of (ring', start) \<Rightarrow>
        let seq = sat_add64 start (length bs) in
        (case ingest tm (se_terminal s) bs of (failure, p, replies) \<Rightarrow>
           let s1 = send_replies replies (s\<lparr>se_ring := ring', se_terminal := p\<rparr>) in
           (seq, case failure of None \<Rightarrow> s1
             | Some f \<Rightarrow> if invalidated_model f then rebuild_terminal_projection_from_ring tm s1
                         else s1)))"

definition record_infer ::
    "'m parser \<Rightarrow> (rstr \<Rightarrow> codex_event option) \<Rightarrow> nat \<Rightarrow> 'm session \<Rightarrow> 'm session" where
  "record_infer tm from_str now s =
     (case (if se_kind s \<noteq> CkUnknown then materialize_terminal_last_line tm s else (None, s)) of
        (None, s1) \<Rightarrow> set_state now Working None s1
      | (Some line, s1) \<Rightarrow>
          let s2 = s1\<lparr>se_last_line := Some line\<rparr>;
              inferred = (case se_kind s of
                  CkClaude \<Rightarrow> infer_from_line line
                | CkCodex \<Rightarrow> infer_from_json_line from_str line
                | CkUnknown \<Rightarrow> None);
              state = (case inferred of Some st \<Rightarrow> st | None \<Rightarrow> Working) in
          if state \<noteq> Idle then set_state now state (Some line) s2 else s2)"

definition record_output ::
    "'m parser \<Rightarrow> (rstr \<Rightarrow> codex_event option) \<Rightarrow> nat \<Rightarrow> bytes \<Rightarrow> 'm session \<Rightarrow> 'm session" where
  "record_output tm from_str now bs s =
     (case record_capture tm bs s of (seq, s1) \<Rightarrow>
        let s2 = record_infer tm from_str now (s1\<lparr>se_last_activity := now\<rparr>) in
        s2\<lparr>se_events := se_events s2 @ [Output (se_id s2) seq bs], se_persist_dirty := True\<rparr>)"

section \<open>Persistence and exit\<close>

definition persist :: "bool \<Rightarrow> 'm session \<Rightarrow> bool \<times> 'm session" where
  "persist save_ok s =
     (if se_killed s then (True, s)
      else if \<not> se_persistence s then (True, s)
      else if save_ok then (True, s\<lparr>se_saved := se_saved s @ [stored_snapshot s]\<rparr>)
      else (False, s))"

definition flush_dirty_persistence :: "bool \<Rightarrow> 'm session \<Rightarrow> 'm session" where
  "flush_dirty_persistence save_ok s =
     (if se_persist_dirty s then
        (case persist save_ok (s\<lparr>se_persist_dirty := False\<rparr>) of
           (ok, s') \<Rightarrow> if ok then s' else s'\<lparr>se_persist_dirty := True\<rparr>)
      else s)"

definition exit_state :: "int \<Rightarrow> agent_state" where
  "exit_state code = (if code = 0 then Idle else Crashed)"

definition mark_exited :: "bool \<Rightarrow> int \<Rightarrow> 'm session \<Rightarrow> 'm session" where
  "mark_exited save_ok code s =
     (if se_exit_code s \<noteq> None then s
      else
        let s1 = s\<lparr>se_exit_code := Some code, se_state := exit_state code,
              se_events := se_events s @ [SessionExited (se_id s) code],
              se_pushes := se_pushes s @
                (if code \<noteq> 0 \<and> \<not> se_killed s \<and> se_push s
                 then [PushSessionCrashed (se_id s) (se_name s)] else []),
              se_persist_dirty := False\<rparr> in
        (case persist save_ok s1 of (ok, s2) \<Rightarrow>
           let s3 = (if ok then s2 else s2\<lparr>se_persist_dirty := True\<rparr>) in
           s3\<lparr>se_summary_updates := se_summary_updates s3 @ [True]\<rparr>))"

datatype child_status = ChildExited | ChildRunning bool | ChildStatusError

text \<open>\<open>ChildRunning ok\<close>: the child runs and the signal to it succeeded or not.\<close>

definition session_kill :: "child_status \<Rightarrow> 'm session \<Rightarrow> bool \<times> 'm session" where
  "session_kill child s =
     ((case child of ChildExited \<Rightarrow> True | ChildRunning ok \<Rightarrow> ok | ChildStatusError \<Rightarrow> False),
      s\<lparr>se_killed := True, se_io_shutdown := True\<rparr>)"

section \<open>Sizes\<close>

definition size_min :: "client_size \<Rightarrow> client_size \<Rightarrow> client_size" where
  "size_min a b = \<lparr>cols = min (cols a) (cols b), rows = min (rows a) (rows b)\<rparr>"

definition min_client_size :: "client_size list \<Rightarrow> client_size option" where
  "min_client_size szs = (case szs of [] \<Rightarrow> None | z # zs \<Rightarrow> Some (foldl size_min z zs))"

definition session_resize :: "'m parser \<Rightarrow> bool \<Rightarrow> client_size \<Rightarrow> 'm session \<Rightarrow> bool \<times> 'm session" where
  "session_resize tm pty_ok sz s =
     (if \<not> pty_ok then (False, s)
      else case projection_resize tm (se_terminal s) sz of (failure, p) \<Rightarrow>
        let s1 = s\<lparr>se_pty_size := sz, se_terminal := p\<rparr> in
        (True, case failure of None \<Rightarrow> s1 | Some _ \<Rightarrow> rebuild_terminal_projection_from_ring tm s1))"

definition apply_min_attached_resize :: "'m parser \<Rightarrow> bool \<Rightarrow> 'm session \<Rightarrow> bool \<times> 'm session" where
  "apply_min_attached_resize tm pty_ok s =
     (case min_client_size (map snd (se_attached_sizes s)) of
        None \<Rightarrow> (True, s)
      | Some sz \<Rightarrow> session_resize tm pty_ok sz s)"

definition attach_client ::
    "'m parser \<Rightarrow> bool \<Rightarrow> client_id \<Rightarrow> client_size \<Rightarrow> 'm session \<Rightarrow> bool \<times> 'm session" where
  "attach_client tm pty_ok client sz s =
     apply_min_attached_resize tm pty_ok
       (s\<lparr>se_attached_sizes := AList.update client sz (se_attached_sizes s)\<rparr>)"

definition schedule_min_attached_resize :: "'m session \<Rightarrow> 'm session" where
  "schedule_min_attached_resize s = s\<lparr>se_resize_pending := True\<rparr>"

definition update_client_size :: "client_id \<Rightarrow> client_size \<Rightarrow> 'm session \<Rightarrow> 'm session" where
  "update_client_size client sz s =
     schedule_min_attached_resize
       (if map_of (se_attached_sizes s) client \<noteq> None
        then s\<lparr>se_attached_sizes := AList.update client sz (se_attached_sizes s)\<rparr> else s)"

definition detach_client :: "client_id \<Rightarrow> 'm session \<Rightarrow> 'm session" where
  "detach_client client s =
     schedule_min_attached_resize
       (s\<lparr>se_attached_sizes := AList.delete client (se_attached_sizes s)\<rparr>)"

section \<open>Background threads\<close>

definition resize_tick :: "'m parser \<Rightarrow> bool \<Rightarrow> 'm session \<Rightarrow> 'm session" where
  "resize_tick tm pty_ok s =
     (if \<not> se_resize_pending s then s
      else if se_exit_code s \<noteq> None then s\<lparr>se_resize_pending := False\<rparr>
      else snd (apply_min_attached_resize tm pty_ok (s\<lparr>se_resize_pending := False\<rparr>)))"

text \<open>The idle thread decides, and then acts, without a lock in between.\<close>

definition idle_decides :: "nat \<Rightarrow> 'm session \<Rightarrow> bool" where
  "idle_decides now s \<longleftrightarrow> se_exit_code s = None \<and>
     IDLE_AFTER_MS \<le> now - se_last_activity s \<and> se_state s \<noteq> Idle \<and> se_state s \<noteq> AwaitingInput"

definition idle_tick :: "nat \<Rightarrow> 'm session \<Rightarrow> 'm session" where
  "idle_tick now s = (if idle_decides now s then set_state now Idle None s else s)"

datatype wait_result = WaitExited nat | WaitRunning | WaitError

text \<open>\<open>u32 as i32\<close>.\<close>

definition as_i32 :: "nat \<Rightarrow> int" where
  "as_i32 n = (if n < 2 ^ 31 then int n else int n - 2 ^ 32)"

fun reap_exit_code :: "nat \<Rightarrow> wait_result list \<Rightarrow> int \<Rightarrow> int" where
  "reap_exit_code 0 ws fallback = fallback"
| "reap_exit_code (Suc k) [] fallback = fallback"
| "reap_exit_code (Suc k) (w # ws) fallback =
     (case w of
        WaitExited status \<Rightarrow> as_i32 status
      | WaitRunning \<Rightarrow> reap_exit_code k ws fallback
      | WaitError \<Rightarrow> fallback)"

definition try_child_exit_code :: "wait_result \<Rightarrow> int option" where
  "try_child_exit_code w = (case w of
      WaitExited status \<Rightarrow> Some (as_i32 status) | WaitRunning \<Rightarrow> None | WaitError \<Rightarrow> Some 1)"

datatype read_result = ReadBytes bytes | ReadEof | ReadInterrupted | ReadWouldBlock | ReadFailed

text \<open>
  At most 64 reads a turn.  \<open>reads\<close> are the kernel's answers, in order; where the list ends
  the PTY has nothing more to read.
\<close>

fun drain_pty_output ::
    "'m parser \<Rightarrow> (rstr \<Rightarrow> codex_event option) \<Rightarrow> nat \<Rightarrow> nat \<Rightarrow> read_result list \<Rightarrow> 'm session \<Rightarrow>
      bool \<times> 'm session" where
  "drain_pty_output tm from_str now 0 reads s = (False, s)"
| "drain_pty_output tm from_str now (Suc k) [] s = (False, s)"
| "drain_pty_output tm from_str now (Suc k) (r # reads) s =
     (case r of
        ReadBytes bs \<Rightarrow> drain_pty_output tm from_str now k reads (record_output tm from_str now bs s)
      | ReadEof \<Rightarrow> (True, s)
      | ReadInterrupted \<Rightarrow> drain_pty_output tm from_str now k reads s
      | ReadWouldBlock \<Rightarrow> (False, s)
      | ReadFailed \<Rightarrow> (True, s))"

datatype write_result = Wrote nat | WriteRetry | WriteFailed

datatype poll_result = PollInterrupted | PollFailed | PollTimeout | PollReady bool bool

record io_answers =
  io_now :: nat
  io_child :: wait_result
  io_reap :: "wait_result list"
  io_poll :: poll_result
  io_reads :: "read_result list"
  io_write :: write_result
  io_save_ok :: bool

text \<open>The end of the I/O thread: the exit is recorded and the receiver of the queue dropped.\<close>

definition io_finish :: "bool \<Rightarrow> int \<Rightarrow> 'm session \<Rightarrow> 'm session" where
  "io_finish save_ok code s =
     (mark_exited save_ok code s)\<lparr>se_io_running := False, se_writer_open := False,
        se_pending_write := None, se_queue := []\<rparr>"

definition take_pending :: "'m session \<Rightarrow> 'm session" where
  "take_pending s =
     (if se_pending_write s \<noteq> None then s
      else case se_queue s of [] \<Rightarrow> s
        | bs # q \<Rightarrow> s\<lparr>se_pending_write := Some (bs, 0), se_queue := q\<rparr>)"

text \<open>\<open>write\<close> never accepts more than it is given.\<close>

definition write_pending :: "io_answers \<Rightarrow> 'm session \<Rightarrow> 'm session" where
  "write_pending a s =
     (case se_pending_write s of
        None \<Rightarrow> s
      | Some (bs, offset) \<Rightarrow>
          (case io_write a of
             Wrote n \<Rightarrow>
               let written = min n (length bs - offset);
                   s' = s\<lparr>se_pty_written := se_pty_written s @ take written (drop offset bs)\<rparr> in
               if 0 < written then
                 s'\<lparr>se_pending_write := (if offset + written = length bs then None
                    else Some (bs, offset + written))\<rparr>
               else s
           | WriteRetry \<Rightarrow> s
           | WriteFailed \<Rightarrow> io_finish (io_save_ok a) (reap_exit_code 40 (io_reap a) 1) s))"

definition io_iteration ::
    "'m parser \<Rightarrow> (rstr \<Rightarrow> codex_event option) \<Rightarrow> io_answers \<Rightarrow> 'm session \<Rightarrow> 'm session" where
  "io_iteration tm from_str a s =
     (if \<not> se_io_running s then s
      else if se_io_shutdown s
      then io_finish (io_save_ok a) (reap_exit_code 40 (io_reap a) 0) s
      else
        let s1 = take_pending s in
        case try_child_exit_code (io_child a) of
          Some code \<Rightarrow>
            io_finish (io_save_ok a) code
              (snd (drain_pty_output tm from_str (io_now a) 64 (io_reads a) s1))
        | None \<Rightarrow>
            (case io_poll a of
               PollInterrupted \<Rightarrow> s1
             | PollFailed \<Rightarrow> io_finish (io_save_ok a) (reap_exit_code 40 (io_reap a) 1) s1
             | PollTimeout \<Rightarrow> s1
             | PollReady readable writable \<Rightarrow>
                 (case (if readable
                        then drain_pty_output tm from_str (io_now a) 64 (io_reads a) s1
                        else (False, s1)) of
                    (True, s2) \<Rightarrow> io_finish (io_save_ok a) (reap_exit_code 40 (io_reap a) 0) s2
                  | (False, s2) \<Rightarrow> if writable then write_pending a s2 else s2)))"

end
