(* ===== verification/SessionRun.thy ===== *)
theory SessionRun
  imports Session
begin

text \<open>
  A session as a state machine: the calls and thread iterations of \<open>Session\<close> as events, and
  the abstract steps they are made of.  An abstract step is one of: a change that shows
  nowhere, an entry into the write queue, a change of the agent state of a live session, a
  broadcast of output of a live session, progress of the write in hand, and the exit.
  Every event is a sequence of abstract steps, and the properties of runs are invariants of
  the abstract steps.
\<close>

section \<open>Events\<close>

datatype session_event =
    CallInput nat bytes
  | CallAttach client_id client_size bool
  | CallUpdateSize client_id client_size
  | CallDetach client_id
  | CallAttachBytes "nat option"
  | CallSummary
  | CallAgent nat agent_source agent_state "rstr option"
  | CallKill child_status
  | TickResize bool
  | TickIdle nat
  | TickPersist bool
  | TickIo io_answers

definition session_step ::
    "'m parser \<Rightarrow> (rstr \<Rightarrow> codex_event option) \<Rightarrow> 'm session \<Rightarrow> session_event \<Rightarrow> 'm session" where
  "session_step tm from_str s ev = (case ev of
      CallInput now bs \<Rightarrow> snd (write_input now bs s)
    | CallAttach c sz ok \<Rightarrow> snd (attach_client tm ok c sz s)
    | CallUpdateSize c sz \<Rightarrow> update_client_size c sz s
    | CallDetach c \<Rightarrow> detach_client c s
    | CallAttachBytes seq \<Rightarrow> snd (attach_bytes tm seq s)
    | CallSummary \<Rightarrow> snd (session_summary_of tm s)
    | CallAgent now src st l \<Rightarrow> snd (apply_agent_state_event now src st l s)
    | CallKill child \<Rightarrow> snd (session_kill child s)
    | TickResize ok \<Rightarrow> resize_tick tm ok s
    | TickIdle now \<Rightarrow> idle_tick now s
    | TickPersist ok \<Rightarrow> flush_dirty_persistence ok s
    | TickIo a \<Rightarrow> io_iteration tm from_str a s)"

abbreviation session_run ::
    "'m parser \<Rightarrow> (rstr \<Rightarrow> codex_event option) \<Rightarrow> 'm session \<Rightarrow> session_event list \<Rightarrow> 'm session" where
  "session_run tm from_str \<equiv> foldl (session_step tm from_str)"

section \<open>Abstract steps\<close>

definition same_life :: "'m session \<Rightarrow> 'm session \<Rightarrow> bool" where
  "same_life s s' \<longleftrightarrow> se_id s' = se_id s \<and> se_name s' = se_name s \<and> se_push s' = se_push s \<and>
     se_exit_code s' = se_exit_code s \<and> se_state s' = se_state s \<and>
     se_working_since s' = se_working_since s \<and> se_events s' = se_events s \<and>
     se_summary_updates s' = se_summary_updates s \<and> se_pushes s' = se_pushes s \<and>
     se_io_running s' = se_io_running s \<and> (se_killed s \<longrightarrow> se_killed s')"

definition same_io :: "'m session \<Rightarrow> 'm session \<Rightarrow> bool" where
  "same_io s s' \<longleftrightarrow> se_queue s' = se_queue s \<and> se_writer_open s' = se_writer_open s \<and>
     se_pending_write s' = se_pending_write s \<and> se_pty_written s' = se_pty_written s \<and>
     se_accepted s' = se_accepted s"

inductive micro :: "'m session \<Rightarrow> 'm session \<Rightarrow> bool" where
  micro_frame: "same_life s s' \<Longrightarrow> same_io s s' \<Longrightarrow> micro s s'"
| micro_send: "micro s (snd (pty_try_send bs s))"
| micro_state: "se_exit_code s = None \<Longrightarrow> micro s (set_state now st l s)"
| micro_output: "se_exit_code s = None \<Longrightarrow>
    micro s (s\<lparr>se_events := se_events s @ [Output (se_id s) seq bs]\<rparr>)"
| micro_take: "se_io_running s \<Longrightarrow> micro s (take_pending s)"
| micro_write: "se_io_running s \<Longrightarrow> se_pending_write s = Some (bs, off) \<Longrightarrow> off + n \<le> length bs \<Longrightarrow>
    micro s (s\<lparr>se_pty_written := se_pty_written s @ take n (drop off bs),
      se_pending_write := (if off + n = length bs then None else Some (bs, off + n))\<rparr>)"
| micro_finish: "se_exit_code s = None \<Longrightarrow> micro s (io_finish ok code s)"

abbreviation evolves :: "'m session \<Rightarrow> 'm session \<Rightarrow> bool" where
  "evolves \<equiv> micro\<^sup>*\<^sup>*"

lemma evolves_micro: "micro s s' \<Longrightarrow> evolves s s'"
  by (rule r_into_rtranclp)

lemma evolves_frame: "same_life s s' \<Longrightarrow> same_io s s' \<Longrightarrow> evolves s s'"
  by (intro evolves_micro micro_frame)

lemma evolves_send: "evolves s (snd (pty_try_send bs s))"
  by (intro evolves_micro micro_send)

lemma evolves_replies: "evolves s (send_replies rs s)"
  unfolding send_replies_def
proof (induction rs arbitrary: s)
  case Nil
  then show ?case by simp
next
  case (Cons r rs)
  have "evolves s (snd (pty_try_send r s))" by (rule evolves_send)
  also have "evolves \<dots> (fold (\<lambda>bs s. snd (pty_try_send bs s)) rs (snd (pty_try_send r s)))"
    by (rule Cons.IH)
  finally show ?case by simp
qed

lemma evolves_rebuild: "evolves s (rebuild_terminal_projection tm sb s)"
proof -
  obtain r p rs where r: "rebuild tm (se_terminal s) sb = (r, p, rs)" by (metis prod_cases3)
  have "evolves s (s\<lparr>se_terminal := p\<rparr>)"
    by (rule evolves_frame) (simp_all add: same_life_def same_io_def)
  also have "evolves \<dots> (send_replies rs (s\<lparr>se_terminal := p\<rparr>))" by (rule evolves_replies)
  finally show ?thesis by (simp add: rebuild_terminal_projection_def r)
qed

lemma evolves_materialize: "evolves s (snd (materialize_terminal_last_line tm s))"
  by (rule evolves_frame) (simp_all add: materialize_terminal_last_line_def same_life_def
      same_io_def split: prod.split sum.split)

lemma evolves_set_state: "se_exit_code s = None \<Longrightarrow> evolves s (set_state now st l s)"
  by (intro evolves_micro micro_state)

lemma pty_try_send_exit [simp]: "se_exit_code (snd (pty_try_send bs s)) = se_exit_code s"
  by (simp add: pty_try_send_def)

lemma send_replies_exit [simp]: "se_exit_code (send_replies rs s) = se_exit_code s"
  unfolding send_replies_def by (induction rs arbitrary: s) auto

lemma rebuild_exit [simp]: "se_exit_code (rebuild_terminal_projection tm sb s) = se_exit_code s"
  by (simp add: rebuild_terminal_projection_def split: prod.split)

lemma materialize_exit [simp]:
  "se_exit_code (snd (materialize_terminal_last_line tm s)) = se_exit_code s"
  by (simp add: materialize_terminal_last_line_def split: prod.split sum.split)

lemma materialize_exit_eq:
  "materialize_terminal_last_line tm s = (l, s1) \<Longrightarrow> se_exit_code s1 = se_exit_code s"
  by (metis materialize_exit snd_conv)

lemma set_state_exit [simp]: "se_exit_code (set_state now st l s) = se_exit_code s"
  by (simp add: set_state_def Let_def)

section \<open>Every event is a sequence of abstract steps\<close>

lemma evolves_write_input: "evolves s (snd (write_input now bs s))"
proof -
  obtain r s1 where r: "pty_try_send bs s = (r, s1)" by fastforce
  then have s1: "evolves s s1" "se_exit_code s1 = se_exit_code s"
    using evolves_send [of s bs] pty_try_send_exit [of bs s] by simp_all
  have "evolves s1 (snd (write_input now bs s))"
    using r by (cases r) (auto simp: write_input_def intro: evolves_set_state)
  with s1(1) show ?thesis by simp
qed

lemma evolves_agent: "evolves s (snd (apply_agent_state_event now src st l s))"
proof (cases "se_exit_code s = None \<and> source_matches_command src (se_kind s)")
  case False
  then show ?thesis by (auto simp: apply_agent_state_event_def)
next
  case True
  define s1 where "s1 = (case map_option (take LAST_LINE_CHARS) l of None \<Rightarrow> s
    | Some l \<Rightarrow> s\<lparr>se_last_line := Some l,
        se_terminal := cache_last_non_empty_line (se_terminal s) l LAST_LINE_CHARS\<rparr>)"
  define s2 where "s2 = set_state now st (map_option (take LAST_LINE_CHARS) l) s1"
  have "evolves s s1"
    by (rule evolves_frame) (auto simp: s1_def same_life_def same_io_def split: option.split)
  also have "evolves s1 s2"
    unfolding s2_def using True
    by (intro evolves_set_state) (simp add: s1_def split: option.split)
  also have "evolves s2 (s2\<lparr>se_persist_dirty := True\<rparr>)"
    by (rule evolves_frame) (simp_all add: same_life_def same_io_def)
  finally show ?thesis
    using True by (simp add: apply_agent_state_event_def Let_def s1_def s2_def)
qed

lemma evolves_resize: "evolves s (snd (session_resize tm ok sz s))"
proof -
  obtain f p where f: "projection_resize tm (se_terminal s) sz = (f, p)" by fastforce
  have "evolves s (s\<lparr>se_pty_size := sz, se_terminal := p\<rparr>)"
    by (rule evolves_frame) (simp_all add: same_life_def same_io_def)
  then show ?thesis
    using evolves_rebuild f
    by (auto simp: session_resize_def rebuild_terminal_projection_from_ring_def Let_def
        split: option.split intro: rtranclp_trans)
qed

lemma evolves_min_resize: "evolves s (snd (apply_min_attached_resize tm ok s))"
  by (auto simp: apply_min_attached_resize_def split: option.split intro: evolves_resize)

lemma evolves_attach: "evolves s (snd (attach_client tm ok c sz s))"
proof -
  let ?s = "s\<lparr>se_attached_sizes := AList.update c sz (se_attached_sizes s)\<rparr>"
  have "evolves s ?s" by (rule evolves_frame) (simp_all add: same_life_def same_io_def)
  also have "evolves ?s (snd (attach_client tm ok c sz s))"
    unfolding attach_client_def by (rule evolves_min_resize)
  finally show ?thesis .
qed

lemma evolves_resize_tick: "evolves s (resize_tick tm ok s)"
proof -
  let ?s = "s\<lparr>se_resize_pending := False\<rparr>"
  have "evolves s ?s" by (rule evolves_frame) (simp_all add: same_life_def same_io_def)
  then show ?thesis
    by (auto simp: resize_tick_def intro: rtranclp_trans evolves_min_resize)
qed

lemma evolves_attach_bytes: "evolves s (snd (attach_bytes tm seq s))"
  by (auto simp: attach_bytes_def Let_def evolves_rebuild split: option.split sum.split)

lemma evolves_summary: "evolves s (snd (session_summary_of tm s))"
proof -
  obtain l s1 where l: "materialize_terminal_last_line tm s = (l, s1)" by fastforce
  then have "evolves s s1" using evolves_materialize [of s tm] by simp
  also have "evolves s1 (snd (session_summary_of tm s))"
    by (rule evolves_frame)
      (auto simp: session_summary_of_def l Let_def same_life_def same_io_def split: option.split)
  finally show ?thesis .
qed

lemma evolves_flush: "evolves s (flush_dirty_persistence ok s)"
  by (rule evolves_frame) (auto simp: flush_dirty_persistence_def persist_def same_life_def same_io_def)

lemma evolves_capture: "evolves s (snd (record_capture tm bs s))"
proof -
  obtain ring' st f p rs where r: "ring_push (se_ring s) bs = (ring', st)"
      "ingest tm (se_terminal s) bs = (f, p, rs)"
    by (metis prod_cases3 surj_pair)
  let ?s1 = "s\<lparr>se_ring := ring', se_terminal := p\<rparr>"
  have "evolves s ?s1" by (rule evolves_frame) (simp_all add: same_life_def same_io_def)
  also have "evolves ?s1 (send_replies rs ?s1)" by (rule evolves_replies)
  also have "evolves (send_replies rs ?s1) (snd (record_capture tm bs s))"
    by (auto simp: record_capture_def r Let_def rebuild_terminal_projection_from_ring_def
        evolves_rebuild split: option.split)
  finally show ?thesis .
qed

lemma evolves_last_line: "evolves s (s\<lparr>se_last_line := l\<rparr>)"
  by (rule evolves_frame) (simp_all add: same_life_def same_io_def)

lemma evolves_infer:
  assumes "se_exit_code s = None"
  shows "evolves s (record_infer tm from_str now s)"
proof -
  obtain l s1 where l: "(if se_kind s \<noteq> CkUnknown then materialize_terminal_last_line tm s
      else (None, s)) = (l, s1)" by fastforce
  have s1: "evolves s s1 \<and> se_exit_code s1 = None"
    using l evolves_materialize [of s tm] assms
    by (auto split: if_splits dest: materialize_exit_eq)
  show ?thesis
  proof (cases l)
    case None
    have "evolves s1 (set_state now Working None s1)" using s1 by (intro evolves_set_state) simp
    then show ?thesis using s1 None by (auto simp: record_infer_def l intro: rtranclp_trans)
  next
    case (Some line)
    let ?s2 = "s1\<lparr>se_last_line := Some line\<rparr>"
    have "evolves ?s2 (set_state now st (Some line) ?s2)" for st
      using s1 by (intro evolves_set_state) simp
    then have "evolves s1 (set_state now st (Some line) ?s2)" for st
      using evolves_last_line [of s1 "Some line"] by (blast intro: rtranclp_trans)
    then have "evolves s (set_state now st (Some line) ?s2)" "evolves s ?s2" for st
      using s1 evolves_last_line [of s1 "Some line"] by (blast intro: rtranclp_trans)+
    then show ?thesis using Some by (simp add: record_infer_def l Let_def)
  qed
qed

lemma record_capture_exit [simp]: "se_exit_code (snd (record_capture tm bs s)) = se_exit_code s"
  by (simp add: record_capture_def rebuild_terminal_projection_from_ring_def Let_def
      split: prod.split option.split)

lemma record_infer_exit [simp]: "se_exit_code (record_infer tm from_str now s) = se_exit_code s"
proof -
  obtain l s1 where l: "(if se_kind s \<noteq> CkUnknown then materialize_terminal_last_line tm s
      else (None, s)) = (l, s1)" by fastforce
  then have s1: "se_exit_code s1 = se_exit_code s"
    by (auto split: if_splits dest: materialize_exit_eq)
  then show ?thesis
    by (cases l) (simp_all add: record_infer_def l Let_def)
qed

lemma record_output_exit [simp]: "se_exit_code (record_output tm from_str now bs s) = se_exit_code s"
proof -
  obtain q s1 where q: "record_capture tm bs s = (q, s1)" by fastforce
  then show ?thesis using record_capture_exit [of tm bs s] by (simp add: record_output_def Let_def)
qed

lemma evolves_output:
  assumes "se_exit_code s = None"
  shows "evolves s (record_output tm from_str now bs s)"
proof -
  obtain q s1 where q: "record_capture tm bs s = (q, s1)" by fastforce
  have s1: "evolves s s1" "se_exit_code s1 = None"
    using evolves_capture [of s tm bs] record_capture_exit [of tm bs s] q assms by simp_all
  define s2 where "s2 = s1\<lparr>se_last_activity := now\<rparr>"
  define s3 where "s3 = record_infer tm from_str now s2"
  define s4 where "s4 = s3\<lparr>se_events := se_events s3 @ [Output (se_id s3) q bs]\<rparr>"
  have "evolves s1 s2" unfolding s2_def by (rule evolves_frame) (simp_all add: same_life_def same_io_def)
  moreover have "evolves s2 s3" unfolding s3_def using s1 by (intro evolves_infer) (simp add: s2_def)
  moreover have "evolves s3 s4" unfolding s4_def using s1
    by (intro evolves_micro micro_output) (simp add: s3_def s2_def)
  moreover have "evolves s4 (s4\<lparr>se_persist_dirty := True\<rparr>)"
    by (rule evolves_frame) (simp_all add: same_life_def same_io_def)
  moreover have "record_output tm from_str now bs s = s4\<lparr>se_persist_dirty := True\<rparr>"
    using q by (simp add: record_output_def Let_def s4_def s3_def s2_def)
  ultimately show ?thesis using s1(1) by (metis rtranclp_trans)
qed

lemma drain_evolves:
  "se_exit_code s = None \<Longrightarrow> evolves s (snd (drain_pty_output tm from_str now k reads s)) \<and>
    se_exit_code (snd (drain_pty_output tm from_str now k reads s)) = None"
proof (induction tm from_str now k reads s rule: drain_pty_output.induct)
  case (3 tm from_str now k r reads s)
  show ?case
  proof (cases r)
    case (ReadBytes bs)
    then show ?thesis
      using "3.IH"(1) [OF ReadBytes] "3.prems" evolves_output [of s tm from_str now bs]
      by (auto intro: rtranclp_trans)
  next
    case ReadInterrupted
    then show ?thesis using "3.IH"(2) "3.prems" by simp
  qed (use "3.prems" in auto)
qed auto

lemma evolves_take: "se_io_running s \<Longrightarrow> evolves s (take_pending s)"
  by (intro evolves_micro micro_take)

lemma take_pending_exit [simp]: "se_exit_code (take_pending s) = se_exit_code s"
  by (simp add: take_pending_def split: list.split)

lemma evolves_finish: "se_exit_code s = None \<Longrightarrow> evolves s (io_finish ok code s)"
  by (intro evolves_micro micro_finish)

lemma pty_try_send_running [simp]: "se_io_running (snd (pty_try_send bs s)) = se_io_running s"
  by (simp add: pty_try_send_def)

lemma micro_running: "micro s s' \<Longrightarrow> se_exit_code s' = None \<Longrightarrow> se_exit_code s = None \<and>
    se_io_running s' = se_io_running s"
  by (induction rule: micro.induct)
    (auto simp: same_life_def set_state_def Let_def io_finish_def mark_exited_def persist_def
      take_pending_def split: list.split if_splits)

lemma evolves_running: "evolves s s' \<Longrightarrow> se_exit_code s' = None \<Longrightarrow> se_io_running s' = se_io_running s"
  by (induction rule: rtranclp_induct) (auto dest: micro_running)

lemma evolves_write_pending:
  assumes "se_io_running s" and "se_exit_code s = None"
  shows "evolves s (write_pending a s)"
proof (cases "se_pending_write s")
  case None
  then show ?thesis by (simp add: write_pending_def)
next
  case (Some p)
  obtain bs off where p: "se_pending_write s = Some (bs, off)" using Some by (cases p) auto
  show ?thesis
  proof (cases "io_write a")
    case (Wrote n)
    show ?thesis
    proof (cases "0 < min n (length bs - off)")
      case True
      then have "off + min n (length bs - off) \<le> length bs" by linarith
      from evolves_micro [OF micro_write [OF assms(1) p this]] show ?thesis
        using True p Wrote by (simp add: write_pending_def Let_def)
    qed (use p Wrote in \<open>auto simp: write_pending_def Let_def\<close>)
  next
    case WriteRetry
    then show ?thesis by (simp add: write_pending_def p)
  next
    case WriteFailed
    then show ?thesis using assms by (simp add: write_pending_def p evolves_finish)
  qed
qed

text \<open>The I/O thread runs exactly as long as the session has no exit code.\<close>

definition io_alive :: "'m session \<Rightarrow> bool" where
  "io_alive s \<longleftrightarrow> (se_io_running s \<longleftrightarrow> se_exit_code s = None)"

lemma evolves_io:
  assumes "io_alive s"
  shows "evolves s (io_iteration tm from_str a s)"
proof (cases "se_io_running s")
  case False
  then show ?thesis by (simp add: io_iteration_def)
next
  case True
  then have live: "se_exit_code s = None" using assms by (simp add: io_alive_def)
  show ?thesis
  proof (cases "se_io_shutdown s")
    case True
    then show ?thesis using live by (simp add: io_iteration_def evolves_finish)
  next
    case False
    let ?s1 = "take_pending s"
    have s1: "evolves s ?s1" "se_exit_code ?s1 = None"
      using True live by (simp_all add: evolves_take)
    define d where "d = (\<lambda>b. if b then drain_pty_output tm from_str (io_now a) 64 (io_reads a) ?s1
      else (False, ?s1))"
    have d: "evolves ?s1 (snd (d b)) \<and> se_exit_code (snd (d b)) = None" for b
      using drain_evolves [OF s1(2)] s1(2) by (simp add: d_def)
    have fin: "evolves s (io_finish ok code (snd (d b)))" for ok code b
      using s1(1) d [of b] evolves_finish by (blast intro: rtranclp_trans)
    have fin1: "evolves s (io_finish ok code ?s1)" for ok code
      using s1 evolves_finish by (blast intro: rtranclp_trans)
    have wr: "evolves s (write_pending a (snd (d b)))" for b
    proof -
      have "evolves s (snd (d b))" using s1(1) d by (blast intro: rtranclp_trans)
      then show ?thesis
        using evolves_write_pending [of "snd (d b)" a] evolves_running [of s "snd (d b)"] d True
        by (auto intro: rtranclp_trans)
    qed
    have "snd (drain_pty_output tm from_str (io_now a) 64 (io_reads a) ?s1) = snd (d True)"
      by (simp add: d_def)
    moreover have "evolves s (snd (d b))" for b
      using s1(1) d by (blast intro: rtranclp_trans)
    ultimately have dr: "snd (drain_pty_output tm from_str (io_now a) 64 (io_reads a) ?s1) = snd (d True)"
      "\<And>b. evolves s (snd (d b))" by auto
    show ?thesis
    proof (cases "try_child_exit_code (io_child a)")
      case (Some code)
      then show ?thesis
        using True False fin by (simp add: io_iteration_def Let_def dr(1))
    next
      case no_exit: None
      show ?thesis
      proof (cases "io_poll a")
        case (PollReady readable writable)
        obtain b s2 where b: "d readable = (b, s2)" by fastforce
        then have s2: "s2 = snd (d readable)" by simp
        have "io_iteration tm from_str a s = (if b
            then io_finish (io_save_ok a) (reap_exit_code 40 (io_reap a) 0) s2
            else if writable then write_pending a s2 else s2)"
          using True False no_exit PollReady b
          by (simp add: io_iteration_def Let_def d_def split: bool.split)
        then show ?thesis using fin wr dr(2) s2 by auto
      qed (use True False no_exit fin1 s1(1) in \<open>simp_all add: io_iteration_def Let_def\<close>)
    qed
  qed
qed

lemma evolves_step: "io_alive s \<Longrightarrow> evolves s (session_step tm from_str s ev)"
proof (cases ev)
  case (CallUpdateSize c sz)
  show ?thesis
    by (rule evolves_frame) (simp_all add: CallUpdateSize session_step_def update_client_size_def
        schedule_min_attached_resize_def same_life_def same_io_def)
next
  case (CallDetach c)
  show ?thesis
    by (rule evolves_frame) (simp_all add: CallDetach session_step_def detach_client_def
        schedule_min_attached_resize_def same_life_def same_io_def)
next
  case (CallKill child)
  show ?thesis
    by (rule evolves_frame) (simp_all add: CallKill session_step_def session_kill_def
        same_life_def same_io_def)
qed (simp_all add: session_step_def evolves_write_input evolves_attach evolves_attach_bytes
    evolves_summary evolves_agent evolves_resize_tick evolves_flush evolves_io idle_tick_def
    idle_decides_def evolves_set_state)


section \<open>The life of a session\<close>

definition is_exit :: "server_msg \<Rightarrow> bool" where
  "is_exit m = (case m of SessionExited _ _ \<Rightarrow> True | _ \<Rightarrow> False)"

definition is_crash_push :: "push_event \<Rightarrow> bool" where
  "is_crash_push p = (case p of PushSessionCrashed _ _ \<Rightarrow> True | _ \<Rightarrow> False)"

definition life_inv :: "'m session \<Rightarrow> bool" where
  "life_inv s \<longleftrightarrow> io_alive s \<and> (case se_exit_code s of
      None \<Rightarrow> filter is_exit (se_events s) = [] \<and> filter is_crash_push (se_pushes s) = [] \<and>
        True \<notin> set (se_summary_updates s) \<and> (se_working_since s \<noteq> None \<longleftrightarrow> se_state s = Working)
    | Some code \<Rightarrow> se_state s = exit_state code \<and>
        (\<exists>pre. se_events s = pre @ [SessionExited (se_id s) code] \<and> filter is_exit pre = []) \<and>
        (filter is_crash_push (se_pushes s) = [] \<or>
          (filter is_crash_push (se_pushes s) = [PushSessionCrashed (se_id s) (se_name s)] \<and>
            code \<noteq> 0 \<and> se_push s)) \<and>
        (\<exists>pre. se_summary_updates s = pre @ [True] \<and> True \<notin> set pre))"

lemma life_inv_frame: "same_life s s' \<Longrightarrow> life_inv s \<Longrightarrow> life_inv s'"
  by (simp add: life_inv_def io_alive_def same_life_def split: option.splits)

lemma pty_try_send_life: "same_life s (snd (pty_try_send bs s))"
  by (simp add: pty_try_send_def same_life_def)

lemma set_state_same: "se_state s = st \<Longrightarrow> set_state now st l s = s"
  by (simp add: set_state_def)

definition state_pushes :: "nat \<Rightarrow> agent_state \<Rightarrow> 'm session \<Rightarrow> push_event list" where
  "state_pushes now st s =
     (if \<not> se_push s then []
      else if st = AwaitingInput then [PushAwaitingInput (se_id s) (se_name s)]
      else if se_state s = Working \<and> st = Idle \<and> (case se_working_since s of None \<Rightarrow> False
          | Some since \<Rightarrow> BUILD_FINISHED_MIN_WORKING_MS \<le> now - since)
        then [PushBuildFinished (se_id s) (se_name s)] else [])"

lemma set_state_changes:
  "se_state s \<noteq> st \<Longrightarrow> set_state now st l s = s\<lparr>se_state := st,
     se_working_since := (if st = Working then Some now else None),
     se_events := se_events s @ [AgentStateChanged (se_id s) st l],
     se_summary_updates := se_summary_updates s @ [False],
     se_pushes := se_pushes s @ state_pushes now st s\<rparr>"
  by (simp add: set_state_def Let_def state_pushes_def)

lemma state_pushes_crash [simp]: "filter is_crash_push (state_pushes now st s) = []"
  by (simp add: state_pushes_def is_crash_push_def)

lemma set_state_life: "se_exit_code s = None \<Longrightarrow> life_inv s \<Longrightarrow> life_inv (set_state now st l s)"
  by (cases "se_state s = st")
    (simp_all add: set_state_same set_state_changes life_inv_def io_alive_def is_exit_def)

lemma output_life: "se_exit_code s = None \<Longrightarrow> life_inv s \<Longrightarrow>
    life_inv (s\<lparr>se_events := se_events s @ [Output sid seq bs]\<rparr>)"
  by (auto simp: life_inv_def io_alive_def is_exit_def)

lemma take_pending_life: "same_life s (take_pending s)"
  by (simp add: take_pending_def same_life_def split: list.split)

lemma finish_fields:
  assumes "se_exit_code s = None"
  shows "se_exit_code (io_finish ok code s) = Some code" "se_id (io_finish ok code s) = se_id s"
    "se_name (io_finish ok code s) = se_name s" "se_push (io_finish ok code s) = se_push s"
    "se_state (io_finish ok code s) = exit_state code" "\<not> se_io_running (io_finish ok code s)"
    "se_killed (io_finish ok code s) = se_killed s"
    "se_events (io_finish ok code s) = se_events s @ [SessionExited (se_id s) code]"
    "se_summary_updates (io_finish ok code s) = se_summary_updates s @ [True]"
    "se_pushes (io_finish ok code s) = se_pushes s @
      (if code \<noteq> 0 \<and> \<not> se_killed s \<and> se_push s then [PushSessionCrashed (se_id s) (se_name s)] else [])"
    "se_accepted (io_finish ok code s) = se_accepted s"
    "se_pty_written (io_finish ok code s) = se_pty_written s"
    "se_queue (io_finish ok code s) = []" "\<not> se_writer_open (io_finish ok code s)"
  using assms by (simp_all add: io_finish_def mark_exited_def persist_def Let_def)

lemma finish_life: "se_exit_code s = None \<Longrightarrow> life_inv s \<Longrightarrow> life_inv (io_finish ok code s)"
  by (simp add: life_inv_def io_alive_def finish_fields is_crash_push_def)

lemma micro_life: "micro s s' \<Longrightarrow> life_inv s \<Longrightarrow> life_inv s'"
proof (induction rule: micro.induct)
  case (micro_write s bs off n)
  then show ?case by (auto intro!: life_inv_frame [OF _ micro_write.prems] simp: same_life_def)
next
  case (micro_frame s s')
  then show ?case by (simp add: life_inv_frame)
next
  case (micro_send s bs)
  then show ?case by (rule life_inv_frame [OF pty_try_send_life])
next
  case (micro_take s)
  show ?case by (rule life_inv_frame [OF take_pending_life micro_take.prems])
qed (simp_all add: set_state_life output_life finish_life)

lemma evolves_life: "evolves s s' \<Longrightarrow> life_inv s \<Longrightarrow> life_inv s'"
  by (induction rule: rtranclp_induct) (auto intro: micro_life)

text \<open>Once killed while alive, a session sends no crash push.\<close>

definition kill_inv :: "'m session \<Rightarrow> bool" where
  "kill_inv s \<longleftrightarrow> se_killed s \<and> filter is_crash_push (se_pushes s) = []"

lemma kill_inv_frame: "same_life s s' \<Longrightarrow> kill_inv s \<Longrightarrow> kill_inv s'"
  by (simp add: kill_inv_def same_life_def)

lemma set_state_kill: "kill_inv s \<Longrightarrow> kill_inv (set_state now st l s)"
  by (cases "se_state s = st") (simp_all add: set_state_same set_state_changes kill_inv_def)

lemma finish_kill: "se_exit_code s = None \<Longrightarrow> kill_inv s \<Longrightarrow> kill_inv (io_finish ok code s)"
  by (simp add: kill_inv_def finish_fields)

lemma micro_kill: "micro s s' \<Longrightarrow> kill_inv s \<Longrightarrow> kill_inv s'"
proof (induction rule: micro.induct)
  case (micro_write s bs off n)
  then show ?case by (auto intro!: kill_inv_frame [OF _ micro_write.prems] simp: same_life_def)
next
  case (micro_output s seq bs)
  then show ?case by (simp add: kill_inv_def)
next
  case (micro_frame s s')
  then show ?case by (simp add: kill_inv_frame)
next
  case (micro_send s bs)
  then show ?case by (rule kill_inv_frame [OF pty_try_send_life])
next
  case (micro_take s)
  show ?case by (rule kill_inv_frame [OF take_pending_life micro_take.prems])
qed (simp_all add: set_state_kill finish_kill)

lemma evolves_kill: "evolves s s' \<Longrightarrow> kill_inv s \<Longrightarrow> kill_inv s'"
  by (induction rule: rtranclp_induct) (auto intro: micro_kill)

section \<open>The bytes on their way to the PTY\<close>

definition unsent :: "'m session \<Rightarrow> bytes" where
  "unsent s = (case se_pending_write s of None \<Rightarrow> [] | Some (bs, off) \<Rightarrow> drop off bs) @ concat (se_queue s)"

definition io_inv :: "'m session \<Rightarrow> bool" where
  "io_inv s \<longleftrightarrow> length (se_queue s) \<le> PTY_WRITE_QUEUE_CAPACITY \<and>
     (se_writer_open s \<longleftrightarrow> se_io_running s) \<and>
     (if se_io_running s then se_accepted s = se_pty_written s @ unsent s
      else prefix (se_pty_written s) (se_accepted s))"

lemma io_inv_frame: "same_life s s' \<Longrightarrow> same_io s s' \<Longrightarrow> io_inv s \<Longrightarrow> io_inv s'"
  by (simp add: io_inv_def same_life_def same_io_def unsent_def)

lemma io_inv_send: "io_inv s \<Longrightarrow> io_inv (snd (pty_try_send bs s))"
  by (auto simp: io_inv_def pty_try_send_def unsent_def PTY_WRITE_QUEUE_CAPACITY_def)

lemma io_inv_take: "se_io_running s \<Longrightarrow> io_inv s \<Longrightarrow> io_inv (take_pending s)"
  by (cases "se_pending_write s"; cases "se_queue s")
    (simp_all add: io_inv_def take_pending_def unsent_def)

lemma io_inv_write:
  assumes "se_io_running s" and "se_pending_write s = Some (bs, off)" and "off + n \<le> length bs"
    and "io_inv s"
  shows "io_inv (s\<lparr>se_pty_written := se_pty_written s @ take n (drop off bs),
      se_pending_write := (if off + n = length bs then None else Some (bs, off + n))\<rparr>)"
proof -
  have split: "take n (drop off bs) @ drop (off + n) bs = drop off bs"
    by (metis add.commute append_take_drop_id drop_drop)
  moreover have "off + n = length bs \<Longrightarrow> take n (drop off bs) = drop off bs"
    by auto
  ultimately show ?thesis
    using assms by (auto simp: io_inv_def unsent_def)
qed

lemma io_inv_finish:
  assumes "se_exit_code s = None" and "io_inv s"
  shows "io_inv (io_finish ok code s)"
proof -
  have "prefix (se_pty_written s) (se_accepted s)"
    using assms(2) by (auto simp: io_inv_def split: if_splits)
  then show ?thesis
    by (simp add: io_inv_def finish_fields [OF assms(1)] PTY_WRITE_QUEUE_CAPACITY_def)
qed

lemma micro_io: "micro s s' \<Longrightarrow> io_inv s \<Longrightarrow> io_inv s'"
proof (induction rule: micro.induct)
  case (micro_state s now st l)
  then show ?case
    by (cases "se_state s = st") (simp_all add: set_state_same set_state_changes io_inv_def unsent_def)
next
  case (micro_output s seq bs)
  then show ?case by (simp add: io_inv_def unsent_def)
next
  case (micro_write s bs off n)
  then show ?case by (intro io_inv_write)
next
  case (micro_frame s s')
  then show ?case by (simp add: io_inv_frame)
qed (simp_all add: io_inv_send io_inv_take io_inv_finish)

lemma evolves_io_inv: "evolves s s' \<Longrightarrow> io_inv s \<Longrightarrow> io_inv s'"
  by (induction rule: rtranclp_induct) (auto intro: micro_io)

section \<open>Runs\<close>

definition session_inv :: "'m session \<Rightarrow> bool" where
  "session_inv s \<longleftrightarrow> life_inv s \<and> io_inv s"

interpretation session_machine: inv_machine "session_step tm from_str" session_inv
proof unfold_locales
  fix s :: "'a session" and ev
  assume inv: "session_inv s"
  then have "evolves s (session_step tm from_str s ev)"
    by (intro evolves_step) (simp add: session_inv_def life_inv_def)
  with inv show "session_inv (session_step tm from_str s ev)"
    by (auto simp: session_inv_def intro: evolves_life evolves_io_inv)
qed

lemma spawn_inv: "session_spawn tm fault sid st now name command cwd env sz p q = Inr s \<Longrightarrow> session_inv s"
  by (auto simp: session_spawn_def session_inv_def life_inv_def io_alive_def io_inv_def unsent_def
      split: if_splits option.splits)

lemma run_evolves: "session_inv s \<Longrightarrow> evolves s (session_run tm from_str s evs)"
proof (induction evs arbitrary: s)
  case Nil
  then show ?case by simp
next
  case (Cons ev evs)
  have "evolves s (session_step tm from_str s ev)"
    using Cons.prems by (intro evolves_step) (simp add: session_inv_def life_inv_def)
  also have "evolves \<dots> (session_run tm from_str (session_step tm from_str s ev) evs)"
    using Cons.prems by (intro Cons.IH session_machine.step_inv)
  finally show ?case by simp
qed

end
