(* ===== verification/SessionOut.thy ===== *)
theory SessionOut
  imports SessionRun
begin

text \<open>
  What a session's clients see of the PTY: the ring buffer and the broadcast \<open>Output\<close> messages
  hold the same bytes, in order, whatever the terminal projection does; what a client that
  attaches is given; and what the I/O thread, the resize thread and the notifications do.
\<close>

section \<open>The output in a log of messages\<close>

definition output_of :: "server_msg \<Rightarrow> bytes" where
  "output_of m = (case m of Output _ _ bs \<Rightarrow> bs | _ \<Rightarrow> [])"

definition outputs :: "server_msg list \<Rightarrow> bytes" where
  "outputs ms = concat (map output_of ms)"

definition is_output :: "server_msg \<Rightarrow> bool" where
  "is_output m = (case m of Output _ _ _ \<Rightarrow> True | _ \<Rightarrow> False)"

text \<open>Each message carries the position after its last byte.\<close>

fun outputs_ok :: "session_id \<Rightarrow> nat \<Rightarrow> server_msg list \<Rightarrow> bool" where
  "outputs_ok sid n [] = True"
| "outputs_ok sid n (Output i q bs # ms) =
     (i = sid \<and> q = n + length bs \<and> outputs_ok sid (n + length bs) ms)"
| "outputs_ok sid n (m # ms) = outputs_ok sid n ms"

lemma outputs_append [simp]: "outputs (a @ b) = outputs a @ outputs b"
  by (simp add: outputs_def)

lemma outputs_Nil [simp]: "outputs [] = []"
  by (simp add: outputs_def)

lemma outputs_Cons [simp]: "outputs (m # ms) = output_of m @ outputs ms"
  by (simp add: outputs_def)

lemma not_output: "\<not> is_output m \<Longrightarrow> output_of m = [] \<and> outputs_ok sid n (m # ms) = outputs_ok sid n ms"
  by (cases m) (simp_all add: is_output_def output_of_def)

lemma outputs_quiet: "filter is_output ms = [] \<Longrightarrow> outputs ms = [] \<and> outputs_ok sid n ms"
  by (induction ms) (auto simp: not_output split: if_splits)

lemma outputs_ok_append:
  "outputs_ok sid n (a @ b) \<longleftrightarrow> outputs_ok sid n a \<and> outputs_ok sid (n + length (outputs a)) b"
  by (induction sid n a rule: outputs_ok.induct) (simp_all add: output_of_def add.assoc)

section \<open>Operations that leave the output alone\<close>

definition quiet :: "'m session \<Rightarrow> 'm session \<Rightarrow> bool" where
  "quiet s s' \<longleftrightarrow> se_ring s' = se_ring s \<and> se_id s' = se_id s \<and>
     (\<exists>es. se_events s' = se_events s @ es \<and> filter is_output es = [])"

lemma quiet_refl [simp, intro]: "quiet s s"
  by (auto simp: quiet_def)

lemma quiet_trans: "quiet s s' \<Longrightarrow> quiet s' s'' \<Longrightarrow> quiet s s''"
  by (fastforce simp: quiet_def)

lemma quiet_same: "se_ring s' = se_ring s \<Longrightarrow> se_id s' = se_id s \<Longrightarrow> se_events s' = se_events s \<Longrightarrow>
    quiet s s'"
  by (simp add: quiet_def)

lemma quiet_send: "quiet s (snd (pty_try_send bs s))"
  by (rule quiet_same) (simp_all add: pty_try_send_def)

lemma quiet_replies: "quiet s (send_replies rs s)"
  unfolding send_replies_def
  by (induction rs arbitrary: s) (auto intro: quiet_trans quiet_send)

lemma quiet_rebuild: "quiet s (rebuild_terminal_projection tm sb s)"
proof -
  obtain r p rs where r: "rebuild tm (se_terminal s) sb = (r, p, rs)" by (metis prod_cases3)
  have "quiet s (s\<lparr>se_terminal := p\<rparr>)" by (rule quiet_same) simp_all
  then show ?thesis
    using quiet_replies by (auto simp: rebuild_terminal_projection_def r intro: quiet_trans)
qed

lemma quiet_materialize: "quiet s (snd (materialize_terminal_last_line tm s))"
  by (rule quiet_same) (simp_all add: materialize_terminal_last_line_def split: prod.split sum.split)

lemma quiet_set_state: "quiet s (set_state now st l s)"
  by (cases "se_state s = st")
    (simp_all add: set_state_same set_state_changes quiet_def is_output_def)

lemma quiet_write_input: "quiet s (snd (write_input now bs s))"
proof -
  obtain r s1 where r: "pty_try_send bs s = (r, s1)" by fastforce
  then have "quiet s s1" using quiet_send [of s bs] by simp
  then show ?thesis
    using r by (cases r) (auto simp: write_input_def intro: quiet_trans quiet_set_state)
qed

lemma quiet_agent: "quiet s (snd (apply_agent_state_event now src st l s))"
proof -
  define s1 where "s1 = (case map_option (take LAST_LINE_CHARS) l of None \<Rightarrow> s
    | Some l \<Rightarrow> s\<lparr>se_last_line := Some l,
        se_terminal := cache_last_non_empty_line (se_terminal s) l LAST_LINE_CHARS\<rparr>)"
  define s2 where "s2 = set_state now st (map_option (take LAST_LINE_CHARS) l) s1"
  have "quiet s s1" by (rule quiet_same) (auto simp: s1_def split: option.split)
  moreover have "quiet s1 s2" unfolding s2_def by (rule quiet_set_state)
  moreover have "quiet s2 (s2\<lparr>se_persist_dirty := True\<rparr>)" by (rule quiet_same) simp_all
  ultimately have "quiet s (s2\<lparr>se_persist_dirty := True\<rparr>)" by (blast intro: quiet_trans)
  then show ?thesis by (simp add: apply_agent_state_event_def Let_def s1_def s2_def)
qed

lemma quiet_resize: "quiet s (snd (session_resize tm ok sz s))"
proof -
  obtain f p where f: "projection_resize tm (se_terminal s) sz = (f, p)" by fastforce
  have "quiet s (s\<lparr>se_pty_size := sz, se_terminal := p\<rparr>)" by (rule quiet_same) simp_all
  then show ?thesis
    using quiet_rebuild f
    by (auto simp: session_resize_def rebuild_terminal_projection_from_ring_def Let_def
        split: option.split intro: quiet_trans)
qed

lemma quiet_min_resize: "quiet s (snd (apply_min_attached_resize tm ok s))"
  by (auto simp: apply_min_attached_resize_def split: option.split intro: quiet_resize)

lemma quiet_attach: "quiet s (snd (attach_client tm ok c sz s))"
  unfolding attach_client_def
  by (rule quiet_trans [OF _ quiet_min_resize]) (rule quiet_same, simp_all)

lemma quiet_resize_tick: "quiet s (resize_tick tm ok s)"
proof -
  have "quiet s (s\<lparr>se_resize_pending := False\<rparr>)" by (rule quiet_same) simp_all
  then show ?thesis
    by (auto simp: resize_tick_def intro: quiet_trans quiet_min_resize)
qed

lemma quiet_attach_bytes: "quiet s (snd (attach_bytes tm seq s))"
  by (auto simp: attach_bytes_def Let_def quiet_rebuild split: option.split sum.split)

lemma quiet_summary: "quiet s (snd (session_summary_of tm s))"
proof -
  obtain l s1 where l: "materialize_terminal_last_line tm s = (l, s1)" by fastforce
  then have "quiet s s1" using quiet_materialize [of s tm] by simp
  moreover have "quiet s1 (snd (session_summary_of tm s))"
    by (rule quiet_same) (auto simp: session_summary_of_def l Let_def split: option.split)
  ultimately show ?thesis by (rule quiet_trans)
qed

lemma quiet_flush: "quiet s (flush_dirty_persistence ok s)"
  by (rule quiet_same) (auto simp: flush_dirty_persistence_def persist_def)

lemma quiet_take: "quiet s (take_pending s)"
  by (rule quiet_same) (simp_all add: take_pending_def split: list.split)

lemma quiet_finish: "quiet s (io_finish ok code s)"
  by (cases "se_exit_code s") (auto simp: quiet_def io_finish_def mark_exited_def persist_def
      Let_def is_output_def)

lemma quiet_write_pending: "quiet s (write_pending a s)"
  by (auto simp: write_pending_def Let_def quiet_finish quiet_same
      split: option.split prod.split write_result.split)

lemma quiet_infer: "quiet s (record_infer tm from_str now s)"
proof -
  obtain l s1 where l: "(if se_kind s \<noteq> CkUnknown then materialize_terminal_last_line tm s
      else (None, s)) = (l, s1)" by fastforce
  then have s1: "quiet s s1" using quiet_materialize [of s tm] by (auto split: if_splits)
  have "quiet s1 (s1\<lparr>se_last_line := x\<rparr>)" for x by (rule quiet_same) simp_all
  then show ?thesis
    using s1 by (cases l) (auto simp: record_infer_def l Let_def
        intro: quiet_trans quiet_set_state)
qed

section \<open>Output\<close>

lemma capture_ring:
  assumes "record_capture tm bs s = (seq, s1)"
  shows "se_ring s1 = fst (ring_push (se_ring s) bs) \<and> se_id s1 = se_id s \<and> se_events s1 = se_events s \<and>
    seq = sat_add64 (next_seq (se_ring s)) (length bs)"
proof -
  obtain ring' st f p rs where r: "ring_push (se_ring s) bs = (ring', st)"
      "ingest tm (se_terminal s) bs = (f, p, rs)"
    by (metis prod_cases3 surj_pair)
  let ?s = "s\<lparr>se_ring := ring', se_terminal := p\<rparr>"
  have ev: "se_events (send_replies rs t) = se_events t" for rs and t :: "'a session"
    unfolding send_replies_def by (induction rs arbitrary: t) (simp_all add: pty_try_send_def)
  have eb: "se_events (rebuild_terminal_projection tm sb t) = se_events t" for sb t
    by (simp add: rebuild_terminal_projection_def ev split: prod.split)
  have "quiet ?s (send_replies rs ?s)" by (rule quiet_replies)
  moreover have "quiet (send_replies rs ?s) s1"
    using assms by (auto simp: record_capture_def r Let_def
        rebuild_terminal_projection_from_ring_def quiet_rebuild split: option.splits if_splits)
  moreover have "se_events s1 = se_events s"
    using assms by (auto simp: record_capture_def r Let_def ev eb
        rebuild_terminal_projection_from_ring_def split: option.splits if_splits)
  ultimately show ?thesis
    using assms r ring_push_start [of "se_ring s" bs]
    by (auto simp: quiet_def record_capture_def Let_def split: option.splits)
qed

lemma output_step:
  "\<exists>es q. se_ring (record_output tm from_str now bs s) = fst (ring_push (se_ring s) bs) \<and>
    se_id (record_output tm from_str now bs s) = se_id s \<and>
    se_events (record_output tm from_str now bs s) = se_events s @ es @ [Output (se_id s) q bs] \<and>
    filter is_output es = [] \<and> q = sat_add64 (next_seq (se_ring s)) (length bs)"
proof -
  obtain q s1 where q: "record_capture tm bs s = (q, s1)" by fastforce
  note cap = capture_ring [OF q]
  define s2 where "s2 = s1\<lparr>se_last_activity := now\<rparr>"
  define s3 where "s3 = record_infer tm from_str now s2"
  have "quiet s2 s3" unfolding s3_def by (rule quiet_infer)
  moreover have "se_ring s2 = se_ring s1" "se_id s2 = se_id s1" "se_events s2 = se_events s1"
    by (simp_all add: s2_def)
  moreover have "record_output tm from_str now bs s =
      s3\<lparr>se_events := se_events s3 @ [Output (se_id s3) q bs], se_persist_dirty := True\<rparr>"
    using q by (simp add: record_output_def Let_def s3_def s2_def)
  ultimately show ?thesis using cap by (auto simp: quiet_def)
qed

text \<open>The ring stands for what was broadcast, as long as the positions fit in 64 bits.\<close>

definition capture_inv :: "'m session \<Rightarrow> bool" where
  "capture_inv s \<longleftrightarrow> capacity (se_ring s) = RING_CAPACITY \<and>
     (length (outputs (se_events s)) \<le> u64_max \<longrightarrow>
        ring_models (se_ring s) (outputs (se_events s)) \<and> outputs_ok (se_id s) 0 (se_events s))"

lemma capture_quiet: "quiet s s' \<Longrightarrow> capture_inv s \<Longrightarrow> capture_inv s'"
  by (auto simp: quiet_def capture_inv_def outputs_ok_append outputs_quiet)

lemma capture_output: "capture_inv s \<Longrightarrow> capture_inv (record_output tm from_str now bs s)"
proof -
  assume inv: "capture_inv s"
  obtain es q where o: "se_ring (record_output tm from_str now bs s) = fst (ring_push (se_ring s) bs)"
    "se_id (record_output tm from_str now bs s) = se_id s"
    "se_events (record_output tm from_str now bs s) = se_events s @ es @ [Output (se_id s) q bs]"
    "filter is_output es = []" "q = sat_add64 (next_seq (se_ring s)) (length bs)"
    using output_step [of tm from_str now bs s] by blast
  have es: "outputs es = []" "outputs_ok sid n es" for sid n
    using outputs_quiet [OF o(4)] by auto
  have "ring_models (fst (ring_push (se_ring s) bs)) (outputs (se_events s) @ bs) \<and>
      q = length (outputs (se_events s)) + length bs \<and> outputs_ok (se_id s) 0 (se_events s)"
    if "length (outputs (se_events s)) + length bs \<le> u64_max"
  proof -
    have m: "ring_models (se_ring s) (outputs (se_events s))" "outputs_ok (se_id s) 0 (se_events s)"
      using inv that by (auto simp: capture_inv_def)
    then have "next_seq (se_ring s) = length (outputs (se_events s))" by (simp add: ring_models_def)
    then show ?thesis
      using m that o(5) by (simp add: ring_log.log_append sat_add64_exact)
  qed
  then show ?thesis
    using inv by (auto simp: capture_inv_def o es outputs_ok_append output_of_def)
qed

lemma capture_drain: "capture_inv s \<Longrightarrow> capture_inv (snd (drain_pty_output tm from_str now k reads s))"
proof (induction tm from_str now k reads s rule: drain_pty_output.induct)
  case (3 tm from_str now k r reads s)
  then show ?case by (cases r) (simp_all add: capture_output)
qed auto

lemma capture_io: "capture_inv s \<Longrightarrow> capture_inv (io_iteration tm from_str a s)"
proof -
  assume "capture_inv s"
  then have s1: "capture_inv (take_pending s)" by (rule capture_quiet [OF quiet_take])
  define d where "d = (\<lambda>b. if b then drain_pty_output tm from_str (io_now a) 64 (io_reads a) (take_pending s)
      else (False, take_pending s))"
  have d: "capture_inv (snd (d b))" for b
    using capture_drain [OF s1] s1 by (simp add: d_def)
  have fin: "capture_inv (io_finish ok code t)" if "capture_inv t" for ok code and t :: "'a session"
    using that by (rule capture_quiet [OF quiet_finish])
  show ?thesis
  proof (cases "se_io_running s \<and> \<not> se_io_shutdown s \<and> try_child_exit_code (io_child a) = None")
    case False
    then show ?thesis
      using \<open>capture_inv s\<close> fin capture_drain [OF s1]
      by (auto simp: io_iteration_def Let_def split: option.split)
  next
    case True
    show ?thesis
    proof (cases "io_poll a")
      case (PollReady readable writable)
      obtain b s2 where b: "d readable = (b, s2)" by fastforce
      then have "capture_inv s2" using d [of readable] by simp
      then have "capture_inv (write_pending a s2)" "capture_inv s2"
        by (auto intro: capture_quiet [OF quiet_write_pending])
      moreover have "io_iteration tm from_str a s = (if b
          then io_finish (io_save_ok a) (reap_exit_code 40 (io_reap a) 0) s2
          else if writable then write_pending a s2 else s2)"
        using True PollReady b by (simp add: io_iteration_def Let_def d_def split: bool.split)
      ultimately show ?thesis using fin by simp
    qed (use True fin s1 in \<open>simp_all add: io_iteration_def Let_def\<close>)
  qed
qed

lemma capture_step: "capture_inv s \<Longrightarrow> capture_inv (session_step tm from_str s ev)"
proof (cases ev)
  case (TickIo a)
  assume "capture_inv s"
  then show ?thesis by (simp add: TickIo session_step_def capture_io)
next
  case (CallUpdateSize c sz)
  assume "capture_inv s"
  moreover have "quiet s (update_client_size c sz s)"
    by (rule quiet_same) (simp_all add: update_client_size_def schedule_min_attached_resize_def)
  ultimately show ?thesis by (simp add: CallUpdateSize session_step_def capture_quiet)
next
  case (CallDetach c)
  assume "capture_inv s"
  moreover have "quiet s (detach_client c s)"
    by (rule quiet_same) (simp_all add: detach_client_def schedule_min_attached_resize_def)
  ultimately show ?thesis by (simp add: CallDetach session_step_def capture_quiet)
next
  case (CallKill child)
  assume "capture_inv s"
  moreover have "quiet s (snd (session_kill child s))"
    by (rule quiet_same) (simp_all add: session_kill_def)
  ultimately show ?thesis by (simp add: CallKill session_step_def capture_quiet)
next
  case (TickIdle now)
  assume "capture_inv s"
  then show ?thesis
    by (simp add: TickIdle session_step_def idle_tick_def capture_quiet [OF quiet_set_state])
qed (simp_all add: session_step_def capture_quiet [OF quiet_write_input]
    capture_quiet [OF quiet_attach] capture_quiet [OF quiet_attach_bytes]
    capture_quiet [OF quiet_summary] capture_quiet [OF quiet_agent]
    capture_quiet [OF quiet_resize_tick] capture_quiet [OF quiet_flush])

interpretation capture: inv_machine "session_step tm from_str" capture_inv
  by unfold_locales (rule capture_step)

lemma spawn_capture: "session_spawn tm fault sid st now name command cwd env sz p q = Inr s \<Longrightarrow> capture_inv s"
  by (auto simp: session_spawn_def capture_inv_def ring_new_models ring_new_def split: if_splits option.splits)
    (metis ring_new_def ring_new_models)


section \<open>What an attaching client is given\<close>

lemma attach_bytes_result:
  assumes "ring_models (se_ring s) h"
  shows "(case last_seen of None \<Rightarrow> False
      | Some seq \<Rightarrow> length h - capacity (se_ring s) \<le> seq \<and> seq \<le> length h) \<Longrightarrow>
      fst (attach_bytes tm last_seen s) = (length h, drop (the last_seen) h)"
    and "fst (fst (attach_bytes tm last_seen s)) = length h"
proof -
  have len: "length h \<le> u64_max" and end_pos: "end_seq (se_ring s) = length h"
    using assms by (auto simp: ring_models_def end_seq_def)
  note replay = replay_from_models [OF assms]
  show "fst (attach_bytes tm last_seen s) = (length h, drop (the last_seen) h)"
    if "case last_seen of None \<Rightarrow> False
      | Some seq \<Rightarrow> length h - capacity (se_ring s) \<le> seq \<and> seq \<le> length h"
    using that len by (auto simp: attach_bytes_def replay sat_add64_exact split: option.splits)
  show "fst (fst (attach_bytes tm last_seen s)) = length h"
    using len by (auto simp: attach_bytes_def replay sat_add64_exact end_pos Let_def
        split: option.split sum.split)
qed

section \<open>Sizes\<close>

lemma min_client_size_bounds:
  "min_client_size szs = Some z \<Longrightarrow> (\<forall>x \<in> set szs. cols z \<le> cols x \<and> rows z \<le> rows x) \<and>
    (\<exists>x \<in> set szs. cols z = cols x) \<and> (\<exists>x \<in> set szs. rows z = rows x)"
proof -
  have "(\<forall>x \<in> set (y # ys). cols (foldl size_min y ys) \<le> cols x \<and> rows (foldl size_min y ys) \<le> rows x) \<and>
      (\<exists>x \<in> set (y # ys). cols (foldl size_min y ys) = cols x) \<and>
      (\<exists>x \<in> set (y # ys). rows (foldl size_min y ys) = rows x)" for y ys
  proof (induction ys arbitrary: y)
    case Nil
    then show ?case by simp
  next
    case (Cons a ys)
    from Cons.IH [of "size_min y a"] show ?case
      by (auto simp: size_min_def min_def split: if_splits)
  qed
  then show "min_client_size szs = Some z \<Longrightarrow> ?thesis"
    by (auto simp: min_client_size_def split: list.splits)
qed

lemma send_replies_sizes [simp]: "se_pty_size (send_replies rs s) = se_pty_size s"
  "se_attached_sizes (send_replies rs s) = se_attached_sizes s"
  unfolding send_replies_def by (induction rs arbitrary: s) (simp_all add: pty_try_send_def)

lemma min_resize_size:
  "min_client_size (map snd (se_attached_sizes s)) = Some z \<Longrightarrow>
    se_pty_size (snd (apply_min_attached_resize tm True s)) = z \<and>
    se_attached_sizes (snd (apply_min_attached_resize tm True s)) = se_attached_sizes s"
  by (auto simp: apply_min_attached_resize_def session_resize_def Let_def
      rebuild_terminal_projection_from_ring_def rebuild_terminal_projection_def
      split: prod.split option.split)

section \<open>An instance of the parser\<close>

text \<open>Used by the witnesses only.\<close>

definition demo_parser :: "unit parser" where
  "demo_parser = \<lparr>tm_new = (\<lambda>_. ()), tm_advance = (\<lambda>m bs. (Some (), [])),
     tm_resize = (\<lambda>m sz. Some ()), tm_last_line = (\<lambda>m n. Some None), tm_render = (\<lambda>m. Some [])\<rparr>"

definition demo_spawn :: "unit session" where
  "demo_spawn = projr (session_spawn demo_parser None (SessionId 1) (lit ''1'') 5 (lit ''cedar'')
     [lit ''sh''] (lit ''/'') Map.empty default_client_size True True)"

lemma demo_spawn: "session_spawn demo_parser None (SessionId 1) (lit ''1'') 5 (lit ''cedar'')
     [lit ''sh''] (lit ''/'') Map.empty default_client_size True True = Inr demo_spawn"
  by (simp add: demo_spawn_def session_spawn_def)

section \<open>Properties\<close>



text \<open>[killed_session_no_crash_push].  A session that is killed while it is alive never sends a
  crash notification, however its child then exits.\<close>
theorem killed_session_no_crash_push:
  assumes "session_spawn tm fault sid st now name command cwd env sz p q = Inr s0"
    and "se_exit_code (session_run tm from_str s0 evs) = None"
  shows "filter is_crash_push
      (se_pushes (session_run tm from_str s0 (evs @ CallKill child # evs'))) = []"
proof -
  let ?s = "session_run tm from_str s0 evs"
  let ?k = "session_step tm from_str ?s (CallKill child)"
  have inv: "session_inv ?s"
    by (rule session_machine.run_inv [OF spawn_inv [OF assms(1)]])
  then have "filter is_crash_push (se_pushes ?s) = []"
    using assms(2) by (simp add: session_inv_def life_inv_def)
  then have "kill_inv ?k"
    by (simp add: kill_inv_def session_step_def session_kill_def)
  moreover have "evolves ?k (session_run tm from_str ?k evs')"
    by (intro run_evolves session_machine.step_inv inv)
  ultimately have "kill_inv (session_run tm from_str ?k evs')"
    by (rule evolves_kill [rotated])
  then show ?thesis by (simp add: kill_inv_def)
qed

theorem killed_session_no_crash_push_witness:
  "filter is_crash_push (se_pushes (session_run demo_parser (\<lambda>_. None) demo_spawn
    ([] @ CallKill ChildStatusError # [TickIo \<lparr>io_now = 9, io_child = WaitExited 1, io_reap = [WaitExited 1],
      io_poll = PollTimeout, io_reads = [], io_write = WriteRetry, io_save_ok = True\<rparr>]))) = []"
  by (rule killed_session_no_crash_push [OF demo_spawn])
    (simp add: demo_spawn_def session_spawn_def)

text \<open>C1 [session_output_captured].  The bytes a session broadcast are the bytes its ring stands
  for, each message carrying the position after its last byte, whatever the terminal parser
  does: parser panics and rebuilds never lose, repeat or reorder output.  A client that
  reconnects within the window of 256 KiB is given exactly what it missed, and every attach
  reports the current end of the output.\<close>
theorem session_output_captured:
  assumes "session_spawn tm fault sid st now name command cwd env sz p q = Inr s0"
    and "s = session_run tm from_str s0 evs" and "h = outputs (se_events s)"
    and "length h \<le> u64_max"
  shows "ring_models (se_ring s) h \<and> outputs_ok (se_id s) 0 (se_events s) \<and>
    fst (fst (attach_bytes tm last_seen s)) = length h \<and>
    (\<forall>seq. last_seen = Some seq \<and> length h - RING_CAPACITY \<le> seq \<and> seq \<le> length h \<longrightarrow>
      fst (attach_bytes tm last_seen s) = (length h, drop seq h))"
proof -
  have "capture_inv s"
    unfolding assms(2) by (rule capture.run_inv [OF spawn_capture [OF assms(1)]])
  then have m: "ring_models (se_ring s) h" "outputs_ok (se_id s) 0 (se_events s)"
    and c: "capacity (se_ring s) = RING_CAPACITY"
    using assms(3,4) by (simp_all add: capture_inv_def)
  show ?thesis
    using attach_bytes_result [OF m(1), where last_seen = last_seen and tm = tm] m c by auto
qed

theorem session_output_captured_witness:
  "ring_models (se_ring (session_run demo_parser (\<lambda>_. None) demo_spawn [])) [] \<and>
    fst (attach_bytes demo_parser (Some 0) (session_run demo_parser (\<lambda>_. None) demo_spawn [])) = (0, [])"
  using session_output_captured [OF demo_spawn refl refl, where from_str = "\<lambda>_. None" and evs = "[]"
      and last_seen = "Some 0"]
  by (simp add: demo_spawn_def session_spawn_def)

text \<open>C30 [session_input_in_order].  Input and terminal replies the session accepted reach the PTY in
  order, without loss or repetition: what was written is followed by what is in hand and what
  is queued; after the exit what was written is a prefix.  The queue never holds more than 64
  entries, a full queue is reported as backpressure, and a closed one only after the exit.\<close>
theorem session_input_in_order:
  assumes "session_spawn tm fault sid st now name command cwd env sz p q = Inr s0"
    and "s = session_run tm from_str s0 evs"
  shows "(if se_exit_code s = None then se_accepted s = se_pty_written s @ unsent s
      else prefix (se_pty_written s) (se_accepted s)) \<and>
    length (se_queue s) \<le> 64 \<and>
    (case write_input t bs s of
       (None, s') \<Rightarrow> se_accepted s' = se_accepted s @ bs
     | (Some Backpressure, s') \<Rightarrow> s' = s \<and> length (se_queue s) = 64
     | (Some Closed, s') \<Rightarrow> s' = s \<and> se_exit_code s \<noteq> None)"
proof -
  have inv: "session_inv s"
    unfolding assms(2) by (rule session_machine.run_inv [OF spawn_inv [OF assms(1)]])
  then have io: "io_inv s" and alive: "se_io_running s \<longleftrightarrow> se_exit_code s = None"
    by (auto simp: session_inv_def life_inv_def io_alive_def)
  have acc: "se_accepted (set_state t st l s') = se_accepted s'" for st l and s' :: "'a session"
    by (cases "se_state s' = st") (simp_all add: set_state_same set_state_changes)
  have "case write_input t bs s of
       (None, s') \<Rightarrow> se_accepted s' = se_accepted s @ bs
     | (Some Backpressure, s') \<Rightarrow> s' = s \<and> length (se_queue s) = 64
     | (Some Closed, s') \<Rightarrow> s' = s \<and> se_exit_code s \<noteq> None"
    using io alive by (auto simp: write_input_def pty_try_send_def io_inv_def acc
        PTY_WRITE_QUEUE_CAPACITY_def)
  then show ?thesis
    using io alive by (auto simp: io_inv_def PTY_WRITE_QUEUE_CAPACITY_def)
qed

theorem session_input_in_order_witness:
  "length (se_queue (session_run demo_parser (\<lambda>_. None) demo_spawn [CallInput 9 [1, 2]])) \<le> 64"
  using session_input_in_order [OF demo_spawn refl, where from_str = "\<lambda>_. None" and evs = "[CallInput 9 [1, 2]]"]
  by blast

text \<open>[pty_size_is_minimum].  After a client attaches with a resize the PTY accepts, and after
  every debounced resize of a live session, the PTY has the smallest width and the smallest
  height any attached client asked for, so no client is shown more than it can display.\<close>
theorem pty_size_is_minimum:
  assumes "s' = snd (attach_client tm True client sz s) \<or>
    (s' = resize_tick tm True s \<and> se_resize_pending s \<and> se_exit_code s = None \<and> se_attached_sizes s \<noteq> [])"
  shows "(\<forall>(c, x) \<in> set (se_attached_sizes s'). cols (se_pty_size s') \<le> cols x \<and> rows (se_pty_size s') \<le> rows x) \<and>
    (\<exists>(c, x) \<in> set (se_attached_sizes s'). cols (se_pty_size s') = cols x) \<and>
    (\<exists>(c, x) \<in> set (se_attached_sizes s'). rows (se_pty_size s') = rows x) \<and>
    (s' = snd (attach_client tm True client sz s) \<longrightarrow> map_of (se_attached_sizes s') client = Some sz)"
proof -
  define t where "t = (if s' = snd (attach_client tm True client sz s)
    then s\<lparr>se_attached_sizes := AList.update client sz (se_attached_sizes s)\<rparr>
    else s\<lparr>se_resize_pending := False\<rparr>)"
  have s': "s' = snd (apply_min_attached_resize tm True t)"
    using assms by (auto simp: t_def attach_client_def resize_tick_def)
  have "se_attached_sizes t \<noteq> []"
    using assms by (auto simp: t_def update_conv' split: if_splits)
  then obtain z where z: "min_client_size (map snd (se_attached_sizes t)) = Some z"
    by (cases "se_attached_sizes t") (auto simp: min_client_size_def)
  from min_resize_size [OF z] have eq: "se_pty_size s' = z" "se_attached_sizes s' = se_attached_sizes t"
    by (simp_all add: s')
  have "map_of (se_attached_sizes s') client = Some sz"
    if "s' = snd (attach_client tm True client sz s)"
    using that eq by (simp add: t_def update_conv')
  then show ?thesis
    using min_client_size_bounds [OF z] by (fastforce simp: eq)
qed


theorem pty_size_is_minimum_witness:
  "cols (se_pty_size (snd (attach_client demo_parser True (ClientId 4) \<lparr>cols = 10, rows = 5\<rparr> demo_spawn))) \<le> 10"
proof -
  let ?s = "snd (attach_client demo_parser True (ClientId 4) \<lparr>cols = 10, rows = 5\<rparr> demo_spawn)"
  have "map_of (se_attached_sizes ?s) (ClientId 4) = Some \<lparr>cols = 10, rows = 5\<rparr>"
    and "\<forall>(c, x) \<in> set (se_attached_sizes ?s). cols (se_pty_size ?s) \<le> cols x"
    using pty_size_is_minimum [of ?s demo_parser "ClientId 4" "\<lparr>cols = 10, rows = 5\<rparr>" demo_spawn] by auto
  then show ?thesis by (auto dest!: map_of_SomeD)
qed

text \<open>[exit_row_saved].  Recording the exit of a session saves the row a restart will show, with the
  exit code, the final state and the last 256 KiB of output; when the save fails the row stays
  marked as unsaved.  A session that was killed leaves no row.\<close>
theorem exit_row_saved:
  assumes "se_exit_code s = None" and "s' = mark_exited save_ok code s"
  shows "st_exit_code (stored_snapshot s') = Some code \<and>
    ss_state (st_summary (stored_snapshot s')) = exit_state code \<and>
    st_scrollback (stored_snapshot s') = ring_data (se_ring s) \<and>
    (if se_killed s \<or> \<not> se_persistence s then se_saved s' = se_saved s \<and> \<not> se_persist_dirty s'
     else if save_ok then se_saved s' = se_saved s @ [stored_snapshot s'] \<and> \<not> se_persist_dirty s'
     else se_saved s' = se_saved s \<and> se_persist_dirty s')"
  using assms by (simp add: mark_exited_def persist_def Let_def stored_snapshot_def
      cached_summary_def ring_snapshot_def)

theorem exit_row_saved_witness:
  "se_saved (mark_exited True 3 demo_spawn) = [stored_snapshot (mark_exited True 3 demo_spawn)]"
  using exit_row_saved [of demo_spawn "mark_exited True 3 demo_spawn" True 3]
  by (simp add: demo_spawn_def session_spawn_def)

text \<open>[idle_race_hides_crash].  The idle thread reads the exit code, the activity and the state
  under locks it has released by the time it sets the state.  When the exit of a failed child
  is recorded in between, the session ends with a non-zero exit code and the state idle, and a
  state change follows the exit in the broadcast: what the previous properties rule out for atomic
  ticks does not hold for the interleaving the code allows.\<close>
theorem idle_race_hides_crash:
  assumes "idle_decides now s" and "code \<noteq> 0"
  shows "se_state (mark_exited ok code s) = Crashed \<and>
    (let s' = set_state later Idle None (mark_exited ok code s) in
     se_exit_code s' = Some code \<and> se_state s' = Idle \<and>
     last (se_events s') = AgentStateChanged (se_id s) Idle None)"
proof -
  have "se_exit_code s = None" using assms(1) by (simp add: idle_decides_def)
  then have m: "se_state (mark_exited ok code s) = Crashed"
      "se_exit_code (mark_exited ok code s) = Some code" "se_id (mark_exited ok code s) = se_id s"
    using assms(2) by (simp_all add: mark_exited_def persist_def Let_def exit_state_def)
  then show ?thesis by (simp add: set_state_changes)
qed

theorem idle_race_hides_crash_witness:
  "se_state (set_state 9000 Idle None (mark_exited True 1 (set_state 6 Working None demo_spawn))) = Idle"
proof -
  have "idle_decides 9000 (set_state 6 Working None demo_spawn)"
    by (simp add: demo_spawn_def session_spawn_def set_state_def idle_decides_def IDLE_AFTER_MS_def)
  from idle_race_hides_crash [OF this, of 1 True 9000] show ?thesis by (simp add: Let_def)
qed

end
