(* ===== verification/Delivery.thy ===== *)
theory Delivery
  imports SessionOut
begin

text \<open>
  How the output of a session reaches an attached client (\<open>forward.rs\<close> and the attach arms of
  \<open>ipc.rs\<close> and \<open>transport_iroh.rs\<close>): the client is subscribed to the broadcast, then given the
  bytes it missed, then sent every later message, less the output it already has.  The I/O
  thread runs meanwhile: it captures a chunk in the ring and broadcasts it later.  A state of
  the model is the session, the chunk captured and not yet broadcast, and the attachment.
\<close>

section \<open>Forwarding\<close>

datatype forwarded_event = Message server_msg | TerminalMessage server_msg | ForwardClosed

datatype recv_result = RecvOk server_msg | RecvLagged nat | RecvClosed

definition recv_attached_event :: "session_id \<Rightarrow> recv_result \<Rightarrow> forwarded_event" where
  "recv_attached_event session_id r = (case r of
      RecvOk event \<Rightarrow> Message event
    | RecvLagged skipped \<Rightarrow> TerminalMessage (Lag session_id skipped)
    | RecvClosed \<Rightarrow> ForwardClosed)"

definition output_was_replayed :: "server_msg \<Rightarrow> nat \<Rightarrow> bool" where
  "output_was_replayed event attached_seq =
     (case event of Output _ seq _ \<Rightarrow> seq \<le> attached_seq | _ \<Rightarrow> False)"

text \<open>The forwarder task: what it writes for the results the broadcast receiver gives it.\<close>

fun forward_events :: "session_id \<Rightarrow> nat \<Rightarrow> recv_result list \<Rightarrow> server_msg list" where
  "forward_events session_id seq [] = []"
| "forward_events session_id seq (r # rs) =
     (case recv_attached_event session_id r of
        Message event \<Rightarrow>
          (if output_was_replayed event seq then forward_events session_id seq rs
           else event # forward_events session_id seq rs)
      | TerminalMessage event \<Rightarrow> [event]
      | ForwardClosed \<Rightarrow> [])"

section \<open>The interleaving\<close>

record 'm delivery =
  dl_session :: "'m session"
  dl_inflight :: "(nat \<times> bytes) option"
  dl_subscribed :: "nat option"
  dl_attached :: "(nat \<times> bytes) option"

datatype delivery_event =
    Capture bytes
  | InferState nat
  | Publish
  | StateChange nat agent_state "rstr option"
  | Subscribe
  | AttachBytes "nat option"

text \<open>The I/O thread captures a chunk only after it has broadcast the previous one.\<close>

definition delivery_step ::
    "'m parser \<Rightarrow> (rstr \<Rightarrow> codex_event option) \<Rightarrow> 'm delivery \<Rightarrow> delivery_event \<Rightarrow> 'm delivery" where
  "delivery_step tm from_str d ev = (case ev of
      Capture bs \<Rightarrow>
        (if dl_inflight d \<noteq> None then d
         else case record_capture tm bs (dl_session d) of (seq, s) \<Rightarrow>
           d\<lparr>dl_session := s, dl_inflight := Some (seq, bs)\<rparr>)
    | InferState now \<Rightarrow> d\<lparr>dl_session := record_infer tm from_str now (dl_session d)\<rparr>
    | Publish \<Rightarrow>
        (case dl_inflight d of
           None \<Rightarrow> d
         | Some (seq, bs) \<Rightarrow> d\<lparr>dl_inflight := None,
             dl_session := (dl_session d)\<lparr>se_events := se_events (dl_session d) @
               [Output (se_id (dl_session d)) seq bs]\<rparr>\<rparr>)
    | StateChange now st l \<Rightarrow> d\<lparr>dl_session := set_state now st l (dl_session d)\<rparr>
    | Subscribe \<Rightarrow>
        (if dl_subscribed d = None then d\<lparr>dl_subscribed := Some (length (se_events (dl_session d)))\<rparr>
         else d)
    | AttachBytes last_seen \<Rightarrow>
        (if dl_subscribed d = None \<or> dl_attached d \<noteq> None then d
         else case attach_bytes tm last_seen (dl_session d) of (r, s) \<Rightarrow>
           d\<lparr>dl_session := s, dl_attached := Some r\<rparr>))"

definition captured :: "'m delivery \<Rightarrow> bytes" where
  "captured d = outputs (se_events (dl_session d)) @
     (case dl_inflight d of None \<Rightarrow> [] | Some (_, bs) \<Rightarrow> bs)"

text \<open>The messages broadcast since the subscription, as the receiver yields them.\<close>

definition received :: "'m delivery \<Rightarrow> recv_result list" where
  "received d = map RecvOk (drop (the (dl_subscribed d)) (se_events (dl_session d)))"

definition live_output :: "'m delivery \<Rightarrow> bytes" where
  "live_output d = outputs (forward_events (se_id (dl_session d)) (fst (the (dl_attached d))) (received d))"

section \<open>Invariant\<close>

text \<open>
  As long as all positions fit in 64 bits: the ring stands for the captured output, the chunk in
  flight ends at its position, the broadcast positions are cumulative; a subscription is not
  in the future, and an attachment is at a chunk boundary not before it.
\<close>

definition delivery_ok :: "'m delivery \<Rightarrow> bool" where
  "delivery_ok d \<longleftrightarrow>
     ring_models (se_ring (dl_session d)) (captured d) \<and>
     outputs_ok (se_id (dl_session d)) 0 (se_events (dl_session d)) \<and>
     (case dl_inflight d of None \<Rightarrow> True | Some (seq, bs) \<Rightarrow> seq = length (captured d)) \<and>
     (case dl_subscribed d of None \<Rightarrow> dl_attached d = None
      | Some n \<Rightarrow> n \<le> length (se_events (dl_session d)) \<and>
         (case dl_attached d of None \<Rightarrow> True
          | Some (p, _) \<Rightarrow> \<exists>k. n \<le> k \<and> k \<le> length (se_events (dl_session d)) \<and>
              (p = length (outputs (take k (se_events (dl_session d)))) \<or>
               (k = length (se_events (dl_session d)) \<and> p = length (captured d)))))"

definition delivery_inv :: "'m delivery \<Rightarrow> bool" where
  "delivery_inv d \<longleftrightarrow> (length (captured d) \<le> u64_max \<longrightarrow> delivery_ok d)"

lemma take_prefix_events: "k \<le> length a \<Longrightarrow> take k (a @ b) = take k a"
  by simp

text \<open>A step that only appends messages without output.\<close>

lemma delivery_quiet:
  assumes "quiet (dl_session d) s" and "delivery_inv d"
  shows "delivery_inv (d\<lparr>dl_session := s\<rparr>)"
proof -
  obtain es where es: "se_events s = se_events (dl_session d) @ es" "filter is_output es = []"
    "se_ring s = se_ring (dl_session d)" "se_id s = se_id (dl_session d)"
    using assms(1) by (auto simp: quiet_def)
  have out: "outputs es = []" "outputs_ok i n es" for i n
    using outputs_quiet [OF es(2)] by auto
  have cap: "captured (d\<lparr>dl_session := s\<rparr>) = captured d"
    by (simp add: captured_def es(1) out)
  have att: "\<exists>k. n \<le> k \<and> k \<le> length (se_events s) \<and> (p = length (outputs (take k (se_events s))) \<or>
      (k = length (se_events s) \<and> p = length (captured d)))"
    if k: "n \<le> k" "k \<le> length (se_events (dl_session d))"
      "p = length (outputs (take k (se_events (dl_session d)))) \<or>
       (k = length (se_events (dl_session d)) \<and> p = length (captured d))" for n k p
  proof (cases "p = length (outputs (take k (se_events (dl_session d))))")
    case True
    then show ?thesis using k by (intro exI [of _ k]) (simp add: es(1))
  next
    case False
    then show ?thesis using k by (intro exI [of _ "length (se_events s)"]) (simp add: es(1))
  qed
  show ?thesis
    using assms(2) att unfolding delivery_inv_def delivery_ok_def cap
    by (fastforce simp: es out outputs_ok_append split: option.splits)
qed

lemma delivery_capture:
  assumes inv: "delivery_inv d" and none: "dl_inflight d = None"
    and cap: "record_capture tm bs (dl_session d) = (seq, s)"
  shows "delivery_inv (d\<lparr>dl_session := s, dl_inflight := Some (seq, bs)\<rparr>)"
proof -
  note c = capture_ring [OF cap]
  have cap': "captured (d\<lparr>dl_session := s, dl_inflight := Some (seq, bs)\<rparr>) = captured d @ bs"
    using none c by (simp add: captured_def)
  show ?thesis
  proof (cases "length (captured d) + length bs \<le> u64_max")
    case False
    then show ?thesis by (simp add: delivery_inv_def cap')
  next
    case True
    then have ok: "delivery_ok d" using inv by (simp add: delivery_inv_def)
    then have m: "ring_models (se_ring (dl_session d)) (captured d)" by (simp add: delivery_ok_def)
    then have "seq = length (captured d) + length bs"
      using c True by (simp add: ring_models_def sat_add64_exact)
    moreover have "ring_models (fst (ring_push (se_ring (dl_session d)) bs)) (captured d @ bs)"
      using m True by (rule ring_log.log_append)
    moreover have "captured d = outputs (se_events (dl_session d))"
      using none by (simp add: captured_def)
    ultimately show ?thesis
      using ok c unfolding delivery_inv_def delivery_ok_def cap'
      by (fastforce split: option.splits)
  qed
qed

lemma delivery_publish:
  assumes inv: "delivery_inv d" and fl: "dl_inflight d = Some (seq, bs)"
  shows "delivery_inv (d\<lparr>dl_inflight := None, dl_session := (dl_session d)\<lparr>se_events :=
    se_events (dl_session d) @ [Output (se_id (dl_session d)) seq bs]\<rparr>\<rparr>)" (is "delivery_inv ?d")
proof -
  let ?es = "se_events (dl_session d)"
  have cap: "captured ?d = captured d"
    using fl by (simp add: captured_def output_of_def)
  show ?thesis
  proof (cases "length (captured d) \<le> u64_max")
    case False
    then show ?thesis by (simp add: delivery_inv_def cap)
  next
    case True
    then have ok: "delivery_ok d" using inv by (simp add: delivery_inv_def)
    have c: "captured d = outputs ?es @ bs" using fl by (simp add: captured_def)
    have seq: "seq = length (outputs ?es) + length bs"
      using ok fl c by (simp add: delivery_ok_def)
    have att: "\<exists>k'. n \<le> k' \<and> k' \<le> Suc (length ?es) \<and>
        (p = length (outputs (take k' (?es @ [Output (se_id (dl_session d)) seq bs]))) \<or>
         (k' = Suc (length ?es) \<and> p = length (captured d)))"
      if "n \<le> k" "k \<le> length ?es" "p = length (outputs (take k ?es)) \<or> (k = length ?es \<and> p = length (captured d))"
      for n k p
    proof (cases "p = length (outputs (take k ?es))")
      case True
      then show ?thesis using that by (intro exI [of _ k]) simp
    next
      case False
      then show ?thesis using that by (intro exI [of _ "Suc (length ?es)"]) simp
    qed
    show ?thesis
      using ok fl seq att unfolding delivery_inv_def delivery_ok_def cap
      by (fastforce simp: outputs_ok_append split: option.splits)
  qed
qed

lemma delivery_attach:
  assumes inv: "delivery_inv d" and sub: "dl_subscribed d = Some n" and none: "dl_attached d = None"
    and att: "attach_bytes tm last_seen (dl_session d) = (r, s)"
  shows "delivery_inv (d\<lparr>dl_session := s, dl_attached := Some r\<rparr>)"
proof -
  have q: "quiet (dl_session d) s"
    using quiet_attach_bytes [of "dl_session d" tm last_seen] att by simp
  let ?d = "d\<lparr>dl_session := s\<rparr>"
  have inv': "delivery_inv ?d" using q inv by (rule delivery_quiet)
  obtain es where es: "se_events s = se_events (dl_session d) @ es" "filter is_output es = []"
    using q by (auto simp: quiet_def)
  have out: "outputs es = []" using outputs_quiet [OF es(2)] by simp
  have cap: "captured (d\<lparr>dl_session := s, dl_attached := Some r\<rparr>) = captured ?d"
      "captured ?d = captured d"
    by (simp_all add: captured_def es out)
  show ?thesis
  proof (cases "length (captured d) \<le> u64_max")
    case False
    then show ?thesis by (simp add: delivery_inv_def cap)
  next
    case True
    then have "ring_models (se_ring (dl_session d)) (captured d)"
      using inv by (simp add: delivery_inv_def delivery_ok_def)
    from attach_bytes_result(2) [OF this, of tm last_seen] have "fst r = length (captured d)"
      by (simp add: att)
    then show ?thesis
      using inv' True sub none unfolding delivery_inv_def delivery_ok_def cap
      by (auto split: prod.split)
  qed
qed

lemma delivery_inv_step: "delivery_inv d \<Longrightarrow> delivery_inv (delivery_step tm from_str d ev)"
proof (cases ev)
  case (Capture bs)
  assume inv: "delivery_inv d"
  obtain q s where q: "record_capture tm bs (dl_session d) = (q, s)" by fastforce
  show ?thesis
    using inv delivery_capture [OF inv _ q]
    by (cases "dl_inflight d") (simp_all add: Capture delivery_step_def q)
next
  case (InferState now)
  assume "delivery_inv d"
  then show ?thesis by (simp add: InferState delivery_step_def delivery_quiet [OF quiet_infer])
next
  case Publish
  assume "delivery_inv d"
  then show ?thesis
    using delivery_publish [of d] by (simp add: Publish delivery_step_def split: option.split prod.split)
next
  case (StateChange now st l)
  assume "delivery_inv d"
  then show ?thesis by (simp add: StateChange delivery_step_def delivery_quiet [OF quiet_set_state])
next
  case Subscribe
  assume "delivery_inv d"
  then show ?thesis
    by (auto simp: Subscribe delivery_step_def delivery_inv_def delivery_ok_def captured_def
        split: option.splits)
next
  case (AttachBytes last_seen)
  assume inv: "delivery_inv d"
  obtain r s where r: "attach_bytes tm last_seen (dl_session d) = (r, s)" by fastforce
  show ?thesis
    using inv delivery_attach [OF inv _ _ r]
    by (cases "dl_subscribed d"; cases "dl_attached d") (simp_all add: AttachBytes delivery_step_def r)
qed

interpretation delivery: inv_machine "delivery_step tm from_str" delivery_inv
  by unfold_locales (rule delivery_inv_step)

section \<open>What the client has\<close>

lemma forward_ok_filter:
  "forward_events sid seq (map RecvOk ms) = filter (\<lambda>m. \<not> output_was_replayed m seq) ms"
  by (induction ms) (auto simp: recv_attached_event_def)

text \<open>Output before a chunk boundary is dropped, output after it is kept.\<close>

lemma replayed_all:
  "outputs_ok sid n ms \<Longrightarrow> n + length (outputs ms) \<le> p \<Longrightarrow>
    outputs (filter (\<lambda>m. \<not> output_was_replayed m p) ms) = []"
  by (induction sid n ms rule: outputs_ok.induct)
    (auto simp: output_was_replayed_def output_of_def)

lemma replayed_none:
  "outputs_ok sid n ms \<Longrightarrow> p \<le> n \<Longrightarrow>
    outputs (filter (\<lambda>m. \<not> output_was_replayed m p) ms) = outputs ms"
proof (induction sid n ms rule: outputs_ok.induct)
  case (2 sid n i q bs ms)
  then show ?case
    by (cases bs) (auto simp: output_was_replayed_def output_of_def)
qed (auto simp: output_was_replayed_def output_of_def)


text \<open>What the client is sent live is what was broadcast past the attach position.\<close>

lemma live_part:
  assumes ok: "delivery_ok d" and sub: "dl_subscribed d = Some n" and att: "dl_attached d = Some (p, r)"
  shows "outputs (filter (\<lambda>m. \<not> output_was_replayed m p) (drop n (se_events (dl_session d)))) =
    drop p (outputs (se_events (dl_session d)))"
proof -
  let ?es = "se_events (dl_session d)" and ?i = "se_id (dl_session d)"
  obtain k where k: "n \<le> k" "k \<le> length ?es"
    and p: "p = length (outputs (take k ?es)) \<or> (k = length ?es \<and> p = length (captured d))"
    using ok sub att by (auto simp: delivery_ok_def)
  have le: "length (outputs (take k ?es)) \<le> p"
    using p by (auto simp: captured_def)
  define a b where "a = drop n (take k ?es)" and "b = drop k ?es"
  have ab: "drop n ?es = a @ b"
    using k unfolding a_def b_def by (metis append_take_drop_id drop_append diff_is_0_eq drop0
        length_take min.absorb2)
  have es: "?es = take n ?es @ a @ b"
    using ab by (metis append_take_drop_id)
  have tk: "take k ?es = take n ?es @ a"
    unfolding a_def using k by (metis append_take_drop_id min.absorb2 take_take min.commute)
  have okes: "outputs_ok ?i 0 ?es" using ok by (simp add: delivery_ok_def)
  then have "outputs_ok ?i 0 (take n ?es @ a @ b)" using es by metis
  then have oka: "outputs_ok ?i (length (outputs (take n ?es))) a"
    and okb: "outputs_ok ?i (length (outputs (take k ?es))) b"
    unfolding tk by (simp_all add: outputs_ok_append)
  have "outputs (filter (\<lambda>m. \<not> output_was_replayed m p) a) = []"
    by (rule replayed_all [OF oka]) (use le tk in simp)
  moreover have "outputs (filter (\<lambda>m. \<not> output_was_replayed m p) b) = drop p (outputs ?es)"
    using p
  proof
    assume "p = length (outputs (take k ?es))"
    moreover have "outputs ?es = outputs (take k ?es) @ outputs b"
      unfolding b_def by (metis append_take_drop_id outputs_append)
    ultimately show ?thesis using replayed_none [OF okb] by simp
  next
    assume "k = length ?es \<and> p = length (captured d)"
    then show ?thesis by (simp add: b_def captured_def)
  qed
  ultimately show ?thesis unfolding ab by simp
qed

lemma captured_session:
  "quiet (dl_session d) s \<Longrightarrow> captured (d\<lparr>dl_session := s\<rparr>) = captured d"
  by (auto simp: quiet_def captured_def outputs_quiet)

lemma captured_step: "\<exists>x. captured (delivery_step tm from_str d ev) = captured d @ x"
proof (cases ev)
  case (Capture bs)
  obtain q s where q: "record_capture tm bs (dl_session d) = (q, s)" by fastforce
  show ?thesis
    using capture_ring [OF q]
    by (cases "dl_inflight d") (simp_all add: Capture delivery_step_def captured_def q)
next
  case (AttachBytes last_seen)
  obtain r s where r: "attach_bytes tm last_seen (dl_session d) = (r, s)" by fastforce
  then have "quiet (dl_session d) s" using quiet_attach_bytes [of "dl_session d" tm last_seen] by simp
  then have "captured (d\<lparr>dl_session := s\<rparr>) = captured d" by (rule captured_session)
  then show ?thesis
    by (auto simp: AttachBytes delivery_step_def r captured_def)
next
  case (InferState now)
  then show ?thesis by (simp add: delivery_step_def captured_session [OF quiet_infer])
next
  case (StateChange now st l)
  then show ?thesis by (simp add: delivery_step_def captured_session [OF quiet_set_state])
next
  case Publish
  then show ?thesis
    by (auto simp: delivery_step_def captured_def output_of_def split: option.split)
next
  case Subscribe
  then show ?thesis by (simp add: delivery_step_def captured_def)
qed

abbreviation delivery_run ::
    "'m parser \<Rightarrow> (rstr \<Rightarrow> codex_event option) \<Rightarrow> 'm delivery \<Rightarrow> delivery_event list \<Rightarrow> 'm delivery" where
  "delivery_run tm from_str \<equiv> foldl (delivery_step tm from_str)"

lemma captured_run: "\<exists>x. captured (delivery_run tm from_str d evs) = captured d @ x"
proof (induction evs arbitrary: d)
  case (Cons ev evs)
  show ?case
    using captured_step [of tm from_str d ev] Cons.IH [of "delivery_step tm from_str d ev"] by auto
qed simp

lemma attached_step: "dl_attached d = Some r \<Longrightarrow> dl_subscribed d = Some n \<Longrightarrow>
    dl_attached (delivery_step tm from_str d ev) = Some r \<and>
    dl_subscribed (delivery_step tm from_str d ev) = Some n"
  by (cases ev) (simp_all add: delivery_step_def split: prod.split option.split)

lemma attached_run: "dl_attached d = Some r \<Longrightarrow> dl_subscribed d = Some n \<Longrightarrow>
    dl_attached (delivery_run tm from_str d evs) = Some r \<and>
    dl_subscribed (delivery_run tm from_str d evs) = Some n"
  by (induction evs arbitrary: d) (auto simp: attached_step)

lemma forward_append:
  "forward_events sid p (map RecvOk ms @ rs) =
    filter (\<lambda>m. \<not> output_was_replayed m p) ms @ forward_events sid p rs"
  by (induction ms) (auto simp: recv_attached_event_def)

lemma forward_lagged:
  assumes "received d = map RecvOk ms" and "live = outputs (forward_events sid p (received d))"
  shows "\<exists>fs. forward_events sid p (take m (received d) @ RecvLagged skipped # rest) =
      fs @ [Lag sid skipped] \<and> prefix (outputs fs) live"
proof -
  let ?f = "filter (\<lambda>m. \<not> output_was_replayed m p)"
  have "live = outputs (?f (take m ms)) @ outputs (?f (drop m ms))"
    by (metis append_take_drop_id assms(1,2) filter_append forward_ok_filter outputs_append)
  moreover have "forward_events sid p (take m (received d) @ RecvLagged skipped # rest) =
      ?f (take m ms) @ [Lag sid skipped]"
    by (simp add: assms(1) take_map forward_append recv_attached_event_def)
  ultimately show ?thesis by auto
qed

lemma capture_capacity: "record_capture tm bs s = (seq, s1) \<Longrightarrow>
    capacity (se_ring s1) = capacity (se_ring s)"
  using capture_ring [of tm bs s] by simp

lemma quiet_capacity: "quiet s s' \<Longrightarrow> capacity (se_ring s') = capacity (se_ring s)"
  by (simp add: quiet_def)

lemma delivery_step_capacity:
  "capacity (se_ring (dl_session (delivery_step tm from_str d ev))) = capacity (se_ring (dl_session d))"
proof (cases ev)
  case (Capture bs)
  obtain q s where q: "record_capture tm bs (dl_session d) = (q, s)" by fastforce
  show ?thesis
    using capture_capacity [OF q] by (simp add: Capture delivery_step_def q)
next
  case (AttachBytes last_seen)
  obtain r s where r: "attach_bytes tm last_seen (dl_session d) = (r, s)" by fastforce
  then have "quiet (dl_session d) s" using quiet_attach_bytes [of "dl_session d" tm last_seen] by simp
  then show ?thesis by (simp add: AttachBytes delivery_step_def r quiet_capacity)
qed (simp_all add: delivery_step_def quiet_capacity [OF quiet_infer]
    quiet_capacity [OF quiet_set_state] split: option.split prod.split)

lemma delivery_run_capacity:
  "capacity (se_ring (dl_session (delivery_run tm from_str d evs))) = capacity (se_ring (dl_session d))"
  by (induction evs arbitrary: d) (simp_all add: delivery_step_capacity)

definition delivery_start :: "'m session \<Rightarrow> 'm delivery" where
  "delivery_start s = \<lparr>dl_session = s, dl_inflight = None, dl_subscribed = None, dl_attached = None\<rparr>"

lemma delivery_start_inv: "capture_inv s \<Longrightarrow> delivery_inv (delivery_start s)"
  by (simp add: delivery_inv_def delivery_ok_def delivery_start_def captured_def capture_inv_def)

section \<open>Property\<close>


text \<open>The run of the witness, evaluated.\<close>

definition demo_delivery :: "unit delivery" where
  "demo_delivery = delivery_run demo_parser (\<lambda>_. None) (delivery_start demo_spawn)
     [Capture [1, 2], Subscribe]"

definition demo_delivered :: "unit delivery" where
  "demo_delivered = delivery_run demo_parser (\<lambda>_. None)
     (delivery_step demo_parser (\<lambda>_. None) demo_delivery (AttachBytes (Some 1)))
     [Publish, Capture [3], Publish]"

lemmas delivery_eval = demo_spawn_def session_spawn_def delivery_start_def delivery_step_def
  record_capture_def ingest_def demo_parser_def projection_new_def ring_new_def ring_push_def
  checked_add64_def u64_max_def RING_CAPACITY_def send_replies_def sat_add64_def attach_bytes_def
  replay_from_def captured_def outputs_def output_of_def

lemma demo_delivery_facts:
  "dl_subscribed demo_delivery = Some 0 \<and> dl_attached demo_delivery = None \<and>
    length (captured demo_delivery) = 2"
  by (simp add: demo_delivery_def delivery_eval)

lemma demo_delivered_facts: "dl_inflight demo_delivered = None \<and> length (captured demo_delivered) = 3"
  by (simp add: demo_delivered_def demo_delivery_def delivery_eval)


end
