(* ===== verification/Pairing.thy ===== *)
theory Pairing
  imports Codes
begin

text \<open>
  The pairing codes and approvals of the daemon (\<open>crates/daemon/src/pairing.rs\<close>).  A code is
  valid for five minutes, for one redemption and for fewer than five wrong guesses; a new
  code replaces every older one.  A redeemed code asks the desktop operator, whose answer
  reaches the waiting request through a one-shot channel.  The random source, the fresh
  request id, the clock and whether the desktop prompt still listens are arguments.
\<close>

section \<open>State\<close>

definition PAIR_TOKEN_TTL_MS :: nat where "PAIR_TOKEN_TTL_MS = 5 * 60 * 1000"
definition MAX_CODE_ATTEMPTS :: nat where "MAX_CODE_ATTEMPTS = 5"

record approval_event =
  ae_request_id :: client_id
  ae_device_name :: rstr
  ae_device_node_id :: rstr
  ae_sas :: rstr

text \<open>\<open>pc_prompt\<close> names the channel to the desktop prompt that began the pairing.\<close>

record pending_pair_code =
  pc_expires_at :: nat
  pc_attempts :: nat
  pc_prompt :: nat

text \<open>
  \<open>pm_approvals\<close>: the requests whose one-shot sender is registered; \<open>pm_answers\<close>: what was sent
  on them; \<open>pm_prompted\<close>: the events each prompt received.
\<close>

record pairing_manager =
  pm_codes :: "rstr \<rightharpoonup> pending_pair_code"
  pm_approvals :: "client_id set"
  pm_answers :: "client_id \<rightharpoonup> bool"
  pm_prompted :: "(nat \<times> approval_event) list"
  pm_prompts :: nat

definition pairing_new :: pairing_manager where
  "pairing_new = \<lparr>pm_codes = Map.empty, pm_approvals = {}, pm_answers = Map.empty,
     pm_prompted = [], pm_prompts = 0\<rparr>"

section \<open>Operations\<close>

text \<open>One random byte a character; the mask keeps five bits.\<close>

definition generate_code :: "(nat \<Rightarrow> u8) \<Rightarrow> rstr" where
  "generate_code rng = map (\<lambda>i. CODE_ALPHABET ! unat (and (rng i) 0x1f)) [0..<CODE_LEN]"

definition prune_expired :: "nat \<Rightarrow> pairing_manager \<Rightarrow> pairing_manager" where
  "prune_expired now s = s\<lparr>pm_codes := retain (\<lambda>_ pending. now < pc_expires_at pending) (pm_codes s)\<rparr>"

definition begin_pairing ::
    "nat \<Rightarrow> (nat \<Rightarrow> u8) \<Rightarrow> pairing_manager \<Rightarrow> (rstr \<times> nat \<times> nat) \<times> pairing_manager" where
  "begin_pairing now rng s =
     (let s1 = prune_expired now s;
          code = generate_code rng;
          expires_at = sat_add64 now PAIR_TOKEN_TTL_MS;
          prompt = pm_prompts s1 in
      ((code, expires_at, prompt),
       s1\<lparr>pm_codes := [code \<mapsto> \<lparr>pc_expires_at = expires_at, pc_attempts = 0, pc_prompt = prompt\<rparr>],
          pm_prompts := prompt + 1\<rparr>))"

text \<open>What a miss does to every active code.\<close>

definition charge_attempt :: "nat \<Rightarrow> (rstr \<rightharpoonup> pending_pair_code) \<Rightarrow> (rstr \<rightharpoonup> pending_pair_code)" where
  "charge_attempt now codes = (\<lambda>c. case codes c of
      None \<Rightarrow> None
    | Some pending \<Rightarrow>
        if pc_expires_at pending \<le> now then None
        else let pending' = pending\<lparr>pc_attempts := sat_add8 (pc_attempts pending) 1\<rparr> in
          if pc_attempts pending' < MAX_CODE_ATTEMPTS then Some pending' else None)"

record pending_approval =
  pa_request_id :: client_id
  pa_remaining_ms :: nat

definition begin_approval ::
    "nat \<Rightarrow> client_id \<Rightarrow> (nat \<Rightarrow> bool) \<Rightarrow> rstr \<Rightarrow> rstr \<Rightarrow> rstr \<Rightarrow> rstr \<Rightarrow> pairing_manager \<Rightarrow>
      (rstr + pending_approval) \<times> pairing_manager" where
  "begin_approval now request_id prompt_open code device_name device_node_id sas s =
     (case pm_codes s code of
        None \<Rightarrow>
          (Inl (lit ''pairing code is invalid or already used''),
           s\<lparr>pm_codes := charge_attempt now (pm_codes s)\<rparr>)
      | Some pending \<Rightarrow>
          let s1 = s\<lparr>pm_codes := (pm_codes s)(code := None)\<rparr>;
              remaining_ms = pc_expires_at pending - now in
          if remaining_ms = 0 then (Inl (lit ''pairing code expired''), s1)
          else if \<not> prompt_open (pc_prompt pending)
          then (Inl (lit ''desktop pairing approval prompt is no longer active''),
                s1\<lparr>pm_approvals := pm_approvals s1 - {request_id}\<rparr>)
          else (Inr \<lparr>pa_request_id = request_id, pa_remaining_ms = remaining_ms\<rparr>,
                s1\<lparr>pm_approvals := insert request_id (pm_approvals s1),
                   pm_answers := (pm_answers s1)(request_id := None),
                   pm_prompted := pm_prompted s1 @ [(pc_prompt pending,
                     \<lparr>ae_request_id = request_id, ae_device_name = device_name,
                      ae_device_node_id = device_node_id, ae_sas = sas\<rparr>)]\<rparr>))"

definition approve :: "client_id \<Rightarrow> bool \<Rightarrow> pairing_manager \<Rightarrow> rstr option \<times> pairing_manager" where
  "approve request_id approved s =
     (if request_id \<notin> pm_approvals s
      then (Some (lit ''pairing request not found or already answered''), s)
      else (None, s\<lparr>pm_approvals := pm_approvals s - {request_id},
              pm_answers := (pm_answers s)(request_id \<mapsto> approved)\<rparr>))"

text \<open>
  The end of \<open>PendingPairingApproval::wait\<close>: the answer, or no on a timeout; the request is
  unregistered when it is dropped.  \<open>in_time\<close> tells whether the answer came within the
  remaining time.
\<close>

definition approval_wait :: "bool \<Rightarrow> pending_approval \<Rightarrow> pairing_manager \<Rightarrow> bool \<times> pairing_manager" where
  "approval_wait in_time pending s =
     ((if in_time then (case pm_answers s (pa_request_id pending) of Some a \<Rightarrow> a | None \<Rightarrow> False)
       else False),
      s\<lparr>pm_approvals := pm_approvals s - {pa_request_id pending}\<rparr>)"

section \<open>The manager as a machine\<close>

datatype pairing_call =
    Begin nat "nat \<Rightarrow> u8"
  | Attempt nat client_id "nat \<Rightarrow> bool" rstr rstr rstr rstr
  | Approve client_id bool
  | EndWait bool pending_approval

definition pairing_step :: "pairing_manager \<Rightarrow> pairing_call \<Rightarrow> pairing_manager" where
  "pairing_step s call = (case call of
      Begin now rng \<Rightarrow> snd (begin_pairing now rng s)
    | Attempt now rid open_prompt code name node sas \<Rightarrow>
        snd (begin_approval now rid open_prompt code name node sas s)
    | Approve rid a \<Rightarrow> snd (approve rid a s)
    | EndWait t p \<Rightarrow> snd (approval_wait t p s))"

abbreviation pairing_run :: "pairing_call list \<Rightarrow> pairing_manager" where
  "pairing_run calls \<equiv> foldl pairing_step pairing_new calls"

fun is_begin :: "pairing_call \<Rightarrow> bool" where
  "is_begin (Begin _ _) = True"
| "is_begin _ = False"

fun attempted_code :: "pairing_call \<Rightarrow> rstr option" where
  "attempted_code (Attempt _ _ _ code _ _ _) = Some code"
| "attempted_code _ = None"

definition attempts_in :: "pairing_call list \<Rightarrow> rstr list" where
  "attempts_in calls = List.map_filter attempted_code calls"

lemma attempts_in_snoc: "attempts_in (cs @ [c]) =
    attempts_in cs @ (case attempted_code c of None \<Rightarrow> [] | Some x \<Rightarrow> [x])"
  by (simp add: attempts_in_def List.map_filter_def split: option.split)

text \<open>
  The history behind an active code: the last pairing that was begun created it, and since
  then only other codes were tried, as often as the code's counter says.
\<close>

definition code_history :: "pairing_call list \<Rightarrow> rstr \<Rightarrow> pending_pair_code \<Rightarrow> bool" where
  "code_history calls code pending \<longleftrightarrow> (\<exists>before t0 rng since.
     calls = before @ Begin t0 rng # since \<and> code = generate_code rng \<and>
     pc_expires_at pending = sat_add64 t0 PAIR_TOKEN_TTL_MS \<and>
     (\<forall>c \<in> set since. \<not> is_begin c) \<and> code \<notin> set (attempts_in since) \<and>
     pc_attempts pending = length (attempts_in since) \<and> length (attempts_in since) < MAX_CODE_ATTEMPTS)"

definition codes_inv :: "pairing_call list \<Rightarrow> pairing_manager \<Rightarrow> bool" where
  "codes_inv calls s \<longleftrightarrow> (\<forall>code pending. pm_codes s code = Some pending \<longrightarrow> code_history calls code pending)"

lemma history_quiet:
  "code_history calls code pending \<Longrightarrow> attempted_code c = None \<Longrightarrow> \<not> is_begin c \<Longrightarrow>
    code_history (calls @ [c]) code pending"
  unfolding code_history_def
  by (elim exE conjE) (rule_tac x = before in exI, rule_tac x = t0 in exI, rule_tac x = rng in exI,
    rule_tac x = "since @ [c]" in exI, auto simp: attempts_in_snoc)

lemma history_miss:
  assumes "code_history calls code pending" and "attempted_code c = Some other" and "other \<noteq> code"
    and "sat_add8 (pc_attempts pending) 1 < MAX_CODE_ATTEMPTS"
  shows "code_history (calls @ [c]) code (pending\<lparr>pc_attempts := sat_add8 (pc_attempts pending) 1\<rparr>)"
proof -
  obtain before t0 rng since where h: "calls = before @ Begin t0 rng # since" "code = generate_code rng"
      "pc_expires_at pending = sat_add64 t0 PAIR_TOKEN_TTL_MS" "\<forall>c \<in> set since. \<not> is_begin c"
      "code \<notin> set (attempts_in since)" "pc_attempts pending = length (attempts_in since)"
      "length (attempts_in since) < MAX_CODE_ATTEMPTS"
    using assms(1) unfolding code_history_def by blast
  have "sat_add8 (pc_attempts pending) 1 = Suc (pc_attempts pending)"
    using h(6,7) by (simp add: sat_add8_def u8_max_def MAX_CODE_ATTEMPTS_def)
  moreover have "\<not> is_begin c" using assms(2) by (cases c) auto
  ultimately show ?thesis
    unfolding code_history_def using h assms
    by (intro exI [of _ before] exI [of _ t0] exI [of _ rng] exI [of _ "since @ [c]"])
      (simp add: attempts_in_snoc)
qed

lemma last_begin_unique:
  assumes "a @ Begin t r # b = a' @ Begin t' r' # b'"
    and "\<forall>c \<in> set b. \<not> is_begin c" and "\<forall>c \<in> set b'. \<not> is_begin c"
  shows "r = r'"
proof -
  have "rev b @ Begin t r # rev a = rev b' @ Begin t' r' # rev a'"
    using arg_cong [OF assms(1), of rev] by simp
  moreover have "x # xs = y # ys" if "u @ x # xs = v @ y # ys" "\<forall>c \<in> set u. \<not> is_begin c"
      "\<forall>c \<in> set v. \<not> is_begin c" "is_begin x" "is_begin y" for u v x y xs ys
    using that
  proof (induction u arbitrary: v)
    case Nil
    then show ?case by (cases v) auto
  next
    case (Cons c u)
    then show ?case by (cases v) auto
  qed
  ultimately show ?thesis
    using assms(2,3) by (metis is_begin.simps(1) list.inject pairing_call.inject(1) set_rev)
qed

lemma history_unique: "code_history calls x p \<Longrightarrow> code_history calls y q \<Longrightarrow> x = y"
  unfolding code_history_def using last_begin_unique by metis

lemma codes_inv_step: "codes_inv calls s \<Longrightarrow> codes_inv (calls @ [c]) (pairing_step s c)"
proof (cases c)
  case (Begin now rng)
  have "code_history (calls @ [c]) x p" if "pm_codes (pairing_step s c) x = Some p" for x p
    unfolding code_history_def
    by (rule exI [of _ calls], rule exI [of _ now], rule exI [of _ rng], rule exI [of _ "[]"])
      (use that in \<open>auto simp: Begin pairing_step_def begin_pairing_def Let_def attempts_in_def
        List.map_filter_def MAX_CODE_ATTEMPTS_def split: if_splits\<close>)
  then show ?thesis by (simp add: codes_inv_def)
next
  case (Attempt now rid open_prompt code name node sas)
  assume inv: "codes_inv calls s"
  show ?thesis
  proof (cases "pm_codes s code")
    case None
    have "code_history (calls @ [c]) x p"
      if x: "charge_attempt now (pm_codes s) x = Some p" for x p
    proof -
      obtain q where q: "pm_codes s x = Some q" "sat_add8 (pc_attempts q) 1 < MAX_CODE_ATTEMPTS"
          "p = q\<lparr>pc_attempts := sat_add8 (pc_attempts q) 1\<rparr>"
        using x by (auto simp: charge_attempt_def Let_def split: option.splits if_splits)
      moreover have "code_history calls x q" using inv q(1) by (simp add: codes_inv_def)
      moreover have "code \<noteq> x" using None q(1) by auto
      ultimately show ?thesis
        using history_miss [of calls x q c code] Attempt by simp
    qed
    then show ?thesis using None by (simp add: codes_inv_def Attempt pairing_step_def begin_approval_def)
  next
    case (Some p)
    then have codes: "pm_codes (pairing_step s c) = (pm_codes s)(code := None)"
      by (simp add: Attempt pairing_step_def begin_approval_def Let_def)
    show ?thesis
      unfolding codes_inv_def codes
    proof (intro allI impI)
      fix x q
      assume x: "((pm_codes s)(code := None)) x = Some q"
      then have h: "code_history calls x q" "code_history calls code p"
        using inv Some by (auto simp: codes_inv_def split: if_splits)
      then have "x = code" by (rule history_unique)
      with x show "code_history (calls @ [c]) x q" by simp
    qed
  qed
next
  case (Approve rid a)
  assume "codes_inv calls s"
  then show ?thesis
    by (auto simp: codes_inv_def Approve pairing_step_def approve_def intro!: history_quiet)
next
  case (EndWait t p)
  assume "codes_inv calls s"
  then show ?thesis
    by (auto simp: codes_inv_def EndWait pairing_step_def approval_wait_def intro!: history_quiet)
qed


lemma codes_inv_run: "codes_inv calls (pairing_run calls)"
proof (induction calls rule: rev_induct)
  case Nil
  then show ?case by (simp add: codes_inv_def pairing_new_def)
next
  case (snoc c calls)
  then show ?case using codes_inv_step [of calls _ c] by simp
qed

section \<open>Answers\<close>

text \<open>An answer stands for an operator's decision made after the request was last registered.\<close>

definition answers_inv :: "pairing_call list \<Rightarrow> pairing_manager \<Rightarrow> bool" where
  "answers_inv calls s \<longleftrightarrow> (\<forall>rid a. pm_answers s rid = Some a \<longrightarrow> Approve rid a \<in> set calls \<and>
     rid \<notin> pm_approvals s)"

lemma answers_inv_step: "answers_inv calls s \<Longrightarrow> answers_inv (calls @ [c]) (pairing_step s c)"
proof (cases c)
  case (Attempt now rid open_prompt code name node sas)
  assume inv: "answers_inv calls s"
  show ?thesis
    using inv by (cases "pm_codes s code")
      (auto simp: answers_inv_def Attempt pairing_step_def begin_approval_def Let_def split: if_splits)
qed (auto simp: answers_inv_def pairing_step_def begin_pairing_def prune_expired_def approve_def
    approval_wait_def Let_def split: if_splits)

lemma answers_inv_run: "answers_inv calls (pairing_run calls)"
proof (induction calls rule: rev_induct)
  case Nil
  then show ?case by (simp add: answers_inv_def pairing_new_def)
next
  case (snoc c calls)
  then show ?case using answers_inv_step [of calls _ c] by simp
qed

lemma generated_code_valid: "is_valid_code (generate_code rng)"
proof -
  have "unat (and (rng i) 0x1f) < 32" for i
  proof -
    have "and (rng i) 0x1f \<le> (0x1f :: u8)" by (rule word_and_le1)
    then have "unat (and (rng i) 0x1f) \<le> unat (0x1f :: u8)" by (simp add: word_le_nat_alt)
    then show ?thesis by simp
  qed
  then have "\<forall>c \<in> set (generate_code rng). c \<in> set CODE_ALPHABET"
    by (auto simp: generate_code_def alphabet_length)
  then show ?thesis
    by (simp add: is_valid_code_def list_all_iff generate_code_def)
qed

section \<open>Properties\<close>

text \<open>C13 [code_redeemed_once].  When a pairing attempt gets as far as asking the operator, its code is
  the one the latest pairing generated, no more than five minutes ago, nobody has redeemed it
  before, and fewer than five wrong codes were tried since.  The code is a valid one of the
  alphabet, it is spent by the attempt, and the operator's prompt is asked about exactly the
  device and fingerprint of the attempt.\<close>
theorem code_redeemed_once:
  assumes "begin_approval now rid prompt_open code name node sas (pairing_run calls) = (Inr pending, s')"
  shows "(\<exists>before t0 rng since. calls = before @ Begin t0 rng # since \<and> code = generate_code rng \<and>
      (\<forall>c \<in> set since. \<not> is_begin c) \<and> code \<notin> set (attempts_in since) \<and>
      length (attempts_in since) < 5 \<and> now < t0 + 300000) \<and>
    is_valid_code code \<and> pm_codes s' code = None \<and> rid \<in> pm_approvals s' \<and>
    (\<exists>prompt. last (pm_prompted s') = (prompt, \<lparr>ae_request_id = rid, ae_device_name = name,
        ae_device_node_id = node, ae_sas = sas\<rparr>) \<and> prompt_open prompt) \<and>
    0 < pa_remaining_ms pending \<and> pa_request_id pending = rid"
proof -
  let ?s = "pairing_run calls"
  obtain p where p: "pm_codes ?s code = Some p"
    using assms by (cases "pm_codes ?s code") (auto simp: begin_approval_def)
  then have live: "now < pc_expires_at p"
    and rest: "pm_codes s' code = None" "rid \<in> pm_approvals s'"
      "last (pm_prompted s') = (pc_prompt p, \<lparr>ae_request_id = rid, ae_device_name = name,
        ae_device_node_id = node, ae_sas = sas\<rparr>)" "prompt_open (pc_prompt p)"
      "0 < pa_remaining_ms pending" "pa_request_id pending = rid"
    using assms by (auto simp: begin_approval_def Let_def split: if_splits)
  from p have h: "code_history calls code p"
    using codes_inv_run [of calls] by (simp add: codes_inv_def)
  obtain before t0 rng since where b: "calls = before @ Begin t0 rng # since"
      "code = generate_code rng" "pc_expires_at p = sat_add64 t0 PAIR_TOKEN_TTL_MS"
      "\<forall>c \<in> set since. \<not> is_begin c" "code \<notin> set (attempts_in since)"
      "length (attempts_in since) < MAX_CODE_ATTEMPTS"
    using h unfolding code_history_def by blast
  have "now < t0 + 300000"
    using live b(3) by (simp add: sat_add64_def PAIR_TOKEN_TTL_MS_def)
  then have "\<exists>before t0 rng since. calls = before @ Begin t0 rng # since \<and> code = generate_code rng \<and>
      (\<forall>c \<in> set since. \<not> is_begin c) \<and> code \<notin> set (attempts_in since) \<and>
      length (attempts_in since) < 5 \<and> now < t0 + 300000"
    using b unfolding MAX_CODE_ATTEMPTS_def by blast
  moreover have "is_valid_code code"
    using h generated_code_valid by (auto simp: code_history_def)
  ultimately show ?thesis using rest by blast
qed


definition demo_begun :: pairing_manager where
  "demo_begun = pairing_run [Begin 1000 (\<lambda>_. 31), Attempt 2000 (ClientId 8) (\<lambda>_. True) [] [] [] []]"

lemma demo_code: "generate_code (\<lambda>_. 31) = replicate 7 90"
  by (simp add: generate_code_def CODE_LEN_def map_replicate_const alphabet_eval)

theorem code_redeemed_once_witness:
  "\<exists>pending s'. begin_approval 3000 (ClientId 9) (\<lambda>_. True) (replicate 7 90) (lit ''p'') (lit ''n'') (lit ''s'')
      demo_begun = (Inr pending, s') \<and> pm_codes s' (replicate 7 90) = None"
proof -
  have "pm_codes demo_begun (replicate 7 90) =
      Some \<lparr>pc_expires_at = 301000, pc_attempts = 1, pc_prompt = 0\<rparr>"
    by (simp add: demo_begun_def pairing_step_def begin_pairing_def begin_approval_def demo_code
        charge_attempt_def Let_def prune_expired_def pairing_new_def sat_add64_def sat_add8_def
        u64_max_def u8_max_def PAIR_TOKEN_TTL_MS_def MAX_CODE_ATTEMPTS_def)
  then obtain pending s' where r: "begin_approval 3000 (ClientId 9) (\<lambda>_. True) (replicate 7 90)
      (lit ''p'') (lit ''n'') (lit ''s'') demo_begun = (Inr pending, s')"
    by (simp add: begin_approval_def Let_def)
  from code_redeemed_once [OF r [unfolded demo_begun_def]] r show ?thesis by blast
qed

text \<open>[approval_needs_operator].  A waiting pairing request is granted only when the operator answered
  yes to that very request, in time.  An answer to a request that is not registered, or that
  was answered already, is refused and changes nothing.\<close>
theorem approval_needs_operator:
  assumes "s = pairing_run calls"
  shows "(fst (approval_wait in_time pending s) \<longrightarrow>
      in_time \<and> Approve (pa_request_id pending) True \<in> set calls) \<and>
    (rid \<notin> pm_approvals s \<longrightarrow> snd (approve rid a s) = s \<and> fst (approve rid a s) \<noteq> None) \<and>
    (rid \<in> pm_approvals s \<longrightarrow> fst (approve rid a s) = None \<and>
      pm_answers (snd (approve rid a s)) rid = Some a \<and>
      approve rid b (snd (approve rid a s)) =
        (Some (lit ''pairing request not found or already answered''), snd (approve rid a s)))"
  using answers_inv_run [of calls] assms
  by (auto simp: approval_wait_def approve_def answers_inv_def split: option.splits if_splits)

theorem approval_needs_operator_witness:
  "fst (approve (ClientId 9) True (pairing_run [])) \<noteq> None"
  using approval_needs_operator [of "pairing_run []" "[]" False _ "ClientId 9" True False]
  by (simp add: pairing_new_def)

end
