(* ===== verification/Registry.thy ===== *)
theory Registry
  imports SessionOut Pairing
begin

text \<open>
  The daemon's shared state, \<open>AppState\<close> of \<open>crates/daemon/src/ipc.rs\<close>: the live sessions, the
  restored ones, the reserved session names, the paired devices with their durable rows, the
  published session list and the revocation counters, and the use cases both transports
  call: create, kill, evict on exit, device administration.  The concurrent maps are
  association lists in an unspecified order; an operation is one atomic step.  Whether a
  database transaction fails, fresh ids, random bytes and the environment are arguments.
\<close>

section \<open>State\<close>

record endpoint_info =
  ep_node_id :: rstr
  ep_relay_url :: "rstr option"
  ep_addrs :: "rstr list"

datatype push_command =
    CmdSetDaemonNodeId rstr
  | CmdRegisterToken push_platform rstr
  | CmdUnregisterToken rstr
  | CmdPublishPairingRendezvous rstr pairing_rendezvous

record 'm app =
  ap_sessions :: "(session_id \<times> 'm session) list"
  ap_restored :: "(session_id \<times> stored_session) list"
  ap_names :: "rstr set"
  ap_devices :: "(rstr \<times> stored_device) list"
  ap_persistence :: "persistence_mode option"
  ap_sessions_table :: "bytes table"
  ap_devices_table :: "bytes table"
  ap_pairing :: pairing_manager
  ap_push_enabled :: bool
  ap_push_sent :: "push_command list"
  ap_session_list :: "session_summary list"
  ap_publish_pending :: bool
  ap_revocations :: "rstr \<rightharpoonup> nat"
  ap_endpoint :: "endpoint_info option"

definition push_send :: "push_command \<Rightarrow> 'm app \<Rightarrow> 'm app" where
  "push_send cmd s = (if ap_push_enabled s then s\<lparr>ap_push_sent := ap_push_sent s @ [cmd]\<rparr> else s)"

definition app_open ::
    "persist_crates \<Rightarrow> persistence_mode \<Rightarrow> rstr option \<Rightarrow> rstr option \<Rightarrow> nat \<Rightarrow> bool \<Rightarrow> bytes table \<Rightarrow>
      bytes table \<Rightarrow> rstr + 'm app" where
  "app_open cr md prune_fault load_fault now push_enabled sessions_table devices_table =
     (case prune_sessions cr md prune_fault now sessions_table of
        (Inl e, t) \<Rightarrow> Inl (lit ''prune persisted sessions'')
      | (Inr n, t) \<Rightarrow>
          (case load_sessions cr md load_fault t of
             Inl e \<Rightarrow> Inl (lit ''load persisted sessions'')
           | Inr sessions \<Rightarrow>
               (case load_devices cr md load_fault devices_table of
                  Inl e \<Rightarrow> Inl (lit ''load persisted devices'')
                | Inr devices \<Rightarrow>
                    Inr \<lparr>ap_sessions = [],
                      ap_restored = fold (\<lambda>x. AList.update (ss_id (st_summary x)) x) sessions [],
                      ap_names = set (map (\<lambda>x. ss_name (st_summary x)) sessions),
                      ap_devices = fold (\<lambda>d. AList.update (sd_device_node_id d) d) devices [],
                      ap_persistence = Some md, ap_sessions_table = t,
                      ap_devices_table = devices_table, ap_pairing = pairing_new,
                      ap_push_enabled = push_enabled, ap_push_sent = [], ap_session_list = [],
                      ap_publish_pending = False, ap_revocations = Map.empty,
                      ap_endpoint = None\<rparr>)))"

section \<open>The session list\<close>

definition app_capabilities :: "'m app \<Rightarrow> capabilities" where
  "app_capabilities s = capabilities_v1 (ap_push_enabled s)"

text \<open>Asking a live session for its summary refreshes its last line.\<close>

definition summaries :: "'m parser \<Rightarrow> 'm app \<Rightarrow> session_summary list \<times> 'm app" where
  "summaries tm s =
     (let live = map (\<lambda>(i, x). (i, session_summary_of tm x)) (ap_sessions s) in
      (sort_key ss_created_at
         (map (\<lambda>(i, r). fst r) live @
          map (\<lambda>(i, x). st_summary x)
            (filter (\<lambda>(i, x). map_of (ap_sessions s) (ss_id (st_summary x)) = None) (ap_restored s))),
       s\<lparr>ap_sessions := map (\<lambda>(i, r). (i, snd r)) live\<rparr>))"

definition publish_session_list :: "'m parser \<Rightarrow> 'm app \<Rightarrow> 'm app" where
  "publish_session_list tm s = (case summaries tm s of (l, s') \<Rightarrow> s'\<lparr>ap_session_list := l\<rparr>)"

definition schedule_session_list_publish :: "'m app \<Rightarrow> 'm app" where
  "schedule_session_list_publish s = s\<lparr>ap_publish_pending := True\<rparr>"

text \<open>The end of the 25 ms debounce.\<close>

definition publish_tick :: "'m parser \<Rightarrow> 'm app \<Rightarrow> 'm app" where
  "publish_tick tm s =
     (if ap_publish_pending s then publish_session_list tm (s\<lparr>ap_publish_pending := False\<rparr>) else s)"

definition update_session :: "session_id \<Rightarrow> 'm session \<Rightarrow> 'm app \<Rightarrow> 'm app" where
  "update_session i x s = s\<lparr>ap_sessions := AList.update i x (ap_sessions s)\<rparr>"

section \<open>Restored sessions\<close>

text \<open>The session with the least recent activity: \<open>min_by_key\<close>, the first of several.\<close>

fun oldest_restored :: "(session_id \<times> stored_session) list \<Rightarrow> (session_id \<times> stored_session) option" where
  "oldest_restored [] = None"
| "oldest_restored (r # rs) =
     (case oldest_restored rs of
        None \<Rightarrow> Some r
      | Some q \<Rightarrow> if ss_last_activity (st_summary (snd r)) \<le> ss_last_activity (st_summary (snd q))
                 then Some r else Some q)"

definition evict_oldest :: "persist_crates \<Rightarrow> (session_id \<Rightarrow> rstr option) \<Rightarrow> 'm app \<Rightarrow> 'm app" where
  "evict_oldest cr fault s =
     (case oldest_restored (ap_restored s) of
        None \<Rightarrow> s
      | Some (k, x) \<Rightarrow>
          let oldest_id = ss_id (st_summary x);
              removed = map_of (ap_restored s) oldest_id;
              s1 = s\<lparr>ap_restored := AList.delete oldest_id (ap_restored s)\<rparr>;
              s2 = (case removed of
                  None \<Rightarrow> s1
                | Some r \<Rightarrow> if map_of (ap_sessions s1) oldest_id = None
                    then s1\<lparr>ap_names := ap_names s1 - {ss_name (st_summary r)}\<rparr> else s1) in
          (case ap_persistence s2 of
             None \<Rightarrow> s2
           | Some md \<Rightarrow> s2\<lparr>ap_sessions_table :=
               snd (remove_session cr (fault oldest_id) oldest_id (ap_sessions_table s2))\<rparr>))"

text \<open>The loop of \<open>insert_restored_session\<close>, at most once for each restored session.\<close>

fun evict_excess :: "nat \<Rightarrow> persist_crates \<Rightarrow> (session_id \<Rightarrow> rstr option) \<Rightarrow> 'm app \<Rightarrow> 'm app" where
  "evict_excess 0 cr fault s = s"
| "evict_excess (Suc n) cr fault s =
     (if MAX_STORED_SESSIONS < length (ap_restored s)
      then evict_excess n cr fault (evict_oldest cr fault s) else s)"

definition insert_restored_session ::
    "persist_crates \<Rightarrow> (session_id \<Rightarrow> rstr option) \<Rightarrow> stored_session \<Rightarrow> 'm app \<Rightarrow> 'm app" where
  "insert_restored_session cr fault x s =
     (let s1 = s\<lparr>ap_names := insert (ss_name (st_summary x)) (ap_names s),
            ap_restored := AList.update (ss_id (st_summary x)) x (ap_restored s)\<rparr> in
      evict_excess (length (ap_restored s1)) cr fault s1)"

definition evict_naturally_exited_session ::
    "'m parser \<Rightarrow> persist_crates \<Rightarrow> (session_id \<Rightarrow> rstr option) \<Rightarrow> session_id \<Rightarrow> 'm app \<Rightarrow> 'm app" where
  "evict_naturally_exited_session tm cr fault sid s =
     (case map_of (ap_sessions s) sid of
        None \<Rightarrow> publish_session_list tm s
      | Some x \<Rightarrow>
          if se_killed x then publish_session_list tm s
          else
            let stored = stored_snapshot x;
                s1 = insert_restored_session cr fault stored s;
                s2 = s1\<lparr>ap_sessions := AList.delete sid (ap_sessions s1)\<rparr>;
                s3 = (if map_of (ap_restored s2) sid = None
                      then s2\<lparr>ap_names := ap_names s2 - {ss_name (st_summary stored)}\<rparr> else s2) in
            publish_session_list tm s3)"

text \<open>The forwarder of a session's summary updates, for one update.\<close>

definition session_list_forward ::
    "'m parser \<Rightarrow> persist_crates \<Rightarrow> (session_id \<Rightarrow> rstr option) \<Rightarrow> session_id \<Rightarrow> bool \<Rightarrow> 'm app \<Rightarrow> 'm app" where
  "session_list_forward tm cr fault sid exited s =
     (if exited then evict_naturally_exited_session tm cr fault sid s
      else schedule_session_list_publish s)"

section \<open>Names\<close>

definition AUTO_SESSION_NAMES :: "rstr list" where
  "AUTO_SESSION_NAMES = map lit [''waffle'', ''pickle'', ''noodle'', ''bagel'', ''nacho'', ''spatula'',
     ''kazoo'', ''widget'', ''pancake'', ''sprocket'', ''marble'', ''boomerang'', ''muffin'', ''donut'',
     ''toaster'', ''sprinkle'', ''gizmo'', ''jellybean'']"

definition validate_requested_session_name :: "rstr \<Rightarrow> rstr + rstr option" where
  "validate_requested_session_name requested =
     (let name = trim requested in
      if list_ex is_control name then Inl (lit ''session name cannot contain control characters'')
      else Inr (if name \<noteq> [] then Some name else None))"

text \<open>
  The first free name: an automatic one from the start index on, then the base name with the
  suffixes \<open>2, 3, \<dots>\<close>.  A free suffix is found within one more than the number of names.
\<close>

definition auto_session_name :: "nat \<Rightarrow> rstr set \<Rightarrow> rstr" where
  "auto_session_name start names =
     (let n = length AUTO_SESSION_NAMES in
      case List.find (\<lambda>name. name \<notin> names) (map (\<lambda>i. AUTO_SESSION_NAMES ! ((start + i) mod n)) [0..<n]) of
        Some name \<Rightarrow> name
      | None \<Rightarrow>
          let base = AUTO_SESSION_NAMES ! (start mod n) in
          (case List.find (\<lambda>k. base @ dec k \<notin> names) [2..<card names + 3] of
             Some k \<Rightarrow> base @ dec k
           | None \<Rightarrow> []))"

definition reserve_new_session_name :: "nat \<Rightarrow> rstr \<Rightarrow> rstr set \<Rightarrow> rstr + (rstr \<times> rstr set)" where
  "reserve_new_session_name start requested names =
     (case validate_requested_session_name requested of
        Inl e \<Rightarrow> Inl e
      | Inr (Some name) \<Rightarrow>
          if name \<in> names then Inl (lit ''session name already exists: '' @ name)
          else Inr (name, insert name names)
      | Inr None \<Rightarrow> let name = auto_session_name start names in Inr (name, insert name names))"

section \<open>Create and kill\<close>

definition MAX_TERMINAL_DIMENSION :: nat where "MAX_TERMINAL_DIMENSION = 1000"

definition invalid_client_size :: "client_size \<Rightarrow> server_msg option" where
  "invalid_client_size sz =
     (if rows sz \<noteq> 0 \<and> cols sz \<noteq> 0 \<and> rows sz \<le> MAX_TERMINAL_DIMENSION \<and> cols sz \<le> MAX_TERMINAL_DIMENSION
      then None
      else Some (Error InvalidRequest
        (lit ''terminal size must have rows and cols in 1..='' @ dec MAX_TERMINAL_DIMENSION @
         lit ''; got rows='' @ dec (rows sz) @ lit '', cols='' @ dec (cols sz))))"

definition default_shell_from_env :: "rstr option \<Rightarrow> rstr" where
  "default_shell_from_env shell =
     (case shell of
        None \<Rightarrow> lit ''/bin/sh''
      | Some v \<Rightarrow> if trim v = [] then lit ''/bin/sh'' else trim v)"

definition default_session_command :: "rstr option \<Rightarrow> rstr list" where
  "default_session_command shell = [default_shell_from_env shell]"

definition default_home_dir :: "rstr option \<Rightarrow> rstr" where
  "default_home_dir home =
     (case home of None \<Rightarrow> lit ''/'' | Some p \<Rightarrow> if p = [] then lit ''/'' else p)"

text \<open>What a create takes from the system: the fresh id, clock, environment and failures.\<close>

record spawn_context =
  sp_id :: session_id
  sp_id_text :: rstr
  sp_now :: nat
  sp_fault :: "rstr option"
  sp_shell :: "rstr option"
  sp_home :: "rstr option"
  sp_start :: nat

definition create_session_for ::
    "'m parser \<Rightarrow> spawn_context \<Rightarrow> client_kind \<Rightarrow> rstr \<Rightarrow> rstr list \<Rightarrow> rstr \<Rightarrow> (rstr \<rightharpoonup> rstr) \<Rightarrow>
      client_size \<Rightarrow> 'm app \<Rightarrow> server_msg \<times> 'm app" where
  "create_session_for tm sp kind name command cwd env sz s =
     (case invalid_client_size sz of
        Some error \<Rightarrow> (error, s)
      | None \<Rightarrow>
          let shell_only = requires_shell_only_sessions kind;
              command' = (if shell_only then default_session_command (sp_shell sp) else command);
              cwd' = (if shell_only then default_home_dir (sp_home sp) else cwd);
              env' = (if shell_only then Map.empty else env) in
          (case reserve_new_session_name (sp_start sp) name (ap_names s) of
             Inl e \<Rightarrow> (Error InvalidRequest e, s)
           | Inr (name', names') \<Rightarrow>
               (case session_spawn tm (sp_fault sp) (sp_id sp) (sp_id_text sp) (sp_now sp) name' command'
                       cwd' env' sz (ap_persistence s \<noteq> None) True of
                  Inl e \<Rightarrow> (Error InvalidRequest e, s\<lparr>ap_names := names' - {name'}\<rparr>)
                | Inr x \<Rightarrow>
                    (case session_summary_of tm x of (summary, x') \<Rightarrow>
                       (SessionCreated (sp_id sp) summary,
                        publish_session_list tm
                          (s\<lparr>ap_names := names',
                             ap_restored := AList.delete (sp_id sp) (ap_restored s),
                             ap_sessions := AList.update (sp_id sp) x' (ap_sessions s)\<rparr>))))))"

text \<open>\<open>sid_text\<close> is the text of the session's UUID; the error is the top context.\<close>

definition kill_session_for ::
    "'m parser \<Rightarrow> persist_crates \<Rightarrow> child_status \<Rightarrow> rstr option \<Rightarrow> session_id \<Rightarrow> 'm app \<Rightarrow>
      rstr option \<times> 'm app" where
  "kill_session_for tm cr child fault sid s =
     (let sid_text = uuid_text cr (session_uuid sid);
          killed = (case map_of (ap_sessions s) sid of
              None \<Rightarrow> Inr (None, s)
            | Some x \<Rightarrow>
                (case session_kill child x of (ok, x') \<Rightarrow>
                   if ok then Inr (Some (se_name x),
                     s\<lparr>ap_sessions := AList.delete sid (ap_sessions s)\<rparr>)
                   else Inl (update_session sid x' s))) in
      case killed of
        Inl s' \<Rightarrow> (Some (lit ''kill session '' @ sid_text), s')
      | Inr (live_name, s1) \<Rightarrow>
          let restored = map_of (ap_restored s1) sid;
              removed_name = (case live_name of
                  Some n \<Rightarrow> Some n
                | None \<Rightarrow> map_option (\<lambda>x. ss_name (st_summary x)) restored);
              s2 = s1\<lparr>ap_restored := AList.delete sid (ap_restored s1)\<rparr>;
              s3 = (case removed_name of None \<Rightarrow> s2 | Some n \<Rightarrow> s2\<lparr>ap_names := ap_names s2 - {n}\<rparr>) in
          (case ap_persistence s3 of
             None \<Rightarrow> (None, publish_session_list tm s3)
           | Some md \<Rightarrow>
               (case remove_session cr fault sid (ap_sessions_table s3) of
                  (None, t) \<Rightarrow> (None, publish_session_list tm (s3\<lparr>ap_sessions_table := t\<rparr>))
                | (Some e, t) \<Rightarrow>
                    (Some (lit ''remove persisted session '' @ sid_text),
                     publish_session_list tm (s3\<lparr>ap_sessions_table := t\<rparr>)))))"

definition kill_session_response ::
    "'m parser \<Rightarrow> persist_crates \<Rightarrow> child_status \<Rightarrow> rstr option \<Rightarrow> session_id \<Rightarrow> 'm app \<Rightarrow>
      server_msg \<times> 'm app" where
  "kill_session_response tm cr child fault sid s =
     (case kill_session_for tm cr child fault sid s of
        (None, s') \<Rightarrow> (SessionKilled sid, s')
      | (Some e, s') \<Rightarrow> (Error Internal e, s'))"

section \<open>The endpoint\<close>

definition set_iroh_endpoint :: "endpoint_info \<Rightarrow> 'm app \<Rightarrow> 'm app" where
  "set_iroh_endpoint info s =
     (push_send (CmdSetDaemonNodeId (ep_node_id info)) s)\<lparr>ap_endpoint := Some info\<rparr>"

definition app_pairing_ticket :: "rstr \<Rightarrow> nat \<Rightarrow> endpoint_info option \<Rightarrow> rstr + pairing_ticket" where
  "app_pairing_ticket code expires_at endpoint =
     (case endpoint of
        None \<Rightarrow> Inl (lit ''iroh endpoint is not ready yet'')
      | Some info \<Rightarrow> Inr \<lparr>pt_code = code, pt_node_id = ep_node_id info, pt_relay_url = ep_relay_url info,
          pt_addrs = ep_addrs info, pt_expires_at = expires_at\<rparr>)"

text \<open>\<open>endpoint_at k\<close>: the endpoint as the \<open>k\<close>-th poll finds it; a hundred polls, then the last.\<close>

definition wait_pairing_ticket :: "rstr \<Rightarrow> nat \<Rightarrow> (nat \<Rightarrow> endpoint_info option) \<Rightarrow> rstr + pairing_ticket" where
  "wait_pairing_ticket code expires_at endpoint_at =
     (case List.find (\<lambda>k. endpoint_at k \<noteq> None) [0..<100] of
        Some k \<Rightarrow> app_pairing_ticket code expires_at (endpoint_at k)
      | None \<Rightarrow> app_pairing_ticket code expires_at (endpoint_at 100))"

definition iroh_node_id :: "'m app \<Rightarrow> rstr option" where
  "iroh_node_id s = map_option ep_node_id (ap_endpoint s)"

section \<open>Devices\<close>

text \<open>\<open>nonce\<close>: the random bytes of the encryption; \<open>fault\<close>: the failing database step.\<close>

definition persist_device ::
    "persist_crates \<Rightarrow> bytes \<Rightarrow> rstr option \<Rightarrow> stored_device \<Rightarrow> 'm app \<Rightarrow> rstr option \<times> 'm app" where
  "persist_device cr nonce fault d s =
     (case ap_persistence s of
        None \<Rightarrow> (None, s)
      | Some md \<Rightarrow>
          (case Persist.save_device cr md nonce fault d (ap_devices_table s) of
             (r, t) \<Rightarrow> (r, s\<lparr>ap_devices_table := t\<rparr>)))"

definition device_summaries :: "'m app \<Rightarrow> device_summary list" where
  "device_summaries s = sort_key ds_paired_at (map (\<lambda>(k, d). device_summary_of d) (ap_devices s))"

definition app_save_device ::
    "persist_crates \<Rightarrow> bytes \<Rightarrow> rstr option \<Rightarrow> stored_device \<Rightarrow> 'm app \<Rightarrow> rstr option \<times> 'm app" where
  "app_save_device cr nonce fault d s =
     (case persist_device cr nonce fault d s of
        (Some e, s') \<Rightarrow> (Some e, s')
      | (None, s') \<Rightarrow> (None, s'\<lparr>ap_devices := AList.update (sd_device_node_id d) d (ap_devices s')\<rparr>))"

definition is_device_paired :: "'m app \<Rightarrow> rstr \<Rightarrow> bool" where
  "is_device_paired s node = (map_of (ap_devices s) node \<noteq> None)"

definition subscribe_device_revocation :: "rstr \<Rightarrow> 'm app \<Rightarrow> 'm app" where
  "subscribe_device_revocation node s =
     (case ap_revocations s node of
        None \<Rightarrow> s\<lparr>ap_revocations := (ap_revocations s)(node \<mapsto> 0)\<rparr>
      | Some _ \<Rightarrow> s)"

definition revoke_device_connections :: "rstr \<Rightarrow> 'm app \<Rightarrow> 'm app" where
  "revoke_device_connections node s =
     (case ap_revocations s node of
        None \<Rightarrow> s
      | Some n \<Rightarrow> s\<lparr>ap_revocations := (ap_revocations s)(node \<mapsto> wrap_add64 n 1)\<rparr>)"

definition remove_device_by_node_id ::
    "persist_crates \<Rightarrow> rstr option \<Rightarrow> rstr \<Rightarrow> 'm app \<Rightarrow> (rstr + stored_device option) \<times> 'm app" where
  "remove_device_by_node_id cr fault node s =
     (case map_of (ap_devices s) node of
        None \<Rightarrow> (Inr None, s)
      | Some d \<Rightarrow>
          (case (case ap_persistence s of
                   None \<Rightarrow> (None, ap_devices_table s)
                 | Some md \<Rightarrow> Persist.remove_device cr fault node (ap_devices_table s)) of
             (Some e, t) \<Rightarrow> (Inl e, s\<lparr>ap_devices_table := t\<rparr>)
           | (None, t) \<Rightarrow>
               let s1 = revoke_device_connections node
                     (s\<lparr>ap_devices_table := t, ap_devices := AList.delete node (ap_devices s)\<rparr>) in
               (Inr (Some d),
                case sd_push_token d of None \<Rightarrow> s1 | Some token \<Rightarrow> push_send (CmdUnregisterToken token) s1)))"

definition app_remove_device ::
    "persist_crates \<Rightarrow> rstr option \<Rightarrow> rstr \<Rightarrow> 'm app \<Rightarrow> (rstr + stored_device option) \<times> 'm app" where
  "app_remove_device cr fault name s =
     (case List.find (\<lambda>(k, d). sd_name d = name \<or> sd_device_node_id d = name) (ap_devices s) of
        None \<Rightarrow> (Inr None, s)
      | Some (k, d) \<Rightarrow> remove_device_by_node_id cr fault (sd_device_node_id d) s)"

definition unpair_self ::
    "persist_crates \<Rightarrow> rstr option \<Rightarrow> rstr \<Rightarrow> 'm app \<Rightarrow> (rstr + stored_device option) \<times> 'm app" where
  "unpair_self cr fault node s = remove_device_by_node_id cr fault node s"

text \<open>These three change the device in memory first; an error leaves that change in place.\<close>

definition update_device_push ::
    "persist_crates \<Rightarrow> bytes \<Rightarrow> rstr option \<Rightarrow> nat \<Rightarrow> rstr \<Rightarrow> push_platform \<Rightarrow> rstr \<Rightarrow> 'm app \<Rightarrow>
      (rstr + bool) \<times> 'm app" where
  "update_device_push cr nonce fault now node platform token s =
     (case map_of (ap_devices s) node of
        None \<Rightarrow> (Inr False, s)
      | Some d \<Rightarrow>
          let d' = set_push_token now platform token d;
              s1 = s\<lparr>ap_devices := AList.update node d' (ap_devices s)\<rparr> in
          (case persist_device cr nonce fault d' s1 of
             (Some e, s2) \<Rightarrow> (Inl e, s2)
           | (None, s2) \<Rightarrow> (Inr True, push_send (CmdRegisterToken platform token) s2)))"

definition clear_device_push ::
    "persist_crates \<Rightarrow> bytes \<Rightarrow> rstr option \<Rightarrow> nat \<Rightarrow> rstr \<Rightarrow> push_platform \<Rightarrow> rstr \<Rightarrow> 'm app \<Rightarrow>
      (rstr + bool) \<times> 'm app" where
  "clear_device_push cr nonce fault now node platform token s =
     (case map_of (ap_devices s) node of
        None \<Rightarrow> (Inr False, s)
      | Some d \<Rightarrow>
          if sd_push_platform d = Some platform \<and> sd_push_token d = Some token then
            let d' = Persist.clear_push_token now d;
                s1 = s\<lparr>ap_devices := AList.update node d' (ap_devices s)\<rparr> in
            (case persist_device cr nonce fault d' s1 of
               (Some e, s2) \<Rightarrow> (Inl e, s2)
             | (None, s2) \<Rightarrow> (Inr True, push_send (CmdUnregisterToken token) s2))
          else (Inr True, s))"

definition mark_device_seen ::
    "persist_crates \<Rightarrow> bytes \<Rightarrow> rstr option \<Rightarrow> nat \<Rightarrow> rstr \<Rightarrow> 'm app \<Rightarrow> (rstr + bool) \<times> 'm app" where
  "mark_device_seen cr nonce fault now node s =
     (case map_of (ap_devices s) node of
        None \<Rightarrow> (Inr False, s)
      | Some d \<Rightarrow>
          let d' = mark_seen now d;
              s1 = s\<lparr>ap_devices := AList.update node d' (ap_devices s)\<rparr> in
          (case persist_device cr nonce fault d' s1 of
             (Some e, s2) \<Rightarrow> (Inl e, s2)
           | (None, s2) \<Rightarrow> (Inr True, s2)))"

end
