(* ===== verification/RegistryInv.thy ===== *)
theory RegistryInv
  imports Registry
begin

text \<open>
  The invariant of the daemon's registry and what its use cases guarantee: session names are
  unique and reserved exactly while a session uses them, the restored sessions are bounded,
  every live session keeps its own invariants; create, kill and device administration.
\<close>

section \<open>Events\<close>

datatype registry_event =
    RCreate spawn_context client_kind rstr "rstr list" rstr "rstr \<rightharpoonup> rstr" client_size
  | RKill child_status "rstr option" session_id
  | RForward "session_id \<Rightarrow> rstr option" session_id bool
  | RSession session_id session_event
  | RPublish
  | RPublishTick
  | RSaveDevice bytes "rstr option" stored_device
  | RRemoveDevice "rstr option" rstr
  | RUnpairSelf "rstr option" rstr
  | RUpdatePush bytes "rstr option" nat rstr push_platform rstr
  | RClearPush bytes "rstr option" nat rstr push_platform rstr
  | RSeen bytes "rstr option" nat rstr
  | REndpoint endpoint_info

text \<open>A fresh UUID is not the id of a session the daemon knows.\<close>

definition fresh_id :: "'m app \<Rightarrow> session_id \<Rightarrow> bool" where
  "fresh_id s i \<longleftrightarrow> map_of (ap_sessions s) i = None \<and> map_of (ap_restored s) i = None"

definition registry_step ::
    "'m parser \<Rightarrow> (rstr \<Rightarrow> codex_event option) \<Rightarrow> persist_crates \<Rightarrow> 'm app \<Rightarrow> registry_event \<Rightarrow> 'm app" where
  "registry_step tm from_str cr s ev = (case ev of
      RCreate sp kind name command cwd env sz \<Rightarrow>
        (if fresh_id s (sp_id sp) then snd (create_session_for tm sp kind name command cwd env sz s) else s)
    | RKill child fault sid \<Rightarrow> snd (kill_session_response tm cr child fault sid s)
    | RForward fault sid exited \<Rightarrow> session_list_forward tm cr fault sid exited s
    | RSession sid e \<Rightarrow>
        (case map_of (ap_sessions s) sid of None \<Rightarrow> s
         | Some x \<Rightarrow> update_session sid (session_step tm from_str x e) s)
    | RPublish \<Rightarrow> publish_session_list tm s
    | RPublishTick \<Rightarrow> publish_tick tm s
    | RSaveDevice nonce fault d \<Rightarrow> snd (app_save_device cr nonce fault d s)
    | RRemoveDevice fault name \<Rightarrow> snd (app_remove_device cr fault name s)
    | RUnpairSelf fault node \<Rightarrow> snd (unpair_self cr fault node s)
    | RUpdatePush nonce fault now node p t \<Rightarrow> snd (update_device_push cr nonce fault now node p t s)
    | RClearPush nonce fault now node p t \<Rightarrow> snd (clear_device_push cr nonce fault now node p t s)
    | RSeen nonce fault now node \<Rightarrow> snd (mark_device_seen cr nonce fault now node s)
    | REndpoint info \<Rightarrow> set_iroh_endpoint info s)"

section \<open>Invariant\<close>

text \<open>Which session holds which name.\<close>

definition owner :: "'m app \<Rightarrow> session_id \<Rightarrow> rstr \<Rightarrow> bool" where
  "owner s i n \<longleftrightarrow> (\<exists>x. map_of (ap_sessions s) i = Some x \<and> se_name x = n) \<or>
     (\<exists>x. map_of (ap_restored s) i = Some x \<and> ss_name (st_summary x) = n)"

definition names_ok :: "'m app \<Rightarrow> bool" where
  "names_ok s \<longleftrightarrow> ap_names s = {n. \<exists>i. owner s i n} \<and>
     (\<forall>i j n. owner s i n \<and> owner s j n \<longrightarrow> i = j) \<and> (\<forall>i m n. owner s i m \<and> owner s i n \<longrightarrow> m = n)"

definition entries_ok :: "'m app \<Rightarrow> bool" where
  "entries_ok s \<longleftrightarrow> distinct (map fst (ap_sessions s)) \<and> distinct (map fst (ap_restored s)) \<and>
     (\<forall>i x. map_of (ap_sessions s) i = Some x \<longrightarrow> se_id x = i \<and> session_inv x \<and> capture_inv x) \<and>
     (\<forall>i x. map_of (ap_restored s) i = Some x \<longrightarrow> ss_id (st_summary x) = i)"

definition registry_inv :: "'m app \<Rightarrow> bool" where
  "registry_inv s \<longleftrightarrow> names_ok s \<and> entries_ok s \<and> length (ap_restored s) \<le> MAX_STORED_SESSIONS"

text \<open>Operations that leave the session maps, their names and the reserved names alone.\<close>

definition same_registry :: "'m app \<Rightarrow> 'm app \<Rightarrow> bool" where
  "same_registry s s' \<longleftrightarrow> ap_sessions s' = ap_sessions s \<and> ap_restored s' = ap_restored s \<and>
     ap_names s' = ap_names s"

lemma same_registry_names: "same_registry s s' \<Longrightarrow> names_ok s \<Longrightarrow> names_ok s'"
proof -
  assume same: "same_registry s s'" and "names_ok s"
  then have "owner s' = owner s" "ap_names s' = ap_names s"
    by (auto simp: same_registry_def owner_def intro!: ext)
  with \<open>names_ok s\<close> show "names_ok s'" unfolding names_ok_def by simp
qed

lemma same_registry_entries: "same_registry s s' \<Longrightarrow> entries_ok s \<Longrightarrow> entries_ok s'"
  unfolding same_registry_def entries_ok_def by (elim conjE) (simp only: simp_thms)

lemma registry_inv_same: "same_registry s s' \<Longrightarrow> registry_inv s \<Longrightarrow> registry_inv s'"
  using same_registry_names [of s s'] same_registry_entries [of s s']
  unfolding registry_inv_def by (simp add: same_registry_def)

section \<open>Sessions keep their name and id\<close>

lemma micro_identity: "micro s s' \<Longrightarrow> se_id s' = se_id s \<and> se_name s' = se_name s"
proof (induction rule: micro.induct)
  case (micro_state s now st l)
  then show ?case by (cases "se_state s = st") (simp_all add: set_state_same set_state_changes)
next
  case (micro_finish s ok code)
  then show ?case by (simp add: finish_fields)
qed (simp_all add: same_life_def pty_try_send_def take_pending_def split: list.split)

lemma evolves_identity: "evolves s s' \<Longrightarrow> se_id s' = se_id s \<and> se_name s' = se_name s"
  by (induction rule: rtranclp_induct) (auto dest: micro_identity)

lemma session_step_identity:
  "session_inv s \<Longrightarrow> se_id (session_step tm from_str s ev) = se_id s \<and>
    se_name (session_step tm from_str s ev) = se_name s"
  by (rule evolves_identity [OF evolves_step]) (simp add: session_inv_def life_inv_def)

lemma session_step_keeps:
  "se_id x = i \<and> session_inv x \<and> capture_inv x \<Longrightarrow>
    se_id (session_step tm from_str x ev) = i \<and> se_name (session_step tm from_str x ev) = se_name x \<and>
    session_inv (session_step tm from_str x ev) \<and> capture_inv (session_step tm from_str x ev)"
  by (simp add: session_step_identity session_machine.step_inv capture.step_inv)

lemma summary_step: "snd (session_summary_of tm x) = session_step tm (\<lambda>_. None) x CallSummary"
  by (simp add: session_step_def)

text \<open>Replacing live sessions by later states of themselves.\<close>

lemma registry_inv_sessions:
  assumes "registry_inv s"
    and "map fst ss = map fst (ap_sessions s)"
    and "\<And>i x'. map_of ss i = Some x' \<Longrightarrow> \<exists>x. map_of (ap_sessions s) i = Some x \<and> se_name x' = se_name x \<and>
      (se_id x = i \<and> session_inv x \<and> capture_inv x \<longrightarrow> se_id x' = i \<and> session_inv x' \<and> capture_inv x')"
    and "\<And>i. map_of ss i = None \<longleftrightarrow> map_of (ap_sessions s) i = None"
  shows "registry_inv (s\<lparr>ap_sessions := ss\<rparr>)"
proof -
  have "owner (s\<lparr>ap_sessions := ss\<rparr>) i n \<longleftrightarrow> owner s i n" for i n
  proof -
    have "(\<exists>x. map_of ss i = Some x \<and> se_name x = n) \<longleftrightarrow>
        (\<exists>x. map_of (ap_sessions s) i = Some x \<and> se_name x = n)"
      using assms(3) [of i] assms(4) [of i] by (metis not_None_eq option.inject)
    then show ?thesis by (simp add: owner_def)
  qed
  then have "names_ok (s\<lparr>ap_sessions := ss\<rparr>)"
    using assms(1) by (simp add: registry_inv_def names_ok_def)
  moreover have "entries_ok (s\<lparr>ap_sessions := ss\<rparr>)"
    using assms(1,2,3) unfolding registry_inv_def entries_ok_def by fastforce
  ultimately show ?thesis using assms(1) by (simp add: registry_inv_def)
qed

lemma registry_inv_publish: "registry_inv s \<Longrightarrow> registry_inv (publish_session_list tm s)"
proof -
  assume inv: "registry_inv s"
  define ss where "ss = map (\<lambda>(i, x). (i, snd (session_summary_of tm x))) (ap_sessions s)"
  have m: "map_of ss i = map_option (\<lambda>x. snd (session_summary_of tm x)) (map_of (ap_sessions s) i)" for i
    unfolding ss_def by (simp add: map_of_map)
  have fst: "map fst ss = map fst (ap_sessions s)"
    by (simp add: ss_def comp_def split_beta)
  have "registry_inv (s\<lparr>ap_sessions := ss\<rparr>)"
  proof (rule registry_inv_sessions [OF inv fst])
    fix i x'
    assume "map_of ss i = Some x'"
    then obtain x where x: "map_of (ap_sessions s) i = Some x" "x' = snd (session_summary_of tm x)"
      by (auto simp: m)
    then have "session_inv x" using inv by (auto simp: registry_inv_def entries_ok_def)
    then have "se_name x' = se_name x" unfolding x(2) summary_step by (simp add: session_step_identity)
    then show "\<exists>x. map_of (ap_sessions s) i = Some x \<and> se_name x' = se_name x \<and>
        (se_id x = i \<and> session_inv x \<and> capture_inv x \<longrightarrow> se_id x' = i \<and> session_inv x' \<and> capture_inv x')"
      using x session_step_keeps [of x i tm "\<lambda>_. None" CallSummary] unfolding summary_step by auto
  qed (simp add: m)
  moreover have "same_registry (s\<lparr>ap_sessions := ss\<rparr>) (publish_session_list tm s)"
    by (simp add: same_registry_def publish_session_list_def summaries_def ss_def Let_def comp_def
        split_beta)
  ultimately show ?thesis by (rule registry_inv_same [rotated])
qed

lemma registry_inv_session:
  assumes inv: "registry_inv s" and x: "map_of (ap_sessions s) i = Some x"
    and id: "se_name x' = se_name x" "se_id x' = i \<and> session_inv x' \<and> capture_inv x'"
  shows "registry_inv (update_session i x' s)"
proof -
  have i: "i \<in> fst ` set (ap_sessions s)"
    using x by (metis domI dom_map_of_conv_image_fst)
  have m: "map_of (AList.update i x' (ap_sessions s)) = (map_of (ap_sessions s))(i \<mapsto> x')"
    by (rule update_conv')
  have fst: "map fst (AList.update i x' (ap_sessions s)) = map fst (ap_sessions s)"
    using i by (simp add: update_keys)
  show ?thesis
    unfolding update_session_def
  proof (rule registry_inv_sessions [OF inv fst])
    fix j y
    assume "map_of (AList.update i x' (ap_sessions s)) j = Some y"
    then show "\<exists>x. map_of (ap_sessions s) j = Some x \<and> se_name y = se_name x \<and>
        (se_id x = j \<and> session_inv x \<and> capture_inv x \<longrightarrow> se_id y = j \<and> session_inv y \<and> capture_inv y)"
      using x id by (auto simp: m split: if_splits)
  qed (use x in \<open>auto simp: m\<close>)
qed

section \<open>Evicting and restoring\<close>

lemma oldest_restored_mem: "oldest_restored rs = Some r \<Longrightarrow> r \<in> set rs"
  by (induction rs arbitrary: r) (auto split: option.splits if_splits)

lemma oldest_restored_None: "oldest_restored rs = None \<longleftrightarrow> rs = []"
  by (cases rs) (auto split: option.splits)

lemma owner_delete_restored:
  "owner (s\<lparr>ap_restored := AList.delete i (ap_restored s)\<rparr>) j n \<longleftrightarrow>
    (\<exists>x. map_of (ap_sessions s) j = Some x \<and> se_name x = n) \<or>
    (j \<noteq> i \<and> (\<exists>x. map_of (ap_restored s) j = Some x \<and> ss_name (st_summary x) = n))"
  by (auto simp: owner_def delete_conv')

text \<open>Taking ownerships away, with the names nobody has any more.\<close>

lemma names_ok_shrink:
  assumes "names_ok s" and "\<And>j n. owner s' j n \<Longrightarrow> owner s j n"
    and "\<And>j n. owner s j n \<Longrightarrow> \<not> owner s' j n \<Longrightarrow> j = i"
    and "ap_names s' = (if \<exists>n. owner s' i n then ap_names s else ap_names s - {n. owner s i n})"
  shows "names_ok s'"
proof -
  have names: "ap_names s = {n. \<exists>i. owner s i n}"
    and inj: "\<And>i j n. owner s i n \<Longrightarrow> owner s j n \<Longrightarrow> i = j"
    and fn: "\<And>i m n. owner s i m \<Longrightarrow> owner s i n \<Longrightarrow> m = n"
    using assms(1) unfolding names_ok_def by blast+
  have "ap_names s' = {n. \<exists>j. owner s' j n}"
  proof (cases "\<exists>n. owner s' i n")
    case True
    then have "owner s j n \<Longrightarrow> owner s' j n" for j n
      using assms(2,3) fn by metis
    then have "owner s' j n \<longleftrightarrow> owner s j n" for j n using assms(2) by blast
    then show ?thesis using True names assms(4) by simp
  next
    case False
    have "(\<exists>j. owner s' j n) \<longleftrightarrow> (\<exists>j. owner s j n) \<and> \<not> owner s i n" for n
    proof
      assume "\<exists>j. owner s' j n"
      then obtain j where j: "owner s' j n" by blast
      then have "j \<noteq> i" using False by blast
      then show "(\<exists>j. owner s j n) \<and> \<not> owner s i n"
        using assms(2) [OF j] inj by blast
    next
      assume "(\<exists>j. owner s j n) \<and> \<not> owner s i n"
      then show "\<exists>j. owner s' j n" using assms(3) by blast
    qed
    then show ?thesis using False names assms(4) by auto
  qed
  moreover have "\<forall>i j n. owner s' i n \<and> owner s' j n \<longrightarrow> i = j"
    using assms(2) inj by blast
  moreover have "\<forall>i m n. owner s' i m \<and> owner s' i n \<longrightarrow> m = n"
    using assms(2) fn by blast
  ultimately show ?thesis unfolding names_ok_def by blast
qed

lemma owner_unique: "names_ok s \<Longrightarrow> owner s i m \<Longrightarrow> {n. owner s i n} = {m}"
  unfolding names_ok_def by blast

text \<open>Forgetting a restored session, and its name when no live session has it.\<close>

lemma forget_restored:
  assumes ok: "names_ok s" and r: "map_of (ap_restored s) i = Some r"
    and s': "ap_sessions s' = ap_sessions s" "ap_restored s' = AList.delete i (ap_restored s)"
      "ap_names s' = (if map_of (ap_sessions s) i = None then ap_names s - {ss_name (st_summary r)}
        else ap_names s)"
  shows "names_ok s'"
proof (rule names_ok_shrink [OF ok, where i = i])
  have own: "owner s' j n \<longleftrightarrow> (\<exists>x. map_of (ap_sessions s) j = Some x \<and> se_name x = n) \<or>
    (j \<noteq> i \<and> (\<exists>x. map_of (ap_restored s) j = Some x \<and> ss_name (st_summary x) = n))" for j n
    by (auto simp: owner_def delete_conv' s')
  show "owner s' j n \<Longrightarrow> owner s j n" for j n
    unfolding own by (auto simp: owner_def)
  show "owner s j n \<Longrightarrow> \<not> owner s' j n \<Longrightarrow> j = i" for j n
    unfolding own by (auto simp: owner_def)
  have "owner s i (ss_name (st_summary r))" using r by (auto simp: owner_def)
  then have "{n. owner s i n} = {ss_name (st_summary r)}" by (rule owner_unique [OF ok])
  moreover have "(\<exists>n. owner s' i n) \<longleftrightarrow> map_of (ap_sessions s) i \<noteq> None"
    unfolding own by auto
  ultimately show "ap_names s' = (if \<exists>n. owner s' i n then ap_names s else ap_names s - {n. owner s i n})"
    by (simp add: s'(3))
qed

lemma forget_entries:
  assumes "entries_ok s" and "ap_sessions s' = ap_sessions s"
    and "ap_restored s' = AList.delete i (ap_restored s)"
  shows "entries_ok s'"
  using assms(1) unfolding entries_ok_def assms(2,3)
  by (simp add: delete_conv' distinct_delete)

lemma length_delete_key:
  "(k, x) \<in> set xs \<Longrightarrow> distinct (map fst xs) \<Longrightarrow> length (AList.delete k xs) = length xs - 1"
proof (induction xs)
  case (Cons y ys)
  show ?case
  proof (cases "fst y = k")
    case True
    then have "k \<notin> fst ` set ys" using Cons.prems(2) by auto
    then have "AList.delete k ys = ys" by (rule delete_id)
    then show ?thesis using True by (cases y) simp
  next
    case False
    then have "(k, x) \<in> set ys" using Cons.prems(1) by auto
    then have "length (AList.delete k ys) = length ys - 1" "0 < length ys"
      using Cons by auto
    then show ?thesis using False by (cases y) auto
  qed
qed simp

lemma evict_oldest_inv:
  assumes "names_ok s" and "entries_ok s"
  shows "names_ok (evict_oldest cr fault s) \<and> entries_ok (evict_oldest cr fault s) \<and>
    length (ap_restored (evict_oldest cr fault s)) = length (ap_restored s) - 1 \<and>
    ap_sessions (evict_oldest cr fault s) = ap_sessions s"
proof (cases "oldest_restored (ap_restored s)")
  case None
  then show ?thesis using assms by (simp add: evict_oldest_def oldest_restored_None)
next
  case (Some kx)
  obtain k x where kx: "kx = (k, x)" by fastforce
  then have mem: "(k, x) \<in> set (ap_restored s)" using Some oldest_restored_mem by auto
  have dist: "distinct (map fst (ap_restored s))" using assms(2) by (simp add: entries_ok_def)
  have r: "map_of (ap_restored s) k = Some x" using mem dist by simp
  then have id: "ss_id (st_summary x) = k" using assms(2) by (simp add: entries_ok_def)
  have res: "ap_sessions (evict_oldest cr fault s) = ap_sessions s"
      "ap_restored (evict_oldest cr fault s) = AList.delete k (ap_restored s)"
      "ap_names (evict_oldest cr fault s) = (if map_of (ap_sessions s) k = None
        then ap_names s - {ss_name (st_summary x)} else ap_names s)"
    using Some kx r id by (auto simp: evict_oldest_def Let_def split: option.split)
  have "names_ok (evict_oldest cr fault s)" by (rule forget_restored [OF assms(1) r res])
  moreover have "entries_ok (evict_oldest cr fault s)" by (rule forget_entries [OF assms(2) res(1,2)])
  moreover have "length (AList.delete k (ap_restored s)) = length (ap_restored s) - 1"
    using mem dist by (rule length_delete_key)
  ultimately show ?thesis by (simp add: res)
qed

lemma evict_excess_inv:
  "names_ok s \<Longrightarrow> entries_ok s \<Longrightarrow> length (ap_restored s) \<le> n + MAX_STORED_SESSIONS \<Longrightarrow>
    names_ok (evict_excess n cr fault s) \<and> entries_ok (evict_excess n cr fault s) \<and>
    length (ap_restored (evict_excess n cr fault s)) \<le> MAX_STORED_SESSIONS \<and>
    ap_sessions (evict_excess n cr fault s) = ap_sessions s"
proof (induction n arbitrary: s)
  case (Suc n)
  show ?case
  proof (cases "MAX_STORED_SESSIONS < length (ap_restored s)")
    case True
    note ev = evict_oldest_inv [OF Suc.prems(1,2), of cr fault]
    have "length (ap_restored (evict_oldest cr fault s)) \<le> n + MAX_STORED_SESSIONS"
      using ev Suc.prems(3) by simp
    with Suc.IH [of "evict_oldest cr fault s"] ev True show ?thesis by simp
  qed (use Suc.prems in simp)
qed simp

lemma stored_identity:
  "ss_name (st_summary (stored_snapshot x)) = se_name x \<and> ss_id (st_summary (stored_snapshot x)) = se_id x"
  by (simp add: stored_snapshot_def cached_summary_def Let_def)

lemma insert_restored_inv:
  assumes inv: "registry_inv s" and x: "map_of (ap_sessions s) sid = Some x"
  shows "let s' = insert_restored_session cr fault (stored_snapshot x) s in
    names_ok s' \<and> entries_ok s' \<and> length (ap_restored s') \<le> MAX_STORED_SESSIONS \<and>
    ap_sessions s' = ap_sessions s"
proof -
  define r where "r = stored_snapshot x"
  have id: "se_id x = sid" using inv x by (simp add: registry_inv_def entries_ok_def)
  have r: "ss_name (st_summary r) = se_name x" "ss_id (st_summary r) = sid"
    using stored_identity [of x] id by (simp_all add: r_def)
  define s1 where "s1 = s\<lparr>ap_names := insert (se_name x) (ap_names s),
      ap_restored := AList.update sid r (ap_restored s)\<rparr>"
  have names: "names_ok s" using inv by (simp add: registry_inv_def)
  have ownx: "owner s sid (se_name x)" using x by (auto simp: owner_def)
  have "owner s1 j n \<longleftrightarrow> owner s j n" for j n
  proof (cases "j = sid")
    case True
    have "owner s1 sid n \<longleftrightarrow> n = se_name x"
      using x r by (auto simp: owner_def s1_def update_conv')
    moreover have "owner s sid n \<longleftrightarrow> n = se_name x"
      using owner_unique [OF names ownx] by blast
    ultimately show ?thesis using True by simp
  next
    case False
    then show ?thesis by (simp add: owner_def s1_def update_conv')
  qed
  moreover have "ap_names s1 = ap_names s"
    using names ownx by (auto simp: s1_def names_ok_def)
  ultimately have n1: "names_ok s1" using names by (simp add: names_ok_def)
  have e1: "entries_ok s1"
    using inv r unfolding registry_inv_def entries_ok_def s1_def
    by (auto simp: update_conv' distinct_update split: if_splits)
  have "insert_restored_session cr fault r s = evict_excess (length (ap_restored s1)) cr fault s1"
    by (simp add: insert_restored_session_def s1_def r Let_def)
  then show ?thesis
    using evict_excess_inv [OF n1 e1, of "length (ap_restored s1)" cr fault]
    by (simp add: Let_def r_def [symmetric]) (simp add: s1_def)
qed

text \<open>Dropping a live session.\<close>

lemma drop_session:
  assumes names: "names_ok s" and entries: "entries_ok s" and x: "map_of (ap_sessions s) sid = Some x"
    and s': "ap_sessions s' = AList.delete sid (ap_sessions s)" "ap_restored s' = ap_restored s"
      "ap_names s' = (if map_of (ap_restored s) sid = None then ap_names s - {se_name x} else ap_names s)"
  shows "names_ok s' \<and> entries_ok s'"
proof
  have own: "owner s' j n \<longleftrightarrow> (j \<noteq> sid \<and> (\<exists>x. map_of (ap_sessions s) j = Some x \<and> se_name x = n)) \<or>
    (\<exists>x. map_of (ap_restored s) j = Some x \<and> ss_name (st_summary x) = n)" for j n
    by (auto simp: owner_def delete_conv' s')
  have "owner s sid (se_name x)" using x by (auto simp: owner_def)
  then have uniq: "{n. owner s sid n} = {se_name x}" by (rule owner_unique [OF names])
  show "names_ok s'"
  proof (rule names_ok_shrink [OF names, where i = sid])
    show "owner s' j n \<Longrightarrow> owner s j n" for j n unfolding own by (auto simp: owner_def)
    show "owner s j n \<Longrightarrow> \<not> owner s' j n \<Longrightarrow> j = sid" for j n
      unfolding own by (auto simp: owner_def)
    have "(\<exists>n. owner s' sid n) \<longleftrightarrow> map_of (ap_restored s) sid \<noteq> None" unfolding own by auto
    then show "ap_names s' = (if \<exists>n. owner s' sid n then ap_names s else ap_names s - {n. owner s sid n})"
      by (simp add: s'(3) uniq)
  qed
  show "entries_ok s'"
    using entries unfolding entries_ok_def s'(1,2) by (simp add: delete_conv' distinct_delete)
qed

lemma evict_exited_inv:
  assumes inv: "registry_inv s"
  shows "registry_inv (evict_naturally_exited_session tm cr fault sid s)"
proof (cases "map_of (ap_sessions s) sid")
  case None
  then show ?thesis
    using registry_inv_publish [OF inv] by (simp add: evict_naturally_exited_session_def)
next
  case (Some x)
  show ?thesis
  proof (cases "se_killed x")
    case True
    then show ?thesis
      using Some registry_inv_publish [OF inv] by (simp add: evict_naturally_exited_session_def)
  next
    case False
    define s1 where "s1 = insert_restored_session cr fault (stored_snapshot x) s"
    have s1: "names_ok s1" "entries_ok s1" "length (ap_restored s1) \<le> MAX_STORED_SESSIONS"
      "ap_sessions s1 = ap_sessions s"
      using insert_restored_inv [OF inv Some, of cr fault] by (simp_all add: s1_def Let_def)
    define s2 where "s2 = s1\<lparr>ap_sessions := AList.delete sid (ap_sessions s1)\<rparr>"
    define s3 where "s3 = (if map_of (ap_restored s2) sid = None
      then s2\<lparr>ap_names := ap_names s2 - {se_name x}\<rparr> else s2)"
    have live: "map_of (ap_sessions s1) sid = Some x" using Some s1(4) by simp
    have f: "ap_sessions s3 = AList.delete sid (ap_sessions s1)" "ap_restored s3 = ap_restored s1"
      "ap_names s3 = (if map_of (ap_restored s1) sid = None then ap_names s1 - {se_name x} else ap_names s1)"
      by (simp_all add: s3_def s2_def)
    have "names_ok s3 \<and> entries_ok s3" by (rule drop_session [OF s1(1,2) live f])
    then have "registry_inv s3" using s1(3) f(2) by (simp add: registry_inv_def)
    moreover have "evict_naturally_exited_session tm cr fault sid s = publish_session_list tm s3"
      using Some False stored_identity [of x]
      by (simp add: evict_naturally_exited_session_def Let_def s1_def s2_def s3_def)
    ultimately show ?thesis using registry_inv_publish by simp
  qed
qed

section \<open>Fresh names\<close>

lemma auto_session_name_fresh:
  assumes "finite names"
  shows "auto_session_name start names \<notin> names"
proof -
  let ?auto = "map (\<lambda>i. AUTO_SESSION_NAMES ! ((start + i) mod length AUTO_SESSION_NAMES))
    [0..<length AUTO_SESSION_NAMES]"
  define base where "base = AUTO_SESSION_NAMES ! (start mod length AUTO_SESSION_NAMES)"
  show ?thesis
  proof (cases "List.find (\<lambda>name. name \<notin> names) ?auto")
    case (Some name)
    then have "name \<notin> names" by (auto simp: find_Some_iff)
    then show ?thesis using Some by (simp add: auto_session_name_def Let_def)
  next
    case None
    have "inj_on (\<lambda>k. base @ dec k) {2..<card names + 3}"
      by (auto simp: inj_on_def dec_inject)
    then have "card ((\<lambda>k. base @ dec k) ` {2..<card names + 3}) = card names + 1"
      by (simp add: card_image)
    then have "\<not> (\<lambda>k. base @ dec k) ` {2..<card names + 3} \<subseteq> names"
      using card_mono [OF assms] by (metis Suc_eq_plus1 Suc_n_not_le_n)
    then have "List.find (\<lambda>k. base @ dec k \<notin> names) [2..<card names + 3] \<noteq> None"
      by (auto simp: find_None_iff)
    then obtain k where k: "List.find (\<lambda>k. base @ dec k \<notin> names) [2..<card names + 3] = Some k"
      by blast
    then have "base @ dec k \<notin> names" by (auto simp: find_Some_iff)
    then show ?thesis
      unfolding auto_session_name_def Let_def None base_def [symmetric] k by simp
  qed
qed

lemma names_finite:
  assumes "names_ok s"
  shows "finite (ap_names s)"
proof -
  have "ap_names s \<subseteq> se_name ` snd ` set (ap_sessions s) \<union>
      (\<lambda>x. ss_name (st_summary x)) ` snd ` set (ap_restored s)"
  proof
    fix n
    assume "n \<in> ap_names s"
    then obtain i where "owner s i n" using assms by (auto simp: names_ok_def)
    then show "n \<in> se_name ` snd ` set (ap_sessions s) \<union>
      (\<lambda>x. ss_name (st_summary x)) ` snd ` set (ap_restored s)"
      by (force simp: owner_def dest: map_of_SomeD)
  qed
  then show ?thesis by (rule finite_subset) simp
qed

lemma reserve_fresh:
  "finite names \<Longrightarrow> reserve_new_session_name start requested names = Inr (name, names') \<Longrightarrow>
    name \<notin> names \<and> names' = insert name names"
  using auto_session_name_fresh [of names start]
  by (auto simp: reserve_new_session_name_def Let_def split: sum.splits option.splits if_splits)

section \<open>Create\<close>

lemma spawn_identity:
  "session_spawn tm fault sid st now name command cwd env sz p q = Inr x \<Longrightarrow>
    se_id x = sid \<and> se_name x = name"
  by (auto simp: session_spawn_def split: if_splits option.splits)

lemma add_session:
  assumes "names_ok s" and "entries_ok s" and "fresh_id s sid" and "name \<notin> ap_names s"
    and "se_name x = name" "se_id x = sid \<and> session_inv x \<and> capture_inv x"
    and s': "ap_sessions s' = AList.update sid x (ap_sessions s)" "ap_restored s' = ap_restored s"
      "ap_names s' = insert name (ap_names s)"
  shows "names_ok s' \<and> entries_ok s'"
proof
  have own: "owner s' j n \<longleftrightarrow> owner s j n \<or> (j = sid \<and> n = name)" for j n
    using assms(3,5) by (auto simp: owner_def s' update_conv' fresh_id_def)
  have none: "\<not> owner s sid n" for n using assms(3) by (simp add: owner_def fresh_id_def)
  have free: "\<not> owner s j name" for j using assms(1,4) by (auto simp: names_ok_def)
  show "names_ok s'"
    using assms(1) none free unfolding names_ok_def own s'(3) by blast
  show "entries_ok s'"
    using assms(2,6) unfolding entries_ok_def s'(1,2)
    by (auto simp: update_conv' distinct_update split: if_splits)
qed

lemma create_session_inv:
  assumes inv: "registry_inv s" and fresh: "fresh_id s (sp_id sp)"
  shows "registry_inv (snd (create_session_for tm sp kind name command cwd env sz s))"
proof -
  have names: "names_ok s" "entries_ok s" using inv by (simp_all add: registry_inv_def)
  have fin: "finite (ap_names s)" by (rule names_finite [OF names(1)])
  define command' where "command' = (if requires_shell_only_sessions kind then default_session_command (sp_shell sp) else command)"
  define cwd' where "cwd' = (if requires_shell_only_sessions kind then default_home_dir (sp_home sp) else cwd)"
  define env' where "env' = (if requires_shell_only_sessions kind then Map.empty else env)"
  note unfold = create_session_for_def Let_def command'_def [symmetric] cwd'_def [symmetric] env'_def [symmetric]
  show ?thesis
  proof (cases "invalid_client_size sz")
    case size_ok: None
    show ?thesis
    proof (cases "reserve_new_session_name (sp_start sp) name (ap_names s)")
      case (Inl e)
      then show ?thesis using inv size_ok by (simp add: unfold)
    next
      case (Inr r)
      obtain name' names' where r: "r = (name', names')" by fastforce
      have res: "name' \<notin> ap_names s" "names' = insert name' (ap_names s)"
        using reserve_fresh [OF fin Inr [unfolded r]] by simp_all
      show ?thesis
      proof (cases "session_spawn tm (sp_fault sp) (sp_id sp) (sp_id_text sp) (sp_now sp) name' command'
                       cwd' env' sz (ap_persistence s \<noteq> None) True")
        case (Inl e)
        have "s\<lparr>ap_names := names' - {name'}\<rparr> = s" using res by simp
        then show ?thesis using Inl inv size_ok Inr r by (simp add: unfold)
      next
        case x: (Inr x)
        obtain summary x' where x': "session_summary_of tm x = (summary, x')" by fastforce
        then have step: "x' = session_step tm (\<lambda>_. None) x CallSummary"
          using summary_step [of tm x] by simp
        have id: "se_id x = sp_id sp \<and> session_inv x \<and> capture_inv x" "se_name x = name'"
          using spawn_identity [OF x] spawn_inv [OF x] spawn_capture [OF x] by simp_all
        define s1 where "s1 = s\<lparr>ap_names := names',
                             ap_restored := AList.delete (sp_id sp) (ap_restored s),
                             ap_sessions := AList.update (sp_id sp) x' (ap_sessions s)\<rparr>"
        have "map_of (ap_restored s) (sp_id sp) = None" using fresh by (simp add: fresh_id_def)
        then have del: "AList.delete (sp_id sp) (ap_restored s) = ap_restored s"
          by (simp add: map_of_eq_None_iff delete_id)
        have f: "ap_sessions s1 = AList.update (sp_id sp) x' (ap_sessions s)"
          "ap_restored s1 = ap_restored s" "ap_names s1 = insert name' (ap_names s)"
          by (simp_all add: s1_def res del)
        have "names_ok s1 \<and> entries_ok s1"
          by (rule add_session [OF names fresh res(1) _ _ f])
            (use session_step_keeps [OF id(1), of tm "\<lambda>_. None" CallSummary] id(2) step in simp_all)
        then have "registry_inv s1" using inv f(2) by (simp add: registry_inv_def)
        then show ?thesis
          using size_ok Inr r x x' registry_inv_publish [of s1 tm] by (simp add: unfold s1_def)
      qed
    qed
  qed (simp add: unfold inv)
qed

section \<open>Kill\<close>

lemma forget_id:
  assumes names: "names_ok s" and entries: "entries_ok s"
    and s': "ap_sessions s' = AList.delete sid (ap_sessions s)"
      "ap_restored s' = AList.delete sid (ap_restored s)"
      "ap_names s' = ap_names s - {n. owner s sid n}"
  shows "names_ok s' \<and> entries_ok s'"
proof
  have own: "owner s' j n \<longleftrightarrow> j \<noteq> sid \<and> owner s j n" for j n
    by (auto simp: owner_def delete_conv' s')
  show "names_ok s'"
    by (rule names_ok_shrink [OF names, where i = sid]) (auto simp: own s'(3))
  show "entries_ok s'"
    using entries unfolding entries_ok_def s'(1,2) by (simp add: delete_conv' distinct_delete)
qed

lemma length_delete_le: "length (AList.delete k xs) \<le> length xs"
  by (simp add: AList.delete_eq)

text \<open>What is left when the session, live or restored, has been taken off the registry.\<close>

definition forgotten :: "session_id \<Rightarrow> 'm app \<Rightarrow> 'm app" where
  "forgotten sid s = s\<lparr>ap_sessions := AList.delete sid (ap_sessions s),
     ap_restored := AList.delete sid (ap_restored s), ap_names := ap_names s - {n. owner s sid n}\<rparr>"

lemma forgotten_inv: "registry_inv s \<Longrightarrow> registry_inv (forgotten sid s)"
  using forget_id [of s "forgotten sid s" sid] length_delete_le [of sid "ap_restored s"]
  by (simp add: registry_inv_def forgotten_def)

lemma owner_delete_none:
  "map_of (ap_sessions s) sid = None \<Longrightarrow> AList.delete sid (ap_sessions s) = ap_sessions s"
  by (simp add: map_of_eq_None_iff delete_id)

lemma kill_session_cases:
  assumes inv: "registry_inv s"
  shows "kill_session_for tm cr child fault sid s =
    (case map_of (ap_sessions s) sid of
       Some x \<Rightarrow> if fst (session_kill child x) then
           (case ap_persistence s of
              None \<Rightarrow> (None, publish_session_list tm (forgotten sid s))
            | Some md \<Rightarrow> (case remove_session cr fault sid (ap_sessions_table s) of (r, t) \<Rightarrow>
                (map_option (\<lambda>e. lit ''remove persisted session '' @ uuid_text cr (session_uuid sid)) r,
                 publish_session_list tm ((forgotten sid s)\<lparr>ap_sessions_table := t\<rparr>))))
         else (Some (lit ''kill session '' @ uuid_text cr (session_uuid sid)),
               update_session sid (snd (session_kill child x)) s)
     | None \<Rightarrow>
         (case ap_persistence s of
            None \<Rightarrow> (None, publish_session_list tm (forgotten sid s))
          | Some md \<Rightarrow> (case remove_session cr fault sid (ap_sessions_table s) of (r, t) \<Rightarrow>
              (map_option (\<lambda>e. lit ''remove persisted session '' @ uuid_text cr (session_uuid sid)) r,
               publish_session_list tm ((forgotten sid s)\<lparr>ap_sessions_table := t\<rparr>)))))"
proof -
  have names: "names_ok s" using inv by (simp add: registry_inv_def)
  show ?thesis
  proof (cases "map_of (ap_sessions s) sid")
    case (Some x)
    have "owner s sid (se_name x)" using Some by (auto simp: owner_def)
    then have own: "{n. owner s sid n} = {se_name x}" by (rule owner_unique [OF names])
    show ?thesis
      using Some by (simp add: kill_session_for_def Let_def own forgotten_def session_kill_def
          split: option.splits prod.splits)
  next
    case None
    show ?thesis
    proof (cases "map_of (ap_restored s) sid")
      case r: (Some r)
      have "owner s sid (ss_name (st_summary r))" using r by (auto simp: owner_def)
      then have own: "{n. owner s sid n} = {ss_name (st_summary r)}" by (rule owner_unique [OF names])
      show ?thesis
        using None r by (simp add: kill_session_for_def Let_def own forgotten_def owner_delete_none
            split: option.splits prod.splits)
    next
      case r: None
      have own: "{n. owner s sid n} = {}" using None r by (simp add: owner_def)
      show ?thesis
        using None r by (simp add: kill_session_for_def Let_def own forgotten_def owner_delete_none
            split: option.splits prod.splits)
    qed
  qed
qed

lemma kill_session_inv:
  assumes inv: "registry_inv s"
  shows "registry_inv (snd (kill_session_for tm cr child fault sid s))"
proof -
  have gone: "registry_inv (publish_session_list tm (forgotten sid s))"
    "registry_inv (publish_session_list tm ((forgotten sid s)\<lparr>ap_sessions_table := t\<rparr>))" for t
    using forgotten_inv [OF inv, of sid]
    by (auto intro!: registry_inv_publish intro: registry_inv_same [rotated] simp: same_registry_def)
  show ?thesis
  proof (cases "map_of (ap_sessions s) sid")
    case None
    then show ?thesis
      using gone by (simp add: kill_session_cases [OF inv] split: option.split prod.split)
  next
    case (Some x)
    then have x: "se_id x = sid \<and> session_inv x \<and> capture_inv x"
      using inv by (simp add: registry_inv_def entries_ok_def)
    have step: "snd (session_kill child x) = session_step tm (\<lambda>_. None) x (CallKill child)"
      by (simp add: session_step_def)
    have "registry_inv (update_session sid (snd (session_kill child x)) s)"
      using session_step_keeps [OF x, of tm "\<lambda>_. None" "CallKill child"]
      by (intro registry_inv_session [OF inv Some]) (simp_all add: step)
    then show ?thesis
      using Some gone by (simp add: kill_session_cases [OF inv] split: option.split prod.split)
  qed
qed

lemma kill_response_inv:
  "registry_inv s \<Longrightarrow> registry_inv (snd (kill_session_response tm cr child fault sid s))"
  using kill_session_inv [of s tm cr child fault sid]
  by (simp add: kill_session_response_def split_beta split: option.split)

section \<open>Devices and the endpoint\<close>

lemma push_send_same: "same_registry s (push_send cmd s)"
  by (simp add: same_registry_def push_send_def)

lemma push_send_fields [simp]:
  "ap_sessions (push_send cmd s) = ap_sessions s" "ap_restored (push_send cmd s) = ap_restored s"
  "ap_names (push_send cmd s) = ap_names s" "ap_devices (push_send cmd s) = ap_devices s"
  "ap_devices_table (push_send cmd s) = ap_devices_table s"
  "ap_persistence (push_send cmd s) = ap_persistence s"
  "ap_revocations (push_send cmd s) = ap_revocations s"
  by (simp_all add: push_send_def)

lemma revoke_fields [simp]:
  "ap_sessions (revoke_device_connections n s) = ap_sessions s"
  "ap_restored (revoke_device_connections n s) = ap_restored s"
  "ap_names (revoke_device_connections n s) = ap_names s"
  "ap_devices (revoke_device_connections n s) = ap_devices s"
  "ap_devices_table (revoke_device_connections n s) = ap_devices_table s"
  "ap_persistence (revoke_device_connections n s) = ap_persistence s"
  by (simp_all add: revoke_device_connections_def split: option.split)

lemma persist_device_fields:
  "persist_device cr nonce fault d s = (r, s') \<Longrightarrow>
    s' = s\<lparr>ap_devices_table := ap_devices_table s'\<rparr>"
  by (auto simp: persist_device_def split: option.splits prod.splits)

lemma persist_device_same [simp]:
  "ap_sessions (snd (persist_device cr nonce fault d s)) = ap_sessions s"
  "ap_restored (snd (persist_device cr nonce fault d s)) = ap_restored s"
  "ap_names (snd (persist_device cr nonce fault d s)) = ap_names s"
  "ap_devices (snd (persist_device cr nonce fault d s)) = ap_devices s"
  "ap_persistence (snd (persist_device cr nonce fault d s)) = ap_persistence s"
  by (simp_all add: persist_device_def split: option.split prod.split)

lemma device_ops_same:
  "same_registry s (snd (app_save_device cr nonce fault d s))"
  "same_registry s (snd (remove_device_by_node_id cr fault node s))"
  "same_registry s (snd (update_device_push cr nonce fault now node p t s))"
  "same_registry s (snd (clear_device_push cr nonce fault now node p t s))"
  "same_registry s (snd (mark_device_seen cr nonce fault now node s))"
  "same_registry s (set_iroh_endpoint info s)"
  by (simp_all add: same_registry_def app_save_device_def remove_device_by_node_id_def
      update_device_push_def clear_device_push_def mark_device_seen_def set_iroh_endpoint_def
      Let_def split_beta split: option.split)

lemma device_lookup_same:
  "same_registry s (snd (app_remove_device cr fault name s))"
  "same_registry s (snd (unpair_self cr fault node s))"
  using device_ops_same(2)
  by (auto simp: app_remove_device_def unpair_self_def split: option.split) (simp add: same_registry_def)

interpretation registry: inv_machine "registry_step tm from_str cr" registry_inv
proof unfold_locales
  fix s :: "'a app" and ev
  assume inv: "registry_inv s"
  show "registry_inv (registry_step tm from_str cr s ev)"
  proof (cases ev)
    case (RCreate sp kind name command cwd env sz)
    then show ?thesis using create_session_inv [OF inv] inv by (simp add: registry_step_def)
  next
    case (RKill child fault sid)
    then show ?thesis using inv kill_response_inv by (simp add: registry_step_def)
  next
    case (RForward fault sid exited)
    have "same_registry s (schedule_session_list_publish s)"
      by (simp add: same_registry_def schedule_session_list_publish_def)
    then have "registry_inv (schedule_session_list_publish s)" by (rule registry_inv_same [OF _ inv])
    then show ?thesis
      using RForward evict_exited_inv [OF inv] by (simp add: registry_step_def session_list_forward_def)
  next
    case (RSession sid e)
    show ?thesis
    proof (cases "map_of (ap_sessions s) sid")
      case None
      then show ?thesis using RSession inv by (simp add: registry_step_def)
    next
      case (Some x)
      then have x: "se_id x = sid \<and> session_inv x \<and> capture_inv x"
        using inv by (simp add: registry_inv_def entries_ok_def)
      show ?thesis
        using RSession Some session_step_keeps [OF x, of tm from_str e]
        by (simp add: registry_step_def registry_inv_session [OF inv Some])
    qed
  next
    case RPublish
    then show ?thesis using inv registry_inv_publish by (simp add: registry_step_def)
  next
    case RPublishTick
    have "registry_inv (s\<lparr>ap_publish_pending := False\<rparr>)"
      by (rule registry_inv_same [OF _ inv]) (simp add: same_registry_def)
    then show ?thesis
      using RPublishTick inv registry_inv_publish [of "s\<lparr>ap_publish_pending := False\<rparr>" tm]
      by (simp add: registry_step_def publish_tick_def)
  qed (simp_all add: registry_step_def device_ops_same [THEN registry_inv_same, OF inv]
      device_lookup_same [THEN registry_inv_same, OF inv])
qed

section \<open>Opening\<close>

lemma fold_update_map:
  "map_of (fold (\<lambda>x. AList.update (f x) x) xs al) = foldl (\<lambda>m x. m(f x \<mapsto> x)) (map_of al) xs"
  by (induction xs arbitrary: al) (simp_all add: update_conv')

lemma fold_update_distinct:
  "distinct (map fst al) \<Longrightarrow> distinct (map fst (fold (\<lambda>x. AList.update (f x) x) xs al))"
  by (induction xs arbitrary: al) (simp_all add: distinct_update)

lemma fold_update_Some:
  "map_of (fold (\<lambda>x. AList.update (f x) x) xs al) k = Some y \<Longrightarrow>
    (y \<in> set xs \<and> f y = k) \<or> map_of al k = Some y"
  by (induction xs arbitrary: al) (fastforce simp: update_conv' split: if_splits)+

lemma fold_update_member:
  "x \<in> set xs \<Longrightarrow> distinct (map f xs) \<Longrightarrow>
    map_of (fold (\<lambda>x. AList.update (f x) x) xs al) (f x) = Some x"
proof (induction xs arbitrary: al)
  case (Cons z zs)
  show ?case
  proof (cases "x \<in> set zs")
    case False
    then have "f x \<notin> f ` set zs" using Cons.prems by auto
    then have "map_of (fold (\<lambda>x. AList.update (f x) x) zs al') (f x) = map_of al' (f x)" for al'
      by (induction zs arbitrary: al') (simp_all add: update_conv')
    then show ?thesis using Cons.prems False by (simp add: update_conv')
  qed (use Cons in simp)
qed simp

lemma fold_update_length:
  "length (fold (\<lambda>x. AList.update (f x) x) xs al) \<le> length al + length xs"
proof (induction xs arbitrary: al)
  case (Cons x xs)
  have "length (AList.update (f x) x al) \<le> Suc (length al)"
    by (induction al) auto
  then show ?case using Cons.IH [of "AList.update (f x) x al"] by simp
qed simp

text \<open>
  What a daemon finds in the session table it wrote itself: a row under the UUID of the
  session it decodes to, no two rows with the same session name.
\<close>

definition session_rows_ok :: "persist_crates \<Rightarrow> persistence_mode \<Rightarrow> bytes table \<Rightarrow> bool" where
  "session_rows_ok cr md t \<longleftrightarrow> tbl_ok t \<and>
     (\<forall>(k, v) \<in> set t. \<forall>(l, w) \<in> set t. case (decode_session cr md v, decode_session cr md w) of
        (Some x, Some y) \<Rightarrow>
          ss_id (st_summary x) = ss_id (st_summary y) \<or>
            ss_name (st_summary x) = ss_name (st_summary y) \<longrightarrow> k = l
      | _ \<Rightarrow> True)"

lemma distinct_map_map_filter:
  assumes "distinct (map fst t)"
    and "\<And>k v l w x y. (k, v) \<in> set t \<Longrightarrow> (l, w) \<in> set t \<Longrightarrow> h v = Some x \<Longrightarrow> h w = Some y \<Longrightarrow>
      f x = f y \<Longrightarrow> k = l"
  shows "distinct (map f (List.map_filter (\<lambda>(k, v). h v) t))"
  using assms
proof (induction t)
  case (Cons r t)
  obtain k v where r: "r = (k, v)" by fastforce
  have tail: "distinct (map f (List.map_filter (\<lambda>(k, v). h v) t))"
    by (rule Cons.IH) (use Cons.prems in \<open>simp, meson list.set_intros(2)\<close>)
  show ?case
  proof (cases "h v")
    case (Some x)
    have "f x \<notin> f ` set (List.map_filter (\<lambda>(k, v). h v) t)"
    proof
      assume "f x \<in> f ` set (List.map_filter (\<lambda>(k, v). h v) t)"
      then obtain l w y where y: "(l, w) \<in> set t" "h w = Some y" "f x = f y"
        by (auto simp: set_map_filter)
      then have "k = l" using Cons.prems(2) [of k v l w x y] Some r by auto
      then show False using Cons.prems(1) y(1) r by force
    qed
    then show ?thesis using tail Some r by (simp add: List.map_filter_simps)
  qed (use tail r in \<open>simp add: List.map_filter_simps\<close>)
qed (simp add: List.map_filter_simps)

lemma distinct_map_sort: "distinct (map f (sort_key g xs)) = distinct (map f xs)"
  by (rule mset_eq_imp_distinct_iff) (simp add: mset_map)

lemma load_sessions_distinct:
  assumes rows: "session_rows_ok cr md t" and load: "load_sessions cr md fault t = Inr xs"
  shows "distinct (map (\<lambda>x. ss_id (st_summary x)) xs) \<and> distinct (map (\<lambda>x. ss_name (st_summary x)) xs) \<and>
    length xs \<le> length t"
proof -
  let ?raw = "List.map_filter (\<lambda>(k, v). decode_session cr md v) t"
  have xs: "xs = sort_key (\<lambda>s. ss_created_at (st_summary s)) ?raw"
    using load by (auto simp: load_sessions_def split: option.splits)
  have keys: "distinct (map fst t)" using rows by (simp add: session_rows_ok_def tbl_ok_distinct)
  have same: "k = l" if "(k, v) \<in> set t" "(l, w) \<in> set t" "decode_session cr md v = Some x"
      "decode_session cr md w = Some y"
      "ss_id (st_summary x) = ss_id (st_summary y) \<or> ss_name (st_summary x) = ss_name (st_summary y)"
    for k v l w x y
  proof -
    have "case (decode_session cr md v, decode_session cr md w) of
        (Some x, Some y) \<Rightarrow> ss_id (st_summary x) = ss_id (st_summary y) \<or>
            ss_name (st_summary x) = ss_name (st_summary y) \<longrightarrow> k = l
      | _ \<Rightarrow> True"
      using rows that(1,2) unfolding session_rows_ok_def by blast
    then show ?thesis using that(3-5) by simp
  qed
  have len: "length ?raw \<le> length t" by (induction t) (auto simp: List.map_filter_simps split: option.split)
  have "distinct (map (\<lambda>x. ss_id (st_summary x)) ?raw)" "distinct (map (\<lambda>x. ss_name (st_summary x)) ?raw)"
    by (rule distinct_map_map_filter [OF keys], rule same, assumption+, simp)+
  then show ?thesis
    unfolding xs distinct_map_sort using len by simp
qed

lemma prune_sessions_rows:
  assumes rows: "session_rows_ok cr md t" and prune: "prune_sessions cr md fault now t = (Inr n, t')"
  shows "session_rows_ok cr md t' \<and> length t' \<le> MAX_STORED_SESSIONS"
proof -
  define dead where "dead = pruned cr md (now - SESSION_RETENTION_MS) MAX_STORED_SESSIONS t"
  have t': "t' = fold tbl_remove dead t"
    using prune by (auto simp: prune_sessions_def prune_sessions_with_limit_def pruned_def dead_def
        Let_def split: option.splits)
  have ok: "tbl_ok t" using rows by (simp add: session_rows_ok_def)
  have "set t' \<subseteq> set t" unfolding t' fold_remove_filter by auto
  then have "session_rows_ok cr md t'"
    using rows tbl.ok_remove_all [OF ok, of dead] unfolding session_rows_ok_def t' by blast
  moreover have "length t' \<le> MAX_STORED_SESSIONS"
    using prune_length [OF ok, of cr md "now - SESSION_RETENTION_MS" MAX_STORED_SESSIONS]
    by (metis t' dead_def min.cobounded1)
  ultimately show ?thesis by blast
qed

lemma app_open_inv:
  assumes rows: "session_rows_ok cr md t" and opened: "app_open cr md pf lf now push t dt = Inr s"
  shows "registry_inv s"
proof -
  obtain n t' xs where prune: "prune_sessions cr md pf now t = (Inr n, t')"
    and load: "load_sessions cr md lf t' = Inr xs"
    and s: "ap_sessions s = []" "ap_restored s = fold (\<lambda>x. AList.update (ss_id (st_summary x)) x) xs []"
      "ap_names s = set (map (\<lambda>x. ss_name (st_summary x)) xs)"
    using opened by (auto simp: app_open_def split: prod.splits sum.splits)
  note t' = prune_sessions_rows [OF rows prune]
  have xs: "distinct (map (\<lambda>x. ss_id (st_summary x)) xs)" "distinct (map (\<lambda>x. ss_name (st_summary x)) xs)"
      "length xs \<le> MAX_STORED_SESSIONS"
    using load_sessions_distinct [OF _ load] t' by auto
  have look: "map_of (ap_restored s) i = Some x \<longleftrightarrow> x \<in> set xs \<and> ss_id (st_summary x) = i" for i x
    unfolding s(2) using fold_update_Some [of "\<lambda>x. ss_id (st_summary x)" xs "[]" i x]
      fold_update_member [OF _ xs(1)] by auto
  have own: "owner s i n \<longleftrightarrow> (\<exists>x \<in> set xs. ss_id (st_summary x) = i \<and> ss_name (st_summary x) = n)" for i n
    by (auto simp: owner_def s(1) look)
  have inj: "x = y" if "x \<in> set xs" "y \<in> set xs"
      "ss_id (st_summary x) = ss_id (st_summary y) \<or> ss_name (st_summary x) = ss_name (st_summary y)" for x y
    using that xs(1,2) by (auto simp: distinct_map inj_on_def)
  have "names_ok s"
    unfolding names_ok_def own s(3) using inj by auto
  moreover have "entries_ok s"
    using fold_update_distinct [of "[]" "\<lambda>x. ss_id (st_summary x)" xs]
    by (auto simp: entries_ok_def s(1) look) (simp add: s(2))
  moreover have "length (ap_restored s) \<le> MAX_STORED_SESSIONS"
    using fold_update_length [of "\<lambda>x. ss_id (st_summary x)" xs "[]"] xs(3) unfolding s(2) by simp
  ultimately show ?thesis by (simp add: registry_inv_def)
qed

section \<open>What a use case leaves in the registry\<close>

lemma summary_keeps:
  "se_command (snd (session_summary_of tm x)) = se_command x \<and> se_cwd (snd (session_summary_of tm x)) = se_cwd x \<and>
   se_env (snd (session_summary_of tm x)) = se_env x \<and> se_pty_size (snd (session_summary_of tm x)) = se_pty_size x \<and>
   se_name (snd (session_summary_of tm x)) = se_name x \<and> se_killed (snd (session_summary_of tm x)) = se_killed x \<and>
   se_id (snd (session_summary_of tm x)) = se_id x"
  by (simp add: session_summary_of_def materialize_terminal_last_line_def Let_def
      split: prod.split sum.split option.split)

lemma publish_sessions:
  "map_of (ap_sessions (publish_session_list tm s)) i =
    map_option (\<lambda>x. snd (session_summary_of tm x)) (map_of (ap_sessions s) i)"
  using map_of_map [of "\<lambda>x. snd (session_summary_of tm x)" "ap_sessions s"]
  by (simp add: publish_session_list_def summaries_def Let_def comp_def split_beta')

lemma publish_fields [simp]:
  "ap_restored (publish_session_list tm s) = ap_restored s"
  "ap_names (publish_session_list tm s) = ap_names s"
  "ap_sessions_table (publish_session_list tm s) = ap_sessions_table s"
  "ap_devices_table (publish_session_list tm s) = ap_devices_table s"
  "ap_devices (publish_session_list tm s) = ap_devices s"
  "ap_persistence (publish_session_list tm s) = ap_persistence s"
  by (simp_all add: publish_session_list_def summaries_def Let_def split_beta)

lemma forgotten_fields [simp]:
  "map_of (ap_sessions (forgotten sid s)) sid = None" "map_of (ap_restored (forgotten sid s)) sid = None"
  "i \<noteq> sid \<Longrightarrow> map_of (ap_sessions (forgotten sid s)) i = map_of (ap_sessions s) i"
  "i \<noteq> sid \<Longrightarrow> map_of (ap_restored (forgotten sid s)) i = map_of (ap_restored s) i"
  "ap_names (forgotten sid s) = ap_names s - {n. owner s sid n}"
  "ap_sessions_table (forgotten sid s) = ap_sessions_table s"
  "ap_persistence (forgotten sid s) = ap_persistence s"
  by (simp_all add: forgotten_def delete_conv')

lemma registry_run_inv:
  "session_rows_ok cr md t \<Longrightarrow> app_open cr md pf lf now push t dt = Inr s0 \<Longrightarrow>
    registry_inv (foldl (registry_step tm from_str cr) s0 evs)"
  by (rule registry.run_inv) (rule app_open_inv)

text \<open>A killed session that is still registered stays out of the restored sessions.\<close>

lemma evict_killed:
  "map_of (ap_sessions s) sid = Some x \<Longrightarrow> se_killed x \<Longrightarrow>
    evict_naturally_exited_session tm cr fault sid s = publish_session_list tm s"
  by (simp add: evict_naturally_exited_session_def)

text \<open>Used by the witnesses only: a daemon with one paired device and no session.\<close>

definition demo_app :: "unit app" where
  "demo_app = \<lparr>ap_sessions = [], ap_restored = [], ap_names = {},
    ap_devices = [(sd_device_node_id demo_device, demo_device)],
    ap_persistence = Some (Plaintext None), ap_sessions_table = [], ap_devices_table = [],
    ap_pairing = pairing_new, ap_push_enabled = True, ap_push_sent = [], ap_session_list = [],
    ap_publish_pending = False, ap_revocations = [sd_device_node_id demo_device \<mapsto> 0],
    ap_endpoint = None\<rparr>"

definition demo_context :: spawn_context where
  "demo_context = \<lparr>sp_id = SessionId 1, sp_id_text = lit ''1'', sp_now = 5, sp_fault = None,
    sp_shell = None, sp_home = None, sp_start = 0\<rparr>"

lemma demo_registry: "registry_inv demo_app" "fresh_id demo_app (sp_id demo_context)"
  by (simp_all add: demo_app_def demo_context_def fresh_id_def registry_inv_def names_ok_def
      entries_ok_def owner_def)

section \<open>Properties\<close>



text \<open>[create_session_outcome].  A create is refused without any change, or answers the new
  session's id with a session registered under it, whose name no other session had, whose
  PTY has the requested size, and whose command, directory and environment are the requested
  ones for a local client but the daemon's own shell, home directory and default environment
  for a mobile client, whatever that client asked for.\<close>
theorem create_session_outcome:
  assumes "registry_inv s" and "fresh_id s (sp_id sp)"
    and "create_session_for tm sp kind name command cwd env sz s = (reply, s')"
  shows "((\<exists>e. reply = Error InvalidRequest e) \<and> s' = s) \<or>
    (\<exists>summary x. reply = SessionCreated (sp_id sp) summary \<and>
      map_of (ap_sessions s') (sp_id sp) = Some x \<and> se_name x \<notin> ap_names s \<and>
      ap_names s' = insert (se_name x) (ap_names s) \<and> se_pty_size x = sz \<and>
      invalid_client_size sz = None \<and>
      (if requires_shell_only_sessions kind
       then se_command x = default_session_command (sp_shell sp) \<and> se_cwd x = default_home_dir (sp_home sp) \<and>
         se_env x = child_env (sp_id_text sp) Map.empty
       else se_command x = command \<and> se_cwd x = cwd \<and> se_env x = child_env (sp_id_text sp) env))"
proof -
  have fin: "finite (ap_names s)"
    by (rule names_finite) (use assms(1) in \<open>simp add: registry_inv_def\<close>)
  define command' where "command' = (if requires_shell_only_sessions kind then default_session_command (sp_shell sp) else command)"
  define cwd' where "cwd' = (if requires_shell_only_sessions kind then default_home_dir (sp_home sp) else cwd)"
  define env' where "env' = (if requires_shell_only_sessions kind then Map.empty else env)"
  note unfold = create_session_for_def Let_def command'_def [symmetric] cwd'_def [symmetric] env'_def [symmetric]
  note create = assms(3) [unfolded unfold]
  show ?thesis
  proof (cases "invalid_client_size sz")
    case (Some e)
    then show ?thesis using create by (auto simp: invalid_client_size_def split: if_splits)
  next
    case size_ok: None
    show ?thesis
    proof (cases "reserve_new_session_name (sp_start sp) name (ap_names s)")
      case (Inl e)
      then show ?thesis using create size_ok by auto
    next
      case (Inr r)
      obtain name' names' where r: "r = (name', names')" by fastforce
      have res: "name' \<notin> ap_names s" "names' = insert name' (ap_names s)"
        using reserve_fresh [OF fin Inr [unfolded r]] by simp_all
      show ?thesis
      proof (cases "session_spawn tm (sp_fault sp) (sp_id sp) (sp_id_text sp) (sp_now sp) name' command'
                       cwd' env' sz (ap_persistence s \<noteq> None) True")
        case spawn: (Inl e)
        have "s\<lparr>ap_names := names' - {name'}\<rparr> = s" using res by simp
        then show ?thesis using create size_ok Inr r spawn by auto
      next
        case spawn: (Inr x)
        have x: "se_name x = name'" "se_pty_size x = sz" "se_command x = command'" "se_cwd x = cwd'"
            "se_env x = child_env (sp_id_text sp) env'"
          using spawn by (auto simp: session_spawn_def split: if_splits option.splits)
        obtain summary x' where x': "session_summary_of tm x = (summary, x')" by fastforce
        note keeps = summary_keeps [of tm x, unfolded x' snd_conv] summary_keeps [of tm x']
        have "reply = SessionCreated (sp_id sp) summary"
          and "map_of (ap_sessions s') (sp_id sp) = Some (snd (session_summary_of tm x'))"
          and "ap_names s' = names'"
          using create size_ok Inr r spawn x' by (auto simp: publish_sessions update_conv')
        then show ?thesis
          using size_ok res x keeps by (auto simp: command'_def cwd'_def env'_def)
      qed
    qed
  qed
qed

theorem create_session_outcome_witness:
  "\<exists>reply s'. create_session_for demo_parser demo_context IosApp [] [lit ''rm''] (lit ''/etc'') Map.empty
      default_client_size demo_app = (reply, s') \<and>
    ((\<exists>e. reply = Error InvalidRequest e) \<and> s' = demo_app \<or>
     (\<exists>x. map_of (ap_sessions s') (sp_id demo_context) = Some x \<and>
        se_command x = default_session_command (sp_shell demo_context) \<and>
        se_cwd x = default_home_dir (sp_home demo_context)))"
proof -
  obtain reply s' where r: "create_session_for demo_parser demo_context IosApp [] [lit ''rm''] (lit ''/etc'')
      Map.empty default_client_size demo_app = (reply, s')" by fastforce
  show ?thesis
    using create_session_outcome [OF demo_registry r] r
    by (auto simp: requires_shell_only_sessions_def)
qed

lemma kill_table:
  "remove_session cr fault sid t = (r, t') \<Longrightarrow>
    (r = None \<longleftrightarrow> fault = None) \<and> (fault = None \<longrightarrow> tbl_get t' (uuid_text cr (session_uuid sid)) = None) \<and>
    (fault \<noteq> None \<longrightarrow> t' = t)"
  by (auto simp: remove_session_def tbl_get_remove split: option.splits)

lemma kill_gone:
  assumes inv: "registry_inv s" and "case map_of (ap_sessions s) sid of None \<Rightarrow> True | Some x \<Rightarrow> fst (session_kill child x)"
    and kill: "kill_session_response tm cr child fault sid s = (reply, s')"
  shows "(\<exists>t. s' = publish_session_list tm ((forgotten sid s)\<lparr>ap_sessions_table := t\<rparr>) \<and>
      (ap_persistence s = None \<longrightarrow> t = ap_sessions_table s) \<and>
      (ap_persistence s \<noteq> None \<longrightarrow> (if fault = None then tbl_get t (uuid_text cr (session_uuid sid)) = None
        else t = ap_sessions_table s))) \<and>
    reply = (if fault = None \<or> ap_persistence s = None then SessionKilled sid
      else Error Internal (lit ''remove persisted session '' @ uuid_text cr (session_uuid sid)))"
proof -
  define r where "r = remove_session cr fault sid (ap_sessions_table s)"
  have "kill_session_for tm cr child fault sid s =
      (case ap_persistence s of
         None \<Rightarrow> (None, publish_session_list tm (forgotten sid s))
       | Some md \<Rightarrow> (case r of (e, t) \<Rightarrow>
           (map_option (\<lambda>e. lit ''remove persisted session '' @ uuid_text cr (session_uuid sid)) e,
            publish_session_list tm ((forgotten sid s)\<lparr>ap_sessions_table := t\<rparr>))))"
    using assms(2) unfolding r_def kill_session_cases [OF inv]
    by (cases "map_of (ap_sessions s) sid") simp_all
  moreover have keep: "(forgotten sid s)\<lparr>ap_sessions_table := ap_sessions_table s\<rparr> = forgotten sid s"
    by (simp add: forgotten_def)
  ultimately show ?thesis
    using kill kill_table [of cr fault sid "ap_sessions_table s" "fst r" "snd r"]
    by (cases "ap_persistence s"; cases "fst r")
      (auto simp: kill_session_response_def r_def split_beta keep)
qed

lemma owner_publish_forgotten:
  assumes inv: "registry_inv s"
  shows "owner (publish_session_list tm ((forgotten sid s)\<lparr>ap_sessions_table := t\<rparr>)) i n \<longleftrightarrow> i \<noteq> sid \<and> owner s i n"
proof (cases "i = sid")
  case True
  then show ?thesis by (simp add: owner_def publish_sessions)
next
  case False
  then show ?thesis by (auto simp: owner_def publish_sessions summary_keeps)
qed

text \<open>C32 [kill_session_outcome].  A kill whose child process can be killed takes the session off
  the registry, live or restored, frees its name, and leaves every other session its name;
  it succeeds also for a session nobody knows, so it can be repeated.  When the durable row
  cannot be removed the answer is an error, the row stays, and asking again without the
  failure removes it.  When the child cannot be killed the session stays registered with
  its kill already recorded: from then on its exit does not move it to the restored
  sessions and does not take it off the registry.\<close>
theorem kill_session_outcome:
  assumes "registry_inv s" and "kill_session_response tm cr child fault sid s = (reply, s')"
  shows "if (case map_of (ap_sessions s) sid of None \<Rightarrow> True | Some x \<Rightarrow> fst (session_kill child x))
    then (\<forall>i n. owner s' i n \<longleftrightarrow> i \<noteq> sid \<and> owner s i n) \<and> ap_names s' = ap_names s - {n. owner s sid n} \<and>
      (if fault = None \<or> ap_persistence s = None then reply = SessionKilled sid
       else reply = Error Internal (lit ''remove persisted session '' @ uuid_text cr (session_uuid sid)) \<and>
         ap_sessions_table s' = ap_sessions_table s) \<and>
      (\<forall>retry. let (reply2, s2) = kill_session_response tm cr retry None sid s' in
         reply2 = SessionKilled sid \<and> ap_names s2 = ap_names s' \<and>
         (ap_persistence s \<noteq> None \<longrightarrow> tbl_get (ap_sessions_table s2) (uuid_text cr (session_uuid sid)) = None))
    else reply = Error Internal (lit ''kill session '' @ uuid_text cr (session_uuid sid)) \<and>
      (\<exists>x. map_of (ap_sessions s') sid = Some x \<and> se_killed x) \<and>
      (\<forall>f. let s2 = session_list_forward tm cr f sid True s' in
         map_of (ap_sessions s2) sid \<noteq> None \<and> ap_restored s2 = ap_restored s \<and>
         ap_sessions_table s2 = ap_sessions_table s)"
proof (cases "case map_of (ap_sessions s) sid of None \<Rightarrow> True | Some x \<Rightarrow> fst (session_kill child x)")
  case True
  obtain t where s': "s' = publish_session_list tm ((forgotten sid s)\<lparr>ap_sessions_table := t\<rparr>)"
    and t: "fault \<noteq> None \<or> ap_persistence s = None \<Longrightarrow> t = ap_sessions_table s"
    and reply: "reply = (if fault = None \<or> ap_persistence s = None then SessionKilled sid
      else Error Internal (lit ''remove persisted session '' @ uuid_text cr (session_uuid sid)))"
    using kill_gone [OF assms(1) True assms(2)] by (auto split: if_splits)
  have inv': "registry_inv s'"
    using kill_response_inv [OF assms(1), of tm cr child fault sid] assms(2) by simp
  have own: "owner s' i n \<longleftrightarrow> i \<noteq> sid \<and> owner s i n" for i n
    unfolding s' by (rule owner_publish_forgotten [OF assms(1)])
  have gone: "map_of (ap_sessions s') sid = None" by (simp add: s' publish_sessions)
  have fields: "ap_names s' = ap_names s - {n. owner s sid n}" "ap_sessions_table s' = t"
      "ap_persistence s' = ap_persistence s"
    by (simp_all add: s')
  have again: "let (reply2, s2) = kill_session_response tm cr retry None sid s' in
         reply2 = SessionKilled sid \<and> ap_names s2 = ap_names s' \<and>
         (ap_persistence s \<noteq> None \<longrightarrow> tbl_get (ap_sessions_table s2) (uuid_text cr (session_uuid sid)) = None)"
    for retry
  proof -
    obtain reply2 s2 where r2: "kill_session_response tm cr retry None sid s' = (reply2, s2)" by fastforce
    have "\<not> owner s' sid n" for n by (simp add: own)
    then have names: "ap_names (forgotten sid s') = ap_names s'" by simp
    have live: "case map_of (ap_sessions s') sid of None \<Rightarrow> True | Some x \<Rightarrow> fst (session_kill retry x)"
      by (simp add: gone)
    obtain t2 where s2: "s2 = publish_session_list tm ((forgotten sid s')\<lparr>ap_sessions_table := t2\<rparr>)"
      and t2: "ap_persistence s' \<noteq> None \<Longrightarrow> tbl_get t2 (uuid_text cr (session_uuid sid)) = None"
      and reply2: "reply2 = SessionKilled sid"
      using kill_gone [OF inv' live r2] by (simp only: simp_thms if_True) blast
    show ?thesis
      unfolding r2 Let_def prod.case
      using names t2 reply2 fields(3)
      by (simp add: s2 del: forgotten_fields)
  qed
  show ?thesis
    unfolding if_P [OF True]
  proof (intro conjI allI)
    show "owner s' i n \<longleftrightarrow> i \<noteq> sid \<and> owner s i n" for i n by (rule own)
    show "ap_names s' = ap_names s - {n. owner s sid n}" by (rule fields(1))
    show "if fault = None \<or> ap_persistence s = None then reply = SessionKilled sid
       else reply = Error Internal (lit ''remove persisted session '' @ uuid_text cr (session_uuid sid)) \<and>
         ap_sessions_table s' = ap_sessions_table s"
      using reply t fields(2) by simp
  qed (rule again)
next
  case False
  then obtain x where x: "map_of (ap_sessions s) sid = Some x" and f: "\<not> fst (session_kill child x)"
    by (auto split: option.splits)
  define x' where "x' = snd (session_kill child x)"
  have s': "s' = update_session sid x' s"
      "reply = Error Internal (lit ''kill session '' @ uuid_text cr (session_uuid sid))"
    using assms(2) x f
    by (simp_all add: kill_session_response_def kill_session_cases [OF assms(1)] x'_def)
  have live: "map_of (ap_sessions s') sid = Some x'" "se_killed x'"
    by (simp_all add: s'(1) update_session_def update_conv' x'_def session_kill_def)
  have "ap_restored s' = ap_restored s" "ap_sessions_table s' = ap_sessions_table s"
    by (simp_all add: s'(1) update_session_def)
  then show ?thesis
    unfolding if_not_P [OF False]
    using s'(2) live evict_killed [OF live]
    by (simp add: session_list_forward_def Let_def publish_sessions)
qed

theorem kill_session_outcome_witness:
  "\<exists>reply s'. kill_session_response demo_parser demo_persist ChildExited (Some []) (SessionId 1) demo_app = (reply, s') \<and>
    reply = Error Internal (lit ''remove persisted session '' @ uuid_text demo_persist (session_uuid (SessionId 1)))"
proof -
  obtain reply s' where r: "kill_session_response demo_parser demo_persist ChildExited (Some []) (SessionId 1)
      demo_app = (reply, s')" by fastforce
  have "map_of (ap_sessions demo_app) (SessionId 1) = None" "ap_persistence demo_app \<noteq> None"
    by (simp_all add: demo_app_def)
  then show ?thesis using kill_session_outcome [OF demo_registry(1) r] r by auto
qed

text \<open>The devices in memory are registered under their own node id, once.\<close>

definition devices_ok :: "'m app \<Rightarrow> bool" where
  "devices_ok s \<longleftrightarrow> distinct (map fst (ap_devices s)) \<and> (\<forall>(k, d) \<in> set (ap_devices s). sd_device_node_id d = k)"

lemma remove_by_node_cases:
  "remove_device_by_node_id cr fault node s = (r, s') \<Longrightarrow> map_of (ap_devices s) node = Some d \<Longrightarrow>
    (case (ap_persistence s, fault) of
       (Some md, Some e) \<Rightarrow> r = Inl e \<and> s' = s
     | (pm, _) \<Rightarrow> r = Inr (Some d) \<and> ap_devices s' = AList.delete node (ap_devices s) \<and>
         ap_devices_table s' = (if pm = None then ap_devices_table s
           else tbl_remove node (tbl_remove (device_storage_key cr node) (ap_devices_table s))) \<and>
         ap_revocations s' = ap_revocations (revoke_device_connections node s) \<and>
         ap_push_sent s' = ap_push_sent s @ (case sd_push_token d of None \<Rightarrow> []
           | Some token \<Rightarrow> if ap_push_enabled s then [CmdUnregisterToken token] else []))"
  by (auto simp: remove_device_by_node_id_def Persist.remove_device_def revoke_device_connections_def
      push_send_def Let_def split: option.splits)

lemma wrap_add64_changes: "wrap_add64 n (Suc 0) \<noteq> n"
proof
  assume "wrap_add64 n (Suc 0) = n"
  then have m: "(n + 1) mod (u64_max + 1) = n" by (simp add: wrap_add64_def)
  then have "n < u64_max + 1" by (metis mod_less_divisor zero_less_Suc Suc_eq_plus1)
  then show False using m by (cases "n = u64_max") (auto simp: u64_max_def)
qed

text \<open>[remove_device_revokes].  Removing a device by name or node id: no such device changes
  nothing; when the durable row cannot be removed the device stays paired and nothing has
  changed; otherwise exactly that device is unpaired, in memory and in the table, the
  connections that watch its revocation counter see it change, and its push token is
  unregistered.\<close>
theorem remove_device_revokes:
  assumes "devices_ok s" and "app_remove_device cr fault name s = (r, s')"
  shows "case r of
      Inl e \<Rightarrow> s' = s \<and> fault = Some e \<and> ap_persistence s \<noteq> None
    | Inr None \<Rightarrow> s' = s \<and> (\<forall>(k, d) \<in> set (ap_devices s). sd_name d \<noteq> name \<and> sd_device_node_id d \<noteq> name)
    | Inr (Some d) \<Rightarrow> (sd_name d = name \<or> sd_device_node_id d = name) \<and> is_device_paired s (sd_device_node_id d) \<and>
        (\<forall>n. is_device_paired s' n \<longleftrightarrow> is_device_paired s n \<and> n \<noteq> sd_device_node_id d) \<and>
        (ap_persistence s \<noteq> None \<longrightarrow>
           tbl_get (ap_devices_table s') (device_storage_key cr (sd_device_node_id d)) = None \<and>
           tbl_get (ap_devices_table s') (sd_device_node_id d) = None) \<and>
        (\<forall>k. ap_revocations s (sd_device_node_id d) = Some k \<longrightarrow>
           (\<exists>l. ap_revocations s' (sd_device_node_id d) = Some l \<and> l \<noteq> k)) \<and>
        (\<forall>t. sd_push_token d = Some t \<and> ap_push_enabled s \<longrightarrow> CmdUnregisterToken t \<in> set (ap_push_sent s'))"
proof (cases "List.find (\<lambda>(k, d). sd_name d = name \<or> sd_device_node_id d = name) (ap_devices s)")
  case None
  then have "r = Inr None" "s' = s" using assms(2) by (simp_all add: app_remove_device_def)
  then show ?thesis using None by (auto simp: find_None_iff)
next
  case (Some kd)
  obtain k d where kd: "kd = (k, d)" by fastforce
  have mem: "(k, d) \<in> set (ap_devices s)" and hit: "sd_name d = name \<or> sd_device_node_id d = name"
    using Some unfolding kd find_Some_iff by (auto simp: in_set_conv_nth)
  have k: "k = sd_device_node_id d" using assms(1) mem by (auto simp: devices_ok_def)
  have look: "map_of (ap_devices s) (sd_device_node_id d) = Some d"
    using assms(1) mem k by (auto simp: devices_ok_def)
  have rm: "remove_device_by_node_id cr fault (sd_device_node_id d) s = (r, s')"
    using assms(2) Some kd by (simp add: app_remove_device_def)
  note gone = remove_by_node_cases [OF rm look]
  show ?thesis
  proof (cases "ap_persistence s \<noteq> None \<and> fault \<noteq> None")
    case True
    then show ?thesis using gone by auto
  next
    case False
    then have out: "r = Inr (Some d)" "ap_devices s' = AList.delete (sd_device_node_id d) (ap_devices s)"
      "ap_devices_table s' = (if ap_persistence s = None then ap_devices_table s
         else tbl_remove (sd_device_node_id d) (tbl_remove (device_storage_key cr (sd_device_node_id d)) (ap_devices_table s)))"
      "ap_revocations s' = ap_revocations (revoke_device_connections (sd_device_node_id d) s)"
      "ap_push_sent s' = ap_push_sent s @ (case sd_push_token d of None \<Rightarrow> []
           | Some token \<Rightarrow> if ap_push_enabled s then [CmdUnregisterToken token] else [])"
      using gone by (auto split: option.splits)
    show ?thesis
      unfolding out(1) sum.case option.case
      using hit look
      by (auto simp: is_device_paired_def out(2-5) delete_conv' tbl_get_remove
          revoke_device_connections_def wrap_add64_changes)
  qed
qed

lemma demo_devices: "devices_ok demo_app"
  by (simp add: devices_ok_def demo_app_def)

theorem remove_device_revokes_witness:
  "\<exists>s'. app_remove_device demo_persist None (sd_device_node_id demo_device) demo_app = (Inr (Some demo_device), s') \<and>
    \<not> is_device_paired s' (sd_device_node_id demo_device)"
proof -
  obtain r s' where r: "app_remove_device demo_persist None (sd_device_node_id demo_device) demo_app = (r, s')"
    by fastforce
  have "r = Inr (Some demo_device)"
    using r by (auto simp: app_remove_device_def remove_device_by_node_id_def demo_app_def
        Persist.remove_device_def Let_def split: option.splits)
  then show ?thesis using remove_device_revokes [OF demo_devices r] r by auto
qed

text \<open>[failed_push_update_diverges].  When the durable write of a push token fails the client
  gets the error, but the device in memory already has the new token: the table still has
  the old row and the relay is not told, so what the daemon believes and what a restart
  loads differ until the next successful write.\<close>
theorem failed_push_update_diverges:
  assumes "map_of (ap_devices s) node = Some d" and "ap_persistence s = Some md"
    and "update_device_push cr nonce (Some e) now node platform token s = (r, s')"
  shows "(\<exists>e'. r = Inl e') \<and> ap_devices_table s' = ap_devices_table s \<and> ap_push_sent s' = ap_push_sent s \<and>
    (\<exists>d'. map_of (ap_devices s') node = Some d' \<and> sd_push_token d' = Some token \<and>
      sd_push_platform d' = Some platform)"
proof -
  define d' where "d' = set_push_token now platform token d"
  have save: "\<exists>e'. Persist.save_device cr md nonce (Some e) d' (ap_devices_table s) = (Some e', ap_devices_table s)"
    by (auto simp: Persist.save_device_def split: option.split sum.split)
  have "sd_push_token d' = Some token" "sd_push_platform d' = Some platform"
    by (simp_all add: d'_def set_push_token_def mark_seen_def)
  then show ?thesis
    using assms(1-3) save
    by (auto simp: update_device_push_def persist_device_def d'_def [symmetric] Let_def update_conv')
qed

theorem failed_push_update_diverges_witness:
  "\<exists>r s'. update_device_push demo_persist [] (Some (lit ''commit'')) 9 (sd_device_node_id demo_device) Fcm
      (lit ''tok'') demo_app = (r, s') \<and> (\<exists>e'. r = Inl e') \<and> ap_devices_table s' = []"
proof -
  obtain r s' where r: "update_device_push demo_persist [] (Some (lit ''commit'')) 9
      (sd_device_node_id demo_device) Fcm (lit ''tok'') demo_app = (r, s')" by fastforce
  have "map_of (ap_devices demo_app) (sd_device_node_id demo_device) = Some demo_device"
    "ap_persistence demo_app = Some (Plaintext None)" "ap_devices_table demo_app = []"
    by (simp_all add: demo_app_def)
  from failed_push_update_diverges [OF this(1,2) r] this(3) r show ?thesis by auto
qed

end
