(* ===== verification/LocalIpc.thy ===== *)
theory LocalIpc
  imports RegistryInv
begin

text \<open>
  A connection on the local control socket, \<open>handle_client_io\<close> of \<open>crates/daemon/src/ipc.rs\<close>:
  the handshake, one handler per request, the attachment a connection holds, and its release
  when the connection ends.  A handler gives the messages it writes, whether the loop goes on,
  and the new states; a message that cannot be written ends the connection.  What the request
  takes from outside (clock, random bytes, the child process, failing writes to the database,
  the endpoint while it is polled) is a context.  The tasks that forward broadcast output and
  session lists are in \<open>Delivery\<close>; here a connection records which session its task follows.
\<close>

section \<open>State\<close>

record connection =
  cn_client_id :: client_id
  cn_kind :: client_kind
  cn_attachment :: "session_id option"
  cn_forwarder :: "(session_id \<times> nat) option"
  cn_listing :: bool

record call_context =
  cc_spawn :: spawn_context
  cc_now :: nat
  cc_rng :: "nat \<Rightarrow> u8"
  cc_endpoint :: "nat \<Rightarrow> endpoint_info option"
  cc_child :: child_status
  cc_fault :: "rstr option"
  cc_resize_ok :: bool
  cc_written :: nat

section \<open>Replies\<close>

definition forbidden :: "char list \<Rightarrow> server_msg" where
  "forbidden message = Error Forbidden (lit message)"

definition session_not_found :: "persist_crates \<Rightarrow> session_id \<Rightarrow> server_msg" where
  "session_not_found cr sid = Error NotFound (lit ''session not found: '' @ uuid_text cr (session_uuid sid))"

definition pty_write_error_text :: "pty_write_error \<Rightarrow> rstr" where
  "pty_write_error_text e = (case e of
      Backpressure \<Rightarrow> lit ''PTY input queue is full''
    | Closed \<Rightarrow> lit ''PTY input channel is closed'')"

definition agent_event_error_text :: "persist_crates \<Rightarrow> agent_event_error \<Rightarrow> rstr" where
  "agent_event_error_text cr e = (case e of
      SessionHasExited sid \<Rightarrow> lit ''session has exited: '' @ uuid_text cr (session_uuid sid)
    | SourceMismatch src kind \<Rightarrow>
        lit ''agent hook source '' @ (case src of SrcClaude \<Rightarrow> lit ''Claude'' | SrcCodex \<Rightarrow> lit ''Codex'') @
        lit '' does not match session command '' @
        (case kind of CkClaude \<Rightarrow> lit ''Claude'' | CkCodex \<Rightarrow> lit ''Codex'' | CkUnknown \<Rightarrow> lit ''Unknown''))"

section \<open>Handshake\<close>

definition accept_hello ::
    "client_id \<Rightarrow> rstr \<Rightarrow> rstr \<Rightarrow> client_msg \<Rightarrow> 'm app \<Rightarrow> server_msg \<times> connection option" where
  "accept_hello client_id daemon_version host hello s = (case hello of
      Hello kind client_version protocol_version \<Rightarrow>
        if protocol_version = CONTRACT_VERSION
        then (Welcome client_id daemon_version (app_capabilities s) host,
              Some \<lparr>cn_client_id = client_id, cn_kind = kind, cn_attachment = None,
                cn_forwarder = None, cn_listing = False\<rparr>)
        else (Error VersionMismatch (lit ''protocol version mismatch: client='' @ dec protocol_version @
                lit '', daemon='' @ dec CONTRACT_VERSION), None)
    | _ \<Rightarrow> (Error InvalidRequest (lit ''first message must be Hello''), None))"

section \<open>Attachments\<close>

text \<open>Dropping an attachment: the session, if still registered, forgets the client's size.\<close>

definition drop_attachment :: "connection \<Rightarrow> 'm app \<Rightarrow> 'm app" where
  "drop_attachment conn s =
     (case cn_attachment conn of
        None \<Rightarrow> s
      | Some sid \<Rightarrow>
          (case map_of (ap_sessions s) sid of
             None \<Rightarrow> s
           | Some x \<Rightarrow> update_session sid (detach_client (cn_client_id conn) x) s))"

definition handle_attach ::
    "'m parser \<Rightarrow> persist_crates \<Rightarrow> bool \<Rightarrow> session_id \<Rightarrow> client_size \<Rightarrow> nat option \<Rightarrow> connection \<Rightarrow> 'm app \<Rightarrow>
      server_msg list \<times> connection \<times> 'm app" where
  "handle_attach tm cr resize_ok sid sz last_seen conn s =
     (case invalid_client_size sz of
        Some error \<Rightarrow> ([error], conn, s)
      | None \<Rightarrow>
          (case map_of (ap_sessions s) sid of
             None \<Rightarrow>
               (case map_of (ap_restored s) sid of
                  Some r \<Rightarrow>
                    ([Attached sid (st_scrollback r)
                        (sat_add64 (st_scrollback_start_seq r) (length (st_scrollback r))),
                      SessionExited sid (case st_exit_code r of Some code \<Rightarrow> code | None \<Rightarrow> 0)], conn, s)
                | None \<Rightarrow> ([session_not_found cr sid], conn, s))
           | Some session \<Rightarrow>
               let s1 = drop_attachment conn s;
                   conn1 = conn\<lparr>cn_forwarder := None, cn_attachment := None\<rparr>;
                   client = cn_client_id conn;
                   x = (case map_of (ap_sessions s1) sid of Some x \<Rightarrow> x | None \<Rightarrow> session) in
               (case attach_client tm resize_ok client sz x of
                  (False, x1) \<Rightarrow> ([Error Internal (lit ''resize PTY'')], conn1, update_session sid x1 s1)
                | (True, x1) \<Rightarrow>
                    (case attach_bytes tm last_seen x1 of ((seq, initial_bytes), x2) \<Rightarrow>
                       let attached = Attached sid initial_bytes seq in
                       case se_exit_code x2 of
                         Some code \<Rightarrow> ([attached, SessionExited sid code], conn1,
                           update_session sid (detach_client client x2) s1)
                       | None \<Rightarrow> ([attached],
                           conn1\<lparr>cn_attachment := Some sid, cn_forwarder := Some (sid, seq)\<rparr>,
                           update_session sid x2 s1)))))"

section \<open>Sessions\<close>

definition handle_input ::
    "persist_crates \<Rightarrow> nat \<Rightarrow> session_id \<Rightarrow> bytes \<Rightarrow> 'm app \<Rightarrow> server_msg list \<times> 'm app" where
  "handle_input cr now sid bs s =
     (case map_of (ap_sessions s) sid of
        None \<Rightarrow> ([session_not_found cr sid], s)
      | Some x \<Rightarrow>
          (case write_input now bs x of (e, x') \<Rightarrow>
             (case e of None \<Rightarrow> [] | Some e \<Rightarrow> [Error Internal (pty_write_error_text e)],
              update_session sid x' s)))"

definition handle_resize ::
    "persist_crates \<Rightarrow> client_id \<Rightarrow> session_id \<Rightarrow> client_size \<Rightarrow> 'm app \<Rightarrow> server_msg list \<times> 'm app" where
  "handle_resize cr client sid sz s =
     (case invalid_client_size sz of
        Some error \<Rightarrow> ([error], s)
      | None \<Rightarrow>
          (case map_of (ap_sessions s) sid of
             None \<Rightarrow> ([session_not_found cr sid], s)
           | Some x \<Rightarrow> ([], update_session sid (update_client_size client sz x) s)))"

definition handle_agent_event ::
    "persist_crates \<Rightarrow> nat \<Rightarrow> client_kind \<Rightarrow> session_id \<Rightarrow> agent_source \<Rightarrow> agent_state \<Rightarrow> rstr option \<Rightarrow>
      'm app \<Rightarrow> server_msg list \<times> 'm app" where
  "handle_agent_event cr now kind sid src state last_line s =
     (if \<not> may_emit_agent_state_event kind
      then ([forbidden ''mobile clients cannot emit agent state events''], s)
      else case map_of (ap_sessions s) sid of
        None \<Rightarrow> ([session_not_found cr sid], s)
      | Some x \<Rightarrow>
          (case apply_agent_state_event now src state last_line x of
             (Inr l, x') \<Rightarrow> ([AgentStateChanged sid state l],
               schedule_session_list_publish (update_session sid x' s))
           | (Inl e, x') \<Rightarrow> ([Error InvalidRequest (agent_event_error_text cr e)], update_session sid x' s)))"

section \<open>Pairing and devices\<close>

text \<open>The first poll sees the endpoint of the state; a failed wait leaves the code active.\<close>

definition handle_begin_pairing ::
    "persist_crates \<Rightarrow> nat \<Rightarrow> (nat \<Rightarrow> u8) \<Rightarrow> (nat \<Rightarrow> endpoint_info option) \<Rightarrow> client_kind \<Rightarrow> 'm app \<Rightarrow>
      server_msg list \<times> 'm app" where
  "handle_begin_pairing cr now rng endpoint kind s =
     (if kind \<noteq> LocalCli then ([forbidden ''mobile clients cannot create pairing codes''], s)
      else case begin_pairing now rng (ap_pairing s) of ((code, expires_at, prompt), pm) \<Rightarrow>
        let s1 = s\<lparr>ap_pairing := pm\<rparr> in
        (case wait_pairing_ticket code expires_at (\<lambda>k. if k = 0 then ap_endpoint s else endpoint k) of
           Inl e \<Rightarrow> ([Error Internal e], s1)
         | Inr ticket \<Rightarrow> ([PairingStarted ticket],
             push_send (CmdPublishPairingRendezvous (pairing_code_locator (sha256 cr) (pt_code ticket))
               (rendezvous ticket)) s1)))"

definition handle_approve_pairing ::
    "client_kind \<Rightarrow> client_id \<Rightarrow> bool \<Rightarrow> 'm app \<Rightarrow> server_msg list \<times> 'm app" where
  "handle_approve_pairing kind request_id approved s =
     (if kind \<noteq> LocalCli then ([forbidden ''mobile clients cannot approve pairing''], s)
      else case approve request_id approved (ap_pairing s) of
        (e, pm) \<Rightarrow> (case e of None \<Rightarrow> [] | Some e \<Rightarrow> [Error NotFound e], s\<lparr>ap_pairing := pm\<rparr>))"

definition handle_remove_device ::
    "persist_crates \<Rightarrow> rstr option \<Rightarrow> client_kind \<Rightarrow> rstr \<Rightarrow> 'm app \<Rightarrow> server_msg list \<times> 'm app" where
  "handle_remove_device cr fault kind name s =
     (if kind \<noteq> LocalCli then ([forbidden ''mobile clients cannot remove devices''], s)
      else case app_remove_device cr fault name s of
        (Inr (Some _), s') \<Rightarrow> ([DeviceList (device_summaries s')], s')
      | (Inr None, s') \<Rightarrow> ([Error NotFound (lit ''device not found: '' @ name)], s')
      | (Inl e, s') \<Rightarrow> ([Error Internal e], s'))"

section \<open>The request loop\<close>

text \<open>The messages written, whether the loop goes on, the connection and the daemon's state.\<close>

definition handle_message ::
    "'m parser \<Rightarrow> persist_crates \<Rightarrow> call_context \<Rightarrow> client_msg \<Rightarrow> connection \<Rightarrow> 'm app \<Rightarrow>
      server_msg list \<times> bool \<times> connection \<times> 'm app" where
  "handle_message tm cr ctx msg conn s =
     (let kind = cn_kind conn; client = cn_client_id conn;
          plain = (\<lambda>(ms, s'). (ms, True, conn, s')) in
      case msg of
        Hello _ _ _ \<Rightarrow> plain ([], s)
      | ListSessions \<Rightarrow> plain (case summaries tm s of (l, s') \<Rightarrow> ([SessionList l], s'))
      | SubscribeSessions \<Rightarrow> ([SessionList (ap_session_list s)], True, conn\<lparr>cn_listing := True\<rparr>, s)
      | CreateSession name command cwd env sz \<Rightarrow> plain
          (if \<not> may_create_or_kill_session kind then ([forbidden ''client cannot create sessions''], s)
           else case invalid_client_size sz of
             Some error \<Rightarrow> ([error], s)
           | None \<Rightarrow> (case create_session_for tm (cc_spawn ctx) kind name command cwd env sz s of
               (m, s') \<Rightarrow> ([m], s')))
      | AttachSession sid sz last_seen \<Rightarrow>
          (case handle_attach tm cr (cc_resize_ok ctx) sid sz last_seen conn s of
             (ms, conn', s') \<Rightarrow> (ms, True, conn', s'))
      | DetachSession \<Rightarrow> ([], False, conn, s)
      | KillSession sid \<Rightarrow> plain
          (if \<not> may_create_or_kill_session kind then ([forbidden ''client cannot kill sessions''], s)
           else case kill_session_response tm cr (cc_child ctx) (cc_fault ctx) sid s of
             (m, s') \<Rightarrow> ([m], s'))
      | Input sid bs \<Rightarrow> plain (handle_input cr (cc_now ctx) sid bs s)
      | Resize sid sz \<Rightarrow> plain (handle_resize cr client sid sz s)
      | Ping seq \<Rightarrow> plain ([Pong seq], s)
      | BeginPairing _ \<Rightarrow> plain
          (handle_begin_pairing cr (cc_now ctx) (cc_rng ctx) (cc_endpoint ctx) kind s)
      | ApprovePairing request_id approved \<Rightarrow> plain (handle_approve_pairing kind request_id approved s)
      | PairWithCode _ _ _ \<Rightarrow> plain
          ([forbidden ''new pairing is accepted over authenticated iroh only''], s)
      | ListDevices \<Rightarrow> plain
          (if kind \<noteq> LocalCli then ([forbidden ''mobile clients cannot list devices''], s)
           else ([DeviceList (device_summaries s)], s))
      | RemoveDevice name \<Rightarrow> plain (handle_remove_device cr (cc_fault ctx) kind name s)
      | RegisterPushToken _ _ \<Rightarrow> plain
          ([Error InvalidRequest (lit ''push token updates are accepted from paired iroh devices only'')], s)
      | UnregisterPushToken _ _ \<Rightarrow> plain
          ([Error InvalidRequest (lit ''push token updates are accepted from paired iroh devices only'')], s)
      | UnpairSelf \<Rightarrow> plain
          ([Error InvalidRequest (lit ''push token updates are accepted from paired iroh devices only'')], s)
      | AgentStateEvent sid src state last_line \<Rightarrow> plain
          (handle_agent_event cr (cc_now ctx) kind sid src state last_line s))"

text \<open>The whole connection: waiting for the handshake, serving, or ended.\<close>

datatype conn_phase = Greeting | Serving connection | Ended

record 'm local_state =
  lo_phase :: conn_phase
  lo_sent :: "server_msg list"
  lo_app :: "'m app"

definition end_connection :: "connection \<Rightarrow> 'm local_state \<Rightarrow> 'm local_state" where
  "end_connection conn l = l\<lparr>lo_phase := Ended, lo_app := drop_attachment conn (lo_app l)\<rparr>"

text \<open>\<open>None\<close>: the peer closed the socket or sent something that is no message.\<close>

definition serve_message ::
    "'m parser \<Rightarrow> persist_crates \<Rightarrow> client_id \<Rightarrow> rstr \<Rightarrow> rstr \<Rightarrow> call_context \<Rightarrow> client_msg option \<Rightarrow>
      'm local_state \<Rightarrow> 'm local_state" where
  "serve_message tm cr new_id version host ctx msg l = (case (lo_phase l, msg) of
      (Ended, _) \<Rightarrow> l
    | (Greeting, None) \<Rightarrow> l\<lparr>lo_phase := Ended\<rparr>
    | (Greeting, Some hello) \<Rightarrow>
        (case accept_hello new_id version host hello (lo_app l) of
           (m, conn) \<Rightarrow>
             (if cc_written ctx = 0 then l\<lparr>lo_phase := Ended\<rparr>
              else l\<lparr>lo_sent := lo_sent l @ [m],
                lo_phase := (case conn of None \<Rightarrow> Ended | Some conn \<Rightarrow> Serving conn)\<rparr>))
    | (Serving conn, None) \<Rightarrow> end_connection conn l
    | (Serving conn, Some msg) \<Rightarrow>
        (case handle_message tm cr ctx msg conn (lo_app l) of
           (ms, cont, conn', s') \<Rightarrow>
             let l' = l\<lparr>lo_sent := lo_sent l @ take (cc_written ctx) ms, lo_app := s',
                   lo_phase := Serving conn'\<rparr> in
             if cont \<and> length ms \<le> cc_written ctx then l' else end_connection conn' l'))"

section \<open>The sizes of attached clients\<close>

text \<open>Which clients a session counts when it sizes its PTY, and who of them is new.\<close>

definition sized :: "'m session \<Rightarrow> client_id set" where
  "sized x = fst ` set (se_attached_sizes x)"

lemma sized_try_send [simp]: "se_attached_sizes (snd (pty_try_send bs x)) = se_attached_sizes x"
  by (simp add: pty_try_send_def)

lemma sized_replies [simp]: "se_attached_sizes (send_replies rs x) = se_attached_sizes x"
  unfolding send_replies_def by (induction rs arbitrary: x) simp_all

lemma sized_materialize [simp]:
  "se_attached_sizes (snd (materialize_terminal_last_line tm x)) = se_attached_sizes x"
  by (simp add: materialize_terminal_last_line_def split: prod.split sum.split)

lemma sized_rebuild [simp]:
  "se_attached_sizes (rebuild_terminal_projection tm sb x) = se_attached_sizes x"
  "se_attached_sizes (rebuild_terminal_projection_from_ring tm x) = se_attached_sizes x"
  by (simp_all add: rebuild_terminal_projection_def rebuild_terminal_projection_from_ring_def
      split: prod.split)

lemma sized_summary [simp]: "se_attached_sizes (snd (session_summary_of tm x)) = se_attached_sizes x"
  by (simp add: session_summary_of_def materialize_terminal_last_line_def Let_def
      split: prod.split sum.split option.split)

lemma sized_set_state [simp]: "se_attached_sizes (set_state now st l x) = se_attached_sizes x"
  by (simp add: set_state_def Let_def)

lemma sized_attach_bytes [simp]: "se_attached_sizes (snd (attach_bytes tm seq x)) = se_attached_sizes x"
  by (simp add: attach_bytes_def Let_def split: option.split prod.split sum.split)

lemma sized_input [simp]: "se_attached_sizes (snd (write_input now bs x)) = se_attached_sizes x"
  by (simp add: write_input_def split_beta split: option.split)

lemma sized_agent [simp]:
  "se_attached_sizes (snd (apply_agent_state_event now src st l x)) = se_attached_sizes x"
  by (simp add: apply_agent_state_event_def Let_def split: option.split)

lemma sized_kill [simp]: "se_attached_sizes (snd (session_kill child x)) = se_attached_sizes x"
  by (simp add: session_kill_def)

lemma sized_capture [simp]: "se_attached_sizes (snd (record_capture tm bs x)) = se_attached_sizes x"
  by (simp add: record_capture_def Let_def split: prod.split option.split)

lemma sized_infer [simp]: "se_attached_sizes (record_infer tm from_str now x) = se_attached_sizes x"
proof -
  define r where "r = (if se_kind x \<noteq> CkUnknown then materialize_terminal_last_line tm x else (None, x))"
  have "se_attached_sizes (snd r) = se_attached_sizes x" by (simp add: r_def)
  then show ?thesis
    unfolding record_infer_def r_def [symmetric]
    by (simp add: Let_def split_beta split: option.split)
qed

lemma sized_output [simp]: "se_attached_sizes (record_output tm from_str now bs x) = se_attached_sizes x"
  by (simp add: record_output_def Let_def split_beta)

lemma sized_apply_min [simp]:
  "se_attached_sizes (snd (apply_min_attached_resize tm ok x)) = se_attached_sizes x"
  by (simp add: apply_min_attached_resize_def session_resize_def Let_def split: option.split prod.split)

lemma sized_persist [simp]: "se_attached_sizes (snd (persist ok x)) = se_attached_sizes x"
  by (simp add: persist_def)

lemma sized_flush [simp]: "se_attached_sizes (flush_dirty_persistence ok x) = se_attached_sizes x"
  by (simp add: flush_dirty_persistence_def split_beta)

lemma sized_resize_tick [simp]: "se_attached_sizes (resize_tick tm ok x) = se_attached_sizes x"
  by (simp add: resize_tick_def)

lemma sized_idle_tick [simp]: "se_attached_sizes (idle_tick now x) = se_attached_sizes x"
  by (simp add: idle_tick_def)

lemma sized_drain [simp]:
  "se_attached_sizes (snd (drain_pty_output tm from_str now k reads x)) = se_attached_sizes x"
  by (induction tm from_str now k reads x rule: drain_pty_output.induct)
    (simp_all split: read_result.split)

lemma sized_mark_exited [simp]: "se_attached_sizes (mark_exited ok code x) = se_attached_sizes x"
  by (simp add: mark_exited_def Let_def split_beta)

lemma sized_finish [simp]: "se_attached_sizes (io_finish ok code x) = se_attached_sizes x"
  by (simp add: io_finish_def)

lemma sized_take [simp]: "se_attached_sizes (take_pending x) = se_attached_sizes x"
  by (simp add: take_pending_def split: list.split)

lemma sized_write [simp]: "se_attached_sizes (write_pending a x) = se_attached_sizes x"
  by (simp add: write_pending_def Let_def split: option.split write_result.split prod.split)

lemma sized_io [simp]: "se_attached_sizes (io_iteration tm from_str a x) = se_attached_sizes x"
proof -
  define r where "r readable = (if readable then drain_pty_output tm from_str (io_now a) 64 (io_reads a) (take_pending x)
      else (False, take_pending x))" for readable
  have "se_attached_sizes (snd (r b)) = se_attached_sizes x" for b by (simp add: r_def)
  then show ?thesis
    unfolding io_iteration_def Let_def r_def [symmetric]
    by (simp add: split_beta split: option.split poll_result.split bool.split)
qed

text \<open>Only an attach of a client adds it to the sizes of a session.\<close>

lemma sized_step:
  "sized (session_step tm from_str x ev) \<subseteq>
    sized x \<union> (case ev of CallAttach c sz ok \<Rightarrow> {c} | _ \<Rightarrow> {})"
proof (cases ev)
  case (CallAttach c sz ok)
  then show ?thesis
    by (simp add: session_step_def sized_def attach_client_def AList.dom_update)
next
  case (CallUpdateSize c sz)
  then show ?thesis
    by (cases "map_of (se_attached_sizes x) c")
      (force simp: session_step_def sized_def update_client_size_def schedule_min_attached_resize_def
        AList.dom_update dest: map_of_SomeD)+
next
  case (CallDetach c)
  then show ?thesis
    by (auto simp: session_step_def sized_def detach_client_def schedule_min_attached_resize_def
        AList.delete_eq)
qed (simp_all add: session_step_def sized_def)

lemma sized_update_client: "sized (update_client_size c sz x) \<subseteq> sized x"
  using sized_step [of _ _ x "CallUpdateSize c sz"] by (simp add: session_step_def)

section \<open>Whose sizes a session counts\<close>

text \<open>No client is sized by a session after a change that was not before, save by \<open>A\<close>.\<close>

definition sizes_from :: "(session_id \<Rightarrow> client_id set) \<Rightarrow> 'm app \<Rightarrow> 'm app \<Rightarrow> bool" where
  "sizes_from A s s' \<longleftrightarrow> (\<forall>i x'. map_of (ap_sessions s') i = Some x' \<longrightarrow>
     sized x' \<subseteq> A i \<union> (case map_of (ap_sessions s) i of None \<Rightarrow> {} | Some x \<Rightarrow> sized x))"

abbreviation "no_new_sizes \<equiv> sizes_from (\<lambda>_. {})"

definition attached_to :: "client_id \<Rightarrow> 'm app \<Rightarrow> session_id \<Rightarrow> bool" where
  "attached_to c s i \<longleftrightarrow> (\<exists>x. map_of (ap_sessions s) i = Some x \<and> c \<in> sized x)"

lemma sizes_from_attached: "sizes_from A s s' \<Longrightarrow> attached_to c s' i \<Longrightarrow> c \<in> A i \<or> attached_to c s i"
  by (fastforce simp: sizes_from_def attached_to_def split: option.splits)

lemma no_new_sizes_refl [simp]: "ap_sessions s' = ap_sessions s \<Longrightarrow> no_new_sizes s s'"
  by (simp add: sizes_from_def)

lemma no_new_sizes_trans: "no_new_sizes s t \<Longrightarrow> sizes_from A t u \<Longrightarrow> sizes_from A s u"
  unfolding sizes_from_def by (fastforce split: option.splits)

lemma sizes_from_trans: "sizes_from A s t \<Longrightarrow> no_new_sizes t u \<Longrightarrow> sizes_from A s u"
  unfolding sizes_from_def by (fastforce split: option.splits)

lemma same_registry_sizes: "same_registry s s' \<Longrightarrow> no_new_sizes s s'"
  by (simp add: same_registry_def)

lemma publish_sizes: "no_new_sizes s (publish_session_list tm s)"
  by (simp add: sizes_from_def publish_sessions sized_def split: option.split)

lemma summaries_sizes: "no_new_sizes s (snd (summaries tm s))"
  using publish_sizes [of s tm] by (simp add: publish_session_list_def split_beta sizes_from_def)

lemma update_sizes:
  "map_of (ap_sessions s) i = Some x \<Longrightarrow> sized x' \<subseteq> A i \<union> sized x \<Longrightarrow> sizes_from A s (update_session i x' s)"
  by (auto simp: sizes_from_def update_session_def update_conv' split: option.split)

lemma delete_sizes: "ap_sessions s' = AList.delete i (ap_sessions s) \<Longrightarrow> no_new_sizes s s'"
  by (auto simp: sizes_from_def delete_conv')

lemma create_sizes:
  "no_new_sizes s (snd (create_session_for tm sp kind name command cwd env sz s))"
proof -
  have spawned: "sized x = {}" if "session_spawn tm f sid st now n c w e z p q = Inr x" for f sid st now n c w e z p q x
    using that by (auto simp: session_spawn_def sized_def split: if_splits option.splits)
  have add: "no_new_sizes s (publish_session_list tm
      (s\<lparr>ap_names := ns, ap_restored := rs, ap_sessions := AList.update i (snd (session_summary_of tm x)) (ap_sessions s)\<rparr>))"
    if "sized x = {}" for ns rs i x
    by (rule no_new_sizes_trans [OF _ publish_sizes])
      (use that in \<open>auto simp: sizes_from_def update_conv' sized_def\<close>)
  show ?thesis
    unfolding create_session_for_def Let_def
    by (auto intro!: add dest!: spawned split: option.split sum.split prod.split)
      (metis add snd_conv spawned)+
qed

lemma kill_sizes:
  assumes "registry_inv s"
  shows "no_new_sizes s (snd (kill_session_response tm cr child fault sid s))"
proof -
  have forgot: "no_new_sizes s (publish_session_list tm (forgotten sid s))"
    "no_new_sizes s (publish_session_list tm ((forgotten sid s)\<lparr>ap_sessions_table := t\<rparr>))" for t
    by (rule no_new_sizes_trans [OF _ publish_sizes], rule delete_sizes [of _ sid],
        simp add: forgotten_def)+
  have upd: "no_new_sizes s (update_session sid (snd (session_kill child x)) s)"
    if "map_of (ap_sessions s) sid = Some x" for x
    by (rule update_sizes [OF that]) (simp add: sized_def)
  have "snd (kill_session_response tm cr child fault sid s) = snd (kill_session_for tm cr child fault sid s)"
    by (simp add: kill_session_response_def split_beta split: option.split)
  also have "no_new_sizes s \<dots>"
    unfolding kill_session_cases [OF assms]
    by (auto simp: forgot upd split: option.split prod.split)
  finally show ?thesis .
qed

lemma evict_sizes:
  assumes "registry_inv s"
  shows "no_new_sizes s (evict_naturally_exited_session tm cr fault sid s)"
proof (cases "map_of (ap_sessions s) sid")
  case None
  then show ?thesis by (simp add: evict_naturally_exited_session_def publish_sizes)
next
  case (Some x)
  have "ap_sessions (insert_restored_session cr fault (stored_snapshot x) s) = ap_sessions s"
    using insert_restored_inv [OF assms Some, of cr fault] by (simp add: Let_def)
  then show ?thesis
    using Some publish_sizes [of s tm]
    by (cases "se_killed x") (auto simp: evict_naturally_exited_session_def Let_def
        intro!: no_new_sizes_trans [OF delete_sizes [of _ sid] publish_sizes])
qed

text \<open>What the rest of the daemon does: nobody else attaches with this connection's client id.\<close>

definition foreign :: "client_id \<Rightarrow> registry_event \<Rightarrow> bool" where
  "foreign c ev = (case ev of RSession _ (CallAttach c' _ _) \<Rightarrow> c' \<noteq> c | _ \<Rightarrow> True)"

lemma registry_step_sizes:
  assumes inv: "registry_inv s" and "foreign c ev"
  shows "\<exists>A. (\<forall>i. c \<notin> A i) \<and> sizes_from A s (registry_step tm from_str cr s ev)"
proof (cases ev)
  case (RSession sid e)
  show ?thesis
  proof (cases "map_of (ap_sessions s) sid")
    case None
    then show ?thesis using RSession by (auto simp: registry_step_def)
  next
    case (Some x)
    define A where "A i = (case e of CallAttach c' sz ok \<Rightarrow> {c'} | _ \<Rightarrow> {})" for i :: session_id
    have "sizes_from A s (update_session sid (session_step tm from_str x e) s)"
      by (rule update_sizes [OF Some]) (use sized_step [of tm from_str x e] in \<open>simp add: A_def Un_commute\<close>)
    moreover have "c \<notin> A i" for i
      using assms(2) RSession by (simp add: A_def foreign_def split: session_event.splits)
    ultimately show ?thesis using RSession Some by (auto simp: registry_step_def)
  qed
next
  case (RForward fault sid exited)
  then show ?thesis
    using evict_sizes [OF inv]
    by (auto simp: registry_step_def session_list_forward_def schedule_session_list_publish_def)
next
  case RPublishTick
  have "no_new_sizes s (publish_session_list tm (s\<lparr>ap_publish_pending := False\<rparr>))"
    by (rule no_new_sizes_trans [OF _ publish_sizes]) simp
  then show ?thesis using RPublishTick by (auto simp: registry_step_def publish_tick_def)
qed (auto simp: registry_step_def create_sizes kill_sizes [OF inv] publish_sizes
    device_ops_same [THEN same_registry_sizes] device_lookup_same [THEN same_registry_sizes])

section \<open>Handlers keep the registry\<close>

lemma session_call_inv:
  assumes inv: "registry_inv s" and x: "map_of (ap_sessions s) sid = Some x"
    and x': "x' = session_step tm from_str x ev"
  shows "registry_inv (update_session sid x' s)"
proof -
  have "se_id x = sid \<and> session_inv x \<and> capture_inv x"
    using inv x by (simp add: registry_inv_def entries_ok_def)
  from session_step_keeps [OF this, of tm from_str ev] show ?thesis
    unfolding x' by (intro registry_inv_session [OF inv x]) simp_all
qed

lemma update_twice: "update_session i x (update_session i y s) = update_session i x s"
  by (simp add: update_session_def)

lemma update_look [simp]:
  "map_of (ap_sessions (update_session i x s)) j = (if j = i then Some x else map_of (ap_sessions s) j)"
  by (simp add: update_session_def update_conv')

lemma session_calls:
  "snd (attach_client tm ok c sz x) = session_step tm (\<lambda>_. None) x (CallAttach c sz ok)"
  "snd (attach_bytes tm seq x) = session_step tm (\<lambda>_. None) x (CallAttachBytes seq)"
  "snd (write_input now bs x) = session_step tm (\<lambda>_. None) x (CallInput now bs)"
  "snd (apply_agent_state_event now src st l x) = session_step tm (\<lambda>_. None) x (CallAgent now src st l)"
  "update_client_size c sz x = session_step tm (\<lambda>_. None) x (CallUpdateSize c sz)"
  "detach_client c x = session_step tm (\<lambda>_. None) x (CallDetach c)"
  by (simp_all add: session_step_def)

lemma drop_attachment_inv: "registry_inv s \<Longrightarrow> registry_inv (drop_attachment conn s)"
  by (auto simp: drop_attachment_def split: option.split
      intro: session_call_inv [OF _ _ session_calls(6)])

lemma drop_attachment_look: "map_of (ap_sessions (drop_attachment conn s)) sid =
    (if cn_attachment conn = Some sid then map_option (detach_client (cn_client_id conn)) (map_of (ap_sessions s) sid)
     else map_of (ap_sessions s) sid)"
  by (auto simp: drop_attachment_def split: option.split)

lemma schedule_inv: "registry_inv s \<Longrightarrow> registry_inv (schedule_session_list_publish s)"
  by (erule registry_inv_same [rotated]) (simp add: same_registry_def schedule_session_list_publish_def)

lemma schedule_sizes: "sizes_from A s (schedule_session_list_publish t) = sizes_from A s t"
  by (simp add: sizes_from_def schedule_session_list_publish_def)

lemma handle_attach_inv:
  assumes inv: "registry_inv s" and h: "handle_attach tm cr ok sid sz last_seen conn s = (ms, conn', s')"
  shows "registry_inv s'"
proof (cases "invalid_client_size sz = None \<and> map_of (ap_sessions s) sid \<noteq> None")
  case False
  then have "s' = s" using h by (auto simp: handle_attach_def split: option.splits)
  then show ?thesis using inv by simp
next
  case True
  define s1 where "s1 = drop_attachment conn s"
  have inv1: "registry_inv s1" unfolding s1_def by (rule drop_attachment_inv [OF inv])
  obtain session where session: "map_of (ap_sessions s) sid = Some session" using True by blast
  then have "map_of (ap_sessions s1) sid \<noteq> None" by (simp add: s1_def drop_attachment_look)
  then obtain x where x: "map_of (ap_sessions s1) sid = Some x" by blast
  define x1 where "x1 = snd (attach_client tm ok (cn_client_id conn) sz x)"
  define x2 where "x2 = snd (attach_bytes tm last_seen x1)"
  have 1: "registry_inv (update_session sid x1 s1)"
    by (rule session_call_inv [OF inv1 x]) (simp add: x1_def session_calls)
  have 2: "registry_inv (update_session sid x2 (update_session sid x1 s1))"
    by (rule session_call_inv [OF 1]) (simp_all add: x2_def session_calls)
  have 3: "registry_inv (update_session sid (detach_client (cn_client_id conn) x2)
      (update_session sid x2 (update_session sid x1 s1)))"
    by (rule session_call_inv [OF 2 _ session_calls(6)]) simp
  have "s' \<in> {update_session sid x1 s1, update_session sid x2 s1,
      update_session sid (detach_client (cn_client_id conn) x2) s1}"
    using h True session x unfolding handle_attach_def Let_def s1_def [symmetric]
    by (auto simp: x1_def x2_def split: bool.splits option.splits prod.splits)
  then show ?thesis using 1 2 3 by (auto simp: update_twice)
qed

lemma pairing_same: "same_registry s (s\<lparr>ap_pairing := pm\<rparr>)"
  by (simp add: same_registry_def)

lemma begin_pairing_same: "same_registry s (snd (handle_begin_pairing cr now rng endpoint kind s))"
  by (simp add: handle_begin_pairing_def same_registry_def Let_def split: prod.split sum.split)

lemma approve_same: "same_registry s (snd (handle_approve_pairing kind rid a s))"
  by (simp add: handle_approve_pairing_def same_registry_def split: prod.split)

lemma remove_device_same: "same_registry s (snd (handle_remove_device cr fault kind name s))"
  using device_lookup_same(1) [of s cr fault name]
  by (simp add: handle_remove_device_def same_registry_def split_beta split: sum.split option.split)

lemmas pairing_calls = begin_pairing_same approve_same remove_device_same

lemma handle_input_inv: "registry_inv s \<Longrightarrow> registry_inv (snd (handle_input cr now sid bs s))"
  by (auto simp: handle_input_def split_beta split: option.split
      intro: session_call_inv [OF _ _ session_calls(3)])

lemma handle_resize_inv: "registry_inv s \<Longrightarrow> registry_inv (snd (handle_resize cr c sid sz s))"
  by (auto simp: handle_resize_def split: option.split
      intro: session_call_inv [OF _ _ session_calls(5)])

lemma handle_agent_inv: "registry_inv s \<Longrightarrow> registry_inv (snd (handle_agent_event cr now kind sid src st l s))"
  by (auto simp: handle_agent_event_def split_beta split: option.split sum.split
      intro!: schedule_inv intro: session_call_inv [OF _ _ session_calls(4)])

lemma summaries_inv: "registry_inv s \<Longrightarrow> registry_inv (snd (summaries tm s))"
  using registry_inv_publish [of s tm]
  by (rule registry_inv_same [rotated]) (simp_all add: publish_session_list_def split_beta same_registry_def)

text \<open>Every message but an attach leaves the attachment alone and adds no client.\<close>

lemma handle_message_plain:
  assumes inv: "registry_inv s" and fresh: "fresh_id s (sp_id (cc_spawn ctx))"
    and h: "handle_message tm cr ctx msg conn s = (ms, cont, conn', s')"
    and "\<not> (\<exists>sid sz seq. msg = AttachSession sid sz seq)"
  shows "registry_inv s' \<and> no_new_sizes s s' \<and> cn_attachment conn' = cn_attachment conn \<and>
    cn_client_id conn' = cn_client_id conn"
proof -
  have sizes: "no_new_sizes s (snd (handle_input cr now sid bs s))"
    "no_new_sizes s (snd (handle_agent_event cr now kind sid src st l s))"
    "no_new_sizes s (snd (handle_resize cr c sid sz s))" for now sid bs kind src st l c sz
  proof -
    show "no_new_sizes s (snd (handle_input cr now sid bs s))"
      by (auto simp: handle_input_def split_beta sized_def intro!: update_sizes split: option.split)
    show "no_new_sizes s (snd (handle_agent_event cr now kind sid src st l s))"
      by (auto simp: handle_agent_event_def split_beta sized_def schedule_sizes intro!: update_sizes
          split: option.split sum.split)
    show "no_new_sizes s (snd (handle_resize cr c sid sz s))"
      using sized_update_client
      by (auto simp: handle_resize_def intro!: update_sizes split: option.split)
  qed
  show ?thesis
  proof (cases msg)
    case (CreateSession name command cwd env sz)
    then show ?thesis
      using h inv create_session_inv [OF inv fresh] create_sizes
      by (auto simp: handle_message_def Let_def split_beta split: option.splits if_splits)
  next
    case (KillSession sid)
    then show ?thesis
      using h inv kill_response_inv [OF inv] kill_sizes [OF inv]
      by (auto simp: handle_message_def Let_def split_beta split: if_splits)
  next
    case ListSessions
    then show ?thesis
      using h summaries_inv [OF inv, of tm] summaries_sizes [of s tm]
      by (auto simp: handle_message_def Let_def split: prod.splits)
  next
    case (AttachSession sid sz seq)
    then show ?thesis using assms(4) by blast
  qed (use h inv sizes handle_input_inv [OF inv] handle_resize_inv [OF inv] handle_agent_inv [OF inv]
      pairing_calls [THEN registry_inv_same, OF inv] pairing_calls [THEN same_registry_sizes]
    in \<open>auto simp: handle_message_def Let_def split_beta split: if_splits\<close>)
qed

section \<open>The connection as a machine\<close>

text \<open>
  The messages of one connection, the events of the rest of the daemon in between: other
  connections never use this connection's client id, and fresh session ids are fresh.
\<close>

datatype local_event = Own call_context "client_msg option" | Others registry_event

definition local_step ::
    "'m parser \<Rightarrow> (rstr \<Rightarrow> codex_event option) \<Rightarrow> persist_crates \<Rightarrow> client_id \<Rightarrow> rstr \<Rightarrow> rstr \<Rightarrow>
      'm local_state \<Rightarrow> local_event \<Rightarrow> 'm local_state" where
  "local_step tm from_str cr me version host l ev = (case ev of
      Own ctx msg \<Rightarrow>
        (if fresh_id (lo_app l) (sp_id (cc_spawn ctx)) then serve_message tm cr me version host ctx msg l else l)
    | Others ev \<Rightarrow>
        (if foreign me ev then l\<lparr>lo_app := registry_step tm from_str cr (lo_app l) ev\<rparr> else l))"

definition local_inv :: "'m local_state \<Rightarrow> bool" where
  "local_inv l \<longleftrightarrow> registry_inv (lo_app l)"

definition resizes_ok :: "local_event \<Rightarrow> bool" where
  "resizes_ok ev = (case ev of Own ctx msg \<Rightarrow> cc_resize_ok ctx | Others _ \<Rightarrow> True)"

text \<open>A session sizes its PTY for this connection only while the connection holds the attachment.\<close>

definition sizes_inv :: "client_id \<Rightarrow> 'm local_state \<Rightarrow> bool" where
  "sizes_inv me l \<longleftrightarrow> registry_inv (lo_app l) \<and>
     (case lo_phase l of Serving conn \<Rightarrow> cn_client_id conn = me | _ \<Rightarrow> True) \<and>
     (\<forall>i. attached_to me (lo_app l) i \<longrightarrow>
        (case lo_phase l of Serving conn \<Rightarrow> cn_attachment conn = Some i | _ \<Rightarrow> False))"

lemma drop_attachment_sizes:
  "(\<And>i. attached_to (cn_client_id conn) s i \<Longrightarrow> cn_attachment conn = Some i) \<Longrightarrow>
    \<not> attached_to (cn_client_id conn) (drop_attachment conn s) i"
  by (auto simp: attached_to_def drop_attachment_look sized_def detach_client_def
      schedule_min_attached_resize_def AList.delete_eq split: if_splits)

lemma handle_message_inv:
  assumes inv: "registry_inv s" and fresh: "fresh_id s (sp_id (cc_spawn ctx))"
    and h: "handle_message tm cr ctx msg conn s = (ms, cont, conn', s')"
  shows "registry_inv s'"
proof (cases "\<exists>sid sz seq. msg = AttachSession sid sz seq")
  case True
  then obtain sid sz seq where m: "msg = AttachSession sid sz seq" by blast
  obtain ms2 conn2 s2 where a: "handle_attach tm cr (cc_resize_ok ctx) sid sz seq conn s = (ms2, conn2, s2)"
    by (metis prod_cases3)
  then have "s' = s2" using h m by (simp add: handle_message_def Let_def)
  then show ?thesis using handle_attach_inv [OF inv a] by simp
next
  case False
  then show ?thesis using handle_message_plain [OF inv fresh h] by blast
qed

lemma serve_message_inv:
  assumes "registry_inv (lo_app l)" and "fresh_id (lo_app l) (sp_id (cc_spawn ctx))"
  shows "registry_inv (lo_app (serve_message tm cr me version host ctx msg l))"
proof (cases "\<exists>conn m. lo_phase l = Serving conn \<and> msg = Some m")
  case True
  then obtain conn m where cm: "lo_phase l = Serving conn" "msg = Some m" by blast
  obtain ms cont conn' s' where h: "handle_message tm cr ctx m conn (lo_app l) = (ms, cont, conn', s')"
    by (metis prod_cases4)
  have "registry_inv s'" by (rule handle_message_inv [OF assms h])
  then show ?thesis
    using cm h drop_attachment_inv [OF \<open>registry_inv s'\<close>]
    by (simp add: serve_message_def end_connection_def Let_def)
next
  case False
  then show ?thesis
    using assms(1) drop_attachment_inv [OF assms(1)]
    by (auto simp: serve_message_def end_connection_def split: conn_phase.split option.split prod.split)
qed

interpretation local_conn: inv_machine "local_step tm from_str cr me version host" local_inv
proof unfold_locales
  fix l :: "'a local_state" and ev
  assume "local_inv l"
  then have inv: "registry_inv (lo_app l)" by (simp add: local_inv_def)
  show "local_inv (local_step tm from_str cr me version host l ev)"
    using serve_message_inv [OF inv] registry.step_inv [OF inv, of tm from_str cr] inv
    by (simp add: local_step_def local_inv_def split: local_event.split)
qed

lemma attach_client_ok: "fst (attach_client tm True c sz x)"
  by (simp add: attach_client_def apply_min_attached_resize_def session_resize_def Let_def
      split: option.split prod.split)

lemma sized_detach: "c \<notin> sized (detach_client c x)"
  by (auto simp: sized_def detach_client_def schedule_min_attached_resize_def AList.delete_eq)

lemma attached_update:
  "attached_to c (update_session i x s) j \<longleftrightarrow> (if j = i then c \<in> sized x else attached_to c s j)"
  by (auto simp: attached_to_def)

text \<open>The attach arm beyond its early returns.\<close>

lemma handle_attach_live:
  assumes "invalid_client_size sz = None" and "map_of (ap_sessions (drop_attachment conn s)) sid = Some x"
    and "attach_client tm ok (cn_client_id conn) sz x = (done1, x1)"
    and "attach_bytes tm last_seen x1 = ((seq, bs), x2)"
  shows "handle_attach tm cr ok sid sz last_seen conn s =
    (if \<not> done1 then ([Error Internal (lit ''resize PTY'')], conn\<lparr>cn_forwarder := None, cn_attachment := None\<rparr>,
        update_session sid x1 (drop_attachment conn s))
     else case se_exit_code x2 of
       Some code \<Rightarrow> ([Attached sid bs seq, SessionExited sid code],
         conn\<lparr>cn_forwarder := None, cn_attachment := None\<rparr>,
         update_session sid (detach_client (cn_client_id conn) x2) (drop_attachment conn s))
     | None \<Rightarrow> ([Attached sid bs seq], conn\<lparr>cn_forwarder := Some (sid, seq), cn_attachment := Some sid\<rparr>,
         update_session sid x2 (drop_attachment conn s)))"
proof -
  have "map_of (ap_sessions s) sid \<noteq> None"
    using assms(2) by (auto simp: drop_attachment_look split: if_splits)
  then show ?thesis
    using assms by (auto simp: handle_attach_def Let_def split: option.split)
qed

lemma handle_attach_early:
  assumes "\<not> (invalid_client_size sz = None \<and> map_of (ap_sessions s) sid \<noteq> None)"
    and "handle_attach tm cr ok sid sz last_seen conn s = (ms, conn', s')"
  shows "conn' = conn \<and> s' = s"
  using assms by (auto simp: handle_attach_def split: option.splits)

lemma handle_attach_sizes:
  assumes follows: "\<And>i. attached_to (cn_client_id conn) s i \<Longrightarrow> cn_attachment conn = Some i"
    and h: "handle_attach tm cr True sid sz last_seen conn s = (ms, conn', s')"
  shows "cn_client_id conn' = cn_client_id conn \<and>
    (\<forall>i. attached_to (cn_client_id conn) s' i \<longrightarrow> cn_attachment conn' = Some i)"
proof (cases "invalid_client_size sz = None \<and> map_of (ap_sessions s) sid \<noteq> None")
  case False
  then show ?thesis using handle_attach_early [OF False h] follows by blast
next
  case True
  then have "map_of (ap_sessions (drop_attachment conn s)) sid \<noteq> None" by (simp add: drop_attachment_look)
  then obtain x where x: "map_of (ap_sessions (drop_attachment conn s)) sid = Some x" by blast
  obtain d x1 where x1: "attach_client tm True (cn_client_id conn) sz x = (d, x1)" by fastforce
  have d: "d" using attach_client_ok [of tm "cn_client_id conn" sz x] x1 by simp
  obtain seq bs x2 where x2: "attach_bytes tm last_seen x1 = ((seq, bs), x2)"
    by (metis old.prod.exhaust)
  have none: "\<not> attached_to (cn_client_id conn) (drop_attachment conn s) i" for i
    by (rule drop_attachment_sizes) (rule follows)
  show ?thesis
    using h handle_attach_live [OF conjunct1 [OF True] x x1 x2, of cr] d
    by (auto simp: attached_update none sized_detach split: option.splits if_splits)
qed

lemma handle_message_sizes:
  assumes inv: "registry_inv s" and fresh: "fresh_id s (sp_id (cc_spawn ctx))" and ok: "cc_resize_ok ctx"
    and follows: "\<And>i. attached_to (cn_client_id conn) s i \<Longrightarrow> cn_attachment conn = Some i"
    and h: "handle_message tm cr ctx msg conn s = (ms, cont, conn', s')"
  shows "cn_client_id conn' = cn_client_id conn \<and>
    (\<forall>i. attached_to (cn_client_id conn) s' i \<longrightarrow> cn_attachment conn' = Some i)"
proof (cases "\<exists>sid sz seq. msg = AttachSession sid sz seq")
  case True
  then obtain sid sz seq where m: "msg = AttachSession sid sz seq" by blast
  obtain ms2 where a: "handle_attach tm cr True sid sz seq conn s = (ms2, conn', s')"
    using h m ok by (auto simp: handle_message_def Let_def split: prod.splits)
  show ?thesis by (rule handle_attach_sizes [OF follows a])
next
  case False
  then show ?thesis
    using handle_message_plain [OF inv fresh h False] sizes_from_attached follows by fastforce
qed

lemma sizes_step:
  assumes "sizes_inv me l" and "resizes_ok ev"
  shows "sizes_inv me (local_step tm from_str cr me version host l ev)"
proof (cases ev)
  case (Others rev)
  have inv: "registry_inv (lo_app l)" using assms(1) by (simp add: sizes_inv_def)
  show ?thesis
  proof (cases "foreign me rev")
    case True
    then have "attached_to me (registry_step tm from_str cr (lo_app l) rev) i \<Longrightarrow> attached_to me (lo_app l) i" for i
      using registry_step_sizes [OF inv True, of tm from_str cr] sizes_from_attached by fast
    then show ?thesis
      using Others True assms(1) registry.step_inv [OF inv] by (auto simp: sizes_inv_def local_step_def)
  qed (use Others assms(1) in \<open>simp add: local_step_def\<close>)
next
  case (Own ctx msg)
  show ?thesis
  proof (cases "fresh_id (lo_app l) (sp_id (cc_spawn ctx))")
    case fresh: True
    have inv: "registry_inv (lo_app l)" using assms(1) by (simp add: sizes_inv_def)
    have inv': "registry_inv (lo_app (serve_message tm cr me version host ctx msg l))"
      by (rule serve_message_inv [OF inv fresh])
    have eq: "local_step tm from_str cr me version host l ev = serve_message tm cr me version host ctx msg l"
      using Own fresh by (simp add: local_step_def)
    show ?thesis
    proof (cases "lo_phase l")
      case (Serving conn)
      then have me: "cn_client_id conn = me"
        and follows: "\<And>i. attached_to (cn_client_id conn) (lo_app l) i \<Longrightarrow> cn_attachment conn = Some i"
        using assms(1) by (auto simp: sizes_inv_def)
      show ?thesis
      proof (cases msg)
        case None
        then show ?thesis
          using Serving inv' me drop_attachment_sizes [of conn "lo_app l", OF follows]
          unfolding eq by (simp add: serve_message_def sizes_inv_def end_connection_def)
      next
        case (Some m)
        obtain ms cont conn' s' where h: "handle_message tm cr ctx m conn (lo_app l) = (ms, cont, conn', s')"
          by (metis prod_cases4)
        have new: "cn_client_id conn' = cn_client_id conn"
          "\<And>i. attached_to (cn_client_id conn') s' i \<Longrightarrow> cn_attachment conn' = Some i"
          using handle_message_sizes [OF inv fresh _ follows h] assms(2) Own by (auto simp: resizes_ok_def)
        show ?thesis
          using Serving Some h inv' me new drop_attachment_sizes [of conn' s', OF new(2)]
          unfolding eq by (simp add: serve_message_def sizes_inv_def end_connection_def Let_def split: if_splits)
      qed
    next
      case Greeting
      then show ?thesis
        using assms(1) inv' unfolding eq
        by (auto simp: serve_message_def sizes_inv_def accept_hello_def split: option.splits client_msg.splits)
    next
      case Ended
      then show ?thesis using assms(1) unfolding eq by (simp add: serve_message_def)
    qed
  qed (use Own assms(1) in \<open>simp add: local_step_def\<close>)
qed

interpretation local_sizes: inv_machine
  "\<lambda>l ev. if resizes_ok ev then local_step tm from_str cr me version host l ev else l" "sizes_inv me"
  by unfold_locales (simp add: sizes_step)

lemma local_run_sizes:
  "sizes_inv me l \<Longrightarrow> list_all resizes_ok evs \<Longrightarrow>
    sizes_inv me (foldl (local_step tm from_str cr me version host) l evs)"
proof -
  assume "sizes_inv me l" and ok: "list_all resizes_ok evs"
  have "foldl (local_step tm from_str cr me version host) l evs =
      foldl (\<lambda>l ev. if resizes_ok ev then local_step tm from_str cr me version host l ev else l) l evs"
    using ok by (induction evs arbitrary: l) simp_all
  with \<open>sizes_inv me l\<close> show ?thesis by (simp add: local_sizes.run_inv)
qed

section \<open>Properties\<close>

fun operator_only :: "client_msg \<Rightarrow> bool" where
  "operator_only (BeginPairing _) = True"
| "operator_only (ApprovePairing _ _) = True"
| "operator_only ListDevices = True"
| "operator_only (RemoveDevice _) = True"
| "operator_only (AgentStateEvent _ _ _ _) = True"
| "operator_only _ = False"

fun iroh_only :: "client_msg \<Rightarrow> bool" where
  "iroh_only (PairWithCode _ _ _) = True"
| "iroh_only (RegisterPushToken _ _) = True"
| "iroh_only (UnregisterPushToken _ _) = True"
| "iroh_only UnpairSelf = True"
| "iroh_only _ = False"

definition demo_local :: "unit local_state" where
  "demo_local = \<lparr>lo_phase = Greeting, lo_sent = [], lo_app = demo_app\<rparr>"

definition demo_call :: call_context where
  "demo_call = \<lparr>cc_spawn = demo_context, cc_now = 7, cc_rng = (\<lambda>_. 31), cc_endpoint = (\<lambda>_. None),
    cc_child = ChildExited, cc_fault = None, cc_resize_ok = True, cc_written = 5\<rparr>"

text \<open>[local_requests_refused].  On the local socket a client that is not the command line
  cannot start or approve a pairing, list or remove devices or report agent states: it gets
  one Forbidden error and neither the connection nor the daemon changes.  Pairing with a
  code, push tokens and unpairing are refused there for every client.\<close>
theorem local_requests_refused:
  assumes "handle_message tm cr ctx msg conn s = (ms, cont, conn', s')"
  shows "(operator_only msg \<and> cn_kind conn \<noteq> LocalCli \<longrightarrow>
      cont \<and> conn' = conn \<and> s' = s \<and> (\<exists>e. ms = [Error Forbidden e])) \<and>
    (iroh_only msg \<longrightarrow> cont \<and> conn' = conn \<and> s' = s \<and> (\<exists>c e. ms = [Error c e]))"
  using assms
  by (cases msg) (auto simp: handle_message_def handle_begin_pairing_def handle_approve_pairing_def
      handle_remove_device_def handle_agent_event_def may_emit_agent_state_event_def forbidden_def)

theorem local_requests_refused_witness:
  "\<exists>ms cont conn' s'. handle_message demo_parser demo_persist demo_call ListDevices
      \<lparr>cn_client_id = ClientId 2, cn_kind = IosApp, cn_attachment = None, cn_forwarder = None, cn_listing = False\<rparr>
      demo_app = (ms, cont, conn', s') \<and> s' = demo_app \<and> (\<exists>e. ms = [Error Forbidden e])"
proof -
  obtain ms cont conn' s' where h: "handle_message demo_parser demo_persist demo_call ListDevices
      \<lparr>cn_client_id = ClientId 2, cn_kind = IosApp, cn_attachment = None, cn_forwarder = None, cn_listing = False\<rparr>
      demo_app = (ms, cont, conn', s')" by (metis prod_cases4)
  from local_requests_refused [OF h] h show ?thesis by auto
qed

text \<open>[handshake_gate].  A connection whose first message is not a Hello with the daemon's
  contract version is told so and closed: whatever it sends afterwards, the daemon's state
  stays as it was.  With the right version it is served, with nothing attached.\<close>
theorem handshake_gate:
  assumes "lo_phase l = Greeting" and "\<And>ev. ev \<in> set evs \<Longrightarrow> \<exists>ctx msg. ev = Own ctx msg"
    and "l1 = serve_message tm cr me version host ctx (Some m) l"
  shows "lo_app l1 = lo_app l \<and>
    (if \<exists>kind v. m = Hello kind v CONTRACT_VERSION
     then 0 < cc_written ctx \<longrightarrow> (\<exists>conn. lo_phase l1 = Serving conn \<and> cn_client_id conn = me \<and> cn_attachment conn = None)
     else lo_phase l1 = Ended \<and> foldl (local_step tm from_str cr me version host) l1 evs = l1 \<and>
       (0 < cc_written ctx \<longrightarrow> (\<exists>c e. lo_sent l1 = lo_sent l @ [Error c e])))"
proof -
  have stay: "foldl (local_step tm from_str cr me version host) k evs = k" if "lo_phase k = Ended" for k
    using assms(2) that
  proof (induction evs)
    case (Cons ev evs)
    obtain ctx msg where "ev = Own ctx msg" using Cons.prems(1) by (meson list.set_intros(1))
    then show ?case using Cons by (simp add: local_step_def serve_message_def)
  qed simp
  show ?thesis
  proof (cases "\<exists>kind v. m = Hello kind v CONTRACT_VERSION")
    case True
    then show ?thesis using assms(1,3) by (auto simp: serve_message_def accept_hello_def)
  next
    case False
    have "lo_phase l1 = Ended \<and> lo_app l1 = lo_app l \<and>
        (0 < cc_written ctx \<longrightarrow> (\<exists>c e. lo_sent l1 = lo_sent l @ [Error c e]))"
      using False assms(1,3) by (cases m) (auto simp: serve_message_def accept_hello_def)
    then show ?thesis using False stay by simp
  qed
qed

theorem handshake_gate_witness:
  "lo_phase (serve_message demo_parser demo_persist (ClientId 2) [] [] demo_call (Some (Hello LocalCli [] 4)) demo_local) = Ended"
proof -
  have "lo_phase demo_local = Greeting" by (simp add: demo_local_def)
  moreover have "\<And>ev :: local_event. ev \<in> set [] \<Longrightarrow> \<exists>ctx msg. ev = Own ctx msg" by simp
  ultimately show ?thesis
    using handshake_gate [OF _ _ refl, of demo_local "[]" demo_parser demo_persist "ClientId 2" "[]" "[]"
        demo_call "Hello LocalCli [] 4" "\<lambda>_. None"]
    by (auto simp: CONTRACT_VERSION_def)
qed

text \<open>As long as resizing a PTY does not fail: whatever a
  connection and the rest of the daemon do, a session counts the connection's client when it
  sizes its PTY only while that connection is served and holds the attachment to that very
  session; in particular after the connection has ended, however it ended, no session does.\<close>
theorem attachment_ends_with_connection:
  assumes "registry_inv (lo_app l0)" and "lo_phase l0 = Greeting"
    and "\<And>i. \<not> attached_to me (lo_app l0) i"
    and "list_all resizes_ok evs"
    and "l = foldl (local_step tm from_str cr me version host) l0 evs"
  shows "registry_inv (lo_app l) \<and> (\<forall>i. attached_to me (lo_app l) i \<longrightarrow>
      (\<exists>conn. lo_phase l = Serving conn \<and> cn_client_id conn = me \<and> cn_attachment conn = Some i))"
proof -
  have "sizes_inv me l0" using assms(1-3) by (simp add: sizes_inv_def)
  then have "sizes_inv me l" unfolding assms(5) by (rule local_run_sizes [OF _ assms(4)])
  then show ?thesis
    by (auto simp: sizes_inv_def split: conn_phase.splits)
qed

theorem attachment_ends_with_connection_witness:
  "registry_inv (lo_app (foldl (local_step demo_parser (\<lambda>_. None) demo_persist (ClientId 2) [] []) demo_local
     [Own demo_call (Some (Hello LocalCli [] 5)),
      Own demo_call (Some (CreateSession [] [lit ''sh''] (lit ''/'') Map.empty default_client_size)),
      Own demo_call (Some (AttachSession (SessionId 1) default_client_size None)), Own demo_call None]))"
proof -
  let ?evs = "[Own demo_call (Some (Hello LocalCli [] 5)),
      Own demo_call (Some (CreateSession [] [lit ''sh''] (lit ''/'') Map.empty default_client_size)),
      Own demo_call (Some (AttachSession (SessionId 1) default_client_size None)), Own demo_call None]"
  have "registry_inv (lo_app demo_local)" "lo_phase demo_local = Greeting"
    using demo_registry by (simp_all add: demo_local_def)
  moreover have "\<not> attached_to (ClientId 2) (lo_app demo_local) i" for i
    by (simp add: demo_local_def demo_app_def attached_to_def)
  moreover have "list_all resizes_ok ?evs" by (simp add: resizes_ok_def demo_call_def)
  ultimately show ?thesis by (rule attachment_ends_with_connection [OF _ _ _ _ refl, THEN conjunct1])
qed

text \<open>When the PTY cannot be resized during an attach, the client
  gets an error and the connection holds no attachment, but the session keeps the client's
  size: it still counts after the connection has ended, and limits the size of the PTY for
  every other client until the session is gone.\<close>
theorem failed_attach_leaves_size:
  assumes "map_of (ap_sessions s) sid = Some x" and "cn_attachment conn = None"
    and "invalid_client_size sz = None"
    and "handle_message tm cr (ctx\<lparr>cc_resize_ok := False\<rparr>) (AttachSession sid sz seq) conn s = (ms, cont, conn', s')"
  shows "ms = [Error Internal (lit ''resize PTY'')] \<and> cont \<and> cn_attachment conn' = None \<and>
    attached_to (cn_client_id conn) (lo_app (end_connection conn' (l\<lparr>lo_app := s'\<rparr>))) sid"
proof -
  let ?c = "cn_client_id conn"
  define y where "y = x\<lparr>se_attached_sizes := AList.update ?c sz (se_attached_sizes x)\<rparr>"
  have "se_attached_sizes y \<noteq> []" by (simp add: y_def AList.update_nonempty)
  then obtain z where "min_client_size (map snd (se_attached_sizes y)) = Some z"
    by (cases "se_attached_sizes y") (auto simp: min_client_size_def)
  then have att: "attach_client tm False ?c sz x = (False, y)"
    by (simp add: attach_client_def y_def apply_min_attached_resize_def session_resize_def)
  have "?c \<in> sized y" by (simp add: y_def sized_def AList.dom_update)
  have "handle_attach tm cr False sid sz seq conn s = ([Error Internal (lit ''resize PTY'')],
      conn\<lparr>cn_forwarder := None, cn_attachment := None\<rparr>, update_session sid y s)"
    using assms(1-3) att by (simp add: handle_attach_def drop_attachment_def Let_def)
  then show ?thesis
    using assms(4) \<open>?c \<in> sized y\<close>
    by (auto simp: handle_message_def Let_def end_connection_def drop_attachment_def attached_update)
qed

theorem failed_attach_leaves_size_witness:
  "\<exists>ms cont conn' s'. handle_message demo_parser demo_persist (demo_call\<lparr>cc_resize_ok := False\<rparr>)
      (AttachSession (SessionId 1) default_client_size None)
      \<lparr>cn_client_id = ClientId 2, cn_kind = LocalCli, cn_attachment = None, cn_forwarder = None, cn_listing = False\<rparr>
      (demo_app\<lparr>ap_sessions := [(SessionId 1, demo_spawn)]\<rparr>) = (ms, cont, conn', s') \<and>
    attached_to (ClientId 2) (lo_app (end_connection conn' (demo_local\<lparr>lo_app := s'\<rparr>))) (SessionId 1)"
proof -
  let ?conn = "\<lparr>cn_client_id = ClientId 2, cn_kind = LocalCli, cn_attachment = None, cn_forwarder = None, cn_listing = False\<rparr>"
  obtain ms cont conn' s' where h: "handle_message demo_parser demo_persist (demo_call\<lparr>cc_resize_ok := False\<rparr>)
      (AttachSession (SessionId 1) default_client_size None) ?conn
      (demo_app\<lparr>ap_sessions := [(SessionId 1, demo_spawn)]\<rparr>) = (ms, cont, conn', s')" by (metis prod_cases4)
  have "invalid_client_size default_client_size = None"
    by (simp add: invalid_client_size_def default_client_size_def MAX_TERMINAL_DIMENSION_def)
  from failed_attach_leaves_size [OF _ _ this h, of demo_spawn demo_local] h show ?thesis by auto
qed

end
