(* ===== verification/Transport.thy ===== *)
theory Transport
  imports LocalIpc
begin

text \<open>
  A connection of a phone over iroh, \<open>crates/daemon/src/transport_iroh.rs\<close>.  The transport
  authenticates the peer's node id; a peer that is not paired can only ask to be paired, which
  an operator has to approve, and a paired one can use its sessions until its pairing is
  revoked.  The arms shared with the local socket are those of \<open>LocalIpc\<close>.  The wait for the
  operator's answer is a phase of its own, in which the rest of the daemon goes on.
\<close>

section \<open>State\<close>

record iroh_conn =
  ic_conn :: connection
  ic_version :: nat
  ic_node :: rstr
  ic_paired :: bool
  ic_seen :: "nat option"

record iroh_context =
  ix_call :: call_context
  ix_nonce :: bytes
  ix_request_id :: client_id
  ix_prompt_open :: "nat \<Rightarrow> bool"

datatype iroh_phase = IrohGreeting | IrohServing iroh_conn | IrohApproval iroh_conn rstr pending_approval | IrohEnded

section \<open>Guards and replies\<close>

definition iroh_version_is_accepted :: "nat \<Rightarrow> bool \<Rightarrow> bool" where
  "iroh_version_is_accepted protocol_version already_paired \<longleftrightarrow> protocol_version = CONTRACT_VERSION \<or>
     (already_paired \<and> protocol_version = MIN_PAIRED_CONTRACT_VERSION)"

definition iroh_client_kind_error :: "client_kind \<Rightarrow> server_msg option" where
  "iroh_client_kind_error kind =
     (if kind = IosApp \<or> kind = AndroidApp then None
      else Some (Error Forbidden (lit ''iroh transport accepts mobile clients only'')))"

definition pairing_peer_identity_error :: "rstr \<Rightarrow> rstr \<Rightarrow> server_msg option" where
  "pairing_peer_identity_error remote_node_id claimed =
     (if claimed = remote_node_id then None
      else Some (Error Unauthorized (lit ''device node id does not match iroh peer identity'')))"

definition forbidden_iroh_operation_message :: "client_kind \<Rightarrow> char list" where
  "forbidden_iroh_operation_message kind =
     (if kind = IosApp \<or> kind = AndroidApp then ''mobile clients cannot perform this operation''
      else ''iroh transport accepts mobile clients only'')"

definition unauthorized :: server_msg where
  "unauthorized = Error Unauthorized (lit ''device is not paired'')"

definition update_required :: "char list \<Rightarrow> server_msg" where
  "update_required message = Error VersionMismatch (lit message @ lit ''; update Shelly'')"

text \<open>\<open>parse_key\<close>: the bytes of a node id, if it is a public key.\<close>

definition authenticated_pairing_sas ::
    "(bytes \<Rightarrow> bytes) \<Rightarrow> (rstr \<Rightarrow> bytes option) \<Rightarrow> 'm app \<Rightarrow> rstr \<Rightarrow> rstr \<Rightarrow> rstr + rstr" where
  "authenticated_pairing_sas sha parse_key s code remote_node_id =
     (case iroh_node_id s of
        None \<Rightarrow> Inl (lit ''daemon iroh endpoint is not ready'')
      | Some daemon_node_id \<Rightarrow>
          (case parse_key daemon_node_id of
             None \<Rightarrow> Inl (lit ''daemon iroh node id is invalid'')
           | Some daemon_key \<Rightarrow>
               (case parse_key remote_node_id of
                  None \<Rightarrow> Inl (lit ''authenticated phone iroh node id is invalid'')
                | Some phone_key \<Rightarrow> Inr (pairing_sas sha code daemon_key phone_key))))"

section \<open>Handshake\<close>

text \<open>A failed write of \<open>last_seen\<close> is only logged.\<close>

definition accept_iroh_hello ::
    "persist_crates \<Rightarrow> iroh_context \<Rightarrow> client_id \<Rightarrow> rstr \<Rightarrow> rstr \<Rightarrow> rstr \<Rightarrow> client_msg \<Rightarrow> 'm app \<Rightarrow>
      server_msg \<times> iroh_conn option \<times> 'm app" where
  "accept_iroh_hello cr ctx me version host node hello s = (case hello of
      Hello kind client_version protocol_version \<Rightarrow>
        let paired = is_device_paired s node in
        if iroh_version_is_accepted protocol_version paired then
          (case iroh_client_kind_error kind of
             Some error \<Rightarrow> (error, None, s)
           | None \<Rightarrow>
               let s1 = (if paired then subscribe_device_revocation node s else s);
                   s2 = (if paired then snd (mark_device_seen cr (ix_nonce ctx) (cc_fault (ix_call ctx))
                           (cc_now (ix_call ctx)) node s1) else s1) in
               (Welcome me version (app_capabilities s) host,
                Some \<lparr>ic_conn = \<lparr>cn_client_id = me, cn_kind = kind, cn_attachment = None,
                    cn_forwarder = None, cn_listing = False\<rparr>,
                  ic_version = protocol_version, ic_node = node, ic_paired = paired,
                  ic_seen = (if paired then ap_revocations s1 node else None)\<rparr>, s2))
        else (Error VersionMismatch (lit ''protocol version '' @ dec protocol_version @
                lit '' cannot start this connection; update required (daemon='' @ dec CONTRACT_VERSION @
                lit '')''), None, s)
    | _ \<Rightarrow> (Error InvalidRequest (lit ''first message must be Hello''), None, s))"

section \<open>Requests\<close>

datatype iroh_next = Keep iroh_conn | AwaitOperator iroh_conn rstr pending_approval | Leave iroh_conn

definition handle_pair_with_code ::
    "persist_crates \<Rightarrow> (rstr \<Rightarrow> bytes option) \<Rightarrow> iroh_context \<Rightarrow> rstr \<Rightarrow> rstr \<Rightarrow> rstr \<Rightarrow> iroh_conn \<Rightarrow> 'm app \<Rightarrow>
      server_msg list \<times> iroh_next \<times> 'm app" where
  "handle_pair_with_code cr parse_key ctx code device_name device_node_id ic s =
     (if ic_version ic < CONTRACT_VERSION
      then ([update_required ''new pairing requires protocol v5''], Keep ic, s)
      else case pairing_peer_identity_error (ic_node ic) device_node_id of
        Some error \<Rightarrow> ([error], Keep ic, s)
      | None \<Rightarrow>
          let code = normalize_code code in
          (case authenticated_pairing_sas (sha256 cr) parse_key s code (ic_node ic) of
             Inl e \<Rightarrow> ([Error InvalidRequest e], Keep ic, s)
           | Inr sas \<Rightarrow>
               (case begin_approval (cc_now (ix_call ctx)) (ix_request_id ctx) (ix_prompt_open ctx) code
                       device_name (ic_node ic) sas (ap_pairing s) of
                  (Inr approval, pm) \<Rightarrow>
                    ([PairingPending sas], AwaitOperator ic device_name approval, s\<lparr>ap_pairing := pm\<rparr>)
                | (Inl e, pm) \<Rightarrow> ([Error Forbidden e], Keep ic, s\<lparr>ap_pairing := pm\<rparr>))))"

text \<open>After the wait: \<open>in_time\<close> tells whether an answer came before the request expired.\<close>

definition finish_pairing ::
    "persist_crates \<Rightarrow> iroh_context \<Rightarrow> bool \<Rightarrow> iroh_conn \<Rightarrow> rstr \<Rightarrow> pending_approval \<Rightarrow> 'm app \<Rightarrow>
      server_msg list \<times> iroh_next \<times> 'm app" where
  "finish_pairing cr ctx in_time ic device_name approval s =
     (case approval_wait in_time approval (ap_pairing s) of
        (approved, pm) \<Rightarrow>
          let s1 = s\<lparr>ap_pairing := pm\<rparr> in
          if \<not> approved then ([forbidden ''pairing denied on laptop''], Keep ic, s1)
          else
            (case app_save_device cr (ix_nonce ctx) (cc_fault (ix_call ctx))
                    (stored_device_new (cc_now (ix_call ctx)) device_name (ic_node ic)) s1 of
               (Some e, s2) \<Rightarrow> ([], Leave ic, s2)
             | (None, s2) \<Rightarrow>
                 let s3 = subscribe_device_revocation (ic_node ic) s2 in
                 ([PairingComplete (case iroh_node_id s3 of Some n \<Rightarrow> n | None \<Rightarrow> [])],
                  Keep (ic\<lparr>ic_paired := True, ic_seen := ap_revocations s3 (ic_node ic)\<rparr>), s3)))"

definition handle_unpair_self ::
    "persist_crates \<Rightarrow> rstr option \<Rightarrow> iroh_conn \<Rightarrow> 'm app \<Rightarrow> server_msg list \<times> iroh_next \<times> 'm app" where
  "handle_unpair_self cr fault ic s =
     (if ic_version ic < CONTRACT_VERSION then ([update_required ''UnpairSelf requires protocol v5''], Keep ic, s)
      else case unpair_self cr fault (ic_node ic) s of
        (Inr _, s') \<Rightarrow> ([Pong 0], Keep (ic\<lparr>ic_paired := False, ic_seen := None\<rparr>), s')
      | (Inl e, s') \<Rightarrow> ([Error Internal e], Keep ic, s'))"

definition push_token_reply :: "rstr + bool \<Rightarrow> server_msg" where
  "push_token_reply r = (case r of
      Inr True \<Rightarrow> Pong 0
    | Inr False \<Rightarrow> unauthorized
    | Inl e \<Rightarrow> Error Internal e)"

text \<open>The requests of a paired device.\<close>

definition handle_paired ::
    "'m parser \<Rightarrow> persist_crates \<Rightarrow> iroh_context \<Rightarrow> client_msg \<Rightarrow> iroh_conn \<Rightarrow> 'm app \<Rightarrow>
      server_msg list \<times> iroh_next \<times> 'm app" where
  "handle_paired tm cr ctx msg ic s =
     (let call = ix_call ctx; conn = ic_conn ic; plain = (\<lambda>(ms, s'). (ms, Keep ic, s')) in
      case msg of
        ListSessions \<Rightarrow> plain (case summaries tm s of (l, s') \<Rightarrow> ([SessionList l], s'))
      | SubscribeSessions \<Rightarrow> ([SessionList (ap_session_list s)],
          Keep (ic\<lparr>ic_conn := conn\<lparr>cn_listing := True\<rparr>\<rparr>), s)
      | AttachSession sid sz last_seen \<Rightarrow>
          (case handle_attach tm cr (cc_resize_ok call) sid sz last_seen conn s of
             (ms, conn', s') \<Rightarrow> (ms, Keep (ic\<lparr>ic_conn := conn'\<rparr>), s'))
      | Input sid bs \<Rightarrow> plain (handle_input cr (cc_now call) sid bs s)
      | Resize sid sz \<Rightarrow> plain (handle_resize cr (cn_client_id conn) sid sz s)
      | RegisterPushToken platform token \<Rightarrow> plain
          (case update_device_push cr (ix_nonce ctx) (cc_fault call) (cc_now call) (ic_node ic) platform token s of
             (r, s') \<Rightarrow> ([push_token_reply r], s'))
      | UnregisterPushToken platform token \<Rightarrow> plain
          (case clear_device_push cr (ix_nonce ctx) (cc_fault call) (cc_now call) (ic_node ic) platform token s of
             (r, s') \<Rightarrow> ([push_token_reply r], s'))
      | Ping seq \<Rightarrow> plain ([Pong seq], s)
      | DetachSession \<Rightarrow> ([], Leave ic, s)
      | CreateSession name command cwd env sz \<Rightarrow> plain
          (case invalid_client_size sz of
             Some error \<Rightarrow> ([error], s)
           | None \<Rightarrow> (case create_session_for tm (cc_spawn call) (cn_kind conn) name command cwd env sz s of
               (m, s') \<Rightarrow> ([m], s')))
      | KillSession sid \<Rightarrow> plain
          (case kill_session_response tm cr (cc_child call) (cc_fault call) sid s of (m, s') \<Rightarrow> ([m], s'))
      | Hello _ _ _ \<Rightarrow> plain ([], s)
      | _ \<Rightarrow> plain ([forbidden (forbidden_iroh_operation_message (cn_kind conn))], s))"

definition handle_iroh ::
    "'m parser \<Rightarrow> persist_crates \<Rightarrow> (rstr \<Rightarrow> bytes option) \<Rightarrow> iroh_context \<Rightarrow> client_msg \<Rightarrow> iroh_conn \<Rightarrow>
      'm app \<Rightarrow> server_msg list \<times> iroh_next \<times> 'm app" where
  "handle_iroh tm cr parse_key ctx msg ic s =
     (if ic_paired ic \<and> \<not> is_device_paired s (ic_node ic) then ([], Leave ic, s)
      else case msg of
        PairWithCode code name node \<Rightarrow> handle_pair_with_code cr parse_key ctx code name node ic s
      | UnpairSelf \<Rightarrow> handle_unpair_self cr (cc_fault (ix_call ctx)) ic s
      | _ \<Rightarrow> if \<not> ic_paired ic then ([unauthorized], Keep ic, s) else handle_paired tm cr ctx msg ic s)"

section \<open>The connection\<close>

record 'm iroh_state =
  ir_phase :: iroh_phase
  ir_sent :: "server_msg list"
  ir_app :: "'m app"

definition end_iroh :: "iroh_conn \<Rightarrow> 'm iroh_state \<Rightarrow> 'm iroh_state" where
  "end_iroh ic l = l\<lparr>ir_phase := IrohEnded, ir_app := drop_attachment (ic_conn ic) (ir_app l)\<rparr>"

text \<open>Writing the replies of a handler; a failed write ends the connection.\<close>

definition conclude ::
    "nat \<Rightarrow> server_msg list \<times> iroh_next \<times> 'm app \<Rightarrow> 'm iroh_state \<Rightarrow> 'm iroh_state" where
  "conclude written r l = (case r of (ms, nxt, s') \<Rightarrow>
     let l' = l\<lparr>ir_sent := ir_sent l @ take written ms, ir_app := s'\<rparr> in
     (case nxt of
        Keep ic \<Rightarrow> if length ms \<le> written then l'\<lparr>ir_phase := IrohServing ic\<rparr> else end_iroh ic l'
      | AwaitOperator ic name approval \<Rightarrow>
          if length ms \<le> written then l'\<lparr>ir_phase := IrohApproval ic name approval\<rparr>
          else end_iroh ic (l'\<lparr>ir_app := (ir_app l')\<lparr>ap_pairing :=
            snd (approval_wait False approval (ap_pairing (ir_app l')))\<rparr>\<rparr>)
      | Leave ic \<Rightarrow> end_iroh ic l'))"

datatype iroh_event =
    Peer iroh_context "client_msg option"
  | ApprovalOver iroh_context bool
  | RevocationSeen
  | Rest registry_event
  | RestPairing pairing_call

definition iroh_step ::
    "'m parser \<Rightarrow> (rstr \<Rightarrow> codex_event option) \<Rightarrow> persist_crates \<Rightarrow> (rstr \<Rightarrow> bytes option) \<Rightarrow> client_id \<Rightarrow> rstr \<Rightarrow>
      rstr \<Rightarrow> rstr \<Rightarrow> 'm iroh_state \<Rightarrow> iroh_event \<Rightarrow> 'm iroh_state" where
  "iroh_step tm from_str cr parse_key me version host node l ev = (case ev of
      Rest ev \<Rightarrow> l\<lparr>ir_app := registry_step tm from_str cr (ir_app l) ev\<rparr>
    | RestPairing call \<Rightarrow> l\<lparr>ir_app := (ir_app l)\<lparr>ap_pairing := pairing_step (ap_pairing (ir_app l)) call\<rparr>\<rparr>
    | Peer ctx msg \<Rightarrow>
        (case ir_phase l of
           IrohGreeting \<Rightarrow>
             (case msg of
                None \<Rightarrow> l\<lparr>ir_phase := IrohEnded\<rparr>
              | Some hello \<Rightarrow>
                  (case accept_iroh_hello cr ctx me version host node hello (ir_app l) of
                     (m, ic, s') \<Rightarrow>
                       if cc_written (ix_call ctx) = 0 then l\<lparr>ir_phase := IrohEnded\<rparr>
                       else l\<lparr>ir_sent := ir_sent l @ [m], ir_app := s',
                         ir_phase := (case ic of None \<Rightarrow> IrohEnded | Some ic \<Rightarrow> IrohServing ic)\<rparr>))
         | IrohServing ic \<Rightarrow>
             (case msg of
                None \<Rightarrow> end_iroh ic l
              | Some msg \<Rightarrow>
                  if fresh_id (ir_app l) (sp_id (cc_spawn (ix_call ctx)))
                  then conclude (cc_written (ix_call ctx)) (handle_iroh tm cr parse_key ctx msg ic (ir_app l)) l
                  else l)
         | _ \<Rightarrow> l)
    | ApprovalOver ctx in_time \<Rightarrow>
        (case ir_phase l of
           IrohApproval ic name approval \<Rightarrow>
             conclude (cc_written (ix_call ctx)) (finish_pairing cr ctx in_time ic name approval (ir_app l)) l
         | _ \<Rightarrow> l)
    | RevocationSeen \<Rightarrow>
        (case ir_phase l of
           IrohServing ic \<Rightarrow>
             if ic_paired ic \<and> ap_revocations (ir_app l) (ic_node ic) \<noteq> ic_seen ic then end_iroh ic l else l
         | _ \<Rightarrow> l))"

section \<open>Who is paired\<close>

text \<open>Session operations change neither the paired devices nor the pairing requests.\<close>

definition same_pairs :: "'m app \<Rightarrow> 'm app \<Rightarrow> bool" where
  "same_pairs s s' \<longleftrightarrow> ap_devices s' = ap_devices s \<and> ap_pairing s' = ap_pairing s"

lemma same_pairs_trans: "same_pairs s t \<Longrightarrow> same_pairs t u \<Longrightarrow> same_pairs s u"
  by (simp add: same_pairs_def)

lemma publish_pairs [simp]: "same_pairs s (publish_session_list tm s)" "same_pairs s (snd (summaries tm s))"
  by (simp_all add: same_pairs_def publish_session_list_def summaries_def Let_def split_beta)

lemma update_session_pairs [simp]: "same_pairs s (update_session i x s)"
  by (simp add: same_pairs_def update_session_def)

lemma create_pairs: "same_pairs s (snd (create_session_for tm sp kind name command cwd env sz s))"
  by (simp add: create_session_for_def Let_def same_pairs_def publish_session_list_def summaries_def
      split_beta split: option.split sum.split)

lemma kill_pairs: "same_pairs s (snd (kill_session_response tm cr child fault sid s))"
proof -
  have "same_pairs s (snd (kill_session_for tm cr child fault sid s))"
    by (cases "map_of (ap_sessions s) sid"; cases "map_of (ap_restored s) sid"; cases "ap_persistence s";
        cases "fst (remove_session cr fault sid (ap_sessions_table s))")
      (simp_all add: kill_session_for_def Let_def same_pairs_def update_session_def
        publish_session_list_def summaries_def split_beta)
  then show ?thesis by (simp add: kill_session_response_def split_beta split: option.split)
qed

lemma evict_oldest_pairs: "same_pairs s (evict_oldest cr fault s)"
proof (cases "oldest_restored (ap_restored s)")
  case None
  then show ?thesis by (simp add: evict_oldest_def same_pairs_def)
next
  case (Some kx)
  obtain k x where kx: "kx = (k, x)" by fastforce
  define i where "i = ss_id (st_summary x)"
  define s1 where "s1 = s\<lparr>ap_restored := AList.delete i (ap_restored s)\<rparr>"
  define s2 where "s2 = (case map_of (ap_restored s) i of None \<Rightarrow> s1
    | Some r \<Rightarrow> if map_of (ap_sessions s1) i = None
        then s1\<lparr>ap_names := ap_names s1 - {ss_name (st_summary r)}\<rparr> else s1)"
  have "same_pairs s s1" by (simp add: same_pairs_def s1_def)
  then have 2: "same_pairs s s2" by (simp add: same_pairs_def s2_def split: option.split)
  have "evict_oldest cr fault s = (case ap_persistence s2 of None \<Rightarrow> s2
     | Some md \<Rightarrow> s2\<lparr>ap_sessions_table := snd (remove_session cr (fault i) i (ap_sessions_table s2))\<rparr>)"
    by (simp only: evict_oldest_def Some kx option.case prod.case Let_def s2_def s1_def i_def)
  then show ?thesis using 2 by (simp add: same_pairs_def split: option.split)
qed

lemma evict_excess_pairs: "same_pairs s (evict_excess n cr fault s)"
proof (induction n arbitrary: s)
  case (Suc n)
  show ?case
    using same_pairs_trans [OF evict_oldest_pairs Suc.IH] by (simp add: same_pairs_def)
qed (simp add: same_pairs_def)

lemma insert_restored_pairs: "same_pairs s (insert_restored_session cr fault x s)"
  unfolding insert_restored_session_def Let_def
  by (rule same_pairs_trans [OF _ evict_excess_pairs]) (simp add: same_pairs_def)

lemma evict_exited_pairs: "same_pairs s (evict_naturally_exited_session tm cr fault sid s)"
proof (cases "map_of (ap_sessions s) sid")
  case (Some x)
  define s1 where "s1 = insert_restored_session cr fault (stored_snapshot x) s"
  have 1: "same_pairs s s1" unfolding s1_def by (rule insert_restored_pairs)
  have "same_pairs s1 t \<Longrightarrow> same_pairs s (publish_session_list tm t)" for t
    using 1 publish_pairs(1) same_pairs_trans by blast
  then show ?thesis
    using Some by (auto simp: evict_naturally_exited_session_def Let_def s1_def [symmetric])
      (simp_all add: same_pairs_def)
qed (simp add: evict_naturally_exited_session_def)

lemma drop_attachment_pairs [simp]: "same_pairs s (drop_attachment conn s)"
  by (simp add: drop_attachment_def same_pairs_def update_session_def split: option.split)

lemma handle_attach_pairs:
  "handle_attach tm cr ok sid sz seq conn s = (ms, conn', s') \<Longrightarrow> same_pairs s s'"
  using drop_attachment_pairs [of s conn]
  by (auto simp: handle_attach_def Let_def same_pairs_def update_session_def
      split: option.splits prod.splits bool.splits)

lemma session_handlers_pairs:
  "same_pairs s (snd (handle_input cr now sid bs s))" "same_pairs s (snd (handle_resize cr c sid sz s))"
  by (auto simp: handle_input_def handle_resize_def same_pairs_def update_session_def split_beta
      split: option.split)

text \<open>Device operations: nobody new but the saved device.\<close>

lemma device_ops_paired:
  "is_device_paired (snd (update_device_push cr nonce fault now n p t s)) m \<longleftrightarrow> is_device_paired s m"
  "is_device_paired (snd (clear_device_push cr nonce fault now n p t s)) m \<longleftrightarrow> is_device_paired s m"
  "is_device_paired (snd (mark_device_seen cr nonce fault now n s)) m \<longleftrightarrow> is_device_paired s m"
  "is_device_paired (snd (remove_device_by_node_id cr fault n s)) m \<Longrightarrow> is_device_paired s m"
  "is_device_paired (snd (app_save_device cr nonce fault d s)) m \<Longrightarrow> is_device_paired s m \<or> m = sd_device_node_id d"
  by (auto simp: is_device_paired_def update_device_push_def clear_device_push_def mark_device_seen_def
      remove_device_by_node_id_def app_save_device_def Let_def split_beta update_conv' delete_conv'
      split: option.splits if_splits)

lemma device_ops_pairing [simp]:
  "ap_pairing (snd (persist_device cr nonce fault d s)) = ap_pairing s"
  "ap_pairing (push_send cmd s) = ap_pairing s"
  "ap_pairing (revoke_device_connections n s) = ap_pairing s"
  "ap_pairing (subscribe_device_revocation n s) = ap_pairing s"
  "ap_devices (subscribe_device_revocation n s) = ap_devices s"
  by (simp_all add: persist_device_def push_send_def revoke_device_connections_def
      subscribe_device_revocation_def split_beta split: option.split)

lemma device_ops_pairing' [simp]:
  "ap_pairing (snd (update_device_push cr nonce fault now n p t s)) = ap_pairing s"
  "ap_pairing (snd (clear_device_push cr nonce fault now n p t s)) = ap_pairing s"
  "ap_pairing (snd (mark_device_seen cr nonce fault now n s)) = ap_pairing s"
  "ap_pairing (snd (remove_device_by_node_id cr fault n s)) = ap_pairing s"
  "ap_pairing (snd (app_save_device cr nonce fault d s)) = ap_pairing s"
  "ap_pairing (snd (app_remove_device cr fault name s)) = ap_pairing s"
  by (auto simp: update_device_push_def clear_device_push_def mark_device_seen_def
      remove_device_by_node_id_def app_save_device_def app_remove_device_def Let_def split_beta
      split: option.split)

lemma removed_paired:
  "is_device_paired (snd (app_remove_device cr fault name s)) m \<Longrightarrow> is_device_paired s m"
  using device_ops_paired(4) by (auto simp: app_remove_device_def split: option.splits)

text \<open>What a registry event can add to the paired devices.\<close>

lemma registry_step_paired:
  "is_device_paired (registry_step tm from_str cr s ev) n \<Longrightarrow>
    is_device_paired s n \<or> (\<exists>nonce fault d. ev = RSaveDevice nonce fault d \<and> sd_device_node_id d = n)"
  "ap_pairing (registry_step tm from_str cr s ev) = ap_pairing s"
proof -
  have same: "(is_device_paired s' n \<longleftrightarrow> is_device_paired s n) \<and> ap_pairing s' = ap_pairing s"
    if "same_pairs s s'" for s'
    using that by (simp add: same_pairs_def is_device_paired_def)
  have all: "(is_device_paired (registry_step tm from_str cr s ev) n \<longrightarrow> is_device_paired s n \<or>
      (\<exists>nonce fault d. ev = RSaveDevice nonce fault d \<and> sd_device_node_id d = n)) \<and>
    ap_pairing (registry_step tm from_str cr s ev) = ap_pairing s"
  proof (cases ev)
    case (RCreate sp kind name command cwd env sz)
    then show ?thesis using same [OF create_pairs] by (simp add: registry_step_def)
  next
    case (RKill child fault sid)
    then show ?thesis using same [OF kill_pairs] by (simp add: registry_step_def)
  next
    case (RForward fault sid exited)
    have "same_pairs s (schedule_session_list_publish s)"
      by (simp add: same_pairs_def schedule_session_list_publish_def)
    then show ?thesis
      using RForward same [OF evict_exited_pairs] same
      by (simp add: registry_step_def session_list_forward_def)
  next
    case (RSession sid e)
    then show ?thesis using same [OF update_session_pairs] by (simp add: registry_step_def split: option.split)
  next
    case RPublish
    then show ?thesis using same [OF publish_pairs(1)] by (simp add: registry_step_def)
  next
    case RPublishTick
    have "same_pairs s (publish_session_list tm (s\<lparr>ap_publish_pending := False\<rparr>))"
      by (rule same_pairs_trans [OF _ publish_pairs(1)]) (simp add: same_pairs_def)
    then show ?thesis using RPublishTick same by (simp add: registry_step_def publish_tick_def)
  next
    case (RSaveDevice nonce fault d)
    then show ?thesis using device_ops_paired(5) by (fastforce simp: registry_step_def)
  next
    case (REndpoint info)
    then show ?thesis by (simp add: registry_step_def set_iroh_endpoint_def is_device_paired_def)
  qed (auto simp: registry_step_def unpair_self_def device_ops_paired(1-3)
      dest: device_ops_paired(4) removed_paired)
  show "is_device_paired (registry_step tm from_str cr s ev) n \<Longrightarrow>
    is_device_paired s n \<or> (\<exists>nonce fault d. ev = RSaveDevice nonce fault d \<and> sd_device_node_id d = n)"
    using all by blast
  show "ap_pairing (registry_step tm from_str cr s ev) = ap_pairing s" using all by blast
qed

section \<open>Pairing comes from the operator\<close>

fun next_conn :: "iroh_next \<Rightarrow> iroh_conn" where
  "next_conn (Keep ic) = ic"
| "next_conn (AwaitOperator ic _ _) = ic"
| "next_conn (Leave ic) = ic"

text \<open>Nobody is newly paired and no answer is new.\<close>

definition no_new_pairs :: "'m app \<Rightarrow> 'm app \<Rightarrow> bool" where
  "no_new_pairs s s' \<longleftrightarrow> (\<forall>n. is_device_paired s' n \<longrightarrow> is_device_paired s n) \<and>
     (\<forall>rid. pm_answers (ap_pairing s') rid = Some True \<longrightarrow> pm_answers (ap_pairing s) rid = Some True)"

lemma no_new_pairs_refl [simp]: "no_new_pairs s s"
  by (simp add: no_new_pairs_def)

lemma no_new_pairs_trans: "no_new_pairs s t \<Longrightarrow> no_new_pairs t u \<Longrightarrow> no_new_pairs s u"
  by (simp add: no_new_pairs_def)

lemma same_pairs_new: "same_pairs s s' \<Longrightarrow> no_new_pairs s s'"
  by (simp add: same_pairs_def no_new_pairs_def is_device_paired_def)

lemma device_calls_new:
  "no_new_pairs s (snd (update_device_push cr nonce fault now n p t s))"
  "no_new_pairs s (snd (clear_device_push cr nonce fault now n p t s))"
  "no_new_pairs s (snd (mark_device_seen cr nonce fault now n s))"
  "no_new_pairs s (snd (remove_device_by_node_id cr fault n s))"
  "no_new_pairs s (subscribe_device_revocation n s)"
  by (auto simp: no_new_pairs_def device_ops_paired(1-3) dest: device_ops_paired(4))
    (simp add: is_device_paired_def)

lemma handle_paired_new:
  assumes "handle_paired tm cr ctx msg ic s = (ms, nxt, s')"
  shows "no_new_pairs s s' \<and> ic_node (next_conn nxt) = ic_node ic"
proof (cases msg)
  case (AttachSession sid sz seq)
  then show ?thesis
    using assms handle_attach_pairs same_pairs_new
    by (fastforce simp: handle_paired_def Let_def split: prod.splits)
next
  case (CreateSession name command cwd env sz)
  then show ?thesis
    using assms by (auto simp: handle_paired_def Let_def split_beta same_pairs_new [OF create_pairs]
        split: option.splits)
qed (use assms in \<open>auto simp: handle_paired_def Let_def split_beta same_pairs_new [OF kill_pairs]
    same_pairs_new [OF publish_pairs(2)] device_calls_new same_pairs_new [OF session_handlers_pairs(1)]
    same_pairs_new [OF session_handlers_pairs(2)]\<close>)

lemma begin_approval_answers:
  "pm_answers (snd (begin_approval now rid po code name node sas pm)) r = Some a \<Longrightarrow> pm_answers pm r = Some a"
  by (auto simp: begin_approval_def Let_def split: option.splits if_splits)

lemma pair_with_code_new:
  assumes "handle_pair_with_code cr parse_key ctx code name claimed ic s = (ms, nxt, s')"
  shows "s' = s\<lparr>ap_pairing := ap_pairing s'\<rparr> \<and> no_new_pairs s s' \<and> ic_node (next_conn nxt) = ic_node ic \<and>
    ic_paired (next_conn nxt) = ic_paired ic \<and> (\<forall>ic'. nxt \<noteq> Leave ic') \<and>
    (\<exists>c e. ms = [Error c e]) \<or> (\<exists>sas. ms = [PairingPending sas]) \<and> s' = s\<lparr>ap_pairing := ap_pairing s'\<rparr> \<and>
    no_new_pairs s s' \<and> (\<exists>approval. nxt = AwaitOperator ic name approval)"
proof -
  have new: "no_new_pairs s (s\<lparr>ap_pairing := snd (begin_approval now rid po c nm nd sas (ap_pairing s))\<rparr>)"
    for now rid po c nm nd sas
    by (auto simp: no_new_pairs_def is_device_paired_def dest: begin_approval_answers)
  show ?thesis
    using assms new
    by (auto simp: handle_pair_with_code_def Let_def pairing_peer_identity_error_def update_required_def split_beta
        split: if_splits sum.splits option.splits)
qed

lemma unpair_new:
  assumes "handle_unpair_self cr fault ic s = (ms, nxt, s')"
  shows "no_new_pairs s s' \<and> ic_node (next_conn nxt) = ic_node ic"
  using assms device_calls_new(4) [of s cr fault "ic_node ic"]
  by (auto simp: handle_unpair_self_def unpair_self_def split_beta split: if_splits sum.splits)

lemma handle_iroh_new:
  assumes "handle_iroh tm cr parse_key ctx msg ic s = (ms, nxt, s')"
  shows "no_new_pairs s s' \<and> ic_node (next_conn nxt) = ic_node ic"
proof (cases msg)
  case (PairWithCode code name claimed)
  then show ?thesis
    using assms pair_with_code_new [of cr parse_key ctx code name claimed ic s ms nxt s']
    by (auto simp: handle_iroh_def split: if_splits)
next
  case UnpairSelf
  then show ?thesis
    using assms unpair_new [of cr "cc_fault (ix_call ctx)" ic s ms nxt s']
    by (auto simp: handle_iroh_def split: if_splits)
qed (use assms handle_paired_new in \<open>fastforce simp: handle_iroh_def split: if_splits\<close>)+

lemma finish_pairing_new:
  assumes "finish_pairing cr ctx in_time ic name approval s = (ms, nxt, s')"
  shows "(\<forall>n. is_device_paired s' n \<longrightarrow> is_device_paired s n \<or>
      n = ic_node ic \<and> (\<exists>rid. pm_answers (ap_pairing s) rid = Some True)) \<and>
    (\<forall>rid. pm_answers (ap_pairing s') rid = Some True \<longrightarrow> pm_answers (ap_pairing s) rid = Some True) \<and>
    ic_node (next_conn nxt) = ic_node ic"
proof -
  define pm where "pm = snd (approval_wait in_time approval (ap_pairing s))"
  define s1 where "s1 = s\<lparr>ap_pairing := pm\<rparr>"
  define d where "d = stored_device_new (cc_now (ix_call ctx)) name (ic_node ic)"
  define s2 where "s2 = snd (app_save_device cr (ix_nonce ctx) (cc_fault (ix_call ctx)) d s1)"
  have pm: "pm_answers pm = pm_answers (ap_pairing s)" by (simp add: pm_def approval_wait_def)
  have node: "sd_device_node_id d = ic_node ic" by (simp add: d_def stored_device_new_def)
  have 1: "is_device_paired s1 n \<longleftrightarrow> is_device_paired s n" "pm_answers (ap_pairing s1) = pm_answers (ap_pairing s)" for n
    by (simp_all add: s1_def pm is_device_paired_def)
  have 2: "is_device_paired s2 n \<Longrightarrow> is_device_paired s n \<or> n = ic_node ic"
      "pm_answers (ap_pairing s2) = pm_answers (ap_pairing s)" for n
    using device_ops_paired(5) [of cr "ix_nonce ctx" "cc_fault (ix_call ctx)" d s1 n] 1 node
    by (auto simp: s2_def)
  show ?thesis
  proof (cases "fst (approval_wait in_time approval (ap_pairing s))")
    case False
    then show ?thesis using assms 1 by (auto simp: finish_pairing_def split_beta s1_def pm_def)
  next
    case True
    then have yes: "\<exists>rid. pm_answers (ap_pairing s) rid = Some True"
      by (auto simp: approval_wait_def split: if_splits option.splits)
    have "s' = s2 \<or> s' = subscribe_device_revocation (ic_node ic) s2"
      using assms True unfolding finish_pairing_def split_beta Let_def
      by (auto simp: s2_def s1_def pm_def d_def split: option.splits)
    moreover have "ic_node (next_conn nxt) = ic_node ic"
      using assms True by (auto simp: finish_pairing_def split_beta Let_def split: option.splits)
    moreover have "is_device_paired (subscribe_device_revocation (ic_node ic) s2) n \<longleftrightarrow> is_device_paired s2 n" for n
      by (simp add: is_device_paired_def)
    ultimately show ?thesis using 2 yes by auto
  qed
qed

definition phase_node :: "iroh_phase \<Rightarrow> rstr option" where
  "phase_node ph = (case ph of IrohServing ic \<Rightarrow> Some (ic_node ic) | IrohApproval ic _ _ \<Rightarrow> Some (ic_node ic) | _ \<Rightarrow> None)"

definition operator_inv :: "rstr \<Rightarrow> iroh_event list \<Rightarrow> 'm iroh_state \<Rightarrow> bool" where
  "operator_inv node evs l \<longleftrightarrow> (phase_node (ir_phase l) = None \<or> phase_node (ir_phase l) = Some node) \<and>
     (\<forall>rid. pm_answers (ap_pairing (ir_app l)) rid = Some True \<longrightarrow> RestPairing (Approve rid True) \<in> set evs) \<and>
     (is_device_paired (ir_app l) node \<longrightarrow> (\<exists>rid. RestPairing (Approve rid True) \<in> set evs))"

lemma end_iroh_new: "no_new_pairs (ir_app l) (ir_app (end_iroh ic l)) \<and> phase_node (ir_phase (end_iroh ic l)) = None"
  by (simp_all add: end_iroh_def phase_node_def same_pairs_new)

lemma conclude_new:
  "no_new_pairs s' (ir_app (conclude w (ms, nxt, s') l)) \<and>
    (phase_node (ir_phase (conclude w (ms, nxt, s') l)) = None \<or>
     phase_node (ir_phase (conclude w (ms, nxt, s') l)) = Some (ic_node (next_conn nxt)))"
proof (cases nxt)
  case (Keep ic)
  then show ?thesis
    using end_iroh_new [of "l\<lparr>ir_sent := ir_sent l @ take w ms, ir_app := s'\<rparr>" ic]
    by (simp add: conclude_def Let_def phase_node_def)
next
  case (AwaitOperator ic name approval)
  let ?l = "l\<lparr>ir_sent := ir_sent l @ take w ms, ir_app := s'\<lparr>ap_pairing := snd (approval_wait False approval (ap_pairing s'))\<rparr>\<rparr>"
  have "no_new_pairs s' (ir_app ?l)"
    by (simp add: no_new_pairs_def is_device_paired_def approval_wait_def)
  then have "no_new_pairs s' (ir_app (end_iroh ic ?l))"
    using end_iroh_new [of ?l ic] no_new_pairs_trans by blast
  then show ?thesis
    using AwaitOperator end_iroh_new [of ?l ic] by (simp add: conclude_def Let_def phase_node_def)
next
  case (Leave ic)
  then show ?thesis
    using end_iroh_new [of "l\<lparr>ir_sent := ir_sent l @ take w ms, ir_app := s'\<rparr>" ic]
    by (simp add: conclude_def Let_def)
qed

lemma accept_iroh_new:
  assumes "accept_iroh_hello cr ctx me version host node hello s = (m, ic, s')"
  shows "no_new_pairs s s' \<and> (\<forall>c. ic = Some c \<longrightarrow> ic_node c = node)"
proof -
  have "no_new_pairs s (snd (mark_device_seen cr nonce fault now node (subscribe_device_revocation node s)))"
    for nonce fault now
    using device_calls_new(3,5) no_new_pairs_trans by blast
  then show ?thesis
    using assms by (cases hello)
      (auto simp: accept_iroh_hello_def Let_def split: if_splits option.splits)
qed

lemma pairing_step_answers:
  "pm_answers (pairing_step pm call) rid = Some True \<Longrightarrow>
    pm_answers pm rid = Some True \<or> call = Approve rid True"
  by (cases call) (auto simp: pairing_step_def begin_pairing_def prune_expired_def approve_def
      approval_wait_def Let_def split: if_splits dest: begin_approval_answers)

definition saves_node :: "rstr \<Rightarrow> iroh_event \<Rightarrow> bool" where
  "saves_node node ev = (case ev of Rest (RSaveDevice nonce fault d) \<Rightarrow> sd_device_node_id d = node | _ \<Rightarrow> False)"

lemma operator_inv_new:
  "operator_inv node evs l \<Longrightarrow> no_new_pairs (ir_app l) (ir_app l') \<Longrightarrow>
    phase_node (ir_phase l') = None \<or> phase_node (ir_phase l') = Some node \<Longrightarrow>
    operator_inv node (evs @ [ev]) l'"
  by (auto simp: operator_inv_def no_new_pairs_def)

lemma operator_step:
  assumes inv: "operator_inv node evs l" and "\<not> saves_node node ev"
  shows "operator_inv node (evs @ [ev]) (iroh_step tm from_str cr parse_key me version host node l ev)"
proof (cases ev)
  case (Rest rev)
  have "is_device_paired (registry_step tm from_str cr (ir_app l) rev) node \<Longrightarrow> is_device_paired (ir_app l) node"
    using registry_step_paired(1) [of tm from_str cr "ir_app l" rev node] assms(2) Rest
    by (auto simp: saves_node_def)
  then show ?thesis
    using inv Rest by (auto simp: iroh_step_def operator_inv_def registry_step_paired(2))
next
  case (RestPairing call)
  then show ?thesis
    using inv by (auto simp: iroh_step_def operator_inv_def is_device_paired_def dest: pairing_step_answers)
next
  case RevocationSeen
  have "iroh_step tm from_str cr parse_key me version host node l ev = l \<or>
      (\<exists>ic. iroh_step tm from_str cr parse_key me version host node l ev = end_iroh ic l)"
    using RevocationSeen by (auto simp: iroh_step_def split: iroh_phase.split)
  moreover have "operator_inv node (evs @ [ev]) l" using inv by (auto simp: operator_inv_def)
  moreover have "operator_inv node (evs @ [ev]) (end_iroh ic l)" for ic
    by (rule operator_inv_new [OF inv]) (use end_iroh_new [of l ic] in auto)
  ultimately show ?thesis by auto
next
  case (ApprovalOver ctx in_time)
  show ?thesis
  proof (cases "ir_phase l")
    case (IrohApproval ic name approval)
    then have node: "ic_node ic = node" using inv by (simp add: operator_inv_def phase_node_def)
    obtain ms nxt s' where f: "finish_pairing cr ctx in_time ic name approval (ir_app l) = (ms, nxt, s')"
      by (metis prod_cases3)
    note new = finish_pairing_new [OF f] conclude_new [of s' "cc_written (ix_call ctx)" ms nxt l]
    have eq: "iroh_step tm from_str cr parse_key me version host node l ev =
        conclude (cc_written (ix_call ctx)) (ms, nxt, s') l"
      using ApprovalOver IrohApproval f by (simp add: iroh_step_def)
    have "\<exists>rid. RestPairing (Approve rid True) \<in> set evs"
      if "is_device_paired (ir_app (conclude (cc_written (ix_call ctx)) (ms, nxt, s') l)) node"
      using that new inv unfolding operator_inv_def no_new_pairs_def by blast
    then show ?thesis
      unfolding eq operator_inv_def using new inv node
      by (simp add: operator_inv_def no_new_pairs_def) blast
  qed (use inv ApprovalOver in \<open>auto simp: iroh_step_def operator_inv_def\<close>)
next
  case (Peer ctx msg)
  show ?thesis
  proof (cases "ir_phase l")
    case IrohGreeting
    show ?thesis
    proof (cases msg)
      case None
      then show ?thesis
        using Peer IrohGreeting inv by (auto simp: iroh_step_def operator_inv_def phase_node_def)
    next
      case (Some hello)
      obtain m ic s' where a: "accept_iroh_hello cr ctx me version host node hello (ir_app l) = (m, ic, s')"
        by (metis prod_cases3)
      show ?thesis
        using accept_iroh_new [OF a] Some Peer IrohGreeting a
        by (intro operator_inv_new [OF inv]) (auto simp: iroh_step_def phase_node_def split: option.split)
    qed
  next
    case (IrohServing ic)
    then have node: "ic_node ic = node" using inv by (simp add: operator_inv_def phase_node_def)
    show ?thesis
    proof (cases msg)
      case None
      then show ?thesis
        using Peer IrohServing end_iroh_new [of l ic]
        by (intro operator_inv_new [OF inv]) (auto simp: iroh_step_def)
    next
      case (Some m)
      obtain ms nxt s' where h: "handle_iroh tm cr parse_key ctx m ic (ir_app l) = (ms, nxt, s')"
        by (metis prod_cases3)
      note new = handle_iroh_new [OF h] conclude_new [of s' "cc_written (ix_call ctx)" ms nxt l]
      show ?thesis
        using Peer IrohServing Some h new node inv no_new_pairs_trans
        by (intro operator_inv_new [OF inv]) (auto simp: iroh_step_def operator_inv_def)
    qed
  qed (use inv Peer in \<open>auto simp: iroh_step_def operator_inv_def\<close>)
qed

section \<open>Properties\<close>

definition demo_iroh :: "unit iroh_state" where
  "demo_iroh = \<lparr>ir_phase = IrohGreeting, ir_sent = [], ir_app = demo_app\<lparr>ap_devices := []\<rparr>\<rparr>"

definition demo_ictx :: iroh_context where
  "demo_ictx = \<lparr>ix_call = demo_call, ix_nonce = [], ix_request_id = ClientId 9, ix_prompt_open = (\<lambda>_. True)\<rparr>"

definition demo_peer :: iroh_conn where
  "demo_peer = \<lparr>ic_conn = \<lparr>cn_client_id = ClientId 2, cn_kind = IosApp, cn_attachment = None,
      cn_forwarder = None, cn_listing = False\<rparr>, ic_version = 5, ic_node = lit ''node'', ic_paired = False,
    ic_seen = None\<rparr>"



text \<open>What a peer that is not paired gets to read.\<close>

definition discloses_nothing :: "server_msg \<Rightarrow> bool" where
  "discloses_nothing m \<longleftrightarrow> (\<exists>c e. m = Error c e) \<or> (\<exists>sas. m = PairingPending sas) \<or> m = Pong 0"

text \<open>C9 [unpaired_peer_confined].  A request of a peer that is not paired leaves the sessions, the
  devices, the database and everything else as they were, except for the pairing requests;
  the answer is an error, the fingerprint of a pairing that now waits for the operator, or a
  bare acknowledgement, and the connection stays unpaired.\<close>
theorem unpaired_peer_confined:
  assumes "\<not> ic_paired ic" and "\<not> is_device_paired s (ic_node ic)"
    and "handle_iroh tm cr parse_key ctx msg ic s = (ms, nxt, s')"
  shows "s' = s\<lparr>ap_pairing := ap_pairing s'\<rparr> \<and> list_all discloses_nothing ms \<and>
    \<not> ic_paired (next_conn nxt) \<and>
    (s' \<noteq> s \<longrightarrow> (\<exists>code name. msg = PairWithCode code name (ic_node ic)) \<and> CONTRACT_VERSION \<le> ic_version ic)"
proof (cases msg)
  case (PairWithCode code name claimed)
  then have h: "handle_pair_with_code cr parse_key ctx code name claimed ic s = (ms, nxt, s')"
    using assms by (simp add: handle_iroh_def)
  show ?thesis
    using h assms(1) PairWithCode
    by (auto simp: handle_pair_with_code_def Let_def pairing_peer_identity_error_def update_required_def
        split_beta discloses_nothing_def split: if_splits sum.splits option.splits)
next
  case UnpairSelf
  have "map_of (ap_devices s) (ic_node ic) = None" using assms(2) by (simp add: is_device_paired_def)
  then have "unpair_self cr f (ic_node ic) s = (Inr None, s)" for f
    by (simp add: unpair_self_def remove_device_by_node_id_def)
  then show ?thesis
    using assms UnpairSelf
    by (auto simp: handle_iroh_def handle_unpair_self_def update_required_def discloses_nothing_def
        split: if_splits)
qed (use assms in \<open>auto simp: handle_iroh_def unauthorized_def discloses_nothing_def\<close>)

theorem unpaired_peer_confined_witness:
  "\<exists>ms nxt s'. handle_iroh demo_parser demo_persist (\<lambda>_. None) demo_ictx ListSessions demo_peer (ir_app demo_iroh) =
      (ms, nxt, s') \<and> list_all discloses_nothing ms \<and> \<not> ic_paired (next_conn nxt)"
proof -
  obtain ms nxt s' where h: "handle_iroh demo_parser demo_persist (\<lambda>_. None) demo_ictx ListSessions demo_peer
      (ir_app demo_iroh) = (ms, nxt, s')" by (metis prod_cases3)
  have "\<not> ic_paired demo_peer" "\<not> is_device_paired (ir_app demo_iroh) (ic_node demo_peer)"
    by (simp_all add: demo_peer_def demo_iroh_def is_device_paired_def)
  from unpaired_peer_confined [OF this h] h show ?thesis by blast
qed



text \<open>[iroh_handshake_gate].  A peer is served over iroh exactly when its first message is a Hello
  of a mobile client with the daemon's contract version, or with the version before it for a
  device that is paired already; anybody else changes nothing and gets an error.\<close>
theorem iroh_handshake_gate:
  "case accept_iroh_hello cr ctx me version host node hello s of (m, ic, s') \<Rightarrow>
    (case ic of
       None \<Rightarrow> s' = s \<and> (\<exists>c e. m = Error c e)
     | Some c \<Rightarrow> ic_node c = node \<and> ic_paired c = is_device_paired s node \<and> cn_attachment (ic_conn c) = None) \<and>
    (ic \<noteq> None \<longleftrightarrow> (\<exists>kind v p. hello = Hello kind v p \<and> kind \<noteq> LocalCli \<and>
       (p = 5 \<or> (p = 4 \<and> is_device_paired s node))))"
  by (cases hello)
    (auto simp: accept_iroh_hello_def Let_def iroh_version_is_accepted_def iroh_client_kind_error_def
      CONTRACT_VERSION_def MIN_PAIRED_CONTRACT_VERSION_def intro: client_kind.exhaust)

end
