(* ===== verification/RelayTypes.thy ===== *)
theory RelayTypes
  imports Codes Signing Tables
begin

text \<open>
  The relay's data (\<open>crates/relay/src/lib.rs\<close>): constants, the bodies of the requests with
  the validation \<open>garde\<close> derives from their attributes, the error values of the API, headers,
  the rate-limit caches and the small pure functions of the handlers.

  What the relay takes from crates is the record \<open>relay_crates\<close>: base64, Ed25519, SHA-256,
  the JSON decoding of each request type (\<open>serde_json\<close>; none for a body that is not such a
  request) and the text of a failed validation.  An Ed25519 verifying key is its 32 bytes.
\<close>

section \<open>Constants\<close>

definition SIGNATURE_HEADER :: rstr where "SIGNATURE_HEADER = lit ''x-shelly-signature''"
definition FORWARDED_FOR_HEADER :: rstr where "FORWARDED_FOR_HEADER = lit ''x-forwarded-for''"
definition CLOCK_SKEW_MS :: nat where "CLOCK_SKEW_MS = 5 * 60 * 1000"
definition RATE_LIMIT_PER_MINUTE :: nat where "RATE_LIMIT_PER_MINUTE = 50"
definition PUSH_TOKEN_TTL_MS :: nat where "PUSH_TOKEN_TTL_MS = 90 * 24 * 60 * 60 * 1000"
definition DEFAULT_DAEMON_RETENTION_MS :: nat where
  "DEFAULT_DAEMON_RETENTION_MS = 365 * 24 * 60 * 60 * 1000"
definition DEFAULT_REGISTRATION_AUDIENCE :: rstr where
  "DEFAULT_REGISTRATION_AUDIENCE = lit ''https://relay.shelly.sh''"
definition RESOLVE_ATTEMPTS_PER_MINUTE :: nat where "RESOLVE_ATTEMPTS_PER_MINUTE = 20"
definition LEGACY_CODE_LEN :: nat where "LEGACY_CODE_LEN = 5"
definition REGISTER_ATTEMPTS_PER_MINUTE :: nat where "REGISTER_ATTEMPTS_PER_MINUTE = 10"
definition REGISTER_TOKEN_ATTEMPTS_PER_MINUTE :: nat where
  "REGISTER_TOKEN_ATTEMPTS_PER_MINUTE = 10"
definition MAX_DAEMONS :: nat where "MAX_DAEMONS = 1000000"
definition MAX_TOKENS_PER_DAEMON :: nat where "MAX_TOKENS_PER_DAEMON = 16"
definition PRUNE_INTERVAL_MS :: nat where "PRUNE_INTERVAL_MS = 60 * 1000"
definition INTERNAL_ERROR_MESSAGE :: rstr where
  "INTERNAL_ERROR_MESSAGE = lit ''internal server error''"

section \<open>Requests\<close>

datatype push_event_type = EvAwaitingInput | EvSessionCrashed | EvBuildFinished

fun platform_as_str :: "push_platform \<Rightarrow> rstr" where
  "platform_as_str Apns = lit ''apns''"
| "platform_as_str Fcm = lit ''fcm''"

definition platform_from_db :: "rstr \<Rightarrow> push_platform option" where
  "platform_from_db value = (if value = lit ''apns'' then Some Apns
     else if value = lit ''fcm'' then Some Fcm else None)"

record registration_proof =
  rp_audience :: rstr
  rp_nonce :: rstr
  rp_ts_ms :: nat
  rp_signature :: rstr

record register_daemon_request =
  rd_daemon_node_id :: rstr
  rd_public_key :: rstr
  rd_nonce :: "rstr option"
  rd_ts_ms :: "nat option"
  rd_proof :: "registration_proof option"

record register_token_request =
  rt_daemon_node_id :: rstr
  rt_platform :: push_platform
  rt_push_token :: rstr
  rt_nonce :: rstr
  rt_ts_ms :: nat

record unregister_token_request =
  ut_daemon_node_id :: rstr
  ut_push_token :: rstr
  ut_nonce :: rstr
  ut_ts_ms :: nat

record publish_legacy_request =
  pl_daemon_node_id :: rstr
  pl_code :: rstr
  pl_ticket_blob :: rstr
  pl_expires_at_ms :: nat
  pl_nonce :: rstr
  pl_ts_ms :: nat

record publish_rendezvous_request =
  pz_daemon_node_id :: rstr
  pz_locator :: rstr
  pz_rendezvous :: pairing_rendezvous
  pz_nonce :: rstr
  pz_ts_ms :: nat

datatype publish_pairing_request =
    PublishLegacy publish_legacy_request
  | PublishReachability publish_rendezvous_request

record push_request =
  ph_daemon_node_id :: rstr
  ph_recipient_token :: rstr
  ph_platform :: push_platform
  ph_session_id_hash :: rstr
  ph_event_type :: push_event_type
  ph_nonce :: rstr
  ph_ts_ms :: nat

record delivered_push =
  dp_platform :: push_platform
  dp_recipient_token :: rstr
  dp_title :: rstr
  dp_body :: rstr
  dp_thread_id :: rstr
  dp_session_id_hash :: rstr
  dp_event_type :: push_event_type

section \<open>Validation\<close>

definition len_between :: "nat \<Rightarrow> nat \<Rightarrow> rstr \<Rightarrow> bool" where
  "len_between lo hi s \<longleftrightarrow> lo \<le> str_len s \<and> str_len s \<le> hi"

definition ascii_between :: "nat \<Rightarrow> nat \<Rightarrow> rstr \<Rightarrow> bool" where
  "ascii_between lo hi s \<longleftrightarrow> is_ascii s \<and> len_between lo hi s"

definition is_valid_pairing_locator :: "rstr \<Rightarrow> bool" where
  "is_valid_pairing_locator locator \<longleftrightarrow> str_len locator = 64 \<and>
     list_all (\<lambda>b. (48 \<le> b \<and> b \<le> 57) \<or> (97 \<le> b \<and> b \<le> 102)) (as_bytes locator)"

definition is_valid_legacy_code :: "rstr \<Rightarrow> bool" where
  "is_valid_legacy_code code \<longleftrightarrow> length code = LEGACY_CODE_LEN \<and>
     list_all (\<lambda>c. c \<in> set CODE_ALPHABET) code"

text \<open>The regular expression of a locator or hash in the attributes: 64 lower-case hex digits.\<close>

definition hex64_pattern :: "rstr \<Rightarrow> bool" where
  "hex64_pattern s \<longleftrightarrow> length s = 64 \<and>
     list_all (\<lambda>c. (48 \<le> c \<and> c \<le> 57) \<or> (97 \<le> c \<and> c \<le> 102)) s"

definition validate_proof :: "registration_proof \<Rightarrow> bool" where
  "validate_proof p \<longleftrightarrow> ascii_between 8 512 (rp_audience p) \<and> ascii_between 16 128 (rp_nonce p) \<and>
     1 \<le> rp_ts_ms p \<and> ascii_between 80 128 (rp_signature p)"

definition validate_register_daemon :: "register_daemon_request \<Rightarrow> bool" where
  "validate_register_daemon r \<longleftrightarrow> ascii_between 16 128 (rd_daemon_node_id r) \<and>
     ascii_between 40 128 (rd_public_key r) \<and> pred_option (ascii_between 16 128) (rd_nonce r) \<and>
     pred_option (\<lambda>t. 1 \<le> t) (rd_ts_ms r) \<and> pred_option validate_proof (rd_proof r)"

definition validate_register_token :: "register_token_request \<Rightarrow> bool" where
  "validate_register_token r \<longleftrightarrow> ascii_between 16 128 (rt_daemon_node_id r) \<and>
     len_between 16 4096 (rt_push_token r) \<and> ascii_between 16 128 (rt_nonce r) \<and> 1 \<le> rt_ts_ms r"

definition validate_unregister_token :: "unregister_token_request \<Rightarrow> bool" where
  "validate_unregister_token r \<longleftrightarrow> ascii_between 16 128 (ut_daemon_node_id r) \<and>
     len_between 16 4096 (ut_push_token r) \<and> ascii_between 16 128 (ut_nonce r) \<and> 1 \<le> ut_ts_ms r"

definition validate_publish_legacy :: "publish_legacy_request \<Rightarrow> bool" where
  "validate_publish_legacy r \<longleftrightarrow> ascii_between 16 128 (pl_daemon_node_id r) \<and>
     ascii_between 4 8 (pl_code r) \<and> len_between 16 1024 (pl_ticket_blob r) \<and>
     1 \<le> pl_expires_at_ms r \<and> ascii_between 16 128 (pl_nonce r) \<and> 1 \<le> pl_ts_ms r"

definition validate_publish_rendezvous :: "publish_rendezvous_request \<Rightarrow> bool" where
  "validate_publish_rendezvous r \<longleftrightarrow> ascii_between 16 128 (pz_daemon_node_id r) \<and>
     hex64_pattern (pz_locator r) \<and> ascii_between 16 128 (pz_nonce r) \<and> 1 \<le> pz_ts_ms r"

definition validate_push :: "push_request \<Rightarrow> bool" where
  "validate_push r \<longleftrightarrow> ascii_between 16 128 (ph_daemon_node_id r) \<and>
     len_between 16 4096 (ph_recipient_token r) \<and> hex64_pattern (ph_session_id_hash r) \<and>
     ascii_between 16 128 (ph_nonce r) \<and> 1 \<le> ph_ts_ms r"

section \<open>Errors\<close>

record api_error =
  ae_status :: nat
  ae_code :: rstr
  ae_message :: rstr
  ae_correlation_id :: "rstr option"

definition bad_request :: "rstr \<Rightarrow> api_error" where
  "bad_request m = \<lparr>ae_status = 400, ae_code = lit ''bad_request'', ae_message = m,
     ae_correlation_id = None\<rparr>"

definition api_unauthorized :: "rstr \<Rightarrow> api_error" where
  "api_unauthorized m = \<lparr>ae_status = 401, ae_code = lit ''unauthorized'', ae_message = m,
     ae_correlation_id = None\<rparr>"

definition api_forbidden :: "rstr \<Rightarrow> api_error" where
  "api_forbidden m = \<lparr>ae_status = 403, ae_code = lit ''forbidden'', ae_message = m,
     ae_correlation_id = None\<rparr>"

definition replay_detected :: api_error where
  "replay_detected = \<lparr>ae_status = 409, ae_code = lit ''replay_detected'',
     ae_message = lit ''nonce was already used'', ae_correlation_id = None\<rparr>"

definition registration_conflict :: api_error where
  "registration_conflict = \<lparr>ae_status = 409, ae_code = lit ''registration_conflict'',
     ae_message = lit ''daemon registration changed; retry'', ae_correlation_id = None\<rparr>"

definition clock_skew :: api_error where
  "clock_skew = \<lparr>ae_status = 401, ae_code = lit ''clock_skew'',
     ae_message = lit ''timestamp is outside the accepted skew window'', ae_correlation_id = None\<rparr>"

definition rate_limited :: "rstr \<Rightarrow> api_error" where
  "rate_limited m = \<lparr>ae_status = 429, ae_code = lit ''rate_limited'', ae_message = m,
     ae_correlation_id = None\<rparr>"

definition push_rate_limited :: api_error where
  "push_rate_limited = rate_limited (lit ''per-daemon push rate limit exceeded'')"

definition resolve_rate_limited :: api_error where
  "resolve_rate_limited =
     rate_limited (lit ''per-client pairing-code resolve rate limit exceeded'')"

definition register_rate_limited :: api_error where
  "register_rate_limited =
     rate_limited (lit ''per-client daemon registration rate limit exceeded'')"

definition token_register_rate_limited :: api_error where
  "token_register_rate_limited =
     rate_limited (lit ''per-daemon push token registration rate limit exceeded'')"

definition daemon_capacity :: api_error where
  "daemon_capacity = \<lparr>ae_status = 503, ae_code = lit ''capacity_exhausted'',
     ae_message = lit ''daemon registry is at capacity'', ae_correlation_id = None\<rparr>"

definition api_not_found :: "rstr \<Rightarrow> api_error" where
  "api_not_found m = \<lparr>ae_status = 404, ae_code = lit ''not_found'', ae_message = m,
     ae_correlation_id = None\<rparr>"

definition provider_failed :: "rstr \<Rightarrow> api_error" where
  "provider_failed m = \<lparr>ae_status = 502, ae_code = lit ''provider_error'', ae_message = m,
     ae_correlation_id = None\<rparr>"

text \<open>\<open>relay-{sequence:016x}\<close> of the process-wide counter.\<close>

definition next_error_correlation_id :: "nat \<Rightarrow> rstr" where
  "next_error_correlation_id sequence = lit ''relay-'' @ hex False (be_bytes 8 sequence)"

definition internal_error :: "nat \<Rightarrow> api_error" where
  "internal_error sequence = \<lparr>ae_status = 500, ae_code = lit ''internal'',
     ae_message = INTERNAL_ERROR_MESSAGE,
     ae_correlation_id = Some (next_error_correlation_id sequence)\<rparr>"

text \<open>Where a provider refuses a delivery: a token it does not know, or anything else.\<close>

datatype provider_error =
    InvalidToken (pe_provider: rstr) (pe_reason: rstr)
  | OtherFailure (pe_provider: rstr)

definition is_invalid_token :: "provider_error \<Rightarrow> bool" where
  "is_invalid_token e = (case e of InvalidToken _ _ \<Rightarrow> True | OtherFailure _ \<Rightarrow> False)"

definition provider_error_text :: "provider_error \<Rightarrow> rstr" where
  "provider_error_text e = (case e of
     InvalidToken p _ \<Rightarrow> p @ lit '' rejected stale push token''
   | OtherFailure p \<Rightarrow> p @ lit '' delivery failed'')"

section \<open>Crates\<close>

record relay_crates =
  b64_decode :: "rstr \<Rightarrow> bytes option"
  b64_encode :: "bytes \<Rightarrow> rstr"
  sha256_of :: "bytes \<Rightarrow> bytes"
  point_ok :: "bytes \<Rightarrow> bool"
  ed_verify :: "bytes \<Rightarrow> bytes \<Rightarrow> bytes \<Rightarrow> bool"
  node_key :: "rstr \<Rightarrow> bytes option"
  node_verify :: "bytes \<Rightarrow> bytes \<Rightarrow> bytes \<Rightarrow> bool"
  json_register_daemon :: "bytes \<Rightarrow> register_daemon_request option"
  json_register_token :: "bytes \<Rightarrow> register_token_request option"
  json_unregister_token :: "bytes \<Rightarrow> unregister_token_request option"
  json_publish :: "bytes \<Rightarrow> publish_pairing_request option"
  json_push :: "bytes \<Rightarrow> push_request option"
  garde_report :: "bytes \<Rightarrow> rstr"
  rendezvous_to_json :: "pairing_rendezvous \<Rightarrow> rstr option"
  rendezvous_of_json :: "rstr \<Rightarrow> pairing_rendezvous option"

text \<open>\<open>parse_validated\<close> for a request type with its JSON decoder and its validation.\<close>

definition parse_validated ::
    "relay_crates \<Rightarrow> (bytes \<Rightarrow> 'a option) \<Rightarrow> ('a \<Rightarrow> bool) \<Rightarrow> bytes \<Rightarrow> api_error + 'a" where
  "parse_validated cr json valid bytes = (case json bytes of
     None \<Rightarrow> Inl (bad_request (lit ''request body is not valid relay JSON''))
   | Some value \<Rightarrow>
       if valid value then Inr value
       else Inl (bad_request (lit ''request validation failed: '' @ garde_report cr bytes)))"

definition validate_publish :: "publish_pairing_request \<Rightarrow> bool" where
  "validate_publish request = (case request of
     PublishLegacy r \<Rightarrow> validate_publish_legacy r
   | PublishReachability r \<Rightarrow> validate_publish_rendezvous r)"

definition parse_pairing_publish ::
    "relay_crates \<Rightarrow> bytes \<Rightarrow> api_error + publish_pairing_request" where
  "parse_pairing_publish cr = parse_validated cr (json_publish cr) validate_publish"

definition decode_public_key :: "relay_crates \<Rightarrow> rstr \<Rightarrow> api_error + bytes" where
  "decode_public_key cr value = (case b64_decode cr value of
     None \<Rightarrow> Inl (bad_request (lit ''public_key must be base64''))
   | Some bytes \<Rightarrow>
       if length bytes \<noteq> 32 then Inl (bad_request (lit ''public_key must decode to 32 bytes''))
       else if point_ok cr bytes then Inr bytes
       else Inl (bad_request (lit ''public_key is not a valid Ed25519 key'')))"

definition decode_signature :: "relay_crates \<Rightarrow> rstr \<Rightarrow> api_error + bytes" where
  "decode_signature cr value = (case b64_decode cr value of
     None \<Rightarrow> Inl (api_unauthorized (lit ''signature must be base64''))
   | Some bytes \<Rightarrow>
       if length bytes = 64 then Inr bytes
       else Inl (api_unauthorized (lit ''signature must be an Ed25519 signature'')))"

definition validate_rendezvous :: "rstr \<Rightarrow> pairing_rendezvous \<Rightarrow> api_error + unit" where
  "validate_rendezvous daemon_node_id r =
     (if pr_node_id r \<noteq> daemon_node_id
      then Inl (bad_request (lit ''rendezvous node id does not match publishing daemon''))
      else if \<not> is_ascii (pr_node_id r) \<or> \<not> len_between 16 128 (pr_node_id r)
      then Inl (bad_request (lit ''rendezvous node id is invalid''))
      else if (case pr_relay_url r of None \<Rightarrow> False | Some url \<Rightarrow> url = [] \<or> 2048 < str_len url)
      then Inl (bad_request (lit ''rendezvous relay URL is invalid''))
      else if 32 < length (pr_addrs r) \<or>
        list_ex (\<lambda>a. \<not> is_ascii a \<or> a = [] \<or> 256 < str_len a) (pr_addrs r)
      then Inl (bad_request (lit ''rendezvous direct addresses are invalid''))
      else Inr ())"

definition registration_proof_binding ::
    "relay_crates \<Rightarrow> rstr \<Rightarrow> bytes \<Rightarrow> rstr \<Rightarrow> rstr \<Rightarrow> nat \<Rightarrow> rstr" where
  "registration_proof_binding cr daemon_node_id relay_signing_key audience nonce ts_ms =
     lit ''shelly-registration-proof-v1'' @ [0] @ daemon_node_id @ [0] @
     b64_encode cr relay_signing_key @ [0] @ audience @ [0] @ nonce @ [0] @ dec ts_ms"

section \<open>Headers and clients\<close>

text \<open>
  A header map yields the first value of a name; \<open>to_str\<close> accepts visible ASCII and tabs.
\<close>

type_synonym header_map = "(rstr \<times> bytes) list"

definition header_to_str :: "bytes \<Rightarrow> rstr option" where
  "header_to_str bs =
     (if list_all (\<lambda>b. b = 9 \<or> (32 \<le> b \<and> b < 127)) bs then Some (map unat bs) else None)"

definition header_str :: "header_map \<Rightarrow> rstr \<Rightarrow> rstr option" where
  "header_str headers name = Option.bind (map_of headers name) header_to_str"

text \<open>\<open>split(',').next_back()\<close>: what follows the last comma.\<close>

definition last_hop :: "rstr \<Rightarrow> rstr" where
  "last_hop s = rev (takeWhile (\<lambda>c. c \<noteq> of_char (CHR '','')) (rev s))"

definition client_identifier :: "rstr \<Rightarrow> header_map \<Rightarrow> bool \<Rightarrow> rstr" where
  "client_identifier peer_ip headers trust_forwarded_for =
     (if trust_forwarded_for then
        (case header_str headers FORWARDED_FOR_HEADER of
           None \<Rightarrow> peer_ip
         | Some value \<Rightarrow>
             let forwarded = trim (last_hop value) in
             if forwarded = [] then peer_ip else forwarded)
      else peer_ip)"

section \<open>Rate limits\<close>

text \<open>
  A cache of counters by client and minute.  An entry lives 60 seconds from its creation in
  its own minute, so it outlives the minute it counts; the cache is below its capacity.
\<close>

type_synonym rate_cache = "(rstr \<times> nat) \<rightharpoonup> nat"

definition rate_count :: "rate_cache \<Rightarrow> rstr \<Rightarrow> nat \<Rightarrow> nat" where
  "rate_count cache client minute = (case cache (client, minute) of None \<Rightarrow> 0 | Some n \<Rightarrow> n)"

definition increment :: "rstr \<Rightarrow> nat \<Rightarrow> rate_cache \<Rightarrow> rate_cache \<times> nat" where
  "increment client minute cache =
     (let n = (rate_count cache client minute + 1) mod (u32_max + 1) in
      (cache((client, minute) \<mapsto> n), n))"

section \<open>Configuration flags\<close>

datatype flag_error = NotABoolean rstr

definition parse_bool_env :: "rstr \<Rightarrow> rstr option \<Rightarrow> bool \<Rightarrow> flag_error + bool" where
  "parse_bool_env name value fallback = (case value of
     None \<Rightarrow> Inr fallback
   | Some v \<Rightarrow>
       let s = str_lower (trim v) in
       if s = [] then Inr fallback
       else if s \<in> {lit ''1'', lit ''true'', lit ''yes'', lit ''on''} then Inr True
       else if s \<in> {lit ''0'', lit ''false'', lit ''no'', lit ''off''} then Inr False
       else Inl (NotABoolean name))"

section \<open>Facts\<close>

lemma parse_validated_Inr:
  "parse_validated cr json valid bytes = Inr r \<longleftrightarrow> json bytes = Some r \<and> valid r"
  by (auto simp: parse_validated_def split: option.splits)

lemma platform_from_db_as_str [simp]: "platform_from_db (platform_as_str p) = Some p"
  by (cases p) (simp_all add: platform_from_db_def)

lemma ascii_byte: "c < 128 \<Longrightarrow> utf8_nats c = [c]"
  by (simp add: utf8_nats_def)

text \<open>The attribute's pattern and the lookup's check of a locator are the same predicate.\<close>

lemma hex64_locator: "valid_str s \<Longrightarrow> hex64_pattern s \<longleftrightarrow> is_valid_pairing_locator s"
proof
  assume "hex64_pattern s"
  then have s: "length s = 64" "\<forall>c \<in> set s. (48 \<le> c \<and> c \<le> 57) \<or> (97 \<le> c \<and> c \<le> 102)"
    by (auto simp: hex64_pattern_def list_all_iff)
  then have "\<forall>c \<in> set s. c < 128" by auto
  then have "concat (map utf8_nats s) = s"
    by (induction s) (auto simp: ascii_byte)
  then have b: "as_bytes s = map word_of_nat s"
    by (simp add: as_bytes_def)
  have "(48 \<le> (word_of_nat c :: u8) \<and> (word_of_nat c :: u8) \<le> 57) \<or>
      (97 \<le> (word_of_nat c :: u8) \<and> (word_of_nat c :: u8) \<le> 102)" if "c \<in> set s" for c
  proof -
    have "c < 256" using s(2) that by auto
    then have "unat (word_of_nat c :: u8) = c" by (simp add: unat_of_nat)
    then show ?thesis using s(2) that by (auto simp: word_le_nat_alt)
  qed
  then show "is_valid_pairing_locator s"
    using s(1) b by (simp add: is_valid_pairing_locator_def str_len_def list_all_iff)
next
  assume v: "valid_str s" and "is_valid_pairing_locator s"
  then have len: "length (as_bytes s) = 64"
    and bytes: "\<forall>b \<in> set (as_bytes s). (48 \<le> b \<and> b \<le> 57) \<or> (97 \<le> b \<and> b \<le> 102)"
    by (auto simp: is_valid_pairing_locator_def str_len_def list_all_iff)
  have nats: "map unat (as_bytes s) = concat (map utf8_nats s)"
    using unat_utf8_bytes [OF v] by (simp add: as_bytes_def)
  have low: "(48 \<le> n \<and> n \<le> 57) \<or> (97 \<le> n \<and> n \<le> 102)" if "n \<in> set (concat (map utf8_nats s))" for n
  proof -
    have "n \<in> unat ` set (as_bytes s)" using that nats by (metis set_map)
    then show ?thesis using bytes by (auto simp: word_le_nat_alt)
  qed
  have one: "utf8_nats c = [c]" if "c \<in> set s" for c
  proof (rule ccontr)
    assume "utf8_nats c \<noteq> [c]"
    then have "\<exists>n \<in> set (utf8_nats c). 128 \<le> n"
      by (auto simp: utf8_nats_def split: if_splits)
    then obtain n where n: "n \<in> set (utf8_nats c)" "128 \<le> n" by blast
    from n(1) that have "n \<in> set (concat (map utf8_nats s))" by auto
    from low [OF this] n(2) show False by linarith
  qed
  then have "concat (map utf8_nats s) = s"
    by (induction s) auto
  then show "hex64_pattern s"
    using low len nats unfolding hex64_pattern_def list_all_iff by (metis length_map)
qed

lemma increment_self: "snd (increment c m cache) = rate_count (fst (increment c m cache)) c m"
  by (simp add: increment_def rate_count_def Let_def)

lemma increment_other:
  "(c', m') \<noteq> (c, m) \<Longrightarrow> rate_count (fst (increment c m cache)) c' m' = rate_count cache c' m'"
  by (auto simp: increment_def rate_count_def Let_def)

lemma increment_exact: "rate_count cache c m < u32_max \<Longrightarrow>
    rate_count (fst (increment c m cache)) c m = Suc (rate_count cache c m)"
  by (simp add: increment_def rate_count_def Let_def)

end
