(* ===== verification/RelayStore.thy ===== *)
theory RelayStore
  imports RelayTypes "HOL-Library.AList"
begin

text \<open>
  The relay's SQLite tables and the state they load into (\<open>RelayStore\<close>,
  \<open>prune_expired_rows\<close>, \<open>load_state\<close> of \<open>crates/relay/src/lib.rs\<close>).  A table with a text
  primary key is a table of \<open>Tables\<close>; the nonces, whose key is a pair, are an association
  list.  Timestamps are stored with \<open>as i64\<close>, which wraps from \<open>2^63\<close> on.  A statement that
  fails leaves the tables as they are: each is a transaction of its own.
\<close>

section \<open>Entries in memory\<close>

record daemon_registration =
  dr_public_key :: bytes
  dr_updated_at_ms :: nat

record token_owner =
  tk_daemon_node_id :: rstr
  tk_platform :: push_platform
  tk_updated_at_ms :: nat

datatype pairing_record = LegacyTicket rstr | Reachability pairing_rendezvous

record pairing_code_entry =
  ce_daemon_node_id :: rstr
  ce_record :: pairing_record
  ce_expires_at_ms :: nat

type_synonym nonce_list = "((rstr \<times> rstr) \<times> nat) list"

definition push_token_is_stale :: "nat \<Rightarrow> nat \<Rightarrow> bool" where
  "push_token_is_stale updated_at_ms now \<longleftrightarrow> PUSH_TOKEN_TTL_MS < now - updated_at_ms"

section \<open>Rows\<close>

definition as_i64 :: "nat \<Rightarrow> int" where
  "as_i64 n = (if n < 2 ^ 63 then int n else int n - 2 ^ 64)"

definition from_i64 :: "int \<Rightarrow> nat option" where
  "from_i64 i = (if i < 0 then None else Some (nat i))"

record daemon_row =
  dw_public_key :: bytes
  dw_updated_at_ms :: int

record token_row =
  tw_daemon_node_id :: rstr
  tw_platform :: rstr
  tw_updated_at_ms :: int

record code_row =
  cw_daemon_node_id :: rstr
  cw_ticket_blob :: rstr
  cw_expires_at_ms :: int
  cw_published_at_ms :: int

record relay_store =
  db_daemons :: "daemon_row table"
  db_push_tokens :: "token_row table"
  db_seen_nonces :: "((rstr \<times> rstr) \<times> int) list"
  db_pairing_codes :: "code_row table"

definition empty_store :: relay_store where
  "empty_store = \<lparr>db_daemons = [], db_push_tokens = [], db_seen_nonces = [], db_pairing_codes = []\<rparr>"

section \<open>Statements\<close>

definition save_daemon :: "rstr \<Rightarrow> daemon_registration \<Rightarrow> relay_store \<Rightarrow> relay_store" where
  "save_daemon daemon_node_id registration db = db\<lparr>db_daemons :=
     tbl_insert daemon_node_id \<lparr>dw_public_key = dr_public_key registration,
       dw_updated_at_ms = as_i64 (dr_updated_at_ms registration)\<rparr> (db_daemons db)\<rparr>"

definition save_token :: "rstr \<Rightarrow> rstr \<Rightarrow> push_platform \<Rightarrow> nat \<Rightarrow> relay_store \<Rightarrow> relay_store" where
  "save_token push_token daemon_node_id platform updated_at_ms db = db\<lparr>db_push_tokens :=
     tbl_insert push_token \<lparr>tw_daemon_node_id = daemon_node_id,
       tw_platform = platform_as_str platform, tw_updated_at_ms = as_i64 updated_at_ms\<rparr>
       (db_push_tokens db)\<rparr>"

definition touch_token :: "rstr \<Rightarrow> nat \<Rightarrow> relay_store \<Rightarrow> relay_store" where
  "touch_token push_token updated_at_ms db = db\<lparr>db_push_tokens :=
     tbl_update push_token (\<lambda>row. row\<lparr>tw_updated_at_ms := as_i64 updated_at_ms\<rparr>)
       (db_push_tokens db)\<rparr>"

definition remove_token :: "rstr \<Rightarrow> relay_store \<Rightarrow> relay_store" where
  "remove_token push_token db = db\<lparr>db_push_tokens := tbl_remove push_token (db_push_tokens db)\<rparr>"

text \<open>\<open>INSERT OR IGNORE\<close>: whether a row was inserted.\<close>

definition insert_nonce :: "rstr \<Rightarrow> rstr \<Rightarrow> nat \<Rightarrow> relay_store \<Rightarrow> relay_store \<times> bool" where
  "insert_nonce daemon_node_id nonce ts_ms db =
     (if map_of (db_seen_nonces db) (daemon_node_id, nonce) = None
      then (db\<lparr>db_seen_nonces := ((daemon_node_id, nonce), as_i64 ts_ms) # db_seen_nonces db\<rparr>, True)
      else (db, False))"

definition record_authenticated_activity ::
    "rstr \<Rightarrow> rstr \<Rightarrow> nat \<Rightarrow> nat \<Rightarrow> relay_store \<Rightarrow> relay_store \<times> bool" where
  "record_authenticated_activity daemon_node_id nonce signed_at_ms activity_at_ms db =
     (let (db, inserted) = insert_nonce daemon_node_id nonce signed_at_ms db in
      if inserted
      then (db\<lparr>db_daemons := tbl_update daemon_node_id
              (\<lambda>row. row\<lparr>dw_updated_at_ms := as_i64 activity_at_ms\<rparr>) (db_daemons db)\<rparr>, True)
      else (db, False))"

definition save_pairing_code ::
    "rstr \<Rightarrow> rstr \<Rightarrow> rstr \<Rightarrow> nat \<Rightarrow> nat \<Rightarrow> relay_store \<Rightarrow> relay_store" where
  "save_pairing_code code daemon_node_id ticket_blob expires_at_ms published_at_ms db =
     db\<lparr>db_pairing_codes := tbl_insert code \<lparr>cw_daemon_node_id = daemon_node_id,
       cw_ticket_blob = ticket_blob, cw_expires_at_ms = as_i64 expires_at_ms,
       cw_published_at_ms = as_i64 published_at_ms\<rparr> (db_pairing_codes db)\<rparr>"

definition delete_pairing_code :: "rstr \<Rightarrow> relay_store \<Rightarrow> relay_store" where
  "delete_pairing_code code db = db\<lparr>db_pairing_codes := tbl_remove code (db_pairing_codes db)\<rparr>"

definition stale_rows :: "relay_store \<Rightarrow> int \<Rightarrow> rstr \<Rightarrow> bool" where
  "stale_rows db cutoff daemon_node_id \<longleftrightarrow>
     (case tbl_get (db_daemons db) daemon_node_id of
        None \<Rightarrow> False | Some row \<Rightarrow> dw_updated_at_ms row < cutoff)"

definition prune_expired_rows :: "nat \<Rightarrow> bool \<Rightarrow> nat \<Rightarrow> relay_store \<Rightarrow> relay_store" where
  "prune_expired_rows now prune_stale_daemons daemon_retention_ms db =
     (let nonce_cutoff = as_i64 (now - CLOCK_SKEW_MS);
          token_cutoff = as_i64 (now - PUSH_TOKEN_TTL_MS);
          db = db\<lparr>db_seen_nonces := filter (\<lambda>(_, ts). \<not> ts < nonce_cutoff) (db_seen_nonces db),
            db_push_tokens := tbl_retain (\<lambda>_ row. \<not> tw_updated_at_ms row < token_cutoff)
              (db_push_tokens db),
            db_pairing_codes := tbl_retain (\<lambda>_ row. \<not> cw_expires_at_ms row \<le> as_i64 now)
              (db_pairing_codes db)\<rparr>
      in if prune_stale_daemons then
        let cutoff = as_i64 (now - daemon_retention_ms) in
        db\<lparr>db_push_tokens := tbl_retain (\<lambda>_ row. \<not> stale_rows db cutoff (tw_daemon_node_id row))
             (db_push_tokens db),
           db_seen_nonces := filter (\<lambda>((d, _), _). \<not> stale_rows db cutoff d) (db_seen_nonces db),
           db_pairing_codes := tbl_retain (\<lambda>_ row. \<not> stale_rows db cutoff (cw_daemon_node_id row))
             (db_pairing_codes db),
           db_daemons := tbl_retain (\<lambda>_ row. \<not> dw_updated_at_ms row < cutoff) (db_daemons db)\<rparr>
      else db)"

section \<open>Loading\<close>

datatype load_error =
    BadPublicKey | NegativeTimestamp | UnknownPlatform rstr | BadRendezvous

text \<open>The rows in key order, up to the first that cannot be read.\<close>

fun load_rows :: "('k \<Rightarrow> 'r \<Rightarrow> load_error + 'v) \<Rightarrow> ('k \<times> 'r) list \<Rightarrow> load_error + ('k \<times> 'v) list" where
  "load_rows f [] = Inr []"
| "load_rows f ((k, r) # rs) = (case f k r of
     Inl e \<Rightarrow> Inl e
   | Inr v \<Rightarrow> map_sum id ((#) (k, v)) (load_rows f rs))"

definition load_daemon :: "relay_crates \<Rightarrow> rstr \<Rightarrow> daemon_row \<Rightarrow> load_error + daemon_registration" where
  "load_daemon cr _ row =
     (if length (dw_public_key row) \<noteq> 32 \<or> \<not> point_ok cr (dw_public_key row) then Inl BadPublicKey
      else case from_i64 (dw_updated_at_ms row) of
        None \<Rightarrow> Inl NegativeTimestamp
      | Some t \<Rightarrow> Inr \<lparr>dr_public_key = dw_public_key row, dr_updated_at_ms = t\<rparr>)"

definition load_token :: "rstr \<Rightarrow> token_row \<Rightarrow> load_error + token_owner" where
  "load_token _ row = (case platform_from_db (tw_platform row) of
     None \<Rightarrow> Inl (UnknownPlatform (tw_platform row))
   | Some p \<Rightarrow> (case from_i64 (tw_updated_at_ms row) of
       None \<Rightarrow> Inl NegativeTimestamp
     | Some t \<Rightarrow> Inr \<lparr>tk_daemon_node_id = tw_daemon_node_id row, tk_platform = p,
         tk_updated_at_ms = t\<rparr>))"

definition load_nonce :: "(rstr \<times> rstr) \<Rightarrow> int \<Rightarrow> load_error + nat" where
  "load_nonce _ ts = (case from_i64 ts of None \<Rightarrow> Inl NegativeTimestamp | Some t \<Rightarrow> Inr t)"

definition load_code :: "relay_crates \<Rightarrow> rstr \<Rightarrow> code_row \<Rightarrow> load_error + pairing_code_entry" where
  "load_code cr code row =
     (case (if is_valid_pairing_locator code then
              (case rendezvous_of_json cr (cw_ticket_blob row) of
                 None \<Rightarrow> Inl BadRendezvous | Some r \<Rightarrow> Inr (Reachability r))
            else Inr (LegacyTicket (cw_ticket_blob row))) of
        Inl e \<Rightarrow> Inl e
      | Inr r \<Rightarrow> (case from_i64 (cw_expires_at_ms row) of
          None \<Rightarrow> Inl NegativeTimestamp
        | Some t \<Rightarrow> Inr \<lparr>ce_daemon_node_id = cw_daemon_node_id row, ce_record = r,
            ce_expires_at_ms = t\<rparr>))"

type_synonym loaded_relay_state =
  "daemon_registration table \<times> token_owner table \<times> nonce_list \<times> pairing_code_entry table"

definition load_state ::
    "relay_crates \<Rightarrow> nat \<Rightarrow> bool \<Rightarrow> nat \<Rightarrow> relay_store \<Rightarrow> relay_store \<times> (load_error + loaded_relay_state)"
where
  "load_state cr now prune_stale_daemons daemon_retention_ms db =
     (let db = prune_expired_rows now prune_stale_daemons daemon_retention_ms db in
      (db, case load_rows (load_daemon cr) (db_daemons db) of
         Inl e \<Rightarrow> Inl e
       | Inr daemons \<Rightarrow> (case load_rows load_token (db_push_tokens db) of
           Inl e \<Rightarrow> Inl e
         | Inr tokens \<Rightarrow> (case load_rows load_nonce (db_seen_nonces db) of
             Inl e \<Rightarrow> Inl e
           | Inr nonces \<Rightarrow> (case load_rows (load_code cr) (db_pairing_codes db) of
               Inl e \<Rightarrow> Inl e
             | Inr codes \<Rightarrow> Inr (daemons, tokens, nonces, codes))))))"

section \<open>Facts\<close>

lemma as_i64_le: "n < 2 ^ 63 \<Longrightarrow> m < 2 ^ 63 \<Longrightarrow> as_i64 n \<le> as_i64 m \<longleftrightarrow> n \<le> m"
  by (simp add: as_i64_def)

lemma as_i64_less: "n < 2 ^ 63 \<Longrightarrow> m < 2 ^ 63 \<Longrightarrow> as_i64 n < as_i64 m \<longleftrightarrow> n < m"
  by (simp add: as_i64_def)

lemma from_as_i64: "n < 2 ^ 63 \<Longrightarrow> from_i64 (as_i64 n) = Some n"
  by (simp add: from_i64_def as_i64_def)

lemma from_i64_Some: "from_i64 i = Some n \<longleftrightarrow> 0 \<le> i \<and> n = nat i"
  by (auto simp: from_i64_def)

text \<open>Rows that encode the entries of a table load back as that table.\<close>

lemma load_rows_map:
  assumes "\<And>k v. (k, v) \<in> set t \<Longrightarrow> f k (enc v) = Inr v"
  shows "load_rows f (tbl_map enc t) = Inr t"
  using assms by (induction t) (auto simp: tbl_map_def)

lemma load_rows_lookup:
  "load_rows f rs = Inr vs \<Longrightarrow> map_of rs k = Some r \<Longrightarrow> \<exists>v. f k r = Inr v \<and> map_of vs k = Some v"
proof (induction rs arbitrary: vs)
  case Nil
  then show ?case by simp
next
  case (Cons x rs)
  then obtain j q v vs' where x: "x = (j, q)" and f: "f j q = Inr v"
    and rs: "load_rows f rs = Inr vs'" and vs: "vs = (j, v) # vs'"
    by (cases x; cases "f (fst x) (snd x)"; cases "load_rows f rs") auto
  show ?case
  proof (cases "k = j")
    case True
    with Cons.prems x f vs show ?thesis by simp
  next
    case False
    with Cons.prems x have "map_of rs k = Some r" by simp
    from Cons.IH [OF rs this] False vs show ?thesis by simp
  qed
qed

lemma load_rows_keys: "load_rows f rs = Inr vs \<Longrightarrow> map fst vs = map fst rs"
proof (induction rs arbitrary: vs)
  case (Cons x rs)
  then show ?case
    by (cases x; cases "f (fst x) (snd x)"; cases "load_rows f rs") auto
qed simp

lemma map_of_filter_distinct:
  "distinct (map fst xs) \<Longrightarrow>
    map_of (filter P xs) k = Some v \<longleftrightarrow> map_of xs k = Some v \<and> P (k, v)"
  by (induction xs) (auto simp: map_of_eq_Some_iff dest: map_of_SomeD intro: rev_image_eqI)

end
