(* ===== verification/Relay.thy ===== *)
theory Relay
  imports RelayStore
begin

text \<open>
  The relay's state and the handlers of its HTTP API (\<open>crates/relay/src/lib.rs\<close>).  A handler
  takes the state, the request and the answers of its environment: the clock at the points
  where it is read (readings with nothing awaited between them are one), whether each
  database call succeeds, and what the push provider answers.  It returns the state and the
  reply or the error.  A handler runs as one step; where it awaits between looking at the
  registry and changing it, the two halves are definitions of their own.
\<close>

section \<open>State\<close>

record relay_metrics =
  daemon_registrations :: nat
  token_registrations :: nat
  token_unregistrations :: nat
  push_accepts :: nat
  pairing_code_publishes :: nat
  pairing_code_resolves :: nat

text \<open>\<open>RelayState\<close> with the fields of \<open>RelayInner\<close>; the tables are \<open>HashMap\<close>s in the source.\<close>

record relay_state =
  rs_daemons :: "daemon_registration table"
  rs_tokens :: "token_owner table"
  rs_seen_nonces :: nonce_list
  rs_pairing_codes :: "pairing_code_entry table"
  rs_pruned_at_ms :: nat
  rs_metrics :: relay_metrics
  rs_rate_limits :: rate_cache
  rs_resolve_rate_limits :: rate_cache
  rs_register_rate_limits :: rate_cache
  rs_token_register_rate_limits :: rate_cache
  rs_store :: "relay_store option"
  rs_trust_forwarded_for :: bool
  rs_prune_stale_daemons :: bool
  rs_daemon_retention_ms :: nat
  rs_registration_audience :: rstr
  rs_error_sequence :: nat

definition no_metrics :: relay_metrics where
  "no_metrics = \<lparr>daemon_registrations = 0, token_registrations = 0, token_unregistrations = 0,
     push_accepts = 0, pairing_code_publishes = 0, pairing_code_resolves = 0\<rparr>"

definition relay_default :: relay_state where
  "relay_default = \<lparr>rs_daemons = [], rs_tokens = [], rs_seen_nonces = [], rs_pairing_codes = [],
     rs_pruned_at_ms = 0, rs_metrics = no_metrics, rs_rate_limits = Map.empty,
     rs_resolve_rate_limits = Map.empty, rs_register_rate_limits = Map.empty,
     rs_token_register_rate_limits = Map.empty, rs_store = None, rs_trust_forwarded_for = False,
     rs_prune_stale_daemons = False, rs_daemon_retention_ms = DEFAULT_DAEMON_RETENTION_MS,
     rs_registration_audience = DEFAULT_REGISTRATION_AUDIENCE, rs_error_sequence = 1\<rparr>"

definition open_sqlite_with_policy ::
    "relay_crates \<Rightarrow> nat \<Rightarrow> bool \<Rightarrow> nat \<Rightarrow> rstr \<Rightarrow> relay_store \<Rightarrow>
     relay_store \<times> (load_error + relay_state)" where
  "open_sqlite_with_policy cr now prune_stale_daemons daemon_retention_ms audience db =
     (case load_state cr now prune_stale_daemons daemon_retention_ms db of
        (db, Inl e) \<Rightarrow> (db, Inl e)
      | (db, Inr (daemons, tokens, nonces, codes)) \<Rightarrow>
          (db, Inr (relay_default\<lparr>rs_daemons := daemons, rs_tokens := tokens,
             rs_seen_nonces := nonces, rs_pairing_codes := codes, rs_store := Some db,
             rs_prune_stale_daemons := prune_stale_daemons,
             rs_daemon_retention_ms := daemon_retention_ms,
             rs_registration_audience := audience\<rparr>)))"

section \<open>The environment of a request\<close>

datatype db_call = CallProofPrune | CallProofNonce | CallPrune | CallActivity | CallSaveDaemon
  | CallRemoveToken | CallSaveToken | CallTouchToken | CallDeleteCode rstr | CallSaveCode

record relay_env =
  t_entry :: nat
  t_proof :: nat
  t_verify :: nat
  t_check :: nat
  t_done :: nat
  db_ok :: "db_call \<Rightarrow> bool"
  deliver :: "delivered_push \<Rightarrow> provider_error option"

datatype relay_reply = Created | Okay | Accepted
  | ResolvedTicket rstr | ResolvedRendezvous pairing_rendezvous

type_synonym 'a relay_result = "relay_state \<times> (api_error + 'a)"

text \<open>The \<open>?\<close> operator.\<close>

definition relay_bind :: "'a relay_result \<Rightarrow> (relay_state \<Rightarrow> 'a \<Rightarrow> 'b relay_result) \<Rightarrow> 'b relay_result"
where
  "relay_bind r f = (case r of (st, Inl e) \<Rightarrow> (st, Inl e) | (st, Inr a) \<Rightarrow> f st a)"

text \<open>\<open>ApiError::internal\<close> takes the next number of the process.\<close>

definition fail_internal :: "relay_state \<Rightarrow> 'a relay_result" where
  "fail_internal st = (st\<lparr>rs_error_sequence := wrap_add64 (rs_error_sequence st) 1\<rparr>,
     Inl (internal_error (rs_error_sequence st)))"

text \<open>A statement on the store, if there is one; \<open>ok\<close> is whether the database runs it.\<close>

definition store_call :: "bool \<Rightarrow> (relay_store \<Rightarrow> relay_store) \<Rightarrow> relay_state \<Rightarrow> unit relay_result" where
  "store_call ok f st = (case rs_store st of
     None \<Rightarrow> (st, Inr ())
   | Some db \<Rightarrow> if ok then (st\<lparr>rs_store := Some (f db)\<rparr>, Inr ()) else fail_internal st)"

text \<open>The same where the code only logs a failure.\<close>

definition store_try :: "bool \<Rightarrow> (relay_store \<Rightarrow> relay_store) \<Rightarrow> relay_state \<Rightarrow> relay_state" where
  "store_try ok f st = (if ok then st\<lparr>rs_store := map_option f (rs_store st)\<rparr> else st)"

section \<open>Pruning\<close>

definition prune_memory :: "nat \<Rightarrow> relay_state \<Rightarrow> relay_state" where
  "prune_memory now st =
     (let nonce_cutoff = now - CLOCK_SKEW_MS;
          st = st\<lparr>rs_seen_nonces := filter (\<lambda>(_, ts). nonce_cutoff \<le> ts) (rs_seen_nonces st),
            rs_pairing_codes := tbl_retain (\<lambda>_ e. now < ce_expires_at_ms e) (rs_pairing_codes st),
            rs_tokens := tbl_retain (\<lambda>_ w. \<not> push_token_is_stale (tk_updated_at_ms w) now)
              (rs_tokens st)\<rparr>
      in if rs_prune_stale_daemons st then
        let daemon_cutoff = now - rs_daemon_retention_ms st;
            daemons = tbl_retain (\<lambda>_ r. daemon_cutoff \<le> dr_updated_at_ms r) (rs_daemons st);
            active = (\<lambda>d. tbl_get daemons d \<noteq> None)
        in st\<lparr>rs_daemons := daemons,
             rs_tokens := tbl_retain (\<lambda>_ w. active (tk_daemon_node_id w)) (rs_tokens st),
             rs_seen_nonces := filter (\<lambda>((d, _), _). active d) (rs_seen_nonces st),
             rs_pairing_codes := tbl_retain (\<lambda>_ e. active (ce_daemon_node_id e))
               (rs_pairing_codes st)\<rparr>
      else st)"

definition prune_expired_relay_state :: "bool \<Rightarrow> nat \<Rightarrow> relay_state \<Rightarrow> relay_state" where
  "prune_expired_relay_state ok now st =
     (let st = prune_memory now st in
      store_try ok (prune_expired_rows now (rs_prune_stale_daemons st) (rs_daemon_retention_ms st)) st)"

definition maybe_prune_expired_relay_state :: "bool \<Rightarrow> nat \<Rightarrow> relay_state \<Rightarrow> relay_state" where
  "maybe_prune_expired_relay_state ok now st =
     (if now - rs_pruned_at_ms st < PRUNE_INTERVAL_MS then st
      else prune_expired_relay_state ok now (st\<lparr>rs_pruned_at_ms := now\<rparr>))"

section \<open>Signed requests\<close>

record signed_request =
  sr_method :: rstr
  sr_path :: rstr
  sr_body :: bytes
  sr_headers :: header_map
  sr_daemon_node_id :: rstr
  sr_nonce :: rstr
  sr_ts_ms :: nat

definition signed_text :: "relay_crates \<Rightarrow> rstr \<Rightarrow> signature_version \<Rightarrow> signed_request \<Rightarrow> bytes" where
  "signed_text cr audience version r = (case version of
     V1 \<Rightarrow> as_bytes (canonical_request (sr_method r) (sr_path r) (sr_body r) (sr_nonce r) (sr_ts_ms r))
   | V2 \<Rightarrow> canonical_request_v2 (sha256_of cr) audience (sr_method r) (sr_path r) (sr_body r)
       (sr_nonce r) (sr_ts_ms r))"

definition registered_key :: "relay_state \<Rightarrow> rstr \<Rightarrow> bytes option" where
  "registered_key st daemon_node_id = map_option dr_public_key (tbl_get (rs_daemons st) daemon_node_id)"

text \<open>The signature of the header over the request, by the registered key, which it yields.\<close>

definition check_signature :: "relay_crates \<Rightarrow> relay_state \<Rightarrow> signed_request \<Rightarrow> api_error + bytes" where
  "check_signature cr st r = (case header_str (sr_headers r) SIGNATURE_HEADER of
     None \<Rightarrow> Inl (api_unauthorized (lit ''missing shelly signature''))
   | Some header \<Rightarrow> (case split_signature_header header of
       None \<Rightarrow> Inl (api_unauthorized (lit ''unsupported shelly signature version''))
     | Some (version, encoded) \<Rightarrow> (case decode_signature cr encoded of
         Inl e \<Rightarrow> Inl e
       | Inr signature \<Rightarrow> (case registered_key st (sr_daemon_node_id r) of
           None \<Rightarrow> Inl (api_unauthorized (lit ''unknown daemon''))
         | Some key \<Rightarrow>
             if ed_verify cr key (signed_text cr (rs_registration_audience st) version r) signature
             then Inr key
             else Inl (api_unauthorized (lit ''invalid shelly signature''))))))"

text \<open>The daemon's last activity, unless its key changed meanwhile.\<close>

definition touch_daemon :: "relay_env \<Rightarrow> rstr \<Rightarrow> bytes \<Rightarrow> relay_state \<Rightarrow> relay_state" where
  "touch_daemon env daemon_node_id key st = st\<lparr>rs_daemons := tbl_update daemon_node_id
     (\<lambda>d. if dr_public_key d = key then d\<lparr>dr_updated_at_ms := t_verify env\<rparr> else d)
     (rs_daemons st)\<rparr>"

text \<open>What follows the signature check: the nonce is spent and the daemon marked active.\<close>

definition admit_request ::
    "relay_env \<Rightarrow> relay_state \<Rightarrow> signed_request \<Rightarrow> bytes \<Rightarrow>
     (relay_state \<Rightarrow> unit relay_result) \<Rightarrow> unit relay_result" where
  "admit_request env st r key pre_nonce_check =
     (if registered_key st (sr_daemon_node_id r) \<noteq> Some key
      then (st, Inl (api_unauthorized (lit ''daemon key changed; retry'')))
      else relay_bind (pre_nonce_check st) (\<lambda>st _.
        let seen_key = (sr_daemon_node_id r, sr_nonce r);
            seen = map_of (rs_seen_nonces st) seen_key \<noteq> None;
            st = st\<lparr>rs_seen_nonces := AList.update seen_key (sr_ts_ms r) (rs_seen_nonces st)\<rparr>
        in if seen then (st, Inl replay_detected)
        else (case rs_store st of
            None \<Rightarrow> (touch_daemon env (sr_daemon_node_id r) key st, Inr ())
          | Some db \<Rightarrow>
              if \<not> db_ok env CallActivity then fail_internal st
              else (let (db, inserted) = record_authenticated_activity (sr_daemon_node_id r)
                      (sr_nonce r) (sr_ts_ms r) (t_verify env) db;
                    st = st\<lparr>rs_store := Some db\<rparr>
                in if inserted then (touch_daemon env (sr_daemon_node_id r) key st, Inr ())
                  else (st, Inl replay_detected)))))"

definition verify_signed_request_with_pre_nonce_check ::
    "relay_crates \<Rightarrow> relay_env \<Rightarrow> relay_state \<Rightarrow> signed_request \<Rightarrow>
     (relay_state \<Rightarrow> unit relay_result) \<Rightarrow> unit relay_result" where
  "verify_signed_request_with_pre_nonce_check cr env st r pre_nonce_check =
     (if CLOCK_SKEW_MS < abs_diff (t_verify env) (sr_ts_ms r) then (st, Inl clock_skew)
      else let st = maybe_prune_expired_relay_state (db_ok env CallPrune) (t_verify env) st in
        case check_signature cr st r of
          Inl e \<Rightarrow> (st, Inl e)
        | Inr key \<Rightarrow> admit_request env st r key pre_nonce_check)"

definition verify_signed_request ::
    "relay_crates \<Rightarrow> relay_env \<Rightarrow> relay_state \<Rightarrow> signed_request \<Rightarrow> unit relay_result" where
  "verify_signed_request cr env st r =
     verify_signed_request_with_pre_nonce_check cr env st r (\<lambda>st. (st, Inr ()))"

definition signed_post ::
    "rstr \<Rightarrow> bytes \<Rightarrow> header_map \<Rightarrow> rstr \<Rightarrow> rstr \<Rightarrow> nat \<Rightarrow> signed_request" where
  "signed_post path body headers daemon_node_id nonce ts_ms =
     \<lparr>sr_method = lit ''POST'', sr_path = path, sr_body = body, sr_headers = headers,
      sr_daemon_node_id = daemon_node_id, sr_nonce = nonce, sr_ts_ms = ts_ms\<rparr>"

section \<open>Registering a daemon\<close>

definition check_proof ::
    "relay_crates \<Rightarrow> rstr \<Rightarrow> bytes \<Rightarrow> rstr \<Rightarrow> registration_proof \<Rightarrow> api_error + unit" where
  "check_proof cr daemon_node_id relay_signing_key audience proof =
     (if rp_audience proof \<noteq> audience
      then Inl (api_unauthorized (lit ''registration proof audience does not match this relay''))
      else case node_key cr daemon_node_id of
        None \<Rightarrow> Inl (api_unauthorized (lit ''daemon_node_id is not a valid iroh public key''))
      | Some daemon_key \<Rightarrow> (case b64_decode cr (rp_signature proof) of
          None \<Rightarrow> Inl (api_unauthorized (lit ''registration proof signature must be base64''))
        | Some signature \<Rightarrow>
            if length signature \<noteq> 64
            then Inl (api_unauthorized
              (lit ''registration proof signature must be an Ed25519 signature''))
            else if node_verify cr daemon_key (as_bytes (registration_proof_binding cr
                daemon_node_id relay_signing_key (rp_audience proof) (rp_nonce proof)
                (rp_ts_ms proof))) signature
            then Inr ()
            else Inl (api_unauthorized (lit ''invalid registration proof''))))"

definition verify_registration_proof ::
    "relay_crates \<Rightarrow> relay_env \<Rightarrow> relay_state \<Rightarrow> rstr \<Rightarrow> bytes \<Rightarrow> registration_proof \<Rightarrow> unit relay_result"
where
  "verify_registration_proof cr env st daemon_node_id relay_signing_key proof =
     (if CLOCK_SKEW_MS < abs_diff (t_proof env) (rp_ts_ms proof) then (st, Inl clock_skew)
      else let st = maybe_prune_expired_relay_state (db_ok env CallProofPrune) (t_proof env) st in
        case check_proof cr daemon_node_id relay_signing_key (rs_registration_audience st) proof of
          Inl e \<Rightarrow> (st, Inl e)
        | Inr _ \<Rightarrow>
          let seen_key = (daemon_node_id, rp_nonce proof);
              seen = map_of (rs_seen_nonces st) seen_key \<noteq> None;
              st = st\<lparr>rs_seen_nonces := AList.update seen_key (rp_ts_ms proof) (rs_seen_nonces st)\<rparr>
          in if seen then (st, Inl replay_detected)
          else (case rs_store st of
              None \<Rightarrow> (st, Inr ())
            | Some db \<Rightarrow>
                if \<not> db_ok env CallProofNonce then fail_internal st
                else (let (db, inserted) = insert_nonce daemon_node_id (rp_nonce proof)
                        (rp_ts_ms proof) db
                  in (st\<lparr>rs_store := Some db\<rparr>, if inserted then Inr () else Inl replay_detected))))"

definition daemon_capacity_exceeded :: "relay_state \<Rightarrow> rstr \<Rightarrow> nat \<Rightarrow> bool" where
  "daemon_capacity_exceeded st daemon_node_id max_daemons \<longleftrightarrow>
     max_daemons \<le> length (rs_daemons st) \<and> tbl_get (rs_daemons st) daemon_node_id = None"

fun registration_key_changed :: "bytes option \<Rightarrow> bytes option \<Rightarrow> bytes \<Rightarrow> bool" where
  "registration_key_changed None None requested \<longleftrightarrow> False"
| "registration_key_changed None (Some current) requested \<longleftrightarrow> current \<noteq> requested"
| "registration_key_changed (Some observed) (Some current) requested \<longleftrightarrow> current \<noteq> observed"
| "registration_key_changed (Some observed) None requested \<longleftrightarrow> True"

definition rollback_daemon_registration ::
    "rstr \<Rightarrow> daemon_registration option \<Rightarrow> daemon_registration \<Rightarrow> relay_state \<Rightarrow> relay_state" where
  "rollback_daemon_registration daemon_node_id previous attempted st =
     (if tbl_get (rs_daemons st) daemon_node_id \<noteq> Some attempted then st
      else (case previous of
          Some p \<Rightarrow> st\<lparr>rs_daemons := tbl_insert daemon_node_id p (rs_daemons st)\<rparr>
        | None \<Rightarrow> st\<lparr>rs_daemons := tbl_remove daemon_node_id (rs_daemons st)\<rparr>))"

text \<open>The first half: authorise the key for this daemon.  Yields what was registered.\<close>

definition authorize_registration ::
    "relay_crates \<Rightarrow> relay_env \<Rightarrow> relay_state \<Rightarrow> header_map \<Rightarrow> bytes \<Rightarrow> register_daemon_request \<Rightarrow>
     bytes \<Rightarrow> daemon_registration option relay_result" where
  "authorize_registration cr env st headers body request public_key =
     (if daemon_capacity_exceeded st (rd_daemon_node_id request) MAX_DAEMONS
      then (st, Inl daemon_capacity)
      else let existing = tbl_get (rs_daemons st) (rd_daemon_node_id request) in
        if (case existing of None \<Rightarrow> False | Some r \<Rightarrow> dr_public_key r \<noteq> public_key) then
          (case (rd_nonce request, rd_ts_ms request) of
             (Some nonce, Some ts_ms) \<Rightarrow>
               relay_bind (verify_signed_request cr env st (signed_post (lit ''/v1/pair'') body
                   headers (rd_daemon_node_id request) nonce ts_ms))
                 (\<lambda>st _. (st, Inr existing))
           | _ \<Rightarrow> (st, Inl (api_forbidden
               (lit ''daemon node id is already registered with a different key''))))
        else (st, Inr existing))"

text \<open>The second half: register, unless the registration changed since it was looked up.\<close>

definition commit_registration ::
    "relay_env \<Rightarrow> relay_state \<Rightarrow> rstr \<Rightarrow> bytes \<Rightarrow> daemon_registration option \<Rightarrow> relay_reply relay_result"
where
  "commit_registration env st daemon_node_id public_key existing =
     (let registration = \<lparr>dr_public_key = public_key, dr_updated_at_ms = t_done env\<rparr> in
      if daemon_capacity_exceeded st daemon_node_id MAX_DAEMONS then (st, Inl daemon_capacity)
      else if registration_key_changed (map_option dr_public_key existing)
        (registered_key st daemon_node_id) public_key then (st, Inl registration_conflict)
      else let st = st\<lparr>rs_daemons := tbl_insert daemon_node_id registration (rs_daemons st)\<rparr> in
        case store_call (db_ok env CallSaveDaemon) (save_daemon daemon_node_id registration) st of
          (st, Inl e) \<Rightarrow> (rollback_daemon_registration daemon_node_id existing registration st, Inl e)
        | (st, Inr _) \<Rightarrow> (st\<lparr>rs_metrics := (rs_metrics st)\<lparr>daemon_registrations :=
              wrap_add64 (daemon_registrations (rs_metrics st)) 1\<rparr>\<rparr>, Inr Created))"

definition register_daemon ::
    "relay_crates \<Rightarrow> relay_env \<Rightarrow> rstr \<Rightarrow> header_map \<Rightarrow> bytes \<Rightarrow> relay_state \<Rightarrow> relay_reply relay_result"
where
  "register_daemon cr env peer_ip headers body st =
     (let client = client_identifier peer_ip headers (rs_trust_forwarded_for st);
          (limits, n) = increment client (t_entry env div 60000) (rs_register_rate_limits st);
          st = st\<lparr>rs_register_rate_limits := limits\<rparr>
      in if REGISTER_ATTEMPTS_PER_MINUTE < n then (st, Inl register_rate_limited)
      else case parse_validated cr (json_register_daemon cr) validate_register_daemon body of
        Inl e \<Rightarrow> (st, Inl e)
      | Inr request \<Rightarrow> (case decode_public_key cr (rd_public_key request) of
          Inl e \<Rightarrow> (st, Inl e)
        | Inr public_key \<Rightarrow>
          relay_bind (case rd_proof request of
              None \<Rightarrow> (st, Inr ())
            | Some proof \<Rightarrow> verify_registration_proof cr env st (rd_daemon_node_id request)
                public_key proof)
            (\<lambda>st _. relay_bind (authorize_registration cr env st headers body request public_key)
              (\<lambda>st existing. commit_registration env st (rd_daemon_node_id request) public_key
                existing))))"

section \<open>Push tokens\<close>

definition check_register_token_rate_limit :: "relay_env \<Rightarrow> rstr \<Rightarrow> relay_state \<Rightarrow> unit relay_result"
where
  "check_register_token_rate_limit env daemon_node_id st =
     (let (limits, n) = increment daemon_node_id (t_check env div 60000)
            (rs_token_register_rate_limits st);
          st = st\<lparr>rs_token_register_rate_limits := limits\<rparr>
      in if REGISTER_TOKEN_ATTEMPTS_PER_MINUTE < n then (st, Inl token_register_rate_limited)
      else (st, Inr ()))"

text \<open>\<open>min_by\<close>: the oldest, and the smallest token among equally old ones.\<close>

definition older :: "rstr \<times> nat \<Rightarrow> rstr \<times> nat \<Rightarrow> bool" where
  "older a b \<longleftrightarrow> snd a < snd b \<or> (snd a = snd b \<and> key_less (fst a) (fst b))"

fun oldest :: "(rstr \<times> nat) list \<Rightarrow> (rstr \<times> nat) option" where
  "oldest [] = None"
| "oldest (x # xs) = (case oldest xs of
     None \<Rightarrow> Some x | Some y \<Rightarrow> Some (if older y x then y else x))"

definition tokens_of :: "relay_state \<Rightarrow> rstr \<Rightarrow> (rstr \<times> nat) list" where
  "tokens_of st daemon_node_id =
     map (\<lambda>(token, owner). (token, tk_updated_at_ms owner))
       (filter (\<lambda>(_, owner). tk_daemon_node_id owner = daemon_node_id) (rs_tokens st))"

definition token_evicted_by_cap :: "relay_state \<Rightarrow> rstr \<Rightarrow> rstr \<Rightarrow> rstr option" where
  "token_evicted_by_cap st daemon_node_id push_token =
     (if tbl_get (rs_tokens st) push_token \<noteq> None then None
      else if length (tokens_of st daemon_node_id) < MAX_TOKENS_PER_DAEMON then None
      else map_option fst (oldest (tokens_of st daemon_node_id)))"

definition remove_push_token_binding :: "relay_env \<Rightarrow> rstr \<Rightarrow> relay_state \<Rightarrow> unit relay_result" where
  "remove_push_token_binding env push_token st =
     relay_bind (store_call (db_ok env CallRemoveToken) (remove_token push_token) st) (\<lambda>st _.
       (st\<lparr>rs_tokens := tbl_remove push_token (rs_tokens st),
          rs_metrics := (rs_metrics st)\<lparr>token_unregistrations :=
            wrap_add64 (token_unregistrations (rs_metrics st)) 1\<rparr>\<rparr>, Inr ()))"

definition touch_push_token_binding :: "relay_env \<Rightarrow> rstr \<Rightarrow> relay_state \<Rightarrow> unit relay_result" where
  "touch_push_token_binding env push_token st =
     relay_bind (store_call (db_ok env CallTouchToken) (touch_token push_token (t_done env)) st)
       (\<lambda>st _. (st\<lparr>rs_tokens := tbl_update push_token
          (\<lambda>owner. owner\<lparr>tk_updated_at_ms := t_done env\<rparr>) (rs_tokens st)\<rparr>, Inr ()))"

definition store_token_binding ::
    "relay_env \<Rightarrow> relay_state \<Rightarrow> register_token_request \<Rightarrow> relay_reply relay_result" where
  "store_token_binding env st request =
     relay_bind (store_call (db_ok env CallSaveToken) (save_token (rt_push_token request)
         (rt_daemon_node_id request) (rt_platform request) (t_done env)) st)
       (\<lambda>st _. (st\<lparr>rs_tokens := tbl_insert (rt_push_token request)
           \<lparr>tk_daemon_node_id = rt_daemon_node_id request, tk_platform = rt_platform request,
            tk_updated_at_ms = t_done env\<rparr> (rs_tokens st),
          rs_metrics := (rs_metrics st)\<lparr>token_registrations :=
            wrap_add64 (token_registrations (rs_metrics st)) 1\<rparr>\<rparr>, Inr Created))"

definition register_token ::
    "relay_crates \<Rightarrow> relay_env \<Rightarrow> header_map \<Rightarrow> bytes \<Rightarrow> relay_state \<Rightarrow> relay_reply relay_result" where
  "register_token cr env headers body st =
     (case parse_validated cr (json_register_token cr) validate_register_token body of
        Inl e \<Rightarrow> (st, Inl e)
      | Inr request \<Rightarrow>
        relay_bind (verify_signed_request_with_pre_nonce_check cr env st
            (signed_post (lit ''/v1/push/register-token'') body headers (rt_daemon_node_id request)
              (rt_nonce request) (rt_ts_ms request))
            (check_register_token_rate_limit env (rt_daemon_node_id request)))
          (\<lambda>st _. relay_bind
            (case token_evicted_by_cap st (rt_daemon_node_id request) (rt_push_token request) of
               None \<Rightarrow> (st, Inr ())
             | Some evicted \<Rightarrow> remove_push_token_binding env evicted st)
            (\<lambda>st _. store_token_binding env st request)))"

definition unregister_token ::
    "relay_crates \<Rightarrow> relay_env \<Rightarrow> header_map \<Rightarrow> bytes \<Rightarrow> relay_state \<Rightarrow> relay_reply relay_result" where
  "unregister_token cr env headers body st =
     (case parse_validated cr (json_unregister_token cr) validate_unregister_token body of
        Inl e \<Rightarrow> (st, Inl e)
      | Inr request \<Rightarrow>
        relay_bind (verify_signed_request cr env st
            (signed_post (lit ''/v1/push/unregister-token'') body headers (ut_daemon_node_id request)
              (ut_nonce request) (ut_ts_ms request)))
          (\<lambda>st _. relay_bind (remove_push_token_binding env (ut_push_token request) st)
            (\<lambda>st _. (st, Inr Okay))))"

section \<open>Pushes\<close>

definition push_delivery :: "push_request \<Rightarrow> delivered_push" where
  "push_delivery request = \<lparr>dp_platform = ph_platform request,
     dp_recipient_token = ph_recipient_token request, dp_title = lit ''Shelly'',
     dp_body = lit ''A session is waiting for you.'',
     dp_thread_id = lit ''session.'' @ ph_session_id_hash request,
     dp_session_id_hash = ph_session_id_hash request, dp_event_type = ph_event_type request\<rparr>"

text \<open>What is bound to the recipient token: true for a binding that is stale.\<close>

definition check_recipient :: "relay_env \<Rightarrow> relay_state \<Rightarrow> push_request \<Rightarrow> api_error + bool" where
  "check_recipient env st request = (case tbl_get (rs_tokens st) (ph_recipient_token request) of
     None \<Rightarrow> Inl (api_forbidden (lit ''push token is not registered''))
   | Some owner \<Rightarrow>
       if push_token_is_stale (tk_updated_at_ms owner) (t_check env) then Inr True
       else if tk_daemon_node_id owner \<noteq> ph_daemon_node_id request \<or>
         tk_platform owner \<noteq> ph_platform request
       then Inl (api_forbidden (lit ''push token is not owned by the signing daemon''))
       else Inr False)"

definition deliver_push ::
    "relay_env \<Rightarrow> relay_state \<Rightarrow> delivered_push \<Rightarrow> relay_reply relay_result" where
  "deliver_push env st delivery = (case deliver env delivery of
     Some error \<Rightarrow>
       relay_bind
         (if is_invalid_token error then remove_push_token_binding env (dp_recipient_token delivery) st
          else (st, Inr ()))
         (\<lambda>st _. (st, Inl (provider_failed (provider_error_text error))))
   | None \<Rightarrow>
       relay_bind (touch_push_token_binding env (dp_recipient_token delivery) st) (\<lambda>st _.
         (st\<lparr>rs_metrics := (rs_metrics st)\<lparr>push_accepts :=
            wrap_add64 (push_accepts (rs_metrics st)) 1\<rparr>\<rparr>, Inr Accepted)))"

definition push ::
    "relay_crates \<Rightarrow> relay_env \<Rightarrow> header_map \<Rightarrow> bytes \<Rightarrow> relay_state \<Rightarrow> relay_reply relay_result" where
  "push cr env headers body st =
     (case parse_validated cr (json_push cr) validate_push body of
        Inl e \<Rightarrow> (st, Inl e)
      | Inr request \<Rightarrow>
        relay_bind (verify_signed_request cr env st
            (signed_post (lit ''/v1/push'') body headers (ph_daemon_node_id request)
              (ph_nonce request) (ph_ts_ms request)))
          (\<lambda>st _. case check_recipient env st request of
             Inl e \<Rightarrow> (st, Inl e)
           | Inr True \<Rightarrow>
               relay_bind (remove_push_token_binding env (ph_recipient_token request) st)
                 (\<lambda>st _. (st, Inl (api_forbidden (lit ''push token is not registered''))))
           | Inr False \<Rightarrow>
               let (limits, n) = increment (ph_daemon_node_id request) (t_check env div 60000)
                     (rs_rate_limits st);
                   st = st\<lparr>rs_rate_limits := limits\<rparr>
               in if RATE_LIMIT_PER_MINUTE < n then (st, Inl push_rate_limited)
               else deliver_push env st (push_delivery request)))"

section \<open>Pairing codes\<close>

text \<open>The key, the record and the expiry a publish request asks for.\<close>

definition publish_entry :: "publish_pairing_request \<Rightarrow> api_error + (rstr \<times> pairing_code_entry)" where
  "publish_entry request = (case request of
     PublishLegacy r \<Rightarrow>
       let code = normalize_code (pl_code r) in
       if \<not> is_valid_legacy_code code
       then Inl (bad_request (lit ''legacy pairing code format is invalid''))
       else Inr (code, \<lparr>ce_daemon_node_id = pl_daemon_node_id r,
         ce_record = LegacyTicket (pl_ticket_blob r), ce_expires_at_ms = pl_expires_at_ms r\<rparr>)
   | PublishReachability r \<Rightarrow> (case validate_rendezvous (pz_daemon_node_id r) (pz_rendezvous r) of
       Inl e \<Rightarrow> Inl e
     | Inr _ \<Rightarrow> Inr (pz_locator r, \<lparr>ce_daemon_node_id = pz_daemon_node_id r,
         ce_record = Reachability (pz_rendezvous r),
         ce_expires_at_ms = pr_expires_at (pz_rendezvous r)\<rparr>)))"

text \<open>The codes of the daemon other than the one it keeps, and the state without them.\<close>

definition evict_codes_for_daemon :: "rstr \<Rightarrow> rstr \<Rightarrow> relay_state \<Rightarrow> relay_state \<times> rstr list" where
  "evict_codes_for_daemon daemon_node_id keep st =
     (let stale = map fst (filter (\<lambda>(code, entry).
            ce_daemon_node_id entry = daemon_node_id \<and> code \<noteq> keep) (rs_pairing_codes st))
      in (st\<lparr>rs_pairing_codes := fold tbl_remove stale (rs_pairing_codes st)\<rparr>, stale))"

definition stored_payload :: "relay_crates \<Rightarrow> pairing_record \<Rightarrow> rstr option" where
  "stored_payload cr record = (case record of
     LegacyTicket ticket_blob \<Rightarrow> Some ticket_blob
   | Reachability r \<Rightarrow> rendezvous_to_json cr r)"

definition delete_codes :: "relay_env \<Rightarrow> rstr list \<Rightarrow> relay_state \<Rightarrow> relay_state" where
  "delete_codes env codes st =
     fold (\<lambda>code. store_try (db_ok env (CallDeleteCode code)) (delete_pairing_code code)) codes st"

text \<open>Supersede the daemon's other codes and record this one.\<close>

definition store_code ::
    "relay_crates \<Rightarrow> relay_env \<Rightarrow> relay_state \<Rightarrow> rstr \<Rightarrow> pairing_code_entry \<Rightarrow> relay_reply relay_result"
where
  "store_code cr env st key entry =
     (let (st, superseded) = evict_codes_for_daemon (ce_daemon_node_id entry) key st in
      case stored_payload cr (ce_record entry) of
        None \<Rightarrow> fail_internal st
      | Some payload \<Rightarrow>
        relay_bind (store_call (db_ok env CallSaveCode) (save_pairing_code key
            (ce_daemon_node_id entry) payload (ce_expires_at_ms entry) (t_done env))
            (delete_codes env superseded st))
          (\<lambda>st _. (st\<lparr>rs_pairing_codes := tbl_insert key entry (rs_pairing_codes st),
             rs_metrics := (rs_metrics st)\<lparr>pairing_code_publishes :=
               wrap_add64 (pairing_code_publishes (rs_metrics st)) 1\<rparr>\<rparr>, Inr Created)))"

definition publish_credentials :: "publish_pairing_request \<Rightarrow> rstr \<times> rstr \<times> nat" where
  "publish_credentials request = (case request of
     PublishLegacy r \<Rightarrow> (pl_daemon_node_id r, pl_nonce r, pl_ts_ms r)
   | PublishReachability r \<Rightarrow> (pz_daemon_node_id r, pz_nonce r, pz_ts_ms r))"

definition publish_pairing_code ::
    "relay_crates \<Rightarrow> relay_env \<Rightarrow> header_map \<Rightarrow> bytes \<Rightarrow> relay_state \<Rightarrow> relay_reply relay_result" where
  "publish_pairing_code cr env headers body st =
     (case parse_pairing_publish cr body of
        Inl e \<Rightarrow> (st, Inl e)
      | Inr request \<Rightarrow>
        let (daemon_node_id, nonce, ts_ms) = publish_credentials request in
        relay_bind (verify_signed_request cr env st
            (signed_post (lit ''/v1/pair/publish'') body headers daemon_node_id nonce ts_ms))
          (\<lambda>st _. case publish_entry request of
             Inl e \<Rightarrow> (st, Inl e)
           | Inr (key, entry) \<Rightarrow>
               if ce_expires_at_ms entry \<le> t_check env
               then (st, Inl (bad_request
                 (lit ''pairing rendezvous is already expired at publish time'')))
               else store_code cr env st key entry))"

definition forget_pairing_code :: "relay_env \<Rightarrow> rstr \<Rightarrow> relay_state \<Rightarrow> relay_state" where
  "forget_pairing_code env code st =
     delete_codes env [code] (st\<lparr>rs_pairing_codes := tbl_remove code (rs_pairing_codes st)\<rparr>)"

definition resolve_key :: "rstr \<Rightarrow> rstr option" where
  "resolve_key code =
     (if is_valid_pairing_locator code then Some code
      else let legacy = normalize_code code in
        if is_valid_legacy_code legacy then Some legacy else None)"

definition resolution :: "pairing_record \<Rightarrow> relay_reply" where
  "resolution record = (case record of
     LegacyTicket ticket_blob \<Rightarrow> ResolvedTicket ticket_blob
   | Reachability r \<Rightarrow> ResolvedRendezvous r)"

definition code_not_found :: api_error where
  "code_not_found = api_not_found (lit ''pairing code not found'')"

text \<open>
  Resolving has two critical sections: the lookup, which takes an expired entry out, and the
  rest, which forgets a code that was hit.  Other requests may be served between them.
\<close>

datatype code_resolution = Hit pairing_record | Miss bool

definition lookup_code :: "relay_env \<Rightarrow> rstr \<Rightarrow> relay_state \<Rightarrow> relay_state \<times> code_resolution" where
  "lookup_code env key st = (case tbl_get (rs_pairing_codes st) key of
     None \<Rightarrow> (st, Miss False)
   | Some entry \<Rightarrow>
       if ce_expires_at_ms entry \<le> t_check env
       then (st\<lparr>rs_pairing_codes := tbl_remove key (rs_pairing_codes st)\<rparr>, Miss True)
       else (st, Hit (ce_record entry)))"

definition resolve_lookup ::
    "relay_env \<Rightarrow> rstr \<Rightarrow> header_map \<Rightarrow> rstr \<Rightarrow> relay_state \<Rightarrow> (rstr \<times> code_resolution) relay_result"
where
  "resolve_lookup env peer_ip headers code st =
     (let client = client_identifier peer_ip headers (rs_trust_forwarded_for st);
          (limits, n) = increment client (t_entry env div 60000) (rs_resolve_rate_limits st);
          st = st\<lparr>rs_resolve_rate_limits := limits\<rparr>
      in if RESOLVE_ATTEMPTS_PER_MINUTE < n then (st, Inl resolve_rate_limited)
      else case resolve_key code of
        None \<Rightarrow> (st, Inl code_not_found)
      | Some key \<Rightarrow> (let (st, found) = lookup_code env key st in (st, Inr (key, found))))"

fun finish_resolution :: "relay_env \<Rightarrow> rstr \<Rightarrow> code_resolution \<Rightarrow> relay_state \<Rightarrow> relay_reply relay_result"
where
  "finish_resolution env key (Hit record) st =
     (let st = forget_pairing_code env key st in
      (st\<lparr>rs_metrics := (rs_metrics st)\<lparr>pairing_code_resolves :=
         wrap_add64 (pairing_code_resolves (rs_metrics st)) 1\<rparr>\<rparr>, Inr (resolution record)))"
| "finish_resolution env key (Miss delete) st =
     (if delete then delete_codes env [key] st else st, Inl code_not_found)"

definition resolve_pairing_code ::
    "relay_env \<Rightarrow> rstr \<Rightarrow> header_map \<Rightarrow> rstr \<Rightarrow> relay_state \<Rightarrow> relay_reply relay_result" where
  "resolve_pairing_code env peer_ip headers code st =
     relay_bind (resolve_lookup env peer_ip headers code st)
       (\<lambda>st (key, found). finish_resolution env key found st)"

text \<open>Without a request in between.\<close>

lemma resolve_pairing_code_alt:
  "resolve_pairing_code env peer_ip headers code st =
     (let client = client_identifier peer_ip headers (rs_trust_forwarded_for st);
          (limits, n) = increment client (t_entry env div 60000) (rs_resolve_rate_limits st);
          st = st\<lparr>rs_resolve_rate_limits := limits\<rparr>
      in if RESOLVE_ATTEMPTS_PER_MINUTE < n then (st, Inl resolve_rate_limited)
      else case resolve_key code of
        None \<Rightarrow> (st, Inl code_not_found)
      | Some key \<Rightarrow> (case tbl_get (rs_pairing_codes st) key of
          None \<Rightarrow> (st, Inl code_not_found)
        | Some entry \<Rightarrow>
            if ce_expires_at_ms entry \<le> t_check env
            then (forget_pairing_code env key st, Inl code_not_found)
            else ((forget_pairing_code env key st)\<lparr>rs_metrics := (rs_metrics st)\<lparr>pairing_code_resolves :=
                wrap_add64 (pairing_code_resolves (rs_metrics st)) 1\<rparr>\<rparr>,
              Inr (resolution (ce_record entry)))))"
proof -
  have m: "rs_metrics (forget_pairing_code env key st) = rs_metrics st" for key st
    by (simp add: forget_pairing_code_def delete_codes_def store_try_def)
  show ?thesis
    by (simp add: resolve_pairing_code_def resolve_lookup_def relay_bind_def Let_def split_beta
        lookup_code_def m forget_pairing_code_def [symmetric] split: option.split)
      (auto simp: forget_pairing_code_def)
qed

section \<open>Version and metrics\<close>

record version_response =
  relay_version :: rstr
  contract_version :: nat
  min_desktop_version :: rstr
  min_mobile_version :: rstr

definition build_version_response :: "rstr \<Rightarrow> version_response" where
  "build_version_response version = \<lparr>relay_version = version, contract_version = CONTRACT_VERSION,
     min_desktop_version = version, min_mobile_version = version\<rparr>"

end
