(* ===== verification/RelayInv.thy ===== *)
theory RelayInv
  imports Relay
begin

text \<open>
  The relay as a state machine: one step per request it serves, or per restart on its
  database.  First what each part of a handler leaves of the state, then the invariants and
  the properties of runs.
\<close>

section \<open>The machine\<close>

datatype relay_event =
    HttpPair rstr header_map bytes
  | HttpRegisterToken header_map bytes
  | HttpUnregisterToken header_map bytes
  | HttpPush header_map bytes
  | HttpPublish header_map bytes
  | HttpResolve rstr header_map rstr
  | RelayRestart

text \<open>
  A process that is started again with the same configuration loads its database, or starts
  empty without one.  Where loading fails nothing is served; the state is then the last one,
  with the rows the load has pruned.
\<close>

definition relay_restart :: "relay_crates \<Rightarrow> nat \<Rightarrow> relay_state \<Rightarrow> relay_state" where
  "relay_restart cr now st = (case rs_store st of
     None \<Rightarrow> relay_default\<lparr>rs_trust_forwarded_for := rs_trust_forwarded_for st,
       rs_prune_stale_daemons := rs_prune_stale_daemons st,
       rs_daemon_retention_ms := rs_daemon_retention_ms st,
       rs_registration_audience := rs_registration_audience st\<rparr>
   | Some db \<Rightarrow> (case open_sqlite_with_policy cr now (rs_prune_stale_daemons st)
         (rs_daemon_retention_ms st) (rs_registration_audience st) db of
       (db, Inl _) \<Rightarrow> st\<lparr>rs_store := Some db\<rparr>
     | (_, Inr st') \<Rightarrow> st'\<lparr>rs_trust_forwarded_for := rs_trust_forwarded_for st\<rparr>))"

fun relay_answer ::
    "relay_crates \<Rightarrow> relay_state \<Rightarrow> relay_env \<times> relay_event \<Rightarrow> relay_reply relay_result" where
  "relay_answer cr st (env, HttpPair peer h b) = register_daemon cr env peer h b st"
| "relay_answer cr st (env, HttpRegisterToken h b) = register_token cr env h b st"
| "relay_answer cr st (env, HttpUnregisterToken h b) = unregister_token cr env h b st"
| "relay_answer cr st (env, HttpPush h b) = push cr env h b st"
| "relay_answer cr st (env, HttpPublish h b) = publish_pairing_code cr env h b st"
| "relay_answer cr st (env, HttpResolve peer h c) = resolve_pairing_code env peer h c st"
| "relay_answer cr st (env, RelayRestart) = (relay_restart cr (t_entry env) st, Inr Okay)"

definition relay_step :: "relay_crates \<Rightarrow> relay_state \<Rightarrow> relay_env \<times> relay_event \<Rightarrow> relay_state" where
  "relay_step cr st e = fst (relay_answer cr st e)"

section \<open>Following a handler\<close>

lemma relay_bind_inv:
  assumes "P (fst r)" and "\<And>st a. r = (st, Inr a) \<Longrightarrow> P st \<Longrightarrow> P (fst (f st a))"
  shows "P (fst (relay_bind r f))"
proof (cases r)
  case (Pair st v)
  with assms show ?thesis by (cases v) (auto simp: relay_bind_def)
qed

lemma relay_bind_Inr: "relay_bind r f = (st', Inr b) \<longleftrightarrow> (\<exists>st a. r = (st, Inr a) \<and> f st a = (st', Inr b))"
  by (cases r; cases "snd r") (auto simp: relay_bind_def)

lemma relay_bind_simps [simp]:
  "relay_bind (st, Inl e) f = (st, Inl e)" "relay_bind (st, Inr a) f = f st a"
  by (simp_all add: relay_bind_def)

lemma fst_fail_internal [simp]:
  "fst (fail_internal st) = st\<lparr>rs_error_sequence := wrap_add64 (rs_error_sequence st) 1\<rparr>"
  by (simp add: fail_internal_def)

section \<open>What a verified request leaves\<close>

lemma prune_registered:
  assumes "tbl_ok (rs_daemons st)"
    and "registered_key (maybe_prune_expired_relay_state ok now st) d = Some key"
  shows "registered_key st d = Some key"
  using assms by (auto simp: registered_key_def maybe_prune_expired_relay_state_def
      prune_expired_relay_state_def prune_memory_def store_try_def Let_def tbl_get_retain
      split: if_splits)

lemma registered_key_frame [simp]:
  "registered_key (st\<lparr>rs_seen_nonces := x1\<rparr>) = registered_key st"
  "registered_key (st\<lparr>rs_store := x2\<rparr>) = registered_key st"
  "registered_key (st\<lparr>rs_metrics := x3\<rparr>) = registered_key st"
  "registered_key (st\<lparr>rs_error_sequence := x4\<rparr>) = registered_key st"
  "registered_key (st\<lparr>rs_tokens := x5\<rparr>) = registered_key st"
  "registered_key (st\<lparr>rs_pairing_codes := x6\<rparr>) = registered_key st"
  "registered_key (st\<lparr>rs_rate_limits := x7\<rparr>) = registered_key st"
  "registered_key (st\<lparr>rs_resolve_rate_limits := x8\<rparr>) = registered_key st"
  "registered_key (st\<lparr>rs_register_rate_limits := x9\<rparr>) = registered_key st"
  "registered_key (st\<lparr>rs_token_register_rate_limits := x10\<rparr>) = registered_key st"
  by (simp_all add: registered_key_def fun_eq_iff)

lemma touch_registered [simp]: "registered_key (touch_daemon env d key st) = registered_key st"
proof
  fix j
  show "registered_key (touch_daemon env d key st) j = registered_key st j"
    by (cases "tbl_get (rs_daemons st) j"; cases "j = d")
      (auto simp: registered_key_def touch_daemon_def tbl_get_update)
qed

lemma check_signature_Inr:
  "check_signature cr st r = Inr key \<longleftrightarrow> registered_key st (sr_daemon_node_id r) = Some key \<and>
    (\<exists>header version encoded signature.
      header_str (sr_headers r) SIGNATURE_HEADER = Some header \<and>
      split_signature_header header = Some (version, encoded) \<and>
      decode_signature cr encoded = Inr signature \<and>
      ed_verify cr key (signed_text cr (rs_registration_audience st) version r) signature)"
  by (auto simp: check_signature_def split: option.splits sum.splits prod.splits if_splits)

lemma admit_Inr:
  assumes "admit_request env st r key pre = (st', Inr ())"
  obtains st1 st2 where "registered_key st (sr_daemon_node_id r) = Some key"
    and "pre st = (st1, Inr ())"
    and "map_of (rs_seen_nonces st1) (sr_daemon_node_id r, sr_nonce r) = None"
    and "st2 = st1\<lparr>rs_seen_nonces :=
      AList.update (sr_daemon_node_id r, sr_nonce r) (sr_ts_ms r) (rs_seen_nonces st1)\<rparr>"
    and "rs_store st1 = None \<and> st' = touch_daemon env (sr_daemon_node_id r) key st2 \<or>
      (\<exists>db db'. rs_store st1 = Some db \<and> db_ok env CallActivity \<and>
        record_authenticated_activity (sr_daemon_node_id r) (sr_nonce r) (sr_ts_ms r)
          (t_verify env) db = (db', True) \<and>
        st' = touch_daemon env (sr_daemon_node_id r) key (st2\<lparr>rs_store := Some db'\<rparr>))"
proof -
  have key: "registered_key st (sr_daemon_node_id r) = Some key"
    using assms by (auto simp: admit_request_def split: if_splits)
  obtain st1 where pre: "pre st = (st1, Inr ())"
    using assms key by (cases "pre st"; cases "snd (pre st)") (auto simp: admit_request_def)
  obtain db' ins where rec: "\<And>db. rs_store st1 = Some db \<Longrightarrow> record_authenticated_activity
      (sr_daemon_node_id r) (sr_nonce r) (sr_ts_ms r) (t_verify env) db = (db', ins)"
    by (cases "rs_store st1") (auto, metis prod.exhaust)
  show thesis
    by (rule that [OF key pre _ refl]; use assms key pre rec in \<open>cases "rs_store st1"\<close>)
      (auto simp: admit_request_def Let_def fail_internal_def split: if_splits)
qed

lemma verify_Inr:
  assumes "verify_signed_request_with_pre_nonce_check cr env st r pre = (st', Inr ())"
  obtains key where "abs_diff (t_verify env) (sr_ts_ms r) \<le> CLOCK_SKEW_MS"
    and "check_signature cr (maybe_prune_expired_relay_state (db_ok env CallPrune) (t_verify env) st) r
      = Inr key"
    and "admit_request env (maybe_prune_expired_relay_state (db_ok env CallPrune) (t_verify env) st)
      r key pre = (st', Inr ())"
  using assms by (auto simp: verify_signed_request_with_pre_nonce_check_def Let_def
      split: if_splits sum.splits)

lemma admit_registered:
  assumes "admit_request env st r key pre = (st', Inr ())"
    and "\<And>st. registered_key (fst (pre st)) = registered_key st"
  shows "registered_key st' = registered_key st"
  by (rule admit_Inr [OF assms(1)]) (use assms(2) [of st] in auto)

text \<open>After it the daemon is registered, and no key is new.\<close>

lemma verify_registered:
  assumes "verify_signed_request_with_pre_nonce_check cr env st r pre = (st', Inr u)"
    and "\<And>st. registered_key (fst (pre st)) = registered_key st" and "tbl_ok (rs_daemons st)"
  shows "registered_key st' (sr_daemon_node_id r) \<noteq> None \<and>
    (registered_key st' d = Some k \<longrightarrow> registered_key st d = Some k)"
proof -
  have v: "verify_signed_request_with_pre_nonce_check cr env st r pre = (st', Inr ())"
    using assms(1) by simp
  from verify_Inr [OF v] obtain key where
    sig: "check_signature cr (maybe_prune_expired_relay_state (db_ok env CallPrune)
      (t_verify env) st) r = Inr key"
    and adm: "admit_request env (maybe_prune_expired_relay_state (db_ok env CallPrune)
      (t_verify env) st) r key pre = (st', Inr ())" by blast
  show ?thesis
    using sig admit_registered [OF adm assms(2)] prune_registered [OF assms(3)]
    by (auto simp: check_signature_Inr)
qed

text \<open>What the first half of a registration hands to the second.\<close>

lemma authorize_Inr:
  assumes "authorize_registration cr env st h b request key = (st', Inr existing)"
    and "tbl_ok (rs_daemons st)"
  shows "existing = tbl_get (rs_daemons st) (rd_daemon_node_id request) \<and>
    (existing = None \<longleftrightarrow> tbl_get (rs_daemons st') (rd_daemon_node_id request) = None) \<and>
    map_option dr_public_key existing = registered_key st' (rd_daemon_node_id request)"
proof (cases "\<exists>r. tbl_get (rs_daemons st) (rd_daemon_node_id request) = Some r \<and> dr_public_key r \<noteq> key")
  case False
  with assms(1) show ?thesis
    by (auto simp: authorize_registration_def Let_def registered_key_def split: if_splits option.splits)
next
  case True
  then obtain r where r: "tbl_get (rs_daemons st) (rd_daemon_node_id request) = Some r"
    "dr_public_key r \<noteq> key" by blast
  with assms(1) obtain nonce ts st1 where
    v: "verify_signed_request cr env st (signed_post (lit ''/v1/pair'') b h
      (rd_daemon_node_id request) nonce ts) = (st1, Inr ())"
    and st': "st' = st1" "existing = Some r"
    by (auto simp: authorize_registration_def Let_def relay_bind_Inr
        split: if_splits option.splits)
  have "registered_key st1 (rd_daemon_node_id request) = Some (dr_public_key r)"
    using verify_registered [OF v [unfolded verify_signed_request_def] _ assms(2)] r
    by (fastforce simp: signed_post_def registered_key_def)
  with r st' show ?thesis
    by (auto simp: registered_key_def)
qed

lemma decode_public_key_Inr:
  "decode_public_key cr v = Inr key \<longleftrightarrow> b64_decode cr v = Some key \<and> length key = 32 \<and> point_ok cr key"
  by (auto simp: decode_public_key_def split: option.splits)

definition registers :: "relay_crates \<Rightarrow> relay_event \<Rightarrow> (rstr \<times> bytes) option" where
  "registers cr ev = (case ev of
     HttpPair peer h b \<Rightarrow>
       (case parse_validated cr (json_register_daemon cr) validate_register_daemon b of
          Inl _ \<Rightarrow> None
        | Inr request \<Rightarrow> (case decode_public_key cr (rd_public_key request) of
            Inl _ \<Rightarrow> None | Inr key \<Rightarrow> Some (rd_daemon_node_id request, key)))
   | _ \<Rightarrow> None)"

definition publishes :: "relay_crates \<Rightarrow> relay_event \<Rightarrow> (rstr \<times> pairing_code_entry) option" where
  "publishes cr ev = (case ev of
     HttpPublish h b \<Rightarrow> (case parse_pairing_publish cr b of
         Inl _ \<Rightarrow> None
       | Inr request \<Rightarrow> (case publish_entry request of Inl _ \<Rightarrow> None | Inr e \<Rightarrow> Some e))
   | _ \<Rightarrow> None)"

lemma publish_entry_daemon:
  "publish_entry request = Inr (key, entry) \<Longrightarrow>
    ce_daemon_node_id entry = fst (publish_credentials request)"
  by (auto simp: publish_entry_def publish_credentials_def Let_def
      split: publish_pairing_request.splits if_splits sum.splits)

lemma delete_codes_inv:
  assumes "P st" and "\<And>st code. P st \<Longrightarrow> code \<in> set codes \<Longrightarrow>
    P (store_try (db_ok env (CallDeleteCode code)) (delete_pairing_code code) st)"
  shows "P (delete_codes env codes st)"
  using assms unfolding delete_codes_def by (induction codes arbitrary: st) simp_all

text \<open>The signed request a call has to verify before anything else.\<close>

definition event_request :: "relay_crates \<Rightarrow> relay_event \<Rightarrow> signed_request option" where
  "event_request cr ev = (case ev of
     HttpRegisterToken h b \<Rightarrow>
       (case parse_validated cr (json_register_token cr) validate_register_token b of
          Inl _ \<Rightarrow> None
        | Inr r \<Rightarrow> Some (signed_post (lit ''/v1/push/register-token'') b h (rt_daemon_node_id r)
            (rt_nonce r) (rt_ts_ms r)))
   | HttpUnregisterToken h b \<Rightarrow>
       (case parse_validated cr (json_unregister_token cr) validate_unregister_token b of
          Inl _ \<Rightarrow> None
        | Inr r \<Rightarrow> Some (signed_post (lit ''/v1/push/unregister-token'') b h (ut_daemon_node_id r)
            (ut_nonce r) (ut_ts_ms r)))
   | HttpPush h b \<Rightarrow> (case parse_validated cr (json_push cr) validate_push b of
          Inl _ \<Rightarrow> None
        | Inr r \<Rightarrow> Some (signed_post (lit ''/v1/push'') b h (ph_daemon_node_id r)
            (ph_nonce r) (ph_ts_ms r)))
   | HttpPublish h b \<Rightarrow> (case parse_pairing_publish cr b of
          Inl _ \<Rightarrow> None
        | Inr r \<Rightarrow> (let (d, n, ts) = publish_credentials r in
            Some (signed_post (lit ''/v1/pair/publish'') b h d n ts)))
   | _ \<Rightarrow> None)"

definition pre_check :: "relay_env \<Rightarrow> relay_event \<Rightarrow> rstr \<Rightarrow> relay_state \<Rightarrow> unit relay_result" where
  "pre_check env ev d = (case ev of HttpRegisterToken h b \<Rightarrow> check_register_token_rate_limit env d
     | _ \<Rightarrow> (\<lambda>st. (st, Inr ())))"

lemma pre_check_frame: "\<exists>l. fst (pre_check env ev d st) = st\<lparr>rs_token_register_rate_limits := l\<rparr>"
proof (cases ev)
  case (HttpRegisterToken h b)
  then show ?thesis
    by (auto simp: pre_check_def check_register_token_rate_limit_def Let_def split_beta)
qed (auto simp: pre_check_def intro: exI [of _ "rs_token_register_rate_limits st"])

lemma pre_check_registered: "registered_key (fst (pre_check env ev d st)) = registered_key st"
  using pre_check_frame [of env ev d st] by auto

text \<open>A call that succeeds has verified its request.\<close>

lemma answer_verified:
  assumes "event_request cr ev = Some r" and "relay_answer cr st (env, ev) = (st1, Inr reply)"
  obtains st0 where "verify_signed_request_with_pre_nonce_check cr env st r
    (pre_check env ev (sr_daemon_node_id r)) = (st0, Inr ())"
proof (cases ev)
  case (HttpRegisterToken h b)
  with assms that show ?thesis
    by (cases "parse_validated cr (json_register_token cr) validate_register_token b")
      (auto simp: event_request_def register_token_def pre_check_def signed_post_def
        dest!: relay_bind_Inr [THEN iffD1])
next
  case (HttpUnregisterToken h b)
  with assms that show ?thesis
    by (cases "parse_validated cr (json_unregister_token cr) validate_unregister_token b")
      (auto simp: event_request_def unregister_token_def pre_check_def verify_signed_request_def
        dest!: relay_bind_Inr [THEN iffD1])
next
  case (HttpPush h b)
  with assms that show ?thesis
    by (cases "parse_validated cr (json_push cr) validate_push b")
      (auto simp: event_request_def push_def pre_check_def verify_signed_request_def
        dest!: relay_bind_Inr [THEN iffD1])
next
  case (HttpPublish h b)
  with assms that show ?thesis
    by (cases "parse_pairing_publish cr b")
      (auto simp: event_request_def publish_pairing_code_def pre_check_def
        verify_signed_request_def split_beta dest!: relay_bind_Inr [THEN iffD1])
qed (use assms in \<open>auto simp: event_request_def\<close>)

text \<open>
  The interface between the handlers and the invariants: a predicate that every change a
  handler makes to the state keeps is kept by every handler.  An assumption names a change
  and may use what the handler has checked before it.  \<open>code_ok\<close> restricts the codes that
  are published, \<open>reg_ok\<close> the keys that are registered.
\<close>

locale relay_kept =
  fixes cr :: relay_crates and env :: relay_env
    and code_ok :: "rstr \<Rightarrow> pairing_code_entry \<Rightarrow> bool"
    and reg_ok :: "rstr \<Rightarrow> bytes \<Rightarrow> bool"
    and P :: "relay_state \<Rightarrow> bool"
  assumes kept_ok: "P st \<Longrightarrow> tbl_ok (rs_daemons st)"
    and kept_metrics: "P st \<Longrightarrow> P (st\<lparr>rs_metrics := mt\<rparr>)"
    and kept_sequence: "P st \<Longrightarrow> P (st\<lparr>rs_error_sequence := k\<rparr>)"
    and kept_limits: "P st \<Longrightarrow> P (st\<lparr>rs_rate_limits := l\<rparr>)"
      "P st \<Longrightarrow> P (st\<lparr>rs_resolve_rate_limits := l\<rparr>)"
      "P st \<Longrightarrow> P (st\<lparr>rs_register_rate_limits := l\<rparr>)"
      "P st \<Longrightarrow> P (st\<lparr>rs_token_register_rate_limits := l\<rparr>)"
    and kept_prune: "P st \<Longrightarrow> now = t_proof env \<and> ok = db_ok env CallProofPrune \<or>
        now = t_verify env \<and> ok = db_ok env CallPrune \<Longrightarrow>
      P (maybe_prune_expired_relay_state ok now st)"
    and kept_nonce: "P st \<Longrightarrow> P (st\<lparr>rs_seen_nonces := AList.update nk t (rs_seen_nonces st)\<rparr>)"
    and kept_insert_nonce: "P st \<Longrightarrow> rs_store st = Some db \<Longrightarrow>
      P (st\<lparr>rs_store := Some (fst (insert_nonce d n t db))\<rparr>)"
    and kept_activity: "P st \<Longrightarrow> rs_store st = Some db \<Longrightarrow> registered_key st d = Some key \<Longrightarrow>
      record_authenticated_activity d n t (t_verify env) db = (db', True) \<Longrightarrow>
      P (touch_daemon env d key (st\<lparr>rs_store := Some db'\<rparr>))"
    and kept_touch: "P st \<Longrightarrow> rs_store st = None \<Longrightarrow> registered_key st d = Some key \<Longrightarrow>
      P (touch_daemon env d key st)"
    and kept_commit: "P st \<Longrightarrow> reg_ok d key \<Longrightarrow> length key = 32 \<Longrightarrow> point_ok cr key \<Longrightarrow>
      existing = None \<longleftrightarrow> tbl_get (rs_daemons st) d = None \<Longrightarrow>
      map_option dr_public_key existing = registered_key st d \<Longrightarrow>
      P (fst (commit_registration env st d key existing))"
    and kept_remove_token: "P st \<Longrightarrow>
      store_call (db_ok env CallRemoveToken) (remove_token tk) st = (st', Inr ()) \<Longrightarrow>
      P (st'\<lparr>rs_tokens := tbl_remove tk (rs_tokens st')\<rparr>)"
    and kept_touch_token: "P st \<Longrightarrow>
      store_call (db_ok env CallTouchToken) (touch_token tk (t_done env)) st = (st', Inr ()) \<Longrightarrow>
      P (st'\<lparr>rs_tokens := tbl_update tk (\<lambda>w. w\<lparr>tk_updated_at_ms := t_done env\<rparr>) (rs_tokens st')\<rparr>)"
    and kept_save_token: "P st \<Longrightarrow> registered_key st d \<noteq> None \<Longrightarrow>
      store_call (db_ok env CallSaveToken) (save_token tk d pf (t_done env)) st = (st', Inr ()) \<Longrightarrow>
      P (st'\<lparr>rs_tokens := tbl_insert tk \<lparr>tk_daemon_node_id = d, tk_platform = pf,
        tk_updated_at_ms = t_done env\<rparr> (rs_tokens st')\<rparr>)"
    and kept_store_code: "P st \<Longrightarrow> registered_key st (ce_daemon_node_id entry) \<noteq> None \<Longrightarrow>
      code_ok code entry \<Longrightarrow> P (fst (store_code cr env st code entry))"
    and kept_forget: "P st \<Longrightarrow> P (forget_pairing_code env code st)"
begin

lemma kept_store_call:
  assumes "P st" and "\<And>st'. store_call ok f st = (st', Inr ()) \<Longrightarrow> P (g st')"
  shows "P (fst (relay_bind (store_call ok f st) (\<lambda>st' _. (g st', r))))"
  using assms by (cases "rs_store st"; cases ok)
    (auto simp: store_call_def relay_bind_def fail_internal_def intro: kept_sequence)

lemma kept_remove_binding: "P st \<Longrightarrow> P (fst (remove_push_token_binding env tk st))"
  unfolding remove_push_token_binding_def
  by (rule kept_store_call) (assumption | rule kept_metrics kept_remove_token)+

lemma kept_touch_binding: "P st \<Longrightarrow> P (fst (touch_push_token_binding env tk st))"
  unfolding touch_push_token_binding_def
  by (rule kept_store_call) (assumption | rule kept_touch_token)+

lemma kept_store_binding:
  "P st \<Longrightarrow> registered_key st (rt_daemon_node_id rq) \<noteq> None \<Longrightarrow>
    P (fst (store_token_binding env st rq))"
  unfolding store_token_binding_def
  by (rule kept_store_call) (assumption | rule kept_metrics kept_save_token)+

lemma kept_token_limit: "P st \<Longrightarrow> P (fst (check_register_token_rate_limit env d st))"
  by (simp add: check_register_token_rate_limit_def increment_def Let_def kept_limits)

text \<open>The signed part of a handler; afterwards the daemon is registered.\<close>

lemma kept_admit:
  assumes "P st" and pre: "\<And>st. P st \<Longrightarrow> P (fst (pre st))"
    and frame: "\<And>st. registered_key (fst (pre st)) = registered_key st"
  shows "P (fst (admit_request env st r key pre))"
proof (cases "registered_key st (sr_daemon_node_id r) = Some key")
  case True
  obtain st1 v where pst: "pre st = (st1, v)" by (cases "pre st")
  have st1: "P st1" "registered_key st1 (sr_daemon_node_id r) = Some key"
    using pre [OF assms(1)] frame [of st] pst True by auto
  define st2 where "st2 = st1\<lparr>rs_seen_nonces :=
    AList.update (sr_daemon_node_id r, sr_nonce r) (sr_ts_ms r) (rs_seen_nonces st1)\<rparr>"
  have st2: "P st2" "registered_key st2 (sr_daemon_node_id r) = Some key" "rs_store st2 = rs_store st1"
    using st1 kept_nonce by (auto simp: st2_def registered_key_def)
  show ?thesis
  proof (cases v)
    case (Inl e)
    with True pst st1 show ?thesis by (simp add: admit_request_def)
  next
    case (Inr u)
    show ?thesis
    proof (cases "rs_store st1")
      case None
      with True pst Inr st2 kept_touch [OF st2(1)] show ?thesis
        by (simp add: admit_request_def Let_def st2_def [symmetric])
    next
      case (Some db)
      obtain db' ins where rec: "record_authenticated_activity (sr_daemon_node_id r)
          (sr_nonce r) (sr_ts_ms r) (t_verify env) db = (db', ins)" by fastforce
      have same: "st2\<lparr>rs_store := Some db'\<rparr> = st2" if "\<not> ins"
        using rec that Some st2(3) by (auto simp: record_authenticated_activity_def insert_nonce_def
            split: if_splits)
      show ?thesis
      proof (cases ins)
        case True
        then have "P (touch_daemon env (sr_daemon_node_id r) key (st2\<lparr>rs_store := Some db'\<rparr>))"
          using kept_activity [OF st2(1) _ st2(2)] rec Some st2(3) by simp
        with True \<open>registered_key st _ = Some key\<close> pst Inr st2 Some rec kept_sequence [OF st2(1)]
        show ?thesis
          by (simp add: admit_request_def Let_def st2_def [symmetric])
      next
        case False
        with \<open>registered_key st _ = Some key\<close> pst Inr st2 Some rec kept_sequence [OF st2(1)] same
        show ?thesis
          by (simp add: admit_request_def Let_def st2_def [symmetric])
      qed
    qed
  qed
qed (simp add: admit_request_def assms(1))

lemma kept_verify:
  assumes "P st" and "\<And>st. P st \<Longrightarrow> P (fst (pre st))"
    and "\<And>st. registered_key (fst (pre st)) = registered_key st"
  shows "P (fst (verify_signed_request_with_pre_nonce_check cr env st r pre))"
proof -
  have "P (maybe_prune_expired_relay_state (db_ok env CallPrune) (t_verify env) st)"
    by (rule kept_prune [OF assms(1)]) simp
  then show ?thesis
    unfolding verify_signed_request_with_pre_nonce_check_def Let_def
    by (auto split: sum.split intro: assms(1) kept_admit [OF _ assms(2,3)])
qed

lemma kept_verify_plain: "P st \<Longrightarrow> P (fst (verify_signed_request cr env st r))"
  unfolding verify_signed_request_def by (rule kept_verify) auto

lemma kept_proof: "P st \<Longrightarrow> P (fst (verify_registration_proof cr env st d key proof))"
proof -
  assume "P st"
  define st1 where
    "st1 = maybe_prune_expired_relay_state (db_ok env CallProofPrune) (t_proof env) st"
  define st2 where "st2 = st1\<lparr>rs_seen_nonces :=
    AList.update (d, rp_nonce proof) (rp_ts_ms proof) (rs_seen_nonces st1)\<rparr>"
  have "P st1"
    unfolding st1_def by (rule kept_prune [OF \<open>P st\<close>]) simp
  moreover from this have "P st2"
    unfolding st2_def by (rule kept_nonce)
  moreover have "rs_store st2 = rs_store st1" by (simp add: st2_def)
  ultimately show ?thesis
    using \<open>P st\<close> kept_insert_nonce [of st2] kept_sequence [of st2]
    by (cases "rs_store st1"; cases "check_proof cr d key (rs_registration_audience st1) proof")
      (simp_all add: verify_registration_proof_def Let_def split_beta st1_def [symmetric]
        st2_def [symmetric])
qed

lemma kept_authorize:
  "P st \<Longrightarrow> P (fst (authorize_registration cr env st h b request key))"
  unfolding authorize_registration_def Let_def
  by (auto split: option.split intro!: relay_bind_inv [where P = P] kept_verify_plain)

lemma kept_register_daemon:
  assumes "P st" and reg: "\<And>d key. registers cr (HttpPair peer h b) = Some (d, key) \<Longrightarrow> reg_ok d key"
  shows "P (fst (register_daemon cr env peer h b st))"
proof -
  define st0 where "st0 = st\<lparr>rs_register_rate_limits := fst (increment
    (client_identifier peer h (rs_trust_forwarded_for st)) (t_entry env div 60000)
    (rs_register_rate_limits st))\<rparr>"
  have st0: "P st0" using assms(1) by (simp add: st0_def kept_limits)
  have rest: "P (fst (relay_bind (case rd_proof request of None \<Rightarrow> (st0, Inr ())
        | Some proof \<Rightarrow> verify_registration_proof cr env st0 (rd_daemon_node_id request) key proof)
      (\<lambda>st _. relay_bind (authorize_registration cr env st h b request key)
        (\<lambda>st existing. commit_registration env st (rd_daemon_node_id request) key existing))))"
    if "length key = 32" "point_ok cr key" "reg_ok (rd_daemon_node_id request) key" for request key
  proof (rule relay_bind_inv [where P = P])
    show "P (fst (case rd_proof request of None \<Rightarrow> (st0, Inr ())
        | Some proof \<Rightarrow> verify_registration_proof cr env st0 (rd_daemon_node_id request) key proof))"
      using st0 by (auto split: option.split intro: kept_proof)
  next
    fix st1 :: relay_state and u :: unit
    assume "P st1"
    show "P (fst (relay_bind (authorize_registration cr env st1 h b request key)
        (\<lambda>st existing. commit_registration env st (rd_daemon_node_id request) key existing)))"
    proof (rule relay_bind_inv [where P = P])
      show "P (fst (authorize_registration cr env st1 h b request key))"
        by (rule kept_authorize [OF \<open>P st1\<close>])
    next
      fix st2 existing
      assume a: "authorize_registration cr env st1 h b request key = (st2, Inr existing)" and "P st2"
      from authorize_Inr [OF a kept_ok [OF \<open>P st1\<close>]] that
      show "P (fst (commit_registration env st2 (rd_daemon_node_id request) key existing))"
        by (intro kept_commit [OF \<open>P st2\<close>]) auto
    qed
  qed
  show ?thesis
    unfolding register_daemon_def Let_def split_beta st0_def [symmetric]
    using reg by (auto split: sum.split simp: st0 registers_def intro!: rest
        dest: decode_public_key_Inr [THEN iffD1])
qed

lemma kept_register_token: "P st \<Longrightarrow> P (fst (register_token cr env h b st))"
proof -
  assume st: "P st"
  have "P (fst (relay_bind (verify_signed_request_with_pre_nonce_check cr env st r
        (check_register_token_rate_limit env d)) (\<lambda>st _. relay_bind
          (case token_evicted_by_cap st d tk of None \<Rightarrow> (st, Inr ())
           | Some evicted \<Rightarrow> remove_push_token_binding env evicted st)
          (\<lambda>st _. store_token_binding env st request))))"
    if d: "sr_daemon_node_id r = d" "rt_daemon_node_id request = d" for r d tk request
  proof (rule relay_bind_inv [where P = P])
    have frame: "registered_key (fst (check_register_token_rate_limit env d s)) = registered_key s" for s
      by (simp add: check_register_token_rate_limit_def Let_def split_beta)
    show "P (fst (verify_signed_request_with_pre_nonce_check cr env st r
        (check_register_token_rate_limit env d)))"
      by (rule kept_verify [OF st kept_token_limit frame])
    fix st1 u
    assume v: "verify_signed_request_with_pre_nonce_check cr env st r
        (check_register_token_rate_limit env d) = (st1, Inr u)" and "P st1"
    have reg: "registered_key st1 d \<noteq> None"
      using verify_registered [OF v frame kept_ok [OF st]] d by blast
    show "P (fst (relay_bind
          (case token_evicted_by_cap st1 d tk of None \<Rightarrow> (st1, Inr ())
           | Some evicted \<Rightarrow> remove_push_token_binding env evicted st1)
          (\<lambda>st _. store_token_binding env st request)))"
    proof (rule relay_bind_inv [where P = P])
      show "P (fst (case token_evicted_by_cap st1 d tk of None \<Rightarrow> (st1, Inr ())
           | Some evicted \<Rightarrow> remove_push_token_binding env evicted st1))"
        using \<open>P st1\<close> by (auto split: option.split intro: kept_remove_binding)
    next
      fix st2 u
      assume e: "(case token_evicted_by_cap st1 d tk of None \<Rightarrow> (st1, Inr ())
           | Some evicted \<Rightarrow> remove_push_token_binding env evicted st1) = (st2, Inr u)" and "P st2"
      then have "registered_key st2 = registered_key st1"
        by (auto simp: remove_push_token_binding_def relay_bind_Inr store_call_def fail_internal_def
            split: option.splits if_splits)
      with reg d show "P (fst (store_token_binding env st2 request))"
        by (intro kept_store_binding [OF \<open>P st2\<close>]) simp
    qed
  qed
  then show ?thesis
    unfolding register_token_def
    using st by (auto split: sum.split simp: signed_post_def)
qed

lemma kept_unregister_token: "P st \<Longrightarrow> P (fst (unregister_token cr env h b st))"
  unfolding unregister_token_def
  by (auto split: sum.split intro!: relay_bind_inv [where P = P] kept_verify_plain kept_remove_binding)

lemma kept_deliver: "P st \<Longrightarrow> P (fst (deliver_push env st dl))"
  unfolding deliver_push_def
  by (auto split: option.split intro!: relay_bind_inv [where P = P] kept_remove_binding
      kept_touch_binding kept_metrics)

lemma kept_push: "P st \<Longrightarrow> P (fst (push cr env h b st))"
  unfolding push_def Let_def split_beta
  by (auto split: sum.split bool.split intro!: relay_bind_inv [where P = P] kept_verify_plain
      kept_remove_binding kept_deliver kept_limits)

lemma kept_publish:
  assumes "P st" and "\<And>code entry. publishes cr (HttpPublish h b) = Some (code, entry) \<Longrightarrow> code_ok code entry"
  shows "P (fst (publish_pairing_code cr env h b st))"
proof (cases "parse_pairing_publish cr b")
  case (Inl e)
  then show ?thesis using assms(1) by (simp add: publish_pairing_code_def)
next
  case (Inr request)
  obtain d nonce ts where cred: "publish_credentials request = (d, nonce, ts)"
    by (metis prod_cases3)
  let ?r = "signed_post (lit ''/v1/pair/publish'') b h d nonce ts"
  show ?thesis
    unfolding publish_pairing_code_def Inr sum.case Let_def cred prod.case
  proof (rule relay_bind_inv [where P = P])
    show "P (fst (verify_signed_request cr env st ?r))" by (rule kept_verify_plain [OF assms(1)])
    fix st1 u
    assume v: "verify_signed_request cr env st ?r = (st1, Inr u)" and st1: "P st1"
    have reg: "registered_key st1 d \<noteq> None"
      using verify_registered [OF _ _ kept_ok [OF assms(1)], of cr env ?r "\<lambda>st. (st, Inr ())" st1] v
      by (simp add: verify_signed_request_def signed_post_def)
    show "P (fst (case publish_entry request of Inl e \<Rightarrow> (st1, Inl e)
        | Inr (key, entry) \<Rightarrow> if ce_expires_at_ms entry \<le> t_check env
          then (st1, Inl (bad_request (lit ''pairing rendezvous is already expired at publish time'')))
          else store_code cr env st1 key entry))"
      using st1 reg Inr cred publish_entry_daemon [of request] assms(2)
      by (auto split: sum.split intro!: kept_store_code simp: publishes_def)
  qed
qed

lemma kept_resolve: "P st \<Longrightarrow> P (fst (resolve_pairing_code env peer h c st))"
  unfolding resolve_pairing_code_alt Let_def split_beta
  by (auto split: option.split intro!: kept_forget kept_limits kept_metrics)

text \<open>What follows the verification keeps the predicate on its own.\<close>

lemma kept_after_verify:
  assumes req: "event_request cr ev = Some r"
    and ans: "relay_answer cr st (env, ev) = (st1, Inr reply)"
    and ver: "verify_signed_request_with_pre_nonce_check cr env st r
      (pre_check env ev (sr_daemon_node_id r)) = (st0, Inr ())"
    and ok: "tbl_ok (rs_daemons st)" and st0: "P st0"
    and codes: "\<And>code entry. publishes cr ev = Some (code, entry) \<Longrightarrow> code_ok code entry"
  shows "P st1"
proof -
  have reg: "registered_key st0 (sr_daemon_node_id r) \<noteq> None"
    using verify_registered [OF ver pre_check_registered ok] by blast
  have fst1: "P (fst (relay_answer cr st (env, ev))) \<Longrightarrow> P st1"
    using ans by simp
  show ?thesis
  proof (cases ev)
    case (HttpRegisterToken h b)
    then obtain rq where p: "parse_validated cr (json_register_token cr) validate_register_token b = Inr rq"
      and r: "r = signed_post (lit ''/v1/push/register-token'') b h (rt_daemon_node_id rq)
        (rt_nonce rq) (rt_ts_ms rq)"
      using req by (auto simp: event_request_def split: sum.splits)
    define ev0 where "ev0 = (case token_evicted_by_cap st0 (rt_daemon_node_id rq) (rt_push_token rq) of
      None \<Rightarrow> (st0, Inr ()) | Some evicted \<Rightarrow> remove_push_token_binding env evicted st0)"
    have v: "verify_signed_request_with_pre_nonce_check cr env st r
        (check_register_token_rate_limit env (rt_daemon_node_id rq)) = (st0, Inr ())"
      using ver HttpRegisterToken r by (simp add: pre_check_def signed_post_def)
    have "P (fst ev0)"
      using st0 by (auto simp: ev0_def split: option.split intro: kept_remove_binding)
    moreover have "registered_key (fst ev0) = registered_key st0"
      by (auto simp: ev0_def remove_push_token_binding_def relay_bind_def store_call_def
          fail_internal_def split: option.split)
    ultimately have "P (fst (relay_bind ev0 (\<lambda>st _. store_token_binding env st rq)))"
      using reg r by (intro relay_bind_inv [where P = P] kept_store_binding)
        (auto simp: signed_post_def)
    then show ?thesis
      using HttpRegisterToken p r v by (intro fst1) (simp add: register_token_def ev0_def)
  next
    case (HttpUnregisterToken h b)
    then obtain rq where p: "parse_validated cr (json_unregister_token cr) validate_unregister_token b = Inr rq"
      and r: "r = signed_post (lit ''/v1/push/unregister-token'') b h (ut_daemon_node_id rq)
        (ut_nonce rq) (ut_ts_ms rq)"
      using req by (auto simp: event_request_def split: sum.splits)
    have "P (fst (relay_bind (remove_push_token_binding env (ut_push_token rq) st0)
        (\<lambda>st _. (st, Inr Okay))))"
      by (rule relay_bind_inv [where P = P]) (simp_all add: kept_remove_binding st0)
    then show ?thesis
      using HttpUnregisterToken p r ver
      by (intro fst1) (simp add: unregister_token_def pre_check_def verify_signed_request_def)
  next
    case (HttpPush h b)
    then obtain rq where p: "parse_validated cr (json_push cr) validate_push b = Inr rq"
      and r: "r = signed_post (lit ''/v1/push'') b h (ph_daemon_node_id rq) (ph_nonce rq) (ph_ts_ms rq)"
      using req by (auto simp: event_request_def split: sum.splits)
    show ?thesis
      using HttpPush p r ver st0
      by (intro fst1) (auto simp: push_def pre_check_def verify_signed_request_def Let_def split_beta
          split: sum.split bool.split
          intro!: relay_bind_inv [where P = P] kept_remove_binding kept_deliver kept_limits)
  next
    case (HttpPublish h b)
    then obtain rq d n ts where p: "parse_pairing_publish cr b = Inr rq"
      and c: "publish_credentials rq = (d, n, ts)"
      and r: "r = signed_post (lit ''/v1/pair/publish'') b h d n ts"
      using req by (auto simp: event_request_def split: sum.splits prod.splits)
    have "P (fst (case publish_entry rq of Inl e \<Rightarrow> (st0, Inl e)
        | Inr (key, entry) \<Rightarrow> if ce_expires_at_ms entry \<le> t_check env
          then (st0, Inl (bad_request (lit ''pairing rendezvous is already expired at publish time'')))
          else store_code cr env st0 key entry))"
      using st0 reg r c p HttpPublish publish_entry_daemon [of rq] codes
      by (auto split: sum.split intro!: kept_store_code simp: publishes_def signed_post_def)
    then show ?thesis
      using HttpPublish p r c ver
      by (intro fst1) (simp add: publish_pairing_code_def pre_check_def verify_signed_request_def)
  qed (use req in \<open>auto simp: event_request_def\<close>)
qed

theorem kept_answer:
  assumes "P st" and "ev \<noteq> RelayRestart"
    and "\<And>code entry. publishes cr ev = Some (code, entry) \<Longrightarrow> code_ok code entry"
    and "\<And>d key. registers cr ev = Some (d, key) \<Longrightarrow> reg_ok d key"
  shows "P (relay_step cr st (env, ev))"
  using assms by (cases ev)
    (auto simp: relay_step_def intro: kept_register_daemon kept_register_token kept_unregister_token
      kept_push kept_resolve kept_publish)

end

section \<open>Well-formed tables\<close>

definition store_wf :: "relay_store \<Rightarrow> bool" where
  "store_wf db \<longleftrightarrow> tbl_ok (db_daemons db) \<and> tbl_ok (db_push_tokens db) \<and>
     tbl_ok (db_pairing_codes db) \<and> distinct (map fst (db_seen_nonces db))"

definition relay_wf :: "relay_state \<Rightarrow> bool" where
  "relay_wf st \<longleftrightarrow> tbl_ok (rs_daemons st) \<and> tbl_ok (rs_tokens st) \<and> tbl_ok (rs_pairing_codes st) \<and>
     distinct (map fst (rs_seen_nonces st)) \<and> pred_option store_wf (rs_store st)"

lemma store_wf_statements:
  assumes "store_wf db"
  shows "store_wf (save_daemon d r db)" "store_wf (save_token tk d pf t db)"
    "store_wf (touch_token tk t db)" "store_wf (remove_token tk db)"
    "store_wf (fst (insert_nonce d n t db))"
    "record_authenticated_activity d n t u db = (db', ins) \<Longrightarrow> store_wf db'"
    "store_wf (save_pairing_code c d b e p db)" "store_wf (delete_pairing_code c db)"
    "store_wf (prune_expired_rows now ps rt db)"
  using assms
  by (auto simp: store_wf_def save_daemon_def save_token_def touch_token_def remove_token_def
      insert_nonce_def record_authenticated_activity_def save_pairing_code_def
      delete_pairing_code_def prune_expired_rows_def Let_def tbl_insert_ok tbl_remove_ok
      tbl_retain_ok distinct_map_filter map_of_eq_None_iff split: if_splits)

lemma store_try_wf:
  "relay_wf st \<Longrightarrow> (\<And>db. store_wf db \<Longrightarrow> store_wf (f db)) \<Longrightarrow> relay_wf (store_try ok f st)"
  by (cases "rs_store st") (auto simp: relay_wf_def store_try_def)

lemma store_call_wf:
  "relay_wf st \<Longrightarrow> (\<And>db. store_wf db \<Longrightarrow> store_wf (f db)) \<Longrightarrow> relay_wf (fst (store_call ok f st))"
  by (cases "rs_store st") (auto simp: relay_wf_def store_call_def)

lemma prune_memory_wf: "relay_wf st \<Longrightarrow> relay_wf (prune_memory now st)"
  by (auto simp: relay_wf_def prune_memory_def Let_def tbl_retain_ok distinct_map_filter)

lemma prune_wf: "relay_wf st \<Longrightarrow> relay_wf (maybe_prune_expired_relay_state ok now st)"
proof -
  assume "relay_wf st"
  then have "relay_wf (prune_memory now (st\<lparr>rs_pruned_at_ms := now\<rparr>))"
    by (intro prune_memory_wf) (simp add: relay_wf_def)
  with \<open>relay_wf st\<close> show ?thesis
    by (simp add: maybe_prune_expired_relay_state_def prune_expired_relay_state_def Let_def
        store_try_wf store_wf_statements)
qed

lemma delete_codes_wf: "relay_wf st \<Longrightarrow> relay_wf (delete_codes env codes st)"
  by (erule delete_codes_inv) (simp add: store_try_wf store_wf_statements)

lemma wf_codes: "relay_wf st \<Longrightarrow> tbl_ok cs \<Longrightarrow> relay_wf (st\<lparr>rs_pairing_codes := cs\<rparr>)"
  by (simp add: relay_wf_def)

lemma wf_daemons: "relay_wf st \<Longrightarrow> tbl_ok cs \<Longrightarrow> relay_wf (st\<lparr>rs_daemons := cs\<rparr>)"
  by (simp add: relay_wf_def)

lemma wf_tokens: "relay_wf st \<Longrightarrow> tbl_ok cs \<Longrightarrow> relay_wf (st\<lparr>rs_tokens := cs\<rparr>)"
  by (simp add: relay_wf_def)

lemma wf_store: "relay_wf st \<Longrightarrow> store_wf db \<Longrightarrow> relay_wf (st\<lparr>rs_store := Some db\<rparr>)"
  by (simp add: relay_wf_def)

lemma wf_metrics: "relay_wf st \<Longrightarrow> relay_wf (st\<lparr>rs_metrics := m\<rparr>)"
  by (simp add: relay_wf_def)

lemma wf_parts: "relay_wf st \<Longrightarrow> tbl_ok (rs_daemons st)" "relay_wf st \<Longrightarrow> tbl_ok (rs_tokens st)"
  "relay_wf st \<Longrightarrow> tbl_ok (rs_pairing_codes st)" "relay_wf st \<Longrightarrow> rs_store st = Some db \<Longrightarrow> store_wf db"
  by (simp_all add: relay_wf_def)

lemma rollback_wf: "relay_wf st \<Longrightarrow> relay_wf (rollback_daemon_registration d p r st)"
  by (auto simp: rollback_daemon_registration_def wf_parts tbl_insert_ok tbl_remove_ok
      intro!: wf_daemons split: option.split)

lemma commit_wf: "relay_wf st \<Longrightarrow> relay_wf (fst (commit_registration env st d key existing))"
proof -
  assume wf: "relay_wf st"
  define r where "r = \<lparr>dr_public_key = key, dr_updated_at_ms = t_done env\<rparr>"
  define st1 where "st1 = st\<lparr>rs_daemons := tbl_insert d r (rs_daemons st)\<rparr>"
  obtain st2 v where c: "store_call (db_ok env CallSaveDaemon) (save_daemon d r) st1 = (st2, v)"
    by (cases "store_call (db_ok env CallSaveDaemon) (save_daemon d r) st1")
  have "relay_wf st1"
    unfolding st1_def by (intro wf_daemons wf tbl_insert_ok wf_parts)
  then have "relay_wf (fst (store_call (db_ok env CallSaveDaemon) (save_daemon d r) st1))"
    by (rule store_call_wf) (rule store_wf_statements)
  then have st2: "relay_wf st2" using c by simp
  moreover from st2 have "relay_wf (st2\<lparr>rs_metrics := m\<rparr>)" for m by (simp add: relay_wf_def)
  ultimately show ?thesis
    using wf c rollback_wf [OF st2] unfolding commit_registration_def Let_def
    by (cases v) (simp_all add: r_def st1_def)
qed

lemma evict_codes_wf: "relay_wf st \<Longrightarrow> relay_wf (fst (evict_codes_for_daemon d c st))"
  unfolding evict_codes_for_daemon_def Let_def fst_conv
  by (intro wf_codes tbl.ok_remove_all wf_parts)

lemma store_code_wf: "relay_wf st \<Longrightarrow> relay_wf (fst (store_code cr env st code entry))"
proof -
  assume wf: "relay_wf st"
  obtain st1 old where ev: "evict_codes_for_daemon (ce_daemon_node_id entry) code st = (st1, old)"
    by fastforce
  have st1: "relay_wf st1"
    using evict_codes_wf [OF wf, of "ce_daemon_node_id entry" code] ev by simp
  show ?thesis
  proof (cases "stored_payload cr (ce_record entry)")
    case None
    with ev st1 show ?thesis by (simp add: store_code_def relay_wf_def)
  next
    case (Some payload)
    have "relay_wf (fst (store_call (db_ok env CallSaveCode) (save_pairing_code code
        (ce_daemon_node_id entry) payload (ce_expires_at_ms entry) (t_done env))
        (delete_codes env old st1)))"
      by (intro store_call_wf delete_codes_wf st1 store_wf_statements(7))
    then show ?thesis
      unfolding store_code_def ev Let_def prod.case Some option.case
      by (rule relay_bind_inv [where P = relay_wf])
        (simp only: fst_conv, intro wf_metrics wf_codes tbl_insert_ok wf_parts)
  qed
qed

interpretation wf: relay_kept cr env "\<lambda>_ _. True" "\<lambda>_ _. True" relay_wf for cr env
proof unfold_locales
  fix st db d key n t db'
  assume "relay_wf st" "rs_store st = Some db"
    "record_authenticated_activity d n t (t_verify env) db = (db', True)"
  then have "relay_wf (st\<lparr>rs_store := Some db'\<rparr>)"
    by (metis store_wf_statements(6) wf_parts(4) wf_store)
  then show "relay_wf (touch_daemon env d key (st\<lparr>rs_store := Some db'\<rparr>))"
    unfolding touch_daemon_def by (intro wf_daemons) (simp_all add: relay_wf_def)
next
  fix st st' tk
  assume "relay_wf st" and "store_call (db_ok env CallRemoveToken) (remove_token tk) st = (st', Inr ())"
  then have "relay_wf st'"
    using store_call_wf [of st "remove_token tk"] store_wf_statements(4) by (metis fst_conv)
  then show "relay_wf (st'\<lparr>rs_tokens := tbl_remove tk (rs_tokens st')\<rparr>)"
    by (intro wf_tokens tbl_remove_ok wf_parts)
next
  fix st st' tk
  assume "relay_wf st" and "store_call (db_ok env CallTouchToken) (touch_token tk (t_done env)) st = (st', Inr ())"
  then have "relay_wf st'"
    using store_call_wf [of st "touch_token tk (t_done env)"] store_wf_statements(3) by (metis fst_conv)
  then show "relay_wf (st'\<lparr>rs_tokens := tbl_update tk (\<lambda>w. w\<lparr>tk_updated_at_ms := t_done env\<rparr>) (rs_tokens st')\<rparr>)"
    by (intro wf_tokens) (simp_all add: wf_parts)
next
  fix st st' tk d pf
  assume "relay_wf st" and "store_call (db_ok env CallSaveToken) (save_token tk d pf (t_done env)) st = (st', Inr ())"
  then have "relay_wf st'"
    using store_call_wf [of st "save_token tk d pf (t_done env)"] store_wf_statements(2) by (metis fst_conv)
  then show "relay_wf (st'\<lparr>rs_tokens := tbl_insert tk \<lparr>tk_daemon_node_id = d, tk_platform = pf,
        tk_updated_at_ms = t_done env\<rparr> (rs_tokens st')\<rparr>)"
    by (intro wf_tokens tbl_insert_ok wf_parts)
next
  fix st code
  assume "relay_wf st"
  then show "relay_wf (forget_pairing_code env code st)"
    unfolding forget_pairing_code_def by (intro delete_codes_wf wf_codes tbl_remove_ok wf_parts)
qed (auto simp: wf_parts commit_wf store_code_wf prune_wf store_wf_statements touch_daemon_def
    distinct_update intro!: wf_store wf_daemons, auto simp: relay_wf_def distinct_update)

lemma load_state_parts:
  assumes "load_state cr now ps rt db = (db', r)"
  shows "db' = prune_expired_rows now ps rt db"
    and "r = Inr (ds, ts, ns, cs) \<Longrightarrow> load_rows (load_daemon cr) (db_daemons db') = Inr ds \<and>
      load_rows load_token (db_push_tokens db') = Inr ts \<and>
      load_rows load_nonce (db_seen_nonces db') = Inr ns \<and>
      load_rows (load_code cr) (db_pairing_codes db') = Inr cs"
  using assms by (auto simp: load_state_def Let_def split: sum.splits)

lemma restart_wf: "relay_wf st \<Longrightarrow> relay_wf (relay_restart cr now st)"
proof (cases "rs_store st")
  case None
  then show ?thesis by (simp add: relay_restart_def relay_wf_def relay_default_def)
next
  case (Some db)
  assume wf: "relay_wf st"
  obtain db' r where l: "load_state cr now (rs_prune_stale_daemons st) (rs_daemon_retention_ms st) db
      = (db', r)" by fastforce
  have db': "store_wf db'"
    using load_state_parts(1) [OF l] wf_parts(4) [OF wf Some] store_wf_statements(9) by simp
  show ?thesis
  proof (cases r)
    case (Inl e)
    with l Some db' wf show ?thesis
      by (simp add: relay_restart_def open_sqlite_with_policy_def wf_store)
  next
    case (Inr loaded)
    obtain ds ts ns cs where "loaded = (ds, ts, ns, cs)" by (metis prod_cases4)
    then have "load_rows (load_daemon cr) (db_daemons db') = Inr ds"
      "load_rows load_token (db_push_tokens db') = Inr ts"
      "load_rows load_nonce (db_seen_nonces db') = Inr ns"
      "load_rows (load_code cr) (db_pairing_codes db') = Inr cs"
      using load_state_parts(2) [OF l] Inr by simp_all
    from this [THEN load_rows_keys] db' have "tbl_ok ds \<and> tbl_ok ts \<and> tbl_ok cs \<and> distinct (map fst ns)"
      by (simp add: tbl_ok_def store_wf_def)
    with l Some db' Inr \<open>loaded = _\<close> show ?thesis
      by (simp add: relay_restart_def open_sqlite_with_policy_def relay_wf_def relay_default_def)
  qed
qed

interpretation relay: inv_machine "relay_step cr" relay_wf for cr
proof unfold_locales
  fix st and e :: "relay_env \<times> relay_event"
  assume "relay_wf st"
  obtain env ev where e: "e = (env, ev)" by fastforce
  show "relay_wf (relay_step cr st e)"
  proof (cases "ev = RelayRestart")
    case True
    with e \<open>relay_wf st\<close> show ?thesis by (simp add: relay_step_def restart_wf)
  next
    case False
    with e \<open>relay_wf st\<close> show ?thesis by (simp add: wf.kept_answer)
  qed
qed

lemma prune_config [simp]:
  "rs_prune_stale_daemons (maybe_prune_expired_relay_state ok now st) = rs_prune_stale_daemons st"
  "rs_daemon_retention_ms (maybe_prune_expired_relay_state ok now st) = rs_daemon_retention_ms st"
  "rs_registration_audience (maybe_prune_expired_relay_state ok now st) = rs_registration_audience st"
  "rs_store (maybe_prune_expired_relay_state ok now st) = None \<longleftrightarrow> rs_store st = None"
  by (auto simp: maybe_prune_expired_relay_state_def prune_expired_relay_state_def prune_memory_def
      store_try_def Let_def)

end
