(* ===== verification/RelayReplay.thy ===== *)
theory RelayReplay
  imports RelayInv
begin

text \<open>
  No signed request is accepted twice: with a database, across restarts, failed database calls
  and the pruning of old nonces.  Ends with a concrete relay that the witnesses evaluate.
\<close>

section \<open>Spent nonces\<close>

text \<open>
  A signed request is spent when the database holds its nonce with its timestamp and, where
  daemons are pruned, the row of its daemon, if there is one, shows activity within the skew.
\<close>

definition spent :: "rstr \<Rightarrow> rstr \<Rightarrow> nat \<Rightarrow> relay_state \<Rightarrow> bool" where
  "spent d n ts st \<longleftrightarrow> (\<exists>db. rs_store st = Some db \<and>
     map_of (db_seen_nonces db) (d, n) = Some (as_i64 ts) \<and>
     (rs_prune_stale_daemons st \<longrightarrow> 2 * CLOCK_SKEW_MS \<le> rs_daemon_retention_ms st \<and>
       (\<forall>row. tbl_get (db_daemons db) d = Some row \<longrightarrow>
         as_i64 (ts - CLOCK_SKEW_MS) \<le> dw_updated_at_ms row)))"

text \<open>The clock readings of a request that matter for the database, within the window of a
  timestamp.\<close>

definition in_window :: "nat \<Rightarrow> relay_env \<Rightarrow> bool" where
  "in_window ts env \<longleftrightarrow> ts + CLOCK_SKEW_MS < 2 ^ 63 \<and>
     (\<forall>t \<in> {t_entry env, t_proof env, t_verify env, t_done env}. t \<le> ts + CLOCK_SKEW_MS) \<and>
     ts - CLOCK_SKEW_MS \<le> t_verify env \<and> ts - CLOCK_SKEW_MS \<le> t_done env"

definition spent_while :: "rstr \<Rightarrow> rstr \<Rightarrow> nat \<Rightarrow> relay_env \<Rightarrow> relay_state \<Rightarrow> bool" where
  "spent_while d n ts env st \<longleftrightarrow> relay_wf st \<and> (in_window ts env \<longrightarrow> spent d n ts st)"

lemma spent_prune_rows:
  assumes wf: "store_wf db" and nonce: "map_of (db_seen_nonces db) (d, n) = Some (as_i64 ts)"
    and now: "now \<le> ts + CLOCK_SKEW_MS" and small: "ts + CLOCK_SKEW_MS < 2 ^ 63"
    and active: "ps \<longrightarrow> 2 * CLOCK_SKEW_MS \<le> rt \<and> (\<forall>row. tbl_get (db_daemons db) d = Some row \<longrightarrow>
      as_i64 (ts - CLOCK_SKEW_MS) \<le> dw_updated_at_ms row)"
  shows "map_of (db_seen_nonces (prune_expired_rows now ps rt db)) (d, n) = Some (as_i64 ts) \<and>
    (tbl_get (db_daemons (prune_expired_rows now ps rt db)) d = Some row \<longrightarrow>
      tbl_get (db_daemons db) d = Some row)"
proof -
  have kept: "\<not> as_i64 ts < as_i64 (now - CLOCK_SKEW_MS)"
    using now small by (simp add: as_i64_less not_less)
  show ?thesis
  proof (cases ps)
    case False
    with kept wf nonce show ?thesis
      by (simp add: prune_expired_rows_def Let_def store_wf_def map_of_filter_distinct)
  next
    case True
    have "2 * CLOCK_SKEW_MS \<le> rt" using active True by simp
    then have "now - rt \<le> ts - CLOCK_SKEW_MS" using now by linarith
    moreover have "now - rt < 2 ^ 63" "ts - CLOCK_SKEW_MS < 2 ^ 63" using now small by linarith+
    ultimately have "as_i64 (now - rt) \<le> as_i64 (ts - CLOCK_SKEW_MS)" by (simp only: as_i64_le)
    then have "\<not> stale_rows db (as_i64 (now - rt)) d"
      using active True by (cases "tbl_get (db_daemons db) d") (auto simp: stale_rows_def)
    with kept wf nonce True show ?thesis
      by (auto simp: prune_expired_rows_def Let_def store_wf_def map_of_filter_distinct
          distinct_map_filter tbl_get_retain stale_rows_def)
  qed
qed

lemma spent_frame:
  "spent d n ts (st\<lparr>rs_metrics := x1\<rparr>) = spent d n ts st"
  "spent d n ts (st\<lparr>rs_error_sequence := x2\<rparr>) = spent d n ts st"
  "spent d n ts (st\<lparr>rs_rate_limits := x3\<rparr>) = spent d n ts st"
  "spent d n ts (st\<lparr>rs_resolve_rate_limits := x4\<rparr>) = spent d n ts st"
  "spent d n ts (st\<lparr>rs_register_rate_limits := x5\<rparr>) = spent d n ts st"
  "spent d n ts (st\<lparr>rs_token_register_rate_limits := x6\<rparr>) = spent d n ts st"
  "spent d n ts (st\<lparr>rs_seen_nonces := x7\<rparr>) = spent d n ts st"
  "spent d n ts (st\<lparr>rs_daemons := x8\<rparr>) = spent d n ts st"
  "spent d n ts (st\<lparr>rs_tokens := x9\<rparr>) = spent d n ts st"
  "spent d n ts (st\<lparr>rs_pairing_codes := x10\<rparr>) = spent d n ts st"
  "spent d n ts (st\<lparr>rs_pruned_at_ms := x11\<rparr>) = spent d n ts st"
  "spent d n ts (touch_daemon env j key st) = spent d n ts st"
  "spent d n ts (prune_memory now st) = spent d n ts st"
  by (simp_all add: spent_def touch_daemon_def prune_memory_def Let_def)

text \<open>A statement that leaves the nonces and at most refreshes the daemon's row.\<close>

lemma spent_statement:
  assumes "spent d n ts st" and "rs_store st = Some db"
    and "map_of (db_seen_nonces db) (d, n) \<noteq> None \<Longrightarrow>
      map_of (db_seen_nonces db') (d, n) = map_of (db_seen_nonces db) (d, n)"
    and "\<And>row. tbl_get (db_daemons db') d = Some row \<Longrightarrow>
      tbl_get (db_daemons db) d = Some row \<or> as_i64 (ts - CLOCK_SKEW_MS) \<le> dw_updated_at_ms row"
  shows "spent d n ts (st\<lparr>rs_store := Some db'\<rparr>)"
  using assms unfolding spent_def by fastforce

lemma spent_same:
  assumes "spent d n ts st" and "\<And>db. db_seen_nonces (f db) = db_seen_nonces db"
    and "\<And>db. db_daemons (f db) = db_daemons db"
  shows "spent d n ts (fst (store_call ok f st))" "spent d n ts (store_try ok f st)"
  using assms by (auto simp: spent_def store_call_def store_try_def spent_frame)

lemma spent_prune:
  assumes "spent d n ts st" and "relay_wf st"
    and "now \<le> ts + CLOCK_SKEW_MS" and "ts + CLOCK_SKEW_MS < 2 ^ 63"
  shows "spent d n ts (maybe_prune_expired_relay_state ok now st)"
proof (cases "now - rs_pruned_at_ms st < PRUNE_INTERVAL_MS")
  case True
  with assms(1) show ?thesis by (simp add: maybe_prune_expired_relay_state_def)
next
  case False
  define st1 where "st1 = prune_memory now (st\<lparr>rs_pruned_at_ms := now\<rparr>)"
  have st1: "spent d n ts st1" using assms(1) by (simp add: st1_def spent_frame)
  have same: "rs_store st1 = rs_store st" "rs_prune_stale_daemons st1 = rs_prune_stale_daemons st"
    "rs_daemon_retention_ms st1 = rs_daemon_retention_ms st"
    by (simp_all add: st1_def prune_memory_def Let_def)
  from st1 obtain db where db: "rs_store st1 = Some db"
    and nonce: "map_of (db_seen_nonces db) (d, n) = Some (as_i64 ts)"
    and active: "rs_prune_stale_daemons st1 \<longrightarrow> 2 * CLOCK_SKEW_MS \<le> rs_daemon_retention_ms st1 \<and>
       (\<forall>row. tbl_get (db_daemons db) d = Some row \<longrightarrow>
         as_i64 (ts - CLOCK_SKEW_MS) \<le> dw_updated_at_ms row)"
    unfolding spent_def by blast
  have "store_wf db" using wf_parts(4) [OF assms(2)] db same by simp
  from spent_prune_rows [OF this nonce assms(3,4) active]
  have "spent d n ts (st1\<lparr>rs_store := Some (prune_expired_rows now (rs_prune_stale_daemons st1)
      (rs_daemon_retention_ms st1) db)\<rparr>)"
    using active by (auto simp: spent_def)
  with st1 db False show ?thesis
    by (simp add: maybe_prune_expired_relay_state_def prune_expired_relay_state_def Let_def
        store_try_def st1_def [symmetric])
qed

lemma spent_insert_nonce:
  assumes "spent d n ts st" and "rs_store st = Some db"
  shows "spent d n ts (st\<lparr>rs_store := Some (fst (insert_nonce e m t db))\<rparr>)"
  by (rule spent_statement [OF assms]) (use assms in \<open>auto simp: insert_nonce_def split: if_splits\<close>)

lemma spent_activity:
  assumes "spent d n ts st" and "rs_store st = Some db"
    and "record_authenticated_activity e m t now db = (db', True)"
    and "ts - CLOCK_SKEW_MS \<le> now" and "now < 2 ^ 63"
  shows "spent d n ts (st\<lparr>rs_store := Some db'\<rparr>)"
proof (rule spent_statement [OF assms(1,2)])
  show "map_of (db_seen_nonces db') (d, n) = map_of (db_seen_nonces db) (d, n)"
    if "map_of (db_seen_nonces db) (d, n) \<noteq> None"
    using that assms(3) by (auto simp: record_authenticated_activity_def insert_nonce_def split: if_splits)
next
  fix row
  assume "tbl_get (db_daemons db') d = Some row"
  moreover have "as_i64 (ts - CLOCK_SKEW_MS) \<le> as_i64 now"
    using assms(4,5) by (simp add: as_i64_le)
  ultimately show "tbl_get (db_daemons db) d = Some row \<or>
      as_i64 (ts - CLOCK_SKEW_MS) \<le> dw_updated_at_ms row"
    using assms(3) by (auto simp: record_authenticated_activity_def insert_nonce_def tbl_get_update
        split: if_splits)
qed

lemma spent_save_daemon:
  assumes "spent d n ts st" and "ts - CLOCK_SKEW_MS \<le> dr_updated_at_ms r"
    and "dr_updated_at_ms r < 2 ^ 63"
  shows "spent d n ts (fst (store_call ok (save_daemon e r) st))"
proof (cases "rs_store st")
  case None
  with assms(1) show ?thesis by (simp add: spent_def)
next
  case (Some db)
  have "spent d n ts (st\<lparr>rs_store := Some (save_daemon e r db)\<rparr>)"
    by (rule spent_statement [OF assms(1) Some])
      (use assms(2,3) in \<open>auto simp: save_daemon_def tbl_get_insert as_i64_le split: if_splits\<close>)
  with Some assms(1) show ?thesis by (simp add: store_call_def spent_frame)
qed

lemma spent_commit:
  assumes "spent d n ts st" and "ts - CLOCK_SKEW_MS \<le> t_done env" and "t_done env < 2 ^ 63"
  shows "spent d n ts (fst (commit_registration env st e key existing))"
proof -
  define r where "r = \<lparr>dr_public_key = key, dr_updated_at_ms = t_done env\<rparr>"
  define st1 where "st1 = st\<lparr>rs_daemons := tbl_insert e r (rs_daemons st)\<rparr>"
  obtain st2 v where c: "store_call (db_ok env CallSaveDaemon) (save_daemon e r) st1 = (st2, v)"
    by (cases "store_call (db_ok env CallSaveDaemon) (save_daemon e r) st1")
  have "spent d n ts st1" using assms(1) by (simp add: st1_def spent_frame)
  then have st2: "spent d n ts st2"
    using spent_save_daemon [of d n ts st1 r "db_ok env CallSaveDaemon" e] assms(2,3) c
    by (simp add: r_def)
  then have "spent d n ts (rollback_daemon_registration e existing r st2)"
    by (simp add: rollback_daemon_registration_def spent_frame split: option.split)
  with st2 assms(1) c show ?thesis
    unfolding commit_registration_def Let_def
    by (cases v) (simp_all add: r_def st1_def spent_frame)
qed

lemma spent_delete_codes: "spent d n ts st \<Longrightarrow> spent d n ts (delete_codes env codes st)"
  by (erule delete_codes_inv) (simp add: spent_same(2) delete_pairing_code_def)

lemma spent_store_code: "spent d n ts st \<Longrightarrow> spent d n ts (fst (store_code cr env st code entry))"
proof -
  assume sp: "spent d n ts st"
  obtain st1 old where ev: "evict_codes_for_daemon (ce_daemon_node_id entry) code st = (st1, old)"
    by fastforce
  have st1: "spent d n ts st1"
    using sp ev by (auto simp: evict_codes_for_daemon_def Let_def spent_frame)
  show ?thesis
  proof (cases "stored_payload cr (ce_record entry)")
    case None
    with ev st1 show ?thesis by (simp add: store_code_def spent_frame)
  next
    case (Some payload)
    have "spent d n ts (fst (store_call (db_ok env CallSaveCode) (save_pairing_code code
        (ce_daemon_node_id entry) payload (ce_expires_at_ms entry) (t_done env))
        (delete_codes env old st1)))"
      by (intro spent_same(1) spent_delete_codes st1) (simp_all add: save_pairing_code_def)
    then show ?thesis
      unfolding store_code_def ev Let_def prod.case Some option.case
      by (rule relay_bind_inv [where P = "spent d n ts"]) (simp add: spent_frame)
  qed
qed

lemma store_call_fst: "store_call ok f st = (st', v) \<Longrightarrow> st' = fst (store_call ok f st)"
  by simp

interpretation spent: relay_kept cr env "\<lambda>_ _. True" "\<lambda>_ _. True" "spent_while d n ts env" for cr env d n ts
proof unfold_locales
  fix st now ok
  assume P: "spent_while d n ts env st"
    and t: "now = t_proof env \<and> ok = db_ok env CallProofPrune \<or> now = t_verify env \<and> ok = db_ok env CallPrune"
  have "now \<le> ts + CLOCK_SKEW_MS \<and> ts + CLOCK_SKEW_MS < 2 ^ 63" if "in_window ts env"
    using t that by (auto simp: in_window_def)
  with P show "spent_while d n ts env (maybe_prune_expired_relay_state ok now st)"
    unfolding spent_while_def using prune_wf spent_prune by blast
next
  fix st db e key m t db'
  assume P: "spent_while d n ts env st" and db: "rs_store st = Some db"
    "registered_key st e = Some key"
    and rec: "record_authenticated_activity e m t (t_verify env) db = (db', True)"
  have "ts - CLOCK_SKEW_MS \<le> t_verify env \<and> t_verify env < 2 ^ 63" if "in_window ts env"
    using that by (auto simp: in_window_def)
  with P show "spent_while d n ts env (touch_daemon env e key (st\<lparr>rs_store := Some db'\<rparr>))"
    unfolding spent_while_def spent_frame
    using wf.kept_activity [OF _ db rec] spent_activity [OF _ db(1) rec] by blast
next
  fix st key existing e
  assume P: "spent_while d n ts env st"
  have "ts - CLOCK_SKEW_MS \<le> t_done env \<and> t_done env < 2 ^ 63" if "in_window ts env"
    using that by (auto simp: in_window_def)
  with P show "spent_while d n ts env (fst (commit_registration env st e key existing))"
    unfolding spent_while_def using commit_wf spent_commit by blast
next
  fix st st' tk
  assume P: "spent_while d n ts env st"
    and c: "store_call (db_ok env CallRemoveToken) (remove_token tk) st = (st', Inr ())"
  then show "spent_while d n ts env (st'\<lparr>rs_tokens := tbl_remove tk (rs_tokens st')\<rparr>)"
    unfolding spent_while_def spent_frame store_call_fst [OF c]
    using wf.kept_remove_token [OF _ c] store_call_fst [OF c]
    by (auto intro!: spent_same simp: remove_token_def)
next
  fix st st' tk
  assume P: "spent_while d n ts env st"
    and c: "store_call (db_ok env CallTouchToken) (touch_token tk (t_done env)) st = (st', Inr ())"
  then show "spent_while d n ts env (st'\<lparr>rs_tokens := tbl_update tk
      (\<lambda>w. w\<lparr>tk_updated_at_ms := t_done env\<rparr>) (rs_tokens st')\<rparr>)"
    unfolding spent_while_def spent_frame store_call_fst [OF c]
    using wf.kept_touch_token [OF _ c] store_call_fst [OF c]
    by (auto intro!: spent_same simp: touch_token_def)
next
  fix st st' tk e pf
  assume P: "spent_while d n ts env st" and reg: "registered_key st e \<noteq> None"
    and c: "store_call (db_ok env CallSaveToken) (save_token tk e pf (t_done env)) st = (st', Inr ())"
  then show "spent_while d n ts env (st'\<lparr>rs_tokens := tbl_insert tk \<lparr>tk_daemon_node_id = e,
      tk_platform = pf, tk_updated_at_ms = t_done env\<rparr> (rs_tokens st')\<rparr>)"
    unfolding spent_while_def spent_frame store_call_fst [OF c]
    using wf.kept_save_token [OF _ reg c] store_call_fst [OF c]
    by (auto intro!: spent_same simp: save_token_def)
next
  fix st code
  assume "spent_while d n ts env st"
  then show "spent_while d n ts env (forget_pairing_code env code st)"
    unfolding spent_while_def forget_pairing_code_def
    by (auto intro!: spent_delete_codes delete_codes_wf wf_codes tbl_remove_ok wf_parts
        simp: spent_frame)
qed (auto simp: spent_while_def spent_frame wf_parts store_code_wf spent_store_code
    intro: spent_insert_nonce wf.kept_insert_nonce wf.kept_nonce wf.kept_metrics wf.kept_sequence
      wf.kept_limits wf.kept_touch)

lemma verify_spends:
  assumes ver: "verify_signed_request_with_pre_nonce_check cr env st r (pre_check env ev d) = (st0, Inr ())"
    and store: "rs_store st \<noteq> None"
    and retention: "rs_prune_stale_daemons st \<longrightarrow> 2 * CLOCK_SKEW_MS \<le> rs_daemon_retention_ms st"
    and small: "t_verify env < 2 ^ 63"
  shows "spent (sr_daemon_node_id r) (sr_nonce r) (sr_ts_ms r) st0"
proof -
  define stp where "stp = maybe_prune_expired_relay_state (db_ok env CallPrune) (t_verify env) st"
  from verify_Inr [OF ver] obtain key where
    skew: "abs_diff (t_verify env) (sr_ts_ms r) \<le> CLOCK_SKEW_MS"
    and adm: "admit_request env stp r key (pre_check env ev d) = (st0, Inr ())"
    unfolding stp_def by blast
  from adm obtain st1 st2 where pre: "pre_check env ev d stp = (st1, Inr ())"
    and st2: "st2 = st1\<lparr>rs_seen_nonces :=
      AList.update (sr_daemon_node_id r, sr_nonce r) (sr_ts_ms r) (rs_seen_nonces st1)\<rparr>"
    and out: "rs_store st1 = None \<and> st0 = touch_daemon env (sr_daemon_node_id r) key st2 \<or>
      (\<exists>db db'. rs_store st1 = Some db \<and> db_ok env CallActivity \<and>
        record_authenticated_activity (sr_daemon_node_id r) (sr_nonce r) (sr_ts_ms r)
          (t_verify env) db = (db', True) \<and>
        st0 = touch_daemon env (sr_daemon_node_id r) key (st2\<lparr>rs_store := Some db'\<rparr>))"
    by (rule admit_Inr)
  obtain l where "st1 = stp\<lparr>rs_token_register_rate_limits := l\<rparr>"
    using pre_check_frame [of env ev d stp] pre by auto
  then have same: "rs_store st1 = rs_store stp" "rs_prune_stale_daemons st1 = rs_prune_stale_daemons st"
    "rs_daemon_retention_ms st1 = rs_daemon_retention_ms st"
    by (simp_all add: stp_def)
  have "rs_store st1 \<noteq> None" using same(1) store by (simp add: stp_def)
  with out obtain db db' where
    rec: "record_authenticated_activity (sr_daemon_node_id r) (sr_nonce r) (sr_ts_ms r)
      (t_verify env) db = (db', True)"
    and st0: "st0 = touch_daemon env (sr_daemon_node_id r) key (st2\<lparr>rs_store := Some db'\<rparr>)"
    by auto
  have "as_i64 (sr_ts_ms r - CLOCK_SKEW_MS) \<le> as_i64 (t_verify env)"
    using skew small by (subst as_i64_le) (auto simp: abs_diff_le)
  then have "map_of (db_seen_nonces db') (sr_daemon_node_id r, sr_nonce r) = Some (as_i64 (sr_ts_ms r)) \<and>
      (\<forall>row. tbl_get (db_daemons db') (sr_daemon_node_id r) = Some row \<longrightarrow>
        as_i64 (sr_ts_ms r - CLOCK_SKEW_MS) \<le> dw_updated_at_ms row)"
    using rec by (auto simp: record_authenticated_activity_def insert_nonce_def tbl_get_update
        split: if_splits)
  then show ?thesis
    unfolding st0 spent_frame using st2 same retention by (simp add: spent_def)
qed

lemma verify_rejects_spent:
  assumes sp: "spent (sr_daemon_node_id r) (sr_nonce r) (sr_ts_ms r) st" and wf: "relay_wf st"
    and small: "t_verify env < 2 ^ 62"
  shows "verify_signed_request_with_pre_nonce_check cr env st r (pre_check env ev d) \<noteq> (st0, Inr ())"
proof
  assume ver: "verify_signed_request_with_pre_nonce_check cr env st r (pre_check env ev d) = (st0, Inr ())"
  define stp where "stp = maybe_prune_expired_relay_state (db_ok env CallPrune) (t_verify env) st"
  from verify_Inr [OF ver] obtain key where
    skew: "abs_diff (t_verify env) (sr_ts_ms r) \<le> CLOCK_SKEW_MS"
    and adm: "admit_request env stp r key (pre_check env ev d) = (st0, Inr ())"
    unfolding stp_def by blast
  have "spent (sr_daemon_node_id r) (sr_nonce r) (sr_ts_ms r) stp"
    unfolding stp_def using skew small
    by (intro spent_prune sp wf) (auto simp: abs_diff_le CLOCK_SKEW_MS_def)
  then obtain db where db: "rs_store stp = Some db"
    and seen: "map_of (db_seen_nonces db) (sr_daemon_node_id r, sr_nonce r) = Some (as_i64 (sr_ts_ms r))"
    unfolding spent_def by blast
  from adm obtain st1 where pre: "pre_check env ev d stp = (st1, Inr ())"
    and out: "rs_store st1 = None \<or> (\<exists>db db'. rs_store st1 = Some db \<and>
        record_authenticated_activity (sr_daemon_node_id r) (sr_nonce r) (sr_ts_ms r)
          (t_verify env) db = (db', True))"
    by (rule admit_Inr) blast
  obtain l where "st1 = stp\<lparr>rs_token_register_rate_limits := l\<rparr>"
    using pre_check_frame [of env ev d stp] pre by auto
  with out db seen show False
    by (auto simp: record_authenticated_activity_def insert_nonce_def)
qed

lemma restart_spent:
  assumes "spent d n ts st" and "relay_wf st"
    and "now \<le> ts + CLOCK_SKEW_MS" and "ts + CLOCK_SKEW_MS < 2 ^ 63"
  shows "spent d n ts (relay_restart cr now st)"
proof -
  from assms(1) obtain db where db: "rs_store st = Some db"
    and nonce: "map_of (db_seen_nonces db) (d, n) = Some (as_i64 ts)"
    and active: "rs_prune_stale_daemons st \<longrightarrow> 2 * CLOCK_SKEW_MS \<le> rs_daemon_retention_ms st \<and>
       (\<forall>row. tbl_get (db_daemons db) d = Some row \<longrightarrow>
         as_i64 (ts - CLOCK_SKEW_MS) \<le> dw_updated_at_ms row)"
    unfolding spent_def by blast
  obtain db' res where l: "load_state cr now (rs_prune_stale_daemons st) (rs_daemon_retention_ms st) db
      = (db', res)" by fastforce
  have "map_of (db_seen_nonces db') (d, n) = Some (as_i64 ts) \<and>
      (tbl_get (db_daemons db') d = Some row \<longrightarrow> tbl_get (db_daemons db) d = Some row)" for row
    unfolding load_state_parts(1) [OF l]
    by (rule spent_prune_rows [OF wf_parts(4) [OF assms(2) db] nonce assms(3,4) active])
  with active have "spent d n ts (st'\<lparr>rs_store := Some db'\<rparr>)"
    if "rs_prune_stale_daemons st' = rs_prune_stale_daemons st"
      "rs_daemon_retention_ms st' = rs_daemon_retention_ms st" for st'
    using that by (auto simp: spent_def)
  from this [of st] this [of "relay_restart cr now st"] l db show ?thesis
    by (auto simp: relay_restart_def open_sqlite_with_policy_def spent_def split: sum.splits)
qed

lemma step_spent:
  assumes "relay_wf st" and "spent d n ts st" and "in_window ts env"
  shows "relay_wf (relay_step cr st (env, ev)) \<and> spent d n ts (relay_step cr st (env, ev))"
proof (cases "ev = RelayRestart")
  case True
  with assms show ?thesis
    by (auto simp: relay_step_def restart_wf in_window_def intro!: restart_spent)
next
  case False
  with assms show ?thesis
    using spent.kept_answer [of d n ts env st ev cr] by (simp add: spent_while_def)
qed

lemma run_spent:
  assumes "relay_wf st" and "spent d n ts st" and "\<forall>(env, ev) \<in> set es. in_window ts env"
  shows "relay_wf (foldl (relay_step cr) st es) \<and> spent d n ts (foldl (relay_step cr) st es)"
  using assms by (induction es arbitrary: st) (auto dest: step_spent)

section \<open>A concrete relay\<close>

text \<open>
  Crates for the witnesses: a base64 text stands for its characters, a signature is valid when
  it starts like the key, and every body decodes to one fixed request per endpoint.
\<close>

definition demo_daemon :: rstr where "demo_daemon = replicate 16 97"
definition demo_nonce :: rstr where "demo_nonce = replicate 16 98"
definition demo_token :: rstr where "demo_token = replicate 16 99"
definition demo_hash :: rstr where "demo_hash = replicate 64 97"
definition demo_key :: bytes where "demo_key = replicate 32 65"

definition demo_unregister :: unregister_token_request where
  "demo_unregister = \<lparr>ut_daemon_node_id = demo_daemon, ut_push_token = demo_token,
     ut_nonce = demo_nonce, ut_ts_ms = 1000\<rparr>"

definition demo_push :: push_request where
  "demo_push = \<lparr>ph_daemon_node_id = demo_daemon, ph_recipient_token = demo_token, ph_platform = Fcm,
     ph_session_id_hash = demo_hash, ph_event_type = EvAwaitingInput, ph_nonce = demo_nonce,
     ph_ts_ms = 1000\<rparr>"

definition demo_register_token :: register_token_request where
  "demo_register_token = \<lparr>rt_daemon_node_id = demo_daemon, rt_platform = Fcm,
     rt_push_token = demo_token, rt_nonce = demo_nonce, rt_ts_ms = 1000\<rparr>"

definition demo_rendezvous :: pairing_rendezvous where
  "demo_rendezvous = \<lparr>pr_node_id = demo_daemon, pr_relay_url = None, pr_addrs = [],
     pr_expires_at = 400000\<rparr>"

definition demo_publish :: publish_pairing_request where
  "demo_publish = PublishReachability \<lparr>pz_daemon_node_id = demo_daemon, pz_locator = demo_hash,
     pz_rendezvous = demo_rendezvous, pz_nonce = demo_nonce, pz_ts_ms = 1000\<rparr>"

definition demo_register :: register_daemon_request where
  "demo_register = \<lparr>rd_daemon_node_id = demo_daemon, rd_public_key = replicate 40 66,
     rd_nonce = Some demo_nonce, rd_ts_ms = Some 1000, rd_proof = None\<rparr>"

definition demo_relay_crates :: relay_crates where
  "demo_relay_crates = \<lparr>b64_decode = (\<lambda>s. Some (if length s = 40 then map word_of_nat (take 32 s)
       else map word_of_nat s)),
     b64_encode = map unat, sha256_of = (\<lambda>_. replicate 32 0), point_ok = (\<lambda>_. True),
     ed_verify = (\<lambda>key _ signature. take 1 signature = take 1 key),
     node_key = (\<lambda>_. None), node_verify = (\<lambda>_ _ _. False),
     json_register_daemon = (\<lambda>_. Some demo_register),
     json_register_token = (\<lambda>_. Some demo_register_token),
     json_unregister_token = (\<lambda>_. Some demo_unregister),
     json_publish = (\<lambda>_. Some demo_publish), json_push = (\<lambda>_. Some demo_push),
     garde_report = (\<lambda>_. []), rendezvous_to_json = (\<lambda>_. Some []),
     rendezvous_of_json = (\<lambda>_. Some demo_rendezvous)\<rparr>"

definition demo_headers :: header_map where
  "demo_headers = [(SIGNATURE_HEADER, replicate 64 65)]"

definition demo_env :: relay_env where
  "demo_env = \<lparr>t_entry = 1000, t_proof = 1000, t_verify = 1000, t_check = 1000, t_done = 1000,
     db_ok = (\<lambda>_. True), deliver = (\<lambda>_. None)\<rparr>"

definition demo_owner :: token_owner where
  "demo_owner = \<lparr>tk_daemon_node_id = demo_daemon, tk_platform = Fcm, tk_updated_at_ms = 500\<rparr>"

definition demo_store :: relay_store where
  "demo_store = save_token demo_token demo_daemon Fcm 500
     (save_daemon demo_daemon \<lparr>dr_public_key = demo_key, dr_updated_at_ms = 500\<rparr> empty_store)"

definition demo_relay :: relay_state where
  "demo_relay = relay_default\<lparr>
     rs_daemons := [(demo_daemon, \<lparr>dr_public_key = demo_key, dr_updated_at_ms = 500\<rparr>)],
     rs_tokens := [(demo_token, demo_owner)], rs_store := Some demo_store\<rparr>"

lemma demo_relay_wf: "relay_wf demo_relay"
proof -
  have "store_wf demo_store"
    unfolding demo_store_def by (intro store_wf_statements(1,2)) (simp add: store_wf_def empty_store_def)
  then show ?thesis
    by (simp add: relay_wf_def demo_relay_def relay_default_def tbl_ok_def)
qed

lemma str_len_replicate [simp]: "c < 128 \<Longrightarrow> str_len (replicate k c) = k"
  by (subst is_ascii_len) (simp_all add: is_ascii_def list_all_iff)

lemma demo_strings:
  "ascii_between 16 128 demo_daemon" "ascii_between 16 128 demo_nonce"
  "len_between 16 4096 demo_token" "hex64_pattern demo_hash"
  by (simp_all add: ascii_between_def len_between_def is_ascii_def demo_daemon_def list_all_iff
      demo_nonce_def demo_token_def demo_hash_def hex64_pattern_def)

lemma demo_header: "header_str demo_headers SIGNATURE_HEADER = Some (replicate 64 65)"
  by (simp add: header_str_def demo_headers_def header_to_str_def list_all_iff)

lemma demo_fields:
  "rs_daemons demo_relay = [(demo_daemon, \<lparr>dr_public_key = demo_key, dr_updated_at_ms = 500\<rparr>)]"
  "rs_tokens demo_relay = [(demo_token, demo_owner)]" "rs_seen_nonces demo_relay = []"
  "rs_pairing_codes demo_relay = []" "rs_store demo_relay = Some demo_store"
  "rs_pruned_at_ms demo_relay = 0" "rs_prune_stale_daemons demo_relay = False"
  "rs_rate_limits demo_relay = Map.empty" "rs_token_register_rate_limits demo_relay = Map.empty"
  "rs_register_rate_limits demo_relay = Map.empty" "rs_resolve_rate_limits demo_relay = Map.empty"
  by (simp_all add: demo_relay_def relay_default_def)

lemma demo_signature:
  "registered_key st (sr_daemon_node_id r) = Some demo_key \<Longrightarrow> sr_headers r = demo_headers \<Longrightarrow>
    check_signature demo_relay_crates st r = Inr demo_key"
proof -
  have "split_signature_header (replicate 64 65) = Some (V1, replicate 64 65)"
    by (simp add: split_signature_header_def strip_prefix_def sig_prefix_eval eval_nat_numeral)
  moreover have "decode_signature demo_relay_crates (replicate 64 65) = Inr (replicate 64 65)"
    by (simp add: decode_signature_def demo_relay_crates_def)
  moreover have "ed_verify demo_relay_crates demo_key m (replicate 64 65)" for m
    by (simp add: demo_relay_crates_def demo_key_def)
  ultimately show "registered_key st (sr_daemon_node_id r) = Some demo_key \<Longrightarrow>
      sr_headers r = demo_headers \<Longrightarrow> ?thesis"
    by (simp add: check_signature_def demo_header)
qed

lemma demo_verify_limits:
  assumes "sr_daemon_node_id r = demo_daemon" and "sr_nonce r = demo_nonce"
    and "sr_ts_ms r = 1000" and "sr_headers r = demo_headers"
  shows "verify_signed_request demo_relay_crates demo_env (demo_relay\<lparr>rs_register_rate_limits := l\<rparr>) r =
    (demo_relay\<lparr>rs_register_rate_limits := l, rs_seen_nonces := [((demo_daemon, demo_nonce), 1000)],
       rs_daemons := [(demo_daemon, \<lparr>dr_public_key = demo_key, dr_updated_at_ms = 1000\<rparr>)],
       rs_store := Some (fst (record_authenticated_activity demo_daemon demo_nonce 1000 1000 demo_store))\<rparr>,
     Inr ())"
proof -
  let ?st = "demo_relay\<lparr>rs_register_rate_limits := l\<rparr>"
  have key: "registered_key ?st demo_daemon = Some demo_key"
    by (simp add: registered_key_def demo_fields tbl_get_def)
  have "snd (record_authenticated_activity demo_daemon demo_nonce 1000 1000 demo_store)"
    by (simp add: record_authenticated_activity_def insert_nonce_def demo_store_def save_token_def
        save_daemon_def empty_store_def)
  moreover have "maybe_prune_expired_relay_state ok 1000 ?st = ?st" for ok
    by (simp add: maybe_prune_expired_relay_state_def PRUNE_INTERVAL_MS_def demo_fields)
  ultimately show ?thesis
    using assms key demo_signature [of ?st r]
    by (simp add: verify_signed_request_def verify_signed_request_with_pre_nonce_check_def
        demo_env_def abs_diff_def admit_request_def Let_def split_beta demo_fields touch_daemon_def
        tbl_update_def)
qed

lemma demo_same_limits: "demo_relay\<lparr>rs_register_rate_limits := Map.empty\<rparr> = demo_relay"
  by (simp add: demo_relay_def relay_default_def)

lemmas demo_verify = demo_verify_limits [where l = Map.empty, unfolded demo_same_limits]

section \<open>Properties\<close>

text \<open>A request's readings of the clock fall between two instants.\<close>

definition clock_between :: "nat \<Rightarrow> nat \<Rightarrow> relay_env \<Rightarrow> bool" where
  "clock_between t t' env \<longleftrightarrow> (\<forall>u \<in> {t_entry env, t_proof env, t_verify env, t_done env}. u \<le> t') \<and>
     t \<le> t_verify env \<and> t \<le> t_done env"


lemma demo_unregister_ok: "event_request demo_relay_crates (HttpUnregisterToken demo_headers []) =
    Some (signed_post (lit ''/v1/push/unregister-token'') [] demo_headers demo_daemon demo_nonce 1000)"
  "parse_validated demo_relay_crates (json_unregister_token demo_relay_crates)
    validate_unregister_token b = Inr demo_unregister"
proof -
  show p: "parse_validated demo_relay_crates (json_unregister_token demo_relay_crates)
    validate_unregister_token b = Inr demo_unregister" for b
    by (simp add: parse_validated_Inr demo_relay_crates_def validate_unregister_token_def
        demo_unregister_def demo_strings)
  show "event_request demo_relay_crates (HttpUnregisterToken demo_headers []) =
    Some (signed_post (lit ''/v1/push/unregister-token'') [] demo_headers demo_daemon demo_nonce 1000)"
    by (simp add: event_request_def p) (simp add: demo_unregister_def)
qed


end
