(* ===== verification/RelayProps.thy ===== *)
theory RelayProps
  imports RelayReplay
begin

text \<open>
  What the relay promises about the keys of daemons, shown of every run of the machine.
\<close>

section \<open>Keys\<close>

text \<open>A registration signed by a key: a valid signature over the very body that was posted.\<close>

definition signed_registration ::
    "relay_crates \<Rightarrow> rstr \<Rightarrow> header_map \<Rightarrow> bytes \<Rightarrow> register_daemon_request \<Rightarrow> bytes \<Rightarrow> bool" where
  "signed_registration cr audience headers body request key \<longleftrightarrow>
     (\<exists>nonce ts_ms header version encoded signature.
        rd_nonce request = Some nonce \<and> rd_ts_ms request = Some ts_ms \<and>
        header_str headers SIGNATURE_HEADER = Some header \<and>
        split_signature_header header = Some (version, encoded) \<and>
        decode_signature cr encoded = Inr signature \<and>
        ed_verify cr key (signed_text cr audience version (signed_post (lit ''/v1/pair'') body headers
          (rd_daemon_node_id request) nonce ts_ms)) signature)"

lemma authorize_signed:
  assumes ok: "tbl_ok (rs_daemons st)"
    and auth: "authorize_registration cr env st h b rq key = (st1, Inr existing)"
    and old: "map_option dr_public_key existing = Some old" "old \<noteq> key"
  shows "signed_registration cr (rs_registration_audience st) h b rq old"
proof -
  from old(1) obtain r where r: "existing = Some r" "dr_public_key r = old" by auto
  have look: "tbl_get (rs_daemons st) (rd_daemon_node_id rq) = Some r"
    using authorize_Inr [OF auth ok] r by simp
  obtain nonce ts where nt: "rd_nonce rq = Some nonce" "rd_ts_ms rq = Some ts"
    using auth look r old(2) by (auto simp: authorize_registration_def Let_def
        split: if_splits option.splits)
  let ?sr = "signed_post (lit ''/v1/pair'') b h (rd_daemon_node_id rq) nonce ts"
  have "\<exists>st2. verify_signed_request cr env st ?sr = (st2, Inr ())"
    using auth look r old(2) nt by (auto simp: authorize_registration_def Let_def
        split: if_splits dest!: relay_bind_Inr [THEN iffD1])
  then obtain st2 where v: "verify_signed_request_with_pre_nonce_check cr env st ?sr
      (\<lambda>st. (st, Inr ())) = (st2, Inr ())"
    by (auto simp: verify_signed_request_def)
  from verify_Inr [OF v] obtain k where
    sig: "check_signature cr (maybe_prune_expired_relay_state (db_ok env CallPrune) (t_verify env) st)
      ?sr = Inr k" by blast
  then have "registered_key st (rd_daemon_node_id rq) = Some k"
    by (intro prune_registered [OF ok]) (auto simp: check_signature_Inr signed_post_def)
  then have "k = old" using look r by (simp add: registered_key_def)
  with sig nt show ?thesis
    by (auto simp: check_signature_Inr signed_registration_def) (simp add: signed_post_def)
qed

lemma commit_Inr:
  assumes "commit_registration env st d key existing = (st1, Inr reply)"
  shows "\<not> registration_key_changed (map_option dr_public_key existing) (registered_key st d) key"
    and "\<not> daemon_capacity_exceeded st d MAX_DAEMONS"
  using assms by (auto simp: commit_registration_def Let_def split: if_splits)

text \<open>[rotation_needs_old_key].  Registering another key for a known daemon needs a signature by
  the key registered when it takes effect: if the second half of a registration replaces the
  key \<open>old\<close>, the first half has verified a signature by \<open>old\<close> over the posted body, whatever
  other requests changed in the registry between the two halves.\<close>

theorem rotation_needs_old_key:
  assumes "tbl_ok (rs_daemons st)"
    and "authorize_registration cr env st h b rq key = (st1, Inr existing)"
    and "commit_registration env st2 (rd_daemon_node_id rq) key existing = (st3, Inr reply)"
    and "registered_key st2 (rd_daemon_node_id rq) = Some old" and "old \<noteq> key"
  shows "signed_registration cr (rs_registration_audience st) h b rq old"
proof -
  have "map_option dr_public_key existing = Some old"
    using commit_Inr(1) [OF assms(3)] assms(4,5) by (cases existing) auto
  then show ?thesis
    by (rule authorize_signed [OF assms(1,2) _ assms(5)])
qed

text \<open>
  Where stale daemons are kept, which is the default, nothing but a registration changes what
  is registered.
\<close>

definition keys_same :: "relay_state \<Rightarrow> relay_state \<Rightarrow> bool" where
  "keys_same st0 st \<longleftrightarrow> relay_wf st \<and> registered_key st = registered_key st0 \<and>
     \<not> rs_prune_stale_daemons st \<and> rs_registration_audience st = rs_registration_audience st0"

lemma prune_keys_same:
  assumes "\<not> rs_prune_stale_daemons st"
  shows "registered_key (maybe_prune_expired_relay_state ok now st) = registered_key st"
  using assms by (auto simp: registered_key_def maybe_prune_expired_relay_state_def
      prune_expired_relay_state_def prune_memory_def store_try_def Let_def)

lemma store_call_keys:
  assumes "store_call ok f st = (st', Inr ())"
  shows "registered_key st' = registered_key st" "rs_prune_stale_daemons st' = rs_prune_stale_daemons st"
    "rs_registration_audience st' = rs_registration_audience st"
  using assms by (auto simp: store_call_def fail_internal_def split: option.splits if_splits)

lemma delete_codes_keys:
  "registered_key (delete_codes env cs s) = registered_key s \<and>
   rs_prune_stale_daemons (delete_codes env cs s) = rs_prune_stale_daemons s \<and>
   rs_registration_audience (delete_codes env cs s) = rs_registration_audience s"
  by (rule delete_codes_inv [where P = "\<lambda>t. registered_key t = registered_key s \<and>
      rs_prune_stale_daemons t = rs_prune_stale_daemons s \<and>
      rs_registration_audience t = rs_registration_audience s"]) (simp_all add: store_try_def)

lemma store_code_keys:
  "registered_key (fst (store_code cr env st code entry)) = registered_key st \<and>
   rs_prune_stale_daemons (fst (store_code cr env st code entry)) = rs_prune_stale_daemons st \<and>
   rs_registration_audience (fst (store_code cr env st code entry)) = rs_registration_audience st"
  by (simp add: store_code_def evict_codes_for_daemon_def Let_def relay_bind_def store_call_def
      fail_internal_def delete_codes_keys split: option.split)

interpretation keys: relay_kept cr env "\<lambda>_ _. True" "\<lambda>_ _. False" "keys_same st0" for cr env st0
proof unfold_locales
  fix st :: relay_state and entry code
  assume "keys_same st0 st"
  then show "keys_same st0 (fst (store_code cr env st code entry))"
    by (simp add: keys_same_def store_code_wf store_code_keys)
next
  fix st st' tk
  assume "keys_same st0 st"
    and c: "store_call (db_ok env CallRemoveToken) (remove_token tk) st = (st', Inr ())"
  then show "keys_same st0 (st'\<lparr>rs_tokens := tbl_remove tk (rs_tokens st')\<rparr>)"
    using wf.kept_remove_token [OF _ c] by (simp add: keys_same_def store_call_keys [OF c])
next
  fix st st' tk
  assume "keys_same st0 st"
    and c: "store_call (db_ok env CallTouchToken) (touch_token tk (t_done env)) st = (st', Inr ())"
  then show "keys_same st0 (st'\<lparr>rs_tokens := tbl_update tk
      (\<lambda>w. w\<lparr>tk_updated_at_ms := t_done env\<rparr>) (rs_tokens st')\<rparr>)"
    using wf.kept_touch_token [OF _ c] by (simp add: keys_same_def store_call_keys [OF c])
next
  fix st st' tk d pf
  assume "keys_same st0 st" and reg: "registered_key st d \<noteq> None"
    and c: "store_call (db_ok env CallSaveToken) (save_token tk d pf (t_done env)) st = (st', Inr ())"
  then show "keys_same st0 (st'\<lparr>rs_tokens := tbl_insert tk \<lparr>tk_daemon_node_id = d,
      tk_platform = pf, tk_updated_at_ms = t_done env\<rparr> (rs_tokens st')\<rparr>)"
    using wf.kept_save_token [OF _ reg c] by (simp add: keys_same_def store_call_keys [OF c])
next
  fix st db d key n t db'
  assume "keys_same st0 st" and a: "rs_store st = Some db" "registered_key st d = Some key"
    "record_authenticated_activity d n t (t_verify env) db = (db', True)"
  then show "keys_same st0 (touch_daemon env d key (st\<lparr>rs_store := Some db'\<rparr>))"
    using wf.kept_activity [OF _ a] by (simp add: keys_same_def) (simp add: touch_daemon_def)
next
  fix st d key
  assume "keys_same st0 st" and a: "rs_store st = None" "registered_key st d = Some key"
  then show "keys_same st0 (touch_daemon env d key st)"
    using wf.kept_touch [OF _ a] by (simp add: keys_same_def) (simp add: touch_daemon_def)
qed (auto simp: keys_same_def wf_parts prune_keys_same prune_wf forget_pairing_code_def
      delete_codes_keys delete_codes_wf wf_codes tbl_remove_ok
    intro: wf.kept_insert_nonce wf.kept_nonce wf.kept_metrics wf.kept_sequence wf.kept_limits)

lemma commit_registered:
  assumes wf: "relay_wf st"
    and same: "existing = None \<longleftrightarrow> tbl_get (rs_daemons st) d = None"
      "map_option dr_public_key existing = registered_key st d"
  shows "registered_key (fst (commit_registration env st d key existing)) j =
    (case snd (commit_registration env st d key existing) of
       Inl _ \<Rightarrow> registered_key st j
     | Inr _ \<Rightarrow> if j = d then Some key else registered_key st j)"
proof -
  define r where "r = \<lparr>dr_public_key = key, dr_updated_at_ms = t_done env\<rparr>"
  define st1 where "st1 = st\<lparr>rs_daemons := tbl_insert d r (rs_daemons st)\<rparr>"
  obtain st2 v where c: "store_call (db_ok env CallSaveDaemon) (save_daemon d r) st1 = (st2, v)"
    by (cases "store_call (db_ok env CallSaveDaemon) (save_daemon d r) st1")
  have st2: "rs_daemons st2 = tbl_insert d r (rs_daemons st)"
    using c by (auto simp: store_call_def fail_internal_def st1_def split: option.splits if_splits)
  have new: "registered_key st2 j = (if j = d then Some key else registered_key st j)" for j
    by (simp add: registered_key_def st2 tbl_get_insert r_def)
  have undone: "registered_key (rollback_daemon_registration d existing r st2) j = registered_key st j"
    using same by (cases existing) (auto simp: rollback_daemon_registration_def registered_key_def st2
        tbl_get_insert tbl_get_remove)
  show ?thesis
    using new undone c unfolding commit_registration_def Let_def
    by (cases v) (simp_all add: r_def [symmetric] st1_def [symmetric])
qed

text \<open>C15 [daemon_key_authorized].  Where stale daemons are kept, a request gives a known daemon
  another key only if it is a registration for that daemon and that key whose body carries a
  valid signature by the key it replaces.\<close>

theorem daemon_key_authorized:
  assumes wf: "relay_wf st" and keep: "\<not> rs_prune_stale_daemons st" and ev: "ev \<noteq> RelayRestart"
    and old: "registered_key st d = Some old"
    and new: "registered_key (relay_step cr st (env, ev)) d \<noteq> Some old"
  shows "\<exists>peer h b rq key. ev = HttpPair peer h b \<and>
    parse_validated cr (json_register_daemon cr) validate_register_daemon b = Inr rq \<and>
    rd_daemon_node_id rq = d \<and> decode_public_key cr (rd_public_key rq) = Inr key \<and>
    registered_key (relay_step cr st (env, ev)) d = Some key \<and>
    signed_registration cr (rs_registration_audience st) h b rq old"
proof -
  have same: "keys_same st st" using wf keep by (simp add: keys_same_def)
  have "registers cr ev \<noteq> None"
  proof
    assume "registers cr ev = None"
    then have "keys_same st (relay_step cr st (env, ev))"
      by (intro keys.kept_answer [OF same ev]) auto
    with old new show False by (simp add: keys_same_def)
  qed
  then obtain e key where r: "registers cr ev = Some (e, key)" by auto
  then obtain peer h b rq where e: "ev = HttpPair peer h b"
    and rq: "parse_validated cr (json_register_daemon cr) validate_register_daemon b = Inr rq"
    and key: "decode_public_key cr (rd_public_key rq) = Inr key" and ed: "rd_daemon_node_id rq = e"
    by (auto simp: registers_def split: relay_event.splits sum.splits)
  define st0 where "st0 = st\<lparr>rs_register_rate_limits := fst (increment
    (client_identifier peer h (rs_trust_forwarded_for st)) (t_entry env div 60000)
    (rs_register_rate_limits st))\<rparr>"
  define pr where "pr = (case rd_proof rq of None \<Rightarrow> (st0, Inr ())
    | Some proof \<Rightarrow> verify_registration_proof cr env st0 (rd_daemon_node_id rq) key proof)"
  have st0: "keys_same st st0" using same keys.kept_limits(3) by (simp add: st0_def)
  have pr: "keys_same st (fst pr)"
    using st0 by (auto simp: pr_def split: option.split intro: keys.kept_proof)
  have step: "relay_step cr st (env, ev) = st0 \<or> relay_step cr st (env, ev) =
      fst (relay_bind pr (\<lambda>st _. relay_bind (authorize_registration cr env st h b rq key)
        (\<lambda>st existing. commit_registration env st (rd_daemon_node_id rq) key existing)))"
    unfolding relay_step_def e relay_answer.simps register_daemon_def Let_def split_beta rq sum.case
      key st0_def [symmetric] pr_def [symmetric]
    by simp
  have moved: "\<not> keys_same st (relay_step cr st (env, ev))"
    using old new by (auto simp: keys_same_def)
  obtain st1 where st1: "pr = (st1, Inr ())" "keys_same st st1"
    using step moved st0 pr by (cases pr; cases "snd pr") auto
  define au where "au = authorize_registration cr env st1 h b rq key"
  have au: "keys_same st (fst au)"
    unfolding au_def by (rule keys.kept_authorize [OF st1(2)])
  obtain st2 existing where st2: "au = (st2, Inr existing)" "keys_same st st2"
    using step moved st0 st1 au by (cases au; cases "snd au") (auto simp: au_def [symmetric])
  have com: "relay_step cr st (env, ev) = fst (commit_registration env st2 e key existing)"
    using step moved st0 st1 st2 ed by (auto simp: au_def [symmetric])
  have facts: "existing = None \<longleftrightarrow> tbl_get (rs_daemons st2) e = None"
      "map_option dr_public_key existing = registered_key st2 e"
    using authorize_Inr [OF st2(1) [unfolded au_def] wf_parts(1)] st1(2) ed by (auto simp: keys_same_def)
  have "relay_wf st2" using st2(2) by (simp add: keys_same_def)
  note reg = commit_registered [OF this facts, of env key]
  have okc: "\<exists>reply. snd (commit_registration env st2 e key existing) = Inr reply"
    and d: "d = e" and nk: "registered_key (relay_step cr st (env, ev)) d = Some key" "key \<noteq> old"
    using reg [of d] old new com st2(2) by (auto simp: keys_same_def split: sum.splits if_splits)
  from okc obtain st3 reply where c: "commit_registration env st2 e key existing = (st3, Inr reply)"
    by (metis prod.collapse)
  have "map_option dr_public_key existing = Some old"
    using facts(2) st2(2) old d by (simp add: keys_same_def)
  then have "signed_registration cr (rs_registration_audience st1) h b rq old"
    using authorize_signed [OF _ st2(1) [unfolded au_def]] st1(2) nk(2) wf_parts(1)
    by (auto simp: keys_same_def)
  then show ?thesis
    using e rq ed d key nk st1(2) by (auto simp: keys_same_def)
qed

lemma demo_register_ok:
  "parse_validated demo_relay_crates (json_register_daemon demo_relay_crates) validate_register_daemon b
    = Inr demo_register"
  "decode_public_key demo_relay_crates (rd_public_key demo_register) = Inr (replicate 32 66)"
proof -
  show "parse_validated demo_relay_crates (json_register_daemon demo_relay_crates)
      validate_register_daemon b = Inr demo_register"
  proof -
    have "ascii_between 40 128 (replicate 40 66)"
      by (simp add: ascii_between_def len_between_def is_ascii_def list_all_iff)
    then show ?thesis
      by (simp add: parse_validated_Inr demo_relay_crates_def validate_register_daemon_def
          demo_register_def demo_strings)
  qed
  show "decode_public_key demo_relay_crates (rd_public_key demo_register) = Inr (replicate 32 66)"
    by (simp add: decode_public_key_Inr demo_relay_crates_def demo_register_def)
qed

lemma demo_env_fields [simp]: "t_entry demo_env = 1000" "t_verify demo_env = 1000"
  "t_check demo_env = 1000" "t_done demo_env = 1000" "db_ok demo_env c" "deliver demo_env x = None"
  by (simp_all add: demo_env_def)

lemma demo_register_fields: "rd_daemon_node_id demo_register = demo_daemon"
  "rd_nonce demo_register = Some demo_nonce" "rd_ts_ms demo_register = Some 1000"
  "rd_proof demo_register = None"
  by (simp_all add: demo_register_def)

lemma demo_rotation:
  "registered_key (relay_step demo_relay_crates demo_relay (demo_env, HttpPair [] demo_headers []))
    demo_daemon = Some (replicate 32 66)"
proof -
  obtain l n where l: "increment (client_identifier [] demo_headers (rs_trust_forwarded_for demo_relay))
      0 (rs_register_rate_limits demo_relay) = (l, n)" "n = 1"
    by (simp add: increment_def rate_count_def demo_fields Let_def u32_max_def)
  let ?sr = "signed_post (lit ''/v1/pair'') [] demo_headers demo_daemon demo_nonce 1000"
  define st1 where "st1 = fst (verify_signed_request demo_relay_crates demo_env
    (demo_relay\<lparr>rs_register_rate_limits := l\<rparr>) ?sr)"
  have v: "verify_signed_request demo_relay_crates demo_env
      (demo_relay\<lparr>rs_register_rate_limits := l\<rparr>) ?sr = (st1, Inr ())"
    unfolding st1_def by (subst demo_verify_limits) (simp_all add: signed_post_def demo_verify_limits)
  have st1: "rs_daemons st1 = [(demo_daemon, \<lparr>dr_public_key = demo_key, dr_updated_at_ms = 1000\<rparr>)]"
    unfolding st1_def by (subst demo_verify_limits) (simp_all add: signed_post_def)
  have key: "demo_key \<noteq> replicate 32 66" by (simp add: demo_key_def)
  have auth: "authorize_registration demo_relay_crates demo_env
      (demo_relay\<lparr>rs_register_rate_limits := l\<rparr>) demo_headers [] demo_register (replicate 32 66) =
      (st1, Inr (Some \<lparr>dr_public_key = demo_key, dr_updated_at_ms = 500\<rparr>))"
    using v key by (simp add: authorize_registration_def daemon_capacity_exceeded_def MAX_DAEMONS_def
        demo_fields tbl_get_def Let_def demo_register_fields)
  have com: "registered_key (fst (commit_registration demo_env st1 demo_daemon (replicate 32 66)
      (Some \<lparr>dr_public_key = demo_key, dr_updated_at_ms = 500\<rparr>))) demo_daemon = Some (replicate 32 66)"
    by (simp add: commit_registration_def daemon_capacity_exceeded_def MAX_DAEMONS_def st1
        registered_key_def tbl_get_def store_call_def Let_def split: option.split)
  show ?thesis
    using l auth com by (simp add: relay_step_def register_daemon_def demo_register_ok demo_register_fields Let_def
        REGISTER_ATTEMPTS_PER_MINUTE_def demo_fields)
qed

theorem daemon_key_authorized_witness:
  "signed_registration demo_relay_crates (rs_registration_audience demo_relay) demo_headers []
    demo_register demo_key"
proof -
  have "registered_key demo_relay demo_daemon = Some demo_key"
    by (simp add: registered_key_def demo_fields tbl_get_def)
  moreover have "demo_key \<noteq> replicate 32 66" by (simp add: demo_key_def)
  ultimately show ?thesis
    using daemon_key_authorized [OF demo_relay_wf, of "HttpPair [] demo_headers []" demo_daemon demo_key
        demo_relay_crates demo_env] demo_rotation demo_register_ok(1)
    by (auto simp: demo_fields)
qed

end
