(* ===== verification/RelayBounds.thy ===== *)
theory RelayBounds
  imports RelayProps
begin

text \<open>
  What bounds the relay's memory: the number of daemons, one pairing code and sixteen push
  tokens per daemon, entries only of registered daemons.
\<close>

section \<open>Entries belong to registered daemons, one code each\<close>

definition relay_sound :: "relay_state \<Rightarrow> bool" where
  "relay_sound st \<longleftrightarrow> relay_wf st \<and> length (rs_daemons st) \<le> MAX_DAEMONS \<and>
     (\<forall>tk w. tbl_get (rs_tokens st) tk = Some w \<longrightarrow> registered_key st (tk_daemon_node_id w) \<noteq> None) \<and>
     (\<forall>c e. tbl_get (rs_pairing_codes st) c = Some e \<longrightarrow> registered_key st (ce_daemon_node_id e) \<noteq> None) \<and>
     (\<forall>c e c' e'. tbl_get (rs_pairing_codes st) c = Some e \<longrightarrow>
        tbl_get (rs_pairing_codes st) c' = Some e' \<longrightarrow>
        ce_daemon_node_id e = ce_daemon_node_id e' \<longrightarrow> c = c')"

lemma soundI:
  assumes "relay_sound st" and "relay_wf st'" and "length (rs_daemons st') \<le> MAX_DAEMONS"
    and "\<And>tk w. tbl_get (rs_tokens st') tk = Some w \<Longrightarrow> registered_key st' (tk_daemon_node_id w) \<noteq> None"
    and "\<And>c e. tbl_get (rs_pairing_codes st') c = Some e \<Longrightarrow>
      registered_key st' (ce_daemon_node_id e) \<noteq> None \<and> tbl_get (rs_pairing_codes st) c = Some e"
  shows "relay_sound st'"
proof -
  have "c = c'" if "tbl_get (rs_pairing_codes st') c = Some e" "tbl_get (rs_pairing_codes st') c' = Some e'"
    "ce_daemon_node_id e = ce_daemon_node_id e'" for c e c' e'
  proof -
    have "tbl_get (rs_pairing_codes st) c = Some e" "tbl_get (rs_pairing_codes st) c' = Some e'"
      using assms(5) that(1,2) by blast+
    then show ?thesis using assms(1) that(3) unfolding relay_sound_def by metis
  qed
  then show ?thesis
    using assms(2-5) by (simp add: relay_sound_def)
qed

lemma soundD:
  assumes "relay_sound st"
  shows "relay_wf st" "length (rs_daemons st) \<le> MAX_DAEMONS"
    "tbl_get (rs_tokens st) tk = Some w \<Longrightarrow> registered_key st (tk_daemon_node_id w) \<noteq> None"
    "tbl_get (rs_pairing_codes st) c = Some e \<Longrightarrow> registered_key st (ce_daemon_node_id e) \<noteq> None"
  using assms unfolding relay_sound_def by blast+

text \<open>The tables after a prune of memory.\<close>

lemma prune_memory_fields:
  obtains P where "rs_daemons (prune_memory now st) = tbl_retain P (rs_daemons st)"
      "\<not> rs_prune_stale_daemons st \<longrightarrow> rs_daemons (prune_memory now st) = rs_daemons st"
      "rs_tokens (prune_memory now st) = tbl_retain (\<lambda>_ w.
        \<not> push_token_is_stale (tk_updated_at_ms w) now \<and> (rs_prune_stale_daemons st \<longrightarrow>
          tbl_get (rs_daemons (prune_memory now st)) (tk_daemon_node_id w) \<noteq> None)) (rs_tokens st)"
      "rs_pairing_codes (prune_memory now st) = tbl_retain (\<lambda>_ e.
        now < ce_expires_at_ms e \<and> (rs_prune_stale_daemons st \<longrightarrow>
          tbl_get (rs_daemons (prune_memory now st)) (ce_daemon_node_id e) \<noteq> None)) (rs_pairing_codes st)"
proof (cases "rs_prune_stale_daemons st")
  case True
  then show ?thesis
    by (intro that [of "\<lambda>_ r. now - rs_daemon_retention_ms st \<le> dr_updated_at_ms r"])
      (simp_all add: prune_memory_def Let_def tbl_retain_retain)
next
  case False
  have "tbl_retain (\<lambda>_ _. True) t = t" for t :: "daemon_registration table"
    by (simp add: tbl_retain_def)
  with False show ?thesis
    by (intro that [of "\<lambda>_ _. True"]) (simp_all add: prune_memory_def Let_def)
qed

lemma prune_cases:
  fixes ok :: bool and now :: nat and st :: relay_state
  obtains "maybe_prune_expired_relay_state ok now st = st"
  | db where "maybe_prune_expired_relay_state ok now st =
      (prune_memory now (st\<lparr>rs_pruned_at_ms := now\<rparr>))\<lparr>rs_store := db\<rparr>"
proof (cases "now - rs_pruned_at_ms st < PRUNE_INTERVAL_MS")
  case True
  then show ?thesis
    by (intro that(1)) (simp add: maybe_prune_expired_relay_state_def)
next
  case False
  define m where "m = prune_memory now (st\<lparr>rs_pruned_at_ms := now\<rparr>)"
  have "maybe_prune_expired_relay_state ok now st = store_try ok (prune_expired_rows now
      (rs_prune_stale_daemons m) (rs_daemon_retention_ms m)) m"
    using False unfolding maybe_prune_expired_relay_state_def prune_expired_relay_state_def
      m_def [symmetric] Let_def by simp
  also have "\<dots> = m\<lparr>rs_store := if ok then map_option (prune_expired_rows now
      (rs_prune_stale_daemons m) (rs_daemon_retention_ms m)) (rs_store m) else rs_store m\<rparr>"
    by (simp add: store_try_def)
  finally show ?thesis
    by (intro that(2)) (simp add: m_def)
qed

lemma prune_memory_tokens: "\<exists>P. rs_tokens (prune_memory now st) = tbl_retain P (rs_tokens st)"
  by (rule prune_memory_fields [of now st]) blast

lemma sound_prune_memory:
  assumes "relay_sound st"
  shows "relay_sound (prune_memory now st)" (is "relay_sound ?st")
proof -
  have tok: "tbl_ok (rs_daemons st)" "tbl_ok (rs_tokens st)" "tbl_ok (rs_pairing_codes st)"
    using soundD(1) [OF assms] by (simp_all add: wf_parts)
  have wf: "relay_wf ?st" by (rule prune_memory_wf [OF soundD(1) [OF assms]])
  obtain P where f: "rs_daemons ?st = tbl_retain P (rs_daemons st)"
      "\<not> rs_prune_stale_daemons st \<longrightarrow> rs_daemons ?st = rs_daemons st"
      "rs_tokens ?st = tbl_retain (\<lambda>_ w.
        \<not> push_token_is_stale (tk_updated_at_ms w) now \<and> (rs_prune_stale_daemons st \<longrightarrow>
          tbl_get (rs_daemons ?st) (tk_daemon_node_id w) \<noteq> None)) (rs_tokens st)"
      "rs_pairing_codes ?st = tbl_retain (\<lambda>_ e.
        now < ce_expires_at_ms e \<and> (rs_prune_stale_daemons st \<longrightarrow>
          tbl_get (rs_daemons ?st) (ce_daemon_node_id e) \<noteq> None)) (rs_pairing_codes st)"
    by (rule prune_memory_fields)
  have act: "registered_key ?st d \<noteq> None" if "registered_key st d \<noteq> None"
    "rs_prune_stale_daemons st \<longrightarrow> tbl_get (rs_daemons ?st) d \<noteq> None" for d
    using that f(2) by (auto simp: registered_key_def)
  show ?thesis
  proof (rule soundI [OF assms wf])
    show "length (rs_daemons ?st) \<le> MAX_DAEMONS"
      using soundD(2) [OF assms] length_tbl_retain_le [of P "rs_daemons st"] by (simp add: f(1))
  next
    fix tk w
    assume "tbl_get (rs_tokens ?st) tk = Some w"
    then show "registered_key ?st (tk_daemon_node_id w) \<noteq> None"
      using soundD(3) [OF assms] act tok(2) by (auto simp: f(3) tbl_get_retain)
  next
    fix c e
    assume "tbl_get (rs_pairing_codes ?st) c = Some e"
    then show "registered_key ?st (ce_daemon_node_id e) \<noteq> None \<and>
        tbl_get (rs_pairing_codes st) c = Some e"
      using soundD(4) [OF assms] act tok(3) by (auto simp: f(4) tbl_get_retain)
  qed
qed

lemma sound_frame:
  "relay_sound st \<Longrightarrow> relay_wf st' \<Longrightarrow> rs_daemons st' = rs_daemons st \<Longrightarrow> rs_tokens st' = rs_tokens st \<Longrightarrow>
    rs_pairing_codes st' = rs_pairing_codes st \<Longrightarrow> relay_sound st'"
  by (simp add: relay_sound_def registered_key_def)

lemma sound_prune:
  assumes "relay_sound st"
  shows "relay_sound (maybe_prune_expired_relay_state ok now st)" (is "relay_sound ?st")
proof -
  have wf: "relay_wf ?st" by (rule prune_wf [OF soundD(1) [OF assms]])
  have "relay_wf (st\<lparr>rs_pruned_at_ms := now\<rparr>)" using soundD(1) [OF assms] by (simp add: relay_wf_def)
  then have s: "relay_sound (prune_memory now (st\<lparr>rs_pruned_at_ms := now\<rparr>))"
    by (intro sound_prune_memory sound_frame [OF assms]) simp_all
  show ?thesis
    by (cases rule: prune_cases [of ok now st])
      (use assms in simp, use wf in \<open>auto intro: sound_frame [OF s]\<close>)
qed

lemma commit_frame:
  "rs_tokens (fst (commit_registration env st d key existing)) = rs_tokens st"
  "rs_pairing_codes (fst (commit_registration env st d key existing)) = rs_pairing_codes st"
proof -
  define r where "r = \<lparr>dr_public_key = key, dr_updated_at_ms = t_done env\<rparr>"
  define st1 where "st1 = st\<lparr>rs_daemons := tbl_insert d r (rs_daemons st)\<rparr>"
  obtain st2 v where c: "store_call (db_ok env CallSaveDaemon) (save_daemon d r) st1 = (st2, v)"
    by (cases "store_call (db_ok env CallSaveDaemon) (save_daemon d r) st1")
  then have "rs_tokens st2 = rs_tokens st" "rs_pairing_codes st2 = rs_pairing_codes st"
    by (auto simp: store_call_def fail_internal_def st1_def split: option.splits if_splits)
  moreover have "rs_tokens (rollback_daemon_registration d existing r st2) = rs_tokens st2"
    "rs_pairing_codes (rollback_daemon_registration d existing r st2) = rs_pairing_codes st2"
    by (simp_all add: rollback_daemon_registration_def split: option.split)
  ultimately show
    "rs_tokens (fst (commit_registration env st d key existing)) = rs_tokens st"
    "rs_pairing_codes (fst (commit_registration env st d key existing)) = rs_pairing_codes st"
    using c unfolding commit_registration_def Let_def
    by (cases v; simp add: r_def [symmetric] st1_def [symmetric])+
qed

lemma commit_length:
  assumes ok: "tbl_ok (rs_daemons st)" and len: "length (rs_daemons st) \<le> MAX_DAEMONS"
    and same: "existing = None \<longleftrightarrow> tbl_get (rs_daemons st) d = None"
  shows "length (rs_daemons (fst (commit_registration env st d key existing))) \<le> MAX_DAEMONS"
proof (cases "daemon_capacity_exceeded st d MAX_DAEMONS")
  case True
  with len show ?thesis by (simp add: commit_registration_def Let_def)
next
  case False
  define r where "r = \<lparr>dr_public_key = key, dr_updated_at_ms = t_done env\<rparr>"
  define st1 where "st1 = st\<lparr>rs_daemons := tbl_insert d r (rs_daemons st)\<rparr>"
  obtain st2 v where c: "store_call (db_ok env CallSaveDaemon) (save_daemon d r) st1 = (st2, v)"
    by (cases "store_call (db_ok env CallSaveDaemon) (save_daemon d r) st1")
  have d2: "rs_daemons st2 = tbl_insert d r (rs_daemons st)"
    using c by (auto simp: store_call_def fail_internal_def st1_def split: option.splits if_splits)
  then have l2: "length (rs_daemons st2) \<le> MAX_DAEMONS"
    using False len ok by (auto simp: length_tbl_insert daemon_capacity_exceeded_def)
  moreover have "length (rs_daemons (rollback_daemon_registration d existing r st2)) \<le> MAX_DAEMONS"
  proof (cases existing)
    case None
    then show ?thesis
      using l2 length_tbl_remove_le [of d "rs_daemons st2"]
      by (auto simp: rollback_daemon_registration_def)
  next
    case (Some p)
    have "length (tbl_insert d p (rs_daemons st2)) = length (rs_daemons st2)"
      using ok by (simp add: length_tbl_insert d2 tbl_insert_ok tbl_get_insert)
    then show ?thesis
      using Some l2 by (simp add: rollback_daemon_registration_def)
  qed
  ultimately show ?thesis
    using c len unfolding commit_registration_def Let_def
    by (cases v) (simp_all add: r_def [symmetric] st1_def [symmetric])
qed

lemma store_call_frame:
  assumes "store_call ok f st = (st', Inr u)"
  shows "rs_tokens st' = rs_tokens st" "rs_pairing_codes st' = rs_pairing_codes st"
    "rs_daemons st' = rs_daemons st" "rs_metrics st' = rs_metrics st"
    "rs_prune_stale_daemons st' = rs_prune_stale_daemons st"
    "rs_daemon_retention_ms st' = rs_daemon_retention_ms st"
  using assms by (auto simp: store_call_def fail_internal_def split: option.splits if_splits)

lemma evict_codes_lookup:
  assumes ok: "tbl_ok (rs_pairing_codes st)"
    and ev: "evict_codes_for_daemon d keep st = (st1, old)"
  shows "rs_daemons st1 = rs_daemons st" "rs_tokens st1 = rs_tokens st"
    "tbl_get (rs_pairing_codes st1) c = Some e \<longleftrightarrow>
      tbl_get (rs_pairing_codes st) c = Some e \<and> (ce_daemon_node_id e = d \<longrightarrow> c = keep)"
    "c \<in> set old \<longleftrightarrow> (\<exists>e. tbl_get (rs_pairing_codes st) c = Some e \<and> ce_daemon_node_id e = d \<and> c \<noteq> keep)"
proof -
  have old: "c \<in> set old \<longleftrightarrow>
      (\<exists>e. tbl_get (rs_pairing_codes st) c = Some e \<and> ce_daemon_node_id e = d \<and> c \<noteq> keep)" for c
  proof -
    have "old = map fst (filter (\<lambda>(code, entry). ce_daemon_node_id entry = d \<and> code \<noteq> keep)
        (rs_pairing_codes st))"
      using ev unfolding evict_codes_for_daemon_def Let_def prod.inject by blast
    then have "c \<in> set old \<longleftrightarrow> (\<exists>e. (c, e) \<in> set (rs_pairing_codes st) \<and>
        ce_daemon_node_id e = d \<and> c \<noteq> keep)"
      by (simp only: set_map set_filter) force
    then show ?thesis
      by (simp only: tbl_get_set [OF ok])
  qed
  then show "c \<in> set old \<longleftrightarrow>
      (\<exists>e. tbl_get (rs_pairing_codes st) c = Some e \<and> ce_daemon_node_id e = d \<and> c \<noteq> keep)" .
  have st1: "st1 = st\<lparr>rs_pairing_codes := fold tbl_remove old (rs_pairing_codes st)\<rparr>"
    using ev unfolding evict_codes_for_daemon_def Let_def prod.inject by blast
  then show "rs_daemons st1 = rs_daemons st" "rs_tokens st1 = rs_tokens st" by simp_all
  show "tbl_get (rs_pairing_codes st1) c = Some e \<longleftrightarrow>
      tbl_get (rs_pairing_codes st) c = Some e \<and> (ce_daemon_node_id e = d \<longrightarrow> c = keep)"
    using old by (auto simp: st1 tbl.lookup_remove_all [OF ok] split: if_splits)
qed

lemma delete_codes_frame:
  "rs_daemons (delete_codes env cs s) = rs_daemons s \<and> rs_tokens (delete_codes env cs s) = rs_tokens s \<and>
   rs_pairing_codes (delete_codes env cs s) = rs_pairing_codes s"
  by (rule delete_codes_inv [where P = "\<lambda>t. rs_daemons t = rs_daemons s \<and> rs_tokens t = rs_tokens s \<and>
      rs_pairing_codes t = rs_pairing_codes s"]) (simp_all add: store_try_def)

text \<open>What a publish leaves: on success the new code and the other daemons' codes; on an error
  still none of the codes it supersedes.\<close>

lemma store_code_lookup:
  assumes ok: "tbl_ok (rs_pairing_codes st)"
  shows "rs_daemons (fst (store_code cr env st code entry)) = rs_daemons st"
    and "rs_tokens (fst (store_code cr env st code entry)) = rs_tokens st"
    and "tbl_get (rs_pairing_codes (fst (store_code cr env st code entry))) c =
      (if (\<exists>reply. snd (store_code cr env st code entry) = Inr reply) \<and> c = code then Some entry
       else if \<exists>e. tbl_get (rs_pairing_codes st) c = Some e \<and>
         ce_daemon_node_id e = ce_daemon_node_id entry \<and> c \<noteq> code then None
       else tbl_get (rs_pairing_codes st) c)"
proof -
  obtain st1 old where ev: "evict_codes_for_daemon (ce_daemon_node_id entry) code st = (st1, old)"
    by fastforce
  note look = evict_codes_lookup [OF ok ev]
  have none: "tbl_get (rs_pairing_codes st1) c = (if \<exists>e. tbl_get (rs_pairing_codes st) c = Some e \<and>
      ce_daemon_node_id e = ce_daemon_node_id entry \<and> c \<noteq> code then None
      else tbl_get (rs_pairing_codes st) c)" for c
  proof (cases "tbl_get (rs_pairing_codes st) c")
    case None
    then have "tbl_get (rs_pairing_codes st1) c \<noteq> Some e" for e by (simp add: look(3))
    then have "tbl_get (rs_pairing_codes st1) c = None" by (metis option.exhaust)
    with None show ?thesis by simp
  next
    case (Some e)
    then have "tbl_get (rs_pairing_codes st1) c = Some e' \<longleftrightarrow>
        e' = e \<and> (ce_daemon_node_id e = ce_daemon_node_id entry \<longrightarrow> c = code)" for e'
      by (auto simp: look(3))
    with Some show ?thesis by (cases "tbl_get (rs_pairing_codes st1) c") auto
  qed
  define save where "save = (\<lambda>payload. store_call (db_ok env CallSaveCode) (save_pairing_code code
      (ce_daemon_node_id entry) payload (ce_expires_at_ms entry) (t_done env)) (delete_codes env old st1))"
  have save: "rs_daemons (fst (save p)) = rs_daemons st1 \<and> rs_tokens (fst (save p)) = rs_tokens st1 \<and>
      rs_pairing_codes (fst (save p)) = rs_pairing_codes st1" for p
    by (simp add: save_def store_call_def fail_internal_def delete_codes_frame split: option.split)
  have body: "store_code cr env st code entry = (case stored_payload cr (ce_record entry) of
        None \<Rightarrow> fail_internal st1
      | Some payload \<Rightarrow> relay_bind (save payload)
          (\<lambda>st _. (st\<lparr>rs_pairing_codes := tbl_insert code entry (rs_pairing_codes st),
             rs_metrics := (rs_metrics st)\<lparr>pairing_code_publishes :=
               wrap_add64 (pairing_code_publishes (rs_metrics st)) 1\<rparr>\<rparr>, Inr Created)))"
    by (simp only: store_code_def ev Let_def prod.case save_def)
  have "rs_daemons (fst (store_code cr env st code entry)) = rs_daemons st1 \<and>
    rs_tokens (fst (store_code cr env st code entry)) = rs_tokens st1 \<and>
    tbl_get (rs_pairing_codes (fst (store_code cr env st code entry))) c =
      (if (\<exists>reply. snd (store_code cr env st code entry) = Inr reply) \<and> c = code then Some entry
       else tbl_get (rs_pairing_codes st1) c)"
  proof (cases "stored_payload cr (ce_record entry)")
    case None
    then show ?thesis unfolding body by (simp add: fail_internal_def)
  next
    case (Some payload)
    obtain st2 v where s: "save payload = (st2, v)" by fastforce
    with save [of payload] show ?thesis
      unfolding body Some by (cases v) (auto simp: tbl_get_insert)
  qed
  then show "rs_daemons (fst (store_code cr env st code entry)) = rs_daemons st"
    and "rs_tokens (fst (store_code cr env st code entry)) = rs_tokens st"
    and "tbl_get (rs_pairing_codes (fst (store_code cr env st code entry))) c =
      (if (\<exists>reply. snd (store_code cr env st code entry) = Inr reply) \<and> c = code then Some entry
       else if \<exists>e. tbl_get (rs_pairing_codes st) c = Some e \<and>
         ce_daemon_node_id e = ce_daemon_node_id entry \<and> c \<noteq> code then None
       else tbl_get (rs_pairing_codes st) c)"
    using look(1,2) none by simp_all
qed

text \<open>Keys may be added, tokens and codes may go.\<close>

lemma sound_less:
  assumes "relay_sound st" and "relay_wf st'" and "length (rs_daemons st') \<le> MAX_DAEMONS"
    and "\<And>d. registered_key st d \<noteq> None \<Longrightarrow> registered_key st' d \<noteq> None"
    and "\<And>tk w. tbl_get (rs_tokens st') tk = Some w \<Longrightarrow> \<exists>v. tbl_get (rs_tokens st) tk = Some v \<and>
      tk_daemon_node_id v = tk_daemon_node_id w"
    and "\<And>c e. tbl_get (rs_pairing_codes st') c = Some e \<Longrightarrow> tbl_get (rs_pairing_codes st) c = Some e"
  shows "relay_sound st'"
proof (rule soundI [OF assms(1-3)])
  fix tk w
  assume "tbl_get (rs_tokens st') tk = Some w"
  then obtain v where "tbl_get (rs_tokens st) tk = Some v" "tk_daemon_node_id v = tk_daemon_node_id w"
    using assms(5) by blast
  with soundD(3) [OF assms(1)] assms(4) show "registered_key st' (tk_daemon_node_id w) \<noteq> None" by metis
next
  fix c e
  assume "tbl_get (rs_pairing_codes st') c = Some e"
  with assms(6) soundD(4) [OF assms(1)] assms(4)
  show "registered_key st' (ce_daemon_node_id e) \<noteq> None \<and> tbl_get (rs_pairing_codes st) c = Some e"
    by blast
qed

lemma sound_store_code:
  assumes s: "relay_sound st" and reg: "registered_key st (ce_daemon_node_id entry) \<noteq> None"
  shows "relay_sound (fst (store_code cr env st code entry))" (is "relay_sound ?st")
proof -
  note look = store_code_lookup [OF wf_parts(3) [OF soundD(1) [OF s]], of cr env code entry]
  have key: "registered_key ?st = registered_key st"
    by (simp add: registered_key_def look(1) fun_eq_iff)
  have codes: "(c = code \<and> e = entry) \<or> (tbl_get (rs_pairing_codes st) c = Some e \<and>
      (ce_daemon_node_id e = ce_daemon_node_id entry \<longrightarrow> c = code))"
    if "tbl_get (rs_pairing_codes ?st) c = Some e" for c e
    using that by (auto simp: look(3) split: if_splits)
  have wf: "relay_wf ?st" by (rule store_code_wf [OF soundD(1) [OF s]])
  have one: "c = c'" if "tbl_get (rs_pairing_codes ?st) c = Some e"
    "tbl_get (rs_pairing_codes ?st) c' = Some e'" "ce_daemon_node_id e = ce_daemon_node_id e'" for c e c' e'
  proof -
    have "\<lbrakk>tbl_get (rs_pairing_codes st) c = Some e; tbl_get (rs_pairing_codes st) c' = Some e'\<rbrakk> \<Longrightarrow> c = c'"
      using s that(3) unfolding relay_sound_def by metis
    with codes [OF that(1)] codes [OF that(2)] that(3) show ?thesis by auto
  qed
  have "registered_key st (ce_daemon_node_id e) \<noteq> None" if "tbl_get (rs_pairing_codes ?st) c = Some e" for c e
    using codes [OF that] reg soundD(4) [OF s] by auto
  then show ?thesis
    using wf soundD(2,3) [OF s] one by (auto simp: relay_sound_def key look(1,2))
qed

interpretation sound: relay_kept cr env "\<lambda>_ _. True" "\<lambda>_ _. True" relay_sound for cr env
proof unfold_locales
  fix st :: relay_state and entry :: pairing_code_entry and code
  assume "relay_sound st" "registered_key st (ce_daemon_node_id entry) \<noteq> None"
  then show "relay_sound (fst (store_code cr env st code entry))" by (rule sound_store_code)
next
  fix st code
  assume s: "relay_sound st"
  have "registered_key (forget_pairing_code env code st) = registered_key st"
    by (simp add: forget_pairing_code_def delete_codes_keys)
  then show "relay_sound (forget_pairing_code env code st)"
    using wf.kept_forget [OF soundD(1) [OF s]] soundD(2) [OF s]
    by (intro sound_less [OF s])
      (auto simp: forget_pairing_code_def delete_codes_frame tbl_get_remove split: if_splits)
next
  fix st st' tk
  assume s: "relay_sound st"
    and c: "store_call (db_ok env CallRemoveToken) (remove_token tk) st = (st', Inr ())"
  show "relay_sound (st'\<lparr>rs_tokens := tbl_remove tk (rs_tokens st')\<rparr>)"
    using wf.kept_remove_token [OF soundD(1) [OF s] c] soundD(2) [OF s]
    by (intro sound_less [OF s]) (auto simp: store_call_frame [OF c] store_call_keys [OF c]
        tbl_get_remove split: if_splits)
next
  fix st st' tk
  assume s: "relay_sound st"
    and c: "store_call (db_ok env CallTouchToken) (touch_token tk (t_done env)) st = (st', Inr ())"
  show "relay_sound (st'\<lparr>rs_tokens := tbl_update tk
      (\<lambda>w. w\<lparr>tk_updated_at_ms := t_done env\<rparr>) (rs_tokens st')\<rparr>)"
    using wf.kept_touch_token [OF soundD(1) [OF s] c] soundD(2) [OF s]
    by (intro sound_less [OF s]) (auto simp: store_call_frame [OF c] store_call_keys [OF c]
        tbl_get_update split: if_splits)
next
  fix st st' tk d pf
  assume s: "relay_sound st" and reg: "registered_key st d \<noteq> None"
    and c: "store_call (db_ok env CallSaveToken) (save_token tk d pf (t_done env)) st = (st', Inr ())"
  show "relay_sound (st'\<lparr>rs_tokens := tbl_insert tk \<lparr>tk_daemon_node_id = d,
      tk_platform = pf, tk_updated_at_ms = t_done env\<rparr> (rs_tokens st')\<rparr>)"
    using wf.kept_save_token [OF soundD(1) [OF s] reg c] soundD [OF s] reg
    by (intro soundI [OF s]) (auto simp: store_call_frame [OF c] store_call_keys [OF c]
        tbl_get_insert split: if_splits)
next
  fix st d key and existing :: "daemon_registration option"
  assume s: "relay_sound st" and "existing = None \<longleftrightarrow> tbl_get (rs_daemons st) d = None"
    and "map_option dr_public_key existing = registered_key st d"
  note reg = commit_registered [OF soundD(1) [OF s] this(2,3), of env key]
  have "length (rs_daemons (fst (commit_registration env st d key existing))) \<le> MAX_DAEMONS"
    by (rule commit_length [OF wf_parts(1) [OF soundD(1) [OF s]] soundD(2) [OF s]]) fact
  then show "relay_sound (fst (commit_registration env st d key existing))"
    using commit_wf [OF soundD(1) [OF s]]
    by (intro sound_less [OF s]) (auto simp: commit_frame reg split: sum.split)
next
  fix st db d key n t db'
  assume s: "relay_sound st" and a: "rs_store st = Some db" "registered_key st d = Some key"
    "record_authenticated_activity d n t (t_verify env) db = (db', True)"
  show "relay_sound (touch_daemon env d key (st\<lparr>rs_store := Some db'\<rparr>))"
    using wf.kept_activity [OF soundD(1) [OF s] a] soundD(2) [OF s]
    by (intro sound_less [OF s]) (simp_all, simp_all add: touch_daemon_def)
next
  fix st d key
  assume s: "relay_sound st" and a: "rs_store st = None" "registered_key st d = Some key"
  show "relay_sound (touch_daemon env d key st)"
    using wf.kept_touch [OF soundD(1) [OF s] a] soundD(2) [OF s]
    by (intro sound_less [OF s]) (simp_all, simp_all add: touch_daemon_def)
next
  fix st db d n t
  assume s: "relay_sound st" and a: "rs_store st = Some db"
  show "relay_sound (st\<lparr>rs_store := Some (fst (insert_nonce d n t db))\<rparr>)"
    by (rule sound_frame [OF s wf.kept_insert_nonce [OF soundD(1) [OF s] a]]) simp_all
next
  fix st nk t
  assume s: "relay_sound st"
  show "relay_sound (st\<lparr>rs_seen_nonces := AList.update nk t (rs_seen_nonces st)\<rparr>)"
    by (rule sound_frame [OF s wf.kept_nonce [OF soundD(1) [OF s]]]) simp_all
qed (simp_all add: soundD(1) wf_parts sound_prune,
    simp_all add: relay_sound_def relay_wf_def registered_key_def)

lemma run_sound:
  "relay_sound st \<Longrightarrow> \<forall>(env, ev) \<in> set es. ev \<noteq> RelayRestart \<Longrightarrow> relay_sound (foldl (relay_step cr) st es)"
  by (induction es arbitrary: st) (auto intro: sound.kept_answer)

text \<open>C34 [relay_state_bounded].  However many requests a relay serves, it holds at most a
  million daemons, its push tokens and pairing codes belong to daemons it holds, and a daemon
  has at most one pairing code.\<close>

theorem relay_state_bounded:
  assumes "relay_sound st" and "\<forall>(env, ev) \<in> set es. ev \<noteq> RelayRestart"
    and run: "st' = foldl (relay_step cr) st es"
  shows "length (rs_daemons st') \<le> MAX_DAEMONS \<and>
    (\<forall>(tk, w) \<in> set (rs_tokens st'). registered_key st' (tk_daemon_node_id w) \<noteq> None) \<and>
    (\<forall>(c, e) \<in> set (rs_pairing_codes st'). registered_key st' (ce_daemon_node_id e) \<noteq> None \<and>
      (\<forall>(c', e') \<in> set (rs_pairing_codes st'). ce_daemon_node_id e' = ce_daemon_node_id e \<longrightarrow> c' = c))"
proof -
  have s: "relay_sound st'"
    unfolding run by (rule run_sound [OF assms(1,2)])
  then have ok: "tbl_ok (rs_tokens st')" "tbl_ok (rs_pairing_codes st')"
    using soundD(1) wf_parts by blast+
  show ?thesis
    using s unfolding relay_sound_def tbl_get_set [OF ok(1)] tbl_get_set [OF ok(2)] by fast
qed

section \<open>Sixteen tokens per daemon\<close>

definition owned :: "relay_state \<Rightarrow> rstr \<Rightarrow> rstr set" where
  "owned st d = {tk. \<exists>w. tbl_get (rs_tokens st) tk = Some w \<and> tk_daemon_node_id w = d}"

lemma length_tokens_of: "tbl_ok (rs_tokens st) \<Longrightarrow> length (tokens_of st d) = card (owned st d)"
proof -
  assume ok: "tbl_ok (rs_tokens st)"
  let ?f = "filter (\<lambda>(_, w). tk_daemon_node_id w = d) (rs_tokens st)"
  have "owned st d = fst ` set ?f"
    by (force simp: owned_def tbl_get_set [OF ok])
  moreover have "distinct (map fst ?f)"
    by (rule distinct_map_filter [OF tbl_ok_distinct [OF ok]])
  ultimately show ?thesis
    by (metis distinct_card length_map set_map tokens_of_def)
qed

lemma finite_owned: "finite (owned st d)"
proof -
  have "owned st d \<subseteq> fst ` set (rs_tokens st)"
    by (auto simp: owned_def tbl_get_def dest!: map_of_SomeD intro: rev_image_eqI)
  then show ?thesis by (rule finite_subset) simp
qed

lemma oldest_None: "oldest xs = None \<longleftrightarrow> xs = []"
  by (cases xs) (auto split: option.split)

lemma oldest_Some: "oldest xs = Some x \<Longrightarrow> x \<in> set xs"
  by (induction xs arbitrary: x) (auto split: option.splits if_splits)

lemma oldest_mem: "xs \<noteq> [] \<Longrightarrow> \<exists>x \<in> set xs. oldest xs = Some x"
  using oldest_None oldest_Some by (cases "oldest xs") blast+

lemma remove_binding_tokens:
  "remove_push_token_binding env tk st = (st', Inr u) \<Longrightarrow> rs_tokens st' = tbl_remove tk (rs_tokens st)"
  by (auto simp: remove_push_token_binding_def relay_bind_Inr store_call_frame)

lemma store_binding_tokens:
  "store_token_binding env st rq = (st', Inr u) \<Longrightarrow> rs_tokens st' = tbl_insert (rt_push_token rq)
    \<lparr>tk_daemon_node_id = rt_daemon_node_id rq, tk_platform = rt_platform rq,
     tk_updated_at_ms = t_done env\<rparr> (rs_tokens st)"
  by (auto simp: store_token_binding_def relay_bind_Inr store_call_frame)

lemma verify_tokens:
  assumes "verify_signed_request_with_pre_nonce_check cr env st r (pre_check env ev d) = (st1, Inr ())"
  shows "rs_tokens st1 =
    rs_tokens (maybe_prune_expired_relay_state (db_ok env CallPrune) (t_verify env) st)"
proof -
  define stp where "stp = maybe_prune_expired_relay_state (db_ok env CallPrune) (t_verify env) st"
  from verify_Inr [OF assms] obtain key where
    adm: "admit_request env stp r key (pre_check env ev d) = (st1, Inr ())"
    unfolding stp_def by blast
  then obtain s1 s2 where pre: "pre_check env ev d stp = (s1, Inr ())"
    and s2: "s2 = s1\<lparr>rs_seen_nonces :=
      AList.update (sr_daemon_node_id r, sr_nonce r) (sr_ts_ms r) (rs_seen_nonces s1)\<rparr>"
    and out: "rs_store s1 = None \<and> st1 = touch_daemon env (sr_daemon_node_id r) key s2 \<or>
      (\<exists>db db'. rs_store s1 = Some db \<and> db_ok env CallActivity \<and>
        record_authenticated_activity (sr_daemon_node_id r) (sr_nonce r) (sr_ts_ms r)
          (t_verify env) db = (db', True) \<and>
        st1 = touch_daemon env (sr_daemon_node_id r) key (s2\<lparr>rs_store := Some db'\<rparr>))"
    by (rule admit_Inr)
  obtain l where "s1 = stp\<lparr>rs_token_register_rate_limits := l\<rparr>"
    using pre_check_frame [of env ev d stp] pre by auto
  with s2 out show ?thesis
    by (auto simp: touch_daemon_def stp_def)
qed

lemma evict_within_cap:
  assumes ok: "tbl_ok (rs_tokens st)" and few: "card (owned st d) \<le> MAX_TOKENS_PER_DAEMON"
    and own: "\<And>w. tbl_get (rs_tokens st) tk = Some w \<Longrightarrow> tk_daemon_node_id w = d"
  shows "card (insert tk (case token_evicted_by_cap st d tk of None \<Rightarrow> owned st d
    | Some old \<Rightarrow> owned st d - {old})) \<le> MAX_TOKENS_PER_DAEMON"
proof (cases "tbl_get (rs_tokens st) tk")
  case (Some w)
  then have "tk \<in> owned st d" using own by (auto simp: owned_def)
  with Some few show ?thesis
    by (simp add: token_evicted_by_cap_def insert_absorb)
next
  case None
  show ?thesis
  proof (cases "length (tokens_of st d) < MAX_TOKENS_PER_DAEMON")
    case True
    with None few show ?thesis
      using length_tokens_of [OF ok, of d] finite_owned [of st d]
      by (simp add: token_evicted_by_cap_def card_insert_if)
  next
    case False
    then have "tokens_of st d \<noteq> []" by (auto simp: MAX_TOKENS_PER_DAEMON_def)
    then obtain x where x: "x \<in> set (tokens_of st d)" "oldest (tokens_of st d) = Some x"
      using oldest_mem by blast
    then have "fst x \<in> owned st d"
      by (auto simp: tokens_of_def owned_def tbl_get_set [OF ok])
    then have "card (owned st d - {fst x}) < card (owned st d)"
      using finite_owned by (intro card_Diff1_less) auto
    with few have "card (insert tk (owned st d - {fst x})) \<le> MAX_TOKENS_PER_DAEMON"
      using finite_owned [of st d] by (auto simp: card_insert_if)
    with None False x show ?thesis
      by (simp add: token_evicted_by_cap_def)
  qed
qed

text \<open>[token_cap_kept].  Registering a push token that is new, or already the daemon's own,
  leaves the daemon with at most sixteen tokens: the oldest goes when there would be more.\<close>

theorem token_cap_kept:
  assumes wf: "relay_wf st" and ans: "register_token cr env h b st = (st', Inr reply)"
    and rq: "parse_validated cr (json_register_token cr) validate_register_token b = Inr rq"
    and own: "\<forall>w. tbl_get (rs_tokens st) (rt_push_token rq) = Some w \<longrightarrow>
      tk_daemon_node_id w = rt_daemon_node_id rq"
    and few: "length (tokens_of st (rt_daemon_node_id rq)) \<le> MAX_TOKENS_PER_DAEMON"
  shows "length (tokens_of st' (rt_daemon_node_id rq)) \<le> MAX_TOKENS_PER_DAEMON"
proof -
  define d tk where "d = rt_daemon_node_id rq" and "tk = rt_push_token rq"
  let ?r = "signed_post (lit ''/v1/push/register-token'') b h d (rt_nonce rq) (rt_ts_ms rq)"
  obtain st1 where v: "verify_signed_request_with_pre_nonce_check cr env st ?r
      (pre_check env (HttpRegisterToken h b) d) = (st1, Inr ())"
    and rest: "relay_bind (case token_evicted_by_cap st1 d tk of None \<Rightarrow> (st1, Inr ())
        | Some evicted \<Rightarrow> remove_push_token_binding env evicted st1)
      (\<lambda>st _. store_token_binding env st rq) = (st', Inr reply)"
    using ans rq by (auto simp: register_token_def relay_bind_Inr pre_check_def d_def tk_def)
  have wf1: "relay_wf st1"
    using wf.kept_verify [OF wf, of "pre_check env (HttpRegisterToken h b) d" cr env ?r] v
      pre_check_frame pre_check_registered by (metis fst_conv wf.kept_limits(4))
  have sub: "tbl_get (rs_tokens st) t = Some w" if "tbl_get (rs_tokens st1) t = Some w" for t w
  proof (cases rule: prune_cases [of "db_ok env CallPrune" "t_verify env" st])
    case 1
    with that show ?thesis by (simp add: verify_tokens [OF v])
  next
    case (2 db)
    obtain P where "rs_tokens (prune_memory (t_verify env) (st\<lparr>rs_pruned_at_ms := t_verify env\<rparr>)) =
        tbl_retain P (rs_tokens st)"
      using prune_memory_tokens [of "t_verify env" "st\<lparr>rs_pruned_at_ms := t_verify env\<rparr>"] by auto
    with that show ?thesis
      using wf_parts(2) [OF wf] by (simp add: verify_tokens [OF v] 2 tbl_get_retain)
  qed
  have "owned st1 d \<subseteq> owned st d" using sub by (auto simp: owned_def)
  then have few1: "card (owned st1 d) \<le> MAX_TOKENS_PER_DAEMON"
    using few length_tokens_of [OF wf_parts(2) [OF wf], of d] card_mono [OF finite_owned]
    by (metis d_def le_trans)
  have own1: "tk_daemon_node_id w = d" if "tbl_get (rs_tokens st1) tk = Some w" for w
    using own sub [OF that] by (simp add: d_def tk_def)
  from rest obtain st2 where e: "(case token_evicted_by_cap st1 d tk of None \<Rightarrow> (st1, Inr ())
        | Some evicted \<Rightarrow> remove_push_token_binding env evicted st1) = (st2, Inr ())"
    and sv: "store_token_binding env st2 rq = (st', Inr reply)"
    by (auto simp: relay_bind_Inr)
  have st2: "owned st2 d = (case token_evicted_by_cap st1 d tk of None \<Rightarrow> owned st1 d
    | Some old \<Rightarrow> owned st1 d - {old})"
    using e by (cases "token_evicted_by_cap st1 d tk")
      (auto simp: owned_def tbl_get_remove dest!: remove_binding_tokens split: if_splits)
  have "owned st' d \<subseteq> insert tk (owned st2 d)"
    using store_binding_tokens [OF sv] by (auto simp: owned_def tbl_get_insert tk_def split: if_splits)
  then have "card (owned st' d) \<le> card (insert tk (owned st2 d))"
    by (rule card_mono [rotated]) (simp add: finite_owned)
  also have "\<dots> \<le> MAX_TOKENS_PER_DAEMON"
    unfolding st2 by (rule evict_within_cap [OF wf_parts(2) [OF wf1] few1 own1])
  finally have "card (owned st' d) \<le> MAX_TOKENS_PER_DAEMON" .
  moreover have "relay_wf st'"
    using wf.kept_register_token [OF wf, of cr env h b] ans by simp
  ultimately show ?thesis
    by (simp add: length_tokens_of wf_parts d_def)
qed

end
