(* ===== verification/RelayLimits.thy ===== *)
theory RelayLimits
  imports RelayBounds
begin

text \<open>
  Witnesses for the bounds on the relay's tables, and the way around the bound on tokens.
\<close>

section \<open>A relay without a database\<close>

definition demo_limits :: "nat \<Rightarrow> rate_cache" where
  "demo_limits n = [(demo_daemon, 0) \<mapsto> n]"

lemma demo_verify_pre:
  assumes "registered_key st demo_daemon = Some demo_key" and "rs_pruned_at_ms st = 0"
    and "rs_seen_nonces st = []" and "rs_store st = None"
    and "sr_daemon_node_id r = demo_daemon" and "sr_nonce r = demo_nonce"
    and "sr_ts_ms r = 1000" and "sr_headers r = demo_headers"
    and "pre st = (st\<lparr>rs_token_register_rate_limits := l\<rparr>, Inr ())"
  shows "verify_signed_request_with_pre_nonce_check demo_relay_crates demo_env st r pre =
    (touch_daemon demo_env demo_daemon demo_key (st\<lparr>rs_token_register_rate_limits := l,
       rs_seen_nonces := [((demo_daemon, demo_nonce), 1000)]\<rparr>), Inr ())"
proof -
  have "maybe_prune_expired_relay_state ok 1000 st = st" for ok
    using assms(2) by (simp add: maybe_prune_expired_relay_state_def PRUNE_INTERVAL_MS_def)
  then show ?thesis
    using assms demo_signature [of st r]
    by (simp add: verify_signed_request_with_pre_nonce_check_def abs_diff_def admit_request_def Let_def)
qed

lemma demo_register_token_ok:
  "parse_validated demo_relay_crates (json_register_token demo_relay_crates) validate_register_token b
    = Inr demo_register_token"
  by (simp add: parse_validated_Inr demo_relay_crates_def validate_register_token_def
      demo_register_token_def demo_strings)

lemma demo_register_token_fields:
  "rt_daemon_node_id demo_register_token = demo_daemon" "rt_push_token demo_register_token = demo_token"
  "rt_nonce demo_register_token = demo_nonce" "rt_ts_ms demo_register_token = 1000"
  "rt_platform demo_register_token = Fcm"
  by (simp_all add: demo_register_token_def)

text \<open>The daemon registers a token that is known already.\<close>

lemma demo_register_token:
  assumes "registered_key st demo_daemon = Some demo_key" and "rs_pruned_at_ms st = 0"
    and "rs_seen_nonces st = []" and "rs_store st = None"
    and "rs_token_register_rate_limits st = Map.empty"
    and "tbl_get (rs_tokens st) demo_token \<noteq> None"
  shows "\<exists>st'. register_token demo_relay_crates demo_env demo_headers [] st = (st', Inr Created) \<and>
    rs_tokens st' = tbl_insert demo_token \<lparr>tk_daemon_node_id = demo_daemon, tk_platform = Fcm,
      tk_updated_at_ms = 1000\<rparr> (rs_tokens st)"
proof -
  let ?r = "signed_post (lit ''/v1/push/register-token'') [] demo_headers demo_daemon demo_nonce 1000"
  define st1 where "st1 = touch_daemon demo_env demo_daemon demo_key (st\<lparr>rs_token_register_rate_limits :=
    demo_limits 1, rs_seen_nonces := [((demo_daemon, demo_nonce), 1000)]\<rparr>)"
  have pre: "check_register_token_rate_limit demo_env demo_daemon st =
      (st\<lparr>rs_token_register_rate_limits := demo_limits 1\<rparr>, Inr ())"
    by (simp add: check_register_token_rate_limit_def increment_def rate_count_def assms(5) Let_def
        demo_limits_def u32_max_def REGISTER_TOKEN_ATTEMPTS_PER_MINUTE_def)
  have v: "verify_signed_request_with_pre_nonce_check demo_relay_crates demo_env st ?r
      (check_register_token_rate_limit demo_env demo_daemon) = (st1, Inr ())"
    unfolding st1_def by (rule demo_verify_pre) (simp_all add: signed_post_def assms(1-4) pre)
  have t: "rs_tokens st1 = rs_tokens st" "rs_store st1 = None"
    using assms(4) by (simp_all add: st1_def touch_daemon_def)
  have e: "token_evicted_by_cap st1 demo_daemon demo_token = None"
    using assms(6) t(1) by (simp add: token_evicted_by_cap_def)
  have "register_token demo_relay_crates demo_env demo_headers [] st =
      store_token_binding demo_env st1 demo_register_token"
    unfolding register_token_def demo_register_token_ok sum.case demo_register_token_fields v
      relay_bind_simps e option.case ..
  then show ?thesis
    by (simp add: store_token_binding_def store_call_def t demo_register_token_fields)
qed

section \<open>Properties\<close>

definition other_daemon :: rstr where "other_daemon = replicate 16 100"

text \<open>A daemon with sixteen tokens, and another daemon's token.\<close>

definition crowded_relay :: relay_state where
  "crowded_relay = relay_default\<lparr>
     rs_daemons := [(demo_daemon, \<lparr>dr_public_key = demo_key, dr_updated_at_ms = 500\<rparr>),
       (other_daemon, \<lparr>dr_public_key = demo_key, dr_updated_at_ms = 500\<rparr>)],
     rs_tokens := (demo_token, demo_owner\<lparr>tk_daemon_node_id := other_daemon\<rparr>) #
       map (\<lambda>i. (replicate 16 (100 + i), demo_owner)) [0..<16]\<rparr>"

lemma crowded_fields:
  "registered_key crowded_relay demo_daemon = Some demo_key" "rs_pruned_at_ms crowded_relay = 0"
  "rs_seen_nonces crowded_relay = []" "rs_store crowded_relay = None"
  "rs_token_register_rate_limits crowded_relay = Map.empty"
  "tbl_get (rs_tokens crowded_relay) demo_token = Some (demo_owner\<lparr>tk_daemon_node_id := other_daemon\<rparr>)"
  by (simp_all add: crowded_relay_def relay_default_def registered_key_def tbl_get_def)

text \<open>[token_cap_bypassed].  The bound does not hold in general: registering a token that is
  bound to another daemon takes it over without evicting any, so a daemon that has sixteen
  tokens gets a seventeenth.\<close>

theorem token_cap_bypassed:
  "length (tokens_of crowded_relay demo_daemon) = MAX_TOKENS_PER_DAEMON \<and>
   (\<exists>st'. register_token demo_relay_crates demo_env demo_headers [] crowded_relay = (st', Inr Created) \<and>
     length (tokens_of st' demo_daemon) = MAX_TOKENS_PER_DAEMON + 1)"
proof -
  have ne: "demo_daemon \<noteq> other_daemon" by (simp add: demo_daemon_def other_daemon_def)
  obtain st' where r: "register_token demo_relay_crates demo_env demo_headers [] crowded_relay = (st', Inr Created)"
    and t: "rs_tokens st' = tbl_insert demo_token \<lparr>tk_daemon_node_id = demo_daemon, tk_platform = Fcm,
      tk_updated_at_ms = 1000\<rparr> (rs_tokens crowded_relay)"
    using demo_register_token [OF crowded_fields(1-5)] crowded_fields(6) by auto
  let ?own = "map (\<lambda>i. (replicate 16 (100 + i), demo_owner)) [0..<16] :: token_owner table"
  have own: "filter (\<lambda>(_, w). tk_daemon_node_id w = demo_daemon) ?own = ?own"
    by (intro filter_True) (auto simp: demo_owner_def)
  have "rs_tokens crowded_relay = (demo_token, demo_owner\<lparr>tk_daemon_node_id := other_daemon\<rparr>) # ?own"
    by (simp add: crowded_relay_def relay_default_def del: upt_rec_numeral)
  moreover from this have "rs_tokens st' = (demo_token, \<lparr>tk_daemon_node_id = demo_daemon, tk_platform = Fcm,
      tk_updated_at_ms = 1000\<rparr>) # ?own"
    using t by (simp del: upt_rec_numeral)
  ultimately show ?thesis
    using r own ne by (simp add: tokens_of_def MAX_TOKENS_PER_DAEMON_def del: upt_rec_numeral)
qed

lemma demo_default_sound: "relay_sound relay_default"
  by (simp add: relay_sound_def relay_wf_def relay_default_def tbl_get_def)

theorem relay_state_bounded_witness:
  "length (rs_daemons (foldl (relay_step demo_relay_crates) relay_default
    [(demo_env, HttpPair [] demo_headers []), (demo_env, HttpRegisterToken demo_headers [])])) \<le> MAX_DAEMONS"
  using relay_state_bounded [OF demo_default_sound _ refl, of "[(demo_env, HttpPair [] demo_headers []),
    (demo_env, HttpRegisterToken demo_headers [])]" demo_relay_crates] by simp

lemma wf_memory: "relay_wf (st\<lparr>rs_store := None\<rparr>) \<longleftrightarrow> tbl_ok (rs_daemons st) \<and> tbl_ok (rs_tokens st) \<and>
    tbl_ok (rs_pairing_codes st) \<and> distinct (map fst (rs_seen_nonces st))"
  by (simp add: relay_wf_def)

theorem token_cap_kept_witness:
  "\<exists>st'. register_token demo_relay_crates demo_env demo_headers [] (demo_relay\<lparr>rs_store := None\<rparr>) =
      (st', Inr Created) \<and> length (tokens_of st' demo_daemon) \<le> MAX_TOKENS_PER_DAEMON"
proof -
  let ?st = "demo_relay\<lparr>rs_store := None\<rparr>"
  have "registered_key ?st demo_daemon = Some demo_key" "tbl_get (rs_tokens ?st) demo_token = Some demo_owner"
    by (simp_all add: registered_key_def demo_fields tbl_get_def)
  then obtain st' where r: "register_token demo_relay_crates demo_env demo_headers [] ?st = (st', Inr Created)"
    using demo_register_token [of ?st] by (auto simp: demo_fields)
  have wf: "relay_wf ?st" by (simp add: wf_memory demo_fields tbl_ok_def)
  have "length (tokens_of st' demo_daemon) \<le> MAX_TOKENS_PER_DAEMON"
    using token_cap_kept [OF wf r demo_register_token_ok] \<open>tbl_get _ _ = _\<close>
    by (simp add: demo_register_token_fields demo_owner_def tokens_of_def demo_fields MAX_TOKENS_PER_DAEMON_def)
  with r show ?thesis by blast
qed

end
