(* ===== verification/RelayMirror.thy ===== *)
theory RelayMirror
  imports RelayBounds
begin

text \<open>
  The database is the memory: as long as its calls succeed, the rows are the encodings of the
  daemons, tokens and codes in memory, so that a restart loads what a prune would have left.
\<close>

section \<open>The abstraction\<close>

definition row_of_daemon :: "daemon_registration \<Rightarrow> daemon_row" where
  "row_of_daemon r = \<lparr>dw_public_key = dr_public_key r, dw_updated_at_ms = as_i64 (dr_updated_at_ms r)\<rparr>"

definition row_of_token :: "token_owner \<Rightarrow> token_row" where
  "row_of_token w = \<lparr>tw_daemon_node_id = tk_daemon_node_id w,
     tw_platform = platform_as_str (tk_platform w), tw_updated_at_ms = as_i64 (tk_updated_at_ms w)\<rparr>"

text \<open>A code's row without the time of publication, which nothing reads.\<close>

definition row_core :: "code_row \<Rightarrow> rstr \<times> rstr \<times> int" where
  "row_core row = (cw_daemon_node_id row, cw_ticket_blob row, cw_expires_at_ms row)"

definition core_of_code :: "relay_crates \<Rightarrow> pairing_code_entry \<Rightarrow> rstr \<times> rstr \<times> int" where
  "core_of_code cr e = (ce_daemon_node_id e, the (stored_payload cr (ce_record e)),
     as_i64 (ce_expires_at_ms e))"

text \<open>Entries that survive the encoding: timestamps below \<open>2^63\<close>, keys that decode, and a payload
  the loader reads back for the key it is stored under.\<close>

definition storable_daemon :: "relay_crates \<Rightarrow> daemon_registration \<Rightarrow> bool" where
  "storable_daemon cr r \<longleftrightarrow> length (dr_public_key r) = 32 \<and> point_ok cr (dr_public_key r) \<and>
     dr_updated_at_ms r < 2 ^ 63"

definition storable_token :: "token_owner \<Rightarrow> bool" where
  "storable_token w \<longleftrightarrow> tk_updated_at_ms w < 2 ^ 63"

definition storable_code :: "relay_crates \<Rightarrow> rstr \<Rightarrow> pairing_code_entry \<Rightarrow> bool" where
  "storable_code cr code e \<longleftrightarrow> ce_expires_at_ms e < 2 ^ 63 \<and>
     (case ce_record e of
        LegacyTicket blob \<Rightarrow> \<not> is_valid_pairing_locator code
      | Reachability r \<Rightarrow> is_valid_pairing_locator code \<and>
          (\<exists>j. rendezvous_to_json cr r = Some j \<and> rendezvous_of_json cr j = Some r))"

definition mirrored :: "relay_crates \<Rightarrow> relay_state \<Rightarrow> bool" where
  "mirrored cr st \<longleftrightarrow> (\<exists>db. rs_store st = Some db \<and>
     db_daemons db = tbl_map row_of_daemon (rs_daemons st) \<and>
     db_push_tokens db = tbl_map row_of_token (rs_tokens st) \<and>
     tbl_map row_core (db_pairing_codes db) = tbl_map (core_of_code cr) (rs_pairing_codes st)) \<and>
     (\<forall>(d, r) \<in> set (rs_daemons st). storable_daemon cr r) \<and>
     (\<forall>(tk, w) \<in> set (rs_tokens st). storable_token w) \<and>
     (\<forall>(c, e) \<in> set (rs_pairing_codes st). storable_code cr c e)"

definition working :: "relay_env \<Rightarrow> bool" where
  "working env \<longleftrightarrow> (\<forall>c. db_ok env c) \<and>
     (\<forall>t \<in> {t_entry env, t_proof env, t_verify env, t_check env, t_done env}. t < 2 ^ 63)"

lemma mirroredI:
  assumes "rs_store st = Some db" and "db_daemons db = tbl_map row_of_daemon (rs_daemons st)"
    and "db_push_tokens db = tbl_map row_of_token (rs_tokens st)"
    and "tbl_map row_core (db_pairing_codes db) = tbl_map (core_of_code cr) (rs_pairing_codes st)"
    and "\<And>d r. (d, r) \<in> set (rs_daemons st) \<Longrightarrow> storable_daemon cr r"
    and "\<And>tk w. (tk, w) \<in> set (rs_tokens st) \<Longrightarrow> storable_token w"
    and "\<And>c e. (c, e) \<in> set (rs_pairing_codes st) \<Longrightarrow> storable_code cr c e"
  shows "mirrored cr st"
  using assms unfolding mirrored_def by blast

lemma mirroredE:
  assumes "mirrored cr st"
  obtains db where "rs_store st = Some db" and "db_daemons db = tbl_map row_of_daemon (rs_daemons st)"
    and "db_push_tokens db = tbl_map row_of_token (rs_tokens st)"
    and "tbl_map row_core (db_pairing_codes db) = tbl_map (core_of_code cr) (rs_pairing_codes st)"
    and "\<forall>(d, r) \<in> set (rs_daemons st). storable_daemon cr r"
    and "\<forall>(tk, w) \<in> set (rs_tokens st). storable_token w"
    and "\<forall>(c, e) \<in> set (rs_pairing_codes st). storable_code cr c e"
  using assms unfolding mirrored_def by blast

lemma mirrored_same:
  assumes "mirrored cr st" and "rs_daemons st' = rs_daemons st" and "rs_tokens st' = rs_tokens st"
    and "rs_pairing_codes st' = rs_pairing_codes st"
    and "\<And>db. rs_store st = Some db \<Longrightarrow> \<exists>db'. rs_store st' = Some db' \<and> db_daemons db' = db_daemons db \<and>
      db_push_tokens db' = db_push_tokens db \<and> db_pairing_codes db' = db_pairing_codes db"
  shows "mirrored cr st'"
  using assms(1)
proof (rule mirroredE)
  fix db
  assume "rs_store st = Some db" "db_daemons db = tbl_map row_of_daemon (rs_daemons st)"
    "db_push_tokens db = tbl_map row_of_token (rs_tokens st)"
    "tbl_map row_core (db_pairing_codes db) = tbl_map (core_of_code cr) (rs_pairing_codes st)"
    "\<forall>(d, r) \<in> set (rs_daemons st). storable_daemon cr r"
    "\<forall>(tk, w) \<in> set (rs_tokens st). storable_token w"
    "\<forall>(c, e) \<in> set (rs_pairing_codes st). storable_code cr c e"
  moreover from assms(5) [OF this(1)] obtain db' where "rs_store st' = Some db'"
    "db_daemons db' = db_daemons db" "db_push_tokens db' = db_push_tokens db"
    "db_pairing_codes db' = db_pairing_codes db" by blast
  ultimately show ?thesis
    using assms(2-4) by (simp add: mirrored_def)
qed

section \<open>Pruning memory and rows alike\<close>

lemma as_i64_stale: "u < 2 ^ 63 \<Longrightarrow> now < 2 ^ 63 \<Longrightarrow>
    push_token_is_stale u now \<longleftrightarrow> as_i64 u < as_i64 (now - PUSH_TOKEN_TTL_MS)"
  by (auto simp: push_token_is_stale_def as_i64_less)

lemma stale_rows_mirror:
  assumes "db_daemons db = tbl_map row_of_daemon ds" and "tbl_ok ds"
    and "\<forall>(d, r) \<in> set ds. storable_daemon cr r" and "cutoff < 2 ^ 63"
    and "tbl_get ds d \<noteq> None"
  shows "stale_rows db (as_i64 cutoff) d \<longleftrightarrow>
    tbl_get (tbl_retain (\<lambda>_ r. cutoff \<le> dr_updated_at_ms r) ds) d = None"
proof -
  obtain r where r: "tbl_get ds d = Some r" using assms(5) by auto
  then have "dr_updated_at_ms r < 2 ^ 63"
    using assms(2,3) by (auto simp: tbl_get_set storable_daemon_def)
  then have "stale_rows db (as_i64 cutoff) d \<longleftrightarrow> \<not> cutoff \<le> dr_updated_at_ms r"
    using assms(4) r by (auto simp: stale_rows_def assms(1) tbl_get_map row_of_daemon_def as_i64_less)
  moreover have "tbl_get (tbl_retain (\<lambda>_ r. cutoff \<le> dr_updated_at_ms r) ds) d = None \<longleftrightarrow>
      \<not> cutoff \<le> dr_updated_at_ms r"
  proof (cases "tbl_get (tbl_retain (\<lambda>_ r. cutoff \<le> dr_updated_at_ms r) ds) d")
    case None
    with r show ?thesis
      using tbl_get_retain [OF assms(2), of "\<lambda>_ r. cutoff \<le> dr_updated_at_ms r" d r] by simp
  next
    case (Some q)
    with r show ?thesis by (simp add: tbl_get_retain [OF assms(2)])
  qed
  ultimately show ?thesis by simp
qed

lemma set_tbl_retain: "(k, v) \<in> set (tbl_retain P t) \<longleftrightarrow> (k, v) \<in> set t \<and> P k v"
  by (auto simp: tbl_retain_def)

text \<open>One prune of memory and of the rows it mirrors.\<close>

lemma mirrored_prune_rows:
  assumes m: "mirrored cr st" and s: "relay_sound st" and now: "now < 2 ^ 63"
    and db: "rs_store st = Some db"
  shows "mirrored cr ((prune_memory now st)\<lparr>rs_store := Some (prune_expired_rows now
    (rs_prune_stale_daemons st) (rs_daemon_retention_ms st) db)\<rparr>)"
proof -
  let ?ps = "rs_prune_stale_daemons st" and ?cut = "now - rs_daemon_retention_ms st"
  define ds where "ds = (if ?ps then tbl_retain (\<lambda>_ r. ?cut \<le> dr_updated_at_ms r) (rs_daemons st)
    else rs_daemons st)"
  define act where "act = (\<lambda>d. \<not> ?ps \<or> tbl_get ds d \<noteq> None)"
  define ts where "ts = tbl_retain (\<lambda>_ w. \<not> push_token_is_stale (tk_updated_at_ms w) now \<and>
    act (tk_daemon_node_id w)) (rs_tokens st)"
  define cs where "cs = tbl_retain (\<lambda>_ e. now < ce_expires_at_ms e \<and> act (ce_daemon_node_id e))
    (rs_pairing_codes st)"
  have pm: "rs_daemons (prune_memory now st) = ds" "rs_tokens (prune_memory now st) = ts"
    "rs_pairing_codes (prune_memory now st) = cs"
    by (simp_all add: prune_memory_def Let_def ds_def ts_def cs_def act_def tbl_retain_retain)
  from m obtain dbs where "rs_store st = Some dbs"
    and f: "db_daemons dbs = tbl_map row_of_daemon (rs_daemons st)"
      "db_push_tokens dbs = tbl_map row_of_token (rs_tokens st)"
      "tbl_map row_core (db_pairing_codes dbs) = tbl_map (core_of_code cr) (rs_pairing_codes st)"
    and st: "\<forall>(d, r) \<in> set (rs_daemons st). storable_daemon cr r"
      "\<forall>(tk, w) \<in> set (rs_tokens st). storable_token w"
      "\<forall>(c, e) \<in> set (rs_pairing_codes st). storable_code cr c e"
    by (rule mirroredE)
  with db have db': "dbs = db" by simp
  note f = f [unfolded db']
  have ok: "tbl_ok (rs_daemons st)" "tbl_ok (rs_tokens st)" "tbl_ok (rs_pairing_codes st)"
    using soundD(1) [OF s] by (simp_all add: wf_parts)
  have cut: "?cut < 2 ^ 63" using now by linarith
  have act_row: "act d \<longleftrightarrow> \<not> ?ps \<or> \<not> stale_rows db (as_i64 ?cut) d" if "registered_key st d \<noteq> None" for d
    using stale_rows_mirror [OF f(1) ok(1) st(1) cut, of d] that
    by (auto simp: act_def ds_def registered_key_def)
  define keep_row where "keep_row = (\<lambda>d. \<not> ?ps \<or> \<not> stale_rows db (as_i64 ?cut) d)"
  define pdb where "pdb = prune_expired_rows now ?ps (rs_daemon_retention_ms st) db"
  have rows: "db_daemons pdb = (if ?ps then tbl_retain (\<lambda>_ row. \<not> dw_updated_at_ms row < as_i64 ?cut)
        (db_daemons db) else db_daemons db)"
    "db_push_tokens pdb = tbl_retain (\<lambda>_ row. \<not> tw_updated_at_ms row < as_i64 (now - PUSH_TOKEN_TTL_MS) \<and>
        keep_row (tw_daemon_node_id row)) (db_push_tokens db)"
    "db_pairing_codes pdb = tbl_retain (\<lambda>_ row. \<not> cw_expires_at_ms row \<le> as_i64 now \<and>
        keep_row (cw_daemon_node_id row)) (db_pairing_codes db)"
    by (simp_all add: pdb_def prune_expired_rows_def Let_def keep_row_def tbl_retain_retain stale_rows_def)
  have "mirrored cr ((prune_memory now st)\<lparr>rs_store := Some pdb\<rparr>)"
  proof (rule mirroredI [where db = pdb])
    show "db_daemons pdb = tbl_map row_of_daemon (rs_daemons ((prune_memory now st)\<lparr>rs_store := Some pdb\<rparr>))"
    proof (cases ?ps)
      case False
      then show ?thesis by (simp add: rows pm ds_def f(1))
    next
      case True
      have "tbl_map row_of_daemon (tbl_retain (\<lambda>_ r. ?cut \<le> dr_updated_at_ms r) (rs_daemons st)) =
        tbl_retain (\<lambda>_ row. \<not> dw_updated_at_ms row < as_i64 ?cut) (tbl_map row_of_daemon (rs_daemons st))"
      proof (rule tbl_map_retain)
        fix d r
        assume "(d, r) \<in> set (rs_daemons st)"
        with st(1) have "dr_updated_at_ms r < 2 ^ 63" by (auto simp: storable_daemon_def)
        with cut show "?cut \<le> dr_updated_at_ms r \<longleftrightarrow>
            \<not> dw_updated_at_ms (row_of_daemon r) < as_i64 ?cut"
          by (simp add: row_of_daemon_def as_i64_less not_less)
      qed
      with True show ?thesis by (simp add: rows pm ds_def f(1))
    qed
    have "tbl_map row_of_token ts =
      tbl_retain (\<lambda>_ row. \<not> tw_updated_at_ms row < as_i64 (now - PUSH_TOKEN_TTL_MS) \<and>
        keep_row (tw_daemon_node_id row)) (tbl_map row_of_token (rs_tokens st))"
      unfolding ts_def
    proof (rule tbl_map_retain)
      fix tk w
      assume tkw: "(tk, w) \<in> set (rs_tokens st)"
      then have "registered_key st (tk_daemon_node_id w) \<noteq> None"
        using soundD(3) [OF s] by (simp add: tbl_get_set [OF ok(2)])
      moreover have "tk_updated_at_ms w < 2 ^ 63" using st(2) tkw by (auto simp: storable_token_def)
      ultimately show "(\<not> push_token_is_stale (tk_updated_at_ms w) now \<and> act (tk_daemon_node_id w)) \<longleftrightarrow>
        (\<not> tw_updated_at_ms (row_of_token w) < as_i64 (now - PUSH_TOKEN_TTL_MS) \<and>
          keep_row (tw_daemon_node_id (row_of_token w)))"
        using now by (simp add: as_i64_stale act_row keep_row_def row_of_token_def)
    qed
    then show "db_push_tokens pdb = tbl_map row_of_token (rs_tokens ((prune_memory now st)\<lparr>rs_store := Some pdb\<rparr>))"
      by (simp add: rows pm f(2))
    let ?Q = "\<lambda>(_ :: rstr) (d, _, x). \<not> x \<le> as_i64 now \<and> keep_row d"
    have "tbl_map row_core (db_pairing_codes pdb) = tbl_retain ?Q (tbl_map row_core (db_pairing_codes db))"
      unfolding rows by (rule tbl_map_retain) (simp add: row_core_def)
    also have "\<dots> = tbl_map (core_of_code cr) cs"
      unfolding f(3) cs_def
    proof (rule tbl_map_retain [symmetric])
      fix c e
      assume ce: "(c, e) \<in> set (rs_pairing_codes st)"
      then have "registered_key st (ce_daemon_node_id e) \<noteq> None"
        using soundD(4) [OF s] by (simp add: tbl_get_set [OF ok(3)])
      moreover have "ce_expires_at_ms e < 2 ^ 63" using st(3) ce by (auto simp: storable_code_def)
      ultimately show "(now < ce_expires_at_ms e \<and> act (ce_daemon_node_id e)) \<longleftrightarrow>
          ?Q c (core_of_code cr e)"
        using now by (simp add: core_of_code_def as_i64_less act_row keep_row_def not_le)
    qed
    finally show "tbl_map row_core (db_pairing_codes pdb) =
        tbl_map (core_of_code cr) (rs_pairing_codes ((prune_memory now st)\<lparr>rs_store := Some pdb\<rparr>))"
      by (simp add: pm)
  qed (use st in \<open>auto simp: pm ds_def ts_def cs_def set_tbl_retain split: if_splits\<close>)
  then show ?thesis by (simp add: pdb_def)
qed

lemma mirrored_prune:
  assumes "mirrored cr st" and "relay_sound st" and "now < 2 ^ 63" and "ok"
  shows "mirrored cr (maybe_prune_expired_relay_state ok now st)"
proof (cases "now - rs_pruned_at_ms st < PRUNE_INTERVAL_MS")
  case True
  with assms(1) show ?thesis by (simp add: maybe_prune_expired_relay_state_def)
next
  case False
  define st1 where "st1 = st\<lparr>rs_pruned_at_ms := now\<rparr>"
  have same: "rs_daemons st1 = rs_daemons st" "rs_tokens st1 = rs_tokens st"
    "rs_pairing_codes st1 = rs_pairing_codes st" "rs_store st1 = rs_store st"
    by (simp_all add: st1_def)
  have m1: "mirrored cr st1" by (rule mirrored_same [OF assms(1) same(1-3)]) (simp add: same)
  have "relay_wf st1" using soundD(1) [OF assms(2)] by (simp add: relay_wf_def st1_def)
  from sound_frame [OF assms(2) this same(1-3)] have s1: "relay_sound st1" .
  from m1 obtain db where db: "rs_store st1 = Some db" by (rule mirroredE)
  have p: "maybe_prune_expired_relay_state ok now st = (prune_memory now st1)\<lparr>rs_store :=
      Some (prune_expired_rows now (rs_prune_stale_daemons st1) (rs_daemon_retention_ms st1) db)\<rparr>"
    using False assms(4) db by (simp add: maybe_prune_expired_relay_state_def
        prune_expired_relay_state_def st1_def store_try_def Let_def prune_memory_def)
  show ?thesis
    unfolding p by (rule mirrored_prune_rows [OF m1 s1 assms(3) db])
qed

section \<open>Changing memory and rows alike\<close>

lemma mirrored_daemons:
  assumes m: "mirrored cr st" and db: "rs_store st = Some db"
    and rows: "ds' = tbl_map row_of_daemon ds" "\<forall>(d, r) \<in> set ds. storable_daemon cr r"
    and new: "db_daemons db' = ds'" "db_push_tokens db' = db_push_tokens db"
      "db_pairing_codes db' = db_pairing_codes db"
    and st': "rs_store st' = Some db'" "rs_daemons st' = ds" "rs_tokens st' = rs_tokens st"
      "rs_pairing_codes st' = rs_pairing_codes st"
  shows "mirrored cr st'"
  using assms unfolding mirrored_def by auto

lemma mirrored_tokens:
  assumes m: "mirrored cr st" and db: "rs_store st = Some db"
    and rows: "ts' = tbl_map row_of_token ts" "\<forall>(tk, w) \<in> set ts. storable_token w"
    and new: "db_push_tokens db' = ts'" "db_daemons db' = db_daemons db"
      "db_pairing_codes db' = db_pairing_codes db"
    and st': "rs_store st' = Some db'" "rs_tokens st' = ts" "rs_daemons st' = rs_daemons st"
      "rs_pairing_codes st' = rs_pairing_codes st"
  shows "mirrored cr st'"
  using assms unfolding mirrored_def by auto

lemma mirrored_codes:
  assumes m: "mirrored cr st" and db: "rs_store st = Some db"
    and rows: "tbl_map row_core cs' = tbl_map (core_of_code cr) cs"
      "\<forall>(c, e) \<in> set cs. storable_code cr c e"
    and new: "db_pairing_codes db' = cs'" "db_daemons db' = db_daemons db"
      "db_push_tokens db' = db_push_tokens db"
    and st': "rs_store st' = Some db'" "rs_pairing_codes st' = cs" "rs_daemons st' = rs_daemons st"
      "rs_tokens st' = rs_tokens st"
  shows "mirrored cr st'"
  using assms unfolding mirrored_def by auto

lemma tbl_update_cong:
  "tbl_ok t \<Longrightarrow> (\<And>v. tbl_get t k = Some v \<Longrightarrow> f v = g v) \<Longrightarrow> tbl_update k f t = tbl_update k g t"
  by (auto simp: tbl_update_def tbl_get_set)

lemma set_tbl_update: "(j, w) \<in> set (tbl_update k f t) \<Longrightarrow>
    \<exists>v. (j, v) \<in> set t \<and> w = (if j = k then f v else v)"
  by (auto simp: tbl_update_def)

lemma set_tbl_insert_sub: "(j, w) \<in> set (tbl_insert k v t) \<Longrightarrow> (j, w) = (k, v) \<or> (j, w) \<in> set t"
  by (induction t) (auto split: if_splits)

lemma set_tbl_remove_sub: "(j, w) \<in> set (tbl_remove k t) \<Longrightarrow> (j, w) \<in> set t"
  by (simp add: tbl_remove_def)

lemma mirrored_activity:
  assumes m: "mirrored cr st" and s: "relay_sound st" and db: "rs_store st = Some db"
    and key: "registered_key st d = Some key" and now: "t_verify env < 2 ^ 63"
    and rec: "record_authenticated_activity d n t (t_verify env) db = (db', True)"
  shows "mirrored cr (touch_daemon env d key (st\<lparr>rs_store := Some db'\<rparr>))"
proof (rule mirroredE [OF m])
  fix dbs
  assume "rs_store st = Some dbs" and f: "db_daemons dbs = tbl_map row_of_daemon (rs_daemons st)"
    and sd: "\<forall>(d, r) \<in> set (rs_daemons st). storable_daemon cr r"
  let ?g = "\<lambda>r. if dr_public_key r = key then r\<lparr>dr_updated_at_ms := t_verify env\<rparr> else r"
  have ok: "tbl_ok (rs_daemons st)" using soundD(1) [OF s] by (simp add: wf_parts)
  have upd: "tbl_update d ?g (rs_daemons st) =
      tbl_update d (\<lambda>r. r\<lparr>dr_updated_at_ms := t_verify env\<rparr>) (rs_daemons st)"
    by (rule tbl_update_cong [OF ok]) (use key in \<open>simp add: registered_key_def\<close>)
  have "db_daemons db' = tbl_update d (\<lambda>row. row\<lparr>dw_updated_at_ms := as_i64 (t_verify env)\<rparr>)
      (tbl_map row_of_daemon (rs_daemons st))"
    using rec f db \<open>rs_store st = Some dbs\<close>
    by (auto simp: record_authenticated_activity_def insert_nonce_def split: if_splits)
  also have "\<dots> = tbl_map row_of_daemon (tbl_update d ?g (rs_daemons st))"
    unfolding upd by (rule tbl_map_update [symmetric]) (simp add: row_of_daemon_def)
  finally have rows: "db_daemons db' = tbl_map row_of_daemon (tbl_update d ?g (rs_daemons st))" .
  show ?thesis
  proof (rule mirrored_daemons [OF m db refl _ rows])
    show "\<forall>(e, r) \<in> set (tbl_update d ?g (rs_daemons st)). storable_daemon cr r"
      using sd now by (fastforce simp: storable_daemon_def dest!: set_tbl_update split: if_splits)
    show "db_push_tokens db' = db_push_tokens db" "db_pairing_codes db' = db_pairing_codes db"
      using rec by (auto simp: record_authenticated_activity_def insert_nonce_def split: if_splits)
  qed (simp_all add: touch_daemon_def)
qed

lemma mirrored_commit:
  assumes m: "mirrored cr st" and ok: "db_ok env CallSaveDaemon" and now: "t_done env < 2 ^ 63"
    and key: "length key = 32" "point_ok cr key"
  shows "mirrored cr (fst (commit_registration env st d key existing))"
proof (rule mirroredE [OF m])
  fix db
  assume db: "rs_store st = Some db" and f: "db_daemons db = tbl_map row_of_daemon (rs_daemons st)"
    and sd: "\<forall>(d, r) \<in> set (rs_daemons st). storable_daemon cr r"
  let ?r = "\<lparr>dr_public_key = key, dr_updated_at_ms = t_done env\<rparr>"
  have "db_daemons (save_daemon d ?r db) = tbl_map row_of_daemon (tbl_insert d ?r (rs_daemons st))"
    by (simp add: save_daemon_def f tbl_map_insert row_of_daemon_def)
  moreover have "\<forall>(e, r) \<in> set (tbl_insert d ?r (rs_daemons st)). storable_daemon cr r"
    using sd now key by (fastforce simp: storable_daemon_def dest!: set_tbl_insert_sub)
  ultimately have "mirrored cr st'" if "rs_store st' = Some (save_daemon d ?r db)"
    "rs_daemons st' = tbl_insert d ?r (rs_daemons st)" "rs_tokens st' = rs_tokens st"
    "rs_pairing_codes st' = rs_pairing_codes st" for st'
    using that by (intro mirrored_daemons [OF m db refl]) (simp_all add: save_daemon_def)
  with m db ok show ?thesis
    by (simp add: commit_registration_def store_call_def Let_def)
qed

lemma storable_core: "storable_code cr c e \<Longrightarrow> \<exists>p. stored_payload cr (ce_record e) = Some p"
  by (auto simp: storable_code_def stored_payload_def split: pairing_record.splits)

lemma mirrored_delete_codes:
  assumes "rs_store s = Some db" and "\<And>c. db_ok env c"
  shows "rs_store (delete_codes env cs s) =
    Some (db\<lparr>db_pairing_codes := fold tbl_remove cs (db_pairing_codes db)\<rparr>)"
  using assms(1) unfolding delete_codes_def
  by (induction cs arbitrary: s db) (auto simp: store_try_def assms(2) delete_pairing_code_def)

lemma tbl_map_remove_all: "tbl_map f (fold tbl_remove ks t) = fold tbl_remove ks (tbl_map f t)"
  by (induction ks arbitrary: t) (simp_all add: tbl_map_remove)

lemma mirrored_store_code:
  assumes m: "mirrored cr st" and ok: "\<And>c. db_ok env c" and sc: "storable_code cr code entry"
  shows "mirrored cr (fst (store_code cr env st code entry))"
proof (rule mirroredE [OF m])
  fix db
  assume db: "rs_store st = Some db"
    and f: "tbl_map row_core (db_pairing_codes db) = tbl_map (core_of_code cr) (rs_pairing_codes st)"
    and ss: "\<forall>(c, e) \<in> set (rs_pairing_codes st). storable_code cr c e"
  obtain st1 old where ev: "evict_codes_for_daemon (ce_daemon_node_id entry) code st = (st1, old)"
    by fastforce
  then have st1: "st1 = st\<lparr>rs_pairing_codes := fold tbl_remove old (rs_pairing_codes st)\<rparr>"
    unfolding evict_codes_for_daemon_def Let_def prod.inject by blast
  obtain p where p: "stored_payload cr (ce_record entry) = Some p"
    using storable_core [OF sc] by blast
  define db1 where "db1 = db\<lparr>db_pairing_codes := fold tbl_remove old (db_pairing_codes db)\<rparr>"
  define db2 where "db2 = save_pairing_code code (ce_daemon_node_id entry) p (ce_expires_at_ms entry)
    (t_done env) db1"
  have "rs_store (delete_codes env old st1) = Some db1"
    unfolding db1_def by (rule mirrored_delete_codes) (simp_all add: st1 db ok)
  then have out: "rs_store (fst (store_code cr env st code entry)) = Some db2"
    "rs_pairing_codes (fst (store_code cr env st code entry)) = tbl_insert code entry
      (fold tbl_remove old (rs_pairing_codes st))"
    "rs_daemons (fst (store_code cr env st code entry)) = rs_daemons st"
    "rs_tokens (fst (store_code cr env st code entry)) = rs_tokens st"
    by (simp_all add: store_code_def ev p store_call_def ok db2_def delete_codes_frame)
      (simp_all add: st1)
  have "tbl_map row_core (db_pairing_codes db2) = tbl_map (core_of_code cr) (tbl_insert code entry
      (fold tbl_remove old (rs_pairing_codes st)))"
    by (simp add: db2_def db1_def save_pairing_code_def tbl_map_insert tbl_map_remove_all f)
      (simp add: row_core_def core_of_code_def p)
  moreover have "\<forall>(c, e) \<in> set (tbl_insert code entry (fold tbl_remove old (rs_pairing_codes st))).
      storable_code cr c e"
    using ss sc by (fastforce dest!: set_tbl_insert_sub simp: tbl_remove_all_rows)
  ultimately show ?thesis
    by (rule mirrored_codes [OF m db _ _ refl _ _ out])
      (simp_all add: db2_def db1_def save_pairing_code_def)
qed

definition mirrors_while :: "relay_crates \<Rightarrow> relay_env \<Rightarrow> relay_state \<Rightarrow> bool" where
  "mirrors_while cr env st \<longleftrightarrow> relay_sound st \<and> (working env \<longrightarrow> mirrored cr st)"

lemma mirrored_frame:
  "mirrored cr st \<Longrightarrow> rs_store st' = rs_store st \<Longrightarrow> rs_daemons st' = rs_daemons st \<Longrightarrow>
    rs_tokens st' = rs_tokens st \<Longrightarrow> rs_pairing_codes st' = rs_pairing_codes st \<Longrightarrow> mirrored cr st'"
  by (simp add: mirrored_def)

lemma mirrored_Some: "mirrored cr st \<Longrightarrow> rs_store st \<noteq> None"
  by (auto simp: mirrored_def)

lemma store_call_Some:
  "store_call ok f st = (st', Inr ()) \<Longrightarrow> rs_store st = Some db \<Longrightarrow> st' = st\<lparr>rs_store := Some (f db)\<rparr>"
  by (auto simp: store_call_def fail_internal_def split: if_splits)

lemma mirrored_forget:
  assumes m: "mirrored cr st" and ok: "\<And>c. db_ok env c"
  shows "mirrored cr (forget_pairing_code env code st)"
proof (rule mirroredE [OF m])
  fix db
  assume db: "rs_store st = Some db"
    and f: "tbl_map row_core (db_pairing_codes db) = tbl_map (core_of_code cr) (rs_pairing_codes st)"
    and ss: "\<forall>(c, e) \<in> set (rs_pairing_codes st). storable_code cr c e"
  let ?st = "st\<lparr>rs_pairing_codes := tbl_remove code (rs_pairing_codes st)\<rparr>"
  have st': "rs_store (delete_codes env [code] ?st) =
      Some (db\<lparr>db_pairing_codes := tbl_remove code (db_pairing_codes db)\<rparr>)"
    using mirrored_delete_codes [of ?st db env "[code]"] db ok by simp
  show ?thesis
    unfolding forget_pairing_code_def
    by (rule mirrored_codes [OF m db _ _ refl _ _ st'])
      (use ss in \<open>auto simp: delete_codes_frame tbl_map_remove f dest: set_tbl_remove_sub\<close>)
qed

lemma mirrored_remove_token:
  assumes m: "mirrored cr st"
    and c: "store_call ok (remove_token tk) st = (st', Inr ())"
  shows "mirrored cr (st'\<lparr>rs_tokens := tbl_remove tk (rs_tokens st')\<rparr>)"
proof (rule mirroredE [OF m])
  fix db
  assume db: "rs_store st = Some db"
    and f: "db_push_tokens db = tbl_map row_of_token (rs_tokens st)"
    and ss: "\<forall>(tk, w) \<in> set (rs_tokens st). storable_token w"
  have "db_push_tokens (remove_token tk db) = tbl_map row_of_token (tbl_remove tk (rs_tokens st))"
    by (simp add: remove_token_def f tbl_map_remove)
  then show ?thesis
    by (rule mirrored_tokens [OF m db refl, rotated])
      (use ss in \<open>auto simp: store_call_Some [OF c db] remove_token_def dest: set_tbl_remove_sub\<close>)
qed

lemma mirrored_touch_token:
  assumes m: "mirrored cr st" and t: "t < 2 ^ 63"
    and c: "store_call ok (touch_token tk t) st = (st', Inr ())"
  shows "mirrored cr (st'\<lparr>rs_tokens := tbl_update tk (\<lambda>w. w\<lparr>tk_updated_at_ms := t\<rparr>) (rs_tokens st')\<rparr>)"
proof (rule mirroredE [OF m])
  fix db
  assume db: "rs_store st = Some db"
    and f: "db_push_tokens db = tbl_map row_of_token (rs_tokens st)"
    and ss: "\<forall>(tk, w) \<in> set (rs_tokens st). storable_token w"
  let ?ts = "tbl_update tk (\<lambda>w. w\<lparr>tk_updated_at_ms := t\<rparr>) (rs_tokens st)"
  have "tbl_map row_of_token ?ts = tbl_update tk (\<lambda>row. row\<lparr>tw_updated_at_ms := as_i64 t\<rparr>)
      (tbl_map row_of_token (rs_tokens st))"
    by (rule tbl_map_update) (simp add: row_of_token_def)
  then have "db_push_tokens (touch_token tk t db) = tbl_map row_of_token ?ts"
    by (simp add: touch_token_def f)
  then show ?thesis
  proof (rule mirrored_tokens [OF m db refl, rotated])
    show "\<forall>(tk, w) \<in> set ?ts. storable_token w"
      using ss t by (fastforce simp: storable_token_def dest!: set_tbl_update split: if_splits)
  qed (simp_all add: store_call_Some [OF c db] touch_token_def)
qed

lemma mirrored_save_token:
  assumes m: "mirrored cr st" and t: "t < 2 ^ 63"
    and c: "store_call ok (save_token tk d pf t) st = (st', Inr ())"
  shows "mirrored cr (st'\<lparr>rs_tokens := tbl_insert tk \<lparr>tk_daemon_node_id = d, tk_platform = pf,
    tk_updated_at_ms = t\<rparr> (rs_tokens st')\<rparr>)"
proof (rule mirroredE [OF m])
  fix db
  assume db: "rs_store st = Some db"
    and f: "db_push_tokens db = tbl_map row_of_token (rs_tokens st)"
    and ss: "\<forall>(tk, w) \<in> set (rs_tokens st). storable_token w"
  let ?ts = "tbl_insert tk \<lparr>tk_daemon_node_id = d, tk_platform = pf, tk_updated_at_ms = t\<rparr> (rs_tokens st)"
  have "db_push_tokens (save_token tk d pf t db) = tbl_map row_of_token ?ts"
    by (simp add: save_token_def f tbl_map_insert row_of_token_def)
  then show ?thesis
  proof (rule mirrored_tokens [OF m db refl, rotated])
    show "\<forall>(tk, w) \<in> set ?ts. storable_token w"
      using ss t by (fastforce simp: storable_token_def dest!: set_tbl_insert_sub)
  qed (simp_all add: store_call_Some [OF c db] save_token_def)
qed

interpretation mirror: relay_kept cr env "storable_code cr" "\<lambda>_ _. True" "mirrors_while cr env" for cr env
proof unfold_locales
  fix st now ok
  assume P: "mirrors_while cr env st"
    and t: "now = t_proof env \<and> ok = db_ok env CallProofPrune \<or> now = t_verify env \<and> ok = db_ok env CallPrune"
  have "ok \<and> now < 2 ^ 63" if "working env" using t that by (auto simp: working_def)
  with P show "mirrors_while cr env (maybe_prune_expired_relay_state ok now st)"
    unfolding mirrors_while_def using sound_prune mirrored_prune by blast
next
  fix st d key n t db' db
  assume P: "mirrors_while cr env st" and a: "rs_store st = Some db" "registered_key st d = Some key"
    "record_authenticated_activity d n t (t_verify env) db = (db', True)"
  have "t_verify env < 2 ^ 63" if "working env" using that by (auto simp: working_def)
  with P show "mirrors_while cr env (touch_daemon env d key (st\<lparr>rs_store := Some db'\<rparr>))"
    unfolding mirrors_while_def using sound.kept_activity [OF _ a] mirrored_activity [OF _ _ a(1,2) _ a(3)]
    by blast
next
  fix st d key
  assume P: "mirrors_while cr env st" and a: "rs_store st = None" "registered_key st d = Some key"
  then show "mirrors_while cr env (touch_daemon env d key st)"
    unfolding mirrors_while_def using sound.kept_touch [OF _ a] mirrored_Some [of cr st] a(1) by blast
next
  fix st d key and existing :: "daemon_registration option"
  assume P: "mirrors_while cr env st" and k: "length key = 32" "point_ok cr key"
    and e: "existing = None \<longleftrightarrow> tbl_get (rs_daemons st) d = None"
      "map_option dr_public_key existing = registered_key st d"
  have "relay_sound (fst (commit_registration env st d key existing))"
    using P sound.kept_commit [OF _ TrueI k e] by (simp add: mirrors_while_def)
  moreover have "mirrored cr (fst (commit_registration env st d key existing))" if "working env"
    using P that k by (intro mirrored_commit) (auto simp: mirrors_while_def working_def)
  ultimately show "mirrors_while cr env (fst (commit_registration env st d key existing))"
    by (simp add: mirrors_while_def)
next
  fix st st' tk
  assume P: "mirrors_while cr env st"
    and c: "store_call (db_ok env CallRemoveToken) (remove_token tk) st = (st', Inr ())"
  then show "mirrors_while cr env (st'\<lparr>rs_tokens := tbl_remove tk (rs_tokens st')\<rparr>)"
    unfolding mirrors_while_def using sound.kept_remove_token [OF _ c] mirrored_remove_token [OF _ c]
    by blast
next
  fix st st' tk
  assume P: "mirrors_while cr env st"
    and c: "store_call (db_ok env CallTouchToken) (touch_token tk (t_done env)) st = (st', Inr ())"
  have "t_done env < 2 ^ 63" if "working env" using that by (auto simp: working_def)
  with P show "mirrors_while cr env (st'\<lparr>rs_tokens := tbl_update tk
      (\<lambda>w. w\<lparr>tk_updated_at_ms := t_done env\<rparr>) (rs_tokens st')\<rparr>)"
    unfolding mirrors_while_def using sound.kept_touch_token [OF _ c] mirrored_touch_token [OF _ _ c]
    by blast
next
  fix st st' tk d pf
  assume P: "mirrors_while cr env st" and reg: "registered_key st d \<noteq> None"
    and c: "store_call (db_ok env CallSaveToken) (save_token tk d pf (t_done env)) st = (st', Inr ())"
  have "t_done env < 2 ^ 63" if "working env" using that by (auto simp: working_def)
  with P show "mirrors_while cr env (st'\<lparr>rs_tokens := tbl_insert tk \<lparr>tk_daemon_node_id = d,
      tk_platform = pf, tk_updated_at_ms = t_done env\<rparr> (rs_tokens st')\<rparr>)"
    unfolding mirrors_while_def using sound.kept_save_token [OF _ reg c] mirrored_save_token [OF _ _ c]
    by blast
next
  fix st :: relay_state and entry :: pairing_code_entry and code
  assume P: "mirrors_while cr env st" and reg: "registered_key st (ce_daemon_node_id entry) \<noteq> None"
    and sc: "storable_code cr code entry"
  have "mirrored cr (fst (store_code cr env st code entry))" if "working env"
    using P that sc by (intro mirrored_store_code) (auto simp: mirrors_while_def working_def)
  with P sound_store_code [OF _ reg] show "mirrors_while cr env (fst (store_code cr env st code entry))"
    by (simp add: mirrors_while_def)
next
  fix st code
  assume P: "mirrors_while cr env st"
  have "mirrored cr (forget_pairing_code env code st)" if "working env"
    using P that by (intro mirrored_forget) (auto simp: mirrors_while_def working_def)
  with P sound.kept_forget show "mirrors_while cr env (forget_pairing_code env code st)"
    by (simp add: mirrors_while_def)
next
  fix st db d n t
  assume P: "mirrors_while cr env st" and db: "rs_store st = Some db"
  have "mirrored cr (st\<lparr>rs_store := Some (fst (insert_nonce d n t db))\<rparr>)" if "mirrored cr st"
    by (rule mirrored_same [OF that]) (simp_all add: db insert_nonce_def)
  with P sound.kept_insert_nonce [OF _ db] show
    "mirrors_while cr env (st\<lparr>rs_store := Some (fst (insert_nonce d n t db))\<rparr>)"
    by (simp add: mirrors_while_def)
qed (auto simp: mirrors_while_def soundD(1) wf_parts sound.kept_metrics sound.kept_sequence
    sound.kept_limits sound.kept_nonce elim!: mirrored_frame)

section \<open>Restarting\<close>

lemma load_rows_core:
  assumes "\<And>k r. f k r = g k (c r)"
  shows "load_rows f rs = load_rows g (tbl_map c rs)"
  using assms by (induction rs) (auto simp: tbl_map_def split: sum.split)

definition load_core :: "relay_crates \<Rightarrow> rstr \<Rightarrow> rstr \<times> rstr \<times> int \<Rightarrow> load_error + pairing_code_entry" where
  "load_core cr code core = load_code cr code \<lparr>cw_daemon_node_id = fst core,
     cw_ticket_blob = fst (snd core), cw_expires_at_ms = snd (snd core), cw_published_at_ms = 0\<rparr>"

lemma load_code_core: "load_code cr code row = load_core cr code (row_core row)"
  unfolding load_core_def load_code_def row_core_def fst_conv snd_conv code_row.select_convs ..

lemma load_core_code: "storable_code cr code e \<Longrightarrow> load_core cr code (core_of_code cr e) = Inr e"
  by (cases e) (auto simp: load_core_def load_code_def core_of_code_def storable_code_def
      stored_payload_def from_as_i64 split: pairing_record.splits)

lemma load_nonces:
  "\<forall>(k, ts) \<in> set ns. 0 \<le> ts \<Longrightarrow> \<exists>ns'. load_rows load_nonce ns = Inr ns'"
  by (induction ns) (auto simp: load_nonce_def from_i64_def)

lemma pruned_nonces:
  assumes "now < 2 ^ 63"
  shows "\<forall>(k, ts) \<in> set (db_seen_nonces (prune_expired_rows now ps rt db)). 0 \<le> ts"
proof -
  have "0 \<le> as_i64 (now - CLOCK_SKEW_MS)" using assms by (simp add: as_i64_def)
  then show ?thesis
    by (auto simp: prune_expired_rows_def Let_def)
qed

text \<open>A restart loads what the prune it makes leaves of memory.\<close>

lemma restart_loads:
  assumes m: "mirrored cr st" and s: "relay_sound st" and now: "now < 2 ^ 63"
    and db: "rs_store st = Some db"
  shows "rs_daemons (relay_restart cr now st) = rs_daemons (prune_memory now st) \<and>
    rs_tokens (relay_restart cr now st) = rs_tokens (prune_memory now st) \<and>
    rs_pairing_codes (relay_restart cr now st) = rs_pairing_codes (prune_memory now st) \<and>
    rs_store (relay_restart cr now st) = Some (prune_expired_rows now (rs_prune_stale_daemons st)
      (rs_daemon_retention_ms st) db)"
proof -
  define pdb where "pdb = prune_expired_rows now (rs_prune_stale_daemons st) (rs_daemon_retention_ms st) db"
  define st1 where "st1 = (prune_memory now st)\<lparr>rs_store := Some pdb\<rparr>"
  have m1: "mirrored cr st1"
    unfolding st1_def pdb_def by (rule mirrored_prune_rows [OF m s now db])
  then show ?thesis
  proof (rule mirroredE)
    fix dbs
    assume "rs_store st1 = Some dbs"
      and f: "db_daemons dbs = tbl_map row_of_daemon (rs_daemons st1)"
        "db_push_tokens dbs = tbl_map row_of_token (rs_tokens st1)"
        "tbl_map row_core (db_pairing_codes dbs) = tbl_map (core_of_code cr) (rs_pairing_codes st1)"
      and st: "\<forall>(d, r) \<in> set (rs_daemons st1). storable_daemon cr r"
        "\<forall>(tk, w) \<in> set (rs_tokens st1). storable_token w"
        "\<forall>(c, e) \<in> set (rs_pairing_codes st1). storable_code cr c e"
    then have d: "dbs = pdb" by (simp add: st1_def)
    have 1: "load_rows (load_daemon cr) (db_daemons pdb) = Inr (rs_daemons st1)"
      unfolding f(1) [unfolded d] using st(1)
      by (intro load_rows_map) (auto simp: load_daemon_def row_of_daemon_def storable_daemon_def from_as_i64)
    have 2: "load_rows load_token (db_push_tokens pdb) = Inr (rs_tokens st1)"
      unfolding f(2) [unfolded d] using st(2)
      by (intro load_rows_map) (auto simp: load_token_def row_of_token_def storable_token_def from_as_i64)
    have "load_rows (load_code cr) (db_pairing_codes pdb) =
        load_rows (load_core cr) (tbl_map row_core (db_pairing_codes pdb))"
      by (rule load_rows_core) (rule load_code_core)
    also have "\<dots> = Inr (rs_pairing_codes st1)"
      unfolding f(3) [unfolded d] using st(3) by (intro load_rows_map) (auto simp: load_core_code)
    finally have 3: "load_rows (load_code cr) (db_pairing_codes pdb) = Inr (rs_pairing_codes st1)" .
    obtain ns where 4: "load_rows load_nonce (db_seen_nonces pdb) = Inr ns"
      using load_nonces [OF pruned_nonces [OF now]] unfolding pdb_def by blast
    have "load_state cr now (rs_prune_stale_daemons st) (rs_daemon_retention_ms st) db =
        (pdb, Inr (rs_daemons st1, rs_tokens st1, ns, rs_pairing_codes st1))"
      by (simp add: load_state_def Let_def pdb_def [symmetric] 1 2 3 4)
    then show ?thesis
      by (simp add: relay_restart_def db open_sqlite_with_policy_def st1_def pdb_def)
  qed
qed

lemma restart_mirrored:
  assumes m: "mirrored cr st" and s: "relay_sound st" and now: "now < 2 ^ 63"
  shows "relay_sound (relay_restart cr now st) \<and> mirrored cr (relay_restart cr now st)"
proof -
  from m obtain db where db: "rs_store st = Some db" by (rule mirroredE)
  note l = restart_loads [OF m s now db]
  have "relay_sound (relay_restart cr now st)"
    by (rule sound_frame [OF sound_prune_memory [OF s] restart_wf [OF soundD(1) [OF s]]]) (use l in auto)
  moreover have "mirrored cr (relay_restart cr now st)"
    by (rule mirrored_frame [OF mirrored_prune_rows [OF m s now db]]) (use l in auto)
  ultimately show ?thesis ..
qed

text \<open>The handler stores a record under a key of its kind, which the loader goes by.\<close>

lemma legacy_not_locator: "is_valid_legacy_code code \<Longrightarrow> \<not> is_valid_pairing_locator code"
proof -
  assume l: "is_valid_legacy_code code"
  then have "is_ascii code"
    by (auto simp: is_valid_legacy_code_def is_ascii_def list_all_iff alphabet_eval)
  with l show ?thesis
    by (simp add: is_valid_pairing_locator_def is_valid_legacy_code_def is_ascii_len LEGACY_CODE_LEN_def)
qed

lemma hex64_is_locator: "hex64_pattern s \<Longrightarrow> is_valid_pairing_locator s"
proof -
  assume h: "hex64_pattern s"
  then have "\<forall>c \<in> set s. c \<le> 102" by (auto simp: hex64_pattern_def list_all_iff)
  then have "valid_str s" by (fastforce simp: valid_str_def list_all_iff)
  with h show ?thesis by (simp add: hex64_locator)
qed

lemma publishes_kind:
  assumes "publishes cr ev = Some (code, entry)"
  shows "case ce_record entry of LegacyTicket _ \<Rightarrow> \<not> is_valid_pairing_locator code
    | Reachability _ \<Rightarrow> is_valid_pairing_locator code"
proof -
  from assms obtain h b rq where p: "parse_pairing_publish cr b = Inr rq"
    and e: "publish_entry rq = Inr (code, entry)"
    by (auto simp: publishes_def split: relay_event.splits sum.splits)
  show ?thesis
  proof (cases rq)
    case (PublishLegacy r)
    with e show ?thesis
      by (auto simp: publish_entry_def Let_def legacy_not_locator split: if_splits)
  next
    case (PublishReachability r)
    have "hex64_pattern (pz_locator r)"
      using p by (simp add: parse_pairing_publish_def parse_validated_Inr validate_publish_def
          PublishReachability validate_publish_rendezvous_def)
    with e PublishReachability show ?thesis
      by (auto simp: publish_entry_def hex64_is_locator split: sum.splits)
  qed
qed

definition encodes :: "relay_crates \<Rightarrow> pairing_code_entry \<Rightarrow> bool" where
  "encodes cr e \<longleftrightarrow> ce_expires_at_ms e < 2 ^ 63 \<and> (case ce_record e of LegacyTicket _ \<Rightarrow> True
     | Reachability r \<Rightarrow> (\<exists>j. rendezvous_to_json cr r = Some j \<and> rendezvous_of_json cr j = Some r))"

lemma publishes_storable:
  "publishes cr ev = Some (code, entry) \<Longrightarrow> encodes cr entry \<Longrightarrow> storable_code cr code entry"
  using publishes_kind [of cr ev code entry]
  by (auto simp: storable_code_def encodes_def split: pairing_record.splits)

definition storable_event :: "relay_crates \<Rightarrow> relay_env \<times> relay_event \<Rightarrow> bool" where
  "storable_event cr e \<longleftrightarrow> working (fst e) \<and>
     (case publishes cr (snd e) of None \<Rightarrow> True | Some (_, entry) \<Rightarrow> encodes cr entry)"

lemma step_mirrored:
  assumes "relay_sound st" and "mirrored cr st" and "storable_event cr e"
  shows "relay_sound (relay_step cr st e) \<and> mirrored cr (relay_step cr st e)"
proof -
  obtain env ev where e: "e = (env, ev)" by fastforce
  have w: "working env" using assms(3) by (simp add: storable_event_def e)
  show ?thesis
  proof (cases "ev = RelayRestart")
    case True
    then show ?thesis
      using assms(1,2) w restart_mirrored by (simp add: e relay_step_def working_def)
  next
    case False
    have "mirrors_while cr env (relay_step cr st (env, ev))"
      using assms w by (intro mirror.kept_answer [OF _ False])
        (auto simp: mirrors_while_def storable_event_def e intro: publishes_storable)
    with w show ?thesis by (simp add: mirrors_while_def e)
  qed
qed

lemma run_mirrored:
  "relay_sound st \<Longrightarrow> mirrored cr st \<Longrightarrow> \<forall>e \<in> set es. storable_event cr e \<Longrightarrow>
    relay_sound (foldl (relay_step cr) st es) \<and> mirrored cr (foldl (relay_step cr) st es)"
  by (induction es arbitrary: st) (auto dest: step_mirrored)

section \<open>Properties\<close>

text \<open>C21 [restart_transparent].  The database refines the memory.  After any run of requests and
  restarts on a database whose calls succeed, starting the relay again leaves exactly the
  daemons, push tokens and pairing codes that a prune at that moment would have left in memory:
  no accepted registration, token or code is lost and none comes back.  What is published has
  to survive its encoding: an expiry below \<open>2^63\<close> and a record that JSON reads back.\<close>

theorem restart_transparent:
  assumes "relay_sound st" and "mirrored cr st" and "\<forall>e \<in> set es. storable_event cr e"
    and "now < 2 ^ 63" and "st' = foldl (relay_step cr) st es"
  shows "rs_daemons (relay_restart cr now st') = rs_daemons (prune_memory now st') \<and>
    rs_tokens (relay_restart cr now st') = rs_tokens (prune_memory now st') \<and>
    rs_pairing_codes (relay_restart cr now st') = rs_pairing_codes (prune_memory now st')"
proof -
  have r: "relay_sound st'" "mirrored cr st'"
    using run_mirrored [OF assms(1-3)] assms(5) by simp_all
  from r(2) obtain db where "rs_store st' = Some db" by (rule mirroredE)
  from restart_loads [OF r(2,1) assms(4) this] show ?thesis by blast
qed

lemma demo_relay_sound: "relay_sound demo_relay"
  by (auto simp: relay_sound_def demo_relay_wf demo_fields MAX_DAEMONS_def tbl_get_def
      registered_key_def demo_owner_def)

lemma demo_relay_mirrored: "mirrored demo_relay_crates demo_relay"
proof (rule mirroredI [where db = demo_store])
  show "rs_store demo_relay = Some demo_store" by (simp add: demo_fields)
  show "db_daemons demo_store = tbl_map row_of_daemon (rs_daemons demo_relay)"
    "db_push_tokens demo_store = tbl_map row_of_token (rs_tokens demo_relay)"
    "tbl_map row_core (db_pairing_codes demo_store) =
      tbl_map (core_of_code demo_relay_crates) (rs_pairing_codes demo_relay)"
    by (simp_all add: demo_fields demo_store_def save_token_def save_daemon_def empty_store_def
        tbl_map_def row_of_daemon_def row_of_token_def demo_owner_def)
  show "storable_daemon demo_relay_crates r" if "(d, r) \<in> set (rs_daemons demo_relay)" for d r
  proof -
    have "point_ok demo_relay_crates demo_key" by (simp add: demo_relay_crates_def)
    then show ?thesis using that by (simp add: demo_fields storable_daemon_def demo_key_def)
  qed
qed (simp_all add: demo_fields storable_token_def demo_owner_def)

theorem restart_transparent_witness:
  "\<exists>st'. st' = foldl (relay_step demo_relay_crates) demo_relay
      [(demo_env, HttpUnregisterToken demo_headers []), (demo_env, RelayRestart)] \<and>
    rs_tokens (relay_restart demo_relay_crates 5000 st') = rs_tokens (prune_memory 5000 st')"
proof -
  have "\<forall>e \<in> set [(demo_env, HttpUnregisterToken demo_headers []), (demo_env, RelayRestart)].
      storable_event demo_relay_crates e"
    by (simp add: storable_event_def publishes_def working_def demo_env_def)
  note t = restart_transparent [OF demo_relay_sound demo_relay_mirrored this _ refl,
      THEN conjunct2, THEN conjunct1, of 5000]
  show ?thesis by (intro exI conjI, rule refl, rule t) simp
qed

end
