(* ===== verification/RelayCodes.thy ===== *)
theory RelayCodes
  imports RelayBounds
begin

text \<open>
  A published pairing code is resolved once, before it expires, by requests that follow one
  another, and every failed lookup gets the same answer.  Two lookups at the same time can both
  be answered.
\<close>

section \<open>Codes that are gone\<close>

definition gone_row :: "rstr \<Rightarrow> relay_store \<Rightarrow> bool" where
  "gone_row key db \<longleftrightarrow> tbl_get (db_pairing_codes db) key = None"

definition gone :: "rstr \<Rightarrow> relay_state \<Rightarrow> bool" where
  "gone key st \<longleftrightarrow> relay_wf st \<and> tbl_get (rs_pairing_codes st) key = None \<and>
     pred_option (gone_row key) (rs_store st)"

lemma tbl_retain_None: "tbl_get t k = None \<Longrightarrow> tbl_get (tbl_retain P t) k = None"
  by (force simp: tbl_get_dom tbl_retain_def)

lemma gone_statements:
  assumes "gone_row key db"
  shows "gone_row key (save_daemon d r db)" "gone_row key (save_token tk d pf t db)"
    "gone_row key (touch_token tk t db)" "gone_row key (remove_token tk db)"
    "gone_row key (fst (insert_nonce d n t db))" "gone_row key (delete_pairing_code c db)"
    "gone_row key (prune_expired_rows now ps rt db)"
    "c \<noteq> key \<Longrightarrow> gone_row key (save_pairing_code c d b e p db)"
    "record_authenticated_activity d n t u db = (db', ins) \<Longrightarrow> gone_row key db'"
  using assms
  by (auto simp: gone_row_def save_daemon_def save_token_def touch_token_def remove_token_def
      insert_nonce_def delete_pairing_code_def prune_expired_rows_def save_pairing_code_def Let_def
      record_authenticated_activity_def tbl_get_remove tbl_get_insert tbl_retain_None split: if_splits)

lemma goneD: "gone key st \<Longrightarrow> relay_wf st"
    "gone key st \<Longrightarrow> tbl_get (rs_pairing_codes st) key = None"
    "gone key st \<Longrightarrow> rs_store st = Some db \<Longrightarrow> gone_row key db"
  by (simp_all add: gone_def)

lemma gone_frame:
  "gone key st \<Longrightarrow> relay_wf st' \<Longrightarrow> rs_store st' = rs_store st \<Longrightarrow>
    rs_pairing_codes st' = rs_pairing_codes st \<Longrightarrow> gone key st'"
  by (simp add: gone_def)

lemma gone_store:
  "gone key st \<Longrightarrow> relay_wf st' \<Longrightarrow> rs_pairing_codes st' = rs_pairing_codes st \<Longrightarrow>
    rs_store st = Some db \<Longrightarrow> rs_store st' = Some db' \<Longrightarrow> gone_row key db' \<Longrightarrow> gone key st'"
  by (simp add: gone_def)

lemma gone_try: "gone key st \<Longrightarrow> (\<And>db. store_wf db \<Longrightarrow> store_wf (f db)) \<Longrightarrow>
    (\<And>db. gone_row key db \<Longrightarrow> gone_row key (f db)) \<Longrightarrow> gone key (store_try ok f st)"
  using store_try_wf [of st f ok] by (cases "rs_store st") (auto simp: gone_def store_try_def)

lemma gone_call: "gone key st \<Longrightarrow> (\<And>db. store_wf db \<Longrightarrow> store_wf (f db)) \<Longrightarrow>
    (\<And>db. gone_row key db \<Longrightarrow> gone_row key (f db)) \<Longrightarrow> gone key (fst (store_call ok f st))"
  using store_call_wf [of st f ok] by (cases "rs_store st") (auto simp: gone_def store_call_def)

lemma gone_prune:
  assumes g: "gone key st"
  shows "gone key (maybe_prune_expired_relay_state ok now st)"
proof (cases "now - rs_pruned_at_ms st < PRUNE_INTERVAL_MS")
  case True
  with g show ?thesis by (simp add: maybe_prune_expired_relay_state_def)
next
  case False
  have "relay_wf (st\<lparr>rs_pruned_at_ms := now\<rparr>)" using g by (simp add: gone_def relay_wf_def)
  from prune_memory_wf [OF this, of now]
  have "gone key (prune_memory now (st\<lparr>rs_pruned_at_ms := now\<rparr>))"
    using g by (simp add: gone_def) (simp add: prune_memory_def Let_def tbl_retain_None)
  with False show ?thesis
    by (simp add: maybe_prune_expired_relay_state_def prune_expired_relay_state_def Let_def
        gone_try store_wf_statements gone_statements)
qed

lemma gone_delete_codes: "gone key st \<Longrightarrow> gone key (delete_codes env cs st)"
  by (erule delete_codes_inv) (simp add: gone_try store_wf_statements gone_statements)

lemma gone_store_code:
  assumes g: "gone key st" and ne: "code \<noteq> key"
  shows "gone key (fst (store_code cr env st code entry))"
proof -
  have wf: "relay_wf st" using g by (simp add: gone_def)
  obtain st1 old where ev: "evict_codes_for_daemon (ce_daemon_node_id entry) code st = (st1, old)"
    by fastforce
  then have st1: "st1 = st\<lparr>rs_pairing_codes := fold tbl_remove old (rs_pairing_codes st)\<rparr>"
    unfolding evict_codes_for_daemon_def Let_def prod.inject by blast
  have "gone key st1"
    using g evict_codes_wf [OF wf, of "ce_daemon_node_id entry" code] ev
    by (simp add: gone_def st1 tbl.lookup_remove_all [OF wf_parts(3) [OF wf]])
  then have g1: "gone key (fst (store_call ok (save_pairing_code code d p e t) (delete_codes env old st1)))"
    for ok d p e t
    using ne by (intro gone_call gone_delete_codes store_wf_statements(7) gone_statements(8))
  show ?thesis
  proof (cases "stored_payload cr (ce_record entry)")
    case None
    with ev \<open>gone key st1\<close> show ?thesis
      by (simp add: store_code_def gone_def relay_wf_def)
  next
    case (Some payload)
    from g1 show ?thesis
      unfolding store_code_def ev Let_def prod.case Some option.case
      by (rule relay_bind_inv [where P = "gone key"])
        (use ne in \<open>simp add: gone_def tbl_get_insert, simp add: relay_wf_def tbl_insert_ok\<close>)
  qed
qed

lemma commit_gone: "gone key st \<Longrightarrow> gone key (fst (commit_registration env st d k existing))"
proof -
  assume g: "gone key st"
  define r where "r = \<lparr>dr_public_key = k, dr_updated_at_ms = t_done env\<rparr>"
  define st1 where "st1 = st\<lparr>rs_daemons := tbl_insert d r (rs_daemons st)\<rparr>"
  obtain st2 v where c: "store_call (db_ok env CallSaveDaemon) (save_daemon d r) st1 = (st2, v)"
    by (cases "store_call (db_ok env CallSaveDaemon) (save_daemon d r) st1")
  have "gone key st1"
    using g by (simp add: gone_def st1_def wf_daemons tbl_insert_ok wf_parts)
  then have "gone key (fst (store_call (db_ok env CallSaveDaemon) (save_daemon d r) st1))"
    by (rule gone_call) (simp_all add: store_wf_statements gone_statements)
  then have st2: "gone key st2" using c by simp
  moreover have "gone key (rollback_daemon_registration d existing r st2)"
    using st2 rollback_wf [of st2 d existing r]
    by (auto simp: gone_def rollback_daemon_registration_def split: option.splits)
  moreover have "gone key (st2\<lparr>rs_metrics := m\<rparr>)" for m
    using st2 by (simp add: gone_def wf_metrics)
  ultimately show ?thesis
    using g c unfolding commit_registration_def Let_def
    by (cases v) (simp_all add: r_def [symmetric] st1_def [symmetric])
qed

interpretation gone: relay_kept cr env "\<lambda>code _. code \<noteq> key" "\<lambda>_ _. True" "gone key" for cr env key
proof unfold_locales
  fix st db d k n t db'
  assume g: "gone key st" and a: "rs_store st = Some db" "registered_key st d = Some k"
    "record_authenticated_activity d n t (t_verify env) db = (db', True)"
  have row: "gone_row key db'"
    by (rule gone_statements(9) [OF _ a(3)]) (use g a(1) in \<open>simp add: gone_def\<close>)
  have "relay_wf (touch_daemon env d k (st\<lparr>rs_store := Some db'\<rparr>))"
    by (rule wf.kept_activity [OF goneD(1) [OF g] a])
  then show "gone key (touch_daemon env d k (st\<lparr>rs_store := Some db'\<rparr>))"
    by (rule gone_store [OF g _ _ a(1) _ row]) (simp_all add: touch_daemon_def)
next
  fix st st' tk
  assume g: "gone key st" and c: "store_call (db_ok env CallRemoveToken) (remove_token tk) st = (st', Inr ())"
  have g': "gone key st'"
    unfolding store_call_fst [OF c] by (rule gone_call [OF g]) (simp_all add: store_wf_statements gone_statements)
  show "gone key (st'\<lparr>rs_tokens := tbl_remove tk (rs_tokens st')\<rparr>)"
    by (rule gone_frame [OF g' wf.kept_remove_token [OF goneD(1) [OF g] c]]) simp_all
next
  fix st st' tk
  assume g: "gone key st" and c: "store_call (db_ok env CallTouchToken) (touch_token tk (t_done env)) st = (st', Inr ())"
  have g': "gone key st'"
    unfolding store_call_fst [OF c] by (rule gone_call [OF g]) (simp_all add: store_wf_statements gone_statements)
  show "gone key (st'\<lparr>rs_tokens := tbl_update tk
      (\<lambda>w. w\<lparr>tk_updated_at_ms := t_done env\<rparr>) (rs_tokens st')\<rparr>)"
    by (rule gone_frame [OF g' wf.kept_touch_token [OF goneD(1) [OF g] c]]) simp_all
next
  fix st st' tk d pf
  assume g: "gone key st" and r: "registered_key st d \<noteq> None"
    and c: "store_call (db_ok env CallSaveToken) (save_token tk d pf (t_done env)) st = (st', Inr ())"
  have g': "gone key st'"
    unfolding store_call_fst [OF c] by (rule gone_call [OF g]) (simp_all add: store_wf_statements gone_statements)
  show "gone key (st'\<lparr>rs_tokens := tbl_insert tk \<lparr>tk_daemon_node_id = d,
      tk_platform = pf, tk_updated_at_ms = t_done env\<rparr> (rs_tokens st')\<rparr>)"
    by (rule gone_frame [OF g' wf.kept_save_token [OF goneD(1) [OF g] r c]]) simp_all
next
  fix st code
  assume g: "gone key st"
  have "gone key (st\<lparr>rs_pairing_codes := tbl_remove code (rs_pairing_codes st)\<rparr>)"
    using g by (simp add: gone_def wf_codes tbl_remove_ok wf_parts tbl_get_remove)
  then show "gone key (forget_pairing_code env code st)"
    unfolding forget_pairing_code_def by (rule gone_delete_codes)
next
  fix st db d n t
  assume g: "gone key st" and db: "rs_store st = Some db"
  have row: "gone_row key (fst (insert_nonce d n t db))"
    by (rule gone_statements(5)) (use g db in \<open>simp add: gone_def\<close>)
  show "gone key (st\<lparr>rs_store := Some (fst (insert_nonce d n t db))\<rparr>)"
    by (rule gone_store [OF g wf.kept_insert_nonce [OF goneD(1) [OF g] db] _ db _ row]) simp_all
next
  fix st d k
  assume g: "gone key st" and a: "rs_store st = None" "registered_key st d = Some k"
  show "gone key (touch_daemon env d k st)"
    by (rule gone_frame [OF g wf.kept_touch [OF goneD(1) [OF g] a]]) (simp_all add: touch_daemon_def)
qed (simp_all add: commit_gone gone_store_code gone_prune wf_parts,
    simp_all add: gone_def relay_wf_def distinct_update)

lemma load_rows_get: "load_rows f rs = Inr vs \<Longrightarrow> tbl_get rs k = None \<Longrightarrow> tbl_get vs k = None"
proof -
  assume "load_rows f rs = Inr vs" "tbl_get rs k = None"
  with load_rows_keys [of f rs vs] have "k \<notin> set (map fst vs)"
    by (simp add: tbl_get_def map_of_eq_None_iff)
  then show "tbl_get vs k = None" by (simp add: tbl_get_def map_of_eq_None_iff)
qed

lemma gone_restart:
  assumes g: "gone key st"
  shows "gone key (relay_restart cr now st)"
proof (cases "rs_store st")
  case None
  then have "rs_store (relay_restart cr now st) = None \<and> rs_pairing_codes (relay_restart cr now st) = []"
    by (simp add: relay_restart_def relay_default_def)
  with restart_wf [OF goneD(1) [OF g]] show ?thesis by (simp add: gone_def tbl_get_def)
next
  case (Some db)
  obtain db' r where l: "load_state cr now (rs_prune_stale_daemons st) (rs_daemon_retention_ms st) db
      = (db', r)" by fastforce
  have row: "gone_row key db'"
    unfolding load_state_parts(1) [OF l] by (rule gone_statements(7) [OF goneD(3) [OF g Some]])
  have "tbl_get (rs_pairing_codes (relay_restart cr now st)) key = None \<and>
      rs_store (relay_restart cr now st) = Some db'"
  proof (cases r)
    case (Inl e)
    with l Some goneD(2) [OF g] show ?thesis
      by (simp add: relay_restart_def open_sqlite_with_policy_def)
  next
    case (Inr loaded)
    obtain ds ts ns cs where loaded: "loaded = (ds, ts, ns, cs)" by (metis prod_cases4)
    then have "load_rows (load_code cr) (db_pairing_codes db') = Inr cs"
      using load_state_parts(2) [OF l] Inr by simp
    then have "tbl_get cs key = None"
      by (rule load_rows_get) (use row in \<open>simp add: gone_row_def\<close>)
    with l Some Inr loaded show ?thesis
      by (simp add: relay_restart_def open_sqlite_with_policy_def)
  qed
  with restart_wf [OF goneD(1) [OF g]] row show ?thesis by (simp add: gone_def)
qed

lemma gone_run:
  "gone key st \<Longrightarrow> \<forall>(env, ev) \<in> set es. \<forall>entry. publishes cr ev \<noteq> Some (key, entry) \<Longrightarrow>
    gone key (foldl (relay_step cr) st es)"
proof (induction es arbitrary: st)
  case (Cons e es)
  obtain env ev where e: "e = (env, ev)" by fastforce
  have "gone key (relay_step cr st e)"
  proof (cases "ev = RelayRestart")
    case True
    then show ?thesis using gone_restart [OF Cons.prems(1)] by (simp add: e relay_step_def)
  next
    case False
    then show ?thesis
      unfolding e by (rule gone.kept_answer [OF Cons.prems(1)]) (use Cons.prems(2) e in auto)
  qed
  with Cons show ?case by simp
qed simp

section \<open>Properties\<close>

lemma resolve_gone:
  "gone key st \<Longrightarrow> resolve_key code = Some key \<Longrightarrow>
    snd (resolve_pairing_code env peer h code st) \<in> {Inl code_not_found, Inl resolve_rate_limited}"
  by (simp add: resolve_pairing_code_alt Let_def split_beta goneD(2))

lemma resolve_Inr:
  assumes "resolve_pairing_code env peer h code st = (st1, Inr reply)" and "resolve_key code = Some key"
  obtains entry l m where "tbl_get (rs_pairing_codes st) key = Some entry"
    and "t_check env < ce_expires_at_ms entry" and "reply = resolution (ce_record entry)"
    and "st1 = (forget_pairing_code env key (st\<lparr>rs_resolve_rate_limits := l\<rparr>))\<lparr>rs_metrics := m\<rparr>"
  using assms by (auto simp: resolve_pairing_code_alt Let_def split_beta split: if_splits option.splits)

lemma forget_gone:
  assumes wf: "relay_wf st" and del: "rs_store st = None \<or> db_ok env (CallDeleteCode key)"
  shows "gone key (forget_pairing_code env key st)"
proof -
  have "relay_wf (forget_pairing_code env key st)" by (rule wf.kept_forget [OF wf])
  moreover have "tbl_get (rs_pairing_codes (forget_pairing_code env key st)) key = None \<and>
      pred_option (gone_row key) (rs_store (forget_pairing_code env key st))"
    using del by (cases "rs_store st") (auto simp: forget_pairing_code_def delete_codes_def
        store_try_def tbl_get_remove delete_pairing_code_def gone_row_def)
  ultimately show ?thesis by (simp add: gone_def)
qed

text \<open>C22 [code_resolves_once].  A pairing code that resolves was published and has not expired,
  and the caller gets the record published under it.  It resolves only once: whatever the relay
  serves afterwards, restarts included, nobody gets the record again unless a daemon publishes the
  code anew; the answer is that of a code that never was, or the rate limit.  The row has to be
  deleted with the entry: a database call that fails there leaves it to the next restart.\<close>

theorem code_resolves_once:
  assumes wf: "relay_wf st" and key: "resolve_key code = Some key" "resolve_key code' = Some key"
    and ans: "resolve_pairing_code env peer h code st = (st1, Inr reply)"
    and del: "rs_store st = None \<or> db_ok env (CallDeleteCode key)"
    and fresh: "\<forall>(env, ev) \<in> set es. \<forall>entry. publishes cr ev \<noteq> Some (key, entry)"
  shows "(\<exists>entry. tbl_get (rs_pairing_codes st) key = Some entry \<and>
      t_check env < ce_expires_at_ms entry \<and> reply = resolution (ce_record entry)) \<and>
    snd (resolve_pairing_code env' peer' h' code' (foldl (relay_step cr) st1 es))
      \<in> {Inl code_not_found, Inl resolve_rate_limited}"
proof (rule resolve_Inr [OF ans key(1)])
  fix entry l m
  assume e: "tbl_get (rs_pairing_codes st) key = Some entry" "t_check env < ce_expires_at_ms entry"
    "reply = resolution (ce_record entry)"
    and st1: "st1 = (forget_pairing_code env key (st\<lparr>rs_resolve_rate_limits := l\<rparr>))\<lparr>rs_metrics := m\<rparr>"
  have "gone key (forget_pairing_code env key (st\<lparr>rs_resolve_rate_limits := l\<rparr>))"
    by (rule forget_gone [OF wf.kept_limits(2) [OF wf]]) (use del in simp)
  then have "gone key st1"
    unfolding st1 by (rule gone.kept_metrics)
  from resolve_gone [OF gone_run [OF this fresh] key(2)] e show ?thesis by blast
qed

definition published_relay :: relay_state where
  "published_relay = demo_relay\<lparr>rs_store := None, rs_pairing_codes := [(demo_hash,
     \<lparr>ce_daemon_node_id = demo_daemon, ce_record = Reachability demo_rendezvous,
      ce_expires_at_ms = 400000\<rparr>)]\<rparr>"

lemma published_code: "tbl_get (rs_pairing_codes published_relay) demo_hash =
    Some \<lparr>ce_daemon_node_id = demo_daemon, ce_record = Reachability demo_rendezvous,
      ce_expires_at_ms = 400000\<rparr>"
  by (simp add: published_relay_def tbl_get_def)

lemma published_limits: "rs_resolve_rate_limits published_relay = Map.empty"
    "published_relay\<lparr>rs_resolve_rate_limits := Map.empty\<rparr> = published_relay"
  by (simp_all add: published_relay_def demo_relay_def relay_default_def)

lemma published_store: "rs_store published_relay = None"
    "rs_trust_forwarded_for published_relay = False"
  by (simp_all add: published_relay_def demo_relay_def relay_default_def)

lemma demo_key_resolves: "resolve_key demo_hash = Some demo_hash"
proof -
  have "valid_str demo_hash" by (simp add: valid_str_def demo_hash_def list_all_iff)
  moreover have "hex64_pattern demo_hash" by (simp add: hex64_pattern_def demo_hash_def list_all_iff)
  ultimately have "is_valid_pairing_locator demo_hash" by (simp add: hex64_locator)
  then show ?thesis by (simp add: resolve_key_def)
qed

theorem code_resolves_once_witness:
  "\<exists>st1. resolve_pairing_code demo_env (lit ''192.0.2.1'') [] demo_hash published_relay =
      (st1, Inr (ResolvedRendezvous demo_rendezvous)) \<and>
    snd (resolve_pairing_code demo_env (lit ''192.0.2.2'') [] demo_hash
      (foldl (relay_step demo_relay_crates) st1 [(demo_env, HttpPush demo_headers [])]))
      \<in> {Inl code_not_found, Inl resolve_rate_limited}"
proof -
  have wf: "relay_wf published_relay"
    using demo_relay_wf by (simp add: relay_wf_def published_relay_def tbl_ok_def)
  note key = demo_key_resolves
  obtain st1 where a: "resolve_pairing_code demo_env (lit ''192.0.2.1'') [] demo_hash
      published_relay = (st1, Inr (ResolvedRendezvous demo_rendezvous))"
    using published_code published_limits published_store
    by (simp add: resolve_pairing_code_alt key Let_def split_beta increment_def rate_count_def
        RESOLVE_ATTEMPTS_PER_MINUTE_def demo_env_def resolution_def u32_max_def)
  have "snd (resolve_pairing_code demo_env (lit ''192.0.2.2'') [] demo_hash
      (foldl (relay_step demo_relay_crates) st1 [(demo_env, HttpPush demo_headers [])]))
      \<in> {Inl code_not_found, Inl resolve_rate_limited}"
    by (rule code_resolves_once [OF wf key key a, THEN conjunct2])
      (simp_all add: published_relay_def publishes_def)
  with a show ?thesis by blast
qed

text \<open>C38 [code_race_resolves_twice].  Two clients that resolve a code at the same time both get
  its record: a lookup that is served after another's lookup, and before that one has forgotten
  the code, hits too, and neither answer is taken back.\<close>

theorem code_race_resolves_twice:
  assumes a: "resolve_lookup env peer h code st = (st1, Inr (key, Hit record))"
    and b: "resolve_lookup env' peer' h' code' st1 = (st2, Inr (key, found))"
    and now: "t_check env' \<le> t_check env"
  shows "snd (finish_resolution env key (Hit record) st2) = Inr (resolution record) \<and>
    snd (finish_resolution env' key found (fst (finish_resolution env key (Hit record) st2))) =
      Inr (resolution record)"
proof -
  obtain e where e: "tbl_get (rs_pairing_codes st1) key = Some e" "ce_record e = record"
    "t_check env < ce_expires_at_ms e"
    using a by (auto simp: resolve_lookup_def lookup_code_def Let_def split_beta
        split: if_splits option.splits)
  have "lookup_code env' key (st1\<lparr>rs_resolve_rate_limits := l\<rparr>) =
      (st1\<lparr>rs_resolve_rate_limits := l\<rparr>, Hit record)" for l
    using e now by (simp add: lookup_code_def)
  then have "found = Hit record"
    using b by (auto simp: resolve_lookup_def Let_def split_beta split: if_splits option.splits)
  then show ?thesis by (simp add: Let_def)
qed

theorem code_race_resolves_twice_witness:
  "\<exists>st1 st2. resolve_lookup demo_env (lit ''192.0.2.1'') [] demo_hash published_relay =
      (st1, Inr (demo_hash, Hit (Reachability demo_rendezvous))) \<and>
    resolve_lookup demo_env (lit ''192.0.2.2'') [] demo_hash st1 =
      (st2, Inr (demo_hash, Hit (Reachability demo_rendezvous))) \<and>
    snd (finish_resolution demo_env demo_hash (Hit (Reachability demo_rendezvous)) (fst
      (finish_resolution demo_env demo_hash (Hit (Reachability demo_rendezvous)) st2))) =
      Inr (ResolvedRendezvous demo_rendezvous)"
proof -
  have look: "resolve_lookup demo_env peer [] demo_hash
      (published_relay\<lparr>rs_resolve_rate_limits := l\<rparr>) =
      (published_relay\<lparr>rs_resolve_rate_limits := l'\<rparr>, Inr (demo_hash, Hit (Reachability demo_rendezvous)))"
    if "rate_count l peer 0 = 0" and "l' = fst (increment peer 0 l)" for peer l l'
    using that by (simp add: resolve_lookup_def demo_key_resolves Let_def split_beta increment_def
        RESOLVE_ATTEMPTS_PER_MINUTE_def demo_env_def u32_max_def lookup_code_def published_code
        client_identifier_def published_store)
  define l1 l2 where "l1 = fst (increment (lit ''192.0.2.1'') 0 Map.empty)"
    and "l2 = fst (increment (lit ''192.0.2.2'') 0 l1)"
  have a: "resolve_lookup demo_env (lit ''192.0.2.1'') [] demo_hash published_relay =
      (published_relay\<lparr>rs_resolve_rate_limits := l1\<rparr>,
        Inr (demo_hash, Hit (Reachability demo_rendezvous)))"
    using look [of Map.empty "lit ''192.0.2.1''" l1] published_limits
    by (simp add: rate_count_def l1_def)
  have "rate_count l1 (lit ''192.0.2.2'') 0 = 0"
    by (simp add: rate_count_def l1_def increment_def Let_def lit_def)
  from look [OF this l2_def] have b: "resolve_lookup demo_env (lit ''192.0.2.2'') [] demo_hash
      (published_relay\<lparr>rs_resolve_rate_limits := l1\<rparr>) =
      (published_relay\<lparr>rs_resolve_rate_limits := l2\<rparr>,
        Inr (demo_hash, Hit (Reachability demo_rendezvous)))"
    by simp
  have "snd (finish_resolution demo_env demo_hash (Hit (Reachability demo_rendezvous)) (fst
      (finish_resolution demo_env demo_hash (Hit (Reachability demo_rendezvous))
        (published_relay\<lparr>rs_resolve_rate_limits := l2\<rparr>)))) = Inr (ResolvedRendezvous demo_rendezvous)"
    using code_race_resolves_twice [OF a b order_refl, THEN conjunct2]
    by (simp add: resolution_def)
  with a b show ?thesis by blast
qed

end
