(* ===== verification/PushWorker.thy ===== *)
theory PushWorker
  imports Registry Signing "HOL-Library.List_Lexorder"
begin

text \<open>
  The push worker of the daemon (\<open>crates/daemon/src/push.rs\<close>): it takes commands off a queue and
  turns each into signed requests to the relay, registering the daemon first, and retrying
  what may be temporary until a deadline.  What it uses of the outside is \<open>push_net\<close>, a record
  of functions on a world \<open>'w\<close>: the HTTP client, sleeping, the two clocks, random bytes, the
  delays of the backoff and the shared table of devices.  Base64, SHA-256, Ed25519 and the
  JSON encoders are \<open>push_crates\<close>.
\<close>

section \<open>Requests\<close>

datatype relay_push_platform = RelayApns | RelayFcm

fun relay_push_platform_from :: "push_platform \<Rightarrow> relay_push_platform" where
  "relay_push_platform_from Apns = RelayApns"
| "relay_push_platform_from Fcm = RelayFcm"

datatype relay_push_event_type = AwaitingInputPush | SessionCrashedPush | BuildFinishedPush

fun dispatch_operation :: "relay_push_event_type \<Rightarrow> rstr" where
  "dispatch_operation AwaitingInputPush = lit ''dispatch awaiting-input push''"
| "dispatch_operation SessionCrashedPush = lit ''dispatch session-crashed push''"
| "dispatch_operation BuildFinishedPush = lit ''dispatch build-finished push''"

record register_daemon_body =
  rdb_daemon_node_id :: rstr
  rdb_public_key :: rstr

record register_token_body =
  rtb_daemon_node_id :: rstr
  rtb_platform :: relay_push_platform
  rtb_push_token :: rstr
  rtb_nonce :: rstr
  rtb_ts_ms :: nat

record unregister_token_body =
  utb_daemon_node_id :: rstr
  utb_push_token :: rstr
  utb_nonce :: rstr
  utb_ts_ms :: nat

record publish_rendezvous_body =
  prb_daemon_node_id :: rstr
  prb_locator :: rstr
  prb_rendezvous :: pairing_rendezvous
  prb_nonce :: rstr
  prb_ts_ms :: nat

record push_body =
  phb_daemon_node_id :: rstr
  phb_recipient_token :: rstr
  phb_platform :: relay_push_platform
  phb_session_id_hash :: rstr
  phb_event_type :: relay_push_event_type
  phb_nonce :: rstr
  phb_ts_ms :: nat

record push_crates =
  pc_encode64 :: "bytes \<Rightarrow> rstr"
  pc_sha256 :: "bytes \<Rightarrow> bytes"
  pc_sign :: "bytes \<Rightarrow> bytes \<Rightarrow> bytes"
  pc_verifying_key :: "bytes \<Rightarrow> bytes"
  pc_uuid_text :: "nat \<Rightarrow> rstr"
  pc_register_daemon :: "register_daemon_body \<Rightarrow> bytes option"
  pc_register_token :: "register_token_body \<Rightarrow> bytes option"
  pc_unregister_token :: "unregister_token_body \<Rightarrow> bytes option"
  pc_publish :: "publish_rendezvous_body \<Rightarrow> bytes option"
  pc_push :: "push_body \<Rightarrow> bytes option"

section \<open>Errors\<close>

text \<open>
  \<open>anyhow::Error\<close>, as far as the code looks into it: a refusal of the relay, a failure of the
  HTTP client (a connection that failed or timed out, or another), a message, and context
  around an error.
\<close>

datatype push_error =
    RelayHttpError rstr nat rstr
  | ReqwestError bool
  | PushError rstr
  | PushContext rstr push_error

text \<open>\<open>downcast_ref\<close> also finds what context was added to.\<close>

fun is_retryable_relay_error :: "push_error \<Rightarrow> bool" where
  "is_retryable_relay_error (RelayHttpError _ status _) \<longleftrightarrow>
     (500 \<le> status \<and> status < 600) \<or> status = 408 \<or> status = 429"
| "is_retryable_relay_error (ReqwestError connect_or_timeout) \<longleftrightarrow> connect_or_timeout"
| "is_retryable_relay_error (PushError _) \<longleftrightarrow> False"
| "is_retryable_relay_error (PushContext _ e) \<longleftrightarrow> is_retryable_relay_error e"

section \<open>The outside\<close>

record relay_retry =
  rr_min_delay :: nat
  rr_max_delay :: nat
  rr_total_delay :: nat
  rr_jitter :: bool

definition retry_production :: relay_retry where
  "retry_production = \<lparr>rr_min_delay = 1000, rr_max_delay = 8000, rr_total_delay = 60000,
     rr_jitter = True\<rparr>"

record http_request =
  hq_url :: rstr
  hq_headers :: "(rstr \<times> rstr) list"
  hq_body :: bytes

datatype send_result = Responded nat rstr | SendFailed bool

text \<open>
  \<open>pn_send\<close> sends a request and reads the response, unless a deadline comes first: then there is
  no result, though the relay may have got the request.  \<open>pn_delays\<close> are the delays that one
  backoff yields.
\<close>

record 'w push_net =
  pn_send :: "nat \<Rightarrow> http_request \<Rightarrow> 'w \<Rightarrow> 'w \<times> send_result option"
  pn_sleep :: "nat \<Rightarrow> 'w \<Rightarrow> 'w"
  pn_instant :: "'w \<Rightarrow> nat"
  pn_now_ms :: "'w \<Rightarrow> nat"
  pn_random16 :: "'w \<Rightarrow> 'w \<times> bytes"
  pn_delays :: "relay_retry \<Rightarrow> 'w \<Rightarrow> nat \<Rightarrow> nat option"
  pn_devices :: "'w \<Rightarrow> (rstr \<times> stored_device) list"

section \<open>One request\<close>

definition push_nonce :: "push_crates \<Rightarrow> 'w push_net \<Rightarrow> 'w \<Rightarrow> 'w \<times> rstr" where
  "push_nonce pc net w = (case pn_random16 net w of (w', bytes) \<Rightarrow> (w', pc_encode64 pc bytes))"

definition hash_for_push :: "push_crates \<Rightarrow> rstr \<Rightarrow> rstr" where
  "hash_for_push pc value = hex False (pc_sha256 pc (as_bytes value))"

definition push_sign ::
    "push_crates \<Rightarrow> bytes \<Rightarrow> rstr \<Rightarrow> rstr \<Rightarrow> bytes \<Rightarrow> rstr \<Rightarrow> nat \<Rightarrow> rstr" where
  "push_sign pc key relay_audience path body nonce ts_ms =
     signature_header V2 (pc_encode64 pc (pc_sign pc key
       (canonical_request_v2 (pc_sha256 pc) relay_audience (lit ''POST'') path body nonce ts_ms)))"

definition ensure_success :: "rstr \<Rightarrow> send_result \<Rightarrow> push_error + unit" where
  "ensure_success path response = (case response of
     SendFailed connect_or_timeout \<Rightarrow> Inl (ReqwestError connect_or_timeout)
   | Responded status body \<Rightarrow>
       if 200 \<le> status \<and> status < 300 then Inr () else Inl (RelayHttpError path status body))"

record push_config =
  pf_relay_url :: rstr
  pf_signing_key :: bytes
  pf_retry :: relay_retry

definition budget_exceeded :: "rstr \<Rightarrow> push_error" where
  "budget_exceeded operation =
     PushError (lit ''push relay '' @ operation @ lit '' exceeded retry budget'')"

definition budget_spent :: "rstr \<Rightarrow> push_error \<Rightarrow> push_error" where
  "budget_spent operation =
     PushContext (lit ''push relay '' @ operation @ lit '' retry budget spent'')"

text \<open>Sending with the deadline of the retries around it.\<close>

definition send_until ::
    "'w push_net \<Rightarrow> rstr \<Rightarrow> nat \<Rightarrow> rstr \<Rightarrow> http_request \<Rightarrow> 'w \<Rightarrow> 'w \<times> (push_error + unit)" where
  "send_until net operation deadline path request w = (case pn_send net deadline request w of
     (w', None) \<Rightarrow> (w', Inl (budget_exceeded operation))
   | (w', Some response) \<Rightarrow> (w', ensure_success path response))"

definition post_json_once ::
    "'w push_net \<Rightarrow> push_config \<Rightarrow> rstr \<Rightarrow> nat \<Rightarrow> rstr \<Rightarrow> bytes \<Rightarrow> 'w \<Rightarrow> 'w \<times> (push_error + unit)" where
  "post_json_once net cfg operation deadline path body =
     send_until net operation deadline path \<lparr>hq_url = pf_relay_url cfg @ path,
       hq_headers = [(lit ''content-type'', lit ''application/json'')], hq_body = body\<rparr>"

definition encode_error :: push_error where
  "encode_error = PushError (lit ''encode push relay request'')"

definition post_signed_json_once ::
    "push_crates \<Rightarrow> 'w push_net \<Rightarrow> push_config \<Rightarrow> rstr \<Rightarrow> nat \<Rightarrow> rstr \<Rightarrow> bytes option \<Rightarrow> rstr \<Rightarrow> nat \<Rightarrow>
     'w \<Rightarrow> 'w \<times> (push_error + unit)" where
  "post_signed_json_once pc net cfg operation deadline path body nonce ts_ms w = (case body of
     None \<Rightarrow> (w, Inl encode_error)
   | Some body \<Rightarrow>
       send_until net operation deadline path \<lparr>hq_url = pf_relay_url cfg @ path,
         hq_headers = [(lit ''content-type'', lit ''application/json''), (lit ''x-shelly-signature'',
           push_sign pc (pf_signing_key cfg) (pf_relay_url cfg) path body nonce ts_ms)],
         hq_body = body\<rparr> w)"

section \<open>Retries\<close>

partial_function (option) retry_loop ::
    "'w push_net \<Rightarrow> rstr \<Rightarrow> nat \<Rightarrow> (nat \<Rightarrow> nat option) \<Rightarrow> (nat \<Rightarrow> 'w \<Rightarrow> 'w \<times> (push_error + unit)) \<Rightarrow>
     nat \<Rightarrow> 'w \<Rightarrow> ('w \<times> (push_error + unit)) option" where
  "retry_loop net operation deadline delays op i w =
     (if deadline < pn_instant net w then Some (w, Inl (budget_exceeded operation))
      else let remaining = deadline - pn_instant net w in
        (case op deadline w of
           (w', Inr _) \<Rightarrow> Some (w', Inr ())
         | (w', Inl e) \<Rightarrow>
             if \<not> is_retryable_relay_error e then Some (w', Inl e)
             else (case delays i of
                 None \<Rightarrow> Some (w', Inl (budget_spent operation e))
               | Some delay \<Rightarrow>
                   if remaining \<le> delay then Some (w', Inl (budget_spent operation e))
                   else retry_loop net operation deadline delays op (Suc i) (pn_sleep net delay w'))))"

definition retry_relay_operation ::
    "'w push_net \<Rightarrow> relay_retry \<Rightarrow> rstr \<Rightarrow> (nat \<Rightarrow> 'w \<Rightarrow> 'w \<times> (push_error + unit)) \<Rightarrow> 'w \<Rightarrow>
     ('w \<times> (push_error + unit)) option" where
  "retry_relay_operation net retry operation op w =
     retry_loop net operation (pn_instant net w + rr_total_delay retry) (pn_delays net retry w) op 0 w"

section \<open>The worker\<close>

record push_worker =
  pw_daemon_node_id :: "rstr option"
  pw_daemon_registered :: bool

type_synonym ('w, 'a) worker_result = "((push_worker \<times> 'w) \<times> (push_error + 'a)) option"

text \<open>The \<open>?\<close> operator, for a computation that may not end.\<close>

definition worker_bind ::
    "('w, 'a) worker_result \<Rightarrow> (push_worker \<Rightarrow> 'w \<Rightarrow> 'a \<Rightarrow> ('w, 'b) worker_result) \<Rightarrow> ('w, 'b) worker_result"
where
  "worker_bind r f = (case r of
     None \<Rightarrow> None
   | Some (s, Inl e) \<Rightarrow> Some (s, Inl e)
   | Some ((wk, w), Inr a) \<Rightarrow> f wk w a)"

definition keep_worker ::
    "push_worker \<Rightarrow> ('w \<times> (push_error + unit)) option \<Rightarrow> ('w, unit) worker_result" where
  "keep_worker wk r = map_option (\<lambda>(w, v). ((wk, w), v)) r"

definition post_json ::
    "'w push_net \<Rightarrow> push_config \<Rightarrow> rstr \<Rightarrow> bytes option \<Rightarrow> 'w \<Rightarrow> ('w \<times> (push_error + unit)) option" where
  "post_json net cfg path body w = (case body of
     None \<Rightarrow> Some (w, Inl encode_error)
   | Some body \<Rightarrow> retry_relay_operation net (pf_retry cfg) (lit ''post relay JSON'')
       (\<lambda>deadline. post_json_once net cfg (lit ''post relay JSON'') deadline path body) w)"

definition ensure_daemon_registered ::
    "push_crates \<Rightarrow> 'w push_net \<Rightarrow> push_config \<Rightarrow> push_worker \<Rightarrow> 'w \<Rightarrow> ('w, rstr) worker_result" where
  "ensure_daemon_registered pc net cfg wk w = (case pw_daemon_node_id wk of
     None \<Rightarrow> Some ((wk, w), Inl (PushError (lit ''daemon iroh node id is not ready'')))
   | Some daemon_node_id \<Rightarrow>
       if pw_daemon_registered wk then Some ((wk, w), Inr daemon_node_id)
       else worker_bind (keep_worker wk (post_json net cfg (lit ''/v1/pair'') (pc_register_daemon pc
           \<lparr>rdb_daemon_node_id = daemon_node_id,
            rdb_public_key = pc_encode64 pc (pc_verifying_key pc (pf_signing_key cfg))\<rparr>) w))
         (\<lambda>wk w _. Some ((wk\<lparr>pw_daemon_registered := True\<rparr>, w), Inr daemon_node_id)))"

text \<open>
  The operation each signed call retries: a fresh nonce and timestamp for every attempt, then
  the body that has them.
\<close>

definition signed_attempt ::
    "push_crates \<Rightarrow> 'w push_net \<Rightarrow> push_config \<Rightarrow> rstr \<Rightarrow> rstr \<Rightarrow> (rstr \<Rightarrow> nat \<Rightarrow> bytes option) \<Rightarrow> nat \<Rightarrow>
     'w \<Rightarrow> 'w \<times> (push_error + unit)" where
  "signed_attempt pc net cfg operation path body deadline w =
     (case push_nonce pc net w of (w, nonce) \<Rightarrow>
        let ts_ms = pn_now_ms net w in
        post_signed_json_once pc net cfg operation deadline path (body nonce ts_ms) nonce ts_ms w)"

definition worker_register_token ::
    "push_crates \<Rightarrow> 'w push_net \<Rightarrow> push_config \<Rightarrow> push_platform \<Rightarrow> rstr \<Rightarrow> push_worker \<Rightarrow> 'w \<Rightarrow>
     ('w, unit) worker_result" where
  "worker_register_token pc net cfg platform token wk w =
     worker_bind (ensure_daemon_registered pc net cfg wk w) (\<lambda>wk w daemon_node_id.
       keep_worker wk (retry_relay_operation net (pf_retry cfg) (lit ''register push token'')
         (signed_attempt pc net cfg (lit ''register push token'') (lit ''/v1/push/register-token'')
           (\<lambda>nonce ts_ms. pc_register_token pc \<lparr>rtb_daemon_node_id = daemon_node_id,
              rtb_platform = relay_push_platform_from platform, rtb_push_token = token,
              rtb_nonce = nonce, rtb_ts_ms = ts_ms\<rparr>)) w))"

definition worker_unregister_token ::
    "push_crates \<Rightarrow> 'w push_net \<Rightarrow> push_config \<Rightarrow> rstr \<Rightarrow> push_worker \<Rightarrow> 'w \<Rightarrow> ('w, unit) worker_result"
where
  "worker_unregister_token pc net cfg token wk w =
     worker_bind (ensure_daemon_registered pc net cfg wk w) (\<lambda>wk w daemon_node_id.
       keep_worker wk (retry_relay_operation net (pf_retry cfg) (lit ''unregister push token'')
         (signed_attempt pc net cfg (lit ''unregister push token'') (lit ''/v1/push/unregister-token'')
           (\<lambda>nonce ts_ms. pc_unregister_token pc \<lparr>utb_daemon_node_id = daemon_node_id,
              utb_push_token = token, utb_nonce = nonce, utb_ts_ms = ts_ms\<rparr>)) w))"

definition worker_publish_pairing_rendezvous ::
    "push_crates \<Rightarrow> 'w push_net \<Rightarrow> push_config \<Rightarrow> rstr \<Rightarrow> pairing_rendezvous \<Rightarrow> push_worker \<Rightarrow> 'w \<Rightarrow>
     ('w, unit) worker_result" where
  "worker_publish_pairing_rendezvous pc net cfg locator rv wk w =
     worker_bind (ensure_daemon_registered pc net cfg wk w) (\<lambda>wk w daemon_node_id.
       keep_worker wk (retry_relay_operation net (pf_retry cfg) (lit ''publish pairing rendezvous'')
         (signed_attempt pc net cfg (lit ''publish pairing rendezvous'') (lit ''/v1/pair/publish'')
           (\<lambda>nonce ts_ms. pc_publish pc \<lparr>prb_daemon_node_id = daemon_node_id, prb_locator = locator,
              prb_rendezvous = rv, prb_nonce = nonce, prb_ts_ms = ts_ms\<rparr>)) w))"

section \<open>Session events\<close>

definition push_tokens :: "(rstr \<times> stored_device) list \<Rightarrow> (push_platform \<times> rstr) list" where
  "push_tokens devices = sort_key snd (List.map_filter (\<lambda>(_, d).
     case (sd_push_platform d, sd_push_token d) of
       (Some platform, Some token) \<Rightarrow> Some (platform, token) | _ \<Rightarrow> None) devices)"

definition push_one_device ::
    "push_crates \<Rightarrow> 'w push_net \<Rightarrow> push_config \<Rightarrow> rstr \<Rightarrow> session_id \<Rightarrow> relay_push_event_type \<Rightarrow>
     push_platform \<times> rstr \<Rightarrow> 'w \<Rightarrow> ('w \<times> (push_error + unit)) option" where
  "push_one_device pc net cfg daemon_node_id session_id kind recipient =
     retry_relay_operation net (pf_retry cfg) (dispatch_operation kind)
       (signed_attempt pc net cfg (dispatch_operation kind) (lit ''/v1/push'')
         (\<lambda>nonce ts_ms. pc_push pc \<lparr>phb_daemon_node_id = daemon_node_id,
            phb_recipient_token = snd recipient,
            phb_platform = relay_push_platform_from (fst recipient),
            phb_session_id_hash = hash_for_push pc (pc_uuid_text pc (session_uuid session_id)),
            phb_event_type = kind, phb_nonce = nonce, phb_ts_ms = ts_ms\<rparr>))"

text \<open>Every device is tried; the first error is kept.\<close>

fun dispatch_to ::
    "(push_platform \<times> rstr \<Rightarrow> 'w \<Rightarrow> ('w \<times> (push_error + unit)) option) \<Rightarrow>
     (push_platform \<times> rstr) list \<Rightarrow> push_error option \<Rightarrow> 'w \<Rightarrow> ('w \<times> push_error option) option" where
  "dispatch_to push_one [] first_error w = Some (w, first_error)"
| "dispatch_to push_one (t # ts) first_error w = (case push_one t w of
     None \<Rightarrow> None
   | Some (w, Inr _) \<Rightarrow> dispatch_to push_one ts first_error w
   | Some (w, Inl e) \<Rightarrow>
       dispatch_to push_one ts (case first_error of None \<Rightarrow> Some e | Some f \<Rightarrow> Some f) w)"

definition dispatch_session_event ::
    "push_crates \<Rightarrow> 'w push_net \<Rightarrow> push_config \<Rightarrow> session_id \<Rightarrow> relay_push_event_type \<Rightarrow> push_worker \<Rightarrow>
     'w \<Rightarrow> ('w, unit) worker_result" where
  "dispatch_session_event pc net cfg session_id kind wk w =
     worker_bind (ensure_daemon_registered pc net cfg wk w) (\<lambda>wk w daemon_node_id.
       keep_worker wk (map_option (\<lambda>(w, first_error). (w, case first_error of
           Some e \<Rightarrow> Inl (PushContext (lit ''one or more push dispatches failed'') e)
         | None \<Rightarrow> Inr ()))
         (dispatch_to (push_one_device pc net cfg daemon_node_id session_id kind)
           (push_tokens (pn_devices net w)) None w)))"

section \<open>The loop\<close>

text \<open>\<open>PushCommand\<close>: what the daemon's state sends and what the sessions send.\<close>

datatype worker_command = FromApp push_command | FromSession push_event

fun worker_step ::
    "push_crates \<Rightarrow> 'w push_net \<Rightarrow> push_config \<Rightarrow> worker_command \<Rightarrow> push_worker \<Rightarrow> 'w \<Rightarrow>
     ('w, unit) worker_result" where
  "worker_step pc net cfg (FromApp (CmdSetDaemonNodeId daemon_node_id)) wk w =
     worker_bind (ensure_daemon_registered pc net cfg
         (wk\<lparr>pw_daemon_node_id := Some daemon_node_id, pw_daemon_registered := False\<rparr>) w)
       (\<lambda>wk w _. Some ((wk, w), Inr ()))"
| "worker_step pc net cfg (FromApp (CmdRegisterToken platform token)) wk w =
     worker_register_token pc net cfg platform token wk w"
| "worker_step pc net cfg (FromApp (CmdUnregisterToken token)) wk w =
     worker_unregister_token pc net cfg token wk w"
| "worker_step pc net cfg (FromApp (CmdPublishPairingRendezvous locator rv)) wk w =
     worker_publish_pairing_rendezvous pc net cfg locator rv wk w"
| "worker_step pc net cfg (FromSession (PushAwaitingInput session_id _)) wk w =
     dispatch_session_event pc net cfg session_id AwaitingInputPush wk w"
| "worker_step pc net cfg (FromSession (PushSessionCrashed session_id _)) wk w =
     dispatch_session_event pc net cfg session_id SessionCrashedPush wk w"
| "worker_step pc net cfg (FromSession (PushBuildFinished session_id _)) wk w =
     dispatch_session_event pc net cfg session_id BuildFinishedPush wk w"

text \<open>A failed command is logged, and the next one is taken; the results in order.\<close>

fun worker_run ::
    "push_crates \<Rightarrow> 'w push_net \<Rightarrow> push_config \<Rightarrow> worker_command list \<Rightarrow> push_worker \<Rightarrow> 'w \<Rightarrow>
     ((push_worker \<times> 'w) \<times> (push_error + unit) list) option" where
  "worker_run pc net cfg [] wk w = Some ((wk, w), [])"
| "worker_run pc net cfg (c # cs) wk w = (case worker_step pc net cfg c wk w of
     None \<Rightarrow> None
   | Some ((wk, w), r) \<Rightarrow> map_option (\<lambda>(s, rs). (s, r # rs)) (worker_run pc net cfg cs wk w))"

definition worker_start :: push_worker where
  "worker_start = \<lparr>pw_daemon_node_id = None, pw_daemon_registered = False\<rparr>"

end
