(* ===== verification/PushProps.thy ===== *)
theory PushProps
  imports PushWorker
begin

text \<open>
  What holds of the push worker whatever relay it talks to: it always comes back to its queue,
  within a bound on the time a command takes.
\<close>

section \<open>The clock\<close>

text \<open>
  What the worker relies on of its runtime: sending and drawing random bytes do not turn the
  clock back, a send ends at its deadline, sleeping takes the time asked for, each within some
  \<open>slack\<close>, and a backoff yields no delay below its minimum.
\<close>

locale push_clock =
  fixes net :: "'w push_net" and slack :: nat
  assumes send_clock: "pn_send net dl req w = (w', v) \<Longrightarrow>
      pn_instant net w \<le> pn_instant net w' \<and> pn_instant net w' \<le> max (pn_instant net w) dl + slack"
    and random_clock: "pn_random16 net w = (w', bs) \<Longrightarrow> pn_instant net w' = pn_instant net w"
    and sleep_clock: "pn_instant net w + d \<le> pn_instant net (pn_sleep net d w) \<and>
      pn_instant net (pn_sleep net d w) \<le> pn_instant net w + d + slack"
    and delay_min: "pn_delays net retry w i = Some d \<Longrightarrow> rr_min_delay retry \<le> d"
begin

definition timely :: "(nat \<Rightarrow> 'w \<Rightarrow> 'w \<times> (push_error + unit)) \<Rightarrow> bool" where
  "timely op \<longleftrightarrow> (\<forall>dl w w' v. op dl w = (w', v) \<longrightarrow>
     pn_instant net w \<le> pn_instant net w' \<and> pn_instant net w' \<le> max (pn_instant net w) dl + slack)"

lemma timelyD: "timely op \<Longrightarrow> op dl w = (w', v) \<Longrightarrow>
    pn_instant net w \<le> pn_instant net w' \<and> pn_instant net w' \<le> max (pn_instant net w) dl + slack"
  unfolding timely_def by blast

lemma send_until_timely: "timely (\<lambda>dl. send_until net operation dl path req)"
  using send_clock by (fastforce simp: timely_def send_until_def split: prod.splits option.splits)

lemma post_json_once_timely: "timely (\<lambda>dl. post_json_once net cfg operation dl path body)"
  unfolding post_json_once_def by (rule send_until_timely)

lemma signed_attempt_timely: "timely (signed_attempt pc net cfg operation path body)"
proof -
  have "pn_instant net w \<le> pn_instant net w' \<and> pn_instant net w' \<le> max (pn_instant net w) dl + slack"
    if a: "signed_attempt pc net cfg operation path body dl w = (w', v)" for dl w w' v
  proof -
    obtain w1 nonce where n: "push_nonce pc net w = (w1, nonce)" by fastforce
    then have 1: "pn_instant net w1 = pn_instant net w"
      using random_clock by (auto simp: push_nonce_def split: prod.splits)
    define j where "j = body nonce (pn_now_ms net w1)"
    show ?thesis
    proof (cases j)
      case None
      with a n 1 show ?thesis
        by (simp add: signed_attempt_def Let_def post_signed_json_once_def j_def [symmetric])
    next
      case (Some b)
      with a n have "\<exists>req. send_until net operation dl path req w1 = (w', v)"
        by (auto simp: signed_attempt_def Let_def post_signed_json_once_def j_def [symmetric])
      with timelyD [OF send_until_timely] 1 show ?thesis by metis
    qed
  qed
  then show ?thesis by (auto simp: timely_def)
qed

section \<open>Retries end\<close>

lemma retry_loop_ends:
  assumes op: "timely op" and m: "\<And>i d. delays i = Some d \<Longrightarrow> 0 < d"
  shows "deadline \<le> pn_instant net w + span \<Longrightarrow> pn_instant net w \<le> deadline + span + 2 * slack \<Longrightarrow>
    \<exists>w' v. retry_loop net operation deadline delays op i w = Some (w', v) \<and>
      pn_instant net w \<le> pn_instant net w' \<and> pn_instant net w' \<le> deadline + span + 2 * slack"
proof (induction "Suc deadline - pn_instant net w" arbitrary: i w rule: less_induct)
  case less
  show ?case
  proof (cases "deadline < pn_instant net w")
    case True
    then show ?thesis using less.prems by (subst retry_loop.simps) simp
  next
    case False
    obtain w1 v1 where o: "op deadline w = (w1, v1)" by fastforce
    have t1: "pn_instant net w \<le> pn_instant net w1" "pn_instant net w1 \<le> deadline + slack"
      using timelyD [OF op o] False by auto
    show ?thesis
    proof (cases "\<exists>e d. v1 = Inl e \<and> is_retryable_relay_error e \<and> delays i = Some d \<and>
        d < deadline - pn_instant net w")
      case False
      have "\<exists>v. retry_loop net operation deadline delays op i w = Some (w1, v)"
        using False \<open>\<not> deadline < _\<close> o
        by (subst retry_loop.simps) (auto simp: Let_def split: sum.splits option.splits)
      with t1 show ?thesis by auto
    next
      case True
      then obtain e d where e: "v1 = Inl e" "is_retryable_relay_error e" "delays i = Some d"
        "d < deadline - pn_instant net w" by blast
      define w2 where "w2 = pn_sleep net d w1"
      have step: "retry_loop net operation deadline delays op i w =
          retry_loop net operation deadline delays op (Suc i) w2"
        using e \<open>\<not> deadline < _\<close> o by (subst retry_loop.simps) (simp add: Let_def w2_def)
      have t2: "pn_instant net w1 + d \<le> pn_instant net w2" "pn_instant net w2 \<le> pn_instant net w1 + d + slack"
        using sleep_clock by (auto simp: w2_def)
      have "Suc deadline - pn_instant net w2 < Suc deadline - pn_instant net w"
        using m [OF e(3)] t1 t2 \<open>\<not> deadline < _\<close> by linarith
      moreover have "deadline \<le> pn_instant net w2 + span" "pn_instant net w2 \<le> deadline + span + 2 * slack"
        using less.prems(1) t1 t2 e(4) by linarith+
      ultimately have "\<exists>w' v. retry_loop net operation deadline delays op (Suc i) w2 = Some (w', v) \<and>
          pn_instant net w2 \<le> pn_instant net w' \<and> pn_instant net w' \<le> deadline + span + 2 * slack"
        by (rule less.hyps)
      with step t1 t2 show ?thesis by force
    qed
  qed
qed

definition budget :: "relay_retry \<Rightarrow> nat" where
  "budget retry = 2 * rr_total_delay retry + 2 * slack"

definition ends_within :: "('w \<times> 'a) option \<Rightarrow> 'w \<Rightarrow> nat \<Rightarrow> bool" where
  "ends_within r w t \<longleftrightarrow> (\<exists>w' v. r = Some (w', v) \<and> pn_instant net w \<le> pn_instant net w' \<and>
     pn_instant net w' \<le> pn_instant net w + t)"

lemma retry_ends:
  assumes "timely op" and "0 < rr_min_delay retry"
  shows "ends_within (retry_relay_operation net retry operation op w) w (budget retry)"
proof -
  have "\<exists>w' v. retry_loop net operation (pn_instant net w + rr_total_delay retry)
      (pn_delays net retry w) op 0 w = Some (w', v) \<and> pn_instant net w \<le> pn_instant net w' \<and>
      pn_instant net w' \<le> pn_instant net w + rr_total_delay retry + rr_total_delay retry + 2 * slack"
  proof (rule retry_loop_ends [OF assms(1)])
    show "0 < d" if "pn_delays net retry w i = Some d" for i d
      using delay_min [OF that] assms(2) by linarith
  qed simp_all
  then obtain w' v where "retry_relay_operation net retry operation op w = Some (w', v)"
    "pn_instant net w \<le> pn_instant net w'"
    "pn_instant net w' \<le> pn_instant net w + rr_total_delay retry + rr_total_delay retry + 2 * slack"
    by (auto simp: retry_relay_operation_def)
  then show ?thesis
    by (simp add: ends_within_def budget_def)
qed

section \<open>Commands end\<close>

definition worker_ends :: "('w, 'a) worker_result \<Rightarrow> 'w \<Rightarrow> nat \<Rightarrow> bool" where
  "worker_ends r w t \<longleftrightarrow> (\<exists>wk' w' v. r = Some ((wk', w'), v) \<and> pn_instant net w \<le> pn_instant net w' \<and>
     pn_instant net w' \<le> pn_instant net w + t)"

lemma keep_worker_ends: "ends_within r w t \<Longrightarrow> worker_ends (keep_worker wk r) w t"
  by (auto simp: ends_within_def worker_ends_def keep_worker_def)

lemma worker_bind_ends:
  assumes "worker_ends r w t" and "\<And>wk' w' a. r = Some ((wk', w'), Inr a) \<Longrightarrow> worker_ends (f wk' w' a) w' u"
  shows "worker_ends (worker_bind r f) w (t + u)"
proof -
  from assms(1) obtain wk1 w1 v where r: "r = Some ((wk1, w1), v)"
    "pn_instant net w \<le> pn_instant net w1" "pn_instant net w1 \<le> pn_instant net w + t"
    by (auto simp: worker_ends_def)
  show ?thesis
  proof (cases v)
    case (Inl e)
    with r show ?thesis by (auto simp: worker_ends_def worker_bind_def)
  next
    case (Inr a)
    with assms(2) r(1) have "worker_ends (f wk1 w1 a) w1 u" by simp
    with r Inr show ?thesis by (fastforce simp: worker_ends_def worker_bind_def)
  qed
qed

lemma ensure_ends:
  assumes "0 < rr_min_delay (pf_retry cfg)"
  shows "worker_ends (ensure_daemon_registered pc net cfg wk w) w (budget (pf_retry cfg))"
proof (cases "pw_daemon_node_id wk")
  case None
  then show ?thesis by (simp add: ensure_daemon_registered_def worker_ends_def)
next
  case (Some d)
  let ?body = "pc_register_daemon pc \<lparr>rdb_daemon_node_id = d,
    rdb_public_key = pc_encode64 pc (pc_verifying_key pc (pf_signing_key cfg))\<rparr>"
  have "ends_within (post_json net cfg (lit ''/v1/pair'') ?body w) w (budget (pf_retry cfg))"
  proof (cases ?body)
    case None
    then show ?thesis by (simp add: post_json_def ends_within_def)
  next
    case (Some b)
    have "ends_within (retry_relay_operation net (pf_retry cfg) (lit ''post relay JSON'')
        (\<lambda>dl. post_json_once net cfg (lit ''post relay JSON'') dl (lit ''/v1/pair'') b) w) w
        (budget (pf_retry cfg))"
      by (rule retry_ends [OF post_json_once_timely assms])
    with Some show ?thesis by (simp add: post_json_def)
  qed
  from keep_worker_ends [OF this, of wk] have "worker_ends (worker_bind (keep_worker wk
      (post_json net cfg (lit ''/v1/pair'') ?body w))
      (\<lambda>wk w _. Some ((wk\<lparr>pw_daemon_registered := True\<rparr>, w), Inr d))) w (budget (pf_retry cfg) + 0)"
    by (rule worker_bind_ends) (simp add: worker_ends_def)
  with Some show ?thesis
    by (simp add: ensure_daemon_registered_def) (simp add: worker_ends_def)
qed

lemma dispatch_ends:
  assumes "\<And>t w. ends_within (push_one t w) w b"
  shows "ends_within (dispatch_to push_one ts first_error w) w (length ts * b)"
proof (induction ts arbitrary: first_error w)
  case Nil
  then show ?case by (simp add: ends_within_def)
next
  case (Cons t ts)
  from assms [of t w] obtain w1 v where 1: "push_one t w = Some (w1, v)"
    "pn_instant net w \<le> pn_instant net w1" "pn_instant net w1 \<le> pn_instant net w + b"
    by (auto simp: ends_within_def)
  have "\<exists>f. dispatch_to push_one (t # ts) first_error w = dispatch_to push_one ts f w1"
    using 1(1) by (cases v) auto
  then obtain f where "dispatch_to push_one (t # ts) first_error w = dispatch_to push_one ts f w1"
    by blast
  with Cons [of f w1] 1(2,3) show ?case by (fastforce simp: ends_within_def)
qed

lemma length_push_tokens: "length (push_tokens ds) \<le> length ds"
  unfolding push_tokens_def List.map_filter_def
  by (simp add: le_trans [OF length_filter_le])

lemma ends_mono: "worker_ends r w t \<Longrightarrow> t \<le> u \<Longrightarrow> worker_ends r w u"
  by (fastforce simp: worker_ends_def)

theorem step_ends:
  assumes m: "0 < rr_min_delay (pf_retry cfg)" and few: "\<And>w. length (pn_devices net w) \<le> n"
  shows "worker_ends (worker_step pc net cfg c wk w) w ((n + 2) * budget (pf_retry cfg))"
proof -
  let ?b = "budget (pf_retry cfg)"
  have one: "worker_ends (worker_bind (ensure_daemon_registered pc net cfg wk w)
      (\<lambda>wk w d. keep_worker wk (retry_relay_operation net (pf_retry cfg) operation
        (signed_attempt pc net cfg operation path (body d)) w))) w (?b + ?b)" for operation path body
    by (intro worker_bind_ends ensure_ends [OF m] keep_worker_ends retry_ends [OF signed_attempt_timely m])
  have all: "worker_ends (dispatch_session_event pc net cfg sid ev wk w) w (?b + n * ?b)" for sid ev
    unfolding dispatch_session_event_def
  proof (rule worker_bind_ends [OF ensure_ends [OF m]])
    fix wk' w' d
    let ?ts = "push_tokens (pn_devices net w')"
    have "ends_within (push_one_device pc net cfg d sid ev t v) v ?b" for t v
      unfolding push_one_device_def by (rule retry_ends [OF signed_attempt_timely m])
    then have "ends_within (dispatch_to (push_one_device pc net cfg d sid ev) ?ts None w') w'
        (length ?ts * ?b)"
      by (rule dispatch_ends)
    then obtain w1 f where 1: "dispatch_to (push_one_device pc net cfg d sid ev) ?ts None w' = Some (w1, f)"
      "pn_instant net w' \<le> pn_instant net w1" "pn_instant net w1 \<le> pn_instant net w' + length ?ts * ?b"
      by (auto simp: ends_within_def)
    have "length ?ts * ?b \<le> n * ?b"
      using length_push_tokens [of "pn_devices net w'"] few [of w'] by (intro mult_le_mono1) linarith
    then have "pn_instant net w1 \<le> pn_instant net w' + n * ?b" using 1(3) by linarith
    with 1(1,2) show "worker_ends (keep_worker wk' (map_option (\<lambda>(w, first_error). (w, case first_error of
           Some e \<Rightarrow> Inl (PushContext (lit ''one or more push dispatches failed'') e)
         | None \<Rightarrow> Inr ())) (dispatch_to (push_one_device pc net cfg d sid ev) ?ts None w'))) w' (n * ?b)"
      by (simp add: worker_ends_def keep_worker_def)
  qed
  have sum: "?b + ?b \<le> (n + 2) * ?b" "?b + n * ?b \<le> (n + 2) * ?b" "?b \<le> (n + 2) * ?b"
    by (simp_all add: algebra_simps)
  show ?thesis
  proof (cases c)
    case (FromApp a)
    show ?thesis
    proof (cases a)
      case (CmdSetDaemonNodeId d)
      have "worker_ends (worker_bind (ensure_daemon_registered pc net cfg
          (wk\<lparr>pw_daemon_node_id := Some d, pw_daemon_registered := False\<rparr>) w)
          (\<lambda>wk w _. Some ((wk, w), Inr ()))) w (?b + 0)"
        by (rule worker_bind_ends [OF ensure_ends [OF m]]) (simp add: worker_ends_def)
      from ends_mono [OF this, of "(n + 2) * ?b"] sum(3) show ?thesis
        unfolding FromApp CmdSetDaemonNodeId worker_step.simps by simp
    next
      case (CmdRegisterToken platform token)
      show ?thesis
        unfolding FromApp CmdRegisterToken worker_step.simps worker_register_token_def
        by (rule ends_mono [OF one sum(1)])
    next
      case (CmdUnregisterToken token)
      show ?thesis
        unfolding FromApp CmdUnregisterToken worker_step.simps worker_unregister_token_def
        by (rule ends_mono [OF one sum(1)])
    next
      case (CmdPublishPairingRendezvous locator rv)
      show ?thesis
        unfolding FromApp CmdPublishPairingRendezvous worker_step.simps
          worker_publish_pairing_rendezvous_def
        by (rule ends_mono [OF one sum(1)])
    qed
  next
    case (FromSession e)
    then show ?thesis
      by (cases e) (simp_all only: worker_step.simps, (rule ends_mono [OF all sum(2)])+)
  qed
qed

end

text \<open>C20 [worker_always_returns].  Whatever the relay answers, and however long it stays silent,
  the push worker handles every command of its queue, in order, with one result each, and a
  command takes at most the budget of its requests: twice the total delay and some slack, once
  for the registration, once for the request or for each device.\<close>

theorem worker_always_returns:
  assumes clock: "push_clock net slack" and m: "0 < rr_min_delay (pf_retry cfg)"
    and few: "\<forall>w. length (pn_devices net w) \<le> n"
  shows "\<exists>wk' w' rs. worker_run pc net cfg cs wk w = Some ((wk', w'), rs) \<and> length rs = length cs \<and>
    pn_instant net w' \<le> pn_instant net w +
      length cs * ((n + 2) * (2 * rr_total_delay (pf_retry cfg) + 2 * slack))"
proof (induction cs arbitrary: wk w)
  case (Cons c cs)
  let ?b = "2 * rr_total_delay (pf_retry cfg) + 2 * slack"
  obtain wk1 w1 v where 1: "worker_step pc net cfg c wk w = Some ((wk1, w1), v)"
    "pn_instant net w1 \<le> pn_instant net w + (n + 2) * ?b"
    using push_clock.step_ends [OF clock m, of n pc c wk w] few
    unfolding push_clock.worker_ends_def [OF clock] push_clock.budget_def [OF clock] by blast
  from Cons [of wk1 w1] obtain wk2 w2 rs where 2: "worker_run pc net cfg cs wk1 w1 = Some ((wk2, w2), rs)"
    "length rs = length cs" "pn_instant net w2 \<le> pn_instant net w1 + length cs * ((n + 2) * ?b)"
    by blast
  with 1 show ?case by simp
qed simp

end
