(* ===== verification/RelayHttp.thy ===== *)
theory RelayHttp
  imports PushProps RelayProps
begin

text \<open>
  The push worker of a daemon against the relay: the relay's routes, a network that carries the
  worker's requests to them, and what the crates of both sides have to agree on.
\<close>

section \<open>Routes\<close>

definition MAX_REQUEST_BODY_BYTES :: nat where "MAX_REQUEST_BODY_BYTES = 16 * 1024"

text \<open>\<open>app\<close>: the routes that answer \<open>POST\<close>.\<close>

definition post_route :: "rstr \<Rightarrow> rstr \<Rightarrow> header_map \<Rightarrow> bytes \<Rightarrow> relay_event option" where
  "post_route path peer headers body =
     (if path = lit ''/v1/pair'' then Some (HttpPair peer headers body)
      else if path = lit ''/v1/push/register-token'' then Some (HttpRegisterToken headers body)
      else if path = lit ''/v1/push/unregister-token'' then Some (HttpUnregisterToken headers body)
      else if path = lit ''/v1/push'' then Some (HttpPush headers body)
      else if path = lit ''/v1/pair/publish'' then Some (HttpPublish headers body)
      else None)"

text \<open>
  An answer of a handler, or the status of a refusal by the router: no such route, or a body
  beyond the limit.
\<close>

datatype routed = Answered "api_error + relay_reply" | Refused nat

definition relay_app ::
    "relay_crates \<Rightarrow> relay_env \<Rightarrow> rstr \<Rightarrow> rstr \<Rightarrow> header_map \<Rightarrow> bytes \<Rightarrow> relay_state \<Rightarrow> relay_state \<times> routed"
where
  "relay_app cr env peer path headers body st = (case post_route path peer headers body of
     None \<Rightarrow> (st, Refused 404)
   | Some ev \<Rightarrow>
       if MAX_REQUEST_BODY_BYTES < length body then (st, Refused 413)
       else (case relay_answer cr st (env, ev) of (st', r) \<Rightarrow> (st', Answered r)))"

fun reply_status :: "relay_reply \<Rightarrow> nat" where
  "reply_status Created = 201"
| "reply_status Accepted = 202"
| "reply_status _ = 200"

section \<open>A network\<close>

text \<open>
  A world with one relay: the clock of both machines in milliseconds, the number of nonces
  drawn, the relay's state, and what the push providers took.  A \<open>host\<close> fixes the rest: where
  the relay is reached, from which address and how fast, the random bytes, the paired devices,
  the relay's database and providers, and the text of an error.
\<close>

record relay_world =
  rw_ms :: nat
  rw_draws :: nat
  rw_relay :: relay_state
  rw_pushed :: "delivered_push list"

record host =
  ho_base_url :: rstr
  ho_peer :: rstr
  ho_latency :: nat
  ho_random :: "nat \<Rightarrow> bytes"
  ho_devices :: "(rstr \<times> stored_device) list"
  ho_db_ok :: "db_call \<Rightarrow> bool"
  ho_deliver :: "delivered_push \<Rightarrow> provider_error option"
  ho_text :: "api_error \<Rightarrow> rstr"

definition host_env :: "host \<Rightarrow> nat \<Rightarrow> relay_env" where
  "host_env ho t = \<lparr>t_entry = t, t_proof = t, t_verify = t, t_check = t, t_done = t,
     db_ok = ho_db_ok ho, deliver = ho_deliver ho\<rparr>"

definition http_headers :: "http_request \<Rightarrow> header_map" where
  "http_headers req = map (\<lambda>(n, v). (n, as_bytes v)) (hq_headers req)"

definition http_response :: "host \<Rightarrow> routed \<Rightarrow> send_result" where
  "http_response ho r = (case r of
     Refused status \<Rightarrow> Responded status []
   | Answered (Inl e) \<Rightarrow> Responded (ae_status e) (ho_text ho e)
   | Answered (Inr reply) \<Rightarrow> Responded (reply_status reply) [])"

text \<open>What a provider took: the delivery of a push the relay accepted.\<close>

definition provider_took :: "relay_crates \<Rightarrow> bytes \<Rightarrow> routed \<Rightarrow> delivered_push list" where
  "provider_took cr body r = (case r of
     Answered (Inr Accepted) \<Rightarrow> (case json_push cr body of
         Some request \<Rightarrow> [push_delivery request] | None \<Rightarrow> [])
   | _ \<Rightarrow> [])"

definition relay_send ::
    "relay_crates \<Rightarrow> host \<Rightarrow> nat \<Rightarrow> http_request \<Rightarrow> relay_world \<Rightarrow> relay_world \<times> send_result option"
where
  "relay_send cr ho deadline req w = (case strip_prefix (ho_base_url ho) (hq_url req) of
     None \<Rightarrow> (w, Some (SendFailed True))
   | Some path \<Rightarrow>
       let arrives = rw_ms w + ho_latency ho; ends = arrives + ho_latency ho in
       if deadline < arrives then (w\<lparr>rw_ms := max (rw_ms w) deadline\<rparr>, None)
       else (case relay_app cr (host_env ho arrives) (ho_peer ho) path (http_headers req)
           (hq_body req) (rw_relay w) of (st, r) \<Rightarrow>
         let w = w\<lparr>rw_relay := st, rw_pushed := rw_pushed w @ provider_took cr (hq_body req) r\<rparr>
         in if deadline < ends then (w\<lparr>rw_ms := deadline\<rparr>, None)
         else (w\<lparr>rw_ms := ends\<rparr>, Some (http_response ho r))))"

text \<open>The backoff doubles from the smallest to the largest delay.\<close>

definition relay_net :: "relay_crates \<Rightarrow> host \<Rightarrow> relay_world push_net" where
  "relay_net cr ho = \<lparr>pn_send = relay_send cr ho, pn_sleep = (\<lambda>d w. w\<lparr>rw_ms := rw_ms w + d\<rparr>),
     pn_instant = rw_ms, pn_now_ms = rw_ms,
     pn_random16 = (\<lambda>w. (w\<lparr>rw_draws := Suc (rw_draws w)\<rparr>, ho_random ho (rw_draws w))),
     pn_delays = (\<lambda>retry w i. Some (max (rr_min_delay retry) (min (rr_max_delay retry)
       (rr_min_delay retry * 2 ^ i)))),
     pn_devices = (\<lambda>w. ho_devices ho)\<rparr>"

lemma relay_net_simps [simp]:
  "pn_send (relay_net cr ho) = relay_send cr ho"
  "pn_sleep (relay_net cr ho) d w = w\<lparr>rw_ms := rw_ms w + d\<rparr>"
  "pn_instant (relay_net cr ho) = rw_ms" "pn_now_ms (relay_net cr ho) = rw_ms"
  "pn_random16 (relay_net cr ho) w = (w\<lparr>rw_draws := Suc (rw_draws w)\<rparr>, ho_random ho (rw_draws w))"
  "pn_devices (relay_net cr ho) w = ho_devices ho"
  by (simp_all add: relay_net_def)

lemma relay_send_ms:
  assumes "relay_send cr ho deadline req w = (w', v)"
  shows "rw_ms w \<le> rw_ms w' \<and> rw_ms w' \<le> max (rw_ms w) deadline"
proof (cases "strip_prefix (ho_base_url ho) (hq_url req)")
  case None
  with assms show ?thesis by (auto simp: relay_send_def)
next
  case (Some path)
  obtain st r where "relay_app cr (host_env ho (rw_ms w + ho_latency ho)) (ho_peer ho) path
      (http_headers req) (hq_body req) (rw_relay w) = (st, r)" by fastforce
  with Some assms show ?thesis
    by (auto simp: relay_send_def Let_def split: if_splits)
qed

interpretation relay_clock: push_clock "relay_net cr ho" 0 for cr ho
proof unfold_locales
  show "rr_min_delay retry \<le> d" if "pn_delays (relay_net cr ho) retry w i = Some d" for retry w i d
    using that by (auto simp: relay_net_def)
qed (use relay_send_ms in auto)

section \<open>What the two sides agree on\<close>

fun platform_of :: "relay_push_platform \<Rightarrow> push_platform" where
  "platform_of RelayApns = Apns"
| "platform_of RelayFcm = Fcm"

fun event_type_of :: "relay_push_event_type \<Rightarrow> push_event_type" where
  "event_type_of AwaitingInputPush = EvAwaitingInput"
| "event_type_of SessionCrashedPush = EvSessionCrashed"
| "event_type_of BuildFinishedPush = EvBuildFinished"

definition push_request_of :: "push_body \<Rightarrow> push_request" where
  "push_request_of b = \<lparr>ph_daemon_node_id = phb_daemon_node_id b,
     ph_recipient_token = phb_recipient_token b, ph_platform = platform_of (phb_platform b),
     ph_session_id_hash = phb_session_id_hash b, ph_event_type = event_type_of (phb_event_type b),
     ph_nonce = phb_nonce b, ph_ts_ms = phb_ts_ms b\<rparr>"

definition token_request_of :: "register_token_body \<Rightarrow> register_token_request" where
  "token_request_of b = \<lparr>rt_daemon_node_id = rtb_daemon_node_id b,
     rt_platform = platform_of (rtb_platform b), rt_push_token = rtb_push_token b,
     rt_nonce = rtb_nonce b, rt_ts_ms = rtb_ts_ms b\<rparr>"

definition untoken_request_of :: "unregister_token_body \<Rightarrow> unregister_token_request" where
  "untoken_request_of b = \<lparr>ut_daemon_node_id = utb_daemon_node_id b,
     ut_push_token = utb_push_token b, ut_nonce = utb_nonce b, ut_ts_ms = utb_ts_ms b\<rparr>"

definition publish_request_of :: "publish_rendezvous_body \<Rightarrow> publish_pairing_request" where
  "publish_request_of b = PublishReachability \<lparr>pz_daemon_node_id = prb_daemon_node_id b,
     pz_locator = prb_locator b, pz_rendezvous = prb_rendezvous b, pz_nonce = prb_nonce b,
     pz_ts_ms = prb_ts_ms b\<rparr>"

text \<open>
  Base64 is read back, is printable ASCII, and of 16 bytes has 24 characters; SHA-256 is the same
  function on both sides, of 32 bytes; a signature has 64 bytes and is verified by the key of
  its signer; and JSON is read back as a request with the same fields.
\<close>

definition crates_agree :: "push_crates \<Rightarrow> relay_crates \<Rightarrow> bool" where
  "crates_agree pc cr \<longleftrightarrow>
     (\<forall>x. b64_decode cr (pc_encode64 pc x) = Some x \<and>
       list_all (\<lambda>c. 32 \<le> c \<and> c < 127) (pc_encode64 pc x) \<and>
       (length x = 16 \<longrightarrow> length (pc_encode64 pc x) = 24)) \<and>
     pc_sha256 pc = sha256_of cr \<and> (\<forall>x. length (sha256_of cr x) = 32) \<and>
     (\<forall>k m. length (pc_sign pc k m) = 64 \<and> ed_verify cr (pc_verifying_key pc k) m (pc_sign pc k m)) \<and>
     (\<forall>b j. pc_push pc b = Some j \<longrightarrow> json_push cr j = Some (push_request_of b)) \<and>
     (\<forall>b j. pc_register_token pc b = Some j \<longrightarrow> json_register_token cr j = Some (token_request_of b)) \<and>
     (\<forall>b j. pc_unregister_token pc b = Some j \<longrightarrow>
       json_unregister_token cr j = Some (untoken_request_of b)) \<and>
     (\<forall>b j. pc_publish pc b = Some j \<longrightarrow> json_publish cr j = Some (publish_request_of b))"

lemma agreeD:
  assumes "crates_agree pc cr"
  shows "b64_decode cr (pc_encode64 pc x) = Some x"
    and "list_all (\<lambda>c. 32 \<le> c \<and> c < 127) (pc_encode64 pc x)"
    and "length x = 16 \<Longrightarrow> length (pc_encode64 pc x) = 24"
    and "pc_sha256 pc = sha256_of cr" and "length (sha256_of cr x) = 32"
    and "length (pc_sign pc k m) = 64" and "ed_verify cr (pc_verifying_key pc k) m (pc_sign pc k m)"
    and "pc_push pc b1 = Some j \<Longrightarrow> json_push cr j = Some (push_request_of b1)"
    and "pc_register_token pc b2 = Some j \<Longrightarrow> json_register_token cr j = Some (token_request_of b2)"
    and "pc_unregister_token pc b3 = Some j \<Longrightarrow> json_unregister_token cr j = Some (untoken_request_of b3)"
    and "pc_publish pc b4 = Some j \<Longrightarrow> json_publish cr j = Some (publish_request_of b4)"
  using assms unfolding crates_agree_def by blast+

lemma as_bytes_printable:
  "list_all (\<lambda>c. 32 \<le> c \<and> c < 127) s \<Longrightarrow> header_to_str (as_bytes s) = Some s"
proof -
  assume s: "list_all (\<lambda>c. 32 \<le> c \<and> c < 127) s"
  then have b: "as_bytes s = map word_of_nat s"
    unfolding as_bytes_def by (induction s) (auto simp: ascii_byte)
  have n: "unat (word_of_nat c :: u8) = c" if "c \<in> set s" for c
    using s that by (auto simp: list_all_iff unat_of_nat)
  have "(32::u8) \<le> word_of_nat c \<and> (word_of_nat c :: u8) < 127" if "c \<in> set s" for c
    using s that n [OF that] by (auto simp: list_all_iff word_le_nat_alt word_less_nat_alt)
  then show ?thesis
    using n by (auto simp: header_to_str_def b list_all_iff map_idI)
qed

text \<open>The relay accepts what the worker signs, whatever is signed, for a key it has registered.\<close>

lemma worker_signature_accepted:
  assumes agree: "crates_agree pc cr" and url: "rs_registration_audience st = url"
    and key: "registered_key st d = Some (pc_verifying_key pc k)"
    and r: "r = signed_post path body (http_headers \<lparr>hq_url = u, hq_headers =
      [(lit ''content-type'', lit ''application/json''), (lit ''x-shelly-signature'',
        push_sign pc k url path body nonce ts)], hq_body = body\<rparr>) d nonce ts"
  shows "check_signature cr st r = Inr (pc_verifying_key pc k)"
proof -
  let ?text = "canonical_request_v2 (pc_sha256 pc) url (lit ''POST'') path body nonce ts"
  let ?sig = "push_sign pc k url path body nonce ts"
  have "list_all (\<lambda>c. 32 \<le> c \<and> c < 127) ?sig"
    using agreeD(2) [OF agree] by (simp add: push_sign_def signature_header_def sig_prefix_eval)
  moreover have "SIGNATURE_HEADER \<noteq> lit ''content-type''" "SIGNATURE_HEADER = lit ''x-shelly-signature''"
    by (simp_all add: SIGNATURE_HEADER_def)
  ultimately have h: "header_str (sr_headers r) SIGNATURE_HEADER = Some ?sig"
    by (simp add: r signed_post_def header_str_def http_headers_def as_bytes_printable)
  have s: "split_signature_header ?sig = Some (V2, pc_encode64 pc (pc_sign pc k ?text))"
    unfolding push_sign_def by (rule signature_header_split [THEN conjunct1])
  have "decode_signature cr (pc_encode64 pc (pc_sign pc k ?text)) = Inr (pc_sign pc k ?text)"
    using agreeD(1,6) [OF agree] by (simp add: decode_signature_def)
  moreover have "signed_text cr url V2 r = ?text"
    using agreeD(4) [OF agree] by (simp add: signed_text_def r signed_post_def)
  ultimately show ?thesis
    using h s key url agreeD(7) [OF agree, of k ?text]
    unfolding check_signature_Inr by (auto simp: r signed_post_def)
qed

end
