(* ===== verification/PushRelay.thy ===== *)
theory PushRelay
  imports RelayHttp
begin

text \<open>
  The composition of the daemon's push worker with the relay: a session event reaches every
  paired phone, and what happens when the relay has lost the daemon's registration.
\<close>

section \<open>A request the relay accepts\<close>

definition unused :: "relay_state \<Rightarrow> rstr \<Rightarrow> rstr \<Rightarrow> bool" where
  "unused st d n \<longleftrightarrow> map_of (rs_seen_nonces st) (d, n) = None \<and>
     pred_option (\<lambda>db. map_of (db_seen_nonces db) (d, n) = None) (rs_store st)"

lemma map_of_filter_None: "map_of xs k = None \<Longrightarrow> map_of (filter P xs) k = None"
  by (auto simp: map_of_eq_None_iff)

lemma unused_prune: "unused st d n \<Longrightarrow> unused (maybe_prune_expired_relay_state ok now st) d n"
  by (cases "rs_store st")
    (auto simp: unused_def maybe_prune_expired_relay_state_def prune_expired_relay_state_def
      prune_memory_def store_try_def prune_expired_rows_def Let_def map_of_filter_None)

lemma activity_unused:
  assumes "map_of (db_seen_nonces db) (d, n) = None"
  obtains db' where "record_authenticated_activity d n ts now db = (db', True)"
    and "db_seen_nonces db' = ((d, n), as_i64 ts) # db_seen_nonces db"
  using assms by (auto simp: record_authenticated_activity_def insert_nonce_def)

lemma verify_accepts:
  assumes skew: "abs_diff (t_verify env) (sr_ts_ms r) \<le> CLOCK_SKEW_MS"
    and stp: "stp = maybe_prune_expired_relay_state (db_ok env CallPrune) (t_verify env) st"
    and sig: "check_signature cr stp r = Inr key" and db: "db_ok env CallActivity"
    and new: "unused st (sr_daemon_node_id r) (sr_nonce r)"
  shows "\<exists>st1. verify_signed_request cr env st r = (st1, Inr ()) \<and> rs_tokens st1 = rs_tokens stp \<and>
    rs_rate_limits st1 = rs_rate_limits stp \<and>
    (\<forall>n. n \<noteq> sr_nonce r \<longrightarrow> unused st (sr_daemon_node_id r) n \<longrightarrow> unused st1 (sr_daemon_node_id r) n)"
proof -
  let ?d = "sr_daemon_node_id r" and ?n = "sr_nonce r"
  define st2 where "st2 = stp\<lparr>rs_seen_nonces := AList.update (?d, ?n) (sr_ts_ms r) (rs_seen_nonces stp)\<rparr>"
  have reg: "registered_key stp ?d = Some key" using sig by (simp add: check_signature_Inr)
  have u: "unused stp ?d n" if "unused st ?d n" for n
    unfolding stp by (rule unused_prune [OF that])
  have fresh: "map_of (rs_seen_nonces stp) (?d, ?n) = None" using u [OF new] by (simp add: unused_def)
  have admit: "verify_signed_request cr env st r = admit_request env stp r key (\<lambda>st. (st, Inr ()))"
    using skew sig by (simp add: verify_signed_request_def
        verify_signed_request_with_pre_nonce_check_def stp)
  show ?thesis
  proof (cases "rs_store stp")
    case None
    have "verify_signed_request cr env st r = (touch_daemon env ?d key st2, Inr ())"
      using admit reg fresh None by (simp add: admit_request_def Let_def st2_def)
    moreover have "unused (touch_daemon env ?d key st2) ?d n" if "n \<noteq> ?n" "unused st ?d n" for n
      using u [OF that(2)] that(1) None
      by (simp add: unused_def touch_daemon_def st2_def update_conv)
    ultimately show ?thesis
      by (intro exI [of _ "touch_daemon env ?d key st2"]) (simp add: touch_daemon_def st2_def)
  next
    case (Some db)
    then have "map_of (db_seen_nonces db) (?d, ?n) = None" using u [OF new] by (simp add: unused_def)
    then obtain db' where a: "record_authenticated_activity ?d ?n (sr_ts_ms r) (t_verify env) db = (db', True)"
      "db_seen_nonces db' = ((?d, ?n), as_i64 (sr_ts_ms r)) # db_seen_nonces db"
      by (rule activity_unused)
    let ?st1 = "touch_daemon env ?d key (st2\<lparr>rs_store := Some db'\<rparr>)"
    have "verify_signed_request cr env st r = (?st1, Inr ())"
      using admit reg fresh Some a(1) db by (simp add: admit_request_def Let_def st2_def)
    moreover have "unused ?st1 ?d n" if "n \<noteq> ?n" "unused st ?d n" for n
      using u [OF that(2)] that(1) Some a(2)
      by (simp add: unused_def touch_daemon_def st2_def update_conv)
    ultimately show ?thesis
      by (intro exI [of _ ?st1]) (simp add: touch_daemon_def st2_def)
  qed
qed

section \<open>A push the relay delivers\<close>

text \<open>
  The relay is ready for \<open>k\<close> more pushes of a daemon, to these recipients, until a time: the
  daemon is registered and the tokens are its own and not stale, the nonces are unused, and
  the rate limit of no minute will be reached.
\<close>

definition bound_token :: "relay_state \<Rightarrow> rstr \<Rightarrow> nat \<Rightarrow> push_platform \<times> rstr \<Rightarrow> bool" where
  "bound_token st d hz t \<longleftrightarrow> (\<exists>w. tbl_get (rs_tokens st) (snd t) = Some w \<and>
     tk_daemon_node_id w = d \<and> tk_platform w = fst t \<and> \<not> push_token_is_stale (tk_updated_at_ms w) hz)"

definition push_ready ::
    "relay_state \<Rightarrow> rstr \<Rightarrow> bytes \<Rightarrow> rstr \<Rightarrow> rstr set \<Rightarrow> (push_platform \<times> rstr) set \<Rightarrow> nat \<Rightarrow> nat \<Rightarrow> bool" where
  "push_ready st d key url nonces recipients hz k \<longleftrightarrow>
     relay_wf st \<and> \<not> rs_prune_stale_daemons st \<and> registered_key st d = Some key \<and>
     rs_registration_audience st = url \<and> (\<forall>n \<in> nonces. unused st d n) \<and>
     (\<forall>t \<in> recipients. bound_token st d hz t) \<and>
     (\<forall>minute. rate_count (rs_rate_limits st) d minute + k \<le> RATE_LIMIT_PER_MINUTE)"

lemma stale_mono: "push_token_is_stale u now \<Longrightarrow> now \<le> hz \<Longrightarrow> push_token_is_stale u hz"
  by (auto simp: push_token_is_stale_def)

lemma prune_tokens_kept:
  assumes wf: "relay_wf st" and np: "\<not> rs_prune_stale_daemons st" and hz: "now \<le> hz"
    and t: "bound_token st d hz t"
  shows "bound_token (maybe_prune_expired_relay_state ok now st) d hz t"
proof -
  have "rs_tokens (maybe_prune_expired_relay_state ok now st) = rs_tokens st \<or>
      rs_tokens (maybe_prune_expired_relay_state ok now st) =
        tbl_retain (\<lambda>_ w. \<not> push_token_is_stale (tk_updated_at_ms w) now) (rs_tokens st)"
    using np by (simp add: maybe_prune_expired_relay_state_def prune_expired_relay_state_def
        prune_memory_def store_try_def Let_def)
  with t stale_mono [OF _ hz] show ?thesis
    by (auto simp: bound_token_def tbl_get_retain [OF wf_parts(2) [OF wf]])
qed

lemma prune_rate_limits [simp]:
  "rs_rate_limits (maybe_prune_expired_relay_state ok now st) = rs_rate_limits st"
  by (simp add: maybe_prune_expired_relay_state_def prune_expired_relay_state_def prune_memory_def
      store_try_def Let_def)

lemma touch_binding_Inr:
  assumes "\<And>c. db_ok env c"
  obtains st' where "touch_push_token_binding env tk st = (st', Inr ())"
    and "rs_tokens st' = tbl_update tk (\<lambda>w. w\<lparr>tk_updated_at_ms := t_done env\<rparr>) (rs_tokens st)"
    and "rs_rate_limits st' = rs_rate_limits st" and "\<And>d n. unused st d n \<Longrightarrow> unused st' d n"
  using assms by (cases "rs_store st")
    (auto simp: touch_push_token_binding_def store_call_def touch_token_def unused_def)

lemma push_accepted:
  assumes agree: "crates_agree pc cr" and len: "length body \<le> MAX_REQUEST_BODY_BYTES"
    and ready: "push_ready st d (pc_verifying_key pc k) url nonces recipients hz (Suc left)"
    and rq: "json_push cr body = Some rq" "validate_push rq" "ph_daemon_node_id rq = d"
      "ph_nonce rq = n" "ph_ts_ms rq = ts" and to: "(ph_platform rq, ph_recipient_token rq) \<in> recipients"
    and n: "n \<in> nonces" and db: "\<And>c. ho_db_ok ho c" and prov: "\<And>p. ho_deliver ho p = None"
    and time: "abs_diff t ts \<le> CLOCK_SKEW_MS" "t \<le> hz" "hz \<le> t + PUSH_TOKEN_TTL_MS"
    and headers: "h = http_headers \<lparr>hq_url = u, hq_headers =
      [(lit ''content-type'', lit ''application/json''), (lit ''x-shelly-signature'',
        push_sign pc k url (lit ''/v1/push'') body n ts)], hq_body = body\<rparr>"
  shows "\<exists>st'. relay_app cr (host_env ho t) peer (lit ''/v1/push'') h body st = (st', Answered (Inr Accepted)) \<and>
    push_ready st' d (pc_verifying_key pc k) url (nonces - {n}) recipients hz left"
proof -
  let ?env = "host_env ho t" and ?key = "pc_verifying_key pc k"
  let ?r = "signed_post (lit ''/v1/push'') body h d n ts"
  define stp where "stp = maybe_prune_expired_relay_state (db_ok ?env CallPrune) (t_verify ?env) st"
  have env: "t_verify ?env = t" "t_check ?env = t" "t_done ?env = t" "\<And>c. db_ok ?env c"
    "\<And>p. deliver ?env p = None"
    using db prov by (simp_all add: host_env_def)
  note R = ready [unfolded push_ready_def]
  have sig: "check_signature cr stp ?r = Inr ?key"
    by (rule worker_signature_accepted [OF agree _ _ refl [of "?r", unfolded headers],
          folded headers]) (use R in \<open>simp_all add: stp_def prune_keys_same\<close>)
  obtain st1 where v: "verify_signed_request cr ?env st ?r = (st1, Inr ())"
    and tok: "rs_tokens st1 = rs_tokens stp" and lim: "rs_rate_limits st1 = rs_rate_limits st"
    and un: "\<And>m. m \<noteq> n \<Longrightarrow> unused st d m \<Longrightarrow> unused st1 d m"
    using verify_accepts [OF _ stp_def sig] time(1) env R n
    by (fastforce simp: signed_post_def stp_def)
  have bound: "bound_token st1 d hz x" if "x \<in> recipients" for x
    using prune_tokens_kept [OF _ _ time(2)] R that tok
    by (simp add: bound_token_def stp_def env(1))
  then obtain w where w: "tbl_get (rs_tokens st1) (ph_recipient_token rq) = Some w"
    "tk_daemon_node_id w = d" "tk_platform w = ph_platform rq" "\<not> push_token_is_stale (tk_updated_at_ms w) t"
    using to stale_mono [OF _ time(2)] by (force simp: bound_token_def)
  have check: "check_recipient ?env st1 rq = Inr False"
    using w rq(3) by (simp add: check_recipient_def env)
  obtain limits m where inc: "increment d (t div 60000) (rs_rate_limits st1) = (limits, m)" by fastforce
  have few: "rate_count (rs_rate_limits st) d minute + Suc left \<le> 50" for minute
    using R by (simp add: RATE_LIMIT_PER_MINUTE_def)
  have cap: "m \<le> RATE_LIMIT_PER_MINUTE"
    "rate_count limits d minute + left \<le> RATE_LIMIT_PER_MINUTE" for minute
    using inc few [of "t div 60000"] few [of minute] lim
    by (auto simp: increment_def Let_def rate_count_def RATE_LIMIT_PER_MINUTE_def u32_max_def
        split: if_splits option.splits)
  define st2 where "st2 = st1\<lparr>rs_rate_limits := limits\<rparr>"
  obtain st3 where touch: "touch_push_token_binding ?env (ph_recipient_token rq) st2 = (st3, Inr ())"
    and t3: "rs_tokens st3 = tbl_update (ph_recipient_token rq) (\<lambda>w. w\<lparr>tk_updated_at_ms := t_done ?env\<rparr>) (rs_tokens st2)"
    and l3: "rs_rate_limits st3 = rs_rate_limits st2" and u3: "\<And>d n. unused st2 d n \<Longrightarrow> unused st3 d n"
    using touch_binding_Inr [OF env(4)] by blast
  define st4 where "st4 = st3\<lparr>rs_metrics := (rs_metrics st3)\<lparr>push_accepts :=
    wrap_add64 (push_accepts (rs_metrics st3)) 1\<rparr>\<rparr>"
  have dtok: "dp_recipient_token (push_delivery rq) = ph_recipient_token rq" by (simp add: push_delivery_def)
  have p: "push cr ?env h body st = (st4, Inr Accepted)"
    using rq v check inc cap(1) touch
    by (simp add: push_def parse_validated_def env(2) deliver_push_def env(5) dtok
        st2_def [symmetric] st4_def)
  have same: "keys_same st (fst (push cr ?env h body st))"
    by (rule keys.kept_push) (use R in \<open>simp add: keys_same_def\<close>)
  have unused4: "unused st4 d x" if "x \<in> nonces - {n}" for x
  proof -
    have "unused st2 d x" using un [of x] that R by (simp add: unused_def st2_def)
    from u3 [OF this] show ?thesis by (simp add: unused_def st4_def)
  qed
  have bound4: "bound_token st4 d hz x" if "x \<in> recipients" for x
  proof -
    have "\<not> push_token_is_stale t hz" using time(3) by (simp add: push_token_is_stale_def)
    with bound [OF that] show ?thesis
      by (auto simp: bound_token_def st4_def t3 st2_def tbl_get_update env(3))
  qed
  have "push_ready st4 d ?key url (nonces - {n}) recipients hz left"
    using same R p unused4 bound4 cap(2) l3
    by (simp add: push_ready_def keys_same_def) (simp add: st4_def st2_def)
  with p len show ?thesis
    by (simp add: relay_app_def post_route_def lit_eval)
qed

section \<open>A session event\<close>

lemma hex_lower: "list_all (\<lambda>c. (48 \<le> c \<and> c \<le> 57) \<or> (97 \<le> c \<and> c \<le> 102)) (hex False bs)"
proof (induction bs)
  case (Cons b bs)
  have d: "(48 \<le> hex_digit False n \<and> hex_digit False n \<le> 57) \<or>
      (97 \<le> hex_digit False n \<and> hex_digit False n \<le> 102)" if "n < 16" for n
    using that by (auto simp: hex_digit_def)
  have "unat b div 16 < 16" using unat_byte_less [of b] by simp
  then show ?case
    using Cons d [of "unat b div 16"] d [of "unat b mod 16"] by simp
qed simp

lemma hash_pattern: "crates_agree pc cr \<Longrightarrow> hex64_pattern (hash_for_push pc s)"
  using agreeD(4,5) [of pc cr] hex_lower by (simp add: hex64_pattern_def hash_for_push_def)

text \<open>The host suits the worker: it reaches the relay in time, and everything it calls works.\<close>

definition good_host :: "push_config \<Rightarrow> host \<Rightarrow> bool" where
  "good_host cfg ho \<longleftrightarrow> ho_base_url ho = pf_relay_url cfg \<and> ho_latency ho \<le> CLOCK_SKEW_MS \<and>
     2 * ho_latency ho \<le> rr_total_delay (pf_retry cfg) \<and>
     (\<forall>i. length (ho_random ho i) = 16) \<and> (\<forall>c. ho_db_ok ho c) \<and> (\<forall>p. ho_deliver ho p = None)"

text \<open>The notice a phone gets: nothing of the session but a hash of its id.\<close>

definition phone_notice ::
    "push_crates \<Rightarrow> session_id \<Rightarrow> relay_push_event_type \<Rightarrow> push_platform \<times> rstr \<Rightarrow> delivered_push" where
  "phone_notice pc session_id kind t =
     (let h = hash_for_push pc (pc_uuid_text pc (session_uuid session_id)) in
      \<lparr>dp_platform = fst t, dp_recipient_token = snd t, dp_title = lit ''Shelly'',
       dp_body = lit ''A session is waiting for you.'', dp_thread_id = lit ''session.'' @ h,
       dp_session_id_hash = h, dp_event_type = event_type_of kind\<rparr>)"

definition device_body ::
    "push_crates \<Rightarrow> rstr \<Rightarrow> session_id \<Rightarrow> relay_push_event_type \<Rightarrow> push_platform \<times> rstr \<Rightarrow> rstr \<Rightarrow> nat \<Rightarrow>
     push_body" where
  "device_body pc d session_id kind t nonce ts_ms = \<lparr>phb_daemon_node_id = d,
     phb_recipient_token = snd t, phb_platform = relay_push_platform_from (fst t),
     phb_session_id_hash = hash_for_push pc (pc_uuid_text pc (session_uuid session_id)),
     phb_event_type = kind, phb_nonce = nonce, phb_ts_ms = ts_ms\<rparr>"

text \<open>
  The worker can encode the request to a recipient, for every nonce of 16 bytes and every
  64-bit time, and the relay takes a body of its length.
\<close>

definition encodable :: "push_crates \<Rightarrow> rstr \<Rightarrow> session_id \<Rightarrow> relay_push_event_type \<Rightarrow> push_platform \<times> rstr \<Rightarrow> bool"
where
  "encodable pc d session_id kind t \<longleftrightarrow> len_between 16 4096 (snd t) \<and>
     (\<forall>x ts. length x = 16 \<longrightarrow> ts < 2 ^ 64 \<longrightarrow>
      (case pc_push pc (device_body pc d session_id kind t (pc_encode64 pc x) ts) of
        None \<Rightarrow> False | Some j \<Rightarrow> length j \<le> MAX_REQUEST_BODY_BYTES))"

text \<open>The nonces of the next requests.\<close>

definition next_nonces :: "push_crates \<Rightarrow> host \<Rightarrow> nat \<Rightarrow> nat \<Rightarrow> rstr list" where
  "next_nonces pc ho i k = map (\<lambda>j. pc_encode64 pc (ho_random ho j)) [i..<i + k]"

lemma next_nonces_Suc:
  "next_nonces pc ho i (Suc k) = pc_encode64 pc (ho_random ho i) # next_nonces pc ho (Suc i) k"
proof -
  have "[i..<i + Suc k] = i # [Suc i..<Suc i + k]" by (subst upt_conv_Cons) simp_all
  then show ?thesis by (simp add: next_nonces_def)
qed

lemma ready_antimono: "push_ready st d key url N R hz k \<Longrightarrow> N' \<subseteq> N \<Longrightarrow> push_ready st d key url N' R hz k"
  by (auto simp: push_ready_def)

lemma platform_of_from: "platform_of (relay_push_platform_from p) = p"
  by (cases p) simp_all

lemma nonce_valid: "crates_agree pc cr \<Longrightarrow> length bs = 16 \<Longrightarrow> ascii_between 16 128 (pc_encode64 pc bs)"
proof -
  assume a: "crates_agree pc cr" and l: "length bs = 16"
  have "is_ascii (pc_encode64 pc bs)"
    using agreeD(2) [OF a, of bs] by (auto simp: is_ascii_def list_all_iff)
  then show ?thesis
    using agreeD(3) [OF a l] by (simp add: ascii_between_def len_between_def is_ascii_len)
qed

lemma push_one_delivers:
  assumes agree: "crates_agree pc cr" and host: "good_host cfg ho" and d: "ascii_between 16 128 d"
    and ready: "push_ready (rw_relay w) d (pc_verifying_key pc (pf_signing_key cfg)) (pf_relay_url cfg)
      (set (next_nonces pc ho (rw_draws w) (Suc left))) recipients hz (Suc left)"
    and distinct: "distinct (next_nonces pc ho (rw_draws w) (Suc left))"
    and t: "t \<in> recipients" "encodable pc d sid kind t"
    and time: "1 \<le> rw_ms w" "rw_ms w + 2 * ho_latency ho \<le> hz" "hz \<le> rw_ms w + PUSH_TOKEN_TTL_MS"
      "rw_ms w < 2 ^ 64"
  shows "\<exists>w'. push_one_device pc (relay_net cr ho) cfg d sid kind t w = Some (w', Inr ()) \<and>
    rw_ms w' = rw_ms w + 2 * ho_latency ho \<and> rw_draws w' = Suc (rw_draws w) \<and> rw_pushed w' = rw_pushed w @ [phone_notice pc sid kind t] \<and>
    push_ready (rw_relay w') d (pc_verifying_key pc (pf_signing_key cfg)) (pf_relay_url cfg)
      (set (next_nonces pc ho (rw_draws w') left)) recipients hz left"
proof -
  let ?n = "pc_encode64 pc (ho_random ho (rw_draws w))"
  let ?key = "pc_verifying_key pc (pf_signing_key cfg)" and ?url = "pf_relay_url cfg"
  let ?b = "device_body pc d sid kind t ?n (rw_ms w)" and ?path = "lit ''/v1/push''"
  let ?op = "dispatch_operation kind" and ?lat = "ho_latency ho"
  define w1 where "w1 = w\<lparr>rw_draws := Suc (rw_draws w)\<rparr>"
  note H = host [unfolded good_host_def]
  have "case pc_push pc ?b of None \<Rightarrow> False | Some j \<Rightarrow> length j \<le> MAX_REQUEST_BODY_BYTES"
    using t(2) time(4) H unfolding encodable_def by blast
  then obtain j where j: "pc_push pc ?b = Some j" "length j \<le> MAX_REQUEST_BODY_BYTES"
    by (cases "pc_push pc ?b") auto
  let ?rq = "push_request_of ?b"
  have rq: "json_push cr j = Some ?rq" by (rule agreeD(8) [OF agree j(1)])
  have fields: "ph_daemon_node_id ?rq = d" "ph_nonce ?rq = ?n" "ph_ts_ms ?rq = rw_ms w"
    "(ph_platform ?rq, ph_recipient_token ?rq) \<in> recipients"
    using t(1) by (simp_all add: push_request_of_def device_body_def platform_of_from)
  have valid: "validate_push ?rq"
    using d t(2) time(1) hash_pattern [OF agree] nonce_valid [OF agree] H
    by (simp add: validate_push_def push_request_of_def device_body_def encodable_def)
  define req where "req = \<lparr>hq_url = ?url @ ?path, hq_headers =
    [(lit ''content-type'', lit ''application/json''), (lit ''x-shelly-signature'',
      push_sign pc (pf_signing_key cfg) ?url ?path j ?n (rw_ms w))], hq_body = j\<rparr>"
  have now: "abs_diff (rw_ms w + ?lat) (rw_ms w) \<le> CLOCK_SKEW_MS" "rw_ms w + ?lat \<le> hz"
    "hz \<le> rw_ms w + ?lat + PUSH_TOKEN_TTL_MS"
    using H time by (simp_all add: abs_diff_def)
  have first: "?n \<in> set (next_nonces pc ho (rw_draws w) (Suc left))" by (simp add: next_nonces_Suc)
  obtain st' where app: "relay_app cr (host_env ho (rw_ms w + ?lat)) (ho_peer ho) ?path
      (http_headers req) j (rw_relay w) = (st', Answered (Inr Accepted))"
    and r': "push_ready st' d ?key ?url (set (next_nonces pc ho (rw_draws w) (Suc left)) - {?n}) recipients hz left"
    using push_accepted [where peer = "ho_peer ho", OF agree j(2) ready rq valid fields(1-4) first
        _ _ now req_def [THEN arg_cong [where f = http_headers]]] H
    by blast
  define w2 where "w2 = w1\<lparr>rw_relay := st', rw_pushed := rw_pushed w @ [push_delivery ?rq],
    rw_ms := rw_ms w + 2 * ?lat\<rparr>"
  let ?dl = "rw_ms w + rr_total_delay (pf_retry cfg)"
  have url: "strip_prefix ?url (?url @ ?path) = Some ?path" by (rule strip_prefix_append)
  have send: "relay_send cr ho ?dl req w1 = (w2, Some (Responded 202 []))"
    using app url H
    by (simp add: relay_send_def req_def [symmetric] w1_def w2_def Let_def provider_took_def rq
        http_response_def) (simp add: req_def rq mult_2 provider_took_def http_response_def)
  have attempt: "signed_attempt pc (relay_net cr ho) cfg ?op ?path
      (\<lambda>nonce ts_ms. pc_push pc (device_body pc d sid kind t nonce ts_ms)) ?dl w = (w2, Inr ())"
    using send by (simp add: signed_attempt_def push_nonce_def w1_def [symmetric] Let_def)
      (simp add: w1_def post_signed_json_once_def j(1) send_until_def req_def [symmetric] ensure_success_def)
  have "push_one_device pc (relay_net cr ho) cfg d sid kind t w = Some (w2, Inr ())"
    unfolding push_one_device_def retry_relay_operation_def device_body_def [symmetric]
    by (subst retry_loop.simps) (simp add: attempt Let_def)
  moreover have "push_delivery ?rq = phone_notice pc sid kind t"
    by (simp add: push_delivery_def push_request_of_def device_body_def phone_notice_def Let_def
        platform_of_from)
  moreover have "push_ready st' d ?key ?url (set (next_nonces pc ho (Suc (rw_draws w)) left)) recipients hz left"
    using distinct by (intro ready_antimono [OF r']) (auto simp: next_nonces_Suc)
  ultimately show ?thesis
    by (intro exI [of _ w2]) (simp add: w2_def w1_def)
qed

lemma dispatch_delivers:
  assumes agree: "crates_agree pc cr" and host: "good_host cfg ho" and d: "ascii_between 16 128 d"
  shows "push_ready (rw_relay w) d (pc_verifying_key pc (pf_signing_key cfg)) (pf_relay_url cfg)
      (set (next_nonces pc ho (rw_draws w) (length ts))) recipients hz (length ts) \<Longrightarrow>
    distinct (next_nonces pc ho (rw_draws w) (length ts)) \<Longrightarrow>
    \<forall>t \<in> set ts. t \<in> recipients \<and> encodable pc d sid kind t \<Longrightarrow> 1 \<le> rw_ms w \<Longrightarrow>
    rw_ms w + length ts * (2 * ho_latency ho) \<le> hz \<Longrightarrow> hz \<le> rw_ms w + PUSH_TOKEN_TTL_MS \<Longrightarrow> hz < 2 ^ 64 \<Longrightarrow>
    \<exists>w'. dispatch_to (push_one_device pc (relay_net cr ho) cfg d sid kind) ts None w = Some (w', None) \<and>
      rw_pushed w' = rw_pushed w @ map (phone_notice pc sid kind) ts"
proof (induction ts arbitrary: w)
  case (Cons t ts)
  obtain w1 where 1: "push_one_device pc (relay_net cr ho) cfg d sid kind t w = Some (w1, Inr ())"
    "rw_ms w1 = rw_ms w + 2 * ho_latency ho" "rw_draws w1 = Suc (rw_draws w)" "rw_pushed w1 = rw_pushed w @ [phone_notice pc sid kind t]"
    "push_ready (rw_relay w1) d (pc_verifying_key pc (pf_signing_key cfg)) (pf_relay_url cfg)
      (set (next_nonces pc ho (rw_draws w1) (length ts))) recipients hz (length ts)"
    using push_one_delivers [OF agree host d, of w "length ts" recipients hz t sid kind] Cons.prems
    by auto
  obtain w' where "dispatch_to (push_one_device pc (relay_net cr ho) cfg d sid kind) ts None w1 = Some (w', None)"
    "rw_pushed w' = rw_pushed w1 @ map (phone_notice pc sid kind) ts"
    using Cons.IH [OF 1(5)] Cons.prems 1(2,3) by (fastforce simp: next_nonces_Suc)
  with 1 show ?case by simp
qed simp

fun push_event_parts :: "push_event \<Rightarrow> session_id \<times> relay_push_event_type" where
  "push_event_parts (PushAwaitingInput session_id _) = (session_id, AwaitingInputPush)"
| "push_event_parts (PushSessionCrashed session_id _) = (session_id, SessionCrashedPush)"
| "push_event_parts (PushBuildFinished session_id _) = (session_id, BuildFinishedPush)"

text \<open>C19 [session_event_reaches_phones].  When a session waits for input, ends a build or crashes,
  every paired device with a push token is notified: the worker's signed requests pass all of
  the relay's checks, one push per device in the order of the tokens is taken by the
  provider, and the command succeeds.  The notice says nothing about the session but a hash of
  its id.  The relay has to know the daemon's key and own the tokens, with room in its rate
  limit, on a network and a database that work and random bytes that do not repeat.\<close>

theorem session_event_reaches_phones:
  assumes agree: "crates_agree pc cr" and host: "good_host cfg ho"
    and worker: "pw_daemon_node_id wk = Some d" "pw_daemon_registered wk" "ascii_between 16 128 d"
    and event: "push_event_parts ev = (sid, kind)" and ts: "ts = push_tokens (ho_devices ho)"
    and tokens: "\<forall>t \<in> set ts. encodable pc d sid kind t"
    and relay: "push_ready (rw_relay w) d (pc_verifying_key pc (pf_signing_key cfg)) (pf_relay_url cfg)
      (set (next_nonces pc ho (rw_draws w) (length ts))) (set ts) (rw_ms w + length ts * (2 * ho_latency ho)) (length ts)"
    and nonces: "distinct (next_nonces pc ho (rw_draws w) (length ts))"
    and time: "1 \<le> rw_ms w" "length ts * (2 * ho_latency ho) \<le> PUSH_TOKEN_TTL_MS"
      "rw_ms w + length ts * (2 * ho_latency ho) < 2 ^ 64"
  shows "\<exists>w'. worker_step pc (relay_net cr ho) cfg (FromSession ev) wk w = Some ((wk, w'), Inr ()) \<and>
    rw_pushed w' = rw_pushed w @ map (phone_notice pc sid kind) ts"
proof -
  obtain w' where 1: "dispatch_to (push_one_device pc (relay_net cr ho) cfg d sid kind) ts None w =
      Some (w', None)" "rw_pushed w' = rw_pushed w @ map (phone_notice pc sid kind) ts"
    using dispatch_delivers [OF agree host worker(3) relay nonces] tokens time by fastforce
  have "worker_step pc (relay_net cr ho) cfg (FromSession ev) wk w =
      dispatch_session_event pc (relay_net cr ho) cfg sid kind wk w"
    using event by (cases ev) auto
  also have "\<dots> = Some ((wk, w'), Inr ())"
    using 1(1) worker by (simp add: dispatch_session_event_def ensure_daemon_registered_def
        worker_bind_def keep_worker_def ts)
  finally show ?thesis using 1(2) by blast
qed

end
