(* ===== verification/PushLost.thy ===== *)
theory PushLost
  imports PushRelay
begin

text \<open>
  A relay that has lost a daemon's registration (one without a database that was restarted, or
  one that prunes stale daemons) refuses all that daemon signs, and the worker, which registers
  once for each node id it is given, does not register again.
\<close>

section \<open>Requests of a daemon the relay does not know\<close>

definition signed_event :: "relay_event \<Rightarrow> bool" where
  "signed_event ev \<longleftrightarrow> (case ev of HttpRegisterToken _ _ \<Rightarrow> True | HttpUnregisterToken _ _ \<Rightarrow> True
     | HttpPush _ _ \<Rightarrow> True | HttpPublish _ _ \<Rightarrow> True | _ \<Rightarrow> False)"

definition sent_by :: "relay_crates \<Rightarrow> rstr \<Rightarrow> relay_event \<Rightarrow> bool" where
  "sent_by cr d ev \<longleftrightarrow> signed_event ev \<and> (\<forall>r. event_request cr ev = Some r \<longrightarrow> sr_daemon_node_id r = d)"

lemma check_signature_401: "check_signature cr st r = Inl e \<Longrightarrow> ae_status e = 401"
  by (auto simp: check_signature_def decode_signature_def api_unauthorized_def
      split: option.splits sum.splits prod.splits if_splits)

lemma verify_unknown:
  assumes wf: "relay_wf st" and unknown: "registered_key st (sr_daemon_node_id r) = None"
  shows "\<exists>st' e. verify_signed_request_with_pre_nonce_check cr env st r pre = (st', Inl e) \<and>
    ae_status e = 401"
proof (cases "check_signature cr (maybe_prune_expired_relay_state (db_ok env CallPrune)
    (t_verify env) st) r")
  case (Inl e)
  then show ?thesis
    using check_signature_401 [OF Inl]
    by (simp add: verify_signed_request_with_pre_nonce_check_def Let_def clock_skew_def)
next
  case (Inr key)
  then have "registered_key st (sr_daemon_node_id r) = Some key"
    by (intro prune_registered [OF wf_parts(1) [OF wf]]) (auto simp: check_signature_Inr)
  with unknown show ?thesis by simp
qed

lemma parse_validated_400: "parse_validated cr json valid b = Inl e \<Longrightarrow> ae_status e = 400"
  by (auto simp: parse_validated_def bad_request_def split: option.splits if_splits)

lemma relay_bind_Inl: "relay_bind (st, Inl e) f = (st, Inl e)" by simp

text \<open>A handler that parses and then verifies refuses with 400 or 401.\<close>

lemma unknown_daemon_refused:
  assumes wf: "relay_wf st" and ev: "sent_by cr d ev" and unknown: "registered_key st d = None"
  shows "\<exists>st' e. relay_answer cr st (env, ev) = (st', Inl e) \<and> ae_status e \<in> {400, 401}"
proof -
  have v: "\<exists>st' e. verify_signed_request_with_pre_nonce_check cr env st r pre = (st', Inl e) \<and>
      ae_status e = 401" if "event_request cr ev = Some r" for r pre
    using ev that unknown by (intro verify_unknown [OF wf]) (simp add: sent_by_def)
  show ?thesis
  proof (cases ev)
    case (HttpRegisterToken h b)
    show ?thesis
    proof (cases "parse_validated cr (json_register_token cr) validate_register_token b")
      case (Inl e)
      with HttpRegisterToken parse_validated_400 [OF Inl] show ?thesis by (simp add: register_token_def)
    next
      case (Inr q)
      let ?r = "signed_post (lit ''/v1/push/register-token'') b h (rt_daemon_node_id q) (rt_nonce q)
        (rt_ts_ms q)"
      have "event_request cr ev = Some ?r" using HttpRegisterToken Inr by (simp add: event_request_def)
      from v [OF this, of "check_register_token_rate_limit env (rt_daemon_node_id q)"] show ?thesis
        using HttpRegisterToken Inr by (auto simp: register_token_def)
    qed
  next
    case (HttpUnregisterToken h b)
    show ?thesis
    proof (cases "parse_validated cr (json_unregister_token cr) validate_unregister_token b")
      case (Inl e)
      with HttpUnregisterToken parse_validated_400 [OF Inl] show ?thesis
        by (simp add: unregister_token_def)
    next
      case (Inr q)
      let ?r = "signed_post (lit ''/v1/push/unregister-token'') b h (ut_daemon_node_id q) (ut_nonce q)
        (ut_ts_ms q)"
      have "event_request cr ev = Some ?r" using HttpUnregisterToken Inr by (simp add: event_request_def)
      from v [OF this, of "\<lambda>st. (st, Inr ())"] show ?thesis
        using HttpUnregisterToken Inr by (auto simp: unregister_token_def verify_signed_request_def)
    qed
  next
    case (HttpPush h b)
    show ?thesis
    proof (cases "parse_validated cr (json_push cr) validate_push b")
      case (Inl e)
      with HttpPush parse_validated_400 [OF Inl] show ?thesis by (simp add: push_def)
    next
      case (Inr q)
      let ?r = "signed_post (lit ''/v1/push'') b h (ph_daemon_node_id q) (ph_nonce q) (ph_ts_ms q)"
      have "event_request cr ev = Some ?r" using HttpPush Inr by (simp add: event_request_def)
      from v [OF this, of "\<lambda>st. (st, Inr ())"] show ?thesis
        using HttpPush Inr by (auto simp: push_def verify_signed_request_def)
    qed
  next
    case (HttpPublish h b)
    show ?thesis
    proof (cases "parse_pairing_publish cr b")
      case (Inl e)
      with HttpPublish parse_validated_400 [OF Inl [unfolded parse_pairing_publish_def]] show ?thesis
        by (simp add: publish_pairing_code_def)
    next
      case (Inr q)
      obtain pd pn pt where c: "publish_credentials q = (pd, pn, pt)" by (metis prod_cases3)
      let ?r = "signed_post (lit ''/v1/pair/publish'') b h pd pn pt"
      have "event_request cr ev = Some ?r" using HttpPublish Inr c by (simp add: event_request_def)
      from v [OF this, of "\<lambda>st. (st, Inr ())"] show ?thesis
        using HttpPublish Inr c by (auto simp: publish_pairing_code_def verify_signed_request_def)
    qed
  qed (use ev in \<open>simp_all add: sent_by_def signed_event_def\<close>)
qed

section \<open>The worker's requests\<close>

definition lost :: "rstr \<Rightarrow> delivered_push list \<Rightarrow> relay_world \<Rightarrow> bool" where
  "lost d took w \<longleftrightarrow> relay_wf (rw_relay w) \<and> \<not> rs_prune_stale_daemons (rw_relay w) \<and>
     registered_key (rw_relay w) d = None \<and> rw_pushed w = took"

lemma lost_frame:
  "lost d took w \<Longrightarrow> rw_relay w' = rw_relay w \<Longrightarrow> rw_pushed w' = rw_pushed w \<Longrightarrow> lost d took w'"
  by (simp add: lost_def)

lemma lost_answer:
  assumes "lost d took w" and "relay_answer cr (rw_relay w) (env, ev) = (st', r)" and "signed_event ev"
  shows "relay_wf st' \<and> \<not> rs_prune_stale_daemons st' \<and> registered_key st' d = None"
proof -
  have "keys_same (rw_relay w) (relay_step cr (rw_relay w) (env, ev))"
    by (rule keys.kept_answer) (use assms(1,3) in \<open>auto simp: keys_same_def lost_def signed_event_def
        registers_def split: relay_event.splits\<close>)
  with assms(1,2) show ?thesis by (simp add: keys_same_def relay_step_def lost_def)
qed

definition refusal :: "routed \<Rightarrow> bool" where
  "refusal r \<longleftrightarrow> r = Refused 413 \<or> (\<exists>e. r = Answered (Inl e) \<and> ae_status e \<in> {400, 401})"

lemma lost_app:
  assumes w: "lost d took w" and route: "post_route path peer h j = Some ev" and ev: "sent_by cr d ev"
    and app: "relay_app cr env peer path h j (rw_relay w) = (st', r)"
  shows "relay_wf st' \<and> \<not> rs_prune_stale_daemons st' \<and> registered_key st' d = None \<and> refusal r"
proof (cases "MAX_REQUEST_BODY_BYTES < length j")
  case True
  with app route have "st' = rw_relay w" "r = Refused 413" by (simp_all add: relay_app_def)
  with w show ?thesis by (simp add: lost_def refusal_def)
next
  case False
  obtain st1 e where a: "relay_answer cr (rw_relay w) (env, ev) = (st1, Inl e)" "ae_status e \<in> {400, 401}"
    using unknown_daemon_refused [OF _ ev] w unfolding lost_def by blast
  with app route False have r: "st' = st1" "r = Answered (Inl e)" by (simp_all add: relay_app_def)
  with lost_answer [OF w a(1)] ev a(2) show ?thesis by (simp add: sent_by_def refusal_def)
qed

text \<open>Refusals are errors for the worker, and not worth a retry.\<close>

definition final_error :: "push_error + unit \<Rightarrow> bool" where
  "final_error v \<longleftrightarrow> (\<exists>e. v = Inl e \<and> \<not> is_retryable_relay_error e)"

lemma refusal_fails: "refusal r \<Longrightarrow> final_error (ensure_success path (http_response ho r))"
  by (auto simp: refusal_def final_error_def ensure_success_def http_response_def)

lemma refusal_took: "refusal r \<Longrightarrow> provider_took cr j r = []"
  by (auto simp: refusal_def provider_took_def)

definition sends_as :: "relay_crates \<Rightarrow> rstr \<Rightarrow> rstr \<Rightarrow> (rstr \<Rightarrow> nat \<Rightarrow> bytes option) \<Rightarrow> bool" where
  "sends_as cr path d body \<longleftrightarrow> (\<forall>nonce ts j h peer. body nonce ts = Some j \<longrightarrow>
     (\<exists>ev. post_route path peer h j = Some ev \<and> sent_by cr d ev))"

lemma attempt_refused:
  assumes w: "lost d took w" and url: "ho_base_url ho = pf_relay_url cfg"
    and body: "sends_as cr path d body"
    and a: "signed_attempt pc (relay_net cr ho) cfg operation path body deadline w = (w', v)"
  shows "lost d took w' \<and> final_error v"
proof -
  define w1 where "w1 = w\<lparr>rw_draws := Suc (rw_draws w)\<rparr>"
  have w1: "lost d took w1" by (rule lost_frame [OF w]) (simp_all add: w1_def)
  define n where "n = pc_encode64 pc (ho_random ho (rw_draws w))"
  show ?thesis
  proof (cases "body n (rw_ms w)")
    case None
    with a w1 show ?thesis
      by (auto simp: signed_attempt_def push_nonce_def w1_def n_def Let_def post_signed_json_once_def
          encode_error_def final_error_def)
  next
    case (Some j)
    define req where "req = \<lparr>hq_url = pf_relay_url cfg @ path, hq_headers =
      [(lit ''content-type'', lit ''application/json''), (lit ''x-shelly-signature'',
        push_sign pc (pf_signing_key cfg) (pf_relay_url cfg) path j n (rw_ms w))], hq_body = j\<rparr>"
    have s: "send_until (relay_net cr ho) operation deadline path req w1 = (w', v)"
      using a Some by (simp add: signed_attempt_def push_nonce_def w1_def n_def Let_def
          post_signed_json_once_def req_def)
    obtain st' r where app: "relay_app cr (host_env ho (rw_ms w1 + ho_latency ho)) (ho_peer ho) path
        (http_headers req) j (rw_relay w1) = (st', r)" by fastforce
    obtain ev where "post_route path (ho_peer ho) (http_headers req) j = Some ev" "sent_by cr d ev"
      using body Some unfolding sends_as_def by blast
    note r = lost_app [OF w1 this app]
    have t: "provider_took cr j r = []" using r refusal_took by blast
    have url: "strip_prefix (ho_base_url ho) (hq_url req) = Some path"
      by (simp add: req_def url strip_prefix_append)
    have j: "hq_body req = j" by (simp add: req_def)
    have ok: "final_error (Inl (budget_exceeded operation))"
      by (simp add: final_error_def budget_exceeded_def)
    have "\<exists>m. w' = w1\<lparr>rw_ms := m\<rparr> \<or> w' = w1\<lparr>rw_relay := st', rw_pushed := rw_pushed w1 @ [],
        rw_ms := m\<rparr>" and "final_error v"
      using s app url j t refusal_fails [of r path ho] r ok
      by (auto simp: send_until_def relay_send_def Let_def split: if_splits)
    then obtain m where "w' = w1\<lparr>rw_ms := m\<rparr> \<or>
        w' = w1\<lparr>rw_relay := st', rw_pushed := rw_pushed w1 @ [], rw_ms := m\<rparr>" and "final_error v"
      by blast
    with w1 r show ?thesis by (auto simp: lost_def)
  qed
qed

section \<open>The worker's commands\<close>

lemma retry_final:
  assumes "signed_attempt pc net cfg operation path body (pn_instant net w + rr_total_delay retry) w =
      (w', v)" and "final_error v"
  shows "retry_relay_operation net retry operation (signed_attempt pc net cfg operation path body) w =
    Some (w', v)"
  unfolding retry_relay_operation_def
  by (subst retry_loop.simps) (use assms in \<open>auto simp: Let_def final_error_def\<close>)

lemma retry_lost:
  assumes w: "lost d took w" and url: "ho_base_url ho = pf_relay_url cfg"
    and body: "sends_as cr path d body"
  shows "\<exists>w' v. retry_relay_operation (relay_net cr ho) retry operation
      (signed_attempt pc (relay_net cr ho) cfg operation path body) w = Some (w', v) \<and>
    lost d took w' \<and> final_error v"
proof -
  obtain w' v where a: "signed_attempt pc (relay_net cr ho) cfg operation path body
      (pn_instant (relay_net cr ho) w + rr_total_delay retry) w = (w', v)" by fastforce
  from attempt_refused [OF w url body a] show ?thesis
    using retry_final [OF a] by blast
qed

lemma sent_by_worker:
  assumes agree: "crates_agree pc cr"
  shows "pc_register_token pc b2 = Some j \<Longrightarrow> rtb_daemon_node_id b2 = d \<Longrightarrow> sent_by cr d (HttpRegisterToken h j)"
    and "pc_unregister_token pc b3 = Some j \<Longrightarrow> utb_daemon_node_id b3 = d \<Longrightarrow>
      sent_by cr d (HttpUnregisterToken h j)"
    and "pc_push pc b1 = Some j \<Longrightarrow> phb_daemon_node_id b1 = d \<Longrightarrow> sent_by cr d (HttpPush h j)"
    and "pc_publish pc b4 = Some j \<Longrightarrow> prb_daemon_node_id b4 = d \<Longrightarrow> sent_by cr d (HttpPublish h j)"
  using agreeD(8-11) [OF agree]
  by (auto simp: sent_by_def signed_event_def event_request_def parse_validated_Inr signed_post_def
      parse_pairing_publish_def token_request_of_def untoken_request_of_def push_request_of_def
      publish_request_of_def publish_credentials_def split: sum.splits)

definition needs_relay :: "host \<Rightarrow> worker_command \<Rightarrow> bool" where
  "needs_relay ho c \<longleftrightarrow> (case c of FromApp _ \<Rightarrow> True | FromSession _ \<Rightarrow> push_tokens (ho_devices ho) \<noteq> [])"

lemma dispatch_lost:
  assumes one: "\<And>t w. lost d took w \<Longrightarrow> \<exists>w' v. push_one t w = Some (w', v) \<and> lost d took w' \<and> final_error v"
  shows "lost d took w \<Longrightarrow> \<exists>w' f. dispatch_to push_one ts first_error w = Some (w', f) \<and> lost d took w' \<and>
    (ts \<noteq> [] \<or> first_error \<noteq> None \<longrightarrow> f \<noteq> None)"
proof (induction ts arbitrary: first_error w)
  case (Cons t ts)
  obtain w1 e where 1: "push_one t w = Some (w1, Inl e)" "lost d took w1"
    using one [OF Cons.prems, of t] by (auto simp: final_error_def)
  obtain w' f where "dispatch_to push_one ts (case first_error of None \<Rightarrow> Some e | Some f \<Rightarrow> Some f) w1 =
      Some (w', f)" "lost d took w'" "f \<noteq> None"
    using Cons.IH [OF 1(2), of "case first_error of None \<Rightarrow> Some e | Some f \<Rightarrow> Some f"]
    by (auto split: option.splits)
  with 1(1) show ?case by auto
qed simp

lemma step_lost:
  assumes agree: "crates_agree pc cr" and url: "ho_base_url ho = pf_relay_url cfg"
    and wk: "pw_daemon_node_id wk = Some d" "pw_daemon_registered wk"
    and w: "lost d took w" and c: "\<nexists>n. c = FromApp (CmdSetDaemonNodeId n)"
  shows "\<exists>w' v. worker_step pc (relay_net cr ho) cfg c wk w = Some ((wk, w'), v) \<and> lost d took w' \<and>
    (needs_relay ho c \<longrightarrow> (\<exists>e. v = Inl e))"
proof -
  have ensure: "ensure_daemon_registered pc (relay_net cr ho) cfg wk w = Some ((wk, w), Inr d)"
    using wk by (simp add: ensure_daemon_registered_def)
  have app: "\<exists>w' e. worker_bind (ensure_daemon_registered pc (relay_net cr ho) cfg wk w)
      (\<lambda>wk w daemon_node_id. keep_worker wk (retry_relay_operation (relay_net cr ho) (pf_retry cfg) operation
        (signed_attempt pc (relay_net cr ho) cfg operation path (body daemon_node_id)) w)) =
        Some ((wk, w'), Inl e) \<and> lost d took w'"
    if b: "sends_as cr path d (body d)" for operation path body
  proof -
    obtain w' v where "retry_relay_operation (relay_net cr ho) (pf_retry cfg) operation
        (signed_attempt pc (relay_net cr ho) cfg operation path (body d)) w = Some (w', v)"
      "lost d took w'" "final_error v"
      using retry_lost [OF w url b] by blast
    then show ?thesis by (auto simp: ensure worker_bind_def keep_worker_def final_error_def)
  qed
  have session: "\<exists>w' v. dispatch_session_event pc (relay_net cr ho) cfg sid kind wk w = Some ((wk, w'), v) \<and>
      lost d took w' \<and> (push_tokens (ho_devices ho) \<noteq> [] \<longrightarrow> (\<exists>e. v = Inl e))" for sid kind
  proof -
    have one: "\<exists>w' v. push_one_device pc (relay_net cr ho) cfg d sid kind t w = Some (w', v) \<and>
        lost d took w' \<and> final_error v" if "lost d took w" for t w
      unfolding push_one_device_def
      by (rule retry_lost [OF that url])
        (auto simp: sends_as_def post_route_def lit_eval intro!: sent_by_worker(3) [OF agree])
    obtain w' f where "dispatch_to (push_one_device pc (relay_net cr ho) cfg d sid kind)
        (push_tokens (ho_devices ho)) None w = Some (w', f)" "lost d took w'"
      "push_tokens (ho_devices ho) \<noteq> [] \<longrightarrow> f \<noteq> None"
      using dispatch_lost [where push_one = "push_one_device pc (relay_net cr ho) cfg d sid kind"
          and ts = "push_tokens (ho_devices ho)" and first_error = None, OF one w] by blast
    then show ?thesis
      by (auto simp: dispatch_session_event_def ensure worker_bind_def keep_worker_def split: option.split)
  qed
  show ?thesis
  proof (cases c)
    case (FromApp a)
    show ?thesis
    proof (cases a)
      case (CmdSetDaemonNodeId n)
      with c FromApp show ?thesis by simp
    next
      case (CmdRegisterToken platform token)
      have "\<exists>w' e. worker_register_token pc (relay_net cr ho) cfg platform token wk w = Some ((wk, w'), Inl e) \<and>
          lost d took w'"
        unfolding worker_register_token_def
        by (rule app) (auto simp: sends_as_def post_route_def lit_eval intro!: sent_by_worker [OF agree])
      with FromApp CmdRegisterToken show ?thesis by auto
    next
      case (CmdUnregisterToken token)
      have "\<exists>w' e. worker_unregister_token pc (relay_net cr ho) cfg token wk w = Some ((wk, w'), Inl e) \<and>
          lost d took w'"
        unfolding worker_unregister_token_def
        by (rule app) (auto simp: sends_as_def post_route_def lit_eval intro!: sent_by_worker [OF agree])
      with FromApp CmdUnregisterToken show ?thesis by auto
    next
      case (CmdPublishPairingRendezvous locator rv)
      have "\<exists>w' e. worker_publish_pairing_rendezvous pc (relay_net cr ho) cfg locator rv wk w = Some ((wk, w'), Inl e) \<and>
          lost d took w'"
        unfolding worker_publish_pairing_rendezvous_def
        by (rule app) (auto simp: sends_as_def post_route_def lit_eval intro!: sent_by_worker [OF agree])
      with FromApp CmdPublishPairingRendezvous show ?thesis by auto
    qed
  next
    case (FromSession e)
    with session show ?thesis by (cases e) (auto simp: needs_relay_def)
  qed
qed

text \<open>C39 [lost_registration_is_final].  Once the relay does not know a daemon that has registered,
  nothing the daemon's worker does registers it again: every command that needs the relay
  fails at its first refusal, and no notice reaches a phone, until the worker is given a node id
  anew, which the daemon does only when its endpoint starts.\<close>

theorem lost_registration_is_final:
  assumes agree: "crates_agree pc cr" and url: "ho_base_url ho = pf_relay_url cfg"
    and wk: "pw_daemon_node_id wk = Some d" "pw_daemon_registered wk"
    and st: "relay_wf (rw_relay w)" "\<not> rs_prune_stale_daemons (rw_relay w)"
      "registered_key (rw_relay w) d = None"
    and cs: "\<forall>c \<in> set cs. \<forall>n. c \<noteq> FromApp (CmdSetDaemonNodeId n)"
  shows "\<exists>w' rs. worker_run pc (relay_net cr ho) cfg cs wk w = Some ((wk, w'), rs) \<and>
    registered_key (rw_relay w') d = None \<and> rw_pushed w' = rw_pushed w \<and>
    list_all2 (\<lambda>c r. needs_relay ho c \<longrightarrow> (\<exists>e. r = Inl e)) cs rs"
proof -
  have "\<exists>w' rs. worker_run pc (relay_net cr ho) cfg cs wk v = Some ((wk, w'), rs) \<and>
      lost d (rw_pushed w) w' \<and> list_all2 (\<lambda>c r. needs_relay ho c \<longrightarrow> (\<exists>e. r = Inl e)) cs rs"
    if "lost d (rw_pushed w) v" for v
    using that cs
  proof (induction cs arbitrary: v)
    case (Cons c cs)
    obtain v1 r where 1: "worker_step pc (relay_net cr ho) cfg c wk v = Some ((wk, v1), r)"
      "lost d (rw_pushed w) v1" "needs_relay ho c \<longrightarrow> (\<exists>e. r = Inl e)"
      using step_lost [OF agree url wk Cons.prems(1)] Cons.prems(2) by (metis list.set_intros(1))
    obtain w' rs where "worker_run pc (relay_net cr ho) cfg cs wk v1 = Some ((wk, w'), rs)"
      "lost d (rw_pushed w) w'" "list_all2 (\<lambda>c r. needs_relay ho c \<longrightarrow> (\<exists>e. r = Inl e)) cs rs"
      using Cons.IH [OF 1(2)] Cons.prems(2) by auto
    with 1 show ?case by auto
  qed simp
  moreover have "lost d (rw_pushed w) w" using st by (simp add: lost_def)
  ultimately show ?thesis by (force simp: lost_def)
qed

end
