(* ===== verification/PushDemo.thy ===== *)
theory PushDemo
  imports PushLost
begin

text \<open>
  A worker and a relay with concrete crates: base64 as it is, and a small signature and JSON,
  which have what \<open>crates_agree\<close> asks for.  The properties of the worker hold on them.
\<close>

section \<open>Base64\<close>

definition b64_char :: "nat \<Rightarrow> nat" where
  "b64_char d = (if d < 26 then 65 + d else if d < 52 then 71 + d else if d < 62 then d - 4
     else if d = 62 then 43 else 47)"

definition b64_index :: "nat \<Rightarrow> nat" where
  "b64_index c = (if c = 43 then 62 else if c = 47 then 63 else if c < 58 then c + 4
     else if c < 91 then c - 65 else c - 71)"

lemma b64_index_char: "d < 64 \<Longrightarrow> b64_index (b64_char d) = d"
  by (auto simp: b64_index_def b64_char_def)

lemma b64_char_printable: "d < 64 \<Longrightarrow> 32 \<le> b64_char d \<and> b64_char d < 127 \<and> b64_char d \<noteq> 61"
  by (auto simp: b64_char_def)

definition b64_quad :: "nat \<Rightarrow> nat \<Rightarrow> nat \<Rightarrow> rstr" where
  "b64_quad a b c = [b64_char (a div 4), b64_char (a mod 4 * 16 + b div 16),
     b64_char (b mod 16 * 4 + c div 64), b64_char (c mod 64)]"

fun b64_text :: "bytes \<Rightarrow> rstr" where
  "b64_text [] = []"
| "b64_text [a] = take 2 (b64_quad (unat a) 0 0) @ [61, 61]"
| "b64_text [a, b] = take 3 (b64_quad (unat a) (unat b) 0) @ [61]"
| "b64_text (a # b # c # bytes) = b64_quad (unat a) (unat b) (unat c) @ b64_text bytes"

fun b64_bytes :: "rstr \<Rightarrow> bytes option" where
  "b64_bytes [] = Some []"
| "b64_bytes (p # q # r # s # text) =
     (let a = b64_index p * 4 + b64_index q div 16;
        b = b64_index q mod 16 * 16 + b64_index r div 4;
        c = b64_index r mod 4 * 64 + b64_index s
      in if r = 61 then Some [word_of_nat a] else if s = 61 then Some [word_of_nat a, word_of_nat b]
      else map_option (\<lambda>bytes. word_of_nat a # word_of_nat b # word_of_nat c # bytes) (b64_bytes text))"
| "b64_bytes _ = None"

lemma b64_digits:
  assumes "a < 256" "b < 256" "c < (256::nat)"
  shows "a div 4 < 64" "a mod 4 * 16 + b div 16 < 64" "b mod 16 * 4 + c div 64 < 64"
    "a div 4 * 4 + (a mod 4 * 16 + b div 16) div 16 = a"
    "(a mod 4 * 16 + b div 16) mod 16 * 16 + (b mod 16 * 4 + c div 64) div 4 = b"
    "(b mod 16 * 4 + c div 64) mod 4 * 64 + c mod 64 = c"
proof -
  have "b div 16 < 16" "c div 64 < 4" using assms by simp_all
  then show "a div 4 < 64" "a mod 4 * 16 + b div 16 < 64" "b mod 16 * 4 + c div 64 < 64"
    "a div 4 * 4 + (a mod 4 * 16 + b div 16) div 16 = a"
    "(a mod 4 * 16 + b div 16) mod 16 * 16 + (b mod 16 * 4 + c div 64) div 4 = b"
    "(b mod 16 * 4 + c div 64) mod 4 * 64 + c mod 64 = c"
    using assms mod_less_divisor [of 4 a] by simp_all
qed

lemma b64_text_back: "b64_bytes (b64_text x) = Some x"
proof (induction x rule: b64_text.induct)
  case (2 a)
  note d = b64_digits [OF unat_byte_less [of a], of 0 0]
  show ?case using d by (simp add: b64_quad_def b64_index_char Let_def)
next
  case (3 a b)
  note d = b64_digits [OF unat_byte_less [of a] unat_byte_less [of b], of 0]
  show ?case
    using d b64_char_printable [OF d(3)] by (simp add: b64_quad_def b64_index_char Let_def)
next
  case (4 a b c bytes)
  note d = b64_digits [OF unat_byte_less [of a] unat_byte_less [of b] unat_byte_less [of c]]
  have "unat c mod 64 < 64" by simp
  with 4 d b64_char_printable [OF this] b64_char_printable [OF d(3)] show ?case
    by (simp add: b64_quad_def b64_index_char Let_def)
qed simp

lemma b64_text_printable: "list_all (\<lambda>c. 32 \<le> c \<and> c < 127) (b64_text x)"
proof (induction x rule: b64_text.induct)
  case (2 a)
  note d = b64_digits [OF unat_byte_less [of a], of 0 0]
  show ?case using d(1,2) by (simp add: b64_quad_def b64_char_printable)
next
  case (3 a b)
  note d = b64_digits [OF unat_byte_less [of a] unat_byte_less [of b], of 0]
  show ?case using d(1-3) by (simp add: b64_quad_def b64_char_printable)
next
  case (4 a b c bytes)
  note d = b64_digits [OF unat_byte_less [of a] unat_byte_less [of b] unat_byte_less [of c]]
  show ?case using 4 d(1-3) by (simp add: b64_quad_def b64_char_printable)
qed simp

lemma b64_text_length: "length (b64_text x) = (length x + 2) div 3 * 4"
proof (induction x rule: b64_text.induct)
  case (4 a b c bytes)
  have "(length (a # b # c # bytes) + 2) div 3 = Suc ((length bytes + 2) div 3)" by simp
  with 4 show ?case by (simp add: b64_quad_def)
qed (simp_all add: b64_quad_def)

section \<open>A worker with two phones\<close>

definition demo_apns_token :: rstr where "demo_apns_token = replicate 16 100"

definition demo_devices :: "(rstr \<times> stored_device) list" where
  "demo_devices = [([1], (stored_device_new 100 [1] [1])\<lparr>sd_push_platform := Some Apns,
       sd_push_token := Some demo_apns_token\<rparr>),
     ([2], (stored_device_new 100 [2] [2])\<lparr>sd_push_platform := Some Fcm,
       sd_push_token := Some demo_token\<rparr>),
     ([3], stored_device_new 100 [3] [3])]"

definition demo_recipients :: "(push_platform \<times> rstr) list" where
  "demo_recipients = [(Fcm, demo_token), (Apns, demo_apns_token)]"

lemma demo_push_tokens: "push_tokens demo_devices = demo_recipients"
  by (simp add: push_tokens_def demo_devices_def stored_device_new_def List.map_filter_def
      demo_recipients_def demo_token_def demo_apns_token_def eval_nat_numeral)

text \<open>The JSON of a push: which recipient, the nonce, and the time.\<close>

definition demo_hash_bytes :: bytes where "demo_hash_bytes = replicate 32 0"

definition demo_body :: "push_platform \<times> rstr \<Rightarrow> rstr \<Rightarrow> nat \<Rightarrow> push_body" where
  "demo_body t nonce ts = \<lparr>phb_daemon_node_id = demo_daemon, phb_recipient_token = snd t,
     phb_platform = relay_push_platform_from (fst t), phb_session_id_hash = hex False demo_hash_bytes,
     phb_event_type = AwaitingInputPush, phb_nonce = nonce, phb_ts_ms = ts\<rparr>"

definition demo_push_json :: "push_body \<Rightarrow> bytes option" where
  "demo_push_json b = (let nonce = phb_nonce b; ts = phb_ts_ms b in
     if \<not> (length nonce = 24 \<and> list_all (\<lambda>c. 32 \<le> c \<and> c < 127) nonce \<and> ts < 256 ^ 8) then None
     else if b = demo_body (Fcm, demo_token) nonce ts then Some (0 # map word_of_nat nonce @ be_bytes 8 ts)
     else if b = demo_body (Apns, demo_apns_token) nonce ts then
       Some (1 # map word_of_nat nonce @ be_bytes 8 ts)
     else None)"

definition demo_push_of_json :: "bytes \<Rightarrow> push_request option" where
  "demo_push_of_json j = (case j of [] \<Rightarrow> None | i # rest \<Rightarrow>
     Some (push_request_of (demo_body (if i = 0 then (Fcm, demo_token) else (Apns, demo_apns_token))
       (map unat (take 24 rest)) (from_be (drop 24 rest)))))"

lemma printable_back: "list_all (\<lambda>c. 32 \<le> c \<and> c < 127) s \<Longrightarrow> map unat (map word_of_nat s :: bytes) = s"
  by (induction s) (auto simp: unat_of_nat)

lemma demo_push_json_back: "demo_push_json b = Some j \<Longrightarrow> demo_push_of_json j = Some (push_request_of b)"
  using printable_back [of "phb_nonce b"] from_be_be_bytes [of "phb_ts_ms b" 8]
  by (auto simp: demo_push_json_def demo_push_of_json_def Let_def simp del: map_map split: if_splits)

text \<open>The worker registers one token, in the first request it makes.\<close>

definition demo_random :: "nat \<Rightarrow> bytes" where
  "demo_random i = word_of_nat i # replicate 15 0"

definition demo_token_body :: register_token_body where
  "demo_token_body = \<lparr>rtb_daemon_node_id = demo_daemon, rtb_platform = RelayFcm,
     rtb_push_token = demo_token, rtb_nonce = b64_text (demo_random 0), rtb_ts_ms = 1000\<rparr>"

definition demo_sign :: "bytes \<Rightarrow> bytes \<Rightarrow> bytes" where
  "demo_sign key text = take 64 (key @ text @ replicate 64 0)"

definition worker_crates :: push_crates where
  "worker_crates = \<lparr>pc_encode64 = b64_text, pc_sha256 = (\<lambda>_. demo_hash_bytes), pc_sign = demo_sign,
     pc_verifying_key = (\<lambda>key. key), pc_uuid_text = (\<lambda>_. lit ''session''),
     pc_register_daemon = (\<lambda>_. Some []),
     pc_register_token = (\<lambda>b. if b = demo_token_body then Some [2] else None),
     pc_unregister_token = (\<lambda>_. None), pc_publish = (\<lambda>_. None), pc_push = demo_push_json\<rparr>"

definition server_crates :: relay_crates where
  "server_crates = demo_relay_crates\<lparr>b64_decode := b64_bytes, sha256_of := (\<lambda>_. demo_hash_bytes),
     ed_verify := (\<lambda>key text signature. signature = demo_sign key text),
     json_register_token := (\<lambda>_. Some (token_request_of demo_token_body)),
     json_push := demo_push_of_json\<rparr>"

lemma demo_crates_agree: "crates_agree worker_crates server_crates"
  by (auto simp: crates_agree_def worker_crates_def server_crates_def b64_text_back b64_text_printable
      b64_text_length demo_hash_bytes_def demo_sign_def demo_push_json_back split: if_splits)

section \<open>The properties on it\<close>

definition worker_cfg :: push_config where
  "worker_cfg = \<lparr>pf_relay_url = lit ''https://relay'', pf_signing_key = demo_key,
     pf_retry = retry_production\<rparr>"

definition worker_host :: host where
  "worker_host = \<lparr>ho_base_url = lit ''https://relay'', ho_peer = lit ''192.0.2.1'', ho_latency = 50,
     ho_random = demo_random, ho_devices = demo_devices, ho_db_ok = (\<lambda>_. True),
     ho_deliver = (\<lambda>_. None), ho_text = (\<lambda>_. [])\<rparr>"

definition registered_relay :: relay_state where
  "registered_relay = demo_relay\<lparr>rs_store := None,
     rs_tokens := [(demo_token, demo_owner), (demo_apns_token, demo_owner\<lparr>tk_platform := Apns\<rparr>)],
     rs_registration_audience := lit ''https://relay''\<rparr>"

definition world_of :: "relay_state \<Rightarrow> relay_world" where
  "world_of st = \<lparr>rw_ms = 1000, rw_draws = 0, rw_relay = st, rw_pushed = []\<rparr>"

definition registered_worker :: push_worker where
  "registered_worker = \<lparr>pw_daemon_node_id = Some demo_daemon, pw_daemon_registered = True\<rparr>"

lemma worker_host_good: "good_host worker_cfg worker_host"
  by (simp add: good_host_def worker_host_def worker_cfg_def retry_production_def CLOCK_SKEW_MS_def
      demo_random_def)

lemma worker_host_simps:
  "ho_devices worker_host = demo_devices" "ho_latency worker_host = 50"
  "ho_base_url worker_host = pf_relay_url worker_cfg" "pf_signing_key worker_cfg = demo_key"
  "rw_relay (world_of st) = st" "rw_ms (world_of st) = 1000" "rw_pushed (world_of st) = []"
  by (simp_all add: worker_host_def worker_cfg_def world_of_def)

lemma registered_relay_simps:
  "rs_prune_stale_daemons registered_relay = False" "rs_seen_nonces registered_relay = []"
  "registered_key registered_relay demo_daemon = Some demo_key" "rs_store registered_relay = None"
  "rs_registration_audience registered_relay = pf_relay_url worker_cfg"
  "rs_rate_limits registered_relay = Map.empty" "relay_wf registered_relay"
  "rs_tokens registered_relay = [(demo_token, demo_owner),
     (demo_apns_token, demo_owner\<lparr>tk_platform := Apns\<rparr>)]"
proof -
  have "key_less demo_token demo_apns_token"
    by (simp add: demo_token_def demo_apns_token_def eval_nat_numeral)
  then show "relay_wf registered_relay"
    using demo_relay_wf by (simp add: relay_wf_def registered_relay_def tbl_ok_def)
qed (simp_all add: registered_relay_def demo_fields worker_cfg_def registered_key_def tbl_get_def)

lemma demo_tokens_differ: "demo_token \<noteq> demo_apns_token"
proof
  assume "demo_token = demo_apns_token"
  then have "hd demo_token = hd demo_apns_token" by simp
  then show False by (simp add: demo_token_def demo_apns_token_def)
qed

lemma demo_ready:
  "push_ready registered_relay demo_daemon demo_key (pf_relay_url worker_cfg) N (set demo_recipients) 1200 2"
proof -
  have "bound_token registered_relay demo_daemon 1200 t" if "t \<in> set demo_recipients" for t
    using that demo_tokens_differ
    by (auto simp: bound_token_def registered_relay_simps demo_recipients_def tbl_get_def demo_owner_def
        push_token_is_stale_def PUSH_TOKEN_TTL_MS_def)
  then show ?thesis
    by (simp add: push_ready_def registered_relay_simps unused_def rate_count_def
        RATE_LIMIT_PER_MINUTE_def)
qed

lemma demo_nonces_differ: "distinct (next_nonces worker_crates worker_host 0 2)"
proof -
  have "next_nonces worker_crates worker_host 0 2 = [b64_text (demo_random 0), b64_text (demo_random 1)]"
    by (simp add: next_nonces_def worker_crates_def worker_host_def numeral_2_eq_2)
  moreover have "demo_random 0 \<noteq> demo_random 1" by (simp add: demo_random_def)
  ultimately show ?thesis by (metis b64_text_back distinct_length_2_or_more distinct_singleton option.inject)
qed

lemma demo_encodable:
  assumes "t \<in> set demo_recipients"
  shows "encodable worker_crates demo_daemon (SessionId 7) AwaitingInputPush t"
proof -
  have "len_between 16 4096 (snd t)"
    using assms by (auto simp: demo_recipients_def len_between_def demo_token_def demo_apns_token_def)
  moreover have "\<exists>i. pc_push worker_crates (device_body worker_crates demo_daemon (SessionId 7)
      AwaitingInputPush t (pc_encode64 worker_crates x) ts) =
      Some (i # map word_of_nat (b64_text x) @ be_bytes 8 ts)"
    if "length x = 16" "ts < 2 ^ 64" for x ts
  proof -
    have "device_body worker_crates demo_daemon (SessionId 7) AwaitingInputPush t (b64_text x) ts =
        demo_body t (b64_text x) ts"
      by (simp add: device_body_def demo_body_def worker_crates_def hash_for_push_def)
    with that b64_text_printable [of x] b64_text_length [of x] assms show ?thesis
      by (auto simp: worker_crates_def demo_push_json_def demo_recipients_def demo_body_def Let_def)
  qed
  moreover have "case pc_push worker_crates (device_body worker_crates demo_daemon (SessionId 7)
      AwaitingInputPush t (pc_encode64 worker_crates x) ts) of None \<Rightarrow> False
      | Some j \<Rightarrow> length j \<le> MAX_REQUEST_BODY_BYTES" if x: "length x = 16" "ts < 2 ^ 64" for x ts
  proof -
    obtain i where "pc_push worker_crates (device_body worker_crates demo_daemon (SessionId 7)
        AwaitingInputPush t (pc_encode64 worker_crates x) ts) =
        Some (i # map word_of_nat (b64_text x) @ be_bytes 8 ts)" using calculation(2) [OF x] by blast
    with x show ?thesis by (simp add: b64_text_length MAX_REQUEST_BODY_BYTES_def)
  qed
  ultimately show ?thesis unfolding encodable_def by blast
qed

lemma worker_always_returns_witness:
  "\<exists>wk' w' rs. worker_run worker_crates (relay_net server_crates worker_host) worker_cfg
      [FromApp (CmdSetDaemonNodeId demo_daemon), FromApp (CmdRegisterToken Fcm demo_token),
       FromSession (PushAwaitingInput (SessionId 7) [])] worker_start (world_of relay_default) =
      Some ((wk', w'), rs) \<and> length rs = 3 \<and> rw_ms w' \<le> 1000 + 3 * (5 * 120000)"
proof -
  have "\<forall>w. length (pn_devices (relay_net server_crates worker_host) w) \<le> 3"
    by (simp add: worker_host_simps demo_devices_def)
  moreover have "0 < rr_min_delay (pf_retry worker_cfg)" "rr_total_delay (pf_retry worker_cfg) = 60000"
    by (simp_all add: worker_cfg_def retry_production_def)
  ultimately show ?thesis
    using worker_always_returns [OF relay_clock.push_clock_axioms [of server_crates worker_host],
        of worker_cfg 3 worker_crates "[FromApp (CmdSetDaemonNodeId demo_daemon),
          FromApp (CmdRegisterToken Fcm demo_token), FromSession (PushAwaitingInput (SessionId 7) [])]"
        worker_start "world_of relay_default"]
    by (simp del: worker_run.simps add: worker_host_simps eval_nat_numeral(3) [symmetric]
        numeral_3_eq_3)
qed

lemma session_event_reaches_phones_witness:
  "\<exists>w'. worker_step worker_crates (relay_net server_crates worker_host) worker_cfg
      (FromSession (PushAwaitingInput (SessionId 7) [])) registered_worker (world_of registered_relay) =
      Some ((registered_worker, w'), Inr ()) \<and>
    rw_pushed w' = [phone_notice worker_crates (SessionId 7) AwaitingInputPush (Fcm, demo_token),
      phone_notice worker_crates (SessionId 7) AwaitingInputPush (Apns, demo_apns_token)]"
proof -
  have k: "pc_verifying_key worker_crates demo_key = demo_key" by (simp add: worker_crates_def)
  have n: "length demo_recipients = 2" by (simp add: demo_recipients_def)
  have w: "pw_daemon_node_id registered_worker = Some demo_daemon" "pw_daemon_registered registered_worker"
    by (simp_all add: registered_worker_def)
  have ready: "push_ready (rw_relay (world_of registered_relay)) demo_daemon
      (pc_verifying_key worker_crates (pf_signing_key worker_cfg)) (pf_relay_url worker_cfg)
      (set (next_nonces worker_crates worker_host (rw_draws (world_of registered_relay)) (length demo_recipients)))
      (set demo_recipients) (rw_ms (world_of registered_relay) +
        length demo_recipients * (2 * ho_latency worker_host)) (length demo_recipients)"
    using demo_ready by (simp add: worker_host_simps n k)
  have nonces: "distinct (next_nonces worker_crates worker_host (rw_draws (world_of registered_relay))
      (length demo_recipients))" using demo_nonces_differ by (simp add: world_of_def n)
  have ts: "demo_recipients = push_tokens (ho_devices worker_host)"
    by (simp add: worker_host_simps demo_push_tokens)
  obtain w' where "worker_step worker_crates (relay_net server_crates worker_host) worker_cfg
      (FromSession (PushAwaitingInput (SessionId 7) [])) registered_worker (world_of registered_relay) =
      Some ((registered_worker, w'), Inr ())"
    "rw_pushed w' = map (phone_notice worker_crates (SessionId 7) AwaitingInputPush) demo_recipients"
    using session_event_reaches_phones [OF demo_crates_agree worker_host_good w demo_strings(1)
        push_event_parts.simps(1) [of "SessionId 7" "[]"] ts _ ready nonces] demo_encodable
    by (auto simp: worker_host_simps n PUSH_TOKEN_TTL_MS_def)
  then show ?thesis by (simp add: demo_recipients_def)
qed

lemma lost_registration_is_final_witness:
  "\<exists>w' r1 r2. worker_run worker_crates (relay_net server_crates worker_host) worker_cfg
      [FromApp (CmdRegisterToken Fcm demo_token), FromSession (PushAwaitingInput (SessionId 7) [])]
      registered_worker (world_of relay_default) = Some ((registered_worker, w'), [r1, r2]) \<and>
    registered_key (rw_relay w') demo_daemon = None \<and> rw_pushed w' = [] \<and>
    (\<exists>e. r1 = Inl e) \<and> (\<exists>e. r2 = Inl e)"
proof -
  let ?cs = "[FromApp (CmdRegisterToken Fcm demo_token), FromSession (PushAwaitingInput (SessionId 7) [])]"
  have st: "relay_wf relay_default" "\<not> rs_prune_stale_daemons relay_default"
    "registered_key relay_default demo_daemon = None"
    by (simp_all add: relay_default_def relay_wf_def tbl_ok_def registered_key_def tbl_get_def)
  have needs: "needs_relay worker_host c" if "c \<in> set ?cs" for c
    using that by (auto simp: needs_relay_def worker_host_simps demo_push_tokens demo_recipients_def)
  obtain w' rs where "worker_run worker_crates (relay_net server_crates worker_host) worker_cfg ?cs
      registered_worker (world_of relay_default) = Some ((registered_worker, w'), rs)"
    "registered_key (rw_relay w') demo_daemon = None" "rw_pushed w' = []"
    "list_all2 (\<lambda>c r. needs_relay worker_host c \<longrightarrow> (\<exists>e. r = Inl e)) ?cs rs"
    using lost_registration_is_final [OF demo_crates_agree worker_host_simps(3), of registered_worker
        demo_daemon "world_of relay_default" ?cs] st
    by (auto simp: registered_worker_def worker_host_simps)
  moreover from this(4) needs obtain r1 r2 where "rs = [r1, r2]" "\<exists>e. r1 = Inl e" "\<exists>e. r2 = Inl e"
    by (auto simp: list_all2_Cons1)
  ultimately show ?thesis by blast
qed

end
