(* ===== verification/Phone.thy ===== *)
theory Phone
  imports Framing Codes
begin

text \<open>
  The core of the phone apps (\<open>crates/mobile-core/src/lib.rs\<close>): its errors and the types it
  exports, the gate of a pairing attempt, and an attached terminal, which hands the bytes it
  reads to the app and remembers how far the output has come.
\<close>

section \<open>Types and errors\<close>

datatype mobile_platform = Ios | Android

fun client_kind_of :: "mobile_platform \<Rightarrow> client_kind" where
  "client_kind_of Ios = IosApp"
| "client_kind_of Android = AndroidApp"

datatype agent_state_ffi = IdleFfi | WorkingFfi | AwaitingInputFfi | CrashedFfi

fun agent_state_ffi_from :: "agent_state \<Rightarrow> agent_state_ffi" where
  "agent_state_ffi_from Idle = IdleFfi"
| "agent_state_ffi_from Working = WorkingFfi"
| "agent_state_ffi_from AwaitingInput = AwaitingInputFfi"
| "agent_state_ffi_from Crashed = CrashedFfi"

record session_summary_ffi =
  sf_id :: rstr
  sf_name :: rstr
  sf_command :: "rstr list"
  sf_cwd :: rstr
  sf_created_at :: nat
  sf_last_activity :: nat
  sf_state :: agent_state_ffi
  sf_last_line :: "rstr option"
  sf_model :: "rstr option"

definition session_summary_ffi_from :: "(nat \<Rightarrow> rstr) \<Rightarrow> session_summary \<Rightarrow> session_summary_ffi" where
  "session_summary_ffi_from id_text s = \<lparr>sf_id = id_text (session_uuid (ss_id s)), sf_name = ss_name s,
     sf_command = ss_command s, sf_cwd = ss_cwd s, sf_created_at = ss_created_at s,
     sf_last_activity = ss_last_activity s, sf_state = agent_state_ffi_from (ss_state s),
     sf_last_line = ss_last_line s, sf_model = ss_model s\<rparr>"

datatype shelly_error =
    InvalidConfig rstr
  | TransportFault rstr
  | ProtocolFault rstr
  | VersionFault rstr
  | UnauthorizedFault rstr
  | ForbiddenFault rstr
  | NotFoundFault rstr
  | InternalFault rstr

fun error_from_server :: "error_code \<Rightarrow> rstr \<Rightarrow> shelly_error" where
  "error_from_server VersionMismatch message = VersionFault message"
| "error_from_server InvalidRequest message = ProtocolFault message"
| "error_from_server Unauthorized message = UnauthorizedFault message"
| "error_from_server Forbidden message = ForbiddenFault message"
| "error_from_server NotFound message = NotFoundFault message"
| "error_from_server Internal message = InternalFault message"

text \<open>The errors of reading and writing a frame; those of the crates are their texts.\<close>

type_synonym frame_result = "(rstr, rstr messagepack_error) read_error + server_msg"

definition read_msg_from :: "frame_result \<Rightarrow> shelly_error + server_msg" where
  "read_msg_from r = (case r of
     Inr message \<Rightarrow> Inr message
   | Inl (ReadLength error) \<Rightarrow>
       Inl (TransportFault (lit ''failed to read daemon frame length: '' @ error))
   | Inl (ReadTooLarge len) \<Rightarrow> Inl (ProtocolFault (lit ''frame too large: '' @ dec len))
   | Inl (ReadPayload error) \<Rightarrow>
       Inl (TransportFault (lit ''failed to read daemon frame payload: '' @ error))
   | Inl (ReadDecode (MpDecode error)) \<Rightarrow>
       Inl (ProtocolFault (lit ''daemon frame payload is invalid: '' @ error))
   | Inl (ReadDecode (MpTrailingBytes len)) \<Rightarrow>
       Inl (ProtocolFault (lit ''daemon frame payload has '' @ dec len @ lit '' trailing byte(s)'')))"

definition write_msg_to :: "(rstr, rstr) write_error option \<Rightarrow> shelly_error + unit" where
  "write_msg_to r = (case r of
     None \<Rightarrow> Inr ()
   | Some (Encode error) \<Rightarrow> Inl (ProtocolFault (lit ''failed to encode daemon request: '' @ error))
   | Some (WTooLarge len) \<Rightarrow> Inl (ProtocolFault (lit ''frame too large: '' @ dec len))
   | Some (WriteLength error) \<Rightarrow>
       Inl (TransportFault (lit ''failed to write daemon frame length: '' @ error))
   | Some (WritePayload error) \<Rightarrow>
       Inl (TransportFault (lit ''failed to write daemon frame payload: '' @ error)))"

section \<open>The gate of a pairing attempt\<close>

record pending_gate =
  gt_local_confirmed :: bool
  gt_daemon_completed :: bool
  gt_cancelled :: bool
  gt_persisted :: bool

definition gate_default :: pending_gate where
  "gate_default = \<lparr>gt_local_confirmed = False, gt_daemon_completed = False, gt_cancelled = False,
     gt_persisted = False\<rparr>"

definition confirm_local :: "pending_gate \<Rightarrow> pending_gate \<times> (shelly_error + unit)" where
  "confirm_local g =
     (if gt_cancelled g then (g, Inl (InvalidConfig (lit ''pairing attempt was already cancelled'')))
      else if gt_persisted g then (g, Inl (InvalidConfig (lit ''pairing attempt was already completed'')))
      else (g\<lparr>gt_local_confirmed := True\<rparr>, Inr ()))"

definition record_daemon_completed :: "pending_gate \<Rightarrow> pending_gate \<times> (shelly_error + unit)" where
  "record_daemon_completed g =
     (if gt_cancelled g then (g, Inl (InvalidConfig (lit ''cancelled pairing attempt cannot complete'')))
      else (g\<lparr>gt_daemon_completed := True\<rparr>, Inr ()))"

definition ready_to_persist :: "pending_gate \<Rightarrow> bool" where
  "ready_to_persist g \<longleftrightarrow> gt_local_confirmed g \<and> gt_daemon_completed g \<and> \<not> gt_cancelled g"

definition mark_persisted :: "pending_gate \<Rightarrow> pending_gate \<times> (shelly_error + unit)" where
  "mark_persisted g =
     (if \<not> ready_to_persist g
      then (g, Inl (InternalFault (lit ''pairing cannot be persisted before both confirmations'')))
      else (g\<lparr>gt_persisted := True\<rparr>, Inr ()))"

definition gate_cancel :: "pending_gate \<Rightarrow> pending_gate \<times> (shelly_error + unit)" where
  "gate_cancel g =
     (if gt_persisted g
      then (g, Inl (InvalidConfig (lit ''completed pairing attempt cannot be cancelled'')))
      else (g\<lparr>gt_cancelled := True\<rparr>, Inr ()))"

section \<open>An attached terminal\<close>

text \<open>What the app is called back with.\<close>

datatype sink_call =
    OnInitialBytes bytes
  | OnOutput bytes
  | OnAgentState agent_state_ffi
  | OnLag nat
  | OnSessionExited int

datatype stream_decision = Continue | StopForResync | StopCompleted

definition dispatch_stream_message ::
    "server_msg \<Rightarrow> nat \<Rightarrow> sink_call list \<Rightarrow> nat \<times> sink_call list \<times> (shelly_error + stream_decision)" where
  "dispatch_stream_message message last_seen_seq sink = (case message of
     Output _ seq bytes \<Rightarrow> (seq, sink @ [OnOutput bytes], Inr Continue)
   | AgentStateChanged _ state _ \<Rightarrow>
       (last_seen_seq, sink @ [OnAgentState (agent_state_ffi_from state)], Inr Continue)
   | Lag _ skipped_bytes \<Rightarrow> (last_seen_seq, sink @ [OnLag skipped_bytes], Inr StopForResync)
   | SessionExited _ exit_code \<Rightarrow> (last_seen_seq, sink @ [OnSessionExited exit_code], Inr StopCompleted)
   | Error code message \<Rightarrow> (last_seen_seq, sink, Inl (error_from_server code message))
   | _ \<Rightarrow> (last_seen_seq, sink, Inr Continue))"

text \<open>
  An attachment.  \<open>at_send\<close> and \<open>at_recv\<close> tell whether it still has its streams: a failed write
  drops the one, a failed read the other.
\<close>

record attachment =
  at_session_id :: session_id
  at_send :: bool
  at_recv :: bool
  at_initial_bytes :: "bytes option"
  at_last_seen_seq :: nat

text \<open>
  The loop of \<open>subscribe\<close> over what its stream has yielded so far: it has returned with a
  result, or waits for the next frame.
\<close>

datatype subscription = Returned "shelly_error + unit" | Reading

fun subscribe_loop ::
    "frame_result list \<Rightarrow> attachment \<Rightarrow> sink_call list \<Rightarrow> attachment \<times> sink_call list \<times> subscription" where
  "subscribe_loop [] a sink = (a, sink, Reading)"
| "subscribe_loop (r # rs) a sink = (case read_msg_from r of
     Inl error \<Rightarrow> (a, sink, Returned (Inl error))
   | Inr message \<Rightarrow>
       (case dispatch_stream_message message (at_last_seen_seq a) sink of
          (seq, sink, decision) \<Rightarrow>
            let a = a\<lparr>at_last_seen_seq := seq\<rparr> in
            (case decision of
               Inr Continue \<Rightarrow> subscribe_loop rs a sink
             | Inr _ \<Rightarrow> (a\<lparr>at_recv := True\<rparr>, sink, Returned (Inr ()))
             | Inl error \<Rightarrow> (a\<lparr>at_recv := True\<rparr>, sink, Returned (Inl error)))))"

definition recv_in_use :: shelly_error where
  "recv_in_use = ProtocolFault (lit ''cannot subscribe to terminal output because the receive stream is already in use'')"

definition subscribe ::
    "frame_result list \<Rightarrow> attachment \<Rightarrow> sink_call list \<Rightarrow> attachment \<times> sink_call list \<times> subscription" where
  "subscribe rs a sink =
     (let sink = sink @ (case at_initial_bytes a of Some bytes \<Rightarrow> [OnInitialBytes bytes] | None \<Rightarrow> []);
        a = a\<lparr>at_initial_bytes := None\<rparr> in
      if \<not> at_recv a then (a, sink, Returned (Inl recv_in_use))
      else subscribe_loop rs (a\<lparr>at_recv := False\<rparr>) sink)"

text \<open>
  Writing a command: what the writer is given, and what its answer, an argument, makes of the
  attachment.
\<close>

definition write_to_send_stream ::
    "(rstr, rstr) write_error option \<Rightarrow> client_msg \<Rightarrow> attachment \<Rightarrow>
     client_msg list \<times> attachment \<times> (shelly_error + unit)" where
  "write_to_send_stream written message a =
     (if \<not> at_send a
      then ([], a, Inl (ProtocolFault (lit ''cannot send terminal command because the daemon stream is closed'')))
      else (case write_msg_to written of
          Inl error \<Rightarrow> ([message], a\<lparr>at_send := False\<rparr>, Inl error)
        | Inr _ \<Rightarrow> ([message], a, Inr ())))"

definition send_input ::
    "(rstr, rstr) write_error option \<Rightarrow> bytes \<Rightarrow> attachment \<Rightarrow>
     client_msg list \<times> attachment \<times> (shelly_error + unit)" where
  "send_input written bytes a = write_to_send_stream written (Input (at_session_id a) bytes) a"

definition send_resize ::
    "(rstr, rstr) write_error option \<Rightarrow> nat \<Rightarrow> nat \<Rightarrow> attachment \<Rightarrow>
     client_msg list \<times> attachment \<times> (shelly_error + unit)" where
  "send_resize written c r a =
     write_to_send_stream written (Resize (at_session_id a) \<lparr>cols = c, rows = r\<rparr>) a"

definition detach ::
    "(rstr, rstr) write_error option \<Rightarrow> attachment \<Rightarrow>
     client_msg list \<times> attachment \<times> (shelly_error + unit)" where
  "detach written a =
     (if \<not> at_send a
      then ([], a, Inl (ProtocolFault (lit ''cannot detach because the terminal send stream is closed'')))
      else (case write_msg_to written of
          Inl error \<Rightarrow> ([DetachSession], a\<lparr>at_send := False\<rparr>, Inl error)
        | Inr _ \<Rightarrow> ([DetachSession], a, Inr ())))"

text \<open>The end of \<open>attach_session_from\<close>: the daemon's reply makes the attachment.\<close>

definition unexpected_reply :: "(server_msg \<Rightarrow> rstr) \<Rightarrow> char list \<Rightarrow> server_msg \<Rightarrow> shelly_error" where
  "unexpected_reply debug context message = (case message of
     Error code text \<Rightarrow> error_from_server code text
   | _ \<Rightarrow> ProtocolFault (lit ''unexpected daemon response '' @ lit context @ lit '': '' @ debug message))"

definition attached_reply ::
    "(server_msg \<Rightarrow> rstr) \<Rightarrow> session_id \<Rightarrow> server_msg \<Rightarrow> shelly_error + attachment" where
  "attached_reply debug session_id message = (case message of
     Attached _ initial_bytes seq \<Rightarrow> Inr \<lparr>at_session_id = session_id, at_send = True, at_recv = True,
       at_initial_bytes = Some initial_bytes, at_last_seen_seq = seq\<rparr>
   | _ \<Rightarrow> Inl (unexpected_reply debug ''to AttachSession'' message))"

definition confirm_session_killed ::
    "(server_msg \<Rightarrow> rstr) \<Rightarrow> (nat \<Rightarrow> rstr) \<Rightarrow> server_msg \<Rightarrow> session_id \<Rightarrow> shelly_error + unit" where
  "confirm_session_killed debug id_text response requested_id = (case response of
     SessionKilled session_id \<Rightarrow>
       if session_id = requested_id then Inr ()
       else Inl (ProtocolFault (lit ''KillSession acknowledgement id mismatch: requested '' @
         id_text (session_uuid requested_id) @ lit '', got '' @ id_text (session_uuid session_id)))
   | _ \<Rightarrow> Inl (unexpected_reply debug ''to KillSession'' response))"

section \<open>Lemmas\<close>

lemmas gate_defs = confirm_local_def record_daemon_completed_def mark_persisted_def gate_cancel_def
  ready_to_persist_def

text \<open>The bytes an app was handed, and how a loop moves the position with them.\<close>

definition sink_bytes :: "sink_call list \<Rightarrow> bytes" where
  "sink_bytes sink = concat (map (\<lambda>c. case c of OnInitialBytes bs \<Rightarrow> bs | OnOutput bs \<Rightarrow> bs | _ \<Rightarrow> []) sink)"

lemma sink_bytes_simps [simp]:
  "sink_bytes [] = []" "sink_bytes (s @ t) = sink_bytes s @ sink_bytes t"
  "sink_bytes [OnInitialBytes bs] = bs" "sink_bytes [OnOutput bs] = bs"
  "sink_bytes [OnAgentState st] = []" "sink_bytes [OnLag n] = []" "sink_bytes [OnSessionExited c] = []"
  by (simp_all add: sink_bytes_def)

end
