(* ===== verification/Follow.thy ===== *)
theory Follow
  imports Delivery
begin

text \<open>
  A client that follows a session over attachments that may end at any frame, and attaches
  again with the position it has.  The locale \<open>follower\<close> is what a client must do with the
  frames of one attachment; the phone and the desktop client are its instances.
\<close>

section \<open>What is forwarded\<close>

text \<open>What is forwarded after the attach position is again numbered by positions.\<close>

lemma replayed_all_ok:
  "outputs_ok sid n ms \<Longrightarrow> n + length (outputs ms) \<le> p \<Longrightarrow>
    outputs_ok sid m (filter (\<lambda>m. \<not> output_was_replayed m p) ms)"
  by (induction sid n ms rule: outputs_ok.induct)
    (auto simp: output_was_replayed_def output_of_def)

lemma replayed_none_ok:
  "outputs_ok sid n ms \<Longrightarrow> p \<le> n \<Longrightarrow> outputs_ok sid n (filter (\<lambda>m. \<not> output_was_replayed m p) ms)"
proof (induction sid n ms rule: outputs_ok.induct)
  case (2 sid n i q bs ms)
  then show ?case by (cases bs) (auto simp: output_was_replayed_def)
qed (auto simp: output_was_replayed_def)

lemma live_ok:
  assumes ok: "delivery_ok d" and sub: "dl_subscribed d = Some n" and att: "dl_attached d = Some (p, r)"
  shows "outputs_ok (se_id (dl_session d)) p
    (filter (\<lambda>m. \<not> output_was_replayed m p) (drop n (se_events (dl_session d))))"
proof -
  let ?es = "se_events (dl_session d)" and ?i = "se_id (dl_session d)"
  obtain k where k: "n \<le> k" "k \<le> length ?es"
    and p: "p = length (outputs (take k ?es)) \<or> (k = length ?es \<and> p = length (captured d))"
    using ok sub att by (auto simp: delivery_ok_def)
  have le: "length (outputs (take k ?es)) \<le> p" using p by (auto simp: captured_def)
  define a b where "a = drop n (take k ?es)" and "b = drop k ?es"
  have ab: "drop n ?es = a @ b"
    using k unfolding a_def b_def by (metis append_take_drop_id drop_append diff_is_0_eq drop0
        length_take min.absorb2)
  have tk: "take k ?es = take n ?es @ a"
    unfolding a_def using k by (metis append_take_drop_id min.absorb2 take_take min.commute)
  have "outputs_ok ?i 0 (take k ?es @ b)" using ok by (simp add: delivery_ok_def b_def)
  then have oka: "outputs_ok ?i (length (outputs (take n ?es))) a"
    and okb: "outputs_ok ?i (length (outputs (take k ?es))) b"
    unfolding outputs_ok_append tk by simp_all
  have fa: "outputs (filter (\<lambda>m. \<not> output_was_replayed m p) a) = []"
    by (rule replayed_all [OF oka]) (use le tk in simp)
  have "outputs_ok ?i p (filter (\<lambda>m. \<not> output_was_replayed m p) a)"
    by (rule replayed_all_ok [OF oka]) (use le tk in simp)
  moreover have "outputs_ok ?i p (filter (\<lambda>m. \<not> output_was_replayed m p) b)"
    using p replayed_none_ok [OF okb, of p] by (auto simp: b_def)
  ultimately show ?thesis by (simp add: ab outputs_ok_append fa)
qed

section \<open>Connections\<close>

text \<open>
  One connection: what the daemon does before the attach (the subscription among it) and after
  it, whether the forwarder lagged, how many frames reached the client, and the error its
  reading ended with, if it did.
\<close>

record 'e connection_run =
  cx_before :: "delivery_event list"
  cx_after :: "delivery_event list"
  cx_lag :: "(nat \<times> nat) option"
  cx_frames :: nat
  cx_error :: "'e option"

definition detached :: "'m delivery \<Rightarrow> 'm delivery" where
  "detached d = d\<lparr>dl_subscribed := None, dl_attached := None\<rparr>"

definition before_attach ::
    "'m parser \<Rightarrow> (rstr \<Rightarrow> codex_event option) \<Rightarrow> 'e connection_run \<Rightarrow> 'm delivery \<Rightarrow> 'm delivery" where
  "before_attach tm from_str cx d = delivery_run tm from_str (detached d) (cx_before cx)"

definition after_attach ::
    "'m parser \<Rightarrow> (rstr \<Rightarrow> codex_event option) \<Rightarrow> 'e connection_run \<Rightarrow> nat option \<Rightarrow> 'm delivery \<Rightarrow> 'm delivery" where
  "after_attach tm from_str cx last_seen_seq d =
     delivery_run tm from_str (delivery_step tm from_str (before_attach tm from_str cx d)
       (AttachBytes last_seen_seq)) (cx_after cx)"

text \<open>What the daemon writes: the reply, then what the forwarder takes off the broadcast.\<close>

definition daemon_messages :: "'e connection_run \<Rightarrow> 'm delivery \<Rightarrow> server_msg list" where
  "daemon_messages cx d = (case dl_attached d of
     None \<Rightarrow> []
   | Some (seq, bytes) \<Rightarrow> Attached (se_id (dl_session d)) bytes seq #
       forward_events (se_id (dl_session d)) seq (case cx_lag cx of
           None \<Rightarrow> received d
         | Some (m, skipped) \<Rightarrow> take m (received d) @ [RecvLagged skipped]))"

definition frames_read :: "'e connection_run \<Rightarrow> 'm delivery \<Rightarrow> ('e + server_msg) list" where
  "frames_read cx d = map Inr (take (cx_frames cx) (daemon_messages cx d)) @
     (case cx_error cx of None \<Rightarrow> [] | Some e \<Rightarrow> [Inl e])"


text \<open>
  A client of type \<open>'c\<close> has a position, none before its first attachment; \<open>reads\<close> is what it
  does with the frames of an attachment and the choices \<open>'x\<close> of its side.
\<close>

fun follow ::
    "'m parser \<Rightarrow> (rstr \<Rightarrow> codex_event option) \<Rightarrow> ('c \<Rightarrow> nat option) \<Rightarrow>
     (session_id \<Rightarrow> 'x \<Rightarrow> ('e + server_msg) list \<Rightarrow> 'c \<Rightarrow> 'c) \<Rightarrow> ('e connection_run \<times> 'x) list \<Rightarrow>
     'm delivery \<Rightarrow> 'c \<Rightarrow> 'm delivery \<times> 'c" where
  "follow tm from_str position reads [] d c = (d, c)"
| "follow tm from_str position reads ((cx, x) # cxs) d c =
     (let d' = after_attach tm from_str cx (position c) d in
      follow tm from_str position reads cxs d' (reads (se_id (dl_session d')) x (frames_read cx d') c))"

text \<open>
  The daemon subscribes before it attaches and attaches once in a connection, and the ring
  still has the client's position then.
\<close>

definition in_window_at ::
    "'m parser \<Rightarrow> (rstr \<Rightarrow> codex_event option) \<Rightarrow> 'e connection_run \<Rightarrow> 'm delivery \<Rightarrow> nat option \<Rightarrow> bool" where
  "in_window_at tm from_str cx d position \<longleftrightarrow> (let d1 = before_attach tm from_str cx d in
     dl_subscribed d1 \<noteq> None \<and> dl_attached d1 = None \<and>
     (case position of None \<Rightarrow> True | Some pos \<Rightarrow> length (captured d1) - RING_CAPACITY \<le> pos))"

fun in_window ::
    "'m parser \<Rightarrow> (rstr \<Rightarrow> codex_event option) \<Rightarrow> ('c \<Rightarrow> nat option) \<Rightarrow>
     (session_id \<Rightarrow> 'x \<Rightarrow> ('e + server_msg) list \<Rightarrow> 'c \<Rightarrow> 'c) \<Rightarrow> ('e connection_run \<times> 'x) list \<Rightarrow>
     'm delivery \<Rightarrow> 'c \<Rightarrow> bool" where
  "in_window tm from_str position reads [] d c \<longleftrightarrow> True"
| "in_window tm from_str position reads ((cx, x) # cxs) d c \<longleftrightarrow>
     in_window_at tm from_str cx d (position c) \<and>
     (let d' = after_attach tm from_str cx (position c) d in
      in_window tm from_str position reads cxs d' (reads (se_id (dl_session d')) x (frames_read cx d') c))"

section \<open>One attachment\<close>

lemma detached_same [simp]:
  "captured (detached d) = captured d" "dl_session (detached d) = dl_session d"
  "dl_inflight (detached d) = dl_inflight d" "dl_attached (detached d) = None"
  "dl_subscribed (detached d) = None"
  by (simp_all add: detached_def captured_def)

lemma detached_inv: "delivery_inv d \<Longrightarrow> delivery_inv (detached d)"
  by (auto simp: delivery_inv_def delivery_ok_def split: option.splits)

lemma before_attach_grows: "\<exists>x. captured (before_attach tm from_str cx d) = captured d @ x"
  using captured_run [of tm from_str "detached d" "cx_before cx"] by (auto simp: before_attach_def)

lemma after_attach_more:
  "\<exists>x. captured (after_attach tm from_str cx pos d) = captured (before_attach tm from_str cx d) @ x"
  using captured_step [of tm from_str "before_attach tm from_str cx d" "AttachBytes pos"]
    captured_run [of tm from_str "delivery_step tm from_str (before_attach tm from_str cx d)
      (AttachBytes pos)" "cx_after cx"] by (auto simp: after_attach_def)

lemma after_attach_grows: "\<exists>x. captured (after_attach tm from_str cx pos d) = captured d @ x"
  using before_attach_grows [of tm from_str cx d] after_attach_more [of tm from_str cx pos d] by auto

text \<open>The reply: the position of the attachment, and for a client with a position what it misses.\<close>

lemma attach_answer:
  assumes inv: "delivery_inv d1" and cap: "capacity (se_ring (dl_session d1)) = RING_CAPACITY"
    and sub: "dl_subscribed d1 = Some n" and none: "dl_attached d1 = None"
    and win: "\<And>p. pos = Some p \<Longrightarrow> length (captured d1) - RING_CAPACITY \<le> p \<and> p \<le> length (captured d1)"
    and small: "length (captured d1) \<le> u64_max"
    and d2: "d2 = delivery_run tm from_str (delivery_step tm from_str d1 (AttachBytes pos)) evs"
  shows "\<exists>bs. dl_attached d2 = Some (length (captured d1), bs) \<and> dl_subscribed d2 = Some n \<and>
    (\<forall>p. pos = Some p \<longrightarrow> bs = drop p (captured d1))"
proof -
  have m: "ring_models (se_ring (dl_session d1)) (captured d1)"
    using inv small by (simp add: delivery_inv_def delivery_ok_def)
  obtain bs where bs: "fst (attach_bytes tm pos (dl_session d1)) = (length (captured d1), bs)"
    using attach_bytes_result(2) [OF m, of tm pos] by (metis prod.collapse)
  have "bs = drop p (captured d1)" if "pos = Some p" for p
    using attach_bytes_result(1) [OF m, of pos tm] win [OF that] cap bs that by simp
  moreover have "dl_attached d2 = Some (length (captured d1), bs) \<and> dl_subscribed d2 = Some n"
    unfolding d2 by (intro attached_run) (use bs in \<open>simp_all add: delivery_step_def sub none split_beta\<close>)
  ultimately show ?thesis by blast
qed

text \<open>What follows the reply is numbered on from it and is the output after it.\<close>

lemma forwarded_tail:
  assumes ok: "delivery_ok d" and sub: "dl_subscribed d = Some n" and att: "dl_attached d = Some (p, bs)"
  shows "\<exists>tail. daemon_messages cx d = Attached (se_id (dl_session d)) bs p # tail \<and>
    outputs_ok (se_id (dl_session d)) p tail \<and> prefix (outputs tail) (drop p (captured d))"
proof -
  let ?i = "se_id (dl_session d)" and ?es = "drop n (se_events (dl_session d))"
  let ?f = "filter (\<lambda>m. \<not> output_was_replayed m p)"
  define tail where "tail = forward_events ?i p (case cx_lag cx of None \<Rightarrow> received d
       | Some (m, skipped) \<Rightarrow> take m (received d) @ [RecvLagged skipped])"
  have "\<exists>m t. tail = ?f (take m ?es) @ t \<and> outputs t = [] \<and> (\<forall>n. outputs_ok ?i n t)"
  proof (cases "cx_lag cx")
    case None
    then show ?thesis unfolding tail_def
      by (intro exI [of _ "length ?es"] exI [of _ "[]"]) (simp add: received_def sub forward_ok_filter)
  next
    case (Some l)
    then show ?thesis unfolding tail_def
      by (intro exI [of _ "fst l"] exI [of _ "[Lag ?i (snd l)]"])
        (simp add: received_def sub take_map forward_append recv_attached_event_def output_of_def split_beta)
  qed
  then obtain m t where t: "tail = ?f (take m ?es) @ t" "outputs t = []" "\<And>n. outputs_ok ?i n t"
    by blast
  have "outputs_ok ?i p (?f (take m ?es) @ ?f (drop m ?es))"
    using live_ok [OF ok sub att] by (metis append_take_drop_id filter_append)
  then have "outputs_ok ?i p tail" using t by (simp add: outputs_ok_append)
  moreover have "prefix (outputs tail) (drop p (captured d))"
  proof -
    have "outputs (?f ?es) = drop p (outputs (se_events (dl_session d)))"
      by (rule live_part [OF ok sub att])
    moreover have "outputs (?f ?es) = outputs (?f (take m ?es)) @ outputs (?f (drop m ?es))"
      by (metis append_take_drop_id filter_append outputs_append)
    ultimately have "prefix (outputs tail) (drop p (outputs (se_events (dl_session d))))"
      using t(1,2) by (metis append_Nil2 outputs_append prefixI)
    moreover have "prefix (drop p (outputs (se_events (dl_session d)))) (drop p (captured d))"
      by (simp add: captured_def)
    ultimately show ?thesis by (rule prefix_order.trans)
  qed
  moreover have "daemon_messages cx d = Attached ?i bs p # tail"
    using att by (simp add: daemon_messages_def tail_def)
  ultimately show ?thesis by blast
qed

section \<open>Clients\<close>

text \<open>
  \<open>got\<close> are the bytes a client has been given since its first position, \<open>sane\<close> is its invariant,
  \<open>fair\<close> excludes choices the contract does not cover, and a client that \<open>listens\<close> takes the
  reply.
\<close>

definition errors_only :: "('e + 'a) list \<Rightarrow> bool" where
  "errors_only fs \<longleftrightarrow> (\<forall>f \<in> set fs. \<exists>e. f = Inl e)"

locale follower =
  fixes position :: "'c \<Rightarrow> nat option"
    and got :: "'c \<Rightarrow> bytes"
    and reads :: "session_id \<Rightarrow> 'x \<Rightarrow> ('e + server_msg) list \<Rightarrow> 'c \<Rightarrow> 'c"
    and sane :: "'c \<Rightarrow> bool"
    and fair :: "'x \<Rightarrow> bool"
    and listens :: "session_id \<Rightarrow> 'x \<Rightarrow> 'c \<Rightarrow> bool"
  assumes kept: "sane c \<Longrightarrow> sane (reads sid x fs c)"
    and silent: "sane c \<Longrightarrow> errors_only fs \<Longrightarrow>
      position (reads sid x fs c) = position c \<and> got (reads sid x fs c) = got c"
    and served: "sane c \<Longrightarrow> fair x \<Longrightarrow> errors_only fs \<Longrightarrow> outputs_ok sid p ms \<Longrightarrow>
      c' = reads sid x (Inr (Attached sid bs p) # map Inr ms @ fs) c \<Longrightarrow>
      (\<not> listens sid x c \<and> position c' = position c \<and> got c' = got c) \<or>
      (\<exists>k. position c' = Some (p + length (outputs (take k ms))) \<and>
         got c' = got c @ (if position c = None then [] else bs) @ outputs (take k ms))"
begin

lemma one_attachment:
  assumes ok: "delivery_ok d" and sub: "dl_subscribed d = Some n" and att: "dl_attached d = Some (p, bs)"
    and sane: "sane c" and x: "fair x" and c': "c' = reads (se_id (dl_session d)) x (frames_read cx d) c"
  shows "((cx_frames cx = 0 \<or> \<not> listens (se_id (dl_session d)) x c) \<and>
      position c' = position c \<and> got c' = got c) \<or>
    (\<exists>k. k \<le> length (captured d) - p \<and> position c' = Some (p + k) \<and>
       got c' = got c @ (if position c = None then [] else bs) @ take k (drop p (captured d)))"
proof -
  let ?i = "se_id (dl_session d)"
  let ?errs = "case cx_error cx of None \<Rightarrow> [] | Some e \<Rightarrow> [Inl e]"
  have errs: "errors_only ?errs" by (auto simp: errors_only_def split: option.splits)
  obtain tail where tail: "daemon_messages cx d = Attached ?i bs p # tail" "outputs_ok ?i p tail"
    and out: "prefix (outputs tail) (drop p (captured d))" using forwarded_tail [OF ok sub att] by blast
  show ?thesis
  proof (cases "cx_frames cx")
    case 0
    then show ?thesis using silent [OF sane errs] by (simp add: c' frames_read_def)
  next
    case (Suc m)
    have c'': "c' = reads ?i x (Inr (Attached ?i bs p) # map Inr (take m tail) @ ?errs) c"
      using tail Suc by (simp add: c' frames_read_def)
    have "outputs_ok ?i p (take m tail)"
      using tail(2) by (metis append_take_drop_id outputs_ok_append)
    from served [OF sane x errs this c''] consider
        "\<not> listens ?i x c" "position c' = position c" "got c' = got c"
      | k where "position c' = Some (p + length (outputs (take k (take m tail))))"
          "got c' = got c @ (if position c = None then [] else bs) @ outputs (take k (take m tail))"
      by blast
    then show ?thesis
    proof cases
      case 2
      have "prefix (outputs (take k (take m tail))) (outputs tail)"
        by (metis append_take_drop_id outputs_append prefixI take_take)
      then have "prefix (outputs (take k (take m tail))) (drop p (captured d))"
        using out prefix_order.trans by blast
      then obtain y where "drop p (captured d) = outputs (take k (take m tail)) @ y"
        by (auto simp: prefix_def)
      then show ?thesis
        using 2 by (intro disjI2 exI [of _ "length (outputs (take k (take m tail)))"])
          (simp add: length_drop [symmetric] del: length_drop)
    qed blast
  qed
qed

text \<open>
  A client that has the first \<open>p0\<close> bytes and what it was given since has the output up to its
  position.
\<close>

definition has_prefix :: "nat \<Rightarrow> 'c \<Rightarrow> 'm delivery \<Rightarrow> bool" where
  "has_prefix p0 c d \<longleftrightarrow> (case position c of
     None \<Rightarrow> got c = []
   | Some pos \<Rightarrow> p0 \<le> pos \<and> pos \<le> length (captured d) \<and> take p0 (captured d) @ got c = take pos (captured d))"

text \<open>The base is the position a client starts with, or that of its first reply.\<close>

definition same_base :: "nat \<Rightarrow> 'c \<Rightarrow> nat \<Rightarrow> bool" where
  "same_base p0 c p1 \<longleftrightarrow> position c \<noteq> None \<longrightarrow> p1 = p0"

lemma one_connection:
  assumes inv: "delivery_inv d" and cap: "capacity (se_ring (dl_session d)) = RING_CAPACITY"
    and has: "has_prefix p0 c d" and win: "in_window_at tm from_str cx d (position c)"
    and d': "d' = after_attach tm from_str cx (position c) d" and small: "length (captured d') \<le> u64_max"
    and sane: "sane c" and x: "fair x" and c': "c' = reads (se_id (dl_session d')) x (frames_read cx d') c"
  shows "\<exists>p1. same_base p0 c p1 \<and> has_prefix p1 c' d' \<and>
    (\<forall>pos. position c = Some pos \<longrightarrow> (\<exists>pos'. position c' = Some pos' \<and> pos \<le> pos')) \<and>
    (0 < cx_frames cx \<and> listens (se_id (dl_session d')) x c \<longrightarrow>
      (\<exists>pos'. position c' = Some pos' \<and> length (captured (before_attach tm from_str cx d)) \<le> pos'))"
proof -
  define d1 where "d1 = before_attach tm from_str cx d"
  obtain y where y: "captured d1 = captured d @ y"
    using before_attach_grows [of tm from_str cx d] by (auto simp: d1_def)
  obtain z where z: "captured d' = captured d1 @ z"
    using after_attach_more [of tm from_str cx "position c" d] by (auto simp: d' d1_def)
  have inv1: "delivery_inv d1"
    unfolding d1_def before_attach_def by (intro delivery.run_inv detached_inv inv)
  have "delivery_inv d'"
    unfolding d' after_attach_def d1_def [symmetric] by (intro delivery.run_inv delivery.step_inv inv1)
  then have ok: "delivery_ok d'" using small by (simp add: delivery_inv_def)
  have cap1: "capacity (se_ring (dl_session d1)) = RING_CAPACITY"
    by (simp add: d1_def before_attach_def delivery_run_capacity cap)
  obtain n where n: "dl_subscribed d1 = Some n" and none: "dl_attached d1 = None"
    using win by (auto simp: in_window_at_def d1_def Let_def)
  have w: "length (captured d1) - RING_CAPACITY \<le> p \<and> p \<le> length (captured d1)" if "position c = Some p" for p
    using win has that y by (auto simp: in_window_at_def d1_def Let_def has_prefix_def)
  have sm: "length (captured d1) \<le> u64_max" using small z by simp
  obtain bs where att: "dl_attached d' = Some (length (captured d1), bs)" "dl_subscribed d' = Some n"
    and bs: "\<And>p. position c = Some p \<Longrightarrow> bs = drop p (captured d1)"
    using attach_answer [OF inv1 cap1 n none w sm, of "position c" d' tm from_str "cx_after cx"]
    by (auto simp: d' after_attach_def d1_def)
  from one_attachment [OF ok att(2,1) sane x c'] consider
      "cx_frames cx = 0 \<or> \<not> listens (se_id (dl_session d')) x c" "position c' = position c" "got c' = got c"
    | k where "k \<le> length z" "position c' = Some (length (captured d1) + k)"
        "got c' = got c @ (if position c = None then [] else bs) @ take k z"
    by (auto simp: z)
  then show ?thesis
  proof cases
    case 1
    then show ?thesis
      using has y z by (intro exI [of _ p0]) (auto simp: has_prefix_def same_base_def split: option.splits)
  next
    case 2
    show ?thesis
    proof (cases "position c")
      case None
      then show ?thesis
        using 2 has z by (intro exI [of _ "length (captured d1)"]) (simp add: has_prefix_def same_base_def d1_def)
    next
      case (Some pos)
      have pos: "pos \<le> length (captured d)" "p0 \<le> pos" "take p0 (captured d) @ got c = take pos (captured d)"
        using has Some by (simp_all add: has_prefix_def)
      then have "take p0 (captured d') @ got c = take pos (captured d')" by (simp add: y z)
      then have "take p0 (captured d') @ got c' = take pos (captured d1) @ drop pos (captured d1) @ take k z"
        using 2(3) Some bs pos y by (simp add: z flip: append_assoc)
      also have "\<dots> = take (length (captured d1) + k) (captured d')" by (simp add: z flip: append_assoc)
      finally show ?thesis
        using 2 Some pos y by (intro exI [of _ p0]) (simp add: has_prefix_def same_base_def z d1_def)
    qed
  qed
qed

lemma follow_grows: "follow tm from_str position reads cxs d c = (d', c') \<Longrightarrow> \<exists>x. captured d' = captured d @ x"
proof (induction cxs arbitrary: d c)
  case (Cons a cxs)
  obtain cx x where a: "a = (cx, x)" by fastforce
  define d1 where "d1 = after_attach tm from_str cx (position c) d"
  obtain y where "captured d' = captured d1 @ y"
    using Cons.IH Cons.prems by (auto simp: a Let_def d1_def)
  then show ?case using after_attach_grows [of tm from_str cx "position c" d] by (auto simp: d1_def)
qed simp

lemma follows:
  assumes "delivery_inv d" and "capacity (se_ring (dl_session d)) = RING_CAPACITY"
    and "has_prefix p0 c d" and "in_window tm from_str position reads cxs d c"
    and "follow tm from_str position reads cxs d c = (d', c')" and "length (captured d') \<le> u64_max"
    and "sane c" and "\<forall>(cx, x) \<in> set cxs. fair x"
  shows "\<exists>p1. same_base p0 c p1 \<and> has_prefix p1 c' d' \<and>
    (\<forall>pos. position c = Some pos \<longrightarrow> (\<exists>pos'. position c' = Some pos' \<and> pos \<le> pos')) \<and>
    (\<forall>as cx x bs d1 c1. cxs = as @ (cx, x) # bs \<and> 0 < cx_frames cx \<and>
       follow tm from_str position reads as d c = (d1, c1) \<and> listens (se_id (dl_session (after_attach tm from_str cx (position c1) d1))) x c1 \<longrightarrow>
       (\<exists>pos'. position c' = Some pos' \<and> length (captured (before_attach tm from_str cx d1)) \<le> pos'))"
  using assms
proof (induction cxs arbitrary: d c p0)
  case Nil
  then show ?case by (auto simp: same_base_def)
next
  case (Cons a cxs)
  obtain cx x where a: "a = (cx, x)" by fastforce
  define d1 where "d1 = after_attach tm from_str cx (position c) d"
  define c1 where "c1 = reads (se_id (dl_session d1)) x (frames_read cx d1) c"
  have f: "follow tm from_str position reads cxs d1 c1 = (d', c')"
    and win: "in_window_at tm from_str cx d (position c)" "in_window tm from_str position reads cxs d1 c1"
    using Cons.prems(4,5) by (simp_all add: a Let_def d1_def c1_def)
  obtain y where y: "captured d' = captured d1 @ y" using follow_grows [OF f] by blast
  have sm: "length (captured d1) \<le> u64_max" using Cons.prems(6) y by simp
  have x: "fair x" and all: "\<forall>(cx, x) \<in> set cxs. fair x" using Cons.prems(8) by (simp_all add: a)
  obtain p1 where 1: "same_base p0 c p1" "has_prefix p1 c1 d1"
    "\<And>pos. position c = Some pos \<Longrightarrow> \<exists>pos'. position c1 = Some pos' \<and> pos \<le> pos'"
    "0 < cx_frames cx \<and> listens (se_id (dl_session d1)) x c \<Longrightarrow>
      \<exists>pos'. position c1 = Some pos' \<and> length (captured (before_attach tm from_str cx d)) \<le> pos'"
    using one_connection [OF Cons.prems(1-3) win(1) d1_def sm Cons.prems(7) x c1_def] by blast
  have sane: "sane c1" unfolding c1_def by (rule kept [OF Cons.prems(7)])
  have inv: "delivery_inv d1" "capacity (se_ring (dl_session d1)) = RING_CAPACITY"
    using Cons.prems(1,2) unfolding d1_def after_attach_def before_attach_def
    by (auto intro!: delivery.run_inv delivery.step_inv detached_inv
        simp: delivery_run_capacity delivery_step_capacity)
  obtain p2 where 2: "same_base p1 c1 p2" "has_prefix p2 c' d'"
    "\<And>pos. position c1 = Some pos \<Longrightarrow> \<exists>pos'. position c' = Some pos' \<and> pos \<le> pos'"
    "\<And>as cx x bs d2 c2. cxs = as @ (cx, x) # bs \<Longrightarrow> 0 < cx_frames cx \<Longrightarrow>
       follow tm from_str position reads as d1 c1 = (d2, c2) \<Longrightarrow>
       listens (se_id (dl_session (after_attach tm from_str cx (position c2) d2))) x c2 \<Longrightarrow>
       \<exists>pos'. position c' = Some pos' \<and> length (captured (before_attach tm from_str cx d2)) \<le> pos'"
    using Cons.IH [OF inv 1(2) win(2) f Cons.prems(6) sane all] by blast
  have "\<exists>pos'. position c' = Some pos' \<and> length (captured (before_attach tm from_str cy d2)) \<le> pos'"
    if "a # cxs = as @ (cy, z) # bs" "0 < cx_frames cy" "follow tm from_str position reads as d c = (d2, c2)"
      "listens (se_id (dl_session (after_attach tm from_str cy (position c2) d2))) z c2" for as cy z bs d2 c2
  proof (cases as)
    case Nil
    then have "\<exists>pos'. position c1 = Some pos' \<and> length (captured (before_attach tm from_str cx d)) \<le> pos'"
      using that 1(4) by (simp add: a d1_def)
    then show ?thesis using 2(3) that Nil by (fastforce simp: a)
  next
    case (Cons b as')
    then have "cxs = as' @ (cy, z) # bs" "follow tm from_str position reads as' d1 c1 = (d2, c2)"
      using that(1,3) by (auto simp: a Let_def d1_def c1_def)
    from 2(4) [OF this(1) that(2) this(2) that(4)] show ?thesis .
  qed
  moreover have "same_base p0 c p2"
    using 1(1,3) 2(1) by (fastforce simp: same_base_def)
  moreover have "\<exists>pos'. position c' = Some pos' \<and> pos \<le> pos'" if "position c = Some pos" for pos
    using 1(3) [OF that] 2(3) by (metis order.trans)
  ultimately show ?case using 2(2) by blast
qed

end

end
