(* ===== verification/PhoneFollow.thy ===== *)
theory PhoneFollow
  imports Phone Follow
begin

text \<open>
  A phone that follows a session over connections that may be cut at any frame: the phone's
  \<open>subscribe\<close> on what the daemon forwards, reattaching each time with the position it has.
\<close>

section \<open>The position and the bytes\<close>

lemma loop_position:
  assumes "outputs_ok sid (at_last_seen_seq a) ms" and "\<forall>e \<in> set errs. \<exists>x. e = Inl x"
    and "subscribe_loop (map Inr ms @ errs) a sink = (a', sink', r)"
  shows "\<exists>k. sink_bytes sink' = sink_bytes sink @ outputs (take k ms) \<and>
    at_last_seen_seq a' = at_last_seen_seq a + length (outputs (take k ms))"
  using assms
proof (induction ms arbitrary: a sink)
  case Nil
  then show ?case
    by (cases errs) (auto simp: read_msg_from_def split: read_error.splits messagepack_error.splits)
next
  case (Cons m ms)
  show ?case
  proof (cases "\<exists>i q bs. m = Output i q bs")
    case True
    then obtain i bs where m: "m = Output i (at_last_seen_seq a + length bs) bs"
      and ok: "outputs_ok sid (at_last_seen_seq a + length bs) ms" using Cons.prems(1) by auto
    obtain k where "sink_bytes sink' = sink_bytes (sink @ [OnOutput bs]) @ outputs (take k ms)"
      "at_last_seen_seq a' = at_last_seen_seq a + length bs + length (outputs (take k ms))"
      using Cons.IH [of "a\<lparr>at_last_seen_seq := at_last_seen_seq a + length bs\<rparr>" "sink @ [OnOutput bs]"]
        ok Cons.prems(2,3) by (auto simp: m read_msg_from_def dispatch_stream_message_def Let_def)
    then show ?thesis by (intro exI [of _ "Suc k"]) (simp add: m output_of_def)
  next
    case False
    then have ok: "outputs_ok sid (at_last_seen_seq a) ms" and no: "output_of m = []"
      using Cons.prems(1) by (cases m; simp add: output_of_def)+
    consider sink1 where "subscribe_loop (map Inr ms @ errs) a sink1 = (a', sink', r)"
        "sink_bytes sink1 = sink_bytes sink"
      | "at_last_seen_seq a' = at_last_seen_seq a" "sink_bytes sink' = sink_bytes sink"
      using Cons.prems(3) False
      by (cases m) (auto simp: read_msg_from_def dispatch_stream_message_def Let_def)
    then show ?thesis
    proof cases
      case 1
      obtain k where "sink_bytes sink' = sink_bytes sink1 @ outputs (take k ms)"
        "at_last_seen_seq a' = at_last_seen_seq a + length (outputs (take k ms))"
        using Cons.IH [OF ok Cons.prems(2) 1(1)] by blast
      then show ?thesis by (intro exI [of _ "Suc k"]) (simp add: no 1(2))
    next
      case 2
      then show ?thesis by (intro exI [of _ 0]) simp
    qed
  qed
qed

text \<open>The phone: \<open>attach_session_from\<close> with its position, then \<open>subscribe\<close>.\<close>

definition phone_reads :: "session_id \<Rightarrow> frame_result list \<Rightarrow> nat \<Rightarrow> nat \<times> sink_call list" where
  "phone_reads session_id frames last_seen_seq = (case frames of
     [] \<Rightarrow> (last_seen_seq, [])
   | r # rs \<Rightarrow> (case read_msg_from r of
       Inl _ \<Rightarrow> (last_seen_seq, [])
     | Inr reply \<Rightarrow> (case attached_reply (\<lambda>_. []) session_id reply of
         Inl _ \<Rightarrow> (last_seen_seq, [])
       | Inr a \<Rightarrow> (case subscribe rs a [] of (a', sink, _) \<Rightarrow> (at_last_seen_seq a', sink)))))"

text \<open>As a client of \<open>Follow\<close>: its position and the calls it has had.\<close>

definition phone_position :: "nat \<times> sink_call list \<Rightarrow> nat option" where
  "phone_position c = Some (fst c)"

definition phone_step ::
    "session_id \<Rightarrow> unit \<Rightarrow> frame_result list \<Rightarrow> nat \<times> sink_call list \<Rightarrow> nat \<times> sink_call list" where
  "phone_step session_id _ frames c = (case phone_reads session_id frames (fst c) of
     (seq, calls) \<Rightarrow> (seq, snd c @ calls))"

lemma phone_served:
  assumes errs: "errors_only errs" and ok: "outputs_ok sid p ms"
    and c': "c' = phone_step sid x (Inr (Attached sid bs p) # map Inr ms @ errs) c"
  shows "\<exists>k. phone_position c' = Some (p + length (outputs (take k ms))) \<and>
    sink_bytes (snd c') = sink_bytes (snd c) @ bs @ outputs (take k ms)"
proof -
  let ?a = "\<lparr>at_session_id = sid, at_send = True, at_recv = False, at_initial_bytes = None,
    at_last_seen_seq = p\<rparr>"
  obtain a' calls r where loop: "subscribe_loop (map Inr ms @ errs) ?a [OnInitialBytes bs] = (a', calls, r)"
    by (metis prod_cases3)
  then have c'': "c' = (at_last_seen_seq a', snd c @ calls)"
    unfolding c' by (simp add: phone_step_def phone_reads_def read_msg_from_def attached_reply_def
        subscribe_def Let_def)
  have "outputs_ok sid (at_last_seen_seq ?a) ms" using ok by simp
  from loop_position [OF this errs [unfolded errors_only_def] loop] show ?thesis
    by (auto simp: c'' phone_position_def)
qed

lemma phone_silent:
  "errors_only fs \<Longrightarrow> phone_position (phone_step sid x fs c) = phone_position c \<and>
    sink_bytes (snd (phone_step sid x fs c)) = sink_bytes (snd c)"
  by (cases fs) (auto simp: phone_step_def phone_reads_def phone_position_def read_msg_from_def errors_only_def
      split: read_error.splits messagepack_error.splits)

interpretation phone: follower phone_position "\<lambda>c. sink_bytes (snd c)" phone_step "\<lambda>_. True" "\<lambda>_. True" "\<lambda>_ _ _. True"
proof (unfold_locales, goal_cases)
  case (3 c x fs sid p ms c' bs)
  from phone_served [OF this(3-5)] show ?case by (auto simp: phone_position_def)
qed (simp_all add: phone_silent)

type_synonym phone_link = "(rstr, rstr messagepack_error) read_error connection_run"

abbreviation phone_follow ::
    "'m parser \<Rightarrow> (rstr \<Rightarrow> codex_event option) \<Rightarrow>
     phone_link list \<Rightarrow> 'm delivery \<Rightarrow> nat \<times> sink_call list \<Rightarrow>
     'm delivery \<times> nat \<times> sink_call list" where
  "phone_follow tm from_str cxs \<equiv> follow tm from_str phone_position phone_step (map (\<lambda>cx. (cx, ())) cxs)"


text \<open>
  A phone with no byte yet: its first connection is cut after the reply, and the second lags
  after one message.
\<close>

definition demo_link1 :: phone_link where
  "demo_link1 = \<lparr>cx_before = [Capture [1, 2], Subscribe], cx_after = [Publish, Capture [3]],
     cx_lag = None, cx_frames = 1, cx_error = Some (ReadLength [])\<rparr>"

definition demo_link2 :: phone_link where
  "demo_link2 = \<lparr>cx_before = [Subscribe], cx_after = [Publish, Capture [4], Publish, Capture [5], Publish],
     cx_lag = Some (2, 1), cx_frames = 9, cx_error = None\<rparr>"

definition demo_after1 :: "unit delivery" where
  "demo_after1 = after_attach demo_parser (\<lambda>_. None) demo_link1 (Some 0) (delivery_start demo_spawn)"

definition demo_after2 :: "unit delivery" where
  "demo_after2 = after_attach demo_parser (\<lambda>_. None) demo_link2 (Some 2) demo_after1"

lemmas link_eval = after_attach_def before_attach_def detached_def delivery_eval

lemma demo_before1: "dl_subscribed (before_attach demo_parser (\<lambda>_. None) demo_link1 (delivery_start demo_spawn)) \<noteq> None"
  "dl_attached (before_attach demo_parser (\<lambda>_. None) demo_link1 (delivery_start demo_spawn)) = None"
  "length (captured (before_attach demo_parser (\<lambda>_. None) demo_link1 (delivery_start demo_spawn))) = 2"
  by (simp_all add: demo_link1_def link_eval)

lemma demo_after1_facts: "dl_attached demo_after1 = Some (2, [1, 2])"
  "captured demo_after1 = [1, 2, 3]" "se_id (dl_session demo_after1) = SessionId 1"
  by (simp_all add: demo_after1_def demo_link1_def link_eval)

lemma demo_before2: "dl_subscribed (before_attach demo_parser (\<lambda>_. None) demo_link2 demo_after1) \<noteq> None"
  "dl_attached (before_attach demo_parser (\<lambda>_. None) demo_link2 demo_after1) = None"
  "length (captured (before_attach demo_parser (\<lambda>_. None) demo_link2 demo_after1)) = 3"
  by (simp_all add: demo_after1_def demo_link1_def demo_link2_def link_eval)

lemma demo_after2_facts: "dl_attached demo_after2 = Some (3, [3])"
  "captured demo_after2 = [1, 2, 3, 4, 5]" "se_id (dl_session demo_after2) = SessionId 1"
  "received demo_after2 = map RecvOk [Output (SessionId 1) 3 [3], Output (SessionId 1) 4 [4],
     Output (SessionId 1) 5 [5]]"
  by (simp_all add: demo_after2_def demo_after1_def demo_link1_def demo_link2_def link_eval received_def)

lemmas read_eval = phone_reads_def frames_read_def daemon_messages_def read_msg_from_def
  attached_reply_def subscribe_def dispatch_stream_message_def recv_attached_event_def
  output_was_replayed_def Let_def

lemma demo_reads1: "phone_reads (SessionId 1) (frames_read demo_link1 demo_after1) 0 =
    (2, [OnInitialBytes [1, 2]])"
  by (simp add: read_eval demo_after1_facts demo_link1_def)

lemma demo_reads2: "phone_reads (SessionId 1) (frames_read demo_link2 demo_after2) 2 =
    (4, [OnInitialBytes [3], OnOutput [4], OnLag 1])"
  by (simp add: read_eval demo_after2_facts demo_link2_def)

lemma demo_steps:
  "phone_step (SessionId 1) () (frames_read demo_link1 demo_after1) (0, []) = (2, [OnInitialBytes [1, 2]])"
  "phone_step (SessionId 1) () (frames_read demo_link2 demo_after2) (2, [OnInitialBytes [1, 2]]) =
    (4, [OnInitialBytes [1, 2], OnInitialBytes [3], OnOutput [4], OnLag 1])"
  by (simp_all add: phone_step_def demo_reads1 demo_reads2 del: One_nat_def)

lemma demo_follow:
  "phone_follow demo_parser (\<lambda>_. None) [demo_link1] (delivery_start demo_spawn) (0, []) =
    (demo_after1, 2, [OnInitialBytes [1, 2]])"
  "phone_follow demo_parser (\<lambda>_. None) [demo_link1, demo_link2] (delivery_start demo_spawn) (0, []) =
    (demo_after2, 4, [OnInitialBytes [1, 2], OnInitialBytes [3], OnOutput [4], OnLag 1])"
  by (simp_all add: phone_position_def demo_after1_def [symmetric] demo_after2_def [symmetric] demo_after1_facts
      demo_after2_facts demo_steps Let_def del: One_nat_def)

lemma demo_in_window: "in_window demo_parser (\<lambda>_. None) phone_position phone_step
    (map (\<lambda>cx. (cx, ())) [demo_link1, demo_link2]) (delivery_start demo_spawn) (0, [])"
  using demo_before1 demo_before2
  by (simp add: phone_position_def in_window_at_def demo_after1_def [symmetric] demo_after2_def [symmetric]
      demo_after1_facts demo_after2_facts demo_steps Let_def RING_CAPACITY_def del: One_nat_def)


end
