(* ===== verification/PhoneNet.thy ===== *)
theory PhoneNet
  imports Phone
begin

text \<open>
  The phone's requests to its daemon: the endpoint, one authenticated stream per request, and
  the pairing ceremony.  What the core uses of iroh and HTTP is \<open>phone_net\<close>, a record of
  functions on a world \<open>'w\<close>; the parsers and texts of other crates are \<open>phone_crates\<close>.
\<close>

section \<open>State\<close>

record daemon_target =
  dt_node_id :: rstr
  dt_relay_url :: "rstr option"
  dt_addrs :: "rstr list"

record client_config =
  cf_device_name :: rstr
  cf_platform :: mobile_platform
  cf_device_secret_key :: "bytes option"
  cf_paired_daemon :: "daemon_target option"
  cf_relay_control_url :: "rstr option"

record phone =
  cl_config :: client_config
  cl_secret_key :: bytes
  cl_daemon :: "daemon_target option"
  cl_endpoint :: "nat option"
  cl_last_daemon_version :: "rstr option"
  cl_last_host_name :: "rstr option"

record phone_crates =
  pk_parse_node :: "rstr \<Rightarrow> rstr + bytes"
  pk_parse_relay :: "rstr \<Rightarrow> rstr + unit"
  pk_parse_addr :: "rstr \<Rightarrow> rstr + unit"
  pk_parse_uuid :: "rstr \<Rightarrow> rstr + nat"
  pk_uuid_text :: "nat \<Rightarrow> rstr"
  pk_debug :: "server_msg \<Rightarrow> rstr"
  pk_decode_ticket :: "rstr \<Rightarrow> rstr + pairing_ticket"
  pk_sha256 :: "bytes \<Rightarrow> bytes"
  pk_client_version :: rstr

datatype connect_error = ConnectTimedOut | ConnectFailed rstr | OpenFailed rstr

text \<open>
  Endpoints and streams are handles.  \<open>fn_get\<close> is an HTTP request: its failure, or the status,
  its text and the body read as a rendezvous.
\<close>

record 'w phone_net =
  fn_bind :: "bytes \<Rightarrow> rstr option \<Rightarrow> 'w \<Rightarrow> 'w \<times> (rstr + nat)"
  fn_node_id :: "nat \<Rightarrow> rstr"
  fn_node_key :: "nat \<Rightarrow> bytes"
  fn_connect :: "nat \<Rightarrow> daemon_target \<Rightarrow> 'w \<Rightarrow> 'w \<times> (connect_error + nat)"
  fn_write :: "nat \<Rightarrow> client_msg \<Rightarrow> 'w \<Rightarrow> 'w \<times> (rstr, rstr) write_error option"
  fn_read :: "nat \<Rightarrow> 'w \<Rightarrow> 'w \<times> frame_result"
  fn_close :: "nat \<Rightarrow> 'w \<Rightarrow> 'w"
  fn_get :: "rstr \<Rightarrow> 'w \<Rightarrow> 'w \<times> (rstr + nat \<times> rstr \<times> (rstr + pairing_rendezvous))"

section \<open>Computations\<close>

text \<open>A computation on the client and the world, which may fail; \<open>then_do\<close> is the \<open>?\<close> operator.\<close>

type_synonym ('w, 'a) attempt = "phone \<times> 'w \<Rightarrow> (phone \<times> 'w) \<times> (shelly_error + 'a)"

definition then_do :: "('w, 'a) attempt \<Rightarrow> ('a \<Rightarrow> ('w, 'b) attempt) \<Rightarrow> ('w, 'b) attempt" where
  "then_do m f s = (case m s of (s', Inl e) \<Rightarrow> (s', Inl e) | (s', Inr a) \<Rightarrow> f a s')"

definition pure :: "shelly_error + 'a \<Rightarrow> ('w, 'a) attempt" where
  "pure r s = (s, r)"

definition on_phone :: "(phone \<Rightarrow> phone) \<Rightarrow> ('w, unit) attempt" where
  "on_phone f s = ((f (fst s), snd s), Inr ())"

section \<open>Targets and streams\<close>

definition from_ticket :: "pairing_ticket \<Rightarrow> daemon_target" where
  "from_ticket ticket = \<lparr>dt_node_id = pt_node_id ticket, dt_relay_url = pt_relay_url ticket,
     dt_addrs = pt_addrs ticket\<rparr>"

definition parsed_relay :: "phone_crates \<Rightarrow> daemon_target \<Rightarrow> shelly_error + rstr option" where
  "parsed_relay pk target = (case dt_relay_url target of
     None \<Rightarrow> Inr None
   | Some url \<Rightarrow> (case pk_parse_relay pk url of
       Inl error \<Rightarrow> Inl (ProtocolFault (lit ''stored daemon relay URL is invalid: '' @ error))
     | Inr _ \<Rightarrow> Inr (Some url)))"

fun parse_addrs :: "phone_crates \<Rightarrow> rstr list \<Rightarrow> shelly_error + unit" where
  "parse_addrs pk [] = Inr ()"
| "parse_addrs pk (addr # addrs) = (case pk_parse_addr pk addr of
     Inl error \<Rightarrow> Inl (ProtocolFault (lit ''stored daemon address is invalid: '' @ error))
   | Inr _ \<Rightarrow> parse_addrs pk addrs)"

text \<open>\<open>endpoint_addr\<close>: whether the stored text of a target is an address.\<close>

definition endpoint_addr :: "phone_crates \<Rightarrow> daemon_target \<Rightarrow> shelly_error + unit" where
  "endpoint_addr pk target = (case pk_parse_node pk (dt_node_id target) of
     Inl error \<Rightarrow> Inl (ProtocolFault (lit ''stored daemon node id is invalid: '' @ error))
   | Inr _ \<Rightarrow> (case parsed_relay pk target of
       Inl error \<Rightarrow> Inl error
     | Inr _ \<Rightarrow> parse_addrs pk (dt_addrs target)))"

text \<open>The endpoint is bound once, with the relay of the first target.\<close>

definition phone_endpoint :: "'w phone_net \<Rightarrow> rstr option \<Rightarrow> ('w, nat) attempt" where
  "phone_endpoint net relay_url s = (case cl_endpoint (fst s) of
     Some endpoint \<Rightarrow> (s, Inr endpoint)
   | None \<Rightarrow> (case fn_bind net (cl_secret_key (fst s)) relay_url (snd s) of
       (w, Inl error) \<Rightarrow> ((fst s, w),
         Inl (TransportFault (lit ''failed to start Shelly mobile network endpoint: '' @ error)))
     | (w, Inr endpoint) \<Rightarrow> (((fst s)\<lparr>cl_endpoint := Some endpoint\<rparr>, w), Inr endpoint)))"

definition connect_fault :: "connect_error \<Rightarrow> shelly_error" where
  "connect_fault e = (case e of
     ConnectTimedOut \<Rightarrow> TransportFault (lit ''timed out connecting to the paired daemon'')
   | ConnectFailed error \<Rightarrow> TransportFault (lit ''failed to connect to the paired daemon: '' @ error)
   | OpenFailed error \<Rightarrow> TransportFault (lit ''failed to open daemon control stream: '' @ error))"

definition phone_connect :: "'w phone_net \<Rightarrow> nat \<Rightarrow> daemon_target \<Rightarrow> ('w, nat) attempt" where
  "phone_connect net endpoint target s = (case fn_connect net endpoint target (snd s) of
     (w, Inl e) \<Rightarrow> ((fst s, w), Inl (connect_fault e))
   | (w, Inr stream) \<Rightarrow> ((fst s, w), Inr stream))"

definition open_stream :: "phone_crates \<Rightarrow> 'w phone_net \<Rightarrow> nat \<Rightarrow> daemon_target \<Rightarrow> ('w, nat) attempt" where
  "open_stream pk net endpoint target =
     then_do (pure (endpoint_addr pk target)) (\<lambda>_. phone_connect net endpoint target)"

definition write_msg :: "'w phone_net \<Rightarrow> nat \<Rightarrow> client_msg \<Rightarrow> ('w, unit) attempt" where
  "write_msg net stream message s = (case fn_write net stream message (snd s) of
     (w, written) \<Rightarrow> ((fst s, w), write_msg_to written))"

definition read_msg :: "'w phone_net \<Rightarrow> nat \<Rightarrow> ('w, server_msg) attempt" where
  "read_msg net stream s = (case fn_read net stream (snd s) of
     (w, r) \<Rightarrow> ((fst s, w), read_msg_from r))"

definition write_hello :: "phone_crates \<Rightarrow> 'w phone_net \<Rightarrow> nat \<Rightarrow> ('w, unit) attempt" where
  "write_hello pk net stream s = write_msg net stream
     (Hello (client_kind_of (cf_platform (cl_config (fst s)))) (pk_client_version pk) CONTRACT_VERSION) s"

text \<open>The daemon's version and host name.\<close>

definition welcome_info :: "phone_crates \<Rightarrow> server_msg \<Rightarrow> shelly_error + rstr \<times> rstr" where
  "welcome_info pk message = (case message of
     Welcome _ daemon_version _ host_name \<Rightarrow> Inr (daemon_version, host_name)
   | _ \<Rightarrow> Inl (unexpected_reply (pk_debug pk) ''during handshake'' message))"

definition expect_welcome :: "phone_crates \<Rightarrow> 'w phone_net \<Rightarrow> nat \<Rightarrow> ('w, rstr \<times> rstr) attempt" where
  "expect_welcome pk net stream = then_do (read_msg net stream) (\<lambda>message. pure (welcome_info pk message))"

definition open_authenticated_stream :: "phone_crates \<Rightarrow> 'w phone_net \<Rightarrow> ('w, nat) attempt" where
  "open_authenticated_stream pk net s = (case cl_daemon (fst s) of
     None \<Rightarrow> (s, Inl (InvalidConfig
       (lit ''client has no saved daemon pairing; pair this device first'')))
   | Some target \<Rightarrow>
       then_do (pure (parsed_relay pk target)) (\<lambda>relay.
       then_do (phone_endpoint net relay) (\<lambda>endpoint.
       then_do (open_stream pk net endpoint target) (\<lambda>stream.
       then_do (write_hello pk net stream) (\<lambda>_.
       then_do (expect_welcome pk net stream) (\<lambda>welcome.
       then_do (on_phone (\<lambda>c. c\<lparr>cl_last_daemon_version := Some (fst welcome),
           cl_last_host_name := Some (snd welcome)\<rparr>)) (\<lambda>_.
       pure (Inr stream))))))) s)"

section \<open>Requests\<close>

text \<open>One request and its reply on a new stream.\<close>

definition ask ::
    "phone_crates \<Rightarrow> 'w phone_net \<Rightarrow> client_msg \<Rightarrow> ('w, nat \<times> server_msg) attempt" where
  "ask pk net request =
     then_do (open_authenticated_stream pk net) (\<lambda>stream.
     then_do (write_msg net stream request) (\<lambda>_.
     then_do (read_msg net stream) (\<lambda>reply.
     pure (Inr (stream, reply)))))"

definition list_sessions :: "phone_crates \<Rightarrow> 'w phone_net \<Rightarrow> ('w, session_summary_ffi list) attempt" where
  "list_sessions pk net = then_do (ask pk net ListSessions) (\<lambda>(_, reply). pure (case reply of
     SessionList sessions \<Rightarrow> Inr (map (session_summary_ffi_from (pk_uuid_text pk)) sessions)
   | _ \<Rightarrow> Inl (unexpected_reply (pk_debug pk) ''to ListSessions'' reply)))"

definition create_session ::
    "phone_crates \<Rightarrow> 'w phone_net \<Rightarrow> rstr option \<Rightarrow> ('w, session_summary_ffi) attempt" where
  "create_session pk net name = then_do (ask pk net (CreateSession
       (case name of None \<Rightarrow> [] | Some name \<Rightarrow> name) [] (lit ''/'') Map.empty default_client_size))
     (\<lambda>(_, reply). pure (case reply of
       SessionCreated _ summary \<Rightarrow> Inr (session_summary_ffi_from (pk_uuid_text pk) summary)
     | _ \<Rightarrow> Inl (unexpected_reply (pk_debug pk) ''to CreateSession'' reply)))"

definition parse_session_id :: "phone_crates \<Rightarrow> rstr \<Rightarrow> shelly_error + session_id" where
  "parse_session_id pk sid = (case pk_parse_uuid pk sid of
     Inl error \<Rightarrow> Inl (InvalidConfig (lit ''invalid session id: '' @ error))
   | Inr uuid \<Rightarrow> Inr (SessionId uuid))"

definition kill_session :: "phone_crates \<Rightarrow> 'w phone_net \<Rightarrow> rstr \<Rightarrow> ('w, unit) attempt" where
  "kill_session pk net sid =
     then_do (pure (parse_session_id pk sid)) (\<lambda>session_id.
     then_do (ask pk net (KillSession session_id)) (\<lambda>(_, reply).
     pure (confirm_session_killed (pk_debug pk) (pk_uuid_text pk) reply session_id)))"

text \<open>The attachment and its stream.\<close>

definition attach_session_from ::
    "phone_crates \<Rightarrow> 'w phone_net \<Rightarrow> rstr \<Rightarrow> nat option \<Rightarrow> ('w, nat \<times> attachment) attempt" where
  "attach_session_from pk net sid last_seen_seq =
     then_do (pure (parse_session_id pk sid)) (\<lambda>session_id.
     then_do (ask pk net (AttachSession session_id default_client_size last_seen_seq)) (\<lambda>(stream, reply).
     pure (map_sum (\<lambda>e. e) (Pair stream) (attached_reply (pk_debug pk) session_id reply))))"

definition acknowledged :: "phone_crates \<Rightarrow> char list \<Rightarrow> server_msg \<Rightarrow> shelly_error + unit" where
  "acknowledged pk context reply = (case reply of
     Pong _ \<Rightarrow> Inr ()
   | _ \<Rightarrow> Inl (unexpected_reply (pk_debug pk) context reply))"

definition register_push_token ::
    "phone_crates \<Rightarrow> 'w phone_net \<Rightarrow> push_platform \<Rightarrow> rstr \<Rightarrow> ('w, unit) attempt" where
  "register_push_token pk net platform token = then_do (ask pk net (RegisterPushToken platform token))
     (\<lambda>(_, reply). pure (acknowledged pk ''to RegisterPushToken'' reply))"

definition unregister_push_token ::
    "phone_crates \<Rightarrow> 'w phone_net \<Rightarrow> push_platform \<Rightarrow> rstr \<Rightarrow> ('w, unit) attempt" where
  "unregister_push_token pk net platform token = then_do (ask pk net (UnregisterPushToken platform token))
     (\<lambda>(_, reply). pure (acknowledged pk ''to UnregisterPushToken'' reply))"

definition phone_unpair_self :: "phone_crates \<Rightarrow> 'w phone_net \<Rightarrow> ('w, unit) attempt" where
  "phone_unpair_self pk net =
     then_do (ask pk net UnpairSelf) (\<lambda>(_, reply).
     then_do (pure (acknowledged pk ''to UnpairSelf'' reply)) (\<lambda>_.
     on_phone (\<lambda>c. c\<lparr>cl_daemon := None\<rparr>)))"

text \<open>
  The loop of \<open>subscribe_sessions\<close> over what its stream yields; \<open>None\<close> is a read that took longer
  than the heartbeat allows.
\<close>

fun subscribe_sessions ::
    "phone_crates \<Rightarrow> frame_result option list \<Rightarrow> session_summary_ffi list list \<Rightarrow>
     session_summary_ffi list list \<times> shelly_error option" where
  "subscribe_sessions pk [] updates = (updates, None)"
| "subscribe_sessions pk (None # rs) updates =
     (updates, Some (TransportFault (lit ''daemon stopped responding to heartbeat'')))"
| "subscribe_sessions pk (Some r # rs) updates = (case read_msg_from r of
     Inl error \<Rightarrow> (updates, Some error)
   | Inr message \<Rightarrow> (case message of
       SessionList sessions \<Rightarrow> subscribe_sessions pk rs
         (updates @ [map (session_summary_ffi_from (pk_uuid_text pk)) sessions])
     | Pong _ \<Rightarrow> subscribe_sessions pk rs updates
     | _ \<Rightarrow> (updates, Some (unexpected_reply (pk_debug pk) ''to SubscribeSessions'' message))))"

section \<open>Pairing\<close>

record pending_pairing =
  pp_sas :: rstr
  pp_target :: daemon_target
  pp_welcome :: "rstr \<times> rstr"
  pp_device_node_id :: rstr
  pp_stream :: "nat option"
  pp_gate :: pending_gate

definition expected_pairing_sas :: "phone_crates \<Rightarrow> rstr \<Rightarrow> rstr \<Rightarrow> bytes \<Rightarrow> shelly_error + rstr" where
  "expected_pairing_sas pk code daemon_node_id phone_key = (case pk_parse_node pk daemon_node_id of
     Inl error \<Rightarrow> Inl (ProtocolFault (lit ''pairing daemon node id is invalid: '' @ error))
   | Inr daemon_key \<Rightarrow> Inr (pairing_sas (pk_sha256 pk) code daemon_key phone_key))"

definition bad_code :: shelly_error where
  "bad_code = InvalidConfig (lit ''pairing code must be '' @ dec CODE_LEN @
     lit '' Crockford-base32 characters'')"

definition sas_mismatch :: shelly_error where
  "sas_mismatch = ProtocolFault
     (lit ''daemon pairing SAS did not match the locally computed transcript'')"

definition close_streams :: "'w phone_net \<Rightarrow> nat \<Rightarrow> ('w, unit) attempt" where
  "close_streams net stream s = ((fst s, fn_close net stream (snd s)), Inr ())"

text \<open>The daemon's answer to \<open>PairWithCode\<close>: a fingerprint, which must be the phone's own.\<close>

definition check_pending ::
    "phone_crates \<Rightarrow> 'w phone_net \<Rightarrow> daemon_target \<Rightarrow> rstr \<Rightarrow> nat \<Rightarrow> nat \<Rightarrow> rstr \<times> rstr \<Rightarrow> server_msg \<Rightarrow>
     ('w, pending_pairing) attempt" where
  "check_pending pk net target code endpoint stream welcome reply = (case reply of
     PairingPending sas \<Rightarrow>
       then_do (pure (expected_pairing_sas pk code (dt_node_id target) (fn_node_key net endpoint)))
         (\<lambda>expected_sas.
           if sas \<noteq> expected_sas
           then then_do (close_streams net stream) (\<lambda>_. pure (Inl sas_mismatch))
           else pure (Inr \<lparr>pp_sas = sas, pp_target = target, pp_welcome = welcome,
             pp_device_node_id = fn_node_id net endpoint, pp_stream = Some stream,
             pp_gate = gate_default\<rparr>))
   | _ \<Rightarrow> pure (Inl (unexpected_reply (pk_debug pk) ''during pairing'' reply)))"

definition pair_with_ticket ::
    "phone_crates \<Rightarrow> 'w phone_net \<Rightarrow> pairing_ticket \<Rightarrow> ('w, pending_pairing) attempt" where
  "pair_with_ticket pk net ticket s =
     (let code = normalize_code (pt_code ticket); target = from_ticket ticket in
      if \<not> is_valid_code code then (s, Inl bad_code)
      else then_do (pure (parsed_relay pk target)) (\<lambda>relay.
        then_do (phone_endpoint net relay) (\<lambda>endpoint.
        then_do (open_stream pk net endpoint target) (\<lambda>stream.
        then_do (write_hello pk net stream) (\<lambda>_.
        then_do (expect_welcome pk net stream) (\<lambda>welcome.
        then_do (write_msg net stream (PairWithCode code (cf_device_name (cl_config (fst s)))
            (fn_node_id net endpoint))) (\<lambda>_.
        then_do (read_msg net stream) (\<lambda>reply.
        check_pending pk net target code endpoint stream welcome reply))))))) s)"

definition pair_with_qr ::
    "phone_crates \<Rightarrow> 'w phone_net \<Rightarrow> rstr \<Rightarrow> ('w, pending_pairing) attempt" where
  "pair_with_qr pk net qr_payload = (case pk_decode_ticket pk (trim qr_payload) of
     Inl error \<Rightarrow> pure (Inl (ProtocolFault (lit ''invalid pairing QR payload: '' @ error)))
   | Inr ticket \<Rightarrow> pair_with_ticket pk net ticket)"

definition trim_slashes :: "rstr \<Rightarrow> rstr" where
  "trim_slashes s = rev (dropWhile (\<lambda>c. c = of_char (CHR ''/'')) (rev s))"

definition resolve_fault :: "nat \<Rightarrow> rstr \<Rightarrow> shelly_error option" where
  "resolve_fault status status_text =
     (if status = 404 then Some (NotFoundFault (lit ''pairing code not found, expired, or already used''))
      else if \<not> (200 \<le> status \<and> status < 300) then Some (ProtocolFault
        (lit ''pairing relay returned HTTP '' @ status_text @ lit '' while resolving the code''))
      else None)"

definition resolve_url :: "phone_crates \<Rightarrow> rstr \<Rightarrow> rstr \<Rightarrow> rstr" where
  "resolve_url pk relay_control_url code = trim_slashes relay_control_url @ lit ''/v1/pair/resolve/'' @
     pairing_code_locator (pk_sha256 pk) code"

definition resolve_code :: "phone_crates \<Rightarrow> 'w phone_net \<Rightarrow> rstr \<Rightarrow> ('w, pairing_rendezvous) attempt" where
  "resolve_code pk net url s = (case fn_get net url (snd s) of
     (w, Inl error) \<Rightarrow> ((fst s, w), Inl (TransportFault
       (lit ''failed to resolve pairing code through the relay: '' @ error)))
   | (w, Inr (status, status_text, body)) \<Rightarrow> ((fst s, w),
       (case resolve_fault status status_text of
          Some e \<Rightarrow> Inl e
        | None \<Rightarrow> (case body of
            Inl error \<Rightarrow> Inl (ProtocolFault
              (lit ''pairing relay returned an invalid resolve response: '' @ error))
          | Inr r \<Rightarrow> Inr r))))"

definition pair_with_code ::
    "phone_crates \<Rightarrow> 'w phone_net \<Rightarrow> rstr \<Rightarrow> ('w, pending_pairing) attempt" where
  "pair_with_code pk net code s =
     (let code = normalize_code code in
      if \<not> is_valid_code code then (s, Inl bad_code)
      else (case cf_relay_control_url (cl_config (fst s)) of
          None \<Rightarrow> (s, Inl (InvalidConfig
            (lit ''typed pairing codes are unavailable because no relay control URL is configured'')))
        | Some relay_control_url \<Rightarrow>
            then_do (resolve_code pk net (resolve_url pk relay_control_url code))
              (\<lambda>rv. pair_with_ticket pk net (into_ticket rv code)) s))"

section \<open>Confirming\<close>

text \<open>
  \<open>confirm\<close> in its two parts: the user's yes, which takes the streams, and the daemon's frame,
  read while a \<open>cancel\<close> may come in between.
\<close>

definition confirmation_in_progress :: shelly_error where
  "confirmation_in_progress = InvalidConfig (lit ''pairing confirmation is already in progress'')"

definition confirm_begin :: "pending_pairing \<Rightarrow> pending_pairing \<times> (shelly_error + nat)" where
  "confirm_begin p = (case confirm_local (pp_gate p) of
     (g, Inl error) \<Rightarrow> (p\<lparr>pp_gate := g\<rparr>, Inl error)
   | (g, Inr _) \<Rightarrow> (case pp_stream p of
       None \<Rightarrow> (p\<lparr>pp_gate := g\<rparr>, Inl confirmation_in_progress)
     | Some stream \<Rightarrow> (p\<lparr>pp_gate := g, pp_stream := None\<rparr>, Inr stream)))"

record daemon_info =
  di_daemon_node_id :: rstr
  di_relay_url :: "rstr option"
  di_addrs :: "rstr list"
  di_device_node_id :: rstr
  di_device_secret_key :: bytes
  di_daemon_version :: rstr
  di_protocol_version :: nat
  di_host_name :: rstr

definition completion_mismatch :: shelly_error where
  "completion_mismatch = ProtocolFault
     (lit ''pairing completion daemon identity did not match the authenticated target'')"

text \<open>The daemon's frame: the node id it completes the pairing with.\<close>

definition completed_by :: "phone_crates \<Rightarrow> daemon_target \<Rightarrow> frame_result \<Rightarrow> shelly_error + rstr" where
  "completed_by pk target r = (case read_msg_from r of
     Inl error \<Rightarrow> Inl error
   | Inr message \<Rightarrow> (case message of
       PairingComplete daemon_node_id \<Rightarrow>
         if daemon_node_id \<noteq> dt_node_id target then Inl completion_mismatch else Inr daemon_node_id
     | _ \<Rightarrow> Inl (unexpected_reply (pk_debug pk) ''during pairing confirmation'' message)))"

definition open_gate :: "pending_gate \<Rightarrow> pending_gate \<times> (shelly_error + unit)" where
  "open_gate g = (case record_daemon_completed g of
     (g, Inl error) \<Rightarrow> (g, Inl error)
   | (g, Inr _) \<Rightarrow> mark_persisted g)"

definition daemon_info_of :: "phone \<Rightarrow> pending_pairing \<Rightarrow> rstr \<Rightarrow> daemon_info" where
  "daemon_info_of c p daemon_node_id = \<lparr>di_daemon_node_id = daemon_node_id,
     di_relay_url = dt_relay_url (pp_target p), di_addrs = dt_addrs (pp_target p),
     di_device_node_id = pp_device_node_id p, di_device_secret_key = cl_secret_key c,
     di_daemon_version = fst (pp_welcome p), di_protocol_version = CONTRACT_VERSION,
     di_host_name = snd (pp_welcome p)\<rparr>"

text \<open>The third component: whether the streams are reset.\<close>

definition confirm_reply ::
    "phone_crates \<Rightarrow> frame_result \<Rightarrow> phone \<Rightarrow> pending_pairing \<Rightarrow>
     phone \<times> pending_pairing \<times> bool \<times> (shelly_error + daemon_info)" where
  "confirm_reply pk r c p = (case completed_by pk (pp_target p) r of
     Inl error \<Rightarrow> (c, p, True, Inl error)
   | Inr daemon_node_id \<Rightarrow> (case open_gate (pp_gate p) of
       (g, Inl error) \<Rightarrow> (c, p\<lparr>pp_gate := g\<rparr>, False, Inl error)
     | (g, Inr _) \<Rightarrow> (c\<lparr>cl_daemon := Some (pp_target p)\<rparr>, p\<lparr>pp_gate := g\<rparr>, False,
         Inr (daemon_info_of c p daemon_node_id))))"

definition pairing_cancel :: "pending_pairing \<Rightarrow> pending_pairing \<times> bool \<times> (shelly_error + unit)" where
  "pairing_cancel p = (case gate_cancel (pp_gate p) of
     (g, Inl error) \<Rightarrow> (p\<lparr>pp_gate := g\<rparr>, False, Inl error)
   | (g, Inr _) \<Rightarrow> (p\<lparr>pp_gate := g, pp_stream := None\<rparr>, pp_stream p \<noteq> None, Inr ()))"

section \<open>A new client\<close>

definition phone_new :: "bytes \<Rightarrow> shelly_error option \<Rightarrow> client_config \<Rightarrow> shelly_error + phone" where
  "phone_new generated http_fault config =
     (case (case cf_device_secret_key config of
          Some bytes \<Rightarrow> if length bytes = 32 then Inr bytes else Inl (InvalidConfig
            (lit ''stored mobile identity key is invalid: expected 32 bytes''))
        | None \<Rightarrow> Inr generated) of
        Inl error \<Rightarrow> Inl error
      | Inr secret_key \<Rightarrow> (case http_fault of
          Some error \<Rightarrow> Inl error
        | None \<Rightarrow> Inr \<lparr>cl_config = config, cl_secret_key = secret_key,
            cl_daemon = cf_paired_daemon config, cl_endpoint = None,
            cl_last_daemon_version = None, cl_last_host_name = None\<rparr>))"

end
