(* ===== verification/PhonePair.thy ===== *)
theory PhonePair
  imports PhoneNet Transport
begin

text \<open>
  A phone and its daemon together: the phone's requests of \<open>PhoneNet\<close> on a network that carries
  them to the daemon's connection of \<open>Transport\<close>.
\<close>

section \<open>What a daemon's messages stand for\<close>

text \<open>No reply of another request says anything about a pairing.\<close>

definition pairing_news :: "server_msg \<Rightarrow> bool" where
  "pairing_news m \<longleftrightarrow> (\<exists>sas. m = PairingPending sas) \<or> (\<exists>n. m = PairingComplete n)"

lemma pairing_news_simps [simp]:
  "\<not> pairing_news (SessionList l)" "\<not> pairing_news (Pong n)" "\<not> pairing_news (Error c t)"
  "\<not> pairing_news (Welcome a b c' d)" "\<not> pairing_news (SessionKilled i)" "\<not> pairing_news (SessionCreated i y)"
  "\<not> pairing_news (Attached i bs q)" "\<not> pairing_news (SessionExited i x)"
  "pairing_news (PairingPending sas)" "pairing_news (PairingComplete d)"
  by (auto simp: pairing_news_def)

lemma size_news: "invalid_client_size sz = Some m \<Longrightarrow> \<not> pairing_news m"
  by (auto simp: invalid_client_size_def split: if_splits)

lemma handler_news:
  "handle_attach tm cr ok sid sz seq conn s = (ms, conn', s') \<Longrightarrow> list_all (\<lambda>m. \<not> pairing_news m) ms"
  "handle_input cr now sid bs s = (ms, s') \<Longrightarrow> list_all (\<lambda>m. \<not> pairing_news m) ms"
  "handle_resize cr c sid sz s = (ms, s') \<Longrightarrow> list_all (\<lambda>m. \<not> pairing_news m) ms"
  by (auto simp: handle_attach_def handle_input_def handle_resize_def session_not_found_def
      invalid_client_size_def Let_def split: option.splits prod.splits bool.splits if_splits)

lemma registry_news:
  "\<not> pairing_news (fst (create_session_for tm sp kind name command cwd env sz s))"
  "\<not> pairing_news (fst (kill_session_response tm cr child fault sid s))"
  by (auto simp: create_session_for_def kill_session_response_def Let_def split_beta
      dest: size_news split: option.splits sum.splits)

lemma handle_paired_news:
  assumes "handle_paired tm cr ctx msg ic s = (ms, nxt, s')"
  shows "list_all (\<lambda>m. \<not> pairing_news m) ms \<and> (\<exists>ic'. nxt = Keep ic' \<or> nxt = Leave ic')"
proof (cases msg)
  case (CreateSession a b c d e)
  then show ?thesis
    using assms registry_news(1) [of tm "cc_spawn (ix_call ctx)" "cn_kind (ic_conn ic)" a b c d e s]
    by (auto simp: handle_paired_def Let_def invalid_client_size_def split: prod.splits if_splits)
next
  case (KillSession sid)
  then show ?thesis
    using assms registry_news(2) [of tm cr "cc_child (ix_call ctx)" "cc_fault (ix_call ctx)" sid s]
    by (auto simp: handle_paired_def Let_def split: prod.splits)
next
  case (AttachSession a b c)
  then show ?thesis
    using assms handler_news(1) by (fastforce simp: handle_paired_def Let_def split: prod.splits)
next
  case (Input a b)
  then show ?thesis
    using assms handler_news(2) by (fastforce simp: handle_paired_def Let_def split: prod.splits)
next
  case (Resize a b)
  then show ?thesis
    using assms handler_news(3) by (fastforce simp: handle_paired_def Let_def split: prod.splits)
qed (use assms in \<open>auto simp: handle_paired_def Let_def forbidden_def push_token_reply_def unauthorized_def
    split: prod.splits sum.splits bool.splits\<close>)

text \<open>A prompt at the desktop showed this fingerprint for a pairing of this node.\<close>

definition prompted :: "rstr \<Rightarrow> rstr \<Rightarrow> pairing_manager \<Rightarrow> bool" where
  "prompted node sas pm \<longleftrightarrow> (\<exists>x \<in> set (pm_prompted pm). ae_device_node_id (snd x) = node \<and> ae_sas (snd x) = sas)"

lemma handle_iroh_news:
  assumes h: "handle_iroh tm cr parse_key ctx msg ic s = (ms, nxt, s')" and m: "m \<in> set ms" "pairing_news m"
  shows "\<exists>sas. ms = [PairingPending sas] \<and> prompted (ic_node ic) sas (ap_pairing s') \<and> (\<forall>ic'. nxt \<noteq> Leave ic')"
proof (cases msg)
  case (PairWithCode code name claimed)
  then have "handle_pair_with_code cr parse_key ctx code name claimed ic s = (ms, nxt, s')"
    using h m by (auto simp: handle_iroh_def split: if_splits)
  then show ?thesis
    using m by (auto simp: handle_pair_with_code_def Let_def pairing_peer_identity_error_def
        update_required_def begin_approval_def split_beta prompted_def split: if_splits sum.splits option.splits prod.splits)
next
  case UnpairSelf
  then show ?thesis
    using h m by (auto simp: handle_iroh_def handle_unpair_self_def update_required_def
        split: if_splits prod.splits sum.splits)
qed (use h m handle_paired_news in \<open>fastforce simp: handle_iroh_def unauthorized_def list_all_iff
    split: if_splits\<close>)+

lemma finish_pairing_news:
  assumes "finish_pairing cr ctx in_time ic name approval s = (ms, nxt, s')" and "m \<in> set ms" "pairing_news m"
  shows "\<exists>n. ms = [PairingComplete n] \<and> is_device_paired s' (ic_node ic) \<and> (\<forall>ic'. nxt \<noteq> Leave ic') \<and>
    (\<exists>rid. pm_answers (ap_pairing s) rid = Some True)"
  using assms
  by (auto simp: finish_pairing_def approval_wait_def app_save_device_def stored_device_new_def
      forbidden_def is_device_paired_def update_conv' Let_def split: if_splits option.splits prod.splits)

section \<open>The course of a pairing\<close>

abbreviation iroh_run ::
    "'m parser \<Rightarrow> (rstr \<Rightarrow> codex_event option) \<Rightarrow> persist_crates \<Rightarrow> (rstr \<Rightarrow> bytes option) \<Rightarrow> client_id \<Rightarrow> rstr \<Rightarrow>
     rstr \<Rightarrow> rstr \<Rightarrow> 'm iroh_state \<Rightarrow> iroh_event list \<Rightarrow> 'm iroh_state" where
  "iroh_run tm from_str cr parse_key me version host node \<equiv>
     foldl (iroh_step tm from_str cr parse_key me version host node)"

definition at_some_time ::
    "('m iroh_state \<Rightarrow> iroh_event list \<Rightarrow> 'm iroh_state) \<Rightarrow> 'm iroh_state \<Rightarrow> iroh_event list \<Rightarrow> ('m app \<Rightarrow> bool) \<Rightarrow> bool" where
  "at_some_time run l0 evs Q \<longleftrightarrow> (\<exists>as. prefix as evs \<and> Q (ir_app (run l0 as)))"

definition news_true ::
    "('m iroh_state \<Rightarrow> iroh_event list \<Rightarrow> 'm iroh_state) \<Rightarrow> rstr \<Rightarrow> 'm iroh_state \<Rightarrow> iroh_event list \<Rightarrow> server_msg \<Rightarrow> bool" where
  "news_true run node l0 evs m \<longleftrightarrow> (case m of
     PairingPending sas \<Rightarrow> at_some_time run l0 evs (\<lambda>s. prompted node sas (ap_pairing s))
   | PairingComplete _ \<Rightarrow> at_some_time run l0 evs (\<lambda>s. is_device_paired s node) \<and>
       (\<exists>rid. RestPairing (Approve rid True) \<in> set evs)
   | _ \<Rightarrow> True)"

lemma at_some_time_more: "at_some_time run l0 evs Q \<Longrightarrow> at_some_time run l0 (evs @ evs2) Q"
  unfolding at_some_time_def using prefix_prefix by blast

lemma at_this_time: "Q (ir_app (run l0 evs)) \<Longrightarrow> at_some_time run l0 evs Q"
  by (auto simp: at_some_time_def)

lemma news_true_more: "news_true run node l0 evs m \<Longrightarrow> news_true run node l0 (evs @ evs2) m"
  by (auto simp: news_true_def at_some_time_more split: server_msg.splits)

lemma no_news: "\<not> pairing_news m \<Longrightarrow> news_true run node l0 evs m"
  by (auto simp: news_true_def pairing_news_def split: server_msg.splits)

lemma end_iroh_sent [simp]: "ir_sent (end_iroh ic l) = ir_sent l"
  by (simp add: end_iroh_def)

lemma conclude_sent:
  "ir_sent (conclude w (ms, nxt, s') l) = ir_sent l @ take w ms"
  by (cases nxt) (simp_all add: conclude_def Let_def)

lemma conclude_app: "length ms \<le> w \<Longrightarrow> \<forall>ic. nxt \<noteq> Leave ic \<Longrightarrow> ir_app (conclude w (ms, nxt, s') l) = s'"
  by (cases nxt) (auto simp: conclude_def Let_def)

lemma news_step:
  assumes run: "run = iroh_run tm from_str cr parse_key me version host node"
    and l: "l = run l0 evs" and op: "operator_inv node evs l"
    and news: "\<forall>m \<in> set (ir_sent l). news_true run node l0 evs m"
    and l': "l' = iroh_step tm from_str cr parse_key me version host node l ev"
  shows "\<forall>m \<in> set (ir_sent l'). news_true run node l0 (evs @ [ev]) m"
proof -
  have l'_run: "l' = run l0 (evs @ [ev])" by (simp add: l' l run)
  have old: "news_true run node l0 (evs @ [ev]) m" if "m \<in> set (ir_sent l)" for m
    using news that news_true_more by blast
  have new: "\<forall>m \<in> set (ir_sent l'). news_true run node l0 (evs @ [ev]) m"
    if c: "l' = conclude w (ms, nxt, s') l"
      and n: "\<And>m. m \<in> set ms \<Longrightarrow> pairing_news m \<Longrightarrow> ms = [m] \<and> (\<forall>ic. nxt \<noteq> Leave ic) \<and>
        (ir_app l' = s' \<longrightarrow> news_true run node l0 (evs @ [ev]) m)" for w ms nxt s'
  proof
    fix m
    assume m: "m \<in> set (ir_sent l')"
    show "news_true run node l0 (evs @ [ev]) m"
    proof (cases "m \<in> set (ir_sent l) \<or> \<not> pairing_news m")
      case True
      then show ?thesis using old no_news by blast
    next
      case False
      then have t: "m \<in> set (take w ms)" using m by (simp add: c conclude_sent)
      then have ms: "ms = [m]" "\<forall>ic. nxt \<noteq> Leave ic"
        "ir_app l' = s' \<longrightarrow> news_true run node l0 (evs @ [ev]) m"
        using n [of m] False by (auto dest: in_set_takeD)
      then have "length ms \<le> w" using t by (cases w) auto
      with ms show ?thesis using conclude_app [of ms w nxt s' l] c by simp
    qed
  qed
  have quiet: ?thesis if "\<forall>m \<in> set (ir_sent l'). m \<in> set (ir_sent l) \<or> \<not> pairing_news m"
    using that old no_news by blast
  show ?thesis
  proof (cases ev)
    case (ApprovalOver ctx in_time)
    show ?thesis
    proof (cases "ir_phase l")
      case (IrohApproval ic name approval)
      then have node: "ic_node ic = node" using op by (simp add: operator_inv_def phase_node_def)
      obtain ms nxt s' where f: "finish_pairing cr ctx in_time ic name approval (ir_app l) = (ms, nxt, s')"
        by (metis prod_cases3)
      show ?thesis
      proof (rule new)
        show "l' = conclude (cc_written (ix_call ctx)) (ms, nxt, s') l"
          using l' ApprovalOver IrohApproval f by (simp add: iroh_step_def)
        fix m
        assume "m \<in> set ms" "pairing_news m"
        note n = finish_pairing_news [OF f this]
        then have "\<exists>rid. RestPairing (Approve rid True) \<in> set evs"
          using op unfolding operator_inv_def by blast
        with n \<open>m \<in> set ms\<close>
        show "ms = [m] \<and> (\<forall>ic. nxt \<noteq> Leave ic) \<and>
            (ir_app l' = s' \<longrightarrow> news_true run node l0 (evs @ [ev]) m)"
          using node at_this_time [of "\<lambda>s. is_device_paired s node" run l0 "evs @ [ev]"] l'_run
          by (auto simp: news_true_def)
      qed
    qed (use l' ApprovalOver old in \<open>simp_all add: iroh_step_def\<close>)
  next
    case (Peer ctx msg)
    show ?thesis
    proof (cases "ir_phase l")
      case IrohGreeting
      then show ?thesis
        using l' Peer
        by (intro quiet) (auto simp: iroh_step_def accept_iroh_hello_def iroh_client_kind_error_def Let_def
            split: option.splits prod.splits if_splits client_msg.splits)
    next
      case (IrohServing ic)
      then have node: "ic_node ic = node" using op by (simp add: operator_inv_def phase_node_def)
      show ?thesis
      proof (cases "msg = None \<or> \<not> fresh_id (ir_app l) (sp_id (cc_spawn (ix_call ctx)))")
        case True
        then show ?thesis
          using l' Peer IrohServing by (intro quiet) (auto simp: iroh_step_def split: option.splits)
      next
        case False
        then obtain cm where cm: "msg = Some cm" by auto
        obtain ms nxt s' where h: "handle_iroh tm cr parse_key ctx cm ic (ir_app l) = (ms, nxt, s')"
          by (metis prod_cases3)
        show ?thesis
        proof (rule new)
          show "l' = conclude (cc_written (ix_call ctx)) (ms, nxt, s') l"
            using l' Peer IrohServing h cm False by (simp add: iroh_step_def)
          fix m
          assume "m \<in> set ms" "pairing_news m"
          from handle_iroh_news [OF h this] \<open>m \<in> set ms\<close>
          show "ms = [m] \<and> (\<forall>ic. nxt \<noteq> Leave ic) \<and>
              (ir_app l' = s' \<longrightarrow> news_true run node l0 (evs @ [ev]) m)"
            using node at_this_time [of "\<lambda>s. prompted node sas (ap_pairing s)" run l0 "evs @ [ev]" for sas] l'_run
            by (auto simp: news_true_def)
        qed
      qed
    qed (use l' Peer old in \<open>simp_all add: iroh_step_def\<close>)
  qed (use l' old in \<open>auto simp: iroh_step_def split: iroh_phase.splits if_splits\<close>)
qed

lemma run_news:
  assumes "ir_phase l0 = IrohGreeting" and "ir_sent l0 = []" and "\<not> is_device_paired (ir_app l0) node"
    and "pm_answers (ap_pairing (ir_app l0)) = Map.empty" and "list_all (\<lambda>ev. \<not> saves_node node ev) evs"
  shows "operator_inv node evs (iroh_run tm from_str cr parse_key me version host node l0 evs) \<and>
    (\<forall>m \<in> set (ir_sent (iroh_run tm from_str cr parse_key me version host node l0 evs)).
      news_true (iroh_run tm from_str cr parse_key me version host node) node l0 evs m)"
  using assms(5)
proof (induction evs rule: rev_induct)
  case Nil
  then show ?case using assms(1-4) by (simp add: operator_inv_def phase_node_def)
next
  case (snoc ev evs)
  then have op: "operator_inv node evs (iroh_run tm from_str cr parse_key me version host node l0 evs)"
    and news: "\<forall>m \<in> set (ir_sent (iroh_run tm from_str cr parse_key me version host node l0 evs)).
      news_true (iroh_run tm from_str cr parse_key me version host node) node l0 evs m" by auto
  show ?case
    using news_step [OF refl refl op news refl, of ev] operator_step [OF op] snoc.prems by simp
qed

section \<open>The phone's network\<close>

text \<open>
  A world of one connection: the daemon's side of it, how many of its messages the phone has
  read, and what will happen.  Each write or read of the phone takes one step of the plan: what
  the daemon does of its own before, the circumstances of the request, and whether the
  network holds.  \<open>iw_log\<close> is what has happened.
\<close>

record plan_step =
  ps_events :: "iroh_event list"
  ps_context :: iroh_context
  ps_ok :: bool

record 'm iroh_world =
  iw_conn :: "'m iroh_state"
  iw_read :: nat
  iw_plan :: "plan_step list"
  iw_log :: "iroh_event list"

definition from_peer :: "iroh_event \<Rightarrow> bool" where
  "from_peer ev \<longleftrightarrow> (\<exists>ctx m. ev = Peer ctx m)"

text \<open>The daemon: its parameters, and the run of its connection.\<close>

record 'm daemon_side =
  ds_parser :: "'m parser"
  ds_events :: "rstr \<Rightarrow> codex_event option"
  ds_crates :: persist_crates
  ds_key :: "rstr \<Rightarrow> bytes option"
  ds_client :: client_id
  ds_version :: rstr
  ds_host :: rstr

definition daemon_run :: "'m daemon_side \<Rightarrow> rstr \<Rightarrow> 'm iroh_state \<Rightarrow> iroh_event list \<Rightarrow> 'm iroh_state" where
  "daemon_run dm node = iroh_run (ds_parser dm) (ds_events dm) (ds_crates dm) (ds_key dm) (ds_client dm)
     (ds_version dm) (ds_host dm) node"

definition happen :: "'m daemon_side \<Rightarrow> rstr \<Rightarrow> iroh_event list \<Rightarrow> 'm iroh_world \<Rightarrow> 'm iroh_world" where
  "happen dm node evs w = w\<lparr>iw_conn := daemon_run dm node (iw_conn w) evs, iw_log := iw_log w @ evs\<rparr>"

definition lost_connection :: rstr where "lost_connection = lit ''connection lost''"

definition iroh_write ::
    "'m daemon_side \<Rightarrow> rstr \<Rightarrow> client_msg \<Rightarrow> 'm iroh_world \<Rightarrow> 'm iroh_world \<times> (rstr, rstr) write_error option" where
  "iroh_write dm node m w = (case iw_plan w of
     [] \<Rightarrow> (w, Some (WriteLength lost_connection))
   | st # rest \<Rightarrow>
       if \<not> ps_ok st then (w\<lparr>iw_plan := rest\<rparr>, Some (WriteLength lost_connection))
       else (happen dm node (filter (\<lambda>ev. \<not> from_peer ev) (ps_events st) @ [Peer (ps_context st) (Some m)])
         (w\<lparr>iw_plan := rest\<rparr>), None))"

definition iroh_read :: "'m daemon_side \<Rightarrow> rstr \<Rightarrow> 'm iroh_world \<Rightarrow> 'm iroh_world \<times> frame_result" where
  "iroh_read dm node w = (case iw_plan w of
     [] \<Rightarrow> (w, Inl (ReadLength lost_connection))
   | st # rest \<Rightarrow>
       let w = happen dm node (filter (\<lambda>ev. \<not> from_peer ev) (ps_events st)) (w\<lparr>iw_plan := rest\<rparr>) in
       if ps_ok st \<and> iw_read w < length (ir_sent (iw_conn w))
       then (w\<lparr>iw_read := Suc (iw_read w)\<rparr>, Inr (ir_sent (iw_conn w) ! iw_read w))
       else (w, Inl (ReadLength lost_connection)))"

text \<open>Connecting reaches a daemon only by its own node id.\<close>

definition iroh_net :: "'m daemon_side \<Rightarrow> rstr \<Rightarrow> bytes \<Rightarrow> 'm iroh_world phone_net" where
  "iroh_net dm node key = \<lparr>fn_bind = (\<lambda>_ _ w. (w, Inr 0)), fn_node_id = (\<lambda>_. node), fn_node_key = (\<lambda>_. key),
     fn_connect = (\<lambda>_ target w.
       if iroh_node_id (ir_app (iw_conn w)) = Some (dt_node_id target) then (w, Inr 0)
       else (w, Inl ConnectTimedOut)),
     fn_write = (\<lambda>_. iroh_write dm node), fn_read = (\<lambda>_. iroh_read dm node), fn_close = (\<lambda>_ w. w),
     fn_get = (\<lambda>_ w. (w, Inl lost_connection))\<rparr>"

lemma iroh_net_simps [simp]:
  "fn_bind (iroh_net dm node key) a b w = (w, Inr 0)" "fn_node_id (iroh_net dm node key) e = node"
  "fn_node_key (iroh_net dm node key) e = key" "fn_write (iroh_net dm node key) i = iroh_write dm node"
  "fn_read (iroh_net dm node key) i = iroh_read dm node" "fn_close (iroh_net dm node key) i w = w"
  "fn_connect (iroh_net dm node key) e target w = (w,
     if iroh_node_id (ir_app (iw_conn w)) = Some (dt_node_id target) then Inr 0 else Inl ConnectTimedOut)"
  by (simp_all add: iroh_net_def)

text \<open>Whatever the phone does, the daemon's side is a run of its connection over the log.\<close>

definition world_of_run :: "'m daemon_side \<Rightarrow> rstr \<Rightarrow> 'm iroh_state \<Rightarrow> 'm iroh_world \<Rightarrow> bool" where
  "world_of_run dm node l0 w \<longleftrightarrow> iw_conn w = daemon_run dm node l0 (iw_log w) \<and>
     list_all (\<lambda>ev. \<not> saves_node node ev) (iw_log w) \<and>
     list_all (\<lambda>st. list_all (\<lambda>ev. \<not> saves_node node ev) (ps_events st)) (iw_plan w)"

lemma happen_run:
  "world_of_run dm node l0 w \<Longrightarrow> list_all (\<lambda>ev. \<not> saves_node node ev) evs \<Longrightarrow>
    world_of_run dm node l0 (happen dm node evs w)"
  by (simp add: world_of_run_def happen_def daemon_run_def)

lemma saves_filter: "list_all (\<lambda>ev. \<not> saves_node node ev) evs \<Longrightarrow>
    list_all (\<lambda>ev. \<not> saves_node node ev) (filter P evs)"
  by (simp add: list_all_iff)

lemma write_run:
  assumes "world_of_run dm node l0 w" and "iroh_write dm node m w = (w', r)"
  shows "world_of_run dm node l0 w'"
proof (cases "iw_plan w")
  case (Cons st rest)
  have w: "world_of_run dm node l0 (w\<lparr>iw_plan := rest\<rparr>)" "list_all (\<lambda>ev. \<not> saves_node node ev) (ps_events st)"
    using assms(1) Cons by (simp_all add: world_of_run_def)
  have "list_all (\<lambda>ev. \<not> saves_node node ev) (filter (\<lambda>ev. \<not> from_peer ev) (ps_events st) @
      [Peer (ps_context st) (Some m)])"
    using saves_filter [OF w(2)] by (simp add: saves_node_def)
  from happen_run [OF w(1) this] show ?thesis
    using assms(2) Cons w(1) by (auto simp: iroh_write_def split: if_splits)
qed (use assms in \<open>auto simp: iroh_write_def\<close>)

lemma read_run:
  assumes "world_of_run dm node l0 w" and "iroh_read dm node w = (w', r)"
  shows "world_of_run dm node l0 w' \<and> (\<forall>m. r = Inr m \<longrightarrow> m \<in> set (ir_sent (iw_conn w')))"
proof (cases "iw_plan w")
  case (Cons st rest)
  define w1 where "w1 = happen dm node (filter (\<lambda>ev. \<not> from_peer ev) (ps_events st)) (w\<lparr>iw_plan := rest\<rparr>)"
  have "world_of_run dm node l0 (w\<lparr>iw_plan := rest\<rparr>)" "list_all (\<lambda>ev. \<not> saves_node node ev) (ps_events st)"
    using assms(1) Cons by (simp_all add: world_of_run_def)
  then have "world_of_run dm node l0 w1"
    unfolding w1_def by (intro happen_run saves_filter)
  then show ?thesis
    using assms(2) Cons by (auto simp: iroh_read_def w1_def [symmetric] Let_def world_of_run_def split: if_splits)
qed (use assms in \<open>auto simp: iroh_read_def\<close>)

section \<open>The pairing ceremony\<close>

lemma then_do_Inr: "then_do m f s = (s', Inr a) \<longleftrightarrow> (\<exists>s1 b. m s = (s1, Inr b) \<and> f b s1 = (s', Inr a))"
  by (auto simp: then_do_def split: prod.splits sum.splits)

lemma pure_Inr: "pure r s = (s', Inr a) \<longleftrightarrow> r = Inr a \<and> s' = s"
  by (auto simp: pure_def)

text \<open>Steps of the ceremony on a world that is a run of the daemon.\<close>

lemma endpoint_run:
  assumes "phone_endpoint (iroh_net dm node key) relay s = (s', Inr e)"
  shows "snd s' = snd s \<and> cl_daemon (fst s') = cl_daemon (fst s) \<and> cl_config (fst s') = cl_config (fst s) \<and>
    cl_secret_key (fst s') = cl_secret_key (fst s)"
  using assms by (auto simp: phone_endpoint_def split: option.splits)

lemma open_run:
  assumes "open_stream pk (iroh_net dm node key) e target s = (s', Inr stream)"
  shows "s' = s \<and> iroh_node_id (ir_app (iw_conn (snd s))) = Some (dt_node_id target)"
  using assms by (auto simp: open_stream_def then_do_Inr pure_Inr phone_connect_def split: if_splits)

lemma write_msg_run:
  assumes "write_msg (iroh_net dm node key) stream m s = (s', Inr u)" and "world_of_run dm node l0 (snd s)"
  shows "world_of_run dm node l0 (snd s') \<and> fst s' = fst s"
  using assms write_run [of dm node l0 "snd s" m] by (auto simp: write_msg_def split: prod.splits)

lemma read_msg_run:
  assumes "read_msg (iroh_net dm node key) stream s = (s', Inr m)" and "world_of_run dm node l0 (snd s)"
  shows "world_of_run dm node l0 (snd s') \<and> fst s' = fst s \<and> m \<in> set (ir_sent (iw_conn (snd s')))"
proof -
  obtain w r where r: "iroh_read dm node (snd s) = (w, r)" by fastforce
  then have "s' = (fst s, w)" "r = Inr m"
    using assms(1) by (auto simp: read_msg_def read_msg_from_def
        split: sum.splits read_error.splits messagepack_error.splits)
  with read_run [OF assms(2) r] show ?thesis by simp
qed

definition pairing_begun ::
    "phone_crates \<Rightarrow> 'm daemon_side \<Rightarrow> rstr \<Rightarrow> bytes \<Rightarrow> 'm iroh_state \<Rightarrow> pairing_ticket \<Rightarrow> phone \<Rightarrow>
     phone \<times> 'm iroh_world \<Rightarrow> pending_pairing \<Rightarrow> bool" where
  "pairing_begun pk dm node key l0 ticket c s p \<longleftrightarrow> world_of_run dm node l0 (snd s) \<and>
     PairingPending (pp_sas p) \<in> set (ir_sent (iw_conn (snd s))) \<and> pp_target p = from_ticket ticket \<and>
     pp_gate p = gate_default \<and> pp_stream p \<noteq> None \<and> pp_device_node_id p = node \<and>
     (\<exists>k. pk_parse_node pk (pt_node_id ticket) = Inr k \<and>
        pp_sas p = pairing_sas (pk_sha256 pk) (normalize_code (pt_code ticket)) k key) \<and>
     cl_daemon (fst s) = cl_daemon c \<and> cl_secret_key (fst s) = cl_secret_key c"

lemma pair_with_ticket_begun:
  assumes p: "pair_with_ticket pk (iroh_net dm node key) ticket s = (s', Inr p)"
    and w: "world_of_run dm node l0 (snd s)"
  shows "pairing_begun pk dm node key l0 ticket (fst s) s' p"
proof -
  let ?net = "iroh_net dm node key" and ?target = "from_ticket ticket"
  obtain relay s1 e stream s2 s3 s4 s5 wel u v
    where e: "phone_endpoint ?net relay s = (s1, Inr e)"
      and o: "open_stream pk ?net e ?target s1 = (s2, Inr stream)"
      and h: "write_hello pk ?net stream s2 = (s3, Inr u)"
      and wl: "expect_welcome pk ?net stream s3 = (s4, Inr wel)"
      and pw: "write_msg ?net stream (PairWithCode (normalize_code (pt_code ticket))
        (cf_device_name (cl_config (fst s))) node) s4 = (s5, Inr v)"
      and rest: "then_do (read_msg ?net stream) (\<lambda>reply. check_pending pk ?net ?target
        (normalize_code (pt_code ticket)) e stream wel reply) s5 = (s', Inr p)"
    using p by (auto simp: pair_with_ticket_def Let_def then_do_Inr pure_Inr split: if_splits)
  obtain s6 reply where rd: "read_msg ?net stream s5 = (s6, Inr reply)"
    and ck: "check_pending pk ?net ?target (normalize_code (pt_code ticket)) e stream wel reply s6 = (s', Inr p)"
    using rest by (auto simp: then_do_Inr)
  have 2: "snd s2 = snd s" "cl_daemon (fst s2) = cl_daemon (fst s)" "cl_secret_key (fst s2) = cl_secret_key (fst s)"
    using endpoint_run [OF e] open_run [OF o] by auto
  have "world_of_run dm node l0 (snd s2)" using w 2(1) by simp
  note 3 = write_msg_run [OF h [unfolded write_hello_def] this]
  obtain m where "read_msg ?net stream s3 = (s4, Inr m)"
    using wl by (auto simp: expect_welcome_def then_do_Inr pure_Inr)
  then have 4: "world_of_run dm node l0 (snd s4) \<and> fst s4 = fst s3" using read_msg_run 3 by blast
  have 5: "world_of_run dm node l0 (snd s5) \<and> fst s5 = fst s4" using write_msg_run pw 4 by blast
  have 6: "world_of_run dm node l0 (snd s6) \<and> fst s6 = fst s5 \<and> reply \<in> set (ir_sent (iw_conn (snd s6)))"
    using read_msg_run rd 5 by blast
  obtain sas where "reply = PairingPending sas" and k: "expected_pairing_sas pk (normalize_code (pt_code ticket))
      (dt_node_id ?target) key = Inr sas" and s': "s' = s6"
    and pp: "pp_sas p = sas" "pp_target p = ?target" "pp_gate p = gate_default" "pp_stream p = Some stream"
      "pp_device_node_id p = node"
    using ck by (cases reply)
      (auto simp: check_pending_def then_do_Inr pure_Inr close_streams_def split: if_splits)
  then show ?thesis
    using 2 3 4 5 6 k by (auto simp: pairing_begun_def expected_pairing_sas_def from_ticket_def
        split: sum.splits)
qed

text \<open>C5 [phone_and_daemon_agree].  A phone that ends up paired and the daemon it paired with agree
  on it: the user confirmed a fingerprint that a prompt at the desktop showed for this very
  phone, made from the code and the two keys; the operator said yes there; the daemon saved
  the phone as a paired device; and the phone saved this daemon, the one whose ticket it
  scanned.  This holds whatever else the daemon does and however the connection fails.\<close>

theorem phone_and_daemon_agree:
  assumes greeting: "ir_phase (iw_conn w) = IrohGreeting" "ir_sent (iw_conn w) = []" "iw_log w = []"
    and new: "\<not> is_device_paired (ir_app (iw_conn w)) node" "pm_answers (ap_pairing (ir_app (iw_conn w))) = Map.empty"
    and others: "\<forall>st \<in> set (iw_plan w). \<forall>ev \<in> set (ps_events st). \<not> saves_node node ev"
    and begun: "pair_with_ticket pk (iroh_net dm node key) ticket (c, w) = ((c1, w1), Inr p)"
    and yes: "confirm_begin p = (p1, Inr stream)" and frame: "iroh_read dm node w1 = (w2, r)"
    and paired: "confirm_reply pk r c1 p1 = (c2, p2, closed, Inr info)"
  shows "cl_daemon c2 = Some (from_ticket ticket) \<and> di_daemon_node_id info = pt_node_id ticket \<and>
    di_device_node_id info = node \<and>
    (\<exists>k. pk_parse_node pk (pt_node_id ticket) = Inr k \<and>
       pp_sas p = pairing_sas (pk_sha256 pk) (normalize_code (pt_code ticket)) k key) \<and>
    at_some_time (daemon_run dm node) (iw_conn w) (iw_log w2) (\<lambda>s. prompted node (pp_sas p) (ap_pairing s)) \<and>
    (\<exists>rid. RestPairing (Approve rid True) \<in> set (iw_log w2)) \<and>
    at_some_time (daemon_run dm node) (iw_conn w) (iw_log w2) (\<lambda>s. is_device_paired s node)"
proof -
  let ?l0 = "iw_conn w"
  have "world_of_run dm node ?l0 w"
    using greeting(3) others by (simp add: world_of_run_def daemon_run_def list_all_iff)
  then have b: "pairing_begun pk dm node key ?l0 ticket c (c1, w1) p"
    using pair_with_ticket_begun [OF begun, of ?l0] by simp
  then have w1: "world_of_run dm node ?l0 w1" and sent: "PairingPending (pp_sas p) \<in> set (ir_sent (iw_conn w1))"
    by (simp_all add: pairing_begun_def)
  have w2: "world_of_run dm node ?l0 w2" "\<And>m. r = Inr m \<Longrightarrow> m \<in> set (ir_sent (iw_conn w2))"
    using read_run [OF w1 frame] by auto
  have news: "news_true (daemon_run dm node) node ?l0 (iw_log w') m"
    if "world_of_run dm node ?l0 w'" "m \<in> set (ir_sent (iw_conn w'))" for w' m
    using run_news [OF greeting(1,2) new, of "iw_log w'"] that
    by (simp add: world_of_run_def daemon_run_def)
  have log: "\<exists>evs. iw_log w2 = iw_log w1 @ evs"
    using frame by (auto simp: iroh_read_def happen_def Let_def split: list.splits if_splits)
  have p1: "pp_target p1 = from_ticket ticket" "pp_device_node_id p1 = node"
    using yes b by (auto simp: confirm_begin_def pairing_begun_def split: prod.splits sum.splits option.splits)
  obtain d where d: "completed_by pk (pp_target p1) r = Inr d" "cl_daemon c2 = Some (pp_target p1)"
    "info = daemon_info_of c1 p1 d"
    using paired by (auto simp: confirm_reply_def split: sum.splits prod.splits)
  then have r: "r = Inr (PairingComplete (pt_node_id ticket))" "d = pt_node_id ticket"
    by (auto simp: completed_by_def p1 from_ticket_def read_msg_from_def
        split: sum.splits server_msg.splits if_splits read_error.splits messagepack_error.splits)
  have "at_some_time (daemon_run dm node) ?l0 (iw_log w2) (\<lambda>s. prompted node (pp_sas p) (ap_pairing s))"
    using news [OF w1 sent] log at_some_time_more by (fastforce simp: news_true_def)
  moreover have "at_some_time (daemon_run dm node) ?l0 (iw_log w2) (\<lambda>s. is_device_paired s node) \<and>
      (\<exists>rid. RestPairing (Approve rid True) \<in> set (iw_log w2))"
    using news [OF w2(1) w2(2) [OF r(1)]] by (simp add: news_true_def)
  ultimately show ?thesis
    using b p1 d r by (simp add: pairing_begun_def daemon_info_of_def)
qed

end
