(* ===== verification/PhoneMeet.thy ===== *)
theory PhoneMeet
  imports PhonePair
begin

text \<open>
  The pairing ceremony when nothing fails: a phone with a ticket of a pending code is paired
  when the operator says yes, and turned away when the operator says no.
\<close>

section \<open>The daemon's side\<close>

definition served :: "'m daemon_side \<Rightarrow> rstr \<Rightarrow> mobile_platform \<Rightarrow> iroh_conn" where
  "served dm node platform = \<lparr>ic_conn = \<lparr>cn_client_id = ds_client dm, cn_kind = client_kind_of platform,
     cn_attachment = None, cn_forwarder = None, cn_listing = False\<rparr>, ic_version = CONTRACT_VERSION,
     ic_node = node, ic_paired = False, ic_seen = None\<rparr>"

definition welcomed :: "'m daemon_side \<Rightarrow> 'm app \<Rightarrow> server_msg" where
  "welcomed dm s = Welcome (ds_client dm) (ds_version dm) (app_capabilities s) (ds_host dm)"

lemma daemon_hello:
  assumes "ir_phase l = IrohGreeting" and "\<not> is_device_paired (ir_app l) node"
    and "0 < cc_written (ix_call ctx)"
  shows "daemon_run dm node l [Peer ctx (Some (Hello (client_kind_of platform) version CONTRACT_VERSION))] =
    l\<lparr>ir_sent := ir_sent l @ [welcomed dm (ir_app l)], ir_phase := IrohServing (served dm node platform)\<rparr>"
proof -
  have "iroh_client_kind_error (client_kind_of platform) = None"
    by (cases platform) (simp_all add: iroh_client_kind_error_def)
  moreover have "iroh_version_is_accepted CONTRACT_VERSION False" by (simp add: iroh_version_is_accepted_def)
  ultimately show ?thesis
    using assms by (simp add: daemon_run_def iroh_step_def accept_iroh_hello_def Let_def served_def welcomed_def)
qed

text \<open>A request that becomes pending: its state, and what the prompt shows.\<close>

definition approval_of :: "iroh_context \<Rightarrow> pending_pair_code \<Rightarrow> pending_approval" where
  "approval_of ctx pending = \<lparr>pa_request_id = ix_request_id ctx,
     pa_remaining_ms = pc_expires_at pending - cc_now (ix_call ctx)\<rparr>"

lemma daemon_pair:
  assumes ph: "ir_phase l = IrohServing (served dm node platform)" and app: "s = ir_app l"
    and ids: "iroh_node_id s = Some d" "ds_key dm d = Some dk" "ds_key dm node = Some key"
    and code: "normalize_code code = code" "pm_codes (ap_pairing s) code = Some pending"
    and ctx: "cc_now (ix_call ctx) < pc_expires_at pending" "ix_prompt_open ctx (pc_prompt pending)"
      "0 < cc_written (ix_call ctx)" "fresh_id s (sp_id (cc_spawn (ix_call ctx)))"
  shows "\<exists>pm. daemon_run dm node l [Peer ctx (Some (PairWithCode code name node))] =
      l\<lparr>ir_sent := ir_sent l @ [PairingPending (pairing_sas (sha256 (ds_crates dm)) code dk key)],
        ir_app := s\<lparr>ap_pairing := pm\<rparr>,
        ir_phase := IrohApproval (served dm node platform) name (approval_of ctx pending)\<rparr> \<and>
    ix_request_id ctx \<in> pm_approvals pm"
proof -
  let ?sas = "pairing_sas (sha256 (ds_crates dm)) code dk key"
  obtain pm where b: "begin_approval (cc_now (ix_call ctx)) (ix_request_id ctx) (ix_prompt_open ctx) code name
      node ?sas (ap_pairing s) = (Inr (approval_of ctx pending), pm)"
    and pm: "ix_request_id ctx \<in> pm_approvals pm"
    using code(2) ctx by (auto simp: begin_approval_def Let_def approval_of_def)
  have "handle_iroh (ds_parser dm) (ds_crates dm) (ds_key dm) ctx (PairWithCode code name node)
      (served dm node platform) s = ([PairingPending ?sas],
        AwaitOperator (served dm node platform) name (approval_of ctx pending), s\<lparr>ap_pairing := pm\<rparr>)"
    using ids code(1) b
    by (simp add: handle_iroh_def handle_pair_with_code_def served_def pairing_peer_identity_error_def
        authenticated_pairing_sas_def)
  then show ?thesis
    using ph app ctx pm
    by (intro exI [of _ pm]) (simp add: daemon_run_def iroh_step_def conclude_def)
qed

lemma persist_pairing: "fst (persist_device cr nonce fault d (s\<lparr>ap_pairing := pm\<rparr>)) =
    fst (persist_device cr nonce fault d s)"
  by (simp add: persist_device_def split: option.split prod.split)

lemma daemon_answer:
  assumes ph: "ir_phase l = IrohApproval (served dm node platform) name approval"
    and rid: "pa_request_id approval \<in> pm_approvals (ap_pairing (ir_app l))"
    and ctx: "0 < cc_written (ix_call ctx)"
    and save: "fst (persist_device (ds_crates dm) (ix_nonce ctx) (cc_fault (ix_call ctx))
      (stored_device_new (cc_now (ix_call ctx)) name node) (ir_app l)) = None"
    and id: "iroh_node_id (ir_app l) = Some d" and new: "\<not> is_device_paired (ir_app l) node"
    and l': "l' = daemon_run dm node l [RestPairing (Approve (pa_request_id approval) yes), ApprovalOver ctx True]"
  shows "ir_sent l' = ir_sent l @ [if yes then PairingComplete d else forbidden ''pairing denied on laptop''] \<and>
    is_device_paired (ir_app l') node = yes"
proof -
  define pm where "pm = snd (approve (pa_request_id approval) yes (ap_pairing (ir_app l)))"
  define l1 where "l1 = l\<lparr>ir_app := (ir_app l)\<lparr>ap_pairing := pm\<rparr>\<rparr>"
  have l1: "l' = daemon_run dm node l1 [ApprovalOver ctx True]"
    unfolding l' by (simp add: daemon_run_def iroh_step_def pairing_step_def l1_def pm_def)
  define s1 where "s1 = (ir_app l1)\<lparr>ap_pairing := snd (approval_wait True approval pm)\<rparr>"
  have w: "approval_wait True approval (ap_pairing (ir_app l1)) = (yes, snd (approval_wait True approval pm))"
    using rid by (simp add: approval_wait_def l1_def pm_def approve_def)
  have ph1: "ir_phase l1 = IrohApproval (served dm node platform) name approval" "ir_sent l1 = ir_sent l"
    using ph by (simp_all add: l1_def)
  have node: "ic_node (served dm node platform) = node" by (simp add: served_def)
  show ?thesis
  proof (cases yes)
    case False
    have "finish_pairing (ds_crates dm) ctx True (served dm node platform) name approval (ir_app l1) =
        ([forbidden ''pairing denied on laptop''], Keep (served dm node platform), s1)"
      using w False by (simp add: finish_pairing_def s1_def)
    then show ?thesis
      using ph1 ctx new False unfolding l1
      by (simp add: daemon_run_def iroh_step_def conclude_def is_device_paired_def s1_def l1_def)
  next
    case True
    have "fst (persist_device (ds_crates dm) (ix_nonce ctx) (cc_fault (ix_call ctx))
        (stored_device_new (cc_now (ix_call ctx)) name node) s1) = None"
      using save by (simp add: s1_def l1_def persist_pairing)
    then obtain s2 where s2: "app_save_device (ds_crates dm) (ix_nonce ctx) (cc_fault (ix_call ctx))
        (stored_device_new (cc_now (ix_call ctx)) name node) s1 = (None, s2)" "is_device_paired s2 node"
        "iroh_node_id s2 = Some d"
      using id by (auto simp: app_save_device_def is_device_paired_def update_conv' stored_device_new_def
          iroh_node_id_def persist_device_def s1_def l1_def split: option.splits prod.splits)
    define s3 where "s3 = subscribe_device_revocation node s2"
    have s3: "is_device_paired s3 node" "iroh_node_id s3 = Some d"
      using s2(2,3) by (simp_all add: s3_def is_device_paired_def iroh_node_id_def
          subscribe_device_revocation_def split: option.split)
    have "finish_pairing (ds_crates dm) ctx True (served dm node platform) name approval (ir_app l1) =
        ([PairingComplete d], Keep ((served dm node platform)\<lparr>ic_paired := True, ic_seen := ap_revocations s3 node\<rparr>), s3)"
      using w True s2(1) s3 by (simp add: finish_pairing_def s1_def [symmetric] node s3_def Let_def)
    then show ?thesis
      using ph1 ctx True s3 unfolding l1 by (simp add: daemon_run_def iroh_step_def conclude_def)
  qed
qed

section \<open>The phone's side\<close>

definition calm :: "iroh_context \<Rightarrow> plan_step" where
  "calm ctx = \<lparr>ps_events = [], ps_context = ctx, ps_ok = True\<rparr>"

definition answered :: "iroh_context \<Rightarrow> client_id \<Rightarrow> bool \<Rightarrow> plan_step" where
  "answered ctx rid yes = \<lparr>ps_events = [RestPairing (Approve rid yes), ApprovalOver ctx True],
     ps_context = ctx, ps_ok = True\<rparr>"

lemma iroh_write_calm:
  "iw_plan w = calm ctx # rest \<Longrightarrow> iroh_write dm node m w = (w\<lparr>iw_plan := rest,
     iw_conn := daemon_run dm node (iw_conn w) [Peer ctx (Some m)], iw_log := iw_log w @ [Peer ctx (Some m)]\<rparr>, None)"
  by (simp add: iroh_write_def calm_def happen_def)

lemma iroh_read_calm:
  "iw_plan w = calm ctx # rest \<Longrightarrow> iw_read w < length (ir_sent (iw_conn w)) \<Longrightarrow>
    iroh_read dm node w = (w\<lparr>iw_plan := rest, iw_read := Suc (iw_read w)\<rparr>, Inr (ir_sent (iw_conn w) ! iw_read w))"
  by (simp add: iroh_read_def calm_def happen_def daemon_run_def Let_def)

lemma iroh_read_answered:
  assumes "iw_plan w = answered ctx rid yes # rest"
    and "l' = daemon_run dm node (iw_conn w) [RestPairing (Approve rid yes), ApprovalOver ctx True]"
    and "iw_read w < length (ir_sent l')"
  shows "\<exists>w'. iroh_read dm node w = (w', Inr (ir_sent l' ! iw_read w)) \<and> iw_conn w' = l'"
  using assms by (simp add: iroh_read_def answered_def happen_def from_peer_def Let_def)

text \<open>What phone and daemon have to have in common.\<close>

definition well_met :: "phone_crates \<Rightarrow> 'm daemon_side \<Rightarrow> rstr \<Rightarrow> bytes \<Rightarrow> 'm app \<Rightarrow> pairing_ticket \<Rightarrow> bool" where
  "well_met pk dm node key s ticket \<longleftrightarrow> iroh_node_id s = Some (pt_node_id ticket) \<and>
     ds_key dm node = Some key \<and> endpoint_addr pk (from_ticket ticket) = Inr () \<and>
     (\<exists>dk. ds_key dm (pt_node_id ticket) = Some dk \<and> pk_parse_node pk (pt_node_id ticket) = Inr dk) \<and>
     sha256 (ds_crates dm) = pk_sha256 pk \<and> is_valid_code (normalize_code (pt_code ticket))"

lemma normalize_valid: "is_valid_code (normalize_code s) \<Longrightarrow> normalize_code (normalize_code s) = normalize_code s"
  by (intro normalize_code_alphabet) (simp add: is_valid_code_def)

text \<open>The phone's part up to the fingerprint.\<close>

definition bound :: "phone \<Rightarrow> phone" where
  "bound c = (case cl_endpoint c of Some _ \<Rightarrow> c | None \<Rightarrow> c\<lparr>cl_endpoint := Some 0\<rparr>)"

lemma bound_simps [simp]: "cl_config (bound c) = cl_config c" "cl_daemon (bound c) = cl_daemon c"
  by (simp_all add: bound_def split: option.split)

definition hello_of :: "phone_crates \<Rightarrow> phone \<Rightarrow> client_msg" where
  "hello_of pk c = Hello (client_kind_of (cf_platform (cl_config c))) (pk_client_version pk) CONTRACT_VERSION"

definition ask_of :: "phone \<Rightarrow> rstr \<Rightarrow> pairing_ticket \<Rightarrow> client_msg" where
  "ask_of c node ticket = PairWithCode (normalize_code (pt_code ticket)) (cf_device_name (cl_config c)) node"

lemma phone_begins:
  assumes met: "well_met pk dm node key s ticket" "s = ir_app (iw_conn w)"
    and dk: "pk_parse_node pk (pt_node_id ticket) = Inr dk"
    and sas: "sas = pairing_sas (pk_sha256 pk) (normalize_code (pt_code ticket)) dk key"
    and plan: "iw_plan w = [calm ctx1, calm ctx1, calm ctx2, calm ctx2, last_step]" and rd: "iw_read w = 0"
    and l1: "daemon_run dm node (iw_conn w) [Peer ctx1 (Some (hello_of pk c))] = l1"
      "ir_sent l1 = [welcomed dm s]"
    and l2: "daemon_run dm node l1 [Peer ctx2 (Some (ask_of c node ticket))] = l2"
      "ir_sent l2 = [welcomed dm s, PairingPending sas]"
  shows "\<exists>w1 p. pair_with_ticket pk (iroh_net dm node key) ticket (c, w) = ((bound c, w1), Inr p) \<and>
    iw_plan w1 = [last_step] \<and> iw_conn w1 = l2 \<and> iw_read w1 = 2 \<and>
    pp_target p = from_ticket ticket \<and> pp_stream p = Some 0 \<and> pp_gate p = gate_default"
proof -
  let ?net = "iroh_net dm node key" and ?target = "from_ticket ticket"
  define e where "e = (case cl_endpoint c of Some e \<Rightarrow> e | None \<Rightarrow> 0)"
  define wa where "wa = w\<lparr>iw_plan := tl (iw_plan w), iw_conn := l1,
    iw_log := iw_log w @ [Peer ctx1 (Some (hello_of pk c))]\<rparr>"
  define wb where "wb = wa\<lparr>iw_plan := tl (iw_plan wa), iw_read := 1\<rparr>"
  define wc where "wc = wb\<lparr>iw_plan := tl (iw_plan wb), iw_conn := l2,
    iw_log := iw_log wb @ [Peer ctx2 (Some (ask_of c node ticket))]\<rparr>"
  define w1 where "w1 = wc\<lparr>iw_plan := [last_step], iw_read := 2\<rparr>"
  obtain wel where wel: "welcome_info pk (welcomed dm s) = Inr wel"
    by (simp add: welcome_info_def welcomed_def)
  define p where "p = \<lparr>pp_sas = sas, pp_target = ?target, pp_welcome = wel, pp_device_node_id = node,
    pp_stream = Some 0, pp_gate = gate_default\<rparr>"
  note met' = met(1) [unfolded well_met_def]
  obtain relay where relay: "parsed_relay pk ?target = Inr relay"
    using met' by (auto simp: endpoint_addr_def split: sum.splits)
  have 1: "phone_endpoint ?net relay (c, w) = ((bound c, w), Inr e)"
    by (simp add: phone_endpoint_def bound_def e_def split: option.split)
  have 2: "open_stream pk ?net e ?target (bound c, w) = ((bound c, w), Inr 0)"
    using met' met(2) by (simp add: open_stream_def then_do_def pure_def phone_connect_def from_ticket_def)
  have 3: "write_hello pk ?net 0 (bound c, w) = ((bound c, wa), Inr ())"
    using iroh_write_calm [OF plan, of dm node "hello_of pk c"]
    by (simp add: write_hello_def write_msg_def hello_of_def [symmetric] l1 wa_def plan write_msg_to_def)
  have 4: "expect_welcome pk ?net 0 (bound c, wa) = ((bound c, wb), Inr wel)"
    using iroh_read_calm [of wa ctx1 _ dm node]
    by (simp add: expect_welcome_def then_do_def read_msg_def wa_def plan rd l1 wb_def pure_def wel
        read_msg_from_def)
  have 5: "write_msg ?net 0 (ask_of c node ticket) (bound c, wb) = ((bound c, wc), Inr ())"
    using iroh_write_calm [of wb ctx2 _ dm node "ask_of c node ticket"]
    by (simp add: write_msg_def wb_def wa_def plan l2 wc_def write_msg_to_def)
  have 6: "read_msg ?net 0 (bound c, wc) = ((bound c, w1), Inr (PairingPending sas))"
    using iroh_read_calm [of wc ctx2 _ dm node]
    by (simp add: read_msg_def wc_def wb_def wa_def plan l2 w1_def read_msg_from_def)
  have 7: "check_pending pk ?net ?target (normalize_code (pt_code ticket)) e 0 wel (PairingPending sas)
      (bound c, w1) = ((bound c, w1), Inr p)"
    by (simp add: check_pending_def then_do_def pure_def expected_pairing_sas_def from_ticket_def dk sas p_def)
  have "pair_with_ticket pk ?net ticket (c, w) = ((bound c, w1), Inr p)"
    using met' relay 1 2 3 4 5 [unfolded ask_of_def] 6 7
    by (simp add: pair_with_ticket_def then_do_def pure_def Let_def)
  moreover have "iw_plan w1 = [last_step]" "iw_conn w1 = l2" "iw_read w1 = 2"
    by (simp_all add: w1_def wc_def)
  moreover have "pp_target p = ?target" "pp_stream p = Some 0" "pp_gate p = gate_default"
    by (simp_all add: p_def)
  ultimately show ?thesis by blast
qed

text \<open>And from the user's yes.\<close>

definition denied :: server_msg where "denied = forbidden ''pairing denied on laptop''"

lemma phone_ends:
  assumes p: "pp_target p = from_ticket ticket" "pp_stream p = Some stream" "pp_gate p = gate_default"
  shows "\<exists>p1. confirm_begin p = (p1, Inr stream) \<and>
    (case confirm_reply pk (Inr (if yes then PairingComplete (pt_node_id ticket) else denied)) c p1 of
      (c2, _, _, result) \<Rightarrow>
        if yes then (\<exists>info. result = Inr info) \<and> cl_daemon c2 = Some (from_ticket ticket)
        else result = Inl (ForbiddenFault (lit ''pairing denied on laptop'')) \<and> cl_daemon c2 = cl_daemon c)"
  by (cases yes) (simp_all add: p confirm_begin_def confirm_local_def gate_default_def confirm_reply_def
      completed_by_def read_msg_from_def from_ticket_def open_gate_def record_daemon_completed_def
      mark_persisted_def ready_to_persist_def unexpected_reply_def forbidden_def denied_def)

lemma ceremony:
  assumes l0: "ir_phase (iw_conn w) = IrohGreeting" "ir_sent (iw_conn w) = []" "iw_read w = 0"
    and s: "s = ir_app (iw_conn w)" "\<not> is_device_paired s node" "well_met pk dm node key s ticket"
    and code: "pm_codes (ap_pairing s) (normalize_code (pt_code ticket)) = Some pending"
      "cc_now (ix_call ctx2) < pc_expires_at pending" "ix_prompt_open ctx2 (pc_prompt pending)"
    and plan: "iw_plan w = [calm ctx1, calm ctx1, calm ctx2, calm ctx2, answered ctx3 (ix_request_id ctx2) yes]"
    and ctx: "\<forall>ctx \<in> {ctx1, ctx2, ctx3}. 0 < cc_written (ix_call ctx)" "fresh_id s (sp_id (cc_spawn (ix_call ctx2)))"
    and save: "fst (persist_device (ds_crates dm) (ix_nonce ctx3) (cc_fault (ix_call ctx3))
      (stored_device_new (cc_now (ix_call ctx3)) (cf_device_name (cl_config c)) node) s) = None"
  shows "\<exists>c1 w1 p p1 stream w2 r. pair_with_ticket pk (iroh_net dm node key) ticket (c, w) = ((c1, w1), Inr p) \<and>
    confirm_begin p = (p1, Inr stream) \<and> iroh_read dm node w1 = (w2, r) \<and>
    (case confirm_reply pk r c1 p1 of (c2, _, _, result) \<Rightarrow>
       if yes then (\<exists>info. result = Inr info) \<and> cl_daemon c2 = Some (from_ticket ticket)
       else result = Inl (ForbiddenFault (lit ''pairing denied on laptop'')) \<and> cl_daemon c2 = cl_daemon c) \<and>
    is_device_paired (ir_app (iw_conn w2)) node = yes"
proof -
  let ?code = "normalize_code (pt_code ticket)" and ?name = "cf_device_name (cl_config c)"
  let ?dev = "served dm node (cf_platform (cl_config c))"
  obtain dk where met: "iroh_node_id s = Some (pt_node_id ticket)" "ds_key dm node = Some key"
    "ds_key dm (pt_node_id ticket) = Some dk" "pk_parse_node pk (pt_node_id ticket) = Inr dk"
    "sha256 (ds_crates dm) = pk_sha256 pk" "is_valid_code ?code"
    using s(3) by (auto simp: well_met_def)
  define sas where "sas = pairing_sas (pk_sha256 pk) ?code dk key"
  define l1 where "l1 = (iw_conn w)\<lparr>ir_sent := [welcomed dm s], ir_phase := IrohServing ?dev\<rparr>"
  have l1: "daemon_run dm node (iw_conn w) [Peer ctx1 (Some (hello_of pk c))] = l1"
    using daemon_hello [of "iw_conn w" node ctx1 dm "cf_platform (cl_config c)" "pk_client_version pk"]
      l0 s ctx(1) by (simp add: hello_of_def l1_def)
  have l1': "ir_phase l1 = IrohServing ?dev" "s = ir_app l1" "ir_sent l1 = [welcomed dm s]"
    by (simp_all add: l1_def s)
  have "0 < cc_written (ix_call ctx2)" using ctx(1) by simp
  from daemon_pair [OF l1'(1,2) met(1,3,2) normalize_valid [OF met(6)] code this ctx(2), of ?name]
  obtain l2 pm where l2: "daemon_run dm node l1 [Peer ctx2 (Some (ask_of c node ticket))] = l2"
    "ir_sent l2 = [welcomed dm s, PairingPending sas]" "ir_app l2 = s\<lparr>ap_pairing := pm\<rparr>"
    "ir_phase l2 = IrohApproval ?dev ?name (approval_of ctx2 pending)" "ix_request_id ctx2 \<in> pm_approvals pm"
    unfolding met(5) ask_of_def sas_def by (auto simp: l1'(3))
  obtain w1 p where 1: "pair_with_ticket pk (iroh_net dm node key) ticket (c, w) = ((bound c, w1), Inr p)"
    "iw_plan w1 = [answered ctx3 (ix_request_id ctx2) yes]" "iw_conn w1 = l2" "iw_read w1 = 2"
    "pp_target p = from_ticket ticket" "pp_stream p = Some 0" "pp_gate p = gate_default"
    using phone_begins [OF s(3,1) met(4) sas_def plan l0(3) l1 l1'(3) l2(1,2)] by blast
  define l3 where "l3 = daemon_run dm node l2 [RestPairing (Approve (ix_request_id ctx2) yes), ApprovalOver ctx3 True]"
  have l3: "ir_sent l3 = ir_sent l2 @ [if yes then PairingComplete (pt_node_id ticket) else denied]"
    "is_device_paired (ir_app l3) node = yes"
    using daemon_answer [where ctx = ctx3 and yes = yes, OF l2(4) _ _ _ _ _ refl] l2(5) ctx(1) save met(1) s(2)
    by (simp_all add: l2(3) l3_def approval_of_def persist_pairing iroh_node_id_def is_device_paired_def denied_def)
  obtain w2 where w2: "iroh_read dm node w1 = (w2, Inr (ir_sent l3 ! 2))" "iw_conn w2 = l3"
    using iroh_read_answered [OF 1(2), of l3 dm node] l3(1) l2(2) by (auto simp: 1(3,4) l3_def)
  have msg: "ir_sent l3 ! 2 = (if yes then PairingComplete (pt_node_id ticket) else denied)"
    using l3(1) l2(2) by simp
  obtain p1 where ends: "confirm_begin p = (p1, Inr 0)"
    "case confirm_reply pk (Inr (ir_sent l3 ! 2)) (bound c) p1 of (c2, _, _, result) \<Rightarrow>
      if yes then (\<exists>info. result = Inr info) \<and> cl_daemon c2 = Some (from_ticket ticket)
      else result = Inl (ForbiddenFault (lit ''pairing denied on laptop'')) \<and> cl_daemon c2 = cl_daemon c"
    using phone_ends [OF 1(5-7), where pk = pk and yes = yes and c = "bound c"] unfolding msg by auto
  have saved: "is_device_paired (ir_app (iw_conn w2)) node = yes" using w2(2) l3(2) by simp
  show ?thesis
    by (rule exI [of _ "bound c"], rule exI [of _ w1], rule exI [of _ p], rule exI [of _ p1],
        rule exI [of _ 0], rule exI [of _ w2], rule exI [of _ "Inr (ir_sent l3 ! 2)"])
      (intro conjI 1(1) ends w2(1) saved)
qed

text \<open>C6 [pairing_completes].  With a ticket whose code is pending, a prompt that is still open and
  a connection that holds, the ceremony ends the way the operator answers: on a yes the phone
  saves the daemon and the daemon has saved the phone; on a no neither has.\<close>

theorem pairing_completes:
  assumes l0: "ir_phase (iw_conn w) = IrohGreeting" "ir_sent (iw_conn w) = []" "iw_read w = 0"
    and s: "s = ir_app (iw_conn w)" "\<not> is_device_paired s node" "well_met pk dm node key s ticket"
    and code: "pm_codes (ap_pairing s) (normalize_code (pt_code ticket)) = Some pending"
      "cc_now (ix_call ctx2) < pc_expires_at pending" "ix_prompt_open ctx2 (pc_prompt pending)"
    and plan: "iw_plan w = [calm ctx1, calm ctx1, calm ctx2, calm ctx2, answered ctx3 (ix_request_id ctx2) yes]"
    and ctx: "\<forall>ctx \<in> {ctx1, ctx2, ctx3}. 0 < cc_written (ix_call ctx)" "fresh_id s (sp_id (cc_spawn (ix_call ctx2)))"
    and save: "fst (persist_device (ds_crates dm) (ix_nonce ctx3) (cc_fault (ix_call ctx3))
      (stored_device_new (cc_now (ix_call ctx3)) (cf_device_name (cl_config c)) node) s) = None"
  shows "\<exists>c1 w1 p p1 stream w2 r. pair_with_ticket pk (iroh_net dm node key) ticket (c, w) = ((c1, w1), Inr p) \<and>
    confirm_begin p = (p1, Inr stream) \<and> iroh_read dm node w1 = (w2, r) \<and>
    (case confirm_reply pk r c1 p1 of (c2, _, _, result) \<Rightarrow>
       if yes then (\<exists>info. result = Inr info) \<and> cl_daemon c2 = Some (from_ticket ticket)
       else result = Inl (ForbiddenFault (lit ''pairing denied on laptop'')) \<and> cl_daemon c2 = cl_daemon c) \<and>
    is_device_paired (ir_app (iw_conn w2)) node = yes"
  by (rule ceremony [OF assms])

section \<open>A phone and a daemon\<close>

definition meet_phone :: phone where
  "meet_phone = \<lparr>cl_config = \<lparr>cf_device_name = lit ''phone'', cf_platform = Ios, cf_device_secret_key = None,
       cf_paired_daemon = None, cf_relay_control_url = None\<rparr>,
     cl_secret_key = replicate 32 7, cl_daemon = None, cl_endpoint = None, cl_last_daemon_version = None,
     cl_last_host_name = None\<rparr>"

definition meet_crates :: phone_crates where
  "meet_crates = \<lparr>pk_parse_node = (\<lambda>s. if s = lit ''node'' then Inr (replicate 32 1) else Inl []),
     pk_parse_relay = (\<lambda>_. Inr ()), pk_parse_addr = (\<lambda>_. Inr ()), pk_parse_uuid = (\<lambda>_. Inl []),
     pk_uuid_text = dec, pk_debug = (\<lambda>_. []), pk_decode_ticket = (\<lambda>_. Inr sample_ticket),
     pk_sha256 = sha256 demo_persist, pk_client_version = lit ''1.0''\<rparr>"

definition meet_daemon :: "unit daemon_side" where
  "meet_daemon = \<lparr>ds_parser = demo_parser, ds_events = (\<lambda>_. None), ds_crates = demo_persist,
     ds_key = (\<lambda>s. if s = lit ''node'' then Some (replicate 32 1) else Some (replicate 32 2)),
     ds_client = ClientId 4, ds_version = lit ''1.0'', ds_host = lit ''desk''\<rparr>"

definition meet_app :: "unit app" where
  "meet_app = demo_app\<lparr>ap_devices := [], ap_persistence := None,
     ap_endpoint := Some \<lparr>ep_node_id = lit ''node'', ep_relay_url = None, ep_addrs = []\<rparr>,
     ap_pairing := pairing_new\<lparr>pm_codes := [lit ''AB234CD'' \<mapsto>
       \<lparr>pc_expires_at = 60000, pc_attempts = 0, pc_prompt = 0\<rparr>]\<rparr>\<rparr>"

definition meet_world :: "bool \<Rightarrow> unit iroh_world" where
  "meet_world yes = \<lparr>iw_conn = \<lparr>ir_phase = IrohGreeting, ir_sent = [], ir_app = meet_app\<rparr>, iw_read = 0,
     iw_plan = [calm demo_ictx, calm demo_ictx, calm demo_ictx, calm demo_ictx, answered demo_ictx (ClientId 9) yes],
     iw_log = []\<rparr>"

lemma meet_facts:
  "ir_phase (iw_conn (meet_world yes)) = IrohGreeting" "ir_sent (iw_conn (meet_world yes)) = []"
  "iw_read (meet_world yes) = 0" "meet_app = ir_app (iw_conn (meet_world yes))"
  "\<not> is_device_paired meet_app (lit ''phone'')" "iw_log (meet_world yes) = []"
  "iw_plan (meet_world yes) = [calm demo_ictx, calm demo_ictx, calm demo_ictx, calm demo_ictx,
     answered demo_ictx (ix_request_id demo_ictx) yes]"
  "\<forall>ctx \<in> {demo_ictx, demo_ictx, demo_ictx}. 0 < cc_written (ix_call ctx)"
  "fresh_id meet_app (sp_id (cc_spawn (ix_call demo_ictx)))"
  "fst (persist_device (ds_crates meet_daemon) nonce fault d meet_app) = None"
  "pm_answers (ap_pairing meet_app) = Map.empty"
  by (simp_all add: meet_world_def meet_app_def is_device_paired_def demo_ictx_def demo_call_def
      fresh_id_def demo_app_def persist_device_def pairing_new_def)

lemma meet_code:
  "is_valid_code (normalize_code (pt_code sample_ticket))" "normalize_code (pt_code sample_ticket) = lit ''AB234CD''"
proof -
  have "is_valid_code (lit ''AB234CD'')"
    by (simp add: is_valid_code_def CODE_LEN_def lit_eval CODE_ALPHABET_def)
  moreover from this have "normalize_code (lit ''AB234CD'') = lit ''AB234CD''"
    by (intro normalize_code_alphabet) (simp add: is_valid_code_def)
  ultimately show "is_valid_code (normalize_code (pt_code sample_ticket))"
    "normalize_code (pt_code sample_ticket) = lit ''AB234CD''" by (simp_all add: sample_ticket_def)
qed

lemma meet_pending:
  "pm_codes (ap_pairing meet_app) (normalize_code (pt_code sample_ticket)) =
     Some \<lparr>pc_expires_at = 60000, pc_attempts = 0, pc_prompt = 0\<rparr>"
  "cc_now (ix_call demo_ictx) < pc_expires_at \<lparr>pc_expires_at = 60000, pc_attempts = 0, pc_prompt = 0\<rparr>"
  "ix_prompt_open demo_ictx (pc_prompt \<lparr>pc_expires_at = 60000, pc_attempts = 0, pc_prompt = 0\<rparr>)"
  by (simp_all add: meet_code meet_app_def demo_ictx_def demo_call_def)

lemma meet_well: "well_met meet_crates meet_daemon (lit ''phone'') (replicate 32 2) meet_app sample_ticket"
  using meet_code(1) by (simp add: well_met_def meet_app_def iroh_node_id_def sample_ticket_def meet_daemon_def
      meet_crates_def endpoint_addr_def from_ticket_def parsed_relay_def lit_eval)

lemma pairing_completes_witness:
  "\<exists>c1 w1 p p1 stream w2 r. pair_with_ticket meet_crates (iroh_net meet_daemon (lit ''phone'') (replicate 32 2))
      sample_ticket (meet_phone, meet_world True) = ((c1, w1), Inr p) \<and>
    confirm_begin p = (p1, Inr stream) \<and> iroh_read meet_daemon (lit ''phone'') w1 = (w2, r) \<and>
    cl_daemon (fst (confirm_reply meet_crates r c1 p1)) = Some (from_ticket sample_ticket) \<and>
    is_device_paired (ir_app (iw_conn w2)) (lit ''phone'')"
proof -
  note m = meet_facts
  from pairing_completes [where w = "meet_world True" and yes = True and c = meet_phone,
      OF m(1-5) meet_well meet_pending m(7-10)]
  show ?thesis by (simp add: split_beta) blast
qed

lemma phone_and_daemon_agree_witness:
  "\<exists>c1 w1 p p1 stream w2 r c2 p2 closed info.
    pair_with_ticket meet_crates (iroh_net meet_daemon (lit ''phone'') (replicate 32 2))
      sample_ticket (meet_phone, meet_world True) = ((c1, w1), Inr p) \<and>
    confirm_begin p = (p1, Inr stream) \<and> iroh_read meet_daemon (lit ''phone'') w1 = (w2, r) \<and>
    confirm_reply meet_crates r c1 p1 = (c2, p2, closed, Inr info) \<and>
    cl_daemon c2 = Some (from_ticket sample_ticket) \<and>
    (\<exists>rid. RestPairing (Approve rid True) \<in> set (iw_log w2))"
proof -
  note m = meet_facts
  obtain c1 w1 p p1 stream w2 r where run: "pair_with_ticket meet_crates (iroh_net meet_daemon (lit ''phone'')
      (replicate 32 2)) sample_ticket (meet_phone, meet_world True) = ((c1, w1), Inr p)"
    "confirm_begin p = (p1, Inr stream)" "iroh_read meet_daemon (lit ''phone'') w1 = (w2, r)"
    "case confirm_reply meet_crates r c1 p1 of (c2, _, _, result) \<Rightarrow> \<exists>info. result = Inr info"
    using ceremony [where w = "meet_world True" and yes = True and c = meet_phone,
        OF m(1-5) meet_well meet_pending m(7-10)]
    by (simp add: split_beta) blast
  then obtain c2 p2 closed info where c: "confirm_reply meet_crates r c1 p1 = (c2, p2, closed, Inr info)"
    by (auto split: prod.splits)
  have plan: "\<forall>st \<in> set (iw_plan (meet_world True)). \<forall>ev \<in> set (ps_events st). \<not> saves_node (lit ''phone'') ev"
    by (simp add: m(7) calm_def answered_def saves_node_def)
  have new: "\<not> is_device_paired (ir_app (iw_conn (meet_world True))) (lit ''phone'')"
    "pm_answers (ap_pairing (ir_app (iw_conn (meet_world True)))) = Map.empty"
    using m(5,11) by (simp_all add: m(4) [symmetric])
  from phone_and_daemon_agree [OF m(1,2,6) new plan run(1-3) c] run c show ?thesis by blast
qed

end
