(* ===== verification/PhoneGate.thy ===== *)
theory PhoneGate
  imports PhoneNet
begin

text \<open>
  A pairing attempt on the phone as a machine: the user's yes, the daemon's frames and the
  user's cancellation in any order.
\<close>

section \<open>The machine\<close>

record screen =
  sc_phone :: phone
  sc_pending :: pending_pairing
  sc_reading :: bool

datatype screen_event = UserConfirms | DaemonFrame frame_result | UserCancels

text \<open>A frame is read only by a confirmation under way.\<close>

definition screen_step :: "phone_crates \<Rightarrow> screen \<Rightarrow> screen_event \<Rightarrow> screen" where
  "screen_step pk s ev = (case ev of
     UserConfirms \<Rightarrow> (case confirm_begin (sc_pending s) of
         (p, Inr _) \<Rightarrow> s\<lparr>sc_pending := p, sc_reading := True\<rparr>
       | (p, Inl _) \<Rightarrow> s\<lparr>sc_pending := p\<rparr>)
   | DaemonFrame r \<Rightarrow>
       if \<not> sc_reading s then s
       else (case confirm_reply pk r (sc_phone s) (sc_pending s) of
          (c, p, _, _) \<Rightarrow> s\<lparr>sc_phone := c, sc_pending := p, sc_reading := False\<rparr>)
   | UserCancels \<Rightarrow> s\<lparr>sc_pending := fst (pairing_cancel (sc_pending s))\<rparr>)"

abbreviation screen_run :: "phone_crates \<Rightarrow> screen \<Rightarrow> screen_event list \<Rightarrow> screen" where
  "screen_run pk \<equiv> foldl (screen_step pk)"

section \<open>Its invariant\<close>

text \<open>The events that lead to a saved pairing.\<close>

definition confirmed_course :: "daemon_target \<Rightarrow> screen_event list \<Rightarrow> bool" where
  "confirmed_course target evs \<longleftrightarrow> (\<exists>as bs cs. evs = as @ UserConfirms # bs @
     DaemonFrame (Inr (PairingComplete (dt_node_id target))) # cs \<and> UserCancels \<notin> set as \<union> set bs)"

lemma confirmed_course_more: "confirmed_course target evs \<Longrightarrow> confirmed_course target (evs @ [ev])"
proof -
  assume "confirmed_course target evs"
  then obtain as bs cs where "evs = as @ UserConfirms # bs @ DaemonFrame (Inr (PairingComplete (dt_node_id target))) # cs"
    "UserCancels \<notin> set as \<union> set bs" by (auto simp: confirmed_course_def)
  then show ?thesis
    unfolding confirmed_course_def by (intro exI [of _ as] exI [of _ bs] exI [of _ "cs @ [ev]"]) simp
qed

definition screen_inv :: "daemon_target option \<Rightarrow> daemon_target \<Rightarrow> screen_event list \<Rightarrow> screen \<Rightarrow> bool" where
  "screen_inv d0 target evs s \<longleftrightarrow> (let p = sc_pending s; g = pp_gate p in
     pp_target p = target \<and>
     (gt_persisted g \<longrightarrow> cl_daemon (sc_phone s) = Some target \<and> confirmed_course target evs) \<and>
     (\<not> gt_persisted g \<longrightarrow> cl_daemon (sc_phone s) = d0 \<and> (UserCancels \<in> set evs \<longrightarrow> gt_cancelled g)) \<and>
     (gt_local_confirmed g \<longrightarrow> UserConfirms \<in> set evs))"


lemma screen_start: "pp_gate (sc_pending s) = gate_default \<Longrightarrow>
    screen_inv (cl_daemon (sc_phone s)) (pp_target (sc_pending s)) [] s"
  by (simp add: screen_inv_def gate_default_def Let_def)

lemma completed_frame:
  "completed_by pk target r = Inr d \<Longrightarrow> r = Inr (PairingComplete (dt_node_id target)) \<and> d = dt_node_id target"
  by (auto simp: completed_by_def read_msg_from_def
      split: sum.splits server_msg.splits if_splits read_error.splits messagepack_error.splits)

lemma course_now:
  assumes "UserConfirms \<in> set evs" and "UserCancels \<notin> set evs"
  shows "confirmed_course target (evs @ [DaemonFrame (Inr (PairingComplete (dt_node_id target)))])"
proof -
  obtain as bs where "evs = as @ UserConfirms # bs" using assms(1) by (meson split_list)
  with assms(2) show ?thesis
    unfolding confirmed_course_def by (intro exI [of _ as] exI [of _ bs] exI [of _ "[]"]) simp
qed

lemma screen_step_inv:
  assumes inv: "screen_inv d0 target evs s"
  shows "screen_inv d0 target (evs @ [ev]) (screen_step pk s ev)"
proof (cases ev)
  case UserConfirms
  then show ?thesis
    using inv by (auto simp: screen_inv_def screen_step_def confirm_begin_def confirm_local_def Let_def
        confirmed_course_more split: option.split)
next
  case UserCancels
  then show ?thesis
    using inv by (auto simp: screen_inv_def screen_step_def pairing_cancel_def gate_cancel_def Let_def
        confirmed_course_more)
next
  case (DaemonFrame r)
  define g where "g = pp_gate (sc_pending s)"
  note I = inv [unfolded screen_inv_def Let_def, folded g_def]
  show ?thesis
  proof (cases "sc_reading s")
    case False
    then show ?thesis
      using inv DaemonFrame by (auto simp: screen_inv_def screen_step_def Let_def confirmed_course_more)
  next
    case reading: True
    show ?thesis
    proof (cases "completed_by pk target r")
      case (Inl e)
      then show ?thesis
        using inv DaemonFrame reading by (auto simp: screen_inv_def screen_step_def confirm_reply_def Let_def
            confirmed_course_more)
    next
      case (Inr d)
      note r = completed_frame [OF Inr]
      have target: "pp_target (sc_pending s) = target" using I by simp
      show ?thesis
      proof (cases "gt_cancelled g \<or> \<not> gt_local_confirmed g")
        case True
        then show ?thesis
          using inv DaemonFrame reading Inr unfolding target
          by (auto simp: screen_inv_def screen_step_def confirm_reply_def Let_def confirmed_course_more
              open_gate_def gate_defs g_def)
      next
        case False
        have "confirmed_course target (evs @ [ev])"
        proof (cases "gt_persisted g")
          case True
          then show ?thesis using I confirmed_course_more by blast
        next
          case np: False
          then have "UserConfirms \<in> set evs" "UserCancels \<notin> set evs" using I False by auto
          from course_now [OF this] show ?thesis using DaemonFrame r by simp
        qed
        moreover have "UserConfirms \<in> set evs" using I False by simp
        ultimately show ?thesis
          using DaemonFrame reading Inr False target
          by (simp add: screen_inv_def screen_step_def confirm_reply_def Let_def open_gate_def gate_defs g_def)
      qed
    qed
  qed
qed

text \<open>C11 [phone_saves_only_confirmed].  In whatever order the user's taps and the daemon's frames come:
  the phone's saved daemon changes only to the attempt's own target, and only by the daemon's
  completion with that node id after a yes of the user and without a cancellation before it.
  A saved pairing can no longer be cancelled.\<close>

theorem phone_saves_only_confirmed:
  assumes start: "pp_gate (sc_pending s) = gate_default" and run: "s' = screen_run pk s evs"
    and changed: "cl_daemon (sc_phone s') \<noteq> cl_daemon (sc_phone s)"
  shows "cl_daemon (sc_phone s') = Some (pp_target (sc_pending s)) \<and>
    confirmed_course (pp_target (sc_pending s)) evs \<and>
    (\<exists>e. snd (snd (pairing_cancel (sc_pending s'))) = Inl e)"
proof -
  have inv: "screen_inv (cl_daemon (sc_phone s)) (pp_target (sc_pending s)) evs s'"
    unfolding run
  proof (induction evs rule: rev_induct)
    case Nil
    show ?case using screen_start [OF start] by simp
  next
    case (snoc ev evs)
    from screen_step_inv [OF this] show ?case by simp
  qed
  then have "gt_persisted (pp_gate (sc_pending s'))"
    using changed by (auto simp: screen_inv_def Let_def)
  with inv show ?thesis
    by (simp add: screen_inv_def Let_def pairing_cancel_def gate_cancel_def)
qed

definition demo_screen :: screen where
  "demo_screen = \<lparr>sc_phone = \<lparr>cl_config = \<lparr>cf_device_name = lit ''phone'', cf_platform = Ios,
       cf_device_secret_key = None, cf_paired_daemon = None, cf_relay_control_url = None\<rparr>,
       cl_secret_key = replicate 32 7, cl_daemon = None, cl_endpoint = None, cl_last_daemon_version = None,
       cl_last_host_name = None\<rparr>,
     sc_pending = \<lparr>pp_sas = [], pp_target = \<lparr>dt_node_id = [1], dt_relay_url = None, dt_addrs = []\<rparr>,
       pp_welcome = ([], []), pp_device_node_id = [2], pp_stream = Some 0, pp_gate = gate_default\<rparr>,
     sc_reading = False\<rparr>"

lemma phone_saves_only_confirmed_witness:
  "\<forall>pk. cl_daemon (sc_phone (screen_run pk demo_screen [UserConfirms, DaemonFrame (Inr (PairingComplete [1]))])) =
      Some (pp_target (sc_pending demo_screen)) \<and>
    confirmed_course (pp_target (sc_pending demo_screen)) [UserConfirms, DaemonFrame (Inr (PairingComplete [1]))]"
proof
  fix pk
  let ?evs = "[UserConfirms, DaemonFrame (Inr (PairingComplete [1]))]"
  have "cl_daemon (sc_phone (screen_run pk demo_screen ?evs)) \<noteq> cl_daemon (sc_phone demo_screen)"
    by (simp add: demo_screen_def screen_step_def confirm_begin_def gate_default_def confirm_reply_def
        completed_by_def read_msg_from_def open_gate_def gate_defs)
  from phone_saves_only_confirmed [OF _ refl this] show
    "cl_daemon (sc_phone (screen_run pk demo_screen ?evs)) = Some (pp_target (sc_pending demo_screen)) \<and>
      confirmed_course (pp_target (sc_pending demo_screen)) ?evs"
    by (simp add: demo_screen_def)
qed

end
