(* ===== verification/AttachLoop.thy ===== *)
theory AttachLoop
  imports Framing Ptypes
begin

text \<open>
  The desktop client of an attached session (\<open>crates/cli/src/attach_loop.rs\<close>): the recognizer of
  the detach key, the reader and writer of frames, and the loop that serves the daemon's
  messages, the keyboard and the window size, and reattaches on the same connection when
  the daemon reports that it lagged.
\<close>

section \<open>The detach key\<close>

datatype input_event = InputBytes bytes | InputEof | InputError rstr

record detach_state =
  de_prefix_byte :: "8 word"
  de_prefix_held :: bool

definition detach_new :: "8 word \<Rightarrow> detach_state" where
  "detach_new prefix_byte = \<lparr>de_prefix_byte = prefix_byte, de_prefix_held = False\<rparr>"

text \<open>The bytes to forward and whether to detach.\<close>

fun consume_loop :: "detach_state \<Rightarrow> bytes \<Rightarrow> bytes \<Rightarrow> detach_state \<times> bytes \<times> bool" where
  "consume_loop ds bytes [] = (ds, bytes, False)"
| "consume_loop ds bytes (byte # input) =
     (if de_prefix_held ds then
        let ds = ds\<lparr>de_prefix_held := False\<rparr> in
        if byte = of_char (CHR ''d'') \<or> byte = of_char (CHR ''D'') then (ds, bytes, True)
        else consume_loop ds (bytes @ [de_prefix_byte ds, byte]) input
      else if byte = de_prefix_byte ds then consume_loop (ds\<lparr>de_prefix_held := True\<rparr>) bytes input
      else consume_loop ds (bytes @ [byte]) input)"

definition detach_consume :: "detach_state \<Rightarrow> bytes \<Rightarrow> detach_state \<times> bytes \<times> bool" where
  "detach_consume ds input = consume_loop ds [] input"

section \<open>Frames\<close>

text \<open>
  An error is the text an \<open>anyhow::Error\<close> shows, that of its outermost context.  \<open>wr\<close> is
  \<open>write_all\<close>.
\<close>

function read_rest ::
    "('r \<Rightarrow> nat \<Rightarrow> 'io + (bytes \<times> 'r)) \<Rightarrow> 'r \<Rightarrow> nat \<Rightarrow> bytes \<Rightarrow> rstr + (bytes \<times> 'r)" where
  "read_rest rd r len payload =
     (if length payload < len then
        let start = length payload; chunk_len = min (len - start) (8 * 1024) in
        case rd r chunk_len of
          Inl _ \<Rightarrow> Inl (lit ''read frame payload'')
        | Inr (bs, r') \<Rightarrow> read_rest rd r' len (payload @ fill chunk_len bs)
      else Inr (payload, r))"
  by pat_completeness auto
termination
  by (relation "measure (\<lambda>(rd, r, len, payload). len - length payload)") auto

declare read_rest.simps [simp del]

definition read_message ::
    "('r \<Rightarrow> nat \<Rightarrow> 'io + (bytes \<times> 'r)) \<Rightarrow> (bytes \<Rightarrow> 'd + 'm) \<Rightarrow> 'r \<Rightarrow> rstr + ('m \<times> 'r)" where
  "read_message rd decode r =
     (case rd r 4 of
        Inl _ \<Rightarrow> Inl (lit ''read frame length'')
      | Inr (l, r) \<Rightarrow>
          let len = from_be (fill 4 l) in
          if MAX_FRAME_LEN < len then Inl (lit ''frame too large: '' @ dec len)
          else (case read_rest rd r len [] of
              Inl e \<Rightarrow> Inl e
            | Inr (payload, r) \<Rightarrow> (case decode payload of
                Inl _ \<Rightarrow> Inl (lit ''decode frame'')
              | Inr m \<Rightarrow> Inr (m, r))))"

definition write_message ::
    "('w \<Rightarrow> bytes \<Rightarrow> 'io option \<times> 'w) \<Rightarrow> ('w \<Rightarrow> 'io option \<times> 'w) \<Rightarrow> ('m \<Rightarrow> 'e + bytes) \<Rightarrow> 'w \<Rightarrow> 'm \<Rightarrow>
      rstr option \<times> 'w" where
  "write_message wr flush encode w message =
     (case encode message of
        Inl _ \<Rightarrow> (Some (lit ''encode frame''), w)
      | Inr payload \<Rightarrow>
          if MAX_FRAME_LEN < length payload then (Some (lit ''frame too large: '' @ dec (length payload)), w)
          else (case wr w (be_bytes 4 (length payload)) of
              (Some _, w) \<Rightarrow> (Some (lit ''write frame length''), w)
            | (None, w) \<Rightarrow> (case wr w payload of
                (Some _, w) \<Rightarrow> (Some (lit ''write frame payload''), w)
              | (None, w) \<Rightarrow> (case flush w of
                  (Some _, w) \<Rightarrow> (Some (lit ''flush frame''), w)
                | (None, w) \<Rightarrow> (None, w)))))"

section \<open>The client\<close>

record 'r renderer =
  rd_initial :: "'r \<Rightarrow> bytes \<Rightarrow> 'r \<times> bytes"
  rd_output :: "'r \<Rightarrow> bytes \<Rightarrow> 'r \<times> bytes"
  rd_resize :: "'r \<Rightarrow> client_size \<Rightarrow> 'r \<times> client_size \<times> bytes"

datatype attach_outcome = Detached | ExitedWith int | DaemonErrorText rstr | ConnectionLost rstr

datatype attached_outcome = End attach_outcome | Lagged

text \<open>An error of the loop itself is on the left of \<open>Stopped\<close>.\<close>

datatype attach_phase = AwaitingReply | Following | Stopped "rstr + attach_outcome"

text \<open>
  The locals of \<open>run_attach_session\<close> and \<open>run_attached_loop\<close>, what has been written to the
  terminal, and the messages sent.
\<close>

record 'r desk_client =
  ac_phase :: attach_phase
  ac_session_id :: session_id
  ac_size :: client_size
  ac_last_seen_seq :: "nat option"
  ac_initial_attach :: bool
  ac_pending_output :: bytes
  ac_batch_open :: bool
  ac_resize_open :: bool
  ac_renderer :: 'r
  ac_detach :: detach_state
  ac_screen :: bytes
  ac_sent :: "client_msg list"

text \<open>What the writes of one step return: to the terminal, to the daemon, of a final detach.\<close>

record attach_faults =
  af_screen :: "rstr option"
  af_send :: "rstr option"
  af_detach :: "rstr option"

text \<open>\<open>Quiet\<close>: the poll of an open batch finds no message.\<close>

datatype attach_event =
    FromDaemon "rstr + server_msg"
  | Quiet
  | Typed "input_event option"
  | Resized "client_size option"

definition stop_with :: "rstr + attach_outcome \<Rightarrow> 'r desk_client \<Rightarrow> 'r desk_client" where
  "stop_with r c = c\<lparr>ac_phase := Stopped r\<rparr>"

definition sending ::
    "rstr option \<Rightarrow> client_msg \<Rightarrow> ('r desk_client \<Rightarrow> 'r desk_client) \<Rightarrow> 'r desk_client \<Rightarrow> 'r desk_client" where
  "sending fault msg k c = (case fault of
     Some e \<Rightarrow> stop_with (Inl e) c
   | None \<Rightarrow> k (c\<lparr>ac_sent := ac_sent c @ [msg]\<rparr>))"

definition write_frame ::
    "rstr option \<Rightarrow> bytes \<Rightarrow> ('r desk_client \<Rightarrow> 'r desk_client) \<Rightarrow> 'r desk_client \<Rightarrow> 'r desk_client" where
  "write_frame fault frame k c = (case fault of
     Some e \<Rightarrow> stop_with (Inl e) c
   | None \<Rightarrow> k (c\<lparr>ac_screen := ac_screen c @ frame\<rparr>))"

definition flush_output ::
    "rstr option \<Rightarrow> ('r desk_client \<Rightarrow> 'r desk_client) \<Rightarrow> 'r desk_client \<Rightarrow> 'r desk_client" where
  "flush_output fault k c = write_frame fault (ac_pending_output c)
     (\<lambda>c. k (c\<lparr>ac_pending_output := []\<rparr>)) c"

section \<open>Its steps\<close>

definition request_attach :: "attach_faults \<Rightarrow> 'r desk_client \<Rightarrow> 'r desk_client" where
  "request_attach f c = sending (af_send f)
     (AttachSession (ac_session_id c) (ac_size c) (ac_last_seen_seq c))
     (\<lambda>c. c\<lparr>ac_phase := AwaitingReply\<rparr>) c"

definition attach_start ::
    "attach_faults \<Rightarrow> session_id \<Rightarrow> client_size \<Rightarrow> 'r \<Rightarrow> detach_state \<Rightarrow> 'r desk_client" where
  "attach_start f session_id initial_size r ds = request_attach f
     \<lparr>ac_phase = AwaitingReply, ac_session_id = session_id, ac_size = initial_size,
       ac_last_seen_seq = None, ac_initial_attach = True, ac_pending_output = [],
       ac_batch_open = False, ac_resize_open = True, ac_renderer = r, ac_detach = ds,
       ac_screen = [], ac_sent = []\<rparr>"

definition attach_reply ::
    "'r renderer \<Rightarrow> (server_msg \<Rightarrow> rstr) \<Rightarrow> attach_faults \<Rightarrow> rstr + server_msg \<Rightarrow>
     'r desk_client \<Rightarrow> 'r desk_client" where
  "attach_reply rd debug f r c =
     (let bad = (\<lambda>other. stop_with (Inl (lit ''expected attach response, got '' @ debug other)) c) in
      case r of
        Inl e \<Rightarrow> stop_with (Inr (ConnectionLost e)) c
      | Inr message \<Rightarrow> (case message of
          Attached attached_session_id initial_bytes seq \<Rightarrow>
            if attached_session_id \<noteq> ac_session_id c then bad message
            else (case (if ac_initial_attach c then rd_initial rd else rd_output rd)
                (ac_renderer c) initial_bytes of
              (r, frame) \<Rightarrow> write_frame (af_screen f) frame
                (\<lambda>c. c\<lparr>ac_last_seen_seq := Some seq, ac_phase := Following, ac_pending_output := [],
                  ac_batch_open := False, ac_resize_open := True\<rparr>)
                (c\<lparr>ac_renderer := r, ac_initial_attach := False\<rparr>))
        | Error _ text \<Rightarrow> stop_with (Inr (DaemonErrorText text)) c
        | _ \<Rightarrow> bad message))"

definition handle_server_message ::
    "'r renderer \<Rightarrow> server_msg \<Rightarrow> 'r desk_client \<Rightarrow> 'r desk_client \<times> attached_outcome option" where
  "handle_server_message rd message c = (case message of
     Output output_session_id seq bytes \<Rightarrow>
       if output_session_id = ac_session_id c then
         (case rd_output rd (ac_renderer c) bytes of
            (r, frame) \<Rightarrow> (c\<lparr>ac_last_seen_seq := Some seq, ac_renderer := r,
              ac_pending_output := ac_pending_output c @ frame, ac_batch_open := True\<rparr>, None))
       else (c, None)
   | Lag lagged_session_id _ \<Rightarrow>
       (c, if lagged_session_id = ac_session_id c then Some Lagged else None)
   | SessionExited exited_session_id exit_code \<Rightarrow>
       (c, if exited_session_id = ac_session_id c then Some (End (ExitedWith exit_code)) else None)
   | Error _ text \<Rightarrow> (c, Some (End (DaemonErrorText text)))
   | _ \<Rightarrow> (c, None))"

text \<open>A message of the attached loop; the pending output is shown before the loop ends.\<close>

definition serve_daemon ::
    "'r renderer \<Rightarrow> attach_faults \<Rightarrow> rstr + server_msg \<Rightarrow> 'r desk_client \<Rightarrow> 'r desk_client" where
  "serve_daemon rd f r c = (case r of
     Inl e \<Rightarrow> if ac_batch_open c then flush_output (af_screen f) (stop_with (Inr (ConnectionLost e))) c
       else stop_with (Inr (ConnectionLost e)) c
   | Inr message \<Rightarrow> (case handle_server_message rd message c of
       (c, None) \<Rightarrow> c
     | (c, Some (End outcome)) \<Rightarrow> flush_output (af_screen f) (stop_with (Inr outcome)) c
     | (c, Some Lagged) \<Rightarrow> flush_output (af_screen f) (request_attach f) c))"

definition serve_input :: "attach_faults \<Rightarrow> input_event \<Rightarrow> 'r desk_client \<Rightarrow> 'r desk_client" where
  "serve_input f event c = (case event of
     InputBytes bytes \<Rightarrow>
       (case detach_consume (ac_detach c) bytes of
          (ds, forwarded, should_detach) \<Rightarrow>
            let finish = (\<lambda>c. if should_detach
              then sending (af_detach f) DetachSession (stop_with (Inr Detached)) c else c);
              c = c\<lparr>ac_detach := ds\<rparr> in
            if forwarded \<noteq> [] then sending (af_send f) (Input (ac_session_id c) forwarded) finish c
            else finish c)
   | InputEof \<Rightarrow> stop_with (Inr Detached) (case af_detach f of
       None \<Rightarrow> c\<lparr>ac_sent := ac_sent c @ [DetachSession]\<rparr> | Some _ \<Rightarrow> c)
   | InputError message \<Rightarrow> stop_with (Inl (lit ''read terminal input: '' @ message)) c)"

definition serve_resize ::
    "'r renderer \<Rightarrow> attach_faults \<Rightarrow> client_size option \<Rightarrow> 'r desk_client \<Rightarrow> 'r desk_client" where
  "serve_resize rd f physical_size c = (case physical_size of
     None \<Rightarrow> c\<lparr>ac_resize_open := False\<rparr>
   | Some physical_size \<Rightarrow> (case rd_resize rd (ac_renderer c) physical_size of
       (r, pty_size, frame) \<Rightarrow> write_frame (af_screen f) frame
         (sending (af_send f) (Resize (ac_session_id c) pty_size) (\<lambda>c. c))
         (c\<lparr>ac_renderer := r, ac_size := pty_size\<rparr>)))"

text \<open>
  What the loop waits for in a state: an open batch is polled for messages before the keyboard
  and the window are looked at again.
\<close>

definition takes :: "'r desk_client \<Rightarrow> attach_event \<Rightarrow> bool" where
  "takes c ev = (case ac_phase c of
     Stopped _ \<Rightarrow> False
   | AwaitingReply \<Rightarrow> (case ev of FromDaemon _ \<Rightarrow> True | _ \<Rightarrow> False)
   | Following \<Rightarrow> (case ev of
       FromDaemon _ \<Rightarrow> True
     | Quiet \<Rightarrow> ac_batch_open c
     | Typed _ \<Rightarrow> \<not> ac_batch_open c
     | Resized _ \<Rightarrow> \<not> ac_batch_open c \<and> ac_resize_open c))"

definition attach_step ::
    "'r renderer \<Rightarrow> (server_msg \<Rightarrow> rstr) \<Rightarrow> 'r desk_client \<Rightarrow> attach_event \<times> attach_faults \<Rightarrow> 'r desk_client" where
  "attach_step rd debug c e = (case e of (ev, f) \<Rightarrow>
     if \<not> takes c ev then c
     else case ev of
       FromDaemon r \<Rightarrow> if ac_phase c = AwaitingReply then attach_reply rd debug f r c
         else serve_daemon rd f r c
     | Quiet \<Rightarrow> flush_output (af_screen f) (\<lambda>c. c\<lparr>ac_batch_open := False\<rparr>) c
     | Typed event \<Rightarrow> serve_input f (case event of Some i \<Rightarrow> i | None \<Rightarrow> InputEof) c
     | Resized physical_size \<Rightarrow> serve_resize rd f physical_size c)"

abbreviation attach_run ::
    "'r renderer \<Rightarrow> (server_msg \<Rightarrow> rstr) \<Rightarrow> 'r desk_client \<Rightarrow> (attach_event \<times> attach_faults) list \<Rightarrow> 'r desk_client" where
  "attach_run rd debug \<equiv> foldl (attach_step rd debug)"

section \<open>Lemmas\<close>

lemmas client_defs = stop_with_def sending_def write_frame_def flush_output_def request_attach_def
  attach_reply_def handle_server_message_def serve_daemon_def serve_input_def serve_resize_def Let_def

text \<open>The reader of the command line is the protocol's reader with its errors as texts.\<close>

definition fault_text :: "('io, 'd) read_error \<Rightarrow> rstr" where
  "fault_text e = (case e of
     ReadLength _ \<Rightarrow> lit ''read frame length''
   | ReadTooLarge len \<Rightarrow> lit ''frame too large: '' @ dec len
   | ReadPayload _ \<Rightarrow> lit ''read frame payload''
   | ReadDecode _ \<Rightarrow> lit ''decode frame'')"

lemma read_rest_payload:
  "read_rest rd r len payload = map_sum (\<lambda>_. lit ''read frame payload'') (\<lambda>x. x) (read_payload rd r len payload)"
proof (induction rd r len payload rule: read_payload.induct)
  case (1 rd r len payload)
  then show ?case
    by (subst read_rest.simps, subst read_payload.simps)
      (auto simp: Let_def READ_CHUNK_LEN_def split: sum.split)
qed

lemma read_message_framed: "read_message rd decode r = map_sum fault_text (\<lambda>x. x) (read_framed rd decode r)"
  by (auto simp: read_message_def read_framed_def read_rest_payload fault_text_def Let_def split: sum.split)

text \<open>What has been typed is what was forwarded and the held prefix, up to a detach.\<close>

definition held :: "detach_state \<Rightarrow> bytes" where
  "held ds = (if de_prefix_held ds then [de_prefix_byte ds] else [])"

definition detach_keys :: "8 word \<Rightarrow> bytes set" where
  "detach_keys p = {[p, of_char (CHR ''d'')], [p, of_char (CHR ''D'')]}"

lemma consume_prefix_byte: "consume_loop ds out input = (ds', out', b) \<Longrightarrow> de_prefix_byte ds' = de_prefix_byte ds"
  by (induction ds out input rule: consume_loop.induct) (auto simp: Let_def split: if_splits)

lemma consume_loop_exact:
  "consume_loop ds out input = (ds', out', False) \<Longrightarrow> out @ held ds @ input = out' @ held ds'"
proof (induction ds out input rule: consume_loop.induct)
  case (2 ds out b input)
  then show ?case by (auto simp: held_def Let_def split: if_splits)
qed simp

lemma consume_loop_detach:
  "consume_loop ds out input = (ds', out', True) \<Longrightarrow>
    \<exists>k \<in> detach_keys (de_prefix_byte ds). \<exists>rest. out @ held ds @ input = out' @ k @ rest"
proof (induction ds out input rule: consume_loop.induct)
  case (2 ds out b input)
  then show ?case by (fastforce simp: held_def detach_keys_def Let_def split: if_splits)
qed simp

lemma not_taken: "\<not> takes c (fst e) \<Longrightarrow> attach_step rd debug c e = c"
  by (cases e) (simp add: attach_step_def)

section \<open>What is typed\<close>

definition stopped :: "'r desk_client \<Rightarrow> bool" where
  "stopped c \<longleftrightarrow> (\<exists>r. ac_phase c = Stopped r)"

text \<open>The events the client has taken.\<close>

fun taken ::
    "'r renderer \<Rightarrow> (server_msg \<Rightarrow> rstr) \<Rightarrow> 'r desk_client \<Rightarrow> (attach_event \<times> attach_faults) list \<Rightarrow> attach_event list" where
  "taken rd debug c [] = []"
| "taken rd debug c (e # es) = (if takes c (fst e) then [fst e] else []) @ taken rd debug (attach_step rd debug c e) es"

lemma taken_snoc: "taken rd debug c (es @ [e]) =
    taken rd debug c es @ (if takes (attach_run rd debug c es) (fst e) then [fst e] else [])"
  by (induction es arbitrary: c) simp_all

definition typed_bytes :: "attach_event list \<Rightarrow> bytes" where
  "typed_bytes evs = concat (map (\<lambda>ev. case ev of Typed (Some (InputBytes bs)) \<Rightarrow> bs | _ \<Rightarrow> []) evs)"

definition input_sent :: "client_msg list \<Rightarrow> bytes" where
  "input_sent msgs = concat (map (\<lambda>m. case m of Input _ bs \<Rightarrow> bs | _ \<Rightarrow> []) msgs)"

lemma input_sent_simps [simp]:
  "input_sent [] = []" "input_sent (a @ b) = input_sent a @ input_sent b"
  "input_sent [Input i bs] = bs" "input_sent [DetachSession] = []"
  "input_sent [AttachSession i z l] = []" "input_sent [Resize i z] = []"
  by (simp_all add: input_sent_def)

lemma typed_bytes_simps [simp]:
  "typed_bytes [] = []" "typed_bytes (a @ b) = typed_bytes a @ typed_bytes b"
  "typed_bytes [Typed (Some (InputBytes bs))] = bs"
  by (simp_all add: typed_bytes_def)

lemma typed_bytes_other: "\<nexists>bs. ev = Typed (Some (InputBytes bs)) \<Longrightarrow> typed_bytes [ev] = []"
  by (auto simp: typed_bytes_def split: attach_event.splits option.splits input_event.splits)

text \<open>
  \<open>typed\<close> has been forwarded but for the held prefix while the client runs; one that has
  detached by the keys has forwarded what precedes them.
\<close>

definition forwards :: "8 word \<Rightarrow> bytes \<Rightarrow> bool \<Rightarrow> 'r desk_client \<Rightarrow> bool" where
  "forwards p typed eof c \<longleftrightarrow> de_prefix_byte (ac_detach c) = p \<and>
     prefix (input_sent (ac_sent c)) typed \<and>
     (\<not> stopped c \<longrightarrow> typed = input_sent (ac_sent c) @ held (ac_detach c) \<and> \<not> eof) \<and>
     (ac_phase c = Stopped (Inr Detached) \<longrightarrow>
        (if eof then typed = input_sent (ac_sent c) @ held (ac_detach c)
         else \<exists>k \<in> detach_keys p. prefix (input_sent (ac_sent c) @ k) typed))"

text \<open>A step that is not input changes neither what was forwarded nor the recognizer.\<close>

definition no_input :: "'r desk_client \<Rightarrow> 'r desk_client \<Rightarrow> bool" where
  "no_input c c' \<longleftrightarrow> input_sent (ac_sent c') = input_sent (ac_sent c) \<and> ac_detach c' = ac_detach c \<and>
     ac_phase c' \<noteq> Stopped (Inr Detached)"

lemma reply_no_input: "\<not> stopped c \<Longrightarrow> no_input c (attach_reply rd debug f r c)"
  by (auto simp: no_input_def stopped_def client_defs split: sum.splits server_msg.splits option.splits prod.splits)

lemma daemon_no_input: "\<not> stopped c \<Longrightarrow> no_input c (serve_daemon rd f r c)"
  by (auto simp: no_input_def stopped_def client_defs split: sum.splits server_msg.splits option.splits
      prod.splits attached_outcome.splits)

lemma quiet_no_input: "\<not> stopped c \<Longrightarrow> no_input c (flush_output fault (\<lambda>c. c\<lparr>ac_batch_open := False\<rparr>) c)"
  by (auto simp: no_input_def stopped_def client_defs split: option.splits)

lemma resize_no_input: "\<not> stopped c \<Longrightarrow> no_input c (serve_resize rd f z c)"
  by (auto simp: no_input_def stopped_def client_defs split: option.splits prod.splits)

lemma forwards_no_input:
  "forwards p typed False c \<Longrightarrow> \<not> stopped c \<Longrightarrow> no_input c c' \<Longrightarrow> forwards p typed False c'"
  by (auto simp: forwards_def no_input_def)

text \<open>A piece of input: a failed write leaves it out, wholly or from the detach on.\<close>

lemma serve_bytes:
  assumes "detach_consume (ac_detach c) bs = (ds, out, b)" and "\<not> stopped c"
    and "c' = serve_input f (InputBytes bs) c"
  shows "ac_detach c' = ds \<and>
    ((\<exists>e. ac_phase c' = Stopped (Inl e)) \<and> prefix (input_sent (ac_sent c')) (input_sent (ac_sent c) @ out) \<or>
     input_sent (ac_sent c') = input_sent (ac_sent c) @ out \<and>
     ac_phase c' = (if b then Stopped (Inr Detached) else ac_phase c))"
  using assms by (cases "out = []"; cases "af_send f"; cases "af_detach f"; cases b) (simp_all add: client_defs input_sent_def)

lemma forwards_bytes:
  assumes fw: "forwards p typed False c" and run: "\<not> stopped c"
  shows "forwards p (typed @ bs) False (serve_input f (InputBytes bs) c)"
proof -
  obtain ds out b where co: "consume_loop (ac_detach c) [] bs = (ds, out, b)" by (metis prod_cases3)
  define c' where "c' = serve_input f (InputBytes bs) c"
  note sb = serve_bytes [OF _ run c'_def, of ds out b, unfolded detach_consume_def, OF co]
  have p: "de_prefix_byte ds = p" "de_prefix_byte (ac_detach c) = p"
    and t: "typed = input_sent (ac_sent c) @ held (ac_detach c)"
    using consume_prefix_byte [OF co] fw run by (auto simp: forwards_def)
  have "forwards p (typed @ bs) False c'"
  proof (cases b)
    case False
    then have "held (ac_detach c) @ bs = out @ held ds" using consume_loop_exact co by fastforce
    then have "typed @ bs = input_sent (ac_sent c) @ out @ held ds" using t by simp
    moreover have "Stopped (Inr Detached) \<noteq> ac_phase c" using run by (metis stopped_def)
    ultimately show ?thesis
      using sb run False p unfolding forwards_def stopped_def by (auto simp: prefix_append)
  next
    case True
    then obtain k rest where k: "k \<in> detach_keys p" "held (ac_detach c) @ bs = out @ k @ rest"
      using consume_loop_detach [of "ac_detach c" "[]" bs ds out] co p by auto
    then have "typed @ bs = input_sent (ac_sent c) @ out @ k @ rest" using t by simp
    then show ?thesis
      using sb run True p k(1) unfolding forwards_def stopped_def by (auto simp: prefix_append)
  qed
  then show ?thesis by (simp add: c'_def)
qed

lemma forwards_input:
  assumes fw: "forwards p typed False c" and run: "\<not> stopped c"
  shows "forwards p (typed @ typed_bytes [Typed (Some event)]) (event = InputEof) (serve_input f event c)"
proof (cases event)
  case (InputBytes bs)
  then show ?thesis using forwards_bytes [OF fw run] by simp
next
  case InputEof
  then show ?thesis
    using fw run by (auto simp: forwards_def client_defs stopped_def typed_bytes_def split: option.splits)
next
  case (InputError m)
  then show ?thesis
    using fw run by (auto simp: forwards_def client_defs stopped_def typed_bytes_def)
qed

definition ends_input :: "attach_event \<Rightarrow> bool" where
  "ends_input ev \<longleftrightarrow> ev = Typed None \<or> ev = Typed (Some InputEof)"

lemma forwards_step:
  assumes fw: "forwards p typed False c" and run: "\<not> stopped c" and t: "takes c (fst e)"
  shows "forwards p (typed @ typed_bytes [fst e]) (ends_input (fst e)) (attach_step rd debug c e)"
proof -
  obtain ev f where e: "e = (ev, f)" by fastforce
  show ?thesis
  proof (cases ev)
    case (FromDaemon r)
    then show ?thesis
      using forwards_no_input [OF fw run] reply_no_input [OF run] daemon_no_input [OF run] t
      by (simp add: e attach_step_def ends_input_def typed_bytes_other)
  next
    case Quiet
    then show ?thesis
      using forwards_no_input [OF fw run] quiet_no_input [OF run] t
      by (simp add: e attach_step_def ends_input_def typed_bytes_other)
  next
    case (Resized z)
    then show ?thesis
      using forwards_no_input [OF fw run] resize_no_input [OF run] t
      by (simp add: e attach_step_def ends_input_def typed_bytes_other)
  next
    case (Typed i)
    then show ?thesis
      using forwards_input [OF fw run, of "case i of Some i \<Rightarrow> i | None \<Rightarrow> InputEof" f] t
      by (cases i) (auto simp: e attach_step_def ends_input_def typed_bytes_def)
  qed
qed

lemma forwards_run:
  "c = attach_run rd debug c0 es \<Longrightarrow> forwards p [] False c0 \<Longrightarrow>
    forwards p (typed_bytes (taken rd debug c0 es)) (\<exists>ev \<in> set (taken rd debug c0 es). ends_input ev) c"
proof (induction es arbitrary: c rule: rev_induct)
  case (snoc e es)
  define c1 where "c1 = attach_run rd debug c0 es"
  note IH = snoc.IH [OF c1_def snoc.prems(2)]
  show ?case
  proof (cases "takes c1 (fst e)")
    case True
    then have run: "\<not> stopped c1" by (auto simp: takes_def stopped_def split: attach_phase.splits)
    then have "\<not> (\<exists>ev \<in> set (taken rd debug c0 es). ends_input ev)" using IH by (simp add: forwards_def)
    with IH forwards_step [OF _ run True, of p _ rd debug] show ?thesis
      using snoc.prems(1) True by (simp add: taken_snoc flip: c1_def)
  next
    case False
    then show ?thesis
      using IH snoc.prems(1) by (simp add: taken_snoc not_taken flip: c1_def)
  qed
qed simp

lemma forwards_start: "forwards p [] False (attach_start f sid z r (detach_new p))"
  by (auto simp: forwards_def attach_start_def client_defs detach_new_def held_def stopped_def split: option.splits)

text \<open>C29 [desktop_input_forwarded].  Whatever pieces the keyboard delivers it in, what the user types
  reaches the daemon as it is: the bytes sent are those typed but for a held prefix key while
  the client runs, and a client that detaches has sent what precedes the detach keys, or all
  of it when the keyboard was closed.  A client that fails has sent a beginning of it.\<close>

theorem desktop_input_forwarded:
  assumes c: "c = attach_run rd debug (attach_start f sid z r (detach_new p)) es"
    and evs: "evs = taken rd debug (attach_start f sid z r (detach_new p)) es"
  shows "prefix (input_sent (ac_sent c)) (typed_bytes evs) \<and>
    (\<not> stopped c \<longrightarrow> typed_bytes evs = input_sent (ac_sent c) @ held (ac_detach c)) \<and>
    (ac_phase c = Stopped (Inr Detached) \<longrightarrow>
      (\<exists>k \<in> detach_keys p. prefix (input_sent (ac_sent c) @ k) (typed_bytes evs)) \<or>
      (\<exists>ev \<in> set evs. ends_input ev) \<and> typed_bytes evs = input_sent (ac_sent c) @ held (ac_detach c))"
proof -
  have "forwards p (typed_bytes evs) (\<exists>ev \<in> set evs. ends_input ev) c"
    unfolding evs by (rule forwards_run [OF c forwards_start])
  then show ?thesis unfolding forwards_def by (simp split: if_splits)
qed

text \<open>
  A session whose keys arrive in pieces: the prefix key (Ctrl-B) twice, a letter, and the detach
  keys split over two reads.
\<close>

definition plain_renderer :: "unit renderer" where
  "plain_renderer = \<lparr>rd_initial = (\<lambda>_ bs. ((), bs)), rd_output = (\<lambda>_ bs. ((), bs)),
     rd_resize = (\<lambda>_ z. ((), z, []))\<rparr>"

definition no_faults :: attach_faults where
  "no_faults = \<lparr>af_screen = None, af_send = None, af_detach = None\<rparr>"

definition demo_typing :: "(attach_event \<times> attach_faults) list" where
  "demo_typing = map (\<lambda>ev. (ev, no_faults))
     [FromDaemon (Inr (Attached (SessionId 7) [104, 105] 2)), Typed (Some (InputBytes [2])),
      Typed (Some (InputBytes [2, 97, 2])), Typed (Some (InputBytes [100, 98]))]"

definition demo_typist :: "unit desk_client" where
  "demo_typist = attach_start no_faults (SessionId 7) default_client_size () (detach_new 2)"

lemma demo_typist_run:
  "ac_phase (attach_run plain_renderer (\<lambda>_. []) demo_typist demo_typing) = Stopped (Inr Detached)"
  "ac_sent (attach_run plain_renderer (\<lambda>_. []) demo_typist demo_typing) =
    [AttachSession (SessionId 7) default_client_size None, Input (SessionId 7) [2, 2, 97], DetachSession]"
  "typed_bytes (taken plain_renderer (\<lambda>_. []) demo_typist demo_typing) = [2, 2, 97, 2, 100, 98]"
  by (simp_all add: demo_typist_def demo_typing_def attach_start_def attach_step_def takes_def client_defs
      no_faults_def plain_renderer_def detach_consume_def detach_new_def typed_bytes_def del: One_nat_def)

theorem desktop_input_forwarded_witness:
  "\<exists>k \<in> detach_keys 2. prefix ([2, 2, 97] @ k) [2, 2, 97, 2, 100, 98]"
proof -
  let ?s = "attach_start no_faults (SessionId 7) default_client_size () (detach_new 2)"
  have "\<not> (\<exists>ev \<in> set (taken plain_renderer (\<lambda>_. []) ?s demo_typing). ends_input ev)"
    by (simp add: ends_input_def demo_typing_def attach_start_def attach_step_def takes_def client_defs
      no_faults_def plain_renderer_def detach_consume_def detach_new_def del: One_nat_def)
  with desktop_input_forwarded [OF refl refl, of plain_renderer "\<lambda>_. []" no_faults "SessionId 7"
      default_client_size "()" 2 demo_typing]
  show ?thesis
    using demo_typist_run unfolding demo_typist_def by (simp add: input_sent_def)
qed

end
