(* ===== verification/AttachFollow.thy ===== *)
theory AttachFollow
  imports AttachLoop Follow
begin

text \<open>
  The desktop client on a session: what it shows is what its renderer makes of the session's
  output, over any number of lags, while the user types and resizes the window.
\<close>

section \<open>What the renderer is given\<close>

datatype render_call = RenderInitial bytes | RenderOutput bytes | RenderResize client_size

fun render :: "'r renderer \<Rightarrow> 'r \<Rightarrow> render_call \<Rightarrow> 'r \<times> bytes" where
  "render rd r (RenderInitial bs) = rd_initial rd r bs"
| "render rd r (RenderOutput bs) = rd_output rd r bs"
| "render rd r (RenderResize z) = (case rd_resize rd r z of (r, _, frame) \<Rightarrow> (r, frame))"

definition render_all :: "'r renderer \<Rightarrow> 'r \<Rightarrow> render_call list \<Rightarrow> 'r \<times> bytes" where
  "render_all rd r calls = foldl (\<lambda>(r, out) call. case render rd r call of (r, frame) \<Rightarrow> (r, out @ frame)) (r, []) calls"

lemma render_all_snoc: "render_all rd r (calls @ [call]) = (case render_all rd r calls of (r, out) \<Rightarrow>
    case render rd r call of (r, frame) \<Rightarrow> (r, out @ frame))"
  by (simp add: render_all_def split_beta)

text \<open>A renderer that also keeps the calls.\<close>

definition recording :: "'r renderer \<Rightarrow> ('r \<times> render_call list) renderer" where
  "recording rd = \<lparr>
     rd_initial = (\<lambda>(r, calls) bs. case rd_initial rd r bs of (r, frame) \<Rightarrow> ((r, calls @ [RenderInitial bs]), frame)),
     rd_output = (\<lambda>(r, calls) bs. case rd_output rd r bs of (r, frame) \<Rightarrow> ((r, calls @ [RenderOutput bs]), frame)),
     rd_resize = (\<lambda>(r, calls) z. case rd_resize rd r z of (r, pty, frame) \<Rightarrow> ((r, calls @ [RenderResize z]), pty, frame))\<rparr>"

type_synonym 'r desk = "('r \<times> render_call list) desk_client"

text \<open>
  The frames of the calls are what is on the terminal and in the open batch; only a failed write
  to the terminal loses any.
\<close>

definition displays :: "'r renderer \<Rightarrow> 'r \<Rightarrow> 'r desk \<Rightarrow> bool" where
  "displays rd r0 c \<longleftrightarrow> (\<exists>total. render_all rd r0 (snd (ac_renderer c)) = (fst (ac_renderer c), total) \<and>
     prefix (ac_screen c) total \<and>
     (\<not> stopped c \<longrightarrow> total = ac_screen c @ ac_pending_output c) \<and>
     (\<forall>outcome. ac_phase c = Stopped (Inr outcome) \<longrightarrow> total = ac_screen c) \<and>
     (ac_phase c = Following \<and> \<not> ac_batch_open c \<or> ac_phase c = AwaitingReply \<longrightarrow> ac_pending_output c = []))"

lemma displays_reply: "displays rd r0 c \<Longrightarrow> ac_phase c = AwaitingReply \<Longrightarrow> displays rd r0 (attach_reply (recording rd) debug f r c)"
  by (cases "ac_renderer c")
    (auto simp: displays_def client_defs recording_def render_all_snoc stopped_def
      split: sum.splits server_msg.splits option.splits prod.splits)

lemma displays_flush:
  "displays rd r0 c \<Longrightarrow> \<not> stopped c \<Longrightarrow>
    (\<And>c'. displays rd r0 c' \<Longrightarrow> ac_pending_output c' = [] \<Longrightarrow> \<not> stopped c' \<Longrightarrow> displays rd r0 (k c')) \<Longrightarrow>
    displays rd r0 (flush_output fault k c)"
  by (cases fault) (auto simp: displays_def flush_output_def write_frame_def stop_with_def stopped_def)

lemma displays_request: "displays rd r0 c \<Longrightarrow> ac_pending_output c = [] \<Longrightarrow> \<not> stopped c \<Longrightarrow> displays rd r0 (request_attach f c)"
  by (cases "af_send f") (auto simp: displays_def request_attach_def sending_def stop_with_def stopped_def)

lemma displays_stop: "displays rd r0 c \<Longrightarrow> \<not> stopped c \<Longrightarrow> ac_pending_output c = [] \<or> (\<exists>e. r = Inl e) \<Longrightarrow> displays rd r0 (stop_with r c)"
  by (auto simp: displays_def stop_with_def stopped_def)

lemma displays_handle:
  assumes "displays rd r0 c" and "ac_phase c = Following"
    and "handle_server_message (recording rd) m c = (c', out)"
  shows "displays rd r0 c' \<and> \<not> stopped c'"
  using assms by (cases "ac_renderer c")
    (auto simp: displays_def handle_server_message_def recording_def render_all_snoc stopped_def
      split: server_msg.splits if_splits prod.splits)

lemma displays_daemon:
  assumes c: "displays rd r0 c" and ph: "ac_phase c = Following"
  shows "displays rd r0 (serve_daemon (recording rd) f r c)"
proof (cases r)
  case (Inl e)
  have run: "\<not> stopped c" using ph by (simp add: stopped_def)
  have "displays rd r0 (flush_output (af_screen f) (stop_with (Inr (ConnectionLost e))) c)"
    by (rule displays_flush [OF c run]) (rule displays_stop, simp_all)
  moreover have "displays rd r0 (stop_with (Inr (ConnectionLost e)) c)" if "\<not> ac_batch_open c"
    by (rule displays_stop [OF c run]) (use c ph that in \<open>auto simp: displays_def\<close>)
  ultimately show ?thesis by (simp add: Inl serve_daemon_def)
next
  case (Inr m)
  obtain c' out where h: "handle_server_message (recording rd) m c = (c', out)" by fastforce
  note d = displays_handle [OF c ph h]
  have "displays rd r0 (flush_output (af_screen f) (stop_with (Inr outcome)) c')" for outcome
    by (rule displays_flush [OF conjunct1 [OF d] conjunct2 [OF d]]) (rule displays_stop, simp_all)
  moreover have "displays rd r0 (flush_output (af_screen f) (request_attach f) c')"
    by (rule displays_flush [OF conjunct1 [OF d] conjunct2 [OF d]]) (rule displays_request)
  ultimately show ?thesis
    using d by (simp add: Inr serve_daemon_def h split: option.split attached_outcome.split)
qed

lemma displays_input: "displays rd r0 c \<Longrightarrow> takes c (Typed i) \<Longrightarrow> displays rd r0 (serve_input f event c)"
  by (auto simp: displays_def serve_input_def sending_def stop_with_def stopped_def takes_def Let_def
      split: input_event.splits option.splits prod.splits attach_phase.splits)

lemma displays_resize: "displays rd r0 c \<Longrightarrow> takes c (Resized z') \<Longrightarrow> displays rd r0 (serve_resize (recording rd) f z c)"
  by (cases "ac_renderer c")
    (auto simp: displays_def serve_resize_def sending_def write_frame_def stop_with_def stopped_def takes_def
      recording_def render_all_snoc split: option.splits prod.splits attach_phase.splits)

lemma displays_step: "displays rd r0 c \<Longrightarrow> displays rd r0 (attach_step (recording rd) debug c e)"
proof -
  assume c: "displays rd r0 c"
  obtain ev f where e: "e = (ev, f)" by fastforce
  show ?thesis
  proof (cases "takes c ev")
    case True
    then consider "ac_phase c = AwaitingReply" "\<exists>r. ev = FromDaemon r" | "ac_phase c = Following"
      by (auto simp: takes_def split: attach_phase.splits attach_event.splits)
    then show ?thesis
    proof cases
      case 1
      then show ?thesis using c True by (auto simp: e attach_step_def displays_reply)
    next
      case 2
      have "\<not> stopped c" using 2 by (simp add: stopped_def)
      then have "displays rd r0 (flush_output (af_screen f) (\<lambda>c. c\<lparr>ac_batch_open := False\<rparr>) c)"
        by (intro displays_flush [OF c]) (auto simp: displays_def stopped_def)
      then show ?thesis
        using c 2 True displays_input displays_resize by (cases ev) (auto simp: e attach_step_def displays_daemon)
    qed
  qed (use c in \<open>simp add: e attach_step_def\<close>)
qed

lemma displays_start: "displays rd r0 (attach_start f sid z (r0, []) ds)"
  by (auto simp: displays_def attach_start_def client_defs stopped_def render_all_def split: option.splits)

section \<open>The client on an attachment\<close>

text \<open>
  What happens on the client's side, in order: it reads the next frame, it polls an open batch
  and finds none, the user types, the window changes.
\<close>

datatype desk_act = NextFrame | Poll | Key "input_event option" | Window "client_size option"

type_synonym desk_script = "(desk_act \<times> attach_faults) list"

fun desk_run ::
    "'r renderer \<Rightarrow> (server_msg \<Rightarrow> rstr) \<Rightarrow> (rstr + server_msg) list \<Rightarrow> desk_script \<Rightarrow>
     'r desk_client \<Rightarrow> 'r desk_client" where
  "desk_run rd debug fs [] c = c"
| "desk_run rd debug fs ((act, f) # acts) c =
     (if ac_phase c \<noteq> Following then c
      else case act of
        NextFrame \<Rightarrow> (case fs of
            [] \<Rightarrow> desk_run rd debug fs acts c
          | r # rs \<Rightarrow> desk_run rd debug rs acts (attach_step rd debug c (FromDaemon r, f)))
      | Poll \<Rightarrow> desk_run rd debug fs acts (attach_step rd debug c (Quiet, f))
      | Key i \<Rightarrow> desk_run rd debug fs acts (attach_step rd debug c (Typed i, f))
      | Window z \<Rightarrow> desk_run rd debug fs acts (attach_step rd debug c (Resized z, f)))"

text \<open>
  The first frame of an attachment answers the request; a client that has not asked for one
  has none.  Nothing follows a lag until the next request.
\<close>

definition desk_reads ::
    "'r renderer \<Rightarrow> (server_msg \<Rightarrow> rstr) \<Rightarrow> session_id \<Rightarrow> desk_script \<Rightarrow> (rstr + server_msg) list \<Rightarrow>
     'r desk_client \<Rightarrow> 'r desk_client" where
  "desk_reads rd debug sid acts fs c =
     (if ac_phase c \<noteq> AwaitingReply then c
      else case (fs, dropWhile (\<lambda>a. fst a \<noteq> NextFrame) acts) of
        (r # rs, (_, f) # acts) \<Rightarrow> desk_run rd debug rs acts (attach_step rd debug c (FromDaemon r, f))
      | _ \<Rightarrow> c)"

lemma displays_desk_run: "displays rd r0 c \<Longrightarrow> displays rd r0 (desk_run (recording rd) debug fs acts c)"
  by (induction "recording rd" debug fs acts c rule: desk_run.induct)
    (auto simp: displays_step split: desk_act.split list.split)

lemma displays_reads: "displays rd r0 c \<Longrightarrow> displays rd r0 (desk_reads (recording rd) debug sid acts fs c)"
  by (auto simp: desk_reads_def intro!: displays_desk_run displays_step split: list.split)

section \<open>As a follower\<close>

text \<open>The bytes of output and of replays after the first reply.\<close>

definition desk_got :: "'r desk \<Rightarrow> bytes" where
  "desk_got c = concat (map (\<lambda>call. case call of RenderOutput bs \<Rightarrow> bs | _ \<Rightarrow> []) (snd (ac_renderer c)))"

definition desk_sane :: "'r desk \<Rightarrow> bool" where
  "desk_sane c \<longleftrightarrow> stopped c \<or> (ac_initial_attach c \<longleftrightarrow> ac_last_seen_seq c = None) \<and>
     (ac_phase c = Following \<longrightarrow> ac_last_seen_seq c \<noteq> None)"

definition calm_screen :: "desk_script \<Rightarrow> bool" where
  "calm_screen acts \<longleftrightarrow> (\<forall>(act, f) \<in> set acts. af_screen f = None)"

definition desk_listens :: "session_id \<Rightarrow> desk_script \<Rightarrow> 'r desk \<Rightarrow> bool" where
  "desk_listens sid acts c \<longleftrightarrow> ac_phase c = AwaitingReply \<and> ac_session_id c = sid \<and>
     (\<exists>f. (NextFrame, f) \<in> set acts)"

text \<open>Steps that hand on no output.\<close>

definition no_output :: "'r desk \<Rightarrow> 'r desk \<Rightarrow> bool" where
  "no_output c c' \<longleftrightarrow> ac_last_seen_seq c' = ac_last_seen_seq c \<and> desk_got c' = desk_got c \<and>
     ac_session_id c' = ac_session_id c \<and> ac_initial_attach c' = ac_initial_attach c \<and>
     (ac_phase c' = Following \<longrightarrow> ac_phase c = Following)"

lemma no_output_refl [simp]: "no_output c c"
  by (simp add: no_output_def)

lemma idle_reply_error: "no_output c (attach_step rd debug c (FromDaemon (Inl e), f))"
  by (auto simp: no_output_def attach_step_def takes_def client_defs desk_got_def split: option.splits attach_phase.splits)

lemma idle_quiet: "no_output c (attach_step rd debug c (Quiet, f))"
  by (auto simp: no_output_def attach_step_def takes_def client_defs desk_got_def split: option.splits attach_phase.splits)

lemma idle_input: "no_output c (attach_step rd debug c (Typed i, f))"
  by (auto simp: no_output_def attach_step_def takes_def client_defs desk_got_def
      split: option.splits attach_phase.splits input_event.splits prod.splits)

lemma idle_resize: "no_output c (attach_step (recording rd) debug c (Resized z, f))"
  by (cases "ac_renderer c") (auto simp: no_output_def attach_step_def takes_def client_defs desk_got_def recording_def
      split: option.splits attach_phase.splits prod.splits)

text \<open>A message that is not output ends the attachment or changes nothing.\<close>

lemma idle_message:
  assumes "ac_phase c = Following" and "\<nexists>i q bs. m = Output i q bs"
  shows "no_output c (attach_step (recording rd) debug c (FromDaemon (Inr m), f))"
  using assms by (cases m) (auto simp: no_output_def attach_step_def takes_def client_defs desk_got_def split: option.splits)

lemma desk_output_step:
  assumes "ac_phase c = Following" and "ac_session_id c = sid"
    and "c' = attach_step (recording rd) debug c (FromDaemon (Inr (Output sid q bs)), f)"
  shows "ac_phase c' = Following \<and> ac_session_id c' = sid \<and> ac_last_seen_seq c' = Some q \<and>
    desk_got c' = desk_got c @ bs \<and> ac_initial_attach c' = ac_initial_attach c"
  using assms by (cases "ac_renderer c")
    (auto simp: attach_step_def takes_def client_defs desk_got_def recording_def split: prod.splits)

lemma desk_following:
  assumes "ac_session_id c = sid" and "ac_last_seen_seq c = Some p"
    and "outputs_ok sid p ms" and "errors_only es"
    and "c' = desk_run (recording rd) debug (map Inr ms @ es) acts c"
  shows "\<exists>k. ac_last_seen_seq c' = Some (p + length (outputs (take k ms))) \<and>
    desk_got c' = desk_got c @ outputs (take k ms) \<and> ac_initial_attach c' = ac_initial_attach c"
  using assms
proof (induction acts arbitrary: c p ms es)
  case (Cons a acts)
  obtain act f where a: "a = (act, f)" by fastforce
  have idle: ?case if "no_output c c1" "c' = desk_run (recording rd) debug (map Inr ms @ es) acts c1" for c1
    using Cons.IH [of c1 p ms es] that Cons.prems by (auto simp: no_output_def)
  show ?case
  proof (cases "ac_phase c = Following")
    case False
    then show ?thesis using Cons.prems by (intro exI [of _ 0]) (simp add: a)
  next
    case fw: True
    show ?thesis
    proof (cases act)
      case NextFrame
      show ?thesis
      proof (cases ms)
        case Nil
        then show ?thesis
        proof (cases es)
          case Nil2: (Cons e es')
          then obtain x where e: "e = Inl x" and es': "errors_only es'" using Cons.prems(4) by (auto simp: errors_only_def)
          have "no_output c (attach_step (recording rd) debug c (FromDaemon (Inl x), f))" by (rule idle_reply_error)
          then show ?thesis
            using Cons.IH [of "attach_step (recording rd) debug c (FromDaemon (Inl x), f)" p "[]" es'] Cons.prems Nil Nil2 es' fw
            by (auto simp: a NextFrame e no_output_def)
        qed (use idle [of c] Cons.prems fw in \<open>auto simp: a NextFrame\<close>)
      next
        case ms: (Cons m ms')
        define c1 where "c1 = attach_step (recording rd) debug c (FromDaemon (Inr m), f)"
        have c': "c' = desk_run (recording rd) debug (map Inr ms' @ es) acts c1"
          using Cons.prems(5) fw by (simp add: a NextFrame ms c1_def)
        show ?thesis
        proof (cases "\<exists>i q bs. m = Output i q bs")
          case True
          then obtain bs where m: "m = Output sid (p + length bs) bs" and ok: "outputs_ok sid (p + length bs) ms'"
            using Cons.prems(3) by (auto simp: ms)
          have 1: "ac_session_id c1 = sid" "ac_last_seen_seq c1 = Some (p + length bs)"
            "desk_got c1 = desk_got c @ bs" "ac_initial_attach c1 = ac_initial_attach c"
            using desk_output_step [OF fw Cons.prems(1) c1_def [unfolded m]] by simp_all
          obtain k where "ac_last_seen_seq c' = Some (p + length bs + length (outputs (take k ms')))"
            "desk_got c' = desk_got c1 @ outputs (take k ms')" "ac_initial_attach c' = ac_initial_attach c1"
            using Cons.IH [OF 1(1,2) ok Cons.prems(4) c'] by blast
          then show ?thesis
            by (intro exI [of _ "Suc k"]) (simp add: ms m 1 output_of_def)
        next
          case False
          then have ok: "outputs_ok sid p ms'" and no: "output_of m = []"
            using Cons.prems(3) by (cases m; simp add: ms output_of_def)+
          have n: "no_output c c1" unfolding c1_def by (rule idle_message [OF fw False])
          obtain k where "ac_last_seen_seq c' = Some (p + length (outputs (take k ms')))"
            "desk_got c' = desk_got c1 @ outputs (take k ms')" "ac_initial_attach c' = ac_initial_attach c1"
            using Cons.IH [OF _ _ ok Cons.prems(4) c'] n Cons.prems(1,2) by (auto simp: no_output_def)
          then show ?thesis
            using n by (intro exI [of _ "Suc k"]) (simp add: ms no no_output_def)
        qed
      qed
    next
      case Poll
      then show ?thesis using idle [OF idle_quiet] Cons.prems(5) fw by (simp add: a)
    next
      case (Key i)
      then show ?thesis using idle [OF idle_input] Cons.prems(5) fw by (simp add: a)
    next
      case (Window z)
      then show ?thesis using idle [OF idle_resize] Cons.prems(5) fw by (simp add: a)
    qed
  qed
qed (auto intro!: exI [of _ 0])

lemma sane_step: "desk_sane c \<Longrightarrow> desk_sane (attach_step (recording rd) debug c e)"
proof -
  assume c: "desk_sane c"
  obtain ev f where e: "e = (ev, f)" by fastforce
  show ?thesis
  proof (cases "takes c ev")
    case True
    then show ?thesis
      using c by (cases ev) (auto simp: e attach_step_def desk_sane_def stopped_def takes_def client_defs
        split: option.splits attach_phase.splits sum.splits server_msg.splits prod.splits attached_outcome.splits
          input_event.splits)
  qed (use c in \<open>simp add: e attach_step_def\<close>)
qed

lemma sane_run: "desk_sane c \<Longrightarrow> desk_sane (desk_run (recording rd) debug fs acts c)"
  by (induction "recording rd" debug fs acts c rule: desk_run.induct)
    (auto simp: sane_step split: desk_act.split list.split)

lemma sane_reads: "desk_sane c \<Longrightarrow> desk_sane (desk_reads (recording rd) debug sid acts fs c)"
  by (auto simp: desk_reads_def intro!: sane_run sane_step split: list.split)

lemma idle_run: "ac_phase c \<noteq> Following \<Longrightarrow> desk_run rd debug fs acts c = c"
  by (cases acts) auto

lemma desk_silent:
  assumes "errors_only fs"
  shows "no_output c (desk_reads (recording rd) debug sid acts fs c)"
proof (cases fs)
  case (Cons r rs)
  then obtain e where e: "r = Inl e" using assms by (auto simp: errors_only_def)
  have "ac_phase (attach_step (recording rd) debug c (FromDaemon (Inl e), f)) \<noteq> Following"
    if "ac_phase c = AwaitingReply" for f
    using that by (simp add: attach_step_def takes_def client_defs)
  then show ?thesis
    using idle_reply_error [of c "recording rd" debug]
    by (auto simp: desk_reads_def Cons e idle_run split: list.split)
qed (simp add: desk_reads_def)

text \<open>The reply.\<close>

lemma reply_step:
  assumes "ac_phase c = AwaitingReply" and "af_screen f = None" and "ac_session_id c = sid"
    and "desk_sane c" and "c1 = attach_step (recording rd) debug c (FromDaemon (Inr (Attached sid bs p)), f)"
  shows "ac_session_id c1 = sid \<and> ac_last_seen_seq c1 = Some p \<and>
    desk_got c1 = desk_got c @ (if ac_last_seen_seq c = None then [] else bs)"
  using assms by (cases "ac_renderer c")
    (auto simp: attach_step_def takes_def client_defs desk_got_def recording_def desk_sane_def stopped_def
      split: prod.splits)

lemma desk_served:
  assumes sane: "desk_sane c" and calm: "calm_screen acts" and errs: "errors_only fs"
    and ok: "outputs_ok sid p ms"
    and c': "c' = desk_reads (recording rd) debug sid acts (Inr (Attached sid bs p) # map Inr ms @ fs) c"
  shows "(\<not> desk_listens sid acts c \<and> ac_last_seen_seq c' = ac_last_seen_seq c \<and> desk_got c' = desk_got c) \<or>
    (\<exists>k. ac_last_seen_seq c' = Some (p + length (outputs (take k ms))) \<and>
      desk_got c' = desk_got c @ (if ac_last_seen_seq c = None then [] else bs) @ outputs (take k ms))"
proof -
  consider "ac_phase c \<noteq> AwaitingReply" | "dropWhile (\<lambda>a. fst a \<noteq> NextFrame) acts = []"
    | f acts' where "ac_phase c = AwaitingReply" "dropWhile (\<lambda>a. fst a \<noteq> NextFrame) acts = (NextFrame, f) # acts'"
  proof (cases "dropWhile (\<lambda>a. fst a \<noteq> NextFrame) acts")
    case Nil
    then show ?thesis by (rule that(2))
  next
    case (Cons a acts')
    then have "fst a = NextFrame" using hd_dropWhile [of "\<lambda>a. fst a \<noteq> NextFrame" acts] by simp
    then have "a = (NextFrame, snd a)" by (cases a) simp
    with Cons have "dropWhile (\<lambda>a. fst a \<noteq> NextFrame) acts = (NextFrame, snd a) # acts'" by simp
    then show ?thesis by (cases "ac_phase c = AwaitingReply") (blast intro: that(1,3))+
  qed
  then show ?thesis
  proof cases
    case 1
    then show ?thesis by (simp add: c' desk_reads_def desk_listens_def)
  next
    case 2
    then have "\<forall>a \<in> set acts. fst a \<noteq> NextFrame" by (simp add: dropWhile_eq_Nil_conv)
    then have "\<not> desk_listens sid acts c" by (auto simp: desk_listens_def)
    moreover have "c' = c" by (simp add: c' desk_reads_def 2)
    ultimately show ?thesis by simp
  next
    case 3
    have "(NextFrame, f) \<in> set acts" by (rule set_dropWhileD [where P = "\<lambda>a. fst a \<noteq> NextFrame"]) (simp add: 3(2))
    then have f: "af_screen f = None" using calm by (auto simp: calm_screen_def)
    define c1 where "c1 = attach_step (recording rd) debug c (FromDaemon (Inr (Attached sid bs p)), f)"
    have c'1: "c' = desk_run (recording rd) debug (map Inr ms @ fs) acts' c1"
      using 3 by (simp add: c' desk_reads_def c1_def)
    show ?thesis
    proof (cases "ac_session_id c = sid")
      case True
      note 1 = reply_step [OF 3(1) f True sane c1_def]
      from desk_following [OF _ _ ok errs c'1] 1 show ?thesis by auto
    next
      case False
      then have "ac_phase c1 \<noteq> Following" "ac_last_seen_seq c1 = ac_last_seen_seq c" "desk_got c1 = desk_got c"
        using 3(1) by (simp_all add: c1_def attach_step_def takes_def client_defs desk_got_def)
      then show ?thesis using False by (simp add: c'1 idle_run desk_listens_def)
    qed
  qed
qed

interpretation desk: follower "\<lambda>c. ac_last_seen_seq c" desk_got "desk_reads (recording rd) debug"
  desk_sane calm_screen desk_listens
proof (unfold_locales, goal_cases)
  case (1 c sid x fs)
  then show ?case by (rule sane_reads)
next
  case (2 c fs sid x)
  from desk_silent [OF this(2), where rd = rd and debug = debug and sid = sid and acts = x and c = c] show ?case by (simp add: no_output_def)
next
  case (3 c x fs sid p ms c' bs)
  then show ?case by (rule desk_served)
qed

lemma displays_follow:
  "displays rd r0 c \<Longrightarrow> follow tm from_str position (desk_reads (recording rd) debug) runs d c = (d', c') \<Longrightarrow>
    displays rd r0 c'"
proof (induction runs arbitrary: d c)
  case (Cons a runs)
  obtain cx acts where a: "a = (cx, acts)" by fastforce
  show ?case by (rule Cons.IH [OF displays_reads [OF Cons.prems(1)]]) (use Cons.prems(2) in \<open>simp add: a Let_def\<close>)
qed simp


text \<open>
  A client that attaches, lags after one message and attaches again, on the session of
  \<open>Delivery\<close>: the window changes before the lag, a letter is typed after it.
\<close>

definition desk_link1 :: "rstr connection_run" where
  "desk_link1 = \<lparr>cx_before = [Capture [1, 2], Subscribe], cx_after = [Publish, Capture [3], Publish, Capture [4]],
     cx_lag = Some (2, 5), cx_frames = 9, cx_error = None\<rparr>"

definition desk_link2 :: "rstr connection_run" where
  "desk_link2 = \<lparr>cx_before = [Publish, Subscribe], cx_after = [Capture [5], Publish],
     cx_lag = None, cx_frames = 9, cx_error = None\<rparr>"

definition desk_acts1 :: desk_script where
  "desk_acts1 = map (\<lambda>a. (a, no_faults)) [NextFrame, Window (Some default_client_size), NextFrame, NextFrame]"

definition desk_acts2 :: desk_script where
  "desk_acts2 = map (\<lambda>a. (a, no_faults)) [NextFrame, NextFrame, Poll, Key (Some (InputBytes [97]))]"

definition desk_start :: "unit desk" where
  "desk_start = attach_start no_faults (SessionId 1) default_client_size ((), []) (detach_new 2)"

definition desk_d1 :: "unit delivery" where
  "desk_d1 = after_attach demo_parser (\<lambda>_. None) desk_link1 None (delivery_start demo_spawn)"

definition desk_c1 :: "unit desk" where
  "desk_c1 = desk_reads (recording plain_renderer) (\<lambda>_. []) (SessionId 1) desk_acts1 (frames_read desk_link1 desk_d1) desk_start"

definition desk_d2 :: "unit delivery" where
  "desk_d2 = after_attach demo_parser (\<lambda>_. None) desk_link2 (Some 3) desk_d1"

definition desk_c2 :: "unit desk" where
  "desk_c2 = desk_reads (recording plain_renderer) (\<lambda>_. []) (SessionId 1) desk_acts2 (frames_read desk_link2 desk_d2) desk_c1"

lemmas desk_eval = after_attach_def before_attach_def detached_def delivery_eval projection_snapshot_def
  end_seq_def ring_snapshot_def Let_def

lemma desk_before1: "dl_subscribed (before_attach demo_parser (\<lambda>_. None) desk_link1 (delivery_start demo_spawn)) \<noteq> None"
  "dl_attached (before_attach demo_parser (\<lambda>_. None) desk_link1 (delivery_start demo_spawn)) = None"
  by (simp_all add: desk_link1_def desk_eval)

lemma desk_d1_facts: "dl_attached desk_d1 = Some (2, [])" "captured desk_d1 = [1, 2, 3, 4]"
  "se_id (dl_session desk_d1) = SessionId 1"
  "received desk_d1 = map RecvOk [Output (SessionId 1) 2 [1, 2], Output (SessionId 1) 3 [3]]"
  by (simp_all add: desk_d1_def desk_link1_def desk_eval received_def)

lemma desk_before2: "dl_subscribed (before_attach demo_parser (\<lambda>_. None) desk_link2 desk_d1) \<noteq> None"
  "dl_attached (before_attach demo_parser (\<lambda>_. None) desk_link2 desk_d1) = None"
  "length (captured (before_attach demo_parser (\<lambda>_. None) desk_link2 desk_d1)) = 4"
  by (simp_all add: desk_d1_def desk_link1_def desk_link2_def desk_eval)

lemma desk_d2_facts: "dl_attached desk_d2 = Some (4, [4])" "captured desk_d2 = [1, 2, 3, 4, 5]"
  "se_id (dl_session desk_d2) = SessionId 1"
  "received desk_d2 = map RecvOk [Output (SessionId 1) 5 [5]]"
  by (simp_all add: desk_d2_def desk_d1_def desk_link1_def desk_link2_def desk_eval received_def)

lemmas desk_client_eval = desk_reads_def frames_read_def daemon_messages_def attach_step_def takes_def client_defs
  recording_def plain_renderer_def no_faults_def desk_acts1_def desk_acts2_def recv_attached_event_def
  output_was_replayed_def detach_consume_def detach_new_def attach_start_def

lemma desk_c1_facts: "desk_c1 = \<lparr>ac_phase = AwaitingReply, ac_session_id = SessionId 1,
    ac_size = default_client_size, ac_last_seen_seq = Some 3, ac_initial_attach = False,
    ac_pending_output = [], ac_batch_open = True, ac_resize_open = True,
    ac_renderer = ((), [RenderInitial [], RenderResize default_client_size, RenderOutput [3]]),
    ac_detach = detach_new 2, ac_screen = [3],
    ac_sent = [AttachSession (SessionId 1) default_client_size None, Resize (SessionId 1) default_client_size,
      AttachSession (SessionId 1) default_client_size (Some 3)]\<rparr>"
  by (simp add: desk_c1_def desk_start_def desk_d1_facts desk_link1_def desk_client_eval)

lemma desk_c2_facts: "ac_phase desk_c2 = Following" "ac_last_seen_seq desk_c2 = Some 5"
  "ac_screen desk_c2 = [3, 4, 5]" "ac_pending_output desk_c2 = []" "desk_got desk_c2 = [3, 4, 5]"
  by (simp_all add: desk_c2_def desk_c1_facts desk_d2_facts desk_link2_def desk_client_eval desk_got_def)

lemma desk_follow: "follow demo_parser (\<lambda>_. None) ac_last_seen_seq (desk_reads (recording plain_renderer) (\<lambda>_. []))
    [(desk_link1, desk_acts1), (desk_link2, desk_acts2)] (delivery_start demo_spawn) desk_start = (desk_d2, desk_c2)"
proof -
  have "ac_last_seen_seq desk_start = None" by (simp add: desk_start_def attach_start_def client_defs no_faults_def)
  moreover have "ac_last_seen_seq desk_c1 = Some 3" by (simp add: desk_c1_facts)
  ultimately show ?thesis
    by (simp add: Let_def desk_d1_facts(3) desk_d2_facts(3) desk_d1_def [symmetric] desk_c1_def [symmetric]
        desk_d2_def [symmetric] desk_c2_def [symmetric] del: One_nat_def)
qed

lemma desk_in_window: "in_window demo_parser (\<lambda>_. None) ac_last_seen_seq (desk_reads (recording plain_renderer) (\<lambda>_. []))
    [(desk_link1, desk_acts1), (desk_link2, desk_acts2)] (delivery_start demo_spawn) desk_start"
proof -
  have "ac_last_seen_seq desk_start = None" by (simp add: desk_start_def attach_start_def client_defs no_faults_def)
  moreover have "ac_last_seen_seq desk_c1 = Some 3" by (simp add: desk_c1_facts)
  ultimately show ?thesis
    using desk_before1 desk_before2
    by (simp add: Let_def in_window_at_def RING_CAPACITY_def desk_d1_facts(3) desk_d2_facts(3) desk_d1_def [symmetric] desk_c1_def [symmetric]
        desk_d2_def [symmetric] desk_c2_def [symmetric] del: One_nat_def)
qed


end
