(* ===== verification/AttachUi.thy ===== *)
theory AttachUi
  imports AttachLoop
begin

text \<open>
  The terminal surface of the desktop client (\<open>crates/cli/src/attach_ui.rs\<close>): the session is
  rendered through a nested terminal into all rows but the last, which shows a status line.  The
  nested terminal (the crate \<open>vt100\<close>), the width of a character (\<open>unicode_width\<close>) and the style
  found in the environment are parameters.
\<close>

record ('p, 's) vt100 =
  vt_new :: "nat \<Rightarrow> nat \<Rightarrow> 'p"
  vt_process :: "'p \<Rightarrow> bytes \<Rightarrow> 'p"
  vt_set_size :: "'p \<Rightarrow> nat \<Rightarrow> nat \<Rightarrow> 'p"
  vt_screen :: "'p \<Rightarrow> 's"
  vt_contents_diff :: "'s \<Rightarrow> 's \<Rightarrow> bytes"
  vt_input_mode_diff :: "'s \<Rightarrow> 's \<Rightarrow> bytes"
  vt_contents_formatted :: "'s \<Rightarrow> bytes"
  vt_input_mode_formatted :: "'s \<Rightarrow> bytes"
  vt_cursor_state_formatted :: "'s \<Rightarrow> bytes"
  vt_attributes_formatted :: "'s \<Rightarrow> bytes"

section \<open>Sizes and text\<close>

definition STATUS_ROWS :: nat where "STATUS_ROWS = 1"

definition content_size :: "client_size \<Rightarrow> client_size" where
  "content_size physical_size = \<lparr>cols = max (cols physical_size) 1,
     rows = max (rows physical_size - STATUS_ROWS) 1\<rparr>"

definition status_bar_supported :: "client_size \<Rightarrow> bool" where
  "status_bar_supported physical_size \<longleftrightarrow> STATUS_ROWS < rows physical_size \<and> 0 < cols physical_size"

definition sanitized_session_name :: "rstr \<Rightarrow> rstr" where
  "sanitized_session_name name =
     (let trimmed = trim (filter (\<lambda>c. \<not> is_control c) name) in
      if trimmed = [] then lit ''session'' else trimmed)"

definition display_width :: "(rchar \<Rightarrow> nat option) \<Rightarrow> rstr \<Rightarrow> nat" where
  "display_width width text = sum_list (map (\<lambda>c. case width c of Some w \<Rightarrow> w | None \<Rightarrow> 0) text)"

text \<open>The character \<open>...\<close> is U+2026.\<close>

fun truncate_loop :: "(rchar \<Rightarrow> nat option) \<Rightarrow> nat \<Rightarrow> nat \<Rightarrow> rstr \<Rightarrow> rstr \<Rightarrow> rstr" where
  "truncate_loop width target w output [] = output"
| "truncate_loop width target w output (c # text) =
     (let character_width = (case width c of Some k \<Rightarrow> k | None \<Rightarrow> 0) in
      if target < w + character_width then output
      else truncate_loop width target (w + character_width) (output @ [c]) text)"

definition truncate_to_width :: "(rchar \<Rightarrow> nat option) \<Rightarrow> rstr \<Rightarrow> nat \<Rightarrow> rstr" where
  "truncate_to_width width text max_width =
     (if display_width width text \<le> max_width then text
      else if max_width = 0 then []
      else truncate_loop width (max_width - 1) 0 [] text @ [8230])"

definition status_line :: "(rchar \<Rightarrow> nat option) \<Rightarrow> rstr \<Rightarrow> nat \<Rightarrow> rstr" where
  "status_line width session_name c =
     (let w = max c 1;
        line = truncate_to_width width (lit ''shelly -> '' @ sanitized_session_name session_name) w in
      line @ replicate (w - display_width width line) 32)"

section \<open>The renderer\<close>

record ('p, 's) attach_renderer =
  ar_parser :: 'p
  ar_previous :: 's
  ar_physical_size :: client_size
  ar_session_name :: rstr

definition esc :: "string \<Rightarrow> bytes" where
  "esc s = 27 # as_bytes (lit s)"

definition ANSI_RESET :: bytes where "ANSI_RESET = esc ''[0m''"

definition attach_renderer_new :: "('p, 's) vt100 \<Rightarrow> rstr \<Rightarrow> client_size \<Rightarrow> ('p, 's) attach_renderer" where
  "attach_renderer_new vt session_name physical_size =
     (let content = content_size physical_size; parser = vt_new vt (rows content) (cols content) in
      \<lparr>ar_parser = parser, ar_previous = vt_screen vt parser, ar_physical_size = physical_size,
       ar_session_name = sanitized_session_name session_name\<rparr>)"

definition status_frame ::
    "('p, 's) vt100 \<Rightarrow> (rchar \<Rightarrow> nat option) \<Rightarrow> bytes \<Rightarrow> ('p, 's) attach_renderer \<Rightarrow> bytes" where
  "status_frame vt width style r = (let screen = vt_screen vt (ar_parser r) in
     esc ''[?25l'' @ esc ''['' @ as_bytes (dec (max (rows (ar_physical_size r)) 1) @ lit '';1H'') @ style @
     as_bytes (status_line width (ar_session_name r) (cols (ar_physical_size r))) @ ANSI_RESET @
     vt_cursor_state_formatted vt screen @ vt_attributes_formatted vt screen)"

definition full_frame ::
    "('p, 's) vt100 \<Rightarrow> (rchar \<Rightarrow> nat option) \<Rightarrow> bytes \<Rightarrow> ('p, 's) attach_renderer \<Rightarrow> bytes" where
  "full_frame vt width style r = (let screen = vt_screen vt (ar_parser r) in
     esc ''[H'' @ esc ''[2J'' @ esc ''[?6l'' @ esc ''[1;'' @
     as_bytes (dec (rows (content_size (ar_physical_size r))) @ lit ''r'') @
     vt_contents_formatted vt screen @ vt_input_mode_formatted vt screen @ status_frame vt width style r)"

text \<open>\<open>windows\<close>: whether the bytes occur in the frame.\<close>

fun has_window :: "bytes \<Rightarrow> bytes \<Rightarrow> bool" where
  "has_window s [] \<longleftrightarrow> s = []"
| "has_window s (b # frame) \<longleftrightarrow> take (length s) (b # frame) = s \<or> has_window s frame"

definition frame_erases_status_row :: "bytes \<Rightarrow> bool" where
  "frame_erases_status_row frame \<longleftrightarrow>
     (\<exists>s \<in> set [esc ''[J'', esc ''[0J'', esc ''[2J'', esc ''[3J'']. has_window s frame)"

definition remember :: "('p, 's) vt100 \<Rightarrow> ('p, 's) attach_renderer \<Rightarrow> ('p, 's) attach_renderer" where
  "remember vt r = r\<lparr>ar_previous := vt_screen vt (ar_parser r)\<rparr>"

definition initial_frame ::
    "('p, 's) vt100 \<Rightarrow> (rchar \<Rightarrow> nat option) \<Rightarrow> bytes \<Rightarrow> ('p, 's) attach_renderer \<Rightarrow> bytes \<Rightarrow>
     ('p, 's) attach_renderer \<times> bytes" where
  "initial_frame vt width style r bs =
     (let r = r\<lparr>ar_parser := vt_process vt (ar_parser r) bs\<rparr> in (remember vt r, full_frame vt width style r))"

definition output_frame ::
    "('p, 's) vt100 \<Rightarrow> (rchar \<Rightarrow> nat option) \<Rightarrow> bytes \<Rightarrow> ('p, 's) attach_renderer \<Rightarrow> bytes \<Rightarrow>
     ('p, 's) attach_renderer \<times> bytes" where
  "output_frame vt width style r bs =
     (let r = r\<lparr>ar_parser := vt_process vt (ar_parser r) bs\<rparr>;
        screen = vt_screen vt (ar_parser r);
        frame = vt_contents_diff vt screen (ar_previous r) @ vt_input_mode_diff vt screen (ar_previous r);
        frame = (if frame_erases_status_row frame then frame @ status_frame vt width style r else frame) in
      (remember vt r, frame))"

definition renderer_resize ::
    "('p, 's) vt100 \<Rightarrow> (rchar \<Rightarrow> nat option) \<Rightarrow> bytes \<Rightarrow> ('p, 's) attach_renderer \<Rightarrow> client_size \<Rightarrow>
     ('p, 's) attach_renderer \<times> bytes" where
  "renderer_resize vt width style r physical_size =
     (let content = content_size physical_size;
        r = r\<lparr>ar_physical_size := physical_size,
              ar_parser := vt_set_size vt (ar_parser r) (rows content) (cols content)\<rparr> in
      (remember vt r, full_frame vt width style r))"

text \<open>
  \<open>detect_status_style\<close> on the variables \<open>COLORTERM\<close> and \<open>TERM\<close>, absent when they are not set or
  not Unicode.
\<close>

definition detect_status_style :: "rstr option \<Rightarrow> rstr option \<Rightarrow> bytes" where
  "detect_status_style colorterm term_var =
     (if (case colorterm of None \<Rightarrow> False | Some v \<Rightarrow>
          str_lower v = lit ''truecolor'' \<or> str_lower v = lit ''24bit'')
      then esc ''[1;38;2;17;21;18;48;2;131;175;120m''
      else if (case term_var of None \<Rightarrow> False | Some v \<Rightarrow> contains v (lit ''256color''))
      then esc ''[1;38;5;16;48;5;108m''
      else esc ''[1;30;42m'')"

text \<open>The client's renderer (\<open>CliTerminalRenderer\<close> in \<open>main.rs\<close>): none without a status bar.\<close>

definition cli_renderer ::
    "('p, 's) vt100 \<Rightarrow> (rchar \<Rightarrow> nat option) \<Rightarrow> bytes \<Rightarrow> ('p, 's) attach_renderer option renderer" where
  "cli_renderer vt width style = \<lparr>
     rd_initial = (\<lambda>r bs. case r of None \<Rightarrow> (r, bs)
       | Some r \<Rightarrow> (case initial_frame vt width style r bs of (r, frame) \<Rightarrow> (Some r, frame))),
     rd_output = (\<lambda>r bs. case r of None \<Rightarrow> (r, bs)
       | Some r \<Rightarrow> (case output_frame vt width style r bs of (r, frame) \<Rightarrow> (Some r, frame))),
     rd_resize = (\<lambda>r z. case r of None \<Rightarrow> (r, z, [])
       | Some r \<Rightarrow> (case renderer_resize vt width style r z of
           (r, frame) \<Rightarrow> (Some r, content_size (ar_physical_size r), frame)))\<rparr>"

definition cli_renderer_new :: "('p, 's) vt100 \<Rightarrow> rstr \<Rightarrow> client_size \<Rightarrow> bool \<Rightarrow> ('p, 's) attach_renderer option" where
  "cli_renderer_new vt session_name physical_size status_bar =
     (if status_bar then Some (attach_renderer_new vt session_name physical_size) else None)"

section \<open>The status line\<close>

lemma display_width_append [simp]: "display_width w (s @ t) = display_width w s + display_width w t"
  by (simp add: display_width_def)

lemma display_width_spaces: "w 32 = Some 1 \<Longrightarrow> display_width w (replicate n 32) = n"
  by (induction n) (simp_all add: display_width_def)

lemma truncate_loop_width:
  "display_width width acc = w \<Longrightarrow> w \<le> target \<Longrightarrow> display_width width (truncate_loop width target w acc s) \<le> target"
  by (induction width target w acc s rule: truncate_loop.induct) (auto simp: Let_def display_width_def)

lemma truncate_width: "width 8230 = Some 1 \<Longrightarrow> display_width width (truncate_to_width width s m) \<le> m"
  using truncate_loop_width [of width "[]" 0 "m - 1" s]
  by (auto simp: truncate_to_width_def) (auto simp: display_width_def)

text \<open>[status_line_fills_row].  The status line is exactly as wide as the terminal, whatever the
  session is called: nothing wraps to the next row and nothing of the row shows what was there.\<close>

theorem status_line_fills_row:
  assumes "width 8230 = Some 1" and "width 32 = Some 1"
  shows "display_width width (status_line width name c) = max c 1"
  using truncate_width [where width = width, OF assms(1)] assms(2)
  by (simp add: status_line_def Let_def display_width_spaces)

lemma status_line_fills_row_witness:
  "display_width (\<lambda>c. if c = 12486 then Some 2 else Some 1) (status_line (\<lambda>c. if c = 12486 then Some 2 else Some 1)
    (lit ''a'' @ [12486, 12486]) 13) = 13"
  using status_line_fills_row [of "\<lambda>c. if c = 12486 then Some 2 else Some 1" "lit ''a'' @ [12486, 12486]" 13] by simp

text \<open>The nested terminal has the size the PTY is given.\<close>

lemma content_size_resize: "fst (snd (rd_resize (cli_renderer vt width style) (Some r) z)) = content_size z"
  by (simp add: cli_renderer_def renderer_resize_def remember_def Let_def)

end
