(* ===== verification/Snapshot.thy ===== *)
theory Snapshot
  imports Terminal Infer
begin

text \<open>
  \<open>TerminalModel\<close> of \<open>crates/daemon/src/terminal_model.rs\<close>: how the visible screen of the emulator
  is written as the escape sequences a client restores it from, the last line, and the replies
  to the queries of the program.  The emulator (the crate \<open>alacritty_terminal\<close>) stays a
  parameter: \<open>screen\<close> is what the code reads of it.
\<close>

section \<open>The emulator's screen\<close>

text \<open>A named color is its number: 0 to 7, their bright variants 8 to 15, and special ones.\<close>

datatype color = Named nat | Indexed nat | Spec nat nat nat

definition NAMED_FOREGROUND :: nat where "NAMED_FOREGROUND = 256"
definition NAMED_BACKGROUND :: nat where "NAMED_BACKGROUND = 257"

datatype cell_flag = Bold | Dim | Italic | Underline | DoubleUnderline | Undercurl | DottedUnderline
  | DashedUnderline | Inverse | Hidden | Strikeout | WideChar | WideCharSpacer | LeadingWideCharSpacer | Wrapline

record cell =
  ce_char :: rchar
  ce_zerowidth :: "rstr option"
  ce_fg :: color
  ce_bg :: color
  ce_flags :: "cell_flag set"
  ce_underline_color :: "color option"

record screen =
  sn_lines :: "cell list list"
  sn_cursor :: "nat \<times> nat"
  sn_alt :: bool
  sn_title :: rstr

record cell_attributes =
  ca_foreground :: color
  ca_background :: color
  ca_flags :: "cell_flag set"
  ca_underline_color :: "color option"

definition STYLE_FLAGS :: "cell_flag set" where
  "STYLE_FLAGS = {Bold, Dim, Italic, Underline, DoubleUnderline, Undercurl, DottedUnderline,
     DashedUnderline, Inverse, Hidden, Strikeout}"

definition attrs_from_cell :: "cell \<Rightarrow> cell_attributes" where
  "attrs_from_cell c = \<lparr>ca_foreground = ce_fg c, ca_background = ce_bg c,
     ca_flags = ce_flags c \<inter> STYLE_FLAGS, ca_underline_color = ce_underline_color c\<rparr>"

text \<open>Those of \<open>Cell::default()\<close>.\<close>

definition default_attrs :: cell_attributes where
  "default_attrs = \<lparr>ca_foreground = Named NAMED_FOREGROUND, ca_background = Named NAMED_BACKGROUND,
     ca_flags = {}, ca_underline_color = None\<rparr>"

section \<open>Select graphic rendition\<close>

text \<open>The bytes and whether no parameter has been written.\<close>

definition push_sgr_param :: "nat \<Rightarrow> bytes \<times> bool \<Rightarrow> bytes \<times> bool" where
  "push_sgr_param v s = (case s of (out, first) \<Rightarrow>
     ((if first then out else out @ as_bytes (lit '';'')) @ as_bytes (dec v), False))"

definition push_sgr_subparams :: "nat list \<Rightarrow> bytes \<times> bool \<Rightarrow> bytes \<times> bool" where
  "push_sgr_subparams values s = (case s of (out, first) \<Rightarrow>
     ((if first then out else out @ as_bytes (lit '';'')) @
        concat (map (\<lambda>i. (if i \<noteq> 0 then as_bytes (lit '':'') else []) @ as_bytes (dec (values ! i))) [0..<length values]),
      False))"

definition push_color_param :: "color \<Rightarrow> nat \<Rightarrow> bool \<Rightarrow> bytes \<times> bool \<Rightarrow> bytes \<times> bool" where
  "push_color_param color extended_code foreground s = (case color of
     Named named \<Rightarrow>
       if named = NAMED_FOREGROUND \<and> foreground then s
       else if named = NAMED_BACKGROUND \<and> \<not> foreground then s
       else if named < 8 then push_sgr_param ((if foreground then 30 else 40) + named) s
       else if named < 16 then push_sgr_param ((if foreground then 90 else 100) + named - 8) s
       else s
   | Indexed index \<Rightarrow> push_sgr_param index (push_sgr_param 5 (push_sgr_param extended_code s))
   | Spec r g b \<Rightarrow> push_sgr_param b (push_sgr_param g (push_sgr_param r (push_sgr_param 2
       (push_sgr_param extended_code s)))))"

definition push_sgr :: "cell_attributes \<Rightarrow> bytes \<Rightarrow> bytes" where
  "push_sgr attrs out =
     (let has = (\<lambda>f. f \<in> ca_flags attrs);
        s = push_sgr_param 0 (out @ 27 # as_bytes (lit ''[''), True);
        s = (if has Bold then push_sgr_param 1 s else s);
        s = (if has Dim then push_sgr_param 2 s else s);
        s = (if has Italic then push_sgr_param 3 s else s);
        s = (if has Underline then push_sgr_param 4 s
             else if has DoubleUnderline then push_sgr_subparams [4, 2] s
             else if has Undercurl then push_sgr_subparams [4, 3] s
             else if has DottedUnderline then push_sgr_subparams [4, 4] s
             else if has DashedUnderline then push_sgr_subparams [4, 5] s
             else s);
        s = (if has Inverse then push_sgr_param 7 s else s);
        s = (if has Hidden then push_sgr_param 8 s else s);
        s = (if has Strikeout then push_sgr_param 9 s else s);
        s = push_color_param (ca_foreground attrs) 38 True s;
        s = push_color_param (ca_background attrs) 48 False s;
        s = (case ca_underline_color attrs of
               Some underline_color \<Rightarrow> push_color_param underline_color 58 False s
             | None \<Rightarrow> s) in
      fst s @ as_bytes (lit ''m''))"

section \<open>The snapshot\<close>

definition push_title :: "rstr \<Rightarrow> bytes \<Rightarrow> bytes" where
  "push_title title out = out @ 27 # as_bytes (lit '']0;'') @
     filter (\<lambda>b. \<not> (b = 27 \<or> b = 7)) (as_bytes title) @ 27 # [92]"

text \<open>\<open>is_empty\<close> of a cell is the emulator's.\<close>

definition occupied_columns :: "(cell \<Rightarrow> bool) \<Rightarrow> cell list \<Rightarrow> nat" where
  "occupied_columns is_empty line = length line - length (takeWhile is_empty (rev line))"

definition is_spacer :: "cell \<Rightarrow> bool" where
  "is_spacer c \<longleftrightarrow> WideCharSpacer \<in> ce_flags c \<or> LeadingWideCharSpacer \<in> ce_flags c"

definition push_cell_string :: "cell \<Rightarrow> rstr \<Rightarrow> rstr" where
  "push_cell_string c out = out @ [ce_char c] @ (case ce_zerowidth c of Some zs \<Rightarrow> zs | None \<Rightarrow> [])"

definition push_cell_text :: "cell \<Rightarrow> bytes \<Rightarrow> bytes" where
  "push_cell_text c out = out @ as_bytes [ce_char c] @
     (case ce_zerowidth c of Some zs \<Rightarrow> as_bytes zs | None \<Rightarrow> [])"

fun render_cells :: "cell list \<Rightarrow> bytes \<Rightarrow> cell_attributes \<Rightarrow> bytes \<times> cell_attributes" where
  "render_cells [] out current = (out, current)"
| "render_cells (c # cs) out current =
     (if is_spacer c then render_cells cs out current
      else let attrs = attrs_from_cell c;
             out = (if attrs \<noteq> current then push_sgr attrs out else out) in
        render_cells cs (push_cell_text c out) attrs)"

definition render_row :: "(cell \<Rightarrow> bool) \<Rightarrow> nat \<Rightarrow> cell list \<Rightarrow> bytes \<Rightarrow> bytes" where
  "render_row is_empty row line out =
     (case render_cells (take (occupied_columns is_empty line) line)
        (out @ 27 # as_bytes (lit ''['' @ dec (row + 1) @ lit '';1H'')) default_attrs of
        (out, current) \<Rightarrow> if current \<noteq> default_attrs then out @ 27 # as_bytes (lit ''[0m'') else out)"

definition render_rows :: "(cell \<Rightarrow> bool) \<Rightarrow> cell list list \<Rightarrow> bytes \<Rightarrow> bytes" where
  "render_rows is_empty lines out = foldl (\<lambda>out (row, line). render_row is_empty row line out) out (enumerate 0 lines)"

definition render_snapshot :: "(cell \<Rightarrow> bool) \<Rightarrow> screen \<Rightarrow> bytes" where
  "render_snapshot is_empty s =
     (let out = 27 # as_bytes (if sn_alt s then lit ''[?1049h'' else lit ''[?1049l'');
        out = push_title (sn_title s) out;
        out = out @ 27 # as_bytes (lit ''[0m'') @ 27 # as_bytes (lit ''[H'') @ 27 # as_bytes (lit ''[2J'');
        out = render_rows is_empty (sn_lines s) out in
      out @ 27 # as_bytes (lit ''['' @ dec (snd (sn_cursor s) + 1) @ lit '';'' @ dec (fst (sn_cursor s) + 1) @ lit ''H''))"

definition line_text :: "(cell \<Rightarrow> bool) \<Rightarrow> cell list \<Rightarrow> rstr" where
  "line_text is_empty line = trim (foldl (\<lambda>out c. if is_spacer c then out else push_cell_string c out) []
     (take (occupied_columns is_empty line) line))"

definition model_last_line :: "(cell \<Rightarrow> bool) \<Rightarrow> screen \<Rightarrow> nat \<Rightarrow> rstr option" where
  "model_last_line is_empty s max_chars = find_map
     (\<lambda>line. let t = line_text is_empty line in if t = [] then None else Some (take max_chars t))
     (rev (sn_lines s))"

section \<open>Replies to the program\<close>

definition ANSI_COLORS :: "(nat \<times> nat \<times> nat) list" where
  "ANSI_COLORS = [(0, 0, 0), (204, 85, 85), (85, 204, 85), (205, 205, 85), (84, 85, 203), (204, 85, 204),
     (122, 202, 202), (204, 204, 204), (85, 85, 85), (255, 85, 85), (85, 255, 85), (255, 255, 85),
     (85, 85, 255), (255, 85, 255), (85, 255, 255), (255, 255, 255)]"

definition COLOR_RAMP :: "nat list" where "COLOR_RAMP = [0, 95, 135, 175, 215, 255]"

definition default_palette_color :: "nat \<Rightarrow> (nat \<times> nat \<times> nat) option" where
  "default_palette_color index =
     (if index \<le> 15 then Some (ANSI_COLORS ! index)
      else if index \<le> 231 then
        let cube = index - 16 in
        Some (COLOR_RAMP ! (cube div 36), COLOR_RAMP ! (cube div 6 mod 6), COLOR_RAMP ! (cube mod 6))
      else if index \<le> 255 then let grey = 8 + (index - 232) * 10 in Some (grey, grey, grey)
      else if index = 256 \<or> index = 267 then Some (178, 178, 178)
      else if index = 257 \<or> index = 268 then Some (ANSI_COLORS ! 0)
      else if index = 258 then Some (82, 173, 112)
      else None)"

datatype term_event =
    PtyWrite rstr
  | TitleEvent rstr
  | ResetTitle
  | ColorRequest nat "nat \<times> nat \<times> nat \<Rightarrow> rstr"
  | TextAreaSizeRequest "client_size \<Rightarrow> rstr"
  | ClipboardLoad "rstr \<Rightarrow> rstr"
  | OtherEvent

definition DEFAULT_TITLE :: rstr where "DEFAULT_TITLE = lit ''Shelly''"

text \<open>The title after the event and what is written to the PTY.\<close>

definition send_event :: "client_size \<Rightarrow> term_event \<Rightarrow> rstr \<Rightarrow> rstr \<times> bytes" where
  "send_event sz event title = (case event of
     PtyWrite s \<Rightarrow> (title, as_bytes s)
   | TitleEvent t \<Rightarrow> (t, [])
   | ResetTitle \<Rightarrow> (DEFAULT_TITLE, [])
   | ColorRequest index formatter \<Rightarrow> (title, case default_palette_color index of
       Some color \<Rightarrow> as_bytes (formatter color) | None \<Rightarrow> [])
   | TextAreaSizeRequest formatter \<Rightarrow> (title, as_bytes (formatter sz))
   | ClipboardLoad formatter \<Rightarrow> (title, as_bytes (formatter []))
   | OtherEvent \<Rightarrow> (title, []))"

text \<open>The parser of \<open>TerminalProjection\<close> over an emulator whose screen is read as above.\<close>

definition model_parser ::
    "(client_size \<Rightarrow> 'm) \<Rightarrow> ('m \<Rightarrow> bytes \<Rightarrow> 'm option \<times> bytes list) \<Rightarrow> ('m \<Rightarrow> client_size \<Rightarrow> 'm option) \<Rightarrow>
     ('m \<Rightarrow> screen option) \<Rightarrow> (cell \<Rightarrow> bool) \<Rightarrow> 'm parser" where
  "model_parser new advance resize screen_of is_empty = \<lparr>tm_new = new, tm_advance = advance,
     tm_resize = resize,
     tm_last_line = (\<lambda>m n. map_option (\<lambda>s. model_last_line is_empty s n) (screen_of m)),
     tm_render = (\<lambda>m. map_option (render_snapshot is_empty) (screen_of m))\<rparr>"

lemma palette_bytes: "default_palette_color i = Some (r, g, b) \<Longrightarrow> r < 256 \<and> g < 256 \<and> b < 256"
proof -
  assume a: "default_palette_color i = Some (r, g, b)"
  have ansi: "x < 256 \<and> y < 256 \<and> z < 256" if "ANSI_COLORS ! j = (x, y, z)" "j \<le> 15" for j x y z
  proof -
    have "\<forall>(x, y, z) \<in> set ANSI_COLORS. x < 256 \<and> y < 256 \<and> z < 256" by (simp add: ANSI_COLORS_def)
    moreover have "ANSI_COLORS ! j \<in> set ANSI_COLORS" using that by (intro nth_mem) (simp add: ANSI_COLORS_def)
    ultimately show ?thesis using that(1) by auto
  qed
  have ramp: "COLOR_RAMP ! j < 256" if "j < 6" for j
  proof -
    have "\<forall>x \<in> set COLOR_RAMP. x < 256" by (simp add: COLOR_RAMP_def)
    moreover have "COLOR_RAMP ! j \<in> set COLOR_RAMP" using that by (intro nth_mem) (simp add: COLOR_RAMP_def)
    ultimately show ?thesis by auto
  qed
  show ?thesis
    using a ramp ansi [of i r g b] ansi [of 0 r g b]
    by (auto simp: default_palette_color_def Let_def split: if_splits)
qed

end
