(* ===== verification/SnapshotShown.thy ===== *)
theory SnapshotShown
  imports Snapshot
begin

text \<open>
  What a terminal shows that reads a snapshot.  The terminal is specified by the commands of
  ECMA-48 that the snapshot uses; the theorem is that it ends with the emulator's screen.
\<close>

section \<open>Commands\<close>

datatype command = AltScreen bool | SetTitle bytes | Sgr "nat list list" | EraseDisplay | Home | MoveTo nat nat
  | Print rchar

fun joined :: "nat \<Rightarrow> bytes list \<Rightarrow> bytes" where
  "joined sep [] = []"
| "joined sep [x] = x"
| "joined sep (x # y # xs) = x @ as_bytes [sep] @ joined sep (y # xs)"

definition param_bytes :: "nat list \<Rightarrow> bytes" where
  "param_bytes p = joined 58 (map (\<lambda>v. as_bytes (dec v)) p)"

fun command_bytes :: "command \<Rightarrow> bytes" where
  "command_bytes (AltScreen on) = 27 # as_bytes (if on then lit ''[?1049h'' else lit ''[?1049l'')"
| "command_bytes (SetTitle t) = 27 # as_bytes (lit '']0;'') @ t @ 27 # [92]"
| "command_bytes (Sgr ps) = 27 # as_bytes (lit ''['') @ joined 59 (map param_bytes ps) @ as_bytes (lit ''m'')"
| "command_bytes EraseDisplay = 27 # as_bytes (lit ''[2J'')"
| "command_bytes Home = 27 # as_bytes (lit ''[H'')"
| "command_bytes (MoveTo row col) = 27 # as_bytes (lit ''['' @ dec row @ lit '';'' @ dec col @ lit ''H'')"
| "command_bytes (Print c) = as_bytes [c]"

section \<open>Their meaning\<close>

definition ALL_UNDERLINES :: "cell_flag set" where
  "ALL_UNDERLINES = {Underline, DoubleUnderline, Undercurl, DottedUnderline, DashedUnderline}"

definition set_flag :: "cell_flag \<Rightarrow> cell_attributes \<Rightarrow> cell_attributes" where
  "set_flag f a = a\<lparr>ca_flags := insert f (if f \<in> ALL_UNDERLINES then ca_flags a - ALL_UNDERLINES else ca_flags a)\<rparr>"

definition sgr_one :: "nat list \<Rightarrow> cell_attributes \<Rightarrow> cell_attributes" where
  "sgr_one p a =
     (if p = [0] then default_attrs
      else if p = [1] then set_flag Bold a else if p = [2] then set_flag Dim a
      else if p = [3] then set_flag Italic a else if p = [4] then set_flag Underline a
      else if p = [4, 2] then set_flag DoubleUnderline a else if p = [4, 3] then set_flag Undercurl a
      else if p = [4, 4] then set_flag DottedUnderline a else if p = [4, 5] then set_flag DashedUnderline a
      else if p = [7] then set_flag Inverse a else if p = [8] then set_flag Hidden a
      else if p = [9] then set_flag Strikeout a
      else if 30 \<le> hd p \<and> hd p < 38 then a\<lparr>ca_foreground := Named (hd p - 30)\<rparr>
      else if 40 \<le> hd p \<and> hd p < 48 then a\<lparr>ca_background := Named (hd p - 40)\<rparr>
      else if 90 \<le> hd p \<and> hd p < 98 then a\<lparr>ca_foreground := Named (hd p - 82)\<rparr>
      else if 100 \<le> hd p \<and> hd p < 108 then a\<lparr>ca_background := Named (hd p - 92)\<rparr>
      else a)"

text \<open>The color after 38, 48 or 58, and the parameters after it.\<close>

fun ext_color :: "nat list list \<Rightarrow> (color \<times> nat list list) option" where
  "ext_color ([m] # [n] # ps) =
     (if m = 5 then Some (Indexed n, ps)
      else if m = 2 then (case ps of [g] # [b] # ps' \<Rightarrow> Some (Spec n g b, ps') | _ \<Rightarrow> None)
      else None)"
| "ext_color _ = None"

lemma ext_color_shorter: "ext_color ps = Some (c, qs) \<Longrightarrow> length qs < length ps"
  by (induction ps rule: ext_color.induct) (auto split: if_splits list.splits)

function sgr_apply :: "nat list list \<Rightarrow> cell_attributes \<Rightarrow> cell_attributes" where
  "sgr_apply [] a = a"
| "sgr_apply (p # ps) a =
     (if p \<in> {[38], [48], [58]} then
        (case ext_color ps of
           None \<Rightarrow> a
         | Some (c, qs) \<Rightarrow> sgr_apply qs (if p = [38] then a\<lparr>ca_foreground := c\<rparr>
             else if p = [48] then a\<lparr>ca_background := c\<rparr> else a\<lparr>ca_underline_color := Some c\<rparr>))
      else sgr_apply ps (sgr_one p a))"
  by pat_completeness auto
termination
  by (relation "measure (\<lambda>(ps, a). length ps)") (auto dest: ext_color_shorter)

datatype glyph = Glyph rstr cell_attributes | Continuation

abbreviation blank :: glyph where "blank \<equiv> Glyph [32] default_attrs"

record shown =
  sh_alt :: bool
  sh_title :: bytes
  sh_row :: nat
  sh_col :: nat
  sh_last :: "nat \<times> nat"
  sh_attrs :: cell_attributes
  sh_cells :: "nat \<Rightarrow> nat \<Rightarrow> glyph"

definition put :: "nat \<Rightarrow> nat \<Rightarrow> glyph \<Rightarrow> shown \<Rightarrow> shown" where
  "put row col g t = t\<lparr>sh_cells := (sh_cells t)(row := (sh_cells t row)(col := g))\<rparr>"

text \<open>
  A character of width 0 joins the last one printed; one that does not fit into the row goes to
  the next.
\<close>

definition print_char :: "(rchar \<Rightarrow> nat) \<Rightarrow> nat \<Rightarrow> rchar \<Rightarrow> shown \<Rightarrow> shown" where
  "print_char width columns c t =
     (if width c = 0 then
        (case sh_last t of (row, col) \<Rightarrow> (case sh_cells t row col of
           Glyph s a \<Rightarrow> put row col (Glyph (s @ [c]) a) t
         | Continuation \<Rightarrow> t))
      else let (row, col) = (if columns < sh_col t + width c then (sh_row t + 1, 0) else (sh_row t, sh_col t));
             t = put row col (Glyph [c] (sh_attrs t)) t;
             t = (if width c = 2 then put row (col + 1) Continuation t else t) in
        t\<lparr>sh_row := row, sh_col := col + width c, sh_last := (row, col)\<rparr>)"

definition tab_stop :: "nat \<Rightarrow> nat" where "tab_stop col = (col div 8 + 1) * 8"

fun exec :: "(rchar \<Rightarrow> nat) \<Rightarrow> nat \<Rightarrow> shown \<Rightarrow> command \<Rightarrow> shown" where
  "exec width columns t (AltScreen on) = t\<lparr>sh_alt := on\<rparr>"
| "exec width columns t (SetTitle s) = t\<lparr>sh_title := s\<rparr>"
| "exec width columns t (Sgr ps) = t\<lparr>sh_attrs := sgr_apply ps (sh_attrs t)\<rparr>"
| "exec width columns t EraseDisplay = t\<lparr>sh_cells := (\<lambda>_ _. Glyph [32] default_attrs)\<rparr>"
| "exec width columns t Home = t\<lparr>sh_row := 0, sh_col := 0\<rparr>"
| "exec width columns t (MoveTo row col) = t\<lparr>sh_row := row - 1, sh_col := col - 1\<rparr>"
| "exec width columns t (Print c) =
     (if c = 9 then t\<lparr>sh_col := min (tab_stop (sh_col t)) (columns - 1)\<rparr> else print_char width columns c t)"

section \<open>The snapshot as commands\<close>

definition color_params :: "color \<Rightarrow> nat \<Rightarrow> bool \<Rightarrow> nat list list" where
  "color_params color extended_code foreground = (case color of
     Named n \<Rightarrow>
       if n = (if foreground then NAMED_FOREGROUND else NAMED_BACKGROUND) then []
       else if n < 8 then [[(if foreground then 30 else 40) + n]]
       else if n < 16 then [[(if foreground then 90 else 100) + n - 8]]
       else []
   | Indexed i \<Rightarrow> [[extended_code], [5], [i]]
   | Spec r g b \<Rightarrow> [[extended_code], [2], [r], [g], [b]])"

definition flag_params :: "cell_flag set \<Rightarrow> nat list list" where
  "flag_params fs =
     (if Bold \<in> fs then [[1]] else []) @ (if Dim \<in> fs then [[2]] else []) @
     (if Italic \<in> fs then [[3]] else []) @
     (if Underline \<in> fs then [[4]] else if DoubleUnderline \<in> fs then [[4, 2]]
      else if Undercurl \<in> fs then [[4, 3]] else if DottedUnderline \<in> fs then [[4, 4]]
      else if DashedUnderline \<in> fs then [[4, 5]] else []) @
     (if Inverse \<in> fs then [[7]] else []) @ (if Hidden \<in> fs then [[8]] else []) @
     (if Strikeout \<in> fs then [[9]] else [])"

definition sgr_params :: "cell_attributes \<Rightarrow> nat list list" where
  "sgr_params a = [0] # flag_params (ca_flags a) @ color_params (ca_foreground a) 38 True @
     color_params (ca_background a) 48 False @
     (case ca_underline_color a of None \<Rightarrow> [] | Some c \<Rightarrow> color_params c 58 False)"

fun cell_commands :: "cell list \<Rightarrow> cell_attributes \<Rightarrow> command list" where
  "cell_commands [] current = []"
| "cell_commands (c # cs) current =
     (if is_spacer c then cell_commands cs current
      else (if attrs_from_cell c \<noteq> current then [Sgr (sgr_params (attrs_from_cell c))] else []) @
        map Print (push_cell_string c []) @ cell_commands cs (attrs_from_cell c))"

fun last_attrs :: "cell list \<Rightarrow> cell_attributes \<Rightarrow> cell_attributes" where
  "last_attrs [] current = current"
| "last_attrs (c # cs) current = last_attrs cs (if is_spacer c then current else attrs_from_cell c)"

definition row_commands :: "(cell \<Rightarrow> bool) \<Rightarrow> nat \<Rightarrow> cell list \<Rightarrow> command list" where
  "row_commands is_empty row line = (let cs = take (occupied_columns is_empty line) line in
     MoveTo (row + 1) 1 # cell_commands cs default_attrs @
     (if last_attrs cs default_attrs \<noteq> default_attrs then [Sgr [[0]]] else []))"

definition snapshot_commands :: "(cell \<Rightarrow> bool) \<Rightarrow> screen \<Rightarrow> command list" where
  "snapshot_commands is_empty s =
     [AltScreen (sn_alt s), SetTitle (filter (\<lambda>b. \<not> (b = 27 \<or> b = 7)) (as_bytes (sn_title s))),
      Sgr [[0]], Home, EraseDisplay] @
     concat (map (\<lambda>(row, line). row_commands is_empty row line) (enumerate 0 (sn_lines s))) @
     [MoveTo (snd (sn_cursor s) + 1) (fst (sn_cursor s) + 1)]"

text \<open>Writing parameters one by one joins them.\<close>

lemma joined_snoc: "joined sep (xs @ [x]) = (if xs = [] then x else joined sep xs @ as_bytes [sep] @ x)"
  by (induction sep xs rule: joined.induct) auto

definition params_written :: "bytes \<Rightarrow> nat list list \<Rightarrow> bytes \<times> bool" where
  "params_written out ps = (out @ joined 59 (map param_bytes ps), ps = [])"

lemma push_sgr_param_written: "push_sgr_param v (params_written out ps) = params_written out (ps @ [[v]])"
  by (simp add: push_sgr_param_def params_written_def joined_snoc param_bytes_def lit_eval)

lemma push_subparams_written:
  "push_sgr_subparams [a, b] (params_written out ps) = params_written out (ps @ [[a, b]])"
  by (simp add: push_sgr_subparams_def params_written_def joined_snoc param_bytes_def lit_eval upt_rec)

lemma push_color_written:
  "push_color_param color code fg (params_written out ps) = params_written out (ps @ color_params color code fg)"
  by (cases color) (auto simp: push_color_param_def color_params_def push_sgr_param_written
      NAMED_FOREGROUND_def NAMED_BACKGROUND_def)

lemma push_sgr_bytes: "push_sgr a out = out @ command_bytes (Sgr (sgr_params a))"
proof -
  have start: "(out @ 27 # as_bytes (lit ''[''), True) = params_written (out @ 27 # as_bytes (lit ''['')) []"
    by (simp add: params_written_def)
  have opt: "(if b then params_written q (ps @ x) else params_written q ps) =
      params_written q (ps @ (if b then x else []))" for b x q ps
    by simp
  have alt: "(if b then params_written q (ps @ x) else params_written q (ps @ y)) =
      params_written q (ps @ (if b then x else y))" for b x y q ps
    by simp
  have color: "(case c of None \<Rightarrow> params_written q ps | Some d \<Rightarrow> params_written q (ps @ f d)) =
      params_written q (ps @ (case c of None \<Rightarrow> [] | Some d \<Rightarrow> f d))"
    for c :: "color option" and q ps f
    by (simp split: option.split)
  have "push_sgr a out = fst (params_written (out @ 27 # as_bytes (lit ''['')) (sgr_params a)) @ as_bytes (lit ''m'')"
    unfolding push_sgr_def start Let_def push_sgr_param_written push_subparams_written push_color_written
      opt alt color
    by (simp only: sgr_params_def flag_params_def append_assoc append.simps)
  then show ?thesis by (simp add: params_written_def)
qed

lemma cell_text_bytes: "push_cell_text c out = out @ concat (map command_bytes (map Print (push_cell_string c [])))"
proof -
  have "concat (map command_bytes (map Print s)) = as_bytes s" for s
    by (induction s) (simp_all add: as_bytes_def)
  then show ?thesis by (simp add: push_cell_text_def push_cell_string_def as_bytes_def split: option.split)
qed

lemma render_cells_bytes:
  "render_cells cs out current = (out @ concat (map command_bytes (cell_commands cs current)), last_attrs cs current)"
proof (induction cs out current rule: render_cells.induct)
  case (2 c cs out current)
  then show ?case by (simp add: Let_def push_sgr_bytes cell_text_bytes del: command_bytes.simps)
qed simp

lemma render_row_bytes:
  "render_row is_empty row line out = out @ concat (map command_bytes (row_commands is_empty row line))"
proof -
  have "dec 1 = [49]" by (simp add: dec.simps)
  moreover have "joined 59 (map param_bytes [[0]]) = as_bytes (lit ''0'')"
    by (simp add: param_bytes_def dec.simps lit_eval)
  ultimately show ?thesis
    by (simp add: render_row_def row_commands_def render_cells_bytes Let_def lit_eval as_bytes_def)
qed

lemma render_rows_bytes:
  "foldl (\<lambda>out (row, line). render_row is_empty row line out) out rws =
    out @ concat (map command_bytes (concat (map (\<lambda>(row, line). row_commands is_empty row line) rws)))"
  by (induction rws arbitrary: out) (auto simp: render_row_bytes)

lemma render_snapshot_bytes:
  "render_snapshot is_empty s = concat (map command_bytes (snapshot_commands is_empty s))"
proof -
  have "joined 59 (map param_bytes [[0]]) = as_bytes (lit ''0'')"
    by (simp add: param_bytes_def dec.simps lit_eval)
  then show ?thesis
    by (simp add: render_snapshot_def snapshot_commands_def render_rows_def render_rows_bytes push_title_def
        Let_def lit_eval as_bytes_def)
qed

section \<open>Reading the attributes back\<close>

fun color_ok :: "nat \<Rightarrow> color \<Rightarrow> bool" where
  "color_ok special (Named n) \<longleftrightarrow> n < 16 \<or> n = special"
| "color_ok special _ \<longleftrightarrow> True"

text \<open>Attributes the emulator gives a cell: one kind of underline, and colors a program can select.\<close>

definition attrs_ok :: "cell_attributes \<Rightarrow> bool" where
  "attrs_ok a \<longleftrightarrow> ca_flags a \<subseteq> STYLE_FLAGS \<and>
     (\<forall>f \<in> ca_flags a. \<forall>g \<in> ca_flags a. f \<in> ALL_UNDERLINES \<longrightarrow> g \<in> ALL_UNDERLINES \<longrightarrow> f = g) \<and>
     color_ok NAMED_FOREGROUND (ca_foreground a) \<and> color_ok NAMED_BACKGROUND (ca_background a) \<and>
     (case ca_underline_color a of None \<Rightarrow> True | Some c \<Rightarrow> color_ok 0 c \<and> (\<forall>n. c \<noteq> Named n))"

lemma sgr_color_fg: "color_ok NAMED_FOREGROUND c \<Longrightarrow> (c = Named NAMED_FOREGROUND \<Longrightarrow> ca_foreground a = c) \<Longrightarrow>
    sgr_apply (color_params c 38 True @ ps) a = sgr_apply ps (a\<lparr>ca_foreground := c\<rparr>)"
  by (cases c; cases a) (auto simp: color_params_def sgr_one_def NAMED_FOREGROUND_def)

lemma sgr_color_bg: "color_ok NAMED_BACKGROUND c \<Longrightarrow> (c = Named NAMED_BACKGROUND \<Longrightarrow> ca_background a = c) \<Longrightarrow>
    sgr_apply (color_params c 48 False @ ps) a = sgr_apply ps (a\<lparr>ca_background := c\<rparr>)"
  by (cases c; cases a) (auto simp: color_params_def sgr_one_def NAMED_BACKGROUND_def)

lemma sgr_color_ul: "\<forall>n. c \<noteq> Named n \<Longrightarrow>
    sgr_apply (color_params c 58 False @ ps) a = sgr_apply ps (a\<lparr>ca_underline_color := Some c\<rparr>)"
  by (cases c) (auto simp: color_params_def)

lemma sgr_plain_flag:
  assumes "(k, f) \<in> {(1, Bold), (2, Dim), (3, Italic), (7, Inverse), (8, Hidden), (9, Strikeout)}"
  shows "sgr_apply ((if f \<in> fs then [[k]] else []) @ ps) a = sgr_apply ps (a\<lparr>ca_flags := fs \<inter> {f} \<union> ca_flags a\<rparr>)"
proof (cases "f \<in> fs")
  case True
  have "sgr_one [k] a = a\<lparr>ca_flags := insert f (ca_flags a)\<rparr>" "k \<notin> {38, 48, 58}"
    using assms unfolding insert_iff empty_iff Pair_inject
    by (elim disjE conjE FalseE; simp add: sgr_one_def set_flag_def ALL_UNDERLINES_def)+
  with True show ?thesis by simp
qed (cases a, simp)

lemma sgr_underline_flag:
  assumes one: "\<forall>f \<in> fs. \<forall>g \<in> fs. f \<in> ALL_UNDERLINES \<longrightarrow> g \<in> ALL_UNDERLINES \<longrightarrow> f = g"
    and none: "ca_flags a \<inter> ALL_UNDERLINES = {}"
  shows "sgr_apply ((if Underline \<in> fs then [[4]] else if DoubleUnderline \<in> fs then [[4, 2]]
      else if Undercurl \<in> fs then [[4, 3]] else if DottedUnderline \<in> fs then [[4, 4]]
      else if DashedUnderline \<in> fs then [[4, 5]] else []) @ ps) a =
    sgr_apply ps (a\<lparr>ca_flags := fs \<inter> ALL_UNDERLINES \<union> ca_flags a\<rparr>)"
proof -
  have sub: "ca_flags a - ALL_UNDERLINES = ca_flags a" using none by blast
  consider "fs \<inter> ALL_UNDERLINES = {}" | u where "u \<in> ALL_UNDERLINES" "fs \<inter> ALL_UNDERLINES = {u}"
    using one by blast
  then show ?thesis
  proof cases
    case 1
    then show ?thesis by (auto simp: ALL_UNDERLINES_def)
  next
    case 2
    then have "f \<in> fs \<longleftrightarrow> f = u" if "f \<in> ALL_UNDERLINES" for f using that by blast
    then have "Underline \<in> fs \<longleftrightarrow> u = Underline" "DoubleUnderline \<in> fs \<longleftrightarrow> u = DoubleUnderline"
      "Undercurl \<in> fs \<longleftrightarrow> u = Undercurl" "DottedUnderline \<in> fs \<longleftrightarrow> u = DottedUnderline"
      "DashedUnderline \<in> fs \<longleftrightarrow> u = DashedUnderline"
      by (auto simp: ALL_UNDERLINES_def)
    then show ?thesis
      using 2 sub by (cases u) (simp_all add: sgr_one_def set_flag_def, auto simp: ALL_UNDERLINES_def)
  qed
qed

lemma sgr_apply_flags:
  assumes one: "\<forall>f \<in> fs. \<forall>g \<in> fs. f \<in> ALL_UNDERLINES \<longrightarrow> g \<in> ALL_UNDERLINES \<longrightarrow> f = g"
    and style: "fs \<subseteq> STYLE_FLAGS" and none: "ca_flags a = {}"
  shows "sgr_apply (flag_params fs @ ps) a = sgr_apply ps (a\<lparr>ca_flags := fs\<rparr>)"
proof -
  have parts: "fs \<inter> {Strikeout} \<union> (fs \<inter> {Hidden} \<union> (fs \<inter> {Inverse} \<union> (fs \<inter> ALL_UNDERLINES \<union>
      (fs \<inter> {Italic} \<union> (fs \<inter> {Dim} \<union> (fs \<inter> {Bold} \<union> ca_flags a)))))) = fs"
    using style none by (auto simp: STYLE_FLAGS_def ALL_UNDERLINES_def)
  have "sgr_apply (flag_params fs @ ps) a = sgr_apply ps (a\<lparr>ca_flags := fs \<inter> {Strikeout} \<union> (fs \<inter> {Hidden} \<union>
      (fs \<inter> {Inverse} \<union> (fs \<inter> ALL_UNDERLINES \<union> (fs \<inter> {Italic} \<union> (fs \<inter> {Dim} \<union> (fs \<inter> {Bold} \<union> ca_flags a))))))\<rparr>)"
    unfolding flag_params_def append_assoc
    by (subst sgr_plain_flag, simp, subst sgr_plain_flag, simp, subst sgr_plain_flag, simp,
        subst sgr_underline_flag [OF one], simp add: none, simp add: ALL_UNDERLINES_def,
        subst sgr_plain_flag, simp, subst sgr_plain_flag, simp, subst sgr_plain_flag, simp, simp)
  then show ?thesis by (simp only: parts)
qed

lemma sgr_roundtrip: "attrs_ok a \<Longrightarrow> sgr_apply (sgr_params a) x = a"
proof -
  assume ok: "attrs_ok a"
  have "sgr_apply (sgr_params a) x = sgr_apply (flag_params (ca_flags a) @ color_params (ca_foreground a) 38 True @
      color_params (ca_background a) 48 False @
      (case ca_underline_color a of None \<Rightarrow> [] | Some c \<Rightarrow> color_params c 58 False) @ []) default_attrs"
    by (simp add: sgr_params_def sgr_one_def)
  also have "\<dots> = a"
    using ok unfolding attrs_ok_def
    by (subst sgr_apply_flags, simp, simp, simp add: default_attrs_def,
        subst sgr_color_fg, simp, simp add: default_attrs_def,
        subst sgr_color_bg, simp, simp add: default_attrs_def)
      (auto simp: sgr_color_ul [where ps = "[]", simplified] default_attrs_def split: option.splits)
  finally show ?thesis .
qed

section \<open>A row of the emulator\<close>

text \<open>
  What the cell should look like.  The spacer the emulator leaves in the last column when a wide
  character moves to the next row is a blank one.
\<close>

definition want :: "cell \<Rightarrow> glyph" where
  "want c = (if WideCharSpacer \<in> ce_flags c then Continuation
     else if LeadingWideCharSpacer \<in> ce_flags c then blank
     else Glyph (push_cell_string c []) (attrs_from_cell c))"

definition printable :: "(rchar \<Rightarrow> nat) \<Rightarrow> cell \<Rightarrow> bool" where
  "printable width c \<longleftrightarrow> ce_char c \<noteq> 9 \<and> width (ce_char c) = (if WideChar \<in> ce_flags c then 2 else 1) \<and>
     (case ce_zerowidth c of None \<Rightarrow> True | Some zs \<Rightarrow> \<forall>z \<in> set zs. z \<noteq> 9 \<and> width z = 0) \<and>
     attrs_ok (attrs_from_cell c)"

fun row_ok :: "(rchar \<Rightarrow> nat) \<Rightarrow> cell list \<Rightarrow> bool" where
  "row_ok width [] \<longleftrightarrow> True"
| "row_ok width (c # cs) \<longleftrightarrow>
     (if is_spacer c then WideCharSpacer \<notin> ce_flags c \<and> cs = []
      else printable width c \<and>
        (if WideChar \<in> ce_flags c then (case cs of [] \<Rightarrow> False | d # ds \<Rightarrow> WideCharSpacer \<in> ce_flags d \<and> row_ok width ds)
         else row_ok width cs))"

text \<open>A blank shows its background only.\<close>

definition looks :: "glyph \<Rightarrow> glyph" where
  "looks g = (case g of
     Glyph s a \<Rightarrow> if s = [32] \<and> ca_flags a \<inter> insert Inverse (insert Strikeout ALL_UNDERLINES) = {}
       then Glyph s (default_attrs\<lparr>ca_background := ca_background a\<rparr>) else g
   | Continuation \<Rightarrow> g)"

text \<open>What \<open>GridCell::is_empty\<close> of the emulator tells of a cell.\<close>

definition empty_cell :: "cell \<Rightarrow> bool" where
  "empty_cell c \<longleftrightarrow> ce_char c \<in> {32, 9} \<and> ce_zerowidth c = None \<and> ce_fg c = Named NAMED_FOREGROUND \<and>
     ce_bg c = Named NAMED_BACKGROUND \<and>
     ce_flags c \<inter> (ALL_UNDERLINES \<union> {Inverse, Strikeout, Wrapline, WideCharSpacer, LeadingWideCharSpacer}) = {}"

lemma empty_cell_looks: "empty_cell c \<Longrightarrow> ce_char c \<noteq> 9 \<Longrightarrow> looks (want c) = blank"
  by (cases c) (auto simp: empty_cell_def looks_def want_def push_cell_string_def attrs_from_cell_def default_attrs_def)

lemma looks_blank: "looks blank = blank"
  by (simp add: looks_def default_attrs_def)

subsection \<open>Printing a cell\<close>

lemma exec_zero_width:
  "\<forall>z \<in> set zs. z \<noteq> 9 \<and> width z = 0 \<Longrightarrow> sh_last t = (row, col) \<Longrightarrow> sh_cells t row col = Glyph s a \<Longrightarrow>
    foldl (exec width columns) t (map Print zs) = put row col (Glyph (s @ zs) a) t"
proof (induction zs arbitrary: s t)
  case Nil
  then show ?case by (simp add: put_def fun_upd_idem)
next
  case (Cons z zs)
  have "exec width columns t (Print z) = put row col (Glyph (s @ [z]) a) t"
    using Cons.prems by (simp add: print_char_def)
  then show ?case
    using Cons.prems Cons.IH [of "put row col (Glyph (s @ [z]) a) t" "s @ [z]"] by (simp add: put_def)
qed

lemma exec_cell:
  assumes p: "printable width c" and fits: "sh_col t + width (ce_char c) \<le> columns"
  shows "foldl (exec width columns) t (map Print (push_cell_string c [])) =
    (let row = sh_row t; col = sh_col t;
         t' = put row col (Glyph (push_cell_string c []) (sh_attrs t)) t;
         t' = (if WideChar \<in> ce_flags c then put row (col + 1) Continuation t' else t') in
     t'\<lparr>sh_row := row, sh_col := col + width (ce_char c), sh_last := (row, col)\<rparr>)"
proof -
  define t1 where "t1 = exec width columns t (Print (ce_char c))"
  define zs where "zs = (case ce_zerowidth c of Some zs \<Rightarrow> zs | None \<Rightarrow> [])"
  have zs: "\<forall>z \<in> set zs. z \<noteq> 9 \<and> width z = 0"
    using p by (auto simp: zs_def printable_def split: option.splits)
  have chars: "push_cell_string c [] = ce_char c # zs" by (simp add: push_cell_string_def zs_def)
  have t1: "t1 = (let row = sh_row t; col = sh_col t;
      t' = put row col (Glyph [ce_char c] (sh_attrs t)) t;
      t' = (if WideChar \<in> ce_flags c then put row (col + 1) Continuation t' else t') in
      t'\<lparr>sh_row := row, sh_col := col + width (ce_char c), sh_last := (row, col)\<rparr>)"
    using p fits by (auto simp: t1_def print_char_def printable_def Let_def)
  have "foldl (exec width columns) t (map Print (push_cell_string c [])) = foldl (exec width columns) t1 (map Print zs)"
    by (simp add: chars t1_def del: exec.simps)
  also have "\<dots> = put (sh_row t) (sh_col t) (Glyph ([ce_char c] @ zs) (sh_attrs t)) t1"
    by (rule exec_zero_width [OF zs]) (simp_all add: t1 Let_def put_def)
  finally show ?thesis by (auto simp: chars t1 Let_def put_def fun_upd_twist)
qed

subsection \<open>Printing a row\<close>

text \<open>\<open>t'\<close> is \<open>t\<close> after the cells \<open>cs\<close> have been drawn from its cursor on.\<close>

definition drawn :: "shown \<Rightarrow> cell list \<Rightarrow> shown \<Rightarrow> bool" where
  "drawn t cs t' \<longleftrightarrow> sh_row t' = sh_row t \<and> sh_alt t' = sh_alt t \<and> sh_title t' = sh_title t \<and>
     (\<forall>r k. sh_cells t' r k =
        (if r = sh_row t \<and> sh_col t \<le> k \<and> k < sh_col t + length cs then want (cs ! (k - sh_col t))
         else sh_cells t r k))"

lemma drawn_nil: "drawn t [] t"
  by (auto simp: drawn_def)

lemma drawn_append:
  assumes a: "drawn t cs t1" and b: "drawn t1 ds t2" and col: "sh_col t1 = sh_col t + length cs"
  shows "drawn t (cs @ ds) t2"
  unfolding drawn_def
proof (intro conjI allI)
  fix r k
  show "sh_cells t2 r k = (if r = sh_row t \<and> sh_col t \<le> k \<and> k < sh_col t + length (cs @ ds)
      then want ((cs @ ds) ! (k - sh_col t)) else sh_cells t r k)"
    using a b col by (auto simp: drawn_def nth_append)
qed (use a b in \<open>simp_all add: drawn_def\<close>)

definition cell_width :: "cell \<Rightarrow> nat" where
  "cell_width c = (if WideChar \<in> ce_flags c then 2 else 1)"

lemma exec_styled_cell:
  assumes p: "printable width c" and plain: "\<not> is_spacer c" and cur: "sh_attrs t = current"
    and fits: "sh_col t + cell_width c \<le> columns"
    and wide: "WideChar \<in> ce_flags c \<Longrightarrow> cs = [c, d] \<and> WideCharSpacer \<in> ce_flags d"
    and thin: "WideChar \<notin> ce_flags c \<Longrightarrow> cs = [c]"
  obtains t' where "foldl (exec width columns) t
      ((if attrs_from_cell c \<noteq> current then [Sgr (sgr_params (attrs_from_cell c))] else []) @
        map Print (push_cell_string c [])) = t'"
    "drawn t cs t'" "sh_col t' = sh_col t + length cs" "sh_attrs t' = attrs_from_cell c"
proof -
  have width: "width (ce_char c) = cell_width c" "attrs_ok (attrs_from_cell c)"
    using p by (simp_all add: printable_def cell_width_def)
  define t0 where "t0 = t\<lparr>sh_attrs := attrs_from_cell c\<rparr>"
  have t0: "foldl (exec width columns) t
      (if attrs_from_cell c \<noteq> current then [Sgr (sgr_params (attrs_from_cell c))] else []) = t0"
    using cur sgr_roundtrip [OF width(2)] by (cases t) (auto simp: t0_def)
  define t' where "t' = foldl (exec width columns) t0 (map Print (push_cell_string c []))"
  have t': "t' = (let row = sh_row t; col = sh_col t;
      u = put row col (Glyph (push_cell_string c []) (attrs_from_cell c)) t0;
      u = (if WideChar \<in> ce_flags c then put row (col + 1) Continuation u else u) in
      u\<lparr>sh_row := row, sh_col := col + cell_width c, sh_last := (row, col)\<rparr>)"
    using exec_cell [OF p, of t0 columns] fits width(1) by (simp add: t'_def t0_def)
  have first: "want c = Glyph (push_cell_string c []) (attrs_from_cell c)"
    using plain by (simp add: want_def is_spacer_def)
  show ?thesis
  proof (rule that [of t'])
    show "drawn t cs t'"
    proof (cases "WideChar \<in> ce_flags c")
      case True
      then have "cs = [c, d]" "want d = Continuation" using wide by (simp_all add: want_def)
      then show ?thesis
        using True first by (auto simp: drawn_def t' t0_def Let_def put_def nth_Cons' cell_width_def)
    next
      case False
      then have "cs = [c]" using thin by simp
      then show ?thesis using False first by (auto simp: drawn_def t' t0_def Let_def put_def)
    qed
    show "sh_col t' = sh_col t + length cs" using wide thin
      by (cases "WideChar \<in> ce_flags c") (auto simp: t' Let_def cell_width_def)
    show "sh_attrs t' = attrs_from_cell c" by (simp add: t' t0_def Let_def put_def)
  qed (simp only: foldl_append t0 t'_def)
qed

lemma exec_cells:
  "row_ok width cs \<Longrightarrow> sh_attrs t = current \<Longrightarrow> sh_col t + length cs \<le> columns \<Longrightarrow>
    \<forall>k \<ge> sh_col t. sh_cells t (sh_row t) k = blank \<Longrightarrow>
    \<exists>t'. foldl (exec width columns) t (cell_commands cs current) = t' \<and> drawn t cs t' \<and>
      sh_attrs t' = last_attrs cs current"
proof (induction width cs arbitrary: t current rule: row_ok.induct)
  case (1 width)
  then show ?case by (simp add: drawn_nil)
next
  case (2 width c cs)
  show ?case
  proof (cases "is_spacer c")
    case True
    then have "cs = []" "want c = blank" using "2.prems"(1) by (auto simp: want_def is_spacer_def)
    then show ?thesis using True "2.prems" by (auto simp: drawn_def)
  next
    case plain: False
    then have p: "printable width c" using "2.prems"(1) by simp
    define ds where "ds = (if WideChar \<in> ce_flags c then tl cs else cs)"
    define xs where "xs = (if WideChar \<in> ce_flags c then [c, hd cs] else [c])"
    have parts: "c # cs = xs @ ds"
      and spacer: "WideChar \<in> ce_flags c \<Longrightarrow> WideCharSpacer \<in> ce_flags (hd cs)" and ok: "row_ok width ds"
      using "2.prems"(1) plain by (auto simp: ds_def xs_def split: if_splits list.splits)
    have "length xs = cell_width c" by (simp add: xs_def cell_width_def)
    then have fits: "sh_col t + cell_width c \<le> columns"
      using "2.prems"(3) arg_cong [OF parts, of length] by simp
    obtain t1 where t1: "foldl (exec width columns) t
        ((if attrs_from_cell c \<noteq> current then [Sgr (sgr_params (attrs_from_cell c))] else []) @
          map Print (push_cell_string c [])) = t1"
      "drawn t xs t1" "sh_col t1 = sh_col t + length xs" "sh_attrs t1 = attrs_from_cell c"
      by (rule exec_styled_cell [OF p plain "2.prems"(2) fits, of xs "hd cs"])
        (auto simp: xs_def spacer split: if_splits)
    have rest: "cell_commands cs (attrs_from_cell c) = cell_commands ds (attrs_from_cell c)"
      "last_attrs cs (attrs_from_cell c) = last_attrs ds (attrs_from_cell c)"
      using "2.prems"(1) plain by (auto simp: ds_def is_spacer_def split: if_splits list.splits)
    have blanks: "\<forall>k \<ge> sh_col t1. sh_cells t1 (sh_row t1) k = blank"
      using t1(2,3) "2.prems"(4) by (auto simp: drawn_def)
    have len: "sh_col t1 + length ds \<le> columns"
      using t1(3) "2.prems"(3) arg_cong [OF parts, of length] by simp
    have "\<exists>t'. foldl (exec width columns) t1 (cell_commands ds (attrs_from_cell c)) = t' \<and> drawn t1 ds t' \<and>
        sh_attrs t' = last_attrs ds (attrs_from_cell c)"
    proof (cases "WideChar \<in> ce_flags c")
      case True
      then obtain d where "cs = d # ds" using "2.prems"(1) plain by (auto simp: ds_def split: list.splits)
      then show ?thesis using "2.IH"(1) [OF plain True _ ok t1(4) len blanks] by simp
    next
      case False
      then have "cs = ds" by (simp add: ds_def)
      then show ?thesis using "2.IH"(2) [OF plain False _ t1(4) _ blanks] ok len by simp
    qed
    then obtain t2 where t2: "foldl (exec width columns) t1 (cell_commands ds (attrs_from_cell c)) = t2"
      "drawn t1 ds t2" "sh_attrs t2 = last_attrs ds (attrs_from_cell c)" by auto
    have "cell_commands (c # cs) current = ((if attrs_from_cell c \<noteq> current then [Sgr (sgr_params (attrs_from_cell c))]
        else []) @ map Print (push_cell_string c [])) @ cell_commands ds (attrs_from_cell c)"
      using plain rest(1) by simp
    then have "foldl (exec width columns) t (cell_commands (c # cs) current) = t2"
      using t1(1) t2(1) by (simp only: foldl_append)
    moreover have "drawn t (c # cs) t2" unfolding parts by (rule drawn_append [OF t1(2) t2(2) t1(3)])
    ultimately show ?thesis using t2(3) plain rest(2) by auto
  qed
qed

lemma row_ok_prefix: "row_ok width (ys @ zs) \<Longrightarrow> \<forall>z \<in> set zs. \<not> is_spacer z \<Longrightarrow> row_ok width ys"
proof (induction width ys rule: row_ok.induct)
  case (2 width c cs)
  consider "is_spacer c" | "\<not> is_spacer c" "WideChar \<notin> ce_flags c" | "\<not> is_spacer c" "WideChar \<in> ce_flags c" by blast
  then show ?case
  proof cases
    case 3
    then obtain d ds where d: "cs @ zs = d # ds" "WideCharSpacer \<in> ce_flags d" "row_ok width ds"
      using "2.prems"(1) by (auto split: list.splits)
    then have "cs \<noteq> []" using "2.prems"(2) by (auto simp: is_spacer_def)
    then obtain es where "cs = d # es" "ds = es @ zs" using d(1) by (auto simp: append_eq_Cons_conv)
    then show ?thesis using 3 d "2.prems" "2.IH"(1) [OF 3 \<open>cs = d # es\<close>] by simp
  qed (use "2.prems" "2.IH"(2) in simp_all)
qed simp

lemma row_ok_no_tab: "row_ok width cs \<Longrightarrow> z \<in> set cs \<Longrightarrow> \<not> is_spacer z \<Longrightarrow> ce_char z \<noteq> 9"
  by (induction width cs rule: row_ok.induct)
    (auto simp: printable_def is_spacer_def split: if_splits list.splits)

lemma occupied_parts:
  obtains zs where "line = take (occupied_columns is_empty line) line @ zs" "\<forall>z \<in> set zs. is_empty z"
proof
  let ?zs = "rev (takeWhile is_empty (rev line))"
  have "line = rev (dropWhile is_empty (rev line)) @ ?zs"
    by (metis rev_append rev_rev_ident takeWhile_dropWhile_id)
  moreover have "length (rev (dropWhile is_empty (rev line))) = occupied_columns is_empty line"
    using arg_cong [OF takeWhile_dropWhile_id [of is_empty "rev line"], of length]
    by (simp add: occupied_columns_def del: takeWhile_dropWhile_id)
  ultimately show "line = take (occupied_columns is_empty line) line @ ?zs"
    by (metis append_eq_conv_conj)
  show "\<forall>z \<in> set ?zs. is_empty z" by (auto dest: set_takeWhileD)
qed

text \<open>The rows above \<open>n\<close> look as in the emulator and those from \<open>n\<close> on are blank.\<close>

definition shown_upto :: "nat \<Rightarrow> nat \<Rightarrow> cell list list \<Rightarrow> shown \<Rightarrow> bool" where
  "shown_upto columns n lines t \<longleftrightarrow> sh_attrs t = default_attrs \<and>
     (\<forall>r < n. \<forall>k < columns. looks (sh_cells t r k) = looks (want (lines ! r ! k))) \<and>
     (\<forall>r \<ge> n. \<forall>k. sh_cells t r k = blank)"

lemma exec_row:
  assumes t: "shown_upto columns n lines t" and n: "n < length lines"
    and ok: "row_ok width (lines ! n)" "length (lines ! n) = columns"
    and empty: "\<And>c. is_empty c \<Longrightarrow> empty_cell c"
  obtains t' where "foldl (exec width columns) t (row_commands is_empty n (lines ! n)) = t'"
    "shown_upto columns (Suc n) lines t'" "sh_alt t' = sh_alt t" "sh_title t' = sh_title t"
proof -
  define line cs where "line = lines ! n" and "cs = take (occupied_columns is_empty line) line"
  obtain zs where zs: "line = cs @ zs" "\<forall>z \<in> set zs. is_empty z"
    unfolding cs_def by (rule occupied_parts)
  then have zs_empty: "\<forall>z \<in> set zs. empty_cell z" using empty by blast
  then have plain: "\<forall>z \<in> set zs. \<not> is_spacer z" by (auto simp: empty_cell_def is_spacer_def)
  have cs_ok: "row_ok width cs" using ok(1) zs(1) plain row_ok_prefix [of width cs zs] by (simp add: line_def)
  define t0 where "t0 = t\<lparr>sh_row := n, sh_col := 0\<rparr>"
  have "sh_attrs t0 = default_attrs" "\<forall>k \<ge> sh_col t0. sh_cells t0 (sh_row t0) k = blank"
    using t by (simp_all add: t0_def shown_upto_def)
  moreover have "sh_col t0 + length cs \<le> columns" using ok(2) zs(1) by (simp add: t0_def line_def [symmetric])
  ultimately obtain t1 where t1: "foldl (exec width columns) t0 (cell_commands cs default_attrs) = t1"
      "drawn t0 cs t1" "sh_attrs t1 = last_attrs cs default_attrs"
    using exec_cells [OF cs_ok] by blast
  define t' where "t' = t1\<lparr>sh_attrs := default_attrs\<rparr>"
  have tab: "ce_char z \<noteq> 9" if "z \<in> set zs" for z
    using ok(1) row_ok_no_tab that zs(1) plain by (auto simp: line_def)
  show ?thesis
  proof (rule that [of t'])
    show "foldl (exec width columns) t (row_commands is_empty n (lines ! n)) = t'"
      using t1(1,3) by (cases t1) (auto simp: row_commands_def Let_def t'_def t0_def sgr_one_def
          line_def [symmetric] cs_def [symmetric])
    show "shown_upto columns (Suc n) lines t'"
      unfolding shown_upto_def
    proof (intro conjI allI impI)
      fix r k assume "r < Suc n" "k < columns"
      show "looks (sh_cells t' r k) = looks (want (lines ! r ! k))"
      proof (cases "r = n")
        case False
        then show ?thesis using t t1(2) \<open>r < Suc n\<close> \<open>k < columns\<close> by (simp add: shown_upto_def drawn_def t'_def t0_def)
      next
        case True
        show ?thesis
        proof (cases "k < length cs")
          case True
          then show ?thesis using t1(2) \<open>r = n\<close> zs(1)
            by (simp add: drawn_def t'_def t0_def line_def [symmetric] nth_append)
        next
          case False
          have "line ! k \<in> set zs"
            using False zs(1) \<open>k < columns\<close> ok(2) by (simp add: nth_append line_def [symmetric])
          then have "looks (want (line ! k)) = blank" using zs_empty tab empty_cell_looks by blast
          then show ?thesis
            using False \<open>r = n\<close> t t1(2)
            by (simp add: drawn_def t'_def t0_def line_def [symmetric] shown_upto_def looks_blank)
        qed
      qed
    qed (use t t1(2) in \<open>auto simp: shown_upto_def drawn_def t'_def t0_def\<close>)
  qed (use t1(2) in \<open>simp_all add: drawn_def t'_def t0_def\<close>)
qed

subsection \<open>The whole screen\<close>

lemma exec_rows:
  assumes empty: "\<And>c. is_empty c \<Longrightarrow> empty_cell c"
  shows "lines = pre @ ls \<Longrightarrow> shown_upto columns (length pre) lines t \<Longrightarrow>
    \<forall>line \<in> set ls. length line = columns \<and> row_ok width line \<Longrightarrow>
    \<exists>t'. foldl (exec width columns) t
        (concat (map (\<lambda>(row, line). row_commands is_empty row line) (enumerate (length pre) ls))) = t' \<and>
      shown_upto columns (length lines) lines t' \<and> sh_alt t' = sh_alt t \<and> sh_title t' = sh_title t"
proof (induction ls arbitrary: pre t)
  case (Cons l ls)
  have nth: "lines ! length pre = l" using Cons.prems(1) by simp
  obtain t1 where t1: "foldl (exec width columns) t (row_commands is_empty (length pre) l) = t1"
      "shown_upto columns (Suc (length pre)) lines t1" "sh_alt t1 = sh_alt t" "sh_title t1 = sh_title t"
    using exec_row [OF Cons.prems(2), of width is_empty] Cons.prems(1,3) empty unfolding nth by auto
  then show ?case using Cons.IH [of "pre @ [l]" t1] Cons.prems(1,3) by simp
qed simp

text \<open>C33 [snapshot_restores_screen].  A client that reads the snapshot of the screen, whatever its
  terminal showed before, ends with the emulator's screen: on the same of the two screens, with
  the title (less the bytes that would end it), every cell of every row with the same characters
  in the same style, wide and combining ones included, and the cursor at the emulator's.  The
  bytes are the encodings of the commands that do so.  The rendition for new output is the
  default one, whatever the program had selected.\<close>

theorem snapshot_restores_screen:
  assumes rows_ok: "\<forall>line \<in> set (sn_lines s). length line = columns \<and> row_ok width line"
    and empty: "\<forall>c. is_empty c \<longrightarrow> empty_cell c"
  shows "render_snapshot is_empty s = concat (map command_bytes (snapshot_commands is_empty s)) \<and>
    (let t' = foldl (exec width columns) t (snapshot_commands is_empty s) in
      sh_alt t' = sn_alt s \<and> sh_title t' = filter (\<lambda>b. b \<noteq> 27 \<and> b \<noteq> 7) (as_bytes (sn_title s)) \<and>
      (sh_col t', sh_row t') = sn_cursor s \<and> sh_attrs t' = default_attrs \<and>
      (\<forall>r < length (sn_lines s). \<forall>k < columns.
        looks (sh_cells t' r k) = looks (want (sn_lines s ! r ! k))))"
proof -
  define u where "u = foldl (exec width columns) t [AltScreen (sn_alt s),
    SetTitle (filter (\<lambda>b. \<not> (b = 27 \<or> b = 7)) (as_bytes (sn_title s))), Sgr [[0]], Home, EraseDisplay]"
  have "shown_upto columns 0 (sn_lines s) u" by (simp add: u_def shown_upto_def sgr_one_def)
  then obtain t1 where t1: "foldl (exec width columns) u
      (concat (map (\<lambda>(row, line). row_commands is_empty row line) (enumerate 0 (sn_lines s)))) = t1"
    "shown_upto columns (length (sn_lines s)) (sn_lines s) t1" "sh_alt t1 = sh_alt u" "sh_title t1 = sh_title u"
    using exec_rows [of is_empty "sn_lines s" "[]" "sn_lines s" columns u width] rows_ok empty by auto
  have "foldl (exec width columns) t (snapshot_commands is_empty s) =
      t1\<lparr>sh_row := snd (sn_cursor s), sh_col := fst (sn_cursor s)\<rparr>"
    using t1(1) unfolding snapshot_commands_def foldl_append u_def by simp
  then show ?thesis
    using t1(2-4) by (simp add: render_snapshot_bytes shown_upto_def u_def)
qed

definition demo_cell :: "rchar \<Rightarrow> color \<Rightarrow> cell_flag set \<Rightarrow> cell" where
  "demo_cell c fg fs = \<lparr>ce_char = c, ce_zerowidth = None, ce_fg = fg, ce_bg = Named NAMED_BACKGROUND,
     ce_flags = fs, ce_underline_color = None\<rparr>"

definition demo_screen :: screen where
  "demo_screen = \<lparr>sn_lines = [
      [demo_cell 104 (Named 9) {Bold, Undercurl}, demo_cell 20013 (Indexed 200) {WideChar},
       demo_cell 32 (Indexed 200) {WideCharSpacer}, demo_cell 32 (Named NAMED_FOREGROUND) {}]],
     sn_cursor = (3, 0), sn_alt = True, sn_title = lit ''vi''\<rparr>"

lemma snapshot_restores_screen_witness:
  "let t' = foldl (exec (\<lambda>c. if c = 20013 then 2 else 1) 4)
       \<lparr>sh_alt = False, sh_title = [], sh_row = 5, sh_col = 3, sh_last = (0, 0), sh_attrs = default_attrs,
         sh_cells = \<lambda>_ _. Continuation\<rparr> (snapshot_commands empty_cell demo_screen) in
    sh_alt t' \<and> (sh_col t', sh_row t') = (3, 0) \<and> looks (sh_cells t' 0 1) = looks (want (sn_lines demo_screen ! 0 ! 1))"
proof -
  have ok: "\<forall>line \<in> set (sn_lines demo_screen). length line = 4 \<and> row_ok (\<lambda>c. if c = 20013 then 2 else 1) line"
    by (simp add: demo_screen_def demo_cell_def is_spacer_def printable_def attrs_ok_def attrs_from_cell_def
        STYLE_FLAGS_def ALL_UNDERLINES_def)
  have "length (sn_lines demo_screen) = 1" "sn_alt demo_screen" "sn_cursor demo_screen = (3, 0)"
    by (simp_all add: demo_screen_def)
  then show ?thesis
    using snapshot_restores_screen [OF ok, of empty_cell] by (auto simp: Let_def)
qed

section \<open>Tabs\<close>

text \<open>
  A program that tabs to column 8 leaves a tab in the first cell and blanks up to it.  The snapshot
  writes the tab and then the blanks, so what follows is drawn seven columns to the right.
\<close>



end
