(* ===== verification/CliText.thy ===== *)
theory CliText
  imports Ptypes Infer
begin

text \<open>
  The texts of the command line (\<open>crates/cli/src/main.rs\<close>): names and codes, the screen of the
  pairing ceremony and its countdown, the states a Codex hook reports,
  and errors.  The QR code is a
  number of modules and a picture; characters outside ASCII are given by their number.
\<close>

section \<open>Names and codes\<close>

definition short_node_id :: "rstr \<Rightarrow> rstr" where
  "short_node_id node_id = take 12 node_id"

definition group_code :: "rstr \<Rightarrow> rstr" where
  "group_code code =
     (if length code \<le> 3 then code
      else take (length code div 2) code @ [32] @ drop (length code div 2) code)"

definition sanitize_device_name :: "rstr \<Rightarrow> rstr" where
  "sanitize_device_name name =
     (let trimmed = take 48 (trim (filter (\<lambda>c. \<not> is_control c) name)) in
      if trimmed = [] then lit ''device'' else trimmed)"

definition normalize_session_name :: "rstr \<Rightarrow> rstr + rstr" where
  "normalize_session_name name =
     (let name = trim name in
      if name = [] then Inl (lit ''session name cannot be empty'')
      else if list_ex is_control name then Inl (lit ''session name cannot contain control characters'')
      else Inr name)"

definition requested_session_name :: "rstr option \<Rightarrow> rstr + rstr" where
  "requested_session_name name = (case name of Some name \<Rightarrow> normalize_session_name name | None \<Rightarrow> Inr [])"

text \<open>An \<open>OsString\<close> is text or bytes that are none.\<close>

datatype os_string = Utf8 rstr | NotUtf8

definition cli_default_shell_from_env :: "os_string option \<Rightarrow> rstr" where
  "cli_default_shell_from_env shell = (case shell of
     Some (Utf8 value) \<Rightarrow> if trim value = [] then lit ''/bin/sh'' else trim value
   | _ \<Rightarrow> lit ''/bin/sh'')"

definition cli_default_session_command :: "os_string option \<Rightarrow> rstr list" where
  "cli_default_session_command shell = [cli_default_shell_from_env shell]"

definition completion_bin_name_with_override :: "os_string option \<Rightarrow> os_string option \<Rightarrow> rstr" where
  "completion_bin_name_with_override override_name arg0 =
     (case (case override_name of Some v \<Rightarrow> Some v | None \<Rightarrow> arg0) of
        Some (Utf8 path) \<Rightarrow> (case file_name path of Some name \<Rightarrow> name | None \<Rightarrow> lit ''shelly'')
      | _ \<Rightarrow> lit ''shelly'')"

definition parse_named_shortcut_args :: "os_string list \<Rightarrow> rstr \<Rightarrow> rstr + rstr" where
  "parse_named_shortcut_args args bin_name = (case args of
     [] \<Rightarrow> Inl (lit ''named session shortcut requires a session name'')
   | [Utf8 name] \<Rightarrow> normalize_session_name name
   | [NotUtf8] \<Rightarrow> Inl (lit ''named session shortcut requires a UTF-8 session name'')
   | _ \<Rightarrow> Inl (lit ''named session shortcut accepts one session name; use `'' @ bin_name @
       lit '' new --name <name> -- <cmd...>` to choose a command''))"

definition normalized_terminal_size :: "nat \<Rightarrow> nat \<Rightarrow> client_size" where
  "normalized_terminal_size c r = \<lparr>cols = (if c = 0 then 80 else c), rows = (if r = 0 then 24 else r)\<rparr>"

section \<open>Styles\<close>

datatype color_depth = Plain | Ansi16 | Ansi256 | TrueColor

text \<open>\<open>ansi code\<close> is ESC, a bracket and the code.\<close>

definition ansi :: "char list \<Rightarrow> rstr" where "ansi code = 27 # 91 # lit code"

definition CLI_ANSI_RESET :: rstr where "CLI_ANSI_RESET = ansi ''0m''"
definition ANSI_BOLD :: rstr where "ANSI_BOLD = ansi ''1m''"
definition ANSI_DIM :: rstr where "ANSI_DIM = ansi ''2m''"
definition ANSI_AMBER :: rstr where "ANSI_AMBER = ansi ''33m''"
definition ANSI_RED :: rstr where "ANSI_RED = ansi ''31m''"
definition ANSI_GREEN :: rstr where "ANSI_GREEN = ansi ''32m''"
definition ANSI_QR_LIGHT_PANEL :: rstr where "ANSI_QR_LIGHT_PANEL = ansi ''30;107m''"
definition QR_QUIET_ZONE_MODULES :: nat where "QR_QUIET_ZONE_MODULES = 4"
definition PAIRING_TEXT_ROWS :: nat where "PAIRING_TEXT_ROWS = 10"
definition SHELLY_ORANGE_RGB :: "nat \<times> nat \<times> nat" where "SHELLY_ORANGE_RGB = (232, 93, 41)"
definition SHELLY_ORANGE_ANSI256 :: nat where "SHELLY_ORANGE_ANSI256 = 166"
definition SHELLY_CHIP_INK_RGB :: "nat \<times> nat \<times> nat" where "SHELLY_CHIP_INK_RGB = (21, 10, 5)"
definition PAIRING_COUNTDOWN_AMBER_SECS :: nat where "PAIRING_COUNTDOWN_AMBER_SECS = 120"
definition PAIRING_COUNTDOWN_RED_SECS :: nat where "PAIRING_COUNTDOWN_RED_SECS = 30"
definition PAIRING_SPINNER_FRAMES :: "rchar list" where
  "PAIRING_SPINNER_FRAMES = [10251, 10265, 10297, 10296, 10300, 10292, 10278, 10279, 10247, 10255]"
definition PAIRING_STATUS_LABEL :: rstr where "PAIRING_STATUS_LABEL = lit ''waiting for device''"
definition PAIRING_WORDMARK :: "rstr list" where
  "PAIRING_WORDMARK = map lit [
     ''         __         ____'',
     ''   _____/ /_  ___  / / /_  __'',
     ''  / ___/ __ '' @ [CHR 0x5C] @ ''/ _ '' @ [CHR 0x5C] @ ''/ / / / / /'',
     '' (__  ) / / /  __/ / / /_/ /'',
     ''/____/_/ /_/'' @ [CHR 0x5C] @ ''___/_/_/'' @ [CHR 0x5C] @ ''__, /'',
     ''                    /____/'']"
definition PAIRING_WORDMARK_COLS :: nat where "PAIRING_WORDMARK_COLS = 29"

definition ansi_output_enabled :: "bool \<Rightarrow> bool \<Rightarrow> bool \<Rightarrow> rstr option \<Rightarrow> bool" where
  "ansi_output_enabled no_color force_color tty term =
     (if no_color then False else if force_color then True
      else tty \<and> (case term of Some t \<Rightarrow> t \<noteq> lit ''dumb'' | None \<Rightarrow> True))"

definition terminal_cursor_control_enabled :: "bool \<Rightarrow> rstr option \<Rightarrow> bool" where
  "terminal_cursor_control_enabled tty term \<longleftrightarrow> tty \<and> (case term of Some t \<Rightarrow> t \<noteq> lit ''dumb'' | None \<Rightarrow> True)"

definition color_depth_from_env :: "rstr option \<Rightarrow> rstr option \<Rightarrow> color_depth" where
  "color_depth_from_env term colorterm =
     (if (case colorterm of Some ct \<Rightarrow> str_lower ct = lit ''truecolor'' \<or> str_lower ct = lit ''24bit'' | None \<Rightarrow> False)
      then TrueColor
      else if (case term of Some t \<Rightarrow> contains t (lit ''256color'') | None \<Rightarrow> False) then Ansi256
      else Ansi16)"

definition style_ansi :: "rstr \<Rightarrow> bool \<Rightarrow> rstr \<Rightarrow> rstr" where
  "style_ansi s use_ansi code = (if use_ansi then code @ s @ CLI_ANSI_RESET else s)"

definition style_bold :: "rstr \<Rightarrow> bool \<Rightarrow> rstr" where "style_bold s use_ansi = style_ansi s use_ansi ANSI_BOLD"
definition style_dim :: "rstr \<Rightarrow> bool \<Rightarrow> rstr" where "style_dim s use_ansi = style_ansi s use_ansi ANSI_DIM"

text \<open>Numbers joined by semicolons.\<close>

fun semicolons :: "nat list \<Rightarrow> rstr" where
  "semicolons [] = []"
| "semicolons [n] = dec n"
| "semicolons (n # ns) = dec n @ [59] @ semicolons ns"

definition style_brand :: "rstr \<Rightarrow> color_depth \<Rightarrow> rstr" where
  "style_brand s depth = (case SHELLY_ORANGE_RGB of (r, g, b) \<Rightarrow> (case depth of
     Plain \<Rightarrow> s
   | Ansi16 \<Rightarrow> ANSI_AMBER @ s @ CLI_ANSI_RESET
   | Ansi256 \<Rightarrow> ansi ''38;5;'' @ dec SHELLY_ORANGE_ANSI256 @ lit ''m'' @ s @ CLI_ANSI_RESET
   | TrueColor \<Rightarrow> ansi ''38;2;'' @ semicolons [r, g, b] @ lit ''m'' @ s @ CLI_ANSI_RESET))"

definition keycap_style_code :: "color_depth \<Rightarrow> rstr option" where
  "keycap_style_code depth = (case (SHELLY_ORANGE_RGB, SHELLY_CHIP_INK_RGB) of ((r, g, b), (ir, ig, ib)) \<Rightarrow>
     (case depth of
        Plain \<Rightarrow> None
      | Ansi16 \<Rightarrow> Some (ansi ''30;43m'')
      | Ansi256 \<Rightarrow> Some (ansi ''38;5;16;48;5;'' @ dec SHELLY_ORANGE_ANSI256 @ lit ''m'')
      | TrueColor \<Rightarrow> Some (ansi ''38;2;'' @ semicolons [ir, ig, ib] @ lit '';48;2;'' @ semicolons [r, g, b] @ lit ''m'')))"

fun keycap_loop :: "rstr \<Rightarrow> rstr \<Rightarrow> nat \<Rightarrow> bool \<Rightarrow> rstr \<Rightarrow> rstr \<times> nat" where
  "keycap_loop chip styled visible group_gap [] = (styled, visible)"
| "keycap_loop chip styled visible group_gap (ch # grouped) =
     (if ch = 32 then keycap_loop chip styled visible True grouped
      else let gap = (if 0 < visible then lit (if group_gap then ''   '' else '' '') else []) in
        keycap_loop chip (styled @ gap @ chip @ [32, ch, 32] @ CLI_ANSI_RESET) (visible + length gap + 3)
          (if 0 < visible then False else group_gap) grouped)"

definition keycap_row :: "rstr \<Rightarrow> color_depth \<Rightarrow> rstr \<times> nat" where
  "keycap_row code depth = (case keycap_style_code depth of
     None \<Rightarrow> (group_code code, length (group_code code))
   | Some chip \<Rightarrow> keycap_loop chip [] 0 False (group_code code))"

section \<open>The ceremony's screen\<close>

definition div_ceil :: "nat \<Rightarrow> nat \<Rightarrow> nat" where "div_ceil a b = (a + b - 1) div b"

definition pairing_remaining_seconds :: "nat \<Rightarrow> nat \<Rightarrow> nat" where
  "pairing_remaining_seconds clock_ms expires_at = div_ceil (expires_at - clock_ms) 1000"

definition format_pairing_countdown :: "nat \<Rightarrow> rstr" where
  "format_pairing_countdown seconds = dec (seconds div 60) @ lit '':'' @
     (if seconds mod 60 < 10 then lit ''0'' else []) @ dec (seconds mod 60)"

definition render_pairing_status :: "nat \<Rightarrow> nat \<Rightarrow> color_depth \<Rightarrow> rstr \<times> nat" where
  "render_pairing_status frame remaining_secs depth =
     (let spinner = [PAIRING_SPINNER_FRAMES ! (frame mod length PAIRING_SPINNER_FRAMES)];
        countdown = lit ''expires in '' @ format_pairing_countdown remaining_secs;
        visible = 2 + length PAIRING_STATUS_LABEL + 5 + length countdown;
        urgency = (if remaining_secs \<le> PAIRING_COUNTDOWN_RED_SECS then ANSI_RED
          else if remaining_secs \<le> PAIRING_COUNTDOWN_AMBER_SECS then ANSI_AMBER else ANSI_DIM) in
      (style_brand spinner depth @ lit '' '' @ PAIRING_STATUS_LABEL @ lit ''  '' @ style_dim [183] True @ lit ''  '' @
         style_ansi countdown True urgency, visible))"

definition centered_padding :: "nat \<Rightarrow> nat \<Rightarrow> nat" where
  "centered_padding content_cols terminal_cols = (terminal_cols - content_cols) div 2"

definition centered_line :: "rstr \<Rightarrow> nat \<Rightarrow> nat \<Rightarrow> rstr" where
  "centered_line styled visible_cols terminal_cols = replicate (centered_padding visible_cols terminal_cols) 32 @ styled"

definition redraw_pairing_status :: "nat \<Rightarrow> nat \<Rightarrow> nat \<Rightarrow> color_depth \<Rightarrow> client_size \<Rightarrow> rstr" where
  "redraw_pairing_status status_row frame remaining_secs depth terminal =
     (case render_pairing_status frame remaining_secs depth of (status, visible) \<Rightarrow>
        27 # 91 # dec status_row @ lit '';1H'' @ ansi ''2K'' @ centered_line status visible (cols terminal))"

definition pairing_qr_terminal_dimensions :: "nat \<Rightarrow> nat \<times> nat" where
  "pairing_qr_terminal_dimensions qr_modules =
     (let c = qr_modules + QR_QUIET_ZONE_MODULES * 2 in (c, div_ceil c 2))"

definition pairing_qr_fits_terminal :: "nat \<Rightarrow> client_size \<Rightarrow> bool" where
  "pairing_qr_fits_terminal qr_modules terminal = (case pairing_qr_terminal_dimensions qr_modules of (c, r) \<Rightarrow>
     c \<le> cols terminal \<and> r + PAIRING_TEXT_ROWS \<le> rows terminal)"

definition pairing_wordmark_fits :: "nat \<Rightarrow> client_size \<Rightarrow> bool" where
  "pairing_wordmark_fits qr_modules terminal = (case pairing_qr_terminal_dimensions qr_modules of (_, qr_rows) \<Rightarrow>
     PAIRING_WORDMARK_COLS \<le> cols terminal \<and>
     qr_rows + PAIRING_TEXT_ROWS + (length PAIRING_WORDMARK - 1) \<le> rows terminal)"

text \<open>\<open>str::lines\<close>: a line ends before a line feed, less one carriage return; the last need not.\<close>

fun lines_from :: "rstr \<Rightarrow> rstr \<Rightarrow> rstr list" where
  "lines_from acc [] = (if acc = [] then [] else [rev acc])"
| "lines_from acc (c # s) =
     (if c = 10 then rev (if acc \<noteq> [] \<and> hd acc = 13 then tl acc else acc) # lines_from [] s
      else lines_from (c # acc) s)"

definition str_lines :: "rstr \<Rightarrow> rstr list" where "str_lines s = lines_from [] s"

fun join_lines :: "rstr list \<Rightarrow> rstr" where
  "join_lines [] = []"
| "join_lines [l] = l"
| "join_lines (l # ls) = l @ [10] @ join_lines ls"

definition qr_panel_style_code :: "color_depth \<Rightarrow> rstr option" where
  "qr_panel_style_code depth = (case depth of
     Plain \<Rightarrow> None
   | Ansi16 \<Rightarrow> Some ANSI_QR_LIGHT_PANEL
   | Ansi256 \<Rightarrow> Some (ansi ''38;5;16;48;5;231m'')
   | TrueColor \<Rightarrow> Some (ansi ''38;2;11;11;11;48;2;255;255;255m''))"

definition format_pairing_qr_image :: "rstr \<Rightarrow> client_size \<Rightarrow> color_depth \<Rightarrow> rstr" where
  "format_pairing_qr_image picture terminal depth =
     (let qr_cols = fold max (map length (str_lines picture)) 0;
        prefix = replicate (centered_padding qr_cols (cols terminal)) 32 in
      join_lines (map (\<lambda>line. case qr_panel_style_code depth of
          Some code \<Rightarrow> prefix @ code @ line @ CLI_ANSI_RESET
        | None \<Rightarrow> prefix @ line) (str_lines picture)))"

definition render_pairing_qr_for_terminal :: "nat \<Rightarrow> rstr \<Rightarrow> client_size \<Rightarrow> color_depth \<Rightarrow> rstr option" where
  "render_pairing_qr_for_terminal qr_modules picture terminal depth =
     (if pairing_qr_fits_terminal qr_modules terminal then Some (format_pairing_qr_image picture terminal depth)
      else None)"

definition pairing_screen_lines ::
    "rstr \<Rightarrow> rstr option \<Rightarrow> nat \<Rightarrow> client_size \<Rightarrow> color_depth \<Rightarrow> nat \<Rightarrow> rstr list" where
  "pairing_screen_lines code qr_image qr_modules terminal depth remaining_secs =
     (let c = cols terminal;
        centered = (\<lambda>plain. centered_line (style_dim plain True) (length plain) c);
        header = (if qr_image \<noteq> None \<and> pairing_wordmark_fits qr_modules terminal
          then map (\<lambda>line. centered_line (style_brand line depth) PAIRING_WORDMARK_COLS c) PAIRING_WORDMARK
          else [centered_line (style_brand [9656] depth @ lit '' '' @ style_bold (lit ''shelly pair'') True)
            (length (9656 # lit '' shelly pair'')) c]);
        invitation = (case qr_image of
            Some picture \<Rightarrow> str_lines picture @ [[],
              centered (lit ''Scan with the Shelly app '' @ [8212] @ lit '' or enter this code:'')]
          | None \<Rightarrow> [centered (lit ''Enter this code in the Shelly app:'')]);
        (keys, keys_cols) = keycap_row code depth;
        note = (case qr_image of
            Some _ \<Rightarrow> []
          | None \<Rightarrow> (case pairing_qr_terminal_dimensions qr_modules of (need_cols, need_rows) \<Rightarrow>
              [centered (lit ''Pane is too small for the QR (needs '' @ dec need_cols @ [215] @
                 dec (need_rows + PAIRING_TEXT_ROWS) @ lit '')''), []]));
        (status, status_cols) = render_pairing_status 0 remaining_secs depth in
      header @ [[]] @ invitation @ [[], centered_line keys keys_cols c, []] @ note @
      [centered_line status status_cols c, [], centered (lit ''ctrl+c cancel'')])"

text \<open>What is written, and the row of the status line.\<close>

definition draw_pairing_ceremony ::
    "rstr \<Rightarrow> nat \<Rightarrow> rstr \<Rightarrow> client_size \<Rightarrow> color_depth \<Rightarrow> nat \<Rightarrow> rstr \<times> nat" where
  "draw_pairing_ceremony code qr_modules picture terminal depth remaining_secs =
     (let ls = pairing_screen_lines code (render_pairing_qr_for_terminal qr_modules picture terminal depth)
        qr_modules terminal depth remaining_secs in
      (ansi ''H'' @ ansi ''2J'' @ join_lines ls, length ls - 2))"

definition draw_pairing_screen_plain :: "rstr \<Rightarrow> rstr option \<Rightarrow> nat \<Rightarrow> color_depth \<Rightarrow> bool \<Rightarrow> rstr list" where
  "draw_pairing_screen_plain code qr_image qr_modules depth use_ansi =
     [style_bold (lit ''Shelly pairing'') use_ansi, []] @
     (case qr_image of
        Some picture \<Rightarrow> [picture, []]
      | None \<Rightarrow> (case pairing_qr_terminal_dimensions qr_modules of (need_cols, need_rows) \<Rightarrow>
          [style_dim (lit ''QR hidden for this pane. It needs '' @ dec need_cols @ lit ''x'' @
             dec (need_rows + PAIRING_TEXT_ROWS) @
             lit ''; widen the terminal and run `shelly pair` again.'') use_ansi, []])) @
     [style_dim (lit ''Scan the QR with the Shelly app '' @ [8212] @ lit '' or enter this code:'') use_ansi,
      lit ''    '' @ style_brand (group_code code) depth]"

text \<open>Whether the code is still valid, and the line printed if any.\<close>

definition print_pairing_countdown :: "nat \<Rightarrow> nat \<Rightarrow> bool \<Rightarrow> bool \<Rightarrow> bool \<times> rstr option" where
  "print_pairing_countdown clock_ms expires_at use_ansi force =
     (let remaining_secs = pairing_remaining_seconds clock_ms expires_at;
        active = 0 < remaining_secs;
        line = (if active then lit ''Expires in '' @ format_pairing_countdown remaining_secs @ lit ''.''
          else lit ''Expired. Run `shelly pair` again.'') in
      (active, if force \<or> \<not> active then Some (style_dim line use_ansi) else None))"

section \<open>Codex hooks\<close>

text \<open>
  The parser of JSON gives the text under the keys \<open>type\<close>, \<open>event\<close> and \<open>status\<close>, where there is
  one.  The command line accepts other values under the keys; the daemon's parser does not.
\<close>

definition codex_state_from_name :: "rstr \<Rightarrow> agent_state option" where
  "codex_state_from_name event =
     (let n = str_lower (trim event) in
      if n \<in> {lit ''awaiting_input'', lit ''approval_requested'', lit ''turn_waiting''} then Some AwaitingInput
      else if n \<in> {lit ''turn_started'', lit ''working''} then Some Working
      else if n \<in> {lit ''turn_finished'', lit ''idle''} then Some Idle
      else if n \<in> {lit ''crashed'', lit ''error''} then Some Crashed
      else None)"

definition codex_state_from_json :: "(rstr \<Rightarrow> (rstr \<Rightarrow> rstr option) option) \<Rightarrow> rstr \<Rightarrow> agent_state option" where
  "codex_state_from_json parse payload = (case parse payload of
     None \<Rightarrow> None
   | Some text_at \<Rightarrow> find_map codex_state_from_name
       (List.map_filter text_at (map lit [''type'', ''event'', ''status''])))"

definition codex_states_from_payload ::
    "(rstr \<Rightarrow> (rstr \<Rightarrow> rstr option) option) \<Rightarrow> rstr \<Rightarrow> agent_state list option" where
  "codex_states_from_payload parse payload =
     (let trimmed = trim payload in
      if trimmed = [] then None
      else case codex_state_from_json parse trimmed of
        Some state \<Rightarrow> Some [state]
      | None \<Rightarrow> (let states = List.map_filter (\<lambda>line. codex_state_from_json parse (trim line)) (str_lines trimmed) in
          if states = [] then None else Some states))"

section \<open>Errors\<close>

text \<open>
  An \<open>anyhow::Error\<close>: a message, a reply that was not expected (with the place in words), or a
  cause with a context.  Displaying one shows the outermost message.
\<close>

datatype cli_error = Bail rstr | Unexpected rstr server_msg | Because rstr cli_error

fun error_text :: "(server_msg \<Rightarrow> rstr) \<Rightarrow> cli_error \<Rightarrow> rstr" where
  "error_text debug (Bail message) = message"
| "error_text debug (Unexpected place other) = place @ debug other"
| "error_text debug (Because context cause) = context"

end
