(* ===== verification/Service.thy ===== *)
theory Service
  imports CliText
begin

text \<open>
  \<open>crates/cli/src/service.rs\<close>: the daemon as a service of the user.  The service manager of the
  system (the crate \<open>service_manager\<close>) is a record of functions on a world; the files and the
  two macOS programs that are asked about them are another.
\<close>

unbundle bit_operations_syntax

definition SERVICE_LABEL :: rstr where "SERVICE_LABEL = lit ''app.shelly.daemon''"
definition DEFAULT_IROH_RELAY_URL :: rstr where "DEFAULT_IROH_RELAY_URL = lit ''https://relay.shelly.sh''"

datatype service_status = NotInstalled | Running | StoppedFor "rstr option"

definition format_status :: "service_status \<Rightarrow> rstr" where
  "format_status status = (case status of
     NotInstalled \<Rightarrow> lit ''not installed''
   | Running \<Rightarrow> lit ''running''
   | StoppedFor (Some reason) \<Rightarrow> lit ''stopped ('' @ reason @ lit '')''
   | StoppedFor None \<Rightarrow> lit ''stopped'')"

record install_ctx =
  ic_label :: rstr
  ic_program :: rstr
  ic_args :: "rstr list"
  ic_contents :: "rstr option"
  ic_environment :: "(rstr \<times> rstr) list option"
  ic_autostart :: bool
  ic_restart_delay_secs :: nat

record 'w service_manager =
  sm_install :: "install_ctx \<Rightarrow> 'w \<Rightarrow> 'w \<times> (rstr + unit)"
  sm_start :: "'w \<Rightarrow> 'w \<times> (rstr + unit)"
  sm_stop :: "'w \<Rightarrow> 'w \<times> (rstr + unit)"
  sm_uninstall :: "'w \<Rightarrow> 'w \<times> (rstr + unit)"
  sm_status :: "'w \<Rightarrow> 'w \<times> (rstr + service_status)"

text \<open>What a program printed: whether it succeeded, its status, standard output and error.\<close>

type_synonym command_result = "bool \<times> rstr \<times> rstr \<times> rstr"

record system_files =
  sf_macos :: bool
  sf_current_exe :: "rstr + rstr"
  sf_exists :: "rstr \<Rightarrow> bool"
  sf_is_file :: "rstr \<Rightarrow> bool"
  sf_mode :: "rstr \<Rightarrow> rstr + 32 word"
  sf_codesign :: "rstr \<Rightarrow> rstr + command_result"
  sf_xattr :: "rstr \<Rightarrow> rstr + command_result"
  sf_env :: "rstr \<Rightarrow> rstr option"

section \<open>The binary\<close>

text \<open>\<open>Path::parent\<close> of a path without dots, and \<open>Path::join\<close> with a relative one.\<close>

definition path_parent :: "rstr \<Rightarrow> rstr option" where
  "path_parent p =
     (let p = rev (dropWhile (\<lambda>c. c = 47) (rev p)); d = rev (dropWhile (\<lambda>c. c \<noteq> 47) (rev p)) in
      if p = [] then None
      else Some (if d = [] then [] else let e = rev (dropWhile (\<lambda>c. c = 47) (rev d)) in if e = [] then [47] else e))"

definition path_join :: "rstr \<Rightarrow> rstr \<Rightarrow> rstr" where
  "path_join a b = (if a = [] \<or> last a = 47 then a @ b else a @ [47] @ b)"

definition ensure_executable :: "system_files \<Rightarrow> rstr \<Rightarrow> cli_error + unit" where
  "ensure_executable sf path = (case sf_mode sf path of
     Inl e \<Rightarrow> Inl (Because (lit ''stat shellyd at '' @ path) (Bail e))
   | Inr mode \<Rightarrow> if mode AND 73 = 0 then Inl (Bail (lit ''shellyd next to shelly is not executable: '' @ path))
       else Inr ())"

definition daemon_path_from_cli_path :: "system_files \<Rightarrow> rstr \<Rightarrow> cli_error + rstr" where
  "daemon_path_from_cli_path sf cli_path = (case path_parent cli_path of
     None \<Rightarrow> Inl (Bail (lit ''shelly binary has no parent directory''))
   | Some parent \<Rightarrow> let daemon = path_join parent (lit ''shellyd'') in
       if \<not> sf_exists sf daemon then Inl (Bail (lit ''shellyd not found next to shelly at '' @ daemon))
       else if \<not> sf_is_file sf daemon then Inl (Bail (lit ''shellyd path next to shelly is not a file: '' @ daemon))
       else (case ensure_executable sf daemon of Inl e \<Rightarrow> Inl e | Inr _ \<Rightarrow> Inr daemon))"

definition daemon_path :: "system_files \<Rightarrow> cli_error + rstr" where
  "daemon_path sf = (case sf_current_exe sf of
     Inl e \<Rightarrow> Inl (Because (lit ''resolve current executable'') (Bail e))
   | Inr cli_path \<Rightarrow> daemon_path_from_cli_path sf cli_path)"

definition command_output_detail :: "command_result \<Rightarrow> rstr \<Rightarrow> rstr" where
  "command_output_detail r command = (case r of (_, status, out, err) \<Rightarrow>
     (let out = trim out; err = trim err in
      if out = [] \<and> err = [] then command @ lit '' exited with '' @ status
      else if err = [] then out
      else if out = [] then err
      else out @ [10] @ err))"

text \<open>macOS refuses to launch a binary without a valid signature or in quarantine.\<close>

definition ensure_service_launch_allowed :: "system_files \<Rightarrow> rstr \<Rightarrow> cli_error + unit" where
  "ensure_service_launch_allowed sf path =
     (if \<not> sf_macos sf then Inr ()
      else case sf_codesign sf path of
        Inl e \<Rightarrow> Inl (Because (lit ''verify macOS code signature for '' @ path) (Bail e))
      | Inr signature \<Rightarrow>
          if \<not> fst signature then Inl (Bail (
            lit ''macOS launchd preflight rejected shellyd: code signature verification failed for '' @ path @ [10] @
            lit ''Install the npm Shelly package or repair the local binary with `codesign --force --sign - '' @ path @
            lit ''` after verifying its origin, then rerun `shelly daemon install`.'' @ [10] @
            lit ''codesign output: '' @ command_output_detail signature (lit ''codesign'')))
          else (case sf_xattr sf path of
            Inl e \<Rightarrow> Inl (Because (lit ''read macOS quarantine xattr for '' @ path) (Bail e))
          | Inr (success, _, out, _) \<Rightarrow>
              if success \<and> trim out \<noteq> [] then Inl (Bail (
                lit ''macOS launchd preflight rejected shellyd: '' @ path @ lit '' has com.apple.quarantine set.'' @ [10] @
                lit ''Install through npm or remove quarantine only from this verified Shelly binary with '' @
                lit ''`xattr -d com.apple.quarantine '' @ path @ lit ''`.'' @ [10] @
                lit ''quarantine xattr: '' @ trim out))
              else Inr ()))"

section \<open>What is installed\<close>

definition PASSTHROUGH :: "rstr list" where
  "PASSTHROUGH = map lit [''HOME'', ''PATH'', ''SHELL'', ''XDG_RUNTIME_DIR'', ''XDG_CONFIG_HOME'', ''XDG_STATE_HOME'',
     ''SHELLY_LOG_DIR'', ''SHELLY_RELAY_CONTROL_URL'', ''SHELLY_IROH_RELAY_URL'',
     ''SHELLY_SCROLLBACK_ENCRYPTION_ENABLED'', ''SHELLY_TELEMETRY_OPT_IN'']"

definition service_environment :: "(rstr \<Rightarrow> rstr option) \<Rightarrow> (rstr \<times> rstr) list option" where
  "service_environment env =
     (let values = List.map_filter (\<lambda>key. case env key of
          Some value \<Rightarrow> if value = [] then None else Some (key, value) | None \<Rightarrow> None) PASSTHROUGH;
        values = (if list_ex (\<lambda>(key, _). key = lit ''SHELLY_IROH_RELAY_URL'') values then values
          else values @ [(lit ''SHELLY_IROH_RELAY_URL'', DEFAULT_IROH_RELAY_URL)]) in
      if values = [] then None else Some values)"

text \<open>\<open>replace\<close> of a character; the code chains five of them.\<close>

definition replace_char :: "rchar \<Rightarrow> rstr \<Rightarrow> rstr \<Rightarrow> rstr" where
  "replace_char c by_text s = concat (map (\<lambda>d. if d = c then by_text else [d]) s)"

definition xml_escape :: "rstr \<Rightarrow> rstr" where
  "xml_escape value = replace_char 39 (lit ''&apos;'') (replace_char 34 (lit ''&quot;'')
     (replace_char 62 (lit ''&gt;'') (replace_char 60 (lit ''&lt;'') (replace_char 38 (lit ''&amp;'') value))))"

text \<open>Line by line; \<open>quoted\<close> is a text between double quotes.\<close>

definition quoted :: "char list \<Rightarrow> rstr" where "quoted s = [34] @ lit s @ [34]"

definition plist_lines :: "rstr list \<Rightarrow> rstr" where "plist_lines ls = concat (map (\<lambda>l. l @ [10]) ls)"

definition launchd_plist :: "rstr \<Rightarrow> (rstr \<times> rstr) list option \<Rightarrow> rstr" where
  "launchd_plist program environment =
     plist_lines [
       lit ''<?xml version='' @ quoted ''1.0'' @ lit '' encoding='' @ quoted ''UTF-8'' @ lit ''?>'',
       lit ''<!DOCTYPE plist PUBLIC '' @ quoted ''-//Apple//DTD PLIST 1.0//EN'' @ lit '' '' @
         quoted ''http://www.apple.com/DTDs/PropertyList-1.0.dtd'' @ lit ''>'',
       lit ''<plist version='' @ quoted ''1.0'' @ lit ''>'', lit ''<dict>'',
       lit ''  <key>Label</key>'', lit ''  <string>app.shelly.daemon</string>'',
       lit ''  <key>ProgramArguments</key>'', lit ''  <array>'',
       lit ''    <string>'' @ xml_escape program @ lit ''</string>'',
       lit ''  </array>'', lit ''  <key>RunAtLoad</key>'', lit ''  <true/>'', lit ''  <key>KeepAlive</key>'',
       lit ''  <dict>'', lit ''    <key>SuccessfulExit</key>'', lit ''    <false/>'', lit ''  </dict>'',
       lit ''  <key>Disabled</key>'', lit ''  <true/>'', lit ''  <key>LimitLoadToSessionType</key>'',
       lit ''  <string>Aqua</string>''] @
     (case environment of
        None \<Rightarrow> []
      | Some environment \<Rightarrow> plist_lines ([lit ''  <key>EnvironmentVariables</key>'', lit ''  <dict>''] @
          concat (map (\<lambda>(key, value). [lit ''    <key>'' @ xml_escape key @ lit ''</key>'',
            lit ''    <string>'' @ xml_escape value @ lit ''</string>'']) environment) @ [lit ''  </dict>''])) @
     plist_lines [lit ''</dict>'', lit ''</plist>'']"

definition install_ctx_for :: "system_files \<Rightarrow> rstr \<Rightarrow> install_ctx" where
  "install_ctx_for sf program =
     (let environment = service_environment (sf_env sf) in
      \<lparr>ic_label = SERVICE_LABEL, ic_program = program, ic_args = [],
       ic_contents = (if sf_macos sf then Some (launchd_plist program environment) else None),
       ic_environment = environment, ic_autostart = True, ic_restart_delay_secs = 5\<rparr>)"

definition make_install_ctx :: "system_files \<Rightarrow> cli_error + install_ctx" where
  "make_install_ctx sf = (case daemon_path sf of
     Inl e \<Rightarrow> Inl e
   | Inr daemon \<Rightarrow> (case ensure_service_launch_allowed sf daemon of
       Inl e \<Rightarrow> Inl e
     | Inr _ \<Rightarrow> Inr (install_ctx_for sf daemon)))"

section \<open>Operations\<close>

definition in_context :: "rstr \<Rightarrow> 'w \<times> (rstr + 'a) \<Rightarrow> 'w \<times> (cli_error + 'a)" where
  "in_context context r = (case r of
     (w, Inl e) \<Rightarrow> (w, Inl (Because context (Bail e))) | (w, Inr a) \<Rightarrow> (w, Inr a))"

definition install_with_manager :: "'w service_manager \<Rightarrow> install_ctx \<Rightarrow> 'w \<Rightarrow> 'w \<times> (cli_error + unit)" where
  "install_with_manager manager ctx w =
     (case in_context (lit ''install shellyd user service'') (sm_install manager ctx w) of
        (w, Inl e) \<Rightarrow> (w, Inl e)
      | (w, Inr _) \<Rightarrow> (case sm_start manager w of
          (w, Inl error) \<Rightarrow> (fst (sm_uninstall manager w),
            Inl (Because (lit ''start shellyd user service'') (Bail error)))
        | (w, Inr _) \<Rightarrow> (w, Inr ())))"

definition service_install :: "'w service_manager \<Rightarrow> system_files \<Rightarrow> 'w \<Rightarrow> 'w \<times> (cli_error + unit)" where
  "service_install manager sf w = (case make_install_ctx sf of
     Inl e \<Rightarrow> (w, Inl e) | Inr ctx \<Rightarrow> install_with_manager manager ctx w)"

definition service_uninstall :: "'w service_manager \<Rightarrow> 'w \<Rightarrow> 'w \<times> (cli_error + unit)" where
  "service_uninstall manager w =
     in_context (lit ''uninstall shellyd user service'') (sm_uninstall manager (fst (sm_stop manager w)))"

definition service_restart :: "'w service_manager \<Rightarrow> system_files \<Rightarrow> 'w \<Rightarrow> 'w \<times> (cli_error + unit)" where
  "service_restart manager sf w = (case daemon_path sf of
     Inl e \<Rightarrow> (w, Inl e)
   | Inr daemon \<Rightarrow> (case ensure_service_launch_allowed sf daemon of
       Inl e \<Rightarrow> (w, Inl e)
     | Inr _ \<Rightarrow> in_context (lit ''start shellyd user service'') (sm_start manager (fst (sm_stop manager w)))))"

definition service_status_of :: "'w service_manager \<Rightarrow> 'w \<Rightarrow> 'w \<times> (cli_error + service_status)" where
  "service_status_of manager w = in_context (lit ''query shellyd user service'') (sm_status manager w)"

end
