(* ===== verification/Cli.thy ===== *)
theory Cli
  imports Service AttachLoop AttachUi
begin

text \<open>
  The commands of \<open>shelly\<close> (\<open>crates/cli/src/main.rs\<close>) and their connection to the daemon
  (\<open>crates/cli/src/ipc.rs\<close>).  What a command uses of the outside (the socket, processes, clocks,
  the terminal, signals) is a record \<open>cli_net\<close> of functions on a world; what the process finds when it
  starts is \<open>cli_env\<close>.  The two flags of \<open>terminal.rs\<close> that say what has to be restored are
  state beside the world.
\<close>

section \<open>State\<close>

datatype attach_end = AttachEnded "rstr + attach_outcome" | AttachSignal nat
datatype pair_event = Message "(rstr, rstr) read_error + server_msg" | CtrlC | SignalRaised nat | Tick

record 'w cli_net =
  cw_connect :: "'w \<Rightarrow> 'w \<times> (cli_error + nat)"
  cw_write :: "nat \<Rightarrow> client_msg \<Rightarrow> 'w \<Rightarrow> 'w \<times> (rstr, rstr) write_error option"
  cw_flush :: "nat \<Rightarrow> 'w \<Rightarrow> 'w \<times> rstr option"
  cw_read :: "nat \<Rightarrow> 'w \<Rightarrow> 'w \<times> ((rstr, rstr) read_error + server_msg)"
  cw_spawn :: "rstr \<Rightarrow> 'w \<Rightarrow> 'w \<times> (rstr + unit)"
  cw_try_wait :: "'w \<Rightarrow> 'w \<times> (rstr + rstr option)"
  cw_instant :: "'w \<Rightarrow> 'w \<times> nat"
  cw_clock_ms :: "'w \<Rightarrow> 'w \<times> nat"
  cw_sleep :: "nat \<Rightarrow> 'w \<Rightarrow> 'w"
  cw_print :: "rstr \<Rightarrow> 'w \<Rightarrow> 'w"
  cw_flush_out :: "'w \<Rightarrow> 'w \<times> rstr option"
  cw_eprint :: "rstr \<Rightarrow> 'w \<Rightarrow> 'w"
  cw_size :: "'w \<Rightarrow> 'w \<times> (nat \<times> nat) option"
  cw_raw_mode :: "'w \<Rightarrow> 'w \<times> (rstr + unit)"
  cw_no_raw_mode :: "'w \<Rightarrow> 'w"
  cw_key :: "'w \<Rightarrow> 'w \<times> (cli_error + nat option)"
  cw_stdin :: "'w \<Rightarrow> 'w \<times> (rstr + rstr)"
  cw_signals :: "'w \<Rightarrow> 'w \<times> (rstr + unit)"
  cw_pair_event :: "nat \<Rightarrow> 'w \<Rightarrow> 'w \<times> pair_event"
  cw_detach_prefix :: "'w \<Rightarrow> 'w \<times> (cli_error + 8 word)"
  cw_attach_setup :: "'w \<Rightarrow> 'w \<times> (cli_error + unit)"
  cw_attach :: "nat \<Rightarrow> session_summary \<Rightarrow> client_size \<Rightarrow> 8 word \<Rightarrow> 'w \<Rightarrow> 'w \<times> attach_end"
  cw_service :: "'w service_manager"

record cli_env =
  ce_files :: system_files
  ce_version :: rstr
  ce_socket_path :: rstr
  ce_interactive :: bool
  ce_stdin_tty :: bool
  ce_stdout_tty :: bool
  ce_term :: "rstr option"
  ce_color_depth :: color_depth
  ce_shell :: "os_string option"
  ce_session_id :: "rstr option"
  ce_bin_name :: rstr
  ce_parse_uuid :: "rstr \<Rightarrow> rstr + nat"
  ce_uuid_text :: "nat \<Rightarrow> rstr"
  ce_debug :: "server_msg \<Rightarrow> rstr"
  ce_canonicalize :: "rstr \<Rightarrow> rstr + rstr"
  ce_json :: "rstr \<Rightarrow> (rstr \<Rightarrow> rstr option) option"
  ce_encode_ticket :: "pairing_ticket \<Rightarrow> rstr + rstr"
  ce_qr :: "rstr \<Rightarrow> rstr + nat \<times> rstr"

record 'w cli_state =
  dk_raw_mode :: bool
  dk_alt_screen :: bool
  dk_world :: 'w

text \<open>How a command stops early: an error, \<open>process::exit\<close>, or the signal it received.\<close>

datatype cli_stop = Failed cli_error | Exits int | Raised nat

text \<open>A command may wait for ever; \<open>None\<close> is that it does not return.\<close>

type_synonym ('w, 'a) task = "'w cli_state \<Rightarrow> ('w cli_state \<times> (cli_stop + 'a)) option"

definition bind_task :: "('w, 'a) task \<Rightarrow> ('a \<Rightarrow> ('w, 'b) task) \<Rightarrow> ('w, 'b) task" where
  "bind_task m f d = (case m d of
     None \<Rightarrow> None | Some (d', Inl e) \<Rightarrow> Some (d', Inl e) | Some (d', Inr a) \<Rightarrow> f a d')"

definition finish :: "'a \<Rightarrow> ('w, 'a) task" where "finish a d = Some (d, Inr a)"
definition stop :: "cli_stop \<Rightarrow> ('w, 'a) task" where "stop e d = Some (d, Inl e)"
definition bail :: "rstr \<Rightarrow> ('w, 'a) task" where "bail message = stop (Failed (Bail message))"

text \<open>A call of the outside, and one that may fail (the \<open>?\<close> operator).\<close>

definition call :: "('w \<Rightarrow> 'w \<times> 'a) \<Rightarrow> ('w, 'a) task" where
  "call f d = (case f (dk_world d) of (w, a) \<Rightarrow> Some (d\<lparr>dk_world := w\<rparr>, Inr a))"

definition attempt_with :: "('e \<Rightarrow> cli_error) \<Rightarrow> ('w \<Rightarrow> 'w \<times> ('e + 'a)) \<Rightarrow> ('w, 'a) task" where
  "attempt_with err f = bind_task (call f) (\<lambda>r. case r of Inl e \<Rightarrow> stop (Failed (err e)) | Inr a \<Rightarrow> finish a)"

definition pure_result :: "rstr + 'a \<Rightarrow> ('w, 'a) task" where
  "pure_result r = (case r of Inl e \<Rightarrow> bail e | Inr a \<Rightarrow> finish a)"

definition print_raw :: "'w cli_net \<Rightarrow> rstr \<Rightarrow> ('w, unit) task" where
  "print_raw net s = call (\<lambda>w. (cw_print net s w, ()))"

definition println :: "'w cli_net \<Rightarrow> rstr \<Rightarrow> ('w, unit) task" where
  "println net s = print_raw net (s @ [10])"

definition eprintln :: "'w cli_net \<Rightarrow> rstr \<Rightarrow> ('w, unit) task" where
  "eprintln net s = call (\<lambda>w. (cw_eprint net (s @ [10]) w, ()))"

fun print_all :: "'w cli_net \<Rightarrow> rstr list \<Rightarrow> ('w, unit) task" where
  "print_all net [] = finish ()"
| "print_all net (l # ls) = bind_task (println net l) (\<lambda>_. print_all net ls)"

section \<open>The terminal\<close>

definition TERMINAL_RESTORE :: rstr where
  "TERMINAL_RESTORE = ansi ''0m'' @ ansi ''r'' @ ansi ''?6l'' @ ansi ''?1l'' @ 27 # lit ''>'' @ ansi ''?1000l'' @
     ansi ''?1002l'' @ ansi ''?1003l'' @ ansi ''?1006l'' @ ansi ''?2004l'' @ ansi ''?25h'' @ ansi ''?1049l''"

definition restore_raw_mode :: "'w cli_net \<Rightarrow> 'w cli_state \<Rightarrow> 'w cli_state" where
  "restore_raw_mode net d =
     (if dk_raw_mode d then d\<lparr>dk_raw_mode := False, dk_world := cw_no_raw_mode net (dk_world d)\<rparr> else d)"

definition restore_alt_screen :: "'w cli_net \<Rightarrow> 'w cli_state \<Rightarrow> 'w cli_state" where
  "restore_alt_screen net d =
     (if dk_alt_screen d
      then d\<lparr>dk_alt_screen := False,
             dk_world := fst (cw_flush_out net (cw_print net TERMINAL_RESTORE (dk_world d)))\<rparr>
      else d)"

definition restore_for_exit :: "'w cli_net \<Rightarrow> 'w cli_state \<Rightarrow> 'w cli_state" where
  "restore_for_exit net d = restore_alt_screen net (restore_raw_mode net d)"

definition enter_raw_mode :: "'w cli_net \<Rightarrow> ('w, unit) task" where
  "enter_raw_mode net = bind_task (attempt_with (\<lambda>e. Because (lit ''enable raw mode'') (Bail e)) (cw_raw_mode net))
     (\<lambda>_ d. Some (d\<lparr>dk_raw_mode := True\<rparr>, Inr ()))"

definition flush_out :: "'w cli_net \<Rightarrow> char list \<Rightarrow> ('w, unit) task" where
  "flush_out net context = bind_task (call (cw_flush_out net)) (\<lambda>r. case r of
     Some e \<Rightarrow> stop (Failed (Because (lit context) (Bail e))) | None \<Rightarrow> finish ())"

text \<open>\<open>LiveScreenGuard::enter\<close> and \<open>AttachScreenGuard::enter\<close>.\<close>

definition enter_screen :: "'w cli_net \<Rightarrow> char list \<Rightarrow> ('w, unit) task" where
  "enter_screen net context =
     bind_task (print_raw net (ansi ''?1049h'' @ ansi ''H'' @ ansi ''2J'' @ ansi ''?25l'')) (\<lambda>_.
     bind_task (flush_out net context) (\<lambda>_ d. Some (d\<lparr>dk_alt_screen := True\<rparr>, Inr ())))"

text \<open>
  A guard is dropped when its scope ends with a value or an error; \<open>process::exit\<close> and a signal
  end the process without dropping it.
\<close>

definition dropping :: "('w cli_state \<Rightarrow> 'w cli_state) \<Rightarrow> ('w, 'a) task \<Rightarrow> ('w, 'a) task" where
  "dropping drop_guard m d = (case m d of
     None \<Rightarrow> None
   | Some (d', Inl (Exits code)) \<Rightarrow> Some (d', Inl (Exits code))
   | Some (d', Inl (Raised s)) \<Rightarrow> Some (d', Inl (Raised s))
   | Some (d', r) \<Rightarrow> Some (drop_guard d', r))"

definition terminal_size :: "'w cli_net \<Rightarrow> ('w, client_size) task" where
  "terminal_size net = bind_task (call (cw_size net)) (\<lambda>r. finish (case r of
     Some (c, r) \<Rightarrow> normalized_terminal_size c r | None \<Rightarrow> normalized_terminal_size 80 24))"

section \<open>Frames\<close>

definition write_failure_of :: "(rstr, rstr) write_error \<Rightarrow> cli_error" where
  "write_failure_of e = (case e of
     Encode error \<Rightarrow> Because (lit ''encode frame'') (Bail error)
   | WTooLarge len \<Rightarrow> Bail (lit ''frame too large: '' @ dec len)
   | WriteLength error \<Rightarrow> Because (lit ''write frame length'') (Bail error)
   | WritePayload error \<Rightarrow> Because (lit ''write frame payload'') (Bail error))"

definition read_failure_of :: "(rstr, rstr) read_error \<Rightarrow> cli_error" where
  "read_failure_of e = (case e of
     ReadLength error \<Rightarrow> Because (lit ''read frame length'') (Bail error)
   | ReadTooLarge len \<Rightarrow> Bail (lit ''frame too large: '' @ dec len)
   | ReadPayload error \<Rightarrow> Because (lit ''read frame payload'') (Bail error)
   | ReadDecode error \<Rightarrow> Because (lit ''decode frame'') (Bail error))"

definition cli_write_msg :: "'w cli_net \<Rightarrow> nat \<Rightarrow> client_msg \<Rightarrow> ('w, unit) task" where
  "cli_write_msg net conn m = bind_task (call (cw_write net conn m)) (\<lambda>r. case r of
     Some e \<Rightarrow> stop (Failed (write_failure_of e))
   | None \<Rightarrow> bind_task (call (cw_flush net conn)) (\<lambda>r. case r of
       Some e \<Rightarrow> stop (Failed (Because (lit ''flush frame'') (Bail e))) | None \<Rightarrow> finish ()))"

definition cli_read_msg :: "'w cli_net \<Rightarrow> nat \<Rightarrow> ('w, server_msg) task" where
  "cli_read_msg net conn = attempt_with read_failure_of (cw_read net conn)"

text \<open>
  A request and its reply: \<open>expect\<close> picks the value out of the reply that is expected; an error
  of the daemon is shown as it is.
\<close>

definition request :: "'w cli_net \<Rightarrow> nat \<Rightarrow> client_msg \<Rightarrow> char list \<Rightarrow> (server_msg \<Rightarrow> 'a option) \<Rightarrow> ('w, 'a) task" where
  "request net conn m place expect =
     bind_task (cli_write_msg net conn m) (\<lambda>_.
     bind_task (cli_read_msg net conn) (\<lambda>reply. case expect reply of
       Some a \<Rightarrow> finish a
     | None \<Rightarrow> (case reply of
         Error _ message \<Rightarrow> bail message
       | other \<Rightarrow> stop (Failed (Unexpected (lit place) other)))))"

section \<open>Reaching the daemon\<close>

definition NON_INTERACTIVE_DAEMON_START_TIMEOUT :: nat where "NON_INTERACTIVE_DAEMON_START_TIMEOUT = 15000"
definition DAEMON_POLL_INTERVAL :: nat where "DAEMON_POLL_INTERVAL = 50"
definition DAEMON_START_PROGRESS_INTERVAL :: nat where "DAEMON_START_PROGRESS_INTERVAL = 10000"
definition SERVICE_STATUS_POLL_INTERVAL :: nat where "SERVICE_STATUS_POLL_INTERVAL = 500"
definition SERVICE_UNHEALTHY_SAMPLE_LIMIT :: nat where "SERVICE_UNHEALTHY_SAMPLE_LIMIT = 3"

record startup_wait =
  sw_deadline :: "nat option"
  sw_next_progress :: "nat option"

definition startup_new :: "bool \<Rightarrow> nat \<Rightarrow> startup_wait" where
  "startup_new interactive now = \<lparr>
     sw_deadline = (if interactive then None else Some (now + NON_INTERACTIVE_DAEMON_START_TIMEOUT)),
     sw_next_progress = (if interactive then Some (now + DAEMON_START_PROGRESS_INTERVAL) else None)\<rparr>"

definition timed_out_at :: "startup_wait \<Rightarrow> nat \<Rightarrow> bool" where
  "timed_out_at wait now \<longleftrightarrow> (case sw_deadline wait of Some deadline \<Rightarrow> deadline \<le> now | None \<Rightarrow> False)"

definition take_progress_due_at :: "nat \<Rightarrow> startup_wait \<Rightarrow> bool \<times> startup_wait" where
  "take_progress_due_at now wait = (case sw_next_progress wait of
     None \<Rightarrow> (False, wait)
   | Some next_progress \<Rightarrow>
       if now < next_progress then (False, wait)
       else (True, wait\<lparr>sw_next_progress := Some (now + DAEMON_START_PROGRESS_INTERVAL)\<rparr>))"

definition control_socket_path :: "rstr option \<Rightarrow> nat \<Rightarrow> rstr \<Rightarrow> rstr" where
  "control_socket_path runtime_dir uid temp_dir = (case runtime_dir of
     Some value \<Rightarrow> path_join (path_join value (lit ''shelly'')) (lit ''control.sock'')
   | None \<Rightarrow> path_join (path_join temp_dir (lit ''shelly-'' @ dec uid)) (lit ''control.sock''))"

definition daemon_starting :: "bool \<Rightarrow> rstr" where
  "daemon_starting macos = (if macos then lit ''Starting Shelly. Approve any macOS Keychain prompts to continue...''
     else lit ''Starting Shelly...'')"

definition daemon_still_starting :: "bool \<Rightarrow> rstr" where
  "daemon_still_starting macos = (if macos
     then lit ''Still waiting for macOS Keychain approval. Press Ctrl+C to cancel...''
     else lit ''Still waiting for shellyd. Press Ctrl+C to cancel...'')"

definition non_interactive_timeout_guidance :: "bool \<Rightarrow> rstr" where
  "non_interactive_timeout_guidance macos = (if macos
     then lit ''Approve any macOS Keychain prompts, then retry. Run `shelly doctor` for diagnostics.''
     else lit ''Retry the command, or run `shelly doctor` for diagnostics.'')"

definition daemon_start_is_interactive :: "bool \<Rightarrow> bool \<Rightarrow> bool" where
  "daemon_start_is_interactive stderr_tty ci \<longleftrightarrow> stderr_tty \<and> \<not> ci"

definition connect_once :: "'w cli_net \<Rightarrow> cli_env \<Rightarrow> ('w, nat) task" where
  "connect_once net env = attempt_with (Because (lit ''connect to '' @ ce_socket_path env)) (cw_connect net)"

definition handshake :: "'w cli_net \<Rightarrow> cli_env \<Rightarrow> nat \<Rightarrow> ('w, nat \<times> capabilities) task" where
  "handshake net env conn =
     request net conn (Hello LocalCli (ce_version env) CONTRACT_VERSION)
       ''unexpected daemon response during handshake: ''
       (\<lambda>reply. case reply of Welcome _ _ capabilities _ \<Rightarrow> Some (conn, capabilities) | _ \<Rightarrow> None)"

definition start_failure :: "char list \<Rightarrow> cli_env \<Rightarrow> cli_error \<Rightarrow> cli_error" where
  "start_failure what env last_error = Bail (lit what @ dec (NON_INTERACTIVE_DAEMON_START_TIMEOUT div 1000) @
     lit '' seconds at '' @ ce_socket_path env @ lit ''. '' @
     non_interactive_timeout_guidance (sf_macos (ce_files env)) @
     lit '' Last connection error: '' @ error_text (ce_debug env) last_error)"

text \<open>The part of the loops after a failed attempt: the time, a sign of life, or the deadline.\<close>

definition wait_tick :: "'w cli_net \<Rightarrow> cli_env \<Rightarrow> nat \<Rightarrow> startup_wait \<Rightarrow> 'w \<Rightarrow> 'w \<times> startup_wait \<times> bool" where
  "wait_tick net env now wait w = (case take_progress_due_at now wait of (due, wait) \<Rightarrow>
     let w = (if due then cw_eprint net (daemon_still_starting (sf_macos (ce_files env)) @ [10]) w else w) in
     if timed_out_at wait now then (w, wait, True) else (cw_sleep net DAEMON_POLL_INTERVAL w, wait, False))"

partial_function (option) wait_for_daemon_loop ::
    "'w cli_net \<Rightarrow> cli_env \<Rightarrow> startup_wait \<Rightarrow> 'w \<Rightarrow> ('w \<times> (cli_error + nat)) option" where
  "wait_for_daemon_loop net env wait w =
     (case cw_connect net w of
        (w, Inr conn) \<Rightarrow> Some (w, Inr conn)
      | (w, Inl e) \<Rightarrow> (case cw_try_wait net w of
          (w, Inl e') \<Rightarrow> Some (w, Inl (Because (lit ''check shellyd startup status'') (Bail e')))
        | (w, Inr (Some status)) \<Rightarrow>
            Some (w, Inl (Bail (lit ''shellyd exited before its control socket was ready ('' @ status @ lit '')'')))
        | (w, Inr None) \<Rightarrow> (case cw_instant net w of (w, now) \<Rightarrow>
            (case wait_tick net env now wait w of
               (w, wait, over) \<Rightarrow>
                 if over then Some (w, Inl (start_failure ''shellyd is still starting after '' env
                   (Because (lit ''connect to '' @ ce_socket_path env) e)))
                 else wait_for_daemon_loop net env wait w))))"

definition wait_for_daemon :: "'w cli_net \<Rightarrow> cli_env \<Rightarrow> ('w, nat) task" where
  "wait_for_daemon net env d = (case cw_instant net (dk_world d) of (w, now) \<Rightarrow>
     (case wait_for_daemon_loop net env (startup_new (ce_interactive env) now) w of
        None \<Rightarrow> None
      | Some (w, Inl e) \<Rightarrow> Some (d\<lparr>dk_world := w\<rparr>, Inl (Failed e))
      | Some (w, Inr conn) \<Rightarrow> Some (d\<lparr>dk_world := w\<rparr>, Inr conn)))"

definition spawn_daemon :: "'w cli_net \<Rightarrow> cli_env \<Rightarrow> ('w, unit) task" where
  "spawn_daemon net env = (case daemon_path (ce_files env) of
     Inl e \<Rightarrow> stop (Failed e)
   | Inr path \<Rightarrow> attempt_with (\<lambda>e. Because (lit ''spawn '' @ path) (Bail e)) (cw_spawn net path))"

definition connect_local :: "'w cli_net \<Rightarrow> cli_env \<Rightarrow> ('w, nat \<times> capabilities) task" where
  "connect_local net env d = (case cw_connect net (dk_world d) of
     (w, Inr conn) \<Rightarrow> handshake net env conn (d\<lparr>dk_world := w\<rparr>)
   | (w, Inl _) \<Rightarrow> bind_task (eprintln net (daemon_starting (sf_macos (ce_files env)))) (\<lambda>_.
       bind_task (spawn_daemon net env) (\<lambda>_.
       bind_task (wait_for_daemon net env) (handshake net env))) (d\<lparr>dk_world := w\<rparr>))"

definition connect_existing :: "'w cli_net \<Rightarrow> cli_env \<Rightarrow> ('w, nat \<times> capabilities) task" where
  "connect_existing net env = bind_task (connect_once net env) (handshake net env)"

text \<open>
  How many times in a row the service has not been running, and whether that is enough.  A
  reading that fails resets the count as one that finds it running does.
\<close>

definition service_health :: "nat \<Rightarrow> cli_error + service_status \<Rightarrow> nat \<times> cli_error option" where
  "service_health unhealthy_samples reading = (case reading of
     Inr Running \<Rightarrow> (0, None)
   | Inr status \<Rightarrow>
       (unhealthy_samples + 1,
        if SERVICE_UNHEALTHY_SAMPLE_LIMIT \<le> unhealthy_samples + 1
        then Some (Bail (lit ''shellyd service became '' @ format_status status @
          lit '' before its control socket was ready. Run `shelly doctor` for diagnostics.''))
        else None)
   | Inl _ \<Rightarrow> (0, None))"

definition check_service :: "'w cli_net \<Rightarrow> nat \<Rightarrow> nat \<times> nat \<Rightarrow> 'w \<Rightarrow> 'w \<times> (nat \<times> nat) \<times> cli_error option" where
  "check_service net now st w = (case st of (next_status_check, unhealthy_samples) \<Rightarrow>
     if now < next_status_check then (w, st, None)
     else (case service_status_of (cw_service net) w of (w, reading) \<Rightarrow>
       (case service_health unhealthy_samples reading of
          (k, e) \<Rightarrow> (w, (now + SERVICE_STATUS_POLL_INTERVAL, k), e))))"

partial_function (option) wait_for_existing_loop ::
    "'w cli_net \<Rightarrow> cli_env \<Rightarrow> startup_wait \<Rightarrow> nat \<times> nat \<Rightarrow> 'w cli_state \<Rightarrow> ('w cli_state \<times> (cli_stop + unit)) option" where
  "wait_for_existing_loop net env wait st d =
     (case connect_existing net env d of
        None \<Rightarrow> None
      | Some (d, Inr _) \<Rightarrow> Some (d, Inr ())
      | Some (d, Inl (Failed last_error)) \<Rightarrow>
          (case cw_instant net (dk_world d) of (w, now) \<Rightarrow>
            (case check_service net now st w of
               (w, st, Some e) \<Rightarrow> Some (d\<lparr>dk_world := w\<rparr>, Inl (Failed e))
             | (w, st, None) \<Rightarrow>
                (case wait_tick net env now wait w of
                   (w, wait, over) \<Rightarrow>
                     if over then Some (d\<lparr>dk_world := w\<rparr>,
                       Inl (Failed (start_failure ''shellyd service did not become reachable after '' env last_error)))
                     else wait_for_existing_loop net env wait st (d\<lparr>dk_world := w\<rparr>))))
      | Some (d, Inl e) \<Rightarrow> Some (d, Inl e))"

definition wait_for_existing_daemon :: "'w cli_net \<Rightarrow> cli_env \<Rightarrow> ('w, unit) task" where
  "wait_for_existing_daemon net env d = (case cw_instant net (dk_world d) of (w, now) \<Rightarrow>
     (case cw_instant net w of (w, now') \<Rightarrow>
       wait_for_existing_loop net env (startup_new (ce_interactive env) now)
         (now' + SERVICE_STATUS_POLL_INTERVAL, 0) (d\<lparr>dk_world := w\<rparr>)))"

section \<open>Sessions\<close>

definition sid_text :: "cli_env \<Rightarrow> session_id \<Rightarrow> rstr" where
  "sid_text env i = ce_uuid_text env (session_uuid i)"

definition list_reply :: "server_msg \<Rightarrow> session_summary list option" where
  "list_reply reply = (case reply of SessionList sessions \<Rightarrow> Some sessions | _ \<Rightarrow> None)"

definition fetch_sessions :: "'w cli_net \<Rightarrow> cli_env \<Rightarrow> ('w, session_summary list) task" where
  "fetch_sessions net env = bind_task (connect_local net env) (\<lambda>(conn, _).
     request net conn ListSessions ''unexpected daemon response: '' list_reply)"

definition state_debug :: "agent_state \<Rightarrow> rstr" where
  "state_debug state = (case state of
     Idle \<Rightarrow> lit ''Idle'' | Working \<Rightarrow> lit ''Working'' | AwaitingInput \<Rightarrow> lit ''AwaitingInput'' | Crashed \<Rightarrow> lit ''Crashed'')"

fun spaced :: "rstr list \<Rightarrow> rstr" where
  "spaced [] = []"
| "spaced [x] = x"
| "spaced (x # xs) = x @ [32] @ spaced xs"

definition session_line :: "cli_env \<Rightarrow> session_summary \<Rightarrow> rstr" where
  "session_line env s = sid_text env (ss_id s) @ [9] @ ss_name s @ [9] @ state_debug (ss_state s) @ [9] @
     spaced (ss_command s)"

definition print_sessions :: "'w cli_net \<Rightarrow> cli_env \<Rightarrow> session_summary list \<Rightarrow> ('w, unit) task" where
  "print_sessions net env sessions =
     (if sessions = [] then println net (lit ''No sessions.'') else print_all net (map (session_line env) sessions))"

definition cli_list_sessions :: "'w cli_net \<Rightarrow> cli_env \<Rightarrow> ('w, unit) task" where
  "cli_list_sessions net env = bind_task (fetch_sessions net env) (print_sessions net env)"

text \<open>
  A text that is an id is looked up as one only; any other is a name, or else the beginning of an
  id, of the first session that has it.
\<close>

definition find_session :: "cli_env \<Rightarrow> rstr \<Rightarrow> session_summary list \<Rightarrow> session_summary option" where
  "find_session env value sessions = (case ce_parse_uuid env value of
     Inr uuid \<Rightarrow> List.find (\<lambda>s. ss_id s = SessionId uuid) sessions
   | Inl _ \<Rightarrow> (case List.find (\<lambda>s. ss_name s = value) sessions of
       Some s \<Rightarrow> Some s
     | None \<Rightarrow> List.find (\<lambda>s. starts_with (sid_text env (ss_id s)) value) sessions))"

definition resolve_session :: "'w cli_net \<Rightarrow> cli_env \<Rightarrow> nat \<Rightarrow> rstr \<Rightarrow> ('w, session_summary) task" where
  "resolve_session net env conn value =
     bind_task (request net conn ListSessions ''unexpected daemon response: '' list_reply) (\<lambda>sessions.
     case find_session env value sessions of
       Some s \<Rightarrow> finish s | None \<Rightarrow> bail (lit ''session not found: '' @ value))"

definition create_session_summary ::
    "'w cli_net \<Rightarrow> cli_env \<Rightarrow> rstr \<Rightarrow> rstr option \<Rightarrow> rstr list \<Rightarrow> ('w, session_summary) task" where
  "create_session_summary net env dir name command =
     (let command = (if command = [] then cli_default_session_command (ce_shell env) else command) in
      case ce_canonicalize env dir of
        Inl e \<Rightarrow> stop (Failed (Because (lit ''canonicalize '' @ dir) (Bail e)))
      | Inr cwd \<Rightarrow>
          bind_task (terminal_size net) (\<lambda>sz.
          bind_task (connect_local net env) (\<lambda>(conn, _).
          bind_task (pure_result (requested_session_name name)) (\<lambda>name.
          request net conn (CreateSession name command cwd (\<lambda>_. None) sz) ''unexpected daemon response: ''
            (\<lambda>reply. case reply of SessionCreated _ summary \<Rightarrow> Some summary | _ \<Rightarrow> None)))))"

definition cli_create_session :: "'w cli_net \<Rightarrow> cli_env \<Rightarrow> rstr \<Rightarrow> rstr option \<Rightarrow> rstr list \<Rightarrow> ('w, unit) task" where
  "cli_create_session net env dir name command =
     bind_task (create_session_summary net env dir name command) (\<lambda>summary.
     println net (lit ''created '' @ sid_text env (ss_id summary) @ [9] @ ss_name summary))"

definition kill_session_by_id :: "'w cli_net \<Rightarrow> cli_env \<Rightarrow> nat \<Rightarrow> session_id \<Rightarrow> ('w, unit) task" where
  "kill_session_by_id net env conn sid =
     bind_task (request net conn (KillSession sid) ''unexpected daemon response to KillSession: ''
       (\<lambda>reply. case reply of SessionKilled got \<Rightarrow> Some got | _ \<Rightarrow> None)) (\<lambda>got.
     if got = sid then finish ()
     else bail (lit ''KillSession acknowledgement id mismatch: requested '' @ sid_text env sid @ lit '', got '' @ sid_text env got))"

definition removed_line :: "cli_env \<Rightarrow> session_summary \<Rightarrow> rstr" where
  "removed_line env s = lit ''removed '' @ sid_text env (ss_id s) @ [9] @ ss_name s"

definition cli_kill_session :: "'w cli_net \<Rightarrow> cli_env \<Rightarrow> rstr \<Rightarrow> ('w, unit) task" where
  "cli_kill_session net env session_ref =
     bind_task (connect_local net env) (\<lambda>(conn, _).
     bind_task (resolve_session net env conn session_ref) (\<lambda>session.
     bind_task (kill_session_by_id net env conn (ss_id session)) (\<lambda>_.
     println net (removed_line env session))))"

fun kill_each :: "'w cli_net \<Rightarrow> cli_env \<Rightarrow> nat \<Rightarrow> session_summary list \<Rightarrow> ('w, unit) task" where
  "kill_each net env conn [] = finish ()"
| "kill_each net env conn (s # sessions) =
     bind_task (kill_session_by_id net env conn (ss_id s)) (\<lambda>_. kill_each net env conn sessions)"

definition kill_all_sessions :: "'w cli_net \<Rightarrow> cli_env \<Rightarrow> ('w, unit) task" where
  "kill_all_sessions net env =
     bind_task (fetch_sessions net env) (\<lambda>sessions.
     if sessions = [] then println net (lit ''No sessions.'')
     else bind_task (connect_local net env) (\<lambda>(conn, _).
       bind_task (kill_each net env conn sessions) (\<lambda>_.
       bind_task (print_all net (map (removed_line env) sessions)) (\<lambda>_.
       println net (lit ''removed '' @ dec (length sessions) @ lit '' session'' @
         (if length sessions = 1 then [] else lit ''s''))))))"

section \<open>Attaching\<close>

definition attach_result :: "'w cli_net \<Rightarrow> attach_outcome \<Rightarrow> ('w, unit) task" where
  "attach_result net outcome = (case outcome of
     Detached \<Rightarrow> finish ()
   | ExitedWith exit_code \<Rightarrow>
       bind_task (eprintln net (lit ''[shelly: session exited '' @
         (if exit_code < 0 then lit ''-'' else []) @ dec (nat \<bar>exit_code\<bar>) @ lit '']'')) (\<lambda>_.
       if exit_code = 0 then finish () else stop (Exits exit_code))
   | DaemonErrorText message \<Rightarrow> bail (lit ''terminal session error: '' @ message)
   | ConnectionLost message \<Rightarrow> bail (lit ''terminal connection closed: '' @ message))"

text \<open>The terminal is in raw mode, and in the alternate screen with a status bar, while attached.\<close>

definition attached_terminal ::
    "'w cli_net \<Rightarrow> nat \<Rightarrow> session_summary \<Rightarrow> bool \<Rightarrow> client_size \<Rightarrow> 8 word \<Rightarrow> ('w, attach_outcome) task" where
  "attached_terminal net conn session status_bar initial_size detach_byte =
     dropping (restore_raw_mode net) (bind_task (enter_raw_mode net) (\<lambda>_.
     dropping (restore_alt_screen net) (bind_task
       (if status_bar then enter_screen net ''enter attached terminal screen'' else finish ()) (\<lambda>_.
     bind_task (call (cw_attach net conn session initial_size detach_byte)) (\<lambda>r d. case r of
       AttachSignal signal \<Rightarrow> Some (restore_for_exit net d, Inl (Raised signal))
     | AttachEnded (Inl e) \<Rightarrow> Some (d, Inl (Failed (Bail e)))
     | AttachEnded (Inr outcome) \<Rightarrow> Some (d, Inr outcome))))))"

definition attach_session :: "'w cli_net \<Rightarrow> cli_env \<Rightarrow> rstr \<Rightarrow> ('w, unit) task" where
  "attach_session net env session_ref =
     bind_task (connect_local net env) (\<lambda>(conn, _).
     bind_task (resolve_session net env conn session_ref) (\<lambda>session.
     bind_task (terminal_size net) (\<lambda>physical_size.
     let status_bar = terminal_cursor_control_enabled (ce_stdout_tty env) (ce_term env) \<and>
           status_bar_supported physical_size;
         initial_size = (if status_bar then content_size physical_size else physical_size) in
     bind_task (attempt_with (\<lambda>e. e) (cw_detach_prefix net)) (\<lambda>detach_byte.
     bind_task (attempt_with (\<lambda>e. e) (cw_attach_setup net)) (\<lambda>_.
     bind_task (attempt_with (\<lambda>e. Because (lit ''register terminal signals'') (Bail e)) (cw_signals net)) (\<lambda>_.
     bind_task (attached_terminal net conn session status_bar initial_size detach_byte) (attach_result net)))))))"

definition started_line :: "cli_env \<Rightarrow> session_summary \<Rightarrow> rstr" where
  "started_line env s = lit ''shelly session started '' @ sid_text env (ss_id s) @ [9] @ ss_name s"

definition run_default :: "'w cli_net \<Rightarrow> cli_env \<Rightarrow> ('w, unit) task" where
  "run_default net env =
     bind_task (create_session_summary net env (lit ''.'') None []) (\<lambda>summary.
     bind_task (eprintln net (started_line env summary)) (\<lambda>_.
     attach_session net env (sid_text env (ss_id summary))))"

definition open_named_session :: "'w cli_net \<Rightarrow> cli_env \<Rightarrow> os_string list \<Rightarrow> ('w, unit) task" where
  "open_named_session net env args =
     bind_task (pure_result (parse_named_shortcut_args args (ce_bin_name env))) (\<lambda>name.
     bind_task (fetch_sessions net env) (\<lambda>sessions.
     case List.find (\<lambda>s. ss_name s = name) sessions of
       Some session \<Rightarrow> attach_session net env (sid_text env (ss_id session))
     | None \<Rightarrow>
         bind_task (create_session_summary net env (lit ''.'') (Some name) []) (\<lambda>summary.
         bind_task (eprintln net (started_line env summary)) (\<lambda>_.
         attach_session net env (sid_text env (ss_id summary))))))"

section \<open>Devices\<close>

definition device_reply :: "server_msg \<Rightarrow> device_summary list option" where
  "device_reply reply = (case reply of DeviceList devices \<Rightarrow> Some devices | _ \<Rightarrow> None)"

definition cli_remove_device :: "'w cli_net \<Rightarrow> cli_env \<Rightarrow> rstr \<Rightarrow> ('w, unit) task" where
  "cli_remove_device net env name =
     bind_task (connect_local net env) (\<lambda>(conn, _).
     bind_task (request net conn (RemoveDevice name) ''unexpected daemon response: '' device_reply) (\<lambda>_.
     println net (lit ''removed device: '' @ name)))"

definition device_line :: "device_summary \<Rightarrow> rstr" where
  "device_line device = ds_name device @ [9] @ short_node_id (ds_device_node_id device) @ [9] @
     lit ''paired_at='' @ dec (ds_paired_at device)"

definition list_devices :: "'w cli_net \<Rightarrow> cli_env \<Rightarrow> ('w, unit) task" where
  "list_devices net env =
     bind_task (connect_local net env) (\<lambda>(conn, _).
     bind_task (request net conn ListDevices ''unexpected daemon response: '' device_reply) (\<lambda>devices.
     if devices = [] then println net (lit ''no paired devices'') else print_all net (map device_line devices)))"

section \<open>Hooks\<close>

definition emit_agent_state_event ::
    "'w cli_net \<Rightarrow> nat \<Rightarrow> session_id \<Rightarrow> agent_source \<Rightarrow> agent_state \<Rightarrow> rstr option \<Rightarrow> ('w, unit) task" where
  "emit_agent_state_event net conn session_id src state last_line =
     request net conn (AgentStateEvent session_id src state last_line) ''unexpected daemon response: ''
       (\<lambda>reply. case reply of
          AgentStateChanged applied_session applied_state _ \<Rightarrow>
            if applied_session = session_id \<and> applied_state = state then Some () else None
        | _ \<Rightarrow> None)"

definition hook_session_id :: "cli_env \<Rightarrow> rstr option \<Rightarrow> cli_error + session_id" where
  "hook_session_id env session = (case (case session of Some v \<Rightarrow> Some v | None \<Rightarrow> ce_session_id env) of
     None \<Rightarrow> Inl (Bail (lit ''hook requires --session or SHELLY_SESSION_ID''))
   | Some value \<Rightarrow> (case ce_parse_uuid env value of
       Inl e \<Rightarrow> Inl (Because (lit ''parse session id '' @ value) (Bail e))
     | Inr uuid \<Rightarrow> Inr (SessionId uuid)))"

datatype hook_command = ClaudeStop "rstr option" "rstr option" | CodexEventHook "rstr option"

fun emit_each :: "'w cli_net \<Rightarrow> nat \<Rightarrow> session_id \<Rightarrow> agent_state list \<Rightarrow> ('w, unit) task" where
  "emit_each net conn session_id [] = finish ()"
| "emit_each net conn session_id (state # states) =
     bind_task (emit_agent_state_event net conn session_id SrcCodex state None) (\<lambda>_.
     emit_each net conn session_id states)"

definition run_hook :: "'w cli_net \<Rightarrow> cli_env \<Rightarrow> hook_command \<Rightarrow> ('w, unit) task" where
  "run_hook net env command = (case command of
     ClaudeStop session last_line \<Rightarrow> (case hook_session_id env session of
       Inl e \<Rightarrow> stop (Failed e)
     | Inr session_id \<Rightarrow> bind_task (connect_local net env) (\<lambda>(conn, _).
         emit_agent_state_event net conn session_id SrcClaude AwaitingInput last_line))
   | CodexEventHook session \<Rightarrow> (case hook_session_id env session of
       Inl e \<Rightarrow> stop (Failed e)
     | Inr session_id \<Rightarrow>
         bind_task (attempt_with (\<lambda>e. Because (lit ''read Codex event JSON from stdin'') (Bail e)) (cw_stdin net)) (\<lambda>payload.
         case codex_states_from_payload (ce_json env) payload of
           None \<Rightarrow> bail (lit ''unsupported Codex event payload: '' @ payload)
         | Some states \<Rightarrow> bind_task (connect_local net env) (\<lambda>(conn, _).
             emit_each net conn session_id states))))"

end
