(* ===== verification/CliPair.thy ===== *)
theory CliPair
  imports Cli
begin

text \<open>
  \<open>shelly pair\<close> of \<open>crates/cli/src/main.rs\<close>: the screen with the code, the wait for a device, and
  the operator's answer; and the commands that manage the daemon.
\<close>

section \<open>The question\<close>

text \<open>The key is read in raw mode when the input is a terminal; the mode ends with the question.\<close>

definition read_answer :: "'w cli_net \<Rightarrow> cli_env \<Rightarrow> ('w, bool) task" where
  "read_answer net env =
     dropping (restore_raw_mode net) (bind_task
       (if ce_stdin_tty env then enter_raw_mode net else finish ()) (\<lambda>_.
     bind_task (attempt_with (\<lambda>e. e) (cw_key net)) (\<lambda>key.
     bind_task (if ce_stdin_tty env then println net [] else finish ()) (\<lambda>_.
     finish (key = Some 121 \<or> key = Some 89)))))"

definition confirm_pairing_sas :: "'w cli_net \<Rightarrow> cli_env \<Rightarrow> rstr \<Rightarrow> rstr \<Rightarrow> ('w, bool) task" where
  "confirm_pairing_sas net env device_name sas =
     bind_task (print_all net [[], lit ''Pairing request from '' @ device_name,
       lit ''Compare this security fingerprint with the phone:'', [], lit ''    '' @ sas, []]) (\<lambda>_.
     bind_task (print_raw net (lit ''Press Y to approve; any other key denies: '')) (\<lambda>_.
     bind_task (flush_out net ''flush pairing approval prompt'') (\<lambda>_.
     read_answer net env)))"

section \<open>The ceremony\<close>

text \<open>What does not change while the code is shown, and what does.\<close>

record ceremony =
  ceremony_ticket :: pairing_ticket
  ceremony_qr :: "nat \<times> rstr"
  ceremony_live :: bool
  ceremony_ansi :: bool

record ceremony_view =
  cv_size :: client_size
  cv_status_row :: nat
  cv_frame :: nat

definition expired_message :: rstr where
  "expired_message = lit ''pairing code expired. Run `shelly pair` again.''"

definition draw_live :: "'w cli_net \<Rightarrow> cli_env \<Rightarrow> ceremony \<Rightarrow> client_size \<Rightarrow> nat \<Rightarrow> ('w, nat) task" where
  "draw_live net env c sz remaining =
     (case draw_pairing_ceremony (pt_code (ceremony_ticket c)) (fst (ceremony_qr c)) (snd (ceremony_qr c)) sz
        (ce_color_depth env) remaining of (drawing, status_row) \<Rightarrow>
      bind_task (print_raw net drawing) (\<lambda>_.
      bind_task (flush_out net ''draw pairing screen'') (\<lambda>_.
      finish status_row)))"

text \<open>The three arms of a tick: the code has expired on a live screen, a live screen, plain text.\<close>

definition code_expired :: "'w cli_net \<Rightarrow> ('w, 'a) task" where
  "code_expired net d = bind_task (println net (style_ansi [10007] True ANSI_RED @ lit '' Code expired'')) (\<lambda>_.
     bind_task (println net (lit ''  '' @ style_dim (lit ''shelly pair '' @ [8212] @ lit '' open a new window'') True)) (\<lambda>_.
     stop (Exits 1))) (restore_alt_screen net d)"

definition tick_live :: "'w cli_net \<Rightarrow> cli_env \<Rightarrow> ceremony \<Rightarrow> ceremony_view \<Rightarrow> nat \<Rightarrow> ('w, ceremony_view) task" where
  "tick_live net env c view remaining =
     bind_task (terminal_size net) (\<lambda>sz.
     bind_task (if sz \<noteq> cv_size view then draw_live net env c sz remaining else finish (cv_status_row view)) (\<lambda>status_row.
     let frame = (cv_frame view + 1) mod 2 ^ 64 in
     bind_task (print_raw net (redraw_pairing_status status_row frame remaining (ce_color_depth env) sz)) (\<lambda>_.
     bind_task (flush_out net ''redraw pairing status'') (\<lambda>_.
     finish \<lparr>cv_size = sz, cv_status_row = status_row, cv_frame = frame\<rparr>))))"

definition tick_plain :: "'w cli_net \<Rightarrow> ceremony \<Rightarrow> ceremony_view \<Rightarrow> ('w, ceremony_view) task" where
  "tick_plain net c view =
     bind_task (call (cw_clock_ms net)) (\<lambda>now.
     case print_pairing_countdown now (pt_expires_at (ceremony_ticket c)) (ceremony_ansi c) False of (active, line) \<Rightarrow>
     bind_task (case line of Some l \<Rightarrow> println net l | None \<Rightarrow> finish ()) (\<lambda>_.
     if active then finish view else bail expired_message))"

definition countdown_tick :: "'w cli_net \<Rightarrow> cli_env \<Rightarrow> ceremony \<Rightarrow> ceremony_view \<Rightarrow> ('w, ceremony_view) task" where
  "countdown_tick net env c view =
     bind_task (call (cw_clock_ms net)) (\<lambda>now.
     let remaining = pairing_remaining_seconds now (pt_expires_at (ceremony_ticket c)) in
     if ceremony_live c then (if remaining = 0 then code_expired net else tick_live net env c view remaining)
     else tick_plain net c view)"

definition approve_request ::
    "'w cli_net \<Rightarrow> cli_env \<Rightarrow> ceremony \<Rightarrow> nat \<Rightarrow> client_id \<Rightarrow> rstr \<Rightarrow> rstr \<Rightarrow> ('w, unit) task" where
  "approve_request net env c conn request_id device_name sas =
     (let name = sanitize_device_name device_name in
     (\<lambda>d. bind_task (confirm_pairing_sas net env name sas) (\<lambda>approved.
     bind_task (cli_write_msg net conn (ApprovePairing request_id approved)) (\<lambda>_.
     if \<not> approved then bail (lit ''pairing denied; the device was not saved'')
     else if ceremony_ansi c then
       bind_task (println net (style_ansi [10003] True ANSI_GREEN @ lit '' Approved pairing for '' @ style_bold name True)) (\<lambda>_.
       println net (lit ''  '' @ style_dim (lit ''shelly devices '' @ [8212] @ lit '' list and manage paired devices'') True))
     else println net (lit ''Approved pairing for '' @ name @ lit ''.''))) (restore_alt_screen net d)))"

text \<open>What a message of the daemon leads to; other messages are passed over.\<close>

definition pair_message ::
    "'w cli_net \<Rightarrow> cli_env \<Rightarrow> ceremony \<Rightarrow> nat \<Rightarrow> (rstr, rstr) read_error + server_msg \<Rightarrow> ('w, unit) task option" where
  "pair_message net env c conn r = (case r of
     Inl e \<Rightarrow> Some (stop (Failed (read_failure_of e)))
   | Inr m \<Rightarrow> (case m of
       PairingApprovalRequested request_id device_name _ sas \<Rightarrow>
         Some (approve_request net env c conn request_id device_name sas)
     | Error _ message \<Rightarrow> Some (bail message)
     | _ \<Rightarrow> None))"

partial_function (option) pair_loop ::
    "'w cli_net \<Rightarrow> cli_env \<Rightarrow> ceremony \<Rightarrow> nat \<Rightarrow> ceremony_view \<Rightarrow> 'w cli_state \<Rightarrow> ('w cli_state \<times> (cli_stop + unit)) option" where
  "pair_loop net env c conn view d =
     (case cw_pair_event net conn (dk_world d) of (w, ev) \<Rightarrow>
        let d = d\<lparr>dk_world := w\<rparr> in
        (case ev of
           CtrlC \<Rightarrow> Some (restore_alt_screen net d, Inl (Exits 130))
         | SignalRaised signal \<Rightarrow> Some (restore_for_exit net (restore_alt_screen net d), Inl (Raised signal))
         | Tick \<Rightarrow> (case countdown_tick net env c view d of
             None \<Rightarrow> None
           | Some (d, Inl e) \<Rightarrow> Some (d, Inl e)
           | Some (d, Inr view) \<Rightarrow> pair_loop net env c conn view d)
         | Message r \<Rightarrow> (case pair_message net env c conn r of
             Some task \<Rightarrow> task d
           | None \<Rightarrow> pair_loop net env c conn view d)))"

definition pair_device :: "'w cli_net \<Rightarrow> cli_env \<Rightarrow> ('w, unit) task" where
  "pair_device net env =
     bind_task (connect_local net env) (\<lambda>(conn, _).
     bind_task (request net conn (BeginPairing None) ''unexpected daemon response: ''
       (\<lambda>reply. case reply of PairingStarted ticket \<Rightarrow> Some ticket | _ \<Rightarrow> None)) (\<lambda>ticket.
     case ce_encode_ticket env ticket of
       Inl e \<Rightarrow> stop (Failed (Because (lit ''encode pairing ticket'') (Bail e)))
     | Inr encoded \<Rightarrow> (case ce_qr env encoded of
         Inl e \<Rightarrow> stop (Failed (Because (lit ''build pairing QR'') (Bail e)))
       | Inr qr \<Rightarrow>
         let use_ansi = (ce_color_depth env \<noteq> Plain);
             live = (use_ansi \<and> terminal_cursor_control_enabled (ce_stdout_tty env) (ce_term env));
             c = \<lparr>ceremony_ticket = ticket, ceremony_qr = qr, ceremony_live = live, ceremony_ansi = use_ansi\<rparr> in
         bind_task (attempt_with (\<lambda>e. Because (lit ''register terminal signals'') (Bail e)) (cw_signals net)) (\<lambda>_.
         bind_task (call (cw_clock_ms net)) (\<lambda>now.
         if pairing_remaining_seconds now (pt_expires_at ticket) = 0 then bail expired_message
         else
           bind_task (terminal_size net) (\<lambda>sz.
           dropping (restore_alt_screen net)
             (if live then
                bind_task (enter_screen net ''enter pairing screen'') (\<lambda>_.
                bind_task (call (cw_clock_ms net)) (\<lambda>now.
                bind_task (draw_live net env c sz (pairing_remaining_seconds now (pt_expires_at ticket))) (\<lambda>status_row.
                pair_loop net env c conn \<lparr>cv_size = sz, cv_status_row = status_row, cv_frame = 0\<rparr>)))
              else
                bind_task (print_all net (draw_pairing_screen_plain (pt_code ticket)
                  (render_pairing_qr_for_terminal (fst qr) (snd qr) sz (ce_color_depth env)) (fst qr)
                  (ce_color_depth env) use_ansi)) (\<lambda>_.
                bind_task (call (cw_clock_ms net)) (\<lambda>now.
                bind_task (case snd (print_pairing_countdown now (pt_expires_at ticket) use_ansi True) of
                  Some l \<Rightarrow> println net l | None \<Rightarrow> finish ()) (\<lambda>_.
                pair_loop net env c conn \<lparr>cv_size = sz, cv_status_row = 0, cv_frame = 0\<rparr>))))))))))"

section \<open>The daemon's commands\<close>

datatype daemon_command = DaemonInstall | DaemonUninstall | DaemonStatus | DaemonStart | DaemonRestart | DaemonLogs nat

definition daemon_status :: "'w cli_net \<Rightarrow> cli_env \<Rightarrow> ('w, unit) task" where
  "daemon_status net env =
     bind_task (call (service_status_of (cw_service net))) (\<lambda>status.
     bind_task (println net (case status of
         Inr status \<Rightarrow> lit ''service: '' @ format_status status
       | Inl error \<Rightarrow> lit ''service: unavailable ('' @ error_text (ce_debug env) error @ lit '')'')) (\<lambda>_ d.
     case connect_existing net env d of
       None \<Rightarrow> None
     | Some (d, Inr _) \<Rightarrow> println net (lit ''socket: reachable ('' @ ce_socket_path env @ lit '')'') d
     | Some (d, Inl (Failed error)) \<Rightarrow>
         println net (lit ''socket: not reachable ('' @ error_text (ce_debug env) error @ lit '')'') d
     | Some (d, Inl e) \<Rightarrow> Some (d, Inl e)))"

text \<open>\<open>with_context\<close> on a command; a failed health check takes the installed service away again.\<close>

definition in_words :: "char list \<Rightarrow> ('w, 'a) task \<Rightarrow> ('w, 'a) task" where
  "in_words context m d = (case m d of
     Some (d, Inl (Failed error)) \<Rightarrow> Some (d, Inl (Failed (Because (lit context) error)))
   | r \<Rightarrow> r)"

definition uninstall_on_failure :: "'w cli_net \<Rightarrow> ('w, 'a) task \<Rightarrow> ('w, 'a) task" where
  "uninstall_on_failure net m d = (case m d of
     Some (d, Inl (Failed error)) \<Rightarrow>
       Some (d\<lparr>dk_world := fst (service_uninstall (cw_service net) (dk_world d))\<rparr>, Inl (Failed error))
   | r \<Rightarrow> r)"

definition service_call :: "('w \<Rightarrow> 'w \<times> (cli_error + unit)) \<Rightarrow> ('w, unit) task" where
  "service_call f = attempt_with (\<lambda>e. e) f"

text \<open>\<open>log_tail\<close> is \<open>print_daemon_logs\<close>, whose lines come from a file.\<close>

definition log_tail :: "rstr \<Rightarrow> nat \<Rightarrow> rstr list" where
  "log_tail contents tail = (let ls = str_lines contents in drop (length ls - tail) ls)"

definition run_daemon_command ::
    "'w cli_net \<Rightarrow> cli_env \<Rightarrow> (cli_error + rstr) \<Rightarrow> daemon_command option \<Rightarrow> ('w, unit) task" where
  "run_daemon_command net env log command = (case (case command of Some c \<Rightarrow> c | None \<Rightarrow> DaemonStatus) of
     DaemonInstall \<Rightarrow>
       bind_task (eprintln net (daemon_starting (sf_macos (ce_files env)))) (\<lambda>_.
       bind_task (service_call (service_install (cw_service net) (ce_files env))) (\<lambda>_.
       bind_task (in_words ''started shellyd user service but health check failed''
         (uninstall_on_failure net (wait_for_existing_daemon net env))) (\<lambda>_.
       println net (lit ''installed and started shellyd user service''))))
   | DaemonUninstall \<Rightarrow>
       bind_task (service_call (service_uninstall (cw_service net))) (\<lambda>_.
       println net (lit ''uninstalled shellyd user service''))
   | DaemonStatus \<Rightarrow> daemon_status net env
   | DaemonStart \<Rightarrow>
       bind_task (connect_local net env) (\<lambda>_.
       println net (lit ''shellyd is running at '' @ ce_socket_path env))
   | DaemonRestart \<Rightarrow>
       bind_task (eprintln net (daemon_starting (sf_macos (ce_files env)))) (\<lambda>_.
       bind_task (service_call (service_restart (cw_service net) (ce_files env))) (\<lambda>_.
       bind_task (in_words ''restarted shellyd user service but health check failed'' (wait_for_existing_daemon net env)) (\<lambda>_.
       println net (lit ''restarted shellyd user service''))))
   | DaemonLogs tail \<Rightarrow> (case log of
       Inl e \<Rightarrow> stop (Failed e)
     | Inr contents \<Rightarrow> print_all net (log_tail contents tail)))"

end
