(* ===== verification/CliStart.thy ===== *)
theory CliStart
  imports CliPair
begin

text \<open>
  Waiting for the daemon.  \<open>steady\<close> is a world whose clock does not go back, whose readings lie
  between the times before and after them, and which sleeps at least as long as it is told.
\<close>

section \<open>Commands that only call the outside\<close>

lemma bind_task_some: "m d = Some (d', Inr a) \<Longrightarrow> bind_task m f d = f a d'"
  by (simp add: bind_task_def)

lemma attempt_with_some: "\<exists>d' r. attempt_with err f d = Some (d', r)"
  by (auto simp: attempt_with_def bind_task_def call_def stop_def finish_def split: prod.split sum.split)

text \<open>\<open>only_calls\<close>: the command returns, and a measure of the world does not shrink.\<close>

definition only_calls :: "('w \<Rightarrow> nat) \<Rightarrow> ('w, 'a) task \<Rightarrow> bool" where
  "only_calls time m \<longleftrightarrow> (\<forall>d. \<exists>d' r. m d = Some (d', r) \<and> time (dk_world d) \<le> time (dk_world d') \<and>
     (case r of Inl (Failed _) \<Rightarrow> True | Inl _ \<Rightarrow> False | Inr _ \<Rightarrow> True))"

lemma only_calls_bind:
  assumes m: "only_calls time m" and f: "\<And>a. only_calls time (f a)"
  shows "only_calls time (bind_task m f)"
  unfolding only_calls_def
proof
  fix d
  obtain d1 r1 where 1: "m d = Some (d1, r1)" "time (dk_world d) \<le> time (dk_world d1)"
      "case r1 of Inl (Failed _) \<Rightarrow> True | Inl _ \<Rightarrow> False | Inr _ \<Rightarrow> True"
    using m unfolding only_calls_def by blast
  show "\<exists>d' r. bind_task m f d = Some (d', r) \<and> time (dk_world d) \<le> time (dk_world d') \<and>
      (case r of Inl (Failed _) \<Rightarrow> True | Inl _ \<Rightarrow> False | Inr _ \<Rightarrow> True)"
  proof (cases r1)
    case (Inl e)
    then show ?thesis using 1 by (auto simp: bind_task_def)
  next
    case (Inr a)
    obtain d2 r2 where "f a d1 = Some (d2, r2)" "time (dk_world d1) \<le> time (dk_world d2)"
        "case r2 of Inl (Failed _) \<Rightarrow> True | Inl _ \<Rightarrow> False | Inr _ \<Rightarrow> True"
      using f [of a] unfolding only_calls_def by blast
    then show ?thesis using 1 Inr by (auto simp: bind_task_def)
  qed
qed

lemma only_calls_finish: "only_calls time (finish a)"
  by (simp add: only_calls_def finish_def)

lemma only_calls_fail: "only_calls time (stop (Failed e))"
  by (simp add: only_calls_def stop_def)

lemma only_calls_call: "(\<And>w. time w \<le> time (fst (f w))) \<Longrightarrow> only_calls time (call f)"
  by (auto simp: only_calls_def call_def split: prod.split) (metis fst_conv)

lemmas only_calls_intros = only_calls_bind only_calls_finish only_calls_fail only_calls_call

lemma only_calls_attempt:
  "(\<And>w. time w \<le> time (fst (f w))) \<Longrightarrow> only_calls time (attempt_with err f)"
  unfolding attempt_with_def
  by (intro only_calls_bind only_calls_call) (auto split: sum.split intro: only_calls_intros)

section \<open>Waiting\<close>

locale steady =
  fixes net :: "'w cli_net" and time :: "'w \<Rightarrow> nat"
  assumes connect_time: "time w \<le> time (fst (cw_connect net w))"
    and write_time: "time w \<le> time (fst (cw_write net conn m w))"
    and flush_time: "time w \<le> time (fst (cw_flush net conn w))"
    and read_time: "time w \<le> time (fst (cw_read net conn w))"
    and try_wait_time: "time w \<le> time (fst (cw_try_wait net w))"
    and eprint_time: "time w \<le> time (cw_eprint net s w)"
    and status_time: "time w \<le> time (fst (sm_status (cw_service net) w))"
    and instant_time: "cw_instant net w = (w', now) \<Longrightarrow> time w \<le> now \<and> now \<le> time w'"
    and sleep_time: "time w + n \<le> time (cw_sleep net n w)"
begin

lemma request_calls: "only_calls time (request net conn m place expect)"
  unfolding request_def cli_write_msg_def cli_read_msg_def
  by (intro only_calls_bind only_calls_call only_calls_attempt write_time read_time)
    (auto simp: bail_def split: option.split server_msg.split
      intro!: only_calls_intros flush_time)

lemma handshake_calls: "only_calls time (handshake net env conn)"
  unfolding handshake_def by (rule request_calls)

lemma connect_existing_calls: "only_calls time (connect_existing net env)"
  unfolding connect_existing_def connect_once_def
  by (intro only_calls_bind only_calls_attempt connect_time handshake_calls)

lemma wait_tick_time:
  assumes "wait_tick net env now wait w = (w', wait', over)"
  shows "time w \<le> time w' \<and> sw_deadline wait' = sw_deadline wait \<and> (over \<longleftrightarrow> timed_out_at wait now) \<and>
    (\<not> over \<longrightarrow> time w + DAEMON_POLL_INTERVAL \<le> time w')"
proof -
  obtain due w1 where due: "take_progress_due_at now wait = (due, w1)" by fastforce
  have deadline: "sw_deadline w1 = sw_deadline wait"
    using due by (auto simp: take_progress_due_at_def split: option.splits if_splits)
  define u where "u = (if due then cw_eprint net (daemon_still_starting (sf_macos (ce_files env)) @ [10]) w else w)"
  have "time w \<le> time u" using eprint_time by (simp add: u_def)
  then show ?thesis
    using assms due deadline order_trans [OF _ sleep_time [of u DAEMON_POLL_INTERVAL]]
    by (auto simp: wait_tick_def Let_def u_def [symmetric] timed_out_at_def split: if_splits intro: add_le_mono1)
qed

lemma wait_loop_ends:
  "sw_deadline wait = Some deadline \<Longrightarrow> \<exists>w' r. wait_for_daemon_loop net env wait w = Some (w', r)"
proof (induction "deadline - time w" arbitrary: w wait rule: less_induct)
  case less
  obtain w1 r1 where 1: "cw_connect net w = (w1, r1)" by fastforce
  obtain w2 r2 where 2: "cw_try_wait net w1 = (w2, r2)" by fastforce
  obtain w3 now where 3: "cw_instant net w2 = (w3, now)" by fastforce
  obtain w4 wait4 over where 4: "wait_tick net env now wait w3 = (w4, wait4, over)" by (metis prod_cases3)
  have "time w \<le> time w1" "time w1 \<le> time w2" using connect_time [of w] try_wait_time [of w1] 1 2 by auto
  with instant_time [OF 3] have now: "time w \<le> now" "now \<le> time w3" by simp_all
  note tick = wait_tick_time [OF 4]
  have "\<exists>w' r. wait_for_daemon_loop net env wait4 w4 = Some (w', r)" if "\<not> over"
  proof (rule less.hyps)
    show "sw_deadline wait4 = Some deadline" using tick less.prems by simp
    have "now < deadline" using tick less.prems that by (simp add: timed_out_at_def)
    moreover have "time w3 < time w4" using tick that by (simp add: DAEMON_POLL_INTERVAL_def)
    ultimately show "deadline - time w4 < deadline - time w" using now by linarith
  qed
  then show ?case
    using 1 2 3 4 by (subst wait_for_daemon_loop.simps) (auto split: sum.split option.split)
qed

lemma wait_existing_loop_ends:
  "sw_deadline wait = Some deadline \<Longrightarrow> \<exists>d' r. wait_for_existing_loop net env wait st d = Some (d', r)"
proof (induction "deadline - time (dk_world d)" arbitrary: d wait st rule: less_induct)
  case less
  obtain d1 r1 where 1: "connect_existing net env d = Some (d1, r1)"
      "time (dk_world d) \<le> time (dk_world d1)" "case r1 of Inl (Failed _) \<Rightarrow> True | Inl _ \<Rightarrow> False | Inr _ \<Rightarrow> True"
    using connect_existing_calls [of env] unfolding only_calls_def by blast
  obtain w2 now where 2: "cw_instant net (dk_world d1) = (w2, now)" by fastforce
  obtain w3 st3 e3 where 3: "check_service net now st w2 = (w3, st3, e3)" by (metis prod_cases3)
  obtain w4 wait4 over where 4: "wait_tick net env now wait w3 = (w4, wait4, over)" by (metis prod_cases3)
  have "time (dk_world d) \<le> now" "now \<le> time w2" using 1(2) instant_time [OF 2] by simp_all
  moreover have "time w2 \<le> time w3"
    using 3 status_time [of w2]
    by (auto simp: check_service_def service_status_of_def in_context_def split: if_splits prod.splits sum.splits)
  ultimately have now: "time (dk_world d) \<le> now" "now \<le> time w3" by simp_all
  note tick = wait_tick_time [OF 4]
  have "\<exists>d' r. wait_for_existing_loop net env wait4 st3 (d1\<lparr>dk_world := w4\<rparr>) = Some (d', r)" if "\<not> over"
  proof (rule less.hyps)
    show "sw_deadline wait4 = Some deadline" using tick less.prems by simp
    have "now < deadline" using tick less.prems that by (simp add: timed_out_at_def)
    moreover have "time w3 < time w4" using tick that by (simp add: DAEMON_POLL_INTERVAL_def)
    ultimately show "deadline - time (dk_world (d1\<lparr>dk_world := w4\<rparr>)) < deadline - time (dk_world d)"
      using now by simp
  qed
  then show ?case
    using 1 2 3 4 by (subst wait_for_existing_loop.simps)
      (auto split: sum.splits option.splits cli_stop.splits)
qed

end

text \<open>Without a deadline the loop goes on as long as the daemon neither listens nor ends.\<close>

lemma wait_loop_waits:
  assumes "\<And>w. \<exists>w' e. cw_connect net w = (w', Inl e)" and "\<And>w. \<exists>w'. cw_try_wait net w = (w', Inr None)"
  shows "sw_deadline wait = None \<Longrightarrow> wait_for_daemon_loop net env wait w = None"
proof -
  have "net' = net \<longrightarrow> sw_deadline wait' = None \<longrightarrow> False" if "wait_for_daemon_loop net' env' wait' w' = Some y'"
    for net' env' wait' w' y'
  proof (rule wait_for_daemon_loop.raw_induct [OF _ that])
    fix f net' env' wait' w' y'
    assume IH: "\<And>net' env' wait' w' y'. f net' env' wait' w' = Some y' \<Longrightarrow>
        net' = net \<longrightarrow> sw_deadline wait' = None \<longrightarrow> False"
      and body: "(case cw_connect net' w' of
        (w, Inl e) \<Rightarrow> (case cw_try_wait net' w of
          (w, Inl e') \<Rightarrow> Some (w, Inl (Because (lit ''check shellyd startup status'') (Bail e')))
        | (w, Inr None) \<Rightarrow> (case cw_instant net' w of (w, now) \<Rightarrow>
            (case wait_tick net' env' now wait' w of (w, wait, over) \<Rightarrow>
               if over then Some (w, Inl (start_failure ''shellyd is still starting after '' env'
                 (Because (lit ''connect to '' @ ce_socket_path env') e)))
               else f net' env' wait w))
        | (w, Inr (Some status)) \<Rightarrow>
            Some (w, Inl (Bail (lit ''shellyd exited before its control socket was ready ('' @ status @ lit '')''))))
      | (w, Inr conn) \<Rightarrow> Some (w, Inr conn)) = Some y'"
    show "net' = net \<longrightarrow> sw_deadline wait' = None \<longrightarrow> False"
    proof (intro impI)
      assume here: "net' = net" "sw_deadline wait' = None"
      obtain w1 e where 2: "cw_connect net w' = (w1, Inl e)" using assms(1) by blast
      obtain w2 where 3: "cw_try_wait net w1 = (w2, Inr None)" using assms(2) by blast
      obtain w3 now where 4: "cw_instant net w2 = (w3, now)" by fastforce
      obtain w4 wait4 over where 5: "wait_tick net env' now wait' w3 = (w4, wait4, over)" by (metis prod_cases3)
      have "sw_deadline wait4 = None \<and> \<not> over"
        using 5 here by (auto simp: wait_tick_def take_progress_due_at_def timed_out_at_def Let_def
            split: option.splits if_splits prod.splits)
      then have "f net env' wait4 w4 = Some y'" using body 2 3 4 5 here by simp
      then show False using IH here \<open>sw_deadline wait4 = None \<and> \<not> over\<close> by blast
    qed
  qed
  then show "sw_deadline wait = None \<Longrightarrow> wait_for_daemon_loop net env wait w = None"
    by (cases "wait_for_daemon_loop net env wait w") blast+
qed


end
