(* ===== verification/CliGuard.thy ===== *)
theory CliGuard
  imports CliStart
begin

text \<open>
  However a command of the desktop ends, its terminal is as it was: not in raw mode and not in
  the alternate screen.
\<close>

section \<open>What a command does to the flags\<close>

text \<open>\<open>flagged P m Q\<close>: from flags in \<open>P\<close> the command ends with flags and an outcome in \<open>Q\<close>.\<close>

type_synonym flags = "bool \<times> bool"

definition flags_of :: "'w cli_state \<Rightarrow> flags" where "flags_of d = (dk_raw_mode d, dk_alt_screen d)"

definition flagged :: "flags \<Rightarrow> ('w, 'a) task \<Rightarrow> (flags \<Rightarrow> cli_stop + 'a \<Rightarrow> bool) \<Rightarrow> bool" where
  "flagged fs m Q \<longleftrightarrow> (\<forall>d d' r. flags_of d = fs \<longrightarrow> m d = Some (d', r) \<longrightarrow> Q (flags_of d') r)"

text \<open>Ends with a value or an error, the flags unchanged.\<close>

definition unmoved :: "flags \<Rightarrow> flags \<Rightarrow> cli_stop + 'a \<Rightarrow> bool" where
  "unmoved fs fs' r \<longleftrightarrow> fs' = fs \<and> (case r of Inl (Failed _) \<Rightarrow> True | Inl _ \<Rightarrow> False | Inr _ \<Rightarrow> True)"

lemma unmovedE: "unmoved fs fs' r \<Longrightarrow> (fs' = fs \<Longrightarrow> P) \<Longrightarrow> P"
  by (simp add: unmoved_def)

definition calm :: "('w, 'a) task \<Rightarrow> bool" where
  "calm m \<longleftrightarrow> (\<forall>fs. flagged fs m (unmoved fs))"

lemma flagged_bind:
  assumes "flagged fs m Q" and "\<And>fs' a. Q fs' (Inr a) \<Longrightarrow> flagged fs' (f a) R"
    and "\<And>fs' e. Q fs' (Inl e) \<Longrightarrow> R fs' (Inl e)"
  shows "flagged fs (bind_task m f) R"
  unfolding flagged_def
proof (intro allI impI)
  fix d d' r assume d: "flags_of d = fs" "bind_task m f d = Some (d', r)"
  then obtain d1 r1 where 1: "m d = Some (d1, r1)" by (auto simp: bind_task_def split: option.splits)
  then have Q: "Q (flags_of d1) r1" using assms(1) d(1) by (auto simp: flagged_def)
  show "R (flags_of d') r"
  proof (cases r1)
    case (Inl e) then show ?thesis using 1 Q d(2) assms(3) [of "flags_of d1" e] by (auto simp: bind_task_def)
  next
    case (Inr a) then show ?thesis using 1 Q d(2) assms(2) [of "flags_of d1" a] by (auto simp: bind_task_def flagged_def)
  qed
qed

lemma flagged_weaken: "flagged fs m Q \<Longrightarrow> (\<And>fs' r. Q fs' r \<Longrightarrow> R fs' r) \<Longrightarrow> flagged fs m R"
  by (auto simp: flagged_def)

lemma calm_bind: "calm m \<Longrightarrow> (\<And>a. calm (f a)) \<Longrightarrow> calm (bind_task m f)"
  unfolding calm_def by (auto intro!: flagged_bind simp: unmoved_def)

lemma calm_finish: "calm (finish a)" and calm_fail: "calm (stop (Failed e))" and calm_bail: "calm (bail s)"
  by (auto simp: calm_def flagged_def unmoved_def finish_def stop_def bail_def)

lemma calm_call: "calm (call f)"
  by (auto simp: calm_def flagged_def unmoved_def call_def flags_of_def split: prod.splits)

lemma calm_attempt: "calm (attempt_with err f)"
  unfolding attempt_with_def by (intro calm_bind calm_call) (auto split: sum.split intro: calm_finish calm_fail)

lemma calm_print: "calm (print_raw net s)" "calm (println net s)" "calm (eprintln net s)"
  by (simp_all add: print_raw_def println_def eprintln_def calm_call)

lemma calm_print_all: "calm (print_all net ls)"
  by (induction ls) (auto intro: calm_finish calm_bind calm_print)

lemma calm_flush: "calm (flush_out net c)"
  unfolding flush_out_def by (intro calm_bind calm_call) (auto split: option.split intro: calm_finish calm_fail)

lemmas calm_intros = calm_bind calm_finish calm_fail calm_bail calm_call calm_attempt calm_print calm_print_all calm_flush

lemma calm_terminal_size: "calm (terminal_size net)"
  unfolding terminal_size_def by (intro calm_intros)

lemma calm_pure: "calm (pure_result r)"
  by (auto simp: pure_result_def split: sum.split intro: calm_intros)

lemma calm_write: "calm (cli_write_msg net conn m)"
  unfolding cli_write_msg_def by (intro calm_intros) (auto split: option.split intro!: calm_intros)

lemma calm_request: "calm (request net conn m place expect)"
  unfolding request_def cli_read_msg_def
  by (intro calm_bind calm_write calm_attempt) (auto split: option.split server_msg.split intro: calm_intros)

lemma calm_handshake: "calm (handshake net env conn)"
  unfolding handshake_def by (rule calm_request)

lemma calm_wait: "calm (wait_for_daemon net env)"
  by (auto simp: calm_def flagged_def unmoved_def wait_for_daemon_def flags_of_def
      split: prod.splits option.splits sum.splits)

lemma calm_spawn: "calm (spawn_daemon net env)"
  unfolding spawn_daemon_def by (auto split: sum.split intro: calm_intros)

lemma connect_local_bind:
  "connect_local net env = bind_task (call (cw_connect net)) (\<lambda>r. case r of
     Inr conn \<Rightarrow> handshake net env conn
   | Inl _ \<Rightarrow> bind_task (eprintln net (daemon_starting (sf_macos (ce_files env)))) (\<lambda>_.
       bind_task (spawn_daemon net env) (\<lambda>_. bind_task (wait_for_daemon net env) (handshake net env))))"
  by (rule ext) (auto simp: connect_local_def bind_task_def call_def split: prod.split sum.split)

lemma calm_connect_local: "calm (connect_local net env)"
  unfolding connect_local_bind
  by (intro calm_bind calm_call)
    (auto split: sum.split intro: calm_handshake calm_bind calm_print calm_spawn calm_wait)

lemma calm_resolve: "calm (resolve_session net env conn value)"
  unfolding resolve_session_def by (intro calm_bind calm_request) (auto split: option.split intro: calm_intros)

section \<open>Restored\<close>

abbreviation clean :: flags where "clean \<equiv> (False, False)"

definition restored :: "('w, 'a) task \<Rightarrow> bool" where
  "restored m \<longleftrightarrow> flagged clean m (\<lambda>fs r. fs = clean)"

lemma calm_restored: "calm m \<Longrightarrow> restored m"
  unfolding calm_def restored_def by (blast intro: flagged_weaken [of clean m "unmoved clean"] elim: unmovedE)

lemma restored_bind: "restored m \<Longrightarrow> (\<And>a. restored (f a)) \<Longrightarrow> restored (bind_task m f)"
  unfolding restored_def by (rule flagged_bind) auto

lemma restore_selectors [simp]:
  "\<not> dk_raw_mode (restore_raw_mode net d)" "dk_alt_screen (restore_raw_mode net d) = dk_alt_screen d"
  "dk_raw_mode (restore_alt_screen net d) = dk_raw_mode d" "\<not> dk_alt_screen (restore_alt_screen net d)"
  "\<not> dk_raw_mode (restore_for_exit net d)" "\<not> dk_alt_screen (restore_for_exit net d)"
  by (simp_all add: restore_for_exit_def restore_raw_mode_def restore_alt_screen_def)

lemma restore_flags:
  "flags_of (restore_raw_mode net d) = (False, dk_alt_screen d)"
  "flags_of (restore_alt_screen net d) = (dk_raw_mode d, False)"
  "flags_of (restore_for_exit net d) = clean"
  by (auto simp: flags_of_def restore_for_exit_def restore_raw_mode_def restore_alt_screen_def)

text \<open>Inside a guard a command may move its flag, but a process that ends there has restored it.\<close>

lemma restored_dropping_raw:
  assumes "flagged clean m (\<lambda>fs r. snd fs = False \<and> (case r of Inl (Failed _) \<Rightarrow> True | Inl _ \<Rightarrow> fs = clean | Inr _ \<Rightarrow> True))"
  shows "restored (dropping (restore_raw_mode net) m)"
  unfolding restored_def flagged_def
proof (intro allI impI)
  fix d d' r assume d: "flags_of d = clean" "dropping (restore_raw_mode net) m d = Some (d', r)"
  then obtain d1 where 1: "m d = Some (d1, r)" "d' = (case r of Inl (Failed _) \<Rightarrow> restore_raw_mode net d1
      | Inl _ \<Rightarrow> d1 | Inr _ \<Rightarrow> restore_raw_mode net d1)"
    by (auto simp: dropping_def split: option.splits sum.splits cli_stop.splits)
  have "snd (flags_of d1) = False \<and> (case r of Inl (Failed _) \<Rightarrow> True | Inl _ \<Rightarrow> flags_of d1 = clean | Inr _ \<Rightarrow> True)"
    using assms d(1) 1(1) unfolding flagged_def by blast
  then show "flags_of d' = clean"
    using 1(2) by (auto simp: restore_flags flags_of_def split: sum.splits cli_stop.splits)
qed

lemma restored_dropping_alt:
  assumes "flagged clean m (\<lambda>fs r. fst fs = False \<and> (case r of Inl (Failed _) \<Rightarrow> True | Inl _ \<Rightarrow> fs = clean | Inr _ \<Rightarrow> True))"
  shows "restored (dropping (restore_alt_screen net) m)"
  unfolding restored_def flagged_def
proof (intro allI impI)
  fix d d' r assume d: "flags_of d = clean" "dropping (restore_alt_screen net) m d = Some (d', r)"
  then obtain d1 where 1: "m d = Some (d1, r)" "d' = (case r of Inl (Failed _) \<Rightarrow> restore_alt_screen net d1
      | Inl _ \<Rightarrow> d1 | Inr _ \<Rightarrow> restore_alt_screen net d1)"
    by (auto simp: dropping_def split: option.splits sum.splits cli_stop.splits)
  have "fst (flags_of d1) = False \<and> (case r of Inl (Failed _) \<Rightarrow> True | Inl _ \<Rightarrow> flags_of d1 = clean | Inr _ \<Rightarrow> True)"
    using assms d(1) 1(1) unfolding flagged_def by blast
  then show "flags_of d' = clean"
    using 1(2) by (auto simp: restore_flags flags_of_def split: sum.splits cli_stop.splits)
qed

lemma flagged_dropping_alt:
  assumes "flagged fs m (\<lambda>fs r. case r of Inl (Failed _) \<Rightarrow> True | Inl _ \<Rightarrow> fs = clean | Inr _ \<Rightarrow> True)"
  shows "flagged fs (dropping (restore_alt_screen net) m)
    (\<lambda>fs r. snd fs = False \<and> (case r of Inl (Failed _) \<Rightarrow> True | Inl _ \<Rightarrow> fs = clean | Inr _ \<Rightarrow> True))"
  unfolding flagged_def
proof (intro allI impI)
  fix d d' r assume d: "flags_of d = fs" "dropping (restore_alt_screen net) m d = Some (d', r)"
  then obtain d1 where 1: "m d = Some (d1, r)" "d' = (case r of Inl (Failed _) \<Rightarrow> restore_alt_screen net d1
      | Inl _ \<Rightarrow> d1 | Inr _ \<Rightarrow> restore_alt_screen net d1)"
    by (auto simp: dropping_def split: option.splits sum.splits cli_stop.splits)
  have "case r of Inl (Failed _) \<Rightarrow> True | Inl _ \<Rightarrow> flags_of d1 = clean | Inr _ \<Rightarrow> True"
    using assms d(1) 1(1) unfolding flagged_def by blast
  then show "snd (flags_of d') = False \<and>
      (case r of Inl (Failed _) \<Rightarrow> True | Inl _ \<Rightarrow> flags_of d' = clean | Inr _ \<Rightarrow> True)"
    using 1(2) by (auto simp: flags_of_def split: sum.splits cli_stop.splits)
qed

section \<open>Attaching\<close>

lemma flagged_calm: "calm m \<Longrightarrow> flagged fs m (unmoved fs)"
  unfolding calm_def by blast

lemma flagged_enter_raw: "flagged (b, a) (enter_raw_mode net) (\<lambda>fs r. snd fs = a \<and>
    (case r of Inl (Failed _) \<Rightarrow> fs = (b, a) | Inl _ \<Rightarrow> False | Inr _ \<Rightarrow> fst fs))"
  unfolding enter_raw_mode_def
  by (rule flagged_bind [OF flagged_calm [OF calm_attempt]])
    (auto simp: unmoved_def flagged_def flags_of_def split: cli_stop.splits)

lemma flagged_enter_screen: "flagged (b, a) (enter_screen net c) (\<lambda>fs r. fst fs = b \<and>
    (case r of Inl (Failed _) \<Rightarrow> fs = (b, a) | Inl _ \<Rightarrow> False | Inr _ \<Rightarrow> snd fs))"
  unfolding enter_screen_def
  by (rule flagged_bind [OF flagged_calm [OF calm_print(1)]],
      rule flagged_bind [OF flagged_calm [OF calm_flush]])
    (auto simp: unmoved_def flagged_def flags_of_def split: cli_stop.splits)

lemma restored_stop: "restored (stop e)"
  by (simp add: restored_def flagged_def stop_def)

lemmas restored_intros = restored_bind restored_stop calm_restored [OF calm_finish] calm_restored [OF calm_bail]
  calm_restored [OF calm_print(2)] calm_restored [OF calm_print(3)]

lemma restored_attach_result: "restored (attach_result net outcome)"
  by (cases outcome) (auto simp: attach_result_def intro!: restored_intros)

lemma restored_attached_terminal: "restored (attached_terminal net conn session status_bar sz b)"
  unfolding attached_terminal_def
proof (rule restored_dropping_raw, rule flagged_bind [OF flagged_enter_raw])
  fix fs :: flags and u :: unit
  assume "snd fs = False \<and> (case Inr u of Inl (Failed _) \<Rightarrow> fs = clean | Inl _ \<Rightarrow> False | Inr _ \<Rightarrow> fst fs)"
  then have fs: "fs = (True, False)" by (cases fs) simp
  let ?attach = "bind_task (if status_bar then enter_screen net ''enter attached terminal screen'' else finish ()) (\<lambda>_.
     bind_task (call (cw_attach net conn session sz b)) (\<lambda>r d. case r of
       AttachSignal signal \<Rightarrow> Some (restore_for_exit net d, Inl (Raised signal))
     | AttachEnded (Inl e) \<Rightarrow> Some (d, Inl (Failed (Bail e)))
     | AttachEnded (Inr outcome) \<Rightarrow> Some (d, Inr outcome)))"
  have "flagged (True, False) ?attach (\<lambda>fs r. case r of Inl (Failed _) \<Rightarrow> True | Inl _ \<Rightarrow> fs = clean | Inr _ \<Rightarrow> True)"
  proof (rule flagged_bind [where Q = "\<lambda>fs r. case r of Inl (Failed _) \<Rightarrow> True | Inl _ \<Rightarrow> False | Inr _ \<Rightarrow> True"])
    show "flagged (True, False) (if status_bar then enter_screen net ''enter attached terminal screen'' else finish ())
        (\<lambda>fs r. case r of Inl (Failed _) \<Rightarrow> True | Inl _ \<Rightarrow> False | Inr _ \<Rightarrow> True)"
    proof (cases status_bar)
      case True
      have "flagged (True, False) (enter_screen net ''enter attached terminal screen'')
          (\<lambda>fs r. case r of Inl (Failed _) \<Rightarrow> True | Inl _ \<Rightarrow> False | Inr _ \<Rightarrow> True)"
        by (rule flagged_weaken [OF flagged_enter_screen]) (auto split: sum.splits cli_stop.splits)
      with True show ?thesis by simp
    qed (simp add: flagged_def finish_def)
    show "flagged fs' (bind_task (call (cw_attach net conn session sz b)) (\<lambda>r d. case r of
        AttachSignal signal \<Rightarrow> Some (restore_for_exit net d, Inl (Raised signal))
      | AttachEnded (Inl e) \<Rightarrow> Some (d, Inl (Failed (Bail e)))
      | AttachEnded (Inr outcome) \<Rightarrow> Some (d, Inr outcome)))
      (\<lambda>fs r. case r of Inl (Failed _) \<Rightarrow> True | Inl _ \<Rightarrow> fs = clean | Inr _ \<Rightarrow> True)" for fs'
      by (rule flagged_bind [OF flagged_calm [OF calm_call]])
        (auto simp: flagged_def unmoved_def restore_flags split: attach_end.splits sum.splits cli_stop.splits)
  qed (auto split: cli_stop.splits)
  then show "flagged fs (dropping (restore_alt_screen net) ?attach)
      (\<lambda>fs r. snd fs = False \<and> (case r of Inl (Failed _) \<Rightarrow> True | Inl _ \<Rightarrow> fs = clean | Inr _ \<Rightarrow> True))"
    unfolding fs by (rule flagged_dropping_alt)
qed (auto split: cli_stop.splits)

lemma restored_attach_session: "restored (attach_session net env session_ref)"
  unfolding attach_session_def Let_def
  by (intro restored_bind calm_restored [OF calm_connect_local] calm_restored [OF calm_resolve]
      calm_restored [OF calm_terminal_size] calm_restored [OF calm_attempt] restored_attached_terminal
      restored_attach_result)
    (auto split: prod.split intro!: restored_bind calm_restored [OF calm_connect_local] calm_restored [OF calm_resolve]
      calm_restored [OF calm_terminal_size] calm_restored [OF calm_attempt] restored_attached_terminal
      restored_attach_result)

section \<open>Pairing\<close>

lemma restored_read_answer: "restored (read_answer net env)"
  unfolding read_answer_def
proof (rule restored_dropping_raw, rule flagged_bind [where Q = "\<lambda>fs r. snd fs = False \<and>
      (case r of Inl (Failed _) \<Rightarrow> True | Inl _ \<Rightarrow> False | Inr _ \<Rightarrow> True)"])
    show "flagged clean (if ce_stdin_tty env then enter_raw_mode net else finish ())
        (\<lambda>fs r. snd fs = False \<and> (case r of Inl (Failed _) \<Rightarrow> True | Inl _ \<Rightarrow> False | Inr _ \<Rightarrow> True))"
    proof (cases "ce_stdin_tty env")
      case True
      have "flagged clean (enter_raw_mode net) (\<lambda>fs r. snd fs = False \<and>
          (case r of Inl (Failed _) \<Rightarrow> True | Inl _ \<Rightarrow> False | Inr _ \<Rightarrow> True))"
        by (rule flagged_weaken [OF flagged_enter_raw]) (auto split: sum.splits cli_stop.splits)
      with True show ?thesis by simp
    qed (simp add: flagged_def finish_def flags_of_def)
  next
    fix fs' :: flags and u :: unit
    assume "snd fs' = False \<and> (case Inr u of Inl (Failed _) \<Rightarrow> True | Inl _ \<Rightarrow> False | Inr _ \<Rightarrow> True)"
    then have "snd fs' = False" by simp
    have calm: "calm (bind_task (attempt_with (\<lambda>e. e) (cw_key net)) (\<lambda>key.
        bind_task (if ce_stdin_tty env then println net [] else finish ()) (\<lambda>_.
        finish (key = Some 121 \<or> key = Some 89))))"
      by (intro calm_intros) (auto intro: calm_intros)
    show "flagged fs' (bind_task (attempt_with (\<lambda>e. e) (cw_key net)) (\<lambda>key.
        bind_task (if ce_stdin_tty env then println net [] else finish ()) (\<lambda>_.
        finish (key = Some 121 \<or> key = Some 89)))) (\<lambda>fs r. snd fs = False \<and>
          (case r of Inl (Failed _) \<Rightarrow> True | Inl _ \<Rightarrow> fs = clean | Inr _ \<Rightarrow> True))"
      using \<open>snd fs' = False\<close> by (intro flagged_weaken [OF flagged_calm [OF calm]])
        (auto simp: unmoved_def split: sum.splits cli_stop.splits)
  qed (auto split: cli_stop.splits)

lemma restored_confirm: "restored (confirm_pairing_sas net env device_name sas)"
  unfolding confirm_pairing_sas_def
  by (intro restored_bind calm_restored [OF calm_print_all] calm_restored [OF calm_print(1)]
      calm_restored [OF calm_flush] restored_read_answer)

text \<open>During the ceremony raw mode is off; where the process ends the screen has been restored.\<close>

definition tidy :: "flags \<Rightarrow> cli_stop + 'a \<Rightarrow> bool" where
  "tidy fs r \<longleftrightarrow> fst fs = False \<and> (case r of Inl (Failed _) \<Rightarrow> True | Inl _ \<Rightarrow> fs = clean | Inr _ \<Rightarrow> True)"

lemma calm_tidy: "calm m \<Longrightarrow> fst fs = False \<Longrightarrow> flagged fs m tidy"
  by (rule flagged_weaken [OF flagged_calm]) (auto simp: unmoved_def tidy_def split: sum.splits cli_stop.splits)

lemma tidy_Inl: "tidy fs (Inl e :: cli_stop + 'a) \<longleftrightarrow> tidy fs (Inl e :: cli_stop + 'b)"
  by (simp add: tidy_def)

lemma tidy_bind:
  assumes "flagged fs m tidy" and "\<And>fs' a. fst fs' = False \<Longrightarrow> flagged fs' (f a) tidy"
  shows "flagged fs (bind_task m f) tidy"
proof (rule flagged_bind [OF assms(1)])
  fix fs' a assume "tidy fs' (Inr a :: cli_stop + 'b)"
  then show "flagged fs' (f a) tidy" by (intro assms(2)) (simp add: tidy_def)
qed (simp add: tidy_def)

lemma tidy_after_restore:
  assumes "restored m" and "fst fs = False"
  shows "flagged fs (\<lambda>d. m (restore_alt_screen net d)) tidy"
  unfolding flagged_def
proof (intro allI impI)
  fix d d' r assume d: "flags_of d = fs" "m (restore_alt_screen net d) = Some (d', r)"
  then have "flags_of (restore_alt_screen net d) = clean" using assms(2) by (auto simp: flags_of_def)
  then have "flags_of d' = clean" using assms(1) d(2) unfolding restored_def flagged_def by blast
  then show "tidy (flags_of d') r" by (simp add: tidy_def split: sum.split cli_stop.split)
qed

lemma calm_draw_live: "calm (draw_live net env c sz remaining)"
  unfolding draw_live_def by (auto split: prod.split intro!: calm_intros)

lemma calm_tick_live: "calm (tick_live net env c view remaining)"
  unfolding tick_live_def Let_def
  by (intro calm_bind calm_terminal_size) (auto intro: calm_draw_live calm_intros)

lemma calm_tick_plain: "calm (tick_plain net c view)"
  unfolding tick_plain_def
  by (intro calm_bind calm_call) (auto split: prod.split option.split intro!: calm_intros)

lemma tidy_expired: "fst fs = False \<Longrightarrow> flagged fs (code_expired net) tidy"
  unfolding code_expired_def [abs_def]
  by (rule tidy_after_restore) (intro restored_intros)

lemma tidy_countdown:
  assumes "fst fs = False"
  shows "flagged fs (countdown_tick net env c view) tidy"
  unfolding countdown_tick_def Let_def
proof (rule tidy_bind [OF calm_tidy [OF calm_call assms]])
  fix fs' :: flags and now assume "fst fs' = False"
  then show "flagged fs' (if ceremony_live c
      then if pairing_remaining_seconds now (pt_expires_at (ceremony_ticket c)) = 0 then code_expired net
        else tick_live net env c view (pairing_remaining_seconds now (pt_expires_at (ceremony_ticket c)))
      else tick_plain net c view) tidy"
    by (simp add: tidy_expired calm_tidy [OF calm_tick_plain] calm_tidy [OF calm_tick_live])
qed

lemma tidy_approve:
  "fst fs = False \<Longrightarrow> flagged fs (approve_request net env c conn request_id device_name sas) tidy"
  unfolding approve_request_def Let_def
  by (rule tidy_after_restore)
    (auto intro!: restored_intros restored_confirm calm_restored [OF calm_write])

lemma tidy_message:
  assumes "pair_message net env c conn r = Some task" and "fst fs = False"
  shows "flagged fs task tidy"
  using assms calm_tidy [OF calm_fail assms(2)] calm_tidy [OF calm_bail assms(2)] tidy_approve [OF assms(2)]
  by (auto simp: pair_message_def split: sum.splits server_msg.splits)

lemma tidy_pair_loop:
  assumes "pair_loop net env c conn view d = Some (d', r)" and "\<not> dk_raw_mode d"
  shows "tidy (flags_of d') r"
proof -
  have "\<not> dk_raw_mode d \<longrightarrow> tidy (flags_of (fst y)) (snd y)" if "pair_loop net env c conn view d = Some y" for net :: "'w cli_net" and env c conn view d y
  proof (rule pair_loop.raw_induct [OF _ that])
    fix f and net :: "'w cli_net" and env c conn view d y
    assume IH: "\<And>net env c conn view d y. f net env c conn view d = Some y \<Longrightarrow>
        \<not> dk_raw_mode d \<longrightarrow> tidy (flags_of (fst y)) (snd y)"
      and body: "(case cw_pair_event net conn (dk_world d) of (w, ev) \<Rightarrow>
        let d = d\<lparr>dk_world := w\<rparr> in
        (case ev of
           Message r \<Rightarrow> (case pair_message net env c conn r of
             None \<Rightarrow> f net env c conn view d
           | Some task \<Rightarrow> task d)
         | CtrlC \<Rightarrow> Some (restore_alt_screen net d, Inl (Exits 130))
         | SignalRaised signal \<Rightarrow> Some (restore_for_exit net (restore_alt_screen net d), Inl (Raised signal))
         | Tick \<Rightarrow> (case countdown_tick net env c view d of
             None \<Rightarrow> None
           | Some (d, Inl e) \<Rightarrow> Some (d, Inl e)
           | Some (d, Inr view) \<Rightarrow> f net env c conn view d))) = Some y"
    show "\<not> dk_raw_mode d \<longrightarrow> tidy (flags_of (fst y)) (snd y)"
    proof
      assume off: "\<not> dk_raw_mode d"
      obtain w ev where ev: "cw_pair_event net conn (dk_world d) = (w, ev)" by fastforce
      define d1 where "d1 = d\<lparr>dk_world := w\<rparr>"
      have off1: "\<not> dk_raw_mode d1" "fst (flags_of d1) = False" using off by (simp_all add: d1_def flags_of_def)
      show "tidy (flags_of (fst y)) (snd y)"
      proof (cases ev)
        case (Message r)
        then show ?thesis
        proof (cases "pair_message net env c conn r")
          case None
          then show ?thesis using body IH ev Message off1 by (simp add: d1_def)
        next
          case (Some task)
          then have "task d1 = Some y" using body ev Message by (simp add: d1_def)
          then show ?thesis
            using tidy_message [OF Some off1(2)] unfolding flagged_def by (metis prod.collapse)
        qed
      next
        case Tick
        then obtain d2 r2 where 2: "countdown_tick net env c view d1 = Some (d2, r2)"
            "(case r2 of Inl e \<Rightarrow> Some (d2, Inl e) | Inr view \<Rightarrow> f net env c conn view d2) = Some y"
          using body ev by (auto simp: d1_def Let_def split: option.splits sum.splits)
        have "tidy (flags_of d2) r2" using tidy_countdown [OF off1(2)] 2(1) unfolding flagged_def by blast
        show ?thesis
        proof (cases r2)
          case (Inl e)
          then have "y = (d2, Inl e)" using 2(2) by simp
          moreover have "tidy (flags_of d2) (Inl e :: cli_stop + unit)"
            using \<open>tidy (flags_of d2) r2\<close> unfolding Inl by (rule tidy_Inl [THEN iffD1])
          ultimately show ?thesis by simp
        next
          case (Inr view2)
          then have "f net env c conn view2 d2 = Some y" "\<not> dk_raw_mode d2"
            using 2(2) \<open>tidy (flags_of d2) r2\<close> by (simp_all add: tidy_def flags_of_def)
          then show ?thesis using IH by blast
        qed
      qed (use body ev off1 in \<open>auto simp: tidy_def restore_flags flags_of_def d1_def\<close>)
    qed
  qed
  from this [OF assms(1)] assms(2) show ?thesis by simp
qed

lemma flagged_pair_loop: "fst fs = False \<Longrightarrow> flagged fs (pair_loop net env c conn view) tidy"
  unfolding flagged_def using tidy_pair_loop by (auto simp: flags_of_def) blast

lemma tidy_enter: "flagged clean (enter_screen net what) tidy"
  by (rule flagged_weaken [OF flagged_enter_screen]) (auto simp: tidy_def split: sum.splits cli_stop.splits)

lemma restored_dropping_tidy: "flagged clean m tidy \<Longrightarrow> restored (dropping (restore_alt_screen net) m)"
  by (rule restored_dropping_alt) (erule flagged_weaken, simp add: tidy_def)

lemma restored_pair_device: "restored (pair_device net env)"
proof -
  have live: "flagged clean (bind_task (enter_screen net ''enter pairing screen'') (\<lambda>_.
      bind_task (call (cw_clock_ms net)) (\<lambda>now. bind_task (draw_live net env c sz (r now)) (\<lambda>status_row.
      pair_loop net env c conn \<lparr>cv_size = sz, cv_status_row = status_row, cv_frame = 0\<rparr>)))) tidy" for c sz r conn
    by (intro tidy_bind tidy_enter calm_tidy [OF calm_call] calm_tidy [OF calm_draw_live] flagged_pair_loop)
  have plain: "flagged clean (bind_task (print_all net ls) (\<lambda>_.
      bind_task (call (cw_clock_ms net)) (\<lambda>now. bind_task (case l now of Some l \<Rightarrow> println net l | None \<Rightarrow> finish ()) (\<lambda>_.
      pair_loop net env c conn view)))) tidy" for ls l c conn view
    by (intro tidy_bind calm_tidy [OF calm_print_all] calm_tidy [OF calm_call] flagged_pair_loop)
      (auto split: option.split intro: calm_tidy calm_intros)
  show ?thesis
    unfolding pair_device_def Let_def
    by (intro restored_bind calm_restored [OF calm_connect_local])
      (auto split: prod.split sum.split intro!: restored_intros restored_dropping_tidy live plain
        calm_restored [OF calm_request] calm_restored [OF calm_attempt] calm_restored [OF calm_call]
        calm_restored [OF calm_terminal_size])
qed


end
