(* ===== verification/CliConsent.thy ===== *)
theory CliConsent
  imports CliGuard
begin

text \<open>
  What the desktop tells the daemon about a pairing request: yes only after the operator was
  shown the fingerprint of that request and pressed the key for it.  \<open>logged\<close> is any world with
  a log beside it of what the operator saw and pressed and of what was sent.
\<close>

section \<open>A world with a log\<close>

datatype desk_event = Asked client_id rstr | Printed rstr | Pressed "nat option" | Sent client_msg

definition noting :: "('r \<Rightarrow> 'e list) \<Rightarrow> ('w \<Rightarrow> 'w \<times> 'r) \<Rightarrow> 'w \<times> 'e list \<Rightarrow> ('w \<times> 'e list) \<times> 'r" where
  "noting ev f s = (case f (fst s) of (w, r) \<Rightarrow> ((w, snd s @ ev r), r))"

definition unnoted :: "('w \<Rightarrow> 'w \<times> 'r) \<Rightarrow> 'w \<times> 'e list \<Rightarrow> ('w \<times> 'e list) \<times> 'r" where
  "unnoted = noting (\<lambda>_. [])"

definition asked :: "pair_event \<Rightarrow> desk_event list" where
  "asked ev = (case ev of
     Message (Inr m) \<Rightarrow> (case m of PairingApprovalRequested request_id _ _ sas \<Rightarrow> [Asked request_id sas] | _ \<Rightarrow> [])
   | _ \<Rightarrow> [])"

definition logged :: "'w cli_net \<Rightarrow> ('w \<times> desk_event list) cli_net" where
  "logged net = \<lparr>
     cw_connect = unnoted (cw_connect net),
     cw_write = (\<lambda>conn m. noting (\<lambda>_. [Sent m]) (cw_write net conn m)),
     cw_flush = (\<lambda>conn. unnoted (cw_flush net conn)),
     cw_read = (\<lambda>conn. unnoted (cw_read net conn)),
     cw_spawn = (\<lambda>path. unnoted (cw_spawn net path)),
     cw_try_wait = unnoted (cw_try_wait net),
     cw_instant = unnoted (cw_instant net),
     cw_clock_ms = unnoted (cw_clock_ms net),
     cw_sleep = (\<lambda>n (w, l). (cw_sleep net n w, l)),
     cw_print = (\<lambda>s (w, l). (cw_print net s w, l @ [Printed s])),
     cw_flush_out = unnoted (cw_flush_out net),
     cw_eprint = (\<lambda>s (w, l). (cw_eprint net s w, l)),
     cw_size = unnoted (cw_size net),
     cw_raw_mode = unnoted (cw_raw_mode net),
     cw_no_raw_mode = (\<lambda>(w, l). (cw_no_raw_mode net w, l)),
     cw_key = noting (\<lambda>r. [Pressed (case r of Inr k \<Rightarrow> k | Inl _ \<Rightarrow> None)]) (cw_key net),
     cw_stdin = unnoted (cw_stdin net),
     cw_signals = unnoted (cw_signals net),
     cw_pair_event = (\<lambda>conn. noting asked (cw_pair_event net conn)),
     cw_detach_prefix = unnoted (cw_detach_prefix net),
     cw_attach_setup = unnoted (cw_attach_setup net),
     cw_attach = (\<lambda>conn s sz b. unnoted (cw_attach net conn s sz b)),
     cw_service = \<lparr>sm_install = (\<lambda>c. unnoted (sm_install (cw_service net) c)),
       sm_start = unnoted (sm_start (cw_service net)), sm_stop = unnoted (sm_stop (cw_service net)),
       sm_uninstall = unnoted (sm_uninstall (cw_service net)), sm_status = unnoted (sm_status (cw_service net))\<rparr>\<rparr>"

text \<open>\<open>logs m Q\<close>: when the command ends, it has added a log that \<open>Q\<close> relates to its outcome.\<close>

definition logs :: "('w \<times> desk_event list, 'a) task \<Rightarrow> (desk_event list \<Rightarrow> cli_stop + 'a \<Rightarrow> bool) \<Rightarrow> bool" where
  "logs m Q \<longleftrightarrow> (\<forall>d d' r. m d = Some (d', r) \<longrightarrow>
     (\<exists>l. snd (dk_world d') = snd (dk_world d) @ l \<and> Q l r))"

lemma logs_bind:
  assumes m: "logs m Q" and f: "\<And>l a. Q l (Inr a) \<Longrightarrow> logs (f a) (\<lambda>l' r. R (l @ l') r)"
    and e: "\<And>l e. Q l (Inl e) \<Longrightarrow> R l (Inl e)"
  shows "logs (bind_task m f) R"
  unfolding logs_def
proof (intro allI impI)
  fix d d' r assume d: "bind_task m f d = Some (d', r)"
  then obtain d1 r1 where 1: "m d = Some (d1, r1)" by (auto simp: bind_task_def split: option.splits)
  then obtain l where l: "snd (dk_world d1) = snd (dk_world d) @ l" "Q l r1" using m unfolding logs_def by blast
  show "\<exists>l. snd (dk_world d') = snd (dk_world d) @ l \<and> R l r"
  proof (cases r1)
    case (Inl err)
    then have "d' = d1" "r = Inl err" using d 1 by (auto simp: bind_task_def)
    then show ?thesis using l e Inl by auto
  next
    case (Inr a)
    then have "f a d1 = Some (d', r)" using d 1 by (simp add: bind_task_def)
    then obtain l' where "snd (dk_world d') = snd (dk_world d1) @ l'" "R (l @ l') r"
      using f [of l a] l(2) Inr unfolding logs_def by blast
    then show ?thesis using l(1) by auto
  qed
qed

lemma logs_weaken: "logs m Q \<Longrightarrow> (\<And>l r. Q l r \<Longrightarrow> R l r) \<Longrightarrow> logs m R"
  unfolding logs_def by blast

lemma logs_finish: "Q [] (Inr a) \<Longrightarrow> logs (finish a) Q"
  by (simp add: logs_def finish_def)

lemma logs_stop: "Q [] (Inl e) \<Longrightarrow> logs (stop e) Q"
  by (simp add: logs_def stop_def)

lemma logs_call: "(\<And>r. Q (ev r) (Inr r)) \<Longrightarrow> logs (call (noting ev f)) Q"
  by (auto simp: logs_def call_def noting_def split: prod.splits)

section \<open>Quiet commands\<close>

fun quiet :: "desk_event \<Rightarrow> bool" where
  "quiet (Sent (ApprovePairing _ _)) \<longleftrightarrow> False"
| "quiet (Asked _ _) \<longleftrightarrow> False"
| "quiet (Pressed _) \<longleftrightarrow> False"
| "quiet _ \<longleftrightarrow> True"

definition hushed :: "('w \<times> desk_event list, 'a) task \<Rightarrow> bool" where
  "hushed m \<longleftrightarrow> logs m (\<lambda>l r. list_all quiet l)"

lemma hushed_bind: "hushed m \<Longrightarrow> (\<And>a. hushed (f a)) \<Longrightarrow> hushed (bind_task m f)"
  unfolding hushed_def by (rule logs_bind) auto

lemma hushed_finish: "hushed (finish a)" and hushed_stop: "hushed (stop e)" and hushed_bail: "hushed (bail s)"
  by (simp_all add: hushed_def logs_finish logs_stop bail_def)

lemma hushed_call: "hushed (call (unnoted f))"
  unfolding hushed_def unnoted_def by (rule logs_call) simp

lemma hushed_attempt: "hushed (attempt_with err (unnoted f))"
  unfolding attempt_with_def
  by (intro hushed_bind hushed_call) (auto split: sum.split intro: hushed_finish hushed_stop)

lemma logs_print: "Q [Printed s] (Inr ()) \<Longrightarrow> logs (print_raw (logged net) s) Q"
  by (auto simp: logs_def print_raw_def call_def logged_def split: prod.splits)

lemma hushed_print: "hushed (print_raw (logged net) s)" "hushed (println (logged net) s)"
  by (simp_all add: hushed_def println_def logs_print)

lemma hushed_eprint: "hushed (eprintln (logged net) s)"
  by (auto simp: hushed_def logs_def eprintln_def call_def logged_def split: prod.splits)

lemma hushed_print_all: "hushed (print_all (logged net) ls)"
  by (induction ls) (auto intro: hushed_finish hushed_bind hushed_print)

lemma logged_sel [simp]:
  "cw_connect (logged net) = unnoted (cw_connect net)"
  "cw_write (logged net) conn m = noting (\<lambda>_. [Sent m]) (cw_write net conn m)"
  "cw_flush (logged net) conn = unnoted (cw_flush net conn)"
  "cw_read (logged net) conn = unnoted (cw_read net conn)"
  "cw_spawn (logged net) path = unnoted (cw_spawn net path)"
  "cw_try_wait (logged net) = unnoted (cw_try_wait net)"
  "cw_instant (logged net) = unnoted (cw_instant net)"
  "cw_clock_ms (logged net) = unnoted (cw_clock_ms net)"
  "cw_flush_out (logged net) = unnoted (cw_flush_out net)"
  "cw_size (logged net) = unnoted (cw_size net)"
  "cw_raw_mode (logged net) = unnoted (cw_raw_mode net)"
  "cw_key (logged net) = noting (\<lambda>r. [Pressed (case r of Inr k \<Rightarrow> k | Inl _ \<Rightarrow> None)]) (cw_key net)"
  "cw_signals (logged net) = unnoted (cw_signals net)"
  "cw_pair_event (logged net) conn = noting asked (cw_pair_event net conn)"
  "snd (cw_sleep (logged net) n s) = snd s"
  "snd (cw_eprint (logged net) t s) = snd s"
  "snd (cw_no_raw_mode (logged net) s) = snd s"
  "snd (cw_print (logged net) t s) = snd s @ [Printed t]"
  by (simp_all add: logged_def split: prod.split)

lemma snd_unnoted [simp]: "unnoted f s = (s', r) \<Longrightarrow> snd s' = snd s"
  by (auto simp: unnoted_def noting_def split: prod.splits)

lemma hushed_flush: "hushed (flush_out (logged net) c)"
  unfolding flush_out_def logged_sel
  by (intro hushed_bind hushed_call) (auto split: option.split intro: hushed_finish hushed_stop)

lemmas hushed_intros = hushed_bind hushed_finish hushed_stop hushed_bail hushed_call hushed_attempt hushed_print
  hushed_eprint hushed_print_all hushed_flush

lemma logs_write: "(\<And>r. Q [Sent m] r) \<Longrightarrow> logs (cli_write_msg (logged net) conn m) Q"
  unfolding cli_write_msg_def logged_sel
proof (rule logs_bind [OF logs_call [where Q = "\<lambda>l r. l = [Sent m]"]])
  fix l and a :: "(rstr, rstr) write_error option"
  assume Q: "\<And>r. Q [Sent m] r" and l: "l = [Sent m]"
  have "hushed (case a of Some e \<Rightarrow> stop (Failed (write_failure_of e))
     | None \<Rightarrow> bind_task (call (unnoted (cw_flush net conn))) (\<lambda>r. case r of
       Some e \<Rightarrow> stop (Failed (Because (lit ''flush frame'') (Bail e))) | None \<Rightarrow> finish ()))"
    by (auto split: option.split intro!: hushed_intros)
  show "logs (case a of Some e \<Rightarrow> stop (Failed (write_failure_of e))
     | None \<Rightarrow> bind_task (call (unnoted (cw_flush net conn))) (\<lambda>r. case r of
       Some e \<Rightarrow> stop (Failed (Because (lit ''flush frame'') (Bail e))) | None \<Rightarrow> finish ()))
     (\<lambda>l' r. Q (l @ l') r)"
    unfolding l using Q
    by (cases a) (auto intro!: logs_stop logs_bind [OF logs_call [where Q = "\<lambda>l r. l = []" and ev = "\<lambda>_. []", folded unnoted_def]]
        logs_finish split: option.split)
qed simp_all

lemma hushed_write:
  assumes "\<And>i b. m \<noteq> ApprovePairing i b"
  shows "hushed (cli_write_msg (logged net) conn m)"
proof -
  have "quiet (Sent m)" using assms by (cases m) (simp_all, blast?)
  then show ?thesis unfolding hushed_def by (intro logs_write) simp
qed

lemma hushed_request: "(\<And>i b. m \<noteq> ApprovePairing i b) \<Longrightarrow> hushed (request (logged net) conn m place expect)"
  unfolding request_def cli_read_msg_def logged_sel
  by (intro hushed_bind hushed_write hushed_attempt) (auto split: option.split server_msg.split intro: hushed_intros)

lemma hushed_size: "hushed (terminal_size (logged net))"
  unfolding terminal_size_def logged_sel by (intro hushed_intros)

lemma hushed_handshake: "hushed (handshake (logged net) env conn)"
  unfolding handshake_def by (rule hushed_request) simp

lemma hushed_wait:
  fixes net :: "'w cli_net"
  shows "hushed (wait_for_daemon (logged net) env)"
proof -
  have loop: "net' = logged net \<longrightarrow> snd (fst y) = snd w"
    if "wait_for_daemon_loop net' env wait w = Some y"
    for net' :: "('w \<times> desk_event list) cli_net" and env wait w y
  proof (rule wait_for_daemon_loop.raw_induct [OF _ that])
    fix f and net' :: "('w \<times> desk_event list) cli_net" and env wait w y
    assume IH: "\<And>net' env wait w y. f net' env wait w = Some y \<Longrightarrow> net' = logged net \<longrightarrow> snd (fst y) = snd w"
      and body: "(case cw_connect net' w of
        (w, Inl e) \<Rightarrow> (case cw_try_wait net' w of
          (w, Inl e') \<Rightarrow> Some (w, Inl (Because (lit ''check shellyd startup status'') (Bail e')))
        | (w, Inr None) \<Rightarrow> (case cw_instant net' w of (w, now) \<Rightarrow>
            (case wait_tick net' env now wait w of (w, wait, over) \<Rightarrow>
               if over then Some (w, Inl (start_failure ''shellyd is still starting after '' env
                 (Because (lit ''connect to '' @ ce_socket_path env) e)))
               else f net' env wait w))
        | (w, Inr (Some status)) \<Rightarrow>
            Some (w, Inl (Bail (lit ''shellyd exited before its control socket was ready ('' @ status @ lit '')''))))
      | (w, Inr conn) \<Rightarrow> Some (w, Inr conn)) = Some y"
    show "net' = logged net \<longrightarrow> snd (fst y) = snd w"
    proof
      assume net: "net' = logged net"
      obtain w1 r1 where 1: "cw_connect net' w = (w1, r1)" by fastforce
      obtain w2 r2 where 2: "cw_try_wait net' w1 = (w2, r2)" by fastforce
      obtain w3 now where 3: "cw_instant net' w2 = (w3, now)" by fastforce
      obtain w4 wait4 over where 4: "wait_tick net' env now wait w3 = (w4, wait4, over)" by (metis prod_cases3)
      have same: "snd w1 = snd w" "snd w2 = snd w1" "snd w3 = snd w2" "snd w4 = snd w3"
        using 1 2 3 4 by (auto simp: net wait_tick_def Let_def split: prod.splits if_splits)
      have "snd (fst y) = snd w" if "f net' env wait4 w4 = Some y" using IH [OF that] net same by simp
      then show "snd (fst y) = snd w"
        using body 1 2 3 4 same
        by (cases r1; cases r2; cases "projr r2"; cases over) (auto simp flip: 1)
    qed
  qed
  show ?thesis
    unfolding hushed_def logs_def
  proof (intro allI impI exI conjI)
    fix d d' r assume run: "wait_for_daemon (logged net) env d = Some (d', r)"
    obtain w now where w: "cw_instant (logged net) (dk_world d) = (w, now)" by fastforce
    obtain y where y: "wait_for_daemon_loop (logged net) env (startup_new (ce_interactive env) now) w = Some y"
      using run w by (auto simp: wait_for_daemon_def split: option.splits)
    have "dk_world d' = fst y" using run w y by (cases y) (auto simp: wait_for_daemon_def split: sum.splits)
    then show "snd (dk_world d') = snd (dk_world d) @ []" using loop [OF y] w by simp
  qed simp
qed

lemma hushed_spawn: "hushed (spawn_daemon (logged net) env)"
  unfolding spawn_daemon_def logged_sel by (auto split: sum.split intro: hushed_intros)

lemma hushed_connect_local: "hushed (connect_local (logged net) env)"
  unfolding connect_local_bind logged_sel
  by (intro hushed_bind hushed_call)
    (auto split: sum.split intro: hushed_handshake hushed_bind hushed_eprint hushed_spawn hushed_wait)

lemma hushed_restore_raw: "hushed m \<Longrightarrow> hushed (dropping (restore_raw_mode (logged net)) m)"
  by (fastforce simp: hushed_def logs_def dropping_def restore_raw_mode_def
      split: option.splits sum.splits cli_stop.splits if_splits)

section \<open>The answer\<close>

text \<open>The line with the fingerprint, and a log in which yes was said with reason.\<close>

definition shown_sas :: "rstr \<Rightarrow> desk_event" where "shown_sas sas = Printed ((lit ''    '' @ sas) @ [10])"

definition agreed :: "rstr \<Rightarrow> desk_event list \<Rightarrow> bool" where
  "agreed sas l \<longleftrightarrow> (\<exists>a b k c. l = a @ [shown_sas sas] @ b @ [Pressed (Some k)] @ c \<and> k \<in> {121, 89} \<and>
     list_all quiet a \<and> list_all quiet b \<and> list_all quiet c)"

text \<open>Nothing sent about a request and no request seen; a key may have been pressed.\<close>

fun unanswered :: "desk_event \<Rightarrow> bool" where
  "unanswered (Sent (ApprovePairing _ b)) \<longleftrightarrow> \<not> b"
| "unanswered (Asked _ _) \<longleftrightarrow> False"
| "unanswered _ \<longleftrightarrow> True"

lemma quiet_unanswered: "quiet e \<Longrightarrow> unanswered e"
  by (cases e rule: unanswered.cases) auto

lemma quiet_all_unanswered: "list_all quiet l \<Longrightarrow> list_all unanswered l"
  by (auto simp: list_all_iff quiet_unanswered)

definition shown_in :: "rstr \<Rightarrow> desk_event list \<Rightarrow> bool" where
  "shown_in sas l \<longleftrightarrow> (\<exists>a b. l = a @ [shown_sas sas] @ b \<and> list_all quiet a \<and> list_all quiet b)"

lemma shown_in_more: "shown_in sas l \<Longrightarrow> list_all quiet m \<Longrightarrow> shown_in sas (l @ m)"
  unfolding shown_in_def by (metis append_assoc list_all_append)

lemma shown_in_unanswered: "shown_in sas l \<Longrightarrow> list_all unanswered l"
  by (auto simp: shown_in_def shown_sas_def intro: quiet_all_unanswered)

lemma shown_then_pressed:
  assumes "shown_in sas l" and "list_all quiet a" "list_all quiet b" "k \<in> {121, 89}"
  shows "agreed sas (l @ a @ [Pressed (Some k)] @ b)"
proof -
  obtain p q where "l = p @ [shown_sas sas] @ q" "list_all quiet p" "list_all quiet q"
    using assms(1) unfolding shown_in_def by blast
  then have "l @ a @ [Pressed (Some k)] @ b = p @ [shown_sas sas] @ (q @ a) @ [Pressed (Some k)] @ b"
    "list_all quiet (q @ a)" using assms(2) by simp_all
  with \<open>list_all quiet p\<close> assms(3,4) show ?thesis unfolding agreed_def by blast
qed

lemma logs_question:
  "logs (print_all (logged net) [[], lit ''Pairing request from '' @ name,
    lit ''Compare this security fingerprint with the phone:'', [], lit ''    '' @ sas, []]) (\<lambda>l r. shown_in sas l)"
  by (auto simp: logs_def println_def print_raw_def bind_task_def call_def finish_def shown_in_def shown_sas_def logged_def
      split: prod.splits)
    (rule exI [of _ "[Printed [10], Printed (lit ''Pairing request from '' @ name @ [10]),
      Printed (lit ''Compare this security fingerprint with the phone:'' @ [10]), Printed [10]]"],
     rule exI [of _ "[Printed [10]]"], simp)

text \<open>The log of the key: it is the one the answer is taken from.\<close>

fun key_log :: "desk_event list \<Rightarrow> cli_stop + bool \<Rightarrow> bool" where
  "key_log l (Inr yes) \<longleftrightarrow> (\<exists>a k b. l = a @ [Pressed k] @ b \<and> list_all quiet a \<and> list_all quiet b \<and>
     (yes \<longleftrightarrow> k = Some 121 \<or> k = Some 89))"
| "key_log l (Inl _) \<longleftrightarrow> list_all unanswered l"

lemma logs_key:
  "logs (attempt_with (\<lambda>e. e) (cw_key (logged net)))
    (\<lambda>l r. case r of Inl _ \<Rightarrow> l = [Pressed None] | Inr k \<Rightarrow> l = [Pressed k])"
  unfolding attempt_with_def logged_sel
  by (rule logs_bind [OF logs_call [where Q = "\<lambda>l r. case r of Inr (Inl _) \<Rightarrow> l = [Pressed None]
      | Inr (Inr k) \<Rightarrow> l = [Pressed k] | _ \<Rightarrow> False"]])
    (auto split: sum.splits intro!: logs_stop logs_finish)

lemma logs_read_answer: "logs (read_answer (logged net) env) key_log"
proof -
  have raw: "hushed (if ce_stdin_tty env then enter_raw_mode (logged net) else finish ())"
    unfolding enter_raw_mode_def logged_sel
    by (auto intro!: hushed_bind hushed_attempt hushed_finish) (simp add: hushed_def logs_def)
  have rest: "hushed (if ce_stdin_tty env then println (logged net) [] else finish ())"
    by (auto intro: hushed_print hushed_finish)
  let ?after = "\<lambda>key. bind_task (if ce_stdin_tty env then println (logged net) [] else finish ()) (\<lambda>_.
    finish (key = Some (121 :: nat) \<or> key = Some 89))"
  have after: "logs (?after k) (\<lambda>l' r. key_log (l @ [Pressed k] @ l') r)" if "list_all quiet l" for l k
  proof (rule logs_bind [OF rest [unfolded hushed_def]])
    fix m and u :: unit assume "list_all quiet m"
    then show "logs (finish (k = Some 121 \<or> k = Some 89)) (\<lambda>l' r. key_log (l @ [Pressed k] @ m @ l') r)"
      using that by (intro logs_finish) auto
  qed (use that in \<open>auto intro: quiet_all_unanswered\<close>)
  have "logs (bind_task (if ce_stdin_tty env then enter_raw_mode (logged net) else finish ()) (\<lambda>_.
      bind_task (attempt_with (\<lambda>e. e) (cw_key (logged net))) ?after)) key_log"
  proof (rule logs_bind [OF raw [unfolded hushed_def]])
    fix l and u :: unit assume l: "list_all quiet l"
    show "logs (bind_task (attempt_with (\<lambda>e. e) (cw_key (logged net))) ?after) (\<lambda>l' r. key_log (l @ l') r)"
      by (rule logs_bind [OF logs_key]) (use after [OF l] l in \<open>auto intro: quiet_all_unanswered\<close>)
  qed (auto intro: quiet_all_unanswered)
  then show ?thesis
    unfolding read_answer_def logs_def dropping_def
    by (fastforce simp: restore_raw_mode_def split: option.splits sum.splits cli_stop.splits if_splits)
qed

lemma logs_confirm:
  "logs (confirm_pairing_sas (logged net) env name sas)
    (\<lambda>l r. if r = Inr True then agreed sas l else list_all unanswered l)" (is "logs _ ?Q")
  unfolding confirm_pairing_sas_def
proof (rule logs_bind [OF logs_question])
  fix l1 and u :: unit assume l1: "shown_in sas l1"
  show "logs (bind_task (print_raw (logged net) (lit ''Press Y to approve; any other key denies: '')) (\<lambda>_.
      bind_task (flush_out (logged net) ''flush pairing approval prompt'') (\<lambda>_. read_answer (logged net) env)))
      (\<lambda>l' r. ?Q (l1 @ l') r)"
  proof (rule logs_bind [OF hushed_print(1) [unfolded hushed_def]])
    fix l2 assume l2: "list_all quiet l2"
    show "logs (bind_task (flush_out (logged net) ''flush pairing approval prompt'') (\<lambda>_. read_answer (logged net) env))
        (\<lambda>l' r. ?Q (l1 @ l2 @ l') r)"
    proof (rule logs_bind [OF hushed_flush [unfolded hushed_def]])
      fix l3 assume l3: "list_all quiet l3"
      have s: "shown_in sas ((l1 @ l2) @ l3)" using shown_in_more l1 l2 l3 by blast
      show "logs (read_answer (logged net) env) (\<lambda>l' r. ?Q (l1 @ l2 @ l3 @ l') r)"
      proof (rule logs_weaken [OF logs_read_answer])
        fix l r assume R: "key_log l r"
        show "?Q (l1 @ l2 @ l3 @ l) r"
        proof (cases "r = Inr True")
          case True
          then obtain a k b where "l = a @ [Pressed (Some k)] @ b" "list_all quiet a" "list_all quiet b" "k \<in> {121, 89}"
            using R by auto
          then show ?thesis using shown_then_pressed [OF s, of a b k] True by simp
        next
          case False
          have "list_all unanswered l" using R False by (cases r) (auto intro: quiet_all_unanswered)
          then show ?thesis using False shown_in_unanswered [OF s] by simp
        qed
      qed
    qed (use l1 l2 shown_in_unanswered in \<open>auto intro: quiet_all_unanswered\<close>)
  qed (use l1 shown_in_unanswered in \<open>auto intro: quiet_all_unanswered\<close>)
qed (auto dest: shown_in_unanswered)

definition consents :: "client_id \<Rightarrow> rstr \<Rightarrow> desk_event list \<Rightarrow> bool" where
  "consents i sas l \<longleftrightarrow> list_all unanswered l \<or>
     (\<exists>a b. l = a @ [Sent (ApprovePairing i True)] @ b \<and> agreed sas a \<and> list_all quiet b)"

lemma agreed_before: "list_all quiet p \<Longrightarrow> agreed sas a \<Longrightarrow> agreed sas (p @ a)"
  unfolding agreed_def by (elim exE conjE, intro exI [of _ "p @ _"] exI) auto

lemma consents_before:
  assumes "list_all quiet p" and "consents i sas l"
  shows "consents i sas (p @ l)"
  using assms(2) unfolding consents_def
proof (elim disjE exE conjE)
  fix a b assume "l = a @ [Sent (ApprovePairing i True)] @ b" "agreed sas a" "list_all quiet b"
  then show "list_all unanswered (p @ l) \<or> (\<exists>a b. p @ l = a @ [Sent (ApprovePairing i True)] @ b \<and> agreed sas a \<and> list_all quiet b)"
    using agreed_before [OF assms(1)] by (intro disjI2 exI [of _ "p @ a"] exI [of _ b]) simp
qed (use quiet_all_unanswered [OF assms(1)] in simp)

lemma consents_after:
  assumes "list_all quiet q" and "consents i sas l"
  shows "consents i sas (l @ q)"
  using assms(2) unfolding consents_def
proof (elim disjE exE conjE)
  fix a b assume "l = a @ [Sent (ApprovePairing i True)] @ b" "agreed sas a" "list_all quiet b"
  then show "list_all unanswered (l @ q) \<or> (\<exists>a b. l @ q = a @ [Sent (ApprovePairing i True)] @ b \<and> agreed sas a \<and> list_all quiet b)"
    using assms(1) by (intro disjI2 exI [of _ a] exI [of _ "b @ q"]) simp
qed (use quiet_all_unanswered [OF assms(1)] in simp)

lemma restore_alt_log:
  obtains p where "snd (dk_world (restore_alt_screen (logged net) d)) = snd (dk_world d) @ p" "list_all quiet p"
proof (cases "dk_alt_screen d")
  case True
  obtain s r where "unnoted (cw_flush_out net) (cw_print (logged net) TERMINAL_RESTORE (dk_world d)) = (s, r)" by fastforce
  then have "snd (dk_world (restore_alt_screen (logged net) d)) = snd (dk_world d) @ [Printed TERMINAL_RESTORE]"
    using True by (simp add: restore_alt_screen_def)
  then show ?thesis using that by simp
qed (use that [of "[]"] in \<open>simp add: restore_alt_screen_def\<close>)

lemma logs_after_restore:
  assumes "logs m Q" and "\<And>p l r. list_all quiet p \<Longrightarrow> Q l r \<Longrightarrow> R (p @ l) r"
  shows "logs (\<lambda>d. m (restore_alt_screen (logged net) d)) R"
  unfolding logs_def
proof (intro allI impI)
  fix d d' r assume "m (restore_alt_screen (logged net) d) = Some (d', r)"
  then obtain l where l: "snd (dk_world d') = snd (dk_world (restore_alt_screen (logged net) d)) @ l" "Q l r"
    using assms(1) unfolding logs_def by blast
  obtain p where "snd (dk_world (restore_alt_screen (logged net) d)) = snd (dk_world d) @ p" "list_all quiet p"
    by (rule restore_alt_log)
  then show "\<exists>l. snd (dk_world d') = snd (dk_world d) @ l \<and> R l r" using l assms(2) by auto
qed

lemma logs_approve:
  "logs (approve_request (logged net) env c conn i device_name sas) (\<lambda>l r. consents i sas l)"
  unfolding approve_request_def Let_def
proof (rule logs_after_restore [where Q = "\<lambda>l r. consents i sas l"])
  let ?name = "sanitize_device_name device_name"
  let ?after = "\<lambda>approved. if \<not> approved then bail (lit ''pairing denied; the device was not saved'')
     else if ceremony_ansi c then
       bind_task (println (logged net) (style_ansi [10003] True ANSI_GREEN @ lit '' Approved pairing for '' @ style_bold ?name True)) (\<lambda>_.
       println (logged net) (lit ''  '' @ style_dim (lit ''shelly devices '' @ [8212] @ lit '' list and manage paired devices'') True))
     else println (logged net) (lit ''Approved pairing for '' @ ?name @ lit ''.'')"
  have after: "hushed (?after approved)" for approved by (auto intro!: hushed_intros)
  show "logs (bind_task (confirm_pairing_sas (logged net) env ?name sas) (\<lambda>approved.
      bind_task (cli_write_msg (logged net) conn (ApprovePairing i approved)) (\<lambda>_. ?after approved)))
      (\<lambda>l r. consents i sas l)"
  proof (rule logs_bind [OF logs_confirm])
    fix l1 and approved
    assume l1: "if (Inr approved :: cli_stop + bool) = Inr True then agreed sas l1 else list_all unanswered l1"
    have sent: "consents i sas (l1 @ [Sent (ApprovePairing i approved)])"
    proof (cases approved)
      case True
      then have "agreed sas l1" using l1 by simp
      then show ?thesis unfolding consents_def using True by (intro disjI2 exI [of _ l1] exI [of _ "[]"]) simp
    qed (use l1 in \<open>simp add: consents_def\<close>)
    show "logs (bind_task (cli_write_msg (logged net) conn (ApprovePairing i approved)) (\<lambda>_. ?after approved))
        (\<lambda>l' r. consents i sas (l1 @ l'))"
    proof (rule logs_bind [OF logs_write [where Q = "\<lambda>l r. l = [Sent (ApprovePairing i approved)]"]])
      fix l2 and u :: unit assume "l2 = [Sent (ApprovePairing i approved)]"
      then show "logs (?after approved) (\<lambda>l' r. consents i sas (l1 @ l2 @ l'))"
        using sent consents_after [OF _ sent] by (intro logs_weaken [OF after [unfolded hushed_def]]) auto
    qed (use sent in simp_all)
  qed (simp add: consents_def)
qed (rule consents_before)

lemma hushed_draw: "hushed (draw_live (logged net) env c sz remaining)"
  unfolding draw_live_def by (auto split: prod.split intro!: hushed_intros)

lemma hushed_tick: "hushed (countdown_tick (logged net) env c view)"
proof -
  have live: "hushed (tick_live (logged net) env c view remaining)" for remaining
    unfolding tick_live_def Let_def
    by (intro hushed_bind hushed_size) (auto intro: hushed_draw hushed_intros)
  have plain: "hushed (tick_plain (logged net) c view)"
    unfolding tick_plain_def logged_sel
    by (intro hushed_bind hushed_call) (auto split: prod.split option.split intro!: hushed_intros)
  have over: "hushed (code_expired (logged net))"
    unfolding code_expired_def [abs_def] hushed_def
    by (rule logs_after_restore [where Q = "\<lambda>l r. list_all quiet l"])
      (auto intro!: hushed_intros [unfolded hushed_def])
  show ?thesis
    unfolding countdown_tick_def Let_def logged_sel
    by (intro hushed_bind hushed_call) (simp add: live plain over)
qed

text \<open>The log of the whole wait: quiet until a request is seen, and then the answer to it.\<close>

definition justified :: "desk_event list \<Rightarrow> bool" where
  "justified l \<longleftrightarrow> list_all quiet l \<or>
     (\<exists>p i sas q. l = p @ [Asked i sas] @ q \<and> list_all quiet p \<and> consents i sas q)"

lemma justified_before: "list_all quiet p \<Longrightarrow> justified l \<Longrightarrow> justified (p @ l)"
  unfolding justified_def by (metis append_assoc list_all_append)

lemma justified_after: "list_all quiet q \<Longrightarrow> justified l \<Longrightarrow> justified (l @ q)"
  unfolding justified_def by (metis append_assoc list_all_append consents_after)

lemma asked_quiet: "(\<And>i n k sas. ev \<noteq> Message (Inr (PairingApprovalRequested i n k sas))) \<Longrightarrow> asked ev = []"
  by (auto simp: asked_def split: pair_event.split sum.split server_msg.split)

lemma restore_exit_log:
  assumes "d' = restore_alt_screen (logged net) d \<or> d' = restore_for_exit (logged net) (restore_alt_screen (logged net) d)"
  shows "\<exists>l. snd (dk_world d') = snd (dk_world d) @ l \<and> justified l"
proof -
  obtain p where p: "snd (dk_world (restore_alt_screen (logged net) d)) = snd (dk_world d) @ p" "list_all quiet p"
    by (rule restore_alt_log)
  have "snd (dk_world (restore_for_exit (logged net) (restore_alt_screen (logged net) d))) =
      snd (dk_world (restore_alt_screen (logged net) d))"
    by (simp add: restore_for_exit_def restore_raw_mode_def restore_alt_screen_def)
  then show ?thesis using assms p by (auto simp: justified_def)
qed

lemma message_none: "pair_message net env c conn r = None \<Longrightarrow> asked (Message r) = []"
  by (auto simp: pair_message_def intro: asked_quiet)

lemma message_log:
  assumes task: "pair_message (logged net) env c conn r = Some task" and run: "task d = Some y"
  shows "\<exists>l. snd (dk_world (fst y)) = snd (dk_world d) @ l \<and> justified (asked (Message r) @ l)"
proof (cases "\<exists>i n k sas. r = Inr (PairingApprovalRequested i n k sas)")
  case True
  then obtain i n k sas where r: "r = Inr (PairingApprovalRequested i n k sas)" by blast
  then have "task = approve_request (logged net) env c conn i n sas" using task by (simp add: pair_message_def)
  then obtain l where "snd (dk_world (fst y)) = snd (dk_world d) @ l" "consents i sas l"
    using logs_approve [of net env c conn i n sas] run unfolding logs_def by (metis prod.collapse)
  then show ?thesis using r by (auto simp: asked_def justified_def intro!: exI [of _ "[]"])
next
  case False
  then have "fst y = d" using task run
    by (auto simp: pair_message_def stop_def bail_def split: sum.splits server_msg.splits)
  moreover have "asked (Message r) = []" using False by (auto intro: asked_quiet)
  ultimately show ?thesis by (simp add: justified_def)
qed

lemma logs_pair_loop: "logs (pair_loop (logged net) env c conn view) (\<lambda>l r. justified l)"
  for net :: "'w cli_net"
proof -
  have loop: "net' = logged net \<longrightarrow> (\<exists>l. snd (dk_world (fst y)) = snd (dk_world d) @ l \<and> justified l)"
    if "pair_loop net' env c conn view d = Some y"
    for net' :: "('w \<times> desk_event list) cli_net" and env c conn view d y
  proof (rule pair_loop.raw_induct [OF _ that])
    fix f and net' :: "('w \<times> desk_event list) cli_net" and env c conn view d y
    assume IH: "\<And>net' env c conn view d y. f net' env c conn view d = Some y \<Longrightarrow>
        net' = logged net \<longrightarrow> (\<exists>l. snd (dk_world (fst y)) = snd (dk_world d) @ l \<and> justified l)"
      and body: "(case cw_pair_event net' conn (dk_world d) of (w, ev) \<Rightarrow>
        let d = d\<lparr>dk_world := w\<rparr> in
        (case ev of
           Message r \<Rightarrow> (case pair_message net' env c conn r of
             None \<Rightarrow> f net' env c conn view d
           | Some task \<Rightarrow> task d)
         | CtrlC \<Rightarrow> Some (restore_alt_screen net' d, Inl (Exits 130))
         | SignalRaised signal \<Rightarrow> Some (restore_for_exit net' (restore_alt_screen net' d), Inl (Raised signal))
         | Tick \<Rightarrow> (case countdown_tick net' env c view d of
             None \<Rightarrow> None
           | Some (d, Inl e) \<Rightarrow> Some (d, Inl e)
           | Some (d, Inr view) \<Rightarrow> f net' env c conn view d))) = Some y"
    show "net' = logged net \<longrightarrow> (\<exists>l. snd (dk_world (fst y)) = snd (dk_world d) @ l \<and> justified l)"
    proof
      assume net: "net' = logged net"
      let ?goal = "\<exists>l. snd (dk_world (fst y)) = snd (dk_world d) @ l \<and> justified l"
      obtain w ev where ev: "cw_pair_event net' conn (dk_world d) = (w, ev)" by fastforce
      define d1 where "d1 = d\<lparr>dk_world := w\<rparr>"
      have w: "snd (dk_world d1) = snd (dk_world d) @ asked ev"
        using ev by (auto simp: net d1_def noting_def split: prod.splits)
      show ?goal
      proof (cases ev)
        case (Message r)
        show ?thesis
        proof (cases "pair_message net' env c conn r")
          case None
          then have "f net' env c conn view d1 = Some y" using body ev Message by (simp add: d1_def)
          then show ?thesis using IH net w message_none [OF None] Message by fastforce
        next
          case (Some task)
          then have "task d1 = Some y" using body ev Message by (simp add: d1_def)
          then show ?thesis using message_log [of net env c conn r task d1 y] Some net w Message by auto
        qed
      next
        case Tick
        then obtain d2 r2 where 2: "countdown_tick net' env c view d1 = Some (d2, r2)"
            "(case r2 of Inl e \<Rightarrow> Some (d2, Inl e) | Inr view \<Rightarrow> f net' env c conn view d2) = Some y"
          using body ev by (auto simp: d1_def Let_def split: option.splits sum.splits)
        obtain l where l: "snd (dk_world d2) = snd (dk_world d1) @ l" "list_all quiet l"
          using hushed_tick [of net env c view] 2(1) unfolding net hushed_def logs_def by blast
        have none: "asked ev = []" using Tick by (simp add: asked_def)
        show ?thesis
        proof (cases r2)
          case (Inl e)
          then show ?thesis using 2(2) l w none by (auto simp: justified_def)
        next
          case (Inr view2)
          then have "f net' env c conn view2 d2 = Some y" using 2(2) by simp
          then obtain l2 where "snd (dk_world (fst y)) = snd (dk_world d2) @ l2" "justified l2" using IH net by blast
          then show ?thesis using l w none justified_before [OF l(2)] by auto
        qed
      qed (use body ev w restore_exit_log [of "fst y" net d1] in \<open>auto simp: d1_def asked_def net\<close>)
    qed
  qed
  show ?thesis unfolding logs_def using loop by fastforce
qed

section \<open>The command\<close>

lemma logs_dropping_alt:
  assumes "logs m Q" and "\<And>l q r. Q l r \<Longrightarrow> list_all quiet q \<Longrightarrow> Q (l @ q) r"
  shows "logs (dropping (restore_alt_screen (logged net)) m) Q"
  unfolding logs_def
proof (intro allI impI)
  fix d d' r assume "dropping (restore_alt_screen (logged net)) m d = Some (d', r)"
  then obtain d1 where d1: "m d = Some (d1, r)" "d' = d1 \<or> d' = restore_alt_screen (logged net) d1"
    by (auto simp: dropping_def split: option.splits sum.splits cli_stop.splits)
  obtain l where l: "snd (dk_world d1) = snd (dk_world d) @ l" "Q l r" using assms(1) d1(1) unfolding logs_def by blast
  obtain p where "snd (dk_world (restore_alt_screen (logged net) d1)) = snd (dk_world d1) @ p" "list_all quiet p"
    by (rule restore_alt_log)
  then show "\<exists>l. snd (dk_world d') = snd (dk_world d) @ l \<and> Q l r"
    using d1(2) l assms(2) [OF l(2)] by (metis append_assoc)
qed

lemma justified_quiet: "list_all quiet l \<Longrightarrow> justified l"
  by (simp add: justified_def)

lemma justified_bind:
  assumes m: "hushed m" and f: "\<And>a. logs (f a) (\<lambda>l r. justified l)"
  shows "logs (bind_task m f) (\<lambda>l r. justified l)"
proof (rule logs_bind [OF m [unfolded hushed_def]])
  fix l a assume "list_all quiet l"
  then show "logs (f a) (\<lambda>l' r. justified (l @ l'))" by (intro logs_weaken [OF f] justified_before)
qed (rule justified_quiet)

lemma justified_hushed: "hushed m \<Longrightarrow> logs m (\<lambda>l r. justified l)"
  unfolding hushed_def by (erule logs_weaken) (rule justified_quiet)

lemma hushed_enter_screen: "hushed (enter_screen (logged net) what)"
  unfolding enter_screen_def
  by (intro hushed_bind hushed_print hushed_flush) (simp add: hushed_def logs_def)

lemma logs_pair_device: "logs (pair_device (logged net) env) (\<lambda>l r. justified l)"
proof -
  have live: "logs (bind_task (enter_screen (logged net) ''enter pairing screen'') (\<lambda>_.
      bind_task (call (unnoted (cw_clock_ms net))) (\<lambda>now. bind_task (draw_live (logged net) env c sz (r now)) (\<lambda>status_row.
      pair_loop (logged net) env c conn \<lparr>cv_size = sz, cv_status_row = status_row, cv_frame = 0\<rparr>))))
      (\<lambda>l r. justified l)" for c sz r conn
    by (intro justified_bind hushed_enter_screen hushed_call hushed_draw logs_pair_loop)
  have plain: "logs (bind_task (print_all (logged net) ls) (\<lambda>_.
      bind_task (call (unnoted (cw_clock_ms net))) (\<lambda>now. bind_task (case l now of Some l \<Rightarrow> println (logged net) l | None \<Rightarrow> finish ()) (\<lambda>_.
      pair_loop (logged net) env c conn view)))) (\<lambda>l r. justified l)" for ls l c conn view
    by (intro justified_bind hushed_print_all hushed_call logs_pair_loop)
      (auto split: option.split intro: hushed_intros)
  have drop: "logs m (\<lambda>l r. justified l) \<Longrightarrow> logs (dropping (restore_alt_screen (logged net)) m) (\<lambda>l r. justified l)" for m :: "('a \<times> desk_event list, unit) task"
    by (erule logs_dropping_alt) (rule justified_after)
  have note_ends: "hushed (stop e)" "hushed (bail s)" for e s by (intro hushed_intros)+
  show ?thesis
    unfolding pair_device_def Let_def logged_sel
    by (intro justified_bind hushed_connect_local)
      (auto split: prod.split sum.split
        intro!: justified_bind justified_hushed [OF hushed_stop] justified_hushed [OF hushed_bail] drop live plain
          hushed_request hushed_attempt hushed_call hushed_size)
qed

lemma unanswered_not_sent: "list_all unanswered l \<Longrightarrow> Sent (ApprovePairing i True) \<notin> set l"
  by (auto simp: list_all_iff)

lemma quiet_not_sent: "list_all quiet l \<Longrightarrow> Sent (ApprovePairing i b) \<notin> set l"
  by (auto simp: list_all_iff)

lemma agreed_unanswered: "agreed sas l \<Longrightarrow> list_all unanswered l"
  unfolding agreed_def shown_sas_def by (elim exE conjE, hypsubst) (auto dest!: quiet_all_unanswered)


end
