(* ===== verification/HostFs.thy ===== *)
theory HostFs
  imports Service "HOL-Library.AList"
begin

text \<open>
  The file system as the configuration, the socket and the logs see it (\<open>std::fs\<close>): entries by
  path, symbolic links in the last component, permission bits, owners and times.  A call may
  fail (\<open>hf_fault\<close>, by its number); a write that fails may leave a part of the text behind.
\<close>

unbundle bit_operations_syntax

section \<open>State\<close>

datatype fs_node = FsDir | FsFile rstr | FsSocket | FsLink rstr

record fs_entry =
  fe_node :: fs_node
  fe_mode :: "32 word"
  fe_uid :: nat
  fe_modified :: nat

record host_fs =
  hf_entries :: "(rstr \<times> fs_entry) list"
  hf_uid :: nat
  hf_umask :: "32 word"
  hf_time :: nat
  hf_ops :: nat
  hf_fault :: "nat \<Rightarrow> (rstr \<times> nat option) option"

text \<open>What \<open>std::env\<close> says that paths are made of.\<close>

record process_env =
  he_macos :: bool
  he_home :: "rstr option"
  he_temp_dir :: rstr
  he_xdg_config :: "rstr option"
  he_xdg_state :: "rstr option"
  he_xdg_runtime :: "rstr option"
  he_var :: "rstr \<Rightarrow> rstr option"

section \<open>Calls\<close>

definition look :: "host_fs \<Rightarrow> rstr \<Rightarrow> fs_entry option" where
  "look s p = map_of (hf_entries s) p"

definition put :: "rstr \<Rightarrow> fs_entry \<Rightarrow> host_fs \<Rightarrow> host_fs" where
  "put p e s = s\<lparr>hf_entries := AList.update p e (hf_entries s)\<rparr>"

definition unlink :: "rstr \<Rightarrow> host_fs \<Rightarrow> host_fs" where
  "unlink p s = s\<lparr>hf_entries := AList.delete p (hf_entries s)\<rparr>"

definition fs_call :: "(host_fs \<Rightarrow> host_fs \<times> (rstr + 'a)) \<Rightarrow> host_fs \<Rightarrow> host_fs \<times> (rstr + 'a)" where
  "fs_call f s = (let s1 = s\<lparr>hf_ops := Suc (hf_ops s)\<rparr> in
     case hf_fault s (hf_ops s) of Some (e, _) \<Rightarrow> (s1, Inl e) | None \<Rightarrow> f s1)"

text \<open>A path with its last component followed while it is a link, at most as often as Linux does.\<close>

fun follow_links :: "nat \<Rightarrow> host_fs \<Rightarrow> rstr \<Rightarrow> rstr option" where
  "follow_links 0 s p = None"
| "follow_links (Suc n) s p = (case look s p of
     Some e \<Rightarrow> (case fe_node e of FsLink target \<Rightarrow> follow_links n s target | _ \<Rightarrow> Some p)
   | None \<Rightarrow> Some p)"

definition MAX_LINKS :: nat where "MAX_LINKS = 40"

definition target_of :: "host_fs \<Rightarrow> rstr \<Rightarrow> (rstr \<times> fs_entry) option" where
  "target_of s p = (case follow_links (Suc MAX_LINKS) s p of
     None \<Rightarrow> None | Some q \<Rightarrow> map_option (Pair q) (look s q))"

definition is_dir :: "host_fs \<Rightarrow> rstr \<Rightarrow> bool" where
  "is_dir s p \<longleftrightarrow> (case target_of s p of Some (_, e) \<Rightarrow> fe_node e = FsDir | None \<Rightarrow> False)"

text \<open>\<open>Path::exists\<close>: a check that fails finds nothing.\<close>

definition fs_exists :: "rstr \<Rightarrow> host_fs \<Rightarrow> host_fs \<times> bool" where
  "fs_exists p s = (case fs_call (\<lambda>s. (s, Inr (target_of s p \<noteq> None))) s of
     (s, Inr b) \<Rightarrow> (s, b) | (s, Inl _) \<Rightarrow> (s, False))"

definition no_entry :: rstr where "no_entry = lit ''No such file or directory''"

definition symlink_metadata :: "rstr \<Rightarrow> host_fs \<Rightarrow> host_fs \<times> (rstr + fs_entry)" where
  "symlink_metadata p = fs_call (\<lambda>s. (s, case look s p of Some e \<Rightarrow> Inr e | None \<Rightarrow> Inl no_entry))"

definition fs_metadata :: "rstr \<Rightarrow> host_fs \<Rightarrow> host_fs \<times> (rstr + fs_entry)" where
  "fs_metadata p = fs_call (\<lambda>s. (s, case target_of s p of Some (_, e) \<Rightarrow> Inr e | None \<Rightarrow> Inl no_entry))"

text \<open>\<open>fs::create_dir_all\<close>: the directory, or first the ones above it.\<close>

definition mkdir :: "rstr \<Rightarrow> host_fs \<Rightarrow> host_fs \<times> (rstr + bool)" where
  "mkdir p = fs_call (\<lambda>s.
     if look s p \<noteq> None then (s, Inl (lit ''File exists''))
     else if (case path_parent p of None \<Rightarrow> False | Some q \<Rightarrow> q \<noteq> [] \<and> \<not> is_dir s q) then (s, Inr False)
     else (put p \<lparr>fe_node = FsDir, fe_mode = 511 AND NOT (hf_umask s), fe_uid = hf_uid s, fe_modified = hf_time s\<rparr> s, Inr True))"

lemma path_parent_shorter: "path_parent p = Some q \<Longrightarrow> length q < length p"
proof -
  assume q: "path_parent p = Some q"
  define p1 where "p1 = rev (dropWhile (\<lambda>c. c = 47) (rev p))"
  define d where "d = rev (dropWhile (\<lambda>c. c \<noteq> 47) (rev p1))"
  define e where "e = rev (dropWhile (\<lambda>c. c = 47) (rev d))"
  have p1: "p1 \<noteq> []" and Q: "q = (if d = [] then [] else if e = [] then [47] else e)"
    using q [unfolded path_parent_def Let_def, folded p1_def, folded d_def, folded e_def]
    by (simp_all split: if_splits)
  have "length p1 \<le> length p" using length_dropWhile_le [of _ "rev p"] by (simp add: p1_def)
  moreover have "last p1 \<noteq> 47"
    using p1 hd_dropWhile [of "\<lambda>c. c = 47" "rev p"] by (simp add: p1_def last_rev)
  then have "length d < length p1"
    using p1 length_dropWhile_le [of "\<lambda>c. c \<noteq> 47" "tl (rev p1)"]
    by (cases p1 rule: rev_cases) (simp_all add: d_def)
  moreover have "d \<noteq> [] \<Longrightarrow> e = [] \<Longrightarrow> Suc 0 \<le> length d" "length e \<le> length d"
    using length_dropWhile_le [of "\<lambda>c. c = 47" "rev d"] by (simp_all add: e_def Suc_le_eq)
  ultimately show "length q < length p" using Q by (auto split: if_splits)
qed

function create_dir_all :: "rstr \<Rightarrow> host_fs \<Rightarrow> host_fs \<times> (rstr + unit)" where
  "create_dir_all p s =
     (if p = [] then (s, Inr ())
      else case mkdir p s of
        (s, Inr True) \<Rightarrow> (s, Inr ())
      | (s, Inl e) \<Rightarrow> (s, if is_dir s p then Inr () else Inl e)
      | (s, Inr False) \<Rightarrow> (case path_parent p of
          None \<Rightarrow> (s, Inl (lit ''failed to create whole tree''))
        | Some q \<Rightarrow> (case create_dir_all q s of
            (s, Inl e) \<Rightarrow> (s, Inl e)
          | (s, Inr _) \<Rightarrow> (case mkdir p s of
              (s, Inr True) \<Rightarrow> (s, Inr ())
            | (s, Inl e) \<Rightarrow> (s, if is_dir s p then Inr () else Inl e)
            | (s, Inr False) \<Rightarrow> (s, Inl no_entry)))))"
  by pat_completeness auto
termination by (relation "measure (\<lambda>(p, _). length p)") (auto dest: path_parent_shorter)

declare create_dir_all.simps [simp del]

definition set_permissions :: "rstr \<Rightarrow> 32 word \<Rightarrow> host_fs \<Rightarrow> host_fs \<times> (rstr + unit)" where
  "set_permissions p mode = fs_call (\<lambda>s. case target_of s p of
     None \<Rightarrow> (s, Inl no_entry)
   | Some (q, e) \<Rightarrow>
       if fe_uid e = hf_uid s then (put q (e\<lparr>fe_mode := mode\<rparr>) s, Inr ())
       else (s, Inl (lit ''Operation not permitted'')))"

definition store_file :: "rstr \<Rightarrow> rstr \<Rightarrow> host_fs \<Rightarrow> host_fs \<times> (rstr + unit)" where
  "store_file p text s = (case follow_links (Suc MAX_LINKS) s p of
     None \<Rightarrow> (s, Inl (lit ''Too many levels of symbolic links''))
   | Some q \<Rightarrow> (case look s q of
       Some e \<Rightarrow> (case fe_node e of
         FsFile _ \<Rightarrow> (put q (e\<lparr>fe_node := FsFile text, fe_modified := hf_time s\<rparr>) s, Inr ())
       | _ \<Rightarrow> (s, Inl (lit ''Is a directory'')))
     | None \<Rightarrow>
         if (case path_parent q of None \<Rightarrow> False | Some d \<Rightarrow> d \<noteq> [] \<and> \<not> is_dir s d) then (s, Inl no_entry)
         else (put q \<lparr>fe_node = FsFile text, fe_mode = 438 AND NOT (hf_umask s), fe_uid = hf_uid s,
           fe_modified = hf_time s\<rparr> s, Inr ())))"

definition fs_write :: "rstr \<Rightarrow> rstr \<Rightarrow> host_fs \<Rightarrow> host_fs \<times> (rstr + unit)" where
  "fs_write p text s = (let s1 = s\<lparr>hf_ops := Suc (hf_ops s)\<rparr> in
     case hf_fault s (hf_ops s) of
       None \<Rightarrow> store_file p text s1
     | Some (e, None) \<Rightarrow> (s1, Inl e)
     | Some (e, Some n) \<Rightarrow> (fst (store_file p (take n text) s1), Inl e))"

definition fs_rename :: "rstr \<Rightarrow> rstr \<Rightarrow> host_fs \<Rightarrow> host_fs \<times> (rstr + unit)" where
  "fs_rename p q = fs_call (\<lambda>s. case look s p of
     None \<Rightarrow> (s, Inl no_entry)
   | Some e \<Rightarrow> (case look s q of
       Some old \<Rightarrow> if fe_node old = FsDir then (s, Inl (lit ''Is a directory'')) else (put q e (unlink p s), Inr ())
     | None \<Rightarrow> (put q e (unlink p s), Inr ())))"

definition remove_file :: "rstr \<Rightarrow> host_fs \<Rightarrow> host_fs \<times> (rstr + unit)" where
  "remove_file p = fs_call (\<lambda>s. case look s p of
     None \<Rightarrow> (s, Inl no_entry)
   | Some e \<Rightarrow> if fe_node e = FsDir then (s, Inl (lit ''Is a directory'')) else (unlink p s, Inr ()))"

definition read_to_string :: "rstr \<Rightarrow> host_fs \<Rightarrow> host_fs \<times> (rstr + rstr)" where
  "read_to_string p = fs_call (\<lambda>s. (s, case target_of s p of
     Some (_, e) \<Rightarrow> (case fe_node e of FsFile text \<Rightarrow> Inr text | _ \<Rightarrow> Inl (lit ''Is a directory''))
   | None \<Rightarrow> Inl no_entry))"

definition read_dir :: "rstr \<Rightarrow> host_fs \<Rightarrow> host_fs \<times> (rstr + rstr list)" where
  "read_dir p = fs_call (\<lambda>s. (s,
     if is_dir s p then Inr (filter (\<lambda>q. path_parent q = Some p) (map fst (hf_entries s))) else Inl no_entry))"

text \<open>\<open>Path::file_name\<close> and \<open>Path::with_extension\<close> of a path that does not end in a slash.\<close>

definition last_component :: "rstr \<Rightarrow> rstr" where
  "last_component p = rev (takeWhile (\<lambda>c. c \<noteq> 47) (rev p))"

definition file_stem :: "rstr \<Rightarrow> rstr" where
  "file_stem p = (let n = last_component p; stem = rev (tl (dropWhile (\<lambda>c. c \<noteq> 46) (rev n))) in
     if 46 \<notin> set n \<or> stem = [] then n else stem)"

definition with_extension :: "rstr \<Rightarrow> rstr \<Rightarrow> rstr" where
  "with_extension p ext = take (length p - length (last_component p)) p @ file_stem p @ [46] @ ext"

section \<open>Sequences of calls\<close>

type_synonym 'a host_task = "host_fs \<Rightarrow> host_fs \<times> (cli_error + 'a)"

definition bind_host :: "'a host_task \<Rightarrow> ('a \<Rightarrow> 'b host_task) \<Rightarrow> 'b host_task" where
  "bind_host m f s = (case m s of (s, Inl e) \<Rightarrow> (s, Inl e) | (s, Inr a) \<Rightarrow> f a s)"

definition done_host :: "'a \<Rightarrow> 'a host_task" where "done_host a s = (s, Inr a)"
definition fail_host :: "cli_error \<Rightarrow> 'a host_task" where "fail_host e s = (s, Inl e)"

definition with_context :: "rstr \<Rightarrow> (host_fs \<Rightarrow> host_fs \<times> (rstr + 'a)) \<Rightarrow> 'a host_task" where
  "with_context context f s = in_context context (f s)"

definition ask_host :: "(host_fs \<Rightarrow> host_fs \<times> 'a) \<Rightarrow> 'a host_task" where
  "ask_host f s = (case f s of (s, a) \<Rightarrow> (s, Inr a))"

section \<open>Lemmas\<close>

lemma look_put [simp]: "look (put p e s) q = (if q = p then Some e else look s q)"
  by (simp add: look_def put_def update_conv')

lemma look_unlink [simp]: "look (unlink p s) q = (if q = p then None else look s q)"
  by (simp add: look_def unlink_def delete_conv')

lemma look_ops [simp]: "look (s\<lparr>hf_ops := n\<rparr>) p = look s p"
  by (simp add: look_def)

lemma uid_put [simp]: "hf_uid (put p e s) = hf_uid s" "hf_uid (unlink p s) = hf_uid s"
  by (simp_all add: put_def unlink_def)

lemma bind_host_Inr: "bind_host m f s = (s', Inr b) \<longleftrightarrow> (\<exists>s1 a. m s = (s1, Inr a) \<and> f a s1 = (s', Inr b))"
  by (auto simp: bind_host_def split: prod.splits sum.splits)

lemma with_context_Inr: "with_context c f s = (s', Inr a) \<longleftrightarrow> f s = (s', Inr a)"
  by (auto simp: with_context_def in_context_def split: prod.splits sum.splits)

lemma fs_call_Inr: "fs_call f s = (s', Inr a) \<longleftrightarrow> hf_fault s (hf_ops s) = None \<and> f (s\<lparr>hf_ops := Suc (hf_ops s)\<rparr>) = (s', Inr a)"
  by (auto simp: fs_call_def Let_def split: option.splits)

text \<open>What kind of thing is at a path; \<open>keeps p t m\<close>: the command leaves the one at \<open>p\<close>, if \<open>t\<close> is no link.\<close>

definition node_at :: "host_fs \<Rightarrow> rstr \<Rightarrow> fs_node option" where
  "node_at s p = map_option fe_node (look s p)"

definition no_link :: "host_fs \<Rightarrow> rstr \<Rightarrow> bool" where
  "no_link s p \<longleftrightarrow> (\<forall>target. node_at s p \<noteq> Some (FsLink target))"

definition keeps :: "rstr \<Rightarrow> rstr \<Rightarrow> (host_fs \<Rightarrow> host_fs \<times> 'a) \<Rightarrow> bool" where
  "keeps p t m \<longleftrightarrow> (\<forall>s. no_link s t \<longrightarrow> node_at (fst (m s)) p = node_at s p \<and> no_link (fst (m s)) t)"

lemma node_at_ops [simp]: "node_at (s\<lparr>hf_ops := n\<rparr>) p = node_at s p" "no_link (s\<lparr>hf_ops := n\<rparr>) p = no_link s p"
  by (simp_all add: node_at_def no_link_def)

lemma node_at_put [simp]: "node_at (put q e s) p = (if p = q then Some (fe_node e) else node_at s p)"
  by (simp add: node_at_def)

lemma no_link_put: "no_link s t \<Longrightarrow> (\<And>target. fe_node e \<noteq> FsLink target) \<Longrightarrow> no_link (put q e s) t"
  by (simp add: no_link_def)

lemma keeps_bind:
  assumes "keeps p t m" and "\<And>a. keeps p t (f a)"
  shows "keeps p t (bind_host m f)"
  unfolding keeps_def bind_host_def
proof (intro allI impI)
  fix s assume "no_link s t"
  obtain s1 r where 1: "m s = (s1, r)" by fastforce
  then have "node_at s1 p = node_at s p \<and> no_link s1 t" using assms(1) \<open>no_link s t\<close> unfolding keeps_def by (metis fst_conv)
  then show "node_at (fst (case m s of (s, Inl e) \<Rightarrow> (s, Inl e) | (s, Inr a) \<Rightarrow> f a s)) p = node_at s p \<and>
      no_link (fst (case m s of (s, Inl e) \<Rightarrow> (s, Inl e) | (s, Inr a) \<Rightarrow> f a s)) t"
    using assms(2) 1 unfolding keeps_def by (cases r) auto
qed

lemma keeps_call:
  "(\<And>s. no_link s t \<Longrightarrow> node_at (fst (f s)) p = node_at s p \<and> no_link (fst (f s)) t) \<Longrightarrow> keeps p t (fs_call f)"
  unfolding keeps_def fs_call_def Let_def by (auto split: option.split)

lemma keeps_ends: "keeps p t (done_host a)" "keeps p t (fail_host e)"
  by (simp_all add: keeps_def done_host_def fail_host_def)

lemma keeps_context: "keeps p t f \<Longrightarrow> keeps p t (with_context c f)"
  unfolding keeps_def with_context_def in_context_def by (simp split: prod.split sum.split) (metis fst_conv)

lemma keeps_ask: "keeps p t f \<Longrightarrow> keeps p t (ask_host f)"
  unfolding keeps_def ask_host_def by (simp split: prod.split) (metis fst_conv)

lemma keeps_reads:
  "keeps p t (fs_exists q)" "keeps p t (symlink_metadata q)" "keeps p t (fs_metadata q)" "keeps p t (read_to_string q)"
  unfolding keeps_def fs_exists_def symlink_metadata_def fs_metadata_def read_to_string_def fs_call_def Let_def
  by (simp_all split: option.split)

lemma keeps_mkdir: "q \<noteq> p \<Longrightarrow> keeps p t (mkdir q)"
  unfolding mkdir_def by (rule keeps_call) (auto intro: no_link_put)

lemma keeps_create: "length q < length p \<Longrightarrow> keeps p t (create_dir_all q)"
  unfolding keeps_def
proof (intro allI impI)
  fix s assume "length q < length p" "no_link s t"
  then show "node_at (fst (create_dir_all q s)) p = node_at s p \<and> no_link (fst (create_dir_all q s)) t"
  proof (induction q s rule: create_dir_all.induct)
    case (1 q s)
    have step: "node_at (fst (mkdir q s)) p = node_at s p \<and> no_link (fst (mkdir q s)) t" if "no_link s t" for s
      using keeps_mkdir [of q p t] "1.prems"(1) that unfolding keeps_def by blast
    show ?case
    proof (cases "q = []")
      case True
      then show ?thesis using "1.prems"(2) by (simp add: create_dir_all.simps [of "[]"])
    next
      case False
      obtain s1 r1 where 2: "mkdir q s = (s1, r1)" by fastforce
      have s1: "node_at s1 p = node_at s p \<and> no_link s1 t" using step [OF "1.prems"(2)] 2 by simp
      show ?thesis
      proof (cases "r1 = Inr False \<and> path_parent q \<noteq> None")
        case False
        then show ?thesis using \<open>q \<noteq> []\<close> 2 s1
          by (auto simp: create_dir_all.simps [of q s] split: sum.split option.splits bool.splits)
      next
        case True
        then obtain d where d: "path_parent q = Some d" by blast
        obtain s2 r2 where 3: "create_dir_all d s1 = (s2, r2)" by fastforce
        have s2: "node_at s2 p = node_at s p \<and> no_link s2 t"
          using 1(1) [OF \<open>q \<noteq> []\<close> 2 [symmetric] _ refl d] True s1 3 path_parent_shorter [OF d] "1.prems"(1) by auto
        obtain s3 r3 where 4: "mkdir q s2 = (s3, r3)" by fastforce
        have "node_at s3 p = node_at s p \<and> no_link s3 t" using step [of s2] s2 4 by simp
        then show ?thesis using \<open>q \<noteq> []\<close> True 2 3 4 d s2
          by (simp add: create_dir_all.simps [of q s] split: sum.split bool.split)
      qed
    qed
  qed
qed

lemma target_look: "target_of s p = Some (q, e) \<Longrightarrow> look s q = Some e"
  by (auto simp: target_of_def split: option.splits)

lemma keeps_chmod: "keeps p t (set_permissions q mode)"
  unfolding set_permissions_def
proof (rule keeps_call)
  fix s assume "no_link s t"
  then show "node_at (fst (case target_of s q of None \<Rightarrow> (s, Inl no_entry)
      | Some (q, e) \<Rightarrow> if fe_uid e = hf_uid s then (put q (e\<lparr>fe_mode := mode\<rparr>) s, Inr ())
         else (s, Inl (lit ''Operation not permitted'')))) p = node_at s p \<and>
    no_link (fst (case target_of s q of None \<Rightarrow> (s, Inl no_entry)
      | Some (q, e) \<Rightarrow> if fe_uid e = hf_uid s then (put q (e\<lparr>fe_mode := mode\<rparr>) s, Inr ())
         else (s, Inl (lit ''Operation not permitted'')))) t"
    using target_look [of s q] by (auto simp: node_at_def no_link_def split: option.split)
qed

lemma follow_plain: "no_link s t \<Longrightarrow> follow_links (Suc n) s t = Some t"
  by (auto simp: no_link_def node_at_def split: option.split fs_node.split)

lemma keeps_write: "p \<noteq> t \<Longrightarrow> keeps p t (fs_write t contents)"
proof -
  assume "p \<noteq> t"
  have "node_at (fst (store_file t u s)) p = node_at s p \<and> no_link (fst (store_file t u s)) t" if "no_link s t" for s u
    using \<open>p \<noteq> t\<close> that follow_plain [OF that]
    by (auto simp: store_file_def split: option.split fs_node.split intro!: no_link_put simp del: follow_links.simps)
  then show ?thesis unfolding keeps_def fs_write_def Let_def by (auto split: option.split)
qed

lemmas keeps_intros = keeps_bind keeps_ends keeps_context keeps_ask keeps_reads keeps_create keeps_chmod keeps_write

end
