(* ===== verification/Settings.thy ===== *)
theory Settings
  imports HostFs
begin

text \<open>
  The settings: \<open>config.toml\<close> as \<open>crates/cli/src/settings.rs\<close> reads and rewrites it, as
  \<open>crates/daemon/src/config.rs\<close> reads it, and the cache of \<open>crates/cli/src/update_notice.rs\<close>
  beside it.  TOML and JSON as texts are parameters; how a table becomes a struct and back is
  what \<open>serde\<close> derives from the attributes.
\<close>

unbundle bit_operations_syntax

section \<open>TOML\<close>

datatype toml = TString rstr | TBool bool | TTable "rstr \<Rightarrow> toml option" | TOther rstr

type_synonym toml_table = "rstr \<Rightarrow> toml option"

record toml_crate =
  tc_parse :: "rstr \<Rightarrow> rstr + toml_table"
  tc_encode :: "toml_table \<Rightarrow> rstr + rstr"
  tc_type_error :: "rstr \<Rightarrow> rstr"

text \<open>A key of a table: the default when it is missing, an error when it is of another type.\<close>

definition toml_key :: "toml_crate \<Rightarrow> char list \<Rightarrow> 'a \<Rightarrow> (toml \<Rightarrow> (rstr + 'a) option) \<Rightarrow> toml_table \<Rightarrow> rstr + 'a" where
  "toml_key tc key missing read t = (case t (lit key) of
     None \<Rightarrow> Inr missing
   | Some v \<Rightarrow> (case read v of Some r \<Rightarrow> r | None \<Rightarrow> Inl (tc_type_error tc (lit key))))"

definition toml_bool :: "toml_crate \<Rightarrow> char list \<Rightarrow> bool \<Rightarrow> toml_table \<Rightarrow> rstr + bool" where
  "toml_bool tc key missing = toml_key tc key missing (\<lambda>v. case v of TBool b \<Rightarrow> Some (Inr b) | _ \<Rightarrow> None)"

definition toml_string :: "toml_crate \<Rightarrow> char list \<Rightarrow> rstr \<Rightarrow> toml_table \<Rightarrow> rstr + rstr" where
  "toml_string tc key missing = toml_key tc key missing (\<lambda>v. case v of TString s \<Rightarrow> Some (Inr s) | _ \<Rightarrow> None)"

definition toml_section :: "toml_crate \<Rightarrow> char list \<Rightarrow> 'a \<Rightarrow> (toml_table \<Rightarrow> rstr + 'a) \<Rightarrow> toml_table \<Rightarrow> rstr + 'a" where
  "toml_section tc key missing read = toml_key tc key missing (\<lambda>v. case v of TTable t \<Rightarrow> Some (read t) | _ \<Rightarrow> None)"

definition and_then :: "'e + 'a \<Rightarrow> ('a \<Rightarrow> 'e + 'b) \<Rightarrow> 'e + 'b" where
  "and_then r f = (case r of Inl e \<Rightarrow> Inl e | Inr a \<Rightarrow> f a)"

section \<open>The command line's settings\<close>

record terminal_config =
  te_detach_prefix :: rstr
  te_extra :: toml_table

record user_config =
  uc_scrollback_encryption :: bool
  uc_telemetry :: bool
  uc_terminal :: terminal_config
  uc_extra :: toml_table

definition default_detach_prefix :: rstr where "default_detach_prefix = lit ''ctrl-b''"

definition terminal_default :: terminal_config where
  "terminal_default = \<lparr>te_detach_prefix = default_detach_prefix, te_extra = Map.empty\<rparr>"

definition user_default :: user_config where
  "user_default = \<lparr>uc_scrollback_encryption = True, uc_telemetry = False, uc_terminal = terminal_default,
     uc_extra = Map.empty\<rparr>"

definition without :: "char list list \<Rightarrow> toml_table \<Rightarrow> toml_table" where
  "without keys t = (\<lambda>k. if k \<in> set (map lit keys) then None else t k)"

definition decode_terminal :: "toml_crate \<Rightarrow> toml_table \<Rightarrow> rstr + terminal_config" where
  "decode_terminal tc t =
     and_then (toml_string tc ''detach_prefix'' default_detach_prefix t) (\<lambda>prefix.
     Inr \<lparr>te_detach_prefix = prefix, te_extra = without [''detach_prefix''] t\<rparr>)"

text \<open>Only the whole and \<open>terminal\<close> keep the keys they do not know; the two switches do not.\<close>

definition decode_user :: "toml_crate \<Rightarrow> toml_table \<Rightarrow> rstr + user_config" where
  "decode_user tc t =
     and_then (toml_section tc ''scrollback_encryption'' True (toml_bool tc ''enabled'' True) t) (\<lambda>enabled.
     and_then (toml_section tc ''telemetry'' False (toml_bool tc ''opt_in'' False) t) (\<lambda>opt_in.
     and_then (toml_section tc ''terminal'' terminal_default (decode_terminal tc) t) (\<lambda>terminal.
     Inr \<lparr>uc_scrollback_encryption = enabled, uc_telemetry = opt_in, uc_terminal = terminal,
          uc_extra = without [''scrollback_encryption'', ''telemetry'', ''terminal''] t\<rparr>)))"

definition encode_user :: "user_config \<Rightarrow> toml_table" where
  "encode_user c = (uc_extra c)(
     lit ''scrollback_encryption'' \<mapsto> TTable [lit ''enabled'' \<mapsto> TBool (uc_scrollback_encryption c)],
     lit ''telemetry'' \<mapsto> TTable [lit ''opt_in'' \<mapsto> TBool (uc_telemetry c)],
     lit ''terminal'' \<mapsto> TTable ((te_extra (uc_terminal c))(lit ''detach_prefix'' \<mapsto> TString (te_detach_prefix (uc_terminal c)))))"

definition read_config :: "toml_crate \<Rightarrow> rstr \<Rightarrow> user_config host_task" where
  "read_config tc path =
     bind_host (ask_host (fs_exists path)) (\<lambda>found.
     if \<not> found then done_host user_default
     else bind_host (with_context (lit ''read settings file '' @ path) (read_to_string path)) (\<lambda>contents.
       case and_then (tc_parse tc contents) (decode_user tc) of
         Inl e \<Rightarrow> fail_host (Because (lit ''parse settings file '' @ path) (Bail e))
       | Inr config \<Rightarrow> done_host config))"

definition prepare_config_dir :: "rstr \<Rightarrow> unit host_task" where
  "prepare_config_dir path =
     bind_host (ask_host (fs_exists path)) (\<lambda>found.
     bind_host (if found
       then bind_host (with_context (lit ''stat settings directory'') (symlink_metadata path)) (\<lambda>meta.
         if \<exists>target. fe_node meta = FsLink target
         then fail_host (Bail (lit ''refusing to use symlinked settings directory: '' @ path)) else done_host ())
       else done_host ()) (\<lambda>_.
     bind_host (with_context (lit ''create '' @ path) (create_dir_all path)) (\<lambda>_.
     with_context (lit ''chmod '' @ path) (set_permissions path 448))))"

definition set_private_file_permissions :: "rstr \<Rightarrow> unit host_task" where
  "set_private_file_permissions path = with_context (lit ''chmod '' @ path) (set_permissions path 384)"

text \<open>A file is written beside its place and moved there.\<close>

definition write_beside :: "rstr \<Rightarrow> rstr \<Rightarrow> rstr \<Rightarrow> unit host_task" where
  "write_beside tmp path encoded =
     bind_host (with_context (lit ''write '' @ tmp) (fs_write tmp encoded)) (\<lambda>_. set_private_file_permissions tmp)"

definition write_config :: "toml_crate \<Rightarrow> rstr \<Rightarrow> user_config \<Rightarrow> unit host_task" where
  "write_config tc path config = (case path_parent path of
     None \<Rightarrow> fail_host (Bail (lit ''settings path has no parent: '' @ path))
   | Some parent \<Rightarrow>
       bind_host (prepare_config_dir parent) (\<lambda>_.
       case tc_encode tc (encode_user config) of
         Inl e \<Rightarrow> fail_host (Because (lit ''encode settings as TOML'') (Bail e))
       | Inr encoded \<Rightarrow>
           let tmp = with_extension path (lit ''toml.tmp'') in
           bind_host (write_beside tmp path encoded) (\<lambda>_.
           with_context (lit ''replace settings file '' @ path) (fs_rename tmp path))))"

text \<open>A status is the path and the switch.\<close>

definition telemetry_status_at_path :: "toml_crate \<Rightarrow> rstr \<Rightarrow> (rstr \<times> bool) host_task" where
  "telemetry_status_at_path tc path = bind_host (read_config tc path) (\<lambda>config. done_host (path, uc_telemetry config))"

definition scrollback_encryption_status_at_path :: "toml_crate \<Rightarrow> rstr \<Rightarrow> (rstr \<times> bool) host_task" where
  "scrollback_encryption_status_at_path tc path =
     bind_host (read_config tc path) (\<lambda>config. done_host (path, uc_scrollback_encryption config))"

definition set_telemetry_at_path :: "toml_crate \<Rightarrow> rstr \<Rightarrow> bool \<Rightarrow> (rstr \<times> bool) host_task" where
  "set_telemetry_at_path tc path enabled =
     bind_host (read_config tc path) (\<lambda>config.
     let config = config\<lparr>uc_telemetry := enabled\<rparr> in
     bind_host (write_config tc path config) (\<lambda>_. done_host (path, uc_telemetry config)))"

definition set_scrollback_encryption_at_path :: "toml_crate \<Rightarrow> rstr \<Rightarrow> bool \<Rightarrow> (rstr \<times> bool) host_task" where
  "set_scrollback_encryption_at_path tc path enabled =
     bind_host (read_config tc path) (\<lambda>config.
     let config = config\<lparr>uc_scrollback_encryption := enabled\<rparr> in
     bind_host (write_config tc path config) (\<lambda>_. done_host (path, uc_scrollback_encryption config)))"

section \<open>Texts\<close>

definition set_env :: "(rstr \<Rightarrow> rstr option) \<Rightarrow> char list \<Rightarrow> rstr option" where
  "set_env env key = (case env (lit key) of Some v \<Rightarrow> if trim v = [] then None else Some v | None \<Rightarrow> None)"

definition parse_bool_with_name :: "rstr \<Rightarrow> char list \<Rightarrow> rstr + bool" where
  "parse_bool_with_name v key =
     (let w = str_lower (trim v) in
      if w \<in> set (map lit [''1'', ''true'', ''yes'', ''on'']) then Inr True
      else if w \<in> set (map lit [''0'', ''false'', ''no'', ''off'']) then Inr False
      else Inl (lit ''invalid boolean value for '' @ lit key @ lit '': '' @ w))"

definition scrollback_encryption_env_override :: "(rstr \<Rightarrow> rstr option) \<Rightarrow> rstr + bool option" where
  "scrollback_encryption_env_override env = (case set_env env ''SHELLY_SCROLLBACK_ENCRYPTION_ENABLED'' of
     None \<Rightarrow> Inr None
   | Some v \<Rightarrow> and_then (parse_bool_with_name v ''SHELLY_SCROLLBACK_ENCRYPTION_ENABLED'') (\<lambda>b. Inr (Some b)))"

definition strip_ascii_case_prefix :: "rstr \<Rightarrow> char list \<Rightarrow> rstr option" where
  "strip_ascii_case_prefix v p =
     (if length p \<le> length v \<and> str_lower (take (length p) v) = str_lower (lit p) then Some (drop (length p) v) else None)"

definition first_some :: "'a option list \<Rightarrow> 'a option" where
  "first_some xs = (case filter (\<lambda>x. x \<noteq> None) xs of [] \<Rightarrow> None | x # _ \<Rightarrow> x)"

definition parse_detach_prefix :: "rstr \<Rightarrow> rstr + 8 word" where
  "parse_detach_prefix v =
     (let v = trim v in
      case first_some [strip_prefix [94] v, strip_ascii_case_prefix v ''ctrl-'', strip_ascii_case_prefix v ''control-'',
          strip_ascii_case_prefix v ''c-''] of
        Some control \<Rightarrow> (case control of
          [character] \<Rightarrow>
            let upper = to_ascii_uppercase character in
            if 64 \<le> upper \<and> upper \<le> 95 then Inr (word_of_nat upper AND 31)
            else if upper = 63 then Inr 127
            else Inl (lit ''invalid terminal.detach_prefix: '' @ v)
        | _ \<Rightarrow> Inl (lit ''invalid terminal.detach_prefix: '' @ v))
      | None \<Rightarrow> (case v of
          [c] \<Rightarrow> if c < 128 then Inr (word_of_nat c)
            else Inl (lit ''invalid terminal.detach_prefix: '' @ v @
              lit ''; use a single ASCII character or a control key such as ctrl-b'')
        | _ \<Rightarrow> Inl (lit ''invalid terminal.detach_prefix: '' @ v @
            lit ''; use a single ASCII character or a control key such as ctrl-b'')))"

definition default_config_dir :: "process_env \<Rightarrow> rstr" where
  "default_config_dir env =
     (let home = (case he_home env of Some h \<Rightarrow> h | None \<Rightarrow> he_temp_dir env) in
      if he_macos env then path_join (path_join (path_join home (lit ''Library'')) (lit ''Application Support'')) (lit ''app.shelly'')
      else case he_xdg_config env of
        Some config_home \<Rightarrow> path_join config_home (lit ''shelly'')
      | None \<Rightarrow> path_join (path_join home (lit ''.config'')) (lit ''shelly''))"

definition default_config_path :: "process_env \<Rightarrow> rstr" where
  "default_config_path env = path_join (default_config_dir env) (lit ''config.toml'')"

definition detach_prefix :: "toml_crate \<Rightarrow> process_env \<Rightarrow> 8 word host_task" where
  "detach_prefix tc env =
     bind_host (read_config tc (default_config_path env)) (\<lambda>config.
     case parse_detach_prefix (te_detach_prefix (uc_terminal config)) of
       Inl e \<Rightarrow> fail_host (Bail e) | Inr b \<Rightarrow> done_host b)"

section \<open>The cache of the update check\<close>

text \<open>JSON, versions and the npm registry are parameters.\<close>

definition CHECK_INTERVAL_MS :: nat where "CHECK_INTERVAL_MS = 24 * 60 * 60 * 1000"

record update_cache =
  up_checked_at_ms :: nat
  up_latest_version :: "rstr option"

record 'v update_crates =
  uk_parse_cache :: "rstr \<Rightarrow> update_cache option"
  uk_encode_cache :: "update_cache \<Rightarrow> rstr + rstr"
  uk_parse_version :: "rstr \<Rightarrow> 'v option"
  uk_newer :: "'v \<Rightarrow> 'v \<Rightarrow> bool"
  uk_version_text :: "'v \<Rightarrow> rstr"

definition notice_for_latest :: "'v update_crates \<Rightarrow> rstr \<Rightarrow> rstr \<Rightarrow> rstr option" where
  "notice_for_latest uk current_version latest_version =
     (case (uk_parse_version uk current_version, uk_parse_version uk latest_version) of
        (Some current, Some latest) \<Rightarrow>
          if uk_newer uk latest current
          then Some (lit ''shelly '' @ uk_version_text uk latest @ lit '' available - run `npm update -g shellykit`'')
          else None
      | _ \<Rightarrow> None)"

definition cache_is_fresh :: "update_cache \<Rightarrow> nat \<Rightarrow> bool" where
  "cache_is_fresh cache now \<longleftrightarrow> now - up_checked_at_ms cache < CHECK_INTERVAL_MS"

definition read_cache :: "'v update_crates \<Rightarrow> rstr \<Rightarrow> update_cache option host_task" where
  "read_cache uk path s = (case read_to_string path s of
     (s, Inr contents) \<Rightarrow> (s, Inr (uk_parse_cache uk contents))
   | (s, Inl e) \<Rightarrow> if e = no_entry then (s, Inr None) else (s, Inl (Because (lit ''read '' @ path) (Bail e))))"

definition write_cache :: "'v update_crates \<Rightarrow> rstr \<Rightarrow> update_cache \<Rightarrow> unit host_task" where
  "write_cache uk path cache = (case path_parent path of
     None \<Rightarrow> fail_host (Bail (lit ''update cache path has no parent: '' @ path))
   | Some parent \<Rightarrow>
       bind_host (prepare_config_dir parent) (\<lambda>_.
       case uk_encode_cache uk cache of
         Inl e \<Rightarrow> fail_host (Because (lit ''encode update-check cache'') (Bail e))
       | Inr encoded \<Rightarrow>
           let tmp = with_extension path (lit ''json.tmp'') in
           bind_host (write_beside tmp path encoded) (\<lambda>_.
           with_context (lit ''replace update-check cache '' @ path) (fs_rename tmp path))))"

text \<open>\<open>fetched\<close> is what the registry answers, if it is asked; whether it was is the second value.\<close>

definition check_for_update_with ::
    "'v update_crates \<Rightarrow> rstr \<Rightarrow> rstr \<Rightarrow> nat \<Rightarrow> rstr option \<Rightarrow> (rstr option \<times> bool) host_task" where
  "check_for_update_with uk path current_version now fetched =
     bind_host (read_cache uk path) (\<lambda>cache.
     case (case cache of Some c \<Rightarrow> if cache_is_fresh c now then Some c else None | None \<Rightarrow> None) of
       Some c \<Rightarrow> done_host (Option.bind (up_latest_version c) (notice_for_latest uk current_version), False)
     | None \<Rightarrow>
         bind_host (write_cache uk path \<lparr>up_checked_at_ms = now, up_latest_version = fetched\<rparr>) (\<lambda>_.
         done_host (Option.bind fetched (notice_for_latest uk current_version), True)))"

definition default_cache_path :: "process_env \<Rightarrow> rstr" where
  "default_cache_path env = path_join (default_config_dir env) (lit ''update-check.json'')"

definition update_check_disabled :: "(rstr \<Rightarrow> rstr option) \<Rightarrow> bool" where
  "update_check_disabled env \<longleftrightarrow> (case env (lit ''SHELLY_DISABLE_UPDATE_CHECK'') of
     Some v \<Rightarrow> v \<in> set (map lit [''1'', ''true'', ''TRUE'', ''yes'', ''YES'']) | None \<Rightarrow> False)"

text \<open>The line printed, if any.\<close>

definition maybe_print_update_notice ::
    "'v update_crates \<Rightarrow> process_env \<Rightarrow> rstr \<Rightarrow> nat \<Rightarrow> rstr option \<Rightarrow> host_fs \<Rightarrow> host_fs \<times> rstr option" where
  "maybe_print_update_notice uk env version now fetched s =
     (if update_check_disabled (he_var env) then (s, None)
      else case check_for_update_with uk (default_cache_path env) version now fetched s of
        (s, Inr (notice, _)) \<Rightarrow> (s, notice) | (s, Inl _) \<Rightarrow> (s, None))"

end
