(* ===== verification/Hostside.thy ===== *)
theory Hostside
  imports Settings
begin

text \<open>
  The daemon's side of the file system: its configuration (\<open>crates/daemon/src/config.rs\<close>), the
  place of the control socket (\<open>paths.rs\<close>), the log files (\<open>logging.rs\<close>) and the start of the
  process (\<open>main.rs\<close>); and the commands of \<open>crates/cli/src/main.rs\<close> that look at the same files,
  \<open>shelly daemon logs\<close> and two checks of \<open>shelly doctor\<close>.  The environment that \<open>figment\<close> reads
  is a parameter, as is \<open>Debug\<close> of a path.
\<close>

unbundle bit_operations_syntax

section \<open>Configuration\<close>

record daemon_config =
  dc_log_dir :: "rstr option"
  dc_scrollback_encryption :: bool
  dc_telemetry :: bool

definition daemon_default :: daemon_config where
  "daemon_default = \<lparr>dc_log_dir = None, dc_scrollback_encryption = True, dc_telemetry = False\<rparr>"

definition decode_daemon :: "toml_crate \<Rightarrow> toml_table \<Rightarrow> rstr + daemon_config" where
  "decode_daemon tc t =
     and_then (toml_key tc ''log_dir'' None (\<lambda>v. case v of TString s \<Rightarrow> Some (Inr (Some s)) | _ \<Rightarrow> None) t) (\<lambda>log_dir.
     and_then (toml_section tc ''scrollback_encryption'' True (toml_bool tc ''enabled'' True) t) (\<lambda>enabled.
     and_then (toml_section tc ''telemetry'' False (toml_bool tc ''opt_in'' False) t) (\<lambda>opt_in.
     Inr \<lparr>dc_log_dir = log_dir, dc_scrollback_encryption = enabled, dc_telemetry = opt_in\<rparr>)))"

definition read_config_file :: "toml_crate \<Rightarrow> rstr \<Rightarrow> daemon_config host_task" where
  "read_config_file tc path =
     bind_host (ask_host (fs_exists path)) (\<lambda>found.
     if \<not> found then done_host daemon_default
     else bind_host (with_context (lit ''read daemon config '' @ path) (read_to_string path)) (\<lambda>contents.
       case and_then (tc_parse tc contents) (decode_daemon tc) of
         Inl e \<Rightarrow> fail_host (Because (lit ''parse daemon config '' @ path) (Bail e))
       | Inr config \<Rightarrow> done_host config))"

definition env_switch :: "(rstr \<Rightarrow> rstr option) \<Rightarrow> char list \<Rightarrow> bool \<Rightarrow> cli_error + bool" where
  "env_switch env key old = (case set_env env key of
     None \<Rightarrow> Inr old
   | Some v \<Rightarrow> (case parse_bool_with_name v key of Inl e \<Rightarrow> Inl (Bail e) | Inr b \<Rightarrow> Inr b))"

definition apply_env_overrides ::
    "(rstr + rstr option) \<Rightarrow> (rstr \<Rightarrow> rstr option) \<Rightarrow> daemon_config \<Rightarrow> cli_error + daemon_config" where
  "apply_env_overrides figment env config = (case figment of
     Inl e \<Rightarrow> Inl (Because (lit ''load daemon config from environment'') (Bail e))
   | Inr log_dir \<Rightarrow>
       and_then (env_switch env ''SHELLY_TELEMETRY_OPT_IN'' (dc_telemetry config)) (\<lambda>opt_in.
       and_then (env_switch env ''SHELLY_SCROLLBACK_ENCRYPTION_ENABLED'' (dc_scrollback_encryption config)) (\<lambda>enabled.
       Inr \<lparr>dc_log_dir = (case log_dir of Some d \<Rightarrow> Some d | None \<Rightarrow> dc_log_dir config),
            dc_scrollback_encryption = enabled, dc_telemetry = opt_in\<rparr>)))"

definition daemon_config_path :: "process_env \<Rightarrow> rstr" where
  "daemon_config_path env =
     (let home = (case he_home env of Some h \<Rightarrow> h | None \<Rightarrow> he_temp_dir env) in
      if he_macos env then path_join (path_join (path_join (path_join home (lit ''Library''))
        (lit ''Application Support'')) (lit ''app.shelly'')) (lit ''config.toml'')
      else case he_xdg_config env of
        Some config_home \<Rightarrow> path_join (path_join config_home (lit ''shelly'')) (lit ''config.toml'')
      | None \<Rightarrow> path_join (path_join (path_join home (lit ''.config'')) (lit ''shelly'')) (lit ''config.toml''))"

definition load_config :: "toml_crate \<Rightarrow> (rstr + rstr option) \<Rightarrow> process_env \<Rightarrow> daemon_config host_task" where
  "load_config tc figment env =
     bind_host (read_config_file tc (daemon_config_path env)) (\<lambda>config.
     case apply_env_overrides figment (he_var env) config of
       Inl e \<Rightarrow> fail_host e | Inr config \<Rightarrow> done_host config)"

section \<open>The control socket\<close>

definition runtime_dir :: "process_env \<Rightarrow> nat \<Rightarrow> rstr" where
  "runtime_dir env uid = (case he_xdg_runtime env of
     Some v \<Rightarrow> path_join v (lit ''shelly'')
   | None \<Rightarrow> path_join (he_temp_dir env) (lit ''shelly-'' @ dec uid))"

definition daemon_socket_path :: "process_env \<Rightarrow> nat \<Rightarrow> rstr" where
  "daemon_socket_path env uid = path_join (runtime_dir env uid) (lit ''control.sock'')"

definition is_link :: "fs_entry \<Rightarrow> bool" where
  "is_link e = (case fe_node e of FsLink _ \<Rightarrow> True | _ \<Rightarrow> False)"

definition perm_bits :: "fs_entry \<Rightarrow> 32 word" where "perm_bits e = fe_mode e AND 511"

text \<open>What is there already may not be a link; what is there afterwards is private.\<close>

definition refuse_link :: "rstr \<Rightarrow> rstr \<Rightarrow> rstr \<Rightarrow> unit host_task" where
  "refuse_link path stat refused =
     bind_host (ask_host (fs_exists path)) (\<lambda>found.
     if found then bind_host (with_context stat (symlink_metadata path)) (\<lambda>meta.
       if is_link meta then fail_host (Bail refused) else done_host ())
     else done_host ())"

definition prepare_control_socket :: "(rstr \<Rightarrow> rstr) \<Rightarrow> rstr \<Rightarrow> unit host_task" where
  "prepare_control_socket debug path = (case path_parent path of
     None \<Rightarrow> fail_host (Bail (lit ''control socket path has no parent directory''))
   | Some parent \<Rightarrow>
       bind_host (refuse_link parent (lit ''stat control socket parent'')
         (lit ''refusing to use symlinked control socket parent: '' @ debug parent)) (\<lambda>_.
       bind_host (with_context (lit ''create control socket parent'') (create_dir_all parent)) (\<lambda>_.
       bind_host (with_context (lit ''chmod control socket parent'') (set_permissions parent 448)) (\<lambda>_.
       bind_host (with_context (lit ''stat prepared control socket parent'') (symlink_metadata parent)) (\<lambda>meta s.
       if fe_uid meta \<noteq> hf_uid s
       then fail_host (Bail (lit ''control socket parent is not owned by the current user: '' @ debug parent)) s
       else if perm_bits meta \<noteq> 448
       then fail_host (Bail (lit ''control socket parent must be 0700: '' @ debug parent)) s
       else bind_host (ask_host (fs_exists path)) (\<lambda>found.
         if found then
           bind_host (with_context (lit ''stat existing control socket'') (symlink_metadata path)) (\<lambda>meta.
           if is_link meta then fail_host (Bail (lit ''refusing to replace symlinked control socket: '' @ debug path))
           else with_context (lit ''remove stale control socket'') (remove_file path))
         else done_host ()) s)))))"

definition set_control_socket_permissions :: "(rstr \<Rightarrow> rstr) \<Rightarrow> rstr \<Rightarrow> unit host_task" where
  "set_control_socket_permissions debug path =
     bind_host (with_context (lit ''chmod control socket'') (set_permissions path 384)) (\<lambda>_.
     bind_host (with_context (lit ''stat control socket after chmod'') (fs_metadata path)) (\<lambda>meta.
     if perm_bits meta \<noteq> 384 then fail_host (Bail (lit ''control socket must be 0600: '' @ debug path))
     else done_host ()))"

text \<open>The two checks of \<open>shelly doctor\<close>; \<open>octal3\<close> is \<open>03o\<close> on a mode.\<close>

definition octal3 :: "32 word \<Rightarrow> rstr" where
  "octal3 mode = (let n = unat mode in [48 + n div 64, 48 + n div 8 mod 8, 48 + n mod 8])"

definition doctor_socket_parent_status :: "rstr \<Rightarrow> rstr host_task" where
  "doctor_socket_parent_status socket_path = (case path_parent socket_path of
     None \<Rightarrow> fail_host (Bail (lit ''control socket path has no parent directory''))
   | Some parent \<Rightarrow>
       bind_host (with_context (lit ''stat control socket parent '' @ parent) (symlink_metadata parent)) (\<lambda>meta s.
       if is_link meta then fail_host (Bail (lit ''parent is a symlink ('' @ parent @ lit '')'')) s
       else if fe_node meta \<noteq> FsDir then fail_host (Bail (lit ''parent is not a directory ('' @ parent @ lit '')'')) s
       else if fe_uid meta \<noteq> hf_uid s
       then fail_host (Bail (lit ''owned by uid '' @ dec (fe_uid meta) @ lit '', expected current uid '' @ dec (hf_uid s))) s
       else if perm_bits meta \<noteq> 448
       then fail_host (Bail (lit ''mode is '' @ octal3 (perm_bits meta) @ lit '', expected 0700 ('' @ parent @ lit '')'')) s
       else done_host (lit ''owned by current user, mode 0700, not symlink ('' @ parent @ lit '')'') s))"

definition doctor_socket_file_status :: "rstr \<Rightarrow> rstr host_task" where
  "doctor_socket_file_status socket_path =
     bind_host (with_context (lit ''stat control socket '' @ socket_path) (symlink_metadata socket_path)) (\<lambda>meta.
     if is_link meta then fail_host (Bail (lit ''socket is a symlink ('' @ socket_path @ lit '')''))
     else if fe_node meta \<noteq> FsSocket then fail_host (Bail (lit ''not a socket ('' @ socket_path @ lit '')''))
     else if perm_bits meta \<noteq> 384
     then fail_host (Bail (lit ''mode is '' @ octal3 (perm_bits meta) @ lit '', expected 0600 ('' @ socket_path @ lit '')''))
     else done_host (lit ''socket, mode 0600, not symlink ('' @ socket_path @ lit '')''))"

section \<open>Logs\<close>

text \<open>Times are in nanoseconds.\<close>

definition LOG_RETENTION :: nat where "LOG_RETENTION = 7 * 24 * 60 * 60 * 1000000000"

definition default_log_dir :: "process_env \<Rightarrow> rstr" where
  "default_log_dir env =
     (let home = (case he_home env of Some h \<Rightarrow> h | None \<Rightarrow> he_temp_dir env) in
      if he_macos env then path_join (path_join (path_join home (lit ''Library'')) (lit ''Logs'')) (lit ''app.shelly'')
      else case he_xdg_state env of
        Some state_home \<Rightarrow> path_join state_home (lit ''shelly'')
      | None \<Rightarrow> path_join (path_join (path_join home (lit ''.local'')) (lit ''state'')) (lit ''shelly''))"

definition log_dir_of :: "process_env \<Rightarrow> daemon_config \<Rightarrow> rstr" where
  "log_dir_of env config = (case dc_log_dir config of Some d \<Rightarrow> d | None \<Rightarrow> default_log_dir env)"

definition is_daemon_log :: "rstr \<Rightarrow> bool" where
  "is_daemon_log path \<longleftrightarrow> starts_with (last_component path) (lit ''daemon.log'')"

fun prune_each :: "nat \<Rightarrow> rstr list \<Rightarrow> host_fs \<Rightarrow> host_fs" where
  "prune_each cutoff [] s = s"
| "prune_each cutoff (path # paths) s =
     (if \<not> is_daemon_log path then prune_each cutoff paths s
      else case symlink_metadata path s of
        (s, Inl _) \<Rightarrow> prune_each cutoff paths s
      | (s, Inr e) \<Rightarrow>
          if (\<exists>contents. fe_node e = FsFile contents) \<and> fe_modified e < cutoff
          then prune_each cutoff paths (fst (remove_file path s))
          else prune_each cutoff paths s)"

definition prune_old_log_files :: "rstr \<Rightarrow> nat \<Rightarrow> host_fs \<Rightarrow> host_fs" where
  "prune_old_log_files log_dir now s = (case read_dir log_dir s of
     (s, Inl _) \<Rightarrow> s
   | (s, Inr entries) \<Rightarrow> prune_each (now - LOG_RETENTION) entries s)"

text \<open>The command line looks for the newest one, where the daemon logs when nothing is configured.\<close>

fun log_candidates :: "rstr list \<Rightarrow> (nat \<times> rstr) list host_task" where
  "log_candidates [] = done_host []"
| "log_candidates (path # paths) =
     (if \<not> is_daemon_log path then log_candidates paths
      else bind_host (\<lambda>s. case symlink_metadata path s of (s, Inl e) \<Rightarrow> (s, Inl (Bail e)) | (s, Inr meta) \<Rightarrow> (s, Inr meta)) (\<lambda>meta.
        bind_host (log_candidates paths) (\<lambda>rest. done_host ((fe_modified meta, path) # rest))))"

definition latest_daemon_log_file :: "process_env \<Rightarrow> rstr host_task" where
  "latest_daemon_log_file env =
     (let dir = default_log_dir env in
      bind_host (with_context (lit ''read '' @ dir) (read_dir dir)) (\<lambda>entries.
      bind_host (log_candidates entries) (\<lambda>candidates.
      case rev (sort_key fst candidates) of
        [] \<Rightarrow> fail_host (Bail (lit ''no daemon logs found in '' @ dir))
      | (_, path) # _ \<Rightarrow> done_host path)))"

definition daemon_log_contents :: "process_env \<Rightarrow> rstr host_task" where
  "daemon_log_contents env =
     bind_host (latest_daemon_log_file env) (\<lambda>path. with_context (lit ''read '' @ path) (read_to_string path))"

section \<open>The start of the daemon\<close>

text \<open>What is printed, if that is all; or the daemon runs.\<close>

definition handle_cli_args :: "(rstr \<Rightarrow> rstr) \<Rightarrow> rstr \<Rightarrow> rstr \<Rightarrow> rstr list \<Rightarrow> rstr + rstr option" where
  "handle_cli_args debug version help args = (case args of
     [] \<Rightarrow> Inr None
   | arg # rest \<Rightarrow>
       if rest = [] \<and> arg \<in> set (map lit [''-h'', ''--help'']) then Inr (Some help)
       else if rest = [] \<and> arg \<in> set (map lit [''-V'', ''--version'']) then Inr (Some (lit ''shellyd '' @ version))
       else Inl (lit ''unexpected argument '' @ debug arg @ lit ''; run shellyd --help''))"

text \<open>
  The open file descriptors; \<open>open\<close> takes the lowest free one.  For each of the standard ones
  \<open>faults\<close> says what opening \<open>/dev/null\<close> and what duplicating it fails with, if it does.
\<close>

type_synonym fd_faults = "nat \<Rightarrow> rstr option \<times> rstr option"

definition lowest_free :: "nat list \<Rightarrow> nat" where
  "lowest_free fds = hd (filter (\<lambda>fd. fd \<notin> set fds) [0..<Suc (length fds)])"

definition ensure_fd :: "fd_faults \<Rightarrow> nat \<Rightarrow> nat list \<Rightarrow> nat list \<times> (rstr + unit)" where
  "ensure_fd faults fd fds =
     (if fd \<in> set fds then (fds, Inr ())
      else case fst (faults fd) of
        Some e \<Rightarrow> (fds, Inl e)
      | None \<Rightarrow>
          if lowest_free fds = fd then (fd # fds, Inr ())
          else (case snd (faults fd) of
            Some e \<Rightarrow> (fds, Inl e)
          | None \<Rightarrow> (fd # fds, Inr ())))"

fun ensure_fds :: "fd_faults \<Rightarrow> nat list \<Rightarrow> nat list \<Rightarrow> nat list \<times> (rstr + unit)" where
  "ensure_fds faults [] fds = (fds, Inr ())"
| "ensure_fds faults (fd # rest) fds = (case ensure_fd faults fd fds of
     (fds, Inl e) \<Rightarrow> (fds, Inl e) | (fds, Inr _) \<Rightarrow> ensure_fds faults rest fds)"

definition ensure_standard_fds_open :: "fd_faults \<Rightarrow> nat list \<Rightarrow> nat list \<times> (rstr + unit)" where
  "ensure_standard_fds_open faults = ensure_fds faults [0, 1, 2]"

end
