(* ===== verification/CliRun.thy ===== *)
theory CliRun
  imports CliPair Hostside
begin

text \<open>
  \<open>shelly\<close> as a whole: the commands of \<open>main\<close> in \<open>crates/cli/src/main.rs\<close>, with \<open>shelly settings\<close>
  and \<open>shelly doctor\<close>.  The files are a part of the world that \<open>host_access\<close> gets and puts.
\<close>

unbundle bit_operations_syntax

section \<open>Files in the world\<close>

record 'w host_access =
  ha_get :: "'w \<Rightarrow> host_fs"
  ha_put :: "host_fs \<Rightarrow> 'w \<Rightarrow> 'w"

definition on_files :: "'w host_access \<Rightarrow> 'a host_task \<Rightarrow> ('w, 'a) task" where
  "on_files ha m d = (case m (ha_get ha (dk_world d)) of (s, r) \<Rightarrow>
     Some (d\<lparr>dk_world := ha_put ha s (dk_world d)\<rparr>, case r of Inl e \<Rightarrow> Inl (Failed e) | Inr a \<Rightarrow> Inr a))"

text \<open>A command whose error is looked at.\<close>

definition caught :: "('w, 'a) task \<Rightarrow> ('w, cli_error + 'a) task" where
  "caught m d = (case m d of
     None \<Rightarrow> None
   | Some (d, Inl (Failed e)) \<Rightarrow> Some (d, Inr (Inl e))
   | Some (d, Inl e) \<Rightarrow> Some (d, Inl e)
   | Some (d, Inr a) \<Rightarrow> Some (d, Inr (Inr a)))"

record 'w cli_host =
  ch_access :: "'w host_access"
  ch_env :: process_env
  ch_toml :: toml_crate

section \<open>Settings\<close>

datatype switch_command = SwitchOn | SwitchOff | SwitchStatus
datatype settings_command = TelemetrySetting switch_command | ScrollbackSetting switch_command

definition on_off :: "bool \<Rightarrow> rstr" where
  "on_off b = (if b then lit ''on'' else lit ''off'')"

definition print_telemetry_status :: "'w cli_net \<Rightarrow> rstr \<times> bool \<Rightarrow> ('w, unit) task" where
  "print_telemetry_status net status = print_all net [lit ''telemetry: '' @ on_off (snd status),
     lit ''export: relay Honeycomb only; daemon/mobile crash reporting is unavailable in v1'',
     lit ''config: '' @ fst status]"

definition print_scrollback_encryption_status :: "'w cli_net \<Rightarrow> rstr \<times> bool \<Rightarrow> ('w, unit) task" where
  "print_scrollback_encryption_status net status =
     print_all net [lit ''scrollback encryption: '' @ on_off (snd status), lit ''config: '' @ fst status]"

definition restart_line :: rstr where
  "restart_line = lit ''restart shellyd for this setting to affect the running daemon''"

definition run_settings :: "'w cli_net \<Rightarrow> 'w cli_host \<Rightarrow> settings_command \<Rightarrow> ('w, unit) task" where
  "run_settings net ch command =
     (let path = default_config_path (ch_env ch); tc = ch_toml ch in case command of
        TelemetrySetting c \<Rightarrow>
          bind_task (on_files (ch_access ch) (case c of
            SwitchOn \<Rightarrow> set_telemetry_at_path tc path True
          | SwitchOff \<Rightarrow> set_telemetry_at_path tc path False
          | SwitchStatus \<Rightarrow> telemetry_status_at_path tc path)) (\<lambda>status.
          bind_task (print_telemetry_status net status) (\<lambda>_.
          if c \<noteq> SwitchStatus then println net restart_line else finish ()))
      | ScrollbackSetting c \<Rightarrow>
          bind_task (on_files (ch_access ch) (case c of
            SwitchOn \<Rightarrow> set_scrollback_encryption_at_path tc path True
          | SwitchOff \<Rightarrow> set_scrollback_encryption_at_path tc path False
          | SwitchStatus \<Rightarrow> scrollback_encryption_status_at_path tc path)) (\<lambda>status.
          bind_task (print_scrollback_encryption_status net status) (\<lambda>_.
          if c \<noteq> SwitchStatus then bind_task (println net restart_line) (\<lambda>_.
            if \<not> snd status
            then println net (lit ''warning: future local scrollback and device registry writes will be plaintext'')
            else finish ())
          else finish ())))"

section \<open>Doctor\<close>

datatype macos_signature_kind = AdHoc | DeveloperId

record mac_tools =
  mt_display :: "rstr \<Rightarrow> rstr + command_result"
  mt_assess :: "rstr \<Rightarrow> rstr + command_result"

definition parse_macos_signature_kind :: "rstr \<Rightarrow> cli_error + macos_signature_kind" where
  "parse_macos_signature_kind signature =
     (if contains signature (lit ''Signature=adhoc'') \<or> contains signature (lit ''Authority=Ad Hoc'') then Inr AdHoc
      else if contains signature (lit ''Authority=Developer ID Application:'') then Inr DeveloperId
      else Inl (Bail (lit ''signature is neither ad-hoc nor Developer ID'')))"

definition kind_debug :: "macos_signature_kind \<Rightarrow> rstr" where
  "kind_debug k = (case k of AdHoc \<Rightarrow> lit ''AdHoc'' | DeveloperId \<Rightarrow> lit ''DeveloperId'')"

definition macos_trust_mode_from_signature_kinds ::
    "macos_signature_kind \<Rightarrow> macos_signature_kind \<Rightarrow> cli_error + rstr" where
  "macos_trust_mode_from_signature_kinds cli_signature daemon_signature = (case (cli_signature, daemon_signature) of
     (AdHoc, AdHoc) \<Rightarrow> Inr (lit ''npm/ad-hoc/not-notarized'')
   | (DeveloperId, DeveloperId) \<Rightarrow> Inr (lit ''Developer ID/notarized'')
   | _ \<Rightarrow> Inl (Bail (lit ''shelly and shellyd must use the same macOS trust mode, got '' @ kind_debug cli_signature @
       lit '' and '' @ kind_debug daemon_signature)))"

definition doctor_macos_binary_trust :: "system_files \<Rightarrow> mac_tools \<Rightarrow> rstr \<Rightarrow> char list \<Rightarrow> cli_error + macos_signature_kind" where
  "doctor_macos_binary_trust sf mt path name =
     (let at = lit name @ lit '' at '' @ path in
      case sf_mode sf path of
        Inl e \<Rightarrow> Inl (Because (lit ''stat '' @ at) (Bail e))
      | Inr mode \<Rightarrow>
          if mode AND 73 = 0 then Inl (Bail (lit name @ lit '' is not executable ('' @ path @ lit '')''))
          else case sf_codesign sf path of
            Inl e \<Rightarrow> Inl (Because (lit ''verify macOS code signature for '' @ at) (Bail e))
          | Inr verify \<Rightarrow>
              if \<not> fst verify then Inl (Bail (lit name @ lit '' code signature verification failed for '' @ path @
                lit '': '' @ command_output_detail verify (lit ''codesign'')))
              else case mt_display mt path of
                Inl e \<Rightarrow> Inl (Because (lit ''read macOS code signature for '' @ at) (Bail e))
              | Inr (ok, status, out, err) \<Rightarrow>
                  if \<not> ok then Inl (Bail (lit name @ lit '' code signature display failed for '' @ path @
                    lit '': '' @ command_output_detail (ok, status, out, err) (lit ''codesign'')))
                  else case parse_macos_signature_kind (out @ [10] @ err) of
                    Inl e \<Rightarrow> Inl (Because (lit name @ lit '' has unsupported macOS signature at '' @ path) e)
                  | Inr kind \<Rightarrow> (case sf_xattr sf path of
                      Inl e \<Rightarrow> Inl (Because (lit ''read macOS quarantine xattr for '' @ at) (Bail e))
                    | Inr (ok, _, out, err) \<Rightarrow>
                        if ok \<and> trim (out @ err) \<noteq> []
                        then Inl (Bail (lit name @ lit '' has com.apple.quarantine set at '' @ path @ lit '': '' @ trim (out @ err)))
                        else Inr kind))"

definition doctor_macos_notarization_status :: "mac_tools \<Rightarrow> rstr \<Rightarrow> char list \<Rightarrow> cli_error + unit" where
  "doctor_macos_notarization_status mt path name = (case mt_assess mt path of
     Inl e \<Rightarrow> Inl (Because (lit ''assess macOS notarization for '' @ lit name @ lit '' at '' @ path) (Bail e))
   | Inr assessment \<Rightarrow>
       let detail = command_output_detail assessment (lit ''spctl'') in
       if \<not> fst assessment \<or> \<not> contains (str_lower detail) (lit ''notarized'')
       then Inl (Bail (lit name @ lit '' has a Developer ID signature, but notarization was not confirmed for '' @ path @
         lit '': '' @ detail))
       else Inr ())"

definition doctor_macos_trust_status :: "system_files \<Rightarrow> mac_tools \<Rightarrow> rstr \<Rightarrow> rstr \<Rightarrow> cli_error + rstr" where
  "doctor_macos_trust_status sf mt cli_path daemon =
     and_then (doctor_macos_binary_trust sf mt cli_path ''shelly'') (\<lambda>cli_signature.
     and_then (doctor_macos_binary_trust sf mt daemon ''shellyd'') (\<lambda>daemon_signature.
     and_then (if cli_signature = DeveloperId
       then and_then (doctor_macos_notarization_status mt cli_path ''shelly'') (\<lambda>_.
         doctor_macos_notarization_status mt daemon ''shellyd'')
       else Inr ()) (\<lambda>_.
     and_then (macos_trust_mode_from_signature_kinds cli_signature daemon_signature) (\<lambda>mode.
     Inr (mode @ lit '' (shelly and shellyd signed, executable, no quarantine)'')))))"

text \<open>A check prints its line and gives whether it passed.\<close>

definition print_doctor_check :: "'w cli_net \<Rightarrow> char list \<Rightarrow> bool \<Rightarrow> rstr \<Rightarrow> ('w, bool) task" where
  "print_doctor_check net label passed detail =
     bind_task (println net (lit label @ lit '': '' @ (if passed then lit ''ok'' else lit ''fail'') @ lit '' ('' @ detail @ lit '')''))
       (\<lambda>_. finish passed)"

definition doctor_result :: "'w cli_net \<Rightarrow> cli_env \<Rightarrow> char list \<Rightarrow> cli_error + rstr \<Rightarrow> ('w, bool) task" where
  "doctor_result net env label r = (case r of
     Inr detail \<Rightarrow> print_doctor_check net label True detail
   | Inl e \<Rightarrow> print_doctor_check net label False (error_text (ce_debug env) e))"

fun all_checks :: "('w, bool) task list \<Rightarrow> ('w, bool) task" where
  "all_checks [] = finish True"
| "all_checks (c # cs) = bind_task c (\<lambda>ok. bind_task (all_checks cs) (\<lambda>rest. finish (ok \<and> rest)))"

definition doctor_connection :: "'w cli_net \<Rightarrow> cli_env \<Rightarrow> bool \<Rightarrow> ('w, cli_error + (nat \<times> capabilities) \<times> rstr) task" where
  "doctor_connection net env no_start =
     bind_task (caught (connect_existing net env)) (\<lambda>existing. case existing of
       Inr c \<Rightarrow> finish (Inr (c, lit ''reachable''))
     | Inl e \<Rightarrow>
         if no_start then finish (Inl e)
         else bind_task (caught (connect_local net env)) (\<lambda>started. case started of
           Inr c \<Rightarrow> finish (Inr (c, lit ''auto-started'')) | Inl e \<Rightarrow> finish (Inl e)))"

definition doctor_session_list :: "'w cli_net \<Rightarrow> cli_env \<Rightarrow> nat \<Rightarrow> ('w, bool) task" where
  "doctor_session_list net env conn =
     bind_task (caught (request net conn ListSessions ''unexpected daemon response: '' list_reply)) (\<lambda>r. case r of
       Inr sessions \<Rightarrow> print_doctor_check net ''session list'' True (dec (length sessions) @ lit '' session(s)'')
     | Inl e \<Rightarrow> print_doctor_check net ''session list'' False (error_text (ce_debug env) e))"

definition doctor_daemon :: "'w cli_net \<Rightarrow> cli_env \<Rightarrow> 'w cli_host \<Rightarrow> bool \<Rightarrow> ('w, bool) task" where
  "doctor_daemon net env ch no_start =
     (let path = ce_socket_path env; at = lit '' ('' @ path @ lit '')'' in
      bind_task (doctor_connection net env no_start) (\<lambda>r. case r of
        Inl e \<Rightarrow> print_doctor_check net ''daemon connection'' False (error_text (ce_debug env) e @ at)
      | Inr ((conn, capabilities), mode) \<Rightarrow>
          all_checks [
            print_doctor_check net ''daemon connection'' True (mode @ at),
            bind_task (caught (on_files (ch_access ch) (doctor_socket_parent_status path))) (doctor_result net env ''socket parent''),
            bind_task (caught (on_files (ch_access ch) (doctor_socket_file_status path))) (doctor_result net env ''socket file''),
            print_doctor_check net ''protocol'' True (lit ''contract v'' @ dec CONTRACT_VERSION),
            bind_task (println net (lit ''push notifications: '' @
              (if push_notifications capabilities then lit ''configured'' else lit ''off''))) (\<lambda>_. finish True),
            doctor_session_list net env conn]))"

definition doctor_settings :: "'w cli_net \<Rightarrow> cli_env \<Rightarrow> 'w cli_host \<Rightarrow> ('w, unit) task" where
  "doctor_settings net env ch =
     (let path = default_config_path (ch_env ch); tc = ch_toml ch;
          unavailable = (\<lambda>e. lit ''unavailable ('' @ e @ lit '')'') in
      bind_task (caught (on_files (ch_access ch) (telemetry_status_at_path tc path))) (\<lambda>r.
      bind_task (println net (lit ''telemetry: '' @ (case r of
        Inr status \<Rightarrow> on_off (snd status) | Inl e \<Rightarrow> unavailable (error_text (ce_debug env) e)))) (\<lambda>_.
      bind_task (caught (on_files (ch_access ch) (scrollback_encryption_status_at_path tc path))) (\<lambda>r.
      println net (lit ''scrollback encryption: '' @ (case r of
        Inl e \<Rightarrow> unavailable (error_text (ce_debug env) e)
      | Inr status \<Rightarrow> (case scrollback_encryption_env_override (he_var (ch_env ch)) of
          Inl e \<Rightarrow> unavailable e
        | Inr (Some enabled) \<Rightarrow> on_off enabled @ lit '' (env override; config: '' @ on_off (snd status) @ lit '')''
        | Inr None \<Rightarrow> on_off (snd status)))))))) "

definition run_doctor :: "'w cli_net \<Rightarrow> cli_env \<Rightarrow> 'w cli_host \<Rightarrow> mac_tools \<Rightarrow> bool \<Rightarrow> ('w, unit) task" where
  "run_doctor net env ch mt no_start =
     (let sf = ce_files env in
      bind_task (print_all net [lit ''Shelly doctor'', lit ''version: '' @ ce_version env]) (\<lambda>_.
      bind_task (doctor_result net env ''cli'' (case sf_current_exe sf of Inl e \<Rightarrow> Inl (Bail e) | Inr p \<Rightarrow> Inr p)) (\<lambda>cli.
      bind_task (doctor_result net env ''daemon binary'' (daemon_path sf)) (\<lambda>daemon.
      bind_task (if sf_macos sf then (case (sf_current_exe sf, daemon_path sf) of
          (Inr cli_file, Inr daemon_file) \<Rightarrow> doctor_result net env ''macOS trust'' (doctor_macos_trust_status sf mt cli_file daemon_file)
        | _ \<Rightarrow> print_doctor_check net ''macOS trust'' False (lit ''requires colocated shelly and shellyd paths''))
        else bind_task (println net (lit ''macOS trust: n/a (macOS-only)'')) (\<lambda>_. finish True)) (\<lambda>trust.
      bind_task (call (service_status_of (cw_service net))) (\<lambda>status.
      bind_task (println net (case status of
          Inr status \<Rightarrow> lit ''service: '' @ format_status status
        | Inl e \<Rightarrow> lit ''service: unavailable ('' @ error_text (ce_debug env) e @ lit '')'')) (\<lambda>_.
      bind_task (println net (lit ''socket path: '' @ ce_socket_path env)) (\<lambda>_.
      bind_task (doctor_daemon net env ch no_start) (\<lambda>reached.
      bind_task (doctor_settings net env ch) (\<lambda>_.
      if cli \<and> daemon \<and> trust \<and> reached then println net (lit ''summary: ok'')
      else bail (lit ''shelly doctor found issues'')))))))))))"

section \<open>The commands\<close>

datatype cli_command =
    CmdDefault | CmdPair | CmdLs | CmdNew rstr "rstr option" "rstr list" | CmdAttach rstr | CmdKill rstr | CmdKillAll
  | CmdDevices "rstr option" | CmdSettings settings_command | CmdDaemon "daemon_command option" | CmdDoctor bool
  | CmdHook hook_command | CmdCompletion rstr | CmdVersion | CmdNamed "os_string list"

definition should_check_update_notice :: "cli_command \<Rightarrow> bool" where
  "should_check_update_notice command = (case command of
     CmdLs \<Rightarrow> True | CmdNew _ _ _ \<Rightarrow> True | CmdKill _ \<Rightarrow> True | CmdKillAll \<Rightarrow> True | CmdDevices _ \<Rightarrow> True
   | CmdSettings _ \<Rightarrow> True | CmdDaemon _ \<Rightarrow> True | CmdDoctor _ \<Rightarrow> True | _ \<Rightarrow> False)"

text \<open>The completion script is \<open>clap\<close>'s; the log file is read when it is asked for.\<close>

definition run_command ::
    "'w cli_net \<Rightarrow> cli_env \<Rightarrow> 'w cli_host \<Rightarrow> mac_tools \<Rightarrow> (rstr \<Rightarrow> rstr) \<Rightarrow> cli_command \<Rightarrow> ('w, unit) task" where
  "run_command net env ch mt completion command = (case command of
     CmdDefault \<Rightarrow> run_default net env
   | CmdPair \<Rightarrow> pair_device net env
   | CmdLs \<Rightarrow> cli_list_sessions net env
   | CmdNew dir name args \<Rightarrow> cli_create_session net env dir name args
   | CmdAttach session \<Rightarrow> attach_session net env session
   | CmdKill session \<Rightarrow> cli_kill_session net env session
   | CmdKillAll \<Rightarrow> kill_all_sessions net env
   | CmdDevices None \<Rightarrow> list_devices net env
   | CmdDevices (Some name) \<Rightarrow> cli_remove_device net env name
   | CmdSettings c \<Rightarrow> run_settings net ch c
   | CmdDaemon c \<Rightarrow>
       if \<exists>tail. c = Some (DaemonLogs tail)
       then bind_task (caught (on_files (ch_access ch) (daemon_log_contents (ch_env ch)))) (\<lambda>log. run_daemon_command net env log c)
       else run_daemon_command net env (Inr []) c
   | CmdDoctor no_start \<Rightarrow> run_doctor net env ch mt no_start
   | CmdHook c \<Rightarrow> run_hook net env c
   | CmdCompletion shell \<Rightarrow> print_raw net (completion shell)
   | CmdVersion \<Rightarrow> println net (lit ''shelly '' @ ce_version env)
   | CmdNamed args \<Rightarrow> open_named_session net env args)"

end
