(* ===== verification/CliTalk.thy ===== *)
theory CliTalk
  imports CliRun
begin

text \<open>
  What the command line relies on when it talks to the daemon: \<open>daemon_link\<close> is a world in which
  a request is answered by a message of the kind it asks for, or by an error.  \<open>holds\<close> is the
  logic of commands in which that is used: what holds after a command that succeeds, and of the
  error of one that fails.
\<close>

section \<open>Commands that end in a known state\<close>

definition holds :: "('w \<Rightarrow> bool) \<Rightarrow> ('w, 'a) task \<Rightarrow> ('a \<Rightarrow> 'w \<Rightarrow> bool) \<Rightarrow> (cli_error \<Rightarrow> bool) \<Rightarrow> bool" where
  "holds P m Q E \<longleftrightarrow> (\<forall>d d' r. P (dk_world d) \<longrightarrow> m d = Some (d', r) \<longrightarrow>
     (case r of Inr a \<Rightarrow> Q a (dk_world d') | Inl (Failed e) \<Rightarrow> E e | Inl _ \<Rightarrow> True))"

lemma holds_bind:
  assumes m: "holds P m Q E" and f: "\<And>a. holds (Q a) (f a) R E"
  shows "holds P (bind_task m f) R E"
  unfolding holds_def
proof (intro allI impI)
  fix d d' r assume P: "P (dk_world d)" and run: "bind_task m f d = Some (d', r)"
  obtain d1 r1 where 1: "m d = Some (d1, r1)" using run by (auto simp: bind_task_def split: option.splits)
  have 2: "case r1 of Inr a \<Rightarrow> Q a (dk_world d1) | Inl (Failed e) \<Rightarrow> E e | Inl _ \<Rightarrow> True"
    using m P 1 unfolding holds_def by blast
  show "case r of Inr a \<Rightarrow> R a (dk_world d') | Inl (Failed e) \<Rightarrow> E e | Inl _ \<Rightarrow> True"
  proof (cases r1)
    case (Inl e)
    then show ?thesis using run 1 2 by (auto simp: bind_task_def split: cli_stop.splits)
  next
    case (Inr a)
    then have "f a d1 = Some (d', r)" "Q a (dk_world d1)" using run 1 2 by (simp_all add: bind_task_def)
    then show ?thesis using f unfolding holds_def by blast
  qed
qed

lemma holds_result: "holds P m Q E \<Longrightarrow> P (dk_world d) \<Longrightarrow> m d = Some (d', Inr a) \<Longrightarrow> Q a (dk_world d')"
  unfolding holds_def by fastforce

lemma holds_weaken:
  "holds P m Q E \<Longrightarrow> (\<And>w. P' w \<Longrightarrow> P w) \<Longrightarrow> (\<And>a w. Q a w \<Longrightarrow> Q' a w) \<Longrightarrow> holds P' m Q' E"
  unfolding holds_def by (fastforce split: sum.splits cli_stop.splits)

lemma holds_finish: "(\<And>w. P w \<Longrightarrow> Q a w) \<Longrightarrow> holds P (finish a) Q E"
  by (simp add: holds_def finish_def)

lemma holds_stop: "E e \<Longrightarrow> holds P (stop (Failed e)) Q E"
  and holds_exit: "holds P (stop (Exits code)) Q E"
  and holds_bail: "E (Bail s) \<Longrightarrow> holds P (bail s) Q E"
  by (simp_all add: holds_def stop_def bail_def)

lemma holds_call: "(\<And>w. P w \<Longrightarrow> Q (snd (f w)) (fst (f w))) \<Longrightarrow> holds P (call f) Q E"
  by (auto simp: holds_def call_def split: prod.splits) (metis fst_conv snd_conv)

lemma holds_attempt:
  assumes "\<And>w w' a. P w \<Longrightarrow> f w = (w', Inr a) \<Longrightarrow> Q a w'" and "\<And>w w' e. P w \<Longrightarrow> f w = (w', Inl e) \<Longrightarrow> E (err e)"
  shows "holds P (attempt_with err f) Q E"
  unfolding attempt_with_def
proof (rule holds_bind [OF holds_call [where Q = "\<lambda>r w'. case r of Inr a \<Rightarrow> Q a w' | Inl e \<Rightarrow> E (err e)"]])
  show "case snd (f w) of Inr a \<Rightarrow> Q a (fst (f w)) | Inl e \<Rightarrow> E (err e)" if "P w" for w
    using assms that by (auto split: sum.split) (metis prod.collapse)+
  show "holds (\<lambda>w'. case r of Inr a \<Rightarrow> Q a w' | Inl e \<Rightarrow> E (err e))
      (case r of Inl e \<Rightarrow> stop (Failed (err e)) | Inr a \<Rightarrow> finish a) Q E" for r
    by (auto simp: holds_def stop_def finish_def split: sum.split)
qed

lemma holds_True: "(\<And>d d' r. m d = Some (d', r) \<Longrightarrow> \<forall>e. r \<noteq> Inl (Failed e)) \<Longrightarrow> holds P m (\<lambda>_ _. True) E"
  unfolding holds_def by (auto split: sum.split cli_stop.split)

section \<open>Errors\<close>

fun unexpected :: "cli_error \<Rightarrow> bool" where
  "unexpected (Bail _) \<longleftrightarrow> False"
| "unexpected (Unexpected _ _) \<longleftrightarrow> True"
| "unexpected (Because _ e) \<longleftrightarrow> unexpected e"

abbreviation plain :: "cli_error \<Rightarrow> bool" where "plain e \<equiv> \<not> unexpected e"

lemma frame_errors_plain [simp]: "plain (write_failure_of e)" "plain (read_failure_of e')"
  by (cases e; cases e'; simp add: write_failure_of_def read_failure_of_def)+

text \<open>What a request may be answered with.\<close>

definition answers :: "client_msg \<Rightarrow> server_msg \<Rightarrow> bool" where
  "answers m reply = (case reply of
     Error _ _ \<Rightarrow> True
   | Welcome _ _ _ _ \<Rightarrow> (case m of Hello _ _ _ \<Rightarrow> True | _ \<Rightarrow> False)
   | SessionList _ \<Rightarrow> m = ListSessions
   | SessionCreated _ _ \<Rightarrow> (case m of CreateSession _ _ _ _ _ \<Rightarrow> True | _ \<Rightarrow> False)
   | SessionKilled got \<Rightarrow> m = KillSession got
   | PairingStarted _ \<Rightarrow> (case m of BeginPairing _ \<Rightarrow> True | _ \<Rightarrow> False)
   | DeviceList _ \<Rightarrow> (case m of ListDevices \<Rightarrow> True | RemoveDevice _ \<Rightarrow> True | _ \<Rightarrow> False)
   | AgentStateChanged got new_state _ \<Rightarrow>
       (case m of AgentStateEvent sid _ state _ \<Rightarrow> got = sid \<and> new_state = state | _ \<Rightarrow> False)
   | _ \<Rightarrow> False)"

definition asks :: "client_msg \<Rightarrow> bool" where
  "asks m = (case m of
     CreateSession _ _ _ _ _ \<Rightarrow> True | ListSessions \<Rightarrow> True | KillSession _ \<Rightarrow> True | BeginPairing _ \<Rightarrow> True
   | ListDevices \<Rightarrow> True | RemoveDevice _ \<Rightarrow> True | AgentStateEvent _ _ _ _ \<Rightarrow> True | _ \<Rightarrow> False)"

section \<open>The link\<close>

locale daemon_link =
  fixes net :: "'w cli_net" and fresh :: "nat \<Rightarrow> 'w \<Rightarrow> bool" and ready :: "nat \<Rightarrow> 'w \<Rightarrow> bool"
  assumes connects: "cw_connect net w = (w', r) \<Longrightarrow> case r of Inr conn \<Rightarrow> fresh conn w' | Inl e \<Rightarrow> plain e"
    and greets: "fresh conn w \<Longrightarrow> cw_write net conn (Hello LocalCli v n) w = (w1, None) \<Longrightarrow>
      cw_flush net conn w1 = (w2, None) \<Longrightarrow> cw_read net conn w2 = (w3, Inr reply) \<Longrightarrow>
      case reply of Welcome _ _ _ _ \<Rightarrow> ready conn w3 | Error _ _ \<Rightarrow> True | _ \<Rightarrow> False"
    and replies: "ready conn w \<Longrightarrow> asks m \<Longrightarrow> cw_write net conn m w = (w1, None) \<Longrightarrow>
      cw_flush net conn w1 = (w2, None) \<Longrightarrow> cw_read net conn w2 = (w3, Inr reply) \<Longrightarrow>
      answers m reply \<and> ready conn w3"
    and prints: "ready conn (cw_print net s w) \<longleftrightarrow> ready conn w" "ready conn (cw_eprint net s w) \<longleftrightarrow> ready conn w"
    and sizes: "ready conn w \<Longrightarrow> ready conn (fst (cw_size net w))"
    and setups: "cw_detach_prefix net w = (w', Inl e) \<Longrightarrow> plain e" "cw_attach_setup net w = (w', Inl e) \<Longrightarrow> plain e"
begin

text \<open>A request whose reply satisfies \<open>Q\<close> of what is picked out of it.\<close>

lemma request_holds:
  assumes reply: "\<And>w w1 w2 w3 reply. P w \<Longrightarrow> cw_write net conn m w = (w1, None) \<Longrightarrow> cw_flush net conn w1 = (w2, None) \<Longrightarrow>
      cw_read net conn w2 = (w3, Inr reply) \<Longrightarrow>
      (case expect reply of Some a \<Rightarrow> Q a w3 | None \<Rightarrow> \<exists>c e. reply = Error c e)"
  shows "holds P (request net conn m place expect) Q plain"
proof -
  let ?W = "\<lambda>w1. \<exists>w. P w \<and> cw_write net conn m w = (w1, None)"
  let ?F = "\<lambda>(_ :: unit) w2. \<exists>w1. ?W w1 \<and> cw_flush net conn w1 = (w2, None)"
  have wrote: "holds P (cli_write_msg net conn m) ?F plain"
    unfolding cli_write_msg_def
  proof (rule holds_bind [OF holds_call [where Q = "\<lambda>r w1. r = None \<longrightarrow> ?W w1"]])
    show "snd (cw_write net conn m w) = None \<longrightarrow> ?W (fst (cw_write net conn m w))" if "P w" for w
      using that by (metis prod.collapse)
    fix r
    show "holds (\<lambda>w1. r = None \<longrightarrow> ?W w1) (case r of Some e \<Rightarrow> stop (Failed (write_failure_of e))
        | None \<Rightarrow> bind_task (call (cw_flush net conn)) (\<lambda>r. case r of
          Some e \<Rightarrow> stop (Failed (Because (lit ''flush frame'') (Bail e))) | None \<Rightarrow> finish ())) ?F plain"
    proof (cases r)
      case None
      have "holds ?W (call (cw_flush net conn)) (\<lambda>r w2. r = None \<longrightarrow> ?F () w2) plain"
        by (rule holds_call) (metis prod.collapse)
      then have "holds ?W (bind_task (call (cw_flush net conn)) (\<lambda>r. case r of
          Some e \<Rightarrow> stop (Failed (Because (lit ''flush frame'') (Bail e))) | None \<Rightarrow> finish ())) ?F plain"
        by (rule holds_bind) (auto split: option.split intro: holds_stop holds_finish)
      then show ?thesis by (simp add: None)
    qed (simp add: holds_stop)
  qed
  have "holds (?F ()) (cli_read_msg net conn)
      (\<lambda>reply w3. case expect reply of Some a \<Rightarrow> Q a w3 | None \<Rightarrow> \<exists>c e. reply = Error c e) plain"
    unfolding cli_read_msg_def by (rule holds_attempt) (use reply in auto)
  moreover have "holds (\<lambda>w3. case expect reply of Some a \<Rightarrow> Q a w3 | None \<Rightarrow> \<exists>c e. reply = Error c e)
      (case expect reply of Some a \<Rightarrow> finish a | None \<Rightarrow> (case reply of
         Error _ message \<Rightarrow> bail message | other \<Rightarrow> stop (Failed (Unexpected (lit place) other)))) Q plain" for reply
    by (cases "expect reply"; cases reply) (auto simp: holds_def finish_def bail_def stop_def)
  ultimately show ?thesis
    unfolding request_def by (intro holds_bind [OF wrote] holds_bind)
qed

text \<open>The two kinds of request: the handshake, and one on a connection that is served.\<close>

lemma asked_holds:
  assumes "asks m" and "\<And>reply. answers m reply \<Longrightarrow> (\<exists>a. expect reply = Some a) \<or> (\<exists>c e. reply = Error c e)"
  shows "holds (ready conn) (request net conn m place expect) (\<lambda>_. ready conn) plain"
proof (rule request_holds)
  fix w w1 w2 w3 reply
  assume "ready conn w" "cw_write net conn m w = (w1, None)" "cw_flush net conn w1 = (w2, None)"
    "cw_read net conn w2 = (w3, Inr reply)"
  from replies [OF this(1) assms(1) this(2-4)]
  show "case expect reply of Some a \<Rightarrow> ready conn w3 | None \<Rightarrow> \<exists>c e. reply = Error c e"
    using assms(2) [of reply] by (auto split: option.split)
qed

lemma handshake_holds: "holds (fresh conn) (handshake net env conn) (\<lambda>(c, _) w. c = conn \<and> ready conn w) plain"
  unfolding handshake_def
proof (rule request_holds)
  fix w w1 w2 w3 reply
  assume "fresh conn w" "cw_write net conn (Hello LocalCli (ce_version env) CONTRACT_VERSION) w = (w1, None)"
    "cw_flush net conn w1 = (w2, None)" "cw_read net conn w2 = (w3, Inr reply)"
  from greets [OF this] show "case (case reply of Welcome _ _ capabilities _ \<Rightarrow> Some (conn, capabilities) | _ \<Rightarrow> None) of
      Some a \<Rightarrow> (\<lambda>(c, _) w. c = conn \<and> ready conn w) a w3 | None \<Rightarrow> \<exists>c e. reply = Error c e"
    by (cases reply) auto
qed

lemma wait_holds: "holds (\<lambda>_. True) (wait_for_daemon net env) fresh plain"
proof -
  have loop: "net' = net \<longrightarrow> (case snd y of Inr conn \<Rightarrow> fresh conn (fst y) | Inl e \<Rightarrow> plain e)"
    if "wait_for_daemon_loop net' env' wait w = Some y" for net' env' wait w y
  proof (rule wait_for_daemon_loop.raw_induct [OF _ that])
    fix f net' env' wait w y
    assume IH: "\<And>net' env' wait w y. f net' env' wait w = Some y \<Longrightarrow>
        net' = net \<longrightarrow> (case snd y of Inr conn \<Rightarrow> fresh conn (fst y) | Inl e \<Rightarrow> plain e)"
      and body: "(case cw_connect net' w of
        (w, Inl e) \<Rightarrow> (case cw_try_wait net' w of
          (w, Inl e') \<Rightarrow> Some (w, Inl (Because (lit ''check shellyd startup status'') (Bail e')))
        | (w, Inr None) \<Rightarrow> (case cw_instant net' w of (w, now) \<Rightarrow>
            (case wait_tick net' env' now wait w of (w, wait, over) \<Rightarrow>
               if over then Some (w, Inl (start_failure ''shellyd is still starting after '' env'
                 (Because (lit ''connect to '' @ ce_socket_path env') e)))
               else f net' env' wait w))
        | (w, Inr (Some status)) \<Rightarrow>
            Some (w, Inl (Bail (lit ''shellyd exited before its control socket was ready ('' @ status @ lit '')''))))
      | (w, Inr conn) \<Rightarrow> Some (w, Inr conn)) = Some y"
    show "net' = net \<longrightarrow> (case snd y of Inr conn \<Rightarrow> fresh conn (fst y) | Inl e \<Rightarrow> plain e)"
    proof
      assume net: "net' = net"
      obtain w1 r1 where 1: "cw_connect net' w = (w1, r1)" by fastforce
      obtain w2 r2 where 2: "cw_try_wait net' w1 = (w2, r2)" by fastforce
      obtain w3 now where 3: "cw_instant net' w2 = (w3, now)" by fastforce
      obtain w4 wait4 over where 4: "wait_tick net' env' now wait w3 = (w4, wait4, over)" by (metis prod_cases3)
      have "case snd y of Inr conn \<Rightarrow> fresh conn (fst y) | Inl e \<Rightarrow> plain e" if "f net' env' wait4 w4 = Some y"
        using IH [OF that] net by blast
      moreover have "y = (w1, Inr conn)" if "r1 = Inr conn" for conn using body 1 that by simp
      moreover have "f net' env' wait4 w4 = Some y \<or> (\<exists>w e. y = (w, Inl e) \<and> plain e)" if "r1 = Inl e" for e
        using body 1 2 3 4 that by (cases r2; cases "projr r2"; cases over) (auto simp: start_failure_def)
      ultimately show "case snd y of Inr conn \<Rightarrow> fresh conn (fst y) | Inl e \<Rightarrow> plain e"
        using connects [OF 1 [unfolded net]] by (cases r1) auto
    qed
  qed
  show ?thesis
    unfolding holds_def wait_for_daemon_def
  proof (intro allI impI)
    fix d d' r
    assume run: "(case cw_instant net (dk_world d) of (w, now) \<Rightarrow>
      (case wait_for_daemon_loop net env (startup_new (ce_interactive env) now) w of
         None \<Rightarrow> None
       | Some (w, Inl e) \<Rightarrow> Some (d\<lparr>dk_world := w\<rparr>, Inl (Failed e))
       | Some (w, Inr conn) \<Rightarrow> Some (d\<lparr>dk_world := w\<rparr>, Inr conn))) = Some (d', r)"
    obtain w now where 1: "cw_instant net (dk_world d) = (w, now)" by fastforce
    obtain w' r' where 2: "wait_for_daemon_loop net env (startup_new (ce_interactive env) now) w = Some (w', r')"
      using run 1 by (auto split: option.splits)
    show "case r of Inr conn \<Rightarrow> fresh conn (dk_world d') | Inl (Failed e) \<Rightarrow> plain e | Inl _ \<Rightarrow> True"
      using loop [OF 2] run 1 2 by (cases r') auto
  qed
qed

lemma connect_local_holds:
  "holds (\<lambda>_. True) (connect_local net env) (\<lambda>(conn, _). ready conn) plain"
proof -
  have greeted: "holds (fresh conn) (handshake net env conn) (\<lambda>(conn, _). ready conn) plain" for conn
    by (rule holds_weaken [OF handshake_holds]) auto
  have any: "holds P (eprintln net s) (\<lambda>_ _. True) plain" "holds P (spawn_daemon net env) (\<lambda>_ _. True) plain" for P s
    by (auto simp: eprintln_def spawn_daemon_def daemon_path_def daemon_path_from_cli_path_def ensure_executable_def Let_def
        split: sum.split option.split intro!: holds_call holds_attempt holds_stop)
  have start: "holds (\<lambda>_. True) (bind_task (eprintln net s) (\<lambda>_. bind_task (spawn_daemon net env) (\<lambda>_.
      bind_task (wait_for_daemon net env) (handshake net env)))) (\<lambda>(conn, _). ready conn) plain" for s
    by (intro holds_bind [OF any(1)] holds_bind [OF any(2)] holds_bind [OF wait_holds] greeted)
  show ?thesis
    unfolding holds_def
  proof (intro allI impI)
    fix d d' r assume run: "connect_local net env d = Some (d', r)"
    obtain w r1 where 1: "cw_connect net (dk_world d) = (w, r1)" by fastforce
    show "case r of Inr a \<Rightarrow> (case a of (conn, _) \<Rightarrow> ready conn) (dk_world d') | Inl (Failed e) \<Rightarrow> plain e | Inl _ \<Rightarrow> True"
    proof (cases r1)
      case (Inr conn)
      then have "fresh conn w" "handshake net env conn (d\<lparr>dk_world := w\<rparr>) = Some (d', r)"
        using connects [OF 1] run 1 by (simp_all add: connect_local_def)
      then show ?thesis using greeted [of conn] unfolding holds_def by (metis cli_state.select_convs(3) cli_state.surjective cli_state.update_convs(3))
    next
      case (Inl e)
      then show ?thesis using run 1 start unfolding holds_def connect_local_def by (auto simp: Inl)
    qed
  qed
qed

text \<open>What can be said without the daemon: printing, and steps after which nothing is needed.\<close>

lemma print_holds:
  "holds (ready conn) (print_raw net s) (\<lambda>_. ready conn) plain" "holds (ready conn) (println net s) (\<lambda>_. ready conn) plain"
  "holds (ready conn) (eprintln net s) (\<lambda>_. ready conn) plain"
  by (auto simp: print_raw_def println_def eprintln_def prints intro!: holds_call)

lemma print_any:
  "holds P (print_raw net s) (\<lambda>_ _. True) plain" "holds P (println net s) (\<lambda>_ _. True) plain"
  "holds P (eprintln net s) (\<lambda>_ _. True) plain"
  by (auto simp: print_raw_def println_def eprintln_def intro!: holds_call)

lemma print_all_any: "holds P (print_all net ls) (\<lambda>_ _. True) plain"
  by (induction ls arbitrary: P) (auto intro!: holds_finish holds_bind [OF print_any(2)])

lemma size_holds: "holds (ready conn) (terminal_size net) (\<lambda>_. ready conn) plain"
  unfolding terminal_size_def
  by (rule holds_bind [OF holds_call [where Q = "\<lambda>_. ready conn"]])
    (auto intro: sizes holds_finish)

lemma resolve_holds: "holds (ready conn) (resolve_session net env conn value) (\<lambda>_. ready conn) plain"
  unfolding resolve_session_def
  by (rule holds_bind [OF asked_holds [where m = ListSessions]])
    (auto simp: asks_def answers_def list_reply_def split: server_msg.splits option.split intro: holds_finish holds_bail)

lemma kill_holds: "holds (ready conn) (kill_session_by_id net env conn sid) (\<lambda>_. ready conn) plain"
  unfolding kill_session_by_id_def
  by (rule holds_bind [OF asked_holds [where m = "KillSession sid"]])
    (auto simp: asks_def answers_def split: server_msg.splits intro: holds_finish holds_bail)

lemma fetch_holds: "holds (\<lambda>_. True) (fetch_sessions net env) (\<lambda>_ _. True) plain"
  unfolding fetch_sessions_def
proof (rule holds_bind [OF connect_local_holds])
  fix a :: "nat \<times> capabilities"
  have "holds (ready (fst a)) (request net (fst a) ListSessions ''unexpected daemon response: '' list_reply) (\<lambda>_ _. True) plain"
    by (rule holds_weaken [OF asked_holds [where m = ListSessions]])
      (auto simp: asks_def answers_def list_reply_def split: server_msg.splits)
  then show "holds ((\<lambda>(conn, _). ready conn) a) ((\<lambda>(conn, _).
      request net conn ListSessions ''unexpected daemon response: '' list_reply) a) (\<lambda>_ _. True) plain"
    by (simp add: case_prod_beta)
qed

text \<open>A command that connects first and then goes on with the connection.\<close>

lemma connected_holds:
  assumes "\<And>conn. holds (ready conn) (f conn) (\<lambda>_ _. True) plain"
  shows "holds (\<lambda>_. True) (bind_task (connect_local net env) (\<lambda>(conn, _). f conn)) (\<lambda>_ _. True) plain"
  by (rule holds_bind [OF connect_local_holds]) (use assms in \<open>simp add: case_prod_beta\<close>)

lemma asked_any:
  assumes "asks m" and "\<And>reply. answers m reply \<Longrightarrow> (\<exists>a. expect reply = Some a) \<or> (\<exists>c e. reply = Error c e)"
  shows "holds (ready conn) (request net conn m place expect) (\<lambda>_ _. True) plain"
  by (rule holds_weaken [OF asked_holds [OF assms]]) simp_all

lemma create_summary_holds: "holds (\<lambda>_. True) (create_session_summary net env dir name command) (\<lambda>_ _. True) plain"
proof -
  have ask: "holds (ready conn) (bind_task (pure_result (requested_session_name name)) (\<lambda>name.
      request net conn (CreateSession name c cwd (\<lambda>_. None) sz) ''unexpected daemon response: ''
        (\<lambda>reply. case reply of SessionCreated _ summary \<Rightarrow> Some summary | _ \<Rightarrow> None))) (\<lambda>_ _. True) plain" for conn c cwd sz
    by (rule holds_bind [where Q = "\<lambda>_. ready conn"])
      (auto simp: pure_result_def asks_def answers_def split: sum.split server_msg.splits client_msg.splits
        intro!: holds_finish holds_bail asked_any)
  have size: "holds (\<lambda>_. True) (terminal_size net) (\<lambda>_ _. True) plain"
    unfolding terminal_size_def by (rule holds_bind [OF holds_call [where Q = "\<lambda>_ _. True"]]) (auto intro: holds_finish)
  show ?thesis
    unfolding create_session_summary_def Let_def
    by (auto split: sum.split intro!: holds_stop holds_bind [OF size] connected_holds ask)
qed

lemma attach_holds: "holds (\<lambda>_. True) (attach_session net env session_ref) (\<lambda>_ _. True) plain"
proof -
  have drop: "holds P m (\<lambda>_ _. True) plain \<Longrightarrow> holds P (dropping g m) (\<lambda>_ _. True) plain" for P g and m :: "('a, 'b) task"
    unfolding holds_def dropping_def by (fastforce split: option.splits sum.splits cli_stop.splits)
  have fail: "holds P (attempt_with f g) (\<lambda>_ _. True) plain"
    if "\<And>w w' e. g w = (w', Inl e) \<Longrightarrow> plain (f e)" for P and f :: "'e \<Rightarrow> cli_error" and g :: "'a \<Rightarrow> 'a \<times> ('e + 'c)"
    by (rule holds_attempt) (use that in auto)
  have raw: "holds P (enter_raw_mode net) (\<lambda>_ _. True) plain" for P
    unfolding enter_raw_mode_def by (rule holds_bind [OF fail]) (simp_all add: holds_def)
  have screen: "holds P (enter_screen net what) (\<lambda>_ _. True) plain" for P what
    unfolding enter_screen_def flush_out_def
    by (intro holds_bind [OF print_any(1)] holds_bind [where Q = "\<lambda>_ _. True"] holds_call)
      (auto split: option.split simp: holds_def stop_def finish_def)
  have result: "holds P (attach_result net outcome) (\<lambda>_ _. True) plain" for P outcome
    unfolding attach_result_def
    by (auto split: attach_outcome.split intro!: holds_finish holds_bail holds_bind [OF print_any(3)] holds_exit)
  have ended: "holds P (\<lambda>d. case r of AttachSignal signal \<Rightarrow> Some (restore_for_exit net d, Inl (Raised signal))
      | AttachEnded (Inl e) \<Rightarrow> Some (d, Inl (Failed (Bail e))) | AttachEnded (Inr outcome) \<Rightarrow> Some (d, Inr outcome))
      (\<lambda>_ _. True) plain" for P r
    by (auto simp: holds_def split: attach_end.split sum.split)
  have terminal: "holds P (attached_terminal net conn session bar sz b) (\<lambda>_ _. True) plain" for P conn session bar sz b
    unfolding attached_terminal_def
    by (intro drop holds_bind [OF raw] holds_bind [where Q = "\<lambda>_ _. True"] holds_call ended) (auto intro: screen holds_finish)
  show ?thesis
    unfolding attach_session_def Let_def
    by (intro connected_holds holds_bind [OF resolve_holds] holds_bind [OF size_holds] holds_bind [OF fail]
        holds_bind [OF terminal] result) (auto dest: setups)
qed

end

text \<open>The commands that ask the daemon something and end.\<close>

definition talks :: "cli_command \<Rightarrow> bool" where
  "talks command = (case command of
     CmdPair \<Rightarrow> False | CmdSettings _ \<Rightarrow> False | CmdDaemon _ \<Rightarrow> False | CmdDoctor _ \<Rightarrow> False | _ \<Rightarrow> True)"

context daemon_link
begin

lemma kill_each_holds: "holds (ready conn) (kill_each net env conn l) (\<lambda>_. ready conn) plain"
  by (induction l) (auto intro: holds_finish holds_bind [OF kill_holds])

lemma emit_each_holds: "holds (ready conn) (emit_each net conn sid l) (\<lambda>_. ready conn) plain"
proof (induction l)
  case (Cons state l)
  have "holds (ready conn) (emit_agent_state_event net conn sid SrcCodex state None) (\<lambda>_. ready conn) plain"
    unfolding emit_agent_state_event_def
    by (rule asked_holds) (auto simp: asks_def answers_def split: server_msg.splits)
  then show ?case using Cons by (auto intro: holds_bind)
qed (simp add: holds_finish)

lemma command_holds:
  assumes "talks command"
  shows "holds (\<lambda>_. True) (run_command net env ch mt completion command) (\<lambda>_ _. True) plain"
proof -
  note end_any = print_any print_all_any
  have print_sessions: "holds P (print_sessions net env l) (\<lambda>_ _. True) plain" for P l
    by (auto simp: print_sessions_def intro: end_any)
  have ls: "holds (\<lambda>_. True) (cli_list_sessions net env) (\<lambda>_ _. True) plain"
    unfolding cli_list_sessions_def by (rule holds_bind [OF fetch_holds print_sessions])
  have new: "holds (\<lambda>_. True) (cli_create_session net env dir name args) (\<lambda>_ _. True) plain" for dir name args
    unfolding cli_create_session_def by (rule holds_bind [OF create_summary_holds end_any(2)])
  have kill: "holds (\<lambda>_. True) (cli_kill_session net env r) (\<lambda>_ _. True) plain" for r
    unfolding cli_kill_session_def
    by (intro connected_holds holds_bind [OF resolve_holds] holds_bind [OF kill_holds] end_any)
  have kill_all: "holds (\<lambda>_. True) (kill_all_sessions net env) (\<lambda>_ _. True) plain"
    unfolding kill_all_sessions_def
    by (rule holds_bind [OF fetch_holds])
      (auto intro!: end_any connected_holds holds_bind [OF kill_each_holds] holds_bind [OF print_all_any])
  have devices: "holds (\<lambda>_. True) (list_devices net env) (\<lambda>_ _. True) plain"
    unfolding list_devices_def
    by (intro connected_holds holds_bind [OF asked_any])
      (auto simp: asks_def answers_def device_reply_def split: server_msg.splits intro: end_any)
  have remove: "holds (\<lambda>_. True) (cli_remove_device net env name) (\<lambda>_ _. True) plain" for name
    unfolding cli_remove_device_def
    by (intro connected_holds holds_bind [OF asked_any])
      (auto simp: asks_def answers_def device_reply_def split: server_msg.splits intro: end_any)
  have hook: "holds (\<lambda>_. True) (run_hook net env c) (\<lambda>_ _. True) plain" for c
  proof -
    have sid: "hook_session_id env x = Inl e \<Longrightarrow> plain e" for x e
      by (auto simp: hook_session_id_def split: option.splits sum.splits)
    have emit: "holds (ready conn) (emit_agent_state_event net conn sid src state l) (\<lambda>_ _. True) plain" for conn sid src state l
      unfolding emit_agent_state_event_def
      by (rule asked_any) (auto simp: asks_def answers_def split: server_msg.splits)
    have each: "holds (ready conn) (emit_each net conn sid l) (\<lambda>_ _. True) plain" for conn sid l
      by (rule holds_weaken [OF emit_each_holds]) simp_all
    have stdin: "holds P (attempt_with (\<lambda>e. Because (lit ''read Codex event JSON from stdin'') (Bail e)) (cw_stdin net))
        (\<lambda>_ _. True) plain" for P by (rule holds_attempt) simp_all
    show ?thesis unfolding run_hook_def
      by (auto split: hook_command.split sum.split option.split dest: sid
          intro!: holds_stop holds_bail connected_holds emit each holds_bind [OF stdin])
  qed
  have start: "holds (\<lambda>_. True) (run_default net env) (\<lambda>_ _. True) plain"
    unfolding run_default_def by (intro holds_bind [OF create_summary_holds] holds_bind [OF print_any(3)] attach_holds)
  have named: "holds (\<lambda>_. True) (open_named_session net env args) (\<lambda>_ _. True) plain" for args
    unfolding open_named_session_def
    by (rule holds_bind [where Q = "\<lambda>_ _. True"], (auto simp: pure_result_def split: sum.split intro: holds_bail holds_finish) [1],
        rule holds_bind [OF fetch_holds])
      (auto split: option.split intro!: attach_holds holds_bind [OF create_summary_holds] holds_bind [OF print_any(3)])
  show ?thesis using assms
    by (cases command) (auto simp: run_command_def talks_def start ls new kill kill_all hook named attach_holds end_any
        devices remove split: option.split)
qed

end

end
