(* ===== verification/CliDesk.thy ===== *)
theory CliDesk
  imports CliConsent CliStart CliTalk LocalIpc
begin

text \<open>
  The command line against the daemon: a \<open>cli_net\<close> whose connections are served by the request
  loop of \<open>LocalIpc\<close> on one shared state, while the rest of the daemon goes on between any two
  requests.  What is not the daemon's (keys, sizes, signals, the service manager, the attached
  terminal) is a script.
\<close>

section \<open>The world\<close>

record 'm desk_daemon =
  dw_listening :: bool
  dw_conns :: "(conn_phase \<times> server_msg list) list"
  dw_app :: "'m app"
  dw_served :: nat
  dw_time :: nat
  dw_seen :: nat
  dw_screen :: rstr

record 'm desk_setup =
  ds_parser :: "'m parser"
  ds_codex :: "rstr \<Rightarrow> codex_event option"
  ds_persist :: persist_crates
  ds_version :: rstr
  ds_host :: rstr
  ds_call :: "nat \<Rightarrow> call_context"
  ds_meanwhile :: "nat \<Rightarrow> registry_event list"
  ds_spawns :: bool
  ds_key :: "nat option"
  ds_size :: "(nat \<times> nat) option"
  ds_events :: "nat \<Rightarrow> pair_event option"
  ds_attach :: "session_summary \<Rightarrow> attach_end"
  ds_status :: "rstr + service_status"

text \<open>A request: the rest of the daemon first, then the connection's own loop.\<close>

definition live_conn :: "nat \<Rightarrow> 'm desk_daemon \<Rightarrow> bool" where
  "live_conn conn w \<longleftrightarrow> conn < length (dw_conns w) \<and> fst (dw_conns w ! conn) \<noteq> Ended"

definition app_before :: "'m desk_setup \<Rightarrow> 'm desk_daemon \<Rightarrow> 'm app" where
  "app_before ds w = foldl (registry_step (ds_parser ds) (ds_codex ds) (ds_persist ds)) (dw_app w) (ds_meanwhile ds (dw_served w))"

definition serve_on :: "'m desk_setup \<Rightarrow> nat \<Rightarrow> client_msg \<Rightarrow> 'm desk_daemon \<Rightarrow> 'm desk_daemon" where
  "serve_on ds conn m w = (case dw_conns w ! conn of (phase, inbox) \<Rightarrow>
     let l = local_step (ds_parser ds) (ds_codex ds) (ds_persist ds) (ClientId conn) (ds_version ds) (ds_host ds)
           \<lparr>lo_phase = phase, lo_sent = [], lo_app = app_before ds w\<rparr> (Own (ds_call ds (dw_served w)) (Some m)) in
     w\<lparr>dw_conns := (dw_conns w)[conn := (lo_phase l, inbox @ lo_sent l)], dw_app := lo_app l,
       dw_served := Suc (dw_served w)\<rparr>)"

definition desk_connect :: "'m desk_daemon \<Rightarrow> 'm desk_daemon \<times> (cli_error + nat)" where
  "desk_connect w =
     (if dw_listening w then (w\<lparr>dw_conns := dw_conns w @ [(Greeting, [])]\<rparr>, Inr (length (dw_conns w)))
      else (w, Inl (Bail (lit ''No such file or directory''))))"

definition desk_write :: "'m desk_setup \<Rightarrow> nat \<Rightarrow> client_msg \<Rightarrow> 'm desk_daemon \<Rightarrow> 'm desk_daemon \<times> (rstr, rstr) write_error option" where
  "desk_write ds conn m w =
     (if live_conn conn w then (serve_on ds conn m w, None) else (w, Some (WriteLength (lit ''Broken pipe''))))"

definition pop_message :: "nat \<Rightarrow> 'm desk_daemon \<Rightarrow> ('m desk_daemon \<times> server_msg) option" where
  "pop_message conn w =
     (if conn < length (dw_conns w) then (case dw_conns w ! conn of
        (phase, m # ms) \<Rightarrow> Some (w\<lparr>dw_conns := (dw_conns w)[conn := (phase, ms)]\<rparr>, m) | _ \<Rightarrow> None)
      else None)"

definition desk_read :: "nat \<Rightarrow> 'm desk_daemon \<Rightarrow> 'm desk_daemon \<times> ((rstr, rstr) read_error + server_msg)" where
  "desk_read conn w = (case pop_message conn w of
     Some (w, m) \<Rightarrow> (w, Inr m) | None \<Rightarrow> (w, Inl (ReadLength (lit ''early eof''))))"

definition desk_pair_event :: "'m desk_setup \<Rightarrow> nat \<Rightarrow> 'm desk_daemon \<Rightarrow> 'm desk_daemon \<times> pair_event" where
  "desk_pair_event ds conn w = (case ds_events ds (dw_seen w) of
     Some ev \<Rightarrow> (w\<lparr>dw_seen := Suc (dw_seen w)\<rparr>, ev)
   | None \<Rightarrow> (case pop_message conn w of
       Some (w, m) \<Rightarrow> (w, Message (Inr m)) | None \<Rightarrow> (w\<lparr>dw_time := dw_time w + 200\<rparr>, Tick)))"

definition desk_net :: "'m desk_setup \<Rightarrow> 'm desk_daemon cli_net" where
  "desk_net ds = \<lparr>
     cw_connect = desk_connect, cw_write = desk_write ds, cw_flush = (\<lambda>_ w. (w, None)), cw_read = desk_read,
     cw_spawn = (\<lambda>_ w. if ds_spawns ds then (w\<lparr>dw_listening := True\<rparr>, Inr ()) else (w, Inr ())),
     cw_try_wait = (\<lambda>w. (w, Inr None)),
     cw_instant = (\<lambda>w. (w\<lparr>dw_time := Suc (dw_time w)\<rparr>, dw_time w)),
     cw_clock_ms = (\<lambda>w. (w, dw_time w)),
     cw_sleep = (\<lambda>n w. w\<lparr>dw_time := dw_time w + n\<rparr>),
     cw_print = (\<lambda>s w. w\<lparr>dw_screen := dw_screen w @ s\<rparr>), cw_flush_out = (\<lambda>w. (w, None)), cw_eprint = (\<lambda>_ w. w),
     cw_size = (\<lambda>w. (w, ds_size ds)), cw_raw_mode = (\<lambda>w. (w, Inr ())), cw_no_raw_mode = (\<lambda>w. w),
     cw_key = (\<lambda>w. (w, Inr (ds_key ds))), cw_stdin = (\<lambda>w. (w, Inr [])), cw_signals = (\<lambda>w. (w, Inr ())),
     cw_pair_event = desk_pair_event ds,
     cw_detach_prefix = (\<lambda>w. (w, Inr 2)), cw_attach_setup = (\<lambda>w. (w, Inr ())),
     cw_attach = (\<lambda>_ s _ _ w. (w, ds_attach ds s)),
     cw_service = \<lparr>sm_install = (\<lambda>_ w. (w, Inr ())), sm_start = (\<lambda>w. (w, Inr ())), sm_stop = (\<lambda>w. (w, Inr ())),
       sm_uninstall = (\<lambda>w. (w, Inr ())), sm_status = (\<lambda>w. (w, ds_status ds))\<rparr>\<rparr>"

lemma desk_net_sel [simp]:
  "cw_connect (desk_net ds) = desk_connect" "cw_write (desk_net ds) = desk_write ds"
  "cw_flush (desk_net ds) conn w = (w, None)" "cw_read (desk_net ds) = desk_read"
  "cw_try_wait (desk_net ds) w = (w, Inr None)"
  "cw_instant (desk_net ds) w = (w\<lparr>dw_time := Suc (dw_time w)\<rparr>, dw_time w)"
  "cw_sleep (desk_net ds) n w = w\<lparr>dw_time := dw_time w + n\<rparr>"
  "cw_print (desk_net ds) s w = w\<lparr>dw_screen := dw_screen w @ s\<rparr>" "cw_eprint (desk_net ds) s w = w"
  "cw_size (desk_net ds) w = (w, ds_size ds)" "sm_status (cw_service (desk_net ds)) w = (w, ds_status ds)"
  "cw_flush_out (desk_net ds) w = (w, None)" "cw_clock_ms (desk_net ds) w = (w, dw_time w)"
  "cw_spawn (desk_net ds) path w = (if ds_spawns ds then (w\<lparr>dw_listening := True\<rparr>, Inr ()) else (w, Inr ()))"
  "cw_stdin (desk_net ds) w = (w, Inr [])" "cw_signals (desk_net ds) w = (w, Inr ())"
  "cw_detach_prefix (desk_net ds) w = (w, Inr 2)" "cw_attach_setup (desk_net ds) w = (w, Inr ())"
  "cw_attach (desk_net ds) conn chosen sz b w = (w, ds_attach ds chosen)" "cw_raw_mode (desk_net ds) w = (w, Inr ())"
  "cw_no_raw_mode (desk_net ds) w = w" "cw_pair_event (desk_net ds) = desk_pair_event ds"
  "cw_key (desk_net ds) w = (w, Inr (ds_key ds))"
  by (simp_all add: desk_net_def)

interpretation desk: steady "desk_net ds" dw_time
  by unfold_locales
    (auto simp: desk_connect_def desk_write_def desk_read_def serve_on_def pop_message_def Let_def
      split: prod.split option.split list.split)

section \<open>What the daemon answers\<close>

definition desk_fresh :: "nat \<Rightarrow> 'm desk_daemon \<Rightarrow> bool" where
  "desk_fresh conn w \<longleftrightarrow> conn < length (dw_conns w) \<and> dw_conns w ! conn = (Greeting, [])"

definition desk_ready :: "nat \<Rightarrow> 'm desk_daemon \<Rightarrow> bool" where
  "desk_ready conn w \<longleftrightarrow> conn < length (dw_conns w) \<and>
     (\<exists>c. dw_conns w ! conn = (Serving c, []) \<and> cn_kind c = LocalCli)"

lemma asked_reply:
  assumes "asks m" and "cn_kind c = LocalCli" and "handle_message tm cr ctx m c s = (ms, cont, c', s')"
  shows "cont \<and> c' = c \<and> (\<exists>reply. ms = [reply] \<and> answers m reply)"
  using assms
  by (cases m) (auto simp: asks_def answers_def handle_message_def Let_def may_create_or_kill_session_def
      create_session_for_def invalid_client_size_def kill_session_response_def handle_begin_pairing_def
      handle_remove_device_def handle_agent_event_def may_emit_agent_state_event_def
      session_not_found_def forbidden_def split: prod.splits option.splits sum.splits if_splits)

text \<open>A request on a connection that is served, and its reply.\<close>

lemma desk_exchange:
  assumes ready: "desk_ready conn w" and m: "asks m"
    and wrote: "desk_write ds conn m w = (w1, None)" and got: "desk_read conn w1 = (w3, Inr reply)"
  shows "\<exists>c. handle_message (ds_parser ds) (ds_persist ds) (ds_call ds (dw_served w)) m c (app_before ds w) =
      ([reply], True, c, dw_app w3) \<and> answers m reply \<and> desk_ready conn w3 \<and> cn_kind c = LocalCli \<and>
      fresh_id (app_before ds w) (sp_id (cc_spawn (ds_call ds (dw_served w)))) \<and> dw_screen w3 = dw_screen w"
proof -
  obtain c where c: "conn < length (dw_conns w)" "dw_conns w ! conn = (Serving c, [])" "cn_kind c = LocalCli"
    using ready unfolding desk_ready_def by blast
  let ?ctx = "ds_call ds (dw_served w)" and ?app = "app_before ds w"
  let ?start = "\<lparr>lo_phase = Serving c, lo_sent = [], lo_app = ?app\<rparr>"
  obtain ms cont c' s' where h: "handle_message (ds_parser ds) (ds_persist ds) ?ctx m c ?app = (ms, cont, c', s')"
    by (metis prod_cases4)
  obtain r where r: "cont" "c' = c" "ms = [r]" "answers m r" using asked_reply [OF m c(3) h] by blast
  define l where "l = local_step (ds_parser ds) (ds_codex ds) (ds_persist ds) (ClientId conn) (ds_version ds) (ds_host ds)
    ?start (Own ?ctx (Some m))"
  have w1: "w1 = w\<lparr>dw_conns := (dw_conns w)[conn := (lo_phase l, lo_sent l)], dw_app := lo_app l, dw_served := Suc (dw_served w)\<rparr>"
    using wrote c(2) by (auto simp: desk_write_def serve_on_def l_def Let_def split: if_splits)
  have sent: "lo_sent l \<noteq> []"
    using got c(1) by (auto simp: desk_read_def pop_message_def w1 split: option.splits list.splits)
  have fresh: "fresh_id ?app (sp_id (cc_spawn ?ctx))" using sent by (auto simp: l_def local_step_def split: if_splits)
  have written: "0 < cc_written ?ctx"
    using sent fresh h r by (cases "cc_written ?ctx") (simp_all add: l_def local_step_def serve_message_def end_connection_def)
  have l: "lo_phase l = Serving c" "lo_sent l = [r]" "lo_app l = s'"
    using fresh written h r by (simp_all add: l_def local_step_def serve_message_def)
  have "w3 = w1\<lparr>dw_conns := (dw_conns w1)[conn := (Serving c, [])]\<rparr>" "reply = r"
    using got c(1) by (auto simp: desk_read_def pop_message_def w1 l split: option.splits list.splits)
  then show ?thesis
    using h r c fresh by (auto simp: w1 l desk_ready_def)
qed

lemma desk_greets:
  assumes "desk_fresh conn w" and wrote: "desk_write ds conn (Hello LocalCli v n) w = (w1, None)"
    and got: "desk_read conn w1 = (w3, Inr reply)"
  shows "(case reply of Welcome _ _ _ _ \<Rightarrow> desk_ready conn w3 | Error _ _ \<Rightarrow> True | _ \<Rightarrow> False) \<and>
    dw_app w3 = app_before ds w \<and> dw_screen w3 = dw_screen w"
proof -
  have c: "conn < length (dw_conns w)" "dw_conns w ! conn = (Greeting, [])" using assms(1) by (simp_all add: desk_fresh_def)
  let ?ctx = "ds_call ds (dw_served w)" and ?app = "app_before ds w"
  define l where "l = local_step (ds_parser ds) (ds_codex ds) (ds_persist ds) (ClientId conn) (ds_version ds) (ds_host ds)
    \<lparr>lo_phase = Greeting, lo_sent = [], lo_app = ?app\<rparr> (Own ?ctx (Some (Hello LocalCli v n)))"
  have w1: "w1 = w\<lparr>dw_conns := (dw_conns w)[conn := (lo_phase l, lo_sent l)], dw_app := lo_app l, dw_served := Suc (dw_served w)\<rparr>"
    using wrote c(2) by (auto simp: desk_write_def serve_on_def l_def Let_def split: if_splits)
  have sent: "lo_sent l \<noteq> []"
    using got c(1) by (auto simp: desk_read_def pop_message_def w1 split: option.splits list.splits)
  have app: "lo_app l = ?app" by (simp add: l_def local_step_def serve_message_def split: prod.split)
  have "\<exists>r. lo_sent l = [r] \<and> (case r of
      Welcome _ _ _ _ \<Rightarrow> \<exists>c. lo_phase l = Serving c \<and> cn_kind c = LocalCli | Error _ _ \<Rightarrow> True | _ \<Rightarrow> False)"
    using sent by (auto simp: l_def local_step_def serve_message_def accept_hello_def split: if_splits)
  then obtain r where r: "lo_sent l = [r]" "case r of
      Welcome _ _ _ _ \<Rightarrow> \<exists>c. lo_phase l = Serving c \<and> cn_kind c = LocalCli | Error _ _ \<Rightarrow> True | _ \<Rightarrow> False" by blast
  have "w3 = w1\<lparr>dw_conns := (dw_conns w1)[conn := (lo_phase l, [])]\<rparr>" "reply = r"
    using got c(1) by (auto simp: desk_read_def pop_message_def w1 r(1) split: option.splits list.splits)
  then show ?thesis
    using r(2) c by (cases r) (auto simp: w1 app desk_ready_def)
qed

interpretation desk_link: daemon_link "desk_net ds" desk_fresh desk_ready
proof unfold_locales
  fix w w' :: "'a desk_daemon" and r
  assume "cw_connect (desk_net ds) w = (w', r)"
  then show "case r of Inr conn \<Rightarrow> desk_fresh conn w' | Inl e \<Rightarrow> plain e"
    by (auto simp: desk_connect_def desk_fresh_def split: if_splits)
next
  fix conn and w w1 w2 w3 :: "'a desk_daemon" and v n reply
  assume "desk_fresh conn w" "cw_write (desk_net ds) conn (Hello LocalCli v n) w = (w1, None)"
    "cw_flush (desk_net ds) conn w1 = (w2, None)" "cw_read (desk_net ds) conn w2 = (w3, Inr reply)"
  then show "case reply of Welcome _ _ _ _ \<Rightarrow> desk_ready conn w3 | Error _ _ \<Rightarrow> True | _ \<Rightarrow> False"
    using desk_greets [of conn w ds v n w1 w3 reply] by simp
next
  fix conn and w w1 w2 w3 :: "'a desk_daemon" and m reply
  assume "desk_ready conn w" "asks m" "cw_write (desk_net ds) conn m w = (w1, None)"
    "cw_flush (desk_net ds) conn w1 = (w2, None)" "cw_read (desk_net ds) conn w2 = (w3, Inr reply)"
  then show "answers m reply \<and> desk_ready conn w3"
    using desk_exchange [of conn w m ds w1 w3 reply] by auto
qed (simp_all add: desk_ready_def desk_net_def)


section \<open>Killing a session by name\<close>

lemma app_before_inv: "registry_inv (dw_app w) \<Longrightarrow> registry_inv (app_before ds w)"
  unfolding app_before_def by (rule registry.run_inv)

definition gone :: "'m desk_setup \<Rightarrow> session_id \<Rightarrow> 'm app \<Rightarrow> bool" where
  "gone ds sid s \<longleftrightarrow> (\<forall>n. \<not> owner s sid n) \<and>
     (ap_persistence s \<noteq> None \<longrightarrow> tbl_get (ap_sessions_table s) (uuid_text (ds_persist ds) (session_uuid sid)) = None)"

lemma killed_gone:
  assumes inv: "registry_inv s" and "kill_session_response (ds_parser ds) (ds_persist ds) child fault sid s = (SessionKilled got, s')"
  shows "got = sid \<and> gone ds sid s'"
proof -
  have kill: "kill_session_response (ds_parser ds) (ds_persist ds) child fault sid s = (SessionKilled sid, s')" "got = sid"
    using assms(2) by (auto simp: kill_session_response_def split: prod.splits option.splits)
  have can: "case map_of (ap_sessions s) sid of None \<Rightarrow> True | Some x \<Rightarrow> fst (session_kill child x)"
    using kill(1) by (auto simp: kill_session_response_def kill_session_for_def Let_def split: option.splits prod.splits if_splits)
  obtain t where t: "s' = publish_session_list (ds_parser ds) ((forgotten sid s)\<lparr>ap_sessions_table := t\<rparr>)"
      "ap_persistence s \<noteq> None \<longrightarrow> (if fault = None
        then tbl_get t (uuid_text (ds_persist ds) (session_uuid sid)) = None else t = ap_sessions_table s)"
      "fault = None \<or> ap_persistence s = None"
    using kill_gone [OF inv can kill(1)] by (auto split: if_splits)
  have "\<not> owner s' sid n" for n unfolding t(1) using owner_publish_forgotten [OF inv] by blast
  then show ?thesis using t kill(2) by (auto simp: gone_def)
qed

text \<open>What the world is like while the command runs, and the requests in it.\<close>

definition sane :: "'m desk_daemon \<Rightarrow> bool" where
  "sane w \<longleftrightarrow> registry_inv (dw_app w)"

lemma desk_lists:
  "holds (\<lambda>w. desk_ready conn w \<and> sane w) (request (desk_net ds) conn ListSessions place list_reply)
    (\<lambda>l w. desk_ready conn w \<and> sane w \<and> (\<exists>s. registry_inv s \<and> l = fst (summaries (ds_parser ds) s))) plain"
proof (rule desk_link.request_holds)
  fix w w1 w2 w3 :: "'a desk_daemon" and reply
  assume a: "desk_ready conn w \<and> sane w" "cw_write (desk_net ds) conn ListSessions w = (w1, None)"
    "cw_flush (desk_net ds) conn w1 = (w2, None)" "cw_read (desk_net ds) conn w2 = (w3, Inr reply)"
  obtain c where c: "handle_message (ds_parser ds) (ds_persist ds) (ds_call ds (dw_served w)) ListSessions c (app_before ds w) =
      ([reply], True, c, dw_app w3)" "desk_ready conn w3" "fresh_id (app_before ds w) (sp_id (cc_spawn (ds_call ds (dw_served w))))"
    using desk_exchange [of conn w ListSessions ds w1 w3 reply] a by (auto simp: asks_def)
  have inv: "registry_inv (app_before ds w)" using a(1) app_before_inv [of w ds] unfolding sane_def by blast
  have "sane w3" unfolding sane_def by (rule handle_message_inv [OF inv c(3) c(1)])
  moreover have "reply = SessionList (fst (summaries (ds_parser ds) (app_before ds w)))"
    using c(1) by (auto simp: handle_message_def Let_def split: prod.splits)
  ultimately show "case list_reply reply of
      Some l \<Rightarrow> desk_ready conn w3 \<and> sane w3 \<and> (\<exists>s. registry_inv s \<and> l = fst (summaries (ds_parser ds) s))
    | None \<Rightarrow> \<exists>c e. reply = Error c e"
    using c(2) inv by (auto simp: list_reply_def)
qed

lemma desk_kills:
  "holds (\<lambda>w. desk_ready conn w \<and> sane w) (kill_session_by_id (desk_net ds) env conn sid) (\<lambda>_ w. gone ds sid (dw_app w)) plain"
  unfolding kill_session_by_id_def
proof (rule holds_bind [OF desk_link.request_holds [where Q = "\<lambda>got w. got = sid \<and> gone ds sid (dw_app w)"]])
  fix w w1 w2 w3 :: "'a desk_daemon" and reply
  assume a: "desk_ready conn w \<and> sane w" "cw_write (desk_net ds) conn (KillSession sid) w = (w1, None)"
    "cw_flush (desk_net ds) conn w1 = (w2, None)" "cw_read (desk_net ds) conn w2 = (w3, Inr reply)"
  obtain c where c: "handle_message (ds_parser ds) (ds_persist ds) (ds_call ds (dw_served w)) (KillSession sid) c (app_before ds w) =
      ([reply], True, c, dw_app w3)" "cn_kind c = LocalCli" "answers (KillSession sid) reply"
    using desk_exchange [of conn w "KillSession sid" ds w1 w3 reply] a by (auto simp: asks_def)
  have inv: "registry_inv (app_before ds w)" using a(1) app_before_inv [of w ds] unfolding sane_def by blast
  show "case (case reply of SessionKilled got \<Rightarrow> Some got | _ \<Rightarrow> None) of
      Some got \<Rightarrow> got = sid \<and> gone ds sid (dw_app w3) | None \<Rightarrow> \<exists>c e. reply = Error c e"
  proof (cases "\<exists>got. reply = SessionKilled got")
    case True
    then obtain got where got: "reply = SessionKilled got" by blast
    have "kill_session_response (ds_parser ds) (ds_persist ds) (cc_child (ds_call ds (dw_served w)))
        (cc_fault (ds_call ds (dw_served w))) sid (app_before ds w) = (SessionKilled got, dw_app w3)"
      using c(1,2) got by (auto simp: handle_message_def Let_def may_create_or_kill_session_def split: prod.splits if_splits)
    from killed_gone [OF inv this] show ?thesis using got by simp
  qed (use c(3) in \<open>cases reply; simp add: answers_def\<close>)
qed (auto intro: holds_finish holds_bail)

lemma desk_says:
  "holds (\<lambda>w. P (dw_app w)) (println (desk_net ds) t) (\<lambda>_ w. P (dw_app w) \<and> (\<exists>u. dw_screen w = u @ t @ [10])) plain"
  unfolding println_def print_raw_def by (rule holds_call) auto

lemma desk_resolves:
  "holds (\<lambda>w. desk_ready conn w \<and> sane w) (resolve_session (desk_net ds) env conn value)
    (\<lambda>s w. desk_ready conn w \<and> sane w \<and>
      (\<exists>l s0. registry_inv s0 \<and> l = fst (summaries (ds_parser ds) s0) \<and> find_session env value l = Some s)) plain"
  unfolding resolve_session_def
proof (rule holds_bind [OF desk_lists])
  fix l
  show "holds (\<lambda>w. desk_ready conn w \<and> sane w \<and> (\<exists>s. registry_inv s \<and> l = fst (summaries (ds_parser ds) s)))
      (case find_session env value l of Some s \<Rightarrow> finish s | None \<Rightarrow> bail (lit ''session not found: '' @ value))
      (\<lambda>s w. desk_ready conn w \<and> sane w \<and>
        (\<exists>l s0. registry_inv s0 \<and> l = fst (summaries (ds_parser ds) s0) \<and> find_session env value l = Some s)) plain"
    by (cases "find_session env value l") (auto simp: holds_bail intro!: holds_finish)
qed

lemma desk_connected:
  assumes "dw_listening w" and "registry_inv (dw_app w)"
  shows "\<exists>w'. desk_connect w = (w', Inr (length (dw_conns w))) \<and> desk_fresh (length (dw_conns w)) w' \<and> sane w'"
  using assms by (simp add: desk_connect_def desk_fresh_def sane_def)

lemma desk_handshake:
  "holds (\<lambda>w. desk_fresh conn w \<and> sane w) (handshake (desk_net ds) env conn) (\<lambda>(c, _) w. desk_ready c w \<and> sane w) plain"
  unfolding handshake_def
proof (rule desk_link.request_holds)
  fix w w1 w2 w3 :: "'a desk_daemon" and reply
  assume a: "desk_fresh conn w \<and> sane w" "cw_write (desk_net ds) conn (Hello LocalCli (ce_version env) CONTRACT_VERSION) w = (w1, None)"
    "cw_flush (desk_net ds) conn w1 = (w2, None)" "cw_read (desk_net ds) conn w2 = (w3, Inr reply)"
  then have g: "case reply of Welcome _ _ _ _ \<Rightarrow> desk_ready conn w3 | Error _ _ \<Rightarrow> True | _ \<Rightarrow> False"
      "dw_app w3 = app_before ds w"
    using desk_greets [of conn w ds "ce_version env" CONTRACT_VERSION w1 w3 reply] by simp_all
  have "sane w3" using a(1) g(2) app_before_inv [of w ds] by (simp add: sane_def)
  then show "case (case reply of Welcome _ _ capabilities _ \<Rightarrow> Some (conn, capabilities) | _ \<Rightarrow> None) of
      Some a \<Rightarrow> (\<lambda>(c, _) w. desk_ready c w \<and> sane w) a w3 | None \<Rightarrow> \<exists>c e. reply = Error c e"
    using g(1) by (cases reply) auto
qed

lemma desk_kill_holds:
  assumes "dw_listening (dk_world d)" and "registry_inv (dw_app (dk_world d))"
    and run: "cli_kill_session (desk_net ds) env session_ref d = Some (d', Inr ())"
  shows "\<exists>l s s0 u. registry_inv s0 \<and> l = fst (summaries (ds_parser ds) s0) \<and> find_session env session_ref l = Some s \<and>
    dw_screen (dk_world d') = u @ removed_line env s @ [10] \<and> gone ds (ss_id s) (dw_app (dk_world d'))"
proof -
  obtain w where w: "desk_connect (dk_world d) = (w, Inr (length (dw_conns (dk_world d))))"
      "desk_fresh (length (dw_conns (dk_world d))) w" "sane w"
    using desk_connected [OF assms(1,2)] by blast
  let ?conn = "length (dw_conns (dk_world d))"
  let ?R = "\<lambda>(_ :: unit) w. \<exists>l s s0 u. registry_inv s0 \<and> l = fst (summaries (ds_parser ds) s0) \<and>
    find_session env session_ref l = Some s \<and> dw_screen w = u @ removed_line env s @ [10] \<and> gone ds (ss_id s) (dw_app w)"
  have last: "holds (\<lambda>w. desk_ready conn w \<and> sane w \<and> listed)
      (bind_task (kill_session_by_id (desk_net ds) env conn (ss_id s)) (\<lambda>_. println (desk_net ds) (removed_line env s))) ?R plain"
    if "listed \<Longrightarrow> \<exists>l s0. registry_inv s0 \<and> l = fst (summaries (ds_parser ds) s0) \<and> find_session env session_ref l = Some s"
    for listed conn s
  proof (cases listed)
    case True
    show ?thesis
      by (rule holds_bind [OF holds_weaken [OF desk_kills [of conn ds env "ss_id s"]]], simp, assumption,
          rule holds_weaken [OF desk_says [where P = "gone ds (ss_id s)"]])
        (use that [OF True] in blast)+
  qed (simp add: holds_def)
  have "holds (\<lambda>w. desk_fresh ?conn w \<and> sane w) (bind_task (handshake (desk_net ds) env ?conn) (\<lambda>(conn, _).
      bind_task (resolve_session (desk_net ds) env conn session_ref) (\<lambda>session.
      bind_task (kill_session_by_id (desk_net ds) env conn (ss_id session)) (\<lambda>_.
      println (desk_net ds) (removed_line env session))))) ?R plain"
  proof (rule holds_bind [OF desk_handshake])
    fix a :: "nat \<times> capabilities"
    have "holds (\<lambda>w. desk_ready (fst a) w \<and> sane w) (bind_task (resolve_session (desk_net ds) env (fst a) session_ref) (\<lambda>session.
      bind_task (kill_session_by_id (desk_net ds) env (fst a) (ss_id session)) (\<lambda>_.
      println (desk_net ds) (removed_line env session)))) ?R plain"
      by (rule holds_bind [OF desk_resolves]) (rule last, assumption)
    then show "holds ((\<lambda>(c, _) w. desk_ready c w \<and> sane w) a) ((\<lambda>(conn, _).
      bind_task (resolve_session (desk_net ds) env conn session_ref) (\<lambda>session.
      bind_task (kill_session_by_id (desk_net ds) env conn (ss_id session)) (\<lambda>_.
      println (desk_net ds) (removed_line env session)))) a) ?R plain"
      by (simp add: case_prod_beta)
  qed
  moreover have "bind_task (handshake (desk_net ds) env ?conn) (\<lambda>(conn, _).
      bind_task (resolve_session (desk_net ds) env conn session_ref) (\<lambda>session.
      bind_task (kill_session_by_id (desk_net ds) env conn (ss_id session)) (\<lambda>_.
      println (desk_net ds) (removed_line env session)))) (d\<lparr>dk_world := w\<rparr>) = Some (d', Inr ())"
    using run w(1) by (simp add: cli_kill_session_def connect_local_def bind_task_def)
  ultimately show ?thesis
    using holds_result [of _ _ ?R plain "d\<lparr>dk_world := w\<rparr>" d' "()"] w(2,3) by simp
qed


text \<open>Every text begins with the empty one.\<close>

lemma find_empty:
  assumes "ce_parse_uuid env [] = Inl e" and "find_session env [] l = Some s"
  shows "ss_name s = [] \<or> (l \<noteq> [] \<and> s = hd l)"
proof (cases "List.find (\<lambda>s. ss_name s = []) l")
  case None
  then have "List.find (\<lambda>s. starts_with (sid_text env (ss_id s)) []) l = Some s"
    using assms by (simp add: find_session_def)
  then show ?thesis by (cases l) (simp_all add: starts_with_def)
next
  case (Some x)
  then show ?thesis using assms find_Some_mem [OF Some] by (simp add: find_session_def)
qed


section \<open>Witnesses\<close>

definition demo_files :: system_files where
  "demo_files = \<lparr>sf_macos = False, sf_current_exe = Inl [], sf_exists = (\<lambda>_. False), sf_is_file = (\<lambda>_. False),
     sf_mode = (\<lambda>_. Inl []), sf_codesign = (\<lambda>_. Inl []), sf_xattr = (\<lambda>_. Inl []), sf_env = (\<lambda>_. None)\<rparr>"

definition demo_cli_env :: cli_env where
  "demo_cli_env = \<lparr>ce_files = demo_files, ce_version = lit ''1.0'', ce_socket_path = lit ''/s'', ce_interactive = False,
     ce_stdin_tty = True, ce_stdout_tty = True, ce_term = Some (lit ''xterm''), ce_color_depth = Plain, ce_shell = None,
     ce_session_id = None, ce_bin_name = lit ''shelly'', ce_parse_uuid = (\<lambda>_. Inl []), ce_uuid_text = dec,
     ce_debug = (\<lambda>_. []), ce_canonicalize = Inr, ce_json = (\<lambda>_. None),
     ce_encode_ticket = (\<lambda>_. Inr (lit ''t'')), ce_qr = (\<lambda>_. Inr (21, lit ''q''))\<rparr>"

definition demo_summary :: session_summary where
  "demo_summary = \<lparr>ss_id = SessionId 3, ss_name = lit ''a'', ss_command = [], ss_cwd = [], ss_created_at = 1,
     ss_last_activity = 1, ss_state = Idle, ss_last_line = None, ss_model = None\<rparr>"

definition demo_desk_app :: "unit app" where
  "demo_desk_app = demo_app\<lparr>ap_restored := [(SessionId 3, \<lparr>st_summary = demo_summary, st_scrollback_start_seq = 0,
     st_scrollback = [], st_exit_code = Some 0\<rparr>)], ap_names := {lit ''a''}\<rparr>"

lemma demo_desk_inv: "registry_inv demo_desk_app"
  by (auto simp: demo_desk_app_def demo_app_def registry_inv_def names_ok_def entries_ok_def owner_def demo_summary_def
      MAX_STORED_SESSIONS_def)

definition demo_setup :: "unit desk_setup" where
  "demo_setup = \<lparr>ds_parser = demo_parser, ds_codex = (\<lambda>_. None), ds_persist = demo_persist, ds_version = [], ds_host = [],
     ds_call = (\<lambda>_. demo_call), ds_meanwhile = (\<lambda>_. []), ds_spawns = False, ds_key = Some 121, ds_size = None,
     ds_events = (\<lambda>_. None), ds_attach = (\<lambda>_. AttachSignal 15), ds_status = Inr NotInstalled\<rparr>"

definition demo_desk :: "unit desk_daemon cli_state" where
  "demo_desk = \<lparr>dk_raw_mode = False, dk_alt_screen = False, dk_world = \<lparr>dw_listening = True, dw_conns = [],
     dw_app = demo_desk_app, dw_served = 0, dw_time = 0, dw_seen = 0, dw_screen = []\<rparr>\<rparr>"

lemmas desk_eval = bind_task_def call_def attempt_with_def finish_def stop_def bail_def connect_local_def desk_connect_def
  handshake_def request_def cli_write_msg_def cli_read_msg_def desk_write_def desk_read_def live_conn_def pop_message_def
  serve_on_def app_before_def local_step_def serve_message_def accept_hello_def handle_message_def Let_def
  demo_setup_def demo_call_def demo_context_def fresh_id_def may_create_or_kill_session_def

lemma demo_kill:
  "\<exists>d'. cli_kill_session (desk_net demo_setup) demo_cli_env r demo_desk = Some (d', Inr ())" if "r = [] \<or> r = lit ''a''"
  using that
  by (auto simp: cli_kill_session_def resolve_session_def kill_session_by_id_def println_def print_raw_def list_reply_def
      desk_eval demo_desk_def demo_desk_app_def demo_app_def demo_cli_env_def demo_summary_def summaries_def find_session_def
      kill_session_response_def kill_session_for_def remove_session_def starts_with_def)

lemma demo_running: "dw_listening (dk_world demo_desk)" "registry_inv (dw_app (dk_world demo_desk))"
  by (simp_all add: demo_desk_def demo_desk_inv)





text \<open>A pairing: the daemon's first three messages and the operator's key.\<close>

definition demo_ticket :: pairing_ticket where
  "demo_ticket = \<lparr>pt_code = lit ''123456'', pt_node_id = [], pt_relay_url = None, pt_addrs = [], pt_expires_at = 60000\<rparr>"

definition demo_pairing :: "nat cli_net" where
  "demo_pairing = \<lparr>
     cw_connect = (\<lambda>w. (w, Inr 0)), cw_write = (\<lambda>_ _ w. (w, None)), cw_flush = (\<lambda>_ w. (w, None)),
     cw_read = (\<lambda>_ w. (Suc w, Inr (if w = 0 then Welcome (ClientId 1) [] \<lparr>push_notifications = False\<rparr> [] else PairingStarted demo_ticket))),
     cw_spawn = (\<lambda>_ w. (w, Inr ())), cw_try_wait = (\<lambda>w. (w, Inr None)), cw_instant = (\<lambda>w. (w, 0)), cw_clock_ms = (\<lambda>w. (w, 0)),
     cw_sleep = (\<lambda>_ w. w), cw_print = (\<lambda>_ w. w), cw_flush_out = (\<lambda>w. (w, None)), cw_eprint = (\<lambda>_ w. w),
     cw_size = (\<lambda>w. (w, None)), cw_raw_mode = (\<lambda>w. (w, Inr ())), cw_no_raw_mode = (\<lambda>w. w),
     cw_key = (\<lambda>w. (w, Inr (Some 121))), cw_stdin = (\<lambda>w. (w, Inr [])), cw_signals = (\<lambda>w. (w, Inr ())),
     cw_pair_event = (\<lambda>_ w. (w, Message (Inr (PairingApprovalRequested (ClientId 5) (lit ''p'') [] (lit ''42''))))),
     cw_detach_prefix = (\<lambda>w. (w, Inr 2)), cw_attach_setup = (\<lambda>w. (w, Inr ())),
     cw_attach = (\<lambda>_ _ _ _ w. (w, AttachSignal 15)),
     cw_service = \<lparr>sm_install = (\<lambda>_ w. (w, Inr ())), sm_start = (\<lambda>w. (w, Inr ())), sm_stop = (\<lambda>w. (w, Inr ())),
       sm_uninstall = (\<lambda>w. (w, Inr ())), sm_status = (\<lambda>w. (w, Inr Running))\<rparr>\<rparr>"

definition demo_terminal :: "'w \<Rightarrow> 'w cli_state" where
  "demo_terminal w = \<lparr>dk_raw_mode = False, dk_alt_screen = False, dk_world = w\<rparr>"

lemmas pairing_eval = pair_device_def connect_local_def handshake_def request_def cli_write_msg_def cli_read_msg_def
  bind_task_def call_def attempt_with_def finish_def stop_def bail_def terminal_size_def dropping_def print_raw_def println_def
  pair_loop.simps pair_message_def approve_request_def confirm_pairing_sas_def read_answer_def flush_out_def enter_raw_mode_def
  restore_raw_mode_def restore_alt_screen_def restore_for_exit_def

lemma demo_pairing_sel:
  "cw_connect demo_pairing w = (w, Inr 0)" "cw_write demo_pairing conn m w = (w, None)" "cw_flush demo_pairing conn w = (w, None)"
  "cw_read demo_pairing conn w = (Suc w, Inr (if w = 0 then Welcome (ClientId 1) [] \<lparr>push_notifications = False\<rparr> [] else PairingStarted demo_ticket))"
  "cw_clock_ms demo_pairing w = (w, 0)" "cw_print demo_pairing t w = w" "cw_flush_out demo_pairing w = (w, None)"
  "cw_size demo_pairing w = (w, None)" "cw_raw_mode demo_pairing w = (w, Inr ())" "cw_no_raw_mode demo_pairing w = w"
  "cw_key demo_pairing w = (w, Inr (Some 121))" "cw_signals demo_pairing w = (w, Inr ())"
  "cw_pair_event demo_pairing conn w = (w, Message (Inr (PairingApprovalRequested (ClientId 5) (lit ''p'') [] (lit ''42''))))"
  by (simp_all add: demo_pairing_def)

lemma demo_terminal_sel:
  "dk_raw_mode (demo_terminal w) = False" "dk_alt_screen (demo_terminal w) = False" "dk_world (demo_terminal w) = w"
  "(demo_terminal w)\<lparr>dk_world := w'\<rparr> = demo_terminal w'"
  by (simp_all add: demo_terminal_def)

lemma logged_prints:
  "cw_print (logged net) t (w, l) = (cw_print net t w, l @ [Printed t])" "cw_no_raw_mode (logged net) (w, l) = (cw_no_raw_mode net w, l)"
  by (simp_all add: logged_def)

lemma demo_print_all:
  "print_all (logged demo_pairing) ls (demo_terminal (w, l)) =
    Some (demo_terminal (w, l @ map (\<lambda>s. Printed (s @ [10])) ls), Inr ())"
  by (induction ls arbitrary: l)
    (simp_all add: finish_def bind_task_def println_def print_raw_def call_def demo_terminal_def logged_prints demo_pairing_def)

lemma demo_loop:
  assumes "ceremony_ansi c = False"
  shows "\<exists>d'. pair_loop (logged demo_pairing) demo_cli_env c conn view (demo_terminal (w, l)) = Some (d', Inr ()) \<and>
    Sent (ApprovePairing (ClientId 5) True) \<in> set (snd (dk_world d')) \<and> dk_alt_screen d' = False"
  using assms by (simp add: pairing_eval logged_prints unnoted_def noting_def demo_pairing_sel demo_terminal_sel demo_print_all
      demo_cli_env_def Let_def asked_def demo_terminal_def)

lemma demo_pairs:
  "\<exists>d'. pair_device (logged demo_pairing) demo_cli_env (demo_terminal (0, [])) = Some (d', Inr ()) \<and>
    Sent (ApprovePairing (ClientId 5) True) \<in> set (snd (dk_world d'))"
proof -
  let ?c = "\<lparr>ceremony_ticket = demo_ticket, ceremony_qr = (21, lit ''q''), ceremony_live = False, ceremony_ansi = False\<rparr>"
  let ?view = "\<lparr>cv_size = normalized_terminal_size 80 24, cv_status_row = 0, cv_frame = 0\<rparr>"
  have line: "\<exists>t. print_pairing_countdown 0 60000 False True = (True, Some t)"
    by (simp add: print_pairing_countdown_def pairing_remaining_seconds_def div_ceil_def)
  then obtain t where t: "print_pairing_countdown 0 60000 False True = (True, Some t)" by blast
  have ready: "ce_color_depth demo_cli_env = Plain" "ce_encode_ticket demo_cli_env demo_ticket = Inr (lit ''t'')"
    "ce_qr demo_cli_env (lit ''t'') = Inr (21, lit ''q'')" "pt_expires_at demo_ticket = 60000"
    by (simp_all add: demo_cli_env_def demo_ticket_def)
  let ?l = "[Sent (Hello LocalCli (ce_version demo_cli_env) CONTRACT_VERSION), Sent (BeginPairing None)] @
    map (\<lambda>s. Printed (s @ [10])) (draw_pairing_screen_plain (pt_code demo_ticket)
      (render_pairing_qr_for_terminal 21 (lit ''q'') (normalized_terminal_size 80 24) Plain) 21 Plain False) @ [Printed (t @ [10])]"
  obtain d' where d': "pair_loop (logged demo_pairing) demo_cli_env ?c 0 ?view (demo_terminal (Suc (Suc 0), ?l)) = Some (d', Inr ())"
      "Sent (ApprovePairing (ClientId 5) True) \<in> set (snd (dk_world d'))" "dk_alt_screen d' = False"
    using demo_loop [of ?c 0 ?view "Suc (Suc 0)" ?l] by auto
  have "pair_device (logged demo_pairing) demo_cli_env (demo_terminal (0, [])) = Some (d', Inr ())"
    using d' t by (simp add: pair_device_def connect_local_def handshake_def request_def cli_write_msg_def cli_read_msg_def
      bind_task_def call_def attempt_with_def finish_def stop_def bail_def terminal_size_def dropping_def print_raw_def println_def
      restore_alt_screen_def logged_prints unnoted_def noting_def demo_pairing_sel demo_terminal_sel demo_print_all
      ready pairing_remaining_seconds_def div_ceil_def Let_def)
  then show ?thesis using d'(2) by blast
qed



end
