(* ===== verification/HostProps.thy ===== *)
theory HostProps
  imports Hostside
begin

text \<open>
  What holds of the files: a setting is written whole or not at all, reaches the daemon and keeps
  what it does not own; the control socket that the daemon prepares is the one \<open>shelly doctor\<close>
  approves of.
\<close>

unbundle bit_operations_syntax

section \<open>Writing the settings\<close>

lemma file_name_parts: "\<exists>d. p = d @ last_component p \<and> 47 \<notin> set (last_component p)"
proof (intro exI conjI)
  show "p = rev (dropWhile (\<lambda>c. c \<noteq> 47) (rev p)) @ last_component p"
    unfolding last_component_def by (simp flip: rev_append)
qed (auto simp: last_component_def dest: set_takeWhileD)

lemma with_extension_other: "46 \<in> set ext \<Longrightarrow> with_extension p ext \<noteq> p"
proof
  assume ext: "46 \<in> set ext" and same: "with_extension p ext = p"
  obtain d where d: "p = d @ last_component p" using file_name_parts by blast
  define n where "n = last_component p"
  have "length p - length n = length d" using d by (metis n_def add_diff_cancel_right' length_append)
  then have "take (length p - length n) p = d" using d by (metis append_eq_conv_conj)
  then have n: "file_stem p @ [46] @ ext = n"
    using same d by (metis n_def with_extension_def same_append_eq)
  then have dot: "46 \<in> set n" by auto
  obtain ys zs where ys: "n = ys @ 46 # zs" "46 \<notin> set zs" using split_list_last [OF dot] by blast
  have "dropWhile (\<lambda>c. c \<noteq> 46) (rev zs @ 46 # rev ys) = dropWhile (\<lambda>c. c \<noteq> 46) (46 # rev ys)"
    by (rule dropWhile_append2) (use ys(2) in auto)
  then have "dropWhile (\<lambda>c. c \<noteq> 46) (rev n) = 46 # rev ys" by (simp add: ys(1))
  then have stem: "file_stem p = (if ys = [] then n else ys)"
    using dot by (simp add: file_stem_def Let_def n_def [symmetric])
  show False
  proof (cases "ys = []")
    case True
    then show False using n stem by simp
  next
    case False
    then have "ext = zs" using n stem ys(1) by simp
    then show False using ext ys(2) by simp
  qed
qed

text \<open>A file written beside its place is private when it is moved there; before that nothing happens to it.\<close>

lemma keeps_write_beside: "path \<noteq> tmp \<Longrightarrow> keeps path tmp (write_beside tmp path encoded)"
  unfolding write_beside_def set_private_file_permissions_def by (intro keeps_intros)

lemma target_plain: "look s p = Some e \<Longrightarrow> \<not> is_link e \<Longrightarrow> target_of s p = Some (p, e)"
  by (auto simp: target_of_def is_link_def split: fs_node.splits)

lemma is_link_no_link: "no_link s p \<Longrightarrow> look s p = Some e \<Longrightarrow> \<not> is_link e"
  by (auto simp: no_link_def node_at_def is_link_def split: fs_node.splits)

lemma write_private:
  assumes "no_link s tmp" and "write_beside tmp path encoded s = (s', Inr ())"
  shows "\<exists>e. look s' tmp = Some e \<and> fe_node e = FsFile encoded \<and> fe_mode e = 384"
proof -
  obtain s1 where 1: "fs_write tmp encoded s = (s1, Inr ())" and 2: "set_permissions tmp 384 s1 = (s', Inr ())"
    using assms(2) by (auto simp: write_beside_def set_private_file_permissions_def bind_host_Inr with_context_Inr)
  let ?s = "s\<lparr>hf_ops := Suc (hf_ops s)\<rparr>"
  have "store_file tmp encoded ?s = (s1, Inr ())"
    using 1 by (auto simp: fs_write_def Let_def split: option.splits prod.splits)
  moreover have "follow_links (Suc MAX_LINKS) ?s tmp = Some tmp" using assms(1) by (intro follow_plain) simp
  ultimately obtain e where e: "look s1 tmp = Some e" "fe_node e = FsFile encoded"
    by (auto simp: store_file_def simp del: follow_links.simps split: option.splits fs_node.splits if_splits)
  let ?t = "s1\<lparr>hf_ops := Suc (hf_ops s1)\<rparr>"
  have "target_of ?t tmp = Some (tmp, e)"
    using e by (intro target_plain) (simp_all add: is_link_def)
  then show ?thesis using 2 e by (auto simp: set_permissions_def fs_call_Inr split: if_splits)
qed

lemma rename_moves:
  assumes "fs_rename tmp path s = (s', r)" and "path \<noteq> tmp"
  shows "case r of Inl _ \<Rightarrow> node_at s' path = node_at s path | Inr _ \<Rightarrow> look s' path = look s tmp"
  using assms by (auto simp: fs_rename_def fs_call_def Let_def node_at_def
      split: option.splits if_splits sum.splits)

lemma keeps_prepare: "length dir < length p \<Longrightarrow> keeps p t (prepare_config_dir dir)"
  unfolding prepare_config_dir_def by (auto intro!: keeps_intros)

definition replaced_by :: "rstr \<Rightarrow> host_fs \<Rightarrow> host_fs \<Rightarrow> rstr \<Rightarrow> bool" where
  "replaced_by path s s' contents \<longleftrightarrow>
     (\<exists>e. look s' path = Some e \<and> fe_node e = FsFile contents \<and> fe_mode e = 384)"

text \<open>The common shape of the two files that are rewritten.\<close>

lemma write_then_rename:
  assumes link: "no_link s tmp" and other: "path \<noteq> tmp" and dir: "length dir < length path"
    and run: "bind_host (prepare_config_dir dir) (\<lambda>_. case encode of Inl e \<Rightarrow> fail_host (g e)
      | Inr encoded \<Rightarrow> bind_host (write_beside tmp path encoded) (\<lambda>_. with_context c (fs_rename tmp path))) s = (s', r)"
  shows "case r of Inl _ \<Rightarrow> node_at s' path = node_at s path
    | Inr _ \<Rightarrow> \<exists>encoded. encode = Inr encoded \<and> replaced_by path s s' encoded"
proof -
  obtain s1 r1 where 1: "prepare_config_dir dir s = (s1, r1)" by fastforce
  have s1: "node_at s1 path = node_at s path" "no_link s1 tmp"
    using keeps_prepare [OF dir, of tmp] link 1 unfolding keeps_def by (metis fst_conv)+
  show ?thesis
  proof (cases "\<exists>u encoded. r1 = Inr u \<and> encode = Inr encoded")
    case False
    then show ?thesis using run 1 s1
      by (cases r1; cases encode) (auto simp: bind_host_def fail_host_def)
  next
    case True
    then obtain encoded where enc: "r1 = Inr ()" "encode = Inr encoded" by auto
    obtain s2 r2 where 2: "write_beside tmp path encoded s1 = (s2, r2)" by fastforce
    have s2: "node_at s2 path = node_at s path" "no_link s2 tmp"
      using keeps_write_beside [OF other, of encoded] s1 2 unfolding keeps_def by (metis fst_conv)+
    show ?thesis
    proof (cases r2)
      case (Inl e)
      then show ?thesis using run 1 2 enc s2 by (auto simp: bind_host_def)
    next
      case (Inr u)
      then have "with_context c (fs_rename tmp path) s2 = (s', r)" using run 1 2 enc by (simp add: bind_host_def)
      then obtain r3 where 3: "fs_rename tmp path s2 = (s', r3)"
          "case r3 of Inl _ \<Rightarrow> (\<exists>e. r = Inl e) | Inr a \<Rightarrow> r = Inr a"
        by (auto simp: with_context_def in_context_def split: prod.splits sum.splits)
      have "r2 = Inr ()" using Inr by simp
      then show ?thesis using rename_moves [OF 3(1) other] write_private [OF s1(2), of path encoded s2] 2 3(2) s2 enc(2)
        by (cases r3) (auto simp: replaced_by_def)
    qed
  qed
qed

lemma keeps_read_config: "keeps p t (read_config tc path)"
  unfolding read_config_def
  by (intro keeps_bind keeps_ask keeps_reads) (auto split: sum.split intro!: keeps_intros)

definition rewrite :: "toml_crate \<Rightarrow> rstr \<Rightarrow> (user_config \<Rightarrow> user_config) \<Rightarrow> (user_config \<Rightarrow> 'a) \<Rightarrow> 'a host_task" where
  "rewrite tc path change report = bind_host (read_config tc path) (\<lambda>config.
     bind_host (write_config tc path (change config)) (\<lambda>_. done_host (report (change config))))"

lemma set_rewrites:
  "set_telemetry_at_path tc path b = rewrite tc path (\<lambda>c. c\<lparr>uc_telemetry := b\<rparr>) (\<lambda>c. (path, uc_telemetry c))"
  "set_scrollback_encryption_at_path tc path b =
     rewrite tc path (\<lambda>c. c\<lparr>uc_scrollback_encryption := b\<rparr>) (\<lambda>c. (path, uc_scrollback_encryption c))"
  by (simp_all add: set_telemetry_at_path_def set_scrollback_encryption_at_path_def rewrite_def Let_def)

lemma rewrite_atomic:
  assumes link: "no_link s (with_extension path (lit ''toml.tmp''))" and run: "rewrite tc path change report s = (s', r)"
  shows "case r of Inl _ \<Rightarrow> node_at s' path = node_at s path
    | Inr a \<Rightarrow> \<exists>s1 config encoded. read_config tc path s = (s1, Inr config) \<and> a = report (change config) \<and>
        tc_encode tc (encode_user (change config)) = Inr encoded \<and> replaced_by path s s' encoded"
proof -
  let ?tmp = "with_extension path (lit ''toml.tmp'')"
  have other: "path \<noteq> ?tmp" using with_extension_other [of "lit ''toml.tmp''" path] by (simp add: lit_def)
  obtain s1 r1 where 1: "read_config tc path s = (s1, r1)" by fastforce
  have s1: "node_at s1 path = node_at s path" "no_link s1 ?tmp"
    using keeps_read_config [of path ?tmp tc path] link 1 unfolding keeps_def by (metis fst_conv)+
  show ?thesis
  proof (cases r1)
    case (Inl e)
    then show ?thesis using run 1 s1 by (auto simp: rewrite_def bind_host_def)
  next
    case (Inr config)
    obtain s2 r2 where 2: "write_config tc path (change config) s1 = (s2, r2)" by fastforce
    have "case r2 of Inl _ \<Rightarrow> node_at s2 path = node_at s1 path
      | Inr _ \<Rightarrow> \<exists>encoded. tc_encode tc (encode_user (change config)) = Inr encoded \<and> replaced_by path s1 s2 encoded"
    proof (cases "path_parent path")
      case None
      then show ?thesis using 2 by (auto simp: write_config_def fail_host_def)
    next
      case (Some parent)
      have "write_config tc path (change config) s1 = (s2, r2)" using 2 .
      then show ?thesis
        unfolding write_config_def Let_def Some option.case by (rule write_then_rename [OF s1(2) other path_parent_shorter [OF Some]])
    qed
    then show ?thesis using run 1 2 Inr s1
      by (cases r2) (auto simp: rewrite_def bind_host_def done_host_def replaced_by_def)
  qed
qed

text \<open>C24 [settings_write_atomic].  Whatever call fails while a setting is changed, and however much
  of the text a failing write leaves behind, the settings file is as it was when the command
  fails; when it succeeds, the file is the whole new text, readable by its owner only.\<close>

theorem settings_write_atomic:
  assumes "no_link s (with_extension path (lit ''toml.tmp''))"
    and "set_telemetry_at_path tc path enabled s = (s', r) \<or> set_scrollback_encryption_at_path tc path enabled s = (s', r)"
  shows "case r of Inl _ \<Rightarrow> node_at s' path = node_at s path
    | Inr _ \<Rightarrow> (\<exists>config encoded e. tc_encode tc (encode_user config) = Inr encoded \<and> look s' path = Some e \<and>
        fe_node e = FsFile encoded \<and> fe_mode e = 384)"
proof -
  obtain change and report :: "user_config \<Rightarrow> rstr \<times> bool" where "rewrite tc path change report s = (s', r)"
    using assms(2) unfolding set_rewrites by blast
  from rewrite_atomic [OF assms(1) this] show ?thesis
    by (auto simp: replaced_by_def split: sum.splits)
qed

section \<open>Reading them again\<close>

lemma follow_ops [simp]: "follow_links k (s\<lparr>hf_ops := n\<rparr>) p = follow_links k s p"
  by (induction k arbitrary: p) (auto split: option.split fs_node.split)

lemma target_ops [simp]: "target_of (s\<lparr>hf_ops := n\<rparr>) p = target_of s p"
  by (simp add: target_of_def split: option.split)

text \<open>The table in a file; no file is the empty one.\<close>

definition table_at :: "toml_crate \<Rightarrow> host_fs \<Rightarrow> rstr \<Rightarrow> toml_table option" where
  "table_at tc s path = (case target_of s path of
     None \<Rightarrow> Some Map.empty
   | Some (_, e) \<Rightarrow> (case fe_node e of
       FsFile contents \<Rightarrow> (case tc_parse tc contents of Inr t \<Rightarrow> Some t | Inl _ \<Rightarrow> None)
     | _ \<Rightarrow> None))"

lemma decode_empty: "decode_user tc Map.empty = Inr user_default" "decode_daemon tc Map.empty = Inr daemon_default"
  by (simp_all add: decode_user_def decode_daemon_def toml_section_def toml_key_def toml_bool_def and_then_def
      user_default_def daemon_default_def without_def)

lemma read_config_table:
  assumes "read_config tc path s = (s1, Inr config)" and "hf_fault s (hf_ops s) = None"
  shows "\<exists>t. table_at tc s path = Some t \<and> decode_user tc t = Inr config"
proof (cases "target_of s path")
  case None
  then show ?thesis using assms decode_empty(1) [of tc]
    by (auto simp: read_config_def bind_host_def ask_host_def fs_exists_def fs_call_def Let_def done_host_def table_at_def)
next
  case (Some qe)
  then show ?thesis using assms
    by (cases qe)
      (auto simp: read_config_def bind_host_def ask_host_def fs_exists_def fs_call_def Let_def done_host_def table_at_def
        with_context_def in_context_def read_to_string_def and_then_def fail_host_def
        split: prod.splits sum.splits option.splits fs_node.splits)
qed

lemma read_daemon_table:
  assumes "table_at tc s path = Some t" and "decode_daemon tc t = Inr c" and "\<And>n. hf_fault s n = None"
  shows "snd (read_config_file tc path s) = Inr c"
proof (cases "target_of s path")
  case None
  then show ?thesis using assms decode_empty(2) [of tc]
    by (auto simp: read_config_file_def bind_host_def ask_host_def fs_exists_def fs_call_def Let_def done_host_def table_at_def)
next
  case (Some qe)
  then show ?thesis using assms
    by (cases qe)
      (auto simp: read_config_file_def bind_host_def ask_host_def fs_exists_def fs_call_def Let_def done_host_def table_at_def
        with_context_def in_context_def read_to_string_def and_then_def
        split: sum.splits option.splits fs_node.splits)
qed

text \<open>The keys of the three sections, and what a rewritten table holds.\<close>

lemma section_keys [simp]:
  "lit ''telemetry'' \<noteq> lit ''scrollback_encryption''" "lit ''terminal'' \<noteq> lit ''scrollback_encryption''"
  "lit ''terminal'' \<noteq> lit ''telemetry''" "lit ''log_dir'' \<noteq> lit ''telemetry''"
  "lit ''log_dir'' \<noteq> lit ''scrollback_encryption''" "lit ''log_dir'' \<noteq> lit ''terminal''"
  by (simp_all add: lit_def)

lemmas section_keys_sym [simp] = section_keys [symmetric]

lemma rewritten_rest:
  assumes "decode_user tc t = Inr config" and "k \<notin> set (map lit [''scrollback_encryption'', ''telemetry'', ''terminal''])"
  shows "encode_user (config\<lparr>uc_telemetry := b\<rparr>) k = t k"
  using assms by (auto simp: decode_user_def and_then_def encode_user_def without_def split: sum.splits)

lemma rewritten_daemon:
  assumes user: "decode_user tc t = Inr config" and daemon: "decode_daemon tc t = Inr c"
  shows "decode_daemon tc (encode_user (config\<lparr>uc_telemetry := b\<rparr>)) = Inr (c\<lparr>dc_telemetry := b\<rparr>)"
proof -
  let ?t = "encode_user (config\<lparr>uc_telemetry := b\<rparr>)"
  have log: "?t (lit ''log_dir'') = t (lit ''log_dir'')"
    by (rule rewritten_rest [OF user]) simp
  have "uc_scrollback_encryption config = dc_scrollback_encryption c"
    using user daemon by (auto simp: decode_user_def decode_daemon_def and_then_def split: sum.splits)
  moreover have "?t (lit ''scrollback_encryption'') = Some (TTable [lit ''enabled'' \<mapsto> TBool (uc_scrollback_encryption config)])"
    "?t (lit ''telemetry'') = Some (TTable [lit ''opt_in'' \<mapsto> TBool b])"
    by (simp_all add: encode_user_def)
  ultimately show ?thesis
    using daemon by (auto simp: decode_daemon_def and_then_def toml_section_def toml_bool_def toml_key_def log
        split: sum.splits)
qed

lemma daemon_path_same: "daemon_config_path env = default_config_path env"
  by (simp add: daemon_config_path_def default_config_path_def default_config_dir_def Let_def split: option.split)


section \<open>The control socket\<close>

lemma ask_exists: "hf_fault s (hf_ops s) = None \<Longrightarrow>
    ask_host (fs_exists p) s = (s\<lparr>hf_ops := Suc (hf_ops s)\<rparr>, Inr (target_of s p \<noteq> None))"
  by (simp add: ask_host_def fs_exists_def fs_call_def Let_def)

lemma create_dir_all_dir:
  "create_dir_all p s = (s', Inr ()) \<Longrightarrow> p = [] \<or> is_dir s' p"
proof (induction p s arbitrary: s' rule: create_dir_all.induct)
  case (1 p s)
  have made: "is_dir t p" if "mkdir p u = (t, Inr True)" for u t
  proof -
    have "look t p = Some \<lparr>fe_node = FsDir, fe_mode = 511 AND NOT (hf_umask u), fe_uid = hf_uid u, fe_modified = hf_time u\<rparr>"
      using that by (auto simp: mkdir_def fs_call_Inr split: if_splits)
    then show ?thesis using target_plain [of t p] by (simp add: is_dir_def is_link_def)
  qed
  show ?case
    using "1.prems" by (auto simp: create_dir_all.simps [of p s] dest: made
        split: if_splits prod.splits sum.splits option.splits bool.splits)
qed

lemma chmod_node: "node_at (fst (set_permissions q mode s)) p = node_at s p"
proof (cases "target_of s q")
  case (Some v)
  then show ?thesis using target_look [of s q "fst v" "snd v"]
    by (cases v) (auto simp: set_permissions_def fs_call_def Let_def node_at_def split: option.split)
qed (simp add: set_permissions_def fs_call_def Let_def split: option.split)

lemma calls_uid:
  "ask_host (fs_exists p) s = (s', r) \<Longrightarrow> hf_uid s' = hf_uid s \<and> look s' = look s"
  "symlink_metadata p s = (s', r') \<Longrightarrow> hf_uid s' = hf_uid s \<and> look s' = look s"
  "fs_metadata p s = (s', r') \<Longrightarrow> hf_uid s' = hf_uid s \<and> look s' = look s"
  "set_permissions p mode s = (s', u) \<Longrightarrow> hf_uid s' = hf_uid s"
  "remove_file p s = (s', u) \<Longrightarrow> hf_uid s' = hf_uid s \<and> (\<forall>q. q \<noteq> p \<longrightarrow> look s' q = look s q)"
  by (auto simp: ask_host_def fs_exists_def symlink_metadata_def fs_metadata_def set_permissions_def
      remove_file_def fs_call_def Let_def fun_eq_iff split: option.splits if_splits prod.splits)

lemma symlink_metadata_Inr: "symlink_metadata p s = (s', Inr e) \<Longrightarrow> look s p = Some e"
  by (auto simp: symlink_metadata_def fs_call_Inr split: option.splits)

text \<open>Links have every permission bit, as the system gives them.\<close>

definition links_open :: "host_fs \<Rightarrow> bool" where
  "links_open s \<longleftrightarrow> (\<forall>p e. look s p = Some e \<and> is_link e \<longrightarrow> perm_bits e = 511)"

text \<open>[control_socket_private].  When the daemon has prepared the place of its control socket,
  bound a socket there and restricted it, both without an error, \<open>shelly doctor\<close> finds nothing
  wrong with the directory and the socket: the directory is one of the user's own, entered by
  nobody else and no link, and the socket is readable and writable by the user only.\<close>

theorem control_socket_private:
  assumes prepare: "prepare_control_socket debug path s = (s1, Inr ())" and dir: "path_parent path \<noteq> Some []"
    and bind: "look s1 path = None" "s2 = put path \<lparr>fe_node = FsSocket, fe_mode = m, fe_uid = hf_uid s1, fe_modified = now\<rparr> s1"
    and restrict: "set_control_socket_permissions debug path s2 = (s3, Inr ())"
    and links: "links_open s1" and fine: "\<And>n. hf_fault s3 n = None"
  shows "\<exists>parent s4 d1 d2 s5. path_parent path = Some parent \<and> parent \<noteq> [] \<and>
    doctor_socket_parent_status path s3 = (s4, Inr d1) \<and> doctor_socket_file_status path s4 = (s5, Inr d2)"
proof -
  obtain parent where parent: "path_parent path = Some parent"
    using prepare by (auto simp: prepare_control_socket_def fail_host_def split: option.splits)
  have other: "parent \<noteq> path" using path_parent_shorter [OF parent] by auto
  obtain sa sb sc sd ma se found where
      a: "create_dir_all parent sa = (sb, Inr ())" and b: "set_permissions parent 448 sb = (sc, Inr ())"
    and c: "symlink_metadata parent sc = (sd, Inr ma)" "fe_uid ma = hf_uid sd" "perm_bits ma = 448"
    and f: "ask_host (fs_exists path) sd = (se, Inr found)"
    and g: "if found then \<exists>sf mf. symlink_metadata path se = (sf, Inr mf) \<and> remove_file path sf = (s1, Inr ()) else s1 = se"
    using prepare parent
    by (auto simp: prepare_control_socket_def bind_host_Inr with_context_Inr fail_host_def done_host_def
        split: if_splits)
  have e: "hf_uid se = hf_uid sd" "look se = look sd" using calls_uid(1) [OF f] by simp_all
  have d: "hf_uid s1 = hf_uid sd \<and> look s1 parent = look sd parent"
  proof (cases found)
    case True
    then obtain sf mf where h: "symlink_metadata path se = (sf, Inr mf)" "remove_file path sf = (s1, Inr ())" using g by auto
    show ?thesis using calls_uid(2) [OF h(1)] calls_uid(5) [OF h(2)] e other by simp
  qed (use g e in simp)
  have ma: "look s1 parent = Some ma" "look sc parent = Some ma"
    using symlink_metadata_Inr [OF c(1)] calls_uid(2) [OF c(1)] d by simp_all
  have plain: "\<not> is_link ma" using links ma(1) c(3) unfolding links_open_def by force
  have node: "node_at sb parent = Some (fe_node ma)"
    using chmod_node [of parent 448 sb parent] b ma(2) by (simp add: node_at_def)
  then obtain eb where eb: "look sb parent = Some eb" "fe_node eb = fe_node ma" by (auto simp: node_at_def)
  have "is_dir sb parent" using create_dir_all_dir [OF a] dir parent by auto
  moreover have "target_of sb parent = Some (parent, eb)"
    using eb plain by (intro target_plain) (simp_all add: is_link_def)
  ultimately have isdir: "fe_node ma = FsDir" using eb by (simp add: is_dir_def)
  let ?e = "\<lparr>fe_node = FsSocket, fe_mode = m, fe_uid = hf_uid s1, fe_modified = now\<rparr>"
  obtain s2' meta s3' where r: "set_permissions path 384 s2 = (s2', Inr ())" "fs_metadata path s2' = (s3', Inr meta)"
      "s3 = s3'" "perm_bits meta = 384"
    using restrict by (auto simp: set_control_socket_permissions_def bind_host_Inr with_context_Inr fail_host_def done_host_def split: if_splits)
  have "target_of (s2\<lparr>hf_ops := Suc (hf_ops s2)\<rparr>) path = Some (path, ?e)"
    unfolding target_ops by (rule target_plain) (simp_all add: bind(2) is_link_def)
  then have s2': "s2' = put path (?e\<lparr>fe_mode := 384\<rparr>) (s2\<lparr>hf_ops := Suc (hf_ops s2)\<rparr>)"
    using r(1) by (auto simp: set_permissions_def fs_call_Inr split: if_splits)
  have look3: "look s3 path = Some (?e\<lparr>fe_mode := 384\<rparr>)" "look s3 parent = Some ma" "hf_uid s3 = hf_uid sd"
    using calls_uid(3) [OF r(2)] ma(1) other d by (simp_all add: r(3) s2' bind(2))
  have check: "symlink_metadata p t = (t\<lparr>hf_ops := Suc (hf_ops t)\<rparr>, Inr e)"
    if "look t p = Some e" "hf_fault t (hf_ops t) = None" for p t e
    using that by (simp add: symlink_metadata_def fs_call_def Let_def)
  define s4 where "s4 = s3\<lparr>hf_ops := Suc (hf_ops s3)\<rparr>"
  have "doctor_socket_parent_status path s3 = (s4, Inr (lit ''owned by current user, mode 0700, not symlink ('' @ parent @ lit '')''))"
    using parent check [OF look3(2) fine] plain isdir c look3(3)
    by (simp add: doctor_socket_parent_status_def bind_host_def with_context_def in_context_def done_host_def s4_def)
  moreover have "doctor_socket_file_status path s4 = (s4\<lparr>hf_ops := Suc (hf_ops s4)\<rparr>, Inr (lit ''socket, mode 0600, not symlink ('' @ path @ lit '')''))"
    using check [of s4 path "?e\<lparr>fe_mode := 384\<rparr>"] look3(1) fine
    by (simp add: doctor_socket_file_status_def bind_host_def with_context_def in_context_def done_host_def s4_def
        is_link_def perm_bits_def)
  ultimately show ?thesis using parent dir by auto
qed

section \<open>The descriptors\<close>

lemma lowest_free_is:
  assumes "\<And>g. g < fd \<Longrightarrow> g \<in> set fds" and "fd \<notin> set fds"
  shows "lowest_free fds = fd"
proof -
  have "card {..<fd} \<le> card (set fds)" by (rule card_mono) (use assms(1) in auto)
  then have "fd \<le> length fds" using card_length [of fds] by simp
  then have "[0..<Suc (length fds)] = [0..<fd] @ fd # [Suc fd..<Suc (length fds)]"
    using upt_add_eq_append [of 0 fd "Suc (length fds) - fd"] by (simp add: upt_conv_Cons)
  moreover have "filter (\<lambda>g. g \<notin> set fds) [0..<fd] = []" using assms(1) by (auto simp: filter_empty_conv)
  ultimately show ?thesis using assms(2) by (simp add: lowest_free_def)
qed

lemma ensure_fd_next:
  assumes "\<And>g. g < fd \<Longrightarrow> g \<in> set fds"
  shows "ensure_fd faults fd fds = (if fd \<in> set fds then (fds, Inr ())
    else case fst (faults fd) of Some e \<Rightarrow> (fds, Inl e) | None \<Rightarrow> (fd # fds, Inr ()))"
  using lowest_free_is [OF assms] by (auto simp: ensure_fd_def split: option.split)

text \<open>One step of the loop, with the descriptors below open; \<open>P\<close> is what the rest of it gives.\<close>

lemma ensure_fds_next:
  assumes below: "\<And>g. g < fd \<Longrightarrow> g \<in> set fds"
    and rest: "\<And>gs. set gs = insert fd (set fds) \<Longrightarrow> P (ensure_fds faults fds2 gs)"
    and fails: "\<And>e. fd \<notin> set fds \<Longrightarrow> fst (faults fd) = Some e \<Longrightarrow> P (fds, Inl e)"
  shows "P (ensure_fds faults (fd # fds2) fds)"
proof (cases "fd \<in> set fds")
  case True
  then show ?thesis using rest [of fds] by (simp add: ensure_fd_next [OF below] insert_absorb)
next
  case False
  then show ?thesis using rest [of "fd # fds"] fails by (cases "fst (faults fd)") (simp_all add: ensure_fd_next [OF below])
qed

text \<open>[standard_fds_open].  When the start of the daemon finds no error, the three standard
  descriptors are open, so no file or socket it opens later can take their numbers; no open
  descriptor was closed, and nothing else was opened.  Since they are opened in order, the
  lowest free number is always the one wanted: the code that would duplicate another never runs.\<close>

theorem standard_fds_open:
  "case ensure_standard_fds_open faults fds of
     (fds', Inr _) \<Rightarrow> set fds' = set fds \<union> {0, 1, 2}
   | (fds', Inl e) \<Rightarrow> set fds \<subseteq> set fds' \<and> set fds' \<subseteq> set fds \<union> {0, 1, 2} \<and>
       (\<exists>fd. fd \<le> 2 \<and> fd \<notin> set fds \<and> fst (faults fd) = Some e)"
  unfolding ensure_standard_fds_open_def
  by (rule ensure_fds_next, simp, rule ensure_fds_next, simp, rule ensure_fds_next, force) (auto intro: exI [of _ "Suc 0"])

section \<open>Witnesses\<close>

definition demo_host :: host_fs where
  "demo_host = \<lparr>hf_entries = [(lit ''/'', \<lparr>fe_node = FsDir, fe_mode = 493, fe_uid = 7, fe_modified = 0\<rparr>)],
     hf_uid = 7, hf_umask = 18, hf_time = 5, hf_ops = 0, hf_fault = (\<lambda>_. None)\<rparr>"

definition demo_host_env :: process_env where
  "demo_host_env = \<lparr>he_macos = False, he_home = None, he_temp_dir = lit ''/'', he_xdg_config = Some (lit ''/''),
     he_xdg_state = None, he_xdg_runtime = None, he_var = (\<lambda>_. None)\<rparr>"

definition demo_table :: toml_table where
  "demo_table = encode_user (user_default\<lparr>uc_telemetry := True\<rparr>)"

definition demo_toml :: toml_crate where
  "demo_toml = \<lparr>tc_parse = (\<lambda>_. Inr demo_table),
     tc_encode = (\<lambda>t. if t = demo_table then Inr [1] else Inl []), tc_type_error = (\<lambda>key. key)\<rparr>"

definition demo_config :: rstr where "demo_config = lit ''/shelly/config.toml''"

lemma demo_config_path: "demo_config = default_config_path demo_host_env"
  by (simp add: demo_config_def default_config_path_def default_config_dir_def demo_host_env_def path_join_def lit_def)

lemma demo_parent: "path_parent demo_config = Some (lit ''/shelly'')" "path_parent (lit ''/shelly'') = Some (lit ''/'')"
  by (simp_all add: demo_config_def path_parent_def lit_def Let_def)

lemma demo_tmp: "with_extension demo_config (lit ''toml.tmp'') = lit ''/shelly/config.toml.tmp''"
  by (simp add: demo_config_def with_extension_def file_stem_def last_component_def lit_def Let_def)

lemma demo_no_link: "no_link demo_host p"
  by (simp add: no_link_def node_at_def look_def demo_host_def)

lemma demo_paths [simp]:
  "demo_config \<noteq> lit ''/''" "lit ''/'' \<noteq> demo_config" "demo_config \<noteq> lit ''/shelly''" "lit ''/shelly'' \<noteq> demo_config"
  "lit ''/shelly'' \<noteq> lit ''/''" "lit ''/'' \<noteq> lit ''/shelly''" "lit ''/shelly/config.toml.tmp'' \<noteq> lit ''/''"
  "lit ''/shelly/config.toml.tmp'' \<noteq> lit ''/shelly''" "lit ''/shelly/config.toml.tmp'' \<noteq> demo_config"
  "demo_config \<noteq> lit ''/shelly/config.toml.tmp''" "lit ''/'' \<noteq> []" "lit ''/shelly'' \<noteq> []"
  "path_parent (lit ''/shelly/config.toml.tmp'') = Some (lit ''/shelly'')"
  by (simp_all add: demo_config_def lit_def path_parent_def Let_def)

lemma fields_put [simp]:
  "hf_fault (put p e s) = hf_fault s" "hf_ops (put p e s) = hf_ops s" "hf_umask (put p e s) = hf_umask s"
  "hf_time (put p e s) = hf_time s" "hf_fault (unlink p s) = hf_fault s"
  by (simp_all add: put_def unlink_def)

lemma demo_host_fields [simp]:
  "look demo_host p = (if p = lit ''/'' then Some \<lparr>fe_node = FsDir, fe_mode = 493, fe_uid = 7, fe_modified = 0\<rparr> else None)"
  "hf_fault demo_host = (\<lambda>_. None)" "hf_uid demo_host = 7"
  by (simp_all add: demo_host_def look_def)

lemma target_plain_simps:
  "look s p = Some \<lparr>fe_node = FsDir, fe_mode = m, fe_uid = u, fe_modified = t\<rparr> \<Longrightarrow>
    target_of s p = Some (p, \<lparr>fe_node = FsDir, fe_mode = m, fe_uid = u, fe_modified = t\<rparr>)"
  "look s p = Some \<lparr>fe_node = FsFile c, fe_mode = m, fe_uid = u, fe_modified = t\<rparr> \<Longrightarrow>
    target_of s p = Some (p, \<lparr>fe_node = FsFile c, fe_mode = m, fe_uid = u, fe_modified = t\<rparr>)"
  "look s p = Some \<lparr>fe_node = FsSocket, fe_mode = m, fe_uid = u, fe_modified = t\<rparr> \<Longrightarrow>
    target_of s p = Some (p, \<lparr>fe_node = FsSocket, fe_mode = m, fe_uid = u, fe_modified = t\<rparr>)"
  "look s p = None \<Longrightarrow> target_of s p = None"
  by (simp_all add: target_of_def)

lemmas host_eval = bind_host_def ask_host_def done_host_def with_context_def in_context_def fs_exists_def fs_call_def Let_def
  symlink_metadata_def fs_metadata_def set_permissions_def target_plain_simps is_dir_def mkdir_def
  create_dir_all.simps [of "lit ''/shelly''"] demo_parent demo_tmp

lemma demo_prepare:
  "\<exists>s. prepare_config_dir (lit ''/shelly'') (demo_host\<lparr>hf_ops := n\<rparr>) = (s, Inr ()) \<and> hf_fault s = (\<lambda>_. None) \<and> hf_uid s = 7 \<and>
    (\<forall>p. look s p = (if p = lit ''/shelly'' then Some \<lparr>fe_node = FsDir, fe_mode = 448, fe_uid = 7, fe_modified = hf_time s\<rparr>
      else look demo_host p))"
  by (simp add: prepare_config_dir_def host_eval)

lemma follow_missing: "look s p = None \<Longrightarrow> follow_links (Suc n) s p = Some p"
  by simp

lemma demo_write:
  assumes "hf_fault s = (\<lambda>_. None)" "hf_uid s = 7"
    and "\<And>p. look s p = (if p = lit ''/shelly'' then Some \<lparr>fe_node = FsDir, fe_mode = 448, fe_uid = 7, fe_modified = hf_time s\<rparr>
      else look demo_host p)"
  shows "\<exists>s'. bind_host (write_beside (lit ''/shelly/config.toml.tmp'') demo_config c) (\<lambda>_.
      with_context x (fs_rename (lit ''/shelly/config.toml.tmp'') demo_config)) s = (s', Inr ()) \<and> hf_fault s' = (\<lambda>_. None)"
  using assms by (simp add: write_beside_def set_private_file_permissions_def fs_write_def store_file_def follow_missing
      fs_rename_def host_eval del: follow_links.simps)

lemma demo_set:
  "\<exists>s'. set_telemetry_at_path demo_toml demo_config True demo_host = (s', Inr (demo_config, True)) \<and> hf_fault s' = (\<lambda>_. None)"
proof -
  obtain s1 where 1: "prepare_config_dir (lit ''/shelly'') (demo_host\<lparr>hf_ops := Suc (hf_ops demo_host)\<rparr>) = (s1, Inr ())"
      "hf_fault s1 = (\<lambda>_. None)" "hf_uid s1 = 7"
      "\<And>p. look s1 p = (if p = lit ''/shelly'' then Some \<lparr>fe_node = FsDir, fe_mode = 448, fe_uid = 7, fe_modified = hf_time s1\<rparr>
        else look demo_host p)"
    using demo_prepare [of "Suc (hf_ops demo_host)"] by blast
  obtain s2 where 2: "bind_host (write_beside (lit ''/shelly/config.toml.tmp'') demo_config [1]) (\<lambda>_.
      with_context (lit ''replace settings file '' @ demo_config) (fs_rename (lit ''/shelly/config.toml.tmp'') demo_config)) s1 = (s2, Inr ())"
      "hf_fault s2 = (\<lambda>_. None)"
    using demo_write [OF 1(2-4)] by blast
  have encode: "tc_encode demo_toml (encode_user (user_default\<lparr>uc_telemetry := True\<rparr>)) = Inr [1]"
    by (simp add: demo_toml_def demo_table_def)
  have "write_config demo_toml demo_config (user_default\<lparr>uc_telemetry := True\<rparr>)
      (demo_host\<lparr>hf_ops := Suc (hf_ops demo_host)\<rparr>) = (s2, Inr ())"
    unfolding write_config_def demo_parent option.case
    using 1(1) 2(1) by (simp add: bind_host_def encode demo_tmp Let_def)
  moreover have "read_config demo_toml demo_config demo_host =
      (demo_host\<lparr>hf_ops := Suc (hf_ops demo_host)\<rparr>, Inr user_default)"
    by (simp add: read_config_def host_eval)
  ultimately have "set_telemetry_at_path demo_toml demo_config True demo_host = (s2, Inr (demo_config, True))"
    by (simp add: set_telemetry_at_path_def bind_host_def Let_def done_host_def)
  then show ?thesis using 2(2) by blast
qed

theorem settings_write_atomic_witness:
  "\<exists>s' e. set_telemetry_at_path demo_toml demo_config True demo_host = (s', Inr (demo_config, True)) \<and>
    look s' demo_config = Some e \<and> fe_mode e = 384"
proof -
  obtain s' where s': "set_telemetry_at_path demo_toml demo_config True demo_host = (s', Inr (demo_config, True))"
    using demo_set by blast
  then show ?thesis using settings_write_atomic [OF demo_no_link, of demo_toml demo_config True s' "Inr (demo_config, True)"] by auto
qed


text \<open>A socket in a directory that is not there yet.\<close>

theorem control_socket_private_witness:
  "\<exists>s1 s3 s4 d. prepare_control_socket (\<lambda>p. p) (lit ''/shelly/control.sock'') demo_host = (s1, Inr ()) \<and>
    doctor_socket_parent_status (lit ''/shelly/control.sock'') s3 = (s4, Inr d)"
proof -
  let ?p = "lit ''/shelly/control.sock''"
  have parent: "path_parent ?p = Some (lit ''/shelly'')" "?p \<noteq> lit ''/shelly''" "?p \<noteq> lit ''/''"
    by (simp_all add: lit_def path_parent_def Let_def)
  have "\<exists>s1. prepare_control_socket (\<lambda>p. p) ?p demo_host = (s1, Inr ()) \<and> hf_fault s1 = (\<lambda>_. None) \<and> look s1 ?p = None \<and>
      hf_uid s1 = 7 \<and> (\<forall>q e. look s1 q = Some e \<longrightarrow> fe_node e = FsDir)"
    using parent(2,3) by (simp add: prepare_control_socket_def parent(1) refuse_link_def host_eval perm_bits_def)
  then obtain s1 where s1: "prepare_control_socket (\<lambda>p. p) ?p demo_host = (s1, Inr ())" "hf_fault s1 = (\<lambda>_. None)"
      "look s1 ?p = None" "hf_uid s1 = 7" "\<And>q e. look s1 q = Some e \<Longrightarrow> fe_node e = FsDir" by blast
  define s2 where "s2 = put ?p \<lparr>fe_node = FsSocket, fe_mode = 493, fe_uid = hf_uid s1, fe_modified = 5\<rparr> s1"
  have "\<exists>s3. set_control_socket_permissions (\<lambda>p. p) ?p s2 = (s3, Inr ()) \<and> hf_fault s3 = (\<lambda>_. None)"
    using s1(2,4) by (simp add: set_control_socket_permissions_def host_eval perm_bits_def s2_def)
  then obtain s3 where s3: "set_control_socket_permissions (\<lambda>p. p) ?p s2 = (s3, Inr ())" "hf_fault s3 = (\<lambda>_. None)" by blast
  have links: "links_open s1" using s1(5) by (auto simp: links_open_def is_link_def)
  have dir: "path_parent ?p \<noteq> Some []" using parent(1) by simp
  obtain s4 d where "doctor_socket_parent_status ?p s3 = (s4, Inr d)"
    using control_socket_private [OF s1(1) dir s1(3) s2_def s3(1) links] s3(2) by auto
  then show ?thesis using s1(1) by blast
qed

end
