(* ===== verification/RelayConfig.thy ===== *)
theory RelayConfig
  imports Providers
begin

text \<open>
  How the relay starts: the environment and the credential files that \<open>relay/src/lib.rs\<close>,
  \<open>apns.rs\<close>, \<open>fcm.rs\<close>, \<open>main.rs\<close>, \<open>telemetry.rs\<close> and \<open>iroh_fallback.rs\<close> read, the files of
  its database, and the text of its metrics.  Floating-point numbers and socket addresses are
  parameters with their parsers.
\<close>

section \<open>Values of the environment\<close>

text \<open>\<open>str::parse\<close> of a \<open>u64\<close>: digits, with a plus sign before them if any.\<close>

fun digits_value :: "nat \<Rightarrow> rstr \<Rightarrow> rstr + nat" where
  "digits_value acc [] = Inr acc"
| "digits_value acc (c # s) =
     (if \<not> is_ascii_digit c then Inl (lit ''invalid digit found in string'')
      else if u64_max < acc * 10 + (c - 48) then Inl (lit ''number too large to fit in target type'')
      else digits_value (acc * 10 + (c - 48)) s)"

definition parse_u64 :: "rstr \<Rightarrow> rstr + nat" where
  "parse_u64 s = (case s of
     [] \<Rightarrow> Inl (lit ''cannot parse integer from empty string'')
   | c # r \<Rightarrow> digits_value 0 (if c = 43 \<and> r \<noteq> [] then r else s))"

definition parse_u64_env :: "(rstr \<Rightarrow> rstr option) \<Rightarrow> char list \<Rightarrow> nat \<Rightarrow> cli_error + nat" where
  "parse_u64_env env key fallback = (case env (lit key) of
     None \<Rightarrow> Inr fallback
   | Some v \<Rightarrow>
       if trim v = [] then Inr fallback
       else (case parse_u64 (trim v) of
         Inr n \<Rightarrow> Inr n
       | Inl e \<Rightarrow> Inl (Because (lit key @ lit '' must be an unsigned integer'') (Bail e))))"

text \<open>A switch of the environment, with the message of the error.\<close>

definition bool_env :: "(rstr \<Rightarrow> rstr option) \<Rightarrow> char list \<Rightarrow> bool \<Rightarrow> cli_error + bool" where
  "bool_env env key fallback = (case parse_bool_env (lit key) (env (lit key)) fallback of
     Inl (NotABoolean name) \<Rightarrow> Inl (Bail (name @ lit '' must be true/false, yes/no, on/off, or 1/0''))
   | Inr b \<Rightarrow> Inr b)"

definition trust_forwarded_for_from_env :: "(rstr \<Rightarrow> rstr option) \<Rightarrow> cli_error + bool" where
  "trust_forwarded_for_from_env env =
     bool_env env ''SHELLY_RELAY_TRUST_FORWARDED_FOR'' False"

definition trimmed_env :: "(rstr \<Rightarrow> rstr option) \<Rightarrow> char list \<Rightarrow> rstr option" where
  "trimmed_env env key = (case env (lit key) of Some v \<Rightarrow> if trim v = [] then None else Some (trim v) | None \<Rightarrow> None)"

definition required_env :: "(rstr \<Rightarrow> rstr option) \<Rightarrow> char list \<Rightarrow> cli_error + rstr" where
  "required_env env key = (case env (lit key) of
     None \<Rightarrow> Inl (Because (lit key @ lit '' is required'') (Bail (lit ''environment variable not found'')))
   | Some v \<Rightarrow> if trim v = [] then Inl (Bail (lit key @ lit '' is required'')) else Inr (trim v))"

definition credential_file :: "(rstr \<Rightarrow> rstr option) \<Rightarrow> char list \<Rightarrow> rstr option" where
  "credential_file env name = map_option (\<lambda>d. path_join d (lit name)) (env (lit ''CREDENTIALS_DIRECTORY''))"

definition of_result :: "cli_error + 'a \<Rightarrow> 'a host_task" where
  "of_result r = (case r of Inl e \<Rightarrow> fail_host e | Inr a \<Rightarrow> done_host a)"

section \<open>Credentials\<close>

definition apns_key_path :: "(rstr \<Rightarrow> rstr option) \<Rightarrow> rstr option" where
  "apns_key_path env = (case env (lit ''SHELLY_APNS_P8_PATH'') of
     Some path \<Rightarrow> Some path | None \<Rightarrow> credential_file env ''apns.p8'')"

definition apns_credentials_from_env :: "(rstr \<Rightarrow> rstr option) \<Rightarrow> apns_credentials option host_task" where
  "apns_credentials_from_env env = (case apns_key_path env of
     None \<Rightarrow> done_host None
   | Some key_path \<Rightarrow>
       bind_host (ask_host (fs_exists key_path)) (\<lambda>found.
       if \<not> found then done_host None
       else
         bind_host (of_result (required_env env ''SHELLY_APNS_TEAM_ID'')) (\<lambda>team_id.
         bind_host (of_result (required_env env ''SHELLY_APNS_KEY_ID'')) (\<lambda>key_id.
         bind_host (of_result (required_env env ''SHELLY_APNS_TOPIC'')) (\<lambda>topic.
         let endpoint = (case env (lit ''SHELLY_APNS_ENDPOINT'') of Some e \<Rightarrow> e | None \<Rightarrow> DEFAULT_APNS_ENDPOINT) in
         bind_host (with_context (lit ''read APNs .p8 key from '' @ key_path) (read_to_string key_path)) (\<lambda>pem.
         done_host (Some \<lparr>ac_team_id = team_id, ac_key_id = key_id, ac_topic = topic,
           ac_private_key_pem = as_bytes pem, ac_endpoint = endpoint\<rparr>)))))))"

definition apns_from_env ::
    "('a, 'f) provider_crates \<Rightarrow> (rstr \<Rightarrow> rstr option) \<Rightarrow> 'a apns_client option host_task" where
  "apns_from_env pc env = bind_host (apns_credentials_from_env env) (\<lambda>credentials. case credentials of
     None \<Rightarrow> done_host None
   | Some c \<Rightarrow> bind_host (of_result (apns_client_new pc c)) (\<lambda>client. done_host (Some client)))"

definition fcm_service_account_path :: "(rstr \<Rightarrow> rstr option) \<Rightarrow> rstr option" where
  "fcm_service_account_path env = (case env (lit ''SHELLY_FCM_SERVICE_ACCOUNT_PATH'') of
     Some path \<Rightarrow> Some path | None \<Rightarrow> credential_file env ''fcm-service-account.json'')"

definition required_field :: "char list \<Rightarrow> rstr \<Rightarrow> cli_error + rstr" where
  "required_field key v = (if trim v = [] then Inl (Bail (lit ''FCM service account '' @ lit key @ lit '' is required''))
     else Inr (trim v))"

text \<open>The five fields of the service account's file that are read.\<close>

definition service_account ::
    "('a, 'f) provider_crates \<Rightarrow> rstr \<Rightarrow> (rstr \<times> rstr \<times> rstr option \<times> rstr \<times> rstr option) option" where
  "service_account pc text = (case pv_json_parse pc text of
     None \<Rightarrow> None
   | Some v \<Rightarrow> (case struct_fields (map lit
         [''project_id'', ''client_email'', ''private_key_id'', ''private_key'', ''token_uri'']) v of
       Some [project_id, client_email, private_key_id, private_key, token_uri] \<Rightarrow>
         (case (as_string project_id, as_string client_email, as_optional_string private_key_id, as_string private_key,
              as_optional_string token_uri) of
            (Some p, Some e, Some i, Some k, Some t) \<Rightarrow> Some (p, e, i, k, t) | _ \<Rightarrow> None)
     | _ \<Rightarrow> None))"

definition not_blank :: "rstr option \<Rightarrow> rstr option" where
  "not_blank v = (case v of Some s \<Rightarrow> if trim s = [] then None else Some s | None \<Rightarrow> None)"

definition fcm_credentials_from_env ::
    "('a, 'f) provider_crates \<Rightarrow> (rstr \<Rightarrow> rstr option) \<Rightarrow> fcm_credentials option host_task" where
  "fcm_credentials_from_env pc env = (case fcm_service_account_path env of
     None \<Rightarrow> done_host None
   | Some path \<Rightarrow>
       bind_host (ask_host (fs_exists path)) (\<lambda>found.
       if \<not> found then done_host None
       else bind_host (with_context (lit ''read FCM service account from '' @ path) (read_to_string path)) (\<lambda>text.
         case service_account pc text of
           None \<Rightarrow> fail_host (Bail (lit ''parse FCM service account JSON''))
         | Some (project_id, client_email, private_key_id, private_key, token_uri) \<Rightarrow>
             let token_uri = (case not_blank token_uri of
                   Some u \<Rightarrow> u | None \<Rightarrow> lit ''https://oauth2.googleapis.com/token'');
                 endpoint = (case env (lit ''SHELLY_FCM_ENDPOINT'') of Some e \<Rightarrow> e | None \<Rightarrow> DEFAULT_FCM_ENDPOINT) in
             bind_host (of_result (required_field ''project_id'' project_id)) (\<lambda>project_id.
             bind_host (of_result (required_field ''client_email'' client_email)) (\<lambda>client_email.
             bind_host (of_result (required_field ''private_key'' private_key)) (\<lambda>private_key.
             done_host (Some \<lparr>fc_project_id = project_id, fc_client_email = client_email,
               fc_private_key_id = not_blank private_key_id, fc_private_key_pem = as_bytes private_key,
               fc_token_uri = token_uri, fc_endpoint = endpoint\<rparr>)))))))"

definition fcm_from_env ::
    "('a, 'f) provider_crates \<Rightarrow> (rstr \<Rightarrow> rstr option) \<Rightarrow> 'f fcm_client option host_task" where
  "fcm_from_env pc env = bind_host (fcm_credentials_from_env pc env) (\<lambda>credentials. case credentials of
     None \<Rightarrow> done_host None
   | Some c \<Rightarrow> bind_host (of_result (fcm_client_new pc c)) (\<lambda>client. done_host (Some client)))"

definition providers_from_env ::
    "('a, 'f) provider_crates \<Rightarrow> (rstr \<Rightarrow> rstr option) \<Rightarrow> ('a, 'f) push_providers host_task" where
  "providers_from_env pc env =
     bind_host (apns_from_env pc env) (\<lambda>apns. bind_host (fcm_from_env pc env) (\<lambda>fcm.
     done_host \<lparr>pp_apns = apns, pp_fcm = fcm\<rparr>))"

section \<open>The relay\<close>

text \<open>An error that gets no context.\<close>

definition plain_error :: "(host_fs \<Rightarrow> host_fs \<times> (rstr + 'a)) \<Rightarrow> 'a host_task" where
  "plain_error f s = (case f s of (s, Inl e) \<Rightarrow> (s, Inl (Bail e)) | (s, Inr a) \<Rightarrow> (s, Inr a))"

definition prepare_database_path :: "rstr \<Rightarrow> unit host_task" where
  "prepare_database_path path = (case path_parent path of
     None \<Rightarrow> done_host ()
   | Some parent \<Rightarrow>
       if parent = [] then done_host ()
       else bind_host (plain_error (create_dir_all parent)) (\<lambda>_. plain_error (set_permissions parent 448)))"

definition set_private_file_permissions_if_exists :: "rstr \<Rightarrow> unit host_task" where
  "set_private_file_permissions_if_exists path s = (case set_permissions path 384 s of
     (s, Inl e) \<Rightarrow> if e = no_entry then (s, Inr ()) else (s, Inl (Bail e))
   | (s, Inr _) \<Rightarrow> (s, Inr ()))"

definition set_private_database_permissions :: "rstr \<Rightarrow> unit host_task" where
  "set_private_database_permissions path =
     bind_host (set_private_file_permissions_if_exists path) (\<lambda>_.
     bind_host (set_private_file_permissions_if_exists (path @ lit ''-wal'')) (\<lambda>_.
     set_private_file_permissions_if_exists (path @ lit ''-shm'')))"

text \<open>\<open>connect\<close> opens the file with SQLite and creates the tables that are missing.\<close>

type_synonym sqlite = "rstr \<Rightarrow> host_fs \<Rightarrow> host_fs \<times> (rstr + relay_store)"

definition relay_store_open :: "sqlite \<Rightarrow> rstr \<Rightarrow> relay_store host_task" where
  "relay_store_open connect path =
     bind_host (prepare_database_path path) (\<lambda>_.
     bind_host (plain_error (connect path)) (\<lambda>db.
     bind_host (set_private_database_permissions path) (\<lambda>_. done_host db)))"

text \<open>The state of the relay and its clients of the push services, which the model keeps beside it.\<close>

definition relay_from_env ::
    "relay_crates \<Rightarrow> ('a, 'f) provider_crates \<Rightarrow> (load_error \<Rightarrow> rstr) \<Rightarrow> sqlite \<Rightarrow> nat \<Rightarrow> (rstr \<Rightarrow> rstr option) \<Rightarrow>
     (relay_state \<times> ('a, 'f) push_providers) host_task" where
  "relay_from_env cr pc load_text connect now env =
     bind_host (of_result (trust_forwarded_for_from_env env)) (\<lambda>trust.
     bind_host (of_result (bool_env env ''SHELLY_RELAY_PRUNE_STALE_DAEMONS'' False)) (\<lambda>prune.
     bind_host (of_result (parse_u64_env env ''SHELLY_RELAY_DAEMON_RETENTION_MS'' DEFAULT_DAEMON_RETENTION_MS)) (\<lambda>retention.
     let audience = (case env (lit ''SHELLY_RELAY_REGISTRATION_AUDIENCE'') of
           Some a \<Rightarrow> a | None \<Rightarrow> DEFAULT_REGISTRATION_AUDIENCE);
         path = (case env (lit ''SHELLY_RELAY_DB_PATH'') of
           Some p \<Rightarrow> p | None \<Rightarrow> lit ''/var/lib/shelly/relay.db'') in
     if trim audience = [] then fail_host (Bail (lit ''SHELLY_RELAY_REGISTRATION_AUDIENCE must not be empty''))
     else if trim path = [] \<or> path = lit ''off''
     then done_host (relay_default\<lparr>rs_trust_forwarded_for := trust, rs_prune_stale_daemons := prune,
       rs_daemon_retention_ms := retention, rs_registration_audience := audience\<rparr>, \<lparr>pp_apns = None, pp_fcm = None\<rparr>)
     else bind_host (relay_store_open connect path) (\<lambda>db.
       case open_sqlite_with_policy cr now prune retention audience db of
         (_, Inl e) \<Rightarrow> fail_host (Bail (load_text e))
       | (_, Inr st) \<Rightarrow> bind_host (providers_from_env pc env) (\<lambda>ps.
           done_host (st\<lparr>rs_trust_forwarded_for := trust\<rparr>, ps))))))"

text \<open>The metrics, a help line, a type line and the value of each.\<close>

definition metric :: "char list \<Rightarrow> char list \<Rightarrow> char list \<Rightarrow> nat \<Rightarrow> rstr" where
  "metric name help kind n = lit ''# HELP '' @ lit name @ [32] @ lit help @ [10] @
     lit ''# TYPE '' @ lit name @ [32] @ lit kind @ [10] @ lit name @ [32] @ dec n @ [10]"

definition metrics_text :: "relay_state \<Rightarrow> rstr" where
  "metrics_text st = (let m = rs_metrics st in
     metric ''shelly_relay_daemon_registrations_total'' ''Daemon public-key registrations accepted by the relay.''
       ''counter'' (daemon_registrations m) @
     metric ''shelly_relay_push_token_registrations_total'' ''Push tokens registered by paired daemons.''
       ''counter'' (token_registrations m) @
     metric ''shelly_relay_push_token_unregistrations_total'' ''Push tokens removed by paired daemons.''
       ''counter'' (token_unregistrations m) @
     metric ''shelly_relay_push_accepts_total'' ''Privacy-preserving push requests accepted for provider delivery.''
       ''counter'' (push_accepts m) @
     metric ''shelly_relay_pairing_code_publishes_total'' ''Pairing rendezvous records published by paired daemons.''
       ''counter'' (pairing_code_publishes m) @
     metric ''shelly_relay_pairing_code_resolves_total''
       ''Pairing locators successfully resolved to reachability records.'' ''counter'' (pairing_code_resolves m) @
     metric ''shelly_relay_active_daemons'' ''Active daemon public keys retained in relay memory.''
       ''gauge'' (length (rs_daemons st)) @
     metric ''shelly_relay_registered_push_tokens'' ''Active push tokens retained in relay memory.''
       ''gauge'' (length (rs_tokens st)))"

section \<open>The program\<close>

datatype relay_mode = ControlPlane | IrohRelay

definition parse_relay_mode :: "rstr \<Rightarrow> cli_error + relay_mode" where
  "parse_relay_mode v = (let w = str_lower (trim v) in
     if w = [] \<or> w \<in> set (map lit [''control'', ''control-plane'', ''push'']) then Inr ControlPlane
     else if w \<in> set (map lit [''iroh'', ''iroh-relay'', ''fallback'']) then Inr IrohRelay
     else Inl (Bail (lit ''SHELLY_RELAY_MODE must be control-plane or iroh-relay'')))"

definition relay_mode_from_env :: "(rstr \<Rightarrow> rstr) \<Rightarrow> (rstr \<Rightarrow> rstr option) \<Rightarrow> cli_error + relay_mode" where
  "relay_mode_from_env debug env =
     (let v = (case env (lit ''SHELLY_RELAY_MODE'') of Some v \<Rightarrow> v | None \<Rightarrow> lit ''control-plane'') in
      case parse_relay_mode v of
        Inl e \<Rightarrow> Inl (Because (lit ''parse SHELLY_RELAY_MODE='' @ debug v) e) | Inr m \<Rightarrow> Inr m)"

definition relay_tls_files_from_paths :: "bool \<Rightarrow> rstr option \<Rightarrow> rstr option \<Rightarrow> cli_error + (rstr \<times> rstr) option" where
  "relay_tls_files_from_paths require_tls cert_path key_path = (case (cert_path, key_path) of
     (Some cert, Some key) \<Rightarrow> Inr (Some (cert, key))
   | (None, None) \<Rightarrow>
       if require_tls then Inl (Bail (lit ''SHELLY_RELAY_REQUIRE_TLS is set but control-plane TLS cert/key are missing''))
       else Inr None
   | _ \<Rightarrow> Inl (Bail (lit ''set both SHELLY_RELAY_TLS_CERT_PATH and SHELLY_RELAY_TLS_KEY_PATH'')))"

definition credential_path :: "(rstr \<Rightarrow> rstr option) \<Rightarrow> char list \<Rightarrow> rstr option host_task" where
  "credential_path env name = (case credential_file env name of
     None \<Rightarrow> done_host None
   | Some path \<Rightarrow> bind_host (ask_host (fs_exists path)) (\<lambda>found. done_host (if found then Some path else None)))"

definition tls_path :: "(rstr \<Rightarrow> rstr option) \<Rightarrow> char list \<Rightarrow> char list \<Rightarrow> rstr option host_task" where
  "tls_path env key name = (case env (lit key) of Some path \<Rightarrow> done_host (Some path) | None \<Rightarrow> credential_path env name)"

definition relay_tls_files :: "(rstr \<Rightarrow> rstr option) \<Rightarrow> (rstr \<times> rstr) option host_task" where
  "relay_tls_files env =
     bind_host (of_result (bool_env env ''SHELLY_RELAY_REQUIRE_TLS'' False)) (\<lambda>require_tls.
     bind_host (tls_path env ''SHELLY_RELAY_TLS_CERT_PATH'' ''control-plane.crt'') (\<lambda>cert_path.
     bind_host (tls_path env ''SHELLY_RELAY_TLS_KEY_PATH'' ''control-plane.key'') (\<lambda>key_path.
     of_result (relay_tls_files_from_paths require_tls cert_path key_path))))"

text \<open>Where the relay listens: the control plane, with its certificate if any, and the metrics.\<close>

definition control_plane_addresses :: "(rstr \<Rightarrow> rstr option) \<Rightarrow> (rstr \<times> rstr option \<times> (rstr \<times> rstr) option) host_task" where
  "control_plane_addresses env =
     (let addr = (case env (lit ''SHELLY_RELAY_ADDR'') of Some a \<Rightarrow> a | None \<Rightarrow> lit ''127.0.0.1:8443'');
          metrics_addr = (case env (lit ''SHELLY_RELAY_METRICS_ADDR'') of Some a \<Rightarrow> a | None \<Rightarrow> lit ''127.0.0.1:9090'') in
      bind_host (relay_tls_files env) (\<lambda>tls.
      done_host (addr, if trim metrics_addr = [] \<or> metrics_addr = lit ''off'' then None else Some metrics_addr, tls)))"

definition relay_handle_cli_args :: "(rstr \<Rightarrow> rstr) \<Rightarrow> rstr \<Rightarrow> rstr \<Rightarrow> rstr list \<Rightarrow> rstr + rstr option" where
  "relay_handle_cli_args debug version help args = (case args of
     [] \<Rightarrow> Inr None
   | arg # rest \<Rightarrow>
       if rest = [] \<and> arg \<in> set (map lit [''-h'', ''--help'']) then Inr (Some help)
       else if rest = [] \<and> arg \<in> set (map lit [''-V'', ''--version'']) then Inr (Some (lit ''shelly-relay '' @ version))
       else Inl (lit ''unexpected argument '' @ debug arg @ lit ''; run shelly-relay --help''))"

section \<open>Telemetry\<close>

text \<open>A sampling rate is a parameter with its parser, zero and one; \<open>finite\<close> says that it is a number.\<close>

record 'r rates =
  ra_parse :: "rstr \<Rightarrow> rstr + 'r"
  ra_finite :: "'r \<Rightarrow> bool"
  ra_le :: "'r \<Rightarrow> 'r \<Rightarrow> bool"
  ra_zero :: 'r
  ra_one :: 'r
  ra_default :: 'r

record 'r telemetry_config =
  tm_endpoint :: rstr
  tm_sample_rate :: 'r
  tm_headers :: "(rstr \<times> rstr) list"

definition DEFAULT_HONEYCOMB_TRACES_ENDPOINT :: rstr where
  "DEFAULT_HONEYCOMB_TRACES_ENDPOINT = lit ''https://api.honeycomb.io/v1/traces''"

definition parse_sample_rate :: "'r rates \<Rightarrow> (rstr \<Rightarrow> rstr) \<Rightarrow> rstr option \<Rightarrow> cli_error + 'r" where
  "parse_sample_rate ra debug v = (case v of
     None \<Rightarrow> Inr (ra_default ra)
   | Some v \<Rightarrow> (case ra_parse ra v of
       Inl e \<Rightarrow> Inl (Because (lit ''parse SHELLY_RELAY_OTLP_SAMPLE_RATE='' @ debug v) (Bail e))
     | Inr r \<Rightarrow>
         if \<not> ra_finite ra r \<or> \<not> (ra_le ra (ra_zero ra) r \<and> ra_le ra r (ra_one ra))
         then Inl (Bail (lit ''SHELLY_RELAY_OTLP_SAMPLE_RATE must be between 0.0 and 1.0''))
         else Inr r))"

definition read_secret :: "rstr \<Rightarrow> rstr host_task" where
  "read_secret path =
     bind_host (with_context (lit ''read Honeycomb API key from '' @ path) (read_to_string path)) (\<lambda>secret.
     if trim secret = [] then fail_host (Bail (lit ''Honeycomb API key file '' @ path @ lit '' is empty''))
     else done_host (trim secret))"

definition honeycomb_api_key :: "(rstr \<Rightarrow> rstr option) \<Rightarrow> rstr option host_task" where
  "honeycomb_api_key env = (case trimmed_env env ''SHELLY_RELAY_HONEYCOMB_API_KEY_PATH'' of
     Some path \<Rightarrow> bind_host (read_secret path) (\<lambda>k. done_host (Some k))
   | None \<Rightarrow> bind_host (credential_path env ''honeycomb-api-key'') (\<lambda>path. case path of
       Some path \<Rightarrow> bind_host (read_secret path) (\<lambda>k. done_host (Some k))
     | None \<Rightarrow> done_host None))"

definition telemetry_config_from_env ::
    "'r rates \<Rightarrow> (rstr \<Rightarrow> rstr) \<Rightarrow> (rstr \<Rightarrow> rstr option) \<Rightarrow> 'r telemetry_config option host_task" where
  "telemetry_config_from_env ra debug env =
     (let endpoint = trimmed_env env ''SHELLY_RELAY_OTLP_ENDPOINT'' in
      bind_host (honeycomb_api_key env) (\<lambda>api_key.
      if endpoint = None \<and> api_key = None then done_host None
      else
        let headers = (case api_key of Some k \<Rightarrow> [(lit ''x-honeycomb-team'', k)] | None \<Rightarrow> []) @
          (case trimmed_env env ''SHELLY_RELAY_HONEYCOMB_DATASET'' of
             Some d \<Rightarrow> [(lit ''x-honeycomb-dataset'', d)] | None \<Rightarrow> []) in
        bind_host (of_result (parse_sample_rate ra debug (trimmed_env env ''SHELLY_RELAY_OTLP_SAMPLE_RATE''))) (\<lambda>rate.
        done_host (Some \<lparr>tm_endpoint = (case endpoint of Some e \<Rightarrow> e | None \<Rightarrow> DEFAULT_HONEYCOMB_TRACES_ENDPOINT),
          tm_sample_rate = rate, tm_headers = headers\<rparr>))))"

section \<open>The iroh relay\<close>

text \<open>\<open>'s\<close> is an address of a socket; the server that is configured is a third party's.\<close>

record 's iroh_relay_config =
  ir_http_addr :: 's
  ir_https_addr :: 's
  ir_quic_addr :: 's
  ir_metrics_addr :: "'s option"
  ir_hostname :: "rstr option"
  ir_contact_email :: "rstr option"
  ir_cert_dir :: rstr
  ir_use_staging_acme :: bool
  ir_http_only :: bool

definition socket_env ::
    "(rstr \<Rightarrow> rstr + 's) \<Rightarrow> (rstr \<Rightarrow> rstr option) \<Rightarrow> char list \<Rightarrow> 's \<Rightarrow> cli_error + 's" where
  "socket_env parse env key default_value = (case env (lit key) of
     Some v \<Rightarrow>
       if trim v = [] then Inr default_value
       else (case parse v of
         Inl e \<Rightarrow> Inl (Because (lit ''parse '' @ lit key @ lit '' socket address'') (Bail e)) | Inr a \<Rightarrow> Inr a)
   | None \<Rightarrow> Inr default_value)"

definition optional_socket_env ::
    "(rstr \<Rightarrow> rstr + 's) \<Rightarrow> (rstr \<Rightarrow> rstr option) \<Rightarrow> char list \<Rightarrow> 's option \<Rightarrow> cli_error + 's option" where
  "optional_socket_env parse env key default_value = (case env (lit key) of
     Some v \<Rightarrow>
       if str_lower (trim v) = lit ''off'' then Inr None
       else if trim v = [] then Inr default_value
       else (case parse v of
         Inl e \<Rightarrow> Inl (Because (lit ''parse '' @ lit key @ lit '' socket address'') (Bail e)) | Inr a \<Rightarrow> Inr (Some a))
   | None \<Rightarrow> Inr default_value)"

text \<open>\<open>anywhere\<close> gives the unspecified address with a port, \<open>loopback\<close> the one of the metrics.\<close>

definition iroh_relay_config_from_env ::
    "(rstr \<Rightarrow> rstr + 's) \<Rightarrow> (nat \<Rightarrow> 's) \<Rightarrow> 's \<Rightarrow> (rstr \<Rightarrow> rstr option) \<Rightarrow> cli_error + 's iroh_relay_config" where
  "iroh_relay_config_from_env parse anywhere loopback env =
     then_ok (socket_env parse env ''SHELLY_IROH_RELAY_HTTP_ADDR'' (anywhere 80)) (\<lambda>http_addr.
     then_ok (socket_env parse env ''SHELLY_IROH_RELAY_HTTPS_ADDR'' (anywhere 443)) (\<lambda>https_addr.
     then_ok (socket_env parse env ''SHELLY_IROH_RELAY_QUIC_ADDR'' (anywhere 7842)) (\<lambda>quic_addr.
     then_ok (optional_socket_env parse env ''SHELLY_IROH_RELAY_METRICS_ADDR'' (Some loopback)) (\<lambda>metrics_addr.
     then_ok (bool_env env ''SHELLY_IROH_RELAY_STAGING'' False) (\<lambda>staging.
     then_ok (bool_env env ''SHELLY_IROH_RELAY_HTTP_ONLY'' False) (\<lambda>http_only.
     Inr \<lparr>ir_http_addr = http_addr, ir_https_addr = https_addr, ir_quic_addr = quic_addr, ir_metrics_addr = metrics_addr,
       ir_hostname = trimmed_env env ''SHELLY_IROH_RELAY_HOSTNAME'',
       ir_contact_email = trimmed_env env ''SHELLY_IROH_RELAY_CONTACT_EMAIL'',
       ir_cert_dir = (case env (lit ''SHELLY_IROH_RELAY_CERT_DIR'') of Some d \<Rightarrow> d | None \<Rightarrow> lit ''/var/lib/shelly/acme''),
       ir_use_staging_acme = staging, ir_http_only = http_only\<rparr>))))))"

text \<open>Of the configured server: its TLS with the domain, the contact and the cache, and QUIC.\<close>

definition lets_encrypt_cert_config :: "'s iroh_relay_config \<Rightarrow> cli_error + (rstr \<times> rstr \<times> rstr \<times> bool)" where
  "lets_encrypt_cert_config config = (case ir_hostname config of
     None \<Rightarrow> Inl (Bail (lit ''SHELLY_IROH_RELAY_HOSTNAME is required unless HTTP-only mode is enabled''))
   | Some hostname \<Rightarrow> (case ir_contact_email config of
       None \<Rightarrow> Inl (Bail (lit ''SHELLY_IROH_RELAY_CONTACT_EMAIL is required unless HTTP-only mode is enabled''))
     | Some email \<Rightarrow> Inr (hostname, lit ''mailto:'' @ email, ir_cert_dir config, \<not> ir_use_staging_acme config)))"

definition build_server_config ::
    "'s iroh_relay_config \<Rightarrow> cli_error + ('s \<times> ('s \<times> rstr \<times> rstr \<times> rstr \<times> bool) option \<times> 's option \<times> 's option)" where
  "build_server_config config =
     (if ir_http_only config then Inr (ir_http_addr config, None, None, ir_metrics_addr config)
      else then_ok (lets_encrypt_cert_config config) (\<lambda>cert.
        Inr (ir_http_addr config, Some (ir_https_addr config, cert), Some (ir_quic_addr config), ir_metrics_addr config)))"

end
