(* ===== verification/ProviderProps.thy ===== *)
theory ProviderProps
  imports Providers RelayReplay
begin

text \<open>
  Properties of the clients of the push services: how old the tokens are that they send, over
  any run of deliveries, and when the relay drops the token of a phone.
\<close>

section \<open>Tokens\<close>

text \<open>A run of deliveries: what was sent when, and what answers then.\<close>

type_synonym provider_log = "(nat \<times> provider_http \<times> provider_request) list"

fun providers_run ::
    "('a, 'f) provider_crates \<Rightarrow> ('a, 'f) push_providers \<Rightarrow> (nat \<times> provider_http \<times> delivered_push) list \<Rightarrow> provider_log" where
  "providers_run pc ps [] = []"
| "providers_run pc ps ((now, http, d) # calls) = (case providers_deliver pc now http d ps of (ps', requests, _) \<Rightarrow>
     map (\<lambda>q. (now, http, q)) requests @ providers_run pc ps' calls)"

text \<open>The clients without what they have cached; and the three kinds of requests.\<close>

definition no_cache :: "('a, 'f) push_providers \<Rightarrow> ('a, 'f) push_providers" where
  "no_cache ps = ps\<lparr>
     pp_apns := map_option (\<lambda>a. a\<lparr>ap_jwt_cache := (ap_jwt_cache a)\<lparr>aj_cached := None\<rparr>\<rparr>) (pp_apns ps),
     pp_fcm := map_option (\<lambda>f. f\<lparr>fm_token_cache := (fm_token_cache f)\<lparr>ft_cached := None\<rparr>\<rparr>) (pp_fcm ps)\<rparr>"

definition apple_fresh ::
    "('a, 'f) provider_crates \<Rightarrow> ('a, 'f) push_providers \<Rightarrow> nat \<Rightarrow> provider_request \<Rightarrow> bool" where
  "apple_fresh pc ps now q \<longleftrightarrow> (\<exists>a jwt t d body. pp_apns ps = Some a \<and> q = apns_request a jwt d body \<and>
     apns_jwt_at pc (ap_jwt_cache a) t = Inr jwt \<and> t \<le> now \<and> now < t + APNS_JWT_TTL_SECONDS)"

definition asks_google ::
    "('a, 'f) provider_crates \<Rightarrow> ('a, 'f) push_providers \<Rightarrow> nat \<Rightarrow> provider_request \<Rightarrow> bool" where
  "asks_google pc ps now q \<longleftrightarrow> (\<exists>f jwt. pp_fcm ps = Some f \<and> q = exchange_request f jwt \<and>
     fcm_jwt pc (fm_token_uri f) now (fm_token_cache f) = Inr jwt)"

definition google_fresh ::
    "('a, 'f) provider_crates \<Rightarrow> ('a, 'f) push_providers \<Rightarrow> provider_log \<Rightarrow> nat \<Rightarrow> provider_request \<Rightarrow> bool" where
  "google_fresh pc ps log now q \<longleftrightarrow> (\<exists>f token body t http q' expires_in. pp_fcm ps = Some f \<and>
     q = fcm_request f token body \<and> (t, http, q') \<in> set log \<and> asks_google pc ps t q' \<and>
     exchange_token pc http q' = Inr (token, expires_in) \<and> t \<le> now \<and> (t = now \<or> now < t + expires_in))"

definition sound_request ::
    "('a, 'f) provider_crates \<Rightarrow> ('a, 'f) push_providers \<Rightarrow> provider_log \<Rightarrow> nat \<Rightarrow> provider_request \<Rightarrow> bool" where
  "sound_request pc ps log now q \<longleftrightarrow> apple_fresh pc ps now q \<or> asks_google pc ps now q \<or> google_fresh pc ps log now q"

lemma no_cache_simps [simp]:
  "apns_request (a\<lparr>ap_jwt_cache := c\<rparr>) jwt d body = apns_request a jwt d body"
  "apns_jwt_at pc (c\<lparr>aj_cached := x\<rparr>) t = apns_jwt_at pc c t"
  "fcm_request (f\<lparr>fm_token_cache := k\<rparr>) token body = fcm_request f token body"
  "exchange_request (f\<lparr>fm_token_cache := k\<rparr>) jwt = exchange_request f jwt"
  "fcm_jwt pc uri t (k\<lparr>ft_cached := y\<rparr>) = fcm_jwt pc uri t k"
  by (simp_all add: apns_request_def apns_jwt_at_def fcm_request_def exchange_request_def fcm_jwt_def Let_def)

text \<open>What is cached was signed, or given out, by the time it says.\<close>

definition cached_sound ::
    "('a, 'f) provider_crates \<Rightarrow> ('a, 'f) push_providers \<Rightarrow> provider_log \<Rightarrow> nat \<Rightarrow> ('a, 'f) push_providers \<Rightarrow> bool" where
  "cached_sound pc ps0 log now ps \<longleftrightarrow> no_cache ps = ps0 \<and>
     (\<forall>a jwt t. pp_apns ps = Some a \<longrightarrow> aj_cached (ap_jwt_cache a) = Some (jwt, t) \<longrightarrow>
        apns_jwt_at pc (ap_jwt_cache a) t = Inr jwt \<and> t \<le> now) \<and>
     (\<forall>f token over. pp_fcm ps = Some f \<longrightarrow> ft_cached (fm_token_cache f) = Some (token, over) \<longrightarrow>
        (\<exists>t http q expires_in. (t, http, q) \<in> set log \<and> asks_google pc ps0 t q \<and>
           exchange_token pc http q = Inr (token, expires_in) \<and> t \<le> now \<and> over \<le> t + expires_in))"

lemma cached_sound_mono:
  assumes "cached_sound pc ps0 log now ps" and "set log \<subseteq> set log'" and "now \<le> now'"
  shows "cached_sound pc ps0 log' now' ps"
  using assms unfolding cached_sound_def by (meson le_trans subsetD)

lemma refresh_before_end: "access_token_refresh_at now expires_in \<le> now + expires_in"
  by (simp add: access_token_refresh_at_def sat_add64_def)

lemma apns_token_sound:
  assumes t: "apns_token pc now c = (c', jwt)"
    and sound: "\<And>s t. aj_cached c = Some (s, t) \<Longrightarrow> apns_jwt_at pc c t = Inr s \<and> t \<le> now"
  shows "(\<exists>x. c' = c\<lparr>aj_cached := x\<rparr>) \<and>
    (\<forall>s t. aj_cached c' = Some (s, t) \<longrightarrow> apns_jwt_at pc c t = Inr s \<and> t \<le> now) \<and>
    (\<forall>s. jwt = Inr s \<longrightarrow> (\<exists>t. apns_jwt_at pc c t = Inr s \<and> t \<le> now \<and> now < t + APNS_JWT_TTL_SECONDS))"
proof -
  have id: "\<exists>x. c = c\<lparr>aj_cached := x\<rparr>" by (metis apns_jwt_cache.surjective apns_jwt_cache.update_convs(4))
  have ttl: "0 < APNS_JWT_TTL_SECONDS" by (simp add: APNS_JWT_TTL_SECONDS_def)
  show ?thesis
  proof (cases "\<exists>s t. aj_cached c = Some (s, t) \<and> now - t < APNS_JWT_TTL_SECONDS")
    case True
    then obtain s t where c: "aj_cached c = Some (s, t)" and "now - t < APNS_JWT_TTL_SECONDS" by blast
    with t have "c' = c" and "jwt = Inr s" by (simp_all add: apns_token_def)
    with c sound [OF c] id \<open>now - t < APNS_JWT_TTL_SECONDS\<close> show ?thesis by (auto intro!: exI [of _ t])
  next
    case False
    then have "apns_token pc now c = (case apns_jwt_at pc c now of Inl e \<Rightarrow> (c, Inl e)
        | Inr s \<Rightarrow> (c\<lparr>aj_cached := Some (s, now)\<rparr>, Inr s))"
      by (auto simp: apns_token_def split: option.splits prod.splits)
    with t id sound ttl show ?thesis by (auto split: sum.splits)
  qed
qed

text \<open>What a client sends, given what it has cached.\<close>

abbreviation logged :: "nat \<Rightarrow> provider_http \<Rightarrow> provider_request list \<Rightarrow> provider_log" where
  "logged now http \<equiv> map (\<lambda>q. (now, http, q))"

lemma apns_send_sound:
  assumes sound: "cached_sound pc ps0 log now ps" and a: "pp_apns ps = Some a"
    and send: "apns_send pc now http d a = (a', requests, r)"
  shows "cached_sound pc ps0 (log @ logged now http requests) now (ps\<lparr>pp_apns := Some a'\<rparr>)"
    and "\<forall>q \<in> set requests. sound_request pc ps0 (log @ logged now http requests) now q"
proof -
  obtain cache jwt where t: "apns_token pc now (ap_jwt_cache a) = (cache, jwt)" by fastforce
  have a': "a' = a\<lparr>ap_jwt_cache := cache\<rparr>" using send t
    by (auto simp: apns_send_def Let_def split: sum.splits)
  have s: "aj_cached (ap_jwt_cache a) = Some (s, t) \<Longrightarrow> apns_jwt_at pc (ap_jwt_cache a) t = Inr s \<and> t \<le> now" for s t
    using sound a unfolding cached_sound_def by blast
  obtain x where cache: "cache = (ap_jwt_cache a)\<lparr>aj_cached := x\<rparr>" and
    cached: "\<And>s t. aj_cached cache = Some (s, t) \<Longrightarrow> apns_jwt_at pc (ap_jwt_cache a) t = Inr s \<and> t \<le> now" and
    used: "\<And>s. jwt = Inr s \<Longrightarrow> \<exists>t. apns_jwt_at pc (ap_jwt_cache a) t = Inr s \<and> t \<le> now \<and> now < t + APNS_JWT_TTL_SECONDS"
    using apns_token_sound [OF t s] by blast
  have ps0: "pp_apns ps0 = Some (a\<lparr>ap_jwt_cache := (ap_jwt_cache a)\<lparr>aj_cached := None\<rparr>\<rparr>)"
    using sound a unfolding cached_sound_def no_cache_def by force
  have "\<exists>s body. jwt = Inr s \<and> q = apns_request a s d body" if "q \<in> set requests" for q
    using send t that by (auto simp: apns_send_def Let_def split: sum.splits)
  then have "\<forall>q \<in> set requests. apple_fresh pc ps0 now q"
    unfolding apple_fresh_def ps0 using used by fastforce
  then show "\<forall>q \<in> set requests. sound_request pc ps0 (log @ logged now http requests) now q"
    by (simp add: sound_request_def)
  have "no_cache (ps\<lparr>pp_apns := Some a'\<rparr>) = ps0"
    using sound a unfolding cached_sound_def no_cache_def a' cache by (auto simp: ps0)
  then have "cached_sound pc ps0 log now (ps\<lparr>pp_apns := Some a'\<rparr>)"
    using sound cached unfolding cached_sound_def a' cache by auto
  then show "cached_sound pc ps0 (log @ logged now http requests) now (ps\<lparr>pp_apns := Some a'\<rparr>)"
    by (rule cached_sound_mono) simp_all
qed

lemma asks_google_of:
  "pp_fcm ps = Some f \<Longrightarrow> fcm_jwt pc (fm_token_uri f) now (fm_token_cache f) = Inr jwt \<Longrightarrow>
   asks_google pc (no_cache ps) now (exchange_request f jwt)"
  unfolding asks_google_def no_cache_def by force

lemma access_token_cases:
  assumes "access_token pc now http f = (f', requests, token)"
  obtains (cached) s over where "ft_cached (fm_token_cache f) = Some (s, over)" and "now < over"
      and "f' = f" and "requests = []" and "token = Inr s"
    | (failed) e where "f' = f" and "requests = []" and "token = Inl e"
    | (refused) jwt e where "fcm_jwt pc (fm_token_uri f) now (fm_token_cache f) = Inr jwt" and "f' = f"
      and "requests = [exchange_request f jwt]" and "token = Inl e"
    | (given) jwt s expires_in where "fcm_jwt pc (fm_token_uri f) now (fm_token_cache f) = Inr jwt"
      and "exchange_token pc http (exchange_request f jwt) = Inr (s, expires_in)"
      and "f' = f\<lparr>fm_token_cache := (fm_token_cache f)\<lparr>ft_cached := Some (s, access_token_refresh_at now expires_in)\<rparr>\<rparr>"
      and "requests = [exchange_request f jwt]" and "token = Inr s"
proof (cases "cached_token now (fm_token_cache f)")
  case (Some s)
  then obtain over where c: "ft_cached (fm_token_cache f) = Some (s, over)" "now < over"
    by (auto simp: cached_token_def split: option.splits if_splits)
  from assms Some have "f' = f" and "requests = []" and "token = Inr s" by (simp_all add: access_token_def)
  with c show thesis by (rule that(1))
next
  case None
  with assms have get: "(case fcm_jwt pc (fm_token_uri f) now (fm_token_cache f) of Inl e \<Rightarrow> (f, [], Inl e)
      | Inr jwt \<Rightarrow> (case exchange_token pc http (exchange_request f jwt) of
          Inl e \<Rightarrow> (f, [exchange_request f jwt], Inl e)
        | Inr (s, expires_in) \<Rightarrow>
           (f\<lparr>fm_token_cache := (fm_token_cache f)\<lparr>ft_cached := Some (s, access_token_refresh_at now expires_in)\<rparr>\<rparr>,
            [exchange_request f jwt], Inr s))) = (f', requests, token)"
    unfolding access_token_def Let_def by simp
  show thesis
  proof (cases "fcm_jwt pc (fm_token_uri f) now (fm_token_cache f)")
    case (Inl e)
    with get have "f' = f" and "requests = []" and "token = Inl e" by simp_all
    then show thesis by (rule that(2))
  next
    case jwt: (Inr jwt)
    show thesis
    proof (cases "exchange_token pc http (exchange_request f jwt)")
      case (Inl e)
      with get jwt have "f' = f" and "requests = [exchange_request f jwt]" and "token = Inl e" by auto
      with jwt show thesis by (rule that(3))
    next
      case (Inr r)
      obtain s expires_in where r: "r = (s, expires_in)" by (cases r)
      from get jwt Inr r show thesis by (intro that(4) [OF jwt, of s expires_in]) simp_all
    qed
  qed
qed

lemma same_fcm: "pp_fcm ps = Some f \<Longrightarrow> ps\<lparr>pp_fcm := Some f\<rparr> = ps"
  by (cases ps) simp

lemma access_token_sound:
  assumes sound: "cached_sound pc ps0 log now ps" and f: "pp_fcm ps = Some f"
    and get: "access_token pc now http f = (f', requests, token)"
  shows "cached_sound pc ps0 (log @ logged now http requests) now (ps\<lparr>pp_fcm := Some f'\<rparr>)" (is ?c)
    and "\<forall>q \<in> set requests. asks_google pc ps0 now q" (is ?r)
    and "\<exists>y. f' = f\<lparr>fm_token_cache := (fm_token_cache f)\<lparr>ft_cached := y\<rparr>\<rparr>" (is ?f)
    and "\<forall>s. token = Inr s \<longrightarrow> (\<exists>t http' q expires_in. (t, http', q) \<in> set (log @ logged now http requests) \<and>
      asks_google pc ps0 t q \<and> exchange_token pc http' q = Inr (s, expires_in) \<and> t \<le> now \<and>
      (t = now \<or> now < t + expires_in))" (is ?t)
proof -
  have ps0: "ps0 = no_cache ps" using sound by (simp add: cached_sound_def)
  have same: "\<exists>y. f = f\<lparr>fm_token_cache := (fm_token_cache f)\<lparr>ft_cached := y\<rparr>\<rparr>"
    by (metis fcm_token_cache.surjective fcm_token_cache.update_convs(4) fcm_client.surjective fcm_client.update_convs(4))
  have unchanged: "cached_sound pc ps0 (log @ logged now http requests) now (ps\<lparr>pp_fcm := Some f\<rparr>)"
    using cached_sound_mono [OF sound, of "log @ logged now http requests" now] by (simp add: same_fcm f)
  have "?c \<and> ?r \<and> ?f \<and> ?t"
    using get
  proof (cases rule: access_token_cases)
    case (cached s over)
    then obtain t http' q expires_in where *: "(t, http', q) \<in> set log" "asks_google pc ps0 t q"
        "exchange_token pc http' q = Inr (s, expires_in)" "t \<le> now" "over \<le> t + expires_in"
      using sound f unfolding cached_sound_def by blast
    with cached(2) have "now < t + expires_in" by simp
    with * have "\<exists>t http' q expires_in. (t, http', q) \<in> set log \<and> asks_google pc ps0 t q \<and>
        exchange_token pc http' q = Inr (s, expires_in) \<and> t \<le> now \<and> (t = now \<or> now < t + expires_in)" by blast
    then show ?thesis using cached unchanged same by simp
  next
    case (failed e)
    then show ?thesis using unchanged same by simp
  next
    case (refused jwt e)
    then show ?thesis using unchanged same asks_google_of [OF f] ps0 by simp
  next
    case (given jwt s expires_in)
    have q: "asks_google pc ps0 now (exchange_request f jwt)" using asks_google_of [OF f] given ps0 by simp
    have "no_cache (ps\<lparr>pp_fcm := Some f'\<rparr>) = ps0" using f given ps0 by (simp add: no_cache_def)
    moreover have "\<exists>t http' q expires_in. (t, http', q) \<in> set (log @ logged now http requests) \<and> asks_google pc ps0 t q \<and>
        exchange_token pc http' q = Inr (s, expires_in) \<and> t \<le> now \<and> access_token_refresh_at now expires \<le> t + expires_in"
      if "expires = expires_in" for expires
      by (intro exI [of _ now] exI [of _ http] exI [of _ "exchange_request f jwt"] exI [of _ expires_in])
        (use q given refresh_before_end that in simp)
    ultimately have ?c using cached_sound_mono [OF sound, of "log @ logged now http requests" now] given
      by (auto simp: cached_sound_def)
    with q given show ?thesis by auto
  qed
  then show ?c and ?r and ?f and ?t by simp_all
qed

lemma fcm_send_sound:
  assumes sound: "cached_sound pc ps0 log now ps" and f: "pp_fcm ps = Some f"
    and send: "fcm_send pc now http d f = (f', requests, r)"
  shows "cached_sound pc ps0 (log @ logged now http requests) now (ps\<lparr>pp_fcm := Some f'\<rparr>)"
    and "\<forall>q \<in> set requests. sound_request pc ps0 (log @ logged now http requests) now q"
proof -
  obtain f1 asked token where get: "access_token pc now http f = (f1, asked, token)" using prod_cases3 by blast
  note got = access_token_sound [OF sound f get]
  have f': "f' = f1" and reqs: "requests = asked \<or> (\<exists>s body. token = Inr s \<and> requests = asked @ [fcm_request f1 s body])"
    using send get by (auto simp: fcm_send_def Let_def split: sum.splits)
  have sub: "set (log @ logged now http asked) \<subseteq> set (log @ logged now http requests)" using reqs by auto
  then show "cached_sound pc ps0 (log @ logged now http requests) now (ps\<lparr>pp_fcm := Some f'\<rparr>)"
    using cached_sound_mono [OF got(1) sub] f' by simp
  obtain f0 where f0: "pp_fcm ps0 = Some f0" "\<And>s body. fcm_request f1 s body = fcm_request f0 s body"
    using sound f got(3) unfolding cached_sound_def no_cache_def by force
  have "google_fresh pc ps0 (log @ logged now http requests) now (fcm_request f1 s body)" if "token = Inr s" for s body
    unfolding google_fresh_def f0(2) using got(4) that sub f0(1) by blast
  with got(2) reqs show "\<forall>q \<in> set requests. sound_request pc ps0 (log @ logged now http requests) now q"
    by (auto simp: sound_request_def)
qed

lemma deliver_sound:
  assumes sound: "cached_sound pc ps0 log now ps"
    and deliver: "providers_deliver pc now http d ps = (ps', requests, r)"
  shows "cached_sound pc ps0 (log @ logged now http requests) now ps'"
    and "\<forall>q \<in> set requests. sound_request pc ps0 (log @ logged now http requests) now q"
proof -
  note steps = apns_send_sound [OF sound] fcm_send_sound [OF sound]
  show "cached_sound pc ps0 (log @ logged now http requests) now ps'"
    using deliver sound steps(1,3) unfolding providers_deliver_def
    by (auto split: push_platform.splits option.splits prod.splits)
  show "\<forall>q \<in> set requests. sound_request pc ps0 (log @ logged now http requests) now q"
    using deliver steps(2,4) unfolding providers_deliver_def
    by (auto split: push_platform.splits option.splits prod.splits)
qed

lemma sound_request_mono:
  "sound_request pc ps log now q \<Longrightarrow> set log \<subseteq> set log' \<Longrightarrow> sound_request pc ps log' now q"
  unfolding sound_request_def google_fresh_def by blast

lemma providers_run_sound:
  assumes "cached_sound pc ps0 log start ps" and "sorted (map fst calls)" and "\<forall>c \<in> set calls. start \<le> fst c"
  shows "\<forall>(now, http, q) \<in> set (providers_run pc ps calls). sound_request pc ps0 (log @ providers_run pc ps calls) now q"
  using assms
proof (induction calls arbitrary: log start ps)
  case (Cons c calls)
  obtain now http d where c: "c = (now, http, d)" by (cases c)
  obtain ps' requests r where d: "providers_deliver pc now http d ps = (ps', requests, r)" using prod_cases3 by blast
  let ?log = "log @ logged now http requests"
  have "cached_sound pc ps0 log now ps" using cached_sound_mono [OF Cons.prems(1) subset_refl] Cons.prems(3) c by simp
  note step = deliver_sound [OF this d]
  have "\<forall>(now, http, q) \<in> set (providers_run pc ps' calls). sound_request pc ps0 (?log @ providers_run pc ps' calls) now q"
    using Cons.IH [OF step(1)] Cons.prems(2) c by auto
  moreover have "sound_request pc ps0 (?log @ providers_run pc ps' calls) now q" if "q \<in> set requests" for q
    by (rule sound_request_mono [of _ _ ?log]) (use step(2) that in auto)
  ultimately show ?case using c d by auto
qed simp

text \<open>C35 [provider_tokens_fresh].  Over any run of deliveries on clients that start with nothing
  cached, with a clock that does not go back, every request that the relay sends is sound: a notice
  to Apple bears a token that was signed with the configured key less than
  \<open>APNS_JWT_TTL_SECONDS\<close> before; a notice to Google bears an access token that Google gave out, for
  an assertion the relay signed, in answer to a request of this run, in this moment or within the time
  it is valid; and everything else that is sent is such a request for a token.
\<close>
theorem provider_tokens_fresh:
  assumes "no_cache ps = ps" and "sorted (map fst calls)"
  shows "\<forall>(now, http, q) \<in> set (providers_run pc ps calls). sound_request pc ps (providers_run pc ps calls) now q"
proof -
  have "pp_apns ps = Some a \<Longrightarrow> aj_cached (ap_jwt_cache a) = None" for a
    using arg_cong [OF assms(1), of "\<lambda>ps. map_option (\<lambda>a. aj_cached (ap_jwt_cache a)) (pp_apns ps)"]
    by (simp add: no_cache_def)
  moreover have "pp_fcm ps = Some f \<Longrightarrow> ft_cached (fm_token_cache f) = None" for f
    using arg_cong [OF assms(1), of "\<lambda>ps. map_option (\<lambda>f. ft_cached (fm_token_cache f)) (pp_fcm ps)"]
    by (simp add: no_cache_def)
  ultimately have "cached_sound pc ps [] 0 ps" using assms(1) unfolding cached_sound_def by fastforce
  from providers_run_sound [OF this assms(2)] show ?thesis by simp
qed

section \<open>Refusals\<close>

text \<open>The service answered the notice itself, and its answer is one that names the token.\<close>

definition notice_refused ::
    "('a, 'f) provider_crates \<Rightarrow> nat \<Rightarrow> provider_http \<Rightarrow> delivered_push \<Rightarrow> ('a, 'f) push_providers \<Rightarrow> bool" where
  "notice_refused pc now http d ps \<longleftrightarrow> (\<exists>q \<in> set (fst (snd (providers_deliver pc now http d ps))). \<exists>reply.
     http q = Inr reply \<and> py_status reply \<noteq> 200 \<and>
     (case dp_platform d of
        Apns \<Rightarrow> apns_error_is_invalid_token (py_status reply) (apns_error_reason pc (body_text reply))
      | Fcm \<Rightarrow> (\<exists>f token body. pp_fcm ps = Some f \<and> q = fcm_request f token body) \<and>
          fcm_invalid_token_reason pc (body_text reply) \<noteq> None))"

lemma exchange_is_no_notice [simp]: "exchange_request f jwt \<noteq> fcm_request f' token body"
  by (simp add: exchange_request_def fcm_request_def)

definition names_token :: "provider_error option \<Rightarrow> bool" where
  "names_token r = (case r of Some e \<Rightarrow> is_invalid_token e | None \<Rightarrow> False)"

lemma names_token_simps [simp]:
  "\<not> names_token None" "names_token (Some (InvalidToken p r))" "\<not> names_token (Some (OtherFailure p))"
  by (simp_all add: names_token_def is_invalid_token_def)

lemma apns_send_refused:
  assumes "apns_send pc now http d a = (a', requests, r)"
  shows "names_token r \<longleftrightarrow> (\<exists>q \<in> set requests. \<exists>reply. http q = Inr reply \<and> py_status reply \<noteq> 200 \<and>
    apns_error_is_invalid_token (py_status reply) (apns_error_reason pc (body_text reply)))"
  using assms by (auto simp: apns_send_def Let_def split: sum.splits prod.splits if_splits)

lemma fcm_send_refused:
  assumes "fcm_send pc now http d f = (f', requests, r)"
  shows "names_token r \<longleftrightarrow> (\<exists>q \<in> set requests. \<exists>reply. http q = Inr reply \<and> py_status reply \<noteq> 200 \<and>
    (\<exists>token body. q = fcm_request f token body) \<and> fcm_invalid_token_reason pc (body_text reply) \<noteq> None)"
proof -
  obtain f1 asked token where get: "access_token pc now http f = (f1, asked, token)" using prod_cases3 by blast
  have asked: "fcm_request f token' body \<notin> set asked" for token' body
    using get by (cases rule: access_token_cases) (auto simp: exchange_is_no_notice [symmetric])
  have same: "fcm_request f1 = fcm_request f"
    using get by (cases rule: access_token_cases) (auto simp: fcm_request_def fun_eq_iff)
  show ?thesis
  proof (cases "\<exists>s body. token = Inr s \<and> pv_json_text pc (fcm_payload d) = Inr body")
    case True
    then obtain s body where sent: "token = Inr s" "pv_json_text pc (fcm_payload d) = Inr body" by blast
    have "fcm_send pc now http d f = (f1, asked @ [fcm_request f s body],
        case http (fcm_request f s body) of Inl _ \<Rightarrow> Some (OtherFailure (lit ''FCM''))
        | Inr reply \<Rightarrow> if py_status reply = 200 then None else (case fcm_invalid_token_reason pc (body_text reply) of
            Some reason \<Rightarrow> Some (InvalidToken (lit ''FCM'') reason) | None \<Rightarrow> Some (OtherFailure (lit ''FCM''))))"
      unfolding fcm_send_def get sent Let_def prod.case sum.case same by (rule refl)
    with assms have reqs: "requests = asked @ [fcm_request f s body]" and
        r: "r = (case http (fcm_request f s body) of Inl _ \<Rightarrow> Some (OtherFailure (lit ''FCM''))
          | Inr reply \<Rightarrow> if py_status reply = 200 then None else (case fcm_invalid_token_reason pc (body_text reply) of
              Some reason \<Rightarrow> Some (InvalidToken (lit ''FCM'') reason) | None \<Rightarrow> Some (OtherFailure (lit ''FCM''))))"
      by simp_all
    have only: "(\<exists>q \<in> set (asked @ [fcm_request f s body]). \<exists>reply. http q = Inr reply \<and> P reply \<and>
        (\<exists>token body. q = fcm_request f token body) \<and> Q reply) \<longleftrightarrow>
        (\<exists>reply. http (fcm_request f s body) = Inr reply \<and> P reply \<and> Q reply)" for P Q
      using asked by (metis (no_types, lifting) in_set_conv_decomp rotate1.simps(2) set_ConsD set_rotate1)
    show ?thesis unfolding reqs only r by (cases "http (fcm_request f s body)") (simp_all split: option.splits)
  next
    case False
    then have "requests = asked" and "r = Some (OtherFailure (lit ''FCM''))"
      using assms get by (auto simp: fcm_send_def Let_def split: sum.splits)
    then show ?thesis using asked by auto
  qed
qed

lemma deliver_refused:
  "names_token (snd (snd (providers_deliver pc now http d ps))) \<longleftrightarrow> notice_refused pc now http d ps"
  unfolding notice_refused_def providers_deliver_def
  by (auto simp: apns_send_refused fcm_send_refused split: push_platform.splits option.splits prod.splits)

lemma store_call_outcome:
  "store_call ok f st = (if rs_store st = None \<or> ok then (st\<lparr>rs_store := map_option f (rs_store st)\<rparr>, Inr ()) else fail_internal st)"
  by (cases "rs_store st") (auto simp: store_call_def)

lemma tokens_deliver_push:
  "tbl_get (rs_tokens (fst (deliver_push env st d))) token =
    (if token = dp_recipient_token d then
       (if names_token (deliver env d) \<and> (rs_store st = None \<or> db_ok env CallRemoveToken) then None
        else if deliver env d = None \<and> (rs_store st = None \<or> db_ok env CallTouchToken)
        then map_option (\<lambda>owner. owner\<lparr>tk_updated_at_ms := t_done env\<rparr>) (tbl_get (rs_tokens st) token)
        else tbl_get (rs_tokens st) token)
     else tbl_get (rs_tokens st) token)"
  by (cases "deliver env d") (auto simp: deliver_push_def remove_push_token_binding_def touch_push_token_binding_def
    names_token_def store_call_outcome fail_internal_def tbl_get_remove tbl_get_update)

text \<open>C36 [token_dropped_when_refused].  When the relay passes a push on, it drops the binding of the
  phone's token exactly if the push service answered the notice itself with a refusal of the token
  (Apple: \<open>BadDeviceToken\<close>, \<open>DeviceTokenNotForTopic\<close>, or 410 with \<open>Unregistered\<close>; Google:
  \<open>UNREGISTERED\<close> or \<open>INVALID_ARGUMENT\<close> in an \<open>FcmError\<close>) and the store could be written.  A service
  that cannot be reached, that refuses the relay's own credentials or that is busy costs no phone
  its token, and no other token changes.
\<close>
theorem token_dropped_when_refused:
  assumes "deliver env d = snd (snd (providers_deliver pc now http d ps))"
    and "tbl_get (rs_tokens st) (dp_recipient_token d) = Some owner"
  shows "(tbl_get (rs_tokens (fst (deliver_push env st d))) (dp_recipient_token d) = None \<longleftrightarrow>
      notice_refused pc now http d ps \<and> (rs_store st = None \<or> db_ok env CallRemoveToken)) \<and>
    (\<forall>token. token \<noteq> dp_recipient_token d \<longrightarrow>
      tbl_get (rs_tokens (fst (deliver_push env st d))) token = tbl_get (rs_tokens st) token)"
  unfolding tokens_deliver_push using assms by (auto simp: deliver_refused [symmetric])

section \<open>Examples\<close>

text \<open>
  Services that take the first notices, and a Google that then refuses the token of the phone; the
  JSON of the answers is told by its first letter.
\<close>

definition demo_provider_crates :: "(nat, nat) provider_crates" where
  "demo_provider_crates = \<lparr>
     pv_json_text = (\<lambda>_. Inr (lit ''j'')),
     pv_json_parse = (\<lambda>s. if s = lit ''granted'' then Some (JObject [(lit ''access_token'', JString (lit ''t'')),
         (lit ''expires_in'', JNumber 3600), (lit ''token_type'', JString (lit ''Bearer''))])
       else if s = lit ''gone'' then Some (JObject [(lit ''error'', JObject [(lit ''details'', JArray [JObject [
         (lit ''@type'', JString (lit ''type.googleapis.com/google.firebase.fcm.v1.FcmError'')),
         (lit ''errorCode'', JString (lit ''UNREGISTERED''))]])])])
       else None),
     pv_base64_url = map unat, pv_base64_decode = (\<lambda>s. Inr (map of_nat s)), pv_utf8 = (\<lambda>b. Inr (map unat b)),
     pv_es256_key = (\<lambda>_. Inr 1), pv_es256_sign = (\<lambda>k b. [of_nat k]), pv_rsa_key = (\<lambda>_. Some 2),
     pv_rs256_sign = (\<lambda>k b. Some [of_nat k])\<rparr>"

definition demo_providers :: "(nat, nat) push_providers" where
  "demo_providers = \<lparr>
     pp_apns = Some \<lparr>ap_endpoint = DEFAULT_APNS_ENDPOINT, ap_topic = lit ''dev.shelly'',
       ap_jwt_cache = \<lparr>aj_team_id = lit ''TEAM'', aj_key_id = lit ''KEY'', aj_signing_key = 1, aj_cached = None\<rparr>\<rparr>,
     pp_fcm = Some \<lparr>fm_endpoint = DEFAULT_FCM_ENDPOINT, fm_project_id = lit ''shelly'',
       fm_token_uri = lit ''https://oauth2.googleapis.com/token'',
       fm_token_cache = \<lparr>ft_client_email = lit ''relay@shelly'', ft_private_key_id = None, ft_signing_key = 2, ft_cached = None\<rparr>\<rparr>\<rparr>"

definition demo_answers :: "nat \<Rightarrow> char list \<Rightarrow> provider_http" where
  "demo_answers status text q = Inr (if pq_url q = lit ''https://oauth2.googleapis.com/token''
     then \<lparr>py_status = 200, py_status_text = lit ''200 OK'', py_body = Some (lit ''granted'')\<rparr>
     else \<lparr>py_status = status, py_status_text = [], py_body = Some (lit text)\<rparr>)"

definition demo_notice :: "push_platform \<Rightarrow> delivered_push" where
  "demo_notice platform = \<lparr>dp_platform = platform, dp_recipient_token = demo_token, dp_title = lit ''shelly'',
     dp_body = lit ''done'', dp_thread_id = [], dp_session_id_hash = [], dp_event_type = EvBuildFinished\<rparr>"

definition demo_deliveries :: "(nat \<times> provider_http \<times> delivered_push) list" where
  "demo_deliveries = [(100, demo_answers 200 '''', demo_notice Apns), (200, demo_answers 200 '''', demo_notice Fcm),
     (3499, demo_answers 200 '''', demo_notice Fcm), (3500, demo_answers 404 ''gone'', demo_notice Fcm)]"

lemmas demo_provider_defs = demo_deliveries_def demo_provider_crates_def demo_providers_def demo_answers_def demo_notice_def
  DEFAULT_APNS_ENDPOINT_def DEFAULT_FCM_ENDPOINT_def providers_deliver_def apns_send_def apns_token_def apns_jwt_at_def apns_b64_json_def
  APNS_JWT_TTL_SECONDS_def apns_request_def fcm_send_def access_token_def cached_token_def fcm_jwt_def fcm_b64_json_def
  exchange_token_def exchange_request_def fcm_request_def token_response_def struct_fields_def access_token_refresh_at_def
  ACCESS_TOKEN_REFRESH_SKEW_SECONDS_def sat_add64_def then_ok_def in_err_def body_text_def fcm_invalid_token_reason_def
  fcm_detail_reason_def json_get_def as_string_def str_lower_def to_ascii_lowercase_def
  is_ascii_upper_def   u64_max_def lit_def Let_def

text \<open>The second token of Google is asked for five minutes before the first one ends.\<close>

theorem provider_tokens_fresh_witness:
  "map fst (providers_run demo_provider_crates demo_providers demo_deliveries) = [100, 200, 200, 3499, 3500, 3500] \<and>
   list_all (\<lambda>(now, http, q). sound_request demo_provider_crates demo_providers
       (providers_run demo_provider_crates demo_providers demo_deliveries) now q)
     (providers_run demo_provider_crates demo_providers demo_deliveries)"
proof
  show "map fst (providers_run demo_provider_crates demo_providers demo_deliveries) = [100, 200, 200, 3499, 3500, 3500]"
    by (simp add: demo_provider_defs)
  have "no_cache demo_providers = demo_providers" and "sorted (map fst demo_deliveries)"
    by (simp_all add: no_cache_def demo_providers_def demo_deliveries_def)
  from provider_tokens_fresh [OF this]
  show "list_all (\<lambda>(now, http, q). sound_request demo_provider_crates demo_providers
       (providers_run demo_provider_crates demo_providers demo_deliveries) now q)
     (providers_run demo_provider_crates demo_providers demo_deliveries)"
    by (simp add: list_all_iff)
qed

theorem token_dropped_when_refused_witness:
  "tbl_get (rs_tokens demo_relay) demo_token = Some demo_owner \<and>
   tbl_get (rs_tokens (fst (deliver_push (demo_env\<lparr>deliver := \<lambda>d. snd (snd
     (providers_deliver demo_provider_crates 3500 (demo_answers 404 ''gone'') d demo_providers))\<rparr>) demo_relay
     (demo_notice Fcm)))) demo_token = None"
proof
  let ?env = "demo_env\<lparr>deliver := \<lambda>d. snd (snd
     (providers_deliver demo_provider_crates 3500 (demo_answers 404 ''gone'') d demo_providers))\<rparr>"
  show bound: "tbl_get (rs_tokens demo_relay) demo_token = Some demo_owner" by (simp add: demo_relay_def tbl_get_def)
  have "names_token (snd (snd (providers_deliver demo_provider_crates 3500 (demo_answers 404 ''gone'')
      (demo_notice Fcm) demo_providers)))"
    by (simp add: demo_provider_defs)
  then have "notice_refused demo_provider_crates 3500 (demo_answers 404 ''gone'') (demo_notice Fcm) demo_providers"
    by (simp add: deliver_refused)
  then show "tbl_get (rs_tokens (fst (deliver_push ?env demo_relay (demo_notice Fcm)))) demo_token = None"
    using token_dropped_when_refused [of ?env "demo_notice Fcm" demo_provider_crates 3500
      "demo_answers 404 ''gone''" demo_providers demo_relay demo_owner] bound
    by (simp add: demo_notice_def demo_env_def)
qed

end
