(* ===== verification/Spec2Isabelle.thy ===== *)
theory Spec2Isabelle
  imports Codes Signing Delivery Transport RelayLimits RelayMirror RelayCodes PushDemo PhoneFollow PhoneMeet PhoneGate
    AttachFollow AttachUi SnapshotShown CliDesk HostProps RelayConfig ProviderProps
begin

text \<open>
  A verification development for shelly, which lets a phone watch and control the terminal
  sessions (agents, shells) that run on a computer.  Paths are relative to \<open>src/crates\<close>.

  The program's parts.  A daemon on the computer owns the sessions.  Each session runs a child
  on a PTY; one thread captures its output in a ring buffer, feeds a terminal emulator and
  broadcasts the output, others infer the agent's state, debounce resizes and save rows.  The
  command line talks to the daemon over a local socket, phones talk to it over iroh, an
  authenticated peer-to-peer transport, once an operator has approved their pairing.  A relay
  on the internet forwards push notifications to phones and resolves short pairing codes; the
  daemon signs its requests to the relay.

  Which theory models what.

  \<^item> \<open>Prelude\<close> (integers with their overflow policies, lists, the locales \<open>inv_machine\<close> and
    \<open>mono_machine\<close> for state machines), \<open>Interfaces\<close> (\<open>replay_log\<close>, \<open>prefix_code\<close>,
    \<open>keyed_store\<close>), \<open>Tables\<close> (ordered tables, what redb and SQLite promise of one), \<open>Rtext\<close>
    (Rust strings and their UTF-8).
  \<^item> \<open>Ptypes\<close>: \<open>protocol/src/types.rs\<close>, \<open>messages.rs\<close>, \<open>version.rs\<close>.  \<open>Codes\<close>: \<open>code.rs\<close>,
    \<open>pairing_security.rs\<close>, the text of tickets.  \<open>Framing\<close>: \<open>framing.rs\<close>.  \<open>Signing\<close>:
    \<open>signing.rs\<close>.
  \<^item> \<open>Ring\<close>: \<open>daemon/src/ring.rs\<close>.  \<open>Infer\<close>: \<open>state_infer/*.rs\<close>, \<open>authz.rs\<close>.  \<open>Terminal\<close>:
    \<open>TerminalProjection\<close> of \<open>terminal_model.rs\<close>, \<open>Snapshot\<close>: its \<open>TerminalModel\<close>;
    \<open>SnapshotShown\<close>: a terminal specified by its commands, and what it shows of a snapshot.
    \<open>Persist\<close>: \<open>persistence.rs\<close>.
  \<^item> \<open>Session\<close>: \<open>daemon/src/session.rs\<close>, one definition per method and per thread iteration;
    \<open>SessionRun\<close> and \<open>SessionOut\<close> are its machine, its abstract steps and its properties.
    \<open>Delivery\<close>: \<open>forward.rs\<close> and the attach arms, with capture and broadcast interleaved.
  \<^item> \<open>Pairing\<close>: \<open>pairing.rs\<close>.  \<open>Registry\<close> and \<open>RegistryInv\<close>: \<open>AppState\<close> of \<open>daemon/src/ipc.rs\<close>
    and its use cases.  \<open>LocalIpc\<close>: the local socket's connection, the same file.
    \<open>Transport\<close>: \<open>transport_iroh.rs\<close>, a phone's connection.
  \<^item> \<open>RelayTypes\<close>, \<open>RelayStore\<close>, \<open>Relay\<close>: \<open>relay/src/lib.rs\<close>: requests and errors, the SQLite
    tables, the state and the handlers.  \<open>RelayInv\<close> is the relay as a machine and the locale
    \<open>relay_kept\<close>: a predicate that each change of a handler keeps is kept by each handler.
    Its interpretations carry the properties: well-formedness (\<open>RelayInv\<close>), spent nonces
    (\<open>RelayReplay\<close>), keys (\<open>RelayProps\<close>), bounds (\<open>RelayBounds\<close>, witnesses in \<open>RelayLimits\<close>), rows
    that mirror the memory (\<open>RelayMirror\<close>), codes that are gone (\<open>RelayCodes\<close>).
  \<^item> \<open>PushWorker\<close>: \<open>daemon/src/push.rs\<close>, the loop that turns commands into signed requests.  What it
    uses of the outside is a record \<open>push_net\<close>; \<open>PushProps\<close> has the locale \<open>push_clock\<close> of one whose
    clock does not go back and whose requests end by their deadline.  \<open>RelayHttp\<close> is such a
    one: the relay's routes (\<open>app\<close>) and a network that carries the worker's requests to the
    modelled relay.  \<open>PushRelay\<close> and \<open>PushLost\<close> are properties of worker and relay together,
    \<open>PushDemo\<close> an instance with real base64 that their hypotheses hold on.
  \<^item> \<open>Phone\<close>: the types, errors and pairing gate of \<open>mobile-core/src/lib.rs\<close> and its attached
    terminal; \<open>PhoneNet\<close>: its client, one definition per exported method, as computations on the
    client and a world that answers for iroh and HTTP (\<open>phone_net\<close>).  \<open>Follow\<close> is the
    contract of a client that follows a session over many attachments, the locale
    \<open>follower\<close>; \<open>PhoneFollow\<close> shows that the attached terminal keeps it; \<open>PhonePair\<close> is a \<open>phone_net\<close> that carries
    the phone's frames to the modelled daemon, \<open>PhoneMeet\<close> the whole ceremony on it, and
    \<open>PhoneGate\<close> a pairing attempt under any order of taps and frames.
  \<^item> \<open>AttachLoop\<close>: \<open>cli/src/attach_loop.rs\<close>, the desktop client as a machine on the messages, the
    keyboard and the window; \<open>AttachUi\<close>: \<open>cli/src/attach_ui.rs\<close>, its renderer;
    \<open>AttachFollow\<close> shows that it keeps the contract of \<open>Follow\<close>.
  \<^item> The command line, \<open>cli/src\<close>.  \<open>CliText\<close>: what \<open>main.rs\<close> prints and parses; \<open>Service\<close>:
    \<open>service.rs\<close>; \<open>Cli\<close>: \<open>ipc.rs\<close>, \<open>terminal.rs\<close> and the commands for sessions, devices and hooks;
    \<open>CliPair\<close>: \<open>shelly pair\<close> and \<open>shelly daemon\<close>; \<open>CliRun\<close>: \<open>settings\<close>, \<open>doctor\<close> and all commands
    together.  A command is a \<open>task\<close>: a function of the two flags of \<open>terminal.rs\<close> and a world,
    with a value, an error, an exit or a signal as its end, or none when it waits for ever; what
    it calls is a record \<open>cli_net\<close>.  \<open>CliStart\<close> (locale \<open>steady\<close>: clocks go on), \<open>CliGuard\<close> (the two
    flags), \<open>CliConsent\<close> (a \<open>cli_net\<close> that logs) and \<open>CliTalk\<close> (locale \<open>daemon_link\<close>: what a daemon
    promises of its replies) prove properties on any of them; \<open>CliDesk\<close> is the \<open>cli_net\<close> that ends in
    the daemon of \<open>LocalIpc\<close>, where both locales are interpreted.
  \<^item> Files of the host.  \<open>HostFs\<close>: \<open>std::fs\<close> as paths with modes, owners, links and calls that
    may fail.  \<open>Settings\<close>: \<open>cli/src/settings.rs\<close> and \<open>update_notice.rs\<close>; \<open>Hostside\<close>:
    \<open>daemon/src/config.rs\<close>, \<open>paths.rs\<close>, \<open>logging.rs\<close>, \<open>main.rs\<close> and the checks of \<open>doctor\<close> on the same
    files; \<open>HostProps\<close>: their properties.
  \<^item> \<open>Providers\<close>: the relay's clients of the push services, \<open>relay/src/apns.rs\<close> and \<open>fcm.rs\<close>;
    \<open>RelayConfig\<close>: what the relay reads when it starts (\<open>lib.rs\<close>, \<open>main.rs\<close>, \<open>telemetry.rs\<close>,
    \<open>iroh_fallback.rs\<close>), the files of its database and the text of its metrics;
    \<open>ProviderProps\<close>: the tokens that the clients send, and those that the services refuse.

  How state and operations correspond.  A struct is a record with the source's fields, an enum
  a datatype, a method a function from the state (and what it reads from outside) to its
  result and the new state.  \<open>Result\<close> is a sum with the error on the left; messages sent,
  bytes written and rows saved are logs in the state.  A \<open>HashMap\<close> is an association list with
  distinct keys whose order nothing relies on.  Text is a list of Unicode scalar values, bytes
  are \<open>8 word\<close>, a \<open>u64\<close> is a natural number where nothing can overflow and carries its
  wrapping, saturating or checked operation from \<open>Prelude\<close> where the code chooses one.  What
  the kernel, the clock, the database, random numbers and other crates answer is an argument;
  what a proof needs of a crate is a named hypothesis of its property.

  What the lemmas show.

  \<^item> Sessions: the ring and the broadcast carry the same bytes in order; an attaching client
    gets each byte once, however capture, broadcast and attach interleave; input is
    written in order; one exit, one final state; the saved row is what a restart shows.
  \<^item> Pairing and access: a device becomes paired only by an operator's yes; a peer that is not
    paired changes nothing else; a revoked device is served no more; a code is used once.
  \<^item> Registry: names are unique and reserved exactly while used; what create, kill and device
    administration leave on every branch.
  \<^item> Protocol: frames, tickets and rows are read back; the signed text and the
    fingerprint's transcript determine what they bind.
  \<^item> Relay: no signed request is accepted twice; a known daemon's key changes only by a request
    its old key signed; memory is bounded and refined by the database across restarts; a
    published code resolves once.
  \<^item> Push: a session event reaches every paired phone that the relay knows the token of; the
    worker handles every command within the budget of its retries, whatever the relay does; the
    relay sends Apple and Google no stale token and drops a phone's token only when they refuse it.
  \<^item> Snapshots: a client that reads one shows the emulator's screen, cell by cell in its style.
  \<^item> Desktop client: what it shows is what its renderer makes of the session's output, each byte
    once and in order, over any number of lags; what is typed is forwarded as it is, up to
    the detach keys; the status line fills its row.
  \<^item> Phone: a phone that reattaches with its position is handed the session's output byte for
    byte, wherever its connections are cut; a phone that ends up paired and its daemon agree
    on code, keys and fingerprint; a ceremony on a connection that holds ends as the operator
    answers; a phone saves a daemon only after the user's yes and the daemon's completion.
  \<^item> Command line: \<open>pair\<close> approves only after the fingerprint of that very request was shown and
    a \<open>y\<close> was pressed; the terminal is restored however \<open>pair\<close> or \<open>attach\<close> ends; \<open>kill\<close> removes the
    session it names; no reply of the daemon is one the command does not expect; waiting for a
    daemon ends when nobody watches.
  \<^item> Host files: a settings file is the old or the new one whichever call fails, and the daemon
    reads the switch that was written; the socket and its directory are private.
  \<^item> Flaws: the theorems on a failed attach, a failed push token update, the race of the idle
    thread, the token cap, the race of two lookups, the worker whose registration the relay has
    lost, a snapshot of a row with a tab and \<open>kill\<close> with an empty text state what the code
    does and a careful reader may not expect.

  Bounds and fuel.  A PTY drain reads at most the 64 chunks of the code's own limit.
  \<open>evict_excess\<close> removes restored sessions one by one, with as much fuel as there are sessions.
  The search for a free automatic name tries one name more than are reserved, so that one is
  free.  Loops over input are recursions on the input.  The retries of the push worker are a
  \<open>partial_function\<close>, proved to end: each waits at least the smallest delay, and none starts
  after the deadline.  The relay's rate-limit caches are maps
  without eviction: the code's capacity of 100000 buckets and their expiry after their minute
  are not modelled.

  Steps.  A method or handler runs as one step unless its parts are definitions of their own:
  capture and broadcast, the two halves of the idle thread, the wait for an operator's answer,
  the two critical sections of resolving a code.  Handlers of the relay that await a database
  call are otherwise one step; \<open>relay_env\<close> has a clock reading per point where time may have
  passed.

  Not modelled: the terminal emulator (a parameter of the model), PTY and process creation,
  accepting connections, opening databases and the keychain, the iroh endpoint, the
  HTTP client and server (the routes and what is sent are modelled), the iroh relay that the
  relay configures, the export of traces, the set-up of tracing, the parsing of the
  command line's arguments, its thread that reads the keyboard, the hook that restores the
  terminal in a panic, its test client (a build feature), the phones' foreign-function
  bindings, the heartbeat task of a phone's session list and the setting up of its HTTP client: they are I/O around third-party code.
  \<open>PhonePair\<close> has one connection of the phone; what other clients do in the meantime is a plan
  of the daemon's events, an argument.
  Tracing calls have no counterpart.
\<close>

end
